(* ===== verification/Prelude.thy ===== *)
theory Prelude
  imports Main "HOL-Library.Word"
begin

text \<open>
  Shared ground of the development: the names of the machine types, the result type of an
  instruction handler, little-endian byte access, copies inside byte buffers, lists updated by
  index, and the interfaces (locales) that several components implement.

  \<^item> A 32-bit C integer is \<open>32 word\<close>; \<open>size_t\<close> values that stay far below
    \<open>2 ^ 64\<close> (lengths of blobs and stack pointers) are \<open>nat\<close>.
  \<^item> An instruction handler returns \<open>'s hres\<close>: \<open>Yield\<close> is the C code's
    \<open>EPA_FLOW_YIELDED\<close>, \<open>Fault\<close> its \<open>EPA_FLOW_ERR\<close> together with the
    format string of the message written into \<open>err\<close> (the arguments of the message are
    not rendered) and the state at the point of return, and \<open>Undef\<close> an execution without
    a result: its behaviour is left undefined by the C standard (an access outside an object,
    signed overflow) or a loop of it does not end.
\<close>

unbundle bit_operations_syntax

named_theorems wf_intros \<open>preservation of the well-formedness invariants\<close>
named_theorems op_defs \<open>unfolding of operations\<close>

section \<open>Machine types\<close>

type_synonym u8 = "8 word"
type_synonym u16 = "16 word"
type_synonym u32 = "32 word"
type_synonym u64 = "64 word"

datatype 's hres = Yield 's | Fault string 's | Undef

lemma u32_bound: "unat (x :: u32) < 4294967296"
  using unsigned_less [of x, where ?'a = nat] by simp

lemma u64_bound: "unat (x :: u64) < 18446744073709551616"
  using unsigned_less [of x, where ?'a = nat] by simp

lemma u16_bound: "unat (x :: u16) < 65536"
  using unsigned_less [of x, where ?'a = nat] by simp

lemma u8_bound: "unat (x :: u8) < 256"
  using unsigned_less [of x, where ?'a = nat] by simp

lemma unat_suc_u32: "(a :: u32) < b \<Longrightarrow> unat (a + 1) = Suc (unat a)"
proof -
  assume "a < b"
  then have "unat a < unat b" by (simp add: word_less_nat_alt)
  with u32_bound [of b] show ?thesis by (simp add: unat_word_ariths)
qed

definition no_ub :: "'s hres \<Rightarrow> bool" where
  "no_ub r = (case r of Undef \<Rightarrow> False | _ \<Rightarrow> True)"

lemma no_ub_simps [simp]: "no_ub (Yield s)" "no_ub (Fault m s)" "\<not> no_ub Undef"
  by (simp_all add: no_ub_def)

lemma no_ub_iff: "no_ub r \<longleftrightarrow> r \<noteq> Undef"
  by (cases r) simp_all

text \<open>A C function that returns 0 or 1 and its results through pointers: \<open>CFail\<close> is the
  return value 0, \<open>COk\<close> the value 1 with the results, \<open>CUndef\<close> undefined behaviour.
  \<open>chk\<close> is the calling pattern \<open>if (!f(...)) { snprintf(err, ...); return ERR; }\<close>.\<close>

datatype 'a cres = COk 'a | CFail | CUndef

definition chk :: "'a cres \<Rightarrow> string \<Rightarrow> 's \<Rightarrow> ('a \<Rightarrow> 's hres) \<Rightarrow> 's hres" where
  "chk r msg s k = (case r of COk a \<Rightarrow> k a | CFail \<Rightarrow> Fault msg s | CUndef \<Rightarrow> Undef)"

lemma chk_simps [simp]:
  "chk (COk a) msg s k = k a"
  "chk CFail msg s k = Fault msg s"
  "chk CUndef msg s k = Undef"
  by (simp_all add: chk_def)

lemma pred_chk [wf_intros]:
  "P s \<Longrightarrow> (\<And>a. r = COk a \<Longrightarrow> pred_hres P (k a)) \<Longrightarrow> pred_hres P (chk r msg s k)"
  by (cases r) simp_all

lemma chk_eq_Yield:
  "chk r msg s k = Yield s' \<longleftrightarrow> (\<exists>a. r = COk a \<and> k a = Yield s')"
  by (cases r) simp_all

text \<open>A C function that returns an error code of type \<open>'e\<close>: \<open>Ok\<close> is the
  success code with the results, \<open>Err\<close> an error code, \<open>Ub\<close> undefined
  behaviour.\<close>

datatype ('e, 'a) res = Ok 'a | Err 'e | Ub

lemma map_res_eq_Ok: "map_res f g r = Ok y \<longleftrightarrow> (\<exists>x. r = Ok x \<and> y = g x)"
  by (cases r) auto

text \<open>An allocator: \<open>None\<close> is \<open>NULL\<close>, \<open>Some b\<close> a block with (arbitrary)
  initial contents \<open>b\<close>.\<close>

type_synonym allocator = "nat \<Rightarrow> u8 list option"

definition alloc_ok :: "allocator \<Rightarrow> bool" where
  "alloc_ok al \<longleftrightarrow> (\<forall>n b. al n = Some b \<longrightarrow> length b = n)"

definition zero_alloc :: allocator where
  "zero_alloc n = Some (replicate n 0)"

lemma alloc_ok_zero: "alloc_ok zero_alloc"
  by (simp add: alloc_ok_def zero_alloc_def)

lemma alloc_okD: "alloc_ok al \<Longrightarrow> al n = Some b \<Longrightarrow> length b = n"
  by (simp add: alloc_ok_def)

section \<open>Little-endian words in byte buffers\<close>

definition read_u16_le :: "u8 list \<Rightarrow> nat \<Rightarrow> u16" where
  "read_u16_le buf off = ucast (buf ! off) OR push_bit 8 (ucast (buf ! (off + 1)))"

definition read_u32_le :: "u8 list \<Rightarrow> nat \<Rightarrow> u32" where
  "read_u32_le buf off =
     ucast (buf ! off) OR push_bit 8 (ucast (buf ! (off + 1)))
     OR push_bit 16 (ucast (buf ! (off + 2))) OR push_bit 24 (ucast (buf ! (off + 3)))"

definition u32_le_bytes :: "u32 \<Rightarrow> u8 list" where
  "u32_le_bytes v = [ucast v, ucast (drop_bit 8 v), ucast (drop_bit 16 v), ucast (drop_bit 24 v)]"

lemma length_u32_le_bytes [simp]: "length (u32_le_bytes v) = 4"
  by (simp add: u32_le_bytes_def)

lemma u32_le_join:
  "(ucast (ucast v :: u8) :: u32) OR push_bit 8 (ucast (ucast (drop_bit 8 v) :: u8))
   OR push_bit 16 (ucast (ucast (drop_bit 16 v) :: u8))
   OR push_bit 24 (ucast (ucast (drop_bit 24 v) :: u8)) = v"
proof (rule bit_word_eqI)
  fix n :: nat
  assume n: "n < LENGTH(32)"
  consider "n < 8" | "8 \<le> n" "n < 16" | "16 \<le> n" "n < 24" | "24 \<le> n" "n < 32"
    using n by force
  then show "bit ((ucast (ucast v :: u8) :: u32) OR push_bit 8 (ucast (ucast (drop_bit 8 v) :: u8))
     OR push_bit 16 (ucast (ucast (drop_bit 16 v) :: u8))
     OR push_bit 24 (ucast (ucast (drop_bit 24 v) :: u8))) n = bit v n"
    using n by cases (auto simp: bit_simps)
qed

lemma read_u32_le_bytes: "read_u32_le (xs @ u32_le_bytes v @ ys) (length xs) = v"
  by (simp add: read_u32_le_def u32_le_bytes_def nth_append u32_le_join)

section \<open>Lists updated by index\<close>

lemma nth_update_if: "j < length xs \<Longrightarrow> xs[i := x] ! j = (if j = i then x else xs ! j)"
  by (cases "j = i") auto

section \<open>Copies inside byte buffers\<close>

text \<open>\<open>memcpy\<close> out of and into a buffer, at an offset.\<close>

definition mem_read :: "u8 list \<Rightarrow> nat \<Rightarrow> nat \<Rightarrow> u8 list" where
  "mem_read buf off len = take len (drop off buf)"

definition mem_write :: "u8 list \<Rightarrow> nat \<Rightarrow> u8 list \<Rightarrow> u8 list" where
  "mem_write buf off src = take off buf @ src @ drop (off + length src) buf"

lemma length_mem_read [simp]: "off + len \<le> length buf \<Longrightarrow> length (mem_read buf off len) = len"
  by (simp add: mem_read_def)

lemma length_mem_write [simp]:
  "off + length src \<le> length buf \<Longrightarrow> length (mem_write buf off src) = length buf"
  by (simp add: mem_write_def)

lemma mem_read_write_same:
  "off + length src \<le> length buf \<Longrightarrow> mem_read (mem_write buf off src) off (length src) = src"
  by (simp add: mem_read_def mem_write_def)

lemma nth_mem_write:
  "off + length src \<le> length buf \<Longrightarrow> i < length buf \<Longrightarrow>
   mem_write buf off src ! i =
     (if off \<le> i \<and> i < off + length src then src ! (i - off) else buf ! i)"
  by (auto simp: mem_write_def nth_append min_def)

lemma mem_read_write_other:
  assumes "off + length src \<le> length buf" and "o2 + len \<le> length buf"
    and "o2 + len \<le> off \<or> off + length src \<le> o2"
  shows "mem_read (mem_write buf off src) o2 len = mem_read buf o2 len"
proof (rule nth_equalityI)
  show "length (mem_read (mem_write buf off src) o2 len) = length (mem_read buf o2 len)"
    using assms by simp
next
  fix i assume "i < length (mem_read (mem_write buf off src) o2 len)"
  then have "i < len" using assms by simp
  then show "mem_read (mem_write buf off src) o2 len ! i = mem_read buf o2 len ! i"
    using assms by (auto simp: mem_read_def nth_mem_write)
qed

lemma mem_write_nil: "mem_write buf off [] = buf"
  by (simp add: mem_write_def)

lemma take_mem_write:
  assumes "off + length src \<le> n" and "n \<le> length buf"
  shows "take n (mem_write buf off src) = mem_write (take n buf) off src"
proof (cases "n \<le> off")
  case True
  with assms(1) have "n = off \<and> length src = 0" by linarith
  with assms(2) show ?thesis by (simp add: mem_write_def)
qed (use assms in \<open>auto simp: mem_write_def min_def take_drop\<close>)

lemma mem_read_whole [simp]: "mem_read buf 0 (length buf) = buf"
  by (simp add: mem_read_def)

lemma read_u32_le_mem_write:
  assumes "off + 4 \<le> length buf"
  shows "read_u32_le (mem_write buf off (u32_le_bytes v)) off = v"
proof -
  have "length (take off buf) = off" using assms by simp
  then show ?thesis
    using read_u32_le_bytes [of "take off buf" v "drop (off + 4) buf"]
    by (simp add: mem_write_def)
qed

section \<open>64-bit handles\<close>

text \<open>Both handle tables pack a generation (high half) and an index (low half).\<close>

lemma handle_low: "(ucast ((push_bit 32 (ucast (g :: u32)) OR ucast (i :: u32) :: u64) AND 0xFFFFFFFF) :: u32) = i"
proof (rule bit_word_eqI)
  fix n :: nat
  assume n: "n < LENGTH(32)"
  have m: "(0xFFFFFFFF :: u64) = mask 32" by (simp add: mask_eq_exp_minus_1)
  show "bit (ucast ((push_bit 32 (ucast g) OR ucast i :: u64) AND 0xFFFFFFFF) :: u32) n = bit i n"
    using n unfolding m by (auto simp: bit_simps)
qed

lemma handle_high: "(ucast (drop_bit 32 (push_bit 32 (ucast (g :: u32)) OR ucast (i :: u32) :: u64)) :: u32) = g"
  by (rule bit_word_eqI) (auto simp: bit_simps dest: bit_imp_le_length)

lemma handle_split:
  "(h :: u64) = push_bit 32 (ucast (ucast (drop_bit 32 h) :: u32) :: u64)
     OR (ucast (ucast (h AND 0xFFFFFFFF) :: u32) :: u64)"
proof (rule bit_word_eqI)
  fix n :: nat
  assume n: "n < LENGTH(64)"
  have m: "(0xFFFFFFFF :: u64) = mask 32" by (simp add: mask_eq_exp_minus_1)
  show "bit h n = bit (push_bit 32 (ucast (ucast (drop_bit 32 h) :: u32) :: u64)
     OR (ucast (ucast (h AND 0xFFFFFFFF) :: u32) :: u64)) n"
    using n unfolding m by (auto simp: bit_simps)
qed

text \<open>The program's overflow-free bounds check, as two early returns.\<close>

lemma word_room:
  "(if (off :: u32) > sz then x else if len > sz - off then x else y) =
   (if unat off + unat len \<le> unat sz then y else x)"
  by (auto simp: word_less_nat_alt unat_sub word_le_nat_alt not_less)

section \<open>Nested state\<close>

text \<open>A handler on a part of the state, run on the whole: \<open>lift_h get put h\<close>. The laws
  that make this faithful are the interface \<open>state_field\<close>.\<close>

definition lift_h :: "('s \<Rightarrow> 'v) \<Rightarrow> ('v \<Rightarrow> 's \<Rightarrow> 's) \<Rightarrow> ('v \<Rightarrow> 'v hres) \<Rightarrow> 's \<Rightarrow> 's hres" where
  "lift_h get put h s = map_hres (\<lambda>v. put v s) (h (get s))"

locale state_field =
  fixes get :: "'s \<Rightarrow> 'v"
    and put :: "'v \<Rightarrow> 's \<Rightarrow> 's"
  assumes get_put: "get (put v s) = v"
    and put_get: "put (get s) s = s"
    and put_put: "put v' (put v s) = put v' s"
begin

lemma lift_pred:
  assumes "\<And>v. P v \<Longrightarrow> pred_hres P (h v)" and "P (get s)"
  shows "pred_hres (\<lambda>s'. P (get s') \<and> s' = put (get s') s) (lift_h get put h s)"
  using assms(1) [OF assms(2)]
  by (cases "h (get s)") (simp_all add: lift_h_def get_put)

lemma lift_frame:
  "pred_hres (\<lambda>s'. s' = put (get s') s) (lift_h get put h s)"
  by (cases "h (get s)") (simp_all add: lift_h_def get_put)

lemma lift_lift:
  assumes "state_field get2 put2"
  shows "lift_h get put (lift_h get2 put2 h) s =
         lift_h (\<lambda>s. get2 (get s)) (\<lambda>v s. put (put2 v (get s)) s) h s"
  by (cases "h (get2 (get s))") (simp_all add: lift_h_def)

end

section \<open>Bounded first-in first-out queues\<close>

text \<open>
  The interface of every queue of the program: word rings, ingress queues and the system request
  rings. \<open>contents\<close> is the abstract queue, oldest element first. The clients use bulk
  transfers, which are the two folds below.
\<close>

fun enq_all :: "('a \<Rightarrow> 'q \<Rightarrow> 'q option) \<Rightarrow> 'a list \<Rightarrow> 'q \<Rightarrow> 'q option" where
  "enq_all enq [] q = Some q"
| "enq_all enq (x # xs) q = (case enq x q of None \<Rightarrow> None | Some q' \<Rightarrow> enq_all enq xs q')"

fun deq_n :: "('q \<Rightarrow> ('a \<times> 'q) option) \<Rightarrow> nat \<Rightarrow> 'q \<Rightarrow> ('a list \<times> 'q) option" where
  "deq_n deq 0 q = Some ([], q)"
| "deq_n deq (Suc n) q =
     (case deq q of None \<Rightarrow> None
      | Some (x, q') \<Rightarrow> (case deq_n deq n q' of None \<Rightarrow> None | Some (xs, q'') \<Rightarrow> Some (x # xs, q'')))"

locale bounded_fifo =
  fixes invar :: "'q \<Rightarrow> bool"
    and capacity :: "'q \<Rightarrow> nat"
    and contents :: "'q \<Rightarrow> 'a list"
    and enq :: "'a \<Rightarrow> 'q \<Rightarrow> 'q option"
    and deq :: "'q \<Rightarrow> ('a \<times> 'q) option"
  assumes within_capacity: "invar q \<Longrightarrow> length (contents q) \<le> capacity q"
    and enq_full: "invar q \<Longrightarrow> length (contents q) = capacity q \<Longrightarrow> enq x q = None"
    and enq_room: "invar q \<Longrightarrow> length (contents q) < capacity q \<Longrightarrow>
      \<exists>q'. enq x q = Some q' \<and> invar q' \<and> capacity q' = capacity q \<and> contents q' = contents q @ [x]"
    and deq_empty: "invar q \<Longrightarrow> contents q = [] \<Longrightarrow> deq q = None"
    and deq_front: "invar q \<Longrightarrow> contents q = x # xs \<Longrightarrow>
      \<exists>q'. deq q = Some (x, q') \<and> invar q' \<and> capacity q' = capacity q \<and> contents q' = xs"
begin

lemma enq_all_room:
  assumes "invar q" and "length (contents q) + length xs \<le> capacity q"
  shows "\<exists>q'. enq_all enq xs q = Some q' \<and> invar q' \<and> capacity q' = capacity q
              \<and> contents q' = contents q @ xs"
  using assms
proof (induction xs arbitrary: q)
  case Nil
  then show ?case by simp
next
  case (Cons x xs)
  from Cons.prems obtain q1 where q1: "enq x q = Some q1" "invar q1" "capacity q1 = capacity q"
      "contents q1 = contents q @ [x]"
    using enq_room [of q x] by auto
  with Cons.IH [of q1] Cons.prems show ?case by auto
qed

lemma deq_n_prefix:
  assumes "invar q" and "n \<le> length (contents q)"
  shows "\<exists>q'. deq_n deq n q = Some (take n (contents q), q') \<and> invar q'
              \<and> capacity q' = capacity q \<and> contents q' = drop n (contents q)"
  using assms
proof (induction n arbitrary: q)
  case 0
  then show ?case by simp
next
  case (Suc n)
  from Suc.prems obtain x xs where xs: "contents q = x # xs" by (cases "contents q") auto
  from deq_front [OF Suc.prems(1) xs] obtain q1 where
    q1: "deq q = Some (x, q1)" "invar q1" "capacity q1 = capacity q" "contents q1 = xs" by blast
  with Suc.IH [of q1] Suc.prems xs show ?case by auto
qed

lemma fifo_roundtrip:
  assumes "invar q" and "contents q = []" and "length xs \<le> capacity q"
  shows "\<exists>q1 q2. enq_all enq xs q = Some q1 \<and> deq_n deq (length xs) q1 = Some (xs, q2)
                 \<and> contents q2 = [] \<and> invar q2"
proof -
  from enq_all_room [of q xs] assms obtain q1 where
    q1: "enq_all enq xs q = Some q1" "invar q1" "contents q1 = xs" by auto
  from deq_n_prefix [of q1 "length xs"] q1 show ?thesis by auto
qed

end

section \<open>Handle tables\<close>

text \<open>
  The interface of the two tables of handles, the global handle space and the read-only global
  memory. \<open>ins\<close> enters a payload and returns its handle, \<open>rd\<close> copies bytes
  out of the payload a handle names.
\<close>

fun ins_all :: "('x \<Rightarrow> 't \<Rightarrow> ('h \<times> 't) option) \<Rightarrow> 'x list \<Rightarrow> 't \<Rightarrow> ('h list \<times> 't) option" where
  "ins_all ins [] t = Some ([], t)"
| "ins_all ins (x # xs) t =
     (case ins x t of None \<Rightarrow> None
      | Some (h, t') \<Rightarrow> (case ins_all ins xs t' of None \<Rightarrow> None | Some (hs, t'') \<Rightarrow> Some (h # hs, t'')))"

locale handle_table =
  fixes invar :: "'t \<Rightarrow> bool"
    and valid :: "'t \<Rightarrow> 'h \<Rightarrow> bool"
    and payload :: "'t \<Rightarrow> 'h \<Rightarrow> u8 list"
    and ins :: "'x \<Rightarrow> 't \<Rightarrow> ('h \<times> 't) option"
    and rd :: "'t \<Rightarrow> 'h \<Rightarrow> nat \<Rightarrow> nat \<Rightarrow> u8 list option"
  assumes ins_invar: "invar t \<Longrightarrow> ins x t = Some (h, t') \<Longrightarrow> invar t'"
    and ins_valid: "invar t \<Longrightarrow> ins x t = Some (h, t') \<Longrightarrow> valid t' h"
    and ins_frame: "invar t \<Longrightarrow> ins x t = Some (h, t') \<Longrightarrow> valid t h' \<Longrightarrow>
      valid t' h' \<and> payload t' h' = payload t h'"
    and rd_payload: "invar t \<Longrightarrow> rd t h off len =
      (if valid t h \<and> off + len \<le> length (payload t h) then Some (mem_read (payload t h) off len)
       else None)"
begin

lemma ins_all_frame:
  assumes "invar t" and "ins_all ins xs t = Some (hs, t')" and "valid t h"
  shows "invar t' \<and> valid t' h \<and> rd t' h off len = rd t h off len"
  using assms
proof (induction xs arbitrary: t hs)
  case Nil
  then show ?case by simp
next
  case (Cons x xs)
  from Cons.prems obtain h1 t1 hs1 where
    i: "ins x t = Some (h1, t1)" "ins_all ins xs t1 = Some (hs1, t')"
    by (auto split: option.splits prod.splits)
  from ins_invar [OF Cons.prems(1) i(1)] ins_frame [OF Cons.prems(1) i(1) Cons.prems(3)]
  have "invar t1" "valid t1 h" "payload t1 h = payload t h" by auto
  with Cons.IH [OF _ i(2)] Cons.prems(1,3) show ?case by (simp add: rd_payload)
qed

lemma ins_all_valid: "invar t \<Longrightarrow> ins_all ins xs t = Some (hs, t') \<Longrightarrow> h \<in> set hs \<Longrightarrow> valid t' h"
proof (induction xs arbitrary: t hs)
  case (Cons x xs)
  from Cons.prems obtain h1 t1 hs1 where
    i: "ins x t = Some (h1, t1)" "ins_all ins xs t1 = Some (hs1, t')" "hs = h1 # hs1"
    by (auto split: option.splits prod.splits)
  have t1: "invar t1" "valid t1 h1" using ins_invar [OF Cons.prems(1) i(1)] ins_valid [OF Cons.prems(1) i(1)] by auto
  then show ?case using Cons.IH [OF t1(1) i(2)] ins_all_frame [OF t1(1) i(2) t1(2)] Cons.prems(3) i(3) by auto
qed simp

end

text \<open>A table whose handles are new each time.\<close>

locale fresh_handle_table = handle_table +
  assumes ins_new: "invar t \<Longrightarrow> ins x t = Some (h, t') \<Longrightarrow> \<not> valid t h"
begin

lemma ins_all_fresh:
  assumes "invar t" and "ins_all ins xs t = Some (hs, t')"
  shows "distinct hs \<and> (\<forall>h \<in> set hs. \<not> valid t h \<and> valid t' h)"
  using assms
proof (induction xs arbitrary: t hs)
  case Nil
  then show ?case by simp
next
  case (Cons x xs)
  from Cons.prems obtain h1 t1 hs1 where
    i: "ins x t = Some (h1, t1)" "ins_all ins xs t1 = Some (hs1, t')" "hs = h1 # hs1"
    by (auto split: option.splits prod.splits)
  have t1: "invar t1" "valid t1 h1" "\<not> valid t h1"
    using ins_invar [OF Cons.prems(1) i(1)] ins_valid [OF Cons.prems(1) i(1)] ins_new [OF Cons.prems(1) i(1)] by auto
  have "valid t' h1" using ins_all_frame [OF t1(1) i(2) t1(2)] by blast
  moreover have "\<not> valid t h" if "h \<in> set hs1" for h
    using Cons.IH [OF t1(1) i(2)] ins_frame [OF Cons.prems(1) i(1)] that by blast
  ultimately show ?case using Cons.IH [OF t1(1) i(2)] t1 i(3) by auto
qed

end

end
