(* ===== verification/EpaRing.thy ===== *)
theory EpaRing
  imports Prelude
begin

text \<open>
  The bounded ring of 32-bit words, \<open>IdRing\<close>, of
  \<open>src/memory/epa_ring_buffer.c\<close>: every worker's input and output queue and the
  kernel's sync queue. \<open>ring_contents\<close> is its abstract queue; the operations are shown
  to implement the bounded queue interface of the prelude, and a soft push to drop exactly
  the oldest word.
\<close>

record id_ring =
  r_buf :: "u32 list option"
  r_cap :: u32
  r_head :: u32
  r_tail :: u32
  r_count :: u32

definition ring_zero :: id_ring where
  "ring_zero = \<lparr>r_buf = None, r_cap = 0, r_head = 0, r_tail = 0, r_count = 0\<rparr>"

text \<open>\<open>ok\<close> is the answer of \<open>calloc\<close>; the result is the C function's return value
  with the ring.\<close>

definition epa_ring_init :: "bool \<Rightarrow> id_ring \<Rightarrow> u32 \<Rightarrow> bool \<times> id_ring" where
  "epa_ring_init ok r cap =
     (if cap = 0 then (False, r)
      else if \<not> ok then (False, ring_zero)
      else (True, ring_zero\<lparr>r_buf := Some (replicate (unat cap) 0), r_cap := cap\<rparr>))"

definition epa_ring_free :: "id_ring \<Rightarrow> id_ring" where
  "epa_ring_free r = ring_zero"

definition epa_ring_clear :: "id_ring \<Rightarrow> id_ring" where
  "epa_ring_clear r = r\<lparr>r_head := 0, r_tail := 0, r_count := 0\<rparr>"

definition ring_push :: "id_ring \<Rightarrow> u32 list \<Rightarrow> u32 \<Rightarrow> bool \<Rightarrow> string + id_ring" where
  "ring_push r buf x soft =
     (if r_count r = r_cap r \<and> \<not> soft then Inl ''ring full''
      else
        let r1 = (if r_count r = r_cap r
                  then r\<lparr>r_head := (r_head r + 1) mod r_cap r, r_count := r_count r - 1\<rparr>
                  else r)
        in Inr (r1\<lparr>r_buf := Some (buf[unat (r_tail r1) := x]),
                   r_tail := (r_tail r1 + 1) mod r_cap r1,
                   r_count := r_count r1 + 1\<rparr>))"

definition ring_pop :: "id_ring \<Rightarrow> u32 list \<Rightarrow> (u32 \<times> id_ring) option" where
  "ring_pop r buf =
     (if r_count r = 0 then None
      else Some (buf ! unat (r_head r),
                 r\<lparr>r_head := (r_head r + 1) mod r_cap r, r_count := r_count r - 1\<rparr>))"

definition epa_ring_push :: "id_ring \<Rightarrow> u32 \<Rightarrow> bool \<Rightarrow> string + id_ring" where
  "epa_ring_push r x soft =
     (case r_buf r of
        None \<Rightarrow> Inl ''ring not initialized''
      | Some buf \<Rightarrow>
          if r_cap r = 0 then Inl ''ring not initialized'' else ring_push r buf x soft)"

definition epa_ring_pop :: "id_ring \<Rightarrow> (u32 \<times> id_ring) option" where
  "epa_ring_pop r =
     (case r_buf r of
        None \<Rightarrow> None
      | Some buf \<Rightarrow> if r_cap r = 0 then None else ring_pop r buf)"

definition epa_ring_count :: "id_ring \<Rightarrow> u32" where
  "epa_ring_count r = r_count r"

definition epa_ring_space :: "id_ring \<Rightarrow> u32" where
  "epa_ring_space r = (if r_cap r < r_count r then 0 else r_cap r - r_count r)"

section \<open>Invariant and abstract queue\<close>

definition ring_inv :: "id_ring \<Rightarrow> bool" where
  "ring_inv r \<longleftrightarrow>
     (case r_buf r of
        None \<Rightarrow> r_cap r = 0 \<and> r_head r = 0 \<and> r_tail r = 0 \<and> r_count r = 0
      | Some buf \<Rightarrow>
          0 < r_cap r \<and> length buf = unat (r_cap r) \<and> r_head r < r_cap r
          \<and> r_count r \<le> r_cap r
          \<and> unat (r_tail r) = (unat (r_head r) + unat (r_count r)) mod unat (r_cap r))"

definition ring_contents :: "id_ring \<Rightarrow> u32 list" where
  "ring_contents r =
     (case r_buf r of
        None \<Rightarrow> []
      | Some buf \<Rightarrow>
          map (\<lambda>i. buf ! ((unat (r_head r) + i) mod unat (r_cap r))) [0..<unat (r_count r)])"

lemma unat_ring_next:
  assumes "(h :: u32) < c"
  shows "unat ((h + 1) mod c) = (unat h + 1) mod unat c"
proof -
  have "unat h < unat c" using assms by (simp add: word_less_nat_alt)
  moreover note u32_bound [of c]
  ultimately have "unat (h + 1) = unat h + 1"
    by (simp add: unat_word_ariths)
  then show ?thesis by (simp add: unat_mod)
qed

lemma unat_dec: "(c :: u32) \<noteq> 0 \<Longrightarrow> unat (c - 1) = unat c - 1"
  by (simp add: unat_minus_one)

lemma unat_inc: "(c :: u32) < d \<Longrightarrow> unat (c + 1) = unat c + 1"
proof -
  assume "c < d"
  then have "unat c < unat d" by (simp add: word_less_nat_alt)
  moreover note u32_bound [of d]
  ultimately show ?thesis by (simp add: unat_word_ariths)
qed

lemma length_ring_contents: "ring_inv r \<Longrightarrow> length (ring_contents r) = unat (r_count r)"
  by (auto simp: ring_inv_def ring_contents_def split: option.splits)

lemma ring_inv_init: "epa_ring_init ok r cap = (True, r') \<Longrightarrow> ring_inv r' \<and> ring_contents r' = []"
  by (auto simp: epa_ring_init_def ring_inv_def ring_contents_def ring_zero_def word_gt_0 split: if_splits)

lemma ring_inv_clear: "ring_inv r \<Longrightarrow> ring_inv (epa_ring_clear r) \<and> ring_contents (epa_ring_clear r) = []"
  by (auto simp: epa_ring_clear_def ring_inv_def ring_contents_def split: option.splits)

lemma ring_inv_zero: "ring_inv ring_zero"
  by (simp add: ring_inv_def ring_zero_def)

lemma ring_write_contents:
  assumes c: "cnt < cap" and hh: "h < cap" and len: "length buf = cap"
    and t: "t = (h + cnt) mod cap"
  shows "map (\<lambda>i. buf[t := x] ! ((h + i) mod cap)) [0..<Suc cnt] =
         map (\<lambda>i. buf ! ((h + i) mod cap)) [0..<cnt] @ [x]"
proof -
  have ne: "(h + i) mod cap \<noteq> t" if "i < cnt" for i
  proof
    assume "(h + i) mod cap = t"
    then have "(h + cnt) mod cap = (h + i) mod cap" by (simp add: t)
    then have "cap dvd (h + cnt) - (h + i)"
      by (subst (asm) mod_eq_dvd_iff_nat) (use that in simp_all)
    then show False using that c by (auto dest: dvd_imp_le)
  qed
  have "t < length buf" using c by (simp add: t len)
  then show ?thesis by (auto simp: nth_list_update t [symmetric] dest: ne)
qed


lemma ring_inv_Some:
  "ring_inv r \<Longrightarrow> r_buf r = Some buf \<Longrightarrow>
   0 < unat (r_cap r) \<and> length buf = unat (r_cap r) \<and> unat (r_head r) < unat (r_cap r)
   \<and> unat (r_count r) \<le> unat (r_cap r) \<and> r_head r < r_cap r
   \<and> unat (r_tail r) = (unat (r_head r) + unat (r_count r)) mod unat (r_cap r)"
  by (auto simp: ring_inv_def word_less_nat_alt word_le_nat_alt)

lemma ring_append:
  fixes r :: id_ring and x :: u32
  assumes inv: "ring_inv r" and buf: "r_buf r = Some buf" and room: "r_count r < r_cap r"
  defines "r' \<equiv> r\<lparr>r_buf := Some (buf[unat (r_tail r) := x]),
                   r_tail := (r_tail r + 1) mod r_cap r, r_count := r_count r + 1\<rparr>"
  shows "ring_inv r'" and "ring_contents r' = ring_contents r @ [x]"
proof -
  note facts = ring_inv_Some [OF inv buf]
  have cnt: "unat (r_count r + 1) = Suc (unat (r_count r))" using unat_inc [OF room] by simp
  have room': "unat (r_count r) < unat (r_cap r)" using room by (simp add: word_less_nat_alt)
  have tl: "r_tail r < r_cap r" using facts by (simp add: word_less_nat_alt)
  have tl': "unat ((r_tail r + 1) mod r_cap r) =
      (unat (r_head r) + Suc (unat (r_count r))) mod unat (r_cap r)"
    using unat_ring_next [OF tl] facts by (simp add: mod_Suc_eq)
  show "ring_inv r'"
    using facts room' by (simp add: r'_def ring_inv_def word_less_nat_alt word_le_nat_alt cnt tl')
  show "ring_contents r' = ring_contents r @ [x]"
    using ring_write_contents [OF room', of "unat (r_head r)" buf "unat (r_tail r)" x] facts buf
    by (simp add: r'_def ring_contents_def cnt)
qed

lemma ring_drop_front:
  assumes inv: "ring_inv r" and buf: "r_buf r = Some buf" and ne: "r_count r \<noteq> 0"
  defines "r' \<equiv> r\<lparr>r_head := (r_head r + 1) mod r_cap r, r_count := r_count r - 1\<rparr>"
  shows "ring_inv r'" and "ring_contents r = buf ! unat (r_head r) # ring_contents r'"
proof -
  note facts = ring_inv_Some [OF inv buf]
  have cnt: "unat (r_count r) = Suc (unat (r_count r - 1))"
    using unat_dec [OF ne] ne by (simp add: unat_eq_0 Suc_leI unat_gt_0)
  have hd': "unat ((r_head r + 1) mod r_cap r) = (unat (r_head r) + 1) mod unat (r_cap r)"
    using facts by (simp add: unat_ring_next)
  show "ring_inv r'"
    using facts buf cnt
    by (simp add: r'_def ring_inv_def word_less_nat_alt word_le_nat_alt hd' mod_add_left_eq)
  have "ring_contents r' = map (\<lambda>i. buf ! ((unat (r_head r) + Suc i) mod unat (r_cap r)))
      [0..<unat (r_count r - 1)]"
    using buf by (simp add: r'_def ring_contents_def hd' mod_add_left_eq)
  moreover have "ring_contents r = map (\<lambda>i. buf ! ((unat (r_head r) + i) mod unat (r_cap r)))
      [0..<Suc (unat (r_count r - 1))]"
    using buf cnt by (simp add: ring_contents_def)
  ultimately show "ring_contents r = buf ! unat (r_head r) # ring_contents r'"
    using facts by (simp add: map_upt_Suc del: upt_Suc)
qed

section \<open>The ring implements a bounded queue\<close>

definition ring_enq :: "u32 \<Rightarrow> id_ring \<Rightarrow> id_ring option" where
  "ring_enq x r = (case epa_ring_push r x False of Inl _ \<Rightarrow> None | Inr r' \<Rightarrow> Some r')"

lemma ring_pushed:
  assumes "ring_inv r" and "r_count r < r_cap r"
  shows "\<exists>r'. epa_ring_push r x soft = Inr r' \<and> ring_inv r' \<and> r_cap r' = r_cap r
              \<and> ring_contents r' = ring_contents r @ [x]"
proof (cases "r_buf r")
  case None
  with assms show ?thesis by (simp add: ring_inv_def)
next
  case (Some buf)
  with ring_inv_Some [OF assms(1) Some] ring_append [OF assms(1) Some assms(2), of x] assms(2)
  show ?thesis by (auto simp: epa_ring_push_def ring_push_def Let_def word_less_nat_alt)
qed

lemma ring_popped:
  assumes "ring_inv r" and "r_count r \<noteq> 0"
  shows "\<exists>r'. epa_ring_pop r = Some (hd (ring_contents r), r') \<and> ring_inv r' \<and> r_cap r' = r_cap r
              \<and> ring_contents r' = tl (ring_contents r)"
proof (cases "r_buf r")
  case None
  with assms show ?thesis by (simp add: ring_inv_def)
next
  case (Some buf)
  with ring_inv_Some [OF assms(1) Some] ring_drop_front [OF assms(1) Some assms(2)] assms(2)
  show ?thesis by (auto simp: epa_ring_pop_def ring_pop_def)
qed

lemma ring_count_room: "ring_inv r \<Longrightarrow> length (ring_contents r) < unat (r_cap r) \<longleftrightarrow> r_count r < r_cap r"
  by (simp add: length_ring_contents word_less_nat_alt)

interpretation ring: bounded_fifo ring_inv "\<lambda>r. unat (r_cap r)" ring_contents ring_enq epa_ring_pop
proof unfold_locales
  fix r assume "ring_inv r"
  then show "length (ring_contents r) \<le> unat (r_cap r)"
    by (auto simp: ring_inv_def ring_contents_def word_le_nat_alt split: option.splits)
next
  fix r :: id_ring and x assume "ring_inv r" "length (ring_contents r) = unat (r_cap r)"
  then have "r_count r = r_cap r" by (simp add: length_ring_contents word_unat_eq_iff)
  then show "ring_enq x r = None"
    by (auto simp: ring_enq_def epa_ring_push_def ring_push_def split: option.splits)
next
  fix r :: id_ring and x assume "ring_inv r" "length (ring_contents r) < unat (r_cap r)"
  with ring_pushed [of r x False] show "\<exists>q'. ring_enq x r = Some q' \<and> ring_inv q'
      \<and> unat (r_cap q') = unat (r_cap r) \<and> ring_contents q' = ring_contents r @ [x]"
    by (auto simp: ring_enq_def ring_count_room)
next
  fix r assume "ring_inv r" "ring_contents r = []"
  then have "r_count r = 0" by (metis length_ring_contents list.size(3) unat_eq_0)
  then show "epa_ring_pop r = None"
    by (auto simp: epa_ring_pop_def ring_pop_def split: option.splits)
next
  fix r x xs assume a: "ring_inv r" "ring_contents r = x # xs"
  then have "r_count r \<noteq> 0" using length_ring_contents [of r] by auto
  with ring_popped [OF a(1)] a(2)
  show "\<exists>q'. epa_ring_pop r = Some (x, q') \<and> ring_inv q' \<and> unat (r_cap q') = unat (r_cap r)
      \<and> ring_contents q' = xs" by auto
qed

lemma ring_space_room: "ring_inv r \<Longrightarrow>
    unat (epa_ring_space r) = unat (r_cap r) - length (ring_contents r)"
  using ring.within_capacity [of r]
  by (auto simp: epa_ring_space_def length_ring_contents word_less_nat_alt unat_sub word_le_nat_alt)

lemma ring_soft_push_full:
  assumes inv: "ring_inv r" and full: "r_count r = r_cap r" and cap: "r_cap r \<noteq> 0"
  shows "\<exists>r'. epa_ring_push r x True = Inr r' \<and> ring_inv r' \<and> r_cap r' = r_cap r
              \<and> ring_contents r' = tl (ring_contents r) @ [x]"
proof (cases "r_buf r")
  case None
  with assms show ?thesis by (simp add: ring_inv_def)
next
  case (Some buf)
  let ?r1 = "r\<lparr>r_head := (r_head r + 1) mod r_cap r, r_count := r_count r - 1\<rparr>"
  have ne: "r_count r \<noteq> 0" using full cap by simp
  have d: "ring_inv ?r1" "ring_contents r = buf ! unat (r_head r) # ring_contents ?r1"
    using ring_drop_front [OF inv Some ne] by simp_all
  have "r_count ?r1 < r_cap ?r1"
    using full cap by (simp add: word_less_nat_alt unat_dec unat_gt_0)
  from ring_append [OF d(1) _ this, of buf x] Some d(2) full cap show ?thesis
    by (simp add: epa_ring_push_def ring_push_def Let_def)
qed

section \<open>Properties\<close>

text \<open>C39: A word ring is a bounded first-in first-out queue: words pushed into an
  initialised ring, no more than its capacity, are accepted and come out in the order they went
  in, wherever the head of the ring stands.\<close>

theorem ring_first_in_first_out:
  assumes "ring_inv r" and "length (ring_contents r) + length xs \<le> unat (r_cap r)"
  shows "\<exists>r1 r2. enq_all ring_enq xs r = Some r1 \<and> ring_inv r1
    \<and> deq_n epa_ring_pop (length (ring_contents r) + length xs) r1 = Some (ring_contents r @ xs, r2)
    \<and> epa_ring_count r2 = 0"
proof -
  obtain r1 where r1: "enq_all ring_enq xs r = Some r1" "ring_inv r1" "ring_contents r1 = ring_contents r @ xs"
    using ring.enq_all_room [OF assms] by auto
  obtain r2 where r2: "deq_n epa_ring_pop (length (ring_contents r1)) r1 = Some (ring_contents r1, r2)"
      "ring_inv r2" "ring_contents r2 = []"
    using ring.deq_n_prefix [OF r1(2) order_refl] by auto
  then have "epa_ring_count r2 = 0"
    using length_ring_contents [of r2] by (simp add: epa_ring_count_def unat_eq_0)
  with r1 r2 show ?thesis by auto
qed

definition ring_demo :: id_ring where
  "ring_demo = \<lparr>r_buf = Some [5, 6, 7], r_cap = 3, r_head = 2, r_tail = 1, r_count = 2\<rparr>"

lemma ring_demo_inv: "ring_inv ring_demo"
  by (simp add: ring_inv_def ring_demo_def)

lemma ring_demo_contents: "ring_contents ring_demo = [7, 5]"
  by (simp add: ring_contents_def ring_demo_def upt_rec)

theorem ring_first_in_first_out_witness:
  "\<exists>r1 r2. enq_all ring_enq [9] ring_demo = Some r1 \<and> deq_n epa_ring_pop 3 r1 = Some ([7, 5, 9], r2)"
proof -
  have "length (ring_contents ring_demo) + length [9 :: u32] = 3" "unat (r_cap ring_demo) = 3"
    by (simp_all add: ring_demo_contents, simp add: ring_demo_def)
  then show ?thesis using ring_first_in_first_out [OF ring_demo_inv, of "[9]"]
    by (auto simp: ring_demo_contents numeral_3_eq_3 simp del: enq_all.simps)
qed

text \<open>A soft push never fails on an initialised ring: into a full one it drops exactly
  the oldest word, otherwise nothing; a hard push into a full ring is refused.\<close>

theorem ring_soft_push_drops_oldest:
  assumes "ring_inv r" and "r_cap r \<noteq> 0"
  shows "\<exists>r'. epa_ring_push r x True = Inr r' \<and> ring_inv r' \<and>
    ring_contents r' = (if epa_ring_space r = 0 then tl (ring_contents r) else ring_contents r) @ [x]
    \<and> (epa_ring_space r = 0 \<longrightarrow> epa_ring_push r x False = Inl ''ring full'')"
proof (cases "r_count r = r_cap r")
  case True
  moreover have "epa_ring_push r x False = Inl ''ring full''"
    using True assms ring_inv_Some [OF assms(1)] by (cases "r_buf r") (auto simp: ring_inv_def epa_ring_push_def ring_push_def)
  ultimately show ?thesis using ring_soft_push_full [OF assms(1) True assms(2), of x]
    by (auto simp: epa_ring_space_def)
next
  case False
  have "r_count r \<le> r_cap r"
    using ring.within_capacity [OF assms(1)] by (simp add: length_ring_contents [OF assms(1)] word_le_nat_alt)
  with False have lt: "r_count r < r_cap r" by simp
  then have "epa_ring_space r \<noteq> 0" by (auto simp: epa_ring_space_def)
  with ring_pushed [OF assms(1) lt, of x True] show ?thesis by auto
qed

theorem ring_soft_push_drops_oldest_witness:
  "\<exists>r' r''. epa_ring_push ring_demo 9 True = Inr r' \<and> epa_ring_push r' 8 True = Inr r''
     \<and> ring_contents r'' = [5, 9, 8]"
proof -
  have c: "r_cap ring_demo \<noteq> 0" "epa_ring_space ring_demo \<noteq> 0"
    by (simp_all add: ring_demo_def epa_ring_space_def)
  obtain r' where r': "epa_ring_push ring_demo 9 True = Inr r'" "ring_inv r'" "ring_contents r' = [7, 5, 9]"
    using ring_soft_push_drops_oldest [OF ring_demo_inv c(1), of 9] c(2) by (auto simp: ring_demo_contents)
  have "r_cap r' = 3" "epa_ring_space r' = 0"
    using r'(1) by (auto simp: epa_ring_push_def ring_push_def ring_demo_def epa_ring_space_def)
  then show ?thesis using ring_soft_push_drops_oldest [OF r'(2), of 8] r' by auto
qed

end
