(* ===== verification/EpaStack.thy ===== *)
theory EpaStack
  imports Prelude
begin

text \<open>
  The evaluation stack \<open>EpaStack\<close> of \<open>src/memory/epa_stack.c\<close>. The C array of
  words is a list, empty where the pointer is \<open>NULL\<close>, so an access that the guards let
  through but that lies outside the allocated array is \<open>CUndef\<close>. The abstract stack is
  \<open>stack_list\<close>, top of stack first; under \<open>stack_wf\<close> the four operations are push, pop
  and peek of that list with the capacity as the only bound.
\<close>

record epa_stack =
  st_words :: "u32 list"
  st_sp :: nat
  st_cap :: nat

text \<open>\<open>ok\<close> is the answer of \<open>calloc(4096, 4)\<close>, which the code does not check.\<close>

definition epa_stack_init :: "bool \<Rightarrow> epa_stack" where
  "epa_stack_init ok = \<lparr>st_words = (if ok then replicate 4096 0 else []), st_sp = 0, st_cap = 4096\<rparr>"

definition epa_stack_push :: "epa_stack \<Rightarrow> u32 \<Rightarrow> epa_stack cres" where
  "epa_stack_push st v =
     (if st_sp st \<ge> st_cap st then CFail
      else if st_sp st < length (st_words st)
      then COk (st\<lparr>st_words := (st_words st)[st_sp st := v], st_sp := st_sp st + 1\<rparr>)
      else CUndef)"

definition epa_stack_pop :: "epa_stack \<Rightarrow> (u32 \<times> epa_stack) cres" where
  "epa_stack_pop st =
     (if st_sp st = 0 then CFail
      else if st_sp st - 1 < length (st_words st)
      then COk (st_words st ! (st_sp st - 1), st\<lparr>st_sp := st_sp st - 1\<rparr>)
      else CUndef)"

definition epa_stack_peek :: "epa_stack \<Rightarrow> u32 cres" where
  "epa_stack_peek st =
     (if st_sp st = 0 then CFail
      else if st_sp st - 1 < length (st_words st) then COk (st_words st ! (st_sp st - 1))
      else CUndef)"

definition stack_wf :: "epa_stack \<Rightarrow> bool" where
  "stack_wf st \<longleftrightarrow> st_sp st \<le> st_cap st \<and> st_cap st = length (st_words st)"

definition stack_list :: "epa_stack \<Rightarrow> u32 list" where
  "stack_list st = rev (take (st_sp st) (st_words st))"

lemma stack_wf_init: "stack_wf (epa_stack_init True)"
  by (simp add: stack_wf_def epa_stack_init_def)

lemma stack_list_init: "stack_list (epa_stack_init ok) = []"
  by (simp add: stack_list_def epa_stack_init_def)

lemma length_stack_list: "stack_wf st \<Longrightarrow> length (stack_list st) = st_sp st"
  by (simp add: stack_list_def stack_wf_def)

lemma push_wf: "stack_wf st \<Longrightarrow> epa_stack_push st v = COk st' \<Longrightarrow> stack_wf st'"
  by (auto simp: epa_stack_push_def stack_wf_def split: if_splits)

lemma pop_wf: "stack_wf st \<Longrightarrow> epa_stack_pop st = COk (v, st') \<Longrightarrow> stack_wf st'"
  by (auto simp: epa_stack_pop_def stack_wf_def split: if_splits)

lemma push_frame:
  "epa_stack_push st v = COk st' \<Longrightarrow> st_cap st' = st_cap st \<and> length (st_words st') = length (st_words st)"
  by (auto simp: epa_stack_push_def split: if_splits)

lemma pop_frame:
  "epa_stack_pop st = COk (v, st') \<Longrightarrow> st_cap st' = st_cap st \<and> st_words st' = st_words st"
  by (auto simp: epa_stack_pop_def split: if_splits)

text \<open>The operations on the abstract stack.\<close>

lemma push_list:
  assumes "stack_wf st"
  shows "epa_stack_push st v =
           (if length (stack_list st) = st_cap st then CFail
            else COk (st\<lparr>st_words := (st_words st)[st_sp st := v], st_sp := st_sp st + 1\<rparr>))"
  using assms by (auto simp: epa_stack_push_def length_stack_list stack_wf_def)

lemma push_some:
  assumes "stack_wf st" and "length (stack_list st) < st_cap st"
  shows "\<exists>st'. epa_stack_push st v = COk st' \<and> stack_wf st' \<and> st_cap st' = st_cap st
               \<and> stack_list st' = v # stack_list st"
proof -
  have "st_sp st < length (st_words st)" using assms by (simp add: length_stack_list stack_wf_def)
  then show ?thesis using assms
    by (simp add: epa_stack_push_def length_stack_list stack_wf_def stack_list_def
        take_Suc_conv_app_nth)
qed

lemma pop_some:
  assumes "stack_wf st" and "stack_list st = v # vs"
  shows "\<exists>st'. epa_stack_pop st = COk (v, st') \<and> stack_wf st' \<and> st_cap st' = st_cap st
               \<and> stack_list st' = vs"
proof -
  obtain n where n: "st_sp st = Suc n" using assms length_stack_list [OF assms(1)]
    by (cases "st_sp st") auto
  have "n < length (st_words st)" using assms(1) n by (simp add: stack_wf_def)
  then have "stack_list st = (st_words st ! n) # rev (take n (st_words st))"
    by (simp add: stack_list_def n take_Suc_conv_app_nth)
  with assms n show ?thesis by (simp add: epa_stack_pop_def stack_wf_def stack_list_def)
qed

lemma pop_empty: "stack_wf st \<Longrightarrow> stack_list st = [] \<Longrightarrow> epa_stack_pop st = CFail"
  using length_stack_list [of st] by (simp add: epa_stack_pop_def)

lemma push_defined: "stack_wf st \<Longrightarrow> epa_stack_push st v \<noteq> CUndef"
  by (simp add: epa_stack_push_def stack_wf_def)

lemma pop_defined: "stack_wf st \<Longrightarrow> epa_stack_pop st \<noteq> CUndef"
  by (auto simp: epa_stack_pop_def stack_wf_def)

lemma pop_push: "stack_wf st \<Longrightarrow> epa_stack_push st v = COk st' \<Longrightarrow>
   \<exists>st''. epa_stack_pop st' = COk (v, st'') \<and> stack_list st'' = stack_list st \<and> st_cap st'' = st_cap st"
  by (auto simp: epa_stack_push_def epa_stack_pop_def stack_list_def split: if_splits)

lemma peek_pop: "epa_stack_peek st = (case epa_stack_pop st of COk (v, _) \<Rightarrow> COk v | CFail \<Rightarrow> CFail | CUndef \<Rightarrow> CUndef)"
  by (simp add: epa_stack_peek_def epa_stack_pop_def)

section \<open>Properties\<close>

text \<open>The stack as a step-by-step abstract data type: a sequence of pushes followed by as
  many pops.\<close>

fun push_all :: "u32 list \<Rightarrow> epa_stack \<Rightarrow> epa_stack cres" where
  "push_all [] st = COk st"
| "push_all (v # vs) st = (case epa_stack_push st v of COk st' \<Rightarrow> push_all vs st' | CFail \<Rightarrow> CFail | CUndef \<Rightarrow> CUndef)"

lemma push_all_list:
  "stack_wf st \<Longrightarrow> length (stack_list st) + length vs \<le> st_cap st \<Longrightarrow>
   \<exists>st'. push_all vs st = COk st' \<and> stack_wf st' \<and> st_cap st' = st_cap st \<and> stack_list st' = rev vs @ stack_list st"
proof (induction vs arbitrary: st)
  case (Cons v vs)
  from push_some [OF Cons.prems(1), of v] Cons.prems obtain st1 where
    "epa_stack_push st v = COk st1" "stack_wf st1" "st_cap st1 = st_cap st" "stack_list st1 = v # stack_list st"
    by auto
  with Cons.IH [of st1] Cons.prems show ?case by auto
qed simp

text \<open>The evaluation stack is a last-in first-out stack of exactly its capacity: pushes
  up to the capacity succeed and leave the words in reverse order on top of what was there, one
  more push fails, pop and peek give the top, and on an empty stack both fail. No access leaves
  the array.\<close>

theorem stack_last_in_first_out:
  assumes "stack_wf st" and "st_sp st + length vs \<le> st_cap st"
  shows "\<exists>st'. push_all vs st = COk st' \<and> stack_wf st' \<and> stack_list st' = rev vs @ stack_list st
    \<and> (st_sp st + length vs = st_cap st \<longrightarrow> epa_stack_push st' v = CFail)
    \<and> (case rev vs @ stack_list st of
         [] \<Rightarrow> epa_stack_pop st' = CFail \<and> epa_stack_peek st' = CFail
       | x # xs \<Rightarrow> epa_stack_peek st' = COk x
           \<and> (\<exists>st''. epa_stack_pop st' = COk (x, st'') \<and> stack_list st'' = xs))"
proof -
  obtain st' where st': "push_all vs st = COk st'" "stack_wf st'" "st_cap st' = st_cap st"
      "stack_list st' = rev vs @ stack_list st"
    using push_all_list [OF assms(1), of vs] assms by (auto simp: length_stack_list)
  have full: "st_sp st + length vs = st_cap st \<longrightarrow> epa_stack_push st' v = CFail"
    using push_list [OF st'(2), of v] st' length_stack_list [OF assms(1)] by simp
  show ?thesis
  proof (cases "stack_list st'")
    case Nil
    with st' full pop_empty [OF st'(2) Nil] show ?thesis
      by (intro exI [of _ st']) (simp add: peek_pop)
  next
    case (Cons x xs)
    have e: "rev vs @ stack_list st = x # xs" using st'(4) Cons by simp
    show ?thesis unfolding e
      using st' full pop_some [OF st'(2) Cons] e by (intro exI [of _ st']) (auto simp: peek_pop)
  qed
qed

theorem stack_last_in_first_out_witness:
  "\<exists>st'. push_all [1, 2] \<lparr>st_words = [0, 0], st_sp = 0, st_cap = 2\<rparr> = COk st' \<and> stack_list st' = [2, 1]
     \<and> epa_stack_push st' 9 = CFail"
  using stack_last_in_first_out [of "\<lparr>st_words = [0, 0], st_sp = 0, st_cap = 2\<rparr>" "[1, 2]" 9]
  by (auto simp: stack_wf_def stack_list_def)

end
