(* ===== verification/EpaGhs.thy ===== *)
theory EpaGhs
  imports Prelude
begin

text \<open>
  The global handle space of \<open>src/memory/epa_ghs.c\<close>: a table of owned byte blocks named
  by 64-bit handles (generation in the high half, index in the low half). The C table keeps
  \<open>max_entries\<close> beside the array; here it is the length of the list of entries. A table
  that is \<open>NULL\<close> is the callers' \<open>None\<close>. Enumeration values of \<open>type\<close> are
  words, since the opcodes cast arbitrary words to the enumeration.
\<close>

datatype ghs_err = GHS_ERR_OOM | GHS_ERR_FULL | GHS_ERR_BAD_HANDLE | GHS_ERR_BAD_SIZE | GHS_EBOUNDS

record ghs_entry =
  ge_flags :: u32
  ge_generation :: u32
  ge_type :: u32
  ge_owner :: u32
  ge_size :: u32
  ge_capacity :: u32
  ge_tag :: u32
  ge_ptr :: "u8 list option"

record epa_ghs =
  g_live :: u32
  g_entries :: "ghs_entry list"

definition "EPA_GHS_T_NONE = (0 :: u32)"
definition "EPA_GHS_F_IN_USE = (1 :: u32)"
definition "EPA_GHS_F_PUBLIC_READ = (2 :: u32)"
definition "EPA_GHS_F_GLOBAL_CACHE = (4 :: u32)"
definition "EPA_GHS_F_PUBLIC_MASK = EPA_GHS_F_PUBLIC_READ OR EPA_GHS_F_GLOBAL_CACHE"

lemmas ghs_flag_defs = EPA_GHS_F_IN_USE_def EPA_GHS_F_PUBLIC_READ_def EPA_GHS_F_GLOBAL_CACHE_def
  EPA_GHS_F_PUBLIC_MASK_def EPA_GHS_T_NONE_def

definition epa_ghs_handle_index :: "u64 \<Rightarrow> u32" where
  "epa_ghs_handle_index h = ucast (h AND 0xFFFFFFFF)"

definition epa_ghs_handle_gen :: "u64 \<Rightarrow> u32" where
  "epa_ghs_handle_gen h = ucast (drop_bit 32 h)"

definition epa_ghs_make_handle :: "u32 \<Rightarrow> u32 \<Rightarrow> u64" where
  "epa_ghs_make_handle idx gen = push_bit 32 (ucast gen) OR ucast idx"

definition ge_in_use :: "ghs_entry \<Rightarrow> bool" where
  "ge_in_use e \<longleftrightarrow> ge_flags e AND EPA_GHS_F_IN_USE \<noteq> 0"

definition ghs_fresh_entry :: ghs_entry where
  "ghs_fresh_entry = \<lparr>ge_flags = 0, ge_generation = 1, ge_type = 0, ge_owner = 0, ge_size = 0,
     ge_capacity = 0, ge_tag = 0, ge_ptr = None\<rparr>"

text \<open>\<open>ok\<close> is the answer of the two allocations.\<close>

definition epa_ghs_create :: "bool \<Rightarrow> u32 \<Rightarrow> epa_ghs option" where
  "epa_ghs_create ok max_entries =
     (if max_entries = 0 \<or> \<not> ok then None
      else Some \<lparr>g_live = 0, g_entries = replicate (unat max_entries) ghs_fresh_entry\<rparr>)"

definition ghs_clear_entry :: "ghs_entry \<Rightarrow> ghs_entry" where
  "ghs_clear_entry e = e\<lparr>ge_ptr := None, ge_flags := 0, ge_type := EPA_GHS_T_NONE, ge_owner := 0,
     ge_size := 0, ge_capacity := 0, ge_generation := ge_generation e + 1\<rparr>"

definition epa_ghs_reset :: "epa_ghs \<Rightarrow> epa_ghs" where
  "epa_ghs_reset g = g\<lparr>g_live := 0,
     g_entries := map (\<lambda>e. if ge_in_use e then (ghs_clear_entry e)\<lparr>ge_tag := 0\<rparr> else e) (g_entries g)\<rparr>"

text \<open>The scan for the first free slot.\<close>

fun find_slot :: "('e \<Rightarrow> bool) \<Rightarrow> 'e list \<Rightarrow> nat option" where
  "find_slot p [] = None"
| "find_slot p (e # es) = (if p e then Some 0 else map_option Suc (find_slot p es))"

definition ghs_find_free_slot :: "epa_ghs \<Rightarrow> nat option" where
  "ghs_find_free_slot g = find_slot (\<lambda>e. \<not> ge_in_use e) (g_entries g)"

definition ghs_idx :: "u64 \<Rightarrow> nat" where
  "ghs_idx h = unat (epa_ghs_handle_index h)"

definition epa_ghs_valid :: "epa_ghs \<Rightarrow> u64 \<Rightarrow> bool" where
  "epa_ghs_valid g h \<longleftrightarrow>
     ghs_idx h < length (g_entries g)
     \<and> ge_in_use (g_entries g ! ghs_idx h)
     \<and> ge_generation (g_entries g ! ghs_idx h) = epa_ghs_handle_gen h"

definition epa_ghs_validate :: "epa_ghs \<Rightarrow> u64 \<Rightarrow> (ghs_err, unit) res" where
  "epa_ghs_validate g h =
     (if ghs_idx h \<ge> length (g_entries g) then Err GHS_ERR_BAD_HANDLE
      else let e = g_entries g ! ghs_idx h in
        if \<not> ge_in_use e then Err GHS_ERR_BAD_HANDLE
        else if ge_generation e \<noteq> epa_ghs_handle_gen h then Err GHS_ERR_BAD_HANDLE
        else Ok ())"

definition ghs_set :: "nat \<Rightarrow> ghs_entry \<Rightarrow> epa_ghs \<Rightarrow> epa_ghs" where
  "ghs_set i e g = g\<lparr>g_entries := (g_entries g)[i := e]\<rparr>"

definition epa_ghs_alloc ::
  "allocator \<Rightarrow> epa_ghs \<Rightarrow> u32 \<Rightarrow> u32 \<Rightarrow> u32 \<Rightarrow> (ghs_err, u64 \<times> epa_ghs) res" where
  "epa_ghs_alloc al g type owner size_bytes =
     (if size_bytes = 0 then Err GHS_ERR_BAD_SIZE
      else case ghs_find_free_slot g of
        None \<Rightarrow> Err GHS_ERR_FULL
      | Some i \<Rightarrow>
          (case al (unat size_bytes) of
             None \<Rightarrow> Err GHS_ERR_OOM
           | Some p \<Rightarrow>
               let e = g_entries g ! i;
                   e' = e\<lparr>ge_flags := EPA_GHS_F_IN_USE, ge_type := type, ge_owner := owner,
                          ge_size := size_bytes, ge_capacity := size_bytes, ge_ptr := Some p\<rparr>
               in Ok (push_bit 32 (ucast (ge_generation e)) OR of_nat i,
                      (ghs_set i e' g)\<lparr>g_live := g_live g + 1\<rparr>)))"

definition epa_ghs_set_tag :: "epa_ghs \<Rightarrow> u64 \<Rightarrow> u32 \<Rightarrow> (ghs_err, epa_ghs) res" where
  "epa_ghs_set_tag g h tag =
     (if ghs_idx h < length (g_entries g)
      then Ok (ghs_set (ghs_idx h) ((g_entries g ! ghs_idx h)\<lparr>ge_tag := tag\<rparr>) g)
      else Ub)"

definition epa_ghs_get_tag :: "epa_ghs \<Rightarrow> u64 \<Rightarrow> (ghs_err, u32) res" where
  "epa_ghs_get_tag g h =
     (if ghs_idx h < length (g_entries g) then Ok (ge_tag (g_entries g ! ghs_idx h)) else Ub)"

definition epa_ghs_alloc_tagged ::
  "allocator \<Rightarrow> epa_ghs \<Rightarrow> u32 \<Rightarrow> u32 \<Rightarrow> u32 \<Rightarrow> u32 \<Rightarrow> (ghs_err, u64 \<times> epa_ghs) res" where
  "epa_ghs_alloc_tagged al g type owner size_bytes tag =
     (case epa_ghs_alloc al g type owner size_bytes of
        Err e \<Rightarrow> Err e | Ub \<Rightarrow> Ub
      | Ok (h, g1) \<Rightarrow>
          (case epa_ghs_set_tag g1 h tag of Ok g2 \<Rightarrow> Ok (h, g2) | Err e \<Rightarrow> Err e | Ub \<Rightarrow> Ub))"

text \<open>The pattern of every operation on one entry: validate, then act on the entry.\<close>

definition ghs_entry_op ::
  "epa_ghs \<Rightarrow> u64 \<Rightarrow> (ghs_entry \<Rightarrow> (ghs_err, 'a) res) \<Rightarrow> (ghs_err, 'a) res" where
  "ghs_entry_op g h f =
     (case epa_ghs_validate g h of
        Err e \<Rightarrow> Err e | Ub \<Rightarrow> Ub | Ok _ \<Rightarrow> f (g_entries g ! ghs_idx h))"

definition epa_ghs_free :: "epa_ghs \<Rightarrow> u64 \<Rightarrow> (ghs_err, epa_ghs) res" where
  "epa_ghs_free g h = ghs_entry_op g h (\<lambda>e.
     Ok ((ghs_set (ghs_idx h) (ghs_clear_entry e) g)
           \<lparr>g_live := (if g_live g > 0 then g_live g - 1 else g_live g)\<rparr>))"

definition epa_ghs_transfer :: "epa_ghs \<Rightarrow> u64 \<Rightarrow> u32 \<Rightarrow> (ghs_err, epa_ghs) res" where
  "epa_ghs_transfer g h new_owner = ghs_entry_op g h (\<lambda>e.
     Ok (ghs_set (ghs_idx h) (e\<lparr>ge_owner := new_owner\<rparr>) g))"

definition epa_ghs_resize :: "allocator \<Rightarrow> epa_ghs \<Rightarrow> u64 \<Rightarrow> u32 \<Rightarrow> (ghs_err, epa_ghs) res" where
  "epa_ghs_resize al g h new_size =
     (if new_size = 0 then Err GHS_ERR_BAD_SIZE
      else ghs_entry_op g h (\<lambda>e.
        if new_size \<le> ge_capacity e then Ok (ghs_set (ghs_idx h) (e\<lparr>ge_size := new_size\<rparr>) g)
        else case al (unat new_size) of
          None \<Rightarrow> Err GHS_ERR_OOM
        | Some np \<Rightarrow>
            (let old = (case ge_ptr e of None \<Rightarrow> Some [] | Some p \<Rightarrow>
                          if unat (ge_size e) \<le> length p \<and> unat (ge_size e) \<le> length np
                          then Some (take (unat (ge_size e)) p) else None)
             in case old of None \<Rightarrow> Ub
                | Some p \<Rightarrow> Ok (ghs_set (ghs_idx h)
                     (e\<lparr>ge_ptr := Some (mem_write np 0 p), ge_capacity := new_size, ge_size := new_size\<rparr>) g))))"

record ghs_meta =
  gm_type :: u32
  gm_owner :: u32
  gm_flags :: u32
  gm_size :: u32
  gm_capacity :: u32
  gm_generation :: u32

definition epa_ghs_get_meta :: "epa_ghs \<Rightarrow> u64 \<Rightarrow> (ghs_err, ghs_meta) res" where
  "epa_ghs_get_meta g h = ghs_entry_op g h (\<lambda>e.
     Ok \<lparr>gm_type = ge_type e, gm_owner = ge_owner e, gm_flags = ge_flags e, gm_size = ge_size e,
         gm_capacity = ge_capacity e, gm_generation = ge_generation e\<rparr>)"

definition epa_ghs_get_ptr :: "epa_ghs \<Rightarrow> u64 \<Rightarrow> (ghs_err, u8 list option) res" where
  "epa_ghs_get_ptr g h = ghs_entry_op g h (\<lambda>e. Ok (ge_ptr e))"

text \<open>\<open>memcpy\<close> from and to the payload. A null source or destination with a length other
  than 0 is the first test of the C functions; the opcodes always pass an array.\<close>

definition epa_ghs_read_bytes :: "epa_ghs \<Rightarrow> u64 \<Rightarrow> u32 \<Rightarrow> u32 \<Rightarrow> (ghs_err, u8 list) res" where
  "epa_ghs_read_bytes g h offset len = ghs_entry_op g h (\<lambda>e.
     if offset > ge_size e then Err GHS_EBOUNDS
     else if len > ge_size e - offset then Err GHS_EBOUNDS
     else if len = 0 then Ok []
     else case ge_ptr e of
       None \<Rightarrow> Ub
     | Some p \<Rightarrow> if unat offset + unat len \<le> length p then Ok (mem_read p (unat offset) (unat len)) else Ub)"

definition epa_ghs_write_bytes :: "epa_ghs \<Rightarrow> u64 \<Rightarrow> u32 \<Rightarrow> u8 list \<Rightarrow> (ghs_err, epa_ghs) res" where
  "epa_ghs_write_bytes g h offset src = ghs_entry_op g h (\<lambda>e.
     let len = of_nat (length src) :: u32 in
     if offset > ge_size e then Err GHS_EBOUNDS
     else if len > ge_size e - offset then Err GHS_EBOUNDS
     else if len = 0 then Ok g
     else case ge_ptr e of
       None \<Rightarrow> Ub
     | Some p \<Rightarrow>
         if unat offset + length src \<le> length p
         then Ok (ghs_set (ghs_idx h) (e\<lparr>ge_ptr := Some (mem_write p (unat offset) src)\<rparr>) g)
         else Ub)"

definition epa_ghs_capacity :: "epa_ghs \<Rightarrow> u32" where
  "epa_ghs_capacity g = of_nat (length (g_entries g))"

definition epa_ghs_live_count :: "epa_ghs \<Rightarrow> u32" where
  "epa_ghs_live_count g = g_live g"

definition epa_ghs_update_flags :: "epa_ghs \<Rightarrow> u64 \<Rightarrow> u32 \<Rightarrow> u32 \<Rightarrow> (ghs_err, epa_ghs) res" where
  "epa_ghs_update_flags g h set_bits clear_bits = ghs_entry_op g h (\<lambda>e.
     let s = set_bits AND EPA_GHS_F_PUBLIC_MASK;
         c = clear_bits AND EPA_GHS_F_PUBLIC_MASK;
         s = (if s AND EPA_GHS_F_GLOBAL_CACHE \<noteq> 0 then s OR EPA_GHS_F_PUBLIC_READ else s);
         c = (if c AND EPA_GHS_F_PUBLIC_READ \<noteq> 0 then c OR EPA_GHS_F_GLOBAL_CACHE else c)
     in Ok (ghs_set (ghs_idx h) (e\<lparr>ge_flags := (ge_flags e AND NOT c) OR s\<rparr>) g))"

definition epa_ghs_get_flags :: "epa_ghs \<Rightarrow> u64 \<Rightarrow> (ghs_err, u8) res" where
  "epa_ghs_get_flags g h = ghs_entry_op g h (\<lambda>e. Ok (ucast (ge_flags e)))"

section \<open>Invariant\<close>

definition ghs_entry_wf :: "ghs_entry \<Rightarrow> bool" where
  "ghs_entry_wf e \<longleftrightarrow>
     (ge_flags e AND EPA_GHS_F_GLOBAL_CACHE \<noteq> 0 \<longrightarrow> ge_flags e AND EPA_GHS_F_PUBLIC_READ \<noteq> 0)
     \<and> (ge_in_use e \<longrightarrow>
          ge_ptr e \<noteq> None \<and> length (the (ge_ptr e)) = unat (ge_capacity e)
          \<and> 0 < ge_size e \<and> ge_size e \<le> ge_capacity e)"

definition ghs_used :: "epa_ghs \<Rightarrow> nat" where
  "ghs_used g = length (filter ge_in_use (g_entries g))"

definition ghs_wf :: "epa_ghs \<Rightarrow> bool" where
  "ghs_wf g \<longleftrightarrow>
     length (g_entries g) < 4294967296
     \<and> list_all ghs_entry_wf (g_entries g)
     \<and> g_live g = of_nat (ghs_used g)"

definition ghs_payload :: "epa_ghs \<Rightarrow> u64 \<Rightarrow> u8 list" where
  "ghs_payload g h =
     (let e = g_entries g ! ghs_idx h in
      case ge_ptr e of None \<Rightarrow> [] | Some p \<Rightarrow> take (unat (ge_size e)) p)"

lemma find_slot_Some: "find_slot p es = Some i \<Longrightarrow> i < length es \<and> p (es ! i) \<and> (\<forall>j < i. \<not> p (es ! j))"
proof (induction es arbitrary: i)
  case Nil
  then show ?case by simp
next
  case (Cons e es)
  show ?case
  proof (cases "p e")
    case False
    with Cons.prems obtain k where "i = Suc k" "find_slot p es = Some k" by auto
    with Cons.IH [of k] False show ?thesis by (auto simp: nth_Cons split: nat.splits)
  qed (use Cons.prems in simp)
qed

lemma find_slot_None: "find_slot p es = None \<longleftrightarrow> list_all (\<lambda>e. \<not> p e) es"
  by (induction es) auto

lemma find_slot_ex: "list_ex p es \<Longrightarrow> \<exists>i. find_slot p es = Some i"
  by (induction es) auto

lemma ghs_validate_valid:
  "epa_ghs_validate g h = (if epa_ghs_valid g h then Ok () else Err GHS_ERR_BAD_HANDLE)"
  by (auto simp: epa_ghs_validate_def epa_ghs_valid_def Let_def)

lemma ghs_entry_op_valid:
  "ghs_entry_op g h f = (if epa_ghs_valid g h then f (g_entries g ! ghs_idx h) else Err GHS_ERR_BAD_HANDLE)"
  by (simp add: ghs_entry_op_def ghs_validate_valid)

lemma of_nat_u64_u32: "i < 4294967296 \<Longrightarrow> (of_nat i :: u64) = ucast (of_nat i :: u32)"
  by (simp add: word_unat_eq_iff unat_of_nat unsigned_ucast_eq take_bit_nat_eq_self)

lemma ghs_idx_make: "i < 4294967296 \<Longrightarrow> ghs_idx (push_bit 32 (ucast (g :: u32)) OR of_nat i) = i"
  by (simp add: ghs_idx_def epa_ghs_handle_index_def of_nat_u64_u32 handle_low unat_of_nat)

lemma ghs_gen_make: "i < 4294967296 \<Longrightarrow> epa_ghs_handle_gen (push_bit 32 (ucast (g :: u32)) OR of_nat i) = g"
  unfolding epa_ghs_handle_gen_def of_nat_u64_u32 by (rule handle_high)

lemma ghs_make_handle_inverse:
  "epa_ghs_handle_index (epa_ghs_make_handle i g) = i" "epa_ghs_handle_gen (epa_ghs_make_handle i g) = g"
  unfolding epa_ghs_handle_index_def epa_ghs_handle_gen_def epa_ghs_make_handle_def
  by (rule handle_low, rule handle_high)

lemma list_all_update: "list_all P xs \<Longrightarrow> P x \<Longrightarrow> list_all P (xs[i := x])"
  by (auto simp: list_all_iff dest: set_update_subset_insert [THEN subsetD])

lemma filter_update_same:
  "i < length xs \<Longrightarrow> P x = P (xs ! i) \<Longrightarrow> length (filter P (xs[i := x])) = length (filter P xs)"
  by (induction xs arbitrary: i) (auto simp: nth_Cons split: nat.splits)

lemma filter_update_add:
  "i < length xs \<Longrightarrow> P x \<Longrightarrow> \<not> P (xs ! i) \<Longrightarrow>
   length (filter P (xs[i := x])) = Suc (length (filter P xs))"
  by (induction xs arbitrary: i) (auto simp: nth_Cons split: nat.splits)

lemma filter_update_drop:
  "i < length xs \<Longrightarrow> \<not> P x \<Longrightarrow> P (xs ! i) \<Longrightarrow>
   Suc (length (filter P (xs[i := x]))) = length (filter P xs)"
  by (induction xs arbitrary: i) (auto simp: nth_Cons split: nat.splits)

lemma ghs_set_simps [simp]:
  "g_entries (ghs_set i e g) = (g_entries g)[i := e]"
  "g_live (ghs_set i e g) = g_live g"
  by (simp_all add: ghs_set_def)

lemma ghs_wf_entry: "ghs_wf g \<Longrightarrow> i < length (g_entries g) \<Longrightarrow> ghs_entry_wf (g_entries g ! i)"
  by (simp add: ghs_wf_def list_all_length)

lemma ghs_wf_update:
  assumes "ghs_wf g" and "i < length (g_entries g)" and "ghs_entry_wf e"
    and "ge_in_use e = ge_in_use (g_entries g ! i)"
  shows "ghs_wf (ghs_set i e g)"
  using assms by (simp add: ghs_wf_def ghs_used_def list_all_update filter_update_same)

lemma ghs_entry_frame [simp]:
  "ghs_entry_wf (e\<lparr>ge_tag := t\<rparr>) = ghs_entry_wf e" "ge_in_use (e\<lparr>ge_tag := t\<rparr>) = ge_in_use e"
  "ghs_entry_wf (e\<lparr>ge_owner := ow\<rparr>) = ghs_entry_wf e" "ge_in_use (e\<lparr>ge_owner := ow\<rparr>) = ge_in_use e"
  "ge_in_use (e\<lparr>ge_ptr := pt\<rparr>) = ge_in_use e" "ge_in_use (e\<lparr>ge_size := sz\<rparr>) = ge_in_use e"
  "ge_in_use (e\<lparr>ge_capacity := sz\<rparr>) = ge_in_use e"
  by (simp_all add: ghs_entry_wf_def ge_in_use_def)

lemma ghs_valid_entry:
  assumes "ghs_wf g" and "epa_ghs_valid g h"
  obtains p where "ge_ptr (g_entries g ! ghs_idx h) = Some p"
    "length p = unat (ge_capacity (g_entries g ! ghs_idx h))"
    "unat (ge_size (g_entries g ! ghs_idx h)) \<le> length p"
    "0 < ge_size (g_entries g ! ghs_idx h)"
    "ghs_payload g h = take (unat (ge_size (g_entries g ! ghs_idx h))) p"
  using assms ghs_wf_entry [of g "ghs_idx h"]
  by (auto simp: ghs_entry_wf_def epa_ghs_valid_def ghs_payload_def Let_def word_le_nat_alt
      split: option.splits)

section \<open>Every operation keeps the invariant\<close>

lemma ghs_create_wf: "epa_ghs_create ok n = Some g \<Longrightarrow> ghs_wf g"
  using u32_bound [of n]
  by (auto simp: epa_ghs_create_def ghs_wf_def ghs_used_def ghs_fresh_entry_def ghs_entry_wf_def
      ge_in_use_def list_all_length split: if_splits)

lemma ghs_in_use_flag [simp]: "ge_in_use (e\<lparr>ge_flags := EPA_GHS_F_IN_USE\<rparr>)"
  by (simp add: ge_in_use_def ghs_flag_defs)

lemma ghs_alloc_Ok:
  assumes "ghs_wf g" and "alloc_ok al" and "epa_ghs_alloc al g type owner size_bytes = Ok (h, g')"
  obtains i p where "i < length (g_entries g)" "\<not> ge_in_use (g_entries g ! i)"
    "length p = unat size_bytes" "ghs_idx h = i" "size_bytes \<noteq> 0"
    "epa_ghs_handle_gen h = ge_generation (g_entries g ! i)"
    "g' = (ghs_set i ((g_entries g ! i)\<lparr>ge_flags := EPA_GHS_F_IN_USE, ge_type := type,
        ge_owner := owner, ge_size := size_bytes, ge_capacity := size_bytes, ge_ptr := Some p\<rparr>) g)
        \<lparr>g_live := g_live g + 1\<rparr>"
proof -
  from assms(3) obtain i p where i: "ghs_find_free_slot g = Some i" and p: "al (unat size_bytes) = Some p"
      and sz: "size_bytes \<noteq> 0"
      and h: "h = push_bit 32 (ucast (ge_generation (g_entries g ! i))) OR of_nat i"
      and g': "g' = (ghs_set i ((g_entries g ! i)\<lparr>ge_flags := EPA_GHS_F_IN_USE, ge_type := type,
        ge_owner := owner, ge_size := size_bytes, ge_capacity := size_bytes, ge_ptr := Some p\<rparr>) g)
        \<lparr>g_live := g_live g + 1\<rparr>"
    by (auto simp: epa_ghs_alloc_def Let_def split: if_splits option.splits)
  have il: "i < length (g_entries g)" "\<not> ge_in_use (g_entries g ! i)"
    using find_slot_Some [of _ _ i] i by (auto simp: ghs_find_free_slot_def)
  then have "i < 4294967296" using assms(1) by (simp add: ghs_wf_def)
  then have "ghs_idx h = i" "epa_ghs_handle_gen h = ge_generation (g_entries g ! i)"
    unfolding h by (rule ghs_idx_make, rule ghs_gen_make)
  with il sz g' alloc_okD [OF assms(2) p] show thesis by (intro that)
qed

lemma ghs_alloc_wf [wf_intros]:
  assumes "ghs_wf g" and "alloc_ok al" and "epa_ghs_alloc al g type owner size_bytes = Ok (h, g')"
  shows "ghs_wf g'"
proof -
  from ghs_alloc_Ok [OF assms] obtain i p where
    i: "i < length (g_entries g)" "\<not> ge_in_use (g_entries g ! i)"
    and p: "length p = unat size_bytes" and sz: "size_bytes \<noteq> 0"
    and g': "g' = (ghs_set i ((g_entries g ! i)\<lparr>ge_flags := EPA_GHS_F_IN_USE, ge_type := type,
        ge_owner := owner, ge_size := size_bytes, ge_capacity := size_bytes, ge_ptr := Some p\<rparr>) g)
        \<lparr>g_live := g_live g + 1\<rparr>" .
  show ?thesis
    using assms(1) i p sz unfolding g'
    by (simp add: ghs_wf_def ghs_used_def filter_update_add list_all_update ghs_entry_wf_def
        ge_in_use_def ghs_flag_defs word_gt_0)
qed

lemma ghs_alloc_valid:
  assumes "ghs_wf g" and "alloc_ok al" and "epa_ghs_alloc al g type owner size_bytes = Ok (h, g')"
  shows "epa_ghs_valid g' h \<and> \<not> epa_ghs_valid g h \<and> length (ghs_payload g' h) = unat size_bytes
         \<and> ge_owner (g_entries g' ! ghs_idx h) = owner \<and> ge_type (g_entries g' ! ghs_idx h) = type"
  using assms by (elim ghs_alloc_Ok) (auto simp: epa_ghs_valid_def ghs_payload_def ge_in_use_def ghs_flag_defs)

lemma ghs_alloc_frame:
  assumes "ghs_wf g" and "alloc_ok al" and "epa_ghs_alloc al g type owner size_bytes = Ok (h, g')"
    and "epa_ghs_valid g h'"
  shows "epa_ghs_valid g' h' \<and> g_entries g' ! ghs_idx h' = g_entries g ! ghs_idx h'"
proof -
  from ghs_alloc_Ok [OF assms(1-3)] obtain i p where
    i: "i < length (g_entries g)" "\<not> ge_in_use (g_entries g ! i)"
    and g': "g' = (ghs_set i ((g_entries g ! i)\<lparr>ge_flags := EPA_GHS_F_IN_USE, ge_type := type,
        ge_owner := owner, ge_size := size_bytes, ge_capacity := size_bytes, ge_ptr := Some p\<rparr>) g)
        \<lparr>g_live := g_live g + 1\<rparr>" .
  have "ghs_idx h' \<noteq> i" using i assms(4) by (auto simp: epa_ghs_valid_def)
  then show ?thesis using assms(4) unfolding g' by (simp add: epa_ghs_valid_def)
qed

lemma ghs_set_tag_wf [wf_intros]:
  assumes "ghs_wf g" and "epa_ghs_set_tag g h tag = Ok g'"
  shows "ghs_wf g'"
  using assms ghs_wf_entry [of g "ghs_idx h"]
  by (auto simp: epa_ghs_set_tag_def intro: ghs_wf_update split: if_splits)

lemma ghs_alloc_tagged_wf [wf_intros]:
  "ghs_wf g \<Longrightarrow> alloc_ok al \<Longrightarrow> epa_ghs_alloc_tagged al g type owner sz tag = Ok (h, g') \<Longrightarrow> ghs_wf g'"
  by (auto simp: epa_ghs_alloc_tagged_def split: res.splits intro: ghs_alloc_wf ghs_set_tag_wf)

lemma ghs_used_le: "ghs_used g \<le> length (g_entries g)"
  by (simp add: ghs_used_def)

lemma ghs_clear_entry_wf: "ghs_entry_wf (ghs_clear_entry e)" "\<not> ge_in_use (ghs_clear_entry e)"
  by (simp_all add: ghs_clear_entry_def ghs_entry_wf_def ge_in_use_def)

lemma ghs_free_wf [wf_intros]:
  assumes "ghs_wf g" and "epa_ghs_free g h = Ok g'"
  shows "ghs_wf g'"
proof -
  have v: "epa_ghs_valid g h" using assms(2) by (auto simp: epa_ghs_free_def ghs_entry_op_valid split: if_splits)
  let ?c = "ghs_clear_entry (g_entries g ! ghs_idx h)"
  have u: "Suc (ghs_used (ghs_set (ghs_idx h) ?c g)) = ghs_used g"
    using v by (simp add: ghs_used_def epa_ghs_valid_def filter_update_drop ghs_clear_entry_wf)
  have l: "g_live g = of_nat (ghs_used g)" "ghs_used g < 4294967296"
    using assms(1) ghs_used_le [of g] by (simp_all add: ghs_wf_def)
  then have "g_live g > 0" using u by (simp add: word_less_nat_alt unat_of_nat)
  moreover have "g_live g - 1 = of_nat (ghs_used (ghs_set (ghs_idx h) ?c g))"
    using l(1) u [symmetric] by simp
  ultimately show ?thesis using assms v
    by (auto simp: epa_ghs_free_def ghs_entry_op_valid ghs_wf_def list_all_update ghs_clear_entry_wf
        ghs_used_def)
qed

lemma ghs_valid_idx: "epa_ghs_valid g h \<Longrightarrow> ghs_idx h < length (g_entries g)"
  by (simp add: epa_ghs_valid_def)

lemma ghs_transfer_wf [wf_intros]:
  assumes "ghs_wf g" and "epa_ghs_transfer g h o' = Ok g'"
  shows "ghs_wf g'"
  using assms ghs_wf_entry [of g "ghs_idx h"]
  by (auto simp: epa_ghs_transfer_def ghs_entry_op_valid ghs_valid_idx intro!: ghs_wf_update split: if_splits)

lemma ghs_resize_wf [wf_intros]:
  assumes "ghs_wf g" and "alloc_ok al" and "epa_ghs_resize al g h n = Ok g'"
  shows "ghs_wf g'"
proof -
  from assms(3) have v: "epa_ghs_valid g h" and n: "n \<noteq> 0"
    by (auto simp: epa_ghs_resize_def ghs_entry_op_valid split: if_splits)
  let ?e = "g_entries g ! ghs_idx h"
  have we: "ghs_entry_wf ?e" "ge_in_use ?e" using ghs_wf_entry [OF assms(1)] v by (auto simp: epa_ghs_valid_def)
  show ?thesis
  proof (cases "n \<le> ge_capacity ?e")
    case True
    with assms(3) v n have "g' = ghs_set (ghs_idx h) (?e\<lparr>ge_size := n\<rparr>) g"
      by (simp add: epa_ghs_resize_def ghs_entry_op_valid)
    moreover have "ghs_entry_wf (?e\<lparr>ge_size := n\<rparr>)"
      using we True n by (auto simp: ghs_entry_wf_def ge_in_use_def word_gt_0)
    ultimately show ?thesis using ghs_wf_update [OF assms(1) ghs_valid_idx [OF v]] by simp
  next
    case False
    let ?p = "case ge_ptr ?e of None \<Rightarrow> [] | Some p \<Rightarrow> take (unat (ge_size ?e)) p"
    from False assms(3) v n obtain np where np: "al (unat n) = Some np" and len: "length ?p \<le> length np"
      and g': "g' = ghs_set (ghs_idx h) (?e\<lparr>ge_ptr := Some (mem_write np 0 ?p), ge_capacity := n,
          ge_size := n\<rparr>) g"
      by (auto simp: epa_ghs_resize_def ghs_entry_op_valid Let_def split: option.splits if_splits)
    have "ghs_entry_wf (?e\<lparr>ge_ptr := Some (mem_write np 0 ?p), ge_capacity := n, ge_size := n\<rparr>)"
      using we len n alloc_okD [OF assms(2) np] by (auto simp: ghs_entry_wf_def ge_in_use_def word_gt_0)
    then show ?thesis unfolding g' using ghs_wf_update [OF assms(1) ghs_valid_idx [OF v]] by simp
  qed
qed

lemma ghs_write_wf [wf_intros]:
  assumes "ghs_wf g" and "epa_ghs_write_bytes g h off src = Ok g'"
  shows "ghs_wf g'"
proof -
  from assms(2) have v: "epa_ghs_valid g h"
    by (auto simp: epa_ghs_write_bytes_def ghs_entry_op_valid split: if_splits)
  show ?thesis using assms v ghs_wf_entry [OF assms(1) ghs_valid_idx [OF v]]
    by (auto simp: epa_ghs_write_bytes_def ghs_entry_op_valid Let_def ghs_valid_idx ghs_entry_wf_def
        intro!: ghs_wf_update split: if_splits option.splits)
qed

lemma flag_bits:
  "(w :: u32) AND EPA_GHS_F_IN_USE \<noteq> 0 \<longleftrightarrow> bit w 0"
  "w AND EPA_GHS_F_PUBLIC_READ \<noteq> 0 \<longleftrightarrow> bit w 1"
  "w AND EPA_GHS_F_GLOBAL_CACHE \<noteq> 0 \<longleftrightarrow> bit w 2"
  using and_exp_eq_0_iff_not_bit [of w 0] and_exp_eq_0_iff_not_bit [of w 1]
    and_exp_eq_0_iff_not_bit [of w 2]
  by (simp_all add: ghs_flag_defs)

lemma mask_bits:
  "bit EPA_GHS_F_PUBLIC_MASK 0 = False" "bit EPA_GHS_F_PUBLIC_MASK (Suc 0)" "bit EPA_GHS_F_PUBLIC_MASK 2"
  "bit EPA_GHS_F_PUBLIC_READ 0 = False" "bit EPA_GHS_F_PUBLIC_READ (Suc 0)" "bit EPA_GHS_F_PUBLIC_READ 2 = False"
  "bit EPA_GHS_F_GLOBAL_CACHE 0 = False" "bit EPA_GHS_F_GLOBAL_CACHE (Suc 0) = False" "bit EPA_GHS_F_GLOBAL_CACHE 2"
  by (simp_all add: ghs_flag_defs bit_simps)

text \<open>The flag word after an update.\<close>

definition ghs_new_flags :: "u32 \<Rightarrow> u32 \<Rightarrow> u32 \<Rightarrow> u32" where
  "ghs_new_flags f set_bits clear_bits =
     (let s = set_bits AND EPA_GHS_F_PUBLIC_MASK;
         c = clear_bits AND EPA_GHS_F_PUBLIC_MASK;
         s = (if s AND EPA_GHS_F_GLOBAL_CACHE \<noteq> 0 then s OR EPA_GHS_F_PUBLIC_READ else s);
         c = (if c AND EPA_GHS_F_PUBLIC_READ \<noteq> 0 then c OR EPA_GHS_F_GLOBAL_CACHE else c)
     in (f AND NOT c) OR s)"

lemma ghs_new_flags_bits:
  "bit (ghs_new_flags f st cl) 0 = bit f 0"
  "bit (ghs_new_flags f st cl) 1 \<longleftrightarrow> (bit f 1 \<and> \<not> bit cl 1) \<or> bit st 1 \<or> bit st 2"
  "bit (ghs_new_flags f st cl) 2 \<longleftrightarrow> (bit f 2 \<and> \<not> bit cl 2 \<and> \<not> bit cl 1) \<or> bit st 2"
  by (auto simp: ghs_new_flags_def Let_def flag_bits mask_bits bit_and_iff bit_or_iff bit_not_iff)

lemma ghs_update_flags_new:
  "epa_ghs_update_flags g h st cl =
     ghs_entry_op g h (\<lambda>e. Ok (ghs_set (ghs_idx h) (e\<lparr>ge_flags := ghs_new_flags (ge_flags e) st cl\<rparr>) g))"
  by (simp add: epa_ghs_update_flags_def ghs_new_flags_def Let_def)

lemma ghs_update_flags_wf [wf_intros]:
  assumes "ghs_wf g" and "epa_ghs_update_flags g h st cl = Ok g'"
  shows "ghs_wf g'"
  using assms ghs_wf_entry [of g "ghs_idx h"]
  by (auto simp: ghs_update_flags_new ghs_entry_op_valid ghs_valid_idx ghs_entry_wf_def ge_in_use_def
      flag_bits ghs_new_flags_bits simp del: One_nat_def intro!: ghs_wf_update split: if_splits)

lemma ghs_reset_wf: "ghs_wf g \<Longrightarrow> ghs_wf (epa_ghs_reset g)"
  by (auto simp: ghs_wf_def epa_ghs_reset_def ghs_used_def list_all_iff ghs_clear_entry_wf
      filter_map comp_def filter_empty_conv)

section \<open>Reading and writing payloads\<close>

lemma ghs_length_payload:
  "ghs_wf g \<Longrightarrow> epa_ghs_valid g h \<Longrightarrow>
   length (ghs_payload g h) = unat (ge_size (g_entries g ! ghs_idx h))"
  by (elim ghs_valid_entry) auto

lemma ghs_read_bytes_eq:
  assumes "ghs_wf g"
  shows "epa_ghs_read_bytes g h off len =
    (if \<not> epa_ghs_valid g h then Err GHS_ERR_BAD_HANDLE
     else if unat off + unat len \<le> length (ghs_payload g h)
     then Ok (mem_read (ghs_payload g h) (unat off) (unat len))
     else Err GHS_EBOUNDS)"
proof (cases "epa_ghs_valid g h")
  case True
  obtain p where p: "ge_ptr (g_entries g ! ghs_idx h) = Some p"
    "unat (ge_size (g_entries g ! ghs_idx h)) \<le> length p"
    "ghs_payload g h = take (unat (ge_size (g_entries g ! ghs_idx h))) p"
    using ghs_valid_entry [OF assms True] by blast
  show ?thesis using True p
    by (auto simp: epa_ghs_read_bytes_def ghs_entry_op_valid word_room
        mem_read_def min_def drop_take unat_eq_0)
qed (simp add: epa_ghs_read_bytes_def ghs_entry_op_valid)

lemma ghs_write_bytes_eq:
  assumes "ghs_wf g" and "length src < 4294967296"
  shows "epa_ghs_write_bytes g h off src =
    (if \<not> epa_ghs_valid g h then Err GHS_ERR_BAD_HANDLE
     else if unat off + length src \<le> length (ghs_payload g h)
     then (if src = [] then Ok g else
           Ok (ghs_set (ghs_idx h) ((g_entries g ! ghs_idx h)\<lparr>ge_ptr :=
                 Some (mem_write (the (ge_ptr (g_entries g ! ghs_idx h))) (unat off) src)\<rparr>) g))
     else Err GHS_EBOUNDS)"
proof (cases "epa_ghs_valid g h")
  case True
  obtain p where p: "ge_ptr (g_entries g ! ghs_idx h) = Some p"
    "unat (ge_size (g_entries g ! ghs_idx h)) \<le> length p"
    "ghs_payload g h = take (unat (ge_size (g_entries g ! ghs_idx h))) p"
    using ghs_valid_entry [OF assms(1) True] by blast
  have u: "unat (of_nat (length src) :: u32) = length src" using assms(2) by (simp add: unat_of_nat)
  then have z: "(of_nat (length src) :: u32) = 0 \<longleftrightarrow> src = []" by (metis length_0_conv unat_eq_0)
  show ?thesis using True p u z
    by (auto simp: epa_ghs_write_bytes_def ghs_entry_op_valid word_room Let_def min_def)
qed (simp add: epa_ghs_write_bytes_def ghs_entry_op_valid)

lemma ghs_payload_set_other:
  "ghs_idx h' \<noteq> i \<Longrightarrow> ghs_payload (ghs_set i e g) h' = ghs_payload g h'"
  by (simp add: ghs_payload_def)

lemma ghs_valid_same_idx: "epa_ghs_valid g h \<Longrightarrow> epa_ghs_valid g h' \<Longrightarrow> ghs_idx h' = ghs_idx h \<Longrightarrow> h' = h"
proof -
  assume a: "epa_ghs_valid g h" "epa_ghs_valid g h'" "ghs_idx h' = ghs_idx h"
  have "h' = push_bit 32 (ucast (epa_ghs_handle_gen h')) OR ucast (epa_ghs_handle_index h')" for h'
    unfolding epa_ghs_handle_gen_def epa_ghs_handle_index_def
    by (rule handle_split)
  moreover have "epa_ghs_handle_gen h' = epa_ghs_handle_gen h" using a by (simp add: epa_ghs_valid_def)
  moreover have "epa_ghs_handle_index h' = epa_ghs_handle_index h"
    using a(3) by (simp add: ghs_idx_def word_unat_eq_iff)
  ultimately show ?thesis by metis
qed

lemma ghs_write_payload:
  assumes "ghs_wf g" and "epa_ghs_write_bytes g h off src = Ok g'" and "length src < 4294967296"
  shows "epa_ghs_valid g' h' = epa_ghs_valid g h'"
    and "epa_ghs_valid g h' \<Longrightarrow>
         ghs_payload g' h' = (if h' = h then mem_write (ghs_payload g h) (unat off) src else ghs_payload g h')"
proof -
  have v: "epa_ghs_valid g h" and b: "unat off + length src \<le> length (ghs_payload g h)"
    using assms by (auto simp: ghs_write_bytes_eq split: if_splits)
  obtain p where p: "ge_ptr (g_entries g ! ghs_idx h) = Some p"
    "unat (ge_size (g_entries g ! ghs_idx h)) \<le> length p"
    "ghs_payload g h = take (unat (ge_size (g_entries g ! ghs_idx h))) p"
    using ghs_valid_entry [OF assms(1) v] by blast
  have e: "src = [] \<and> g' = g \<or> g' = ghs_set (ghs_idx h) ((g_entries g ! ghs_idx h)\<lparr>ge_ptr :=
                 Some (mem_write p (unat off) src)\<rparr>) g"
    using assms v b p by (auto simp: ghs_write_bytes_eq split: if_splits)
  show "epa_ghs_valid g' h' = epa_ghs_valid g h'"
    using e by (cases "ghs_idx h' = ghs_idx h") (auto simp: epa_ghs_valid_def)
  assume v': "epa_ghs_valid g h'"
  show "ghs_payload g' h' = (if h' = h then mem_write (ghs_payload g h) (unat off) src else ghs_payload g h')"
  proof (cases "h' = h")
    case True
    have "off' + length src \<le> n \<Longrightarrow> n \<le> length p \<Longrightarrow>
        take n (mem_write p off' src) = mem_write (take n p) off' src" for off' n
      by (rule take_mem_write)
    moreover have "src = [] \<Longrightarrow> mem_write (ghs_payload g h) (unat off) src = ghs_payload g h"
      using b by (simp add: mem_write_nil)
    moreover have "unat off + length src \<le> unat (ge_size (g_entries g ! ghs_idx h))"
      using b p by simp
    ultimately show ?thesis using True e p ghs_valid_idx [OF v]
      by (auto simp: ghs_payload_def)
  next
    case False
    then have "ghs_idx h' \<noteq> ghs_idx h" using ghs_valid_same_idx [OF v v'] by blast
    with False e show ?thesis by (auto simp: ghs_payload_set_other)
  qed
qed

section \<open>Sequences of operations\<close>

text \<open>Every operation that changes the table, with the effect it has on it: an error leaves
  the table as it is, \<open>None\<close> is undefined behaviour.\<close>

datatype ghs_cmd =
    GAlloc u32 u32 u32
  | GAllocTagged u32 u32 u32 u32
  | GFree u64
  | GTransfer u64 u32
  | GResize u64 u32
  | GWrite u64 u32 "u8 list"
  | GFlags u64 u32 u32
  | GTag u64 u32
  | GReset

definition ghs_after :: "epa_ghs \<Rightarrow> (ghs_err, epa_ghs) res \<Rightarrow> epa_ghs option" where
  "ghs_after g r = (case r of Ok g' \<Rightarrow> Some g' | Err _ \<Rightarrow> Some g | Ub \<Rightarrow> None)"

fun ghs_exec :: "allocator \<Rightarrow> ghs_cmd \<Rightarrow> epa_ghs \<Rightarrow> epa_ghs option" where
  "ghs_exec al (GAlloc ty ow sz) g = ghs_after g (map_res id snd (epa_ghs_alloc al g ty ow sz))"
| "ghs_exec al (GAllocTagged ty ow sz tag) g =
     ghs_after g (map_res id snd (epa_ghs_alloc_tagged al g ty ow sz tag))"
| "ghs_exec al (GFree h) g = ghs_after g (epa_ghs_free g h)"
| "ghs_exec al (GTransfer h ow) g = ghs_after g (epa_ghs_transfer g h ow)"
| "ghs_exec al (GResize h sz) g = ghs_after g (epa_ghs_resize al g h sz)"
| "ghs_exec al (GWrite h off src) g = ghs_after g (epa_ghs_write_bytes g h off src)"
| "ghs_exec al (GFlags h st cl) g = ghs_after g (epa_ghs_update_flags g h st cl)"
| "ghs_exec al (GTag h tag) g = ghs_after g (epa_ghs_set_tag g h tag)"
| "ghs_exec al GReset g = Some (epa_ghs_reset g)"

fun ghs_run :: "allocator \<Rightarrow> ghs_cmd list \<Rightarrow> epa_ghs \<Rightarrow> epa_ghs option" where
  "ghs_run al [] g = Some g"
| "ghs_run al (c # cs) g = (case ghs_exec al c g of None \<Rightarrow> None | Some g' \<Rightarrow> ghs_run al cs g')"

lemma ghs_after_wf:
  "ghs_after g r = Some g' \<Longrightarrow> ghs_wf g \<Longrightarrow> (\<And>g''. r = Ok g'' \<Longrightarrow> ghs_wf g'') \<Longrightarrow> ghs_wf g'"
  by (auto simp: ghs_after_def split: res.splits)

lemma ghs_exec_wf:
  assumes "ghs_wf g" and "alloc_ok al" and "ghs_exec al c g = Some g'"
  shows "ghs_wf g'"
proof (cases c)
  case (GAlloc ty ow sz)
  with assms show ?thesis
    by (auto elim!: ghs_after_wf intro: ghs_alloc_wf simp: map_res_eq_Ok)
next
  case (GAllocTagged ty ow sz tag)
  with assms show ?thesis
    by (auto elim!: ghs_after_wf intro: ghs_alloc_tagged_wf simp: map_res_eq_Ok)
qed (use assms in \<open>auto elim!: ghs_after_wf intro: wf_intros simp: ghs_reset_wf\<close>)

lemma ghs_run_wf: "ghs_wf g \<Longrightarrow> alloc_ok al \<Longrightarrow> ghs_run al cs g = Some g' \<Longrightarrow> ghs_wf g'"
  by (induction cs arbitrary: g) (auto split: option.splits dest: ghs_exec_wf)

text \<open>Generations only move forward, by at most one per operation.\<close>

definition ghs_gen_step :: "epa_ghs \<Rightarrow> epa_ghs \<Rightarrow> bool" where
  "ghs_gen_step g g' \<longleftrightarrow> length (g_entries g') = length (g_entries g) \<and>
     (\<forall>i < length (g_entries g).
        ge_generation (g_entries g' ! i) = ge_generation (g_entries g ! i)
        \<or> ge_generation (g_entries g' ! i) = ge_generation (g_entries g ! i) + 1)"

lemma ghs_gen_step_refl: "ghs_gen_step g g"
  by (simp add: ghs_gen_step_def)

lemma ghs_gen_step_set:
  "ge_generation e = ge_generation (g_entries g ! i) \<or> ge_generation e = ge_generation (g_entries g ! i) + 1
   \<Longrightarrow> ghs_gen_step g (ghs_set i e g)"
  by (auto simp: ghs_gen_step_def nth_update_if)

lemma ghs_gen_step_live [simp]: "ghs_gen_step g (g'\<lparr>g_live := n\<rparr>) = ghs_gen_step g g'"
  by (simp add: ghs_gen_step_def)

lemma ghs_after_gen:
  "ghs_after g r = Some g' \<Longrightarrow> (\<And>g''. r = Ok g'' \<Longrightarrow> ghs_gen_step g g'') \<Longrightarrow> ghs_gen_step g g'"
  by (auto simp: ghs_after_def ghs_gen_step_refl split: res.splits)

lemma ghs_exec_gen:
  assumes "ghs_exec al c g = Some g'"
  shows "ghs_gen_step g g'"
proof (cases c)
  case (GAllocTagged ty ow sz tag)
  have "ghs_gen_step g g''" if "epa_ghs_alloc_tagged al g ty ow sz tag = Ok (h, g'')" for h g''
    using that by (auto simp: epa_ghs_alloc_tagged_def epa_ghs_alloc_def epa_ghs_set_tag_def Let_def
        ghs_gen_step_def nth_update_if split: if_splits option.splits)
  with GAllocTagged assms show ?thesis by (auto elim!: ghs_after_gen simp: map_res_eq_Ok)
next
  case GReset
  with assms show ?thesis
    by (auto simp: epa_ghs_reset_def ghs_gen_step_def ghs_clear_entry_def)
qed (use assms in \<open>auto elim!: ghs_after_gen intro!: ghs_gen_step_set simp: map_res_eq_Ok
      epa_ghs_alloc_def epa_ghs_free_def epa_ghs_transfer_def epa_ghs_resize_def
      epa_ghs_write_bytes_def ghs_update_flags_new epa_ghs_set_tag_def ghs_entry_op_valid Let_def
      ghs_clear_entry_def ghs_gen_step_refl split: if_splits option.splits\<close>)

lemma ghs_run_gen:
  assumes "ghs_run al cs g = Some g'" and "i < length (g_entries g)"
  shows "length (g_entries g') = length (g_entries g) \<and>
    (\<exists>k \<le> length cs. ge_generation (g_entries g' ! i) = ge_generation (g_entries g ! i) + of_nat k)"
  using assms
proof (induction cs arbitrary: g)
  case Nil
  then show ?case by simp
next
  case (Cons c cs)
  from Cons.prems(1) obtain g1 where g1: "ghs_exec al c g = Some g1" "ghs_run al cs g1 = Some g'"
    by (auto split: option.splits)
  have s: "ghs_gen_step g g1" by (rule ghs_exec_gen [OF g1(1)])
  with Cons.IH [OF g1(2)] Cons.prems(2) obtain k where k: "k \<le> length cs"
      "ge_generation (g_entries g' ! i) = ge_generation (g_entries g1 ! i) + of_nat k"
      "length (g_entries g') = length (g_entries g)" by (auto simp: ghs_gen_step_def)
  from s Cons.prems(2) have "ge_generation (g_entries g1 ! i) = ge_generation (g_entries g ! i)
      \<or> ge_generation (g_entries g1 ! i) = ge_generation (g_entries g ! i) + 1"
    by (simp add: ghs_gen_step_def)
  then show ?case
  proof
    assume "ge_generation (g_entries g1 ! i) = ge_generation (g_entries g ! i)"
    with k show ?thesis by (auto intro!: exI [of _ k])
  next
    assume "ge_generation (g_entries g1 ! i) = ge_generation (g_entries g ! i) + 1"
    with k show ?thesis by (auto intro!: exI [of _ "Suc k"])
  qed
qed

section \<open>The table implements the handle-table interface\<close>

text \<open>An insertion is an allocation that gets the block \<open>b\<close>; the reads take their
  offset and length as numbers.\<close>

definition ghs_ins :: "u32 \<times> u32 \<times> u8 list \<Rightarrow> epa_ghs \<Rightarrow> (u64 \<times> epa_ghs) option" where
  "ghs_ins x g = (case x of (ty, ow, b) \<Rightarrow>
     (case epa_ghs_alloc (\<lambda>n. if n = length b then Some b else None) g ty ow (of_nat (length b)) of
        Ok r \<Rightarrow> Some r | _ \<Rightarrow> None))"

definition ghs_rd :: "epa_ghs \<Rightarrow> u64 \<Rightarrow> nat \<Rightarrow> nat \<Rightarrow> u8 list option" where
  "ghs_rd g h off len =
     (if off < 4294967296 \<and> len < 4294967296
      then (case epa_ghs_read_bytes g h (of_nat off) (of_nat len) of Ok b \<Rightarrow> Some b | _ \<Rightarrow> None)
      else None)"

lemma ghs_ins_alloc:
  assumes "ghs_ins x g = Some (h, g')"
  obtains al ty ow n where "alloc_ok al" "epa_ghs_alloc al g ty ow n = Ok (h, g')"
proof -
  obtain ty ow b where x: "x = (ty, ow, b)" by (cases x)
  have "alloc_ok (\<lambda>n. if n = length b then Some b else None)" by (simp add: alloc_ok_def)
  with assms x show thesis by (auto simp: ghs_ins_def split: res.splits intro: that)
qed

interpretation ght: fresh_handle_table ghs_wf epa_ghs_valid ghs_payload ghs_ins ghs_rd
proof unfold_locales
  fix t x h t' assume a: "ghs_wf t" "ghs_ins x t = Some (h, t')"
  from ghs_ins_alloc [OF a(2)] obtain al ty ow n where
    "alloc_ok al" "epa_ghs_alloc al t ty ow n = Ok (h, t')" .
  then show "ghs_wf t'" "epa_ghs_valid t' h" "\<not> epa_ghs_valid t h"
    using ghs_alloc_wf [OF a(1)] ghs_alloc_valid [OF a(1)] by blast+
next
  fix t x h t' h' assume a: "ghs_wf t" "ghs_ins x t = Some (h, t')" "epa_ghs_valid t h'"
  from ghs_ins_alloc [OF a(2)] obtain al ty ow n where
    "alloc_ok al" "epa_ghs_alloc al t ty ow n = Ok (h, t')" .
  with ghs_alloc_frame [OF a(1) _ _ a(3)] show "epa_ghs_valid t' h' \<and> ghs_payload t' h' = ghs_payload t h'"
    by (auto simp: ghs_payload_def)
next
  fix t h off len assume "ghs_wf t"
  moreover have "length (ghs_payload t h) < 4294967296" if "epa_ghs_valid t h"
    using that \<open>ghs_wf t\<close> u32_bound [of "ge_size (g_entries t ! ghs_idx h)"]
    by (simp add: ghs_length_payload)
  ultimately show "ghs_rd t h off len =
      (if epa_ghs_valid t h \<and> off + len \<le> length (ghs_payload t h)
       then Some (mem_read (ghs_payload t h) off len) else None)"
    by (auto simp: ghs_rd_def ghs_read_bytes_eq unat_of_nat)
qed

section \<open>Properties\<close>

text \<open>C7: A handle that was freed stays invalid: whatever operations follow (fewer than
  \<open>2 ^ 32 - 1\<close> of them, the point where the 32-bit generation can come back), validating it
  fails, although its slot may have been allocated again.\<close>

theorem ghs_freed_handle_stays_invalid:
  assumes "epa_ghs_free g h = Ok g1" and "ghs_run al cs g1 = Some g2" and "length cs < 4294967295"
  shows "epa_ghs_validate g2 h = Err GHS_ERR_BAD_HANDLE"
proof -
  have v: "epa_ghs_valid g h" using assms(1) by (auto simp: epa_ghs_free_def ghs_entry_op_valid split: if_splits)
  with assms(1) have g1: "length (g_entries g1) = length (g_entries g)"
      "ge_generation (g_entries g1 ! ghs_idx h) = epa_ghs_handle_gen h + 1"
    by (auto simp: epa_ghs_free_def ghs_entry_op_valid epa_ghs_valid_def ghs_clear_entry_def)
  then obtain k where k: "k \<le> length cs"
      "ge_generation (g_entries g2 ! ghs_idx h) = epa_ghs_handle_gen h + 1 + of_nat k"
    using ghs_run_gen [OF assms(2), of "ghs_idx h"] v by (auto simp: epa_ghs_valid_def)
  have "of_nat (Suc k) \<noteq> (0 :: u32)"
    using k(1) assms(3) by (subst word_unat_eq_iff) (simp add: unat_of_nat del: of_nat_Suc)
  then have "\<not> epa_ghs_valid g2 h" using k(2) by (simp add: epa_ghs_valid_def add.assoc)
  then show ?thesis by (simp add: ghs_validate_valid)
qed

definition ghs_demo :: epa_ghs where
  "ghs_demo = \<lparr>g_live = 1, g_entries = [ghs_fresh_entry\<lparr>ge_flags := 1, ge_type := 1, ge_owner := 3,
     ge_size := 4, ge_capacity := 6, ge_ptr := Some [1, 2, 3, 4, 5, 6]\<rparr>, ghs_fresh_entry]\<rparr>"

definition ghs_demo_h :: u64 where
  "ghs_demo_h = 0x100000000"

lemmas ghs_demo_defs = ghs_demo_def ghs_demo_h_def ghs_fresh_entry_def

theorem ghs_freed_handle_stays_invalid_witness:
  "\<exists>g1 g2. epa_ghs_free ghs_demo ghs_demo_h = Ok g1 \<and> ghs_run zero_alloc [GAlloc 1 2 8] g1 = Some g2
     \<and> epa_ghs_validate g2 ghs_demo_h = Err GHS_ERR_BAD_HANDLE"
proof -
  obtain g1 where g1: "epa_ghs_free ghs_demo ghs_demo_h = Ok g1" by (cases "epa_ghs_free ghs_demo ghs_demo_h")
      (simp_all add: epa_ghs_free_def ghs_entry_op_def epa_ghs_validate_def ghs_demo_defs ghs_idx_def
        epa_ghs_handle_index_def epa_ghs_handle_gen_def ge_in_use_def ghs_flag_defs)
  have "\<exists>g2. ghs_run zero_alloc [GAlloc 1 2 8] g1 = Some g2"
    by (auto simp: ghs_after_def epa_ghs_alloc_def zero_alloc_def Let_def split: option.splits res.splits)
  with g1 ghs_freed_handle_stays_invalid [OF g1, of zero_alloc "[GAlloc 1 2 8]"] show ?thesis by auto
qed

lemma ghs_after_defined: "r \<noteq> Ub \<Longrightarrow> \<exists>g'. ghs_after g r = Some g'"
  by (cases r) (simp_all add: ghs_after_def)

lemma ghs_alloc_defined: "epa_ghs_alloc al g ty ow sz \<noteq> Ub"
  by (simp add: epa_ghs_alloc_def Let_def split: option.split)

lemma ghs_update_flags_defined: "epa_ghs_update_flags g h st cl \<noteq> Ub"
  by (simp add: ghs_update_flags_new ghs_entry_op_valid)

text \<open>C8: The invariant of the handle space holds for ever: after any sequence of operations
  on a new table the live count is the number of entries in use, every entry in use owns a block
  of exactly its capacity and its size lies between 1 and that capacity, and an entry of the
  global cache is publicly readable.\<close>

theorem ghs_invariant:
  assumes "epa_ghs_create ok n = Some g" and "alloc_ok al" and "ghs_run al cs g = Some g'"
  shows "epa_ghs_live_count g' = of_nat (length (filter ge_in_use (g_entries g')))
    \<and> list_all (\<lambda>e. ge_in_use e \<longrightarrow>
         (\<exists>p. ge_ptr e = Some p \<and> length p = unat (ge_capacity e))
         \<and> 0 < ge_size e \<and> ge_size e \<le> ge_capacity e) (g_entries g')
    \<and> list_all (\<lambda>e. ge_flags e AND EPA_GHS_F_GLOBAL_CACHE \<noteq> 0 \<longrightarrow>
         ge_flags e AND EPA_GHS_F_PUBLIC_READ \<noteq> 0) (g_entries g')"
proof -
  have "ghs_wf g'" using ghs_run_wf [OF ghs_create_wf [OF assms(1)] assms(2,3)] .
  then show ?thesis
    by (auto simp: ghs_wf_def ghs_used_def epa_ghs_live_count_def ghs_entry_wf_def list_all_iff)
qed

theorem ghs_invariant_witness:
  "\<exists>g g'. epa_ghs_create True 2 = Some g \<and> ghs_run zero_alloc [GAlloc 1 2 8, GFlags 0x100000000 4 0] g = Some g'
     \<and> epa_ghs_live_count g' = of_nat (length (filter ge_in_use (g_entries g')))"
proof -
  obtain g where g: "epa_ghs_create True 2 = Some g" by (simp add: epa_ghs_create_def)
  have "map_res id snd (epa_ghs_alloc zero_alloc g 1 2 8) \<noteq> Ub"
    using ghs_alloc_defined [of zero_alloc g 1 2 8] by (cases "epa_ghs_alloc zero_alloc g 1 2 8") simp_all
  from ghs_after_defined [OF this] obtain g1 where g1: "ghs_exec zero_alloc (GAlloc 1 2 8) g = Some g1"
    by auto
  obtain g' where g': "ghs_exec zero_alloc (GFlags 0x100000000 4 0) g1 = Some g'"
    using ghs_after_defined [OF ghs_update_flags_defined [of g1 "0x100000000" 4 0], of g1] by auto
  from ghs_invariant [OF g alloc_ok_zero, of "[GAlloc 1 2 8, GFlags 0x100000000 4 0]" g'] g g1 g'
  show ?thesis by auto
qed

text \<open>C9: What is written is what is read: after a successful write the same range reads
  back the bytes written, every range of another handle and every disjoint range of the same
  handle reads as before.\<close>

theorem ghs_write_read:
  assumes "ghs_wf g" and "epa_ghs_write_bytes g h off src = Ok g'" and "length src < 4294967296"
  shows "epa_ghs_read_bytes g' h off (of_nat (length src)) = Ok src
    \<and> (h' \<noteq> h \<or> unat o2 + unat len \<le> unat off \<or> unat off + length src \<le> unat o2 \<longrightarrow>
         epa_ghs_read_bytes g' h' o2 len = epa_ghs_read_bytes g h' o2 len)"
proof -
  have v: "epa_ghs_valid g h" and b: "unat off + length src \<le> length (ghs_payload g h)"
    using assms by (auto simp: ghs_write_bytes_eq split: if_splits)
  have wf': "ghs_wf g'" by (rule ghs_write_wf [OF assms(1,2)])
  note p = ghs_write_payload [OF assms]
  have "unat (of_nat (length src) :: u32) = length src" using assms(3) by (simp add: unat_of_nat)
  then have "epa_ghs_read_bytes g' h off (of_nat (length src)) = Ok src"
    using v b p [of h] by (simp add: ghs_read_bytes_eq [OF wf'] mem_read_write_same)
  moreover have "epa_ghs_read_bytes g' h' o2 len = epa_ghs_read_bytes g h' o2 len"
    if "h' \<noteq> h \<or> unat o2 + unat len \<le> unat off \<or> unat off + length src \<le> unat o2"
    using that p [of h'] b
    by (auto simp: ghs_read_bytes_eq [OF wf'] ghs_read_bytes_eq [OF assms(1)] mem_read_write_other)
  ultimately show ?thesis by blast
qed

lemma ghs_demo_wf: "ghs_wf ghs_demo"
  by (simp add: ghs_wf_def ghs_used_def ghs_entry_wf_def ge_in_use_def ghs_flag_defs ghs_demo_def
      ghs_fresh_entry_def)

lemma ghs_demo_valid: "epa_ghs_valid ghs_demo ghs_demo_h"
  by (simp add: epa_ghs_valid_def ghs_idx_def epa_ghs_handle_index_def epa_ghs_handle_gen_def
      ge_in_use_def ghs_flag_defs ghs_demo_defs)

lemma ghs_demo_entry: "g_entries ghs_demo ! ghs_idx ghs_demo_h = ghs_fresh_entry\<lparr>ge_flags := 1,
    ge_type := 1, ge_owner := 3, ge_size := 4, ge_capacity := 6, ge_ptr := Some [1, 2, 3, 4, 5, 6]\<rparr>"
  by (simp add: ghs_idx_def epa_ghs_handle_index_def ghs_demo_defs)

lemma ghs_demo_payload: "ghs_payload ghs_demo ghs_demo_h = [1, 2, 3, 4]"
  by (simp add: ghs_payload_def ghs_idx_def epa_ghs_handle_index_def ghs_demo_defs)

theorem ghs_write_read_witness:
  "\<exists>g'. epa_ghs_write_bytes ghs_demo ghs_demo_h 1 [7, 8] = Ok g'
     \<and> epa_ghs_read_bytes g' ghs_demo_h 1 2 = Ok [7, 8]
     \<and> epa_ghs_read_bytes g' ghs_demo_h 3 1 = epa_ghs_read_bytes ghs_demo ghs_demo_h 3 1"
proof -
  obtain g' where g': "epa_ghs_write_bytes ghs_demo ghs_demo_h 1 [7, 8] = Ok g'"
    by (simp add: ghs_write_bytes_eq ghs_demo_wf ghs_demo_valid ghs_demo_payload)
  with ghs_write_read [OF ghs_demo_wf g', of ghs_demo_h 3 1] show ?thesis by simp
qed

text \<open>Growing or shrinking a block keeps its handle valid and the bytes that both sizes
  share.\<close>

theorem ghs_resize_keeps_prefix:
  assumes "ghs_wf g" and "alloc_ok al" and "epa_ghs_resize al g h n = Ok g'"
  shows "epa_ghs_valid g' h \<and> length (ghs_payload g' h) = unat n
    \<and> take (min (unat n) (length (ghs_payload g h))) (ghs_payload g' h)
      = take (min (unat n) (length (ghs_payload g h))) (ghs_payload g h)"
proof -
  have v: "epa_ghs_valid g h" and n: "n \<noteq> 0"
    using assms(3) by (auto simp: epa_ghs_resize_def ghs_entry_op_valid split: if_splits)
  let ?e = "g_entries g ! ghs_idx h"
  obtain p where p: "ge_ptr ?e = Some p" "length p = unat (ge_capacity ?e)"
    "unat (ge_size ?e) \<le> length p" "ghs_payload g h = take (unat (ge_size ?e)) p"
    using ghs_valid_entry [OF assms(1) v] by blast
  show ?thesis
  proof (cases "n \<le> ge_capacity ?e")
    case True
    with assms(3) v n have "g' = ghs_set (ghs_idx h) (?e\<lparr>ge_size := n\<rparr>) g"
      by (simp add: epa_ghs_resize_def ghs_entry_op_valid)
    with True p v show ?thesis
      by (auto simp: epa_ghs_valid_def ghs_payload_def word_le_nat_alt min_def)
  next
    case False
    then have "unat (ge_size ?e) \<le> unat n" using p by (simp add: word_le_nat_alt)
    with False assms(3) v n p obtain np where np: "al (unat n) = Some np"
      and g': "g' = ghs_set (ghs_idx h) (?e\<lparr>ge_ptr := Some (mem_write np 0 (take (unat (ge_size ?e)) p)),
          ge_capacity := n, ge_size := n\<rparr>) g"
      by (auto simp: epa_ghs_resize_def ghs_entry_op_valid Let_def split: option.splits if_splits)
    have "length np = unat n" by (rule alloc_okD [OF assms(2) np])
    with g' p v \<open>unat (ge_size ?e) \<le> unat n\<close> show ?thesis
      by (simp add: epa_ghs_valid_def ghs_payload_def mem_write_def ge_in_use_def min_def)
  qed
qed

theorem ghs_resize_keeps_prefix_witness:
  "\<exists>g'. epa_ghs_resize zero_alloc ghs_demo ghs_demo_h 9 = Ok g' \<and> length (ghs_payload g' ghs_demo_h) = 9
     \<and> take (min 9 (length (ghs_payload ghs_demo ghs_demo_h))) (ghs_payload g' ghs_demo_h) = [1, 2, 3, 4]"
proof -
  obtain g' where g': "epa_ghs_resize zero_alloc ghs_demo ghs_demo_h 9 = Ok g'"
    by (simp add: epa_ghs_resize_def ghs_entry_op_valid ghs_demo_valid zero_alloc_def Let_def ghs_demo_entry)
  from ghs_resize_keeps_prefix [OF ghs_demo_wf alloc_ok_zero g'] g' show ?thesis
    by (simp add: ghs_demo_payload)
qed

text \<open>Handles are never shared: the handles of successive allocations are pairwise
  different, none of them was valid before, all are valid afterwards, and no read through an older
  handle changes.\<close>

theorem ghs_allocs_fresh:
  assumes "ghs_wf g" and "ins_all ghs_ins xs g = Some (hs, g')"
  shows "distinct hs \<and> list_all (\<lambda>h. \<not> epa_ghs_valid g h \<and> epa_ghs_valid g' h) hs
    \<and> (epa_ghs_valid g h \<longrightarrow> ghs_rd g' h off len = ghs_rd g h off len)"
  using ght.ins_all_fresh [OF assms] ght.ins_all_frame [OF assms] by (auto simp: list_all_iff)

theorem ghs_allocs_fresh_witness:
  "\<exists>hs g'. ins_all ghs_ins [(1, 2, [5, 6])] ghs_demo = Some (hs, g') \<and> distinct hs"
proof -
  have "\<exists>hs g'. ins_all ghs_ins [(1, 2, [5, 6])] ghs_demo = Some (hs, g')"
    by (simp add: ghs_ins_def epa_ghs_alloc_def ghs_demo_def ghs_fresh_entry_def
        ghs_find_free_slot_def ge_in_use_def ghs_flag_defs Let_def)
  with ghs_allocs_fresh [OF ghs_demo_wf, of "[(1, 2, [5, 6])]"] show ?thesis by blast
qed

end
