(* ===== verification/EpaRgm.thy ===== *)
theory EpaRgm
  imports EpaGhs
begin

text \<open>
  The read-only global memory of \<open>src/memory/epa_rgm.c\<close>: named, immutable byte blocks,
  shared by all kernels of the process. The mutex makes every operation atomic, so an operation is
  one function of the table. \<open>rgm_wf\<close> says that published names are unique; publishing is
  idempotent and never changes a block that is already there, which the handle-table interface of
  the prelude turns into stability of every read.
\<close>

datatype rgm_err = RGM_ERR_OOM | RGM_ERR_FULL | RGM_ERR_BAD_HANDLE | RGM_ERR_BAD_SIZE
  | RGM_ERR_DUPLICATE | RGM_ERR_BOUNDS | RGM_ERR_NOT_FOUND

record rgm_entry =
  re_in_use :: u32
  re_generation :: u32
  re_name :: u64
  re_size :: u32
  re_bytes :: "u8 list option"

record epa_rgm =
  rg_live :: u32
  rg_entries :: "rgm_entry list"

definition epa_rgm_handle_index :: "u64 \<Rightarrow> u32" where
  "epa_rgm_handle_index h = ucast (h AND 0xffffffff)"

definition epa_rgm_handle_gen :: "u64 \<Rightarrow> u32" where
  "epa_rgm_handle_gen h = ucast (drop_bit 32 h)"

definition epa_rgm_make_handle :: "u32 \<Rightarrow> u32 \<Rightarrow> u64" where
  "epa_rgm_make_handle idx gen = push_bit 32 (ucast gen) OR ucast idx"

definition rgm_published :: "rgm_entry \<Rightarrow> bool" where
  "rgm_published e \<longleftrightarrow> re_in_use e \<noteq> 0"

definition rgm_fresh_entry :: rgm_entry where
  "rgm_fresh_entry = \<lparr>re_in_use = 0, re_generation = 1, re_name = 0, re_size = 0, re_bytes = None\<rparr>"

definition epa_rgm_create :: "bool \<Rightarrow> u32 \<Rightarrow> epa_rgm option" where
  "epa_rgm_create ok max_entries =
     (if max_entries = 0 \<or> \<not> ok then None
      else Some \<lparr>rg_live = 0, rg_entries = replicate (unat max_entries) rgm_fresh_entry\<rparr>)"

text \<open>The process-wide table, created on first use.\<close>

definition epa_rgm_global :: "bool \<Rightarrow> epa_rgm option \<Rightarrow> epa_rgm option" where
  "epa_rgm_global ok g_rgm = (case g_rgm of None \<Rightarrow> epa_rgm_create ok 65536 | Some r \<Rightarrow> Some r)"

definition epa_rgm_reset :: "epa_rgm \<Rightarrow> epa_rgm" where
  "epa_rgm_reset t = t\<lparr>rg_live := 0,
     rg_entries := map (\<lambda>e. if \<not> rgm_published e then e
       else e\<lparr>re_bytes := None, re_in_use := 0, re_name := 0, re_size := 0,
              re_generation := re_generation e + 1\<rparr>) (rg_entries t)\<rparr>"

definition rgm_find_by_name :: "epa_rgm \<Rightarrow> u64 \<Rightarrow> nat option" where
  "rgm_find_by_name t name_uid = find_slot (\<lambda>e. rgm_published e \<and> re_name e = name_uid) (rg_entries t)"

definition rgm_find_free :: "epa_rgm \<Rightarrow> nat option" where
  "rgm_find_free t = find_slot (\<lambda>e. \<not> rgm_published e) (rg_entries t)"

definition rgm_idx :: "u64 \<Rightarrow> nat" where
  "rgm_idx h = unat (epa_rgm_handle_index h)"

definition epa_rgm_validate :: "epa_rgm \<Rightarrow> u64 \<Rightarrow> (rgm_err, unit) res" where
  "epa_rgm_validate t h =
     (if rgm_idx h \<ge> length (rg_entries t) then Err RGM_ERR_BAD_HANDLE
      else let e = rg_entries t ! rgm_idx h in
        if \<not> rgm_published e \<or> re_generation e \<noteq> epa_rgm_handle_gen h then Err RGM_ERR_BAD_HANDLE
        else Ok ())"

text \<open>\<open>al\<close> is the answer of \<open>malloc\<close>; \<open>memcmp\<close> and \<open>memcpy\<close> read
  \<open>size_bytes\<close> bytes of the argument, which is the length of the list.\<close>

definition epa_rgm_publish_copy ::
  "bool \<Rightarrow> epa_rgm \<Rightarrow> u64 \<Rightarrow> u8 list \<Rightarrow> (rgm_err, u64 \<times> epa_rgm) res" where
  "epa_rgm_publish_copy ok t name_uid bytes =
     (if name_uid = 0 \<or> bytes = [] then Err RGM_ERR_BAD_SIZE
      else case rgm_find_by_name t name_uid of
        Some i \<Rightarrow>
          (let e = rg_entries t ! i in
           if re_size e = of_nat (length bytes) \<and> re_bytes e = Some bytes
           then Ok (epa_rgm_make_handle (of_nat i) (re_generation e), t)
           else Err RGM_ERR_DUPLICATE)
      | None \<Rightarrow>
          (case rgm_find_free t of
             None \<Rightarrow> Err RGM_ERR_FULL
           | Some i \<Rightarrow>
               if \<not> ok then Err RGM_ERR_OOM
               else
                 let e = rg_entries t ! i;
                     e' = e\<lparr>re_name := name_uid, re_size := of_nat (length bytes),
                            re_bytes := Some bytes, re_in_use := 1\<rparr>
                 in Ok (epa_rgm_make_handle (of_nat i) (re_generation e'),
                        t\<lparr>rg_entries := (rg_entries t)[i := e'], rg_live := rg_live t + 1\<rparr>)))"

definition epa_rgm_get_by_name :: "epa_rgm \<Rightarrow> u64 \<Rightarrow> (rgm_err, u64) res" where
  "epa_rgm_get_by_name t name_uid =
     (case rgm_find_by_name t name_uid of
        None \<Rightarrow> Err RGM_ERR_NOT_FOUND
      | Some i \<Rightarrow> Ok (epa_rgm_make_handle (of_nat i) (re_generation (rg_entries t ! i))))"

record rgm_meta =
  rm_name :: u64
  rm_size :: u32
  rm_generation :: u32

definition epa_rgm_get_meta :: "epa_rgm \<Rightarrow> u64 \<Rightarrow> (rgm_err, rgm_meta) res" where
  "epa_rgm_get_meta t h =
     (case epa_rgm_validate t h of
        Err e \<Rightarrow> Err e | Ub \<Rightarrow> Ub
      | Ok _ \<Rightarrow> let e = rg_entries t ! rgm_idx h in
          Ok \<lparr>rm_name = re_name e, rm_size = re_size e, rm_generation = re_generation e\<rparr>)"

definition epa_rgm_read_bytes :: "epa_rgm \<Rightarrow> u64 \<Rightarrow> u32 \<Rightarrow> u32 \<Rightarrow> (rgm_err, u8 list) res" where
  "epa_rgm_read_bytes t h offset len =
     (case epa_rgm_validate t h of
        Err e \<Rightarrow> Err e | Ub \<Rightarrow> Ub
      | Ok _ \<Rightarrow> let e = rg_entries t ! rgm_idx h in
          if offset > re_size e then Err RGM_ERR_BOUNDS
          else if len > re_size e - offset then Err RGM_ERR_BOUNDS
          else if len = 0 then Ok []
          else (case re_bytes e of
                  None \<Rightarrow> Ub
                | Some b \<Rightarrow> if unat offset + unat len \<le> length b
                            then Ok (mem_read b (unat offset) (unat len)) else Ub))"

section \<open>Invariant\<close>

definition rgm_entry_wf :: "rgm_entry \<Rightarrow> bool" where
  "rgm_entry_wf e \<longleftrightarrow> rgm_published e \<longrightarrow>
     re_bytes e \<noteq> None \<and> length (the (re_bytes e)) = unat (re_size e) \<and> re_name e \<noteq> 0"

definition rgm_names :: "epa_rgm \<Rightarrow> u64 list" where
  "rgm_names t = map re_name (filter rgm_published (rg_entries t))"

definition rgm_wf :: "epa_rgm \<Rightarrow> bool" where
  "rgm_wf t \<longleftrightarrow> length (rg_entries t) < 4294967296 \<and> list_all rgm_entry_wf (rg_entries t)
     \<and> distinct (rgm_names t) \<and> rg_live t = of_nat (length (rgm_names t))"

definition rgm_valid :: "epa_rgm \<Rightarrow> u64 \<Rightarrow> bool" where
  "rgm_valid t h \<longleftrightarrow> rgm_idx h < length (rg_entries t) \<and> rgm_published (rg_entries t ! rgm_idx h)
     \<and> re_generation (rg_entries t ! rgm_idx h) = epa_rgm_handle_gen h"

definition rgm_block :: "epa_rgm \<Rightarrow> u64 \<Rightarrow> u8 list" where
  "rgm_block t h = (case re_bytes (rg_entries t ! rgm_idx h) of None \<Rightarrow> [] | Some b \<Rightarrow> b)"

lemma rgm_validate_valid:
  "epa_rgm_validate t h = (if rgm_valid t h then Ok () else Err RGM_ERR_BAD_HANDLE)"
  by (auto simp: epa_rgm_validate_def rgm_valid_def Let_def)

lemma rgm_make_handle_inverse:
  "i < 4294967296 \<Longrightarrow> rgm_idx (epa_rgm_make_handle (of_nat i) g) = i"
  "epa_rgm_handle_gen (epa_rgm_make_handle j g) = g"
  unfolding rgm_idx_def epa_rgm_handle_index_def epa_rgm_handle_gen_def epa_rgm_make_handle_def handle_low handle_high
  by (simp_all add: unat_of_nat)

lemma rgm_create_wf: "epa_rgm_create ok n = Some t \<Longrightarrow> rgm_wf t \<and> rgm_names t = []"
  using u32_bound [of n]
  by (auto simp: epa_rgm_create_def rgm_wf_def rgm_names_def rgm_fresh_entry_def rgm_entry_wf_def
      rgm_published_def list_all_length split: if_splits)

lemma rgm_reset_wf: "rgm_wf t \<Longrightarrow> rgm_wf (epa_rgm_reset t)"
proof -
  have "filter (\<lambda>e. rgm_published (if \<not> rgm_published e then e
       else e\<lparr>re_bytes := None, re_in_use := 0, re_name := 0, re_size := 0,
              re_generation := re_generation e + 1\<rparr>)) es = []" for es
    by (simp add: filter_empty_conv rgm_published_def)
  then show "rgm_wf t \<Longrightarrow> rgm_wf (epa_rgm_reset t)"
    by (auto simp: rgm_wf_def epa_rgm_reset_def rgm_names_def list_all_iff rgm_entry_wf_def
        rgm_published_def filter_map comp_def)
qed

lemma filter_map_update_new:
  "i < length xs \<Longrightarrow> \<not> P (xs ! i) \<Longrightarrow> P x \<Longrightarrow>
   \<exists>ys zs. map f (filter P xs) = ys @ zs \<and> map f (filter P (xs[i := x])) = ys @ f x # zs"
proof (induction xs arbitrary: i)
  case Nil
  then show ?case by simp
next
  case (Cons a xs)
  show ?case
  proof (cases i)
    case 0
    with Cons.prems show ?thesis by (intro exI [of _ "[]"] exI [of _ "map f (filter P xs)"]) simp
  next
    case (Suc j)
    with Cons.IH [of j] Cons.prems obtain ys zs where
      "map f (filter P xs) = ys @ zs" "map f (filter P (xs[j := x])) = ys @ f x # zs" by auto
    with Suc show ?thesis
      by (intro exI [of _ "(if P a then [f a] else []) @ ys"] exI [of _ zs]) simp
  qed
qed

text \<open>Publishing a new name.\<close>

lemma rgm_publish_new:
  assumes "rgm_wf t" and "epa_rgm_publish_copy ok t nm bytes = Ok (h, t')"
    and "rgm_find_by_name t nm = None" and "length bytes < 4294967296"
  shows "rgm_wf t'" and "rgm_valid t' h" and "\<not> rgm_valid t h" and "rgm_block t' h = bytes"
    and "epa_rgm_get_by_name t' nm = Ok h" and "set (rgm_names t') = insert nm (set (rgm_names t))"
    and "rgm_valid t h' \<Longrightarrow> rgm_valid t' h' \<and> rg_entries t' ! rgm_idx h' = rg_entries t ! rgm_idx h'"
proof -
  from assms(2,3) obtain i where i: "rgm_find_free t = Some i" and nz: "nm \<noteq> 0" "bytes \<noteq> []"
    and h: "h = epa_rgm_make_handle (of_nat i) (re_generation (rg_entries t ! i))"
    and t': "t' = t\<lparr>rg_entries := (rg_entries t)[i := (rg_entries t ! i)\<lparr>re_name := nm,
        re_size := of_nat (length bytes), re_bytes := Some bytes, re_in_use := 1\<rparr>],
        rg_live := rg_live t + 1\<rparr>"
    by (auto simp: epa_rgm_publish_copy_def Let_def split: if_splits option.splits)
  let ?e = "(rg_entries t ! i)\<lparr>re_name := nm,
        re_size := of_nat (length bytes), re_bytes := Some bytes, re_in_use := 1\<rparr>"
  have il: "i < length (rg_entries t)" "\<not> rgm_published (rg_entries t ! i)"
    using find_slot_Some i unfolding rgm_find_free_def by fastforce+
  have ib: "i < 4294967296" using il assms(1) by (simp add: rgm_wf_def)
  have pe: "rgm_published ?e" by (simp add: rgm_published_def)
  have hi: "rgm_idx h = i" "epa_rgm_handle_gen h = re_generation (rg_entries t ! i)"
    unfolding h by (simp_all add: rgm_make_handle_inverse ib)
  obtain ys zs where yz: "rgm_names t = ys @ zs" "rgm_names t' = ys @ nm # zs"
    using filter_map_update_new [of i "rg_entries t" rgm_published ?e re_name] il pe
    by (auto simp: rgm_names_def t')
  have nn: "nm \<notin> set (rgm_names t)"
    using assms(3) by (auto simp: rgm_find_by_name_def find_slot_None rgm_names_def list_all_iff)
  show "rgm_wf t'"
    using assms(1,4) yz nn nz unfolding rgm_wf_def
    by (auto simp: t' list_all_update rgm_entry_wf_def unat_of_nat)
  show "rgm_valid t' h" "\<not> rgm_valid t h" "rgm_block t' h = bytes"
    using il pe hi by (simp_all add: rgm_valid_def rgm_block_def t')
  show "set (rgm_names t') = insert nm (set (rgm_names t))" using yz by auto
  have uniq: "j = i" if "j < length (rg_entries t)" "rgm_published (rg_entries t' ! j)"
      "re_name (rg_entries t' ! j) = nm" for j
    using that nn by (auto simp: t' nth_update_if rgm_names_def split: if_splits)
  have "list_ex (\<lambda>e. rgm_published e \<and> re_name e = nm) (rg_entries t')"
    using il pe by (auto simp: list_ex_length t' intro!: exI [of _ i])
  then obtain j where j: "rgm_find_by_name t' nm = Some j"
    using find_slot_ex unfolding rgm_find_by_name_def by fastforce
  then have "j = i" using uniq find_slot_Some [OF j [unfolded rgm_find_by_name_def]] by (simp add: t')
  then show "epa_rgm_get_by_name t' nm = Ok h"
    using j il by (simp add: epa_rgm_get_by_name_def h t')
  show "rgm_valid t h' \<Longrightarrow> rgm_valid t' h' \<and> rg_entries t' ! rgm_idx h' = rg_entries t ! rgm_idx h'"
    using il by (auto simp: rgm_valid_def t' nth_update_if)
qed

section \<open>The table implements the handle-table interface\<close>

text \<open>A publication that succeeds, of a new name or of one that is known.\<close>

definition rgm_ins :: "u64 \<times> u8 list \<Rightarrow> epa_rgm \<Rightarrow> (u64 \<times> epa_rgm) option" where
  "rgm_ins x t = (case x of (nm, b) \<Rightarrow>
     if length b < 4294967296 then (case epa_rgm_publish_copy True t nm b of Ok r \<Rightarrow> Some r | _ \<Rightarrow> None) else None)"

definition rgm_rd :: "epa_rgm \<Rightarrow> u64 \<Rightarrow> nat \<Rightarrow> nat \<Rightarrow> u8 list option" where
  "rgm_rd t h off len =
     (if off < 4294967296 \<and> len < 4294967296
      then (case epa_rgm_read_bytes t h (of_nat off) (of_nat len) of Ok b \<Rightarrow> Some b | _ \<Rightarrow> None)
      else None)"

lemma rgm_read_bytes_eq:
  assumes "rgm_wf t"
  shows "epa_rgm_read_bytes t h off len =
    (if \<not> rgm_valid t h then Err RGM_ERR_BAD_HANDLE
     else if unat off + unat len \<le> length (rgm_block t h)
     then Ok (mem_read (rgm_block t h) (unat off) (unat len)) else Err RGM_ERR_BOUNDS)"
proof (cases "rgm_valid t h")
  case True
  with assms obtain b where "re_bytes (rg_entries t ! rgm_idx h) = Some b"
      "length b = unat (re_size (rg_entries t ! rgm_idx h))"
    by (auto simp: rgm_valid_def rgm_wf_def list_all_length rgm_entry_wf_def)
  with True show ?thesis
    by (auto simp: epa_rgm_read_bytes_def rgm_validate_valid rgm_block_def word_room Let_def
        mem_read_def unat_eq_0)
qed (simp add: epa_rgm_read_bytes_def rgm_validate_valid)

lemma rgm_publish_known:
  assumes "rgm_wf t" and "rgm_find_by_name t nm = Some i"
    and "epa_rgm_publish_copy ok t nm bytes = Ok (h, t')"
  shows "t' = t \<and> rgm_valid t h \<and> rgm_block t h = bytes \<and> epa_rgm_get_by_name t nm = Ok h"
proof -
  have i: "i < length (rg_entries t)" "rgm_published (rg_entries t ! i)"
    using find_slot_Some [OF assms(2) [unfolded rgm_find_by_name_def]] by auto
  then have "i < 4294967296" using assms(1) by (simp add: rgm_wf_def)
  with i assms(2,3) show ?thesis
    by (auto simp: epa_rgm_publish_copy_def Let_def rgm_valid_def rgm_make_handle_inverse rgm_block_def
        epa_rgm_get_by_name_def split: if_splits)
qed

text \<open>What a publication, of a new or a known name, gives and keeps.\<close>

lemma rgm_publish_gives:
  assumes "rgm_wf t" and "epa_rgm_publish_copy ok t nm bytes = Ok (h, t')" and "length bytes < 4294967296"
  shows "rgm_wf t' \<and> rgm_valid t' h \<and> rgm_block t' h = bytes \<and> epa_rgm_get_by_name t' nm = Ok h"
  using rgm_publish_new [OF assms(1,2) _ assms(3)] rgm_publish_known [OF assms(1) _ assms(2)] assms(1)
  by (cases "rgm_find_by_name t nm") auto

lemma rgm_publish_keeps:
  assumes "rgm_wf t" and "epa_rgm_publish_copy ok t nm bytes = Ok (h, t')" and "length bytes < 4294967296" and "rgm_valid t h'"
  shows "rgm_valid t' h' \<and> rg_entries t' ! rgm_idx h' = rg_entries t ! rgm_idx h'"
proof (cases "rgm_find_by_name t nm")
  case None
  show ?thesis using rgm_publish_new(7) [OF assms(1,2) None assms(3,4)] .
next
  case (Some i)
  show ?thesis using rgm_publish_known [OF assms(1) Some assms(2)] assms(4) by simp
qed

lemma distinct_filter_same:
  "distinct (map f (filter P xs)) \<Longrightarrow> i < length xs \<Longrightarrow> j < length xs \<Longrightarrow> P (xs ! i) \<Longrightarrow> P (xs ! j) \<Longrightarrow> f (xs ! i) = f (xs ! j) \<Longrightarrow> i = j"
proof (induction xs arbitrary: i j)
  case (Cons x xs)
  have "f x \<noteq> f (xs ! k) \<and> f (xs ! k) \<noteq> f x" if "P x" "k < length xs" "P (xs ! k)" for k
    using Cons.prems(1) that by (force simp: image_iff)
  then show ?case using Cons by (cases i; cases j) (auto split: if_splits)
qed simp

lemma rgm_find_unique:
  assumes "rgm_wf t" "j < length (rg_entries t)" "rgm_published (rg_entries t ! j)"
  shows "rgm_find_by_name t (re_name (rg_entries t ! j)) = Some j"
proof -
  have "list_ex (\<lambda>e. rgm_published e \<and> re_name e = re_name (rg_entries t ! j)) (rg_entries t)"
    using assms by (auto simp: list_ex_length)
  then obtain i where i: "rgm_find_by_name t (re_name (rg_entries t ! j)) = Some i"
    using find_slot_ex unfolding rgm_find_by_name_def by fastforce
  then have "i < length (rg_entries t)" "rgm_published (rg_entries t ! i)" "re_name (rg_entries t ! i) = re_name (rg_entries t ! j)"
    using find_slot_Some [OF i [unfolded rgm_find_by_name_def]] by auto
  then have "i = j" using assms by (intro distinct_filter_same [of re_name rgm_published "rg_entries t"]) (auto simp: rgm_wf_def rgm_names_def)
  with i show ?thesis by simp
qed

lemma rgm_get_Ok:
  assumes "rgm_wf t"
  shows "epa_rgm_get_by_name t n = Ok h \<longleftrightarrow> rgm_valid t h \<and> re_name (rg_entries t ! rgm_idx h) = n
     \<and> h = epa_rgm_make_handle (of_nat (rgm_idx h)) (re_generation (rg_entries t ! rgm_idx h))"
proof
  assume "epa_rgm_get_by_name t n = Ok h"
  then obtain j where j: "rgm_find_by_name t n = Some j" "h = epa_rgm_make_handle (of_nat j) (re_generation (rg_entries t ! j))"
    by (auto simp: epa_rgm_get_by_name_def split: option.splits)
  then have f: "j < length (rg_entries t)" "rgm_published (rg_entries t ! j)" "re_name (rg_entries t ! j) = n"
    using find_slot_Some [OF j(1) [unfolded rgm_find_by_name_def]] by auto
  then have "rgm_idx h = j" using assms j(2) by (simp add: rgm_wf_def rgm_make_handle_inverse)
  then show "rgm_valid t h \<and> re_name (rg_entries t ! rgm_idx h) = n
     \<and> h = epa_rgm_make_handle (of_nat (rgm_idx h)) (re_generation (rg_entries t ! rgm_idx h))"
    using f j(2) by (simp add: rgm_valid_def rgm_make_handle_inverse)
next
  assume a: "rgm_valid t h \<and> re_name (rg_entries t ! rgm_idx h) = n
     \<and> h = epa_rgm_make_handle (of_nat (rgm_idx h)) (re_generation (rg_entries t ! rgm_idx h))"
  then show "epa_rgm_get_by_name t n = Ok h"
    using rgm_find_unique [OF assms, of "rgm_idx h"] by (auto simp: rgm_valid_def epa_rgm_get_by_name_def)
qed

lemma rgm_ins_publish:
  assumes "rgm_ins x t = Some (h, t')"
  shows "epa_rgm_publish_copy True t (fst x) (snd x) = Ok (h, t') \<and> length (snd x) < 4294967296"
  using assms by (cases x) (auto simp: rgm_ins_def split: if_splits res.splits)

interpretation rgt: handle_table rgm_wf rgm_valid rgm_block rgm_ins rgm_rd
proof unfold_locales
  fix t x h t' assume a: "rgm_wf t" "rgm_ins x t = Some (h, t')"
  show "rgm_wf t'" "rgm_valid t' h" using rgm_publish_gives [OF a(1)] rgm_ins_publish [OF a(2)] by blast+
next
  fix t x h t' h' assume a: "rgm_wf t" "rgm_ins x t = Some (h, t')" "rgm_valid t h'"
  show "rgm_valid t' h' \<and> rgm_block t' h' = rgm_block t h'"
    using rgm_publish_keeps [OF a(1) _ _ a(3), of True "fst x" "snd x" h t'] rgm_ins_publish [OF a(2)] by (simp add: rgm_block_def)
next
  fix t h off len assume w: "rgm_wf t"
  then have "length (rgm_block t h) < 4294967296" if "rgm_valid t h"
    using that u32_bound [of "re_size (rg_entries t ! rgm_idx h)"]
    by (auto simp: rgm_valid_def rgm_wf_def list_all_length rgm_entry_wf_def rgm_block_def split: option.splits)
  with w show "rgm_rd t h off len =
      (if rgm_valid t h \<and> off + len \<le> length (rgm_block t h)
       then Some (mem_read (rgm_block t h) off len) else None)"
    by (auto simp: rgm_rd_def rgm_read_bytes_eq unat_of_nat)
qed

section \<open>Properties\<close>

text \<open>C36: A published block can be found by its name and read back whole; publishing keeps
  the table well formed (names stay unique, the live count is the number of names), and publishing
  the same name again either returns the same handle and leaves the table alone (same bytes) or
  fails (other bytes).\<close>

theorem rgm_publish_get:
  assumes "rgm_wf t" and "epa_rgm_publish_copy ok t nm bytes = Ok (h, t')" and "length bytes < 4294967296"
  shows "rgm_wf t' \<and> epa_rgm_get_by_name t' nm = Ok h
    \<and> epa_rgm_read_bytes t' h 0 (of_nat (length bytes)) = Ok bytes
    \<and> epa_rgm_publish_copy ok' t' nm bytes = Ok (h, t')
    \<and> (bytes' \<noteq> bytes \<longrightarrow> bytes' \<noteq> [] \<longrightarrow> epa_rgm_publish_copy ok' t' nm bytes' = Err RGM_ERR_DUPLICATE)"
proof -
  note f = rgm_publish_gives [OF assms]
  have u: "unat (of_nat (length bytes) :: u32) = length bytes" using assms(3) by (simp add: unat_of_nat)
  from f obtain i where i: "rgm_find_by_name t' nm = Some i"
      "h = epa_rgm_make_handle (of_nat i) (re_generation (rg_entries t' ! i))"
    by (auto simp: epa_rgm_get_by_name_def split: option.splits)
  have il: "i < length (rg_entries t')" "rgm_published (rg_entries t' ! i)"
    using find_slot_Some [OF i(1) [unfolded rgm_find_by_name_def]] by auto
  then have "rgm_idx h = i" using f i(2) by (auto simp: rgm_wf_def rgm_make_handle_inverse)
  moreover have "rgm_entry_wf (rg_entries t' ! i)" using f il by (auto simp: rgm_wf_def list_all_length)
  ultimately have e: "re_bytes (rg_entries t' ! i) = Some bytes" "re_size (rg_entries t' ! i) = of_nat (length bytes)"
    using f il by (auto simp: rgm_block_def rgm_entry_wf_def)
  have "nm \<noteq> 0" "bytes \<noteq> []" using assms(2) by (auto simp: epa_rgm_publish_copy_def split: if_splits)
  with f e i u show ?thesis
    by (auto simp: rgm_read_bytes_eq epa_rgm_publish_copy_def Let_def)
qed

definition rgm_demo :: epa_rgm where
  "rgm_demo = \<lparr>rg_live = 0, rg_entries = [rgm_fresh_entry, rgm_fresh_entry]\<rparr>"

lemma rgm_demo_wf: "rgm_wf rgm_demo"
  by (simp add: rgm_wf_def rgm_names_def rgm_demo_def rgm_fresh_entry_def rgm_entry_wf_def rgm_published_def)

lemma rgm_demo_publish: "\<exists>h t'. epa_rgm_publish_copy True rgm_demo 7 [1, 2] = Ok (h, t')"
  by (simp add: epa_rgm_publish_copy_def rgm_find_by_name_def rgm_find_free_def rgm_demo_def
      rgm_fresh_entry_def rgm_published_def Let_def)

theorem rgm_publish_get_witness:
  "\<exists>h t'. epa_rgm_publish_copy True rgm_demo 7 [1, 2] = Ok (h, t') \<and> epa_rgm_get_by_name t' 7 = Ok h
     \<and> epa_rgm_publish_copy True t' 7 [3] = Err RGM_ERR_DUPLICATE"
proof -
  obtain h t' where p: "epa_rgm_publish_copy True rgm_demo 7 [1, 2] = Ok (h, t')" using rgm_demo_publish by blast
  with rgm_publish_get [OF rgm_demo_wf p, of True "[3]"] show ?thesis by auto
qed

lemma rgm_names_stay:
  assumes "rgm_wf t" and "ins_all rgm_ins xs t = Some (hs, t')" and "epa_rgm_get_by_name t n = Ok h"
  shows "epa_rgm_get_by_name t' n = Ok h"
  using assms
proof (induction xs arbitrary: t hs)
  case (Cons x xs)
  from Cons.prems obtain h1 t1 hs1 where
    i: "rgm_ins x t = Some (h1, t1)" "ins_all rgm_ins xs t1 = Some (hs1, t')" by (auto split: option.splits prod.splits)
  note p = rgm_ins_publish [OF i(1)]
  have t1: "rgm_wf t1" using rgm_publish_gives [OF Cons.prems(1)] p by blast
  have "epa_rgm_get_by_name t1 n = Ok h"
    using Cons.prems(3) rgm_publish_keeps [OF Cons.prems(1), of True "fst x" "snd x" h1 t1 h] p
    unfolding rgm_get_Ok [OF Cons.prems(1)] rgm_get_Ok [OF t1] by auto
  with Cons.IH [OF t1 i(2)] show ?case by blast
qed simp

lemma rgm_ins_all_found:
  assumes "rgm_wf t" and "ins_all rgm_ins xs t = Some (hs, t')"
  shows "list_all2 (\<lambda>(nm, b) h. epa_rgm_get_by_name t' nm = Ok h \<and> rgm_rd t' h 0 (length b) = Some b) xs hs"
  using assms
proof (induction xs arbitrary: t hs)
  case (Cons x xs)
  from Cons.prems obtain h1 t1 hs1 where
    i: "rgm_ins x t = Some (h1, t1)" "ins_all rgm_ins xs t1 = Some (hs1, t')" "hs = h1 # hs1"
    by (auto split: option.splits prod.splits)
  note p = rgm_ins_publish [OF i(1)]
  have t1: "rgm_wf t1" "rgm_valid t1 h1" "rgm_block t1 h1 = snd x" "epa_rgm_get_by_name t1 (fst x) = Ok h1"
    using rgm_publish_gives [OF Cons.prems(1)] p by blast+
  have "rgm_rd t1 h1 0 (length (snd x)) = Some (snd x)" using rgt.rd_payload [OF t1(1)] t1(2,3) by (simp add: mem_read_def)
  then have "rgm_rd t' h1 0 (length (snd x)) = Some (snd x)" using rgt.ins_all_frame [OF t1(1) i(2) t1(2)] by simp
  with rgm_names_stay [OF t1(1) i(2) t1(4)] Cons.IH [OF t1(1) i(2)] i(3) show ?case by (simp add: case_prod_beta)
qed simp

text \<open>C37: Published memory is immutable: no later publications, however many, of new names or of known ones,
  invalidate a handle or change a byte read through it or the handle a name stands for, and at the end each name
  that was published gives the handle its publication returned, through which the published bytes are read.\<close>

theorem rgm_reads_stable:
  assumes "rgm_wf t" and "ins_all rgm_ins xs t = Some (hs, t')" and "rgm_valid t h"
  shows "rgm_valid t' h \<and> rgm_rd t' h off len = rgm_rd t h off len
    \<and> (epa_rgm_get_by_name t nm = Ok h \<longrightarrow> epa_rgm_get_by_name t' nm = Ok h)
    \<and> list_all2 (\<lambda>(n, b) h1. epa_rgm_get_by_name t' n = Ok h1 \<and> rgm_rd t' h1 0 (length b) = Some b) xs hs"
  using rgt.ins_all_frame [OF assms] rgm_names_stay [OF assms(1,2)] rgm_ins_all_found [OF assms(1,2)] by blast

theorem rgm_reads_stable_witness:
  "\<exists>h t1 hs t2. epa_rgm_publish_copy True rgm_demo 7 [1, 2] = Ok (h, t1)
     \<and> ins_all rgm_ins [(9, [4]), (7, [1, 2])] t1 = Some (hs, t2) \<and> rgm_rd t2 h 1 1 = rgm_rd t1 h 1 1"
proof -
  obtain h t1 where p: "epa_rgm_publish_copy True rgm_demo 7 [1, 2] = Ok (h, t1)" using rgm_demo_publish by blast
  then have e: "rg_entries t1 = [\<lparr>re_in_use = 1, re_generation = 1, re_name = 7, re_size = 2, re_bytes = Some [1, 2]\<rparr>,
      rgm_fresh_entry]"
    by (auto simp: epa_rgm_publish_copy_def rgm_find_by_name_def rgm_find_free_def rgm_demo_def
      rgm_fresh_entry_def rgm_published_def Let_def)
  have n: "rgm_find_by_name rgm_demo 7 = None"
    by (simp add: rgm_find_by_name_def rgm_demo_def rgm_fresh_entry_def rgm_published_def)
  have v: "rgm_wf t1" "rgm_valid t1 h"
    using rgm_publish_new(1,2) [OF rgm_demo_wf p n] by simp_all
  have "\<exists>hs t2. ins_all rgm_ins [(9, [4]), (7, [1, 2])] t1 = Some (hs, t2)"
    using e by (simp add: rgm_ins_def epa_rgm_publish_copy_def rgm_find_by_name_def rgm_find_free_def
        rgm_fresh_entry_def rgm_published_def Let_def)
  with rgm_reads_stable [OF v(1) _ v(2), of "[(9, [4]), (7, [1, 2])]"] p show ?thesis by blast
qed

end
