(* ===== verification/EpaDynPool.thy ===== *)
theory EpaDynPool
  imports Prelude
begin

text \<open>
  The dynamic pools of \<open>src/memory/epa_dynamic_pool.c\<close>: arrays of fixed-size elements
  that grow by doubling and are compacted by a swap-last release. \<open>dyn_elems\<close> is the
  abstract pool, the list of its elements; the operations are the list operations on it. The two
  growing loops are partial functions: they run for ever once the capacity asked for passes
  \<open>2 ^ 31\<close>, which is stated here as such.
\<close>

record dyn_pool =
  dp_data :: "u8 list option"
  dp_count :: u32
  dp_cap :: u32
  dp_elem :: u32
  dp_min_free :: u32
  dp_max_free :: u32
  dp_grow :: u32

definition dp_bytes :: "dyn_pool \<Rightarrow> u8 list" where
  "dp_bytes p = (case dp_data p of None \<Rightarrow> [] | Some b \<Rightarrow> b)"

text \<open>\<open>realloc\<close>: a new block that starts with the old one; \<open>None\<close> is
  \<open>NULL\<close>.\<close>

definition c_realloc :: "allocator \<Rightarrow> u8 list \<Rightarrow> nat \<Rightarrow> u8 list option" where
  "c_realloc al old n =
     (case al n of None \<Rightarrow> None | Some b \<Rightarrow> Some (take n old @ drop (length old) b))"

text \<open>\<open>while (next_cap < need) next_cap *= 2u\<close> and
  \<open>while (next_cap < need) next_cap += pool->grow_by\<close>; \<open>None\<close> is a loop that does
  not end.\<close>

partial_function (option) dyn_double :: "u32 \<Rightarrow> u32 \<Rightarrow> u32 option" where
  "dyn_double need c = (if c < need then dyn_double need (c * 2) else Some c)"

partial_function (option) dyn_linear :: "u32 \<Rightarrow> u32 \<Rightarrow> u32 \<Rightarrow> u32 option" where
  "dyn_linear need grow c = (if c < need then dyn_linear need grow (c + grow) else Some c)"

type_synonym 'a dyn_res = "(string, 'a) res"

definition dyn_size :: "u32 \<Rightarrow> dyn_pool \<Rightarrow> nat" where
  "dyn_size n p = unat n * unat (dp_elem p)"

definition dyn_ensure_cap :: "allocator \<Rightarrow> dyn_pool \<Rightarrow> u32 \<Rightarrow> dyn_pool dyn_res option" where
  "dyn_ensure_cap al p need =
     (if need \<le> dp_cap p then Some (Ok p)
      else case dyn_double need (if dp_cap p \<noteq> 0 then dp_cap p else 16) of
        None \<Rightarrow> None
      | Some next_cap \<Rightarrow>
          (case c_realloc al (dp_bytes p) (dyn_size next_cap p) of
             None \<Rightarrow> Some (Err ''epa_dynamic_pool: realloc failed'')
           | Some nxt \<Rightarrow>
               if dyn_size (dp_cap p) p + dyn_size (next_cap - dp_cap p) p \<le> length nxt
               then Some (Ok (p\<lparr>dp_data := Some (mem_write nxt (dyn_size (dp_cap p) p)
                       (replicate (dyn_size (next_cap - dp_cap p) p) 0)), dp_cap := next_cap\<rparr>))
               else Some Ub))"

definition epa_dynamic_pool_init :: "u32 \<Rightarrow> u32 \<Rightarrow> u32 \<Rightarrow> u32 \<Rightarrow> dyn_pool dyn_res" where
  "epa_dynamic_pool_init min_free max_free grow_by element_size =
     (if grow_by = 0 then Err ''epa_dynamic_pool_init: grow_by must be > 0''
      else if min_free > max_free then Err ''epa_dynamic_pool_init: min_free must be <= max_free''
      else Ok \<lparr>dp_data = None, dp_count = 0, dp_cap = 0, dp_elem = element_size,
               dp_min_free = min_free, dp_max_free = max_free, dp_grow = grow_by\<rparr>)"

definition epa_dynamic_pool_free :: "dyn_pool \<Rightarrow> dyn_pool" where
  "epa_dynamic_pool_free p = \<lparr>dp_data = None, dp_count = 0, dp_cap = 0, dp_elem = 0,
     dp_min_free = 0, dp_max_free = 0, dp_grow = 0\<rparr>"

definition epa_dynamic_pool_round_enter :: "allocator \<Rightarrow> dyn_pool \<Rightarrow> dyn_pool dyn_res option" where
  "epa_dynamic_pool_round_enter al p =
     (let free_slots = dp_cap p - dp_count p in
      if free_slots < dp_min_free p then
        (case dyn_linear (dp_count p + dp_min_free p) (dp_grow p)
                (if dp_cap p \<noteq> 0 then dp_cap p else dp_grow p) of
           None \<Rightarrow> None
         | Some next_cap \<Rightarrow> dyn_ensure_cap al p next_cap)
      else if free_slots > dp_max_free p then
        (let new_cap = dp_count p + dp_min_free p;
             nxt = c_realloc al (dp_bytes p) (dyn_size new_cap p)
         in if nxt \<noteq> None \<or> new_cap = 0
            then Some (Ok (p\<lparr>dp_data := nxt, dp_cap := new_cap\<rparr>))
            else Some (Ok p))
      else Some (Ok p))"

definition epa_dynamic_pool_request_capacity ::
  "allocator \<Rightarrow> dyn_pool \<Rightarrow> u32 \<Rightarrow> bool \<Rightarrow> dyn_pool dyn_res option" where
  "epa_dynamic_pool_request_capacity al p requested_cap hard_order =
     (if requested_cap < dp_count p then
        (if hard_order
         then Some (Err ''epa_dynamic_pool_request_capacity: requested capacity below live count'')
         else Some (Ok p))
      else if requested_cap = dp_cap p then Some (Ok p)
      else if requested_cap > dp_cap p then dyn_ensure_cap al p requested_cap
      else
        (let nxt = c_realloc al (dp_bytes p) (dyn_size requested_cap p) in
         if nxt = None \<and> requested_cap \<noteq> 0 then
           (if hard_order
            then Some (Err ''epa_dynamic_pool_request_capacity: shrink realloc failed'')
            else Some (Ok p))
         else Some (Ok (p\<lparr>dp_data := nxt, dp_cap := requested_cap\<rparr>))))"

text \<open>Access to the element at an ordinal.\<close>

definition dp_get :: "dyn_pool \<Rightarrow> u32 \<Rightarrow> u8 list dyn_res" where
  "dp_get p ordinal =
     (if dyn_size ordinal p + unat (dp_elem p) \<le> length (dp_bytes p)
      then Ok (mem_read (dp_bytes p) (dyn_size ordinal p) (unat (dp_elem p))) else Ub)"

definition dp_put :: "dyn_pool \<Rightarrow> u32 \<Rightarrow> u8 list \<Rightarrow> dyn_pool dyn_res" where
  "dp_put p ordinal src =
     (if dyn_size ordinal p + length src \<le> length (dp_bytes p)
      then Ok (p\<lparr>dp_data := Some (mem_write (dp_bytes p) (dyn_size ordinal p) src)\<rparr>) else Ub)"

definition epa_dynamic_pool_alloc :: "dyn_pool \<Rightarrow> (u32 \<times> dyn_pool) dyn_res" where
  "epa_dynamic_pool_alloc p =
     (if dp_count p \<ge> dp_cap p then Err ''epa_dynamic_pool_alloc: pool full''
      else case (if dp_elem p \<noteq> 0 then dp_put p (dp_count p) (replicate (unat (dp_elem p)) 0) else Ok p) of
        Ok p' \<Rightarrow> Ok (dp_count p, p'\<lparr>dp_count := dp_count p + 1\<rparr>)
      | Err e \<Rightarrow> Err e | Ub \<Rightarrow> Ub)"

definition epa_dynamic_pool_release :: "dyn_pool \<Rightarrow> u32 \<Rightarrow> dyn_pool dyn_res" where
  "epa_dynamic_pool_release p ordinal =
     (if ordinal \<ge> dp_count p then Err ''epa_dynamic_pool_release: ordinal out of range''
      else let p' = p\<lparr>dp_count := dp_count p - 1\<rparr> in
        if ordinal \<noteq> dp_count p' \<and> dp_elem p' \<noteq> 0 then
          (case dp_get p' (dp_count p') of Ok b \<Rightarrow> dp_put p' ordinal b | Err e \<Rightarrow> Err e | Ub \<Rightarrow> Ub)
        else Ok p')"

definition epa_dynamic_pool_read :: "dyn_pool \<Rightarrow> u32 \<Rightarrow> u32 \<Rightarrow> u8 list dyn_res" where
  "epa_dynamic_pool_read p ordinal dst_len =
     (if dst_len \<noteq> dp_elem p then Err ''epa_dynamic_pool_read: size mismatch''
      else if ordinal \<ge> dp_count p then Err ''epa_dynamic_pool_read: ordinal out of range''
      else if dp_elem p \<noteq> 0 then dp_get p ordinal else Ok [])"

definition epa_dynamic_pool_write :: "dyn_pool \<Rightarrow> u32 \<Rightarrow> u8 list \<Rightarrow> u32 \<Rightarrow> dyn_pool dyn_res" where
  "epa_dynamic_pool_write p ordinal src src_len =
     (if src_len \<noteq> dp_elem p then Err ''epa_dynamic_pool_write: size mismatch''
      else if ordinal \<ge> dp_count p then Err ''epa_dynamic_pool_write: ordinal out of range''
      else if dp_elem p \<noteq> 0 then dp_put p ordinal src else Ok p)"

definition epa_dynamic_pool_swap :: "dyn_pool \<Rightarrow> u32 \<Rightarrow> u32 \<Rightarrow> dyn_pool dyn_res" where
  "epa_dynamic_pool_swap p ord_a ord_b =
     (if ord_a = ord_b then Ok p
      else if ord_a \<ge> dp_count p \<or> ord_b \<ge> dp_count p
      then Err ''epa_dynamic_pool_swap: ordinal out of range''
      else if dp_elem p > 512 then Err ''epa_dynamic_pool_swap: element_size exceeds swap buffer''
      else case dp_get p ord_a of
        Ok a \<Rightarrow>
          (case dp_get p ord_b of
             Ok b \<Rightarrow>
               (case dp_put p ord_a b of Ok p' \<Rightarrow> dp_put p' ord_b a | Err e \<Rightarrow> Err e | Ub \<Rightarrow> Ub)
           | Err e \<Rightarrow> Err e | Ub \<Rightarrow> Ub)
      | Err e \<Rightarrow> Err e | Ub \<Rightarrow> Ub)"

definition epa_dynamic_pool_validate :: "dyn_pool \<Rightarrow> unit dyn_res" where
  "epa_dynamic_pool_validate p =
     (if dp_count p > dp_cap p then Err ''epa_dynamic_pool_validate: count exceeds cap''
      else if dp_count p > 0 \<and> dp_elem p > 0 \<and> dp_data p = None
      then Err ''epa_dynamic_pool_validate: data is null but elements are live''
      else Ok ())"

section \<open>Invariant and abstract pool\<close>

definition dyn_wf :: "dyn_pool \<Rightarrow> bool" where
  "dyn_wf p \<longleftrightarrow> dp_count p \<le> dp_cap p \<and> length (dp_bytes p) = dyn_size (dp_cap p) p"

definition dyn_elems :: "dyn_pool \<Rightarrow> u8 list list" where
  "dyn_elems p = map (\<lambda>i. mem_read (dp_bytes p) (i * unat (dp_elem p)) (unat (dp_elem p))) [0..<unat (dp_count p)]"

lemma dp_count_frame [simp]:
  "dp_bytes (p\<lparr>dp_count := c\<rparr>) = dp_bytes p" "dyn_size n (p\<lparr>dp_count := c\<rparr>) = dyn_size n p"
  "dp_get (p\<lparr>dp_count := c\<rparr>) i = dp_get p i"
  by (simp_all add: dp_bytes_def dyn_size_def dp_get_def)

lemma dp_bytes_data [simp]:
  "dp_bytes (p\<lparr>dp_data := d, dp_cap := c\<rparr>) = (case d of None \<Rightarrow> [] | Some b \<Rightarrow> b)"
  by (simp add: dp_bytes_def)

lemma length_dyn_elems [simp]: "length (dyn_elems p) = unat (dp_count p)"
  by (simp add: dyn_elems_def)

lemma dp_slot_room: "i < n \<Longrightarrow> i * e + e \<le> n * (e :: nat)"
  by (metis Suc_leI add.commute mult_Suc mult_le_mono1)

lemma dp_get_wf: "dyn_wf p \<Longrightarrow> i < dp_count p \<Longrightarrow> dp_get p i = Ok (dyn_elems p ! unat i)"
  using dp_slot_room [of "unat i" "unat (dp_cap p)" "unat (dp_elem p)"]
  by (simp add: dyn_wf_def dp_get_def dyn_size_def dyn_elems_def word_less_nat_alt word_le_nat_alt)

lemma dp_put_wf:
  assumes "dyn_wf p" and "i < dp_cap p" and "length src = unat (dp_elem p)"
  shows "\<exists>p'. dp_put p i src = Ok p' \<and> dyn_wf p' \<and> dp_count p' = dp_count p \<and> dp_cap p' = dp_cap p
    \<and> dp_elem p' = dp_elem p
    \<and> (\<forall>j < unat (dp_cap p). mem_read (dp_bytes p') (j * unat (dp_elem p)) (unat (dp_elem p)) =
          (if j = unat i then src else mem_read (dp_bytes p) (j * unat (dp_elem p)) (unat (dp_elem p))))"
proof -
  let ?e = "unat (dp_elem p)" and ?b = "dp_bytes p"
  have room: "unat i * ?e + ?e \<le> length ?b"
    using dp_slot_room [of "unat i" "unat (dp_cap p)" ?e] assms by (simp add: dyn_wf_def dyn_size_def word_less_nat_alt)
  have other: "mem_read (mem_write ?b (unat i * ?e) src) (j * ?e) ?e = mem_read ?b (j * ?e) ?e"
    if "j < unat (dp_cap p)" "j \<noteq> unat i" for j
  proof (rule mem_read_write_other)
    show "j * ?e + ?e \<le> length ?b"
      using dp_slot_room [OF that(1), of ?e] assms(1) by (simp add: dyn_wf_def dyn_size_def)
    show "j * ?e + ?e \<le> unat i * ?e \<or> unat i * ?e + length src \<le> j * ?e"
      using that(2) dp_slot_room [of j "unat i" ?e] dp_slot_room [of "unat i" j ?e] assms(3) by linarith
  qed (use room assms(3) in simp)
  show ?thesis using room assms other mem_read_write_same [of "unat i * ?e" src ?b]
    by (auto simp: dp_put_def dyn_size_def dyn_wf_def dp_bytes_def)
qed

lemma dyn_elems_nthI:
  assumes "unat (dp_count p') = n" and "dp_elem p' = e"
    and "\<And>j. j < n \<Longrightarrow> mem_read (dp_bytes p') (j * unat e) (unat e) = xs ! j" and "length xs = n"
  shows "dyn_elems p' = xs"
  using assms by (auto simp: dyn_elems_def intro: nth_equalityI)

lemma dyn_elems_nth: "j < unat (dp_count p) \<Longrightarrow>
  dyn_elems p ! j = mem_read (dp_bytes p) (j * unat (dp_elem p)) (unat (dp_elem p))"
  by (simp add: dyn_elems_def)

section \<open>The operations on the abstract pool\<close>

lemma dyn_read_elem:
  assumes "dyn_wf p" and "i < dp_count p"
  shows "epa_dynamic_pool_read p i (dp_elem p) = Ok (dyn_elems p ! unat i)"
proof (cases "dp_elem p = 0")
  case True
  then have "dyn_elems p ! unat i = []" using assms(2) by (simp add: dyn_elems_nth word_less_nat_alt mem_read_def)
  with True assms show ?thesis by (simp add: epa_dynamic_pool_read_def)
next
  case False
  with assms show ?thesis by (simp add: epa_dynamic_pool_read_def dp_get_wf)
qed

lemma dyn_write_elem:
  assumes "dyn_wf p" and "i < dp_count p" and "length src = unat (dp_elem p)"
  shows "\<exists>p'. epa_dynamic_pool_write p i src (dp_elem p) = Ok p' \<and> dyn_wf p' \<and> dp_cap p' = dp_cap p
    \<and> dyn_elems p' = (dyn_elems p)[unat i := src]"
proof (cases "dp_elem p = 0")
  case True
  then have "src = []" using assms(3) by simp
  then have "dyn_elems p = (dyn_elems p)[unat i := src]"
    by (intro nth_equalityI) (auto simp: nth_update_if dyn_elems_nth True mem_read_def)
  with True assms show ?thesis by (auto simp: epa_dynamic_pool_write_def)
next
  case False
  have ic: "i < dp_cap p" using assms(1,2) unfolding dyn_wf_def by (auto intro: less_le_trans)
  from dp_put_wf [OF assms(1) ic assms(3)] obtain p' where
    p': "dp_put p i src = Ok p'" "dyn_wf p'" "dp_count p' = dp_count p" "dp_cap p' = dp_cap p"
    "dp_elem p' = dp_elem p"
    "\<forall>j < unat (dp_cap p). mem_read (dp_bytes p') (j * unat (dp_elem p)) (unat (dp_elem p)) =
          (if j = unat i then src else mem_read (dp_bytes p) (j * unat (dp_elem p)) (unat (dp_elem p)))"
    by blast
  have le: "unat (dp_count p) \<le> unat (dp_cap p)" using assms(1) by (simp add: dyn_wf_def word_le_nat_alt)
  have "dyn_elems p' = (dyn_elems p)[unat i := src]"
    using p' le by (intro dyn_elems_nthI [of _ "unat (dp_count p)" "dp_elem p"]) (auto simp: nth_update_if dyn_elems_nth)
  with p' False assms show ?thesis by (simp add: epa_dynamic_pool_write_def)
qed

lemma dyn_alloc_elem:
  assumes "dyn_wf p" and "dp_count p < dp_cap p"
  shows "\<exists>p'. epa_dynamic_pool_alloc p = Ok (dp_count p, p') \<and> dyn_wf p' \<and> dp_cap p' = dp_cap p
    \<and> dyn_elems p' = dyn_elems p @ [replicate (unat (dp_elem p)) 0]"
proof -
  let ?z = "replicate (unat (dp_elem p)) (0 :: u8)"
  have cnt: "unat (dp_count p + 1) = Suc (unat (dp_count p))" by (rule unat_suc_u32 [OF assms(2)])
  have le: "unat (dp_count p) < unat (dp_cap p)" using assms(2) by (simp add: word_less_nat_alt)
  have "\<exists>p1. (if dp_elem p \<noteq> 0 then dp_put p (dp_count p) ?z else Ok p) = Ok p1 \<and> dyn_wf p1
      \<and> dp_count p1 = dp_count p \<and> dp_cap p1 = dp_cap p \<and> dp_elem p1 = dp_elem p
      \<and> (\<forall>j < unat (dp_cap p). mem_read (dp_bytes p1) (j * unat (dp_elem p)) (unat (dp_elem p)) =
          (if j = unat (dp_count p) then ?z else mem_read (dp_bytes p) (j * unat (dp_elem p)) (unat (dp_elem p))))"
    using dp_put_wf [OF assms, of ?z] assms by (cases "dp_elem p = 0") (auto simp: mem_read_def)
  then obtain p1 where p1: "(if dp_elem p \<noteq> 0 then dp_put p (dp_count p) ?z else Ok p) = Ok p1" "dyn_wf p1"
      "dp_count p1 = dp_count p" "dp_cap p1 = dp_cap p" "dp_elem p1 = dp_elem p"
      "\<forall>j < unat (dp_cap p). mem_read (dp_bytes p1) (j * unat (dp_elem p)) (unat (dp_elem p)) =
          (if j = unat (dp_count p) then ?z else mem_read (dp_bytes p) (j * unat (dp_elem p)) (unat (dp_elem p)))"
    by blast
  let ?p = "p1\<lparr>dp_count := dp_count p1 + 1\<rparr>"
  have "epa_dynamic_pool_alloc p = Ok (dp_count p, ?p)"
    using p1 assms(2) by (simp add: epa_dynamic_pool_alloc_def)
  moreover have "dyn_wf ?p"
    using p1 le by (simp add: dyn_wf_def dp_bytes_def dyn_size_def word_le_nat_alt cnt)
  moreover have "dyn_elems ?p = dyn_elems p @ [?z]"
    using p1 le by (intro dyn_elems_nthI [of _ "Suc (unat (dp_count p))" "dp_elem p"])
      (auto simp: dyn_elems_nth nth_append cnt dp_bytes_def less_Suc_eq)
  ultimately show ?thesis using p1 by auto
qed

lemma dyn_drop_last:
  assumes "dyn_wf p" and "dp_count p \<noteq> 0"
  shows "dyn_wf (p\<lparr>dp_count := dp_count p - 1\<rparr>) \<and> dyn_elems (p\<lparr>dp_count := dp_count p - 1\<rparr>) = butlast (dyn_elems p)"
proof -
  have c: "unat (dp_count p - 1) = unat (dp_count p) - 1" using assms(2) by (simp add: unat_minus_one)
  have "dyn_elems (p\<lparr>dp_count := dp_count p - 1\<rparr>) = butlast (dyn_elems p)"
    using c by (intro nth_equalityI) (simp_all add: nth_butlast dyn_elems_nth)
  with assms show ?thesis by (auto simp: dyn_wf_def word_le_nat_alt c)
qed

lemma dyn_release_elem:
  assumes "dyn_wf p" and "i < dp_count p"
  shows "\<exists>p'. epa_dynamic_pool_release p i = Ok p' \<and> dyn_wf p' \<and> dp_cap p' = dp_cap p
    \<and> dyn_elems p' = butlast ((dyn_elems p)[unat i := last (dyn_elems p)])"
proof -
  let ?p = "p\<lparr>dp_count := dp_count p - 1\<rparr>"
  have nz: "dp_count p \<noteq> 0" using assms(2) by auto
  have c: "unat (dp_count p - 1) = unat (dp_count p) - 1" using nz by (simp add: unat_minus_one)
  have il: "unat i < unat (dp_count p)" using assms(2) by (simp add: word_less_nat_alt)
  have d: "dyn_wf ?p" "dyn_elems ?p = butlast (dyn_elems p)" using dyn_drop_last [OF assms(1) nz] by auto
  have le: "unat (dp_count p) \<le> unat (dp_cap p)" using assms(1) by (simp add: dyn_wf_def word_le_nat_alt)
  have ne: "dyn_elems p \<noteq> []" using il by (metis length_0_conv length_dyn_elems less_nat_zero_code)
  have lst: "last (dyn_elems p) = dyn_elems p ! unat (dp_count p - 1)"
    using ne by (simp add: last_conv_nth c)
  consider "i = dp_count p - 1" | "i \<noteq> dp_count p - 1" "dp_elem p = 0" | "i \<noteq> dp_count p - 1" "dp_elem p \<noteq> 0" by blast
  then show ?thesis
  proof cases
    case 1
    then have "(dyn_elems p)[unat i := last (dyn_elems p)] = dyn_elems p" using lst by simp
    with 1 assms d show ?thesis by (simp add: epa_dynamic_pool_release_def Let_def)
  next
    case 2
    then have "dyn_elems p ! j = []" if "j < unat (dp_count p)" for j using that by (simp add: dyn_elems_nth mem_read_def)
    then have "last (dyn_elems p) = dyn_elems p ! unat i" using il c nz unfolding lst by (simp add: unat_gt_0)
    with 2 assms d show ?thesis by (simp add: epa_dynamic_pool_release_def Let_def)
  next
    case 3
    then have lt: "i < dp_count p - 1" using il c by (simp add: word_less_nat_alt word_unat_eq_iff)
    have dc: "unat (dp_count p - 1) < unat (dp_cap p)" using il c le by simp
    have "dp_get ?p (dp_count ?p) = Ok (last (dyn_elems p))"
      using dp_get_wf [OF assms(1), of "dp_count p - 1"] il c unfolding lst
      by (simp add: word_less_nat_alt)
    moreover have "length (last (dyn_elems p)) = unat (dp_elem p)"
      unfolding lst using il c dp_slot_room [OF dc, of "unat (dp_elem p)"] assms(1)
      by (simp add: dyn_elems_nth dyn_wf_def dyn_size_def)
    moreover have "i < dp_cap ?p" using il le by (simp add: word_less_nat_alt)
    ultimately obtain p' where p': "dp_put ?p i (last (dyn_elems p)) = Ok p'" "dyn_wf p'" "dp_cap p' = dp_cap p"
      "dp_count p' = dp_count p - 1" "dp_elem p' = dp_elem p"
      "\<forall>j < unat (dp_cap p). mem_read (dp_bytes p') (j * unat (dp_elem p)) (unat (dp_elem p)) =
          (if j = unat i then last (dyn_elems p) else mem_read (dp_bytes p) (j * unat (dp_elem p)) (unat (dp_elem p)))"
      and g: "dp_get ?p (dp_count ?p) = Ok (last (dyn_elems p))"
      using dp_put_wf [OF d(1), of i "last (dyn_elems p)"] by (auto cong: if_cong)
    have r: "epa_dynamic_pool_release p i = Ok p'"
      using 3 assms(2) p'(1) g by (simp add: epa_dynamic_pool_release_def Let_def not_le [symmetric])
    have "dyn_elems p' = butlast ((dyn_elems p)[unat i := last (dyn_elems p)])"
      using p' le c by (intro dyn_elems_nthI [of _ "unat (dp_count p - 1)" "dp_elem p"])
        (auto simp: nth_butlast nth_update_if dyn_elems_nth)
    with p' r show ?thesis by blast
  qed
qed

section \<open>Growing and shrinking\<close>

lemma dyn_double_terminates:
  assumes "0 < c" and "need \<le> 0x80000000"
  shows "\<exists>c'. dyn_double need c = Some c' \<and> need \<le> c' \<and> c \<le> c'"
  using assms(1)
proof (induction "unat need - unat c" arbitrary: c rule: less_induct)
  case less
  show ?case
  proof (cases "c < need")
    case False
    then show ?thesis by (simp add: dyn_double.simps)
  next
    case True
    then have lt: "unat c < unat need" by (simp add: word_less_nat_alt)
    have "unat need \<le> 2147483648" using assms(2) by (simp add: word_le_nat_alt)
    with lt have u: "unat (c * 2) = unat c * 2" by (simp add: unat_word_ariths)
    have "0 < unat c" using less.prems by (simp add: word_less_nat_alt)
    then have "unat need - unat (c * 2) < unat need - unat c" and p: "0 < c * 2" "c \<le> c * 2"
      using lt u by (simp_all add: word_less_nat_alt word_le_nat_alt)
    from less.hyps [OF this(1) p(1)] p(2) True show ?thesis
      by (subst dyn_double.simps) (auto intro: order_trans)
  qed
qed

lemma power_two_bound: "(2 :: u32) ^ k \<le> 0x80000000"
proof -
  have "(2 :: nat) ^ k mod 2 ^ 32 \<le> 2 ^ 31"
  proof (cases "k < 32")
    case True
    then have "(2 :: nat) ^ k \<le> 2 ^ 31" by (intro power_increasing) simp_all
    then show ?thesis using mod_less_eq_dividend order_trans by blast
  next
    case False
    then have "(2 :: nat) ^ 32 dvd 2 ^ k" by (intro le_imp_power_dvd) simp
    then have "(2 :: nat) ^ k mod 2 ^ 32 = 0" by (rule dvd_imp_mod_0)
    then show ?thesis by linarith
  qed
  moreover have "unat ((2 :: u32) ^ k) = 2 ^ k mod 2 ^ 32"
    using unat_of_nat [of "2 ^ k", where ?'a = 32] by simp
  ultimately show ?thesis by (simp add: word_le_nat_alt)
qed

lemma dyn_double_powers:
  assumes "dyn_double need c = Some y" and "c = 2 ^ k"
  shows "need \<le> 0x80000000"
proof -
  have "(\<exists>k. c = 2 ^ k) \<longrightarrow> need \<le> 0x80000000"
  proof (rule dyn_double.raw_induct [where P = "\<lambda>need c y. (\<exists>k. c = 2 ^ k) \<longrightarrow> need \<le> 0x80000000",
        OF _ assms(1)], intro impI, elim exE)
    fix f and n c y :: u32 and k
    assume IH: "\<And>c b y. f c b = Some y \<Longrightarrow> (\<exists>k. b = 2 ^ k) \<longrightarrow> c \<le> 0x80000000"
      and eq: "(if c < n then f n (c * 2) else Some c) = Some y" and c: "c = 2 ^ k"
    show "n \<le> 0x80000000"
    proof (cases "c < n")
      case True
      then have "f n (c * 2) = Some y" using eq by simp
      moreover have "c * 2 = 2 ^ Suc k" using c by simp
      ultimately show ?thesis using IH by blast
    next
      case False
      with power_two_bound [of k] c show ?thesis by simp
    qed
  qed
  with assms(2) show ?thesis by blast
qed

lemma dyn_double_loops: "(0x80000000 :: u32) < need \<Longrightarrow> dyn_double need (2 ^ k) = None"
  by (cases "dyn_double need (2 ^ k)") (auto dest: dyn_double_powers [OF _ refl])

lemma dyn_elems_prefix:
  assumes "dp_count p' = dp_count p" and "dp_elem p' = dp_elem p"
    and "take (dyn_size (dp_count p) p) (dp_bytes p') = take (dyn_size (dp_count p) p) (dp_bytes p)"
  shows "dyn_elems p' = dyn_elems p"
proof (rule dyn_elems_nthI [OF _ assms(2)])
  show "unat (dp_count p') = unat (dp_count p)" using assms(1) by simp
  let ?e = "unat (dp_elem p)" and ?N = "dyn_size (dp_count p) p"
  fix j assume j: "j < unat (dp_count p)"
  have "j * ?e + ?e \<le> ?N" using dp_slot_room [OF j] by (simp add: dyn_size_def)
  then have r: "mem_read b (j * ?e) ?e = take ?e (drop (j * ?e) (take ?N b))" for b :: "u8 list"
    by (simp add: mem_read_def drop_take min_def)
  show "mem_read (dp_bytes p') (j * ?e) ?e = dyn_elems p ! j"
    using j assms(3) by (simp only: r dyn_elems_nth)
qed simp

lemma take_realloc: "c_realloc al old n = Some b \<Longrightarrow> k \<le> n \<Longrightarrow> k \<le> length old \<Longrightarrow> take k b = take k old"
  by (auto simp: c_realloc_def split: option.splits)

lemma length_realloc: "c_realloc al old n = Some b \<Longrightarrow> alloc_ok al \<Longrightarrow> length b = n"
  by (auto simp: c_realloc_def alloc_ok_def split: option.splits)

lemma dyn_size_mono: "a \<le> b \<Longrightarrow> dyn_size a p \<le> dyn_size b p"
  by (simp add: dyn_size_def word_le_nat_alt)

definition dyn_grown :: "dyn_pool \<Rightarrow> u32 \<Rightarrow> dyn_pool dyn_res \<Rightarrow> bool" where
  "dyn_grown p need r \<longleftrightarrow> (case r of Ub \<Rightarrow> False | Err _ \<Rightarrow> True
     | Ok p' \<Rightarrow> dyn_wf p' \<and> need \<le> dp_cap p' \<and> dp_count p' = dp_count p \<and> dyn_elems p' = dyn_elems p
         \<and> dp_min_free p' = dp_min_free p \<and> dp_max_free p' = dp_max_free p)"

lemma dyn_ensure_cap_from:
  assumes "dyn_wf p" and "alloc_ok al" and "\<not> need \<le> dp_cap p"
    and c: "dyn_double need (if dp_cap p \<noteq> 0 then dp_cap p else 16) = Some c" "need \<le> c"
  shows "\<exists>r. dyn_ensure_cap al p need = Some r \<and> dyn_grown p need r"
proof (cases "c_realloc al (dp_bytes p) (dyn_size c p)")
  case None
  with c assms(3) show ?thesis by (simp add: dyn_ensure_cap_def dyn_grown_def)
next
  case (Some b)
  have pc: "dp_cap p \<le> c" using assms(3) c(2) by simp
  note len = length_realloc [OF Some assms(2)]
  have sum: "dyn_size (dp_cap p) p + dyn_size (c - dp_cap p) p = dyn_size c p"
    using pc by (simp add: dyn_size_def unat_sub word_le_nat_alt distrib_right [symmetric])
  let ?p = "p\<lparr>dp_data := Some (mem_write b (dyn_size (dp_cap p) p)
                     (replicate (dyn_size (c - dp_cap p) p) 0)), dp_cap := c\<rparr>"
  have le: "dyn_size (dp_count p) p \<le> dyn_size (dp_cap p) p" "dyn_size (dp_cap p) p \<le> dyn_size c p"
    "length (dp_bytes p) = dyn_size (dp_cap p) p" "dp_count p \<le> c"
    using assms(1) pc dyn_size_mono unfolding dyn_wf_def by auto
  have "dyn_elems ?p = dyn_elems p"
    by (rule dyn_elems_prefix)
      (use le sum len take_realloc [OF Some, of "dyn_size (dp_count p) p"] in
        \<open>simp_all add: mem_write_def min_def\<close>)
  moreover have "dyn_wf ?p"
    using le len sum by (simp add: dyn_wf_def dp_bytes_def dyn_size_def)
  ultimately show ?thesis using c assms(3) Some len sum by (simp add: dyn_ensure_cap_def dyn_grown_def)
qed

lemma dyn_ensure_cap_grown:
  assumes "dyn_wf p" and "alloc_ok al" and "need \<le> 0x80000000"
  shows "\<exists>r. dyn_ensure_cap al p need = Some r \<and> dyn_grown p need r"
proof (cases "need \<le> dp_cap p")
  case True
  with assms show ?thesis by (simp add: dyn_ensure_cap_def dyn_grown_def)
next
  case False
  have "0 < (if dp_cap p \<noteq> 0 then dp_cap p else 16)" by (simp add: word_gt_0)
  from dyn_double_terminates [OF this assms(3)] obtain c where
    "dyn_double need (if dp_cap p \<noteq> 0 then dp_cap p else 16) = Some c" "need \<le> c"
    by auto
  from dyn_ensure_cap_from [OF assms(1,2) False this] show ?thesis .
qed

text \<open>Whenever the doubling ends it has reached the need, so what \<open>dyn_ensure_cap\<close>
  returns is right for every need.\<close>

lemma dyn_double_reaches: "dyn_double need c0 = Some c \<Longrightarrow> need \<le> c"
proof (erule dyn_double.raw_induct [where P = "\<lambda>n _ c. n \<le> c", rotated])
  fix f and n x y :: u32
  assume "\<And>n x y. f n x = Some y \<Longrightarrow> n \<le> y" and "(if x < n then f n (x * 2) else Some x) = Some y"
  then show "n \<le> y" by (auto simp: not_less split: if_splits)
qed

lemma dyn_ensure_cap_right:
  assumes "dyn_wf p" and "alloc_ok al" and "dyn_ensure_cap al p need = Some r"
  shows "dyn_grown p need r"
proof (cases "need \<le> dp_cap p")
  case True
  with assms show ?thesis by (auto simp: dyn_ensure_cap_def dyn_grown_def)
next
  case False
  with assms(3) obtain c where c: "dyn_double need (if dp_cap p \<noteq> 0 then dp_cap p else 16) = Some c"
    by (auto simp: dyn_ensure_cap_def split: option.splits)
  from dyn_ensure_cap_from [OF assms(1,2) False c dyn_double_reaches [OF c]] assms(3) show ?thesis by simp
qed

lemma dyn_linear_terminates:
  assumes "0 < grow" and "unat need + unat grow \<le> n" and "n \<le> 4294967296" and "unat c < n"
  shows "\<exists>c'. dyn_linear need grow c = Some c' \<and> need \<le> c' \<and> c \<le> c' \<and> unat c' < n"
  using assms(4)
proof (induction "unat need - unat c" arbitrary: c rule: less_induct)
  case less
  show ?case
  proof (cases "c < need")
    case False
    with less show ?thesis by (simp add: dyn_linear.simps)
  next
    case True
    then have lt: "unat c < unat need" by (simp add: word_less_nat_alt)
    then have u: "unat (c + grow) = unat c + unat grow" using assms(2,3) by (simp add: unat_word_ariths)
    have "0 < unat grow" using assms(1) by (simp add: word_less_nat_alt)
    then have "unat need - unat (c + grow) < unat need - unat c" "unat (c + grow) < n" "c \<le> c + grow"
      using lt u assms(2) by (simp_all add: word_le_nat_alt)
    from less.hyps [OF this(1,2)] this(3) True show ?thesis
      by (subst dyn_linear.simps) (auto intro: order_trans)
  qed
qed

lemma dyn_shrink:
  assumes "dyn_wf p" and "alloc_ok al" and "dp_count p \<le> n" and "n \<le> dp_cap p"
    and "nxt = c_realloc al (dp_bytes p) (dyn_size n p)" and "nxt \<noteq> None \<or> n = 0"
  shows "dyn_wf (p\<lparr>dp_data := nxt, dp_cap := n\<rparr>) \<and> dyn_elems (p\<lparr>dp_data := nxt, dp_cap := n\<rparr>) = dyn_elems p"
proof -
  have le: "dyn_size (dp_count p) p \<le> dyn_size n p" "dyn_size n p \<le> length (dp_bytes p)"
    using assms(1,3,4) dyn_size_mono unfolding dyn_wf_def by auto
  show ?thesis
  proof (cases nxt)
    case None
    with assms have "n = 0" "dp_count p = 0" by (auto simp: word_le_nat_alt unat_eq_0)
    with None show ?thesis by (simp add: dyn_wf_def dyn_size_def dyn_elems_def)
  next
    case (Some b)
    have r: "c_realloc al (dp_bytes p) (dyn_size n p) = Some b" using Some assms(5) by simp
    have "dyn_elems (p\<lparr>dp_data := nxt, dp_cap := n\<rparr>) = dyn_elems p"
      by (rule dyn_elems_prefix) (use Some take_realloc [OF r le(1)] le in simp_all)
    with Some assms(3) length_realloc [OF r assms(2)] show ?thesis
      by (simp add: dyn_wf_def dyn_size_def)
  qed
qed

lemma dyn_round_enter_grown:
  assumes wf: "dyn_wf p" and al: "alloc_ok al" and g: "0 < dp_grow p"
    and room: "unat (dp_count p) + unat (dp_min_free p) + unat (dp_grow p) \<le> 0x80000000"
    and mm: "dp_min_free p \<le> dp_max_free p"
  shows "\<exists>r. epa_dynamic_pool_round_enter al p = Some r \<and> dyn_grown p (dp_count p + dp_min_free p) r"
proof -
  let ?need = "dp_count p + dp_min_free p"
  have need: "unat ?need = unat (dp_count p) + unat (dp_min_free p)" using room by (simp add: unat_word_ariths)
  have cc: "unat (dp_count p) \<le> unat (dp_cap p)" using wf by (simp add: dyn_wf_def word_le_nat_alt)
  have fs: "unat (dp_cap p - dp_count p) = unat (dp_cap p) - unat (dp_count p)"
    using wf by (simp add: dyn_wf_def unat_sub)
  consider "dp_cap p - dp_count p < dp_min_free p" | "\<not> dp_cap p - dp_count p < dp_min_free p" "dp_cap p - dp_count p > dp_max_free p"
    | "\<not> dp_cap p - dp_count p < dp_min_free p" "\<not> dp_cap p - dp_count p > dp_max_free p" by blast
  then show ?thesis
  proof cases
    case 1
    then have lt: "unat (dp_cap p) < unat ?need" using fs need by (simp add: word_less_nat_alt)
    let ?c0 = "if dp_cap p \<noteq> 0 then dp_cap p else dp_grow p"
    have c0: "unat ?c0 < unat ?need + unat (dp_grow p)" using lt by auto
    obtain c where c: "dyn_linear ?need (dp_grow p) ?c0 = Some c" "?need \<le> c"
        "unat c < unat ?need + unat (dp_grow p)"
      using dyn_linear_terminates [OF g order_refl, of ?need ?c0] room need c0 by auto
    have "c \<le> 0x80000000" using c(3) room need by (simp add: word_le_nat_alt)
    from dyn_ensure_cap_grown [OF wf al this] c(1,2) 1 show ?thesis
      by (auto simp: epa_dynamic_pool_round_enter_def Let_def dyn_grown_def split: res.splits intro: order_trans)
  next
    case 2
    have le: "dp_count p \<le> ?need" "?need \<le> dp_cap p"
      using 2 fs need mm cc by (simp_all add: word_le_nat_alt word_less_nat_alt not_less)
    with dyn_shrink [OF wf al le refl] 2 wf show ?thesis
      by (auto simp: epa_dynamic_pool_round_enter_def Let_def dyn_grown_def)
  next
    case 3
    with wf fs need cc show ?thesis
      by (simp add: epa_dynamic_pool_round_enter_def Let_def dyn_grown_def word_le_nat_alt word_less_nat_alt not_less)
  qed
qed

lemma dyn_request_grown:
  assumes wf: "dyn_wf p" and al: "alloc_ok al" and room: "n \<le> 0x80000000"
  shows "\<exists>r. epa_dynamic_pool_request_capacity al p n hard = Some r \<and>
    (case r of Ub \<Rightarrow> False | Err _ \<Rightarrow> True
     | Ok p' \<Rightarrow> dyn_wf p' \<and> dp_count p' = dp_count p \<and> dyn_elems p' = dyn_elems p)"
proof -
  have "\<exists>r. dyn_ensure_cap al p n = Some r \<and> dyn_grown p n r" by (rule dyn_ensure_cap_grown [OF assms])
  moreover have "dp_count p \<le> n \<Longrightarrow> n \<le> dp_cap p \<Longrightarrow> c_realloc al (dp_bytes p) (dyn_size n p) \<noteq> None \<or> n = 0 \<Longrightarrow>
      dyn_wf (p\<lparr>dp_data := c_realloc al (dp_bytes p) (dyn_size n p), dp_cap := n\<rparr>) \<and>
      dyn_elems (p\<lparr>dp_data := c_realloc al (dp_bytes p) (dyn_size n p), dp_cap := n\<rparr>) = dyn_elems p"
    using dyn_shrink [OF wf al _ _ refl] by blast
  ultimately show ?thesis
    using wf by (auto simp: epa_dynamic_pool_request_capacity_def Let_def dyn_grown_def not_less split: res.splits)
qed

section \<open>What every operation keeps\<close>

text \<open>\<open>dyn_ok\<close> is the invariant of a configured pool. Every result of an operation
  satisfies it, for any arguments.\<close>

definition dyn_ok :: "dyn_pool \<Rightarrow> bool" where
  "dyn_ok p \<longleftrightarrow> dyn_wf p \<and> dp_min_free p \<le> dp_max_free p"

lemma dyn_init_ok: "epa_dynamic_pool_init mn mx g e = Ok p \<Longrightarrow> dyn_ok p"
  by (auto simp: epa_dynamic_pool_init_def dyn_ok_def dyn_wf_def dp_bytes_def dyn_size_def split: if_splits)

lemma dyn_ok_ensure_cap:
  "dyn_ok p \<Longrightarrow> alloc_ok al \<Longrightarrow> dyn_ensure_cap al p n = Some (Ok p') \<Longrightarrow> dyn_ok p'"
  using dyn_ensure_cap_right [of p al n "Ok p'"] by (auto simp: dyn_ok_def dyn_grown_def)

lemma dyn_ok_round_enter:
  assumes "dyn_ok p" and "alloc_ok al" and "epa_dynamic_pool_round_enter al p = Some (Ok p')"
  shows "dyn_ok p'"
proof -
  let ?need = "dp_count p + dp_min_free p"
  have wf: "dyn_wf p" "dp_min_free p \<le> dp_max_free p" using assms(1) by (simp_all add: dyn_ok_def)
  have cc: "unat (dp_count p) \<le> unat (dp_cap p)" using wf by (simp add: dyn_wf_def word_le_nat_alt)
  show ?thesis
  proof (cases "dp_cap p - dp_count p < dp_min_free p")
    case True
    with assms(3) obtain c where "dyn_ensure_cap al p c = Some (Ok p')"
      by (auto simp: epa_dynamic_pool_round_enter_def Let_def split: option.splits)
    then show ?thesis using dyn_ok_ensure_cap [OF assms(1,2)] by blast
  next
    case False
    show ?thesis
    proof (cases "dp_cap p - dp_count p > dp_max_free p")
      case True
      have "unat (dp_cap p - dp_count p) = unat (dp_cap p) - unat (dp_count p)" using cc by (simp add: unat_sub word_le_nat_alt)
      then have lt: "unat (dp_count p) + unat (dp_min_free p) < unat (dp_cap p)"
        using True wf(2) by (simp add: word_less_nat_alt word_le_nat_alt)
      then have "unat ?need = unat (dp_count p) + unat (dp_min_free p)"
        using u32_bound [of "dp_cap p"] by (simp add: unat_word_ariths)
      with lt have le: "dp_count p \<le> ?need" "?need \<le> dp_cap p" by (simp_all add: word_le_nat_alt)
      from dyn_shrink [OF wf(1) assms(2) le refl] False True assms(1,3) show ?thesis
        by (auto simp: epa_dynamic_pool_round_enter_def Let_def dyn_ok_def split: if_splits)
    qed (use False assms(1,3) in \<open>auto simp: epa_dynamic_pool_round_enter_def Let_def\<close>)
  qed
qed

lemma dyn_ok_request:
  assumes "dyn_ok p" and "alloc_ok al" and "epa_dynamic_pool_request_capacity al p n hard = Some (Ok p')"
  shows "dyn_ok p'"
proof -
  have wf: "dyn_wf p" using assms(1) by (simp add: dyn_ok_def)
  from dyn_shrink [OF wf assms(2) _ _ refl, of n] dyn_ok_ensure_cap [OF assms(1,2), of n p'] assms(1,3)
  show ?thesis
    by (auto simp: epa_dynamic_pool_request_capacity_def Let_def dyn_ok_def not_less split: if_splits)
qed

lemma dyn_ok_put: "dyn_ok p \<Longrightarrow> dp_put p i src = Ok p' \<Longrightarrow> dyn_ok p' \<and> dp_count p' = dp_count p \<and> dp_cap p' = dp_cap p"
  by (auto simp: dp_put_def dyn_ok_def dyn_wf_def dyn_size_def dp_bytes_def split: if_splits)

lemma dyn_ok_count: "dyn_ok p \<Longrightarrow> n \<le> dp_cap p \<Longrightarrow> dyn_ok (p\<lparr>dp_count := n\<rparr>)"
  by (simp add: dyn_ok_def dyn_wf_def dyn_size_def)

lemma dyn_ok_alloc: "dyn_ok p \<Longrightarrow> epa_dynamic_pool_alloc p = Ok (i, p') \<Longrightarrow> dyn_ok p'"
proof -
  assume p: "dyn_ok p" and r: "epa_dynamic_pool_alloc p = Ok (i, p')"
  then obtain p1 where p1: "dyn_ok p1" "dp_cap p1 = dp_cap p" "p' = p1\<lparr>dp_count := dp_count p + 1\<rparr>" "dp_count p < dp_cap p"
    by (auto simp: epa_dynamic_pool_alloc_def not_le dest: dyn_ok_put split: if_splits res.splits)
  then have "dp_count p + 1 \<le> dp_cap p1" using unat_suc_u32 [OF p1(4)] by (simp add: word_le_nat_alt word_less_nat_alt)
  with p1 show ?thesis by (simp add: dyn_ok_count)
qed

lemma dyn_ok_release: "dyn_ok p \<Longrightarrow> epa_dynamic_pool_release p i = Ok p' \<Longrightarrow> dyn_ok p'"
proof -
  assume p: "dyn_ok p" and r: "epa_dynamic_pool_release p i = Ok p'"
  then have "dp_count p \<noteq> 0" by (auto simp: epa_dynamic_pool_release_def split: if_splits)
  then have "dp_count p - 1 \<le> dp_cap p" using p by (auto simp: dyn_ok_def dyn_wf_def word_le_nat_alt unat_minus_one)
  from dyn_ok_count [OF p this] r show ?thesis
    by (auto simp: epa_dynamic_pool_release_def Let_def dest: dyn_ok_put split: if_splits res.splits)
qed

lemma dyn_ok_write: "dyn_ok p \<Longrightarrow> epa_dynamic_pool_write p i src n = Ok p' \<Longrightarrow> dyn_ok p'"
  by (auto simp: epa_dynamic_pool_write_def dest: dyn_ok_put split: if_splits)

lemma dyn_ok_swap: "dyn_ok p \<Longrightarrow> epa_dynamic_pool_swap p i j = Ok p' \<Longrightarrow> dyn_ok p'"
  unfolding epa_dynamic_pool_swap_def
  by (auto split: if_splits res.splits) (blast dest: dyn_ok_put)+

lemmas dyn_ok_ops = dyn_ok_alloc dyn_ok_release dyn_ok_write dyn_ok_swap dyn_ok_request dyn_ok_round_enter

section \<open>Properties\<close>

text \<open>C38: A well-formed pool is the list of its elements: an allocation appends a zeroed
  element and returns its ordinal, a read returns the element, a write replaces it and a release
  puts the last element in its place; none of them leaves the array.\<close>

theorem dyn_pool_is_list:
  assumes "dyn_wf p" and "i < dp_count p" and "length src = unat (dp_elem p)"
  shows "epa_dynamic_pool_read p i (dp_elem p) = Ok (dyn_elems p ! unat i)
    \<and> (\<exists>p'. epa_dynamic_pool_write p i src (dp_elem p) = Ok p' \<and> dyn_wf p'
           \<and> dyn_elems p' = (dyn_elems p)[unat i := src])
    \<and> (\<exists>p'. epa_dynamic_pool_release p i = Ok p' \<and> dyn_wf p'
           \<and> dyn_elems p' = butlast ((dyn_elems p)[unat i := last (dyn_elems p)]))
    \<and> (dp_count p < dp_cap p \<longrightarrow> (\<exists>p'. epa_dynamic_pool_alloc p = Ok (dp_count p, p') \<and> dyn_wf p'
           \<and> dyn_elems p' = dyn_elems p @ [replicate (unat (dp_elem p)) 0]))"
  using dyn_read_elem [OF assms(1,2)] dyn_write_elem [OF assms] dyn_release_elem [OF assms(1,2)]
    dyn_alloc_elem [OF assms(1)] by auto

definition dyn_demo :: dyn_pool where
  "dyn_demo = \<lparr>dp_data = Some [1, 2, 3, 4, 5, 6], dp_count = 2, dp_cap = 3, dp_elem = 2,
     dp_min_free = 1, dp_max_free = 4, dp_grow = 2\<rparr>"

lemma dyn_demo_wf: "dyn_wf dyn_demo"
  by (simp add: dyn_wf_def dyn_size_def dyn_demo_def dp_bytes_def)

lemma dyn_demo_elems: "dyn_elems dyn_demo = [[1, 2], [3, 4]]"
  by (simp add: dyn_elems_def dyn_demo_def dp_bytes_def mem_read_def upt_rec)

lemma dyn_demo_fields: "dp_count dyn_demo = 2" "dp_elem dyn_demo = 2"
  by (simp_all add: dyn_demo_def)

theorem dyn_pool_is_list_witness:
  "epa_dynamic_pool_read dyn_demo 1 2 = Ok [3, 4]
   \<and> (\<exists>p'. epa_dynamic_pool_release dyn_demo 0 = Ok p' \<and> dyn_elems p' = [[3, 4]])"
  using dyn_pool_is_list [OF dyn_demo_wf, of 1 "[7, 8]"] dyn_pool_is_list [OF dyn_demo_wf, of 0 "[7, 8]"]
  by (auto simp: dyn_demo_elems dyn_demo_fields)

text \<open>C35: Entering a round terminates and leaves at least \<open>min_free\<close> free slots with all
  elements kept (or reports a failed allocation), as long as the capacities in play stay at or
  below \<open>2 ^ 31\<close>.\<close>

theorem dyn_round_enter_ok:
  assumes "dyn_wf p" and "alloc_ok al" and "0 < dp_grow p" and "dp_min_free p \<le> dp_max_free p"
    and "unat (dp_count p) + unat (dp_min_free p) + unat (dp_grow p) \<le> 2147483648"
  shows "epa_dynamic_pool_round_enter al p = Some (Err ''epa_dynamic_pool: realloc failed'')
    \<or> (\<exists>p'. epa_dynamic_pool_round_enter al p = Some (Ok p') \<and> dyn_wf p'
         \<and> dyn_elems p' = dyn_elems p \<and> dp_min_free p \<le> dp_cap p' - dp_count p')"
proof -
  obtain r where r: "epa_dynamic_pool_round_enter al p = Some r" "dyn_grown p (dp_count p + dp_min_free p) r"
    using dyn_round_enter_grown [OF assms(1-3) _ assms(4)] assms(5) by auto
  show ?thesis
  proof (cases r)
    case (Ok p')
    have "unat (dp_count p + dp_min_free p) = unat (dp_count p) + unat (dp_min_free p)"
      using assms(5) by (simp add: unat_word_ariths)
    with Ok r show ?thesis
      by (simp add: dyn_grown_def word_le_nat_alt unat_sub dyn_wf_def) linarith
  next
    case (Err e)
    with r show ?thesis
      by (auto simp: epa_dynamic_pool_round_enter_def dyn_ensure_cap_def Let_def
          split: option.splits if_splits)
  next
    case Ub
    with r show ?thesis by (simp add: dyn_grown_def)
  qed
qed

theorem dyn_round_enter_ok_witness:
  "\<exists>r. epa_dynamic_pool_round_enter zero_alloc (dyn_demo\<lparr>dp_min_free := 3\<rparr>) = Some r"
proof -
  have "dyn_wf (dyn_demo\<lparr>dp_min_free := 3\<rparr>)"
    by (simp add: dyn_wf_def dyn_size_def dyn_demo_def dp_bytes_def)
  from dyn_round_enter_ok [OF this alloc_ok_zero] show ?thesis by (auto simp: dyn_demo_def)
qed

text \<open>The growth loop does not end for a capacity above \<open>2 ^ 31\<close>: starting from an
  empty pool (or one that only ever grew by doubling 16) the 32-bit capacity wraps to 0 and stays
  there, so the request for capacity never returns.\<close>

theorem dyn_request_above_2_31_hangs:
  assumes "0x80000000 < n" and "dp_cap p = 0 \<or> (\<exists>k. dp_cap p = 2 ^ k)" and "dp_count p \<le> n"
  shows "epa_dynamic_pool_request_capacity al p n hard = None"
proof -
  have c: "dp_cap p \<le> 0x80000000" using assms(2) power_two_bound by auto
  obtain k where k: "(if dp_cap p \<noteq> 0 then dp_cap p else 16) = 2 ^ k"
  proof (cases "dp_cap p = 0")
    case True
    show ?thesis by (rule that [of 4]) (simp add: True)
  qed (use assms(2) that in auto)
  from c assms(1) have "dp_cap p < n" by simp
  then show ?thesis using assms(3) dyn_double_loops [OF assms(1), of k]
    by (auto simp: epa_dynamic_pool_request_capacity_def dyn_ensure_cap_def k not_less)
qed

theorem dyn_request_above_2_31_hangs_witness:
  "\<exists>p. epa_dynamic_pool_init 0 4 1 4 = Ok p \<and> epa_dynamic_pool_request_capacity zero_alloc p 0x80000001 True = None"
proof -
  obtain p where p: "epa_dynamic_pool_init 0 4 1 4 = Ok p" by (simp add: epa_dynamic_pool_init_def)
  then have "dp_cap p = 0" "dp_count p = 0" by (auto simp: epa_dynamic_pool_init_def)
  with p dyn_request_above_2_31_hangs [of "0x80000001" p zero_alloc True] show ?thesis by simp
qed

end
