(* ===== verification/Opcodes.thy ===== *)
theory Opcodes
  imports Prelude
begin

text \<open>
  The instruction encoding: the opcode table of \<open>src/opcodes/epa_opcodes.x\<close> (value,
  mnemonic, number of parameter bytes) and the decoder of \<open>src/opcodes/opcode_def.h\<close>. A
  core opcode is one byte with bit 7 clear, a full-core opcode two bytes, low byte first, with
  bit 7 of the low byte set.
\<close>

record opcode_def =
  od_opcode :: u16
  od_name :: string
  od_plen :: u8

definition epa_opcode_table :: "(nat \<times> string \<times> nat) list" where
  "epa_opcode_table =
   [(0, ''NOOP'', 0),
    (1, ''SET_MODE'', 6),
    (2, ''END'', 0),
    (3, ''DATA_BLOCK'', 255),
    (4, ''JMP'', 4),
    (5, ''JZ'', 4),
    (6, ''JNZ'', 4),
    (7, ''JLZ'', 4),
    (8, ''JGZ'', 4),
    (9, ''YIELD'', 1),
    (10, ''ENTRY_START'', 12),
    (11, ''ENTRY_END'', 0),
    (12, ''ENTRY_EXEC'', 1),
    (13, ''ENTRY_HALT'', 1),
    (14, ''DYNAMIC_POOL'', 20),
    (15, ''KERNEL_ID'', 8),
    (16, ''ACL_ALLOW'', 12),
    (17, ''ENTRY_RETIRE'', 1),
    (18, ''KERNEL_RETIRE'', 0),
    (19, ''ENTRY_PRIVILEGE'', 5),
    (20, ''PRIVILEGE_LOCK'', 0),
    (21, ''ACL'', 2),
    (22, ''AND_I32'', 0),
    (23, ''OR_I32'', 0),
    (24, ''PID'', 1),
    (25, ''XOR_I32'', 0),
    (26, ''SYNC'', 0),
    (27, ''WAIT_ON_SYNC'', 0),
    (28, ''WAIT_FOR_DATA'', 0),
    (29, ''DATA_READY'', 1),
    (30, ''PUSH_I32'', 4),
    (31, ''PUSH_R'', 1),
    (32, ''POP'', 1),
    (33, ''ADD_I32'', 0),
    (34, ''SUB_I32'', 0),
    (35, ''MUL_I32'', 0),
    (36, ''LT_I32'', 0),
    (37, ''EQ_I32'', 0),
    (38, ''NE_I32'', 0),
    (39, ''LE_I32'', 0),
    (40, ''GT_I32'', 0),
    (41, ''GE_I32'', 0),
    (42, ''DIV_I32'', 0),
    (43, ''STORE_L'', 1),
    (44, ''LOAD_L'', 1),
    (45, ''STORE_LW'', 4),
    (46, ''LOAD_LW'', 4),
    (47, ''CMP'', 0),
    (48, ''CMPZ'', 0),
    (49, ''MV'', 2),
    (50, ''SET_R'', 5),
    (51, ''INC'', 1),
    (52, ''DEC'', 1),
    (53, ''RLB_MOV1'', 2),
    (54, ''LBR_MOV1'', 2),
    (55, ''RLB_MOV4'', 2),
    (56, ''LBR_MOV4'', 2),
    (57, ''SM_PUT'', 0),
    (58, ''LOAD_CONST'', 4),
    (59, ''FUNC_START'', 6),
    (60, ''FUNC_END'', 0),
    (61, ''CALL'', 4),
    (62, ''RET'', 0),
    (63, ''AT_ENTRY_START'', 6),
    (64, ''AT_ENTRY_END'', 0),
    (65, ''KERNEL_TRX_IN_L'', 7),
    (66, ''KERNEL_TRX_OUT_L'', 7),
    (67, ''WORKER_TRX_IN_L'', 6),
    (68, ''WORKER_TRX_OUT_L'', 6),
    (69, ''WORKER_TRX_IN_R'', 1),
    (70, ''WORKER_TRX_OUT_R'', 1),
    (71, ''WORKER_TRX'', 10),
    (72, ''KERNEL_GHS_IN_R'', 4),
    (73, ''G_ALLOC'', 0),
    (74, ''G_FREE'', 0),
    (75, ''G_XFER'', 0),
    (76, ''G_XFERX'', 4),
    (77, ''G_RESIZE'', 0),
    (78, ''G_PTR'', 0),
    (79, ''G_META'', 0),
    (80, ''G_TAG'', 0),
    (81, ''GR_MOV4'', 1),
    (82, ''GW_MOV4'', 1),
    (83, ''G_ALLOC_L'', 0),
    (84, ''RGM_PUBLISH_L'', 0),
    (85, ''RGM_GET'', 0),
    (86, ''RGM_META'', 0),
    (87, ''RGM_READ4'', 1),
    (88, ''DYN_ALLOC'', 4),
    (89, ''DYN_FREE'', 4),
    (90, ''DYN_LOAD'', 4),
    (91, ''DYN_STORE'', 4),
    (92, ''DYN_SWAP'', 4),
    (93, ''DYN_ITER_HEAD'', 4),
    (94, ''DYN_ITER_NEXT'', 4),
    (95, ''BREAK'', 4),
    (96, ''TRAP'', 4),
    (97, ''EXCEPT'', 4),
    (98, ''SIGNAL'', 0),
    (99, ''FAR_SIGNAL'', 0),
    (100, ''HOST_SIGNAL'', 0),
    (101, ''REQUEST'', 1),
    (102, ''NOT_I32'', 0),
    (103, ''L_ALLOC'', 0),
    (104, ''L_RESET'', 0),
    (105, ''L_SCOPE_ENTER'', 0),
    (106, ''L_SCOPE_LEAVE'', 0),
    (107, ''L_SCOPE_ALLOC'', 0),
    (108, ''ROL_BYTE'', 0),
    (109, ''ROR_BYTE'', 0),
    (110, ''VM_STATE'', 1),
    (111, ''PUSH_F32'', 4),
    (112, ''ADD_F32'', 0),
    (113, ''SUB_F32'', 0),
    (114, ''MUL_F32'', 0),
    (115, ''DIV_F32'', 0),
    (116, ''NEG_F32'', 0),
    (117, ''SQRT_F32'', 0),
    (118, ''LT_F32'', 0),
    (119, ''LE_F32'', 0),
    (120, ''GT_F32'', 0),
    (121, ''GE_F32'', 0),
    (122, ''EQ_F32'', 0),
    (123, ''NE_F32'', 0),
    (124, ''I32_TO_F32'', 0),
    (125, ''F32_TO_I32'', 0),
    (126, ''U32_TO_F32'', 0),
    (127, ''F32_TO_U32'', 0),
    (128, ''BOOT_STAGE_IMAGE'', 0),
    (129, ''BOOT_RESET_TO_STAGED'', 0),
    (130, ''DYNLIB_IMPORT'', 0),
    (131, ''PROCESS_SPAWN'', 0)]"

text \<open>The linear search of the table. It is a function of the natural number so that
  evaluation compares numerals.\<close>

fun find_op :: "nat \<Rightarrow> (nat \<times> string \<times> nat) list \<Rightarrow> (string \<times> nat) option" where
  "find_op k [] = None"
| "find_op k (r # rs) = (if fst r = k then Some (snd r) else find_op k rs)"

definition epa_find_opcode :: "u16 \<Rightarrow> opcode_def option" where
  "epa_find_opcode opc =
     map_option (\<lambda>(nm, plen). \<lparr>od_opcode = opc, od_name = nm, od_plen = of_nat plen\<rparr>)
       (find_op (unat opc) epa_opcode_table)"

fun find_op_name :: "string \<Rightarrow> (nat \<times> string \<times> nat) list \<Rightarrow> (nat \<times> string \<times> nat) option" where
  "find_op_name s [] = None"
| "find_op_name s (r # rs) = (if fst (snd r) = s then Some r else find_op_name s rs)"

definition epa_find_opcode_by_name :: "string \<Rightarrow> opcode_def option" where
  "epa_find_opcode_by_name s =
     map_option (\<lambda>(v, nm, plen). \<lparr>od_opcode = of_nat v, od_name = nm, od_plen = of_nat plen\<rparr>)
       (find_op_name s epa_opcode_table)"

definition epa_opcode_width :: "u16 \<Rightarrow> nat" where
  "epa_opcode_width opc = (if opc AND 0x80 \<noteq> 0 then 2 else 1)"

definition epa_decode_opcode_at :: "u8 list \<Rightarrow> nat \<Rightarrow> (u16 \<times> nat) option" where
  "epa_decode_opcode_at buf off =
     (if off \<ge> length buf then None
      else if (buf ! off) AND 0x80 \<noteq> 0 then
        (if off + 2 > length buf then None else Some (read_u16_le buf off, 2))
      else Some (ucast (buf ! off), 1))"

text \<open>The encoding of an opcode as the assembler writes it.\<close>

definition opcode_bytes :: "u16 \<Rightarrow> u8 list" where
  "opcode_bytes opc = (if opc AND 0x80 \<noteq> 0 then [ucast opc, ucast (drop_bit 8 opc)] else [ucast opc])"

section \<open>The table\<close>

fun ascending :: "nat list \<Rightarrow> bool" where
  "ascending [] = True"
| "ascending [x] = True"
| "ascending (x # y # zs) = (x < y \<and> ascending (y # zs))"

lemma ascending_less: "ascending (x # xs) \<Longrightarrow> y \<in> set xs \<Longrightarrow> x < y"
  by (induction xs arbitrary: x) force+

lemma ascending_distinct: "ascending xs \<Longrightarrow> distinct xs"
proof (induction xs)
  case (Cons x xs)
  then have "ascending xs" by (cases xs) auto
  with Cons ascending_less [of x xs] show ?case by auto
qed simp

lemma opcode_table_ascending: "ascending (map fst epa_opcode_table)"
  by (simp add: epa_opcode_table_def)

lemma opcode_table_bound: "list_all (\<lambda>r. fst r < 132) epa_opcode_table"
  by (simp add: epa_opcode_table_def)

lemma find_op_map_of: "distinct (map fst rs) \<Longrightarrow> r \<in> set rs \<Longrightarrow> find_op (fst r) rs = Some (snd r)"
  by (induction rs) (auto simp: rev_image_eqI)

lemma find_opcode_table:
  assumes "(v, nm, plen) \<in> set epa_opcode_table"
  shows "epa_find_opcode (of_nat v) = Some \<lparr>od_opcode = of_nat v, od_name = nm, od_plen = of_nat plen\<rparr>"
proof -
  have "v < 132" using assms opcode_table_bound by (auto simp: list_all_iff)
  then have "unat (of_nat v :: u16) = v" by (simp add: unat_of_nat)
  with find_op_map_of [OF ascending_distinct [OF opcode_table_ascending] assms] show ?thesis
    by (simp add: epa_find_opcode_def)
qed

lemma bit7_mask: "(w :: u16) AND 0x80 \<noteq> 0 \<longleftrightarrow> bit w 7" "(b :: u8) AND 0x80 \<noteq> 0 \<longleftrightarrow> bit b 7"
  using and_exp_eq_0_iff_not_bit [of w 7] and_exp_eq_0_iff_not_bit [of b 7] by simp_all

lemma u16_le_join: "(ucast (ucast v :: u8) :: u16) OR push_bit 8 (ucast (ucast (drop_bit 8 v) :: u8)) = v"
proof (rule bit_word_eqI)
  fix n :: nat
  assume n: "n < LENGTH(16)"
  consider "n < 8" | "8 \<le> n" "n < 16" using n by force
  then show "bit ((ucast (ucast v :: u8) :: u16) OR push_bit 8 (ucast (ucast (drop_bit 8 v) :: u8))) n = bit v n"
    using n by cases (auto simp: bit_simps)
qed

lemma decode_encode:
  assumes "bit opc 7 \<or> unat opc < 128"
  shows "epa_decode_opcode_at (pre @ opcode_bytes opc @ post) (length pre) = Some (opc, epa_opcode_width opc)"
proof (cases "bit opc 7")
  case True
  then have "bit (ucast opc :: u8) 7" by (simp add: bit_simps)
  with True show ?thesis
    by (simp add: epa_decode_opcode_at_def opcode_bytes_def epa_opcode_width_def bit7_mask nth_append
        read_u16_le_def u16_le_join)
next
  case False
  then have "unat opc < 128" using assms by simp
  then have "(ucast (ucast opc :: u8) :: u16) = opc"
    by (simp add: word_unat_eq_iff unsigned_ucast_eq unsigned_take_bit_eq take_bit_nat_eq_self)
  moreover have "\<not> bit (ucast opc :: u8) 7" using False by (simp add: bit_simps)
  ultimately show ?thesis using False
    by (simp add: epa_decode_opcode_at_def opcode_bytes_def epa_opcode_width_def bit7_mask nth_append)
qed

lemma table_bit7: "list_all (\<lambda>r. bit (of_nat (fst r) :: u16) 7 \<or> fst r < 128) epa_opcode_table"
  by (simp add: epa_opcode_table_def bit_simps)

text \<open>Every instruction of the table is recognised: its encoding, wherever it stands in
  a code block, decodes to the opcode and its width, and looking the opcode up gives the mnemonic
  and the parameter length of that row, no two rows sharing a value.\<close>

theorem opcode_decode_lookup:
  "distinct (map fst epa_opcode_table) \<and>
   list_all (\<lambda>(v, nm, plen).
       epa_find_opcode (of_nat v) = Some \<lparr>od_opcode = of_nat v, od_name = nm, od_plen = of_nat plen\<rparr>
       \<and> epa_decode_opcode_at (pre @ opcode_bytes (of_nat v) @ post) (length pre)
           = Some (of_nat v, epa_opcode_width (of_nat v)))
     epa_opcode_table"
proof -
  have "epa_decode_opcode_at (pre @ opcode_bytes (of_nat v) @ post) (length pre)
           = Some (of_nat v, epa_opcode_width (of_nat v))" if "(v, nm, plen) \<in> set epa_opcode_table" for v nm plen
  proof (rule decode_encode)
    have "v < 132" using that opcode_table_bound by (auto simp: list_all_iff)
    then show "bit (of_nat v :: u16) 7 \<or> unat (of_nat v :: u16) < 128"
      using table_bit7 that by (auto simp: list_all_iff unat_of_nat)
  qed
  then show ?thesis
    using ascending_distinct [OF opcode_table_ascending] find_opcode_table by (auto simp: list_all_iff)
qed

end
