(* ===== verification/EpaVm.thy ===== *)
theory EpaVm
  imports EpaStack
begin

text \<open>
  The virtual machine of one worker, \<open>EpaVM\<close> of \<open>src/vm/epa_vm.h\<close> and
  \<open>src/vm/epa_vm.c\<close>: instruction pointer, the four common registers, evaluation stack, local
  words and the byte arena with its bump allocator. Locals are kept as bit patterns.
  \<open>vm_wf\<close> is the invariant every instruction keeps.
\<close>

record epa_eip =
  eip_type :: u8
  eip_block :: u32
  eip_pc :: u32

definition "EPA_BLOCK_ENTRY = (0 :: u8)"
definition "EPA_BLOCK_FUNC = (1 :: u8)"
definition "EPA_BLOCK_AT_ENTRY = (2 :: u8)"

lemmas block_type_defs = EPA_BLOCK_ENTRY_def EPA_BLOCK_FUNC_def EPA_BLOCK_AT_ENTRY_def

record epa_vm =
  vm_eip :: epa_eip
  vm_csc :: "u32 list"
  vm_stack :: epa_stack
  vm_locals :: "u32 list"
  vm_lbytes :: "u8 list option"
  vm_lcap :: u32
  vm_ltop :: u32
  vm_marks :: "u32 list"
  vm_depth :: u32
  vm_yielded :: u8
  vm_policy :: u8

definition eip_zero :: epa_eip where
  "eip_zero = \<lparr>eip_type = 0, eip_block = 0, eip_pc = 0\<rparr>"

definition stack_zero :: epa_stack where
  "stack_zero = \<lparr>st_words = [], st_sp = 0, st_cap = 0\<rparr>"

definition vm_zero :: epa_vm where
  "vm_zero = \<lparr>vm_eip = eip_zero, vm_csc = replicate 4 0, vm_stack = stack_zero,
     vm_locals = replicate 64 0, vm_lbytes = None, vm_lcap = 0, vm_ltop = 0,
     vm_marks = replicate 32 0, vm_depth = 0, vm_yielded = 0, vm_policy = 0\<rparr>"

text \<open>\<open>ok\<close> is the answer of the stack's \<open>calloc\<close>.\<close>

definition epa_vm_reset :: "bool \<Rightarrow> epa_vm \<Rightarrow> epa_vm" where
  "epa_vm_reset ok vm = vm\<lparr>vm_eip := eip_zero, vm_csc := replicate 4 0,
     vm_stack := epa_stack_init ok, vm_locals := replicate 64 0, vm_ltop := 0, vm_depth := 0,
     vm_marks := replicate 32 0, vm_yielded := 0, vm_policy := 0\<rparr>"

definition epa_vm_init_with_lbytes :: "bool \<Rightarrow> allocator \<Rightarrow> u32 \<Rightarrow> bool \<times> epa_vm" where
  "epa_vm_init_with_lbytes ok al cap =
     (let vm = vm_zero\<lparr>vm_stack := epa_stack_init ok\<rparr> in
      if cap \<noteq> 0 then
        (case al (unat cap) of
           None \<Rightarrow> (False, vm_zero)
         | Some b \<Rightarrow> (True, epa_vm_reset ok (vm\<lparr>vm_lbytes := Some b, vm_lcap := cap, vm_ltop := 0\<rparr>)))
      else (True, epa_vm_reset ok vm))"

definition epa_vm_init :: "bool \<Rightarrow> allocator \<Rightarrow> bool \<times> epa_vm" where
  "epa_vm_init ok al = epa_vm_init_with_lbytes ok al (16 * 1024)"

definition epa_vm_free :: "epa_vm \<Rightarrow> epa_vm" where
  "epa_vm_free vm = vm\<lparr>vm_lbytes := None, vm_lcap := 0, vm_ltop := 0, vm_stack := stack_zero,
     vm_locals := replicate 64 0, vm_csc := replicate 4 0, vm_eip := eip_zero, vm_yielded := 0,
     vm_policy := 0\<rparr>"

definition align_up_u32 :: "u32 \<Rightarrow> u32 \<Rightarrow> u32" where
  "align_up_u32 x a = (if a = 0 then x else (x + (a - 1)) AND NOT (a - 1))"

text \<open>The result is the offset of the block in the arena (the C function returns its address).\<close>

definition epa_vm_lbytes_alloc :: "epa_vm \<Rightarrow> u32 \<Rightarrow> u32 \<Rightarrow> string + (u32 \<times> epa_vm)" where
  "epa_vm_lbytes_alloc vm nbytes align =
     (if nbytes = 0 then Inl ''epa_vm_lbytes_alloc: invalid args''
      else if vm_lbytes vm = None \<or> vm_lcap vm = 0 then Inl ''epa_vm_lbytes_alloc: no lbytes arena''
      else
        let a = (if align = 0 then 4 else align);
            at = align_up_u32 (vm_ltop vm) a
        in if at > vm_lcap vm then Inl ''epa_vm_lbytes_alloc: OOM (need %u, have %u)''
           else if nbytes > vm_lcap vm - at then Inl ''epa_vm_lbytes_alloc: OOM (need %u, have %u)''
           else Inr (at, vm\<lparr>vm_ltop := at + nbytes\<rparr>))"

section \<open>Register access\<close>

text \<open>An access to \<open>csc\<close> with an index that the code does not check is undefined
  behaviour outside the array.\<close>

definition vm_r :: "epa_vm \<Rightarrow> nat \<Rightarrow> u32" where
  "vm_r v i = vm_csc v ! i"

definition vm_set_r :: "nat \<Rightarrow> u32 \<Rightarrow> epa_vm \<Rightarrow> epa_vm" where
  "vm_set_r i x v = v\<lparr>vm_csc := (vm_csc v)[i := x]\<rparr>"

definition vm_set_pc :: "u32 \<Rightarrow> epa_vm \<Rightarrow> epa_vm" where
  "vm_set_pc pc v = v\<lparr>vm_eip := (vm_eip v)\<lparr>eip_pc := pc\<rparr>\<rparr>"

definition vm_pc :: "epa_vm \<Rightarrow> u32" where
  "vm_pc v = eip_pc (vm_eip v)"

section \<open>Invariant\<close>

text \<open>The size of the byte arena that is really there.\<close>

definition vm_arena :: "epa_vm \<Rightarrow> nat" where
  "vm_arena v = (case vm_lbytes v of None \<Rightarrow> 0 | Some b \<Rightarrow> length b)"

definition vm_wf :: "epa_vm \<Rightarrow> bool" where
  "vm_wf v \<longleftrightarrow> length (vm_csc v) = 4 \<and> stack_wf (vm_stack v) \<and> length (vm_locals v) = 64
     \<and> pred_option (\<lambda>b. length b = unat (vm_lcap v)) (vm_lbytes v)
     \<and> unat (vm_ltop v) \<le> vm_arena v \<and> length (vm_marks v) = 32 \<and> vm_depth v \<le> 32
     \<and> list_all (\<lambda>m. unat m \<le> vm_arena v) (take (unat (vm_depth v)) (vm_marks v))"

lemma vm_wf_init:
  assumes "alloc_ok al" and "epa_vm_init_with_lbytes True al cap = (True, vm)"
  shows "vm_wf vm"
proof -
  have "length b = unat cap" if "al (unat cap) = Some b" for b using alloc_okD [OF assms(1) that] .
  then show ?thesis using assms(2)
    by (auto simp: epa_vm_init_with_lbytes_def epa_vm_reset_def vm_wf_def vm_arena_def stack_wf_init vm_zero_def Let_def
        split: if_splits option.splits)
qed

lemma vm_wf_reset: "vm_wf vm \<Longrightarrow> vm_wf (epa_vm_reset True vm)"
  by (simp add: vm_wf_def vm_arena_def epa_vm_reset_def stack_wf_init)

lemma vm_wf_free: "vm_wf vm \<Longrightarrow> vm_wf ((epa_vm_free vm)\<lparr>vm_depth := 0\<rparr>)"
  by (simp add: vm_wf_def vm_arena_def epa_vm_free_def stack_wf_def stack_zero_def)

lemma vm_set_r_wf [wf_intros]: "vm_wf v \<Longrightarrow> vm_wf (vm_set_r i x v)"
  by (simp add: vm_set_r_def vm_wf_def vm_arena_def)

lemma vm_set_pc_wf [wf_intros]: "vm_wf v \<Longrightarrow> vm_wf (vm_set_pc pc v)"
  by (simp add: vm_set_pc_def vm_wf_def vm_arena_def)

lemma vm_set_simps [simp]:
  "vm_stack (vm_set_r i x v) = vm_stack v" "vm_stack (vm_set_pc pc v) = vm_stack v"
  "vm_lbytes (vm_set_r i x v) = vm_lbytes v" "vm_lbytes (vm_set_pc pc v) = vm_lbytes v"
  "vm_ltop (vm_set_r i x v) = vm_ltop v" "vm_ltop (vm_set_pc pc v) = vm_ltop v"
  "vm_lcap (vm_set_r i x v) = vm_lcap v" "vm_lcap (vm_set_pc pc v) = vm_lcap v"
  "vm_locals (vm_set_r i x v) = vm_locals v" "vm_locals (vm_set_pc pc v) = vm_locals v"
  "vm_csc (vm_set_r i x v) = (vm_csc v)[i := x]" "vm_csc (vm_set_pc pc v) = vm_csc v"
  "vm_eip (vm_set_r i x v) = vm_eip v" "vm_pc (vm_set_r i x v) = vm_pc v" "vm_pc (vm_set_pc pc v) = pc"
  "eip_type (vm_eip (vm_set_pc pc v)) = eip_type (vm_eip v)"
  "eip_block (vm_eip (vm_set_pc pc v)) = eip_block (vm_eip v)"
  "vm_marks (vm_set_r i x v) = vm_marks v" "vm_marks (vm_set_pc pc v) = vm_marks v"
  "vm_depth (vm_set_r i x v) = vm_depth v" "vm_depth (vm_set_pc pc v) = vm_depth v"
  by (simp_all add: vm_set_r_def vm_set_pc_def vm_pc_def)

end
