(* ===== verification/ProgramDesc.thy ===== *)
theory ProgramDesc
  imports EpaVm
begin

text \<open>
  The loaded program, \<open>src/epa_program_desc.h\<close>, and the resolution of an instruction
  pointer to its code block (also \<open>src/epa_flow_glue.c\<close>). A code view is the bytes it
  points at; \<open>code_len\<close> is their number. The 256-slot arrays are functions of the slot.
\<close>

record code_view =
  cv_code :: "u8 list"
  cv_abs :: u32

record func_desc =
  fd_id :: u32
  fd_frame_words :: u16
  fd_code :: code_view

record at_desc =
  ad_id :: u32
  ad_frame_words :: u16
  ad_code :: code_view

record epa_const =
  ec_id :: u32
  ec_kind :: u8
  ec_flags :: u8
  ec_aux :: u16
  ec_a :: u32
  ec_b :: u32

record pool_desc =
  pd_pool_id :: u32
  pd_elem :: u32
  pd_min_free :: u32
  pd_max_free :: u32
  pd_grow :: u32

record acl_entry =
  acl_remote :: u64
  acl_wid :: u32

record program =
  p_entries :: "nat \<Rightarrow> code_view"
  p_present :: "nat \<Rightarrow> bool"
  p_in_words :: "nat \<Rightarrow> u16"
  p_out_words :: "nat \<Rightarrow> u16"
  p_mailbox :: "nat \<Rightarrow> u32"
  p_privilege :: "nat \<Rightarrow> u32"
  p_ignore_ticks :: "nat \<Rightarrow> bool"
  p_consts :: "epa_const list"
  p_funcs :: "func_desc list"
  p_ats :: "at_desc list"
  p_pools :: "pool_desc list"
  p_kernel_uid :: u64
  p_acl :: "acl_entry list"
  p_image :: "u8 list"

definition view_zero :: code_view where
  "view_zero = \<lparr>cv_code = [], cv_abs = 0\<rparr>"

definition program_zero :: program where
  "program_zero = \<lparr>p_entries = (\<lambda>_. view_zero), p_present = (\<lambda>_. False), p_in_words = (\<lambda>_. 0),
     p_out_words = (\<lambda>_. 0), p_mailbox = (\<lambda>_. 0), p_privilege = (\<lambda>_. 0), p_ignore_ticks = (\<lambda>_. False),
     p_consts = [], p_funcs = [], p_ats = [], p_pools = [], p_kernel_uid = 0, p_acl = [], p_image = []\<rparr>"

text \<open>The block at an index of a dense table.\<close>

definition dense_view :: "('d \<Rightarrow> code_view) \<Rightarrow> 'd list \<Rightarrow> u32 \<Rightarrow> code_view option" where
  "dense_view f ds i = (if unat i \<ge> length ds then None else Some (f (ds ! unat i)))"

definition epa_prog_resolve :: "program \<Rightarrow> u8 \<Rightarrow> u32 \<Rightarrow> u8 list option" where
  "epa_prog_resolve p block_type block_id =
     (if block_type = 0 then
        (if block_id \<ge> 256 then None
         else if \<not> p_present p (unat block_id) then None
         else Some (cv_code (p_entries p (unat block_id))))
      else if block_type = 1 then
        (if unat block_id \<ge> length (p_funcs p) then None
         else Some (cv_code (fd_code (p_funcs p ! unat block_id))))
      else if block_type = 2 then
        (if unat block_id \<ge> length (p_ats p) then None
         else Some (cv_code (ad_code (p_ats p ! unat block_id))))
      else None)"

definition epa_resolve_eip :: "program \<Rightarrow> epa_eip \<Rightarrow> string + (u8 list \<times> u32)" where
  "epa_resolve_eip p e =
     (if eip_type e = EPA_BLOCK_ENTRY then
        (if eip_block e \<ge> 256 then Inl ''resolve_eip: missing entry %u''
         else if \<not> p_present p (unat (eip_block e)) then Inl ''resolve_eip: missing entry %u''
         else let v = p_entries p (unat (eip_block e)) in Inr (cv_code v, cv_abs v))
      else if eip_type e = EPA_BLOCK_FUNC then
        (case dense_view fd_code (p_funcs p) (eip_block e) of
           None \<Rightarrow> Inl ''resolve_eip: missing func %u'' | Some v \<Rightarrow> Inr (cv_code v, cv_abs v))
      else if eip_type e = EPA_BLOCK_AT_ENTRY then
        (case dense_view ad_code (p_ats p) (eip_block e) of
           None \<Rightarrow> Inl ''resolve_eip: missing at_entry %u'' | Some v \<Rightarrow> Inr (cv_code v, cv_abs v))
      else Inl ''resolve_eip: invalid block_type %u'')"

text \<open>The linear searches by id return the dense index with the metadata.\<close>

fun find_func_from :: "u32 \<Rightarrow> nat \<Rightarrow> func_desc list \<Rightarrow> (u32 \<times> u16) option" where
  "find_func_from fid i [] = None"
| "find_func_from fid i (f # fs) =
     (if fd_id f = fid then Some (of_nat i, fd_frame_words f) else find_func_from fid (Suc i) fs)"

definition epa_prog_find_func :: "program \<Rightarrow> u32 \<Rightarrow> (u32 \<times> u16) option" where
  "epa_prog_find_func p fid = find_func_from fid 0 (p_funcs p)"

fun find_at_from :: "u32 \<Rightarrow> nat \<Rightarrow> at_desc list \<Rightarrow> (u32 \<times> u16) option" where
  "find_at_from aid i [] = None"
| "find_at_from aid i (a # as) =
     (if ad_id a = aid then Some (of_nat i, ad_frame_words a) else find_at_from aid (Suc i) as)"

definition epa_prog_find_at_entry :: "program \<Rightarrow> u32 \<Rightarrow> (u32 \<times> u16) option" where
  "epa_prog_find_at_entry p aid = find_at_from aid 0 (p_ats p)"

fun find_const_in :: "u32 \<Rightarrow> epa_const list \<Rightarrow> epa_const option" where
  "find_const_in i [] = None"
| "find_const_in i (c # cs) = (if ec_id c = i then Some c else find_const_in i cs)"

definition prog_find_const :: "program \<Rightarrow> u32 \<Rightarrow> epa_const option" where
  "prog_find_const p i = find_const_in i (p_consts p)"

section \<open>Lemmas\<close>

lemma resolve_agree:
  "epa_prog_resolve p (eip_type e) (eip_block e) =
     (case epa_resolve_eip p e of Inl _ \<Rightarrow> None | Inr (c, _) \<Rightarrow> Some c)"
  by (simp add: epa_prog_resolve_def epa_resolve_eip_def block_type_defs dense_view_def Let_def)

lemma find_func_from_Some:
  "find_func_from fid i fs = Some (j, w) \<Longrightarrow>
   \<exists>n < length fs. j = of_nat (i + n) \<and> fd_id (fs ! n) = fid \<and> fd_frame_words (fs ! n) = w"
proof (induction fs arbitrary: i)
  case (Cons f fs)
  show ?case
  proof (cases "fd_id f = fid")
    case False
    with Cons obtain n where "n < length fs" "j = of_nat (Suc i + n)" "fd_id (fs ! n) = fid"
        "fd_frame_words (fs ! n) = w" by fastforce
    then show ?thesis by (intro exI [of _ "Suc n"]) simp
  qed (use Cons.prems in \<open>auto intro!: exI [of _ 0]\<close>)
qed simp

lemma find_func_resolves:
  assumes "epa_prog_find_func p fid = Some (j, w)" and "length (p_funcs p) < 4294967296"
  shows "\<exists>c. epa_prog_resolve p EPA_BLOCK_FUNC j = Some c"
  using find_func_from_Some [OF assms(1) [unfolded epa_prog_find_func_def]] assms(2)
  by (auto simp: epa_prog_resolve_def block_type_defs unat_of_nat)

end
