(* ===== verification/FlowVm.thy ===== *)
theory FlowVm
  imports ProgramDesc
begin

text \<open>
  The instructions of \<open>epa_flow_step\<close> (\<open>src/epa_instruct_common.c\<close>) that only touch
  the virtual machine of the worker: jumps, register moves, integer arithmetic, locals and the
  byte arena. One definition per instruction; \<open>code\<close> is the code block, \<open>pc\<close>
  the offset of the instruction in it and \<open>need\<close> its length, as the step has decoded them.
  The stack argument \<open>st\<close> of the C function is the machine's own stack in every call.
\<close>

type_synonym vm_op = "u8 list \<Rightarrow> nat \<Rightarrow> nat \<Rightarrow> epa_vm \<Rightarrow> epa_vm hres"

definition vm_adv :: "nat \<Rightarrow> nat \<Rightarrow> epa_vm \<Rightarrow> epa_vm" where
  "vm_adv pc need v = vm_set_pc (of_nat (pc + need)) v"

definition imm8 :: "u8 list \<Rightarrow> nat \<Rightarrow> nat \<Rightarrow> nat" where
  "imm8 code pc i = unat (code ! (pc + 1 + i))"

definition imm32 :: "u8 list \<Rightarrow> nat \<Rightarrow> nat \<Rightarrow> u32" where
  "imm32 code pc i = read_u32_le code (pc + 1 + i)"

definition imm16 :: "u8 list \<Rightarrow> nat \<Rightarrow> nat \<Rightarrow> u16" where
  "imm16 code pc i = read_u16_le code (pc + 1 + i)"

text \<open>The calling pattern of the stack functions.\<close>

definition vm_push :: "string \<Rightarrow> u32 \<Rightarrow> epa_vm \<Rightarrow> (epa_vm \<Rightarrow> epa_vm hres) \<Rightarrow> epa_vm hres" where
  "vm_push msg x v k = chk (epa_stack_push (vm_stack v) x) msg v (\<lambda>st. k (v\<lparr>vm_stack := st\<rparr>))"

definition vm_pop :: "string \<Rightarrow> epa_vm \<Rightarrow> (u32 \<Rightarrow> epa_vm \<Rightarrow> epa_vm hres) \<Rightarrow> epa_vm hres" where
  "vm_pop msg v k = chk (epa_stack_pop (vm_stack v)) msg v (\<lambda>(x, st). k x (v\<lparr>vm_stack := st\<rparr>))"

definition vm_pop2 :: "string \<Rightarrow> epa_vm \<Rightarrow> (u32 \<Rightarrow> u32 \<Rightarrow> epa_vm \<Rightarrow> epa_vm hres) \<Rightarrow> epa_vm hres" where
  "vm_pop2 msg v k = vm_pop msg v (\<lambda>ub v1. vm_pop msg v1 (\<lambda>ua v2. k ua ub v2))"

section \<open>Array accesses\<close>

text \<open>The registers, the locals and the marks are C arrays of 4, 64 and 32 words: an access behind the end is
  undefined, whatever the guards of an instruction let through.\<close>

definition or_undef :: "'a option \<Rightarrow> ('a \<Rightarrow> 's hres) \<Rightarrow> 's hres" where
  "or_undef x k = (case x of None \<Rightarrow> Undef | Some a \<Rightarrow> k a)"

definition csc_at :: "epa_vm \<Rightarrow> nat \<Rightarrow> u32 option" where
  "csc_at v i = (if i < 4 then Some (vm_r v i) else None)"

definition csc_put :: "nat \<Rightarrow> u32 \<Rightarrow> epa_vm \<Rightarrow> epa_vm option" where
  "csc_put i x v = (if i < 4 then Some (vm_set_r i x v) else None)"

definition local_at :: "epa_vm \<Rightarrow> nat \<Rightarrow> u32 option" where
  "local_at v i = (if i < 64 then Some (vm_locals v ! i) else None)"

definition local_put :: "nat \<Rightarrow> u32 \<Rightarrow> epa_vm \<Rightarrow> epa_vm option" where
  "local_put i x v = (if i < 64 then Some (v\<lparr>vm_locals := (vm_locals v)[i := x]\<rparr>) else None)"

definition mark_at :: "epa_vm \<Rightarrow> nat \<Rightarrow> u32 option" where
  "mark_at v i = (if i < 32 then Some (vm_marks v ! i) else None)"

definition mark_put :: "nat \<Rightarrow> u32 \<Rightarrow> epa_vm \<Rightarrow> epa_vm option" where
  "mark_put i x v = (if i < 32 then Some (v\<lparr>vm_marks := (vm_marks v)[i := x]\<rparr>) else None)"

lemmas array_access_defs = csc_at_def csc_put_def local_at_def local_put_def mark_at_def mark_put_def

section \<open>Control flow\<close>

definition op_noop :: vm_op where
  "op_noop code pc need v = Yield (vm_adv pc need v)"

definition op_yield :: vm_op where
  "op_yield code pc need v = Yield (vm_adv pc need v)"

definition rel_target :: "u8 list \<Rightarrow> nat \<Rightarrow> nat \<Rightarrow> int" where
  "rel_target code pc need = int (pc + need) + sint (imm32 code pc 0)"

definition jump_checked :: "string \<Rightarrow> vm_op" where
  "jump_checked msg code pc need v =
     (let tgt = rel_target code pc need in
      if tgt < 0 \<or> tgt > int (length code) then Fault msg v
      else Yield (vm_set_pc (word_of_int tgt) v))"

definition op_jmp :: vm_op where
  "op_jmp code pc need v = jump_checked ''JMP out of range tgt=%lld len=%zu'' code pc need v"

definition op_jz :: vm_op where
  "op_jz code pc need v =
     (if vm_r v 0 \<noteq> 0 then Yield (vm_adv pc need v)
      else jump_checked ''%s out of range tgt=%lld len=%zu'' code pc need v)"

definition op_jnz :: vm_op where
  "op_jnz code pc need v =
     (if vm_r v 0 = 0 then Yield (vm_adv pc need v)
      else jump_checked ''%s out of range tgt=%lld len=%zu'' code pc need v)"

definition op_jlz :: vm_op where
  "op_jlz code pc need v =
     (if sint (vm_r v 0) < 0 then Yield (vm_set_pc (word_of_int (rel_target code pc need)) v)
      else Yield (vm_adv pc need v))"

definition op_jgz :: vm_op where
  "op_jgz code pc need v =
     (if sint (vm_r v 0) > 0 then Yield (vm_set_pc (word_of_int (rel_target code pc need)) v)
      else Yield (vm_adv pc need v))"

section \<open>Registers\<close>

definition cmp_word :: "u32 \<Rightarrow> u32 \<Rightarrow> u32" where
  "cmp_word a b = (if sint a < sint b then - 1 else if sint a > sint b then 1 else 0)"

definition op_cmp :: vm_op where
  "op_cmp code pc need v = Yield (vm_adv pc need (vm_set_r 0 (cmp_word (vm_r v 0) (vm_r v 1)) v))"

definition op_cmpz :: vm_op where
  "op_cmpz code pc need v = Yield (vm_adv pc need (vm_set_r 0 (cmp_word (vm_r v 2) (vm_r v 3)) v))"

definition op_mv :: vm_op where
  "op_mv code pc need v =
     (let dst = imm8 code pc 0; src = imm8 code pc 1 in
      or_undef (csc_at v src) (\<lambda>x. or_undef (csc_put dst x v) (\<lambda>v1. Yield (vm_adv pc need v1))))"

definition op_set_r :: vm_op where
  "op_set_r code pc need v =
     (let reg = imm8 code pc 0; val = imm32 code pc 1 in
      if reg \<ge> 4 then Fault ''SET_R invalid register'' v
      else or_undef (csc_put reg val v) (\<lambda>v1. Yield (vm_adv pc need v1)))"

definition op_inc :: vm_op where
  "op_inc code pc need v =
     (let reg = imm8 code pc 0 in
      if reg \<ge> 4 then Fault ''INC invalid register'' v
      else or_undef (csc_at v reg) (\<lambda>x. or_undef (csc_put reg (x + 1) v) (\<lambda>v1. Yield (vm_adv pc need v1))))"

definition op_dec :: vm_op where
  "op_dec code pc need v =
     (let reg = imm8 code pc 0 in
      if reg \<ge> 4 then Fault ''DEC invalid register'' v
      else or_undef (csc_at v reg) (\<lambda>x. or_undef (csc_put reg (x - 1) v) (\<lambda>v1. Yield (vm_adv pc need v1))))"

section \<open>Byte arena access\<close>

text \<open>One byte of the arena at a 32-bit index; outside the block the access is undefined.\<close>

definition lb_get :: "epa_vm \<Rightarrow> u32 \<Rightarrow> u8 option" where
  "lb_get v off =
     (case vm_lbytes v of None \<Rightarrow> None
      | Some b \<Rightarrow> if unat off < length b then Some (b ! unat off) else None)"

definition lb_put :: "u32 \<Rightarrow> u8 \<Rightarrow> epa_vm \<Rightarrow> epa_vm option" where
  "lb_put off x v =
     (case vm_lbytes v of None \<Rightarrow> None
      | Some b \<Rightarrow> if unat off < length b then Some (v\<lparr>vm_lbytes := Some (b[unat off := x])\<rparr>) else None)"

definition op_rlb_mov1 :: vm_op where
  "op_rlb_mov1 code pc need v =
     or_undef (csc_at v (imm8 code pc 1)) (\<lambda>off.
       if off \<ge> vm_ltop v then Fault ''RLB_MOV1: off out of range (%u)'' v
       else or_undef (csc_at v (imm8 code pc 0)) (\<lambda>val.
         or_undef (lb_put off (ucast val) v) (\<lambda>v1. Yield (vm_adv pc need v1))))"

definition op_lbr_mov1 :: vm_op where
  "op_lbr_mov1 code pc need v =
     or_undef (csc_at v (imm8 code pc 1)) (\<lambda>off.
       if off \<ge> vm_ltop v then Fault ''LBR_MOV1: off out of range (%u)'' v
       else if imm8 code pc 0 \<ge> 4 then Undef
       else or_undef (lb_get v off) (\<lambda>b.
         Yield (vm_adv pc need (vm_set_r (imm8 code pc 0) (ucast b) v))))"

definition op_rlb_mov4 :: vm_op where
  "op_rlb_mov4 code pc need v =
     or_undef (csc_at v (imm8 code pc 1)) (\<lambda>off.
     or_undef (csc_at v (imm8 code pc 0)) (\<lambda>val.
       if vm_lbytes v = None \<or> off + 3 \<ge> vm_ltop v then Fault ''RLB_MOV4: off out of range (%u)'' v
       else or_undef (lb_put off (ucast val) v) (\<lambda>v1.
         or_undef (lb_put (off + 1) (ucast (drop_bit 8 val)) v1) (\<lambda>v2.
         or_undef (lb_put (off + 2) (ucast (drop_bit 16 val)) v2) (\<lambda>v3.
         or_undef (lb_put (off + 3) (ucast (drop_bit 24 val)) v3) (\<lambda>v4.
           Yield (vm_adv pc need v4)))))))"

definition op_lbr_mov4 :: vm_op where
  "op_lbr_mov4 code pc need v =
     or_undef (csc_at v (imm8 code pc 1)) (\<lambda>off.
       if vm_lbytes v = None \<or> off + 3 \<ge> vm_ltop v then Fault ''LBR_MOV4: off out of range (%u)'' v
       else if imm8 code pc 0 \<ge> 4 then Undef
       else or_undef (lb_get v off) (\<lambda>b0.
         or_undef (lb_get v (off + 1)) (\<lambda>b1.
         or_undef (lb_get v (off + 2)) (\<lambda>b2.
         or_undef (lb_get v (off + 3)) (\<lambda>b3.
           Yield (vm_adv pc need
             (vm_set_r (imm8 code pc 0) (read_u32_le [b0, b1, b2, b3] 0) v)))))))"

section \<open>Stack and integer arithmetic\<close>

definition op_push_i32 :: vm_op where
  "op_push_i32 code pc need v =
     vm_push ''PUSH_I32: stack overflow'' (imm32 code pc 0) v (\<lambda>v1. Yield (vm_adv pc need v1))"

definition op_push_r :: vm_op where
  "op_push_r code pc need v =
     (let ridx = imm8 code pc 0 in
      if ridx \<ge> 4 then Fault ''PUSH_R bad reg %u'' v
      else or_undef (csc_at v ridx) (\<lambda>x. vm_push ''PUSH_R: stack overflow'' x v (\<lambda>v1. Yield (vm_adv pc need v1))))"

definition op_pop_r :: vm_op where
  "op_pop_r code pc need v =
     (let ridx = imm8 code pc 0 in
      if ridx \<ge> 4 then Fault ''POP_R bad reg %u'' v
      else vm_pop ''POP_R: stack underflow'' v (\<lambda>u v1. or_undef (csc_put ridx u v1) (\<lambda>v2. Yield (vm_adv pc need v2))))"

text \<open>The common shape of the two-operand instructions; the operation itself is
  \<open>None\<close> where C leaves it undefined.\<close>

definition vm_binop :: "string \<Rightarrow> (u32 \<Rightarrow> u32 \<Rightarrow> u32 option) \<Rightarrow> vm_op" where
  "vm_binop name f code pc need v =
     vm_pop2 (name @ '': stack underflow'') v (\<lambda>ua ub v2.
       or_undef (f ua ub) (\<lambda>r.
         vm_push (name @ '': stack overflow'') r v2 (\<lambda>v3. Yield (vm_adv pc need v3))))"

definition vm_unop :: "string \<Rightarrow> (u32 \<Rightarrow> u32 option) \<Rightarrow> vm_op" where
  "vm_unop name f code pc need v =
     vm_pop (name @ '': stack underflow'') v (\<lambda>ua v1.
       or_undef (f ua) (\<lambda>r.
         vm_push (name @ '': stack overflow'') r v1 (\<lambda>v2. Yield (vm_adv pc need v2))))"

text \<open>Signed 32-bit results: outside the range the C expression overflows.\<close>

definition i32_of :: "int \<Rightarrow> u32 option" where
  "i32_of i = (if - (2 ^ 31) \<le> i \<and> i < 2 ^ 31 then Some (word_of_int i) else None)"

definition c_quot :: "int \<Rightarrow> int \<Rightarrow> int" where
  "c_quot a b = sgn a * sgn b * (\<bar>a\<bar> div \<bar>b\<bar>)"

definition bool_word :: "bool \<Rightarrow> u32" where
  "bool_word b = (if b then 1 else 0)"

definition op_add_i32 :: vm_op where
  "op_add_i32 = vm_binop ''ADD_I32'' (\<lambda>a b. i32_of (sint a + sint b))"

definition op_sub_i32 :: vm_op where
  "op_sub_i32 = vm_binop ''SUB_I32'' (\<lambda>a b. i32_of (sint a - sint b))"

definition op_mul_i32 :: vm_op where
  "op_mul_i32 = vm_binop ''MUL_I32'' (\<lambda>a b. i32_of (sint a * sint b))"

definition op_lt_i32 :: vm_op where
  "op_lt_i32 = vm_binop ''LT_I32'' (\<lambda>a b. Some (bool_word (sint a < sint b)))"

definition op_eq_i32 :: vm_op where
  "op_eq_i32 = vm_binop ''EQ_I32'' (\<lambda>a b. Some (bool_word (sint a = sint b)))"

definition op_ne_i32 :: vm_op where
  "op_ne_i32 = vm_binop ''NE_I32'' (\<lambda>a b. Some (bool_word (sint a \<noteq> sint b)))"

definition op_le_i32 :: vm_op where
  "op_le_i32 = vm_binop ''LE_I32'' (\<lambda>a b. Some (bool_word (sint a \<le> sint b)))"

definition op_gt_i32 :: vm_op where
  "op_gt_i32 = vm_binop ''GT_I32'' (\<lambda>a b. Some (bool_word (sint a > sint b)))"

definition op_ge_i32 :: vm_op where
  "op_ge_i32 = vm_binop ''GE_I32'' (\<lambda>a b. Some (bool_word (sint a \<ge> sint b)))"

definition op_div_i32 :: vm_op where
  "op_div_i32 = vm_binop ''DIV_I32'' (\<lambda>a b. if b = 0 then Some 0 else i32_of (c_quot (sint a) (sint b)))"

definition op_and_i32 :: vm_op where
  "op_and_i32 = vm_binop ''AND_I32'' (\<lambda>a b. Some (a AND b))"

definition op_or_i32 :: vm_op where
  "op_or_i32 = vm_binop ''OR_I32'' (\<lambda>a b. Some (a OR b))"

definition op_xor_i32 :: vm_op where
  "op_xor_i32 = vm_binop ''XOR_I32'' (\<lambda>a b. Some (a XOR b))"

definition op_not_i32 :: vm_op where
  "op_not_i32 = vm_unop ''NOT_I32'' (\<lambda>a. Some (NOT a))"

definition rol_byte :: "u32 \<Rightarrow> u32 \<Rightarrow> u32" where
  "rol_byte uvalue ucount =
     (let val = uvalue AND 0xFF; cnt = unat (ucount AND 7) in
      if cnt \<noteq> 0 then (push_bit cnt val OR drop_bit (8 - cnt) val) AND 0xFF else val)"

definition ror_byte :: "u32 \<Rightarrow> u32 \<Rightarrow> u32" where
  "ror_byte uvalue ucount =
     (let val = uvalue AND 0xFF; cnt = unat (ucount AND 7) in
      if cnt \<noteq> 0 then (drop_bit cnt val OR push_bit (8 - cnt) val) AND 0xFF else val)"

definition op_rol_byte :: vm_op where
  "op_rol_byte = vm_binop ''ROL_BYTE'' (\<lambda>val cnt. Some (rol_byte val cnt))"

definition op_ror_byte :: vm_op where
  "op_ror_byte = vm_binop ''ROR_BYTE'' (\<lambda>val cnt. Some (ror_byte val cnt))"

definition op_push_f32 :: vm_op where
  "op_push_f32 code pc need v =
     vm_push ''PUSH_F32: stack overflow'' (imm32 code pc 0) v (\<lambda>v1. Yield (vm_adv pc need v1))"

section \<open>Locals\<close>

definition vm_store_local :: "string \<Rightarrow> string \<Rightarrow> nat \<Rightarrow> nat \<Rightarrow> nat \<Rightarrow> epa_vm \<Rightarrow> epa_vm hres" where
  "vm_store_local rmsg umsg idx pc need v =
     (if idx \<ge> 64 then Fault rmsg v
      else vm_pop umsg v (\<lambda>u v1. or_undef (local_put idx u v1) (\<lambda>v2. Yield (vm_adv pc need v2))))"

definition vm_load_local :: "string \<Rightarrow> string \<Rightarrow> nat \<Rightarrow> nat \<Rightarrow> nat \<Rightarrow> epa_vm \<Rightarrow> epa_vm hres" where
  "vm_load_local rmsg omsg idx pc need v =
     (if idx \<ge> 64 then Fault rmsg v
      else or_undef (local_at v idx) (\<lambda>x. vm_push omsg x v (\<lambda>v1. Yield (vm_adv pc need v1))))"

definition op_store_l :: vm_op where
  "op_store_l code pc need v =
     vm_store_local ''STORE_L idx out of range: %u'' ''STORE_L: stack underflow'' (imm8 code pc 0) pc need v"

definition op_load_l :: vm_op where
  "op_load_l code pc need v =
     vm_load_local ''LOAD_L idx out of range: %u'' ''LOAD_L: stack overflow'' (imm8 code pc 0) pc need v"

definition op_store_lw :: vm_op where
  "op_store_lw code pc need v =
     vm_store_local ''STORE_LW idx out of range: %u'' ''STORE_LW: stack underflow'' (unat (imm32 code pc 0)) pc need v"

definition op_load_lw :: vm_op where
  "op_load_lw code pc need v =
     vm_load_local ''LOAD_LW idx out of range: %u'' ''LOAD_LW: stack overflow'' (unat (imm32 code pc 0)) pc need v"

section \<open>The bump allocator of the byte arena\<close>

definition vm_set_regs :: "u32 \<Rightarrow> u32 \<Rightarrow> u32 \<Rightarrow> u32 \<Rightarrow> epa_vm \<Rightarrow> epa_vm" where
  "vm_set_regs a b c d v = v\<lparr>vm_csc := [a, b, c, d]\<rparr>"

definition op_l_reset :: vm_op where
  "op_l_reset code pc need v =
     Yield (vm_adv pc need (vm_set_regs 0 0 1 0 (v\<lparr>vm_ltop := 0, vm_depth := 0\<rparr>)))"

definition op_l_scope_enter :: vm_op where
  "op_l_scope_enter code pc need v =
     (if vm_depth v \<ge> 32 then Yield (vm_adv pc need (vm_set_regs 0 0 0 0 v))
      else or_undef (mark_put (unat (vm_depth v)) (vm_ltop v) v) (\<lambda>v1.
             Yield (vm_adv pc need (vm_set_regs (vm_ltop v1) 0 1 0 (v1\<lparr>vm_depth := vm_depth v1 + 1\<rparr>)))))"

definition op_l_scope_leave :: vm_op where
  "op_l_scope_leave code pc need v =
     (if vm_depth v = 0 then Yield (vm_adv pc need (vm_set_regs (vm_ltop v) 0 0 0 v))
      else
        let d = vm_depth v - 1 in
        or_undef (mark_at v (unat d)) (\<lambda>top. Yield (vm_adv pc need (vm_set_regs top 0 1 0 (v\<lparr>vm_depth := d, vm_ltop := top\<rparr>)))))"

definition op_l_alloc :: vm_op where
  "op_l_alloc code pc need v =
     (let sz = vm_r v 0 in
      if vm_lbytes v = None \<or> vm_lcap v = 0 then Yield (vm_adv pc need (vm_set_regs 0 0 0 0 v))
      else
        let aligned_top = (vm_ltop v + (4 - 1)) AND NOT (4 - 1) in
        if sz > vm_lcap v \<or> aligned_top > vm_lcap v - sz
        then Yield (vm_adv pc need (vm_set_regs 0 0 0 0 v))
        else Yield (vm_adv pc need (vm_set_regs aligned_top sz 1 0 (v\<lparr>vm_ltop := aligned_top + sz\<rparr>))))"

definition op_l_scope_alloc :: vm_op where
  "op_l_scope_alloc code pc need v =
     (let sz = vm_r v 0 in
      if vm_lbytes v = None \<or> vm_lcap v = 0 then Yield (vm_adv pc need (vm_set_regs 0 0 0 0 v))
      else
        let aligned_top = (vm_ltop v + (4 - 1)) AND NOT (4 - 1) in
        if sz > vm_lcap v \<or> aligned_top > vm_lcap v - sz
        then Yield (vm_adv pc need (vm_set_regs 0 0 0 0 v))
        else Yield (vm_adv pc need (vm_set_regs aligned_top sz 1 0 (v\<lparr>vm_ltop := aligned_top + sz\<rparr>))))"

section \<open>Call frames\<close>

definition "EPA_CALL_MAGIC0 = (0xC011CA11 :: u32)"
definition "EPA_CALL_MAGIC1 = (0xF00DF00D :: u32)"

fun stack_push_all :: "u32 list \<Rightarrow> epa_stack \<Rightarrow> epa_stack \<times> unit cres" where
  "stack_push_all [] st = (st, COk ())"
| "stack_push_all (x # xs) st =
     (case epa_stack_push st x of COk st' \<Rightarrow> stack_push_all xs st' | CFail \<Rightarrow> (st, CFail) | CUndef \<Rightarrow> (st, CUndef))"

definition epa_flow_push_ret_frame :: "epa_stack \<Rightarrow> epa_eip \<Rightarrow> u16 \<Rightarrow> epa_stack \<times> unit cres" where
  "epa_flow_push_ret_frame st ret argc =
     stack_push_all [EPA_CALL_MAGIC0, ucast (eip_type ret), eip_block ret, eip_pc ret, ucast argc,
                     EPA_CALL_MAGIC1] st"

fun stack_pop_n :: "nat \<Rightarrow> epa_stack \<Rightarrow> epa_stack \<times> u32 list cres" where
  "stack_pop_n 0 st = (st, COk [])"
| "stack_pop_n (Suc n) st =
     (case epa_stack_pop st of
        COk (x, st') \<Rightarrow> (case stack_pop_n n st' of (st'', COk xs) \<Rightarrow> (st'', COk (x # xs)) | (st'', CFail) \<Rightarrow> (st'', CFail) | (st'', CUndef) \<Rightarrow> (st'', CUndef))
      | CFail \<Rightarrow> (st, CFail) | CUndef \<Rightarrow> (st, CUndef))"

definition epa_flow_pop_ret_frame :: "epa_stack \<Rightarrow> epa_stack \<times> (string, epa_eip \<times> u16) res" where
  "epa_flow_pop_ret_frame st =
     (case stack_pop_n 6 st of
        (st', COk ws) \<Rightarrow>
          (if ws ! 5 \<noteq> EPA_CALL_MAGIC0 \<or> ws ! 0 \<noteq> EPA_CALL_MAGIC1
           then (st', Err ''call frame magic mismatch (corrupt stack)'')
           else (st', Ok (\<lparr>eip_type = ucast (ws ! 4), eip_block = ws ! 3, eip_pc = ws ! 2\<rparr>, ucast (ws ! 1))))
      | (st', CFail) \<Rightarrow> (st', Err ''stack underflow popping call frame'')
      | (st', CUndef) \<Rightarrow> (st', Ub))"

definition op_call :: "program \<Rightarrow> vm_op" where
  "op_call prog code pc need v =
     (case epa_prog_find_func prog (imm32 code pc 0) of
        None \<Rightarrow> Fault ''CALL: unknown func_id=%u'' v
      | Some (func_index, frame_words) \<Rightarrow>
          (case epa_flow_push_ret_frame (vm_stack v) ((vm_eip v)\<lparr>eip_pc := of_nat (pc + need)\<rparr>) frame_words of
             (st, COk _) \<Rightarrow> Yield (v\<lparr>vm_stack := st, vm_eip := \<lparr>eip_type = EPA_BLOCK_FUNC,
                                 eip_block = func_index, eip_pc = 0\<rparr>\<rparr>)
           | (st, CFail) \<Rightarrow> Fault ''stack overflow pushing call frame'' (v\<lparr>vm_stack := st\<rparr>)
           | (st, CUndef) \<Rightarrow> Undef))"

definition op_ret :: vm_op where
  "op_ret code pc need v =
     vm_pop ''RET: missing return value'' v (\<lambda>ret_value v1.
       case epa_flow_pop_ret_frame (vm_stack v1) of
         (st, Ok (ret, frame_words)) \<Rightarrow>
           vm_push ''RET: stack overflow restoring return value'' ret_value (v1\<lparr>vm_stack := st\<rparr>)
             (\<lambda>v2. Yield (v2\<lparr>vm_eip := ret\<rparr>))
       | (st, Err e) \<Rightarrow> Fault e (v1\<lparr>vm_stack := st\<rparr>)
       | (st, Ub) \<Rightarrow> Undef)"

definition op_load_const :: "program \<Rightarrow> vm_op" where
  "op_load_const prog code pc need v =
     (let (a, b, kind, flags) =
        (case prog_find_const prog (imm32 code pc 0) of
           None \<Rightarrow> (0, 0, 0, 0)
         | Some c \<Rightarrow> (ec_a c, ec_b c, ucast (ec_kind c), ucast (ec_flags c)))
      in Yield (vm_adv pc need (vm_set_regs a b kind flags v)))"

end
