(* ===== verification/Float32.thy ===== *)
theory Float32
  imports Prelude
begin

text \<open>
  IEEE-754 binary32 arithmetic on bit patterns, as the float instructions of
  \<open>src/epa_instruct_common.c\<close> use it through C's \<open>float\<close>: a finite value is a
  signed significand times a power of two, an operation computes exactly and rounds once to
  nearest, ties to even. The bit pattern of a NaN result is left open by C and IEEE 754; it is
  the parameter \<open>nan\<close>, a function of the operands.
\<close>

definition f32_sign :: "u32 \<Rightarrow> bool" where "f32_sign x = bit x 31"

definition f32_exp :: "u32 \<Rightarrow> nat" where "f32_exp x = unat (drop_bit 23 x AND 0xFF)"

definition f32_frac :: "u32 \<Rightarrow> nat" where "f32_frac x = unat (x AND 0x7FFFFF)"

definition f32_is_nan :: "u32 \<Rightarrow> bool" where
  "f32_is_nan x \<longleftrightarrow> f32_exp x = 255 \<and> f32_frac x \<noteq> 0"

definition f32_is_inf :: "u32 \<Rightarrow> bool" where
  "f32_is_inf x \<longleftrightarrow> f32_exp x = 255 \<and> f32_frac x = 0"

definition f32_is_zero :: "u32 \<Rightarrow> bool" where
  "f32_is_zero x \<longleftrightarrow> f32_exp x = 0 \<and> f32_frac x = 0"

text \<open>Significand and binary exponent of a finite pattern.\<close>

definition f32_sig :: "u32 \<Rightarrow> nat" where
  "f32_sig x = (if f32_exp x = 0 then f32_frac x else f32_frac x + 2 ^ 23)"

definition f32_q :: "u32 \<Rightarrow> int" where
  "f32_q x = (if f32_exp x = 0 then - 149 else int (f32_exp x) - 150)"

definition f32_pack :: "bool \<Rightarrow> nat \<Rightarrow> nat \<Rightarrow> u32" where
  "f32_pack s e m = of_nat ((if s then 2 ^ 31 else 0) + e * 2 ^ 23 + m)"

definition f32_zero :: "bool \<Rightarrow> u32" where "f32_zero s = f32_pack s 0 0"

definition f32_inf :: "bool \<Rightarrow> u32" where "f32_inf s = f32_pack s 255 0"

fun bit_len :: "nat \<Rightarrow> nat" where
  "bit_len n = (if n = 0 then 0 else Suc (bit_len (n div 2)))"

declare bit_len.simps [simp del]

text \<open>Division by a power of two, to nearest, ties to even.\<close>

definition rne_div :: "nat \<Rightarrow> nat \<Rightarrow> nat" where
  "rne_div n d = (let m = n div 2 ^ d; r = n mod 2 ^ d in
     if d = 0 then n
     else if 2 * r > 2 ^ d \<or> (2 * r = 2 ^ d \<and> odd m) then m + 1 else m)"

text \<open>The pattern nearest to \<open>n * 2 ^ q\<close>.\<close>

definition f32_round :: "bool \<Rightarrow> nat \<Rightarrow> int \<Rightarrow> u32" where
  "f32_round s n q =
     (if n = 0 then f32_zero s
      else
        let e0 = max (q + int (bit_len n) - 24) (- 149);
            m0 = (if e0 \<le> q then n * 2 ^ nat (q - e0) else rne_div n (nat (e0 - q)));
            (m, e) = (if m0 = 2 ^ 24 then (2 ^ 23, e0 + 1) else (m0, e0))
        in if m < 2 ^ 23 then f32_pack s 0 m
           else if e + 150 \<ge> 255 then f32_inf s
           else f32_pack s (nat (e + 150)) (m - 2 ^ 23))"

text \<open>An exact sum as an integer times a power of two.\<close>

definition f32_int :: "u32 \<Rightarrow> int" where
  "f32_int x = (if f32_sign x then - int (f32_sig x) else int (f32_sig x))"

definition f32_neg :: "u32 \<Rightarrow> u32" where
  "f32_neg x = x XOR 0x80000000"

definition f32_add :: "(u32 \<Rightarrow> u32 \<Rightarrow> u32) \<Rightarrow> u32 \<Rightarrow> u32 \<Rightarrow> u32" where
  "f32_add nan a b =
     (if f32_is_nan a \<or> f32_is_nan b then nan a b
      else if f32_is_inf a then
        (if f32_is_inf b \<and> f32_sign a \<noteq> f32_sign b then nan a b else a)
      else if f32_is_inf b then b
      else
        let q = min (f32_q a) (f32_q b);
            i = f32_int a * 2 ^ nat (f32_q a - q) + f32_int b * 2 ^ nat (f32_q b - q)
        in if i = 0 then f32_zero (f32_sign a \<and> f32_sign b)
           else f32_round (i < 0) (nat \<bar>i\<bar>) q)"

text \<open>Subtraction flips the sign of its second operand; a NaN operand is passed as it is.\<close>

definition f32_sub :: "(u32 \<Rightarrow> u32 \<Rightarrow> u32) \<Rightarrow> u32 \<Rightarrow> u32 \<Rightarrow> u32" where
  "f32_sub nan a b = f32_add (\<lambda>x y. nan a b) a (f32_neg b)"

definition f32_mul :: "(u32 \<Rightarrow> u32 \<Rightarrow> u32) \<Rightarrow> u32 \<Rightarrow> u32 \<Rightarrow> u32" where
  "f32_mul nan a b =
     (let s = (f32_sign a \<noteq> f32_sign b) in
      if f32_is_nan a \<or> f32_is_nan b then nan a b
      else if f32_is_inf a \<or> f32_is_inf b then
        (if f32_is_zero a \<or> f32_is_zero b then nan a b else f32_inf s)
      else f32_round s (f32_sig a * f32_sig b) (f32_q a + f32_q b))"

text \<open>The quotient keeps 64 extra bits and a sticky bit, which decide every rounding.\<close>

definition f32_div :: "(u32 \<Rightarrow> u32 \<Rightarrow> u32) \<Rightarrow> u32 \<Rightarrow> u32 \<Rightarrow> u32" where
  "f32_div nan a b =
     (let s = (f32_sign a \<noteq> f32_sign b) in
      if f32_is_nan a \<or> f32_is_nan b then nan a b
      else if f32_is_inf a then (if f32_is_inf b then nan a b else f32_inf s)
      else if f32_is_inf b then f32_zero s
      else if f32_is_zero b then (if f32_is_zero a then nan a b else f32_inf s)
      else
        let n = f32_sig a * 2 ^ 64;
            d = f32_sig b
        in f32_round s (2 * (n div d) + (if n mod d = 0 then 0 else 1)) (f32_q a - f32_q b - 65))"

fun isqrt_bits :: "nat \<Rightarrow> nat \<Rightarrow> nat \<Rightarrow> nat" where
  "isqrt_bits 0 n acc = acc"
| "isqrt_bits (Suc k) n acc =
     (let acc' = acc + 2 ^ k in isqrt_bits k n (if acc' * acc' \<le> n then acc' else acc))"

definition f32_sqrt :: "(u32 \<Rightarrow> u32) \<Rightarrow> u32 \<Rightarrow> u32" where
  "f32_sqrt nan a =
     (if f32_is_nan a then nan a
      else if f32_is_zero a then a
      else if f32_sign a then nan a
      else if f32_is_inf a then a
      else
        let k = (if even (f32_q a) then 64 else 65);
            n = f32_sig a * 2 ^ k;
            s = isqrt_bits 48 n 0
        in f32_round False (2 * s + (if s * s = n then 0 else 1)) ((f32_q a - int k) div 2 - 1))"

text \<open>Comparisons: false with a NaN; both zeros are equal.\<close>

definition f32_key :: "u32 \<Rightarrow> int" where
  "f32_key x = (let m = int (unat (x AND 0x7FFFFFFF)) in if f32_sign x then - m else m)"

definition f32_lt :: "u32 \<Rightarrow> u32 \<Rightarrow> bool" where
  "f32_lt a b \<longleftrightarrow> \<not> f32_is_nan a \<and> \<not> f32_is_nan b \<and> f32_key a < f32_key b"

definition f32_le :: "u32 \<Rightarrow> u32 \<Rightarrow> bool" where
  "f32_le a b \<longleftrightarrow> \<not> f32_is_nan a \<and> \<not> f32_is_nan b \<and> f32_key a \<le> f32_key b"

definition f32_eq :: "u32 \<Rightarrow> u32 \<Rightarrow> bool" where
  "f32_eq a b \<longleftrightarrow> \<not> f32_is_nan a \<and> \<not> f32_is_nan b \<and> f32_key a = f32_key b"

text \<open>Conversions. The value truncated toward zero; converting a value outside the integer
  type's range is undefined in C.\<close>

definition f32_of_int :: "int \<Rightarrow> u32" where
  "f32_of_int i = f32_round (i < 0) (nat \<bar>i\<bar>) 0"

definition f32_trunc :: "u32 \<Rightarrow> int" where
  "f32_trunc x =
     (let m = (if f32_q x \<ge> 0 then f32_sig x * 2 ^ nat (f32_q x) else f32_sig x div 2 ^ nat (- f32_q x))
      in if f32_sign x then - int m else int m)"

definition f32_to_i32 :: "u32 \<Rightarrow> u32 option" where
  "f32_to_i32 x =
     (if f32_exp x = 255 then None
      else if - (2 ^ 31) \<le> f32_trunc x \<and> f32_trunc x < 2 ^ 31 then Some (word_of_int (f32_trunc x)) else None)"

definition f32_to_u32 :: "u32 \<Rightarrow> u32 option" where
  "f32_to_u32 x =
     (if f32_exp x = 255 then None
      else if 0 \<le> f32_trunc x \<and> f32_trunc x < 2 ^ 32 then Some (word_of_int (f32_trunc x)) else None)"

section \<open>Exactness of small integers\<close>

lemma bit_len_bounds: "0 < n \<Longrightarrow> 2 ^ (bit_len n - 1) \<le> n \<and> n < 2 ^ bit_len n \<and> 0 < bit_len n"
proof (induction n rule: bit_len.induct)
  case (1 n)
  show ?case
  proof (cases "n div 2 = 0")
    case True
    then have "n = 1" using 1(2) by (simp add: div_eq_0_iff)
    then show ?thesis by (simp add: bit_len.simps)
  next
    case False
    then have IH: "2 ^ (bit_len (n div 2) - 1) \<le> n div 2" "n div 2 < 2 ^ bit_len (n div 2)" "0 < bit_len (n div 2)"
      using 1 by auto
    have b: "bit_len n = Suc (bit_len (n div 2))" using 1(2) by (subst bit_len.simps) simp
    have "(2::nat) ^ bit_len (n div 2) = 2 * 2 ^ (bit_len (n div 2) - 1)"
      using IH(3) by (cases "bit_len (n div 2)") auto
    then have "2 ^ bit_len (n div 2) \<le> n" using IH(1) by linarith
    moreover have "n < 2 * 2 ^ bit_len (n div 2)" using IH(2) by linarith
    ultimately show ?thesis by (simp add: b)
  qed
qed

lemma bit_len_le: "0 < n \<Longrightarrow> n < 2 ^ k \<Longrightarrow> bit_len n \<le> k"
proof (rule ccontr)
  assume a: "0 < n" "n < 2 ^ k" "\<not> bit_len n \<le> k"
  then have "(2 :: nat) ^ k \<le> 2 ^ (bit_len n - 1)" by (intro power_increasing) auto
  with a bit_len_bounds [of n] show False by linarith
qed

lemma pack_fields:
  assumes "e < 256" and "m < 2 ^ 23"
  shows "f32_exp (f32_pack s e m) = e" and "f32_frac (f32_pack s e m) = m" and "f32_sign (f32_pack s e m) = s"
proof -
  let ?n = "(if s then 2 ^ 31 else 0) + e * 2 ^ 23 + m :: nat"
  have lt: "?n < 4294967296" using assms by auto
  have "unat (f32_pack s e m) = ?n mod 2 ^ LENGTH(32)" unfolding f32_pack_def by (rule unat_of_nat)
  then have u: "unat (f32_pack s e m) = ?n" using lt by simp
  have m23: "(0x7FFFFF :: u32) = mask 23" and m8: "(0xFF :: u32) = mask 8"
    by (simp_all add: mask_eq_exp_minus_1)
  have "f32_frac (f32_pack s e m) = take_bit 23 (unat (f32_pack s e m))"
    unfolding f32_frac_def m23 take_bit_eq_mask [symmetric] by (rule unsigned_take_bit_eq)
  moreover have "?n mod 2 ^ 23 = m"
  proof -
    have "?n = m + ((if s then 256 else 0) + e) * 2 ^ 23" by simp
    then show ?thesis using assms(2) by (metis mod_less mod_mult_self1)
  qed
  ultimately show "f32_frac (f32_pack s e m) = m" unfolding u by (simp only: take_bit_eq_mod)
  have d: "?n div 2 ^ 23 = (if s then 256 else 0) + e"
  proof -
    have "?n = m + ((if s then 256 else 0) + e) * 2 ^ 23" by simp
    then show ?thesis using assms(2) by (metis add.right_neutral add.commute div_less div_mult_self1 zero_neq_numeral power_not_zero)
  qed
  have "f32_exp (f32_pack s e m) = take_bit 8 (unat (drop_bit 23 (f32_pack s e m)))"
    unfolding f32_exp_def m8 take_bit_eq_mask [symmetric] by (rule unsigned_take_bit_eq)
  also have "unat (drop_bit 23 (f32_pack s e m)) = ?n div 2 ^ 23"
  proof -
    have "unat (drop_bit 23 (f32_pack s e m)) = unat (f32_pack s e m) div unat ((2 :: u32) ^ 23)"
      by (simp add: drop_bit_eq_div unat_div)
    then show ?thesis unfolding u by simp
  qed
  finally show "f32_exp (f32_pack s e m) = e" using assms(1) unfolding d by (simp add: take_bit_eq_mod)
  have "bit (unat (f32_pack s e m)) 31 = odd (?n div 2 ^ 31)" by (simp only: bit_iff_odd u)
  moreover have "?n div 2 ^ 31 = (if s then 1 else 0)" using assms by auto
  ultimately show "f32_sign (f32_pack s e m) = s" by (simp add: f32_sign_def bit_unsigned_iff)
qed

lemma f32_round_fields:
  assumes "0 < n" and "n < 2 ^ 24"
  shows "f32_exp (f32_round s n 0) \<noteq> 255" and "f32_sign (f32_round s n 0) = s"
    and "\<exists>k. f32_sig (f32_round s n 0) = n * 2 ^ k \<and> f32_q (f32_round s n 0) = - int k"
proof -
  let ?L = "bit_len n" and ?k = "24 - bit_len n"
  have L: "0 < ?L" "?L \<le> 24" "2 ^ (?L - 1) \<le> n" "n < 2 ^ ?L"
    using bit_len_bounds [OF assms(1)] bit_len_le [OF assms] by auto
  let ?m = "n * 2 ^ ?k"
  have e0: "max (0 + int ?L - 24) (- 149) = - int ?k" using L by auto
  have "(2 :: nat) ^ (?L - 1) * 2 ^ ?k = 2 ^ 23" "(2 :: nat) ^ ?L * 2 ^ ?k = 2 ^ 24"
    using L by (simp_all add: power_add [symmetric])
  then have m: "2 ^ 23 \<le> ?m" "?m < 2 ^ 24"
    using mult_le_mono1 [OF L(3), of "2 ^ ?k"] mult_less_mono1 [OF L(4), of "2 ^ ?k"] by simp_all
  have nL: "nat (126 + int ?L) = 126 + ?L" by simp
  have r: "f32_round s n 0 = f32_pack s (150 - ?k) (?m - 2 ^ 23)"
    using assms(1) m L e0 by (simp add: f32_round_def Let_def nat_diff_distrib nL)
  have p: "150 - ?k < 256" "?m - 2 ^ 23 < 2 ^ 23" "150 - ?k \<noteq> 0" using m L by auto
  note f = pack_fields [OF p(1,2), of s, folded r]
  show "f32_exp (f32_round s n 0) \<noteq> 255"
    using f(1) L by auto
  show "f32_sign (f32_round s n 0) = s" by (rule f(3))
  show "\<exists>k. f32_sig (f32_round s n 0) = n * 2 ^ k \<and> f32_q (f32_round s n 0) = - int k"
    using f p(3) m L by (intro exI [of _ ?k]) (auto simp: f32_sig_def f32_q_def)
qed

lemma f32_round_exact:
  assumes "0 < n" and "n < 2 ^ 24"
  shows "f32_exp (f32_round s n 0) \<noteq> 255"
    and "f32_trunc (f32_round s n 0) = (if s then - int n else int n)"
  using f32_round_fields [OF assms, of s] by (auto simp: f32_trunc_def)

lemma f32_of_int_exact:
  assumes "\<bar>i\<bar> < 2 ^ 24"
  shows "f32_to_i32 (f32_of_int i) = Some (word_of_int i)"
proof (cases "i = 0")
  case True
  then show ?thesis
    by (simp add: f32_of_int_def f32_round_def f32_zero_def f32_pack_def f32_to_i32_def f32_exp_def
        f32_trunc_def f32_q_def f32_sig_def f32_frac_def)
next
  case False
  then have n: "0 < nat \<bar>i\<bar>" "nat \<bar>i\<bar> < 2 ^ 24" using assms by auto
  from f32_round_exact [OF n, of "i < 0"] assms show ?thesis
    by (auto simp: f32_of_int_def f32_to_i32_def)
qed

section \<open>Exact arithmetic on integers\<close>


text \<open>Exact arithmetic on integers: \<open>f32_rep x i k\<close> says that the finite pattern
  \<open>x\<close> stands for the integer \<open>i\<close> with \<open>k\<close> fraction bits.\<close>

definition f32_rep :: "u32 \<Rightarrow> int \<Rightarrow> nat \<Rightarrow> bool" where
  "f32_rep x i k \<longleftrightarrow> f32_exp x \<noteq> 255 \<and> f32_int x = i * 2 ^ k \<and> f32_q x = - int k"

lemma bit_len_unique:
  assumes "2 ^ (l - 1) \<le> n" and "n < 2 ^ l" and "0 < l"
  shows "bit_len n = l"
proof -
  have n: "0 < n" using assms(1) by (rule order_less_le_trans [rotated]) simp
  note b = bit_len_bounds [OF n]
  have "(2 :: nat) ^ (bit_len n - 1) < 2 ^ l" "(2 :: nat) ^ (l - 1) < 2 ^ bit_len n"
    using b assms by linarith+
  then show ?thesis using b assms(3) by simp
qed

lemma bit_len_shift: "0 < n \<Longrightarrow> bit_len (n * 2 ^ k) = bit_len n + k"
proof (rule bit_len_unique)
  assume "0 < n"
  note b = bit_len_bounds [OF this]
  have "bit_len n + k - 1 = (bit_len n - 1) + k" using b by simp
  then have "(2 :: nat) ^ (bit_len n + k - 1) = 2 ^ (bit_len n - 1) * 2 ^ k" by (simp only: power_add)
  then show "2 ^ (bit_len n + k - 1) \<le> n * 2 ^ k" using b mult_le_mono1 by metis
  show "n * 2 ^ k < 2 ^ (bit_len n + k)" using b by (simp add: power_add)
qed (use bit_len_bounds in auto)

lemma rne_div_exact: "rne_div (m * 2 ^ d) d = m"
  by (simp add: rne_div_def Let_def)

lemma f32_round_scale:
  assumes "0 < n" and "n < 2 ^ 24"
  shows "f32_round s (n * 2 ^ k) (- int k) = f32_round s n 0"
proof -
  have L: "bit_len n \<le> 24" "0 < bit_len n" using bit_len_le [OF assms] bit_len_bounds [OF assms(1)] by auto
  have bl: "bit_len (n * 2 ^ k) = bit_len n + k" by (rule bit_len_shift [OF assms(1)])
  define e where "e = int (bit_len n) - 24"
  have e: "max (- int k + int (bit_len (n * 2 ^ k)) - 24) (- 149) = e" "max (0 + int (bit_len n) - 24) (- 149) = e"
    using L by (auto simp: bl e_def)
  have e0: "e \<le> 0" using L by (simp add: e_def)
  have m: "(if e \<le> - int k then n * 2 ^ k * 2 ^ nat (- int k - e) else rne_div (n * 2 ^ k) (nat (e - - int k)))
      = n * 2 ^ nat (0 - e)"
  proof (cases "e \<le> - int k")
    case True
    then have "nat (0 - e) = k + nat (- int k - e)" by simp
    then show ?thesis using True by (simp add: power_add)
  next
    case False
    then have "k = nat (0 - e) + nat (e - - int k)" using e0 by simp
    then have "n * 2 ^ k = (n * 2 ^ nat (0 - e)) * 2 ^ nat (e - - int k)" by (metis mult.assoc power_add)
    then show ?thesis using False rne_div_exact by metis
  qed
  have "n * 2 ^ k \<noteq> 0" "n \<noteq> 0" using assms(1) by auto
  then show ?thesis unfolding f32_round_def Let_def e m using e0 by simp
qed

lemma f32_round_int:
  assumes "\<bar>i\<bar> < 2 ^ 24" and "nat \<bar>j\<bar> = nat \<bar>i\<bar> * 2 ^ k" and "i \<noteq> 0 \<Longrightarrow> s \<longleftrightarrow> i < 0"
  shows "f32_to_i32 (f32_round s (nat \<bar>j\<bar>) (- int k)) = Some (word_of_int i)"
proof (cases "i = 0")
  case True
  then show ?thesis using assms(2) pack_fields [of 0 0 s]
    by (auto simp: f32_round_def f32_zero_def f32_to_i32_def f32_trunc_def f32_q_def f32_sig_def)
next
  case False
  then have n: "0 < nat \<bar>i\<bar>" "nat \<bar>i\<bar> < 2 ^ 24" using assms(1) by auto
  show ?thesis unfolding assms(2) f32_round_scale [OF n] assms(3) [OF False]
    using f32_of_int_exact [OF assms(1)] by (simp add: f32_of_int_def)
qed

lemma f32_rep_of_int:
  assumes "\<bar>i\<bar> < 2 ^ 24"
  shows "\<exists>k. f32_rep (f32_of_int i) i k"
proof (cases "i = 0")
  case True
  then show ?thesis using pack_fields [of 0 0 False]
    by (auto simp: f32_rep_def f32_of_int_def f32_round_def f32_zero_def f32_int_def f32_sig_def f32_q_def)
next
  case False
  then have n: "0 < nat \<bar>i\<bar>" "nat \<bar>i\<bar> < 2 ^ 24" using assms by auto
  from f32_round_fields [OF n, of "i < 0"] False show ?thesis
    by (auto simp: f32_rep_def f32_of_int_def f32_int_def)
qed

lemma f32_rep_finite: "f32_rep x i k \<Longrightarrow> \<not> f32_is_nan x \<and> \<not> f32_is_inf x"
  by (simp add: f32_rep_def f32_is_nan_def f32_is_inf_def)

lemma f32_neg_fields:
  "f32_exp (f32_neg x) = f32_exp x" "f32_frac (f32_neg x) = f32_frac x" "f32_sign (f32_neg x) \<longleftrightarrow> \<not> f32_sign x"
proof -
  have m: "(0x80000000 :: u32) = push_bit 31 1" "(0xFF :: u32) = mask 8" "(0x7FFFFF :: u32) = mask 23"
    by (simp_all add: mask_eq_exp_minus_1)
  have c: "bit (0x80000000 :: u32) n \<longleftrightarrow> n = 31" for n
    unfolding m(1) bit_push_bit_iff bit_1_iff by auto
  have nb: "bit (f32_neg x) n \<longleftrightarrow> bit x n \<noteq> (n = 31)" for n
    by (simp only: f32_neg_def bit_xor_iff c)
  have "drop_bit 23 (f32_neg x) AND mask 8 = drop_bit 23 x AND mask 8"
    by (rule bit_word_eqI) (auto simp: bit_and_iff bit_drop_bit_eq nb bit_mask_iff)
  then show "f32_exp (f32_neg x) = f32_exp x" unfolding f32_exp_def m by simp
  have "f32_neg x AND mask 23 = x AND mask 23"
    by (rule bit_word_eqI) (auto simp: bit_and_iff nb bit_mask_iff)
  then show "f32_frac (f32_neg x) = f32_frac x" unfolding f32_frac_def m by simp
  show "f32_sign (f32_neg x) \<longleftrightarrow> \<not> f32_sign x" unfolding f32_sign_def nb by simp
qed

lemma f32_rep_neg: "f32_rep x i k \<Longrightarrow> f32_rep (f32_neg x) (- i) k"
  using f32_neg_fields [of x] by (auto simp: f32_rep_def f32_int_def f32_sig_def f32_q_def split: if_splits)

lemma f32_add_int:
  assumes "f32_rep a i ka" and "f32_rep b j kb" and "\<bar>i + j\<bar> < 2 ^ 24"
  shows "f32_to_i32 (f32_add nan a b) = Some (word_of_int (i + j))"
proof -
  let ?K = "max ka kb"
  have q: "f32_q a = - int ka" "f32_q b = - int kb" "f32_int a = i * 2 ^ ka" "f32_int b = j * 2 ^ kb"
    using assms(1,2) by (simp_all add: f32_rep_def)
  have m: "min (f32_q a) (f32_q b) = - int ?K" by (simp add: q)
  have na: "nat (f32_q a - - int ?K) = ?K - ka" "nat (f32_q b - - int ?K) = ?K - kb" by (simp_all add: q)
  have p: "(2 :: int) ^ ka * 2 ^ (?K - ka) = 2 ^ ?K" "(2 :: int) ^ kb * 2 ^ (?K - kb) = 2 ^ ?K"
    by (simp_all add: power_add [symmetric])
  have sum: "f32_int a * 2 ^ (?K - ka) + f32_int b * 2 ^ (?K - kb) = (i + j) * 2 ^ ?K"
    unfolding q distrib_right mult.assoc p ..
  show ?thesis
  proof (cases "i + j = 0")
    case True
    then have "f32_add nan a b = f32_zero (f32_sign a \<and> f32_sign b)"
      using f32_rep_finite [OF assms(1)] f32_rep_finite [OF assms(2)]
      unfolding f32_add_def m Let_def na sum by simp
    then show ?thesis using True pack_fields [of 0 0 "f32_sign a \<and> f32_sign b"]
      by (simp add: f32_zero_def f32_to_i32_def f32_trunc_def f32_q_def f32_sig_def)
  next
    case False
    let ?t = "(i + j) * 2 ^ ?K"
    have "f32_add nan a b = f32_round (?t < 0) (nat \<bar>?t\<bar>) (- int ?K)"
      using False f32_rep_finite [OF assms(1)] f32_rep_finite [OF assms(2)]
      unfolding f32_add_def m Let_def na sum by simp
    moreover have "nat \<bar>?t\<bar> = nat \<bar>i + j\<bar> * 2 ^ ?K" by (simp add: abs_mult nat_mult_distrib nat_power_eq)
    moreover have "?t < 0 \<longleftrightarrow> i + j < 0" by (simp add: mult_less_0_iff)
    ultimately show ?thesis using f32_round_int [OF assms(3), of ?t ?K] by simp
  qed
qed

lemma f32_mul_int:
  assumes "f32_rep a i ka" and "f32_rep b j kb" and "\<bar>i * j\<bar> < 2 ^ 24"
  shows "f32_to_i32 (f32_mul nan a b) = Some (word_of_int (i * j))"
proof -
  have q: "f32_q a = - int ka" "f32_q b = - int kb" "f32_int a = i * 2 ^ ka" "f32_int b = j * 2 ^ kb"
    using assms(1,2) by (simp_all add: f32_rep_def)
  have sg: "int (f32_sig x) = \<bar>f32_int x\<bar>" "f32_int x \<noteq> 0 \<Longrightarrow> f32_sign x \<longleftrightarrow> f32_int x < 0" for x
    by (auto simp: f32_int_def)
  have t: "int (f32_sig a * f32_sig b) = \<bar>i * j\<bar> * 2 ^ (ka + kb)"
    by (simp add: sg q abs_mult power_add)
  have r: "f32_mul nan a b = f32_round (f32_sign a \<noteq> f32_sign b) (f32_sig a * f32_sig b) (- int (ka + kb))"
    using f32_rep_finite [OF assms(1)] f32_rep_finite [OF assms(2)] by (simp add: f32_mul_def q)
  have s: "(f32_sign a \<noteq> f32_sign b) \<longleftrightarrow> i * j < 0" if "i * j \<noteq> 0"
  proof -
    have "f32_sign a \<longleftrightarrow> i < 0" "f32_sign b \<longleftrightarrow> j < 0"
      using that sg(2) [of a] sg(2) [of b] by (auto simp: q mult_less_0_iff)
    then show ?thesis using that by (auto simp: mult_less_0_iff)
  qed
  have "f32_sig a * f32_sig b = nat \<bar>i * j\<bar> * 2 ^ (ka + kb)"
    using t by (metis nat_int nat_mult_distrib abs_ge_zero nat_power_eq zero_le_numeral nat_numeral)
  moreover have "f32_sig a * f32_sig b = nat \<bar>int (f32_sig a * f32_sig b)\<bar>" by (metis abs_of_nat nat_int)
  ultimately show ?thesis unfolding r
    using f32_round_int [OF assms(3), of "int (f32_sig a * f32_sig b)" "ka + kb" "f32_sign a \<noteq> f32_sign b"] s
    by (simp only: not_False_eq_True)
qed

end
