(* ===== verification/FlowF32.thy ===== *)
theory FlowF32
  imports FlowVm Float32
begin

text \<open>
  The float instructions of \<open>epa_flow_step\<close>, and the table of all instructions that touch
  only the virtual machine. \<open>nan_choice\<close> says which NaN pattern each operation returns.
\<close>

record nan_choice =
  nan_add :: "u32 \<Rightarrow> u32 \<Rightarrow> u32"
  nan_sub :: "u32 \<Rightarrow> u32 \<Rightarrow> u32"
  nan_mul :: "u32 \<Rightarrow> u32 \<Rightarrow> u32"
  nan_div :: "u32 \<Rightarrow> u32 \<Rightarrow> u32"
  nan_sqrt :: "u32 \<Rightarrow> u32"

definition op_add_f32 :: "nan_choice \<Rightarrow> vm_op" where
  "op_add_f32 nc = vm_binop ''ADD_F32'' (\<lambda>a b. Some (f32_add (nan_add nc) a b))"

definition op_sub_f32 :: "nan_choice \<Rightarrow> vm_op" where
  "op_sub_f32 nc = vm_binop ''SUB_F32'' (\<lambda>a b. Some (f32_sub (nan_sub nc) a b))"

definition op_mul_f32 :: "nan_choice \<Rightarrow> vm_op" where
  "op_mul_f32 nc = vm_binop ''MUL_F32'' (\<lambda>a b. Some (f32_mul (nan_mul nc) a b))"

definition op_div_f32 :: "nan_choice \<Rightarrow> vm_op" where
  "op_div_f32 nc = vm_binop ''DIV_F32'' (\<lambda>a b. Some (f32_div (nan_div nc) a b))"

definition op_neg_f32 :: vm_op where
  "op_neg_f32 = vm_unop ''NEG_F32'' (\<lambda>a. Some (f32_neg a))"

definition op_sqrt_f32 :: "nan_choice \<Rightarrow> vm_op" where
  "op_sqrt_f32 nc = vm_unop ''SQRT_F32'' (\<lambda>a. Some (f32_sqrt (nan_sqrt nc) a))"

definition op_lt_f32 :: vm_op where
  "op_lt_f32 = vm_binop ''LT_F32'' (\<lambda>a b. Some (bool_word (f32_lt a b)))"

definition op_le_f32 :: vm_op where
  "op_le_f32 = vm_binop ''LE_F32'' (\<lambda>a b. Some (bool_word (f32_le a b)))"

definition op_gt_f32 :: vm_op where
  "op_gt_f32 = vm_binop ''GT_F32'' (\<lambda>a b. Some (bool_word (f32_lt b a)))"

definition op_ge_f32 :: vm_op where
  "op_ge_f32 = vm_binop ''GE_F32'' (\<lambda>a b. Some (bool_word (f32_le b a)))"

definition op_eq_f32 :: vm_op where
  "op_eq_f32 = vm_binop ''EQ_F32'' (\<lambda>a b. Some (bool_word (f32_eq a b)))"

definition op_ne_f32 :: vm_op where
  "op_ne_f32 = vm_binop ''NE_F32'' (\<lambda>a b. Some (bool_word (\<not> f32_eq a b)))"

definition op_i32_to_f32 :: vm_op where
  "op_i32_to_f32 = vm_unop ''I32_TO_F32'' (\<lambda>a. Some (f32_of_int (sint a)))"

definition op_f32_to_i32 :: vm_op where
  "op_f32_to_i32 = vm_unop ''F32_TO_I32'' f32_to_i32"

definition op_u32_to_f32 :: vm_op where
  "op_u32_to_f32 = vm_unop ''U32_TO_F32'' (\<lambda>a. Some (f32_of_int (uint a)))"

definition op_f32_to_u32 :: vm_op where
  "op_f32_to_u32 = vm_unop ''F32_TO_U32'' f32_to_u32"

section \<open>The table\<close>

definition vm_table :: "nan_choice \<Rightarrow> program \<Rightarrow> (nat \<times> vm_op) list" where
  "vm_table nc prog =
     [(0, op_noop), (4, op_jmp), (5, op_jz), (6, op_jnz), (7, op_jlz), (8, op_jgz), (9, op_yield),
      (22, op_and_i32), (23, op_or_i32), (25, op_xor_i32),
      (30, op_push_i32), (31, op_push_r), (32, op_pop_r), (33, op_add_i32), (34, op_sub_i32),
      (35, op_mul_i32), (36, op_lt_i32), (37, op_eq_i32), (38, op_ne_i32), (39, op_le_i32),
      (40, op_gt_i32), (41, op_ge_i32), (42, op_div_i32), (43, op_store_l), (44, op_load_l),
      (45, op_store_lw), (46, op_load_lw), (47, op_cmp), (48, op_cmpz), (49, op_mv), (50, op_set_r),
      (51, op_inc), (52, op_dec), (53, op_rlb_mov1), (54, op_lbr_mov1), (55, op_rlb_mov4),
      (56, op_lbr_mov4), (58, op_load_const prog), (61, op_call prog), (62, op_ret),
      (102, op_not_i32), (103, op_l_alloc), (104, op_l_reset), (105, op_l_scope_enter),
      (106, op_l_scope_leave), (107, op_l_scope_alloc), (108, op_rol_byte), (109, op_ror_byte),
      (111, op_push_f32), (112, op_add_f32 nc), (113, op_sub_f32 nc), (114, op_mul_f32 nc),
      (115, op_div_f32 nc), (116, op_neg_f32), (117, op_sqrt_f32 nc), (118, op_lt_f32), (119, op_le_f32),
      (120, op_gt_f32), (121, op_ge_f32), (122, op_eq_f32), (123, op_ne_f32), (124, op_i32_to_f32),
      (125, op_f32_to_i32), (126, op_u32_to_f32), (127, op_f32_to_u32)]"

section \<open>Every instruction keeps the machine well formed\<close>

lemma vm_adv_wf [wf_intros]: "vm_wf v \<Longrightarrow> vm_wf (vm_adv pc need v)"
  by (simp add: vm_adv_def vm_set_pc_wf)

lemma vm_wf_frame [simp]:
  "vm_arena (v\<lparr>vm_stack := st\<rparr>) = vm_arena v" "vm_arena (v\<lparr>vm_eip := e\<rparr>) = vm_arena v"
  "vm_arena (v\<lparr>vm_locals := ls\<rparr>) = vm_arena v" "vm_arena (v\<lparr>vm_csc := cs\<rparr>) = vm_arena v"
  "vm_arena (v\<lparr>vm_ltop := t\<rparr>) = vm_arena v" "vm_arena (v\<lparr>vm_depth := d\<rparr>) = vm_arena v"
  "vm_arena (v\<lparr>vm_marks := ms\<rparr>) = vm_arena v" "vm_arena (vm_set_r i x v) = vm_arena v"
  "vm_arena (vm_set_pc p v) = vm_arena v"
  by (simp_all add: vm_arena_def vm_set_r_def vm_set_pc_def)

lemma vm_wf_stack [wf_intros]: "vm_wf v \<Longrightarrow> stack_wf st \<Longrightarrow> vm_wf (v\<lparr>vm_stack := st\<rparr>)"
  by (simp add: vm_wf_def)

lemma vm_wf_eip [wf_intros]: "vm_wf v \<Longrightarrow> vm_wf (v\<lparr>vm_eip := e\<rparr>)"
  by (simp add: vm_wf_def)

lemma vm_wf_local [wf_intros]: "vm_wf v \<Longrightarrow> vm_wf (v\<lparr>vm_locals := (vm_locals v)[i := x]\<rparr>)"
  by (simp add: vm_wf_def)

lemma vm_set_regs_wf [wf_intros]: "vm_wf v \<Longrightarrow> vm_wf (vm_set_regs a b c d v)"
  by (simp add: vm_wf_def vm_set_regs_def)

lemma vm_wf_stackD: "vm_wf v \<Longrightarrow> stack_wf (vm_stack v)"
  by (simp add: vm_wf_def)

lemma vm_push_wf [wf_intros]:
  "vm_wf v \<Longrightarrow> (\<And>v'. vm_wf v' \<Longrightarrow> pred_hres vm_wf (k v')) \<Longrightarrow> pred_hres vm_wf (vm_push msg x v k)"
  unfolding vm_push_def by (rule pred_chk) (auto intro: vm_wf_stack push_wf dest: vm_wf_stackD)

lemma vm_pop_wf [wf_intros]:
  assumes "vm_wf v" and "\<And>x v'. vm_wf v' \<Longrightarrow> pred_hres vm_wf (k x v')"
  shows "pred_hres vm_wf (vm_pop msg v k)"
proof (cases "epa_stack_pop (vm_stack v)")
  case (COk a)
  obtain x st where a: "a = (x, st)" by (cases a)
  have "vm_wf (v\<lparr>vm_stack := st\<rparr>)"
    using pop_wf [OF vm_wf_stackD [OF assms(1)]] COk a by (intro vm_wf_stack assms(1)) blast
  with assms(2) COk a show ?thesis by (simp add: vm_pop_def)
qed (use assms(1) in \<open>simp_all add: vm_pop_def\<close>)

lemma vm_pop2_wf [wf_intros]:
  "vm_wf v \<Longrightarrow> (\<And>x y v'. vm_wf v' \<Longrightarrow> pred_hres vm_wf (k x y v')) \<Longrightarrow> pred_hres vm_wf (vm_pop2 msg v k)"
  unfolding vm_pop2_def by (intro vm_pop_wf)

lemma or_undef_pred [wf_intros]: "(\<And>a. x = Some a \<Longrightarrow> pred_hres P (k a)) \<Longrightarrow> pred_hres P (or_undef x k)"
  by (cases x) (simp_all add: or_undef_def)

lemma pred_Yield [wf_intros]: "P s \<Longrightarrow> pred_hres P (Yield s)" by simp

lemma pred_Fault [wf_intros]: "P s \<Longrightarrow> pred_hres P (Fault m s)" by simp

lemma pred_Undef [wf_intros]: "pred_hres P Undef" by simp

lemma pred_if [wf_intros]:
  "(b \<Longrightarrow> pred_hres P x) \<Longrightarrow> (\<not> b \<Longrightarrow> pred_hres P y) \<Longrightarrow> pred_hres P (if b then x else y)"
  by simp

lemma vm_binop_wf [wf_intros]: "vm_wf v \<Longrightarrow> pred_hres vm_wf (vm_binop name f code pc need v)"
  unfolding vm_binop_def by (intro wf_intros)

lemma vm_unop_wf [wf_intros]: "vm_wf v \<Longrightarrow> pred_hres vm_wf (vm_unop name f code pc need v)"
  unfolding vm_unop_def by (intro wf_intros)

lemma jump_checked_wf [wf_intros]: "vm_wf v \<Longrightarrow> pred_hres vm_wf (jump_checked msg code pc need v)"
  unfolding jump_checked_def Let_def by (intro wf_intros)

lemma lb_put_wf: "lb_put off x v = Some v' \<Longrightarrow> vm_wf v \<Longrightarrow> vm_wf v'"
  by (auto simp: lb_put_def vm_wf_def vm_arena_def split: option.splits if_splits)

definition op_keeps_wf :: "vm_op \<Rightarrow> bool" where
  "op_keeps_wf h \<longleftrightarrow> (\<forall>code pc need v. vm_wf v \<longrightarrow> pred_hres vm_wf (h code pc need v))"

lemma op_keeps_wfI: "(\<And>code pc need v. vm_wf v \<Longrightarrow> pred_hres vm_wf (h code pc need v)) \<Longrightarrow> op_keeps_wf h"
  by (simp add: op_keeps_wf_def)

lemma binop_keeps_wf: "op_keeps_wf (vm_binop name f)"
  by (intro op_keeps_wfI vm_binop_wf)

lemma unop_keeps_wf: "op_keeps_wf (vm_unop name f)"
  by (intro op_keeps_wfI vm_unop_wf)

lemma csc_put_wf: "csc_put i x v = Some v' \<Longrightarrow> vm_wf v \<Longrightarrow> vm_wf v'"
  by (auto simp: csc_put_def vm_set_r_wf split: if_splits)

lemma local_put_wf: "local_put i x v = Some v' \<Longrightarrow> vm_wf v \<Longrightarrow> vm_wf v'"
  by (auto simp: local_put_def vm_wf_local split: if_splits)

lemmas f32_op_defs = op_add_f32_def op_sub_f32_def op_mul_f32_def op_div_f32_def op_neg_f32_def
  op_sqrt_f32_def op_lt_f32_def op_le_f32_def op_gt_f32_def op_ge_f32_def op_eq_f32_def op_ne_f32_def
  op_i32_to_f32_def op_f32_to_i32_def op_u32_to_f32_def op_f32_to_u32_def

lemmas i32_op_defs = op_add_i32_def op_sub_i32_def op_mul_i32_def op_lt_i32_def op_eq_i32_def
  op_ne_i32_def op_le_i32_def op_gt_i32_def op_ge_i32_def op_div_i32_def op_and_i32_def op_or_i32_def
  op_xor_i32_def op_not_i32_def op_rol_byte_def op_ror_byte_def

lemmas plain_op_defs = op_noop_def op_yield_def op_jmp_def op_jz_def op_jnz_def op_jlz_def op_jgz_def
  op_cmp_def op_cmpz_def op_mv_def op_set_r_def op_inc_def op_dec_def op_rlb_mov1_def op_lbr_mov1_def
  op_rlb_mov4_def op_lbr_mov4_def op_push_i32_def op_push_r_def op_pop_r_def op_push_f32_def
  op_store_l_def op_load_l_def op_store_lw_def op_load_lw_def vm_store_local_def vm_load_local_def

lemma f32_ops_keep_wf:
  "op_keeps_wf (op_add_f32 nc)" "op_keeps_wf (op_sub_f32 nc)" "op_keeps_wf (op_mul_f32 nc)"
  "op_keeps_wf (op_div_f32 nc)" "op_keeps_wf op_neg_f32" "op_keeps_wf (op_sqrt_f32 nc)"
  "op_keeps_wf op_lt_f32" "op_keeps_wf op_le_f32" "op_keeps_wf op_gt_f32" "op_keeps_wf op_ge_f32"
  "op_keeps_wf op_eq_f32" "op_keeps_wf op_ne_f32" "op_keeps_wf op_i32_to_f32" "op_keeps_wf op_f32_to_i32"
  "op_keeps_wf op_u32_to_f32" "op_keeps_wf op_f32_to_u32"
  unfolding f32_op_defs by (rule binop_keeps_wf unop_keeps_wf)+

lemma i32_ops_keep_wf:
  "op_keeps_wf op_add_i32" "op_keeps_wf op_sub_i32" "op_keeps_wf op_mul_i32" "op_keeps_wf op_lt_i32"
  "op_keeps_wf op_eq_i32" "op_keeps_wf op_ne_i32" "op_keeps_wf op_le_i32" "op_keeps_wf op_gt_i32"
  "op_keeps_wf op_ge_i32" "op_keeps_wf op_div_i32" "op_keeps_wf op_and_i32" "op_keeps_wf op_or_i32"
  "op_keeps_wf op_xor_i32" "op_keeps_wf op_not_i32" "op_keeps_wf op_rol_byte" "op_keeps_wf op_ror_byte"
  unfolding i32_op_defs by (rule binop_keeps_wf unop_keeps_wf)+

lemma plain_ops_keep_wf:
  "op_keeps_wf op_noop" "op_keeps_wf op_yield" "op_keeps_wf op_jmp" "op_keeps_wf op_jz"
  "op_keeps_wf op_jnz" "op_keeps_wf op_jlz" "op_keeps_wf op_jgz" "op_keeps_wf op_cmp" "op_keeps_wf op_cmpz"
  "op_keeps_wf op_mv" "op_keeps_wf op_set_r" "op_keeps_wf op_inc" "op_keeps_wf op_dec"
  "op_keeps_wf op_rlb_mov1" "op_keeps_wf op_lbr_mov1" "op_keeps_wf op_rlb_mov4" "op_keeps_wf op_lbr_mov4"
  "op_keeps_wf op_push_i32" "op_keeps_wf op_push_r" "op_keeps_wf op_pop_r" "op_keeps_wf op_push_f32"
  "op_keeps_wf op_store_l" "op_keeps_wf op_load_l" "op_keeps_wf op_store_lw" "op_keeps_wf op_load_lw"
  by (rule op_keeps_wfI, unfold plain_op_defs Let_def,
      intro wf_intros; (assumption | blast intro: lb_put_wf csc_put_wf local_put_wf))+

lemma word_le_32: "(d :: u32) < 32 \<Longrightarrow> unat (d + 1) = Suc (unat d)" "(d :: u32) < 32 \<Longrightarrow> d + 1 \<le> 32"
  using unat_suc_u32 [of d 32] by (simp_all add: word_le_nat_alt word_less_nat_alt)

lemma scope_enter_keeps_wf: "op_keeps_wf op_l_scope_enter"
proof (rule op_keeps_wfI)
  fix code pc need v assume v: "vm_wf v"
  show "pred_hres vm_wf (op_l_scope_enter code pc need v)"
  proof (cases "vm_depth v \<ge> 32")
    case False
    then have d: "vm_depth v < 32" by simp
    then have d': "unat (vm_depth v) < 32" by (simp add: word_less_nat_alt)
    have "take (Suc (unat (vm_depth v))) ((vm_marks v)[unat (vm_depth v) := vm_ltop v]) =
        take (unat (vm_depth v)) (vm_marks v) @ [vm_ltop v]"
      using v d' by (simp add: take_Suc_conv_app_nth vm_wf_def)
    with v d d' have "vm_wf (v\<lparr>vm_marks := (vm_marks v)[unat (vm_depth v) := vm_ltop v], vm_depth := vm_depth v + 1\<rparr>)"
      by (simp add: vm_wf_def word_le_32)
    with False d' show ?thesis unfolding op_l_scope_enter_def by (simp add: mark_put_def or_undef_def vm_adv_wf vm_set_regs_wf)
  qed (simp add: op_l_scope_enter_def vm_adv_wf vm_set_regs_wf v)
qed

lemma scope_leave_keeps_wf: "op_keeps_wf op_l_scope_leave"
proof (rule op_keeps_wfI)
  fix code pc need v assume v: "vm_wf v"
  show "pred_hres vm_wf (op_l_scope_leave code pc need v)"
  proof (cases "vm_depth v = 0")
    case False
    then have d: "unat (vm_depth v) = Suc (unat (vm_depth v - 1))"
      by (simp add: unat_minus_one unat_gt_0 Suc_leI)
    have l: "unat (vm_depth v - 1) < length (vm_marks v)" "length (vm_marks v) = 32" using v d by (simp_all add: vm_wf_def word_le_nat_alt)
    from l(1) v d have "unat (vm_marks v ! unat (vm_depth v - 1)) \<le> vm_arena v"
      "list_all (\<lambda>m. unat m \<le> vm_arena v) (take (unat (vm_depth v - 1)) (vm_marks v))"
      by (simp_all add: vm_wf_def take_Suc_conv_app_nth)
    moreover have "vm_depth v - 1 \<le> 32" using v d by (simp add: vm_wf_def word_le_nat_alt)
    ultimately have "vm_wf (v\<lparr>vm_depth := vm_depth v - 1, vm_ltop := vm_marks v ! unat (vm_depth v - 1)\<rparr>)"
      using v by (simp add: vm_wf_def)
    with False l show ?thesis unfolding op_l_scope_leave_def Let_def by (simp add: mark_at_def or_undef_def vm_adv_wf vm_set_regs_wf)
  qed (simp add: op_l_scope_leave_def vm_adv_wf vm_set_regs_wf v)
qed

lemma l_alloc_top:
  assumes "vm_wf v" and "vm_lbytes v \<noteq> None" and "\<not> (sz > vm_lcap v \<or> a > vm_lcap v - sz)"
  shows "vm_wf (v\<lparr>vm_ltop := a + sz\<rparr>)"
proof -
  have le: "unat sz \<le> unat (vm_lcap v)" "unat a + unat sz \<le> unat (vm_lcap v)"
    using assms(3) by (auto simp: word_le_nat_alt unat_sub not_less)
  then have "unat (a + sz) = unat a + unat sz"
    using u32_bound [of "vm_lcap v"] by (simp add: unat_word_ariths)
  moreover have "vm_arena v = unat (vm_lcap v)" using assms(1,2) by (auto simp: vm_wf_def vm_arena_def)
  ultimately show ?thesis using assms(1) le by (simp add: vm_wf_def)
qed

lemma l_reset_keeps_wf: "op_keeps_wf op_l_reset"
proof (rule op_keeps_wfI)
  fix code pc need v assume "vm_wf v"
  then have "vm_wf (v\<lparr>vm_ltop := 0, vm_depth := 0\<rparr>)" by (simp add: vm_wf_def)
  then show "pred_hres vm_wf (op_l_reset code pc need v)"
    unfolding op_l_reset_def by (intro wf_intros)
qed

lemma l_alloc_keeps_wf: "op_keeps_wf op_l_alloc" "op_keeps_wf op_l_scope_alloc"
  unfolding op_l_alloc_def op_l_scope_alloc_def Let_def
  by (rule op_keeps_wfI; auto intro!: vm_adv_wf vm_set_regs_wf l_alloc_top)+

lemma stack_push_all_wf: "stack_wf st \<Longrightarrow> stack_push_all xs st = (st', r) \<Longrightarrow> stack_wf st'"
  by (induction xs arbitrary: st) (auto split: cres.splits dest: push_wf)

lemma stack_pop_n_wf: "stack_wf st \<Longrightarrow> stack_pop_n n st = (st', r) \<Longrightarrow> stack_wf st'"
  by (induction n arbitrary: st r) (auto split: cres.splits prod.splits dest: pop_wf)

lemma pop_ret_frame_wf: "stack_wf st \<Longrightarrow> epa_flow_pop_ret_frame st = (st', r) \<Longrightarrow> stack_wf st'"
  by (auto simp: epa_flow_pop_ret_frame_def split: prod.splits cres.splits if_splits dest: stack_pop_n_wf)

lemma call_keeps_wf: "op_keeps_wf (op_call prog)"
proof (rule op_keeps_wfI)
  fix code pc need v assume v: "vm_wf v"
  have "stack_wf st" if "epa_flow_push_ret_frame (vm_stack v) e fw = (st, r)" for st e fw r
    using stack_push_all_wf [OF vm_wf_stackD [OF v]] that unfolding epa_flow_push_ret_frame_def .
  with v show "pred_hres vm_wf (op_call prog code pc need v)"
    unfolding op_call_def by (auto split: option.split prod.split cres.split intro!: vm_wf_eip vm_wf_stack)
qed

lemma ret_keeps_wf: "op_keeps_wf op_ret"
proof (rule op_keeps_wfI)
  fix code pc need v assume v: "vm_wf v"
  show "pred_hres vm_wf (op_ret code pc need v)"
    unfolding op_ret_def
  proof (rule vm_pop_wf [OF v])
    fix x v' assume v': "vm_wf v'"
    obtain st r where r: "epa_flow_pop_ret_frame (vm_stack v') = (st, r)" by (cases "epa_flow_pop_ret_frame (vm_stack v')")
    have "vm_wf (v'\<lparr>vm_stack := st\<rparr>)"
      using pop_ret_frame_wf [OF vm_wf_stackD [OF v'] r] v' by (rule vm_wf_stack [rotated])
    then show "pred_hres vm_wf (case epa_flow_pop_ret_frame (vm_stack v') of
         (st, Ok (ret, frame_words)) \<Rightarrow>
           vm_push ''RET: stack overflow restoring return value'' x (v'\<lparr>vm_stack := st\<rparr>)
             (\<lambda>v2. Yield (v2\<lparr>vm_eip := ret\<rparr>))
       | (st, Err e) \<Rightarrow> Fault e (v'\<lparr>vm_stack := st\<rparr>)
       | (st, Ub) \<Rightarrow> Undef)"
      unfolding r by (auto split: res.split intro!: vm_push_wf vm_wf_eip)
  qed
qed

lemma load_const_keeps_wf: "op_keeps_wf (op_load_const prog)"
  unfolding op_load_const_def Let_def
  by (rule op_keeps_wfI) (auto split: option.split intro!: vm_adv_wf vm_set_regs_wf)

lemma vm_table_keeps_wf: "list_all (\<lambda>(i, h). op_keeps_wf h) (vm_table nc prog)"
  by (simp add: vm_table_def f32_ops_keep_wf i32_ops_keep_wf plain_ops_keep_wf scope_enter_keeps_wf
      scope_leave_keeps_wf l_alloc_keeps_wf l_reset_keeps_wf call_keeps_wf ret_keeps_wf load_const_keeps_wf)

end
