(* ===== verification/FlowVmProps.thy ===== *)
theory FlowVmProps
  imports FlowF32
begin

text \<open>
  What the instructions on the virtual machine do: which of them can never run into undefined
  behaviour, the effect of the arithmetic on the abstract stack, calls and returns, jumps, the
  byte arena and its scopes, and the exactness of small integers in float registers.
\<close>

section \<open>Definedness\<close>

definition op_defined :: "vm_op \<Rightarrow> bool" where
  "op_defined h \<longleftrightarrow> (\<forall>code pc need v. vm_wf v \<longrightarrow> no_ub (h code pc need v))"

lemma op_definedI: "(\<And>code pc need v. vm_wf v \<Longrightarrow> no_ub (h code pc need v)) \<Longrightarrow> op_defined h"
  by (simp add: op_defined_def)

lemma vm_push_defined:
  assumes "vm_wf v" and "\<And>v'. vm_wf v' \<Longrightarrow> no_ub (k v')"
  shows "no_ub (vm_push msg x v k)"
proof (cases "epa_stack_push (vm_stack v) x")
  case (COk st)
  have "vm_wf (v\<lparr>vm_stack := st\<rparr>)"
    using push_wf [OF vm_wf_stackD [OF assms(1)] COk] assms(1) by (intro vm_wf_stack)
  with COk assms(2) show ?thesis by (simp add: vm_push_def)
qed (use push_defined [OF vm_wf_stackD [OF assms(1)]] in \<open>auto simp: vm_push_def\<close>)

lemma vm_pop_defined:
  assumes "vm_wf v" and "\<And>x v'. vm_wf v' \<Longrightarrow> no_ub (k x v')"
  shows "no_ub (vm_pop msg v k)"
proof (cases "epa_stack_pop (vm_stack v)")
  case (COk a)
  obtain x st where a: "a = (x, st)" by (cases a)
  have "vm_wf (v\<lparr>vm_stack := st\<rparr>)"
    using pop_wf [OF vm_wf_stackD [OF assms(1)]] COk a by (intro vm_wf_stack assms(1)) blast
  with COk a assms(2) show ?thesis by (simp add: vm_pop_def)
qed (use pop_defined [OF vm_wf_stackD [OF assms(1)]] in \<open>auto simp: vm_pop_def\<close>)

lemma binop_defined: "(\<And>a b. f a b \<noteq> None) \<Longrightarrow> op_defined (vm_binop name f)"
  unfolding vm_binop_def vm_pop2_def
  by (rule op_definedI, intro vm_pop_defined, assumption)
    (auto simp: or_undef_def split: option.split intro!: vm_push_defined)

lemma unop_defined: "(\<And>a. f a \<noteq> None) \<Longrightarrow> op_defined (vm_unop name f)"
  unfolding vm_unop_def
  by (rule op_definedI, intro vm_pop_defined, assumption)
    (auto simp: or_undef_def split: option.split intro!: vm_push_defined)

lemma f32_ops_defined:
  "op_defined (op_add_f32 nc)" "op_defined (op_sub_f32 nc)" "op_defined (op_mul_f32 nc)"
  "op_defined (op_div_f32 nc)" "op_defined op_neg_f32" "op_defined (op_sqrt_f32 nc)"
  "op_defined op_lt_f32" "op_defined op_le_f32" "op_defined op_gt_f32" "op_defined op_ge_f32"
  "op_defined op_eq_f32" "op_defined op_ne_f32" "op_defined op_i32_to_f32" "op_defined op_u32_to_f32"
  unfolding f32_op_defs by (rule binop_defined unop_defined; simp)+

lemma i32_ops_defined:
  "op_defined op_lt_i32" "op_defined op_eq_i32" "op_defined op_ne_i32" "op_defined op_le_i32"
  "op_defined op_gt_i32" "op_defined op_ge_i32" "op_defined op_and_i32" "op_defined op_or_i32"
  "op_defined op_xor_i32" "op_defined op_not_i32" "op_defined op_rol_byte" "op_defined op_ror_byte"
  unfolding i32_op_defs by (rule binop_defined unop_defined; simp)+

lemma marks_used:
  "vm_wf v \<Longrightarrow> vm_depth v \<noteq> 0 \<Longrightarrow> unat (vm_depth v - 1) < 32" "\<not> 32 \<le> (d :: u32) \<Longrightarrow> unat d < 32"
  by (auto simp: vm_wf_def word_le_nat_alt unat_minus_one not_le unat_gt_0)

lemma plain_ops_defined:
  "op_defined op_noop" "op_defined op_yield" "op_defined op_jmp" "op_defined op_jz"
  "op_defined op_jnz" "op_defined op_jlz" "op_defined op_jgz" "op_defined op_cmp" "op_defined op_cmpz"
  "op_defined op_set_r" "op_defined op_inc" "op_defined op_dec"
  "op_defined op_push_i32" "op_defined op_push_r" "op_defined op_pop_r" "op_defined op_push_f32"
  "op_defined op_store_l" "op_defined op_load_l" "op_defined op_store_lw" "op_defined op_load_lw"
  "op_defined op_l_reset" "op_defined op_l_alloc" "op_defined op_l_scope_alloc"
  "op_defined op_l_scope_enter" "op_defined op_l_scope_leave" "op_defined (op_load_const prog)"
  by (rule op_definedI; unfold plain_op_defs jump_checked_def op_l_reset_def op_l_alloc_def
      op_l_scope_alloc_def op_l_scope_enter_def op_l_scope_leave_def op_load_const_def Let_def;
      auto simp: or_undef_def array_access_defs marks_used split: prod.split intro!: vm_push_defined vm_pop_defined)+

lemma stack_push_all_defined: "stack_wf st \<Longrightarrow> snd (stack_push_all xs st) \<noteq> CUndef"
  by (induction xs arbitrary: st) (auto split: cres.splits dest: push_wf push_defined)

lemma stack_pop_n_defined: "stack_wf st \<Longrightarrow> snd (stack_pop_n n st) \<noteq> CUndef"
proof (induction n arbitrary: st)
  case (Suc n)
  show ?case
  proof (cases "epa_stack_pop st")
    case (COk a)
    obtain x st' where a: "a = (x, st')" by (cases a)
    then have "stack_wf st'" using COk Suc.prems by (auto dest: pop_wf)
    from Suc.IH [OF this] show ?thesis using COk a by (auto split: prod.split cres.split)
  qed (use Suc.prems pop_defined in \<open>auto\<close>)
qed simp

lemma call_defined: "op_defined (op_call prog)"
proof (rule op_definedI)
  fix code pc need v assume "vm_wf v"
  then have "\<And>e fw. snd (epa_flow_push_ret_frame (vm_stack v) e fw) \<noteq> CUndef"
    unfolding epa_flow_push_ret_frame_def by (intro stack_push_all_defined vm_wf_stackD)
  then show "no_ub (op_call prog code pc need v)"
    unfolding op_call_def by (auto split: option.split prod.split cres.split) (metis snd_conv)
qed

lemma ret_defined: "op_defined op_ret"
proof (rule op_definedI, unfold op_ret_def, rule vm_pop_defined, assumption)
  fix code :: "u8 list" and pc need :: nat and v v' :: epa_vm and x :: u32
  assume v': "vm_wf v'"
  obtain st r where r: "epa_flow_pop_ret_frame (vm_stack v') = (st, r)" by (cases "epa_flow_pop_ret_frame (vm_stack v')")
  have "r \<noteq> Ub"
    using r stack_pop_n_defined [OF vm_wf_stackD [OF v'], of 6]
    by (auto simp: epa_flow_pop_ret_frame_def split: prod.splits cres.splits if_splits)
  moreover have "vm_wf (v'\<lparr>vm_stack := st\<rparr>)"
    using pop_ret_frame_wf [OF vm_wf_stackD [OF v'] r] v' by (rule vm_wf_stack [rotated])
  ultimately show "no_ub (case epa_flow_pop_ret_frame (vm_stack v') of
         (st, Ok (ret, frame_words)) \<Rightarrow>
           vm_push ''RET: stack overflow restoring return value'' x (v'\<lparr>vm_stack := st\<rparr>)
             (\<lambda>v2. Yield (v2\<lparr>vm_eip := ret\<rparr>))
       | (st, Err e) \<Rightarrow> Fault e (v'\<lparr>vm_stack := st\<rparr>)
       | (st, Ub) \<Rightarrow> Undef)"
    unfolding r by (auto split: res.split intro!: vm_push_defined)
qed

text \<open>The instructions with an operand or a result that C does not check: ADD, SUB, MUL and
  DIV on signed words, MV, the four moves between registers and the arena, and the conversions
  from float.\<close>

definition vm_unchecked :: "nat list" where
  "vm_unchecked = [33, 34, 35, 42, 49, 53, 54, 55, 56, 125, 127]"

text \<open>C10: Memory safety of the instruction set. From a well-formed machine, every
  instruction that only touches the machine leaves it well formed whether it yields or faults; and
  with the exception of eleven instructions (signed ADD, SUB, MUL and DIV, MV, the four arena moves
  and the two conversions from float) none can run into undefined behaviour, whatever the code
  bytes and registers hold.\<close>

theorem vm_instructions_safe:
  "list_all (\<lambda>(i, h). (\<forall>code pc need v. vm_wf v \<longrightarrow> pred_hres vm_wf (h code pc need v))
     \<and> (i \<notin> set vm_unchecked \<longrightarrow> (\<forall>code pc need v. vm_wf v \<longrightarrow> h code pc need v \<noteq> Undef)))
   (vm_table nc prog)"
proof -
  have "list_all (\<lambda>(i, h). i \<notin> set vm_unchecked \<longrightarrow> op_defined h) (vm_table nc prog)"
    by (simp add: vm_table_def vm_unchecked_def f32_ops_defined i32_ops_defined plain_ops_defined
        call_defined ret_defined)
  with vm_table_keeps_wf [of nc prog] show ?thesis
    by (auto simp: list_all_iff op_defined_def op_keeps_wf_def no_ub_iff)
qed

definition nc_demo :: nan_choice where
  "nc_demo = \<lparr>nan_add = (\<lambda>_ _. 0x7FC00000), nan_sub = (\<lambda>_ _. 0x7FC00000), nan_mul = (\<lambda>_ _. 0x7FC00000),
     nan_div = (\<lambda>_ _. 0x7FC00000), nan_sqrt = (\<lambda>_. 0x7FC00000)\<rparr>"

text \<open>A small well-formed machine for the witnesses.\<close>

definition vm_demo :: epa_vm where
  "vm_demo = vm_zero\<lparr>vm_stack := \<lparr>st_words = [7, 3, 0, 0, 0, 0, 0, 0, 0, 0], st_sp = 2, st_cap = 10\<rparr>,
     vm_lbytes := Some (replicate 16 0), vm_lcap := 16, vm_ltop := 5\<rparr>"

lemma vm_demo_wf: "vm_wf vm_demo"
  by (simp add: vm_wf_def vm_demo_def vm_zero_def stack_wf_def vm_arena_def)

theorem vm_instructions_safe_witness:
  "pred_hres vm_wf (op_jmp [4, 0, 0, 0, 0] 0 5 vm_demo) \<and> op_jmp [4, 0, 0, 0, 0] 0 5 vm_demo \<noteq> Undef"
proof -
  have "(4, op_jmp) \<in> set (vm_table nc_demo program_zero)" by (simp add: vm_table_def)
  with vm_instructions_safe [of nc_demo program_zero] vm_demo_wf show ?thesis
    by (auto simp: list_all_iff vm_unchecked_def)
qed

section \<open>Arithmetic on the abstract stack\<close>

definition vm_list :: "epa_vm \<Rightarrow> u32 list" where
  "vm_list v = stack_list (vm_stack v)"

lemma vm_list_stack [simp]: "vm_list (v\<lparr>vm_stack := st\<rparr>) = stack_list st"
  by (simp add: vm_list_def)

lemma vm_list_adv [simp]: "vm_list (vm_adv pc need v) = vm_list v"
  by (simp add: vm_list_def vm_adv_def vm_set_pc_def)

lemma vm_pc_adv [simp]: "vm_pc (vm_adv pc need v) = of_nat (pc + need)"
  by (simp add: vm_adv_def)

lemma vm_pop_eval:
  assumes "vm_wf v" and "vm_list v = x # xs"
  shows "\<exists>st. vm_pop msg v k = k x (v\<lparr>vm_stack := st\<rparr>) \<and> stack_wf st \<and> stack_list st = xs
    \<and> st_cap st = st_cap (vm_stack v)"
  using pop_some [OF vm_wf_stackD [OF assms(1)] assms(2) [unfolded vm_list_def]]
  by (auto simp: vm_pop_def)

lemma vm_pop_under: "vm_wf v \<Longrightarrow> vm_list v = [] \<Longrightarrow> vm_pop msg v k = Fault msg v"
  using pop_empty [of "vm_stack v"] by (simp add: vm_pop_def vm_list_def vm_wf_stackD)

lemma vm_push_eval:
  assumes "vm_wf v" and "length (vm_list v) < st_cap (vm_stack v)"
  shows "\<exists>st. vm_push msg x v k = k (v\<lparr>vm_stack := st\<rparr>) \<and> stack_wf st \<and> stack_list st = x # vm_list v
    \<and> st_cap st = st_cap (vm_stack v)"
  using push_some [OF vm_wf_stackD [OF assms(1)] assms(2) [unfolded vm_list_def], of x]
  by (auto simp: vm_push_def vm_list_def)

lemma vm_list_cap: "vm_wf v \<Longrightarrow> length (vm_list v) \<le> st_cap (vm_stack v)"
  by (simp add: vm_list_def length_stack_list vm_wf_def stack_wf_def)

text \<open>The result of an instruction that replaces the top of the stack by \<open>ys\<close> and moves on.\<close>

definition vm_effect :: "nat \<Rightarrow> nat \<Rightarrow> u32 list \<Rightarrow> epa_vm \<Rightarrow> epa_vm hres \<Rightarrow> bool" where
  "vm_effect pc need ys v r \<longleftrightarrow> (\<exists>st. r = Yield (vm_adv pc need (v\<lparr>vm_stack := st\<rparr>))
     \<and> stack_wf st \<and> stack_list st = ys \<and> st_cap st = st_cap (vm_stack v))"

lemma vm_binop_eval:
  assumes "vm_wf v" and "vm_list v = b # a # xs" and "f a b = Some r"
  shows "vm_effect pc need (r # xs) v (vm_binop name f code pc need v)"
proof -
  let ?u = "name @ '': stack underflow''" and ?o = "name @ '': stack overflow''"
  let ?k = "\<lambda>ua ub v2. or_undef (f ua ub) (\<lambda>r. vm_push ?o r v2 (\<lambda>v3. Yield (vm_adv pc need v3)))"
  obtain s1 where s1: "vm_binop name f code pc need v = vm_pop ?u (v\<lparr>vm_stack := s1\<rparr>) (\<lambda>ua. ?k ua b)"
      "stack_wf s1" "stack_list s1 = a # xs" "st_cap s1 = st_cap (vm_stack v)"
    using vm_pop_eval [OF assms(1,2)] unfolding vm_binop_def vm_pop2_def by blast
  have w1: "vm_wf (v\<lparr>vm_stack := s1\<rparr>)" using assms(1) s1(2) by (rule vm_wf_stack)
  obtain s2 where s2: "vm_pop ?u (v\<lparr>vm_stack := s1\<rparr>) (\<lambda>ua. ?k ua b) = ?k a b (v\<lparr>vm_stack := s2\<rparr>)"
      "stack_wf s2" "stack_list s2 = xs" "st_cap s2 = st_cap (vm_stack v)"
    using vm_pop_eval [OF w1, of a xs ?u "\<lambda>ua. ?k ua b"] s1 by auto
  have w2: "vm_wf (v\<lparr>vm_stack := s2\<rparr>)" using assms(1) s2(2) by (rule vm_wf_stack)
  have "length xs < st_cap s2" using vm_list_cap [OF assms(1)] assms(2) s2(4) by simp
  then obtain s3 where "vm_push ?o r (v\<lparr>vm_stack := s2\<rparr>) (\<lambda>v3. Yield (vm_adv pc need v3)) =
        Yield (vm_adv pc need (v\<lparr>vm_stack := s3\<rparr>))" "stack_wf s3" "stack_list s3 = r # xs"
      "st_cap s3 = st_cap (vm_stack v)"
    using vm_push_eval [OF w2, of ?o r "\<lambda>v3. Yield (vm_adv pc need v3)"] s2 by auto
  with s1(1) s2(1) assms(3) show ?thesis by (auto simp: vm_effect_def or_undef_def)
qed

lemma vm_binop_undef:
  assumes "vm_wf v" and "vm_list v = b # a # xs" and "f a b = None"
  shows "vm_binop name f code pc need v = Undef"
proof -
  let ?u = "name @ '': stack underflow''" and ?o = "name @ '': stack overflow''"
  let ?k = "\<lambda>ua v2. or_undef (f ua b) (\<lambda>r. vm_push ?o r v2 (\<lambda>v3. Yield (vm_adv pc need v3)))"
  obtain s1 where s1: "vm_binop name f code pc need v = vm_pop ?u (v\<lparr>vm_stack := s1\<rparr>) ?k"
      "stack_wf s1" "stack_list s1 = a # xs"
    using vm_pop_eval [OF assms(1,2)] unfolding vm_binop_def vm_pop2_def by blast
  have w1: "vm_wf (v\<lparr>vm_stack := s1\<rparr>)" using assms(1) s1(2) by (rule vm_wf_stack)
  obtain s2 where "vm_pop ?u (v\<lparr>vm_stack := s1\<rparr>) ?k = ?k a (v\<lparr>vm_stack := s2\<rparr>)"
    using vm_pop_eval [OF w1, of a xs ?u ?k] s1 by auto
  with s1(1) assms(3) show ?thesis by (simp add: or_undef_def)
qed

lemma vm_binop_under:
  assumes "vm_wf v" and "length (vm_list v) < 2"
  shows "\<exists>v'. vm_binop name f code pc need v = Fault (name @ '': stack underflow'') v' \<and> vm_pc v' = vm_pc v"
proof (cases "vm_list v")
  case Nil
  with assms(1) show ?thesis by (simp add: vm_binop_def vm_pop2_def vm_pop_under)
next
  case (Cons x xs)
  with assms(2) have xs: "xs = []" by simp
  obtain s1 where "vm_binop name f code pc need v = vm_pop (name @ '': stack underflow'') (v\<lparr>vm_stack := s1\<rparr>)
      (\<lambda>ua v2. or_undef (f ua x) (\<lambda>r. vm_push (name @ '': stack overflow'') r v2 (\<lambda>v3. Yield (vm_adv pc need v3))))"
      "stack_wf s1" "stack_list s1 = []"
    using vm_pop_eval [OF assms(1) Cons] unfolding vm_binop_def vm_pop2_def xs by blast
  with vm_wf_stack [OF assms(1)] show ?thesis by (simp add: vm_pop_under vm_pc_def)
qed

text \<open>The two-operand integer instructions with the function they compute, as the comments of
  the opcode table give them.\<close>

definition int_ops :: "(vm_op \<times> (u32 \<Rightarrow> u32 \<Rightarrow> u32)) list" where
  "int_ops =
     [(op_and_i32, \<lambda>a b. a AND b), (op_or_i32, \<lambda>a b. a OR b), (op_xor_i32, \<lambda>a b. a XOR b),
      (op_lt_i32, \<lambda>a b. of_bool (sint a < sint b)), (op_le_i32, \<lambda>a b. of_bool (sint a \<le> sint b)),
      (op_gt_i32, \<lambda>a b. of_bool (sint a > sint b)), (op_ge_i32, \<lambda>a b. of_bool (sint a \<ge> sint b)),
      (op_eq_i32, \<lambda>a b. of_bool (a = b)), (op_ne_i32, \<lambda>a b. of_bool (a \<noteq> b))]"

text \<open>The signed arithmetic, with the exact integer result.\<close>

definition signed_ops :: "(vm_op \<times> (int \<Rightarrow> int \<Rightarrow> int)) list" where
  "signed_ops = [(op_add_i32, (+)), (op_sub_i32, (-)), (op_mul_i32, (*)),
     (op_div_i32, \<lambda>a b. if b = 0 then 0 else c_quot a b)]"

lemma i32_of_word: "- (2 ^ 31) \<le> i \<Longrightarrow> i < 2 ^ 31 \<Longrightarrow> i32_of i = Some (word_of_int i)"
  by (simp add: i32_of_def)

lemma sint_word_of_int_range: "- (2 ^ 31) \<le> i \<Longrightarrow> i < 2 ^ 31 \<Longrightarrow> sint (word_of_int i :: u32) = i"
  by (simp add: signed_of_int signed_take_bit_int_eq_self)

text \<open>C11: The integer instructions compute what the opcode table says. With \<open>b\<close> on top of
  \<open>a\<close> on the stack the bitwise and comparison instructions replace the two by the result and
  go on to the next instruction, changing nothing else. ADD, SUB, MUL and DIV do so with the exact
  signed result (0 for a division by 0) whenever it fits 32 bits, and are undefined behaviour
  otherwise.\<close>

theorem int_instructions_compute:
  assumes "vm_wf v" and "vm_list v = b # a # xs"
  shows "list_all (\<lambda>(h, f). vm_effect pc need (f a b # xs) v (h code pc need v)) int_ops
    \<and> list_all (\<lambda>(h, f). if - (2 ^ 31) \<le> f (sint a) (sint b) \<and> f (sint a) (sint b) < 2 ^ 31
         then (\<exists>r. sint r = f (sint a) (sint b) \<and> vm_effect pc need (r # xs) v (h code pc need v))
         else h code pc need v = Undef) signed_ops"
proof -
  note ev = vm_binop_eval [OF assms]
  have bw: "bool_word c = of_bool c" for c by (simp add: bool_word_def)
  note u = vm_binop_undef [OF assms]
  have s: "if - (2 ^ 31) \<le> i \<and> i < 2 ^ 31
         then (\<exists>r. sint r = i \<and> vm_effect pc need (r # xs) v (vm_binop name f code pc need v))
         else vm_binop name f code pc need v = Undef" if "f a b = i32_of i" for name f i
    using that ev [of f "word_of_int i"] u [of f] sint_word_of_int_range [of i]
    by (auto simp: i32_of_def)
  have d: "(if b = 0 then Some 0 else i32_of (c_quot (sint a) (sint b)))
      = i32_of (if sint b = 0 then 0 else c_quot (sint a) (sint b))"
  proof -
    have "sint b = 0 \<longleftrightarrow> b = 0" by (metis signed_0 signed_word_eqI)
    then show ?thesis by (simp add: i32_of_def)
  qed
  have "sint a = sint b \<longleftrightarrow> a = b" by (metis signed_word_eqI)
  then have "list_all (\<lambda>(h, f). vm_effect pc need (f a b # xs) v (h code pc need v)) int_ops"
    unfolding int_ops_def i32_op_defs by (simp add: ev bw)
  moreover have "list_all (\<lambda>(h, f). if - (2 ^ 31) \<le> f (sint a) (sint b) \<and> f (sint a) (sint b) < 2 ^ 31
         then (\<exists>r. sint r = f (sint a) (sint b) \<and> vm_effect pc need (r # xs) v (h code pc need v))
         else h code pc need v = Undef) signed_ops"
    unfolding signed_ops_def i32_op_defs list.pred_inject prod.case
    by (intro conjI list.pred_inject(1)) (rule s, rule refl d)+
  ultimately show ?thesis ..
qed

theorem int_instructions_compute_witness:
  "vm_list vm_demo = [3, 7] \<and>
   (\<exists>r. sint r = 4 \<and> vm_effect 0 1 [r] vm_demo (op_sub_i32 [34] 0 1 vm_demo))"
proof -
  have l: "vm_list vm_demo = [3, 7]" by (simp add: vm_list_def vm_demo_def stack_list_def)
  from int_instructions_compute [OF vm_demo_wf l, of 0 1 "[34]"] l show ?thesis
    by (simp add: signed_ops_def)
qed

end
