(* ===== verification/FlowVmCalls.thy ===== *)
theory FlowVmCalls
  imports FlowVmProps
begin

text \<open>
  What instructions of the virtual machine do in sequence: a call and its return, a scope of the
  byte arena with the allocations made in it, a store and a load through the arena, a compare and
  the branch on it, an integer through a float register and back.
\<close>

section \<open>Calls and returns\<close>

lemma push_all_words:
  assumes "stack_wf st" and "length (stack_list st) + length xs \<le> st_cap st"
  shows "\<exists>st'. stack_push_all xs st = (st', COk ()) \<and> stack_wf st' \<and> st_cap st' = st_cap st
    \<and> stack_list st' = rev xs @ stack_list st"
  using assms
proof (induction xs arbitrary: st)
  case (Cons x xs)
  from push_some [OF Cons.prems(1), of x] Cons.prems(2) obtain s1 where
    s1: "epa_stack_push st x = COk s1" "stack_wf s1" "st_cap s1 = st_cap st" "stack_list s1 = x # stack_list st"
    by auto
  with Cons.IH [of s1] Cons.prems show ?case by auto
qed simp

lemma pop_n_words:
  assumes "stack_wf st" and "stack_list st = ws @ zs"
  shows "\<exists>st'. stack_pop_n (length ws) st = (st', COk ws) \<and> stack_wf st' \<and> st_cap st' = st_cap st
    \<and> stack_list st' = zs"
  using assms
proof (induction ws arbitrary: st)
  case (Cons x ws)
  then have "stack_list st = x # (ws @ zs)" by simp
  from pop_some [OF Cons.prems(1) this] obtain s1 where
    s1: "epa_stack_pop st = COk (x, s1)" "stack_wf s1" "st_cap s1 = st_cap st" "stack_list s1 = ws @ zs"
    by blast
  with Cons.IH [of s1] show ?case by auto
qed simp

definition ret_frame :: "epa_eip \<Rightarrow> u16 \<Rightarrow> u32 list" where
  "ret_frame ret argc = [EPA_CALL_MAGIC1, ucast argc, eip_pc ret, eip_block ret, ucast (eip_type ret), EPA_CALL_MAGIC0]"

lemma push_ret_frame_list:
  assumes "stack_wf st" and "length (stack_list st) + 6 \<le> st_cap st"
  shows "\<exists>st'. epa_flow_push_ret_frame st ret argc = (st', COk ()) \<and> stack_wf st' \<and> st_cap st' = st_cap st
    \<and> stack_list st' = ret_frame ret argc @ stack_list st"
  using push_all_words [OF assms(1), of "rev (ret_frame ret argc)"] assms(2)
  by (simp add: epa_flow_push_ret_frame_def ret_frame_def)

lemma pop_ret_frame_list:
  assumes "stack_wf st" and "stack_list st = ret_frame ret argc @ zs"
  shows "\<exists>st'. epa_flow_pop_ret_frame st = (st', Ok (ret, argc)) \<and> stack_wf st' \<and> st_cap st' = st_cap st
    \<and> stack_list st' = zs"
proof -
  have l: "length (ret_frame ret argc) = 6" by (simp add: ret_frame_def)
  have "ucast (ucast (eip_type ret) :: u32) = eip_type ret" "ucast (ucast argc :: u32) = argc"
    by (rule bit_word_eqI, simp add: bit_simps)+
  then show ?thesis
    using pop_n_words [OF assms, unfolded l] by (auto simp: epa_flow_pop_ret_frame_def ret_frame_def simp del: stack_pop_n.simps)
qed


definition call_demo_prog :: program where
  "call_demo_prog = program_zero\<lparr>p_funcs := [\<lparr>fd_id = 42, fd_frame_words = 0, fd_code = view_zero\<rparr>]\<rparr>"


section \<open>Scopes of the byte arena\<close>

lemma nat_less_2_cases: obtains "n = 0" | "n = 1" | k where "n = Suc (Suc k)"
  by (cases n rule: nat.exhaust [case_names zero suc]) (metis One_nat_def not0_implies_Suc)+

lemma align4:
  assumes "unat (x :: u32) \<le> 4294967292"
  shows "unat ((x + 3) AND NOT 3) = 4 * ((unat x + 3) div 4)"
proof -
  have y: "unat (x + 3) = unat x + 3" using assms by (simp add: unat_word_ariths)
  have "(x + 3) AND NOT 3 = push_bit 2 (drop_bit 2 (x + 3))"
  proof (rule bit_word_eqI)
    fix n :: nat
    assume n: "n < LENGTH(32)"
    have m: "(NOT 3 :: u32) = NOT (mask 2)" by (simp add: mask_eq_exp_minus_1)
    show "bit ((x + 3) AND NOT 3) n = bit (push_bit 2 (drop_bit 2 (x + 3))) n"
      using n unfolding m by (cases n rule: nat_less_2_cases) (simp_all add: bit_simps)
  qed
  moreover have "unat (push_bit 2 (drop_bit 2 (x + 3))) = 4 * ((unat x + 3) div 4)"
  proof -
    have "unat (push_bit 2 (drop_bit 2 (x + 3))) = (unat (drop_bit 2 (x + 3)) * 4) mod 2 ^ 32"
      by (simp only: push_bit_eq_mult unat_word_ariths) simp
    also have "unat (drop_bit 2 (x + 3)) = unat (x + 3) div 4"
      by (simp add: drop_bit_eq_div unat_div)
    finally show ?thesis using u32_bound [of "x + 3"] unfolding y by simp
  qed
  ultimately show ?thesis by simp
qed

text \<open>Allocation requests in a row, each with its size in r0; a granted one yields the offset
  and the size from r0 and r1, a refused one \<open>None\<close>.\<close>

fun l_allocs :: "u32 list \<Rightarrow> epa_vm \<Rightarrow> (u32 \<times> u32) option list \<times> epa_vm" where
  "l_allocs [] v = ([], v)"
| "l_allocs (sz # szs) v =
     (case op_l_alloc [] 0 0 (vm_set_r 0 sz v) of
        Yield v1 \<Rightarrow>
          let (bs, v2) = l_allocs szs v1
          in ((if vm_r v1 2 = 1 then Some (vm_r v1 0, vm_r v1 1) else None) # bs, v2)
      | _ \<Rightarrow> ([], v))"

definition scope_frame :: "epa_vm \<Rightarrow> epa_vm \<Rightarrow> bool" where
  "scope_frame v v' \<longleftrightarrow> vm_lbytes v' = vm_lbytes v \<and> vm_lcap v' = vm_lcap v \<and> vm_marks v' = vm_marks v
     \<and> vm_depth v' = vm_depth v \<and> unat (vm_ltop v) \<le> unat (vm_ltop v')"

definition arena_block :: "nat \<Rightarrow> nat \<Rightarrow> u32 \<times> u32 \<Rightarrow> bool" where
  "arena_block lo hi b \<longleftrightarrow> 4 dvd unat (fst b) \<and> lo \<le> unat (fst b) \<and> unat (fst b) + unat (snd b) \<le> hi"

lemma word_no_room:
  assumes "(sz :: u32) > cap \<or> a > cap - sz"
  shows "unat cap < unat a + unat sz"
proof (cases "sz > cap")
  case False
  then have "unat (cap - sz) = unat cap - unat sz" by (simp add: unat_sub not_less)
  moreover have "unat (cap - sz) < unat a" using assms False by (simp add: word_less_nat_alt)
  ultimately show ?thesis by linarith
qed (simp add: word_less_nat_alt)

lemma l_alloc_step:
  assumes "vm_wf v" and "vm_lbytes v \<noteq> None" and "unat (vm_lcap v) \<le> 4294967292"
  shows "\<exists>v1. op_l_alloc [] 0 0 (vm_set_r 0 sz v) = Yield v1 \<and> vm_wf v1 \<and> scope_frame v v1
    \<and> (if vm_r v1 2 = 1 then vm_r v1 1 = sz
         \<and> arena_block (unat (vm_ltop v)) (unat (vm_ltop v1)) (vm_r v1 0, vm_r v1 1)
         \<and> unat (vm_ltop v1) \<le> unat (vm_ltop v) + 3 + unat sz
       else vm_ltop v1 = vm_ltop v \<and> unat (vm_lcap v) < unat (vm_ltop v) + 3 + unat sz \<or> vm_lcap v = 0)"
proof -
  let ?a = "(vm_ltop v + 3) AND NOT 3"
  have arena: "unat (vm_ltop v) \<le> unat (vm_lcap v)" using assms(1,2) by (auto simp: vm_wf_def vm_arena_def)
  with assms(3) have a: "unat ?a = 4 * ((unat (vm_ltop v) + 3) div 4)" by (intro align4) simp
  have a4: "unat ?a \<le> unat (vm_ltop v) + 3" unfolding a by linarith
  have three: "(4 - 1 :: u32) = 3" by simp
  have w: "vm_wf (vm_set_r 0 sz v)" using assms(1) by (rule vm_set_r_wf)
  have r0: "vm_r (vm_set_r 0 sz v) 0 = sz" using assms(1) by (simp add: vm_r_def vm_wf_def)
  consider "vm_lcap v = 0" | "vm_lcap v \<noteq> 0" "sz > vm_lcap v \<or> ?a > vm_lcap v - sz"
    | "vm_lcap v \<noteq> 0" "\<not> (sz > vm_lcap v \<or> ?a > vm_lcap v - sz)" by blast
  then show ?thesis
  proof cases
    case 2
    from word_no_room [OF 2(2)] a4 have "unat (vm_lcap v) < unat (vm_ltop v) + 3 + unat sz" by linarith
    moreover have "op_l_alloc [] 0 0 (vm_set_r 0 sz v) = Yield (vm_adv 0 0 (vm_set_regs 0 0 0 0 (vm_set_r 0 sz v)))"
      using 2 assms(2) unfolding op_l_alloc_def Let_def vm_set_simps r0 three by (simp only: if_True if_False simp_thms)
    moreover have "vm_wf (vm_adv 0 0 (vm_set_regs 0 0 0 0 (vm_set_r 0 sz v)))"
      using w by (intro vm_adv_wf vm_set_regs_wf)
    ultimately show ?thesis unfolding a
      by (simp add: scope_frame_def vm_r_def vm_set_regs_def vm_adv_def)
  next
    case 3
    then have le: "unat sz \<le> unat (vm_lcap v)" "unat ?a + unat sz \<le> unat (vm_lcap v)"
      by (auto simp: word_le_nat_alt unat_sub not_less)
    then have s: "unat (?a + sz) = unat ?a + unat sz"
      using u32_bound [of "vm_lcap v"] by (simp add: unat_word_ariths)
    let ?v1 = "vm_adv 0 0 (vm_set_regs ?a sz 1 0 ((vm_set_r 0 sz v)\<lparr>vm_ltop := ?a + sz\<rparr>))"
    have op: "op_l_alloc [] 0 0 (vm_set_r 0 sz v) = Yield ?v1"
      using 3 assms(2) unfolding op_l_alloc_def Let_def vm_set_simps r0 three by (simp only: if_True if_False simp_thms)
    have "vm_wf ?v1" using l_alloc_top [OF w, of sz ?a] 3 assms(2) by (intro vm_adv_wf vm_set_regs_wf) simp
    moreover have "unat (vm_ltop v) \<le> unat ?a" unfolding a by linarith
    ultimately show ?thesis unfolding op using s a a4
      by (simp add: scope_frame_def vm_r_def vm_set_regs_def vm_adv_def arena_block_def)
  qed (use assms r0 w in \<open>simp add: op_l_alloc_def Let_def scope_frame_def vm_r_def vm_set_regs_def vm_adv_def\<close>,
       simp add: vm_set_pc_def vm_set_r_def vm_wf_def vm_arena_def)
qed

definition granted :: "'a option list \<Rightarrow> 'a list" where
  "granted bs = List.map_filter id bs"

lemma granted_simps [simp]: "granted [] = []" "granted (None # bs) = granted bs"
  "granted (Some b # bs) = b # granted bs"
  by (simp_all add: granted_def map_filter_simps)

lemma arena_block_mono: "arena_block lo hi b \<Longrightarrow> lo' \<le> lo \<Longrightarrow> hi \<le> hi' \<Longrightarrow> arena_block lo' hi' b"
  by (simp add: arena_block_def)

lemma l_allocs_blocks:
  assumes "vm_wf v" and "vm_lbytes v \<noteq> None" and "unat (vm_lcap v) \<le> 4294967292"
    and "l_allocs szs v = (bs, v2)"
  shows "vm_wf v2 \<and> scope_frame v v2
    \<and> list_all2 (\<lambda>sz b. pred_option (\<lambda>b. snd b = sz) b) szs bs
    \<and> list_all (arena_block (unat (vm_ltop v)) (unat (vm_ltop v2))) (granted bs)
    \<and> sorted_wrt (\<lambda>b b'. unat (fst b) + unat (snd b) \<le> unat (fst b')) (granted bs)
    \<and> (unat (vm_ltop v) + sum_list (map (\<lambda>s. unat s + 3) szs) \<le> unat (vm_lcap v) \<and> vm_lcap v \<noteq> 0
        \<longrightarrow> None \<notin> set bs)"
  using assms
proof (induction szs arbitrary: v bs)
  case (Cons sz szs)
  from l_alloc_step [OF Cons.prems(1-3), of sz] obtain v1 where
    v1: "op_l_alloc [] 0 0 (vm_set_r 0 sz v) = Yield v1" "vm_wf v1" "scope_frame v v1"
      and res: "if vm_r v1 2 = 1 then vm_r v1 1 = sz
         \<and> arena_block (unat (vm_ltop v)) (unat (vm_ltop v1)) (vm_r v1 0, vm_r v1 1)
         \<and> unat (vm_ltop v1) \<le> unat (vm_ltop v) + 3 + unat sz
       else vm_ltop v1 = vm_ltop v \<and> unat (vm_lcap v) < unat (vm_ltop v) + 3 + unat sz \<or> vm_lcap v = 0"
    by blast
  obtain bs1 where bs: "l_allocs szs v1 = (bs1, v2)"
      "bs = (if vm_r v1 2 = 1 then Some (vm_r v1 0, vm_r v1 1) else None) # bs1"
    using Cons.prems(4) v1(1) by (auto split: prod.splits)
  have f1: "vm_lbytes v1 = vm_lbytes v" "vm_lcap v1 = vm_lcap v" "unat (vm_ltop v) \<le> unat (vm_ltop v1)"
    using v1(3) by (simp_all add: scope_frame_def)
  note IH = Cons.IH [OF v1(2), unfolded f1(1,2), OF Cons.prems(2,3) bs(1)]
  have fr: "scope_frame v v2" using IH v1(3) by (auto simp: scope_frame_def)
  have top: "unat (vm_ltop v1) \<le> unat (vm_ltop v2)" using IH by (simp add: scope_frame_def)
  have mono: "list_all (arena_block (unat (vm_ltop v)) (unat (vm_ltop v2))) (granted bs1)"
    using IH f1(3) by (auto simp: list_all_iff intro: arena_block_mono)
  show ?case
  proof (cases "vm_r v1 2 = 1")
    case True
    with res have r: "vm_r v1 1 = sz"
        "arena_block (unat (vm_ltop v)) (unat (vm_ltop v1)) (vm_r v1 0, sz)"
        "unat (vm_ltop v1) \<le> unat (vm_ltop v) + 3 + unat sz" by auto
    have "list_all (\<lambda>b. unat (vm_r v1 0) + unat sz \<le> unat (fst b)) (granted bs1)"
      using IH r(2) by (auto simp: list_all_iff arena_block_def)
    moreover have "arena_block (unat (vm_ltop v)) (unat (vm_ltop v2)) (vm_r v1 0, sz)"
      using arena_block_mono [OF r(2) order_refl top] .
    ultimately show ?thesis using True IH fr mono r bs(2) by (auto simp: list_all_iff)
  next
    case False
    with res have "\<not> (unat (vm_ltop v) + sum_list (map (\<lambda>s. unat s + 3) (sz # szs)) \<le> unat (vm_lcap v) \<and> vm_lcap v \<noteq> 0)"
      by auto
    then show ?thesis using False IH fr mono bs(2) by simp
  qed
qed (auto simp: scope_frame_def)



section \<open>Storing and loading through the arena\<close>

lemma lb_put_at: "vm_lbytes v = Some b \<Longrightarrow> unat off < length b \<Longrightarrow>
    lb_put off x v = Some (v\<lparr>vm_lbytes := Some (b[unat off := x])\<rparr>)"
  by (simp add: lb_put_def)

lemma mem_write_four:
  assumes "n + 4 \<le> length b"
  shows "b[n := x0, Suc n := x1, n + 2 := x2, n + 3 := x3] = mem_write b n [x0, x1, x2, x3]"
proof (rule nth_equalityI)
  fix i assume "i < length (b[n := x0, Suc n := x1, n + 2 := x2, n + 3 := x3])"
  then have i: "i < length b" by simp
  consider "i = n" | "i = Suc n" | "i = n + 2" | "i = n + 3" | "i < n \<or> n + 4 \<le> i" by linarith
  then show "b[n := x0, Suc n := x1, n + 2 := x2, n + 3 := x3] ! i = mem_write b n [x0, x1, x2, x3] ! i"
    using i assms by cases (auto simp: nth_mem_write nth_list_update)
qed (use assms in simp)

lemma unat_offsets:
  assumes "unat (off :: u32) + 4 \<le> n" and "n < 4294967296"
  shows "unat (off + 1) = Suc (unat off)" "unat (off + 2) = unat off + 2" "unat (off + 3) = unat off + 3"
  using assms by (simp_all add: unat_word_ariths)

lemma arena_bound: "vm_wf v \<Longrightarrow> vm_lbytes v = Some b \<Longrightarrow> unat (vm_ltop v) \<le> length b \<and> length b = unat (vm_lcap v)"
  by (simp add: vm_wf_def vm_arena_def)

lemma read_u32_le_eq:
  "read_u32_le b n = ucast (b ! n) OR push_bit 8 (ucast (b ! (n + 1))) OR push_bit 16 (ucast (b ! (n + 2)))
     OR push_bit 24 (ucast (b ! (n + 3)))"
  by (simp add: read_u32_le_def)

text \<open>C14: Words through the byte arena. For an offset register that leaves four bytes below the
  top, RLB_MOV4 writes exactly the four little-endian bytes of the source register, and LBR_MOV4
  with the same offset, in any later machine with the same arena, loads that word into its
  destination register and changes nothing else; for an offset at or above the top that does not
  wrap, both fault without an effect.\<close>

theorem arena_store_load:
  assumes "vm_wf v" and "vm_lbytes v = Some b" and "imm8 code pc 0 < 4" and "imm8 code pc 1 < 4"
    and "off = vm_r v (imm8 code pc 1)" and "unat off < 2 ^ 32 - 3"
  shows "if unat off + 4 \<le> unat (vm_ltop v) then
      op_rlb_mov4 code pc need v = Yield (vm_adv pc need (v\<lparr>vm_lbytes :=
        Some (mem_write b (unat off) (u32_le_bytes (vm_r v (imm8 code pc 0))))\<rparr>))
      \<and> (\<forall>v2 code2 pc2 need2. vm_lbytes v2 = Some (mem_write b (unat off) (u32_le_bytes (vm_r v (imm8 code pc 0))))
           \<and> vm_ltop v2 = vm_ltop v \<and> imm8 code2 pc2 0 < 4 \<and> imm8 code2 pc2 1 < 4 \<and> vm_r v2 (imm8 code2 pc2 1) = off
           \<longrightarrow> op_lbr_mov4 code2 pc2 need2 v2 =
               Yield (vm_adv pc2 need2 (vm_set_r (imm8 code2 pc2 0) (vm_r v (imm8 code pc 0)) v2)))
    else op_rlb_mov4 code pc need v = Fault ''RLB_MOV4: off out of range (%u)'' v
      \<and> op_lbr_mov4 code pc need v = Fault ''LBR_MOV4: off out of range (%u)'' v"
proof (cases "unat off + 4 \<le> unat (vm_ltop v)")
  case True
  let ?x = "vm_r v (imm8 code pc 0)" and ?n = "unat off"
  note bd = arena_bound [OF assms(1,2)]
  have n: "?n + 4 \<le> length b" using True bd by simp
  note o = unat_offsets [OF True u32_bound]
  have lt: "\<not> off + 3 \<ge> vm_ltop v" using True o by (simp add: word_le_nat_alt)
  have mw: "b[?n := ucast ?x, Suc ?n := ucast (drop_bit 8 ?x), Suc (Suc ?n) := ucast (drop_bit 16 ?x),
      ?n + 3 := ucast (drop_bit 24 ?x)] = mem_write b ?n (u32_le_bytes ?x)"
    using mem_write_four [OF n] by (simp add: u32_le_bytes_def)
  have "op_rlb_mov4 code pc need v = Yield (vm_adv pc need (v\<lparr>vm_lbytes := Some (mem_write b ?n (u32_le_bytes ?x))\<rparr>))"
    using assms(2-4) lt n o
    by (simp add: op_rlb_mov4_def or_undef_def csc_at_def assms(5) [symmetric, unfolded One_nat_def] lb_put_at mw del: not_less)
  moreover have "op_lbr_mov4 code2 pc2 need2 v2 = Yield (vm_adv pc2 need2 (vm_set_r (imm8 code2 pc2 0) ?x v2))"
    if v2: "vm_lbytes v2 = Some (mem_write b ?n (u32_le_bytes ?x))" "vm_ltop v2 = vm_ltop v" "imm8 code2 pc2 0 < 4"
      "imm8 code2 pc2 1 < 4" "vm_r v2 (imm8 code2 pc2 1) = off" for v2 code2 pc2 need2
    using v2 lt n o read_u32_le_mem_write [OF n, of ?x]
    by (simp add: op_lbr_mov4_def or_undef_def csc_at_def lb_get_def read_u32_le_eq del: not_less)
  ultimately show ?thesis using True by simp
next
  case False
  have "unat (off + 3) = unat off + 3" using assms(6) by (simp add: unat_word_ariths)
  with False have "off + 3 \<ge> vm_ltop v" by (simp add: word_le_nat_alt)
  with False assms(2-4) show ?thesis
    by (simp add: op_rlb_mov4_def op_lbr_mov4_def or_undef_def csc_at_def assms(5) [symmetric, unfolded One_nat_def])
qed

theorem arena_store_load_witness:
  "\<exists>v1. op_rlb_mov4 [55, 1, 0] 0 3 vm_demo = Yield v1 \<and> vm_lbytes v1 \<noteq> None"
proof -
  have d: "vm_lbytes vm_demo = Some (replicate 16 0)" "imm8 [55, 1, 0] 0 0 < 4" "imm8 [55, 1, 0] 0 1 < 4"
      "(0 :: u32) = vm_r vm_demo (imm8 [55, 1, 0] 0 1)" "unat (0 :: u32) < 2 ^ 32 - 3"
      "unat (0 :: u32) + 4 \<le> unat (vm_ltop vm_demo)"
    by (simp_all add: vm_demo_def vm_zero_def imm8_def vm_r_def)
  from arena_store_load [OF vm_demo_wf d(1-5), of 3] d(6) show ?thesis
    by (simp add: vm_adv_def)
qed

text \<open>C15: The range check of RLB_MOV4 and LBR_MOV4 wraps. With an offset register in the last
  three values of a 32-bit word, and an arena whose top is above the wrapped end, both pass their
  check and access bytes outside the arena.\<close>

theorem arena_mov4_check_wraps:
  assumes "vm_wf v" and "vm_lbytes v = Some b" and "imm8 code pc 0 < 4" and "imm8 code pc 1 < 4"
    and "off = vm_r v (imm8 code pc 1)" and "2 ^ 32 - 3 \<le> unat off" and "unat off - (2 ^ 32 - 3) < unat (vm_ltop v)"
    and "length b \<le> 2 ^ 32 - 4"
  shows "op_rlb_mov4 code pc need v = Undef \<and> op_lbr_mov4 code pc need v = Undef"
proof -
  have "unat (off + 3) = unat off - (2 ^ 32 - 3)"
    using assms(6) u32_bound [of off] by (simp add: unat_word_ariths mod_if)
  with assms(7) have "\<not> off + 3 \<ge> vm_ltop v" by (simp add: word_le_nat_alt)
  moreover have "\<not> unat off < length b" using assms(6,8) by simp
  ultimately show ?thesis using assms(2-4)
    by (simp add: op_rlb_mov4_def op_lbr_mov4_def or_undef_def csc_at_def assms(5) [symmetric, unfolded One_nat_def] lb_get_def lb_put_def del: not_less)
qed

theorem arena_mov4_check_wraps_witness:
  "op_lbr_mov4 [56, 1, 0] 0 3 (vm_set_r 0 0xFFFFFFFE vm_demo) = Undef"
proof -
  let ?v = "vm_set_r 0 0xFFFFFFFE vm_demo"
  have d: "vm_lbytes ?v = Some (replicate 16 0)" "imm8 [56, 1, 0] 0 0 < 4" "imm8 [56, 1, 0] 0 1 < 4"
      "(0xFFFFFFFE :: u32) = vm_r ?v (imm8 [56, 1, 0] 0 1)" "2 ^ 32 - 3 \<le> unat (0xFFFFFFFE :: u32)"
      "unat (0xFFFFFFFE :: u32) - (2 ^ 32 - 3) < unat (vm_ltop ?v)"
      "length (replicate 16 (0 :: u8)) \<le> 2 ^ 32 - 4"
    by (simp_all add: vm_demo_def vm_zero_def imm8_def vm_r_def)
  from arena_mov4_check_wraps [OF vm_set_r_wf [OF vm_demo_wf] d] show ?thesis ..
qed

section \<open>Comparing and branching\<close>

text \<open>C16: Branching on a comparison. CMP leaves the sign of the signed comparison of r0 with r1
  in r0 and changes no other register; from there JLZ is taken exactly when r0 was less, JGZ when
  it was greater, JZ when the two were equal and JNZ when they differed, each to the offset counted
  from the next instruction. This is what the code does; the comments of the opcode table have CMP compare the two
  words on top of the stack and the four jumps test the top of the stack, but none of
  the five touches the stack.\<close>

theorem compare_and_branch:
  assumes "vm_wf v"
  shows "\<exists>v1. op_cmp code pc need v = Yield v1 \<and> vm_wf v1 \<and> vm_pc v1 = of_nat (pc + need)
    \<and> drop 1 (vm_csc v1) = drop 1 (vm_csc v) \<and> vm_list v1 = vm_list v
    \<and> (\<forall>c p n. op_jlz c p n v1 = Yield (if sint (vm_r v 0) < sint (vm_r v 1)
                  then vm_set_pc (word_of_int (rel_target c p n)) v1 else vm_adv p n v1)
       \<and> op_jgz c p n v1 = Yield (if sint (vm_r v 1) < sint (vm_r v 0)
                  then vm_set_pc (word_of_int (rel_target c p n)) v1 else vm_adv p n v1)
       \<and> (0 \<le> rel_target c p n \<and> rel_target c p n \<le> int (length c) \<longrightarrow>
            op_jz c p n v1 = Yield (if vm_r v 0 = vm_r v 1
                  then vm_set_pc (word_of_int (rel_target c p n)) v1 else vm_adv p n v1)
          \<and> op_jnz c p n v1 = Yield (if vm_r v 0 \<noteq> vm_r v 1
                  then vm_set_pc (word_of_int (rel_target c p n)) v1 else vm_adv p n v1))
       \<and> vm_list (vm_adv p n v1) = vm_list v \<and> vm_list (vm_set_pc (word_of_int (rel_target c p n)) v1) = vm_list v)"
proof -
  define x where "x = cmp_word (vm_r v 0) (vm_r v 1)"
  define v1 where "v1 = vm_adv pc need (vm_set_r 0 x v)"
  have r0: "vm_r v1 0 = x" using assms by (simp add: vm_r_def vm_adv_def v1_def vm_wf_def)
  have s: "sint x < 0 \<longleftrightarrow> sint (vm_r v 0) < sint (vm_r v 1)" "0 < sint x \<longleftrightarrow> sint (vm_r v 1) < sint (vm_r v 0)"
      "x = 0 \<longleftrightarrow> vm_r v 0 = vm_r v 1"
    using signed_word_eqI [of "vm_r v 0" "vm_r v 1"] by (auto simp: cmp_word_def x_def)
  have op: "op_cmp code pc need v = Yield v1" by (simp add: op_cmp_def v1_def x_def)
  have fr: "vm_wf v1" "vm_list v1 = vm_list v" "drop 1 (vm_csc v1) = drop 1 (vm_csc v)" "vm_pc v1 = of_nat (pc + need)"
    using assms by (simp_all add: v1_def vm_set_pc_wf vm_set_r_wf vm_list_def vm_adv_def)
  note jumps = op_jlz_def op_jgz_def op_jz_def op_jnz_def jump_checked_def Let_def r0 s
  show ?thesis by (intro exI [of _ v1] conjI allI op fr impI) (simp_all add: jumps fr(2), simp add: vm_list_def fr(2) [unfolded vm_list_def])
qed

theorem compare_and_branch_witness:
  "\<exists>v1. op_cmp [47] 0 1 vm_demo = Yield v1 \<and> op_jnz [23, 0, 0, 0, 0, 0] 0 5 v1 = Yield (vm_adv 0 5 v1)"
proof -
  have r: "vm_r vm_demo 0 = vm_r vm_demo 1" by (simp add: vm_r_def vm_demo_def vm_zero_def)
  have t: "0 \<le> rel_target [23, 0, 0, 0, 0, 0] 0 5 \<and> rel_target [23, 0, 0, 0, 0, 0] 0 5 \<le> int (length [23, 0, 0, 0, 0, 0 :: u8])"
    by (simp add: rel_target_def imm32_def read_u32_le_def)
  obtain v1 where v1: "op_cmp [47] 0 1 vm_demo = Yield v1"
      "\<forall>c p n. 0 \<le> rel_target c p n \<and> rel_target c p n \<le> int (length c) \<longrightarrow>
         op_jnz c p n v1 = Yield (if vm_r vm_demo 0 \<noteq> vm_r vm_demo 1
           then vm_set_pc (word_of_int (rel_target c p n)) v1 else vm_adv p n v1)"
    using compare_and_branch [OF vm_demo_wf, of "[47]" 0 1] by blast
  from v1(2) t have "op_jnz [23, 0, 0, 0, 0, 0] 0 5 v1 = Yield (vm_adv 0 5 v1)" unfolding r by simp
  with v1(1) show ?thesis by blast
qed

section \<open>Integers in float registers\<close>

lemma vm_unop_eval:
  assumes "vm_wf v" and "vm_list v = a # xs" and "f a = Some r"
  shows "vm_effect pc need (r # xs) v (vm_unop name f code pc need v)"
proof -
  let ?k = "\<lambda>ua v1. or_undef (f ua) (\<lambda>r. vm_push (name @ '': stack overflow'') r v1 (\<lambda>v2. Yield (vm_adv pc need v2)))"
  obtain s1 where s1: "vm_unop name f code pc need v = ?k a (v\<lparr>vm_stack := s1\<rparr>)"
      "stack_wf s1" "stack_list s1 = xs" "st_cap s1 = st_cap (vm_stack v)"
    using vm_pop_eval [OF assms(1,2), of _ ?k] unfolding vm_unop_def by blast
  have w: "vm_wf (v\<lparr>vm_stack := s1\<rparr>)" using assms(1) s1(2) by (rule vm_wf_stack)
  have room: "length (vm_list (v\<lparr>vm_stack := s1\<rparr>)) < st_cap (vm_stack (v\<lparr>vm_stack := s1\<rparr>))"
    using vm_list_cap [OF assms(1)] assms(2) s1 by simp
  from vm_push_eval [OF w room, of "name @ '': stack overflow''" r "\<lambda>v2. Yield (vm_adv pc need v2)"] s1
  show ?thesis by (auto simp: vm_effect_def or_undef_def assms(3))
qed

text \<open>C17: Float instructions on integers are exact. An integer below two to the 24 in absolute
  value survives I32_TO_F32 and F32_TO_I32; and ADD, SUB and MUL on two converted integers, whose
  result again is below that bound, leave a float that converts to the exact integer result.\<close>

theorem float_integers_exact:
  assumes "\<bar>i\<bar> < 2 ^ 24" and "\<bar>j\<bar> < 2 ^ 24" and "vm_wf v"
  shows "(vm_list v = word_of_int i # xs \<longrightarrow>
      vm_effect pc need (f32_of_int i # xs) v (op_i32_to_f32 code pc need v))
    \<and> (vm_list v = f32_of_int i # xs \<longrightarrow>
      vm_effect pc need (word_of_int i # xs) v (op_f32_to_i32 code pc need v))
    \<and> (vm_list v = f32_of_int j # f32_of_int i # xs \<longrightarrow>
      list_all (\<lambda>(h, f). \<bar>f i j\<bar> < 2 ^ 24 \<longrightarrow>
        (\<exists>w. f32_to_i32 w = Some (word_of_int (f i j)) \<and> vm_effect pc need (w # xs) v (h code pc need v)))
       [(op_add_f32 nc, (+)), (op_sub_f32 nc, (-)), (op_mul_f32 nc, (*))])"
proof -
  obtain ki kj where k: "f32_rep (f32_of_int i) i ki" "f32_rep (f32_of_int j) j kj"
    using f32_rep_of_int assms(1,2) by blast
  have si: "sint (word_of_int i :: u32) = i" using assms(1) by (intro sint_word_of_int_range) auto
  have sub: "f32_to_i32 (f32_sub nan (f32_of_int i) (f32_of_int j)) = Some (word_of_int (i - j))"
    if "\<bar>i - j\<bar> < 2 ^ 24" for nan
    using f32_add_int [OF k(1) f32_rep_neg [OF k(2)]] that by (simp add: f32_sub_def)
  have un: "vm_effect pc need (r # xs) v (vm_unop name f code pc need v)"
    if "vm_list v = a # xs" "f a = Some r" for a r name f
    using that by (rule vm_unop_eval [OF assms(3)])
  note bin = vm_binop_eval [OF assms(3), where code = code and pc = pc and need = need]
  show ?thesis
    unfolding op_i32_to_f32_def op_f32_to_i32_def op_add_f32_def op_sub_f32_def op_mul_f32_def
    by (auto intro!: un exI conjI bin simp: si f32_of_int_exact [OF assms(1)])
       (use f32_add_int [OF k] sub f32_mul_int [OF k] in \<open>auto intro!: exI conjI bin\<close>)
qed

theorem float_integers_exact_witness:
  "vm_effect 0 1 [f32_of_int 3, 7] vm_demo (op_i32_to_f32 [124] 0 1 vm_demo)"
proof -
  have l: "vm_list vm_demo = word_of_int 3 # [7]" by (simp add: vm_list_def vm_demo_def stack_list_def)
  from float_integers_exact [OF _ _ vm_demo_wf, of 3 4 "[7]" 0 1 "[124]" nc_demo] l show ?thesis by simp
qed

end
