(* ===== verification/EpaWorker.thy ===== *)
theory EpaWorker
  imports EpaVm EpaRing EpaDynPool
begin

text \<open>
  The state of a worker, \<open>src/vm/epa_worker_state.c\<close>: the virtual machine, the scheduling
  flags, the two word rings, the ingress bookkeeping and the dynamic pools. A worker that owns no
  pools but was attached to the kernel's points at the kernel's array: \<open>PoolsShared\<close>.
  Flags that the code only tests and sets to 0 or 1 are booleans.
\<close>

datatype worker_pools = PoolsNull | PoolsOwned "dyn_pool list" | PoolsShared

datatype epa_exec_type = EPA_EXEC_WORKER | EPA_EXEC_THREAD

record epa_worker =
  w_exec :: epa_exec_type
  w_vm :: epa_vm
  w_id :: u32
  w_inited :: bool
  w_halted :: bool
  w_retired :: bool
  w_privilege :: u32
  w_blocked :: bool
  w_faulted :: bool
  w_fault_message :: string
  w_waiting :: bool
  w_has_ghs :: bool
  w_ignore_max_ticks :: bool
  w_abs_base :: u32
  w_code_len :: u32
  w_inq :: id_ring
  w_outq :: id_ring
  w_mailbox :: "u8 list option"
  w_ghs :: u64
  w_kernel_uid :: u64
  w_worker_id :: u32
  w_src_kernel :: u64
  w_src_worker :: u32
  w_pools :: worker_pools
  w_pool_count :: u32

definition "EPA_HOST_KERNEL_UID = (- 1 :: u64)"
definition "EPA_HOST_WORKER_ID = (- 1 :: u32)"

definition worker_zero :: epa_worker where
  "worker_zero = \<lparr>w_exec = EPA_EXEC_WORKER, w_vm = vm_zero, w_id = 0, w_inited = False, w_halted = False,
     w_retired = False, w_privilege = 0, w_blocked = False, w_faulted = False, w_fault_message = [],
     w_waiting = False, w_has_ghs = False, w_ignore_max_ticks = False, w_abs_base = 0, w_code_len = 0,
     w_inq = ring_zero, w_outq = ring_zero, w_mailbox = None, w_ghs = 0, w_kernel_uid = 0,
     w_worker_id = 0, w_src_kernel = 0, w_src_worker = 0, w_pools = PoolsNull, w_pool_count = 0\<rparr>"

text \<open>The answers of the allocations made by a worker: the stack, the two rings and
  \<open>malloc\<close>.\<close>

record worker_mem =
  wm_stack :: bool
  wm_in :: bool
  wm_out :: bool
  wm_al :: allocator

definition epa_worker_init ::
  "worker_mem \<Rightarrow> u32 \<Rightarrow> u32 \<Rightarrow> u32 \<Rightarrow> u32 \<Rightarrow> u32 \<Rightarrow> u32 \<Rightarrow> (string \<times> epa_worker) + epa_worker" where
  "epa_worker_init wm block_id body_start_pc body_end_pc in_words out_words mailbox_size =
     (let vm = (snd (epa_vm_init (wm_stack wm) (wm_al wm)))
                 \<lparr>vm_lcap := 64 * 1024, vm_lbytes := wm_al wm (64 * 1024), vm_ltop := 0\<rparr>;
          w = worker_zero\<lparr>w_id := block_id, w_abs_base := body_start_pc, w_code_len := body_end_pc,
                w_vm := vm, w_worker_id := block_id, w_src_kernel := EPA_HOST_KERNEL_UID,
                w_src_worker := EPA_HOST_WORKER_ID\<rparr>;
          (ok_in, inq) = epa_ring_init (wm_in wm) (w_inq w) (if in_words \<noteq> 0 then in_words else 1)
      in if \<not> ok_in then Inl (''worker %u: in ring init failed'', w\<lparr>w_inq := inq\<rparr>)
         else
           let (ok_out, outq) = epa_ring_init (wm_out wm) (w_outq w) (if out_words \<noteq> 0 then out_words else 1)
           in if \<not> ok_out
              then Inl (''worker %u: out ring init failed'',
                        w\<lparr>w_inq := epa_ring_free inq, w_outq := outq\<rparr>)
              else Inr (w\<lparr>w_inq := inq, w_outq := outq,
                          w_mailbox := wm_al wm (unat mailbox_size), w_inited := True\<rparr>))"

definition worker_free_dynamic_pools :: "epa_worker \<Rightarrow> epa_worker" where
  "worker_free_dynamic_pools w =
     (if w_pools w = PoolsNull then w else w\<lparr>w_pools := PoolsNull, w_pool_count := 0\<rparr>)"

definition epa_worker_free :: "epa_worker \<Rightarrow> epa_worker" where
  "epa_worker_free w = (if \<not> w_inited w then w else worker_zero)"

definition epa_worker_reset :: "worker_mem \<Rightarrow> epa_worker \<Rightarrow> epa_worker" where
  "epa_worker_reset wm w =
     (if \<not> w_inited w then w
      else
        let vm = (snd (epa_vm_init (wm_stack wm) (wm_al wm)))
        in w\<lparr>w_vm := vm\<lparr>vm_csc := replicate 4 0, vm_eip := (vm_eip vm)\<lparr>eip_pc := 0\<rparr>,
                       vm_lcap := 64 * 1024, vm_lbytes := wm_al wm (64 * 1024), vm_ltop := 0\<rparr>,
             w_inq := epa_ring_clear (w_inq w), w_outq := epa_ring_clear (w_outq w),
             w_faulted := False, w_fault_message := [], w_halted := False, w_retired := False,
             w_privilege := 0, w_waiting := False, w_has_ghs := False, w_ignore_max_ticks := False,
             w_ghs := 0, w_worker_id := w_id w, w_src_kernel := EPA_HOST_KERNEL_UID,
             w_src_worker := EPA_HOST_WORKER_ID, w_blocked := False\<rparr>)"

record dyn_pool_config =
  dc_pool_id :: u32
  dc_elem :: u32
  dc_min_free :: u32
  dc_max_free :: u32
  dc_grow :: u32

fun init_pools :: "dyn_pool_config list \<Rightarrow> (string, dyn_pool list) res" where
  "init_pools [] = Ok []"
| "init_pools (c # cs) =
     (case epa_dynamic_pool_init (dc_min_free c) (dc_max_free c) (dc_grow c) (dc_elem c) of
        Err e \<Rightarrow> Err e | Ub \<Rightarrow> Ub
      | Ok p \<Rightarrow> (case init_pools cs of Err e \<Rightarrow> Err e | Ub \<Rightarrow> Ub | Ok ps \<Rightarrow> Ok (p # ps)))"

text \<open>\<open>ok\<close> is the answer of \<open>calloc\<close>; the state is returned on failure too, since
  the old pools are freed first.\<close>

definition epa_worker_configure_dynamic_pools ::
  "bool \<Rightarrow> epa_worker \<Rightarrow> dyn_pool_config list \<Rightarrow> (string \<times> epa_worker) + epa_worker" where
  "epa_worker_configure_dynamic_pools ok w configs =
     (if \<not> w_inited w then Inl (''worker dynamic config: worker not initialized'', w)
      else let w1 = worker_free_dynamic_pools w in
        if configs = [] then Inr w1
        else if \<not> ok then Inl (''worker dynamic config: OOM'', w1)
        else case init_pools configs of
          Ok ps \<Rightarrow> Inr (w1\<lparr>w_pools := PoolsOwned ps, w_pool_count := of_nat (length configs)\<rparr>)
        | Err e \<Rightarrow> Inl (e, w1)
        | Ub \<Rightarrow> Inl ([], w1))"

definition epa_worker_attach_dynamic_pools :: "epa_worker \<Rightarrow> u32 \<Rightarrow> (string \<times> epa_worker) + epa_worker" where
  "epa_worker_attach_dynamic_pools w pool_count =
     (if \<not> w_inited w then Inl (''worker dynamic attach: worker not initialized'', w)
      else Inr ((worker_free_dynamic_pools w)\<lparr>w_pools := PoolsShared, w_pool_count := pool_count\<rparr>))"

text \<open>Entering a round on an array of pools; the result keeps the pools already entered when
  one fails. \<open>None\<close>: a growth loop does not end.\<close>

fun pools_round_enter :: "allocator \<Rightarrow> dyn_pool list \<Rightarrow> ((string, unit) res \<times> dyn_pool list) option" where
  "pools_round_enter al [] = Some (Ok (), [])"
| "pools_round_enter al (p # ps) =
     (case epa_dynamic_pool_round_enter al p of
        None \<Rightarrow> None
      | Some (Err e) \<Rightarrow> Some (Err e, p # ps)
      | Some Ub \<Rightarrow> Some (Ub, p # ps)
      | Some (Ok p') \<Rightarrow> map_option (\<lambda>(r, ps'). (r, p' # ps')) (pools_round_enter al ps))"

definition epa_worker_round_enter ::
  "allocator \<Rightarrow> epa_worker \<Rightarrow> dyn_pool list \<Rightarrow> ((string, unit) res \<times> epa_worker \<times> dyn_pool list) option" where
  "epa_worker_round_enter al w shared =
     (if \<not> w_inited w then Some (Err ''worker round enter: worker not initialized'', w, shared)
      else case w_pools w of
        PoolsNull \<Rightarrow> if w_pool_count w = 0 then Some (Ok (), w, shared) else Some (Ub, w, shared)
      | PoolsOwned ps \<Rightarrow>
          map_option (\<lambda>(r, ps'). (r, w\<lparr>w_pools := PoolsOwned ps'\<rparr>, shared)) (pools_round_enter al ps)
      | PoolsShared \<Rightarrow> map_option (\<lambda>(r, ps'). (r, w, ps')) (pools_round_enter al shared))"

section \<open>Invariant\<close>

definition pools_wf :: "worker_pools \<Rightarrow> bool" where
  "pools_wf ps \<longleftrightarrow> (case ps of PoolsOwned l \<Rightarrow> list_all dyn_ok l | _ \<Rightarrow> True)"

definition worker_wf :: "epa_worker \<Rightarrow> bool" where
  "worker_wf w \<longleftrightarrow> vm_wf (w_vm w) \<and> ring_inv (w_inq w) \<and> ring_inv (w_outq w) \<and> pools_wf (w_pools w)"

text \<open>The machine is a field of the worker.\<close>

definition w_put_vm :: "epa_vm \<Rightarrow> epa_worker \<Rightarrow> epa_worker" where
  "w_put_vm v w = w\<lparr>w_vm := v\<rparr>"

interpretation wvm: state_field w_vm w_put_vm
  by unfold_locales (simp_all add: w_put_vm_def)

lemma w_put_vm_wf: "worker_wf w \<Longrightarrow> vm_wf v \<Longrightarrow> worker_wf (w_put_vm v w)"
  by (simp add: worker_wf_def w_put_vm_def)

text \<open>Every handler of the virtual machine that keeps its invariant keeps the worker's.\<close>

lemma lift_vm_wf:
  assumes "\<And>v. vm_wf v \<Longrightarrow> pred_hres vm_wf (h v)" and "worker_wf w"
  shows "pred_hres worker_wf (lift_h w_vm w_put_vm h w)"
proof -
  have "vm_wf (w_vm w)" using assms(2) by (simp add: worker_wf_def)
  from wvm.lift_pred [where P = vm_wf, OF assms(1) this]
  have "pred_hres (\<lambda>w'. vm_wf (w_vm w') \<and> w' = w_put_vm (w_vm w') w) (lift_h w_vm w_put_vm h w)" .
  then show ?thesis
    by (rule hres.pred_mono_strong) (metis assms(2) w_put_vm_wf)
qed

end
