(* ===== verification/EpaKernel.thy ===== *)
theory EpaKernel
  imports EpaWorker EpaRgm ProgramDesc
begin

text \<open>
  The kernel, \<open>src/epa_kernel.h\<close>: the workers with their active list, the handle space,
  the queues of requests and of ingress messages, and the routines on it that every scheduler and
  instruction uses: delivery of messages and handles to a worker
  (\<open>src/epa_kernel_so.c\<close>) and the list of active workers
  (\<open>src/epa_kernel_hooks.c\<close>). The 256-slot arrays are functions of the slot. What a debug
  callback would be called with is appended to \<open>k_events\<close>.
\<close>

section \<open>Array queues\<close>

text \<open>The three fixed-size queues of the kernel share one shape: an array, two indices and a
  count.\<close>

record 'a cqueue =
  cq_slots :: "'a list"
  cq_head :: u32
  cq_tail :: u32
  cq_count :: u32

definition cq_qmax :: "'a cqueue \<Rightarrow> u32" where
  "cq_qmax q = of_nat (length (cq_slots q))"

definition cq_push :: "'a \<Rightarrow> 'a cqueue \<Rightarrow> 'a cqueue option" where
  "cq_push x q =
     (if cq_count q \<ge> cq_qmax q then None
      else Some (q\<lparr>cq_slots := (cq_slots q)[unat (cq_tail q) := x],
                   cq_tail := (cq_tail q + 1) mod cq_qmax q, cq_count := cq_count q + 1\<rparr>))"

text \<open>\<open>z\<close> is what the code leaves in the slot.\<close>

definition cq_pop :: "('a \<Rightarrow> 'a) \<Rightarrow> 'a cqueue \<Rightarrow> ('a \<times> 'a cqueue) option" where
  "cq_pop z q =
     (if cq_count q = 0 then None
      else let x = cq_slots q ! unat (cq_head q) in
        Some (x, q\<lparr>cq_slots := (cq_slots q)[unat (cq_head q) := z x],
                   cq_head := (cq_head q + 1) mod cq_qmax q, cq_count := cq_count q - 1\<rparr>))"

definition cq_zero :: "nat \<Rightarrow> 'a \<Rightarrow> 'a cqueue" where
  "cq_zero n x = \<lparr>cq_slots = replicate n x, cq_head = 0, cq_tail = 0, cq_count = 0\<rparr>"

definition cq_inv :: "'a cqueue \<Rightarrow> bool" where
  "cq_inv q \<longleftrightarrow> 0 < length (cq_slots q) \<and> length (cq_slots q) < 2 ^ 32
     \<and> cq_head q < cq_qmax q \<and> cq_count q \<le> cq_qmax q
     \<and> unat (cq_tail q) = (unat (cq_head q) + unat (cq_count q)) mod length (cq_slots q)"

definition cq_list :: "'a cqueue \<Rightarrow> 'a list" where
  "cq_list q = map (\<lambda>i. cq_slots q ! ((unat (cq_head q) + i) mod length (cq_slots q))) [0..<unat (cq_count q)]"

section \<open>The kernel's state\<close>

datatype mem_req_kind = EPA_SYSTEM_MEM_REQ_DYNAMIC_POOL_CAPACITY | MemReqOther

record at_request =
  ar_id :: u64
  ar_wid :: u32
  ar_index :: u32
  ar_words :: "u32 list"

record mem_request =
  mr_id :: u64
  mr_wid :: u32
  mr_kind :: mem_req_kind
  mr_pool :: u32
  mr_capacity :: u32
  mr_hard :: bool

record ingress_msg =
  im_buf :: "u8 list option"
  im_len :: u32
  im_tag :: u32
  im_src_kernel :: u64
  im_src_worker :: u32

datatype kdbg_kind = KDBG_BREAK | KDBG_TRAP | KDBG_EXCEPT | KDBG_SIGNAL | KDBG_EGRESS

record kdbg_event =
  ev_kind :: kdbg_kind
  ev_wid :: u8
  ev_code :: u32
  ev_at :: "epa_eip option"
  ev_msg :: string

datatype sched_profile = EPA_SCHED_WAVE | EPA_SCHED_CPU_THREAD | EPA_SCHED_DEBUG

text \<open>The lifecycle of a kernel as its host sees it (\<open>EpaKernelStatus\<close>,
  \<open>src/epa_kernel_so.h\<close>).\<close>

datatype kernel_status = EPA_KERNEL_STATUS_UNLOADED | EPA_KERNEL_STATUS_LOADED | EPA_KERNEL_STATUS_RUNNING
  | EPA_KERNEL_STATUS_STOPPED | EPA_KERNEL_STATUS_HALTED | EPA_KERNEL_STATUS_FAULTED | EPA_KERNEL_STATUS_ERROR

record epa_kernel =
  k_syncq :: id_ring
  k_workers :: "nat \<Rightarrow> epa_worker"
  k_cur :: u32
  k_rr :: u32
  k_n :: u32
  k_head :: u32
  k_next :: "nat \<Rightarrow> u32"
  k_priv_locked :: bool
  k_ghs :: epa_ghs
  k_rgm :: epa_rgm
  k_pools :: "dyn_pool list option"
  k_atq :: "at_request cqueue"
  k_at_next :: u64
  k_memq :: "mem_request cqueue"
  k_mem_next :: u64
  k_interrupt :: bool
  k_deliveries :: u64
  k_ingress :: "nat \<Rightarrow> ingress_msg cqueue"
  k_prog :: program
  k_loaded :: bool
  k_uid :: u64
  k_local_uid :: u64
  k_pid :: u32
  k_child :: bool
  k_acl :: "acl_entry list"
  k_staged :: "u8 list option"
  k_staged_flags :: u32
  k_reset_pending :: bool
  k_profile :: sched_profile
  k_last_signal :: "u8 list"
  k_last_signal_len :: u32
  k_last_signal_wid :: u32
  k_id :: "string option"
  k_status :: kernel_status
  k_error :: string
  k_events :: "kdbg_event list"

text \<open>A kernel routine returns its result (\<open>Err\<close>: return value 0 with the message left
  in \<open>err\<close>) and the state in both cases.\<close>

type_synonym 'a kres = "(string, 'a) res \<times> epa_kernel"

definition k_upd_w :: "nat \<Rightarrow> (epa_worker \<Rightarrow> epa_worker) \<Rightarrow> epa_kernel \<Rightarrow> epa_kernel" where
  "k_upd_w i f k = k\<lparr>k_workers := (k_workers k)(i := f (k_workers k i))\<rparr>"

definition kdbg_emit :: "kdbg_kind \<Rightarrow> u8 \<Rightarrow> u32 \<Rightarrow> epa_eip option \<Rightarrow> string \<Rightarrow> epa_kernel \<Rightarrow> epa_kernel" where
  "kdbg_emit kind wid c at msg k = k\<lparr>k_events := k_events k @
     [\<lparr>ev_kind = kind, ev_wid = wid, ev_code = c, ev_at = at, ev_msg = msg\<rparr>]\<rparr>"

text \<open>Every scheduler sets the kernel's flag; the thread scheduler also stops its threads.\<close>

text \<open>The message is cut to the size of the buffer in the code; here it is kept whole.\<close>

definition epa_kernel_set_status_text :: "kernel_status \<Rightarrow> string \<Rightarrow> epa_kernel \<Rightarrow> epa_kernel" where
  "epa_kernel_set_status_text st detail k = k\<lparr>k_status := st, k_error := detail\<rparr>"

definition epa_kernel_set_status_only :: "kernel_status \<Rightarrow> epa_kernel \<Rightarrow> epa_kernel" where
  "epa_kernel_set_status_only st k = k\<lparr>k_status := st\<rparr>"

definition epa_kernel_request_interrupt :: "epa_kernel \<Rightarrow> epa_kernel" where
  "epa_kernel_request_interrupt k = k\<lparr>k_interrupt := True\<rparr>"

definition kernel_fault_worker :: "u32 \<Rightarrow> string \<Rightarrow> epa_kernel \<Rightarrow> epa_kernel" where
  "kernel_fault_worker wid msg k =
     (if wid \<ge> 256 \<or> \<not> w_inited (k_workers k (unat wid)) then k
      else k_upd_w (unat wid) (\<lambda>w. w\<lparr>w_faulted := True, w_fault_message := msg\<rparr>) k)"

section \<open>Dynamic pools of a worker\<close>

definition w_pool_list :: "epa_kernel \<Rightarrow> epa_worker \<Rightarrow> dyn_pool list option" where
  "w_pool_list k w =
     (case w_pools w of PoolsNull \<Rightarrow> None | PoolsOwned ps \<Rightarrow> Some ps | PoolsShared \<Rightarrow> k_pools k)"

definition worker_dynamic_pool_by_id :: "epa_kernel \<Rightarrow> epa_worker \<Rightarrow> u32 \<Rightarrow> dyn_pool cres" where
  "worker_dynamic_pool_by_id k w pool_id =
     (case w_pool_list k w of
        None \<Rightarrow> CFail
      | Some ps \<Rightarrow> if pool_id \<ge> w_pool_count w then CFail
                   else if unat pool_id < length ps then COk (ps ! unat pool_id) else CUndef)"

text \<open>Writing a pool back where the worker's pointer leads.\<close>

definition w_pool_put :: "u32 \<Rightarrow> dyn_pool \<Rightarrow> epa_worker \<times> epa_kernel \<Rightarrow> epa_worker \<times> epa_kernel" where
  "w_pool_put pool_id p wk =
     (let (w, k) = wk in
      case w_pools w of
        PoolsNull \<Rightarrow> (w, k)
      | PoolsOwned ps \<Rightarrow> (w\<lparr>w_pools := PoolsOwned (ps[unat pool_id := p])\<rparr>, k)
      | PoolsShared \<Rightarrow> (w, k\<lparr>k_pools := map_option (\<lambda>ps. ps[unat pool_id := p]) (k_pools k)\<rparr>))"

definition k_pool_put :: "nat \<Rightarrow> u32 \<Rightarrow> dyn_pool \<Rightarrow> epa_kernel \<Rightarrow> epa_kernel" where
  "k_pool_put i pool_id p k =
     (let (w, k1) = w_pool_put pool_id p (k_workers k i, k) in k_upd_w i (\<lambda>_. w) k1)"

text \<open>\<open>epa_worker_round_enter\<close> on the worker of a slot.\<close>

definition k_round_enter :: "allocator \<Rightarrow> nat \<Rightarrow> epa_kernel \<Rightarrow> unit kres" where
  "k_round_enter al i k =
     (case epa_worker_round_enter al (k_workers k i) (case k_pools k of None \<Rightarrow> [] | Some ps \<Rightarrow> ps) of
        None \<Rightarrow> (Ub, k)
      | Some (r, w, shared) \<Rightarrow>
          (r, (k_upd_w i (\<lambda>_. w) k)\<lparr>k_pools := map_option (\<lambda>_. shared) (k_pools k)\<rparr>))"

section \<open>The array queues implement a bounded queue\<close>

lemma cq_qmax_unat: "cq_inv q \<Longrightarrow> unat (cq_qmax q) = length (cq_slots q)"
  by (simp add: cq_inv_def cq_qmax_def unat_of_nat)

lemma cq_inv_facts:
  "cq_inv q \<Longrightarrow> 0 < length (cq_slots q) \<and> unat (cq_head q) < length (cq_slots q)
     \<and> unat (cq_count q) \<le> length (cq_slots q)
     \<and> unat (cq_tail q) = (unat (cq_head q) + unat (cq_count q)) mod length (cq_slots q)"
proof -
  assume q: "cq_inv q"
  note m = cq_qmax_unat [OF q]
  from q have "cq_head q < cq_qmax q" "cq_count q \<le> cq_qmax q" by (simp_all add: cq_inv_def)
  with m have "unat (cq_head q) < length (cq_slots q)" "unat (cq_count q) \<le> length (cq_slots q)"
    by (metis word_less_nat_alt, metis word_le_nat_alt)
  with q show ?thesis by (simp add: cq_inv_def)
qed

lemma length_cq_list [simp]: "length (cq_list q) = unat (cq_count q)"
  by (simp add: cq_list_def)

lemma cq_zero_inv: "0 < n \<Longrightarrow> n < 2 ^ 32 \<Longrightarrow> cq_inv (cq_zero n x) \<and> cq_list (cq_zero n x) = []"
  by (simp add: cq_inv_def cq_zero_def cq_list_def cq_qmax_def word_less_nat_alt unat_of_nat)

lemma cq_pushed:
  assumes "cq_inv q" and "unat (cq_count q) < length (cq_slots q)"
  shows "\<exists>q'. cq_push x q = Some q' \<and> cq_inv q' \<and> length (cq_slots q') = length (cq_slots q)
    \<and> cq_list q' = cq_list q @ [x]"
proof -
  note f = cq_inv_facts [OF assms(1)] and m = cq_qmax_unat [OF assms(1)]
  have lt: "cq_count q < cq_qmax q" using assms(2) m by (simp add: word_less_nat_alt)
  have tl: "cq_tail q < cq_qmax q" using f m by (simp add: word_less_nat_alt)
  have cnt: "unat (cq_count q + 1) = Suc (unat (cq_count q))" using unat_inc [OF lt] by simp
  have tl': "unat ((cq_tail q + 1) mod cq_qmax q) =
      (unat (cq_head q) + Suc (unat (cq_count q))) mod length (cq_slots q)"
    using unat_ring_next [OF tl] f m by (simp add: mod_Suc_eq)
  let ?q = "q\<lparr>cq_slots := (cq_slots q)[unat (cq_tail q) := x],
     cq_tail := (cq_tail q + 1) mod cq_qmax q, cq_count := cq_count q + 1\<rparr>"
  have "cq_push x q = Some ?q" using lt by (simp add: cq_push_def)
  moreover have "cq_inv ?q"
    using assms f m cnt tl' unfolding cq_inv_def by (simp add: cq_qmax_def word_le_nat_alt unat_of_nat)
  moreover have "cq_list ?q = cq_list q @ [x]"
    using ring_write_contents [of "unat (cq_count q)" "length (cq_slots q)" "unat (cq_head q)" "cq_slots q"
        "unat (cq_tail q)" x] assms(2) f
    by (simp add: cq_list_def cnt)
  ultimately show ?thesis by auto
qed

lemma cq_popped:
  assumes "cq_inv q" and "cq_list q = x # xs"
  shows "\<exists>q'. cq_pop z q = Some (x, q') \<and> cq_inv q' \<and> length (cq_slots q') = length (cq_slots q)
    \<and> cq_list q' = xs"
proof -
  note f = cq_inv_facts [OF assms(1)] and m = cq_qmax_unat [OF assms(1)]
  let ?n = "length (cq_slots q)" and ?h = "unat (cq_head q)"
  have len: "unat (cq_count q) = Suc (length xs)" using assms(2) length_cq_list [of q] by simp
  then have ne: "cq_count q \<noteq> 0" by auto
  have cnt: "unat (cq_count q - 1) = length xs" using unat_dec [OF ne] len by simp
  have hd: "cq_head q < cq_qmax q" using assms(1) by (simp add: cq_inv_def)
  have hd': "unat ((cq_head q + 1) mod cq_qmax q) = (?h + 1) mod ?n"
    using unat_ring_next [OF hd] m by simp
  have el: "cq_list q ! i = cq_slots q ! ((?h + i) mod ?n)" if "i \<le> length xs" for i
    using that len by (simp add: cq_list_def del: upt_Suc)
  have x: "x = cq_slots q ! ?h" using el [of 0] assms(2) f by simp
  let ?q = "q\<lparr>cq_slots := (cq_slots q)[?h := z x], cq_head := (cq_head q + 1) mod cq_qmax q,
     cq_count := cq_count q - 1\<rparr>"
  have "cq_pop z q = Some (x, ?q)" using ne x by (simp add: cq_pop_def Let_def)
  moreover have "cq_inv ?q"
    using assms(1) f m cnt hd' len unfolding cq_inv_def
    by (simp add: cq_qmax_def word_le_nat_alt word_less_nat_alt unat_of_nat mod_add_left_eq)
  moreover have "cq_list ?q = xs"
  proof (rule nth_equalityI)
    show "length (cq_list ?q) = length xs" by (simp add: cnt)
    fix i assume "i < length (cq_list ?q)"
    then have i: "i < length xs" by (simp add: cnt)
    have ne': "(?h + Suc i) mod ?n \<noteq> ?h"
    proof
      assume "(?h + Suc i) mod ?n = ?h"
      then have "?n dvd Suc i" using f by (metis add_diff_cancel_left' dvd_minus_mod mod_less mod_eq_dvd_iff_nat le_add1)
      then show False using i len f by (auto dest: dvd_imp_le)
    qed
    have "cq_list ?q ! i = (cq_slots q)[?h := z x] ! ((?h + Suc i) mod ?n)"
      using i by (simp add: cq_list_def cnt hd' mod_add_left_eq)
    also have "\<dots> = cq_list q ! Suc i" using ne' el [of "Suc i"] i by simp
    finally show "cq_list ?q ! i = xs ! i" using assms(2) by simp
  qed
  ultimately show ?thesis by auto
qed

interpretation cq: bounded_fifo cq_inv "\<lambda>q. length (cq_slots q)" cq_list cq_push "cq_pop z" for z
proof unfold_locales
  fix q :: "'a cqueue" assume "cq_inv q"
  then show "length (cq_list q) \<le> length (cq_slots q)" using cq_inv_facts by auto
next
  fix q :: "'a cqueue" and x assume "cq_inv q" "length (cq_list q) = length (cq_slots q)"
  then show "cq_push x q = None"
    using cq_qmax_unat [of q] by (simp add: cq_push_def word_le_nat_alt)
next
  fix q :: "'a cqueue" and x assume "cq_inv q" "length (cq_list q) < length (cq_slots q)"
  then show "\<exists>q'. cq_push x q = Some q' \<and> cq_inv q' \<and> length (cq_slots q') = length (cq_slots q)
      \<and> cq_list q' = cq_list q @ [x]" using cq_pushed [of q x] by simp
next
  fix q :: "'a cqueue" assume "cq_inv q" "cq_list q = []"
  then have "cq_count q = 0" by (metis length_cq_list list.size(3) unat_eq_0)
  then show "cq_pop z q = None" by (simp add: cq_pop_def)
next
  fix q :: "'a cqueue" and x xs assume "cq_inv q" "cq_list q = x # xs"
  then show "\<exists>q'. cq_pop z q = Some (x, q') \<and> cq_inv q' \<and> length (cq_slots q') = length (cq_slots q)
      \<and> cq_list q' = xs" by (rule cq_popped)
qed

end
