(* ===== verification/KernelIngress.thy ===== *)
theory KernelIngress
  imports EpaKernel
begin

text \<open>
  Messages into the workers of a kernel, \<open>src/epa_kernel_so.c\<close>: the ingress queues
  filled from outside (\<open>epa_kernel_ingress_push_framed\<close>), their delivery at a scheduling
  boundary (\<open>epa_kernel_drain_ingress\<close>), the delivery of handles by the transfer
  instructions, and the routing rules. A message is delivered as four words on the input ring of
  its worker: 1, the two halves of the handle and the length.
\<close>

definition pad4 :: "u32 \<Rightarrow> u32" where
  "pad4 n = (n + 3) AND NOT 3"

definition ingress_zero :: ingress_msg where
  "ingress_zero = \<lparr>im_buf = None, im_len = 0, im_tag = 0, im_src_kernel = 0, im_src_worker = 0\<rparr>"

text \<open>\<open>data\<close> holds the \<open>len\<close> bytes; \<open>memcpy\<close> of more than the padded
  block, when the padding wraps, is undefined. The result is the return value.\<close>

definition epa_kernel_ingress_push_framed ::
  "allocator \<Rightarrow> u32 \<Rightarrow> u32 \<Rightarrow> u8 list \<Rightarrow> u64 \<Rightarrow> u32 \<Rightarrow> epa_kernel \<Rightarrow> unit cres \<times> epa_kernel" where
  "epa_kernel_ingress_push_framed al wid tag data src_kernel src_worker k =
     (if wid \<ge> 256 then (CFail, k)
      else let q = k_ingress k (unat wid) in
        if cq_count q \<ge> cq_qmax q then (CFail, k)
        else let plen = pad4 (of_nat (length data)) in
          case al (unat plen) of
            None \<Rightarrow> (CFail, k)
          | Some b \<Rightarrow>
              if length data > length b then (CUndef, k)
              else let buf = data @ replicate (length b - length data) 0 in
                case cq_push \<lparr>im_buf = Some buf, im_len = plen, im_tag = tag,
                       im_src_kernel = src_kernel, im_src_worker = src_worker\<rparr> q of
                  None \<Rightarrow> (CFail, k)
                | Some q' \<Rightarrow> (COk (), k\<lparr>k_ingress := (k_ingress k)(unat wid := q')\<rparr>))"

definition epa_kernel_ingress_push_tagged ::
  "allocator \<Rightarrow> u32 \<Rightarrow> u32 \<Rightarrow> u8 list \<Rightarrow> epa_kernel \<Rightarrow> unit cres \<times> epa_kernel" where
  "epa_kernel_ingress_push_tagged al wid tag data =
     epa_kernel_ingress_push_framed al wid tag data EPA_HOST_KERNEL_UID EPA_HOST_WORKER_ID"

definition epa_kernel_ingress_push :: "allocator \<Rightarrow> u32 \<Rightarrow> u8 list \<Rightarrow> epa_kernel \<Rightarrow> unit cres \<times> epa_kernel" where
  "epa_kernel_ingress_push al wid data = epa_kernel_ingress_push_tagged al wid 0 data"

definition ingress_free_msg :: "ingress_msg \<Rightarrow> ingress_msg" where
  "ingress_free_msg m = \<lparr>im_buf = None, im_len = 0, im_tag = 0,
     im_src_kernel = EPA_HOST_KERNEL_UID, im_src_worker = EPA_HOST_WORKER_ID\<rparr>"

section \<open>Notifying a worker\<close>

text \<open>Hard pushes in a row; a failed one keeps those before it.\<close>

fun ring_push_all :: "u32 list \<Rightarrow> id_ring \<Rightarrow> (string, unit) res \<times> id_ring" where
  "ring_push_all [] r = (Ok (), r)"
| "ring_push_all (x # xs) r =
     (case epa_ring_push r x False of Inl e \<Rightarrow> (Err e, r) | Inr r' \<Rightarrow> ring_push_all xs r')"

text \<open>The common end of both deliveries: source fields, space check, words, wake-up.\<close>

definition deliver_words ::
  "allocator \<Rightarrow> u32 \<Rightarrow> u32 \<Rightarrow> u32 list \<Rightarrow> string \<Rightarrow> string \<Rightarrow> u64 \<Rightarrow> u32 \<Rightarrow> epa_kernel \<Rightarrow> unit kres" where
  "deliver_words al dst_wid needed ws fault msg src_kernel src_worker k =
     (let i = unat dst_wid;
          k1 = k_upd_w i (\<lambda>w. w\<lparr>w_src_kernel := src_kernel, w_src_worker := src_worker\<rparr>) k
      in if epa_ring_space (w_inq (k_workers k1 i)) < needed
         then (Err msg, kernel_fault_worker dst_wid fault k1)
         else
           let (r, q) = ring_push_all ws (w_inq (k_workers k1 i));
               k2 = k_upd_w i (\<lambda>w. w\<lparr>w_inq := q\<rparr>) k1
           in case r of
                Err e \<Rightarrow> (Err e, k2) | Ub \<Rightarrow> (Ub, k2)
              | Ok _ \<Rightarrow>
                  let (r3, k3) = (if w_waiting (k_workers k2 i) then k_round_enter al i k2 else (Ok (), k2))
                  in case r3 of
                       Err e \<Rightarrow> (Err e, k3) | Ub \<Rightarrow> (Ub, k3)
                     | Ok _ \<Rightarrow> (Ok (), k_upd_w i (\<lambda>w. w\<lparr>w_waiting := False, w_blocked := False\<rparr>) k3))"

definition "EPA_GHS_T_BYTES = (1 :: u32)"

definition epa_kernel_deliver_ingress_msg ::
  "allocator \<Rightarrow> u32 \<Rightarrow> u8 list \<Rightarrow> u32 \<Rightarrow> u32 \<Rightarrow> u64 \<Rightarrow> u32 \<Rightarrow> epa_kernel \<Rightarrow> unit kres" where
  "epa_kernel_deliver_ingress_msg al dst_wid bytes tag len_bytes src_kernel src_worker k =
     (if len_bytes = 0 then (Err ''ingress: bad args'', k)
      else if dst_wid \<ge> 256 then (Err ''ingress: bad wid %u'', k)
      else case epa_ghs_alloc_tagged al (k_ghs k) EPA_GHS_T_BYTES 0 len_bytes tag of
        Err e \<Rightarrow> (Err ''ingress: epa_ghs_alloc_tagged failed (%d)'', k)
      | Ub \<Rightarrow> (Ub, k)
      | Ok (h, g1) \<Rightarrow>
          (case epa_ghs_get_ptr g1 h of
             Ub \<Rightarrow> (Ub, k\<lparr>k_ghs := g1\<rparr>)
           | Err e \<Rightarrow> (Err ''ingress: epa_ghs_get_ptr failed (%d)'',
                        k\<lparr>k_ghs := (case epa_ghs_free g1 h of Ok g \<Rightarrow> g | _ \<Rightarrow> g1)\<rparr>)
           | Ok None \<Rightarrow> (Err ''ingress: epa_ghs_get_ptr failed (%d)'',
                        k\<lparr>k_ghs := (case epa_ghs_free g1 h of Ok g \<Rightarrow> g | _ \<Rightarrow> g1)\<rparr>)
           | Ok (Some ptr) \<Rightarrow>
               if length bytes < unat len_bytes \<or> length ptr < unat len_bytes then (Ub, k\<lparr>k_ghs := g1\<rparr>)
               else
                 let g2 = ghs_set (ghs_idx h) ((g_entries g1 ! ghs_idx h)
                            \<lparr>ge_ptr := Some (mem_write ptr 0 (take (unat len_bytes) bytes))\<rparr>) g1
                 in case epa_ghs_transfer g2 h dst_wid of
                      Ub \<Rightarrow> (Ub, k\<lparr>k_ghs := g2\<rparr>)
                    | Err e \<Rightarrow> (Err ''ingress: epa_ghs_transfer failed (%d)'',
                                 k\<lparr>k_ghs := (case epa_ghs_free g2 h of Ok g \<Rightarrow> g | _ \<Rightarrow> g2)\<rparr>)
                    | Ok g3 \<Rightarrow>
                        deliver_words al dst_wid 4 [1, epa_ghs_handle_index h, epa_ghs_handle_gen h, len_bytes]
                          ''INGRESS FAULT: ring buffer full for wid=%u (need 4 words)''
                          ''ingress: wid=%u inq full (need 4 words)''
                          src_kernel src_worker (k\<lparr>k_ghs := g3\<rparr>)))"

text \<open>The transfer loop: only handles without any flag are transferred; others, and invalid
  ones, are skipped.\<close>

fun transfer_unflagged :: "u32 \<Rightarrow> u64 list \<Rightarrow> epa_ghs \<Rightarrow> (string, unit) res \<times> epa_ghs" where
  "transfer_unflagged dst [] g = (Ok (), g)"
| "transfer_unflagged dst (h # hs) g =
     (case epa_ghs_get_flags g h of
        Ok f \<Rightarrow>
          if f = 0 then
            (case epa_ghs_transfer g h dst of
               Ok g' \<Rightarrow> transfer_unflagged dst hs g'
             | Err e \<Rightarrow> (Err ''ingress: epa_ghs_transfer failed (%d)'',
                          case epa_ghs_free g h of Ok g' \<Rightarrow> g' | _ \<Rightarrow> g)
             | Ub \<Rightarrow> (Ub, g))
          else transfer_unflagged dst hs g
      | Err _ \<Rightarrow> transfer_unflagged dst hs g
      | Ub \<Rightarrow> (Ub, g))"

fun handle_words :: "u64 list \<Rightarrow> u32 list" where
  "handle_words [] = []"
| "handle_words (h # hs) = epa_ghs_handle_index h # epa_ghs_handle_gen h # handle_words hs"

definition epa_kernel_deliver_ghs_handles_framed ::
  "allocator \<Rightarrow> u32 \<Rightarrow> u64 list \<Rightarrow> u64 \<Rightarrow> u32 \<Rightarrow> epa_kernel \<Rightarrow> unit kres" where
  "epa_kernel_deliver_ghs_handles_framed al dst_wid handles src_kernel src_worker k =
     (let n = of_nat (length handles) :: u32 in
      if n = 0 then (Err ''ingress: bad args'', k)
      else if dst_wid \<ge> 256 then (Err ''ingress: bad wid %u'', k)
      else let (r, g) = transfer_unflagged dst_wid handles (k_ghs k); k1 = k\<lparr>k_ghs := g\<rparr> in
        case r of
          Err e \<Rightarrow> (Err e, k1) | Ub \<Rightarrow> (Ub, k1)
        | Ok _ \<Rightarrow>
            deliver_words al dst_wid (2 + n * 2) (n # handle_words handles @ [0])
              ''INGRESS FAULT: ring buffer full for wid=%u (need %u words)''
              ''ingress: wid=%u inq full (need %u words)'' src_kernel src_worker k1)"

definition epa_kernel_deliver_ghs_handles ::
  "allocator \<Rightarrow> u32 \<Rightarrow> u64 list \<Rightarrow> epa_kernel \<Rightarrow> unit kres" where
  "epa_kernel_deliver_ghs_handles al dst_wid handles =
     epa_kernel_deliver_ghs_handles_framed al dst_wid handles EPA_HOST_KERNEL_UID EPA_HOST_WORKER_ID"

section \<open>Draining the ingress queues\<close>

text \<open>The inner loop takes one message a round until the queue is empty or a delivery fails;
  \<open>n\<close> bounds the rounds and starts at the queue's count, which a delivery never changes.\<close>

definition ingress_consume :: "nat \<Rightarrow> epa_kernel \<Rightarrow> epa_kernel" where
  "ingress_consume i k =
     (case cq_pop ingress_free_msg (k_ingress k i) of
        None \<Rightarrow> k | Some (_, q) \<Rightarrow> k\<lparr>k_ingress := (k_ingress k)(i := q)\<rparr>)"

fun drain_queue :: "allocator \<Rightarrow> nat \<Rightarrow> nat \<Rightarrow> epa_kernel \<Rightarrow> unit kres" where
  "drain_queue al i 0 k = (Ok (), k)"
| "drain_queue al i (Suc n) k =
     (let q = k_ingress k i in
      if cq_count q = 0 then (Ok (), k)
      else let m = cq_slots q ! unat (cq_head q) in
        if im_buf m = None \<or> im_len m = 0 then drain_queue al i n (ingress_consume i k)
        else case epa_kernel_deliver_ingress_msg al (of_nat i) (the (im_buf m)) (im_tag m) (im_len m)
                    (im_src_kernel m) (im_src_worker m) k of
          (Ok _, k1) \<Rightarrow>
            let k2 = ingress_consume i k1 in drain_queue al i n (k2\<lparr>k_deliveries := k_deliveries k2 + 1\<rparr>)
        | (Err e, k1) \<Rightarrow> (Err e, k1)
        | (Ub, k1) \<Rightarrow> (Ub, k1))"

fun drain_workers :: "allocator \<Rightarrow> nat list \<Rightarrow> epa_kernel \<Rightarrow> unit kres" where
  "drain_workers al [] k = (Ok (), k)"
| "drain_workers al (i # is) k =
     (case drain_queue al i (unat (cq_count (k_ingress k i))) k of
        (Ok _, k1) \<Rightarrow> drain_workers al is k1 | (Err e, k1) \<Rightarrow> (Err e, k1) | (Ub, k1) \<Rightarrow> (Ub, k1))"

definition epa_kernel_drain_ingress :: "allocator \<Rightarrow> epa_kernel \<Rightarrow> unit kres" where
  "epa_kernel_drain_ingress al k = drain_workers al [0..<256] k"

section \<open>Routing and privilege\<close>

fun first_present :: "program \<Rightarrow> nat list \<Rightarrow> u32" where
  "first_present p [] = 0"
| "first_present p (i # is) = (if p_present p i then of_nat i else first_present p is)"

definition kernel_default_ingress_wid :: "epa_kernel \<Rightarrow> u32" where
  "kernel_default_ingress_wid k =
     (if \<not> k_loaded k then 0 else first_present (k_prog k) [1..<256])"

definition kernel_acl_route_matches :: "u64 \<Rightarrow> u32 \<Rightarrow> u64 \<Rightarrow> u32 \<Rightarrow> bool" where
  "kernel_acl_route_matches route_remote route_wid remote_uid local_wid =
     (if route_wid \<noteq> local_wid then False
      else if route_remote \<noteq> 0 \<and> route_remote \<noteq> remote_uid then False else True)"

definition kernel_acl_has_entries :: "epa_kernel \<Rightarrow> bool" where
  "kernel_acl_has_entries k \<longleftrightarrow> p_acl (k_prog k) \<noteq> [] \<or> k_acl k \<noteq> []"

definition kernel_acl_allows :: "epa_kernel \<Rightarrow> u64 \<Rightarrow> u32 \<Rightarrow> bool" where
  "kernel_acl_allows k remote_uid local_wid =
     (if \<not> kernel_acl_has_entries k then True
      else if list_ex (\<lambda>a. kernel_acl_route_matches (acl_remote a) (acl_wid a) remote_uid local_wid) (p_acl (k_prog k))
      then True
      else list_ex (\<lambda>a. kernel_acl_route_matches (acl_remote a) (acl_wid a) remote_uid local_wid) (k_acl k))"

fun first_route :: "u64 \<Rightarrow> acl_entry list \<Rightarrow> u32 option" where
  "first_route remote_uid [] = None"
| "first_route remote_uid (a # as) =
     (if acl_remote a = 0 \<or> acl_remote a = remote_uid then Some (acl_wid a) else first_route remote_uid as)"

definition kernel_acl_first_route_for_remote :: "epa_kernel \<Rightarrow> u64 \<Rightarrow> u32" where
  "kernel_acl_first_route_for_remote k remote_uid =
     (case first_route remote_uid (p_acl (k_prog k)) of
        Some w \<Rightarrow> w
      | None \<Rightarrow> (case first_route remote_uid (k_acl k) of Some w \<Rightarrow> w | None \<Rightarrow> 0))"

definition kernel_actor_has_privilege :: "epa_kernel \<Rightarrow> u32 \<Rightarrow> u32 \<Rightarrow> (string, unit) res" where
  "kernel_actor_has_privilege k source_wid min_privilege =
     (if source_wid \<ge> 256 \<or> \<not> w_inited (k_workers k (unat source_wid)) then Err ''%s: bad actor worker %u''
      else if w_privilege (k_workers k (unat source_wid)) < min_privilege
      then Err ''%s: worker %u privilege %u below threshold %u''
      else Ok ())"

definition epa_kernel_set_worker_ignore_max_ticks :: "u32 \<Rightarrow> bool \<Rightarrow> epa_kernel \<Rightarrow> bool \<times> epa_kernel" where
  "epa_kernel_set_worker_ignore_max_ticks wid ign k =
     (if wid \<ge> 256 \<or> \<not> w_inited (k_workers k (unat wid)) then (False, k)
      else (True, k_upd_w (unat wid) (\<lambda>w. w\<lparr>w_ignore_max_ticks := ign\<rparr>) k))"

definition epa_kernel_get_worker_ignore_max_ticks :: "epa_kernel \<Rightarrow> u32 \<Rightarrow> bool" where
  "epa_kernel_get_worker_ignore_max_ticks k wid =
     (if wid \<ge> 256 \<or> \<not> w_inited (k_workers k (unat wid)) then False
      else w_ignore_max_ticks (k_workers k (unat wid)))"

end
