(* ===== verification/KernelHooks.thy ===== *)
theory KernelHooks
  imports KernelIngress
begin

text \<open>
  The hooks the instructions call on the kernel, \<open>src/epa_kernel_hooks.c\<close>: activation,
  halting and retirement of workers, privileges, the sync barrier, debug and signal callbacks, and
  the two system request rings. \<open>hook_request_at\<close> takes the dispatcher of asynchronous
  tasks as an argument, since the dispatcher runs instructions again. The host's signal callback,
  its thread pool and \<open>malloc\<close> are the \<open>platform\<close>.
\<close>

record platform =
  pf_al :: allocator
  pf_signal_cb :: "(u8 \<Rightarrow> u8 list \<Rightarrow> bool) option"
  pf_thread_count :: "epa_kernel \<Rightarrow> u32"
  pf_add_threads :: "u32 \<Rightarrow> epa_kernel \<Rightarrow> unit kres"

section \<open>Activation of workers\<close>

text \<open>\<open>wid\<close> is a byte, so the test against the 256 slots never fires.\<close>

definition hook_entry_exec :: "u8 \<Rightarrow> epa_kernel \<Rightarrow> unit kres" where
  "hook_entry_exec wid k =
     (let w = k_workers k (unat wid) in
      if \<not> w_inited w then (Ok (), k)
      else if w_retired w then (Ok (), k)
      else (Ok (), k_upd_w (unat wid) (\<lambda>w. w\<lparr>w_inited := True, w_halted := False, w_blocked := False\<rparr>) k))"

definition hook_entry_halt :: "u8 \<Rightarrow> epa_kernel \<Rightarrow> unit kres" where
  "hook_entry_halt wid k =
     (if \<not> w_inited (k_workers k (unat wid)) then (Ok (), k)
      else (Ok (), k_upd_w (unat wid) (\<lambda>w. w\<lparr>w_halted := True, w_blocked := True\<rparr>) k))"

text \<open>The walk along the active list; \<open>None\<close> is a walk that does not end.\<close>

partial_function (option) unlink_from :: "u32 \<Rightarrow> u32 \<Rightarrow> u32 \<Rightarrow> epa_kernel \<Rightarrow> epa_kernel option" where
  "unlink_from wid prev cur k =
     (if cur < 256 then
        (let nxt = k_next k (unat cur) in
         if cur = wid then
           (let k1 = (if prev \<ge> 256 then k\<lparr>k_head := nxt\<rparr>
                      else k\<lparr>k_next := (k_next k)(unat prev := nxt)\<rparr>);
                k2 = k1\<lparr>k_next := (k_next k1)(unat cur := 256)\<rparr>;
                k3 = (if k_n k2 > 0 then k2\<lparr>k_n := k_n k2 - 1\<rparr> else k2)
            in Some (if k_rr k3 = cur then k3\<lparr>k_rr := (if nxt < 256 then nxt else k_head k3)\<rparr> else k3))
         else unlink_from wid cur nxt k)
      else Some k)"

definition unlink_active_worker :: "u8 \<Rightarrow> epa_kernel \<Rightarrow> epa_kernel option" where
  "unlink_active_worker wid k = unlink_from (ucast wid) 256 (k_head k) k"

definition hook_entry_retire :: "u8 \<Rightarrow> epa_kernel \<Rightarrow> unit kres" where
  "hook_entry_retire wid k =
     (if \<not> w_inited (k_workers k (unat wid)) then (Ok (), k)
      else let k1 = k_upd_w (unat wid) (\<lambda>w. w\<lparr>w_retired := True, w_halted := True, w_blocked := True\<rparr>) k in
        case unlink_active_worker wid k1 of None \<Rightarrow> (Ub, k1) | Some k2 \<Rightarrow> (Ok (), k2))"

section \<open>Privilege\<close>

definition hook_entry_privilege :: "u8 \<Rightarrow> u32 \<Rightarrow> epa_kernel \<Rightarrow> unit kres" where
  "hook_entry_privilege wid privilege k =
     (if k_priv_locked k then (Err ''ENTRY_PRIVILEGE rejected: privilege table locked'', k)
      else if \<not> w_inited (k_workers k (unat wid)) then (Err ''ENTRY_PRIVILEGE bad worker id %u'', k)
      else (Ok (), k_upd_w (unat wid) (\<lambda>w. w\<lparr>w_privilege := privilege\<rparr>) k))"

definition hook_privilege_lock :: "epa_kernel \<Rightarrow> unit kres" where
  "hook_privilege_lock k = (Ok (), k\<lparr>k_priv_locked := True\<rparr>)"

definition hook_pid_self :: "u8 \<Rightarrow> epa_kernel \<Rightarrow> u32 kres" where
  "hook_pid_self wid k = (Ok (k_pid k), k)"

section \<open>The sync barrier\<close>

definition hook_sync :: "epa_kernel \<Rightarrow> unit kres" where
  "hook_sync k =
     (case epa_ring_push (k_syncq k) (k_cur k) True of
        Inl e \<Rightarrow> (Err e, k)
      | Inr q \<Rightarrow>
          let k1 = k\<lparr>k_syncq := q\<rparr>;
              k2 = (if k_cur k1 < 256 \<and> w_inited (k_workers k1 (unat (k_cur k1)))
                       \<and> w_id (k_workers k1 (unat (k_cur k1))) \<noteq> 0
                    then k_upd_w (unat (k_cur k1)) (\<lambda>w. w\<lparr>w_blocked := True\<rparr>) k1 else k1);
              k3 = (if w_inited (k_workers k2 0) then k_upd_w 0 (\<lambda>w. w\<lparr>w_blocked := False\<rparr>) k2 else k2)
          in (Ok (), k3))"

definition hook_wait_on_sync :: "epa_kernel \<Rightarrow> unit kres" where
  "hook_wait_on_sync k =
     (case epa_ring_pop (k_syncq k) of
        None \<Rightarrow> (Ok (), if k_cur k = 0 \<and> w_inited (k_workers k 0)
                         then k_upd_w 0 (\<lambda>w. w\<lparr>w_blocked := True\<rparr>) k else k)
      | Some (wid, q) \<Rightarrow>
          let k1 = k\<lparr>k_syncq := q\<rparr> in
          if w_inited (k_workers k1 0) then
            (case epa_stack_push (vm_stack (w_vm (k_workers k1 0))) wid of
               COk st \<Rightarrow> (Ok (), k_upd_w 0 (\<lambda>w. w\<lparr>w_vm := (w_vm w)\<lparr>vm_stack := st\<rparr>\<rparr>) k1)
             | CFail \<Rightarrow> (Err ''WAIT_ON_SYNC: kernel stack overflow'', k1)
             | CUndef \<Rightarrow> (Ub, k1))
          else (Ok (), k1))"

definition hook_get_worker :: "epa_kernel \<Rightarrow> u8 \<Rightarrow> nat option" where
  "hook_get_worker k wid = (if \<not> w_inited (k_workers k (unat wid)) then None else Some (unat wid))"

section \<open>Debug and signals\<close>

definition hook_break :: "u8 \<Rightarrow> u32 \<Rightarrow> epa_eip \<Rightarrow> epa_kernel \<Rightarrow> unit kres" where
  "hook_break wid c at k =
     (let k1 = (if w_inited (k_workers k (unat wid))
                then k_upd_w (unat wid) (\<lambda>w. w\<lparr>w_blocked := True\<rparr>) k else k)
      in (Ok (), kdbg_emit KDBG_BREAK wid c (Some at) [] k1))"

definition hook_trap :: "u8 \<Rightarrow> u32 \<Rightarrow> epa_eip \<Rightarrow> epa_kernel \<Rightarrow> unit kres" where
  "hook_trap wid c at k =
     (let k1 = (if w_inited (k_workers k (unat wid))
                then k_upd_w (unat wid) (\<lambda>w. w\<lparr>w_faulted := True, w_blocked := True\<rparr>) k else k)
      in (Ok (), kdbg_emit KDBG_TRAP wid c (Some at) [] k1))"

definition hook_except :: "u8 \<Rightarrow> u32 \<Rightarrow> epa_eip \<Rightarrow> epa_kernel \<Rightarrow> unit kres" where
  "hook_except wid c at k =
     (let k1 = (if w_inited (k_workers k (unat wid))
                then k_upd_w (unat wid) (\<lambda>w. w\<lparr>w_faulted := True, w_blocked := True\<rparr>) k else k)
      in (Ok (), kdbg_emit KDBG_EXCEPT wid c (Some at) [] k1))"

text \<open>The callback gets the mailbox and the clamped length; it sees that many bytes.\<close>

definition mailbox_len :: "u8 \<Rightarrow> epa_kernel \<Rightarrow> u32" where
  "mailbox_len wid k =
     (let len = vm_r (w_vm (k_workers k (unat wid))) 3; cap = p_mailbox (k_prog k) (unat wid) in
      if len > cap then cap else len)"

definition hook_signal :: "platform \<Rightarrow> u8 \<Rightarrow> epa_kernel \<Rightarrow> unit kres" where
  "hook_signal pf wid k =
     (if \<not> w_inited (k_workers k (unat wid)) then (Err [], k)
      else case pf_signal_cb pf of
        None \<Rightarrow> (Ok (), k)
      | Some cb \<Rightarrow>
          let k1 = epa_kernel_request_interrupt k;
              box = (case w_mailbox (k_workers k (unat wid)) of None \<Rightarrow> [] | Some b \<Rightarrow> b)
          in (Ok (), if cb wid (take (unat (mailbox_len wid k)) box) then k1
                     else k_upd_w (unat wid) (\<lambda>w. w\<lparr>w_blocked := True\<rparr>) k1))"

text \<open>The stored copy keeps the capacity of its buffer; \<open>k_last_signal\<close> is that buffer.\<close>

definition epa_kernel_store_last_host_signal :: "platform \<Rightarrow> u32 \<Rightarrow> u8 list \<Rightarrow> epa_kernel \<Rightarrow> unit kres" where
  "epa_kernel_store_last_host_signal pf wid bytes k =
     (let len = length bytes;
          buf = (if len > 0 then
                   (if length (k_last_signal k) < len then c_realloc (pf_al pf) (k_last_signal k) len
                    else Some (k_last_signal k))
                 else Some (k_last_signal k))
      in case buf of
           None \<Rightarrow> (Err ''OOM expanding last host signal buffer'', k)
         | Some b \<Rightarrow> (Ok (), k\<lparr>k_last_signal := mem_write b 0 bytes, k_last_signal_len := of_nat len,
                                k_last_signal_wid := wid\<rparr>))"

definition hook_host_signal :: "platform \<Rightarrow> u8 \<Rightarrow> epa_kernel \<Rightarrow> unit kres" where
  "hook_host_signal pf wid k =
     (if w_inited (k_workers k (unat wid)) then
        (let w = k_workers k (unat wid);
             len = mailbox_len wid k;
             box = (case w_mailbox w of None \<Rightarrow> [] | Some b \<Rightarrow> b)
         in if length box < unat len then (Ub, k)
            else case epa_kernel_store_last_host_signal pf (ucast wid) (take (unat len) box) k of
              (Err e, k1) \<Rightarrow> (Err e, k1)
            | (Ub, k1) \<Rightarrow> (Ub, k1)
            | (Ok _, k1) \<Rightarrow>
                hook_signal pf wid
                  (if len > 0 then kdbg_emit KDBG_EGRESS wid len (Some (vm_eip (w_vm w)))
                                     ''mailbox_bytes=%u preview='' k1
                   else kdbg_emit KDBG_SIGNAL wid 0 (Some (vm_eip (w_vm w))) ''host_signal'' k1))
      else hook_signal pf wid k)"

section \<open>Requests to the system\<close>

definition epa_kernel_thread_count :: "platform \<Rightarrow> epa_kernel \<Rightarrow> u32" where
  "epa_kernel_thread_count pf k =
     (if k_profile k \<noteq> EPA_SCHED_CPU_THREAD then 0 else pf_thread_count pf k)"

definition epa_kernel_add_threads :: "platform \<Rightarrow> u32 \<Rightarrow> epa_kernel \<Rightarrow> unit kres" where
  "epa_kernel_add_threads pf add_count k =
     (if k_profile k \<noteq> EPA_SCHED_CPU_THREAD
      then (Err ''kernel_add_threads: scheduler is not cpu_thread'', k)
      else pf_add_threads pf add_count k)"

definition hook_request_threads :: "platform \<Rightarrow> u8 \<Rightarrow> u32 \<Rightarrow> epa_kernel \<Rightarrow> unit kres" where
  "hook_request_threads pf wid desired_total k =
     (if wid \<noteq> 0 then (Err ''hook_request_threads: only valid in kernel'', k)
      else if desired_total \<le> 1 then (Ok (), k)
      else if k_profile k = EPA_SCHED_DEBUG then (Ok (), k)
      else let current = epa_kernel_thread_count pf k in
        if current \<ge> desired_total then (Ok (), k)
        else epa_kernel_add_threads pf (desired_total - current) k)"

definition bump_id :: "u64 \<Rightarrow> u64" where
  "bump_id n = (if n + 1 = 0 then 1 else n + 1)"

text \<open>The result \<open>Ok None\<close> is the return value 2: the ring is full, try again.\<close>

definition hook_request_at ::
  "platform \<Rightarrow> (epa_kernel \<Rightarrow> unit kres) \<Rightarrow> u8 \<Rightarrow> u32 list \<Rightarrow> epa_kernel \<Rightarrow> u32 option kres" where
  "hook_request_at pf dispatch wid ws k =
     (if \<not> w_inited (k_workers k (unat wid))
      then (Err ''hook_request_at: only valid in initialized entries/workers'', k)
      else if length ws < 6 then (Err ''hook_request_at: descriptor too small'', k)
      else if length ws > 1024 then (Err ''hook_request_at: descriptor too large'', k)
      else case epa_prog_find_at_entry (k_prog k) (ws ! 0) of
        None \<Rightarrow> (Err ''hook_request_at: unknown AT entry at_id=%u'', k)
      | Some (at_index, frame_words) \<Rightarrow>
          if ws ! 2 = 0 then (Err ''hook_request_at: requested_threads=0'', k)
          else if ws ! 3 = 0 then (Err ''hook_request_at: real_threads=0'', k)
          else if 6 + unat (ws ! 4) > length ws then (Err ''hook_request_at: param_words exceeds descriptor'', k)
          else if ws ! 4 < 2
          then (Err ''hook_request_at: descriptor param_words=%u below shared GHS handle words'', k)
          else if pf_al pf (length ws * 4) = None then (Err ''hook_request_at: OOM copying descriptor'', k)
          else
            let rid = k_at_next k in
            case cq_push \<lparr>ar_id = rid, ar_wid = ucast wid, ar_index = at_index, ar_words = ws\<rparr> (k_atq k) of
              None \<Rightarrow> (Ok None, k)
            | Some q \<Rightarrow>
                let k1 = kdbg_emit KDBG_SIGNAL wid (ucast rid)
                           (Some (vm_eip (w_vm (k_workers k (unat wid))))) ''request_at''
                           (k\<lparr>k_atq := q, k_at_next := bump_id rid\<rparr>)
                in case dispatch k1 of
                     (Ok _, k2) \<Rightarrow> (Ok (Some (ucast rid)), k2)
                   | (Err e, k2) \<Rightarrow> (Err e, k2)
                   | (Ub, k2) \<Rightarrow> (Ub, k2))"

definition mem_req_zero :: mem_request where
  "mem_req_zero = \<lparr>mr_id = 0, mr_wid = 0, mr_kind = MemReqOther, mr_pool = 0, mr_capacity = 0, mr_hard = False\<rparr>"

text \<open>One request of the memory ring, after it has been taken out.\<close>

definition memory_request_one :: "allocator \<Rightarrow> mem_request \<Rightarrow> epa_kernel \<Rightarrow> unit kres" where
  "memory_request_one al req k =
     (if mr_kind req \<noteq> EPA_SYSTEM_MEM_REQ_DYNAMIC_POOL_CAPACITY
      then (Err ''memory_dispatch_cpu: unknown request kind=%u'', k)
      else if mr_wid req \<ge> 256 \<or> \<not> w_inited (k_workers k (unat (mr_wid req)))
      then (Err ''dynamic pool capacity request bad wid=%u'', k)
      else case worker_dynamic_pool_by_id k (k_workers k (unat (mr_wid req))) (mr_pool req) of
        CFail \<Rightarrow> (Err ''dynamic pool capacity request bad pool_id=%u'', k)
      | CUndef \<Rightarrow> (Ub, k)
      | COk p \<Rightarrow>
          (case epa_dynamic_pool_request_capacity al p (mr_capacity req) (mr_hard req) of
             None \<Rightarrow> (Ub, k)
           | Some Ub \<Rightarrow> (Ub, k)
           | Some (Err e) \<Rightarrow> (Err e, k)
           | Some (Ok p') \<Rightarrow> (Ok (), k_pool_put (unat (mr_wid req)) (mr_pool req) p' k)))"

text \<open>The dispatch loop ends when the ring is empty, so as many rounds as it holds requests are
  enough.\<close>

fun memory_dispatch :: "allocator \<Rightarrow> nat \<Rightarrow> epa_kernel \<Rightarrow> unit kres" where
  "memory_dispatch al 0 k = (Ok (), k)"
| "memory_dispatch al (Suc n) k =
     (case cq_pop (\<lambda>r. r\<lparr>mr_id := 0\<rparr>) (k_memq k) of
        None \<Rightarrow> (Ok (), k)
      | Some (req, q) \<Rightarrow>
          (case memory_request_one al req (k\<lparr>k_memq := q\<rparr>) of
             (Ok _, k1) \<Rightarrow> memory_dispatch al n k1 | (Err e, k1) \<Rightarrow> (Err e, k1) | (Ub, k1) \<Rightarrow> (Ub, k1)))"

definition epa_kernel_dispatch_memory_requests_cpu :: "allocator \<Rightarrow> epa_kernel \<Rightarrow> unit kres" where
  "epa_kernel_dispatch_memory_requests_cpu al k = memory_dispatch al (unat (cq_count (k_memq k))) k"

definition hook_request_dynamic_pool_capacity ::
  "platform \<Rightarrow> u8 \<Rightarrow> u32 \<Rightarrow> u32 \<Rightarrow> bool \<Rightarrow> epa_kernel \<Rightarrow> unit option kres" where
  "hook_request_dynamic_pool_capacity pf wid pool_id requested hard k =
     (let w = k_workers k (unat wid) in
      if \<not> w_inited w then (Err ''hook_request_dynamic_pool_capacity: bad wid %u'', k)
      else case worker_dynamic_pool_by_id k w pool_id of
        CFail \<Rightarrow> (Err ''hook_request_dynamic_pool_capacity: bad pool_id %u'', k)
      | CUndef \<Rightarrow> (Ub, k)
      | COk p \<Rightarrow>
          if hard \<and> requested < dp_count p
          then (Err ''hook_request_dynamic_pool_capacity: hard request below live count'', k)
          else let rid = k_mem_next k in
            case cq_push \<lparr>mr_id = rid, mr_wid = ucast wid, mr_kind = EPA_SYSTEM_MEM_REQ_DYNAMIC_POOL_CAPACITY,
                   mr_pool = pool_id, mr_capacity = requested, mr_hard = hard\<rparr> (k_memq k) of
              None \<Rightarrow> (Ok None, k)
            | Some q \<Rightarrow>
                let k1 = kdbg_emit KDBG_SIGNAL wid (ucast rid) (Some (vm_eip (w_vm w)))
                           ''request_dynamic_pool_capacity''
                           (k\<lparr>k_memq := q, k_mem_next := bump_id rid\<rparr>)
                in case epa_kernel_dispatch_memory_requests_cpu (pf_al pf) k1 of
                     (Ok _, k2) \<Rightarrow> (Ok (Some ()), k2)
                   | (Err e, k2) \<Rightarrow> (Err e, k2)
                   | (Ub, k2) \<Rightarrow> (Ub, k2))"

end
