(* ===== verification/FlowMach.thy ===== *)
theory FlowMach
  imports KernelHooks FlowF32
begin

text \<open>
  The state an instruction runs on: a kernel and, for an asynchronous task, the worker that
  lives outside the kernel's slots (\<open>run_at_entry_thread\<close> keeps it on its C stack).
  \<open>wref\<close> names the worker the instruction runs for. The hooks of the flow context
  (\<open>EpaFlowHooks\<close> of \<open>src/epa_instruct_common.h\<close>) are optional functions on the
  kernel; the environment holds the context, the platform and what the code leaves to them.
\<close>

datatype wref = InSlot nat | Detached

record mach =
  m_k :: epa_kernel
  m_at :: epa_worker

definition get_w :: "wref \<Rightarrow> mach \<Rightarrow> epa_worker" where
  "get_w r m = (case r of InSlot i \<Rightarrow> k_workers (m_k m) i | Detached \<Rightarrow> m_at m)"

definition put_w :: "wref \<Rightarrow> epa_worker \<Rightarrow> mach \<Rightarrow> mach" where
  "put_w r w m = (case r of InSlot i \<Rightarrow> m\<lparr>m_k := k_upd_w i (\<lambda>_. w) (m_k m)\<rparr> | Detached \<Rightarrow> m\<lparr>m_at := w\<rparr>)"

interpretation mw: state_field "get_w r" "put_w r" for r
  by unfold_locales (cases r; simp add: get_w_def put_w_def k_upd_w_def)+

definition m_vm :: "wref \<Rightarrow> mach \<Rightarrow> epa_vm" where
  "m_vm r m = w_vm (get_w r m)"

definition m_put_vm :: "wref \<Rightarrow> epa_vm \<Rightarrow> mach \<Rightarrow> mach" where
  "m_put_vm r v m = put_w r (w_put_vm v (get_w r m)) m"

interpretation mvm: state_field "m_vm r" "m_put_vm r" for r
  by unfold_locales (simp_all add: m_vm_def m_put_vm_def mw.get_put mw.put_put wvm.get_put wvm.put_get
      wvm.put_put mw.put_get)

definition upd_w :: "wref \<Rightarrow> (epa_worker \<Rightarrow> epa_worker) \<Rightarrow> mach \<Rightarrow> mach" where
  "upd_w r f m = put_w r (f (get_w r m)) m"

definition upd_vm :: "wref \<Rightarrow> (epa_vm \<Rightarrow> epa_vm) \<Rightarrow> mach \<Rightarrow> mach" where
  "upd_vm r f m = m_put_vm r (f (m_vm r m)) m"

text \<open>Registers, instruction pointer and stack of the running worker.\<close>

definition m_r :: "wref \<Rightarrow> mach \<Rightarrow> nat \<Rightarrow> u32" where
  "m_r r m i = vm_r (m_vm r m) i"

definition m_set_r :: "wref \<Rightarrow> nat \<Rightarrow> u32 \<Rightarrow> mach \<Rightarrow> mach" where
  "m_set_r r i x = upd_vm r (vm_set_r i x)"

definition m_adv :: "wref \<Rightarrow> nat \<Rightarrow> nat \<Rightarrow> mach \<Rightarrow> mach" where
  "m_adv r pc need = upd_vm r (vm_adv pc need)"

definition m_id :: "wref \<Rightarrow> mach \<Rightarrow> u32" where
  "m_id r m = w_id (get_w r m)"

definition m_id8 :: "wref \<Rightarrow> mach \<Rightarrow> u8" where
  "m_id8 r m = ucast (m_id r m)"

definition m_pop :: "wref \<Rightarrow> string \<Rightarrow> mach \<Rightarrow> (u32 \<Rightarrow> mach \<Rightarrow> mach hres) \<Rightarrow> mach hres" where
  "m_pop r msg m c = chk (epa_stack_pop (vm_stack (m_vm r m))) msg m
     (\<lambda>(x, st). c x (upd_vm r (\<lambda>v. v\<lparr>vm_stack := st\<rparr>) m))"

definition m_push :: "wref \<Rightarrow> string \<Rightarrow> u32 \<Rightarrow> mach \<Rightarrow> (mach \<Rightarrow> mach hres) \<Rightarrow> mach hres" where
  "m_push r msg x m c = chk (epa_stack_push (vm_stack (m_vm r m)) x) msg m
     (\<lambda>st. c (upd_vm r (\<lambda>v. v\<lparr>vm_stack := st\<rparr>) m))"

text \<open>The 64-bit value in a pair of registers.\<close>

definition regs64 :: "u32 \<Rightarrow> u32 \<Rightarrow> u64" where
  "regs64 lo hi = push_bit 32 (ucast hi) OR ucast lo"

definition m_regs64 :: "wref \<Rightarrow> mach \<Rightarrow> nat \<Rightarrow> nat \<Rightarrow> u64" where
  "m_regs64 r m lo hi = regs64 (m_r r m lo) (m_r r m hi)"

section \<open>Hooks and environment\<close>

record flow_hooks =
  on_entry_exec :: "(u8 \<Rightarrow> epa_kernel \<Rightarrow> unit kres) option"
  on_entry_halt :: "(u8 \<Rightarrow> epa_kernel \<Rightarrow> unit kres) option"
  on_entry_retire :: "(u8 \<Rightarrow> epa_kernel \<Rightarrow> unit kres) option"
  on_kernel_retire :: "(u64 \<Rightarrow> epa_kernel \<Rightarrow> unit kres) option"
  on_entry_privilege :: "(u8 \<Rightarrow> u32 \<Rightarrow> epa_kernel \<Rightarrow> unit kres) option"
  on_privilege_lock :: "(epa_kernel \<Rightarrow> unit kres) option"
  on_acl_grant :: "(u8 \<Rightarrow> u64 \<Rightarrow> u64 \<Rightarrow> u8 \<Rightarrow> epa_kernel \<Rightarrow> unit kres) option"
  on_acl_revoke :: "(u8 \<Rightarrow> u64 \<Rightarrow> u64 \<Rightarrow> u8 \<Rightarrow> epa_kernel \<Rightarrow> unit kres) option"
  on_acl_revoke_all :: "(u8 \<Rightarrow> u64 \<Rightarrow> u64 \<Rightarrow> epa_kernel \<Rightarrow> unit kres) option"
  on_pid_self :: "(u8 \<Rightarrow> epa_kernel \<Rightarrow> u32 kres) option"
  on_pid_retire :: "(u8 \<Rightarrow> u32 \<Rightarrow> epa_kernel \<Rightarrow> unit kres) option"
  on_sync :: "(epa_kernel \<Rightarrow> unit kres) option"
  on_wait_on_sync :: "(epa_kernel \<Rightarrow> unit kres) option"
  on_data_ready :: "(u8 \<Rightarrow> epa_kernel \<Rightarrow> u32 kres) option"
  get_worker :: "(epa_kernel \<Rightarrow> u8 \<Rightarrow> nat option) option"
  on_break :: "(u8 \<Rightarrow> u32 \<Rightarrow> epa_eip \<Rightarrow> epa_kernel \<Rightarrow> unit kres) option"
  on_trap :: "(u8 \<Rightarrow> u32 \<Rightarrow> epa_eip \<Rightarrow> epa_kernel \<Rightarrow> unit kres) option"
  on_except :: "(u8 \<Rightarrow> u32 \<Rightarrow> epa_eip \<Rightarrow> epa_kernel \<Rightarrow> unit kres) option"
  on_signal :: "(u8 \<Rightarrow> epa_kernel \<Rightarrow> unit kres) option"
  on_far_signal :: "(u8 \<Rightarrow> epa_kernel \<Rightarrow> unit kres) option"
  on_host_signal :: "(u8 \<Rightarrow> epa_kernel \<Rightarrow> unit kres) option"
  on_request_threads :: "(u8 \<Rightarrow> u32 \<Rightarrow> epa_kernel \<Rightarrow> unit kres) option"
  on_request_at :: "(u8 \<Rightarrow> u32 list \<Rightarrow> epa_kernel \<Rightarrow> u32 option kres) option"
  on_request_pool :: "(u8 \<Rightarrow> u32 \<Rightarrow> u32 \<Rightarrow> bool \<Rightarrow> epa_kernel \<Rightarrow> unit option kres) option"
  on_dynlib_import :: "(u8 \<Rightarrow> u64 \<Rightarrow> u32 \<Rightarrow> u64 \<Rightarrow> epa_kernel \<Rightarrow> u32 kres) option"
  on_process_spawn :: "(u8 \<Rightarrow> u64 \<Rightarrow> u32 \<Rightarrow> u32 \<Rightarrow> epa_kernel \<Rightarrow> u32 kres) option"

text \<open>\<open>fe_addr\<close> is the address of the block of a handle, \<open>fe_parse\<close> the program
  parser, which staging a boot image runs.\<close>

record flow_env =
  fe_prog :: program
  fe_hooks :: flow_hooks
  fe_pf :: platform
  fe_nc :: nan_choice
  fe_addr :: "u64 \<Rightarrow> u64"
  fe_parse :: "u8 list \<Rightarrow> (string, program) res"

abbreviation fe_al :: "flow_env \<Rightarrow> allocator" where
  "fe_al fe \<equiv> pf_al (fe_pf fe)"

definition call_k :: "(epa_kernel \<Rightarrow> 'a kres) \<Rightarrow> mach \<Rightarrow> ('a \<Rightarrow> mach \<Rightarrow> mach hres) \<Rightarrow> mach hres" where
  "call_k f m c =
     (let (res, k) = f (m_k m); m1 = m\<lparr>m_k := k\<rparr> in
      case res of Ok a \<Rightarrow> c a m1 | Err e \<Rightarrow> Fault e m1 | Ub \<Rightarrow> Undef)"

text \<open>\<open>if (hook && !hook(...)) return EPA_FLOW_ERR;\<close>\<close>

definition opt_hook :: "(epa_kernel \<Rightarrow> 'a kres) option \<Rightarrow> mach \<Rightarrow> (mach \<Rightarrow> mach hres) \<Rightarrow> mach hres" where
  "opt_hook h m c = (case h of None \<Rightarrow> c m | Some f \<Rightarrow> call_k f m (\<lambda>_. c))"

type_synonym k_op = "flow_env \<Rightarrow> wref \<Rightarrow> u8 list \<Rightarrow> nat \<Rightarrow> nat \<Rightarrow> mach \<Rightarrow> mach hres"

text \<open>An instruction that touches only the virtual machine, run for a worker.\<close>

definition lift_vm_op :: "vm_op \<Rightarrow> k_op" where
  "lift_vm_op h fe r code pc need m = lift_h (m_vm r) (m_put_vm r) (h code pc need) m"

definition mach_get_ghs :: "mach \<Rightarrow> epa_ghs" where
  "mach_get_ghs m = k_ghs (m_k m)"

definition mach_put_ghs :: "epa_ghs \<Rightarrow> mach \<Rightarrow> mach" where
  "mach_put_ghs g m = m\<lparr>m_k := (m_k m)\<lparr>k_ghs := g\<rparr>\<rparr>"

interpretation mghs: state_field mach_get_ghs mach_put_ghs
  by unfold_locales (simp_all add: mach_get_ghs_def mach_put_ghs_def)

text \<open>\<open>epa_worker_round_enter\<close> on the running worker.\<close>

definition m_round_enter :: "flow_env \<Rightarrow> wref \<Rightarrow> mach \<Rightarrow> (mach \<Rightarrow> mach hres) \<Rightarrow> mach hres" where
  "m_round_enter fe r m c =
     (case epa_worker_round_enter (fe_al fe) (get_w r m)
             (case k_pools (m_k m) of None \<Rightarrow> [] | Some ps \<Rightarrow> ps) of
        None \<Rightarrow> Undef
      | Some (res, w, shared) \<Rightarrow>
          let m1 = put_w r w m;
              m2 = m1\<lparr>m_k := (m_k m1)\<lparr>k_pools := map_option (\<lambda>_. shared) (k_pools (m_k m1))\<rparr>\<rparr>
          in case res of Ok _ \<Rightarrow> c m2 | Err e \<Rightarrow> Fault e m2 | Ub \<Rightarrow> Undef)"

end
