(* ===== verification/FlowSystem.thy ===== *)
theory FlowSystem
  imports FlowMach
begin

text \<open>
  The instructions of \<open>epa_flow_step\<close> that act through the hooks of the flow context:
  scheduling, privileges, debugging, signals, system requests and the boot image; and
  \<open>VM_STATE\<close>, which reads the identity of the worker.
\<close>

section \<open>Boot image, libraries, processes\<close>

definition epa_kernel_stage_boot_image_from_ghs ::
  "(u8 list \<Rightarrow> (string, program) res) \<Rightarrow> allocator \<Rightarrow> u32 \<Rightarrow> u64 \<Rightarrow> u32 \<Rightarrow> u32 \<Rightarrow> epa_kernel \<Rightarrow> unit kres" where
  "epa_kernel_stage_boot_image_from_ghs parse al source_wid h byte_count flags k =
     (if h = 0 \<or> byte_count = 0 then (Err ''boot stage image: bad args'', k)
      else case kernel_actor_has_privilege k source_wid 100 of
        Err e \<Rightarrow> (Err e, k) | Ub \<Rightarrow> (Ub, k)
      | Ok _ \<Rightarrow>
          (case epa_ghs_get_meta (k_ghs k) h of
             Err e \<Rightarrow> (Err ''boot stage image: invalid GHS handle err=%d'', k)
           | Ub \<Rightarrow> (Ub, k)
           | Ok meta \<Rightarrow>
               if byte_count > gm_size meta
               then (Err ''boot stage image: byte_count %u exceeds handle size %u'', k)
               else if al (unat byte_count) = None then (Err ''boot stage image: OOM'', k)
               else case epa_ghs_read_bytes (k_ghs k) h 0 byte_count of
                 Err e \<Rightarrow> (Err ''boot stage image: GHS read failed err=%d'', k)
               | Ub \<Rightarrow> (Ub, k)
               | Ok bytes \<Rightarrow>
                   (case parse bytes of
                      Err e \<Rightarrow> (Err e, k)
                    | Ub \<Rightarrow> (Ub, k)
                    | Ok _ \<Rightarrow> (Ok (), k\<lparr>k_staged := Some bytes, k_staged_flags := flags,
                                        k_reset_pending := False\<rparr>))))"

definition epa_kernel_request_boot_reset_to_staged :: "u32 \<Rightarrow> u32 \<Rightarrow> epa_kernel \<Rightarrow> unit kres" where
  "epa_kernel_request_boot_reset_to_staged source_wid flags k =
     (if k_staged k = None \<or> k_staged k = Some [] then (Err ''boot reset: no staged image'', k)
      else case kernel_actor_has_privilege k source_wid 100 of
        Err e \<Rightarrow> (Err e, k) | Ub \<Rightarrow> (Ub, k)
      | Ok _ \<Rightarrow> (Ok (), k\<lparr>k_staged_flags := flags, k_reset_pending := True\<rparr>))"

text \<open>An operation whose failure only shows in r3.\<close>

definition flag_r3 :: "wref \<Rightarrow> (epa_kernel \<Rightarrow> 'a kres) \<Rightarrow> mach \<Rightarrow> mach hres" where
  "flag_r3 r f m =
     (let (res, k) = f (m_k m); m1 = m\<lparr>m_k := k\<rparr> in
      case res of Ok _ \<Rightarrow> Yield (m_set_r r 3 1 m1) | Err _ \<Rightarrow> Yield (m_set_r r 3 0 m1) | Ub \<Rightarrow> Undef)"

definition op_boot_stage_image :: k_op where
  "op_boot_stage_image fe r code pc need m =
     flag_r3 r (epa_kernel_stage_boot_image_from_ghs (fe_parse fe) (fe_al fe) (m_id r m)
                  (m_regs64 r m 0 1) (m_r r m 2) (m_r r m 3)) (m_adv r pc need m)"

definition op_boot_reset_to_staged :: k_op where
  "op_boot_reset_to_staged fe r code pc need m =
     flag_r3 r (epa_kernel_request_boot_reset_to_staged (m_id r m) (m_r r m 3)) (m_adv r pc need m)"

definition op_dynlib_import :: k_op where
  "op_dynlib_import fe r code pc need m =
     (let h = m_regs64 r m 0 1; byte_count = m_r r m 2;
          msg = ''DYNLIB_IMPORT expected alias uid lo/hi on stack'';
          wid = m_id8 r m
      in m_pop r msg m (\<lambda>alias_hi m1. m_pop r msg m1 (\<lambda>alias_lo m2.
           let m3 = m_adv r pc need m2 in
           case on_dynlib_import (fe_hooks fe) of
             None \<Rightarrow> Yield (m_set_r r 3 0 (m_set_r r 2 0 m3))
           | Some f \<Rightarrow>
               let (res, k) = f wid h byte_count (regs64 alias_lo alias_hi) (m_k m3); m4 = m3\<lparr>m_k := k\<rparr> in
               case res of
                 Ok n \<Rightarrow> Yield (upd_vm r (vm_set_regs alias_lo alias_hi n 1) m4)
               | Err _ \<Rightarrow> Yield (m_set_r r 3 0 (m_set_r r 2 0 m4))
               | Ub \<Rightarrow> Undef)))"

definition op_process_spawn :: k_op where
  "op_process_spawn fe r code pc need m =
     (let h = m_regs64 r m 0 1; byte_count = m_r r m 2; wid = m_id8 r m in
      m_pop r ''PROCESS_SPAWN expected requested pid on stack'' m (\<lambda>requested m1.
        let m2 = m_adv r pc need m1 in
        case on_process_spawn (fe_hooks fe) of
          None \<Rightarrow> Yield (m_set_r r 3 0 (m_set_r r 0 0 m2))
        | Some f \<Rightarrow>
            let (res, k) = f wid h byte_count requested (m_k m2); m3 = m2\<lparr>m_k := k\<rparr> in
            case res of
              Ok pid \<Rightarrow> Yield (m_set_r r 3 1 (m_set_r r 0 pid m3))
            | Err _ \<Rightarrow> Yield (m_set_r r 3 0 (m_set_r r 0 0 m3))
            | Ub \<Rightarrow> Undef))"

section \<open>Scheduling\<close>

definition op_sync :: k_op where
  "op_sync fe r code pc need m = opt_hook (on_sync (fe_hooks fe)) (m_adv r pc need m) Yield"

definition op_wait_on_sync :: k_op where
  "op_wait_on_sync fe r code pc need m =
     opt_hook (on_wait_on_sync (fe_hooks fe)) m (\<lambda>m1.
       if w_blocked (get_w r m1) then Yield (upd_vm r (vm_set_pc (of_nat pc)) m1)
       else Yield (m_adv r pc need m1))"

definition op_entry_exec :: k_op where
  "op_entry_exec fe r code pc need m =
     opt_hook (map_option (\<lambda>f. f (code ! (pc + 1))) (on_entry_exec (fe_hooks fe))) (m_adv r pc need m) Yield"

definition op_entry_halt :: k_op where
  "op_entry_halt fe r code pc need m =
     opt_hook (map_option (\<lambda>f. f (code ! (pc + 1))) (on_entry_halt (fe_hooks fe))) (m_adv r pc need m) Yield"

definition op_entry_retire :: k_op where
  "op_entry_retire fe r code pc need m =
     opt_hook (map_option (\<lambda>f. f (code ! (pc + 1))) (on_entry_retire (fe_hooks fe))) (m_adv r pc need m) Yield"

definition op_kernel_retire :: k_op where
  "op_kernel_retire fe r code pc need m =
     (let uid = m_regs64 r m 0 1 in
      opt_hook (map_option (\<lambda>f. f uid) (on_kernel_retire (fe_hooks fe))) (m_adv r pc need m) Yield)"

definition op_entry_privilege :: k_op where
  "op_entry_privilege fe r code pc need m =
     (if m_id r m \<noteq> 0 then Fault ''ENTRY_PRIVILEGE only valid from kernel entry wid=0'' m
      else opt_hook (map_option (\<lambda>f. f (code ! (pc + 1)) (imm32 code pc 1)) (on_entry_privilege (fe_hooks fe)))
             (m_adv r pc need m) Yield)"

definition op_privilege_lock :: k_op where
  "op_privilege_lock fe r code pc need m =
     (if m_id r m \<noteq> 0 then Fault ''PRIVILEGE_LOCK only valid from kernel entry wid=0'' m
      else opt_hook (on_privilege_lock (fe_hooks fe)) (m_adv r pc need m) Yield)"

definition op_acl :: k_op where
  "op_acl fe r code pc need m =
     (let kind = imm8 code pc 0; local_wid = code ! (pc + 2);
          target = m_regs64 r m 0 1; remote = m_regs64 r m 2 3;
          wid = m_id8 r m; m1 = m_adv r pc need m
      in if kind = 1 then
           opt_hook (map_option (\<lambda>f. f wid target remote local_wid) (on_acl_grant (fe_hooks fe))) m1 Yield
         else if kind = 2 then
           opt_hook (map_option (\<lambda>f. f wid target remote local_wid) (on_acl_revoke (fe_hooks fe))) m1 Yield
         else if kind = 3 then
           opt_hook (map_option (\<lambda>f. f wid target remote) (on_acl_revoke_all (fe_hooks fe))) m1 Yield
         else Fault ''ACL unknown kind %u'' m1)"

definition op_pid :: k_op where
  "op_pid fe r code pc need m =
     (let kind = imm8 code pc 0; wid = m_id8 r m; m1 = m_adv r pc need m in
      if kind = 1 then
        (case on_pid_self (fe_hooks fe) of
           None \<Rightarrow> Yield (upd_vm r (vm_set_regs 0 0 0 1) m1)
         | Some f \<Rightarrow> call_k (f wid) m1 (\<lambda>pid m2. Yield (upd_vm r (vm_set_regs pid 0 0 1) m2)))
      else if kind = 2 then
        opt_hook (map_option (\<lambda>f. f wid (m_r r m 0)) (on_pid_retire (fe_hooks fe))) m1 Yield
      else Fault ''PID unknown kind %u'' m1)"

definition op_vm_state :: k_op where
  "op_vm_state fe r code pc need m =
     (let sel = imm8 code pc 0; w = get_w r m;
          lo = (\<lambda>u :: u64. ucast (u AND 0xFFFFFFFF) :: u32); hi = (\<lambda>u :: u64. ucast (drop_bit 32 u) :: u32);
          (a, b, ok) =
            (if sel = 0 then (lo (w_kernel_uid w), hi (w_kernel_uid w), 1)
             else if sel = 1 then (w_worker_id w, 0, 1)
             else if sel = 2 then (lo (w_src_kernel w), hi (w_src_kernel w), 1)
             else if sel = 3 then (w_src_worker w, 0, 1)
             else (0, 0, 0))
      in Yield (m_adv r pc need (upd_vm r (vm_set_regs a b (of_nat sel) ok) m)))"

section \<open>Debugging and signals\<close>

definition op_break :: k_op where
  "op_break fe r code pc need m =
     (let at = vm_eip (m_vm r m); wid = m_id8 r m in
      opt_hook (map_option (\<lambda>f. f wid (imm32 code pc 0) at) (on_break (fe_hooks fe)))
        (m_adv r pc need m) (\<lambda>m1. Yield (m_adv r pc need m1)))"

definition op_signal :: k_op where
  "op_signal fe r code pc need m =
     (let wid = m_id8 r m in
      opt_hook (map_option (\<lambda>f. f wid) (on_signal (fe_hooks fe))) (m_adv r pc need m) Yield)"

definition op_far_signal :: k_op where
  "op_far_signal fe r code pc need m =
     (let wid = m_id8 r m in
      opt_hook (map_option (\<lambda>f. f wid) (on_far_signal (fe_hooks fe))) (m_adv r pc need m) Yield)"

definition op_host_signal :: k_op where
  "op_host_signal fe r code pc need m =
     (let wid = m_id8 r m in
      opt_hook (map_option (\<lambda>f. f wid) (on_host_signal (fe_hooks fe))) (m_adv r pc need m) Yield)"

definition op_trap :: k_op where
  "op_trap fe r code pc need m =
     (let at = vm_eip (m_vm r m); wid = m_id8 r m; msg = ''TRAP code=%u at type=%u id=%u pc=%u'' in
      if m_r r m 0 = 0 then
        (case on_trap (fe_hooks fe) of
           None \<Rightarrow> Fault msg m
         | Some f \<Rightarrow>
             let (res, k) = f wid (imm32 code pc 0) at (m_k m) in
             if res = Ub then Undef else Fault msg (m\<lparr>m_k := k\<rparr>))
      else Yield (m_adv r pc need m))"

definition op_except :: k_op where
  "op_except fe r code pc need m =
     (let at = vm_eip (m_vm r m); wid = m_id8 r m; msg = ''EXCEPT code=%u at type=%u id=%u pc=%u'' in
      case on_except (fe_hooks fe) of
        None \<Rightarrow> Fault msg m
      | Some f \<Rightarrow>
          let (res, k) = f wid (imm32 code pc 0) at (m_k m); m1 = m\<lparr>m_k := k\<rparr> in
          case res of Ok _ \<Rightarrow> Yield (m_adv r pc need m1) | Err _ \<Rightarrow> Fault msg m1 | Ub \<Rightarrow> Undef)"

section \<open>Requests\<close>

definition op_request :: k_op where
  "op_request fe r code pc need m =
     (let kind = imm8 code pc 0; wid = m_id8 r m; st = vm_stack (m_vm r m) in
      if kind = 1 then
        opt_hook (map_option (\<lambda>f. f wid (m_r r m 0)) (on_request_threads (fe_hooks fe))) (m_adv r pc need m) Yield
      else if kind \<noteq> 2 then Fault ''REQUEST unknown kind %u'' m
      else case on_request_at (fe_hooks fe) of
        None \<Rightarrow> Fault ''REQUEST kind=2 AT hook not installed'' m
      | Some f \<Rightarrow>
          if st_words st = [] \<or> st_sp st < 1
          then Fault ''REQUEST kind=2: stack underflow reading descriptor size'' m
          else if length (st_words st) < st_sp st then Undef
          else
            let n = unat (st_words st ! (st_sp st - 1)) in
            if n < 6 then Fault ''REQUEST kind=2: descriptor too small (%u words)'' m
            else if n > 1024 then Fault ''REQUEST kind=2: descriptor too large (%u words)'' m
            else if st_sp st < n + 1 then Fault ''REQUEST kind=2: stack underflow need=%u have=%zu'' m
            else if fe_al fe (n * 4) = None then Fault ''REQUEST kind=2: OOM copying descriptor'' m
            else
              let start = st_sp st - 1 - n; ws = take n (drop start (st_words st)) in
              call_k (f wid ws) m (\<lambda>res m1.
                case res of
                  None \<Rightarrow> Yield m1
                | Some rid \<Rightarrow>
                    Yield (m_adv r pc need (m_set_r r 1 1 (m_set_r r 0 rid
                      (upd_vm r (\<lambda>v. v\<lparr>vm_stack := (vm_stack v)\<lparr>st_sp := start\<rparr>\<rparr>) m1))))))"

section \<open>Waiting for data\<close>

definition worker_release_current_ghs_if_owned :: "wref \<Rightarrow> mach \<Rightarrow> (mach \<Rightarrow> mach hres) \<Rightarrow> mach hres" where
  "worker_release_current_ghs_if_owned r m c =
     (let w = get_w r m in
      if \<not> w_has_ghs w then c m
      else
        let clear = upd_w r (\<lambda>w. w\<lparr>w_has_ghs := False, w_ghs := 0\<rparr>) in
        case epa_ghs_get_meta (mach_get_ghs m) (w_ghs w) of
          Ok meta \<Rightarrow>
            if gm_owner meta = w_id w then
              (case epa_ghs_free (mach_get_ghs m) (w_ghs w) of
                 Ok g \<Rightarrow> c (clear (mach_put_ghs g m))
               | Err _ \<Rightarrow> Fault ''WAIT_FOR_DATA auto-free failed err=%d'' m
               | Ub \<Rightarrow> Undef)
            else c (clear m)
        | Err _ \<Rightarrow> c (clear m)
        | Ub \<Rightarrow> Undef)"

definition op_wait_for_data :: k_op where
  "op_wait_for_data fe r code pc need m =
     (if m_id r m = 0 then Fault ''WAIT_FOR_DATA only valid in workers'' m
      else if epa_ring_count (w_inq (get_w r m)) > 0 then
        m_round_enter fe r m (\<lambda>m1.
          Yield (m_adv r pc need (upd_w r (\<lambda>w. w\<lparr>w_waiting := False, w_blocked := False\<rparr>) m1)))
      else
        worker_release_current_ghs_if_owned r m (\<lambda>m1.
          let m2 = upd_w r (\<lambda>w. w\<lparr>w_waiting := True, w_blocked := True\<rparr>) m1 in
          if epa_ring_count (w_inq (get_w r m2)) > 0 then
            m_round_enter fe r m2 (\<lambda>m3.
              Yield (m_adv r pc need (upd_w r (\<lambda>w. w\<lparr>w_waiting := False, w_blocked := False\<rparr>) m3)))
          else Yield (m_adv r pc need m2)))"

definition op_data_ready :: k_op where
  "op_data_ready fe r code pc need m =
     (if m_id r m \<noteq> 0 then Fault ''DATA_READY only valid in kernel'' m
      else case on_data_ready (fe_hooks fe) of
        None \<Rightarrow> Fault ''DATA_READY hook not installed'' m
      | Some f \<Rightarrow>
          if pc + 1 + 1 > length code then Fault ''DATA_READY truncated'' m
          else call_k (f (code ! (pc + 1))) m (\<lambda>ok m1.
            m_push r ''DATA_READY: stack overflow'' ok m1 (\<lambda>m2. Yield (m_adv r pc need m2))))"

end
