(* ===== verification/FlowTrx.thy ===== *)
theory FlowTrx
  imports FlowMach
begin

text \<open>
  The instructions of \<open>epa_flow_step\<close> that move words between the rings of workers and
  local words or registers, and \<open>SM_PUT\<close>, which fills the signal mailbox. The kernel's
  worker (slot 0) may name itself as the other side, so every access goes through the state.
\<close>

section \<open>Rings of a worker\<close>

datatype ring_sel = InQ | OutQ

definition w_ring :: "ring_sel \<Rightarrow> epa_worker \<Rightarrow> id_ring" where
  "w_ring s w = (case s of InQ \<Rightarrow> w_inq w | OutQ \<Rightarrow> w_outq w)"

definition w_put_ring :: "ring_sel \<Rightarrow> id_ring \<Rightarrow> epa_worker \<Rightarrow> epa_worker" where
  "w_put_ring s q w = (case s of InQ \<Rightarrow> w\<lparr>w_inq := q\<rparr> | OutQ \<Rightarrow> w\<lparr>w_outq := q\<rparr>)"

interpretation wring: state_field "w_ring s" "w_put_ring s" for s
  by unfold_locales (cases s; simp add: w_ring_def w_put_ring_def)+

definition m_ring :: "wref \<Rightarrow> ring_sel \<Rightarrow> mach \<Rightarrow> id_ring" where
  "m_ring r s m = w_ring s (get_w r m)"

definition m_put_ring :: "wref \<Rightarrow> ring_sel \<Rightarrow> id_ring \<Rightarrow> mach \<Rightarrow> mach" where
  "m_put_ring r s q = upd_w r (w_put_ring s q)"

definition m_set_local :: "wref \<Rightarrow> nat \<Rightarrow> u32 \<Rightarrow> mach \<Rightarrow> mach" where
  "m_set_local r i x = upd_vm r (\<lambda>v. v\<lparr>vm_locals := (vm_locals v)[i := x]\<rparr>)"

text \<open>The transfer loops; each stops at the first failing ring operation.\<close>

fun ring_to_locals :: "string \<Rightarrow> wref \<Rightarrow> wref \<Rightarrow> ring_sel \<Rightarrow> nat \<Rightarrow> nat \<Rightarrow> mach \<Rightarrow> mach hres" where
  "ring_to_locals msg r src s a 0 m = Yield m"
| "ring_to_locals msg r src s a (Suc n) m =
     (case epa_ring_pop (m_ring src s m) of
        None \<Rightarrow> Fault msg m
      | Some (x, q) \<Rightarrow> ring_to_locals msg r src s (Suc a) n (m_set_local r a x (m_put_ring src s q m)))"

fun locals_to_ring :: "wref \<Rightarrow> wref \<Rightarrow> ring_sel \<Rightarrow> nat \<Rightarrow> nat \<Rightarrow> mach \<Rightarrow> mach hres" where
  "locals_to_ring r dst s a 0 m = Yield m"
| "locals_to_ring r dst s a (Suc n) m =
     (case epa_ring_push (m_ring dst s m) (vm_locals (m_vm r m) ! a) False of
        Inl e \<Rightarrow> Fault e m
      | Inr q \<Rightarrow> locals_to_ring r dst s (Suc a) n (m_put_ring dst s q m))"

fun ring_to_ring :: "string \<Rightarrow> wref \<Rightarrow> wref \<Rightarrow> nat \<Rightarrow> mach \<Rightarrow> mach hres" where
  "ring_to_ring msg src dst 0 m = Yield m"
| "ring_to_ring msg src dst (Suc n) m =
     (case epa_ring_pop (m_ring src OutQ m) of
        None \<Rightarrow> Fault msg m
      | Some (x, q) \<Rightarrow>
          let m1 = m_put_ring src OutQ q m in
          case epa_ring_push (m_ring dst InQ m1) x False of
            Inl e \<Rightarrow> Fault e m1
          | Inr q' \<Rightarrow> ring_to_ring msg src dst n (m_put_ring dst InQ q' m1))"

text \<open>Going on after a loop.\<close>

definition then_h :: "'s hres \<Rightarrow> ('s \<Rightarrow> 's hres) \<Rightarrow> 's hres" where
  "then_h x c = (case x of Yield s \<Rightarrow> c s | Fault e s \<Rightarrow> Fault e s | Undef \<Rightarrow> Undef)"

definition locals_range_bad :: "u32 \<Rightarrow> u16 \<Rightarrow> bool" where
  "locals_range_bad laddr len \<longleftrightarrow> laddr > 64 \<or> unat laddr + unat len > 64"

section \<open>Kernel side\<close>

definition op_kernel_trx_in_l :: k_op where
  "op_kernel_trx_in_l fe r code pc need m =
     (if m_id r m \<noteq> 0 then Fault ''KERNEL_TRX_IN_L only valid in kernel'' m
      else case get_worker (fe_hooks fe) of
        None \<Rightarrow> Fault ''KERNEL_TRX_IN_L: get_worker hook not installed'' m
      | Some gw \<Rightarrow>
          let laddr = imm32 code pc 1; len = imm16 code pc 5 in
          if locals_range_bad laddr len
          then Fault ''KERNEL_TRX_IN_L locals range out of bounds laddr=%u len=%u'' m
          else case gw (m_k m) (code ! (pc + 1)) of
            None \<Rightarrow> Fault ''KERNEL_TRX_IN_L invalid worker %u'' m
          | Some i \<Rightarrow>
              if epa_ring_count (m_ring (InSlot i) OutQ m) < ucast len
              then Fault ''KERNEL_TRX_IN_L not enough outq data worker=%u need=%u have=%u'' m
              else then_h (ring_to_locals ''KERNEL_TRX_IN_L outq pop failed'' r (InSlot i) OutQ
                             (unat laddr) (unat len) m)
                     (\<lambda>m1. Yield (m_adv r pc need m1)))"

definition op_kernel_trx_out_l :: k_op where
  "op_kernel_trx_out_l fe r code pc need m =
     (if m_id r m \<noteq> 0 then Fault ''KERNEL_TRX_OUT_L only valid in kernel'' m
      else case get_worker (fe_hooks fe) of
        None \<Rightarrow> Fault ''KERNEL_TRX_OUT_L: get_worker hook not installed'' m
      | Some gw \<Rightarrow>
          let laddr = imm32 code pc 1; len = imm16 code pc 5 in
          if locals_range_bad laddr len
          then Fault ''KERNEL_TRX_OUT_L locals range out of bounds laddr=%u len=%u'' m
          else case gw (m_k m) (code ! (pc + 1)) of
            None \<Rightarrow> Fault ''KERNEL_TRX_OUT_L invalid worker %u'' m
          | Some i \<Rightarrow>
              if epa_ring_space (m_ring (InSlot i) InQ m) < ucast len
              then Fault ''KERNEL_TRX_OUT_L not enough inq space worker=%u need=%u have=%u'' m
              else then_h (locals_to_ring r (InSlot i) InQ (unat laddr) (unat len) m)
                     (\<lambda>m1. Yield (m_adv r pc need m1)))"

definition op_worker_trx :: k_op where
  "op_worker_trx fe r code pc need m =
     (if m_id r m \<noteq> 0 then Fault ''WORKER_TRX only valid in kernel'' m
      else case get_worker (fe_hooks fe) of
        None \<Rightarrow> Fault ''WORKER_TRX: get_worker hook not installed'' m
      | Some gw \<Rightarrow>
          let sa = imm32 code pc 0; da = imm32 code pc 4; len = imm16 code pc 8 in
          if sa \<ge> 64 \<or> da \<ge> 64 then Fault ''WORKER_TRX locals addr out of range src=%u dst=%u'' m
          else
            let sw = vm_locals (m_vm r m) ! unat sa; dw = vm_locals (m_vm r m) ! unat da in
            if sw > 255 \<or> dw > 255 then Fault ''WORKER_TRX invalid wid src=%u dst=%u'' m
            else case (gw (m_k m) (ucast sw), gw (m_k m) (ucast dw)) of
              (Some i, Some j) \<Rightarrow>
                if epa_ring_count (m_ring (InSlot i) OutQ m) < ucast len
                then Fault ''WORKER_TRX not enough src outq data need=%u have=%u'' m
                else if epa_ring_space (m_ring (InSlot j) InQ m) < ucast len
                then Fault ''WORKER_TRX not enough dst inq space need=%u have=%u'' m
                else then_h (ring_to_ring ''WORKER_TRX src pop failed'' (InSlot i) (InSlot j) (unat len) m)
                       (\<lambda>m1. Yield (m_adv r pc need m1))
            | _ \<Rightarrow> Fault ''WORKER_TRX missing worker src=%u dst=%u'' m)"

definition op_kernel_ghs_in_r :: k_op where
  "op_kernel_ghs_in_r fe r code pc need m =
     (if m_id r m \<noteq> 0 then Fault ''KERNEL_GHS_IN_R only valid in kernel'' m
      else case get_worker (fe_hooks fe) of
        None \<Rightarrow> Fault ''KERNEL_GHS_IN_R: get_worker hook not installed'' m
      | Some gw \<Rightarrow>
          let la = imm32 code pc 0 in
          if la \<ge> 64 then Fault ''KERNEL_GHS_IN_R local addr out of range wid_local=%u'' m
          else
            let wid = vm_locals (m_vm r m) ! unat la in
            if wid > 255 then Fault ''KERNEL_GHS_IN_R invalid wid=%u'' m
            else case gw (m_k m) (ucast wid) of
              None \<Rightarrow> Yield (m_adv r pc need (upd_vm r (vm_set_regs 0 0 0 0) m))
            | Some i \<Rightarrow>
                let src = get_w (InSlot i) m in
                if \<not> w_has_ghs src then Yield (m_adv r pc need (upd_vm r (vm_set_regs 0 0 0 0) m))
                else Yield (m_adv r pc need (upd_vm r (vm_set_regs (epa_ghs_handle_index (w_ghs src))
                              (epa_ghs_handle_gen (w_ghs src)) 1 0) m)))"

section \<open>Worker side\<close>

definition op_worker_trx_in_l :: k_op where
  "op_worker_trx_in_l fe r code pc need m =
     (if m_id r m = 0 then Fault ''WORKER_TRX_IN_L only valid in workers'' m
      else let laddr = imm32 code pc 0; len = imm16 code pc 4 in
        if locals_range_bad laddr len
        then Fault ''WORKER_TRX_IN_L locals range out of bounds laddr=%u len=%u'' m
        else if epa_ring_count (m_ring r InQ m) < ucast len
        then Fault ''WORKER_TRX_IN_L not enough inq data need=%u have=%u'' m
        else then_h (ring_to_locals ''WORKER_TRX_IN_L inq pop failed'' r r InQ (unat laddr) (unat len) m)
               (\<lambda>m1. Yield (m_adv r pc need m1)))"

definition op_worker_trx_out_l :: k_op where
  "op_worker_trx_out_l fe r code pc need m =
     (if m_id r m = 0 then Fault ''WORKER_TRX_OUT_L only valid in workers'' m
      else let laddr = imm32 code pc 0; len = imm16 code pc 4 in
        if locals_range_bad laddr len
        then Fault ''WORKER_TRX_OUT_L locals range out of bounds laddr=%u len=%u'' m
        else if epa_ring_space (m_ring r OutQ m) < ucast len
        then Fault ''WORKER_TRX_OUT_L not enough outq space need=%u have=%u'' m
        else then_h (locals_to_ring r r OutQ (unat laddr) (unat len) m)
               (\<lambda>m1. Yield (m_adv r pc need m1)))"

text \<open>The register index is not checked; above 3 the write is outside the array. A handle
  becomes the current one when its second half arrives in r1.\<close>

definition op_worker_trx_in_r :: k_op where
  "op_worker_trx_in_r fe r code pc need m =
     (if m_id r m = 0 then Fault ''WORKER_TRX_IN_L only valid in workers'' m
      else if epa_ring_count (m_ring r InQ m) < 1
      then Fault ''WORKER_TRX_IN_L not enough inq data need=%u have=%u'' m
      else
        let reg = imm8 code pc 0 in
        case epa_ring_pop (m_ring r InQ m) of
          None \<Rightarrow> Fault ''WORKER_TRX_IN_L inq pop failed'' m
        | Some (x, q) \<Rightarrow>
            if reg \<ge> 4 then Undef
            else
              let m1 = m_set_r r reg x (m_put_ring r InQ q m);
                  m2 = (if reg = 1
                        then upd_w r (\<lambda>w. w\<lparr>w_ghs := epa_ghs_make_handle (vm_r (w_vm w) 0) (vm_r (w_vm w) 1),
                                            w_has_ghs := True\<rparr>) m1
                        else m1)
              in Yield (m_adv r pc need m2))"

definition op_worker_trx_out_r :: k_op where
  "op_worker_trx_out_r fe r code pc need m =
     (if m_id r m = 0 then Fault ''WORKER_TRX_OUT_L only valid in workers'' m
      else if epa_ring_space (m_ring r OutQ m) < 1
      then Fault ''WORKER_TRX_OUT_L not enough outq space need=%u have=%u'' m
      else case epa_ring_push (m_ring r OutQ m) (ucast (code ! (pc + 1))) False of
        Inl e \<Rightarrow> Fault e m
      | Inr q \<Rightarrow> Yield (m_adv r pc need (m_put_ring r OutQ q m)))"

text \<open>The capacity tested is the program's for the slot, the block written the worker's own.\<close>

definition op_sm_put :: k_op where
  "op_sm_put fe r code pc need m =
     (let w = get_w r m; cur = vm_r (w_vm w) 3; cap = p_mailbox (fe_prog fe) (unat (w_id w)) in
      if w_exec w = EPA_EXEC_THREAD then Fault ''%s: worker-only opcode'' m
      else case w_mailbox w of
        None \<Rightarrow> Fault ''SM_PUT: signal mailbox not configured'' m
      | Some box \<Rightarrow>
          if w_id w \<ge> 256 then Undef
          else if cap = 0 then Fault ''SM_PUT: signal mailbox not configured'' m
          else if cur > cap \<or> cap - cur < 4 then Fault ''SM_PUT: out of bounds (cur=%u cap=%u)'' m
          else if unat cur + 4 > length box then Undef
          else
            let box' = mem_write box (unat cur) (u32_le_bytes (vm_r (w_vm w) 0)) in
            Yield (m_adv r pc need (m_set_r r 3 (cur + 4) (upd_w r (\<lambda>w. w\<lparr>w_mailbox := Some box'\<rparr>) m))))"

end
