(* ===== verification/FlowGhs.thy ===== *)
theory FlowGhs
  imports FlowMach
begin

text \<open>
  The instructions of \<open>epa_flow_step\<close> on the handle space and on the read-only global
  memory. The caller of an operation is the slot number of the running worker
  (\<open>epa_ghs_require_owner\<close>, \<open>src/epa_opcode_helpers.c\<close>).
\<close>

definition epa_h_from_regs :: "u32 \<Rightarrow> u32 \<Rightarrow> u64" where
  "epa_h_from_regs idx gen = epa_ghs_make_handle idx gen"

definition epa_ghs_require_owner :: "epa_ghs \<Rightarrow> u64 \<Rightarrow> u32 \<Rightarrow> bool" where
  "epa_ghs_require_owner g h caller =
     (case epa_ghs_get_meta g h of Ok meta \<Rightarrow> gm_owner meta = caller | _ \<Rightarrow> False)"

definition m_handle :: "wref \<Rightarrow> mach \<Rightarrow> u64" where
  "m_handle r m = epa_h_from_regs (m_r r m 0) (m_r r m 1)"

text \<open>An operation on the handle space that fails with one message.\<close>

definition ghs_call :: "(ghs_err, 'a) res \<Rightarrow> string \<Rightarrow> mach \<Rightarrow> ('a \<Rightarrow> mach hres) \<Rightarrow> mach hres" where
  "ghs_call x msg m c = (case x of Ok a \<Rightarrow> c a | Err _ \<Rightarrow> Fault msg m | Ub \<Rightarrow> Undef)"

section \<open>Handles\<close>

definition op_g_alloc :: k_op where
  "op_g_alloc fe r code pc need m =
     ghs_call (epa_ghs_alloc (fe_al fe) (mach_get_ghs m) (m_r r m 0) (m_id r m) (m_r r m 1))
       ''G_ALLOC failed (type=%u size=%u) err=%d'' m
       (\<lambda>(h, g). Yield (m_adv r pc need (m_set_r r 1 (epa_ghs_handle_gen h)
          (m_set_r r 0 (epa_ghs_handle_index h) (mach_put_ghs g m)))))"

text \<open>Local bytes as the source of an operation: \<open>None\<close> is the failed range check,
  \<open>Some None\<close> a range outside the block.\<close>

definition local_bytes :: "epa_vm \<Rightarrow> u32 \<Rightarrow> u32 \<Rightarrow> u8 list option option" where
  "local_bytes v off sz =
     (case vm_lbytes v of
        None \<Rightarrow> None
      | Some b \<Rightarrow>
          if off > vm_ltop v \<or> sz > vm_ltop v - off then None
          else if unat off + unat sz \<le> length b then Some (Some (mem_read b (unat off) (unat sz)))
          else Some None)"

definition op_g_alloc_l :: k_op where
  "op_g_alloc_l fe r code pc need m =
     (let sz = m_r r m 1; off = m_r r m 2 in
      case local_bytes (m_vm r m) off sz of
        None \<Rightarrow> Fault ''G_ALLOC_L local range out of bounds off=%u size=%u top=%u'' m
      | Some src \<Rightarrow>
          ghs_call (epa_ghs_alloc (fe_al fe) (mach_get_ghs m) (m_r r m 0) (m_id r m) sz)
            ''G_ALLOC_L alloc failed (type=%u size=%u) err=%d'' m
            (\<lambda>(h, g). case src of
               None \<Rightarrow> Undef
             | Some bytes \<Rightarrow>
                 (case epa_ghs_write_bytes g h 0 bytes of
                    Ub \<Rightarrow> Undef
                  | Err _ \<Rightarrow> Fault ''G_ALLOC_L copy failed size=%u err=%d''
                             (mach_put_ghs (case epa_ghs_free g h of Ok g' \<Rightarrow> g' | _ \<Rightarrow> g) m)
                  | Ok g2 \<Rightarrow> Yield (m_adv r pc need (upd_vm r
                      (vm_set_regs (epa_ghs_handle_index h) (epa_ghs_handle_gen h) 1 0) (mach_put_ghs g2 m))))))"

definition op_g_free :: k_op where
  "op_g_free fe r code pc need m =
     (let h = m_handle r m in
      if \<not> epa_ghs_require_owner (mach_get_ghs m) h (m_id r m) then Fault [] m
      else ghs_call (epa_ghs_free (mach_get_ghs m) h) ''G_FREE failed err=%d'' m
             (\<lambda>g. Yield (m_adv r pc need (m_set_r r 0 0 (mach_put_ghs g m)))))"

text \<open>The loop of both transfer instructions: pop a handle, check its owner, hand it over. The
  handles taken so far are \<open>acc\<close>, newest first.\<close>

definition clear_current :: "wref \<Rightarrow> u64 \<Rightarrow> mach \<Rightarrow> mach" where
  "clear_current r h = upd_w r (\<lambda>w. if w_has_ghs w \<and> w_ghs w = h then w\<lparr>w_has_ghs := False, w_ghs := 0\<rparr> else w)"

fun xfer_loop ::
  "string \<Rightarrow> string \<Rightarrow> string \<Rightarrow> wref \<Rightarrow> u32 \<Rightarrow> nat \<Rightarrow> u64 list \<Rightarrow> mach \<Rightarrow> (u64 list \<Rightarrow> mach \<Rightarrow> mach hres) \<Rightarrow> mach hres" where
  "xfer_loop pm om fm r new_owner 0 acc m c = c (rev acc) m"
| "xfer_loop pm om fm r new_owner (Suc n) acc m c =
     m_pop r pm m (\<lambda>hi m1. m_pop r pm m1 (\<lambda>lo m2.
       let h = epa_h_from_regs lo hi in
       if \<not> epa_ghs_require_owner (mach_get_ghs m2) h (m_id r m2) then Fault om m2
       else ghs_call (epa_ghs_transfer (mach_get_ghs m2) h new_owner) fm m2
              (\<lambda>g. xfer_loop pm om fm r new_owner n (h # acc) (clear_current r h (mach_put_ghs g m2)) c)))"

definition m_deliver :: "flow_env \<Rightarrow> wref \<Rightarrow> u32 \<Rightarrow> u64 list \<Rightarrow> mach \<Rightarrow> (string, unit) res \<times> mach" where
  "m_deliver fe r new_owner hs m =
     (let (res, k) = epa_kernel_deliver_ghs_handles_framed (fe_al fe) new_owner hs (k_uid (m_k m)) (m_id r m) (m_k m)
      in (res, m\<lparr>m_k := k\<rparr>))"

definition op_g_xfer :: k_op where
  "op_g_xfer fe r code pc need m =
     (let new_owner = m_r r m 2 in
      if st_sp (vm_stack (m_vm r m)) < 2
      then Fault ''G_XFER failed: stack underflow (need %u u32, have %zu)'' m
      else if fe_al fe 8 = None then Fault ''G_XFER failed: OOM building notify payload'' m
      else xfer_loop ''G_XFER failed: stack pop failed'' ''G_XFER failed: not owner of handle''
             ''G_XFER failed err=%d'' r new_owner 1 [] m
             (\<lambda>hs m1. case m_deliver fe r new_owner hs m1 of
                (Ok _, m2) \<Rightarrow> Yield (m_adv r pc need (m_set_r r 3 0 (m_set_r r 1 0 (m_set_r r 0 0 m2))))
              | (Err _, m2) \<Rightarrow> Fault ''G_XFER failed: ingress queue full for wid=%u''
                    (upd_w r (\<lambda>w. w\<lparr>w_faulted := True,
                       w_fault_message := ''G_XFER FAULT: ingress queue full for wid=%u''\<rparr>) m2)
              | (Ub, m2) \<Rightarrow> Undef))"

text \<open>The stack check is on \<open>2u * count\<close>, a 32-bit product; the pops check again.\<close>

definition op_g_xferx :: k_op where
  "op_g_xferx fe r code pc need m =
     (let new_owner = m_r r m 2; count = imm32 code pc 0 in
      if count = 0 then Yield (m_adv r pc need m)
      else if st_sp (vm_stack (m_vm r m)) < unat (2 * count)
      then Fault ''G_XFERX failed: stack underflow need=%u have=%zu'' m
      else if fe_al fe (unat count * 8) = None then Fault ''G_XFERX failed: OOM'' m
      else xfer_loop ''G_XFERX failed: stack pop'' ''G_XFERX failed: not owner'' ''G_XFERX failed err=%d''
             r new_owner (unat count) [] m
             (\<lambda>hs m1. case m_deliver fe r new_owner hs m1 of
                (Ok _, m2) \<Rightarrow> Yield (m_adv r pc need m2)
              | (Err _, m2) \<Rightarrow> Fault ''G_XFERX failed: ingress full wid=%u'' m2
              | (Ub, m2) \<Rightarrow> Undef))"

definition op_g_resize :: k_op where
  "op_g_resize fe r code pc need m =
     (let h = m_handle r m in
      if \<not> epa_ghs_require_owner (mach_get_ghs m) h (m_id r m) then Fault [] m
      else ghs_call (epa_ghs_resize (fe_al fe) (mach_get_ghs m) h (m_r r m 2))
             ''G_RESIZE failed new_size=%u err=%d'' m
             (\<lambda>g. Yield (m_adv r pc need (m_set_r r 0 0 (mach_put_ghs g m)))))"

definition op_g_ptr :: k_op where
  "op_g_ptr fe r code pc need m =
     (let h = m_handle r m in
      if \<not> epa_ghs_require_owner (mach_get_ghs m) h (m_id r m) then Fault [] m
      else ghs_call (epa_ghs_get_ptr (mach_get_ghs m) h) ''G_PTR failed err=%d'' m
             (\<lambda>p. if p = None then Fault ''G_PTR failed err=%d'' m
                  else let up = fe_addr fe h in
                    Yield (m_adv r pc need (m_set_r r 1 (ucast (drop_bit 32 up AND 0xFFFFFFFF))
                      (m_set_r r 0 (ucast (up AND 0xFFFFFFFF)) m)))))"

text \<open>The fallback to the current handle when the handle in the registers fails.\<close>

definition or_current :: "wref \<Rightarrow> mach \<Rightarrow> u64 \<Rightarrow> (u64 \<Rightarrow> (ghs_err, 'a) res) \<Rightarrow> (ghs_err, 'a) res" where
  "or_current r m h f =
     (case f h of Err e \<Rightarrow> if w_has_ghs (get_w r m) then f (w_ghs (get_w r m)) else Err e | x \<Rightarrow> x)"

definition op_g_meta :: k_op where
  "op_g_meta fe r code pc need m =
     ghs_call (or_current r m (m_handle r m) (epa_ghs_get_meta (mach_get_ghs m))) ''G_META failed err=%d'' m
       (\<lambda>meta. Yield (m_adv r pc need (upd_vm r
          (vm_set_regs (gm_owner meta) (gm_type meta) (gm_size meta) (gm_capacity meta)) m)))"

definition op_g_tag :: k_op where
  "op_g_tag fe r code pc need m =
     ghs_call (epa_ghs_get_tag (mach_get_ghs m) (m_handle r m)) ''G_TAG failed err=%d'' m
       (\<lambda>tag. Yield (m_adv r pc need (upd_vm r (vm_set_regs tag 0 0 0) m)))"

definition op_gr_mov4 :: k_op where
  "op_gr_mov4 fe r code pc need m =
     (let rid = imm8 code pc 0 in
      if rid \<ge> 4 then Fault ''GR_MOV4: invalid register r%u'' m
      else ghs_call (or_current r m (m_regs64 r m 0 1)
                       (\<lambda>h. epa_ghs_read_bytes (mach_get_ghs m) h (m_r r m 2) 4))
             ''GR_MOV4 failed off=%u err=%d'' m
             (\<lambda>bs. Yield (m_adv r pc need (m_set_r r rid (read_u32_le bs 0) m))))"

definition op_gw_mov4 :: k_op where
  "op_gw_mov4 fe r code pc need m =
     (let rid = imm8 code pc 0 in
      if rid \<ge> 4 then Fault ''GW_MOV4: invalid register r%u'' m
      else ghs_call (epa_ghs_write_bytes (mach_get_ghs m) (m_regs64 r m 0 1) (m_r r m 2)
                       (u32_le_bytes (m_r r m rid)))
             ''GW_MOV4 failed off=%u err=%d'' m
             (\<lambda>g. Yield (m_adv r pc need (mach_put_ghs g m))))"

section \<open>Read-only global memory\<close>

definition op_rgm_publish_l :: k_op where
  "op_rgm_publish_l fe r code pc need m =
     (let name = m_regs64 r m 0 1; off = m_r r m 2; sz = m_r r m 3 in
      case local_bytes (m_vm r m) off sz of
        None \<Rightarrow> Fault ''RGM_PUBLISH_L local range out of bounds off=%u size=%u top=%u'' m
      | Some None \<Rightarrow> Undef
      | Some (Some bytes) \<Rightarrow>
          (case epa_rgm_publish_copy (fe_al fe (unat sz) \<noteq> None) (k_rgm (m_k m)) name bytes of
             Err _ \<Rightarrow> Fault ''RGM_PUBLISH_L failed name=0x%016llx size=%u err=%d'' m
           | Ub \<Rightarrow> Undef
           | Ok (h, t) \<Rightarrow> Yield (m_adv r pc need (upd_vm r
               (vm_set_regs (epa_rgm_handle_index h) (epa_rgm_handle_gen h) sz 1)
               (m\<lparr>m_k := (m_k m)\<lparr>k_rgm := t\<rparr>\<rparr>)))))"

definition op_rgm_get :: k_op where
  "op_rgm_get fe r code pc need m =
     (case epa_rgm_get_by_name (k_rgm (m_k m)) (m_regs64 r m 0 1) of
        Err RGM_ERR_NOT_FOUND \<Rightarrow> Yield (m_adv r pc need (upd_vm r (vm_set_regs 0 0 0 0) m))
      | Err _ \<Rightarrow> Fault ''RGM_GET failed name=0x%016llx err=%d'' m
      | Ub \<Rightarrow> Undef
      | Ok h \<Rightarrow>
          (case epa_rgm_get_meta (k_rgm (m_k m)) h of
             Err _ \<Rightarrow> Fault ''RGM_GET meta failed err=%d'' m
           | Ub \<Rightarrow> Undef
           | Ok meta \<Rightarrow> Yield (m_adv r pc need (upd_vm r
               (vm_set_regs (epa_rgm_handle_index h) (epa_rgm_handle_gen h) (rm_size meta) 1) m))))"

definition op_rgm_meta :: k_op where
  "op_rgm_meta fe r code pc need m =
     (case epa_rgm_get_meta (k_rgm (m_k m)) (epa_rgm_make_handle (m_r r m 0) (m_r r m 1)) of
        Err _ \<Rightarrow> Fault ''RGM_META failed err=%d'' m
      | Ub \<Rightarrow> Undef
      | Ok meta \<Rightarrow> Yield (m_adv r pc need (upd_vm r
          (vm_set_regs (ucast (rm_name meta AND 0xffffffff)) (ucast (drop_bit 32 (rm_name meta) AND 0xffffffff))
             (rm_size meta) (rm_generation meta)) m)))"

definition op_rgm_read4 :: k_op where
  "op_rgm_read4 fe r code pc need m =
     (let rid = imm8 code pc 0 in
      if rid \<ge> 4 then Fault ''RGM_READ4: invalid register r%u'' m
      else case epa_rgm_read_bytes (k_rgm (m_k m)) (epa_rgm_make_handle (m_r r m 0) (m_r r m 1)) (m_r r m 2) 4 of
        Err _ \<Rightarrow> Fault ''RGM_READ4 failed off=%u err=%d'' m
      | Ub \<Rightarrow> Undef
      | Ok bs \<Rightarrow> Yield (m_adv r pc need (m_set_r r rid (read_u32_le bs 0) m)))"

end
