(* ===== verification/FlowDyn.thy ===== *)
theory FlowDyn
  imports FlowMach
begin

text \<open>
  The instructions of \<open>epa_flow_step\<close> on the dynamic pools of the running worker. A
  worker of the program shares the kernel's pools; a pool is always written back where the
  worker's pointer leads.
\<close>

definition m_pool :: "wref \<Rightarrow> u32 \<Rightarrow> mach \<Rightarrow> dyn_pool cres" where
  "m_pool r pool_id m = worker_dynamic_pool_by_id (m_k m) (get_w r m) pool_id"

definition m_pool_put :: "wref \<Rightarrow> u32 \<Rightarrow> dyn_pool \<Rightarrow> mach \<Rightarrow> mach" where
  "m_pool_put r pool_id p m =
     (let (w, k) = w_pool_put pool_id p (get_w r m, m_k m) in put_w r w (m\<lparr>m_k := k\<rparr>))"

definition dyn_call :: "'a dyn_res \<Rightarrow> mach \<Rightarrow> ('a \<Rightarrow> mach hres) \<Rightarrow> mach hres" where
  "dyn_call x m c = (case x of Ok a \<Rightarrow> c a | Err e \<Rightarrow> Fault e m | Ub \<Rightarrow> Undef)"

text \<open>The end of DYN_ALLOC, on the pool as it is after a request.\<close>

definition dyn_alloc_tail :: "wref \<Rightarrow> u32 \<Rightarrow> nat \<Rightarrow> nat \<Rightarrow> mach \<Rightarrow> mach hres" where
  "dyn_alloc_tail r pool_id pc need m =
     (case m_pool r pool_id m of
        COk p \<Rightarrow> dyn_call (epa_dynamic_pool_alloc p) m (\<lambda>(ordinal, p').
          Yield (m_adv r pc need (m_set_r r 1 1 (m_set_r r 0 ordinal (m_pool_put r pool_id p' m)))))
      | _ \<Rightarrow> Undef)"

definition op_dyn_alloc :: k_op where
  "op_dyn_alloc fe r code pc need m =
     (let pool_id = imm32 code pc 0 in
      chk (m_pool r pool_id m) ''DYN_ALLOC: invalid pool_id=%u'' m (\<lambda>p.
        if dp_count p \<ge> dp_cap p then
          (let req = (if dp_cap p \<noteq> 0 then dp_cap p + dp_grow p else dp_grow p);
               req = (if req \<le> dp_count p then dp_count p + 1 else req)
           in case on_request_pool (fe_hooks fe) of
                None \<Rightarrow> Fault ''DYN_ALLOC: dynamic capacity hook not installed'' m
              | Some f \<Rightarrow>
                  call_k (f (m_id8 r m) pool_id req True) m (\<lambda>res m1.
                    case res of None \<Rightarrow> Yield m1 | Some _ \<Rightarrow> dyn_alloc_tail r pool_id pc need m1))
        else dyn_alloc_tail r pool_id pc need m))"

definition op_dyn_free :: k_op where
  "op_dyn_free fe r code pc need m =
     (let pool_id = imm32 code pc 0 in
      chk (m_pool r pool_id m) ''DYN_FREE: invalid pool_id=%u'' m (\<lambda>p.
        dyn_call (epa_dynamic_pool_release p (m_r r m 0)) m (\<lambda>p'.
          let m1 = m_pool_put r pool_id p' m; fin = (\<lambda>m2. Yield (m_adv r pc need (m_set_r r 1 1 m2))) in
          case on_request_pool (fe_hooks fe) of
            None \<Rightarrow> fin m1
          | Some f \<Rightarrow>
              if dp_cap p' > dp_count p' + dp_max_free p' then
                (let (res, k) = f (m_id8 r m) pool_id (dp_count p' + dp_min_free p') False (m_k m1)
                 in if res = Ub then Undef else fin (m1\<lparr>m_k := k\<rparr>))
              else fin m1)))"

text \<open>Copying an element to the top of the byte arena: the offset after alignment and the new
  machine.\<close>

definition dyn_to_arena :: "string \<Rightarrow> wref \<Rightarrow> dyn_pool \<Rightarrow> u32 \<Rightarrow> mach \<Rightarrow> (u32 \<Rightarrow> u32 \<Rightarrow> mach \<Rightarrow> mach hres) \<Rightarrow> mach hres" where
  "dyn_to_arena msg r p ordinal m c =
     (let v = m_vm r m; sz = dp_elem p; off = (vm_ltop v + 3) AND NOT 3 in
      case vm_lbytes v of
        None \<Rightarrow> Fault msg m
      | Some b \<Rightarrow>
          if sz > vm_lcap v \<or> off > vm_lcap v - sz then Fault msg m
          else dyn_call (epa_dynamic_pool_read p ordinal sz) m (\<lambda>bytes.
            if unat off + length bytes > length b then Undef
            else c off sz (upd_vm r (\<lambda>v. v\<lparr>vm_lbytes := Some (mem_write b (unat off) bytes),
                                         vm_ltop := off + sz\<rparr>) m)))"

definition op_dyn_load :: k_op where
  "op_dyn_load fe r code pc need m =
     (let pool_id = imm32 code pc 0 in
      chk (m_pool r pool_id m) ''DYN_LOAD: invalid pool_id=%u'' m (\<lambda>p.
        dyn_to_arena ''DYN_LOAD: local byte heap exhausted for size=%u'' r p (m_r r m 0) m (\<lambda>off sz m1.
          Yield (m_adv r pc need (m_set_r r 2 1 (m_set_r r 1 sz (m_set_r r 0 off m1)))))))"

definition op_dyn_store :: k_op where
  "op_dyn_store fe r code pc need m =
     (let pool_id = imm32 code pc 0 in
      chk (m_pool r pool_id m) ''DYN_STORE: invalid pool_id=%u'' m (\<lambda>p.
        let v = m_vm r m; off = m_r r m 1; sz = m_r r m 2;
            msg = ''DYN_STORE: invalid source ref off=%u size=%u'' in
        case vm_lbytes v of
          None \<Rightarrow> Fault msg m
        | Some b \<Rightarrow>
            if off > vm_ltop v \<or> sz > vm_ltop v - off then Fault msg m
            else if unat off + unat sz > length b then Undef
            else dyn_call (epa_dynamic_pool_write p (m_r r m 0) (mem_read b (unat off) (unat sz)) sz) m (\<lambda>p'.
              Yield (m_adv r pc need (m_set_r r 3 1 (m_pool_put r pool_id p' m))))))"

definition op_dyn_swap :: k_op where
  "op_dyn_swap fe r code pc need m =
     (let pool_id = imm32 code pc 0 in
      chk (m_pool r pool_id m) ''DYN_SWAP: invalid pool_id=%u'' m (\<lambda>p.
        dyn_call (epa_dynamic_pool_swap p (m_r r m 0) (m_r r m 1)) m (\<lambda>p'.
          Yield (m_adv r pc need (m_set_r r 2 1 (m_pool_put r pool_id p' m))))))"

definition op_dyn_iter_head :: k_op where
  "op_dyn_iter_head fe r code pc need m =
     (let pool_id = imm32 code pc 0 in
      chk (m_pool r pool_id m) ''DYN_ITER_HEAD: invalid pool_id=%u'' m (\<lambda>p.
        Yield (m_adv r pc need (m_set_r r 0 0 m))))"

definition op_dyn_iter_next :: k_op where
  "op_dyn_iter_next fe r code pc need m =
     (let pool_id = imm32 code pc 0; ordinal = m_r r m 0 in
      chk (m_pool r pool_id m) ''DYN_ITER_NEXT: invalid pool_id=%u'' m (\<lambda>p.
        if ordinal \<ge> dp_count p then Yield (m_adv r pc need (m_set_r r 1 0 m))
        else dyn_to_arena ''DYN_ITER_NEXT: local byte heap exhausted size=%u'' r p ordinal m (\<lambda>off sz m1.
          Yield (m_adv r pc need (upd_vm r (vm_set_regs (ordinal + 1) 1 off sz) m1)))))"

end
