(* ===== verification/FlowStep.thy ===== *)
theory FlowStep
  imports FlowSystem FlowTrx FlowGhs FlowDyn Opcodes
begin

text \<open>
  One step of a worker, \<open>epa_flow_step\<close> of \<open>src/epa_instruct_common.c\<close>: resolve the
  instruction pointer, decode, check the length, dispatch. The dispatch is a table from opcode
  values to the handlers of the other theories; an opcode that is in the opcode table but not here
  is left to the backend (\<open>FlowNotFlow\<close>).
\<close>

datatype flow_res = FlowErr string mach | FlowOk mach | FlowYielded mach | FlowNotFlow mach | FlowUndef

definition k_table :: "(nat \<times> k_op) list" where
  "k_table =
     [(12, op_entry_exec), (13, op_entry_halt), (17, op_entry_retire), (18, op_kernel_retire),
      (19, op_entry_privilege), (20, op_privilege_lock), (21, op_acl), (24, op_pid), (26, op_sync),
      (27, op_wait_on_sync), (28, op_wait_for_data), (29, op_data_ready), (57, op_sm_put),
      (65, op_kernel_trx_in_l), (66, op_kernel_trx_out_l), (67, op_worker_trx_in_l),
      (68, op_worker_trx_out_l), (69, op_worker_trx_in_r), (70, op_worker_trx_out_r),
      (71, op_worker_trx), (72, op_kernel_ghs_in_r), (73, op_g_alloc), (74, op_g_free),
      (75, op_g_xfer), (76, op_g_xferx), (77, op_g_resize), (78, op_g_ptr), (79, op_g_meta),
      (80, op_g_tag), (81, op_gr_mov4), (82, op_gw_mov4), (83, op_g_alloc_l), (84, op_rgm_publish_l),
      (85, op_rgm_get), (86, op_rgm_meta), (87, op_rgm_read4), (88, op_dyn_alloc), (89, op_dyn_free),
      (90, op_dyn_load), (91, op_dyn_store), (92, op_dyn_swap), (93, op_dyn_iter_head),
      (94, op_dyn_iter_next), (95, op_break), (96, op_trap), (97, op_except), (98, op_signal),
      (99, op_far_signal), (100, op_host_signal), (101, op_request), (110, op_vm_state),
      (128, op_boot_stage_image), (129, op_boot_reset_to_staged), (130, op_dynlib_import),
      (131, op_process_spawn)]"

definition flow_table :: "flow_env \<Rightarrow> (nat \<times> k_op) list" where
  "flow_table fe = map (\<lambda>(i, h). (i, lift_vm_op h)) (vm_table (fe_nc fe) (fe_prog fe)) @ k_table"

definition flow_exec :: "flow_env \<Rightarrow> wref \<Rightarrow> nat \<Rightarrow> u8 list \<Rightarrow> nat \<Rightarrow> nat \<Rightarrow> mach \<Rightarrow> flow_res" where
  "flow_exec fe r op code pc need m =
     (if op = 2 then FlowOk m
      else case map_of (flow_table fe) op of
        None \<Rightarrow> FlowNotFlow m
      | Some h \<Rightarrow>
          (case h fe r code pc need m of
             Yield m' \<Rightarrow> FlowYielded m' | Fault e m' \<Rightarrow> FlowErr e m' | Undef \<Rightarrow> FlowUndef))"

definition epa_flow_step :: "flow_env \<Rightarrow> wref \<Rightarrow> mach \<Rightarrow> flow_res" where
  "epa_flow_step fe r m =
     (let e = vm_eip (m_vm r m) in
      case epa_prog_resolve (fe_prog fe) (eip_type e) (eip_block e) of
        None \<Rightarrow> FlowErr ''EIP resolve failed type=%u id=%u'' m
      | Some code \<Rightarrow>
          let pc = unat (eip_pc e) in
          if pc + 1 > length code then FlowErr ''EIP out of range pc=%zu len=%zu'' m
          else case epa_decode_opcode_at code pc of
            None \<Rightarrow> FlowErr ''truncated opcode at pc=%zu'' m
          | Some (op, op_width) \<Rightarrow>
              (case epa_find_opcode op of
                 None \<Rightarrow> FlowErr ''unknown opcode 0x%04x at pc=%zu'' m
               | Some d \<Rightarrow>
                   let need = op_width + unat (od_plen d) in
                   if pc + need > length code then FlowErr ''truncated %s at pc=%zu'' m
                   else flow_exec fe r (unat op) code pc need m))"

section \<open>The standard hooks of a kernel\<close>

text \<open>The routines behind the remaining hooks work on the registry of all kernels of the
  process, on threads or on loaded modules; they are the fields of \<open>outer\<close>.\<close>

record outer =
  ou_kernel_retire :: "u64 \<Rightarrow> epa_kernel \<Rightarrow> unit kres"
  ou_acl_grant :: "u8 \<Rightarrow> u64 \<Rightarrow> u64 \<Rightarrow> u8 \<Rightarrow> epa_kernel \<Rightarrow> unit kres"
  ou_acl_revoke :: "u8 \<Rightarrow> u64 \<Rightarrow> u64 \<Rightarrow> u8 \<Rightarrow> epa_kernel \<Rightarrow> unit kres"
  ou_acl_revoke_all :: "u8 \<Rightarrow> u64 \<Rightarrow> u64 \<Rightarrow> epa_kernel \<Rightarrow> unit kres"
  ou_pid_retire :: "u8 \<Rightarrow> u32 \<Rightarrow> epa_kernel \<Rightarrow> unit kres"
  ou_far_signal :: "u8 \<Rightarrow> epa_kernel \<Rightarrow> unit kres"
  ou_dynlib_import :: "u8 \<Rightarrow> u64 \<Rightarrow> u32 \<Rightarrow> u64 \<Rightarrow> epa_kernel \<Rightarrow> u32 kres"
  ou_process_spawn :: "u8 \<Rightarrow> u64 \<Rightarrow> u32 \<Rightarrow> u32 \<Rightarrow> epa_kernel \<Rightarrow> u32 kres"

definition kernel_install_standard_hooks :: "platform \<Rightarrow> outer \<Rightarrow> (epa_kernel \<Rightarrow> unit kres) \<Rightarrow> flow_hooks" where
  "kernel_install_standard_hooks pf ou dispatch =
     \<lparr>on_entry_exec = Some hook_entry_exec, on_entry_halt = Some hook_entry_halt,
      on_entry_retire = Some hook_entry_retire, on_kernel_retire = Some (ou_kernel_retire ou),
      on_entry_privilege = Some hook_entry_privilege, on_privilege_lock = Some hook_privilege_lock,
      on_acl_grant = Some (ou_acl_grant ou), on_acl_revoke = Some (ou_acl_revoke ou),
      on_acl_revoke_all = Some (ou_acl_revoke_all ou), on_pid_self = Some hook_pid_self,
      on_pid_retire = Some (ou_pid_retire ou), on_sync = Some hook_sync,
      on_wait_on_sync = Some hook_wait_on_sync, on_data_ready = None,
      get_worker = Some hook_get_worker, on_break = Some hook_break, on_trap = Some hook_trap,
      on_except = Some hook_except, on_signal = Some (hook_signal pf),
      on_far_signal = Some (ou_far_signal ou), on_host_signal = Some (hook_host_signal pf),
      on_request_threads = Some (hook_request_threads pf),
      on_request_at = Some (hook_request_at pf dispatch),
      on_request_pool = Some (hook_request_dynamic_pool_capacity pf),
      on_dynlib_import = Some (ou_dynlib_import ou), on_process_spawn = Some (ou_process_spawn ou)\<rparr>"

end
