(* ===== verification/KernelInv.thy ===== *)
theory KernelInv
  imports FlowStep FlowVmCalls
begin

text \<open>
  The invariant of the whole machine, \<open>mach_wf\<close>: every worker, ring, queue, pool and
  table of the kernel is well formed. It is kept by every routine of the kernel and every
  instruction, whatever they return. An instruction relies on the hooks of its context to do the
  same (\<open>hooks_ok\<close>); the standard hooks do.
\<close>

section \<open>The invariant\<close>

text \<open>The capacity of every stack is part of the invariant, as the parameter \<open>C\<close>: an
  instruction may put a stack pointer back after a hook has run.\<close>

definition worker_inv :: "nat \<Rightarrow> epa_worker \<Rightarrow> bool" where
  "worker_inv c w \<longleftrightarrow> worker_wf w \<and> st_cap (vm_stack (w_vm w)) = c"

definition kernel_wf :: "(wref \<Rightarrow> nat) \<Rightarrow> epa_kernel \<Rightarrow> bool" where
  "kernel_wf C k \<longleftrightarrow> (\<forall>i. worker_inv (C (InSlot i)) (k_workers k i)) \<and> ring_inv (k_syncq k) \<and> ghs_wf (k_ghs k)
     \<and> rgm_wf (k_rgm k) \<and> pred_option (list_all dyn_ok) (k_pools k)
     \<and> cq_inv (k_atq k) \<and> cq_inv (k_memq k) \<and> (\<forall>i. cq_inv (k_ingress k i))"

definition mach_wf :: "(wref \<Rightarrow> nat) \<Rightarrow> mach \<Rightarrow> bool" where
  "mach_wf C m \<longleftrightarrow> kernel_wf C (m_k m) \<and> worker_inv (C Detached) (m_at m)"

text \<open>A routine of the kernel keeps the invariant.\<close>

definition keeps :: "(epa_kernel \<Rightarrow> 'a kres) \<Rightarrow> bool" where
  "keeps f \<longleftrightarrow> (\<forall>C k. kernel_wf C k \<longrightarrow> kernel_wf C (snd (f k)))"

lemma keepsI: "(\<And>C k. kernel_wf C k \<Longrightarrow> kernel_wf C (snd (f k))) \<Longrightarrow> keeps f"
  by (simp add: keeps_def)

lemma keepsD: "keeps f \<Longrightarrow> kernel_wf C k \<Longrightarrow> f k = (r, k') \<Longrightarrow> kernel_wf C k'"
  unfolding keeps_def by (metis snd_conv)

lemma kernel_wf_worker: "kernel_wf C k \<Longrightarrow> worker_inv (C (InSlot i)) (k_workers k i)"
  by (simp add: kernel_wf_def)

lemma kernel_wf_parts:
  "kernel_wf C k \<Longrightarrow> ring_inv (k_syncq k)" "kernel_wf C k \<Longrightarrow> ghs_wf (k_ghs k)" "kernel_wf C k \<Longrightarrow> rgm_wf (k_rgm k)"
  "kernel_wf C k \<Longrightarrow> cq_inv (k_atq k)" "kernel_wf C k \<Longrightarrow> cq_inv (k_memq k)" "kernel_wf C k \<Longrightarrow> cq_inv (k_ingress k i)"
  by (simp_all add: kernel_wf_def)

lemma kernel_wf_upd_w: "kernel_wf C k \<Longrightarrow> (\<And>w. worker_inv (C (InSlot i)) w \<Longrightarrow> worker_inv (C (InSlot i)) (f w)) \<Longrightarrow> kernel_wf C (k_upd_w i f k)"
  by (simp add: kernel_wf_def k_upd_w_def)

lemma kernel_wf_put_w: "kernel_wf C k \<Longrightarrow> worker_inv (C (InSlot i)) w \<Longrightarrow> kernel_wf C (k_upd_w i (\<lambda>_. w) k)"
  by (rule kernel_wf_upd_w)

lemma kernel_wf_ghs: "kernel_wf C k \<Longrightarrow> ghs_wf g \<Longrightarrow> kernel_wf C (k\<lparr>k_ghs := g\<rparr>)"
  by (simp add: kernel_wf_def)

lemma kernel_wf_rgm: "kernel_wf C k \<Longrightarrow> rgm_wf g \<Longrightarrow> kernel_wf C (k\<lparr>k_rgm := g\<rparr>)"
  by (simp add: kernel_wf_def)

lemma kernel_wf_syncq: "kernel_wf C k \<Longrightarrow> ring_inv q \<Longrightarrow> kernel_wf C (k\<lparr>k_syncq := q\<rparr>)"
  by (simp add: kernel_wf_def)

lemma kernel_wf_pools: "kernel_wf C k \<Longrightarrow> pred_option (list_all dyn_ok) ps \<Longrightarrow> kernel_wf C (k\<lparr>k_pools := ps\<rparr>)"
  by (simp add: kernel_wf_def)

lemma kernel_wf_queues:
  "kernel_wf C k \<Longrightarrow> cq_inv q \<Longrightarrow> kernel_wf C (k\<lparr>k_atq := q\<rparr>)"
  "kernel_wf C k \<Longrightarrow> cq_inv q' \<Longrightarrow> kernel_wf C (k\<lparr>k_memq := q'\<rparr>)"
  "kernel_wf C k \<Longrightarrow> cq_inv q'' \<Longrightarrow> kernel_wf C (k\<lparr>k_ingress := (k_ingress k)(i := q'')\<rparr>)"
  by (simp_all add: kernel_wf_def)

lemma kernel_wf_frame [simp]:
  "kernel_wf C (k\<lparr>k_cur := c\<rparr>) = kernel_wf C k" "kernel_wf C (k\<lparr>k_rr := c\<rparr>) = kernel_wf C k"
  "kernel_wf C (k\<lparr>k_n := c\<rparr>) = kernel_wf C k" "kernel_wf C (k\<lparr>k_head := c\<rparr>) = kernel_wf C k"
  "kernel_wf C (k\<lparr>k_next := nx\<rparr>) = kernel_wf C k" "kernel_wf C (k\<lparr>k_priv_locked := b\<rparr>) = kernel_wf C k"
  "kernel_wf C (k\<lparr>k_at_next := u\<rparr>) = kernel_wf C k" "kernel_wf C (k\<lparr>k_mem_next := u\<rparr>) = kernel_wf C k"
  "kernel_wf C (k\<lparr>k_interrupt := b\<rparr>) = kernel_wf C k" "kernel_wf C (k\<lparr>k_deliveries := u\<rparr>) = kernel_wf C k"
  "kernel_wf C (k\<lparr>k_prog := p\<rparr>) = kernel_wf C k" "kernel_wf C (k\<lparr>k_loaded := b\<rparr>) = kernel_wf C k"
  "kernel_wf C (k\<lparr>k_uid := u\<rparr>) = kernel_wf C k" "kernel_wf C (k\<lparr>k_local_uid := u\<rparr>) = kernel_wf C k"
  "kernel_wf C (k\<lparr>k_pid := c\<rparr>) = kernel_wf C k" "kernel_wf C (k\<lparr>k_child := b\<rparr>) = kernel_wf C k"
  "kernel_wf C (k\<lparr>k_acl := as\<rparr>) = kernel_wf C k" "kernel_wf C (k\<lparr>k_staged := st\<rparr>) = kernel_wf C k"
  "kernel_wf C (k\<lparr>k_staged_flags := c\<rparr>) = kernel_wf C k" "kernel_wf C (k\<lparr>k_reset_pending := b\<rparr>) = kernel_wf C k"
  "kernel_wf C (k\<lparr>k_last_signal := bs\<rparr>) = kernel_wf C k" "kernel_wf C (k\<lparr>k_last_signal_len := c\<rparr>) = kernel_wf C k"
  "kernel_wf C (k\<lparr>k_last_signal_wid := c\<rparr>) = kernel_wf C k" "kernel_wf C (k\<lparr>k_events := es\<rparr>) = kernel_wf C k"
  by (simp_all add: kernel_wf_def)

lemma kernel_wf_status [simp]:
  "kernel_wf C (epa_kernel_set_status_text st msg k) = kernel_wf C k"
  "kernel_wf C (epa_kernel_set_status_only st k) = kernel_wf C k"
  by (simp_all add: kernel_wf_def epa_kernel_set_status_text_def epa_kernel_set_status_only_def)

lemma kernel_wf_emit [simp]: "kernel_wf C (kdbg_emit kind wid c at msg k) = kernel_wf C k"
  by (simp add: kdbg_emit_def)

text \<open>Flags and bookkeeping fields of a worker do not matter.\<close>

lemma worker_wf_frame [simp]:
  "worker_inv cap (w\<lparr>w_inited := b\<rparr>) = worker_inv cap w" "worker_inv cap (w\<lparr>w_halted := b\<rparr>) = worker_inv cap w"
  "worker_inv cap (w\<lparr>w_retired := b\<rparr>) = worker_inv cap w" "worker_inv cap (w\<lparr>w_privilege := c\<rparr>) = worker_inv cap w"
  "worker_inv cap (w\<lparr>w_blocked := b\<rparr>) = worker_inv cap w" "worker_inv cap (w\<lparr>w_faulted := b\<rparr>) = worker_inv cap w"
  "worker_inv cap (w\<lparr>w_fault_message := s\<rparr>) = worker_inv cap w" "worker_inv cap (w\<lparr>w_waiting := b\<rparr>) = worker_inv cap w"
  "worker_inv cap (w\<lparr>w_has_ghs := b\<rparr>) = worker_inv cap w" "worker_inv cap (w\<lparr>w_ghs := h\<rparr>) = worker_inv cap w"
  "worker_inv cap (w\<lparr>w_ignore_max_ticks := b\<rparr>) = worker_inv cap w" "worker_inv cap (w\<lparr>w_mailbox := mb\<rparr>) = worker_inv cap w"
  "worker_inv cap (w\<lparr>w_kernel_uid := h\<rparr>) = worker_inv cap w" "worker_inv cap (w\<lparr>w_worker_id := c\<rparr>) = worker_inv cap w"
  "worker_inv cap (w\<lparr>w_src_kernel := h\<rparr>) = worker_inv cap w" "worker_inv cap (w\<lparr>w_src_worker := c\<rparr>) = worker_inv cap w"
  "worker_inv cap (w\<lparr>w_pool_count := c\<rparr>) = worker_inv cap w"
  by (simp_all add: worker_inv_def worker_wf_def)

lemma worker_wf_fields:
  "worker_inv cap w \<Longrightarrow> vm_wf v \<Longrightarrow> st_cap (vm_stack v) = cap \<Longrightarrow> worker_inv cap (w\<lparr>w_vm := v\<rparr>)"
  "worker_inv cap w \<Longrightarrow> ring_inv q \<Longrightarrow> worker_inv cap (w\<lparr>w_inq := q\<rparr>)"
  "worker_inv cap w \<Longrightarrow> ring_inv q \<Longrightarrow> worker_inv cap (w\<lparr>w_outq := q\<rparr>)"
  "worker_inv cap w \<Longrightarrow> pools_wf ps \<Longrightarrow> worker_inv cap (w\<lparr>w_pools := ps\<rparr>)"
  by (simp_all add: worker_inv_def worker_wf_def)

lemma worker_wf_parts:
  "worker_inv cap w \<Longrightarrow> vm_wf (w_vm w)" "worker_inv cap w \<Longrightarrow> ring_inv (w_inq w)" "worker_inv cap w \<Longrightarrow> ring_inv (w_outq w)"
  "worker_inv cap w \<Longrightarrow> pools_wf (w_pools w)" "worker_inv cap w \<Longrightarrow> st_cap (vm_stack (w_vm w)) = cap"
  by (simp_all add: worker_inv_def worker_wf_def)

section \<open>Rings, pools and queues inside the kernel\<close>

lemma ring_push_inv: "ring_inv r \<Longrightarrow> epa_ring_push r x soft = Inr r' \<Longrightarrow> ring_inv r'"
proof -
  assume r: "ring_inv r" and p: "epa_ring_push r x soft = Inr r'"
  have cap: "r_cap r \<noteq> 0" using p by (auto simp: epa_ring_push_def split: option.splits if_splits)
  have "r_count r \<le> r_cap r" using r by (auto simp: ring_inv_def split: option.splits)
  then consider "r_count r < r_cap r" | "r_count r = r_cap r" by fastforce
  then show ?thesis
  proof cases
    case 2
    then have soft using p by (auto simp: epa_ring_push_def ring_push_def split: option.splits if_splits)
    with ring_soft_push_full [OF r 2 cap, of x] p show ?thesis by auto
  qed (use ring_pushed [OF r, of x soft] p in auto)
qed

lemma ring_pop_inv: "ring_inv r \<Longrightarrow> epa_ring_pop r = Some (x, r') \<Longrightarrow> ring_inv r'"
proof -
  assume r: "ring_inv r" and p: "epa_ring_pop r = Some (x, r')"
  then have "r_count r \<noteq> 0" by (auto simp: epa_ring_pop_def ring_pop_def split: option.splits if_splits)
  with ring_popped [OF r] p show ?thesis by auto
qed

lemma cq_push_inv: "cq_inv q \<Longrightarrow> cq_push x q = Some q' \<Longrightarrow> cq_inv q'"
proof -
  assume q: "cq_inv q" and p: "cq_push x q = Some q'"
  have "length (cq_list q) \<le> length (cq_slots q)" by (rule cq.within_capacity [OF q])
  with cq.enq_full [OF q, of x] p have "length (cq_list q) < length (cq_slots q)" by fastforce
  with cq.enq_room [OF q, of x] p show ?thesis by auto
qed

lemma cq_pop_inv: "cq_inv q \<Longrightarrow> cq_pop z q = Some (x, q') \<Longrightarrow> cq_inv q'"
  using cq.deq_empty [of q z] cq.deq_front [of q _ _ z] by (cases "cq_list q") fastforce+

text \<open>The pool a worker's pointer leads to.\<close>

lemma worker_pool_ok:
  "kernel_wf C k \<Longrightarrow> worker_inv c w \<Longrightarrow> worker_dynamic_pool_by_id k w i = COk p \<Longrightarrow> dyn_ok p"
  by (auto simp: worker_dynamic_pool_by_id_def w_pool_list_def kernel_wf_def worker_inv_def worker_wf_def pools_wf_def list_all_length
      split: worker_pools.splits option.splits if_splits)

lemma w_pool_put_wf:
  assumes "kernel_wf C k" and "worker_inv c w" and "dyn_ok p" and "w_pool_put i p (w, k) = (w', k')"
  shows "worker_inv c w' \<and> kernel_wf C k'"
proof (cases "w_pools w")
  case PoolsShared
  have "pred_option (list_all dyn_ok) (map_option (\<lambda>ps. ps[unat i := p]) (k_pools k))"
    using assms(1,3) by (cases "k_pools k") (auto simp: kernel_wf_def intro: list_all_update)
  with PoolsShared assms show ?thesis by (auto simp: w_pool_put_def intro: kernel_wf_pools)
next
  case (PoolsOwned ps)
  then have "list_all dyn_ok (ps[unat i := p])"
    using assms(2,3) by (auto simp: worker_inv_def worker_wf_def pools_wf_def intro: list_all_update)
  with PoolsOwned assms show ?thesis by (auto simp: w_pool_put_def pools_wf_def intro!: worker_wf_fields)
qed (use assms in \<open>simp add: w_pool_put_def\<close>)

lemma pools_round_enter_ok:
  "alloc_ok al \<Longrightarrow> list_all dyn_ok ps \<Longrightarrow> pools_round_enter al ps = Some (r, ps') \<Longrightarrow> list_all dyn_ok ps'"
  by (induction ps arbitrary: ps' r) (auto split: option.splits res.splits dest: dyn_ok_round_enter)

lemma worker_round_enter_wf:
  assumes "alloc_ok al" and "worker_inv c w" and "list_all dyn_ok shared"
    and "epa_worker_round_enter al w shared = Some (r, w', shared')"
  shows "worker_inv c w' \<and> list_all dyn_ok shared'"
  using assms(2-4) pools_round_enter_ok [OF assms(1)]
  by (auto simp: epa_worker_round_enter_def worker_inv_def worker_wf_def pools_wf_def split: worker_pools.splits if_splits)

lemma k_pools_list_ok: "kernel_wf C k \<Longrightarrow> list_all dyn_ok (case k_pools k of None \<Rightarrow> [] | Some ps \<Rightarrow> ps)"
  by (auto simp: kernel_wf_def split: option.split)

lemma pools_same: "list_all dyn_ok ps' \<Longrightarrow> pred_option (list_all dyn_ok) (map_option (\<lambda>_. ps') x)"
  by (cases x) simp_all

lemma k_round_enter_keeps: "alloc_ok al \<Longrightarrow> keeps (k_round_enter al i)"
proof (rule keepsI)
  fix C k assume al: "alloc_ok al" and k: "kernel_wf C k"
  show "kernel_wf C (snd (k_round_enter al i k))"
  proof (cases "epa_worker_round_enter al (k_workers k i) (case k_pools k of None \<Rightarrow> [] | Some ps \<Rightarrow> ps)")
    case (Some res)
    obtain r w sh where r: "res = (r, w, sh)" by (cases res) auto
    from worker_round_enter_wf [OF al kernel_wf_worker [OF k] k_pools_list_ok [OF k]] Some r
    have "worker_inv (C (InSlot i)) w" "list_all dyn_ok sh" by auto
    with k Some r show ?thesis
      by (auto simp: k_round_enter_def intro!: kernel_wf_pools kernel_wf_put_w pools_same)
  qed (use k in \<open>simp add: k_round_enter_def\<close>)
qed

section \<open>Delivery and ingress\<close>

lemma ring_push_all_inv: "ring_inv q \<Longrightarrow> ring_push_all ws q = (r, q') \<Longrightarrow> ring_inv q'"
  by (induction ws arbitrary: q) (auto split: sum.splits dest: ring_push_inv)

lemma deliver_words_keeps:
  assumes "alloc_ok al"
  shows "keeps (deliver_words al dst needed ws fault msg sk sw)"
proof (rule keepsI)
  fix C k assume k: "kernel_wf C k"
  let ?k1 = "k_upd_w (unat dst) (\<lambda>w. w\<lparr>w_src_kernel := sk, w_src_worker := sw\<rparr>) k"
  obtain r q where rq: "ring_push_all ws (w_inq (k_workers ?k1 (unat dst))) = (r, q)" by force
  let ?k2 = "k_upd_w (unat dst) (\<lambda>w. w\<lparr>w_inq := q\<rparr>) ?k1"
  have k1: "kernel_wf C ?k1" using k by (intro kernel_wf_upd_w) simp_all
  have "ring_inv q" using ring_push_all_inv [OF _ rq] worker_wf_parts(2) [OF kernel_wf_worker [OF k1]] by blast
  then have k2: "kernel_wf C ?k2" by (intro kernel_wf_upd_w [OF k1] worker_wf_fields(2))
  obtain r3 k3 where r3: "(if w_waiting (k_workers ?k2 (unat dst)) then k_round_enter al (unat dst) ?k2 else (Ok (), ?k2)) = (r3, k3)"
    by force
  have k3: "kernel_wf C k3" using r3 k2 keepsD [OF k_round_enter_keeps [OF assms]] by (auto split: if_splits)
  have f: "kernel_wf C (kernel_fault_worker dst fault ?k1)"
    using k1 by (auto simp: kernel_fault_worker_def intro!: kernel_wf_upd_w)
  show "kernel_wf C (snd (deliver_words al dst needed ws fault msg sk sw k))"
    unfolding deliver_words_def Let_def rq prod.case r3
    using f k2 k3 by (auto split: res.split intro!: kernel_wf_upd_w)
qed

lemma transfer_unflagged_wf: "ghs_wf g \<Longrightarrow> transfer_unflagged dst hs g = (r, g') \<Longrightarrow> ghs_wf g'"
  by (induction dst hs g rule: transfer_unflagged.induct)
    (auto split: res.splits if_splits dest: ghs_transfer_wf ghs_free_wf)

lemma deliver_handles_keeps:
  "alloc_ok al \<Longrightarrow> keeps (epa_kernel_deliver_ghs_handles_framed al dst hs sk sw)"
proof (rule keepsI)
  fix C k assume al: "alloc_ok al" and k: "kernel_wf C k"
  obtain r g where rg: "transfer_unflagged dst hs (k_ghs k) = (r, g)" by force
  have "kernel_wf C (k\<lparr>k_ghs := g\<rparr>)"
    using transfer_unflagged_wf [OF kernel_wf_parts(2) [OF k] rg] k by (intro kernel_wf_ghs)
  with k deliver_words_keeps [OF al] show "kernel_wf C (snd (epa_kernel_deliver_ghs_handles_framed al dst hs sk sw k))"
    by (auto simp: epa_kernel_deliver_ghs_handles_framed_def Let_def rg keeps_def split: res.split)
qed

lemma ghs_poke_wf:
  assumes "ghs_wf g" and "epa_ghs_get_ptr g h = Ok (Some p)" and "length bs \<le> length p"
  shows "ghs_wf (ghs_set (ghs_idx h) ((g_entries g ! ghs_idx h)\<lparr>ge_ptr := Some (mem_write p 0 bs)\<rparr>) g)"
proof (rule ghs_wf_update [OF assms(1)])
  have v: "epa_ghs_valid g h" "ge_ptr (g_entries g ! ghs_idx h) = Some p"
    using assms(2) by (auto simp: epa_ghs_get_ptr_def ghs_entry_op_valid split: if_splits)
  show i: "ghs_idx h < length (g_entries g)" using v(1) by (rule ghs_valid_idx)
  show "ghs_entry_wf ((g_entries g ! ghs_idx h)\<lparr>ge_ptr := Some (mem_write p 0 bs)\<rparr>)"
    using ghs_wf_entry [OF assms(1) i] v(2) length_mem_write [of 0 bs p] assms(3)
    by (simp add: ghs_entry_wf_def ge_in_use_def del: length_mem_write)
qed simp

lemma deliver_ingress_keeps:
  "alloc_ok al \<Longrightarrow> keeps (epa_kernel_deliver_ingress_msg al dst bytes tag len sk sw)"
proof (rule keepsI)
  fix C k assume al: "alloc_ok al" and k: "kernel_wf C k"
  note kg = kernel_wf_ghs [OF k]
  show "kernel_wf C (snd (epa_kernel_deliver_ingress_msg al dst bytes tag len sk sw k))"
  proof (cases "epa_ghs_alloc_tagged al (k_ghs k) EPA_GHS_T_BYTES 0 len tag")
    case (Ok a)
    obtain h g1 where a: "a = (h, g1)" by (cases a)
    have g1: "ghs_wf g1" using ghs_alloc_tagged_wf [OF kernel_wf_parts(2) [OF k] al] Ok a by blast
    note g1k = kg [OF g1] kg [OF ghs_free_wf [OF g1]]
    show ?thesis
    proof (cases "\<exists>p. epa_ghs_get_ptr g1 h = Ok (Some p) \<and> \<not> (length bytes < unat len \<or> length p < unat len)")
      case True
      then obtain p where p: "epa_ghs_get_ptr g1 h = Ok (Some p)" "unat len \<le> length bytes" "unat len \<le> length p" by auto
      let ?g2 = "ghs_set (ghs_idx h) ((g_entries g1 ! ghs_idx h)\<lparr>ge_ptr := Some (mem_write p 0 (take (unat len) bytes))\<rparr>) g1"
      have g2: "ghs_wf ?g2" using p by (intro ghs_poke_wf [OF g1 p(1)]) simp
      note g2k = kg [OF g2] kg [OF ghs_free_wf [OF g2]] kg [OF ghs_transfer_wf [OF g2]]
      with k Ok a p deliver_words_keeps [OF al] show ?thesis
        by (auto simp: epa_kernel_deliver_ingress_msg_def Let_def keeps_def split: res.split)
    qed (use g1k k Ok a in \<open>auto simp: epa_kernel_deliver_ingress_msg_def split: res.split option.split\<close>)
  qed (use k in \<open>simp_all add: epa_kernel_deliver_ingress_msg_def\<close>)
qed

lemma ingress_consume_wf: "kernel_wf C k \<Longrightarrow> kernel_wf C (ingress_consume i k)"
  by (auto simp: ingress_consume_def intro!: kernel_wf_queues intro: cq_pop_inv kernel_wf_parts split: option.split)

lemma drain_queue_wf: "alloc_ok al \<Longrightarrow> kernel_wf C k \<Longrightarrow> kernel_wf C (snd (drain_queue al i n k))"
proof (induction n arbitrary: k)
  case (Suc n)
  let ?q = "k_ingress k i" and ?m = "cq_slots (k_ingress k i) ! unat (cq_head (k_ingress k i))"
  obtain r1 k1 where d: "epa_kernel_deliver_ingress_msg al (of_nat i) (the (im_buf ?m)) (im_tag ?m) (im_len ?m)
        (im_src_kernel ?m) (im_src_worker ?m) k = (r1, k1)" by force
  have "kernel_wf C k1" using keepsD [OF deliver_ingress_keeps [OF Suc.prems(1)] Suc.prems(2) d] .
  with Suc.prems Suc.IH [OF Suc.prems(1)] ingress_consume_wf show ?case
    by (simp add: Let_def d split: res.split)
qed simp

lemma drain_workers_wf: "alloc_ok al \<Longrightarrow> kernel_wf C k \<Longrightarrow> kernel_wf C (snd (drain_workers al is k))"
proof (induction "is" arbitrary: k)
  case (Cons i "is")
  obtain r1 k1 where d: "drain_queue al i (unat (cq_count (k_ingress k i))) k = (r1, k1)" by force
  have "kernel_wf C k1" using drain_queue_wf [OF Cons.prems, of i] d by (metis snd_conv)
  with Cons.IH [OF Cons.prems(1)] show ?case by (simp add: d split: res.split)
qed simp

lemma drain_ingress_keeps: "alloc_ok al \<Longrightarrow> keeps (epa_kernel_drain_ingress al)"
  by (rule keepsI) (simp add: epa_kernel_drain_ingress_def drain_workers_wf)

section \<open>Hooks\<close>

definition platform_ok :: "platform \<Rightarrow> bool" where
  "platform_ok pf \<longleftrightarrow> alloc_ok (pf_al pf) \<and> (\<forall>n. keeps (pf_add_threads pf n))"

lemma flag_hooks_keep:
  "keeps (hook_entry_exec wid)" "keeps (hook_entry_halt wid)" "keeps (hook_entry_privilege wid c)"
  "keeps hook_privilege_lock" "keeps (hook_pid_self wid)" "keeps (hook_break wid c at)"
  "keeps (hook_trap wid c at)" "keeps (hook_except wid c at)"
  by (rule keepsI; simp add: hook_entry_exec_def hook_entry_halt_def hook_entry_privilege_def hook_privilege_lock_def
      hook_pid_self_def hook_break_def hook_trap_def hook_except_def Let_def kernel_wf_upd_w)+

lemma unlink_from_wf: "unlink_from wid prev cur k = Some k' \<Longrightarrow> kernel_wf C k \<longrightarrow> kernel_wf C k'"
proof (erule unlink_from.raw_induct [where P = "\<lambda>_ _ _ k k'. kernel_wf C k \<longrightarrow> kernel_wf C k'", rotated])
  fix f wid prev cur k k'
  assume "\<And>wid prev cur k k'. f wid prev cur k = Some k' \<Longrightarrow> kernel_wf C k \<longrightarrow> kernel_wf C k'"
    and "(if cur < 256 then
        (let nxt = k_next k (unat cur) in
         if cur = wid then
           (let k1 = (if prev \<ge> 256 then k\<lparr>k_head := nxt\<rparr>
                      else k\<lparr>k_next := (k_next k)(unat prev := nxt)\<rparr>);
                k2 = k1\<lparr>k_next := (k_next k1)(unat cur := 256)\<rparr>;
                k3 = (if k_n k2 > 0 then k2\<lparr>k_n := k_n k2 - 1\<rparr> else k2)
            in Some (if k_rr k3 = cur then k3\<lparr>k_rr := (if nxt < 256 then nxt else k_head k3)\<rparr> else k3))
         else f wid cur nxt k)
      else Some k) = Some k'"
  then show "kernel_wf C k \<longrightarrow> kernel_wf C k'" by (auto simp: Let_def split: if_splits)
qed

lemma retire_keeps: "keeps (hook_entry_retire wid)"
  by (rule keepsI) (auto simp: hook_entry_retire_def Let_def unlink_active_worker_def kernel_wf_upd_w
      split: option.split dest!: unlink_from_wf)

lemma sync_keeps: "keeps hook_sync"
proof (rule keepsI)
  fix C k assume k: "kernel_wf C k"
  show "kernel_wf C (snd (hook_sync k))"
  proof (cases "epa_ring_push (k_syncq k) (k_cur k) True")
    case (Inr q)
    then have "kernel_wf C (k\<lparr>k_syncq := q\<rparr>)"
      using ring_push_inv [OF kernel_wf_parts(1) [OF k]] k by (intro kernel_wf_syncq)
    then show ?thesis by (simp add: hook_sync_def Inr Let_def kernel_wf_upd_w)
  qed (simp add: hook_sync_def k)
qed

lemma wait_on_sync_keeps: "keeps hook_wait_on_sync"
proof (rule keepsI)
  fix C k assume k: "kernel_wf C k"
  show "kernel_wf C (snd (hook_wait_on_sync k))"
  proof (cases "epa_ring_pop (k_syncq k)")
    case (Some a)
    obtain wid q where a: "a = (wid, q)" by (cases a)
    have k1: "kernel_wf C (k\<lparr>k_syncq := q\<rparr>)"
      using ring_pop_inv [OF kernel_wf_parts(1) [OF k]] Some a k by (intro kernel_wf_syncq) auto
    have v: "vm_wf (w_vm (k_workers k 0))" "st_cap (vm_stack (w_vm (k_workers k 0))) = C (InSlot 0)"
      using worker_wf_parts [OF kernel_wf_worker [OF k]] by blast+
    have "kernel_wf C (k_upd_w 0 (\<lambda>w. w\<lparr>w_vm := (w_vm w)\<lparr>vm_stack := st\<rparr>\<rparr>) (k\<lparr>k_syncq := q\<rparr>))"
      if "epa_stack_push (vm_stack (w_vm (k_workers k 0))) wid = COk st" for st
      using push_wf [OF vm_wf_stackD [OF v(1)] that] push_frame [OF that] v(2)
      by (intro kernel_wf_upd_w [OF k1] worker_wf_fields(1) vm_wf_stack worker_wf_parts(1)) auto
    with k1 show ?thesis by (simp add: hook_wait_on_sync_def Some a Let_def split: cres.split)
  qed (simp add: hook_wait_on_sync_def k kernel_wf_upd_w)
qed

lemma signal_keeps: "keeps (hook_signal pf wid)"
  by (rule keepsI) (auto simp: hook_signal_def Let_def epa_kernel_request_interrupt_def
      intro!: kernel_wf_upd_w split: option.split)

lemma store_signal_keeps: "keeps (epa_kernel_store_last_host_signal pf wid bytes)"
  by (rule keepsI) (auto simp: epa_kernel_store_last_host_signal_def Let_def split: option.split)

lemma host_signal_keeps: "keeps (hook_host_signal pf wid)"
proof (rule keepsI)
  fix C k assume k: "kernel_wf C k"
  note st = keepsD [OF store_signal_keeps k]
  show "kernel_wf C (snd (hook_host_signal pf wid k))"
    using k signal_keeps [of pf wid] st
    by (auto simp: hook_host_signal_def Let_def keeps_def split: prod.split res.split)
qed

lemma threads_keeps: "platform_ok pf \<Longrightarrow> keeps (hook_request_threads pf wid n)"
  by (rule keepsI) (auto simp: hook_request_threads_def epa_kernel_add_threads_def platform_ok_def keeps_def Let_def)

lemma request_at_keeps:
  assumes "keeps dispatch"
  shows "keeps (hook_request_at pf dispatch wid ws)"
proof (rule keepsI)
  fix C k assume k: "kernel_wf C k"
  have q: "kernel_wf C (k\<lparr>k_atq := q\<rparr>)" if "cq_push x (k_atq k) = Some q" for x q
    using cq_push_inv [OF kernel_wf_parts(4) [OF k] that] k by (intro kernel_wf_queues)
  have d: "kernel_wf C k2" if "dispatch (kdbg_emit a b c d e (k\<lparr>k_atq := q, k_at_next := n\<rparr>)) = (r, k2)"
      "cq_push x (k_atq k) = Some q" for a b c d e q n r k2 x
    using keepsD [OF assms _ that(1)] q [OF that(2)] by simp
  show "kernel_wf C (snd (hook_request_at pf dispatch wid ws k))"
    using k unfolding hook_request_at_def Let_def
    by (auto split: option.split prod.split res.split intro: d)
qed

lemma k_pool_put_wf: "kernel_wf C k \<Longrightarrow> dyn_ok p \<Longrightarrow> kernel_wf C (k_pool_put i pid p k)"
proof -
  assume k: "kernel_wf C k" and p: "dyn_ok p"
  obtain w k1 where "w_pool_put pid p (k_workers k i, k) = (w, k1)" by force
  with w_pool_put_wf [OF k kernel_wf_worker [OF k] p this] show ?thesis
    by (simp add: k_pool_put_def kernel_wf_put_w)
qed

lemma memory_request_keeps: "alloc_ok al \<Longrightarrow> keeps (memory_request_one al req)"
  by (rule keepsI)
    (auto simp: memory_request_one_def split: cres.split option.split res.split
      intro!: k_pool_put_wf intro: dyn_ok_request worker_pool_ok kernel_wf_worker)

lemma memory_dispatch_wf: "alloc_ok al \<Longrightarrow> kernel_wf C k \<Longrightarrow> kernel_wf C (snd (memory_dispatch al n k))"
proof (induction n arbitrary: k)
  case (Suc n)
  show ?case
  proof (cases "cq_pop (\<lambda>r. r\<lparr>mr_id := 0\<rparr>) (k_memq k)")
    case (Some a)
    obtain req q where a: "a = (req, q)" by (cases a)
    have "kernel_wf C (k\<lparr>k_memq := q\<rparr>)"
      using cq_pop_inv [OF kernel_wf_parts(5) [OF Suc.prems(2)]] Some a Suc.prems(2) by (intro kernel_wf_queues) auto
    then have "kernel_wf C (snd (memory_request_one al req (k\<lparr>k_memq := q\<rparr>)))"
      using memory_request_keeps [OF Suc.prems(1)] by (simp add: keeps_def)
    with Some a Suc.IH [OF Suc.prems(1)] show ?thesis by (auto split: prod.split res.split)
  qed (simp add: Suc.prems)
qed simp

lemma memory_keeps: "alloc_ok al \<Longrightarrow> keeps (epa_kernel_dispatch_memory_requests_cpu al)"
  by (rule keepsI) (simp add: epa_kernel_dispatch_memory_requests_cpu_def memory_dispatch_wf)

lemma request_pool_keeps:
  assumes "alloc_ok (pf_al pf)"
  shows "keeps (hook_request_dynamic_pool_capacity pf wid pid n hard)"
proof (rule keepsI)
  fix C k assume k: "kernel_wf C k"
  have q: "kernel_wf C (k\<lparr>k_memq := q\<rparr>)" if "cq_push x (k_memq k) = Some q" for x q
    using cq_push_inv [OF kernel_wf_parts(5) [OF k] that] k by (intro kernel_wf_queues)
  have d: "kernel_wf C k2" if "epa_kernel_dispatch_memory_requests_cpu (pf_al pf)
        (kdbg_emit a b c d e (k\<lparr>k_memq := q, k_mem_next := u\<rparr>)) = (r, k2)"
      "cq_push x (k_memq k) = Some q" for a b c d e q u r k2 x
    using keepsD [OF memory_keeps [OF assms] _ that(1)] q [OF that(2)] by simp
  show "kernel_wf C (snd (hook_request_dynamic_pool_capacity pf wid pid n hard k))"
    using k unfolding hook_request_dynamic_pool_capacity_def Let_def
    by (auto split: cres.split option.split prod.split res.split intro: d)
qed

end
