(* ===== verification/FlowInv.thy ===== *)
theory FlowInv
  imports KernelInv
begin

text \<open>
  Every instruction keeps the invariant of the machine (\<open>KernelInv\<close>), whether it goes on
  or faults: one lemma per group of handlers, summed up over the dispatch table, and from there
  the step itself.
\<close>

section \<open>Stack capacities\<close>

text \<open>No instruction on the machine changes the capacity of its stack.\<close>

abbreviation scap :: "epa_vm \<Rightarrow> nat" where
  "scap v \<equiv> st_cap (vm_stack v)"

lemma vm_push_cap: "(\<And>v'. scap v' = c \<Longrightarrow> pred_hres (\<lambda>v. scap v = c) (k v')) \<Longrightarrow> scap v = c \<Longrightarrow>
    pred_hres (\<lambda>v. scap v = c) (vm_push msg x v k)"
  unfolding vm_push_def by (rule pred_chk) (auto dest: push_frame)

lemma vm_pop_cap: "(\<And>x v'. scap v' = c \<Longrightarrow> pred_hres (\<lambda>v. scap v = c) (k x v')) \<Longrightarrow> scap v = c \<Longrightarrow>
    pred_hres (\<lambda>v. scap v = c) (vm_pop msg v k)"
  by (cases "epa_stack_pop (vm_stack v)") (auto simp: vm_pop_def dest: pop_frame split: prod.split)

lemma vm_pop2_cap: "(\<And>x y v'. scap v' = c \<Longrightarrow> pred_hres (\<lambda>v. scap v = c) (k x y v')) \<Longrightarrow> scap v = c \<Longrightarrow>
    pred_hres (\<lambda>v. scap v = c) (vm_pop2 msg v k)"
  unfolding vm_pop2_def by (intro vm_pop_cap)

lemma scap_frame [simp]:
  "scap (vm_adv pc need v) = scap v" "scap (vm_set_regs a b c d v) = scap v"
  by (simp_all add: vm_adv_def vm_set_regs_def)

lemma lb_put_cap [simp]: "lb_put off x v = Some v' \<Longrightarrow> scap v' = scap v"
  by (auto simp: lb_put_def split: option.splits if_splits)

lemma array_put_cap [simp]:
  "csc_put i x v = Some v' \<Longrightarrow> scap v' = scap v" "local_put i x v = Some v' \<Longrightarrow> scap v' = scap v"
  "mark_put i x v = Some v' \<Longrightarrow> scap v' = scap v"
  by (auto simp: array_access_defs split: if_splits)

lemmas cap_intros = vm_push_cap vm_pop_cap vm_pop2_cap or_undef_pred pred_Yield pred_Fault pred_Undef pred_if

definition op_keeps_cap :: "vm_op \<Rightarrow> bool" where
  "op_keeps_cap h \<longleftrightarrow> (\<forall>code pc need v c. scap v = c \<longrightarrow> pred_hres (\<lambda>v. scap v = c) (h code pc need v))"

lemma op_keeps_capI: "(\<And>code pc need v c. scap v = c \<Longrightarrow> pred_hres (\<lambda>v. scap v = c) (h code pc need v)) \<Longrightarrow> op_keeps_cap h"
  by (simp add: op_keeps_cap_def)

lemma binop_keeps_cap: "op_keeps_cap (vm_binop name f)"
  by (rule op_keeps_capI; unfold vm_binop_def; intro cap_intros; simp)

lemma unop_keeps_cap: "op_keeps_cap (vm_unop name f)"
  by (rule op_keeps_capI; unfold vm_unop_def; intro cap_intros; simp)

lemma arith_ops_keep_cap:
  "op_keeps_cap (op_add_f32 nc)" "op_keeps_cap (op_sub_f32 nc)" "op_keeps_cap (op_mul_f32 nc)"
  "op_keeps_cap (op_div_f32 nc)" "op_keeps_cap op_neg_f32" "op_keeps_cap (op_sqrt_f32 nc)"
  "op_keeps_cap op_lt_f32" "op_keeps_cap op_le_f32" "op_keeps_cap op_gt_f32" "op_keeps_cap op_ge_f32"
  "op_keeps_cap op_eq_f32" "op_keeps_cap op_ne_f32" "op_keeps_cap op_i32_to_f32" "op_keeps_cap op_f32_to_i32"
  "op_keeps_cap op_u32_to_f32" "op_keeps_cap op_f32_to_u32"
  "op_keeps_cap op_add_i32" "op_keeps_cap op_sub_i32" "op_keeps_cap op_mul_i32" "op_keeps_cap op_lt_i32"
  "op_keeps_cap op_eq_i32" "op_keeps_cap op_ne_i32" "op_keeps_cap op_le_i32" "op_keeps_cap op_gt_i32"
  "op_keeps_cap op_ge_i32" "op_keeps_cap op_div_i32" "op_keeps_cap op_and_i32" "op_keeps_cap op_or_i32"
  "op_keeps_cap op_xor_i32" "op_keeps_cap op_not_i32" "op_keeps_cap op_rol_byte" "op_keeps_cap op_ror_byte"
  unfolding f32_op_defs i32_op_defs by (rule binop_keeps_cap unop_keeps_cap)+

lemma plain_ops_keep_cap:
  "op_keeps_cap op_noop" "op_keeps_cap op_yield" "op_keeps_cap op_jmp" "op_keeps_cap op_jz"
  "op_keeps_cap op_jnz" "op_keeps_cap op_jlz" "op_keeps_cap op_jgz" "op_keeps_cap op_cmp" "op_keeps_cap op_cmpz"
  "op_keeps_cap op_mv" "op_keeps_cap op_set_r" "op_keeps_cap op_inc" "op_keeps_cap op_dec"
  "op_keeps_cap op_rlb_mov1" "op_keeps_cap op_lbr_mov1" "op_keeps_cap op_rlb_mov4" "op_keeps_cap op_lbr_mov4"
  "op_keeps_cap op_push_i32" "op_keeps_cap op_push_r" "op_keeps_cap op_pop_r" "op_keeps_cap op_push_f32"
  "op_keeps_cap op_store_l" "op_keeps_cap op_load_l" "op_keeps_cap op_store_lw" "op_keeps_cap op_load_lw"
  by (rule op_keeps_capI, unfold plain_op_defs jump_checked_def Let_def,
      intro cap_intros; (simp | simp split: cres.split option.split)?)+

lemma arena_ops_keep_cap:
  "op_keeps_cap op_l_scope_enter" "op_keeps_cap op_l_scope_leave" "op_keeps_cap op_l_reset" "op_keeps_cap op_l_alloc"
  "op_keeps_cap op_l_scope_alloc" "op_keeps_cap (op_load_const prog)"
  by (rule op_keeps_capI; simp add: op_l_scope_enter_def op_l_scope_leave_def op_l_reset_def op_l_alloc_def
      op_l_scope_alloc_def op_load_const_def or_undef_def Let_def split: option.split)+

lemma stack_push_all_cap: "stack_push_all xs st = (st', r) \<Longrightarrow> st_cap st' = st_cap st"
  by (induction xs arbitrary: st) (auto split: cres.splits dest: push_frame)

lemma stack_pop_n_cap: "stack_pop_n n st = (st', r) \<Longrightarrow> st_cap st' = st_cap st"
  by (induction n arbitrary: st r) (auto split: cres.splits prod.splits dest: pop_frame)

lemma pop_ret_frame_cap: "epa_flow_pop_ret_frame st = (st', r) \<Longrightarrow> st_cap st' = st_cap st"
  by (auto simp: epa_flow_pop_ret_frame_def split: prod.splits cres.splits if_splits dest: stack_pop_n_cap)

lemma call_ops_keep_cap: "op_keeps_cap (op_call prog)" "op_keeps_cap op_ret"
proof (rule op_keeps_capI)
  fix code pc need v c assume "scap v = c"
  then show "pred_hres (\<lambda>v. scap v = c) (op_call prog code pc need v)"
    unfolding op_call_def epa_flow_push_ret_frame_def
    by (auto simp del: stack_push_all.simps split: option.split prod.split cres.split dest: stack_push_all_cap)
next
  show "op_keeps_cap op_ret"
  proof (rule op_keeps_capI)
    fix code pc need v c assume "scap v = c"
    then show "pred_hres (\<lambda>v. scap v = c) (op_ret code pc need v)"
      unfolding op_ret_def
      by (intro vm_pop_cap) (auto split: prod.split res.split intro!: vm_push_cap dest: pop_ret_frame_cap)
  qed
qed

lemma vm_table_keeps_cap: "list_all (\<lambda>(i, h). op_keeps_cap h) (vm_table nc prog)"
  by (simp add: vm_table_def arith_ops_keep_cap plain_ops_keep_cap arena_ops_keep_cap call_ops_keep_cap)

section \<open>The running worker\<close>

lemma mach_wf_get: "mach_wf C m \<Longrightarrow> worker_inv (C r) (get_w r m)"
  by (cases r) (simp_all add: get_w_def mach_wf_def kernel_wf_worker)

lemma mach_wf_vm: "mach_wf C m \<Longrightarrow> vm_wf (m_vm r m)"
  using worker_wf_parts(1) [OF mach_wf_get] by (simp add: m_vm_def)

lemma mach_wf_cap: "mach_wf C m \<Longrightarrow> scap (m_vm r m) = C r"
  using worker_wf_parts(5) [OF mach_wf_get] by (simp add: m_vm_def)

lemma mach_wf_stack: "mach_wf C m \<Longrightarrow> stack_wf (vm_stack (m_vm r m))"
  by (simp add: mach_wf_vm vm_wf_stackD)

lemma mach_wf_put: "mach_wf C m \<Longrightarrow> worker_inv (C r) w \<Longrightarrow> mach_wf C (put_w r w m)"
  by (cases r) (simp_all add: put_w_def mach_wf_def kernel_wf_put_w)

lemma mach_wf_upd_w: "mach_wf C m \<Longrightarrow> (\<And>w. worker_inv (C r) w \<Longrightarrow> worker_inv (C r) (f w)) \<Longrightarrow> mach_wf C (upd_w r f m)"
  by (simp add: upd_w_def mach_wf_put mach_wf_get)

lemma mach_wf_put_vm: "mach_wf C m \<Longrightarrow> vm_wf v \<Longrightarrow> scap v = C r \<Longrightarrow> mach_wf C (m_put_vm r v m)"
  unfolding m_put_vm_def w_put_vm_def by (intro mach_wf_put worker_wf_fields(1) mach_wf_get)

lemma mach_wf_upd_vm_at: "mach_wf C m \<Longrightarrow> vm_wf (f (m_vm r m)) \<Longrightarrow> scap (f (m_vm r m)) = scap (m_vm r m) \<Longrightarrow>
    mach_wf C (upd_vm r f m)"
  by (simp add: upd_vm_def mach_wf_put_vm mach_wf_cap)

lemma mach_wf_upd_vm: "mach_wf C m \<Longrightarrow> (\<And>v. vm_wf v \<Longrightarrow> vm_wf (f v)) \<Longrightarrow> (\<And>v. scap (f v) = scap v) \<Longrightarrow>
    mach_wf C (upd_vm r f m)"
  by (simp add: mach_wf_upd_vm_at mach_wf_vm)

lemma mach_wf_set_r: "mach_wf C m \<Longrightarrow> mach_wf C (m_set_r r i x m)"
  by (simp add: m_set_r_def mach_wf_upd_vm vm_set_r_wf)

lemma mach_wf_adv: "mach_wf C m \<Longrightarrow> mach_wf C (m_adv r pc need m)"
  by (simp add: m_adv_def mach_wf_upd_vm vm_adv_wf)

lemma mach_wf_regs: "mach_wf C m \<Longrightarrow> mach_wf C (upd_vm r (vm_set_regs a b c d) m)"
  by (simp add: mach_wf_upd_vm vm_set_regs_wf)

lemma mach_wf_pc: "mach_wf C m \<Longrightarrow> mach_wf C (upd_vm r (vm_set_pc p) m)"
  by (simp add: mach_wf_upd_vm vm_set_pc_wf)

lemma mach_wf_k: "mach_wf C m \<Longrightarrow> kernel_wf C k \<Longrightarrow> mach_wf C (m\<lparr>m_k := k\<rparr>)"
  by (simp add: mach_wf_def)

lemma mach_wf_ghs: "mach_wf C m \<Longrightarrow> ghs_wf g \<Longrightarrow> mach_wf C (mach_put_ghs g m)"
  by (simp add: mach_put_ghs_def mach_wf_def kernel_wf_ghs)

lemma mach_wf_get_ghs: "mach_wf C m \<Longrightarrow> ghs_wf (mach_get_ghs m)"
  by (auto simp: mach_get_ghs_def mach_wf_def intro: kernel_wf_parts)

lemma mach_wf_kernel: "mach_wf C m \<Longrightarrow> kernel_wf C (m_k m)"
  by (simp add: mach_wf_def)

lemmas mach_intros = mach_wf_adv mach_wf_set_r mach_wf_regs mach_wf_pc mach_wf_k

section \<open>The calling patterns\<close>

lemma m_pop_wf:
  assumes "mach_wf C m" and "\<And>x m'. mach_wf C m' \<Longrightarrow> pred_hres (mach_wf C) (c x m')"
  shows "pred_hres (mach_wf C) (m_pop r msg m c)"
  unfolding m_pop_def
proof (rule pred_chk)
  fix a assume a: "epa_stack_pop (vm_stack (m_vm r m)) = COk a"
  obtain x st where x: "a = (x, st)" by (cases a)
  have "stack_wf st" "st_cap st = scap (m_vm r m)"
    using pop_wf [OF mach_wf_stack [OF assms(1)]] pop_frame [of "vm_stack (m_vm r m)"] a x by blast+
  then show "pred_hres (mach_wf C) (case a of (x, st) \<Rightarrow> c x (upd_vm r (vm_stack_update (\<lambda>_. st)) m))"
    using assms by (simp add: x mach_wf_upd_vm_at vm_wf_stack mach_wf_vm)
qed (rule assms(1))

lemma m_push_wf:
  assumes "mach_wf C m" and "\<And>m'. mach_wf C m' \<Longrightarrow> pred_hres (mach_wf C) (c m')"
  shows "pred_hres (mach_wf C) (m_push r msg x m c)"
  unfolding m_push_def
proof (rule pred_chk)
  fix st assume st: "epa_stack_push (vm_stack (m_vm r m)) x = COk st"
  have "stack_wf st" "st_cap st = scap (m_vm r m)" using push_wf [OF mach_wf_stack [OF assms(1)] st] push_frame [OF st] by auto
  then show "pred_hres (mach_wf C) (c (upd_vm r (vm_stack_update (\<lambda>_. st)) m))"
    using assms by (simp add: mach_wf_upd_vm_at vm_wf_stack mach_wf_vm)
qed (rule assms(1))

lemma call_k_wf:
  assumes "keeps f" and "mach_wf C m" and "\<And>a m'. mach_wf C m' \<Longrightarrow> pred_hres (mach_wf C) (c a m')"
  shows "pred_hres (mach_wf C) (call_k f m c)"
proof -
  obtain r k where rk: "f (m_k m) = (r, k)" by force
  have "kernel_wf C k" using keepsD [OF assms(1) mach_wf_kernel [OF assms(2)] rk] .
  with assms(2) have "mach_wf C (m\<lparr>m_k := k\<rparr>)" by (rule mach_wf_k)
  with assms(3) rk show ?thesis by (simp add: call_k_def Let_def split: res.split)
qed

lemma opt_hook_wf:
  assumes "\<And>f. h = Some f \<Longrightarrow> keeps f" and "mach_wf C m" and "\<And>m'. mach_wf C m' \<Longrightarrow> pred_hres (mach_wf C) (c m')"
  shows "pred_hres (mach_wf C) (opt_hook h m c)"
  using assms by (auto simp: opt_hook_def split: option.split intro!: call_k_wf)

lemma ghs_call_wf:
  "mach_wf C m \<Longrightarrow> (\<And>a. x = Ok a \<Longrightarrow> pred_hres (mach_wf C) (c a)) \<Longrightarrow> pred_hres (mach_wf C) (ghs_call x msg m c)"
  by (simp add: ghs_call_def split: res.split)

lemma dyn_call_wf:
  "mach_wf C m \<Longrightarrow> (\<And>a. x = Ok a \<Longrightarrow> pred_hres (mach_wf C) (c a)) \<Longrightarrow> pred_hres (mach_wf C) (dyn_call x m c)"
  by (simp add: dyn_call_def split: res.split)

lemma then_h_wf:
  "pred_hres P x \<Longrightarrow> (\<And>s. P s \<Longrightarrow> pred_hres P (c s)) \<Longrightarrow> pred_hres P (then_h x c)"
  by (cases x) (simp_all add: then_h_def)

lemma round_enter_wf:
  assumes "alloc_ok (fe_al fe)" and "mach_wf C m" and "\<And>m'. mach_wf C m' \<Longrightarrow> pred_hres (mach_wf C) (c m')"
  shows "pred_hres (mach_wf C) (m_round_enter fe r m c)"
proof (cases "epa_worker_round_enter (fe_al fe) (get_w r m) (case k_pools (m_k m) of None \<Rightarrow> [] | Some ps \<Rightarrow> ps)")
  case (Some a)
  obtain res w sh where a: "a = (res, w, sh)" by (cases a)
  let ?m1 = "put_w r w m"
  let ?m2 = "?m1\<lparr>m_k := (m_k ?m1)\<lparr>k_pools := map_option (\<lambda>_. sh) (k_pools (m_k ?m1))\<rparr>\<rparr>"
  from worker_round_enter_wf [OF assms(1) mach_wf_get [OF assms(2)] k_pools_list_ok [OF mach_wf_kernel [OF assms(2)]]]
  have w: "worker_inv (C r) w" "list_all dyn_ok sh" using Some a by auto
  then have m1: "mach_wf C ?m1" using assms(2) by (intro mach_wf_put)
  then have "mach_wf C ?m2" using w(2) by (intro mach_wf_k kernel_wf_pools pools_same mach_wf_kernel)
  with assms(3) show ?thesis by (simp add: m_round_enter_def Some a Let_def split: res.split)
qed (simp add: m_round_enter_def)

section \<open>Contexts\<close>

definition hooks_ok :: "flow_hooks \<Rightarrow> bool" where
  "hooks_ok h \<longleftrightarrow>
     pred_option (\<lambda>f. \<forall>a. keeps (f a)) (on_entry_exec h) \<and> pred_option (\<lambda>f. \<forall>a. keeps (f a)) (on_entry_halt h)
   \<and> pred_option (\<lambda>f. \<forall>a. keeps (f a)) (on_entry_retire h) \<and> pred_option (\<lambda>f. \<forall>a. keeps (f a)) (on_kernel_retire h)
   \<and> pred_option (\<lambda>f. \<forall>a b. keeps (f a b)) (on_entry_privilege h) \<and> pred_option keeps (on_privilege_lock h)
   \<and> pred_option (\<lambda>f. \<forall>a b c d. keeps (f a b c d)) (on_acl_grant h)
   \<and> pred_option (\<lambda>f. \<forall>a b c d. keeps (f a b c d)) (on_acl_revoke h)
   \<and> pred_option (\<lambda>f. \<forall>a b c. keeps (f a b c)) (on_acl_revoke_all h)
   \<and> pred_option (\<lambda>f. \<forall>a. keeps (f a)) (on_pid_self h) \<and> pred_option (\<lambda>f. \<forall>a b. keeps (f a b)) (on_pid_retire h)
   \<and> pred_option keeps (on_sync h) \<and> pred_option keeps (on_wait_on_sync h)
   \<and> pred_option (\<lambda>f. \<forall>a. keeps (f a)) (on_data_ready h)
   \<and> pred_option (\<lambda>f. \<forall>a b c. keeps (f a b c)) (on_break h) \<and> pred_option (\<lambda>f. \<forall>a b c. keeps (f a b c)) (on_trap h)
   \<and> pred_option (\<lambda>f. \<forall>a b c. keeps (f a b c)) (on_except h)
   \<and> pred_option (\<lambda>f. \<forall>a. keeps (f a)) (on_signal h) \<and> pred_option (\<lambda>f. \<forall>a. keeps (f a)) (on_far_signal h)
   \<and> pred_option (\<lambda>f. \<forall>a. keeps (f a)) (on_host_signal h)
   \<and> pred_option (\<lambda>f. \<forall>a b. keeps (f a b)) (on_request_threads h)
   \<and> pred_option (\<lambda>f. \<forall>a b. keeps (f a b)) (on_request_at h)
   \<and> pred_option (\<lambda>f. \<forall>a b c d. keeps (f a b c d)) (on_request_pool h)
   \<and> pred_option (\<lambda>f. \<forall>a b c d. keeps (f a b c d)) (on_dynlib_import h)
   \<and> pred_option (\<lambda>f. \<forall>a b c d. keeps (f a b c d)) (on_process_spawn h)"

definition env_ok :: "flow_env \<Rightarrow> bool" where
  "env_ok fe \<longleftrightarrow> alloc_ok (fe_al fe) \<and> hooks_ok (fe_hooks fe)"

lemma env_hooks:
  assumes "env_ok fe"
  shows "on_entry_exec (fe_hooks fe) = Some f1 \<Longrightarrow> keeps (f1 a)"
    "on_entry_halt (fe_hooks fe) = Some f2 \<Longrightarrow> keeps (f2 a)"
    "on_entry_retire (fe_hooks fe) = Some f3 \<Longrightarrow> keeps (f3 a)"
    "on_kernel_retire (fe_hooks fe) = Some f4 \<Longrightarrow> keeps (f4 u)"
    "on_entry_privilege (fe_hooks fe) = Some f5 \<Longrightarrow> keeps (f5 a b)"
    "on_privilege_lock (fe_hooks fe) = Some f6 \<Longrightarrow> keeps f6"
    "on_acl_grant (fe_hooks fe) = Some f7 \<Longrightarrow> keeps (f7 a u u' a')"
    "on_acl_revoke (fe_hooks fe) = Some f7 \<Longrightarrow> keeps (f7 a u u' a')"
    "on_acl_revoke_all (fe_hooks fe) = Some f8 \<Longrightarrow> keeps (f8 a u u')"
    "on_pid_self (fe_hooks fe) = Some f9 \<Longrightarrow> keeps (f9 a)"
    "on_pid_retire (fe_hooks fe) = Some f5 \<Longrightarrow> keeps (f5 a b)"
    "on_sync (fe_hooks fe) = Some f6 \<Longrightarrow> keeps f6"
    "on_wait_on_sync (fe_hooks fe) = Some f6 \<Longrightarrow> keeps f6"
    "on_data_ready (fe_hooks fe) = Some f9 \<Longrightarrow> keeps (f9 a)"
    "on_break (fe_hooks fe) = Some f10 \<Longrightarrow> keeps (f10 a b e)"
    "on_trap (fe_hooks fe) = Some f10 \<Longrightarrow> keeps (f10 a b e)"
    "on_except (fe_hooks fe) = Some f10 \<Longrightarrow> keeps (f10 a b e)"
    "on_signal (fe_hooks fe) = Some f1 \<Longrightarrow> keeps (f1 a)"
    "on_far_signal (fe_hooks fe) = Some f1 \<Longrightarrow> keeps (f1 a)"
    "on_host_signal (fe_hooks fe) = Some f1 \<Longrightarrow> keeps (f1 a)"
    "on_request_threads (fe_hooks fe) = Some f5 \<Longrightarrow> keeps (f5 a b)"
    "on_request_at (fe_hooks fe) = Some f11 \<Longrightarrow> keeps (f11 a ws)"
    "on_request_pool (fe_hooks fe) = Some f12 \<Longrightarrow> keeps (f12 a b c t)"
    "on_dynlib_import (fe_hooks fe) = Some f13 \<Longrightarrow> keeps (f13 a u b u')"
    "on_process_spawn (fe_hooks fe) = Some f14 \<Longrightarrow> keeps (f14 a u b c)"
  using assms by (simp_all add: env_ok_def hooks_ok_def)

lemma env_alloc: "env_ok fe \<Longrightarrow> alloc_ok (fe_al fe)"
  by (simp add: env_ok_def)

definition kop_ok :: "k_op \<Rightarrow> bool" where
  "kop_ok h \<longleftrightarrow> (\<forall>C fe r code pc need m. env_ok fe \<longrightarrow> mach_wf C m \<longrightarrow> pred_hres (mach_wf C) (h fe r code pc need m))"

lemma kop_okI:
  "(\<And>C fe r code pc need m. env_ok fe \<Longrightarrow> mach_wf C m \<Longrightarrow> pred_hres (mach_wf C) (h fe r code pc need m)) \<Longrightarrow> kop_ok h"
  by (simp add: kop_ok_def)

lemmas kop_rules = mach_intros mach_wf_upd_vm mach_wf_upd_w opt_hook_wf call_k_wf m_pop_wf m_push_wf
  pred_Yield pred_Fault pred_Undef

lemma pred_opt:
  "(x = None \<Longrightarrow> pred_hres P a) \<Longrightarrow> (\<And>y. x = Some y \<Longrightarrow> pred_hres P (b y)) \<Longrightarrow>
    pred_hres P (case x of None \<Rightarrow> a | Some y \<Rightarrow> b y)"
  by (cases x) simp_all

lemma map_hook_wf:
  assumes "\<And>f. h = Some f \<Longrightarrow> keeps (g f)" and "mach_wf C m" and "\<And>m'. mach_wf C m' \<Longrightarrow> pred_hres (mach_wf C) (c m')"
  shows "pred_hres (mach_wf C) (opt_hook (map_option g h) m c)"
  using assms by (intro opt_hook_wf) auto

section \<open>System instructions\<close>

lemma hook_ops_ok:
  "kop_ok op_sync" "kop_ok op_entry_exec" "kop_ok op_entry_halt" "kop_ok op_entry_retire" "kop_ok op_kernel_retire"
  "kop_ok op_break" "kop_ok op_signal" "kop_ok op_far_signal" "kop_ok op_host_signal"
  by (rule kop_okI; simp only: op_sync_def op_entry_exec_def op_entry_halt_def op_entry_retire_def op_kernel_retire_def
      op_break_def op_signal_def op_far_signal_def op_host_signal_def Let_def;
      intro map_hook_wf opt_hook_wf mach_intros pred_Yield; (erule (1) env_hooks | assumption)?)+


lemma flag_r3_wf: "keeps f \<Longrightarrow> mach_wf C m \<Longrightarrow> pred_hres (mach_wf C) (flag_r3 r f m)"
proof -
  assume f: "keeps f" and m: "mach_wf C m"
  obtain x k where rk: "f (m_k m) = (x, k)" by force
  have "mach_wf C (m\<lparr>m_k := k\<rparr>)" using m keepsD [OF f mach_wf_kernel [OF m] rk] by (rule mach_wf_k)
  then show ?thesis by (simp add: flag_r3_def rk Let_def mach_wf_set_r split: res.split)
qed

lemma stage_keeps: "keeps (epa_kernel_stage_boot_image_from_ghs parse al wid h n flags)"
  by (rule keepsI) (auto simp: epa_kernel_stage_boot_image_from_ghs_def split: res.split)

lemma reset_keeps: "keeps (epa_kernel_request_boot_reset_to_staged wid flags)"
  by (rule keepsI) (auto simp: epa_kernel_request_boot_reset_to_staged_def split: res.split)

lemma boot_ops_ok: "kop_ok op_boot_stage_image" "kop_ok op_boot_reset_to_staged"
  by (rule kop_okI; simp add: op_boot_stage_image_def op_boot_reset_to_staged_def flag_r3_wf stage_keeps reset_keeps
      mach_wf_adv)+

lemma hook_result_wf: "keeps f \<Longrightarrow> mach_wf C m \<Longrightarrow> f (m_k m) = (x, k) \<Longrightarrow> mach_wf C (m\<lparr>m_k := k\<rparr>)"
  using mach_wf_k [of C m k] keepsD [of f C "m_k m" x k] mach_wf_kernel [of C m] by simp

lemma op_dynlib_import_ok: "kop_ok op_dynlib_import"
proof (rule kop_okI)
  fix C fe r code pc need m assume e: "env_ok fe" and m: "mach_wf C m"
  show "pred_hres (mach_wf C) (op_dynlib_import fe r code pc need m)"
    unfolding op_dynlib_import_def Let_def
  proof (intro m_pop_wf m)
    fix hi m1 lo m2 assume m2: "mach_wf C m2"
    let ?m3 = "m_adv r pc need m2"
    have k: "mach_wf C (?m3\<lparr>m_k := k\<rparr>)" if "on_dynlib_import (fe_hooks fe) = Some f" "f a u b u' (m_k ?m3) = (x, k)" for f a u b u' x k
      by (rule hook_result_wf [OF env_hooks(24) [OF e that(1)] mach_wf_adv [OF m2] that(2)])
    show "pred_hres (mach_wf C) (case on_dynlib_import (fe_hooks fe) of
             None \<Rightarrow> Yield (m_set_r r 3 0 (m_set_r r 2 0 ?m3))
           | Some f \<Rightarrow> (case f (m_id8 r m) (m_regs64 r m 0 1) (m_r r m 2) (regs64 lo hi) (m_k ?m3) of
               (res, k) \<Rightarrow> case res of
                 Ok n \<Rightarrow> Yield (upd_vm r (vm_set_regs lo hi n 1) (?m3\<lparr>m_k := k\<rparr>))
               | Err _ \<Rightarrow> Yield (m_set_r r 3 0 (m_set_r r 2 0 (?m3\<lparr>m_k := k\<rparr>)))
               | Ub \<Rightarrow> Undef))"
      using m2 k by (auto split: option.split prod.split res.split intro!: mach_wf_set_r mach_wf_adv mach_wf_regs)
  qed
qed

lemma op_process_spawn_ok: "kop_ok op_process_spawn"
proof (rule kop_okI)
  fix C fe r code pc need m assume e: "env_ok fe" and m: "mach_wf C m"
  show "pred_hres (mach_wf C) (op_process_spawn fe r code pc need m)"
    unfolding op_process_spawn_def Let_def
  proof (intro m_pop_wf m)
    fix q m1 assume m1: "mach_wf C m1"
    let ?m2 = "m_adv r pc need m1"
    have k: "mach_wf C (?m2\<lparr>m_k := k\<rparr>)" if "on_process_spawn (fe_hooks fe) = Some f" "f a u b c (m_k ?m2) = (x, k)" for f a u b c x k
      by (rule hook_result_wf [OF env_hooks(25) [OF e that(1)] mach_wf_adv [OF m1] that(2)])
    show "pred_hres (mach_wf C) (case on_process_spawn (fe_hooks fe) of
             None \<Rightarrow> Yield (m_set_r r 3 0 (m_set_r r 0 0 ?m2))
           | Some f \<Rightarrow> (case f (m_id8 r m) (m_regs64 r m 0 1) (m_r r m 2) q (m_k ?m2) of
               (res, k) \<Rightarrow> case res of
                 Ok pid \<Rightarrow> Yield (m_set_r r 3 1 (m_set_r r 0 pid (?m2\<lparr>m_k := k\<rparr>)))
               | Err _ \<Rightarrow> Yield (m_set_r r 3 0 (m_set_r r 0 0 (?m2\<lparr>m_k := k\<rparr>)))
               | Ub \<Rightarrow> Undef))"
      using m1 k by (auto split: option.split prod.split res.split intro!: mach_wf_set_r mach_wf_adv)
  qed
qed

lemma op_wait_on_sync_ok: "kop_ok op_wait_on_sync"
  by (rule kop_okI) (auto simp: op_wait_on_sync_def intro!: opt_hook_wf mach_intros intro: env_hooks)

lemma privilege_ops_ok: "kop_ok op_entry_privilege" "kop_ok op_privilege_lock"
  by (rule kop_okI; auto simp: op_entry_privilege_def op_privilege_lock_def intro!: opt_hook_wf map_hook_wf mach_intros
      intro: env_hooks)+

lemma op_acl_ok: "kop_ok op_acl"
  by (rule kop_okI) (auto simp: op_acl_def Let_def intro!: map_hook_wf mach_intros intro: env_hooks)

lemma op_pid_ok: "kop_ok op_pid"
  by (rule kop_okI)
    (auto simp: op_pid_def Let_def intro!: map_hook_wf call_k_wf mach_intros intro: env_hooks split: option.split)

lemma op_vm_state_ok: "kop_ok op_vm_state"
  by (rule kop_okI) (simp add: op_vm_state_def Let_def mach_intros split: prod.split)

lemma trap_ops_ok: "kop_ok op_trap" "kop_ok op_except"
proof (rule kop_okI)
  fix C fe r code pc need m assume e: "env_ok fe" and m: "mach_wf C m"
  show "pred_hres (mach_wf C) (op_trap fe r code pc need m)"
    using m hook_result_wf [OF env_hooks(16) [OF e] m]
    by (auto simp: op_trap_def Let_def mach_wf_adv split: option.split prod.split)
next
  show "kop_ok op_except"
  proof (rule kop_okI)
    fix C fe r code pc need m assume e: "env_ok fe" and m: "mach_wf C m"
    show "pred_hres (mach_wf C) (op_except fe r code pc need m)"
      using m hook_result_wf [OF env_hooks(17) [OF e] m]
      by (auto simp: op_except_def Let_def split: option.split prod.split res.split intro!: mach_wf_adv)
  qed
qed

lemma op_request_ok: "kop_ok op_request"
proof (rule kop_okI)
  fix C fe r code pc need m assume e: "env_ok fe" and m: "mach_wf C m"
  have sp: "mach_wf C (upd_vm r (\<lambda>v. v\<lparr>vm_stack := (vm_stack v)\<lparr>st_sp := st_sp (vm_stack (m_vm r m)) - 1 - n\<rparr>\<rparr>) m1)"
    if m1: "mach_wf C m1" for n m1
  proof (rule mach_wf_upd_vm_at [OF m1])
    have "st_sp (vm_stack (m_vm r m)) \<le> scap (m_vm r m1)"
      using mach_wf_stack [OF m, of r] mach_wf_cap [OF m, of r] mach_wf_cap [OF m1, of r] by (simp add: stack_wf_def)
    then show "vm_wf ((m_vm r m1)\<lparr>vm_stack := (vm_stack (m_vm r m1))\<lparr>st_sp := st_sp (vm_stack (m_vm r m)) - 1 - n\<rparr>\<rparr>)"
      using mach_wf_stack [OF m1, of r] by (intro vm_wf_stack mach_wf_vm [OF m1]) (simp add: stack_wf_def)
  qed simp
  show "pred_hres (mach_wf C) (op_request fe r code pc need m)"
    unfolding op_request_def Let_def
    by (intro pred_if pred_opt map_hook_wf call_k_wf pred_Yield pred_Fault pred_Undef mach_wf_adv mach_wf_set_r sp m)
      (erule env_hooks(21) [OF e] env_hooks(22) [OF e] | assumption)+
qed


section \<open>Waiting, rings\<close>

lemma release_current_wf:
  assumes "mach_wf C m" and "\<And>m'. mach_wf C m' \<Longrightarrow> pred_hres (mach_wf C) (c m')"
  shows "pred_hres (mach_wf C) (worker_release_current_ghs_if_owned r m c)"
proof -
  have cl: "mach_wf C (upd_w r (\<lambda>w. w\<lparr>w_has_ghs := False, w_ghs := 0\<rparr>) m')" if "mach_wf C m'" for m'
    by (rule mach_wf_upd_w [OF that]) simp
  show ?thesis
    using assms cl mach_wf_ghs [OF assms(1) ghs_free_wf [OF mach_wf_get_ghs [OF assms(1)]]]
    by (auto simp: worker_release_current_ghs_if_owned_def Let_def split: res.split)
qed

lemma flags_wf: "mach_wf C m \<Longrightarrow> mach_wf C (upd_w r (\<lambda>w. w\<lparr>w_waiting := a, w_blocked := b\<rparr>) m)"
  by (rule mach_wf_upd_w) simp_all

lemma op_wait_for_data_ok: "kop_ok op_wait_for_data"
  unfolding op_wait_for_data_def Let_def
  by (rule kop_okI, intro pred_if round_enter_wf release_current_wf flags_wf pred_Yield pred_Fault mach_wf_adv)
    (assumption | erule env_alloc)+

lemma op_data_ready_ok: "kop_ok op_data_ready"
proof (rule kop_okI)
  fix C fe r code pc need m assume e: "env_ok fe" and m: "mach_wf C m"
  show "pred_hres (mach_wf C) (op_data_ready fe r code pc need m)"
    unfolding op_data_ready_def
    by (intro pred_if pred_opt call_k_wf m_push_wf pred_Yield pred_Fault mach_wf_adv m)
      (erule env_hooks(14) [OF e] | assumption)+
qed

lemma mach_wf_ring: "mach_wf C m \<Longrightarrow> ring_inv (m_ring r s m)"
  using worker_wf_parts(2,3) [OF mach_wf_get [of C m r]] by (cases s) (simp_all add: m_ring_def w_ring_def)

lemma mach_wf_put_ring: "mach_wf C m \<Longrightarrow> ring_inv q \<Longrightarrow> mach_wf C (m_put_ring r s q m)"
  unfolding m_put_ring_def
  by (erule mach_wf_upd_w) (cases s; simp add: w_put_ring_def worker_wf_fields)

lemma mach_wf_pop_ring: "mach_wf C m \<Longrightarrow> epa_ring_pop (m_ring r s m) = Some (x, q) \<Longrightarrow> mach_wf C (m_put_ring r s q m)"
  by (rule mach_wf_put_ring) (auto intro: ring_pop_inv mach_wf_ring)

lemma mach_wf_push_ring: "mach_wf C m \<Longrightarrow> epa_ring_push (m_ring r s m) x soft = Inr q \<Longrightarrow> mach_wf C (m_put_ring r s q m)"
  by (rule mach_wf_put_ring) (auto intro: ring_push_inv mach_wf_ring)

lemma mach_wf_set_local: "mach_wf C m \<Longrightarrow> mach_wf C (m_set_local r i x m)"
  by (simp add: m_set_local_def mach_wf_upd_vm vm_wf_local)

lemma ring_to_locals_wf: "mach_wf C m \<Longrightarrow> pred_hres (mach_wf C) (ring_to_locals msg r src s a n m)"
  by (induction n arbitrary: a m)
    (auto split: option.split intro: mach_wf_pop_ring mach_wf_set_local)

lemma locals_to_ring_wf: "mach_wf C m \<Longrightarrow> pred_hres (mach_wf C) (locals_to_ring r dst s a n m)"
  by (induction n arbitrary: a m) (auto split: sum.split intro: mach_wf_push_ring)

lemma ring_to_ring_wf: "mach_wf C m \<Longrightarrow> pred_hres (mach_wf C) (ring_to_ring msg src dst n m)"
  by (induction n arbitrary: m)
    (auto split: option.split sum.split simp: Let_def intro: mach_wf_pop_ring mach_wf_push_ring)

lemmas trx_rules = then_h_wf ring_to_locals_wf locals_to_ring_wf ring_to_ring_wf pred_if pred_opt pred_Yield pred_Fault
  pred_Undef mach_wf_adv mach_wf_regs

lemma trx_ops_ok:
  "kop_ok op_kernel_trx_in_l" "kop_ok op_kernel_trx_out_l" "kop_ok op_kernel_ghs_in_r"
  "kop_ok op_worker_trx_in_l" "kop_ok op_worker_trx_out_l"
  unfolding op_kernel_trx_in_l_def op_kernel_trx_out_l_def op_kernel_ghs_in_r_def
    op_worker_trx_in_l_def op_worker_trx_out_l_def Let_def
  by (rule kop_okI, intro trx_rules; assumption)+

lemma op_worker_trx_ok: "kop_ok op_worker_trx"
  unfolding op_worker_trx_def Let_def
  by (rule kop_okI) (auto split: option.split intro!: then_h_wf ring_to_ring_wf mach_wf_adv)

lemma op_worker_trx_in_r_ok: "kop_ok op_worker_trx_in_r"
proof (rule kop_okI)
  fix C fe r code pc need m assume m: "mach_wf C m"
  have g: "mach_wf C (upd_w r (\<lambda>w. w\<lparr>w_ghs := epa_ghs_make_handle (vm_r (w_vm w) 0) (vm_r (w_vm w) 1), w_has_ghs := True\<rparr>) m')"
    if "mach_wf C m'" for m' by (rule mach_wf_upd_w [OF that]) simp
  show "pred_hres (mach_wf C) (op_worker_trx_in_r fe r code pc need m)"
    using m g by (auto simp: op_worker_trx_in_r_def Let_def split: option.split
        intro!: mach_wf_adv mach_wf_set_r mach_wf_pop_ring)
qed

lemma op_worker_trx_out_r_ok: "kop_ok op_worker_trx_out_r"
  by (rule kop_okI) (auto simp: op_worker_trx_out_r_def split: sum.split intro!: mach_wf_adv mach_wf_push_ring)

lemma op_sm_put_ok: "kop_ok op_sm_put"
proof (rule kop_okI)
  fix C fe r code pc need m assume m: "mach_wf C m"
  have b: "mach_wf C (upd_w r (\<lambda>w. w\<lparr>w_mailbox := b\<rparr>) m)" for b by (rule mach_wf_upd_w [OF m]) simp
  show "pred_hres (mach_wf C) (op_sm_put fe r code pc need m)"
    using m b by (auto simp: op_sm_put_def Let_def split: option.split intro!: mach_wf_adv mach_wf_set_r)
qed


section \<open>The heap and published memory\<close>

lemma require_owner_valid: "epa_ghs_require_owner g h c \<Longrightarrow> epa_ghs_valid g h"
  by (auto simp: epa_ghs_require_owner_def epa_ghs_get_meta_def ghs_entry_op_valid split: res.splits if_splits)

lemma mach_ghs_steps:
  "mach_wf C m \<Longrightarrow> epa_ghs_free (mach_get_ghs m) h = Ok g \<Longrightarrow> mach_wf C (mach_put_ghs g m)"
  "mach_wf C m \<Longrightarrow> epa_ghs_transfer (mach_get_ghs m) h own = Ok g \<Longrightarrow> mach_wf C (mach_put_ghs g m)"
  "mach_wf C m \<Longrightarrow> epa_ghs_write_bytes (mach_get_ghs m) h off bs = Ok g \<Longrightarrow> mach_wf C (mach_put_ghs g m)"
  "env_ok fe \<Longrightarrow> mach_wf C m \<Longrightarrow> epa_ghs_resize (fe_al fe) (mach_get_ghs m) h n = Ok g \<Longrightarrow> mach_wf C (mach_put_ghs g m)"
  by (auto intro: mach_wf_ghs ghs_free_wf [OF mach_wf_get_ghs] ghs_transfer_wf [OF mach_wf_get_ghs]
      ghs_write_wf [OF mach_wf_get_ghs] ghs_resize_wf [OF mach_wf_get_ghs env_alloc])

lemma op_g_alloc_ok: "kop_ok op_g_alloc"
proof (rule kop_okI)
  fix C fe r code pc need m assume e: "env_ok fe" and m: "mach_wf C m"
  have g: "mach_wf C (mach_put_ghs g m)" if "epa_ghs_alloc (fe_al fe) (mach_get_ghs m) t w n = Ok (h, g)" for t w n h g
    using ghs_alloc_wf [OF mach_wf_get_ghs [OF m] env_alloc [OF e] that] by (rule mach_wf_ghs [OF m])
  show "pred_hres (mach_wf C) (op_g_alloc fe r code pc need m)"
    unfolding op_g_alloc_def using g by (auto intro!: ghs_call_wf m mach_wf_adv mach_wf_set_r)
qed

lemma op_g_alloc_l_ok: "kop_ok op_g_alloc_l"
proof (rule kop_okI)
  fix C fe r code pc need m assume e: "env_ok fe" and m: "mach_wf C m"
  have g: "ghs_wf g" if "epa_ghs_alloc (fe_al fe) (mach_get_ghs m) t w n = Ok (h, g)" for t w n h g
    using ghs_alloc_wf [OF mach_wf_get_ghs [OF m] env_alloc [OF e] that] .
  have g': "mach_wf C (mach_put_ghs g m)" "epa_ghs_free g h = Ok g1 \<Longrightarrow> mach_wf C (mach_put_ghs g1 m)"
      "epa_ghs_write_bytes g h off bs = Ok g2 \<Longrightarrow> mach_wf C (mach_put_ghs g2 m)"
    if "epa_ghs_alloc (fe_al fe) (mach_get_ghs m) t w n = Ok (h, g)" for t w n h g g1 g2 off bs
    using g [OF that] ghs_free_wf [OF g [OF that]] ghs_write_wf [OF g [OF that]] by (auto intro: mach_wf_ghs [OF m])
  show "pred_hres (mach_wf C) (op_g_alloc_l fe r code pc need m)"
    unfolding op_g_alloc_l_def Let_def using m g'
    by (auto intro!: ghs_call_wf mach_wf_adv mach_wf_regs split: option.split res.split)
qed

lemma ghs_edit_ops_ok: "kop_ok op_g_free" "kop_ok op_g_resize" "kop_ok op_gw_mov4"
  unfolding op_g_free_def op_g_resize_def op_gw_mov4_def Let_def
  by (rule kop_okI, intro pred_if ghs_call_wf pred_Yield pred_Fault mach_wf_adv mach_wf_set_r;
      (erule (2) mach_ghs_steps(4) | erule (1) mach_ghs_steps(1-3) | assumption))+

lemma ghs_view_ops_ok: "kop_ok op_g_ptr" "kop_ok op_g_meta" "kop_ok op_g_tag" "kop_ok op_gr_mov4"
  unfolding op_g_ptr_def op_g_meta_def op_g_tag_def op_gr_mov4_def Let_def
  by (rule kop_okI, intro pred_if ghs_call_wf pred_Yield pred_Fault mach_wf_adv mach_wf_set_r mach_wf_regs; assumption)+

lemma clear_current_wf: "mach_wf C m \<Longrightarrow> mach_wf C (clear_current r h m)"
  unfolding clear_current_def by (erule mach_wf_upd_w) simp

lemma xfer_loop_wf:
  assumes "\<And>hs m'. mach_wf C m' \<Longrightarrow> pred_hres (mach_wf C) (c hs m')"
  shows "mach_wf C m \<Longrightarrow> pred_hres (mach_wf C) (xfer_loop pm om fm r no n acc m c)"
proof (induction n arbitrary: acc m)
  case (Suc n)
  show ?case
    unfolding xfer_loop.simps Let_def
    by (intro m_pop_wf Suc.prems pred_if pred_Fault ghs_call_wf Suc.IH clear_current_wf)
      (assumption | erule (1) mach_ghs_steps(2))+
qed (simp add: assms)

lemma m_deliver_wf:
  "env_ok fe \<Longrightarrow> mach_wf C m \<Longrightarrow> m_deliver fe r no hs m = (x, m') \<Longrightarrow> mach_wf C m'"
  using hook_result_wf [OF deliver_handles_keeps [OF env_alloc]]
  by (fastforce simp: m_deliver_def Let_def split: prod.splits)

lemma xfer_ops_ok: "kop_ok op_g_xfer" "kop_ok op_g_xferx"
proof -
  have f: "mach_wf C (upd_w r (\<lambda>w. w\<lparr>w_faulted := True, w_fault_message := s\<rparr>) m)" if "mach_wf C m" for C r m s
    by (rule mach_wf_upd_w [OF that]) simp
  show "kop_ok op_g_xfer"
    by (rule kop_okI) (auto simp: op_g_xfer_def Let_def split: prod.split res.split dest: m_deliver_wf simp del: xfer_loop.simps
        intro!: xfer_loop_wf mach_wf_adv mach_wf_set_r f)
  show "kop_ok op_g_xferx"
    by (rule kop_okI) (auto simp: op_g_xferx_def Let_def split: prod.split res.split dest: m_deliver_wf simp del: xfer_loop.simps
        intro!: xfer_loop_wf mach_wf_adv)
qed

lemma mach_wf_get_rgm: "mach_wf C m \<Longrightarrow> rgm_wf (k_rgm (m_k m))"
  by (intro kernel_wf_parts(3) mach_wf_kernel)


lemma rgm_publish_wf:
  assumes "rgm_wf t" and "epa_rgm_publish_copy ok t nm bytes = Ok (h, t')" and "length bytes < 4294967296"
  shows "rgm_wf t'"
  using rgm_publish_new(1) [OF assms(1,2) _ assms(3)] rgm_publish_known [OF assms(1) _ assms(2)] assms(1)
  by (cases "rgm_find_by_name t nm") auto

lemma local_bytes_length: "local_bytes v off sz = Some (Some bs) \<Longrightarrow> length bs < 4294967296"
  by (auto simp: local_bytes_def u32_bound split: option.splits if_splits)

lemma op_rgm_publish_l_ok: "kop_ok op_rgm_publish_l"
proof (rule kop_okI)
  fix C fe r code pc need m assume m: "mach_wf C m"
  have p: "mach_wf C (m\<lparr>m_k := (m_k m)\<lparr>k_rgm := t\<rparr>\<rparr>)"
    if "epa_rgm_publish_copy ok (k_rgm (m_k m)) nm bs = Ok (h, t)" "local_bytes v off sz = Some (Some bs)"
    for ok nm bs h t v off sz
    using rgm_publish_wf [OF mach_wf_get_rgm [OF m] that(1) local_bytes_length [OF that(2)]]
    by (intro mach_wf_k m kernel_wf_rgm mach_wf_kernel)
  show "pred_hres (mach_wf C) (op_rgm_publish_l fe r code pc need m)"
    using m p by (auto simp: op_rgm_publish_l_def Let_def split: option.split res.split intro!: mach_wf_adv mach_wf_regs)
qed

lemma op_rgm_get_ok: "kop_ok op_rgm_get"
  by (rule kop_okI) (auto simp: op_rgm_get_def split: res.split rgm_err.split intro!: mach_wf_adv mach_wf_regs)

lemma rgm_view_ops_ok: "kop_ok op_rgm_meta" "kop_ok op_rgm_read4"
  by (rule kop_okI; auto simp: op_rgm_meta_def op_rgm_read4_def Let_def split: res.split
      intro!: mach_wf_adv mach_wf_regs mach_wf_set_r)+

section \<open>Dynamic pools\<close>

lemma mach_pool_ok: "mach_wf C m \<Longrightarrow> m_pool r i m = COk p \<Longrightarrow> dyn_ok p"
  unfolding m_pool_def using worker_pool_ok [OF mach_wf_kernel mach_wf_get] by blast

lemma mach_wf_pool_put: "mach_wf C m \<Longrightarrow> dyn_ok p \<Longrightarrow> mach_wf C (m_pool_put r i p m)"
proof -
  assume m: "mach_wf C m" and p: "dyn_ok p"
  obtain w k where wk: "w_pool_put i p (get_w r m, m_k m) = (w, k)" by force
  with w_pool_put_wf [OF mach_wf_kernel [OF m] mach_wf_get [OF m] p] have "worker_inv (C r) w" "kernel_wf C k" by blast+
  with m show ?thesis by (simp add: m_pool_put_def wk mach_wf_put mach_wf_k)
qed

lemma pool_call_wf:
  assumes "mach_wf C m" and "\<And>p. m_pool r i m = COk p \<Longrightarrow> dyn_ok p \<Longrightarrow> pred_hres (mach_wf C) (c p)"
  shows "pred_hres (mach_wf C) (chk (m_pool r i m) msg m c)"
  using assms mach_pool_ok [OF assms(1)] by (intro pred_chk) auto

lemma dyn_alloc_tail_wf: "mach_wf C m \<Longrightarrow> pred_hres (mach_wf C) (dyn_alloc_tail r i pc need m)"
  by (auto simp: dyn_alloc_tail_def split: cres.split intro!: dyn_call_wf mach_wf_adv mach_wf_set_r mach_wf_pool_put
      intro: dyn_ok_alloc [OF mach_pool_ok])

lemma op_dyn_alloc_ok: "kop_ok op_dyn_alloc"
proof (rule kop_okI)
  fix C fe r code pc need m assume e: "env_ok fe" and m: "mach_wf C m"
  show "pred_hres (mach_wf C) (op_dyn_alloc fe r code pc need m)"
    unfolding op_dyn_alloc_def Let_def
    by (intro pool_call_wf pred_if pred_opt call_k_wf dyn_alloc_tail_wf pred_Yield pred_Fault m)
      (erule env_hooks(23) [OF e] | assumption)+
qed

lemma op_dyn_free_ok: "kop_ok op_dyn_free"
proof (rule kop_okI)
  fix C fe r code pc need m assume e: "env_ok fe" and m: "mach_wf C m"
  show "pred_hres (mach_wf C) (op_dyn_free fe r code pc need m)"
    unfolding op_dyn_free_def Let_def
  proof (intro pool_call_wf dyn_call_wf m)
    fix p p' assume p: "dyn_ok p" "epa_dynamic_pool_release p (m_r r m 0) = Ok p'"
    let ?m1 = "m_pool_put r (imm32 code pc 0) p' m"
    have m1: "mach_wf C ?m1" using mach_wf_pool_put [OF m dyn_ok_release [OF p]] .
    show "pred_hres (mach_wf C) (case on_request_pool (fe_hooks fe) of
            None \<Rightarrow> Yield (m_adv r pc need (m_set_r r 1 1 ?m1))
          | Some f \<Rightarrow>
              if dp_cap p' > dp_count p' + dp_max_free p' then
                (case f (m_id8 r m) (imm32 code pc 0) (dp_count p' + dp_min_free p') False (m_k ?m1) of
                   (res, k) \<Rightarrow> if res = Ub then Undef
                     else Yield (m_adv r pc need (m_set_r r 1 1 (?m1\<lparr>m_k := k\<rparr>))))
              else Yield (m_adv r pc need (m_set_r r 1 1 ?m1)))"
      using m1 hook_result_wf [OF env_hooks(23) [OF e] m1]
      by (auto split: option.split prod.split intro!: mach_wf_adv mach_wf_set_r)
  qed
qed

lemma dyn_to_arena_wf:
  assumes "mach_wf C m" and "\<And>off sz m'. mach_wf C m' \<Longrightarrow> pred_hres (mach_wf C) (c off sz m')"
  shows "pred_hres (mach_wf C) (dyn_to_arena msg r p i m c)"
proof (cases "vm_lbytes (m_vm r m)")
  case (Some b)
  let ?v = "m_vm r m" and ?off = "(vm_ltop (m_vm r m) + 3) AND NOT 3"
  have "mach_wf C (upd_vm r (\<lambda>v. v\<lparr>vm_lbytes := Some (mem_write b (unat ?off) bytes), vm_ltop := ?off + dp_elem p\<rparr>) m)"
    if "\<not> (dp_elem p > vm_lcap ?v \<or> ?off > vm_lcap ?v - dp_elem p)" "\<not> length b < unat ?off + length bytes" for bytes
  proof (rule mach_wf_upd_vm_at [OF assms(1)])
    have v: "vm_wf (?v\<lparr>vm_ltop := ?off + dp_elem p\<rparr>)"
      using l_alloc_top [OF mach_wf_vm [OF assms(1)] _ that(1)] Some by simp
    moreover have "length (mem_write b (unat ?off) bytes) = length b" using that(2) by simp
    ultimately show "vm_wf (?v\<lparr>vm_lbytes := Some (mem_write b (unat ?off) bytes), vm_ltop := ?off + dp_elem p\<rparr>)"
      using Some by (auto simp: vm_wf_def vm_arena_def simp del: length_mem_write)
  qed simp
  with assms Some show ?thesis by (auto simp: dyn_to_arena_def Let_def intro!: dyn_call_wf)
qed (use assms(1) in \<open>simp add: dyn_to_arena_def\<close>)

lemma dyn_ops_ok:
  "kop_ok op_dyn_load" "kop_ok op_dyn_store" "kop_ok op_dyn_swap" "kop_ok op_dyn_iter_head" "kop_ok op_dyn_iter_next"
  unfolding op_dyn_load_def op_dyn_store_def op_dyn_swap_def op_dyn_iter_head_def op_dyn_iter_next_def Let_def
  by (rule kop_okI, intro pool_call_wf dyn_to_arena_wf dyn_call_wf pred_if pred_opt pred_Yield pred_Fault pred_Undef
      mach_wf_adv mach_wf_set_r mach_wf_regs mach_wf_pool_put; (assumption | erule (1) dyn_ok_write dyn_ok_swap))+


section \<open>The step\<close>

lemma k_table_ok: "list_all (\<lambda>(i, h). kop_ok h) k_table"
  by (simp add: k_table_def hook_ops_ok boot_ops_ok op_dynlib_import_ok op_process_spawn_ok op_wait_on_sync_ok
      privilege_ops_ok op_acl_ok op_pid_ok op_vm_state_ok trap_ops_ok op_request_ok op_wait_for_data_ok op_data_ready_ok
      trx_ops_ok op_worker_trx_ok op_worker_trx_in_r_ok op_worker_trx_out_r_ok op_sm_put_ok op_g_alloc_ok
      op_g_alloc_l_ok ghs_edit_ops_ok ghs_view_ops_ok xfer_ops_ok op_rgm_publish_l_ok op_rgm_get_ok rgm_view_ops_ok
      op_dyn_alloc_ok op_dyn_free_ok dyn_ops_ok)

lemma lift_vm_op_ok:
  assumes "op_keeps_wf h" and "op_keeps_cap h"
  shows "kop_ok (lift_vm_op h)"
proof (rule kop_okI)
  fix C fe r code pc need m assume m: "mach_wf C m"
  have "pred_hres vm_wf (h code pc need (m_vm r m))"
    using assms(1) mach_wf_vm [OF m] by (simp add: op_keeps_wf_def)
  moreover have "pred_hres (\<lambda>v. scap v = C r) (h code pc need (m_vm r m))"
    using assms(2) mach_wf_cap [OF m, of r] unfolding op_keeps_cap_def by blast
  ultimately have "pred_hres (\<lambda>v. vm_wf v \<and> scap v = C r) (h code pc need (m_vm r m))"
    by (cases "h code pc need (m_vm r m)") simp_all
  then show "pred_hres (mach_wf C) (lift_vm_op h fe r code pc need m)"
    by (cases "h code pc need (m_vm r m)") (simp_all add: lift_vm_op_def lift_h_def mach_wf_put_vm m)
qed

lemma flow_table_ok: "list_all (\<lambda>(i, h). kop_ok h) (flow_table fe)"
proof -
  have "kop_ok (lift_vm_op h)" if "(i, h) \<in> set (vm_table (fe_nc fe) (fe_prog fe))" for i h
    using vm_table_keeps_wf [of "fe_nc fe" "fe_prog fe"] vm_table_keeps_cap [of "fe_nc fe" "fe_prog fe"] that
    by (intro lift_vm_op_ok) (auto simp: list_all_iff)
  then show ?thesis using k_table_ok by (auto simp: flow_table_def list_all_iff)
qed

text \<open>The machine a step leaves, whatever it returns.\<close>

fun flow_mach :: "flow_res \<Rightarrow> mach option" where
  "flow_mach (FlowErr e m) = Some m"
| "flow_mach (FlowOk m) = Some m"
| "flow_mach (FlowYielded m) = Some m"
| "flow_mach (FlowNotFlow m) = Some m"
| "flow_mach FlowUndef = None"

lemma flow_exec_wf: "env_ok fe \<Longrightarrow> mach_wf C m \<Longrightarrow> pred_option (mach_wf C) (flow_mach (flow_exec fe r op code pc need m))"
proof -
  assume e: "env_ok fe" and m: "mach_wf C m"
  show ?thesis
  proof (cases "map_of (flow_table fe) op")
    case (Some h)
    then have "kop_ok h" using flow_table_ok [of fe] by (auto simp: list_all_iff dest: map_of_SomeD)
    with e m have "pred_hres (mach_wf C) (h fe r code pc need m)" by (simp add: kop_ok_def)
    with Some m show ?thesis by (cases "h fe r code pc need m") (simp_all add: flow_exec_def)
  qed (simp add: flow_exec_def m)
qed

lemma flow_step_wf: "env_ok fe \<Longrightarrow> mach_wf C m \<Longrightarrow> pred_option (mach_wf C) (flow_mach (epa_flow_step fe r m))"
  by (auto simp: epa_flow_step_def Let_def flow_exec_wf simp del: pred_option_def split: option.split prod.split)

end
