(* ===== verification/ProgramLoader.thy ===== *)
theory ProgramLoader
  imports ProgramDesc Opcodes
begin

text \<open>
  The parser of program images, \<open>src/epa_program_loader.c\<close>: sections of code (entries,
  functions, task entries) become views into the image, metadata instructions fill the program
  description, data blocks its constants. \<open>ok n\<close> is the answer of \<open>realloc\<close> for
  \<open>n\<close> bytes. Both loops are total: every round moves the position on.
\<close>

section \<open>Sections\<close>

lemma decode_width: "epa_decode_opcode_at blob pc = Some (opc, w) \<Longrightarrow> 0 < w"
  by (auto simp: epa_decode_opcode_at_def split: if_splits)

text \<open>The three skip functions are one loop with different opcodes and messages: \<open>s\<close> and
  \<open>e\<close> open and close the section, \<open>stray\<close> and \<open>unterm\<close> are the messages for a
  close without an open and for the end of the image.\<close>

function skip_loop :: "string \<Rightarrow> string \<Rightarrow> nat \<Rightarrow> nat \<Rightarrow> u8 list \<Rightarrow> nat \<Rightarrow> int \<Rightarrow> string + nat" where
  "skip_loop stray unterm s e blob pc depth =
     (if pc + 1 > length blob then Inl unterm
      else case epa_decode_opcode_at blob pc of
        None \<Rightarrow> Inl ''program_loader: truncated opcode at pc=%zu''
      | Some (opc, width) \<Rightarrow>
          (case epa_find_opcode opc of
             None \<Rightarrow> Inl ''program_loader: unknown opcode 0x%04x at pc=%zu''
           | Some d \<Rightarrow>
               let need = width + unat (od_plen d) in
               if pc + need > length blob then Inl ''program_loader: truncated %s at pc=%zu''
               else if unat opc = s then skip_loop stray unterm s e blob (pc + need) (depth + 1)
               else if unat opc = e then
                 (if depth - 1 = 0 then Inr (pc + need)
                  else if depth - 1 < 0 then Inl stray
                  else skip_loop stray unterm s e blob (pc + need) (depth - 1))
               else skip_loop stray unterm s e blob (pc + need) depth))"
  by pat_completeness auto
termination
  by (relation "measure (\<lambda>(_, _, _, _, blob, pc, _). length blob - pc)")
    (auto dest: decode_width)

declare skip_loop.simps [simp del]

definition skip_entry :: "u8 list \<Rightarrow> nat \<Rightarrow> string + nat" where
  "skip_entry blob pc = skip_loop ''program_loader: ENTRY_END without ENTRY_START at pc=%zu''
     ''program_loader: unterminated ENTRY (missing ENTRY_END)'' 10 11 blob pc 0"

definition skip_func :: "u8 list \<Rightarrow> nat \<Rightarrow> string + nat" where
  "skip_func blob pc = skip_loop ''program_loader: FUNC_END without FUNC_START at pc=%zu''
     ''program_loader: unterminated FUNC (missing FUNC_END)'' 59 60 blob pc 0"

definition skip_at_entry :: "u8 list \<Rightarrow> nat \<Rightarrow> string + nat" where
  "skip_at_entry blob pc = skip_loop ''program_loader: AT_ENTRY_END without AT_ENTRY_START at pc=%zu''
     ''program_loader: unterminated AT_ENTRY (missing AT_ENTRY_END)'' 63 64 blob pc 0"

text \<open>The view between the header of a section and its closing opcode.\<close>

definition section_view :: "u8 list \<Rightarrow> nat \<Rightarrow> nat \<Rightarrow> code_view option" where
  "section_view blob body_start pc_after =
     (let body_end = pc_after - 1 in
      if body_end < body_start then None
      else Some \<lparr>cv_code = take (body_end - body_start) (drop body_start blob), cv_abs = of_nat body_start\<rparr>)"

section \<open>Data blocks\<close>

fun db_str :: "u8 list \<Rightarrow> nat \<Rightarrow> nat \<Rightarrow> nat \<Rightarrow> nat \<Rightarrow> string + epa_const list" where
  "db_str blob pc plen 0 ppc = Inr []"
| "db_str blob pc plen (Suc n) ppc =
     (if ppc + 4 + 2 > plen then Inl ''program_loader: truncated DB_STR entry''
      else
        let cid = read_u32_le blob (pc + ppc); len = read_u16_le blob (pc + ppc + 4); ppc = ppc + 6 in
        if ppc + unat len > plen then Inl ''program_loader: truncated DB_STR bytes''
        else case db_str blob pc plen n (ppc + unat len) of
          Inl e \<Rightarrow> Inl e
        | Inr cs \<Rightarrow> Inr (\<lparr>ec_id = cid, ec_kind = 1, ec_flags = 0, ec_aux = 0,
                          ec_a = of_nat (pc + ppc), ec_b = ucast len\<rparr> # cs))"

definition align4 :: "nat \<Rightarrow> nat" where
  "align4 pc = (pc + 3) div 4 * 4"

fun db_chunks :: "(nat \<Rightarrow> bool) \<Rightarrow> u8 list \<Rightarrow> nat \<Rightarrow> nat \<Rightarrow> epa_const list \<Rightarrow> string + (nat \<times> epa_const list)" where
  "db_chunks ok blob 0 pc consts = Inr (pc, consts)"
| "db_chunks ok blob (Suc n) pc consts =
     (if pc + 2 + 2 + 4 > length blob
      then Inl ''program_loader: truncated DATA_BLOCK chunk header at pc=%zu''
      else
        let kind = read_u16_le blob pc; plen = unat (read_u32_le blob (pc + 4)); pc = pc + 8 in
        if pc + plen > length blob
        then Inl ''program_loader: truncated DATA_BLOCK chunk payload at pc=%zu''
        else if kind = 1 then
          (if plen < 2 then Inl ''program_loader: DB_STR payload too small''
           else
             let count = unat (read_u16_le blob pc) in
             if \<not> ok ((length consts + count) * 16) then Inl ''program_loader: OOM growing const table''
             else case db_str blob pc plen count 2 of
               Inl e \<Rightarrow> Inl e
             | Inr cs \<Rightarrow> db_chunks ok blob n (align4 (pc + plen)) (consts @ cs))
        else db_chunks ok blob n (align4 (pc + plen)) consts)"

definition parse_data_block :: "(nat \<Rightarrow> bool) \<Rightarrow> program \<Rightarrow> u8 list \<Rightarrow> nat \<Rightarrow> string + (nat \<times> program)" where
  "parse_data_block ok p blob pc =
     (if pc + 1 + 2 > length blob then Inl ''program_loader: truncated DATA_BLOCK header at pc=%zu''
      else case db_chunks ok blob (unat (read_u16_le blob (pc + 1))) (pc + 1 + 2) [] of
        Inl e \<Rightarrow> Inl e
      | Inr (pc', cs) \<Rightarrow> Inr (pc', p\<lparr>p_consts := cs\<rparr>))"

section \<open>Metadata and sections\<close>

definition parse_entry :: "program \<Rightarrow> u8 list \<Rightarrow> nat \<Rightarrow> nat \<Rightarrow> string + (nat \<times> program)" where
  "parse_entry p blob pc need =
     (let eid = read_u32_le blob (pc + 1) in
      if eid \<ge> 256 then Inl ''program_loader: ENTRY_START id=%u out of range''
      else case skip_entry blob pc of
        Inl e \<Rightarrow> Inl e
      | Inr pc_after \<Rightarrow>
          (case section_view blob (pc + need) pc_after of
             None \<Rightarrow> Inl ''program_loader: malformed ENTRY id=%u''
           | Some v \<Rightarrow>
               let i = unat eid in
               Inr (pc_after, p\<lparr>p_entries := (p_entries p)(i := v), p_present := (p_present p)(i := True),
                  p_in_words := (p_in_words p)(i := read_u16_le blob (pc + 5)),
                  p_out_words := (p_out_words p)(i := read_u16_le blob (pc + 7)),
                  p_mailbox := (p_mailbox p)(i := read_u32_le blob (pc + 9))\<rparr>)))"

definition parse_set_mode :: "program \<Rightarrow> u8 list \<Rightarrow> nat \<Rightarrow> nat \<Rightarrow> string + (nat \<times> program)" where
  "parse_set_mode p blob pc need =
     (let kind = blob ! (pc + 1); target = unat (blob ! (pc + 2)); value = read_u32_le blob (pc + 3) in
      if kind = 1 then Inr (pc + need, p)
      else if kind = 2 then Inr (pc + need, p\<lparr>p_privilege := (p_privilege p)(target := value)\<rparr>)
      else if kind = 3 then Inr (pc + need, p\<lparr>p_ignore_ticks := (p_ignore_ticks p)(target := value \<noteq> 0)\<rparr>)
      else Inl ''program_loader: unknown SET_MODE kind=%u at pc=%zu'')"

definition push_acl_entry :: "(nat \<Rightarrow> bool) \<Rightarrow> program \<Rightarrow> u64 \<Rightarrow> u32 \<Rightarrow> string + program" where
  "push_acl_entry ok p remote_uid local_wid =
     (if \<not> ok (16 * (length (p_acl p) + 1)) then Inl ''program_loader: OOM growing ACL''
      else Inr (p\<lparr>p_acl := p_acl p @ [\<lparr>acl_remote = remote_uid, acl_wid = local_wid\<rparr>]\<rparr>))"

definition read_u64_pair :: "u8 list \<Rightarrow> nat \<Rightarrow> u64" where
  "read_u64_pair blob off = push_bit 32 (ucast (read_u32_le blob (off + 4))) OR ucast (read_u32_le blob off)"

definition parse_pool :: "(nat \<Rightarrow> bool) \<Rightarrow> program \<Rightarrow> u8 list \<Rightarrow> nat \<Rightarrow> nat \<Rightarrow> string + (nat \<times> program)" where
  "parse_pool ok p blob pc need =
     (let d = \<lparr>pd_pool_id = read_u32_le blob (pc + 1), pd_elem = read_u32_le blob (pc + 5),
              pd_min_free = read_u32_le blob (pc + 9), pd_max_free = read_u32_le blob (pc + 13),
              pd_grow = read_u32_le blob (pc + 17)\<rparr> in
      if unat (pd_pool_id d) \<noteq> length (p_pools p)
      then Inl ''program_loader: DYNAMIC_POOL pool_id=%u must be dense and declared in order''
      else if pd_elem d = 0 then Inl ''program_loader: DYNAMIC_POOL pool_id=%u has element_size=0''
      else if pd_grow d = 0 then Inl ''program_loader: DYNAMIC_POOL pool_id=%u has grow_by=0''
      else if pd_min_free d > pd_max_free d
      then Inl ''program_loader: DYNAMIC_POOL pool_id=%u has min_free > max_free''
      else if list_ex (\<lambda>q. pd_pool_id q = pd_pool_id d) (p_pools p)
      then Inl ''program_loader: duplicate DYNAMIC_POOL pool_id=%u''
      else if \<not> ok ((length (p_pools p) + 1) * 20) then Inl ''program_loader: OOM growing dynamic pool table''
      else Inr (pc + need, p\<lparr>p_pools := p_pools p @ [d]\<rparr>))"

definition parse_func :: "(nat \<Rightarrow> bool) \<Rightarrow> program \<Rightarrow> u8 list \<Rightarrow> nat \<Rightarrow> nat \<Rightarrow> string + (nat \<times> program)" where
  "parse_func ok p blob pc need =
     (let fid = read_u32_le blob (pc + 1); frame_words = read_u16_le blob (pc + 5) in
      if list_ex (\<lambda>f. fd_id f = fid) (p_funcs p) then Inl ''program_loader: duplicate FUNC_START func_id=%u''
      else case skip_func blob pc of
        Inl e \<Rightarrow> Inl e
      | Inr pc_after \<Rightarrow>
          (case section_view blob (pc + need) pc_after of
             None \<Rightarrow> Inl ''program_loader: malformed FUNC func_id=%u''
           | Some v \<Rightarrow>
               if \<not> ok ((length (p_funcs p) + 1) * 32) then Inl ''program_loader: OOM adding FUNC func_id=%u''
               else Inr (pc_after, p\<lparr>p_funcs := p_funcs p @
                      [\<lparr>fd_id = fid, fd_frame_words = frame_words, fd_code = v\<rparr>]\<rparr>)))"

definition parse_at_entry :: "(nat \<Rightarrow> bool) \<Rightarrow> program \<Rightarrow> u8 list \<Rightarrow> nat \<Rightarrow> nat \<Rightarrow> string + (nat \<times> program)" where
  "parse_at_entry ok p blob pc need =
     (let aid = read_u32_le blob (pc + 1); frame_words = read_u16_le blob (pc + 5) in
      if list_ex (\<lambda>a. ad_id a = aid) (p_ats p) then Inl ''program_loader: duplicate AT_ENTRY_START at_id=%u''
      else case skip_at_entry blob pc of
        Inl e \<Rightarrow> Inl e
      | Inr pc_after \<Rightarrow>
          (case section_view blob (pc + need) pc_after of
             None \<Rightarrow> Inl ''program_loader: malformed AT_ENTRY at_id=%u''
           | Some v \<Rightarrow>
               if \<not> ok ((length (p_ats p) + 1) * 32) then Inl ''program_loader: OOM adding AT_ENTRY at_id=%u''
               else Inr (pc_after, p\<lparr>p_ats := p_ats p @
                      [\<lparr>ad_id = aid, ad_frame_words = frame_words, ad_code = v\<rparr>]\<rparr>)))"

text \<open>One round of the main loop: the new position and program.\<close>

definition parse_step :: "(nat \<Rightarrow> bool) \<Rightarrow> u8 list \<Rightarrow> nat \<Rightarrow> program \<Rightarrow> string + (nat \<times> program)" where
  "parse_step ok blob pc p =
     (case epa_decode_opcode_at blob pc of
        None \<Rightarrow> Inl ''program_loader: truncated opcode at pc=%zu''
      | Some (opc, width) \<Rightarrow>
          if unat opc = 3 then parse_data_block ok p blob pc
          else case epa_find_opcode opc of
            None \<Rightarrow> Inl ''program_loader: unknown opcode 0x%04x at pc=%zu''
          | Some d \<Rightarrow>
              let need = width + unat (od_plen d) in
              if pc + need > length blob then Inl ''program_loader: truncated %s at pc=%zu''
              else if unat opc = 10 then parse_entry p blob pc need
              else if unat opc = 15 then Inr (pc + need, p\<lparr>p_kernel_uid := read_u64_pair blob (pc + 1)\<rparr>)
              else if unat opc = 1 then parse_set_mode p blob pc need
              else if unat opc = 16 then
                map_sum (\<lambda>e. e) (\<lambda>p'. (pc + need, p'))
                  (push_acl_entry ok p (read_u64_pair blob (pc + 1)) (read_u32_le blob (pc + 9)))
              else if unat opc = 14 then parse_pool ok p blob pc need
              else if unat opc = 59 then parse_func ok p blob pc need
              else if unat opc = 63 then parse_at_entry ok p blob pc need
              else Inr (pc + need, p))"

section \<open>Progress\<close>

lemma skip_loop_progress:
  "skip_loop stray unterm s e blob pc depth = Inr pc' \<Longrightarrow> pc < pc' \<and> pc' \<le> length blob"
proof (induction "length blob - pc" arbitrary: pc depth rule: less_induct)
  case less
  from less.prems obtain opc w d where d: "\<not> pc + 1 > length blob" "epa_decode_opcode_at blob pc = Some (opc, w)"
      "epa_find_opcode opc = Some d" "\<not> pc + (w + unat (od_plen d)) > length blob"
    by (subst (asm) skip_loop.simps) (auto simp: Let_def split: if_splits option.splits)
  let ?q = "pc + (w + unat (od_plen d))"
  have q: "pc < ?q" "?q \<le> length blob" using decode_width [OF d(2)] d(4) by auto
  then have lt: "length blob - ?q < length blob - pc" using d(1) by linarith
  have "pc' = ?q \<or> (\<exists>depth'. skip_loop stray unterm s e blob ?q depth' = Inr pc')"
    using less.prems d by (subst (asm) skip_loop.simps) (auto simp: Let_def split: if_splits)
  then show ?case using less.hyps [OF lt] q by (metis less_trans)
qed

lemma align4_ge: "pc \<le> align4 pc"
  by (simp add: align4_def)

lemma db_chunks_progress: "db_chunks ok blob n pc cs = Inr (pc', cs') \<Longrightarrow> pc \<le> pc'"
proof (induction n arbitrary: pc cs)
  case (Suc n)
  define q where "q = align4 (pc + 8 + unat (read_u32_le blob (pc + 4)))"
  have "pc \<le> q" using align4_ge [of "pc + 8 + unat (read_u32_le blob (pc + 4))"] by (simp add: q_def)
  moreover have "\<exists>cs1. db_chunks ok blob n q cs1 = Inr (pc', cs')"
    using Suc.prems by (auto simp: Let_def q_def add_ac split: if_splits sum.splits)
  ultimately show ?case using Suc.IH le_trans by blast
qed simp

lemma parse_step_progress:
  assumes "parse_step ok blob pc p = Inr (pc', p')"
  shows "pc < pc'"
proof -
  obtain opc w where d: "epa_decode_opcode_at blob pc = Some (opc, w)"
    using assms by (auto simp: parse_step_def split: option.splits)
  note w = decode_width [OF d]
  show ?thesis
    using assms w
    by (auto simp: parse_step_def d Let_def parse_data_block_def parse_entry_def parse_set_mode_def
        parse_pool_def parse_func_def parse_at_entry_def skip_entry_def skip_func_def skip_at_entry_def
        push_acl_entry_def
        split: if_splits option.splits sum.splits prod.splits
        dest: skip_loop_progress db_chunks_progress)
qed

section \<open>The main loop\<close>

function parse_loop :: "(nat \<Rightarrow> bool) \<Rightarrow> u8 list \<Rightarrow> nat \<Rightarrow> program \<Rightarrow> string + program" where
  "parse_loop ok blob pc p =
     (if pc + 1 \<le> length blob then
        (case parse_step ok blob pc p of Inl e \<Rightarrow> Inl e | Inr (pc', p') \<Rightarrow> parse_loop ok blob pc' p')
      else Inr p)"
  by pat_completeness auto
termination
  by (relation "measure (\<lambda>(_, blob, pc, _). length blob - pc)") (auto dest: parse_step_progress)

declare parse_loop.simps [simp del]

definition epa_program_parse :: "(nat \<Rightarrow> bool) \<Rightarrow> u8 list \<Rightarrow> (string, program) res" where
  "epa_program_parse ok blob =
     (if length blob < 2 then Err ''program_loader: invalid args''
      else case parse_loop ok blob 0 (program_zero\<lparr>p_image := blob\<rparr>) of
        Inl e \<Rightarrow> Err e | Inr p \<Rightarrow> Ok p)"

end
