(* ===== verification/KernelRun.thy ===== *)
theory KernelRun
  imports FlowStep ProgramLoader
begin

text \<open>
  Loading a program into a kernel (\<open>src/epa_kernel_so.c\<close>), running asynchronous tasks
  (\<open>src/epa_at_cpu_dispatch.c\<close>) and the wave scheduler (\<open>src/epa_sched_wave.c\<close>).
  The registry of kernels, the host's threads and \<open>malloc\<close> are fields of \<open>run_cfg\<close>.
  Task requests run instructions, which may request tasks: the nesting is bounded by a depth, the
  C stack, and running out of it is \<open>Ub\<close>.
\<close>

record run_cfg =
  rc_pf :: platform
  rc_nc :: nan_choice
  rc_addr :: "u64 \<Rightarrow> u64"
  rc_outer :: outer
  rc_register :: "u64 \<Rightarrow> epa_kernel \<Rightarrow> unit kres"
  rc_lanes :: "at_request \<Rightarrow> nat \<Rightarrow> epa_kernel \<Rightarrow> unit kres"
  rc_ok :: "nat \<Rightarrow> bool"
  rc_wm :: worker_mem

definition kernel_env :: "run_cfg \<Rightarrow> (epa_kernel \<Rightarrow> unit kres) \<Rightarrow> epa_kernel \<Rightarrow> flow_env" where
  "kernel_env cfg dispatch k =
     \<lparr>fe_prog = k_prog k, fe_hooks = kernel_install_standard_hooks (rc_pf cfg) (rc_outer cfg) dispatch,
      fe_pf = rc_pf cfg, fe_nc = rc_nc cfg, fe_addr = rc_addr cfg,
      fe_parse = epa_program_parse (rc_ok cfg)\<rparr>"

section \<open>Loading\<close>

text \<open>One present entry: its worker, appended to the active list after \<open>prev\<close>.\<close>

definition init_entry :: "run_cfg \<Rightarrow> nat \<Rightarrow> u32 \<Rightarrow> epa_kernel \<Rightarrow> unit kres" where
  "init_entry cfg i prev k =
     (let prog = k_prog k in
      case epa_worker_init (rc_wm cfg) (of_nat i) 0 (of_nat (length (cv_code (p_entries prog i))))
             (ucast (p_in_words prog i)) (ucast (p_out_words prog i)) (p_mailbox prog i) of
        Inl (e, w) \<Rightarrow> (Err e, k_upd_w i (\<lambda>_. w) k)
      | Inr w \<Rightarrow>
          let w1 = w\<lparr>w_privilege := p_privilege prog i, w_ignore_max_ticks := p_ignore_ticks prog i\<rparr> in
          case epa_worker_attach_dynamic_pools w1 (case k_pools k of None \<Rightarrow> 0 | Some ps \<Rightarrow> of_nat (length ps)) of
            Inl (e, w2) \<Rightarrow> (Err e, k_upd_w i (\<lambda>_. w2) k)
          | Inr w2 \<Rightarrow>
              let w3 = w2\<lparr>w_halted := (i \<noteq> 0), w_blocked := (i \<noteq> 0),
                          w_vm := (w_vm w2)\<lparr>vm_eip := \<lparr>eip_type = EPA_BLOCK_ENTRY, eip_block = of_nat i,
                                                       eip_pc = 0\<rparr>\<rparr>\<rparr>;
                  k1 = (k_upd_w i (\<lambda>_. w3) k)\<lparr>k_n := k_n k + 1\<rparr>
              in (Ok (), if prev \<ge> 256 then k1\<lparr>k_head := of_nat i\<rparr>
                         else k1\<lparr>k_next := (k_next k1)(unat prev := of_nat i)\<rparr>))"

fun init_entries :: "run_cfg \<Rightarrow> nat list \<Rightarrow> u32 \<Rightarrow> epa_kernel \<Rightarrow> unit kres" where
  "init_entries cfg [] prev k = (Ok (), k)"
| "init_entries cfg (i # is) prev k =
     (if \<not> p_present (k_prog k) i then init_entries cfg is prev k
      else case init_entry cfg i prev k of
        (Ok _, k1) \<Rightarrow> init_entries cfg is (of_nat i) k1 | (Err e, k1) \<Rightarrow> (Err e, k1) | (Ub, k1) \<Rightarrow> (Ub, k1))"

definition pool_configs :: "program \<Rightarrow> dyn_pool_config list" where
  "pool_configs p = map (\<lambda>d. \<lparr>dc_pool_id = pd_pool_id d, dc_elem = pd_elem d, dc_min_free = pd_min_free d,
     dc_max_free = pd_max_free d, dc_grow = pd_grow d\<rparr>) (p_pools p)"

definition init_workers_from_prog :: "run_cfg \<Rightarrow> epa_kernel \<Rightarrow> unit kres" where
  "init_workers_from_prog cfg k =
     (let k1 = k\<lparr>k_workers := (\<lambda>i. if i < 256 then worker_zero else k_workers k i), k_next := (\<lambda>_. 256), k_pools := None, k_n := 0, k_head := 256,
                 k_priv_locked := False\<rparr>;
          cfgs = pool_configs (k_prog k)
      in if length cfgs > 256 then (Err ''too many dynamic pools in program manifest: %zu'', k1)
         else if cfgs \<noteq> [] \<and> \<not> rc_ok cfg (length cfgs * 40) then (Err ''kernel dynamic pool config: OOM'', k1)
         else case (if cfgs = [] then Ok None else map_res id Some (init_pools cfgs)) of
           Err e \<Rightarrow> (Err e, k1) | Ub \<Rightarrow> (Ub, k1)
         | Ok ps \<Rightarrow>
             (case init_entries cfg [0..<256] 256 (k1\<lparr>k_pools := ps\<rparr>) of
                (Ok _, k2) \<Rightarrow> if \<not> w_inited (k_workers k2 0) then (Err ''no entry 0 (kernel) found'', k2)
                              else (Ok (), k2)
              | (Err e, k2) \<Rightarrow> (Err e, k2)
              | (Ub, k2) \<Rightarrow> (Ub, k2)))"

definition kernel_refresh_worker_vm_identity :: "epa_kernel \<Rightarrow> epa_kernel" where
  "kernel_refresh_worker_vm_identity k = k\<lparr>k_workers := (\<lambda>i.
     if i < 256 \<and> w_inited (k_workers k i)
     then (k_workers k i)\<lparr>w_kernel_uid := k_uid k, w_worker_id := of_nat i\<rparr> else k_workers k i)\<rparr>"

fun fnv1a64 :: "u8 list \<Rightarrow> u64 \<Rightarrow> u64" where
  "fnv1a64 [] h = h"
| "fnv1a64 (b # bs) h = fnv1a64 bs ((h XOR ucast b) * 1099511628211)"

definition u64_le_bytes :: "u64 \<Rightarrow> u8 list" where
  "u64_le_bytes v = map (\<lambda>i. ucast (drop_bit (8 * i) v)) [0..<8]"

definition epa_kernel_namespace_uid :: "u32 \<Rightarrow> u64 \<Rightarrow> u64" where
  "epa_kernel_namespace_uid pid local_uid =
     (let h = fnv1a64 (u64_le_bytes local_uid) (fnv1a64 (u32_le_bytes pid) 14695981039346656037)
      in if h \<noteq> 0 then h else 1)"

text \<open>After a failed parse the description is left empty
  here; the code leaves what the parser had read, with \<open>prog_loaded\<close> cleared.\<close>

definition epa_kernel_load_blob_internal :: "run_cfg \<Rightarrow> u8 list \<Rightarrow> u32 \<Rightarrow> u64 \<Rightarrow> epa_kernel \<Rightarrow> unit kres" where
  "epa_kernel_load_blob_internal cfg blob pid override_uid k =
     (if blob = [] then (Err ''load_blob: bad args'', k)
      else if \<not> rc_ok cfg (length blob) then (Err ''load_blob: OOM'', k)
      else let k0 = k\<lparr>k_prog := program_zero, k_loaded := False\<rparr> in
        case epa_program_parse (rc_ok cfg) blob of
          Err e \<Rightarrow> (Err e, epa_kernel_set_status_text EPA_KERNEL_STATUS_ERROR e k0) | Ub \<Rightarrow> (Ub, k0)
        | Ok prog \<Rightarrow>
            let k1 = k\<lparr>k_prog := prog, k_loaded := True, k_local_uid := p_kernel_uid prog, k_pid := pid,
                       k_child := (pid \<noteq> 0)\<rparr>;
                ouid = (if pid \<noteq> 0 \<and> p_kernel_uid prog \<noteq> 0 \<and> override_uid = 0
                        then epa_kernel_namespace_uid pid (p_kernel_uid prog) else override_uid);
                (r, k2) = (if p_kernel_uid prog \<noteq> 0
                           then rc_register cfg (if ouid \<noteq> 0 then ouid else p_kernel_uid prog) k1
                           else (Ok (), k1))
            in case r of
                 Err e \<Rightarrow> (Err e, epa_kernel_set_status_text EPA_KERNEL_STATUS_ERROR e
                            (k2\<lparr>k_prog := program_zero, k_loaded := False\<rparr>))
               | Ub \<Rightarrow> (Ub, k2)
               | Ok _ \<Rightarrow>
                   (case init_workers_from_prog cfg k2 of
                      (Err e, k3) \<Rightarrow> (Err e, epa_kernel_set_status_text EPA_KERNEL_STATUS_ERROR e
                                     (k3\<lparr>k_prog := program_zero, k_loaded := False\<rparr>))
                    | (Ub, k3) \<Rightarrow> (Ub, k3)
                    | (Ok _, k3) \<Rightarrow> (Ok (), epa_kernel_set_status_text EPA_KERNEL_STATUS_LOADED []
                                     (kernel_refresh_worker_vm_identity k3))))"

definition epa_kernel_commit_pending_boot_reset :: "run_cfg \<Rightarrow> epa_kernel \<Rightarrow> unit kres" where
  "epa_kernel_commit_pending_boot_reset cfg k =
     (if \<not> k_reset_pending k then (Ok (), k)
      else case k_staged k of
        None \<Rightarrow> (Err ''boot reset: staged image disappeared'', k\<lparr>k_reset_pending := False\<rparr>)
      | Some img \<Rightarrow>
          if img = [] then (Err ''boot reset: staged image disappeared'', k\<lparr>k_reset_pending := False\<rparr>)
          else case epa_kernel_load_blob_internal cfg img 0 0 (k\<lparr>k_reset_pending := False\<rparr>) of
            (Err e, k1) \<Rightarrow> (Err e, k1) | (Ub, k1) \<Rightarrow> (Ub, k1)
          | (Ok _, k1) \<Rightarrow> (Ok (), k1\<lparr>k_staged := None, k_staged_flags := 0\<rparr>))"

section \<open>Asynchronous tasks\<close>

text \<open>The guard of 1000000 instructions. The kernel's backend is the null backend, which declines
  every opcode.\<close>

fun at_steps :: "(mach \<Rightarrow> flow_res) \<Rightarrow> u32 \<Rightarrow> nat \<Rightarrow> mach \<Rightarrow> unit kres" where
  "at_steps step wid 0 m = (Err ''cpu_at_dispatch: at_entry exceeded instruction guard'', m_k m)"
| "at_steps step wid (Suc n) m =
     (case step m of
        FlowErr e m1 \<Rightarrow> (Err e, kdbg_emit KDBG_EXCEPT (ucast wid) 0xFFFF0101 (Some (vm_eip (w_vm (m_at m1)))) e (m_k m1))
      | FlowOk m1 \<Rightarrow> (Ok (), m_k m1)
      | FlowNotFlow m1 \<Rightarrow> (Err ''cpu_at_dispatch: non-flow backend declined opcode'', m_k m1)
      | FlowYielded m1 \<Rightarrow> at_steps step wid n m1
      | FlowUndef \<Rightarrow> (Ub, m_k m))"

definition run_at_entry_thread ::
  "run_cfg \<Rightarrow> (epa_kernel \<Rightarrow> unit kres) \<Rightarrow> at_request \<Rightarrow> u32 \<Rightarrow> u32 \<Rightarrow> u32 \<Rightarrow> u32 \<Rightarrow> epa_kernel \<Rightarrow> unit kres" where
  "run_at_entry_thread cfg dispatch req thread_index thread_count ghs_lo ghs_hi k =
     (case epa_worker_init (rc_wm cfg) (ar_wid req) 0 0 1 1 0 of
        Inl (e, w) \<Rightarrow> (Err e, k)
      | Inr w \<Rightarrow>
          let atw = w\<lparr>w_vm := (w_vm w)\<lparr>vm_csc := [thread_index, ghs_lo, ghs_hi, thread_count],
                       vm_eip := \<lparr>eip_type = EPA_BLOCK_AT_ENTRY, eip_block = ucast (ucast (ar_index req) :: u16),
                                  eip_pc = 0\<rparr>\<rparr>\<rparr>
          in at_steps (\<lambda>m. epa_flow_step (kernel_env cfg dispatch (m_k m)) Detached m) (ar_wid req) 1000000
               \<lparr>m_k = k, m_at = atw\<rparr>)"

fun at_lane :: "(u32 \<Rightarrow> epa_kernel \<Rightarrow> unit kres) \<Rightarrow> nat \<Rightarrow> u32 \<Rightarrow> epa_kernel \<Rightarrow> unit kres" where
  "at_lane run 0 tid k = (Ok (), k)"
| "at_lane run (Suc n) tid k =
     (case run tid k of (Ok _, k1) \<Rightarrow> at_lane run n (tid + 1) k1 | (Err e, k1) \<Rightarrow> (Err e, k1) | (Ub, k1) \<Rightarrow> (Ub, k1))"

definition at_req_zero :: at_request where
  "at_req_zero = \<lparr>ar_id = 0, ar_wid = 0, ar_index = 0, ar_words = []\<rparr>"

definition pop_at_request :: "epa_kernel \<Rightarrow> (at_request \<times> epa_kernel) option" where
  "pop_at_request k = map_option (\<lambda>(req, q). (req, k\<lparr>k_atq := q\<rparr>)) (cq_pop (\<lambda>_. at_req_zero) (k_atq k))"

text \<open>One request. With one real thread its virtual threads run in order on the caller; otherwise
  the host's threads run the lanes.\<close>

definition at_request_one :: "run_cfg \<Rightarrow> (epa_kernel \<Rightarrow> unit kres) \<Rightarrow> at_request \<Rightarrow> epa_kernel \<Rightarrow> unit kres" where
  "at_request_one cfg dispatch req k =
     (let ws = ar_words req in
      if length ws < 8 then (Err ''cpu_at_dispatch: malformed descriptor'', k)
      else if ws ! 2 = 0 \<or> ws ! 4 < 2 then (Err ''cpu_at_dispatch: bad AT descriptor header'', k)
      else
        let requested = ws ! 2;
            real = (if ws ! 3 = 0 then 1 else ws ! 3);
            real = (if real > requested then requested else real);
            real = (if real > 1024 then 1024 else real);
            k1 = kdbg_emit KDBG_SIGNAL (ucast (ar_wid req)) (ucast (ar_id req)) None ''cpu_at_dispatch_begin'' k
        in case (if real = 1
                 then at_lane (\<lambda>tid. run_at_entry_thread cfg dispatch req tid requested (ws ! 6) (ws ! 7))
                        (unat requested) 0 k1
                 else rc_lanes cfg req (unat real) k1) of
             (Err e, k2) \<Rightarrow> (Err e, k2)
           | (Ub, k2) \<Rightarrow> (Ub, k2)
           | (Ok _, k2) \<Rightarrow> (Ok (), kdbg_emit KDBG_SIGNAL (ucast (ar_wid req)) (ucast (ar_id req)) None
                                    ''cpu_at_dispatch_end'' k2))"

text \<open>The dispatch loop; tasks may enqueue further requests, so it runs until the ring is empty.
  \<open>None\<close> is a loop that does not end.\<close>

partial_function (option) at_requests :: "(at_request \<Rightarrow> epa_kernel \<Rightarrow> unit kres) \<Rightarrow> epa_kernel \<Rightarrow> unit kres option" where
  "at_requests one k =
     (case pop_at_request k of
        None \<Rightarrow> Some (Ok (), k)
      | Some (req, k1) \<Rightarrow>
          (let (r, k2) = one req k1 in
           if r = Ok () then at_requests one k2 else Some (r, k2)))"

fun epa_kernel_dispatch_at_requests_cpu :: "run_cfg \<Rightarrow> nat \<Rightarrow> epa_kernel \<Rightarrow> unit kres" where
  "epa_kernel_dispatch_at_requests_cpu cfg 0 k = (Ub, k)"
| "epa_kernel_dispatch_at_requests_cpu cfg (Suc d) k =
     (case at_requests (at_request_one cfg (epa_kernel_dispatch_at_requests_cpu cfg d)) k of
        None \<Rightarrow> (Ub, k) | Some res \<Rightarrow> res)"

section \<open>The wave scheduler\<close>

definition worker_runnable :: "epa_worker \<Rightarrow> bool" where
  "worker_runnable w \<longleftrightarrow> w_inited w \<and> \<not> w_retired w \<and> \<not> w_halted w \<and> \<not> w_faulted w \<and> \<not> w_blocked w \<and> \<not> w_waiting w"

definition any_ignore_max_ticks_runnable :: "epa_kernel \<Rightarrow> bool" where
  "any_ignore_max_ticks_runnable k \<longleftrightarrow>
     list_ex (\<lambda>i. worker_runnable (k_workers k i) \<and> w_ignore_max_ticks (k_workers k i)) [0..<256]"

text \<open>The walk along the active list. A walk of more than 256 workers goes round a cycle: it does
  not end or overruns the array it fills.\<close>

fun active_walk :: "nat \<Rightarrow> epa_kernel \<Rightarrow> u32 \<Rightarrow> u32 list option" where
  "active_walk 0 k cur = (if cur \<ge> 256 then Some [] else None)"
| "active_walk (Suc n) k cur =
     (if cur \<ge> 256 then Some [] else map_option ((#) cur) (active_walk n k (k_next k (unat cur))))"

definition wave_order :: "epa_kernel \<Rightarrow> u32 list option" where
  "wave_order k = (if k_n k = 0 then Some [] else map_option (\<lambda>xs.
     filter (\<lambda>w. w \<ge> k_rr k) xs @ takeWhile (\<lambda>w. w < k_rr k) xs) (active_walk 256 k (k_head k)))"

datatype run_res = RunGo bool u32 epa_kernel | RunRet nat string epa_kernel | RunUb

text \<open>One worker's turn: \<open>RunGo any_ran ticks k\<close> goes on with the pass,
  \<open>RunRet rc err k\<close> leaves the scheduler.\<close>

definition wave_tick :: "run_cfg \<Rightarrow> (epa_kernel \<Rightarrow> unit kres) \<Rightarrow> bool \<Rightarrow> u32 \<Rightarrow> u32 \<Rightarrow> epa_kernel \<Rightarrow> run_res" where
  "wave_tick cfg dispatch any_ran ticks i k =
     (let w = k_workers k (unat i) in
      if \<not> worker_runnable w then RunGo any_ran ticks k
      else
        let k0 = k\<lparr>k_cur := i\<rparr>;
            ticks1 = (if w_ignore_max_ticks w then ticks else ticks + 1);
            nxt = k_next k (unat i);
            cursor = (if nxt \<ge> 256 then k_head k else nxt);
            res = epa_flow_step (kernel_env cfg dispatch k0) (InSlot (unat i)) \<lparr>m_k = k0, m_at = worker_zero\<rparr>;
            go = (\<lambda>k1. if k_interrupt k1 then RunRet 2 [] (k1\<lparr>k_rr := cursor, k_interrupt := False\<rparr>)
                       else RunGo True ticks1 k1);
            reset = (\<lambda>k1 c. if k_reset_pending k1 then
                       (case epa_kernel_commit_pending_boot_reset cfg k1 of
                          (Ok _, k2) \<Rightarrow> RunRet 2 [] k2 | (Err e, k2) \<Rightarrow> RunRet 0 e k2 | (Ub, k2) \<Rightarrow> RunUb)
                     else c)
        in case res of
             FlowUndef \<Rightarrow> RunUb
           | FlowErr e m \<Rightarrow> reset (m_k m)
               (let k1 = k_upd_w (unat i) (\<lambda>w. w\<lparr>w_faulted := True\<rparr>) (m_k m) in
                RunRet 0 e (kdbg_emit KDBG_EXCEPT (ucast i) 0xFFFF0002
                              (Some (vm_eip (w_vm (k_workers k1 (unat i))))) e k1))
           | FlowOk m \<Rightarrow> reset (m_k m)
               (let k1 = (k_upd_w (unat i) (\<lambda>w. w\<lparr>w_halted := True\<rparr>) (m_k m))\<lparr>k_rr := cursor\<rparr> in
                if i = 0 then RunRet 1 [] k1 else go k1)
           | FlowNotFlow m \<Rightarrow> reset (m_k m) (go (m_k m))
           | FlowYielded m \<Rightarrow> reset (m_k m) (go ((m_k m)\<lparr>k_rr := cursor\<rparr>)))"

fun wave_pass :: "run_cfg \<Rightarrow> (epa_kernel \<Rightarrow> unit kres) \<Rightarrow> u32 list \<Rightarrow> bool \<Rightarrow> u32 \<Rightarrow> epa_kernel \<Rightarrow> run_res" where
  "wave_pass cfg dispatch [] any_ran ticks k = RunGo any_ran ticks k"
| "wave_pass cfg dispatch (i # is) any_ran ticks k =
     (case wave_tick cfg dispatch any_ran ticks i k of
        RunGo r t k1 \<Rightarrow> wave_pass cfg dispatch is r t k1
      | RunRet rc e k1 \<Rightarrow> RunRet rc e k1
      | RunUb \<Rightarrow> RunUb)"

text \<open>The body of the scheduling loop and the loop; \<open>None\<close>: it does not end.\<close>

definition wave_round ::
  "run_cfg \<Rightarrow> (epa_kernel \<Rightarrow> unit kres) \<Rightarrow> u32 \<Rightarrow> bool \<Rightarrow> u32 \<Rightarrow> epa_kernel \<Rightarrow> run_res" where
  "wave_round cfg dispatch max_ticks debug ticks k =
     (if max_ticks \<noteq> 0 \<and> ticks \<ge> max_ticks \<and> \<not> any_ignore_max_ticks_runnable k then
        (if \<not> debug then
           RunRet 0 ''run: timeout after %u ticks''
             (kdbg_emit KDBG_EXCEPT 0 0xFFFF0001 (Some (vm_eip (w_vm (k_workers k 0)))) ''timeout'' k)
         else RunRet 0 ''run: step complete returning to host after %u ticks'' k)
      else case wave_order k of
        None \<Rightarrow> RunUb
      | Some order \<Rightarrow> wave_pass cfg dispatch order False ticks k)"

partial_function (option) wave_loop ::
  "run_cfg \<Rightarrow> (epa_kernel \<Rightarrow> unit kres) \<Rightarrow> u32 \<Rightarrow> bool \<Rightarrow> u32 \<Rightarrow> u64 \<Rightarrow> epa_kernel \<Rightarrow> run_res option" where
  "wave_loop cfg dispatch max_ticks debug ticks seen k =
     (case wave_round cfg dispatch max_ticks debug ticks k of
        RunUb \<Rightarrow> Some RunUb
      | RunRet rc e k1 \<Rightarrow> Some (RunRet rc e k1)
      | RunGo any_ran t k1 \<Rightarrow>
          (case epa_kernel_drain_ingress (pf_al (rc_pf cfg)) k1 of
             (Err e, k2) \<Rightarrow> Some (RunRet 0 e k2)
           | (Ub, k2) \<Rightarrow> Some RunUb
           | (Ok _, k2) \<Rightarrow>
               (if \<not> any_ran then Some (RunRet 1 [] k2)
                else if seen \<noteq> k_deliveries k2 then wave_loop cfg dispatch max_ticks debug 0 (k_deliveries k2) k2
                else wave_loop cfg dispatch max_ticks debug t seen k2)))"

definition wave_run ::
  "run_cfg \<Rightarrow> (epa_kernel \<Rightarrow> unit kres) \<Rightarrow> u32 \<Rightarrow> bool \<Rightarrow> epa_kernel \<Rightarrow> run_res option" where
  "wave_run cfg dispatch max_ticks debug k =
     (if \<not> k_loaded k then Some (RunRet 0 ''run: program not loaded'' k)
      else case epa_kernel_drain_ingress (pf_al (rc_pf cfg)) (k\<lparr>k_interrupt := False\<rparr>) of
        (Err e, k1) \<Rightarrow> Some (RunRet 0 e k1)
      | (Ub, k1) \<Rightarrow> Some RunUb
      | (Ok _, k1) \<Rightarrow> wave_loop cfg dispatch max_ticks debug 0 (k_deliveries k1) k1)"

end
