(* ===== verification/SchedDebug.thy ===== *)
theory SchedDebug
  imports KernelRun
begin

text \<open>
  The debug scheduler (\<open>src/epa_sched_debug.c\<close>): one pass over the active workers from the
  cursor on, each running one instruction, driven by the host.
\<close>

text \<open>The second walk, up to the worker the first one started at. The fuel is what is left of the
  array of 256 ids the code fills; running out of it is an overrun.\<close>

fun walk_below :: "nat \<Rightarrow> epa_kernel \<Rightarrow> u32 \<Rightarrow> u32 \<Rightarrow> u32 list option" where
  "walk_below 0 k start cur = (if cur < start \<and> cur < 256 then None else Some [])"
| "walk_below (Suc n) k start cur =
     (if cur < start \<and> cur < 256 then map_option ((#) cur) (walk_below n k start (k_next k (unat cur))) else Some [])"

definition debug_order :: "epa_kernel \<Rightarrow> u32 list option" where
  "debug_order k =
     (let start = (if k_rr k \<ge> 256 then k_head k else k_rr k) in
      case active_walk 256 k start of
        None \<Rightarrow> None
      | Some xs \<Rightarrow> map_option (\<lambda>ys. xs @ ys) (walk_below (256 - length xs) k start (k_head k)))"

text \<open>One turn; the rest of the pass is \<open>next\<close>.\<close>

definition debug_tick ::
  "run_cfg \<Rightarrow> (epa_kernel \<Rightarrow> unit kres) \<Rightarrow> u32 \<Rightarrow> u32 \<Rightarrow> epa_kernel \<Rightarrow> (bool \<Rightarrow> u32 \<Rightarrow> epa_kernel \<Rightarrow> run_res) \<Rightarrow> run_res" where
  "debug_tick cfg dispatch ticks i k next =
     (let k0 = k\<lparr>k_cur := i\<rparr>;
          nxt = k_next k (unat i);
          cursor = (if nxt \<ge> 256 then k_head k else nxt);
          res = epa_flow_step (kernel_env cfg dispatch k0) (InSlot (unat i)) \<lparr>m_k = k0, m_at = worker_zero\<rparr>;
          count = (\<lambda>m. if w_ignore_max_ticks (k_workers (m_k m) (unat i)) then ticks else ticks + 1);
          reset = (\<lambda>k1 c. if k_reset_pending k1 then
                     (case epa_kernel_commit_pending_boot_reset cfg k1 of
                        (Ok _, k2) \<Rightarrow> RunRet 2 [] k2 | (Err e, k2) \<Rightarrow> RunRet 0 e k2 | (Ub, k2) \<Rightarrow> RunUb)
                   else c)
      in case res of
           FlowUndef \<Rightarrow> RunUb
         | FlowErr e m \<Rightarrow> reset (m_k m)
             (let k1 = k_upd_w (unat i) (\<lambda>w. w\<lparr>w_faulted := True\<rparr>) (m_k m) in
              RunRet 0 e (kdbg_emit KDBG_EXCEPT (ucast i) 0xFFFF0002
                            (Some (vm_eip (w_vm (k_workers k1 (unat i))))) e k1))
         | FlowOk m \<Rightarrow> reset (m_k m)
             (let k1 = (k_upd_w (unat i) (\<lambda>w. w\<lparr>w_halted := True\<rparr>) (m_k m))\<lparr>k_rr := cursor\<rparr> in
              if i = 0 then RunRet 1 [] k1 else next True (count m) k1)
         | FlowNotFlow m \<Rightarrow> reset (m_k m) (next True (count m) ((m_k m)\<lparr>k_rr := cursor\<rparr>))
         | FlowYielded m \<Rightarrow> reset (m_k m) (next True (count m) ((m_k m)\<lparr>k_rr := cursor\<rparr>)))"

fun debug_pass ::
  "run_cfg \<Rightarrow> (epa_kernel \<Rightarrow> unit kres) \<Rightarrow> u32 \<Rightarrow> u32 list \<Rightarrow> bool \<Rightarrow> u32 \<Rightarrow> epa_kernel \<Rightarrow> run_res" where
  "debug_pass cfg dispatch max_ticks [] any_ran ticks k = RunGo any_ran ticks k"
| "debug_pass cfg dispatch max_ticks (i # is) any_ran ticks k =
     (if (max_ticks \<noteq> 0 \<and> ticks \<ge> max_ticks \<and> \<not> any_ignore_max_ticks_runnable k) \<or> k_interrupt k
      then RunGo any_ran ticks k
      else if \<not> worker_runnable (k_workers k (unat i)) then debug_pass cfg dispatch max_ticks is any_ran ticks k
      else debug_tick cfg dispatch ticks i k (debug_pass cfg dispatch max_ticks is))"

definition debug_run :: "run_cfg \<Rightarrow> (epa_kernel \<Rightarrow> unit kres) \<Rightarrow> u32 \<Rightarrow> epa_kernel \<Rightarrow> run_res" where
  "debug_run cfg dispatch max_ticks k =
     (if \<not> k_loaded k then RunRet 0 ''debug_sched: program not loaded'' k
      else case epa_kernel_drain_ingress (pf_al (rc_pf cfg)) k of
        (Err e, k1) \<Rightarrow> RunRet 0 e k1
      | (Ub, k1) \<Rightarrow> RunUb
      | (Ok _, k1) \<Rightarrow>
          let seen = k_deliveries k1; k2 = k1\<lparr>k_interrupt := False\<rparr> in
          case debug_order k2 of
            None \<Rightarrow> RunUb
          | Some order \<Rightarrow>
              (case debug_pass cfg dispatch max_ticks order False 0 k2 of
                 RunGo any_ran ticks k3 \<Rightarrow>
                   if \<not> any_ran then RunRet 1 [] k3
                   else (case epa_kernel_drain_ingress (pf_al (rc_pf cfg)) k3 of
                     (Err e, k4) \<Rightarrow> RunRet 0 e k4
                   | (Ub, k4) \<Rightarrow> RunUb
                   | (Ok _, k4) \<Rightarrow>
                       let t = (if seen \<noteq> k_deliveries k4 then 0 else ticks) in
                       if max_ticks \<noteq> 0 \<and> t \<ge> max_ticks \<and> \<not> any_ignore_max_ticks_runnable k4
                       then RunRet 0 ''run: step complete returning to host after %u ticks'' k4
                       else RunRet 1 [] k4)
               | res \<Rightarrow> res))"

end
