(* ===== verification/KernelLife.thy ===== *)
theory KernelLife
  imports SchedDebug
begin

text \<open>
  The life of a kernel (\<open>src/epa_kernel_so.c\<close>): creation, the choice of a scheduler, and the
  entry point of a run, which turns the scheduler's answer into the status the host sees.
\<close>

text \<open>The state after \<open>calloc\<close>; the sizes of the arrays are those of
  \<open>src/epa_kernel.h\<close>.\<close>

definition kernel_zero :: epa_kernel where
  "kernel_zero = \<lparr>k_syncq = ring_zero, k_workers = (\<lambda>_. worker_zero), k_cur = 0, k_rr = 0, k_n = 0, k_head = 0,
     k_next = (\<lambda>_. 0), k_priv_locked = False, k_ghs = \<lparr>g_live = 0, g_entries = []\<rparr>,
     k_rgm = \<lparr>rg_live = 0, rg_entries = []\<rparr>, k_pools = None, k_atq = cq_zero 64 at_req_zero, k_at_next = 0,
     k_memq = cq_zero 64 mem_req_zero, k_mem_next = 0, k_interrupt = False, k_deliveries = 0,
     k_ingress = (\<lambda>_. cq_zero 16 ingress_zero), k_prog = program_zero, k_loaded = False, k_uid = 0, k_local_uid = 0,
     k_pid = 0, k_child = False, k_acl = [], k_staged = None, k_staged_flags = 0, k_reset_pending = False,
     k_profile = EPA_SCHED_WAVE, k_last_signal = [], k_last_signal_len = 0, k_last_signal_wid = 0, k_id = None,
     k_status = EPA_KERNEL_STATUS_UNLOADED, k_error = [], k_events = []\<rparr>"

text \<open>Selecting a scheduler; \<open>cpu_init\<close> is the \<open>init\<close> entry of the thread
  scheduler, the other two have none. The thread scheduler's teardown leaves the kernel alone.\<close>

definition epa_kernel_set_scheduler :: "(epa_kernel \<Rightarrow> unit kres) \<Rightarrow> sched_profile \<Rightarrow> epa_kernel \<Rightarrow> unit kres" where
  "epa_kernel_set_scheduler cpu_init profile k =
     (let k1 = k\<lparr>k_profile := profile\<rparr> in
      case profile of EPA_SCHED_CPU_THREAD \<Rightarrow> cpu_init k1 | _ \<Rightarrow> (Ok (), k1))"

text \<open>The first four arguments are the answers of the allocations; \<open>rgm\<close> is the process's
  table of published blocks. The handle space that a failed creation leaves behind is not freed in the
  code when the handle space itself is missing.\<close>

definition epa_kernel_create :: "bool \<Rightarrow> bool \<Rightarrow> bool \<Rightarrow> epa_rgm option \<Rightarrow> epa_kernel option" where
  "epa_kernel_create ok ok_ring ok_ghs rgm =
     (if \<not> ok then None
      else case epa_ring_init ok_ring (k_syncq kernel_zero) 256 of
        (False, _) \<Rightarrow> None
      | (True, q) \<Rightarrow>
          (case epa_ghs_create ok_ghs 65536 of
             None \<Rightarrow> None
           | Some g \<Rightarrow>
               (case rgm of
                  None \<Rightarrow> None
                | Some t \<Rightarrow> Some (kernel_zero\<lparr>k_syncq := q, k_at_next := 1, k_mem_next := 1, k_ghs := g, k_rgm := t,
                              k_profile := EPA_SCHED_WAVE\<rparr>))))"

text \<open>\<open>epa_kernel_run\<close>: the return code, the message and the kernel. \<open>cpu_run\<close> is the
  thread scheduler. \<open>None\<close>: the scheduler does not return.\<close>

definition sched_run ::
  "run_cfg \<Rightarrow> (epa_kernel \<Rightarrow> unit kres) \<Rightarrow> (u32 \<Rightarrow> bool \<Rightarrow> epa_kernel \<Rightarrow> run_res option) \<Rightarrow> u32 \<Rightarrow> bool \<Rightarrow> epa_kernel \<Rightarrow> run_res option" where
  "sched_run cfg dispatch cpu_run max_ticks debug k =
     (case k_profile k of
        EPA_SCHED_WAVE \<Rightarrow> wave_run cfg dispatch max_ticks debug k
      | EPA_SCHED_DEBUG \<Rightarrow> Some (debug_run cfg dispatch max_ticks k)
      | EPA_SCHED_CPU_THREAD \<Rightarrow> cpu_run max_ticks debug k)"

definition run_status :: "nat \<Rightarrow> string \<Rightarrow> epa_kernel \<Rightarrow> epa_kernel" where
  "run_status rc e k =
     (if k_status k = EPA_KERNEL_STATUS_UNLOADED then k
      else if rc = 1 then
        (if w_faulted (k_workers k 0) then epa_kernel_set_status_text EPA_KERNEL_STATUS_FAULTED e k
         else epa_kernel_set_status_text EPA_KERNEL_STATUS_HALTED [] k)
      else if rc = 2 then epa_kernel_set_status_text EPA_KERNEL_STATUS_STOPPED [] k
      else if w_faulted (k_workers k 0) then epa_kernel_set_status_text EPA_KERNEL_STATUS_FAULTED e k
      else epa_kernel_set_status_text EPA_KERNEL_STATUS_ERROR e k)"

definition epa_kernel_run ::
  "run_cfg \<Rightarrow> (epa_kernel \<Rightarrow> unit kres) \<Rightarrow> (u32 \<Rightarrow> bool \<Rightarrow> epa_kernel \<Rightarrow> run_res option) \<Rightarrow> u32 \<Rightarrow> bool \<Rightarrow> epa_kernel \<Rightarrow> run_res option" where
  "epa_kernel_run cfg dispatch cpu_run max_ticks debug k =
     (if k_status k = EPA_KERNEL_STATUS_UNLOADED then Some (RunRet 1 [] k)
      else case sched_run cfg dispatch cpu_run max_ticks debug
                  (epa_kernel_set_status_only EPA_KERNEL_STATUS_RUNNING k) of
        Some (RunRet rc e k1) \<Rightarrow> Some (RunRet rc e (run_status rc e k1))
      | res \<Rightarrow> res)"

text \<open>Adding threads is for the thread scheduler only.\<close>

definition epa_kernel_worker_count :: "epa_kernel \<Rightarrow> u32" where
  "epa_kernel_worker_count k = k_n k"

end
