(* ===== verification/KernelRunInv.thy ===== *)
theory KernelRunInv
  imports FlowInv KernelLife
begin

text \<open>
  The invariant at the level of a run: the standard hooks, asynchronous tasks at any depth, loading
  a program and the wave scheduler keep every kernel well formed, whatever they return.
\<close>

section \<open>Configurations\<close>

text \<open>Well-formedness of a kernel, the capacities of the stacks left open.\<close>

definition kernel_ok :: "epa_kernel \<Rightarrow> bool" where
  "kernel_ok k \<longleftrightarrow> (\<forall>i. worker_wf (k_workers k i)) \<and> ring_inv (k_syncq k) \<and> ghs_wf (k_ghs k)
     \<and> rgm_wf (k_rgm k) \<and> pred_option (list_all dyn_ok) (k_pools k)
     \<and> cq_inv (k_atq k) \<and> cq_inv (k_memq k) \<and> (\<forall>i. cq_inv (k_ingress k i))"

definition stack_caps :: "epa_kernel \<Rightarrow> wref \<Rightarrow> nat" where
  "stack_caps k r = (case r of InSlot i \<Rightarrow> scap (w_vm (k_workers k i)) | Detached \<Rightarrow> scap (w_vm worker_zero))"

lemma kernel_ok_wf: "kernel_ok k \<Longrightarrow> kernel_wf (stack_caps k) k"
  by (simp add: kernel_ok_def kernel_wf_def worker_inv_def stack_caps_def)

lemma kernel_wf_ok: "kernel_wf C k \<Longrightarrow> kernel_ok k"
  by (simp add: kernel_ok_def kernel_wf_def worker_inv_def)

definition outer_ok :: "outer \<Rightarrow> bool" where
  "outer_ok ou \<longleftrightarrow> (\<forall>a. keeps (ou_kernel_retire ou a)) \<and> (\<forall>a b c d. keeps (ou_acl_grant ou a b c d))
     \<and> (\<forall>a b c d. keeps (ou_acl_revoke ou a b c d)) \<and> (\<forall>a b c. keeps (ou_acl_revoke_all ou a b c))
     \<and> (\<forall>a b. keeps (ou_pid_retire ou a b)) \<and> (\<forall>a. keeps (ou_far_signal ou a))
     \<and> (\<forall>a b c d. keeps (ou_dynlib_import ou a b c d)) \<and> (\<forall>a b c d. keeps (ou_process_spawn ou a b c d))"

text \<open>What a run relies on: allocators return blocks of the size asked for, the stack of a new
  worker is allocated (\<open>epa_stack_init\<close> does not check), and the code behind the parameters
  keeps the invariant.\<close>

definition cfg_ok :: "run_cfg \<Rightarrow> bool" where
  "cfg_ok cfg \<longleftrightarrow> platform_ok (rc_pf cfg) \<and> outer_ok (rc_outer cfg) \<and> (\<forall>u. keeps (rc_register cfg u))
     \<and> (\<forall>req n. keeps (rc_lanes cfg req n)) \<and> wm_stack (rc_wm cfg) \<and> alloc_ok (wm_al (rc_wm cfg))"

lemma cfg_alloc: "cfg_ok cfg \<Longrightarrow> alloc_ok (pf_al (rc_pf cfg))"
  by (simp add: cfg_ok_def platform_ok_def)

lemma standard_hooks_ok:
  assumes "platform_ok pf" and "outer_ok ou" and "keeps dispatch"
  shows "hooks_ok (kernel_install_standard_hooks pf ou dispatch)"
  using assms
  by (simp add: hooks_ok_def kernel_install_standard_hooks_def outer_ok_def flag_hooks_keep retire_keeps sync_keeps
      wait_on_sync_keeps signal_keeps host_signal_keeps threads_keeps request_at_keeps request_pool_keeps
      platform_ok_def)

lemma kernel_env_ok: "cfg_ok cfg \<Longrightarrow> keeps dispatch \<Longrightarrow> env_ok (kernel_env cfg dispatch k)"
  by (simp add: env_ok_def kernel_env_def standard_hooks_ok cfg_ok_def platform_ok_def)

section \<open>Asynchronous tasks\<close>

lemma vm_wf_zero: "vm_wf vm_zero"
  by (simp add: vm_wf_def vm_zero_def vm_arena_def stack_wf_def stack_zero_def)

lemma worker_zero_wf: "worker_wf worker_zero"
  by (simp add: worker_wf_def worker_zero_def ring_inv_zero vm_wf_zero pools_wf_def)

lemma worker_init_vm:
  assumes "alloc_ok (wm_al wm)" and "wm_stack wm"
  shows "vm_wf ((snd (epa_vm_init (wm_stack wm) (wm_al wm)))\<lparr>vm_lcap := 64 * 1024, vm_lbytes := wm_al wm (64 * 1024), vm_ltop := 0\<rparr>)"
  using assms alloc_okD [OF assms(1), of "64 * 1024"]
  by (auto simp: epa_vm_init_def epa_vm_init_with_lbytes_def epa_vm_reset_def vm_wf_def vm_arena_def stack_wf_init
      stack_wf_def stack_zero_def vm_zero_def Let_def pred_option_def epa_stack_init_def split: option.splits)

lemma ring_init_inv: "epa_ring_init ok r cap = (b, r') \<Longrightarrow> ring_inv r \<Longrightarrow> ring_inv r'"
  using ring_inv_init [of ok r cap r'] by (auto simp: epa_ring_init_def ring_inv_zero split: if_splits)

lemma worker_init_wf:
  assumes "alloc_ok (wm_al wm)" and "wm_stack wm"
  shows "(case epa_worker_init wm b s e i out mb of Inl (msg, w) \<Rightarrow> worker_wf w | Inr w \<Rightarrow> worker_wf w \<and> w_inited w)"
proof -
  note vm = worker_init_vm [OF assms]
  have z: "w_inq worker_zero = ring_zero" "w_outq worker_zero = ring_zero" "w_pools worker_zero = PoolsNull"
    by (simp_all add: worker_zero_def)
  show ?thesis
    using vm
    by (auto simp: epa_worker_init_def Let_def z worker_wf_def pools_wf_def epa_ring_free_def ring_inv_zero
        split: prod.split dest!: ring_init_inv [OF _ ring_inv_zero])
qed

lemma kernel_wf_detached [simp]: "kernel_wf (C(Detached := x)) k = kernel_wf C k"
  by (simp add: kernel_wf_def)

lemma at_steps_wf:
  assumes "\<And>m. mach_wf C m \<Longrightarrow> pred_option (mach_wf C) (flow_mach (step m))"
  shows "mach_wf C m \<Longrightarrow> kernel_wf C (snd (at_steps step wid n m))"
proof (induction n arbitrary: m)
  case (Suc n)
  from assms [OF Suc.prems] Suc.IH Suc.prems show ?case by (cases "step m") (simp_all add: mach_wf_def)
qed (simp add: mach_wf_def)

lemma at_thread_keeps:
  assumes cfg: "cfg_ok cfg" and d: "keeps dispatch"
  shows "keeps (run_at_entry_thread cfg dispatch req i n lo hi)"
proof (rule keepsI)
  fix C k assume k: "kernel_wf C k"
  show "kernel_wf C (snd (run_at_entry_thread cfg dispatch req i n lo hi k))"
  proof (cases "epa_worker_init (rc_wm cfg) (ar_wid req) 0 0 1 1 0")
    case (Inr w)
    let ?w = "w\<lparr>w_vm := (w_vm w)\<lparr>vm_csc := [i, lo, hi, n],
                       vm_eip := \<lparr>eip_type = EPA_BLOCK_AT_ENTRY, eip_block = ucast (ucast (ar_index req) :: u16),
                                  eip_pc = 0\<rparr>\<rparr>\<rparr>"
    let ?C = "C(Detached := scap (w_vm ?w))"
    have "worker_wf w" using worker_init_wf [of "rc_wm cfg" "ar_wid req" 0 0 1 1 0] cfg Inr by (simp add: cfg_ok_def)
    then have "worker_inv (?C Detached) ?w" by (simp add: worker_inv_def worker_wf_def vm_wf_def vm_arena_def)
    then have "mach_wf ?C \<lparr>m_k = k, m_at = ?w\<rparr>" using k by (simp add: mach_wf_def del: fun_upd_apply)
    from at_steps_wf [OF flow_step_wf [OF kernel_env_ok [OF cfg d]] this]
    show ?thesis by (simp add: run_at_entry_thread_def Inr Let_def)
  qed (auto simp: run_at_entry_thread_def k)
qed

lemma at_lane_keeps: "(\<And>tid. keeps (run tid)) \<Longrightarrow> keeps (at_lane run n tid)"
proof (induction n arbitrary: tid)
  case (Suc n)
  show ?case
  proof (rule keepsI)
    fix C k assume k: "kernel_wf C k"
    obtain r k1 where r: "run tid k = (r, k1)" by force
    have "kernel_wf C k1" using keepsD [OF Suc.prems k r] .
    with Suc.IH [OF Suc.prems] r show "kernel_wf C (snd (at_lane run (Suc n) tid k))"
      by (auto simp: keeps_def split: res.split)
  qed
qed (simp add: keeps_def)

lemma snd_if: "(c \<Longrightarrow> kernel_wf C (snd x)) \<Longrightarrow> (\<not> c \<Longrightarrow> kernel_wf C (snd y)) \<Longrightarrow> kernel_wf C (snd (if c then x else y))"
  by simp

lemma at_request_keeps:
  assumes cfg: "cfg_ok cfg" and d: "keeps dispatch"
  shows "keeps (at_request_one cfg dispatch req)"
proof (rule keepsI)
  fix C k assume k: "kernel_wf C k"
  have lane: "kernel_wf C (snd (at_lane (\<lambda>tid. run_at_entry_thread cfg dispatch req tid n lo hi) m t (kdbg_emit a b c x y k)))"
    for n lo hi m t a b c x y
    using at_lane_keeps [OF at_thread_keeps [OF cfg d]] k by (simp add: keeps_def)
  have lanes: "kernel_wf C (snd (rc_lanes cfg req n (kdbg_emit a b c x y k)))" for n a b c x y
    using cfg k by (simp add: cfg_ok_def keeps_def)
  have fin: "kernel_wf C (snd (case x of (Err e, k2) \<Rightarrow> (Err e, k2) | (Ub, k2) \<Rightarrow> (Ub, k2)
      | (Ok _, k2) \<Rightarrow> (Ok (), kdbg_emit a b c y z k2)))"
    if "kernel_wf C (snd x)" for x :: "(string, 'a) res \<times> epa_kernel" and a b c y z
    using that by (cases x; cases "fst x") auto
  show "kernel_wf C (snd (at_request_one cfg dispatch req k))"
    unfolding at_request_one_def Let_def by (intro snd_if fin lane lanes; simp add: k)
qed

lemma at_requests_wf:
  "at_requests one k = Some res \<Longrightarrow> (\<forall>req. keeps (one req)) \<longrightarrow> kernel_wf C k \<longrightarrow> kernel_wf C (snd res)"
proof (erule at_requests.raw_induct [where P = "\<lambda>one k res. (\<forall>req. keeps (one req)) \<longrightarrow> kernel_wf C k \<longrightarrow> kernel_wf C (snd res)", rotated])
  fix f and one :: "at_request \<Rightarrow> epa_kernel \<Rightarrow> unit kres" and k res
  assume IH: "\<And>one k res. f one k = Some res \<Longrightarrow> (\<forall>req. keeps (one req)) \<longrightarrow> kernel_wf C k \<longrightarrow> kernel_wf C (snd res)"
    and run: "(case pop_at_request k of None \<Rightarrow> Some (Ok (), k)
       | Some (req, k1) \<Rightarrow> let (r, k2) = one req k1 in if r = Ok () then f one k2 else Some (r, k2)) = Some res"
  show "(\<forall>req. keeps (one req)) \<longrightarrow> kernel_wf C k \<longrightarrow> kernel_wf C (snd res)"
  proof (intro impI)
    assume one: "\<forall>req. keeps (one req)" and k: "kernel_wf C k"
    show "kernel_wf C (snd res)"
    proof (cases "pop_at_request k")
      case (Some a)
      obtain req k1 where a: "a = (req, k1)" by (cases a)
      obtain r k2 where r: "one req k1 = (r, k2)" by force
      have "kernel_wf C k1"
        using Some a cq_pop_inv [OF kernel_wf_parts(4) [OF k]] k
        by (auto simp: pop_at_request_def intro!: kernel_wf_queues)
      then have k2: "kernel_wf C k2" using one keepsD [of "one req" C k1] r by blast
      show ?thesis
      proof (cases "r = Ok ()")
        case True
        with run Some a r have "f one k2 = Some res" by simp
        with IH one k2 show ?thesis by blast
      qed (use run Some a r k2 in auto)
    qed (use run k in auto)
  qed
qed

lemma dispatch_keeps: "cfg_ok cfg \<Longrightarrow> keeps (epa_kernel_dispatch_at_requests_cpu cfg d)"
proof (induction d)
  case (Suc d)
  show ?case
  proof (rule keepsI)
    fix C k assume "kernel_wf C k"
    with at_requests_wf [of "at_request_one cfg (epa_kernel_dispatch_at_requests_cpu cfg d)" k _ C]
      at_request_keeps [OF Suc.prems Suc.IH [OF Suc.prems]]
    show "kernel_wf C (snd (epa_kernel_dispatch_at_requests_cpu cfg (Suc d) k))" by (simp split: option.split)
  qed
qed (simp add: keeps_def)


section \<open>Loading\<close>

lemma keeps_ok: "keeps f \<Longrightarrow> kernel_ok k \<Longrightarrow> kernel_ok (snd (f k))"
  unfolding keeps_def by (blast dest: kernel_ok_wf intro: kernel_wf_ok)

lemma kernel_ok_frame [simp]:
  "kernel_ok (k\<lparr>k_cur := c\<rparr>) = kernel_ok k" "kernel_ok (k\<lparr>k_rr := c\<rparr>) = kernel_ok k"
  "kernel_ok (k\<lparr>k_n := c\<rparr>) = kernel_ok k" "kernel_ok (k\<lparr>k_head := c\<rparr>) = kernel_ok k"
  "kernel_ok (k\<lparr>k_next := nx\<rparr>) = kernel_ok k" "kernel_ok (k\<lparr>k_prog := p\<rparr>) = kernel_ok k"
  "kernel_ok (k\<lparr>k_loaded := b\<rparr>) = kernel_ok k" "kernel_ok (k\<lparr>k_local_uid := u\<rparr>) = kernel_ok k"
  "kernel_ok (k\<lparr>k_pid := c\<rparr>) = kernel_ok k" "kernel_ok (k\<lparr>k_child := b\<rparr>) = kernel_ok k"
  "kernel_ok (k\<lparr>k_staged := st\<rparr>) = kernel_ok k" "kernel_ok (k\<lparr>k_staged_flags := c\<rparr>) = kernel_ok k"
  "kernel_ok (k\<lparr>k_reset_pending := b\<rparr>) = kernel_ok k" "kernel_ok (k\<lparr>k_interrupt := b\<rparr>) = kernel_ok k"
  "kernel_ok (k\<lparr>k_priv_locked := b\<rparr>) = kernel_ok k" "kernel_ok (kdbg_emit kind wid c at msg k) = kernel_ok k"
  "kernel_ok (epa_kernel_set_status_text sst msg k) = kernel_ok k" "kernel_ok (epa_kernel_set_status_only sst k) = kernel_ok k"
  "kernel_ok (k\<lparr>k_profile := pr\<rparr>) = kernel_ok k"
  by (simp_all add: kernel_ok_def kdbg_emit_def epa_kernel_set_status_text_def epa_kernel_set_status_only_def)

lemma kernel_ok_put_w: "kernel_ok k \<Longrightarrow> worker_wf w \<Longrightarrow> kernel_ok (k_upd_w i (\<lambda>_. w) k)"
  by (simp add: kernel_ok_def k_upd_w_def)

lemma init_entry_ok:
  assumes cfg: "cfg_ok cfg" and k: "kernel_ok k"
  shows "kernel_ok (snd (init_entry cfg i prev k))"
proof -
  let ?x = "epa_worker_init (rc_wm cfg) (of_nat i) 0 (of_nat (length (cv_code (p_entries (k_prog k) i))))
             (ucast (p_in_words (k_prog k) i)) (ucast (p_out_words (k_prog k) i)) (p_mailbox (k_prog k) i)"
  have w: "case ?x of Inl (msg, w) \<Rightarrow> worker_wf w | Inr w \<Rightarrow> worker_wf w \<and> w_inited w"
    using cfg by (intro worker_init_wf) (simp_all add: cfg_ok_def)
  show ?thesis
  proof (cases ?x)
    case (Inr w0)
    then have "worker_wf w0" using w by simp
    then have "worker_wf (w0\<lparr>w_privilege := p, w_ignore_max_ticks := b, w_pools := PoolsShared, w_pool_count := n,
        w_halted := h, w_blocked := bl, w_vm := (w_vm w0)\<lparr>vm_eip := e\<rparr>\<rparr>)" for p b n h bl e
      by (simp add: worker_wf_def pools_wf_def vm_wf_def vm_arena_def)
    with Inr w k show ?thesis
      by (auto simp: init_entry_def Let_def epa_worker_attach_dynamic_pools_def worker_free_dynamic_pools_def
          intro!: kernel_ok_put_w)
  qed (use w k in \<open>auto simp: init_entry_def Let_def intro!: kernel_ok_put_w\<close>)
qed

lemma init_entries_ok: "cfg_ok cfg \<Longrightarrow> kernel_ok k \<Longrightarrow> kernel_ok (snd (init_entries cfg is prev k))"
proof (induction "is" arbitrary: prev k)
  case (Cons i "is")
  obtain r k1 where r: "init_entry cfg i prev k = (r, k1)" by force
  have "kernel_ok k1" using init_entry_ok [OF Cons.prems, of i prev] r by simp
  with Cons.IH [OF Cons.prems(1)] Cons.prems r show ?case by (simp split: res.split)
qed simp

lemma init_pools_ok: "init_pools cs = Ok ps \<Longrightarrow> list_all dyn_ok ps"
  by (induction cs arbitrary: ps) (auto split: res.splits dest: dyn_init_ok)

lemma init_workers_ok:
  assumes cfg: "cfg_ok cfg" and k: "kernel_ok k"
  shows "kernel_ok (snd (init_workers_from_prog cfg k))"
proof -
  define k1 where "k1 = k\<lparr>k_workers := (\<lambda>i. if i < 256 then worker_zero else k_workers k i), k_next := (\<lambda>_. 256),
               k_pools := None, k_n := 0, k_head := 256, k_priv_locked := False\<rparr>"
  define cs where "cs = pool_configs (k_prog k)"
  define x where "x = (if cs = [] then Ok None else map_res id Some (init_pools cs))"
  have k1: "kernel_ok k1" using k worker_zero_wf by (simp add: kernel_ok_def k1_def)
  have ent: "kernel_ok (snd (init_entries cfg is prev (k1\<lparr>k_pools := ps\<rparr>)))" if "x = Ok ps" for ps "is" prev
    using that k1 by (intro init_entries_ok [OF cfg])
      (auto simp: x_def map_res_eq_Ok kernel_ok_def dest: init_pools_ok split: if_splits)
  have ini: "kernel_ok (snd (case y of (Ok _, k2) \<Rightarrow>
      if \<not> w_inited (k_workers k2 0) then (Err ''no entry 0 (kernel) found'', k2) else (Ok (), k2)
      | (Err e, k2) \<Rightarrow> (Err e, k2) | (Ub, k2) \<Rightarrow> (Ub, k2)))" if "kernel_ok (snd y)" for y :: "unit kres"
    using that by (cases y; cases "fst y") auto
  show ?thesis
    unfolding init_workers_from_prog_def Let_def k1_def [symmetric] cs_def [symmetric] x_def [symmetric]
    using k1 ent ini by (auto split: res.split)
qed

lemma refresh_ok: "kernel_ok k \<Longrightarrow> kernel_ok (kernel_refresh_worker_vm_identity k)"
  by (simp add: kernel_ok_def kernel_refresh_worker_vm_identity_def worker_wf_def)

lemma load_ok:
  assumes cfg: "cfg_ok cfg" and k: "kernel_ok k"
  shows "kernel_ok (snd (epa_kernel_load_blob_internal cfg blob pid ouid k))"
proof -
  have reg: "kernel_ok k'" if "(if c then rc_register cfg u k1 else (Ok (), k1)) = (r, k')" "kernel_ok k1" for c u k1 r k'
    using that cfg keeps_ok [of "rc_register cfg u" k1] by (auto simp: cfg_ok_def split: if_splits)
  have ini: "kernel_ok k'" if "init_workers_from_prog cfg k1 = (r, k')" "kernel_ok k1" for k1 r k'
    using that init_workers_ok [OF cfg that(2)] by simp
  show ?thesis
  proof (cases "blob = [] \<or> \<not> rc_ok cfg (length blob)")
    case False
    show ?thesis
    proof (cases "epa_program_parse (rc_ok cfg) blob")
      case (Ok prog)
      define k1 where "k1 = k\<lparr>k_prog := prog, k_loaded := True, k_local_uid := p_kernel_uid prog, k_pid := pid, k_child := (pid \<noteq> 0)\<rparr>"
      define u where "u = (if pid \<noteq> 0 \<and> p_kernel_uid prog \<noteq> 0 \<and> ouid = 0 then epa_kernel_namespace_uid pid (p_kernel_uid prog) else ouid)"
      obtain r k2 where r: "(if p_kernel_uid prog \<noteq> 0 then rc_register cfg (if u \<noteq> 0 then u else p_kernel_uid prog) k1
          else (Ok (), k1)) = (r, k2)" by force
      have k2: "kernel_ok k2" using reg [OF r] k by (simp add: k1_def)
      obtain r3 k3 where r3: "init_workers_from_prog cfg k2 = (r3, k3)" by force
      have k3: "kernel_ok k3" using ini [OF r3 k2] .
      show ?thesis
        unfolding epa_kernel_load_blob_internal_def Let_def Ok res.case k1_def [symmetric] u_def [symmetric] r r3 prod.case
        using k k2 k3 by (simp add: refresh_ok split: res.split)
    qed (use False k in \<open>simp_all add: epa_kernel_load_blob_internal_def Let_def\<close>)
  qed (use k in \<open>auto simp: epa_kernel_load_blob_internal_def\<close>)
qed

lemma commit_ok: "cfg_ok cfg \<Longrightarrow> kernel_ok k \<Longrightarrow> kernel_ok (snd (epa_kernel_commit_pending_boot_reset cfg k))"
  using load_ok [of cfg "k\<lparr>k_reset_pending := False\<rparr>" "the (k_staged k)" 0 0]
  by (auto simp: epa_kernel_commit_pending_boot_reset_def split: option.split prod.split res.split)

section \<open>The wave scheduler\<close>

fun run_kernel :: "run_res \<Rightarrow> epa_kernel option" where
  "run_kernel (RunGo a t k) = Some k"
| "run_kernel (RunRet rc e k) = Some k"
| "run_kernel RunUb = None"


text \<open>What both schedulers do around a step.\<close>

lemma run_step_ok:
  assumes cfg: "cfg_ok cfg" and d: "keeps dispatch" and k: "kernel_ok k"
  shows "pred_option (\<lambda>m. kernel_ok (m_k m)) (flow_mach (epa_flow_step (kernel_env cfg dispatch k') r \<lparr>m_k = k, m_at = worker_zero\<rparr>))"
proof -
  have "mach_wf (stack_caps k) \<lparr>m_k = k, m_at = worker_zero\<rparr>"
    using kernel_ok_wf [OF k] worker_zero_wf by (simp add: mach_wf_def worker_inv_def stack_caps_def)
  from flow_step_wf [OF kernel_env_ok [OF cfg d, of k'] this, of r]
  show ?thesis by (auto simp: pred_option_def mach_wf_def intro: kernel_wf_ok)
qed

definition boot_reset :: "run_cfg \<Rightarrow> epa_kernel \<Rightarrow> run_res \<Rightarrow> run_res" where
  "boot_reset cfg k1 c = (if k_reset_pending k1 then
      (case epa_kernel_commit_pending_boot_reset cfg k1 of
         (Ok _, k2) \<Rightarrow> RunRet 2 [] k2 | (Err e, k2) \<Rightarrow> RunRet 0 e k2 | (Ub, k2) \<Rightarrow> RunUb) else c)"

lemma boot_reset_ok:
  "cfg_ok cfg \<Longrightarrow> kernel_ok k1 \<Longrightarrow> pred_option kernel_ok (run_kernel c) \<Longrightarrow> pred_option kernel_ok (run_kernel (boot_reset cfg k1 c))"
  using commit_ok [of cfg k1] unfolding boot_reset_def by (auto split: prod.split res.split)

lemma stop_worker_ok:
  "kernel_ok k \<Longrightarrow> kernel_ok (k_upd_w j (\<lambda>w. w\<lparr>w_faulted := True\<rparr>) k)"
  "kernel_ok k \<Longrightarrow> kernel_ok (k_upd_w j (\<lambda>w. w\<lparr>w_halted := True\<rparr>) k)"
  by (simp_all add: kernel_ok_def k_upd_w_def worker_wf_def)

lemma wave_tick_ok:
  assumes cfg: "cfg_ok cfg" and d: "keeps dispatch" and k: "kernel_ok k"
  shows "pred_option kernel_ok (run_kernel (wave_tick cfg dispatch any_ran ticks i k))"
proof (cases "worker_runnable (k_workers k (unat i))")
  case True
  let ?k0 = "k\<lparr>k_cur := i\<rparr>"
  let ?w = "k_workers k (unat i)"
  let ?cursor = "if k_next k (unat i) \<ge> 256 then k_head k else k_next k (unat i)"
  let ?res = "epa_flow_step (kernel_env cfg dispatch ?k0) (InSlot (unat i)) \<lparr>m_k = ?k0, m_at = worker_zero\<rparr>"
  define go where "go k1 = (if k_interrupt k1 then RunRet 2 [] (k1\<lparr>k_rr := ?cursor, k_interrupt := False\<rparr>)
      else RunGo True (if w_ignore_max_ticks ?w then ticks else ticks + 1) k1)" for k1
  have go: "pred_option kernel_ok (run_kernel (go k1))" if "kernel_ok k1" for k1
    using that by (simp add: go_def)
  have m: "pred_option (\<lambda>m. kernel_ok (m_k m)) (flow_mach ?res)"
    by (rule run_step_ok [OF cfg d]) (simp add: k)
  have eq: "wave_tick cfg dispatch any_ran ticks i k =
    (case ?res of
       FlowUndef \<Rightarrow> RunUb
     | FlowErr e m \<Rightarrow> boot_reset cfg (m_k m)
         (let k1 = k_upd_w (unat i) (\<lambda>w. w\<lparr>w_faulted := True\<rparr>) (m_k m) in
          RunRet 0 e (kdbg_emit KDBG_EXCEPT (ucast i) 0xFFFF0002 (Some (vm_eip (w_vm (k_workers k1 (unat i))))) e k1))
     | FlowOk m \<Rightarrow> boot_reset cfg (m_k m)
         (let k1 = (k_upd_w (unat i) (\<lambda>w. w\<lparr>w_halted := True\<rparr>) (m_k m))\<lparr>k_rr := ?cursor\<rparr> in
          if i = 0 then RunRet 1 [] k1 else go k1)
     | FlowNotFlow m \<Rightarrow> boot_reset cfg (m_k m) (go (m_k m))
     | FlowYielded m \<Rightarrow> boot_reset cfg (m_k m) (go ((m_k m)\<lparr>k_rr := ?cursor\<rparr>)))"
    unfolding wave_tick_def Let_def boot_reset_def go_def using True by (simp split del: if_split)
  show ?thesis
    unfolding eq using m by (cases ?res) (auto simp: Let_def intro!: boot_reset_ok [OF cfg] go stop_worker_ok)
qed (simp add: wave_tick_def k)

lemma wave_pass_ok:
  assumes "cfg_ok cfg" and "keeps dispatch"
  shows "kernel_ok k \<Longrightarrow> pred_option kernel_ok (run_kernel (wave_pass cfg dispatch is r t k))"
proof (induction "is" arbitrary: r t k)
  case (Cons i "is")
  from wave_tick_ok [OF assms Cons.prems, of r t i] Cons.IH show ?case
    by (cases "wave_tick cfg dispatch r t i k") simp_all
qed simp

lemma wave_round_ok:
  assumes "cfg_ok cfg" and "keeps dispatch" and "kernel_ok k"
  shows "pred_option kernel_ok (run_kernel (wave_round cfg dispatch mt dbg ticks k))"
  using assms wave_pass_ok [OF assms] by (simp add: wave_round_def split: option.split)

lemma drain_ok: "cfg_ok cfg \<Longrightarrow> kernel_ok k \<Longrightarrow> kernel_ok (snd (epa_kernel_drain_ingress (pf_al (rc_pf cfg)) k))"
  by (intro keeps_ok drain_ingress_keeps cfg_alloc)


lemma wave_loop_ok:
  "wave_loop cfg dispatch mt dbg ticks seen k = Some r \<Longrightarrow>
    cfg_ok cfg \<longrightarrow> keeps dispatch \<longrightarrow> kernel_ok k \<longrightarrow> pred_option kernel_ok (run_kernel r)"
proof (erule wave_loop.raw_induct [where P = "\<lambda>cfg dispatch mt dbg ticks seen k r.
    cfg_ok cfg \<longrightarrow> keeps dispatch \<longrightarrow> kernel_ok k \<longrightarrow> pred_option kernel_ok (run_kernel r)", rotated])
  fix f and cfg :: run_cfg and dispatch :: "epa_kernel \<Rightarrow> unit kres" and mt :: u32 and dbg :: bool and ticks :: u32
    and seen :: u64 and k r
  assume IH: "\<And>cfg dispatch mt dbg ticks seen k r. f cfg dispatch mt dbg ticks seen k = Some r \<Longrightarrow>
      cfg_ok cfg \<longrightarrow> keeps dispatch \<longrightarrow> kernel_ok k \<longrightarrow> pred_option kernel_ok (run_kernel r)"
    and run: "(case wave_round cfg dispatch mt dbg ticks k of
        RunGo any_ran t k1 \<Rightarrow>
          (case epa_kernel_drain_ingress (pf_al (rc_pf cfg)) k1 of
             (Ok x, k2) \<Rightarrow> (if \<not> any_ran then Some (RunRet 1 [] k2)
                else if seen \<noteq> k_deliveries k2 then f cfg dispatch mt dbg 0 (k_deliveries k2) k2
                else f cfg dispatch mt dbg t seen k2)
           | (Err e, k2) \<Rightarrow> Some (RunRet 0 e k2)
           | (Ub, k2) \<Rightarrow> Some RunUb)
      | RunRet rc e k1 \<Rightarrow> Some (RunRet rc e k1)
      | RunUb \<Rightarrow> Some RunUb) = Some r"
  show "cfg_ok cfg \<longrightarrow> keeps dispatch \<longrightarrow> kernel_ok k \<longrightarrow> pred_option kernel_ok (run_kernel r)"
  proof (intro impI)
    assume a: "cfg_ok cfg" "keeps dispatch" "kernel_ok k"
    note round = wave_round_ok [OF a, of mt dbg ticks]
    show "pred_option kernel_ok (run_kernel r)"
    proof (cases "wave_round cfg dispatch mt dbg ticks k")
      case (RunGo any t k1)
      then have "kernel_ok k1" using round by simp
      then have dr: "kernel_ok k2" if "epa_kernel_drain_ingress (pf_al (rc_pf cfg)) k1 = (x, k2)" for x k2
        using drain_ok [OF a(1)] that by (metis snd_conv)
      with run RunGo IH a(1,2) show ?thesis
        by (auto split: prod.splits res.splits if_splits simp del: pred_option_def)
    qed (use run round in auto)
  qed
qed

lemma wave_run_ok:
  assumes "cfg_ok cfg" and "keeps dispatch" and "kernel_ok k" and "wave_run cfg dispatch mt dbg k = Some r"
  shows "pred_option kernel_ok (run_kernel r)"
proof -
  obtain x k1 where d: "epa_kernel_drain_ingress (pf_al (rc_pf cfg)) (k\<lparr>k_interrupt := False\<rparr>) = (x, k1)" by force
  have "kernel_ok k1" using drain_ok [OF assms(1), of "k\<lparr>k_interrupt := False\<rparr>"] d assms(3) by simp
  with assms d show ?thesis
    by (auto simp: wave_run_def dest: wave_loop_ok split: if_splits res.splits)
qed

section \<open>The debug scheduler\<close>

lemma debug_tick_ok:
  assumes cfg: "cfg_ok cfg" and d: "keeps dispatch" and k: "kernel_ok k"
    and n: "\<And>b t k. kernel_ok k \<Longrightarrow> pred_option kernel_ok (run_kernel (c b t k))"
  shows "pred_option kernel_ok (run_kernel (debug_tick cfg dispatch ticks i k c))"
proof -
  let ?k0 = "k\<lparr>k_cur := i\<rparr>"
  let ?res = "epa_flow_step (kernel_env cfg dispatch ?k0) (InSlot (unat i)) \<lparr>m_k = ?k0, m_at = worker_zero\<rparr>"
  have m: "pred_option (\<lambda>m. kernel_ok (m_k m)) (flow_mach ?res)"
    by (rule run_step_ok [OF cfg d]) (simp add: k)
  show ?thesis
    unfolding debug_tick_def Let_def boot_reset_def [symmetric]
    using m by (cases ?res) (auto simp: Let_def intro!: boot_reset_ok [OF cfg] n stop_worker_ok)
qed

lemma debug_pass_ok:
  assumes "cfg_ok cfg" and "keeps dispatch"
  shows "kernel_ok k \<Longrightarrow> pred_option kernel_ok (run_kernel (debug_pass cfg dispatch mt is b t k))"
  by (induction "is" arbitrary: b t k) (auto intro: debug_tick_ok [OF assms])

lemma debug_run_ok:
  assumes cfg: "cfg_ok cfg" and d: "keeps dispatch" and k: "kernel_ok k"
  shows "pred_option kernel_ok (run_kernel (debug_run cfg dispatch mt k))"
proof -
  let ?al = "pf_al (rc_pf cfg)"
  obtain x k1 where x: "epa_kernel_drain_ingress ?al k = (x, k1)" by force
  have k1: "kernel_ok k1" using drain_ok [OF cfg k] x by simp
  let ?k2 = "k1\<lparr>k_interrupt := False\<rparr>"
  have pass: "pred_option kernel_ok (run_kernel (debug_pass cfg dispatch mt order False 0 ?k2))" for order
    by (rule debug_pass_ok [OF cfg d]) (simp add: k1)
  have fin: "kernel_ok k4" if "epa_kernel_drain_ingress ?al k3 = (y, k4)" "kernel_ok k3" for y k3 k4
    using drain_ok [OF cfg that(2)] that(1) by simp
  show ?thesis
  proof (cases x)
    case (Ok u)
    show ?thesis
    proof (cases "debug_order ?k2")
      case (Some order)
      show ?thesis
        using pass [of order] fin
        by (cases "debug_pass cfg dispatch mt order False 0 ?k2")
          (auto simp: debug_run_def x Ok Let_def Some k split: prod.split res.split)
    qed (simp add: debug_run_def x Ok Let_def k)
  qed (simp_all add: debug_run_def x k k1)
qed

section \<open>Creation\<close>

lemma create_ok:
  assumes "epa_kernel_create ok okr okg rgm = Some k" and "\<And>t. rgm = Some t \<Longrightarrow> rgm_wf t"
  shows "kernel_ok k"
proof -
  obtain q g t where c: "epa_ring_init okr (k_syncq kernel_zero) 256 = (True, q)" "epa_ghs_create okg 65536 = Some g"
      "rgm = Some t"
      "k = kernel_zero\<lparr>k_syncq := q, k_at_next := 1, k_mem_next := 1, k_ghs := g, k_rgm := t, k_profile := EPA_SCHED_WAVE\<rparr>"
    using assms(1) by (auto simp: epa_kernel_create_def split: if_splits prod.splits bool.splits option.splits)
  have "ring_inv q" "ghs_wf g" "rgm_wf t"
    using ring_inv_init [OF c(1)] ghs_create_wf [OF c(2)] assms(2) [OF c(3)] by auto
  then show ?thesis
    unfolding c(4) by (simp add: kernel_ok_def kernel_zero_def worker_zero_wf cq_zero_inv)
qed

section \<open>Everything a host can do\<close>

lemma ingress_push_ok:
  "kernel_ok k \<Longrightarrow> kernel_ok (snd (epa_kernel_ingress_push_framed al wid tag data sk sw k))"
  by (auto simp: epa_kernel_ingress_push_framed_def Let_def kernel_ok_def dest: cq_push_inv split: option.split)

text \<open>The thread scheduler is a parameter: \<open>ci\<close> sets it up, \<open>cr\<close> runs it.\<close>

definition cpu_ok :: "(epa_kernel \<Rightarrow> unit kres) \<Rightarrow> (u32 \<Rightarrow> bool \<Rightarrow> epa_kernel \<Rightarrow> run_res option) \<Rightarrow> bool" where
  "cpu_ok ci cr \<longleftrightarrow> keeps ci \<and> (\<forall>mt dbg k r. kernel_ok k \<longrightarrow> cr mt dbg k = Some r \<longrightarrow> pred_option kernel_ok (run_kernel r))"

lemma set_scheduler_ok: "cpu_ok ci cr \<Longrightarrow> kernel_ok k \<Longrightarrow> kernel_ok (snd (epa_kernel_set_scheduler ci p k))"
  using keeps_ok [of ci "k\<lparr>k_profile := p\<rparr>"]
  by (auto simp: epa_kernel_set_scheduler_def cpu_ok_def Let_def split: sched_profile.split)

lemma kernel_run_ok:
  assumes cfg: "cfg_ok cfg" and d: "keeps dispatch" and c: "cpu_ok ci cr" and k: "kernel_ok k"
    and r: "epa_kernel_run cfg dispatch cr mt dbg k = Some r"
  shows "pred_option kernel_ok (run_kernel r)"
proof (cases "k_status k = EPA_KERNEL_STATUS_UNLOADED")
  case False
  let ?k = "epa_kernel_set_status_only EPA_KERNEL_STATUS_RUNNING k"
  have k': "kernel_ok ?k" using k by simp
  have cr: "pred_option kernel_ok (run_kernel x)" if "cr mt dbg ?k = Some x" for x
    using c k' that unfolding cpu_ok_def by blast
  have s: "pred_option kernel_ok (run_kernel x)" if "sched_run cfg dispatch cr mt dbg ?k = Some x" for x
    using that cr wave_run_ok [OF cfg d k', of mt dbg x] debug_run_ok [OF cfg d k', of mt]
    by (auto simp: sched_run_def simp del: pred_option_def split: sched_profile.splits)
  from False r obtain x where x: "sched_run cfg dispatch cr mt dbg ?k = Some x"
    by (auto simp: epa_kernel_run_def split: option.splits)
  with s [OF x] False r show ?thesis by (cases x) (auto simp: epa_kernel_run_def run_status_def)
qed (use k r in \<open>auto simp: epa_kernel_run_def\<close>)

text \<open>The kernels a host can bring about. The published memory belongs to the process, so a new
  kernel finds it in any well-formed state.\<close>

inductive kernel_reach ::
  "run_cfg \<Rightarrow> nat \<Rightarrow> (epa_kernel \<Rightarrow> unit kres) \<Rightarrow> (u32 \<Rightarrow> bool \<Rightarrow> epa_kernel \<Rightarrow> run_res option) \<Rightarrow> epa_kernel \<Rightarrow> bool"
  for cfg d ci cr where
  created: "rgm_wf t \<Longrightarrow> epa_kernel_create ok okr okg (Some t) = Some k \<Longrightarrow> kernel_reach cfg d ci cr k"
| loaded: "kernel_reach cfg d ci cr k \<Longrightarrow> epa_kernel_load_blob_internal cfg blob pid uid k = (r, k') \<Longrightarrow> kernel_reach cfg d ci cr k'"
| scheduled: "kernel_reach cfg d ci cr k \<Longrightarrow> epa_kernel_set_scheduler ci p k = (r, k') \<Longrightarrow> kernel_reach cfg d ci cr k'"
| pushed: "kernel_reach cfg d ci cr k \<Longrightarrow> epa_kernel_ingress_push_framed (pf_al (rc_pf cfg)) wid tag data sk sw k = (x, k') \<Longrightarrow>
    kernel_reach cfg d ci cr k'"
| interrupted: "kernel_reach cfg d ci cr k \<Longrightarrow> kernel_reach cfg d ci cr (epa_kernel_request_interrupt k)"
| ran: "kernel_reach cfg d ci cr k \<Longrightarrow> epa_kernel_run cfg (epa_kernel_dispatch_at_requests_cpu cfg d) cr mt dbg k = Some res \<Longrightarrow>
    run_kernel res = Some k' \<Longrightarrow> kernel_reach cfg d ci cr k'"

section \<open>Properties\<close>


definition demo_platform :: platform where
  "demo_platform = \<lparr>pf_al = zero_alloc, pf_signal_cb = None, pf_thread_count = (\<lambda>_. 0), pf_add_threads = (\<lambda>n k. (Ok (), k))\<rparr>"

definition demo_outer :: outer where
  "demo_outer = \<lparr>ou_kernel_retire = (\<lambda>_ k. (Err [], k)), ou_acl_grant = (\<lambda>_ _ _ _ k. (Err [], k)),
     ou_acl_revoke = (\<lambda>_ _ _ _ k. (Err [], k)), ou_acl_revoke_all = (\<lambda>_ _ _ k. (Err [], k)),
     ou_pid_retire = (\<lambda>_ _ k. (Err [], k)), ou_far_signal = (\<lambda>_ k. (Err [], k)),
     ou_dynlib_import = (\<lambda>_ _ _ _ k. (Err [], k)), ou_process_spawn = (\<lambda>_ _ _ _ k. (Err [], k))\<rparr>"

definition demo_cfg :: run_cfg where
  "demo_cfg = \<lparr>rc_pf = demo_platform, rc_nc = nc_demo, rc_addr = id, rc_outer = demo_outer,
     rc_register = (\<lambda>u k. (Ok (), k\<lparr>k_uid := u\<rparr>)), rc_lanes = (\<lambda>_ _ k. (Err [], k)), rc_ok = (\<lambda>_. True),
     rc_wm = \<lparr>wm_stack = True, wm_in = True, wm_out = True, wm_al = zero_alloc\<rparr>\<rparr>"

lemma demo_cfg_ok: "cfg_ok demo_cfg"
  by (simp add: cfg_ok_def demo_cfg_def platform_ok_def demo_platform_def outer_ok_def demo_outer_def keeps_def
      alloc_ok_zero kernel_wf_def)

lemma demo_cpu_ok: "cpu_ok (\<lambda>k. (Ok (), k)) (\<lambda>_ _ k. Some (RunRet 1 [] k))"
  by (simp add: cpu_ok_def keeps_def)



text \<open>C2: One step of any worker or asynchronous task, whichever instruction it meets and whether it
  goes on, ends, faults or leaves the instruction to the backend, takes a well-formed machine to a
  well-formed machine: every record keeps its type (array lengths, index ranges, counts), and no
  stack changes its capacity. The hooks of the context are assumed to do the same.\<close>

theorem flow_step_keeps_types:
  assumes "env_ok fe" and "mach_wf C m"
  shows "pred_option (mach_wf C) (flow_mach (epa_flow_step fe r m))"
  using flow_step_wf [OF assms] .

definition sync_demo :: epa_kernel where
  "sync_demo = kernel_zero\<lparr>k_syncq := snd (epa_ring_init True ring_zero 2), k_rgm := \<lparr>rg_live = 0, rg_entries = []\<rparr>,
     k_cur := 3, k_prog := program_zero\<lparr>p_present := (\<lambda>_. True), p_entries := (\<lambda>_. \<lparr>cv_code = [26], cv_abs = 0\<rparr>)\<rparr>\<rparr>"

lemma sync_demo_wf: "mach_wf (\<lambda>_. 0) \<lparr>m_k = sync_demo, m_at = worker_zero\<rparr>"
proof -
  have "ring_inv (snd (epa_ring_init True ring_zero 2))" by (simp add: epa_ring_init_def ring_inv_def ring_zero_def)
  moreover have "ghs_wf \<lparr>g_live = 0, g_entries = []\<rparr>" by (simp add: ghs_wf_def ghs_used_def)
  moreover have "rgm_wf \<lparr>rg_live = 0, rg_entries = []\<rparr>" by (simp add: rgm_wf_def rgm_names_def)
  ultimately show ?thesis
    using worker_zero_wf
    by (simp add: mach_wf_def kernel_wf_def worker_inv_def sync_demo_def kernel_zero_def cq_zero_inv)
      (simp add: worker_zero_def vm_zero_def stack_zero_def)
qed

theorem flow_step_keeps_types_witness:
  "\<exists>m. epa_flow_step (kernel_env demo_cfg (\<lambda>k. (Ok (), k)) sync_demo) (InSlot 3) \<lparr>m_k = sync_demo, m_at = worker_zero\<rparr>
        = FlowYielded m
     \<and> mach_wf (\<lambda>_. 0) m \<and> ring_contents (k_syncq (m_k m)) = [3]"
proof -
  let ?fe = "kernel_env demo_cfg (\<lambda>k. (Ok (), k)) sync_demo"
  let ?m = "\<lparr>m_k = sync_demo, m_at = worker_zero\<rparr>"
  have t: "map_of (flow_table fe) 26 = Some op_sync" for fe
    by (simp add: flow_table_def vm_table_def k_table_def)
  have o: "epa_find_opcode 26 = Some \<lparr>od_opcode = 26, od_name = ''SYNC'', od_plen = 0\<rparr>"
    by (simp add: epa_find_opcode_def epa_opcode_table_def)
  have d: "vm_eip (m_vm (InSlot 3) ?m) = eip_zero" "epa_prog_resolve (fe_prog ?fe) 0 0 = Some [26]"
      "epa_decode_opcode_at [26] 0 = Some (26, 1)"
    by (simp_all add: m_vm_def get_w_def sync_demo_def kernel_zero_def worker_zero_def vm_zero_def kernel_env_def
        epa_prog_resolve_def epa_decode_opcode_at_def)
  have s: "epa_flow_step ?fe (InSlot 3) ?m = flow_exec ?fe (InSlot 3) 26 [26] 0 (Suc 0) ?m"
    by (simp add: epa_flow_step_def d o Let_def eip_zero_def)
  let ?k = "m_k (m_adv (InSlot 3) 0 (Suc 0) ?m)"
  obtain q where q: "epa_ring_push (k_syncq sync_demo) 3 True = Inr q" "ring_contents q = [3]"
    by (simp add: sync_demo_def epa_ring_init_def epa_ring_push_def ring_push_def ring_zero_def ring_contents_def)
  have k: "k_syncq ?k = k_syncq sync_demo" "k_cur ?k = 3" "w_inited (k_workers ?k i) = False" for i
    by (simp_all add: m_adv_def upd_vm_def m_put_vm_def put_w_def get_w_def k_upd_w_def w_put_vm_def sync_demo_def
        kernel_zero_def worker_zero_def)
  have h: "hook_sync ?k = (Ok (), ?k\<lparr>k_syncq := q\<rparr>)"
    by (simp add: hook_sync_def k q Let_def)
  have "flow_exec ?fe (InSlot 3) 26 [26] 0 (Suc 0) ?m = FlowYielded ((m_adv (InSlot 3) 0 (Suc 0) ?m)\<lparr>m_k := ?k\<lparr>k_syncq := q\<rparr>\<rparr>)"
    using h by (simp add: flow_exec_def t op_sync_def opt_hook_def call_k_def kernel_env_def kernel_install_standard_hooks_def)
  then obtain m where m: "epa_flow_step ?fe (InSlot 3) ?m = FlowYielded m" "ring_contents (k_syncq (m_k m)) = [3]"
    using s q(2) by simp
  with flow_step_keeps_types [OF kernel_env_ok [OF demo_cfg_ok] sync_demo_wf, of "\<lambda>k. (Ok (), k)" sync_demo "InSlot 3"]
  show ?thesis by (auto simp: keeps_def)
qed

end
