(* ===== verification/KernelRegistry.thy ===== *)
theory KernelRegistry
  imports KernelLife
begin

text \<open>
  The kernels of a process and what connects them (\<open>src/epa_kernel_so.c\<close>, the hooks of
  \<open>src/epa_kernel_hooks.c\<close>): the registry that maps names and 64-bit uids to kernels, the
  table of pids, retirement, dynamic access control and signals from one kernel to another. A kernel
  object is named by a number, its address; the registry mutex makes each routine one step. The
  answers of \<open>malloc\<close> are boolean arguments.
\<close>

record sys =
  sy_k :: "nat \<Rightarrow> epa_kernel"
  sy_reg :: "(string \<times> u64 \<times> nat) list"
  sy_procs :: "(u32 \<times> nat list) list"

type_synonym 'a sres = "(string, 'a) res \<times> sys"

definition sy_upd :: "nat \<Rightarrow> (epa_kernel \<Rightarrow> epa_kernel) \<Rightarrow> sys \<Rightarrow> sys" where
  "sy_upd i f sy = sy\<lparr>sy_k := (sy_k sy)(i := f (sy_k sy i))\<rparr>"

section \<open>Names\<close>

fun fnv1a64_chars :: "string \<Rightarrow> u64 \<Rightarrow> u64" where
  "fnv1a64_chars [] h = h"
| "fnv1a64_chars (c # cs) h = fnv1a64_chars cs ((h XOR of_char c) * 1099511628211)"

text \<open>The string has no NUL inside, as a C string.\<close>

definition fnv1a64_bytes :: "string \<Rightarrow> u64" where
  "fnv1a64_bytes s = fnv1a64_chars s 14695981039346656037"

definition hex_digit :: "u64 \<Rightarrow> char" where
  "hex_digit d = ''0123456789abcdef'' ! unat (d AND 15)"

text \<open>\<open>uid.%016llx\<close>\<close>

definition uid_name :: "u64 \<Rightarrow> string" where
  "uid_name u = ''uid.'' @ map (\<lambda>i. hex_digit (drop_bit (60 - 4 * i) u)) [0..<16]"

section \<open>The registry\<close>

definition registry_remove_kernel_locked :: "nat \<Rightarrow> sys \<Rightarrow> sys" where
  "registry_remove_kernel_locked i sy = sy\<lparr>sy_reg := filter (\<lambda>(name, uid, j). j \<noteq> i) (sy_reg sy)\<rparr>"

fun reg_find :: "(string \<times> u64 \<times> nat \<Rightarrow> bool) \<Rightarrow> (string \<times> u64 \<times> nat) list \<Rightarrow> nat option" where
  "reg_find p [] = None"
| "reg_find p (x # xs) = (if p x then Some (snd (snd x)) else reg_find p xs)"

definition registry_find_kernel_locked :: "sys \<Rightarrow> string \<Rightarrow> nat option" where
  "registry_find_kernel_locked sy name = reg_find (\<lambda>x. fst x = name) (sy_reg sy)"

definition registry_find_kernel_by_uid_locked :: "sys \<Rightarrow> u64 \<Rightarrow> nat option" where
  "registry_find_kernel_by_uid_locked sy uid = reg_find (\<lambda>x. fst (snd x) = uid) (sy_reg sy)"

definition registry_uid_exists_locked :: "sys \<Rightarrow> u64 \<Rightarrow> nat \<Rightarrow> bool" where
  "registry_uid_exists_locked sy uid except = list_ex (\<lambda>(name, u, j). u = uid \<and> j \<noteq> except) (sy_reg sy)"

definition epa_kernel_find_by_id :: "sys \<Rightarrow> string \<Rightarrow> nat option" where
  "epa_kernel_find_by_id sy name = (if name = [] then None else registry_find_kernel_locked sy name)"

text \<open>\<open>ok1\<close>, \<open>ok2\<close> and \<open>ok3\<close> are the answers of the three allocations. The
  old entry is gone when the second one fails; the name is gone when the third one does.\<close>

definition epa_kernel_register_identity ::
  "bool \<Rightarrow> bool \<Rightarrow> bool \<Rightarrow> nat \<Rightarrow> string \<Rightarrow> u64 \<Rightarrow> sys \<Rightarrow> unit sres" where
  "epa_kernel_register_identity ok1 ok2 ok3 i name uid sy =
     (if name = [] then (Err ''kernel_set_id: bad args'', sy)
      else if \<not> ok1 then (Err ''kernel_set_id: OOM'', sy)
      else if registry_uid_exists_locked sy uid i
      then (Err ''kernel_set_id: duplicate 64-bit id 0x%016llx for %s'', sy)
      else if list_ex (\<lambda>(n, u, j). n = name \<and> j \<noteq> i) (sy_reg sy)
      then (Err ''kernel_set_id: duplicate id %s'', sy)
      else let sy1 = registry_remove_kernel_locked i sy in
        if \<not> ok2 then (Err ''kernel_set_id: OOM'', sy1)
        else let sy2 = sy1\<lparr>sy_reg := (name, uid, i) # sy_reg sy1\<rparr> in
          if \<not> ok3 then (Err ''kernel_set_id: OOM'', sy_upd i (\<lambda>k. k\<lparr>k_id := None\<rparr>) sy2)
          else (Ok (), sy_upd i (\<lambda>k. kernel_refresh_worker_vm_identity (k\<lparr>k_id := Some name, k_uid := uid\<rparr>)) sy2))"

definition epa_kernel_register_uid_only :: "bool \<Rightarrow> bool \<Rightarrow> bool \<Rightarrow> nat \<Rightarrow> u64 \<Rightarrow> sys \<Rightarrow> unit sres" where
  "epa_kernel_register_uid_only ok1 ok2 ok3 i uid = epa_kernel_register_identity ok1 ok2 ok3 i (uid_name uid) uid"

definition epa_kernel_set_id :: "bool \<Rightarrow> bool \<Rightarrow> bool \<Rightarrow> nat \<Rightarrow> string \<Rightarrow> sys \<Rightarrow> unit sres" where
  "epa_kernel_set_id ok1 ok2 ok3 i name = epa_kernel_register_identity ok1 ok2 ok3 i name (fnv1a64_bytes name)"

text \<open>A kernel of a spawned process means the kernels of its own pid first.\<close>

definition epa_kernel_resolve_uid_for_sender :: "sys \<Rightarrow> nat \<Rightarrow> u64 \<Rightarrow> u64" where
  "epa_kernel_resolve_uid_for_sender sy i uid =
     (let k = sy_k sy i in
      if k_pid k = 0 \<or> uid = 0 then uid
      else let n = epa_kernel_namespace_uid (k_pid k) uid in
        if registry_find_kernel_by_uid_locked sy n \<noteq> None then n else uid)"

section \<open>Processes\<close>

definition process_find_locked :: "sys \<Rightarrow> u32 \<Rightarrow> nat list option" where
  "process_find_locked sy pid = map_of (sy_procs sy) pid"

fun proc_append :: "u32 \<Rightarrow> nat \<Rightarrow> (u32 \<times> nat list) list \<Rightarrow> (u32 \<times> nat list) list" where
  "proc_append pid i [] = []"
| "proc_append pid i ((p, ks) # ps) = (if p = pid then (p, ks @ [i]) # ps else (p, ks) # proc_append pid i ps)"

text \<open>\<open>ok_node\<close> and \<open>ok_grow\<close> answer for the node and its array, each where one is
  needed; a node whose array fails stays in the table, empty.\<close>

definition process_add_kernel_locked :: "bool \<Rightarrow> bool \<Rightarrow> u32 \<Rightarrow> nat \<Rightarrow> sys \<Rightarrow> unit sres" where
  "process_add_kernel_locked ok_node ok_grow pid i sy =
     (if pid = 0 then (Err ''process add: bad args'', sy)
      else if process_find_locked sy pid = None \<and> \<not> ok_node then (Err ''process add: OOM'', sy)
      else let ps = (if process_find_locked sy pid = None then (pid, []) # sy_procs sy else sy_procs sy) in
        if \<not> ok_grow then (Err ''process add: OOM'', sy\<lparr>sy_procs := ps\<rparr>)
        else (Ok (), sy\<lparr>sy_procs := proc_append pid i ps\<rparr>))"

fun without :: "nat \<Rightarrow> u32 \<times> nat list \<Rightarrow> u32 \<times> nat list" where
  "without i (p, ks) = (p, filter (\<lambda>j. j \<noteq> i) ks)"

definition process_remove_kernel_locked :: "nat \<Rightarrow> sys \<Rightarrow> sys" where
  "process_remove_kernel_locked i sy = sy\<lparr>sy_procs :=
     filter (\<lambda>(p, ks). ks \<noteq> []) (map (without i) (sy_procs sy))\<rparr>"

section \<open>Retirement\<close>

definition kernel_dynamic_acl_clear :: "epa_kernel \<Rightarrow> epa_kernel" where
  "kernel_dynamic_acl_clear k = k\<lparr>k_acl := []\<rparr>"

definition kernel_atq_clear :: "epa_kernel \<Rightarrow> epa_kernel" where
  "kernel_atq_clear k = k\<lparr>k_atq := cq_zero 64 at_req_zero, k_at_next := (if k_at_next k = 0 then 1 else k_at_next k)\<rparr>"

definition kernel_memq_clear :: "epa_kernel \<Rightarrow> epa_kernel" where
  "kernel_memq_clear k = k\<lparr>k_memq := cq_zero 64 mem_req_zero, k_mem_next := 1\<rparr>"

definition registry_remove_dynamic_routes_for_remote_locked :: "u64 \<Rightarrow> sys \<Rightarrow> sys" where
  "registry_remove_dynamic_routes_for_remote_locked remote sy = sy\<lparr>sy_k := (\<lambda>i.
     if i \<in> set (map (snd \<circ> snd) (sy_reg sy))
     then (sy_k sy i)\<lparr>k_acl := filter (\<lambda>a. acl_remote a \<noteq> remote) (k_acl (sy_k sy i))\<rparr> else sy_k sy i)\<rparr>"

definition retire_worker :: "epa_worker \<Rightarrow> epa_worker" where
  "retire_worker w = (if w_inited w
     then w\<lparr>w_retired := True, w_halted := True, w_blocked := True, w_inq := epa_ring_clear (w_inq w),
            w_outq := epa_ring_clear (w_outq w)\<rparr> else w)"

text \<open>What retirement does to the kernel object itself, which stays allocated.\<close>

definition kernel_shut_down :: "epa_kernel \<Rightarrow> epa_kernel" where
  "kernel_shut_down k =
     epa_kernel_request_interrupt (epa_kernel_set_status_text EPA_KERNEL_STATUS_UNLOADED []
       (kernel_memq_clear (kernel_atq_clear (kernel_dynamic_acl_clear
         (k\<lparr>k_workers := (\<lambda>i. if i < 256 then retire_worker (k_workers k i) else k_workers k i),
            k_head := 256, k_n := 0, k_next := (\<lambda>i. if i < 256 then 256 else k_next k i),
            k_ingress := (\<lambda>_. cq_zero 16 ingress_zero)\<rparr>)))))"

definition epa_kernel_retire_by_uid :: "u64 \<Rightarrow> sys \<Rightarrow> unit sres" where
  "epa_kernel_retire_by_uid uid sy =
     (if uid = 0 then (Err ''retire_kernel: bad kernel uid'', sy)
      else case registry_find_kernel_by_uid_locked sy uid of
        None \<Rightarrow> (Err ''retire_kernel: target kernel 0x%016llx not found'',
                 registry_remove_dynamic_routes_for_remote_locked uid sy)
      | Some i \<Rightarrow> (Ok (), sy_upd i kernel_shut_down (registry_remove_dynamic_routes_for_remote_locked uid
                   (process_remove_kernel_locked i (registry_remove_kernel_locked i sy)))))"

definition epa_kernel_retire_by_id :: "string \<Rightarrow> sys \<Rightarrow> unit sres" where
  "epa_kernel_retire_by_id name sy =
     (if name = [] then (Err ''retire_kernel: bad kernel id'', sy) else epa_kernel_retire_by_uid (fnv1a64_bytes name) sy)"

text \<open>Retiring a whole process. \<open>ok\<close> is the answer for the copy of the list of kernels. The
  inner loop takes the first kernel of the node out until the node is gone; it terminates because
  each turn shortens the list.\<close>

function pid_empty :: "u32 \<Rightarrow> sys \<Rightarrow> sys" where
  "pid_empty pid sy =
     (case process_find_locked sy pid of
        Some (i # is) \<Rightarrow> pid_empty pid (process_remove_kernel_locked i sy)
      | _ \<Rightarrow> sy)"
  by auto

fun proc_size :: "(u32 \<times> nat list) list \<Rightarrow> nat" where
  "proc_size [] = 0"
| "proc_size (p # ps) = length (snd p) + proc_size ps"

lemma sum_filter_le: "proc_size (filter (\<lambda>(p, ks). ks \<noteq> []) ps) = proc_size ps"
  by (induction ps) auto

lemma remove_from_all_le: "proc_size (map (without i) ps) \<le> proc_size ps"
proof (induction ps)
  case (Cons a ps)
  obtain p ks where a: "a = (p, ks)" by (cases a)
  from Cons show ?case unfolding a by (simp add: add_mono)
qed simp

lemma remove_shrinks:
  "map_of ps pid = Some (i # is) \<Longrightarrow>
    proc_size (map (without i) ps) < proc_size ps"
proof (induction ps)
  case (Cons a ps)
  obtain p ks where a: "a = (p, ks)" by (cases a)
  have le: "length (filter (\<lambda>j. j \<noteq> i) ks) \<le> length ks" by simp
  show ?case
  proof (cases "p = pid")
    case True
    then have "length (filter (\<lambda>j. j \<noteq> i) ks) < length ks" using Cons.prems a by (auto intro: le_imp_less_Suc)
    then show ?thesis using remove_from_all_le [of i ps] a by simp
  next
    case False
    with Cons.prems a have "map_of ps pid = Some (i # is)" by simp
    from Cons.IH [OF this] show ?thesis unfolding a by (simp add: add_le_less_mono)
  qed
qed simp

lemma process_find_shrinks:
  "process_find_locked sy pid = Some (i # is) \<Longrightarrow>
    proc_size (sy_procs (process_remove_kernel_locked i sy)) < proc_size (sy_procs sy)"
  using remove_shrinks [of "sy_procs sy" pid i "is"]
  by (simp add: process_find_locked_def process_remove_kernel_locked_def sum_filter_le)

termination pid_empty
  by (relation "measure (\<lambda>(pid, sy). proc_size (sy_procs sy))") (auto simp: process_find_shrinks)

declare pid_empty.simps [simp del]

definition pid_unregister :: "nat list \<Rightarrow> sys \<Rightarrow> sys" where
  "pid_unregister = fold (\<lambda>i sy. registry_remove_dynamic_routes_for_remote_locked (k_uid (sy_k sy i))
     (registry_remove_kernel_locked i sy))"

definition epa_kernel_pid_retire :: "bool \<Rightarrow> nat \<Rightarrow> u32 \<Rightarrow> u32 \<Rightarrow> sys \<Rightarrow> unit sres" where
  "epa_kernel_pid_retire ok i source_wid pid sy =
     (let k = sy_k sy i in
      if source_wid \<ge> 256 \<or> \<not> w_inited (k_workers k (unat source_wid)) \<or> pid = 0
      then (Err ''pid retire: bad args'', sy)
      else case (if k_pid k \<noteq> pid then kernel_actor_has_privilege k source_wid 100 else Ok ()) of
        Err e \<Rightarrow> (Err e, sy) | Ub \<Rightarrow> (Ub, sy)
      | Ok _ \<Rightarrow>
          (case process_find_locked sy pid of
             None \<Rightarrow> (Err ''pid retire: PID %u not found'', sy)
           | Some targets \<Rightarrow>
               if \<not> ok then (Err ''pid retire: OOM'', sy)
               else (Ok (), fold (\<lambda>j. sy_upd j kernel_shut_down) targets
                              (pid_empty pid (pid_unregister targets sy)))))"

text \<open>Destruction: the kernel leaves both tables; the rest frees its memory.\<close>

definition epa_kernel_destroy :: "nat \<Rightarrow> sys \<Rightarrow> sys" where
  "epa_kernel_destroy i sy = process_remove_kernel_locked i (registry_remove_kernel_locked i sy)"

section \<open>Dynamic access control\<close>

text \<open>\<open>ok\<close> answers for the growth of the array of entries.\<close>

definition epa_kernel_acl_grant_by_uid :: "bool \<Rightarrow> nat \<Rightarrow> u32 \<Rightarrow> u64 \<Rightarrow> u64 \<Rightarrow> u32 \<Rightarrow> sys \<Rightarrow> unit sres" where
  "epa_kernel_acl_grant_by_uid ok i source_wid target_uid remote_uid local_wid sy =
     (case kernel_actor_has_privilege (sy_k sy i) source_wid 100 of
        Err e \<Rightarrow> (Err e, sy) | Ub \<Rightarrow> (Ub, sy)
      | Ok _ \<Rightarrow>
          if target_uid = 0 \<or> remote_uid = 0 \<or> local_wid \<ge> 256 then (Err ''dynamic ACL grant: bad args'', sy)
          else case registry_find_kernel_by_uid_locked sy target_uid of
            None \<Rightarrow> (Err ''dynamic ACL grant: target kernel 0x%016llx not found'', sy)
          | Some t \<Rightarrow>
              let k = sy_k sy t; e = \<lparr>acl_remote = remote_uid, acl_wid = local_wid\<rparr> in
              if \<not> w_inited (k_workers k (unat local_wid)) then (Err ''dynamic ACL grant: target worker %u missing'', sy)
              else if e \<in> set (k_acl k) then (Ok (), sy)
              else if \<not> ok then (Err ''dynamic ACL grant: OOM'', sy)
              else (Ok (), sy_upd t (\<lambda>k. k\<lparr>k_acl := k_acl k @ [e]\<rparr>) sy))"

definition acl_revoke :: "(acl_entry \<Rightarrow> bool) \<Rightarrow> string \<Rightarrow> nat \<Rightarrow> u32 \<Rightarrow> u64 \<Rightarrow> sys \<Rightarrow> unit sres" where
  "acl_revoke p msg i source_wid target_uid sy =
     (case kernel_actor_has_privilege (sy_k sy i) source_wid 100 of
        Err e \<Rightarrow> (Err e, sy) | Ub \<Rightarrow> (Ub, sy)
      | Ok _ \<Rightarrow>
          (case registry_find_kernel_by_uid_locked sy target_uid of
             None \<Rightarrow> (Err msg, sy)
           | Some t \<Rightarrow> (Ok (), sy_upd t (\<lambda>k. k\<lparr>k_acl := filter (\<lambda>a. \<not> p a) (k_acl k)\<rparr>) sy)))"

definition epa_kernel_acl_revoke_by_uid :: "nat \<Rightarrow> u32 \<Rightarrow> u64 \<Rightarrow> u64 \<Rightarrow> u32 \<Rightarrow> sys \<Rightarrow> unit sres" where
  "epa_kernel_acl_revoke_by_uid i source_wid target_uid remote_uid local_wid =
     acl_revoke (\<lambda>a. acl_remote a = remote_uid \<and> acl_wid a = local_wid)
       ''dynamic ACL revoke: target kernel 0x%016llx not found'' i source_wid target_uid"

definition epa_kernel_acl_revoke_all_by_uid :: "nat \<Rightarrow> u32 \<Rightarrow> u64 \<Rightarrow> u64 \<Rightarrow> sys \<Rightarrow> unit sres" where
  "epa_kernel_acl_revoke_all_by_uid i source_wid target_uid remote_uid =
     acl_revoke (\<lambda>a. acl_remote a = remote_uid)
       ''dynamic ACL revoke_all: target kernel 0x%016llx not found'' i source_wid target_uid"

section \<open>Signals between kernels\<close>

definition far_fault :: "nat \<Rightarrow> u32 \<Rightarrow> string \<Rightarrow> sys \<Rightarrow> sys" where
  "far_fault i wid msg = sy_upd i (k_upd_w (unat wid) (\<lambda>w. w\<lparr>w_faulted := True, w_fault_message := msg\<rparr>))"

text \<open>\<open>al\<close> allocates the copy of the payload.\<close>

definition epa_kernel_far_signal_by_uid ::
  "allocator \<Rightarrow> nat \<Rightarrow> u32 \<Rightarrow> u64 \<Rightarrow> u32 \<Rightarrow> u8 list \<Rightarrow> u32 \<Rightarrow> sys \<Rightarrow> unit sres" where
  "epa_kernel_far_signal_by_uid al i source_wid target_uid hint payload tag sy =
     (let k = sy_k sy i in
      if target_uid = 0 \<or> payload = [] then (Err ''far_signal_by_uid: bad args'', sy)
      else if source_wid \<ge> 256 \<or> \<not> w_inited (k_workers k (unat source_wid))
      then (Err ''far_signal_by_uid: bad source wid %u'', sy)
      else case registry_find_kernel_by_uid_locked sy target_uid of
        None \<Rightarrow> (Err ''far_signal_by_uid: target kernel 0x%016llx not found'', sy)
      | Some t \<Rightarrow>
          let tk = sy_k sy t;
              first = kernel_acl_first_route_for_remote tk (k_uid k);
              denied = (\<lambda>msg. (Err msg, far_fault i source_wid msg sy));
              wid = (if hint \<noteq> 0 then hint
                     else if kernel_acl_has_entries tk then first else kernel_default_ingress_wid tk)
          in if hint \<noteq> 0 \<and> \<not> kernel_acl_allows tk (k_uid k) hint
             then denied ''ACL FAULT: kernel %s cannot route to target kernel 0x%016llx wid=%u''
             else if hint = 0 \<and> kernel_acl_has_entries tk \<and> first = 0
             then denied ''ACL FAULT: kernel %s is not whitelisted by target kernel 0x%016llx''
             else if wid = 0
             then (Err ''far_signal_by_uid: target kernel 0x%016llx has no default ingress worker'', sy)
             else case epa_kernel_ingress_push_framed al wid tag payload (k_uid k) source_wid tk of
               (COk _, tk') \<Rightarrow> (Ok (), sy_upd t (\<lambda>_. epa_kernel_request_interrupt tk') sy)
             | (CFail, tk') \<Rightarrow>
                 (Err ''far_signal_by_uid: target ingress queue full for 0x%016llx'',
                  far_fault i source_wid ''INGRESS FAULT: target ingress queue full for kernel 0x%016llx wid=%u'' sy)
             | (CUndef, tk') \<Rightarrow> (Ub, sy))"

definition epa_kernel_far_signal_by_id ::
  "allocator \<Rightarrow> nat \<Rightarrow> u32 \<Rightarrow> string \<Rightarrow> u8 list \<Rightarrow> u32 \<Rightarrow> sys \<Rightarrow> unit sres" where
  "epa_kernel_far_signal_by_id al i source_wid name payload tag sy =
     (if name = [] then (Err ''far_signal_by_id: bad target id'', sy)
      else epa_kernel_far_signal_by_uid al i source_wid (fnv1a64_bytes name) 0 payload tag sy)"

section \<open>Hooks\<close>

definition hook_kernel_retire :: "nat \<Rightarrow> u64 \<Rightarrow> sys \<Rightarrow> unit sres" where
  "hook_kernel_retire i uid sy = epa_kernel_retire_by_uid (epa_kernel_resolve_uid_for_sender sy i uid) sy"

definition hook_acl_grant :: "bool \<Rightarrow> nat \<Rightarrow> u8 \<Rightarrow> u64 \<Rightarrow> u64 \<Rightarrow> u8 \<Rightarrow> sys \<Rightarrow> unit sres" where
  "hook_acl_grant ok i wid target remote local_wid sy =
     epa_kernel_acl_grant_by_uid ok i (ucast wid) (epa_kernel_resolve_uid_for_sender sy i target)
       (epa_kernel_resolve_uid_for_sender sy i remote) (ucast local_wid) sy"

definition hook_acl_revoke :: "nat \<Rightarrow> u8 \<Rightarrow> u64 \<Rightarrow> u64 \<Rightarrow> u8 \<Rightarrow> sys \<Rightarrow> unit sres" where
  "hook_acl_revoke i wid target remote local_wid sy =
     epa_kernel_acl_revoke_by_uid i (ucast wid) (epa_kernel_resolve_uid_for_sender sy i target)
       (epa_kernel_resolve_uid_for_sender sy i remote) (ucast local_wid) sy"

definition hook_acl_revoke_all :: "nat \<Rightarrow> u8 \<Rightarrow> u64 \<Rightarrow> u64 \<Rightarrow> sys \<Rightarrow> unit sres" where
  "hook_acl_revoke_all i wid target remote sy =
     epa_kernel_acl_revoke_all_by_uid i (ucast wid) (epa_kernel_resolve_uid_for_sender sy i target)
       (epa_kernel_resolve_uid_for_sender sy i remote) sy"

definition hook_pid_retire :: "bool \<Rightarrow> nat \<Rightarrow> u8 \<Rightarrow> u32 \<Rightarrow> sys \<Rightarrow> unit sres" where
  "hook_pid_retire ok i wid = epa_kernel_pid_retire ok i (ucast wid)"

text \<open>The three words popped are gone even when a later check fails. The bounds test on the
  payload is on a 32-bit sum. With the tag \<open>0xffffffff\<close> the payload is the message the worker
  holds, its head overwritten from the arena.\<close>

definition far_pop :: "nat \<Rightarrow> nat \<Rightarrow> sys \<Rightarrow> (u32 \<Rightarrow> sys \<Rightarrow> unit sres) \<Rightarrow> unit sres" where
  "far_pop i wid sy c =
     (let v = w_vm (k_workers (sy_k sy i) wid) in
      case epa_stack_pop (vm_stack v) of
        CFail \<Rightarrow> (Err ''hook_far_signal: expected target_wid/payload size/tag on stack'', sy)
      | CUndef \<Rightarrow> (Ub, sy)
      | COk (x, st) \<Rightarrow> c x (sy_upd i (k_upd_w wid (\<lambda>w. w\<lparr>w_vm := v\<lparr>vm_stack := st\<rparr>\<rparr>)) sy))"

definition far_payload :: "allocator \<Rightarrow> epa_kernel \<Rightarrow> nat \<Rightarrow> u32 \<Rightarrow> u32 \<Rightarrow> u32 \<Rightarrow> (string, u8 list \<times> u32) res" where
  "far_payload al k wid off sz tag =
     (let w = k_workers k wid; v = w_vm w in
      case vm_lbytes v of
        None \<Rightarrow> Err ''hook_far_signal: payload local block out of bounds''
      | Some b \<Rightarrow>
          if off + sz > vm_ltop v then Err ''hook_far_signal: payload local block out of bounds''
          else if tag = 0xffffffff then
            (if \<not> w_has_ghs w
             then Err ''hook_far_signal: current payload patch requested without current ingress GHS''
             else case epa_ghs_get_meta (k_ghs k) (w_ghs w) of
               Err e \<Rightarrow> Err ''hook_far_signal: current payload meta failed err=%d'' | Ub \<Rightarrow> Ub
             | Ok meta \<Rightarrow>
                 if sz > gm_size meta then Err ''hook_far_signal: patch header exceeds current payload size''
                 else if al (unat (gm_size meta)) = None then Err ''hook_far_signal: OOM copying current payload''
                 else case epa_ghs_read_bytes (k_ghs k) (w_ghs w) 0 (gm_size meta) of
                   Err e \<Rightarrow> Err ''hook_far_signal: current payload read failed err=%d'' | Ub \<Rightarrow> Ub
                 | Ok bytes \<Rightarrow>
                     if unat off + unat sz > length b then Ub
                     else Ok (mem_write bytes 0 (mem_read b (unat off) (unat sz)), 0))
          else if unat off + unat sz > length b then Ub
          else Ok (mem_read b (unat off) (unat sz), tag))"

definition hook_far_signal :: "allocator \<Rightarrow> nat \<Rightarrow> u8 \<Rightarrow> sys \<Rightarrow> unit sres" where
  "hook_far_signal al i wid sy =
     (let k = sy_k sy i; n = unat wid; w = k_workers k n; v = w_vm w in
      if \<not> w_inited w then (Err ''hook_far_signal: bad wid %u'', sy)
      else far_pop i n sy (\<lambda>target_wid sy1. far_pop i n sy1 (\<lambda>sz sy2. far_pop i n sy2 (\<lambda>tag sy3.
        let uid = epa_kernel_resolve_uid_for_sender sy3 i (regs64 (vm_r v 0) (vm_r v 1)) in
        if uid = 0 then (Err ''hook_far_signal: empty target kernel uid'', sy3)
        else case far_payload al (sy_k sy3 i) n (vm_r v 3) sz tag of
          Err e \<Rightarrow> (Err e, sy3) | Ub \<Rightarrow> (Ub, sy3)
        | Ok (payload, tag') \<Rightarrow> epa_kernel_far_signal_by_uid al i (ucast wid) uid target_wid payload tag' sy3))))"

end
