(* ===== verification/RegistryProps.thy ===== *)
theory RegistryProps
  imports KernelRegistry
begin

text \<open>
  Properties of the registry of kernels: names and uids stay unique under every operation
  (\<open>sys_reach\<close>), a retired kernel is gone for good, and the exact effect of dynamic access
  control and of signals between kernels.
\<close>

section \<open>Reachable registries\<close>

text \<open>The registry agrees with the identity each named kernel holds.\<close>

definition reg_inv :: "sys \<Rightarrow> bool" where
  "reg_inv sy \<longleftrightarrow> distinct (map fst (sy_reg sy)) \<and> distinct (map (fst \<circ> snd) (sy_reg sy))
     \<and> distinct (map (snd \<circ> snd) (sy_reg sy))
     \<and> (\<forall>(n, u, i) \<in> set (sy_reg sy). k_id (sy_k sy i) = None \<or> k_id (sy_k sy i) = Some n \<and> k_uid (sy_k sy i) = u)"

text \<open>One operation on the process's kernels; \<open>inside\<close> is anything a kernel does that
  leaves its identity alone, such as running.\<close>

inductive sys_step :: "sys \<Rightarrow> sys \<Rightarrow> bool" where
  inside: "k_id k = k_id (sy_k sy i) \<Longrightarrow> k_uid k = k_uid (sy_k sy i) \<Longrightarrow> sys_step sy (sy_upd i (\<lambda>_. k) sy)"
| register: "sys_step sy (snd (epa_kernel_register_identity ok1 ok2 ok3 i name uid sy))"
| add: "sys_step sy (snd (process_add_kernel_locked ok_node ok_grow pid i sy))"
| retire: "sys_step sy (snd (epa_kernel_retire_by_uid uid sy))"
| pid_retire: "sys_step sy (snd (epa_kernel_pid_retire ok i source_wid pid sy))"
| destroy: "sys_step sy (epa_kernel_destroy i sy)"
| grant: "sys_step sy (snd (epa_kernel_acl_grant_by_uid ok i source_wid target remote lw sy))"
| revoke: "sys_step sy (snd (acl_revoke p msg i source_wid target sy))"
| far_signal: "sys_step sy (snd (epa_kernel_far_signal_by_uid al i source_wid target hint payload tag sy))"
| far_hook: "sys_step sy (snd (hook_far_signal al i w sy))"

inductive sys_reach :: "sys \<Rightarrow> bool" where
  start: "sy_reg sy = [] \<Longrightarrow> sys_reach sy"
| step: "sys_reach sy \<Longrightarrow> sys_step sy sy' \<Longrightarrow> sys_reach sy'"

text \<open>Most operations keep every identity and drop entries of the registry at most.\<close>

definition keeps_reg :: "sys \<Rightarrow> sys \<Rightarrow> bool" where
  "keeps_reg sy sy' \<longleftrightarrow> (\<exists>P. sy_reg sy' = filter P (sy_reg sy))
     \<and> (\<forall>i. k_id (sy_k sy' i) = k_id (sy_k sy i) \<and> k_uid (sy_k sy' i) = k_uid (sy_k sy i))"

lemma keeps_reg_refl [simp]: "keeps_reg sy sy"
  unfolding keeps_reg_def by (auto intro: exI [of _ "\<lambda>_. True"])

lemma keeps_reg_trans: "keeps_reg a b \<Longrightarrow> keeps_reg b c \<Longrightarrow> keeps_reg a c"
  unfolding keeps_reg_def by (auto simp: filter_filter)

lemma keeps_reg_inv: "reg_inv sy \<Longrightarrow> keeps_reg sy sy' \<Longrightarrow> reg_inv sy'"
  unfolding reg_inv_def keeps_reg_def by (force simp: distinct_map_filter)

lemma keeps_reg_upd:
  "k_id (f (sy_k sy i)) = k_id (sy_k sy i) \<Longrightarrow> k_uid (f (sy_k sy i)) = k_uid (sy_k sy i) \<Longrightarrow> keeps_reg sy (sy_upd i f sy)"
  unfolding keeps_reg_def sy_upd_def by (auto intro: exI [of _ "\<lambda>_. True"])

lemma keeps_reg_remove: "keeps_reg sy (registry_remove_kernel_locked i sy)"
  unfolding keeps_reg_def registry_remove_kernel_locked_def by auto

lemma keeps_reg_process: "keeps_reg sy (sy\<lparr>sy_procs := ps\<rparr>)"
  unfolding keeps_reg_def by (auto intro: exI [of _ "\<lambda>_. True"])

lemma keeps_reg_process_remove: "keeps_reg sy (process_remove_kernel_locked i sy)"
  unfolding process_remove_kernel_locked_def by (rule keeps_reg_process)

lemma keeps_reg_routes: "keeps_reg sy (registry_remove_dynamic_routes_for_remote_locked u sy)"
  unfolding keeps_reg_def registry_remove_dynamic_routes_for_remote_locked_def
  by (auto intro: exI [of _ "\<lambda>_. True"])

lemma shut_down_identity [simp]: "k_id (kernel_shut_down k) = k_id k" "k_uid (kernel_shut_down k) = k_uid k"
  by (simp_all add: kernel_shut_down_def epa_kernel_request_interrupt_def epa_kernel_set_status_text_def
      kernel_memq_clear_def kernel_atq_clear_def kernel_dynamic_acl_clear_def)

lemma push_framed_identity [simp]:
  "k_id (snd (epa_kernel_ingress_push_framed al wid tag data sk sw k)) = k_id k"
  "k_uid (snd (epa_kernel_ingress_push_framed al wid tag data sk sw k)) = k_uid k"
  by (simp_all add: epa_kernel_ingress_push_framed_def Let_def split: option.split)

lemma keeps_reg_pid_empty: "keeps_reg sy (pid_empty pid sy)"
proof (induction pid sy rule: pid_empty.induct)
  case (1 pid sy)
  show ?case
  proof (cases "\<exists>i is. process_find_locked sy pid = Some (i # is)")
    case True
    then obtain i "is" where f: "process_find_locked sy pid = Some (i # is)" by blast
    from 1 [OF f refl] f show ?thesis
      by (subst pid_empty.simps) (simp add: keeps_reg_trans [OF keeps_reg_process_remove])
  next
    case False
    then show ?thesis by (subst pid_empty.simps) (auto split: option.split list.split)
  qed
qed

lemma keeps_reg_fold:
  "(\<And>i sy. keeps_reg sy (f i sy)) \<Longrightarrow> keeps_reg sy (fold f is sy)"
  by (induction "is" arbitrary: sy) (auto intro: keeps_reg_trans)

lemma keeps_reg_shut_down: "keeps_reg sy (sy_upd i kernel_shut_down sy)"
  by (rule keeps_reg_upd) simp_all

lemma keeps_reg_unregister: "keeps_reg sy (pid_unregister is sy)"
  unfolding pid_unregister_def by (intro keeps_reg_fold keeps_reg_trans [OF keeps_reg_remove keeps_reg_routes])

lemma keeps_reg_pid_retire: "keeps_reg sy (snd (epa_kernel_pid_retire ok i source_wid pid sy))"
proof -
  have "keeps_reg sy (fold (\<lambda>j. sy_upd j kernel_shut_down) ts (pid_empty pid (pid_unregister ts sy)))" for ts
    by (rule keeps_reg_trans [OF keeps_reg_trans [OF keeps_reg_unregister keeps_reg_pid_empty] keeps_reg_fold])
      (rule keeps_reg_shut_down)
  then show ?thesis
    by (simp add: epa_kernel_pid_retire_def Let_def split: option.split res.split)
qed

lemma keeps_reg_retire: "keeps_reg sy (snd (epa_kernel_retire_by_uid uid sy))"
proof -
  have "keeps_reg sy (sy_upd i kernel_shut_down (registry_remove_dynamic_routes_for_remote_locked uid
     (process_remove_kernel_locked i (registry_remove_kernel_locked i sy))))" for i
    by (rule keeps_reg_trans [OF keeps_reg_trans [OF keeps_reg_trans [OF keeps_reg_remove keeps_reg_process_remove]
        keeps_reg_routes] keeps_reg_shut_down])
  then show ?thesis by (simp add: epa_kernel_retire_by_uid_def keeps_reg_routes split: option.split)
qed

lemma keeps_reg_acl:
  "keeps_reg sy (snd (epa_kernel_acl_grant_by_uid ok i source_wid target remote lw sy))"
  "keeps_reg sy (snd (acl_revoke p msg i source_wid target sy))"
  by (auto simp: epa_kernel_acl_grant_by_uid_def acl_revoke_def Let_def split: res.split option.split intro!: keeps_reg_upd)

lemma k_upd_w_identity [simp]: "k_id (k_upd_w i f k) = k_id k" "k_uid (k_upd_w i f k) = k_uid k"
  by (simp_all add: k_upd_w_def)

lemma keeps_reg_fault: "keeps_reg sy (far_fault i wid msg sy)"
  unfolding far_fault_def by (rule keeps_reg_upd) simp_all

lemma keeps_reg_far_signal: "keeps_reg sy (snd (epa_kernel_far_signal_by_uid al i source_wid target hint payload tag sy))"
proof -
  have "keeps_reg sy (sy_upd t (\<lambda>_. epa_kernel_request_interrupt k') sy)"
    if "epa_kernel_ingress_push_framed al wid tag payload sk sw (sy_k sy t) = (r, k')" for t wid sk sw r k'
    using push_framed_identity [of al wid tag payload sk sw "sy_k sy t"] that
    by (intro keeps_reg_upd) (simp_all add: epa_kernel_request_interrupt_def)
  then show ?thesis
    unfolding epa_kernel_far_signal_by_uid_def Let_def
    by (auto simp: keeps_reg_fault split: option.split prod.split cres.split)
qed

lemma keeps_reg_far_pop:
  assumes "\<And>x sy'. keeps_reg sy' (snd (c x sy'))"
  shows "keeps_reg sy (snd (far_pop i wid sy c))"
proof -
  have "keeps_reg sy (sy_upd i (k_upd_w wid f) sy)" for f by (rule keeps_reg_upd) simp_all
  with keeps_reg_trans [OF this assms] show ?thesis
    unfolding far_pop_def Let_def by (auto split: cres.split)
qed

lemma keeps_reg_hook: "keeps_reg sy (snd (hook_far_signal al i w sy))"
  unfolding hook_far_signal_def Let_def
  by (auto intro!: keeps_reg_far_pop keeps_reg_far_signal split: res.split)

lemma registered_filter:
  assumes "reg_inv sy" and "\<not> registry_uid_exists_locked sy uid i"
    and "\<not> list_ex (\<lambda>(n, u, j). n = name \<and> j \<noteq> i) (sy_reg sy)"
    and "k_id k = None \<or> k_id k = Some name \<and> k_uid k = uid"
  shows "reg_inv (sy_upd i (\<lambda>_. k) (sy\<lparr>sy_reg := (name, uid, i) # sy_reg (registry_remove_kernel_locked i sy)\<rparr>))"
  using assms unfolding reg_inv_def registry_remove_kernel_locked_def registry_uid_exists_locked_def sy_upd_def
  by (auto simp: distinct_map_filter list_ex_iff)

lemma refresh_identity [simp]:
  "k_id (kernel_refresh_worker_vm_identity k) = k_id k" "k_uid (kernel_refresh_worker_vm_identity k) = k_uid k"
  by (simp_all add: kernel_refresh_worker_vm_identity_def)

lemma sy_upd_const: "sy_upd i f sy = sy_upd i (\<lambda>_. f (sy_k sy i)) sy"
  by (simp add: sy_upd_def)

lemma register_inv:
  assumes "reg_inv sy"
  shows "reg_inv (snd (epa_kernel_register_identity ok1 ok2 ok3 i name uid sy))"
proof (cases "name = [] \<or> \<not> ok1 \<or> registry_uid_exists_locked sy uid i
    \<or> list_ex (\<lambda>(n, u, j). n = name \<and> j \<noteq> i) (sy_reg sy) \<or> \<not> ok2")
  case True
  then show ?thesis using assms keeps_reg_inv [OF assms keeps_reg_remove]
    by (auto simp: epa_kernel_register_identity_def Let_def)
next
  case False
  have e: "(registry_remove_kernel_locked i sy)\<lparr>sy_reg := x\<rparr> = sy\<lparr>sy_reg := x\<rparr>" for x
    by (simp add: registry_remove_kernel_locked_def)
  from False show ?thesis
    by (simp add: epa_kernel_register_identity_def Let_def e)
      (subst (1 2) sy_upd_const, auto intro!: registered_filter [OF assms])
qed

lemma sys_step_inv: "sys_step sy sy' \<Longrightarrow> reg_inv sy \<Longrightarrow> reg_inv sy'"
proof (induction rule: sys_step.induct)
  case (inside k sy i)
  then show ?case by (auto intro: keeps_reg_inv keeps_reg_upd)
next
  case (register sy ok1 ok2 ok3 i name uid)
  then show ?case by (rule register_inv)
next
  case (add sy ok_node ok_grow pid i)
  then show ?case
    by (auto simp: process_add_kernel_locked_def Let_def intro: keeps_reg_inv keeps_reg_process)
next
  case (destroy sy i)
  then show ?case unfolding epa_kernel_destroy_def
    by (rule keeps_reg_inv [OF _ keeps_reg_trans [OF keeps_reg_remove keeps_reg_process_remove]])
qed (auto intro: keeps_reg_inv keeps_reg_retire keeps_reg_pid_retire keeps_reg_acl keeps_reg_far_signal keeps_reg_hook)

lemma sys_reach_inv: "sys_reach sy \<Longrightarrow> reg_inv sy"
proof (induction rule: sys_reach.induct)
  case (step sy sy')
  from step.hyps(2) step.IH show ?case by (rule sys_step_inv)
qed (simp add: reg_inv_def)

lemma reg_find_some: "reg_find p xs = Some i \<Longrightarrow> \<exists>x \<in> set xs. p x \<and> snd (snd x) = i"
  by (induction xs) (auto split: if_splits)

lemma reg_find_unique:
  "x \<in> set xs \<Longrightarrow> p x \<Longrightarrow> (\<forall>y \<in> set xs. p y \<longrightarrow> y = x) \<Longrightarrow> reg_find p xs = Some (snd (snd x))"
proof (induction xs)
  case (Cons y ys)
  show ?case
  proof (cases "p y")
    case True
    with Cons.prems(3) have "y = x" by simp
    with True show ?thesis by simp
  next
    case False
    have "x \<in> set ys" using Cons.prems(1,2) False by auto
    moreover have "\<forall>z \<in> set ys. p z \<longrightarrow> z = x" using Cons.prems(3) by (meson list.set_intros(2))
    ultimately have "reg_find p ys = Some (snd (snd x))" by (rule Cons.IH [OF _ Cons.prems(2)])
    with False show ?thesis by (simp only: reg_find.simps if_False)
  qed
qed simp

lemma reg_find_none: "reg_find p xs = None \<longleftrightarrow> (\<forall>x \<in> set xs. \<not> p x)"
  by (induction xs) auto

lemma find_by_uid_iff:
  assumes "reg_inv sy"
  shows "registry_find_kernel_by_uid_locked sy u = Some i \<longleftrightarrow> (\<exists>n. (n, u, i) \<in> set (sy_reg sy))"
proof
  show "registry_find_kernel_by_uid_locked sy u = Some i \<Longrightarrow> \<exists>n. (n, u, i) \<in> set (sy_reg sy)"
    by (force simp: registry_find_kernel_by_uid_locked_def dest: reg_find_some)
next
  assume "\<exists>n. (n, u, i) \<in> set (sy_reg sy)"
  then obtain n where "(n, u, i) \<in> set (sy_reg sy)" ..
  with assms have "reg_find (\<lambda>x. fst (snd x) = u) (sy_reg sy) = Some (snd (snd (n, u, i)))"
    by (intro reg_find_unique) (auto simp: reg_inv_def distinct_map inj_on_def)
  then show "registry_find_kernel_by_uid_locked sy u = Some i" by (simp add: registry_find_kernel_by_uid_locked_def)
qed

lemma find_by_name_iff:
  assumes "reg_inv sy"
  shows "registry_find_kernel_locked sy n = Some i \<longleftrightarrow> (\<exists>u. (n, u, i) \<in> set (sy_reg sy))"
proof
  show "registry_find_kernel_locked sy n = Some i \<Longrightarrow> \<exists>u. (n, u, i) \<in> set (sy_reg sy)"
    by (force simp: registry_find_kernel_locked_def dest: reg_find_some)
next
  assume "\<exists>u. (n, u, i) \<in> set (sy_reg sy)"
  then obtain u where "(n, u, i) \<in> set (sy_reg sy)" ..
  with assms have "reg_find (\<lambda>x. fst x = n) (sy_reg sy) = Some (snd (snd (n, u, i)))"
    by (intro reg_find_unique) (auto simp: reg_inv_def distinct_map inj_on_def)
  then show "registry_find_kernel_locked sy n = Some i" by (simp add: registry_find_kernel_locked_def)
qed

section \<open>The properties\<close>

text \<open>C3: the registry is a bijection. In every state the process can reach by registering,
  spawning, running, routing to and retiring kernels, in any order and with any failing allocation, no
  kernel has two names or two uids in the registry, no name and no uid leads to two kernels, and a
  registered kernel that carries a name is found under exactly that name and its own uid.\<close>

theorem registry_names_unique:
  assumes "sys_reach sy"
  shows "(registry_find_kernel_locked sy n = Some i \<and> registry_find_kernel_locked sy n' = Some i \<longrightarrow> n = n')
     \<and> (registry_find_kernel_by_uid_locked sy u = Some i \<and> registry_find_kernel_by_uid_locked sy u' = Some i \<longrightarrow> u = u')
     \<and> ((\<exists>m. registry_find_kernel_locked sy m = Some i) \<longleftrightarrow> (\<exists>v. registry_find_kernel_by_uid_locked sy v = Some i))
     \<and> (registry_find_kernel_by_uid_locked sy u = Some i \<and> k_id (sy_k sy i) = Some n \<longrightarrow>
          u = k_uid (sy_k sy i) \<and> registry_find_kernel_locked sy n = Some i)"
proof -
  note inv = sys_reach_inv [OF assms]
  have one: "x = y" if "x \<in> set (sy_reg sy)" "y \<in> set (sy_reg sy)" "snd (snd x) = snd (snd y)" for x y
    using inv that inj_onD [of "snd \<circ> snd" "set (sy_reg sy)" x y] by (auto simp: reg_inv_def distinct_map)
  have "(m, v, i) \<in> set (sy_reg sy) \<Longrightarrow> k_id (sy_k sy i) = Some n \<Longrightarrow> m = n \<and> v = k_uid (sy_k sy i)" for m v
    using inv by (auto simp: reg_inv_def)
  then show ?thesis
    unfolding find_by_uid_iff [OF inv] find_by_name_iff [OF inv] by (auto dest: one)
qed

text \<open>Two kernels, one registered by name, the other under its uid.\<close>

definition demo_sys :: sys where
  "demo_sys = \<lparr>sy_k = (\<lambda>_. kernel_zero), sy_reg = [], sy_procs = []\<rparr>"

definition demo_sys2 :: sys where
  "demo_sys2 = snd (epa_kernel_register_identity True True True 1 ''b'' 11
     (snd (epa_kernel_register_identity True True True 0 ''a'' 10 demo_sys)))"

lemma demo_sys2_reach: "sys_reach demo_sys2"
  unfolding demo_sys2_def
  by (rule sys_reach.step [OF sys_reach.step [OF sys_reach.start sys_step.register] sys_step.register])
    (simp add: demo_sys_def)

lemma demo_sys2_reg: "sy_reg demo_sys2 = [(''b'', 11, 1), (''a'', 10, 0)]"
  by (simp add: demo_sys2_def demo_sys_def epa_kernel_register_identity_def registry_uid_exists_locked_def
      registry_remove_kernel_locked_def sy_upd_def Let_def)

lemma demo_sys2_id: "k_id (sy_k demo_sys2 0) = Some ''a''" "k_uid (sy_k demo_sys2 0) = 10"
  by (simp_all add: demo_sys2_def demo_sys_def epa_kernel_register_identity_def registry_uid_exists_locked_def
      registry_remove_kernel_locked_def sy_upd_def Let_def)

theorem registry_names_unique_witness:
  "registry_find_kernel_by_uid_locked demo_sys2 10 = Some 0 \<and> registry_find_kernel_locked demo_sys2 ''a'' = Some 0"
proof -
  have "registry_find_kernel_by_uid_locked demo_sys2 10 = Some 0"
    by (simp add: registry_find_kernel_by_uid_locked_def demo_sys2_reg)
  with registry_names_unique [OF demo_sys2_reach, of "''a''" 0 "''a''" 10 10] demo_sys2_id show ?thesis by simp
qed

text \<open>C6: retirement is complete. After \<open>epa_kernel_retire_by_uid\<close> reports success the
  uid resolves to nothing, the kernel is in no process, none of its workers can be scheduled, its
  rings and ingress queues are empty, a run of it returns at once and changes nothing, and every
  kernel left in the registry has lost exactly its dynamic routes for the retired uid and nothing
  else.\<close>

theorem retire_complete:
  assumes "sys_reach sy" and "registry_find_kernel_by_uid_locked sy uid = Some i"
    and "epa_kernel_retire_by_uid uid sy = (Ok (), sy')"
  shows "registry_find_kernel_by_uid_locked sy' uid = None
     \<and> (\<forall>p ks. (p, ks) \<in> set (sy_procs sy') \<longrightarrow> i \<notin> set ks)
     \<and> (\<forall>wid < 256. \<not> worker_runnable (k_workers (sy_k sy' i) wid)
          \<and> (w_inited (k_workers (sy_k sy' i) wid) \<longrightarrow> epa_ring_count (w_inq (k_workers (sy_k sy' i) wid)) = 0)
          \<and> cq_list (k_ingress (sy_k sy' i) wid) = [])
     \<and> epa_kernel_run cfg d cpu mt dbg (sy_k sy' i) = Some (RunRet 1 [] (sy_k sy' i))
     \<and> (\<forall>j v. registry_find_kernel_by_uid_locked sy' v = Some j \<longrightarrow>
          sy_k sy' j = (sy_k sy j)\<lparr>k_acl := filter (\<lambda>a. acl_remote a \<noteq> uid) (k_acl (sy_k sy j))\<rparr>)"
proof -
  note inv = sys_reach_inv [OF assms(1)]
  have un: "uid \<noteq> 0" using assms(3) by (auto simp: epa_kernel_retire_by_uid_def)
  define sy1 where "sy1 = registry_remove_dynamic_routes_for_remote_locked uid
       (process_remove_kernel_locked i (registry_remove_kernel_locked i sy))"
  have sy': "sy' = sy_upd i kernel_shut_down sy1"
    using assms(2,3) un by (simp add: epa_kernel_retire_by_uid_def sy1_def)
  have inv': "reg_inv sy'" using keeps_reg_inv [OF inv keeps_reg_retire [of sy uid]] assms(3) by simp
  have reg: "sy_reg sy' = filter (\<lambda>(n, u, j). j \<noteq> i) (sy_reg sy)"
    by (simp add: sy' sy1_def sy_upd_def registry_remove_dynamic_routes_for_remote_locked_def
        process_remove_kernel_locked_def registry_remove_kernel_locked_def)
  obtain n where n: "(n, uid, i) \<in> set (sy_reg sy)" using assms(2) find_by_uid_iff [OF inv] by blast
  have "registry_find_kernel_by_uid_locked sy' uid = None"
  proof (cases "registry_find_kernel_by_uid_locked sy' uid")
    case (Some j)
    then obtain m where "(m, uid, j) \<in> set (sy_reg sy)" "j \<noteq> i"
      using find_by_uid_iff [OF inv', of uid j] reg by auto
    with n inv inj_onD [of "fst \<circ> snd" "set (sy_reg sy)" "(m, uid, j)" "(n, uid, i)"] show ?thesis
      by (auto simp: reg_inv_def distinct_map)
  qed
  moreover have "\<forall>p ks. (p, ks) \<in> set (sy_procs sy') \<longrightarrow> i \<notin> set ks"
    by (auto simp: sy' sy1_def sy_upd_def registry_remove_dynamic_routes_for_remote_locked_def
        process_remove_kernel_locked_def)
  moreover have "sy_k sy' i = kernel_shut_down (sy_k sy1 i)" by (simp add: sy' sy_upd_def)
  then have "\<forall>wid < 256. \<not> worker_runnable (k_workers (sy_k sy' i) wid)
          \<and> (w_inited (k_workers (sy_k sy' i) wid) \<longrightarrow> epa_ring_count (w_inq (k_workers (sy_k sy' i) wid)) = 0)
          \<and> cq_list (k_ingress (sy_k sy' i) wid) = []"
    "epa_kernel_run cfg d cpu mt dbg (sy_k sy' i) = Some (RunRet 1 [] (sy_k sy' i))"
    by (auto simp: kernel_shut_down_def retire_worker_def worker_runnable_def epa_ring_clear_def epa_ring_count_def cq_list_def
        cq_zero_def epa_kernel_run_def epa_kernel_request_interrupt_def epa_kernel_set_status_text_def
        kernel_memq_clear_def kernel_atq_clear_def kernel_dynamic_acl_clear_def)
  moreover have "\<forall>j v. registry_find_kernel_by_uid_locked sy' v = Some j \<longrightarrow>
          sy_k sy' j = (sy_k sy j)\<lparr>k_acl := filter (\<lambda>a. acl_remote a \<noteq> uid) (k_acl (sy_k sy j))\<rparr>"
    unfolding find_by_uid_iff [OF inv'] reg
    by (force simp: sy' sy1_def sy_upd_def registry_remove_dynamic_routes_for_remote_locked_def
        process_remove_kernel_locked_def registry_remove_kernel_locked_def)
  ultimately show ?thesis by blast
qed

theorem retire_complete_witness:
  "\<exists>sy'. epa_kernel_retire_by_uid 10 demo_sys2 = (Ok (), sy') \<and> registry_find_kernel_by_uid_locked sy' 10 = None"
proof -
  have f: "registry_find_kernel_by_uid_locked demo_sys2 10 = Some 0"
    by (simp add: registry_find_kernel_by_uid_locked_def demo_sys2_reg)
  then obtain sy' where r: "epa_kernel_retire_by_uid 10 demo_sys2 = (Ok (), sy')"
    by (simp add: epa_kernel_retire_by_uid_def)
  with retire_complete [OF demo_sys2_reach f r] show ?thesis by blast
qed

lemma acl_allows_iff:
  "kernel_acl_allows k r w \<longleftrightarrow> p_acl (k_prog k) = [] \<and> k_acl k = []
     \<or> (\<exists>a \<in> set (p_acl (k_prog k)) \<union> set (k_acl k). acl_wid a = w \<and> (acl_remote a = 0 \<or> acl_remote a = r))"
  by (auto simp: kernel_acl_allows_def kernel_acl_has_entries_def list_ex_iff kernel_acl_route_matches_def)

text \<open>what a grant changes. A successful grant is made by a worker of privilege 100 or more;
  afterwards the target admits the granted pair, and any other pair exactly when it did before and had
  a table at all: the first entry closes a kernel that was open to everyone. Nothing else of the target
  and nothing of another kernel changes.\<close>

theorem acl_grant_effect:
  assumes "epa_kernel_acl_grant_by_uid ok i source_wid target_uid remote wid sy = (Ok (), sy')"
  shows "100 \<le> w_privilege (k_workers (sy_k sy i) (unat source_wid))
     \<and> (\<exists>t. registry_find_kernel_by_uid_locked sy target_uid = Some t
          \<and> (\<forall>r w. kernel_acl_allows (sy_k sy' t) r w \<longleftrightarrow>
               r = remote \<and> w = wid \<or> kernel_acl_has_entries (sy_k sy t) \<and> kernel_acl_allows (sy_k sy t) r w)
          \<and> (\<exists>as. sy_k sy' t = (sy_k sy t)\<lparr>k_acl := as\<rparr>)
          \<and> (\<forall>j. j \<noteq> t \<longrightarrow> sy_k sy' j = sy_k sy j))"
proof -
  have priv: "kernel_actor_has_privilege (sy_k sy i) source_wid 100 = Ok ()"
    using assms by (auto simp: epa_kernel_acl_grant_by_uid_def split: res.splits)
  then have p: "100 \<le> w_privilege (k_workers (sy_k sy i) (unat source_wid))"
    by (auto simp: kernel_actor_has_privilege_def split: if_splits)
  from assms priv obtain t where t: "registry_find_kernel_by_uid_locked sy target_uid = Some t" and nz: "remote \<noteq> 0"
    by (auto simp: epa_kernel_acl_grant_by_uid_def split: if_splits option.splits)
  define e where "e = \<lparr>acl_remote = remote, acl_wid = wid\<rparr>"
  define old where "old = k_acl (sy_k sy t)"
  define new where "new = (if e \<in> set old then old else old @ [e])"
  from assms priv t have sy': "sy' = sy_upd t (\<lambda>k. k\<lparr>k_acl := new\<rparr>) sy"
    by (auto simp: epa_kernel_acl_grant_by_uid_def Let_def e_def old_def new_def sy_upd_def split: if_splits)
  then have k: "sy_k sy' t = (sy_k sy t)\<lparr>k_acl := new\<rparr>" "\<forall>j. j \<noteq> t \<longrightarrow> sy_k sy' j = sy_k sy j"
    by (simp_all add: sy_upd_def)
  have set: "set new = insert e (set old)" "new \<noteq> []" by (auto simp: new_def)
  have e: "acl_wid e = w \<and> (acl_remote e = 0 \<or> acl_remote e = r) \<longleftrightarrow> r = remote \<and> w = wid" for r w
    using nz by (auto simp: e_def)
  have "kernel_acl_allows (sy_k sy' t) r w \<longleftrightarrow>
      r = remote \<and> w = wid \<or> kernel_acl_has_entries (sy_k sy t) \<and> kernel_acl_allows (sy_k sy t) r w" for r w
    unfolding acl_allows_iff kernel_acl_has_entries_def k(1)
    by (simp add: set e old_def [symmetric] del: Un_iff) (auto simp: e)
  with p t k show ?thesis by blast
qed

text \<open>A kernel whose worker 0 may administer access.\<close>

definition admin_kernel :: epa_kernel where
  "admin_kernel = kernel_zero\<lparr>k_workers := (\<lambda>_. worker_zero\<lparr>w_inited := True, w_privilege := 100\<rparr>), k_uid := 10\<rparr>"

definition admin_sys :: "acl_entry list \<Rightarrow> sys" where
  "admin_sys as = \<lparr>sy_k = (\<lambda>_. admin_kernel\<lparr>k_acl := as\<rparr>), sy_reg = [(''a'', 10, 0)], sy_procs = []\<rparr>"

lemma admin_sys_facts:
  "kernel_actor_has_privilege (sy_k (admin_sys as) j) 0 100 = Ok ()"
  "registry_find_kernel_by_uid_locked (admin_sys as) 10 = Some 0"
  "w_inited (k_workers (sy_k (admin_sys as) j) i)" "k_acl (sy_k (admin_sys as) j) = as"
  "p_acl (k_prog (sy_k (admin_sys as) j)) = []"
  by (simp_all add: admin_sys_def admin_kernel_def kernel_actor_has_privilege_def registry_find_kernel_by_uid_locked_def
      kernel_zero_def program_zero_def)

theorem acl_grant_effect_witness:
  "\<exists>sy'. epa_kernel_acl_grant_by_uid True 0 0 10 99 3 (admin_sys []) = (Ok (), sy')
     \<and> kernel_acl_allows (sy_k sy' 0) 99 3 \<and> \<not> kernel_acl_allows (sy_k sy' 0) 98 3"
proof -
  obtain sy' where r: "epa_kernel_acl_grant_by_uid True 0 0 10 99 3 (admin_sys []) = (Ok (), sy')"
    by (simp add: epa_kernel_acl_grant_by_uid_def admin_sys_facts Let_def)
  from acl_grant_effect [OF r] have "kernel_acl_allows (sy_k sy' 0) 99 3" "\<not> kernel_acl_allows (sy_k sy' 0) 98 3"
    by (auto simp: admin_sys_facts kernel_acl_has_entries_def)
  with r show ?thesis by blast
qed

text \<open>C19: what a revocation changes. The pair is no longer admitted through the dynamic table;
  but when nothing is left in either table, every remote kernel is admitted at every worker, the
  revoked one included: revoking the only entry opens the kernel.\<close>

theorem acl_revoke_effect:
  assumes "epa_kernel_acl_revoke_by_uid i source_wid target_uid remote wid sy = (Ok (), sy')"
  shows "100 \<le> w_privilege (k_workers (sy_k sy i) (unat source_wid))
     \<and> (\<exists>t. registry_find_kernel_by_uid_locked sy target_uid = Some t
          \<and> (\<forall>j. j \<noteq> t \<longrightarrow> sy_k sy' j = sy_k sy j)
          \<and> (let old = k_acl (sy_k sy t); rest = filter (\<lambda>a. a \<noteq> \<lparr>acl_remote = remote, acl_wid = wid\<rparr>) old;
                 static = p_acl (k_prog (sy_k sy t))
             in sy_k sy' t = (sy_k sy t)\<lparr>k_acl := rest\<rparr>
                \<and> (if static = [] \<and> rest = [] then \<forall>r w. kernel_acl_allows (sy_k sy' t) r w
                   else \<forall>r w. kernel_acl_allows (sy_k sy' t) r w \<longleftrightarrow>
                     (\<exists>a \<in> set static \<union> set rest. acl_wid a = w \<and> (acl_remote a = 0 \<or> acl_remote a = r)))))"
proof -
  have priv: "kernel_actor_has_privilege (sy_k sy i) source_wid 100 = Ok ()"
    using assms by (auto simp: epa_kernel_acl_revoke_by_uid_def acl_revoke_def split: res.splits)
  then have p: "100 \<le> w_privilege (k_workers (sy_k sy i) (unat source_wid))"
    by (auto simp: kernel_actor_has_privilege_def split: if_splits)
  from assms priv obtain t where t: "registry_find_kernel_by_uid_locked sy target_uid = Some t"
    and sy': "sy' = sy_upd t (\<lambda>k. k\<lparr>k_acl := filter (\<lambda>a. \<not> (acl_remote a = remote \<and> acl_wid a = wid)) (k_acl k)\<rparr>) sy"
    by (auto simp: epa_kernel_acl_revoke_by_uid_def acl_revoke_def split: option.splits)
  have "(acl_remote a = remote \<and> acl_wid a = wid) = (a = \<lparr>acl_remote = remote, acl_wid = wid\<rparr>)" for a :: acl_entry
    by (cases a) auto
  with p t sy' show ?thesis
    unfolding acl_allows_iff by (auto simp: Let_def sy_upd_def)
qed

theorem acl_revoke_effect_witness:
  "\<exists>sy'. epa_kernel_acl_revoke_by_uid 0 0 10 99 3 (admin_sys [\<lparr>acl_remote = 99, acl_wid = 3\<rparr>]) = (Ok (), sy')
     \<and> \<not> kernel_acl_allows (sy_k (admin_sys [\<lparr>acl_remote = 99, acl_wid = 3\<rparr>]) 0) 98 5
     \<and> kernel_acl_allows (sy_k sy' 0) 98 5 \<and> kernel_acl_allows (sy_k sy' 0) 99 3"
proof -
  let ?s = "admin_sys [\<lparr>acl_remote = 99, acl_wid = 3\<rparr>]"
  obtain sy' where r: "epa_kernel_acl_revoke_by_uid 0 0 10 99 3 ?s = (Ok (), sy')"
    by (simp add: epa_kernel_acl_revoke_by_uid_def acl_revoke_def admin_sys_facts)
  from acl_revoke_effect [OF r] have "\<forall>r w. kernel_acl_allows (sy_k sy' 0) r w"
    by (simp add: admin_sys_facts acl_allows_iff)
  moreover have "\<not> kernel_acl_allows (sy_k ?s 0) 98 5" by (simp add: acl_allows_iff admin_sys_facts)
  ultimately show ?thesis using r by blast
qed

section \<open>Signals between kernels\<close>

lemma first_route_matches: "first_route r as = Some w \<Longrightarrow> \<exists>a \<in> set as. acl_wid a = w \<and> (acl_remote a = 0 \<or> acl_remote a = r)"
  by (induction as) (auto split: if_splits)

lemma first_route_allowed:
  "kernel_acl_first_route_for_remote k r \<noteq> 0 \<Longrightarrow> kernel_acl_allows k r (kernel_acl_first_route_for_remote k r)"
  unfolding acl_allows_iff kernel_acl_first_route_for_remote_def
  by (auto split: option.splits dest!: first_route_matches)

lemma push_framed_ok:
  assumes "epa_kernel_ingress_push_framed al wid tag payload sk sw k = (COk (), k')" and "alloc_ok al"
    and "cq_inv (k_ingress k (unat wid))"
  shows "wid < 256 \<and> (\<exists>q. k' = k\<lparr>k_ingress := (k_ingress k)(unat wid := q)\<rparr> \<and> cq_inv q
     \<and> length payload \<le> unat (pad4 (of_nat (length payload)))
     \<and> cq_list q = cq_list (k_ingress k (unat wid)) @
         [\<lparr>im_buf = Some (payload @ replicate (unat (pad4 (of_nat (length payload))) - length payload) 0),
           im_len = pad4 (of_nat (length payload)), im_tag = tag, im_src_kernel = sk, im_src_worker = sw\<rparr>])"
proof -
  define p where "p = pad4 (of_nat (length payload))"
  define m where "m b = \<lparr>im_buf = Some (payload @ replicate (length b - length payload) 0), im_len = p, im_tag = tag,
       im_src_kernel = sk, im_src_worker = sw\<rparr>" for b :: "u8 list"
  from assms(1) obtain b q where q: "wid < 256" "al (unat p) = Some b" "length payload \<le> length b"
    "cq_push (m b) (k_ingress k (unat wid)) = Some q" "k' = k\<lparr>k_ingress := (k_ingress k)(unat wid := q)\<rparr>"
    by (auto simp: epa_kernel_ingress_push_framed_def Let_def p_def m_def not_le split: if_splits option.splits)
  have "cq_inv q \<and> cq_list q = cq_list (k_ingress k (unat wid)) @ [m b]"
    using cq_pushed [OF assms(3), of "m b"] cq.enq_full [OF assms(3), of "m b"] cq.within_capacity [OF assms(3)] q(4)
    by (cases "unat (cq_count (k_ingress k (unat wid))) < length (cq_slots (k_ingress k (unat wid)))") auto
  moreover have "length b = unat p" using q(2) assms(2) by (rule alloc_okD [rotated])
  ultimately show ?thesis using q unfolding m_def p_def [symmetric] by (intro conjI exI [of _ q]) simp_all
qed

text \<open>C4: a signal between kernels that reports success was allowed and delivered. The target's
  table admits the sender at the worker the message goes to, which is the one asked for when one was; that
  worker's ingress queue has one more message at its end, the payload padded with zeros to whole words
  and signed with the sender's own uid and worker; every other queue, every other kernel and the
  registry are untouched, and the target is asked to stop and look.\<close>

theorem far_signal_delivers:
  assumes "epa_kernel_far_signal_by_uid al i source_wid uid hint payload tag sy = (Ok (), sy')"
    and "alloc_ok al" and "\<And>j q. cq_inv (k_ingress (sy_k sy j) q)"
  shows "\<exists>t dst q. registry_find_kernel_by_uid_locked sy uid = Some t \<and> dst < 256 \<and> dst \<noteq> 0
     \<and> (hint \<noteq> 0 \<longrightarrow> dst = hint) \<and> kernel_acl_allows (sy_k sy t) (k_uid (sy_k sy i)) dst
     \<and> sy' = sy_upd t (\<lambda>k. k\<lparr>k_ingress := (k_ingress k)(unat dst := q), k_interrupt := True\<rparr>) sy
     \<and> cq_list q = cq_list (k_ingress (sy_k sy t) (unat dst)) @
         [\<lparr>im_buf = Some (payload @ replicate (unat (pad4 (of_nat (length payload))) - length payload) 0),
           im_len = pad4 (of_nat (length payload)), im_tag = tag,
           im_src_kernel = k_uid (sy_k sy i), im_src_worker = source_wid\<rparr>]"
proof -
  from assms(1) obtain t where t: "registry_find_kernel_by_uid_locked sy uid = Some t"
    by (auto simp: epa_kernel_far_signal_by_uid_def Let_def split: if_splits option.splits)
  define tk where "tk = sy_k sy t"
  define r where "r = k_uid (sy_k sy i)"
  define dst where "dst = (if hint \<noteq> 0 then hint else if kernel_acl_has_entries tk
       then kernel_acl_first_route_for_remote tk r else kernel_default_ingress_wid tk)"
  obtain res tk' where p: "epa_kernel_ingress_push_framed al dst tag payload r source_wid tk = (res, tk')" by force
  note f = assms(1) [unfolded epa_kernel_far_signal_by_uid_def Let_def t option.case, folded tk_def r_def,
      folded dst_def, unfolded p prod.case]
  then have ok: "hint \<noteq> 0 \<longrightarrow> kernel_acl_allows tk r hint" "dst \<noteq> 0"
    and res: "res = COk ()" and sy': "sy' = sy_upd t (\<lambda>_. epa_kernel_request_interrupt tk') sy"
    by (auto split: if_splits cres.splits)
  have allowed: "kernel_acl_allows tk r dst"
    using ok first_route_allowed [of tk r] by (auto simp: dst_def acl_allows_iff kernel_acl_has_entries_def)
  from push_framed_ok [OF _ assms(2), of dst tag payload r source_wid tk tk'] p res assms(3) [of t]
  obtain q where q: "dst < 256" "tk' = tk\<lparr>k_ingress := (k_ingress tk)(unat dst := q)\<rparr>"
    "cq_list q = cq_list (k_ingress tk (unat dst)) @
         [\<lparr>im_buf = Some (payload @ replicate (unat (pad4 (of_nat (length payload))) - length payload) 0),
           im_len = pad4 (of_nat (length payload)), im_tag = tag, im_src_kernel = r, im_src_worker = source_wid\<rparr>]"
    unfolding tk_def by blast
  have "sy' = sy_upd t (\<lambda>k. k\<lparr>k_ingress := (k_ingress k)(unat dst := q), k_interrupt := True\<rparr>) sy"
    unfolding sy' q(2) by (simp add: sy_upd_def epa_kernel_request_interrupt_def tk_def)
  with t q ok allowed show ?thesis
    unfolding tk_def r_def by (intro exI [of _ t] exI [of _ dst] exI [of _ q]) (auto simp: dst_def)
qed

theorem far_signal_delivers_witness:
  "\<exists>sy'. epa_kernel_far_signal_by_uid zero_alloc 0 0 10 3 [1, 2, 3, 4, 5] 7 (admin_sys []) = (Ok (), sy')
     \<and> k_interrupt (sy_k sy' 0)"
proof -
  have a: "\<And>j q. cq_inv (k_ingress (sy_k (admin_sys []) j) q)"
    using cq_zero_inv [of 16 ingress_zero] by (simp add: admin_sys_def admin_kernel_def kernel_zero_def)
  obtain sy' where r: "epa_kernel_far_signal_by_uid zero_alloc 0 0 10 3 [1, 2, 3, 4, 5] 7 (admin_sys []) = (Ok (), sy')"
    by (simp add: epa_kernel_far_signal_by_uid_def admin_sys_facts Let_def acl_allows_iff epa_kernel_ingress_push_framed_def
        zero_alloc_def pad4_def cq_push_def admin_sys_def admin_kernel_def kernel_zero_def program_zero_def cq_zero_def
        cq_qmax_def kernel_actor_has_privilege_def registry_find_kernel_by_uid_locked_def)
  from far_signal_delivers [OF r alloc_ok_zero a] show ?thesis using r
    by (auto simp: sy_upd_def admin_sys_facts)
qed

text \<open>C18: a refused signal leaves no trace but a fault. When the signal reports an error, no
  ingress queue of any kernel and nothing of the registry has changed; at most the sending worker has
  been marked faulted, with the reason. This covers a missing target, a target whose table does not
  admit the sender, a target without an ingress worker, a full queue and a failed allocation.\<close>

theorem far_signal_error_frame:
  assumes "epa_kernel_far_signal_by_uid al i source_wid uid hint payload tag sy = (Err e, sy')"
  shows "sy' = sy \<or> (\<exists>msg. sy' = sy_upd i (k_upd_w (unat source_wid) (\<lambda>w. w\<lparr>w_faulted := True, w_fault_message := msg\<rparr>)) sy
     \<and> w_inited (k_workers (sy_k sy i) (unat source_wid)))"
  using assms unfolding epa_kernel_far_signal_by_uid_def Let_def
  by (auto simp: far_fault_def split: if_splits option.splits prod.splits cres.splits)

theorem far_signal_error_frame_witness:
  "\<exists>e sy'. epa_kernel_far_signal_by_uid zero_alloc 0 0 10 5 [1] 7 (admin_sys [\<lparr>acl_remote = 99, acl_wid = 3\<rparr>]) = (Err e, sy')
     \<and> k_ingress (sy_k sy' 0) = k_ingress (sy_k (admin_sys [\<lparr>acl_remote = 99, acl_wid = 3\<rparr>]) 0)"
proof -
  let ?s = "admin_sys [\<lparr>acl_remote = 99, acl_wid = 3\<rparr>]"
  obtain e sy' where r: "epa_kernel_far_signal_by_uid zero_alloc 0 0 10 5 [1] 7 ?s = (Err e, sy')"
    by (simp add: epa_kernel_far_signal_by_uid_def admin_sys_facts Let_def acl_allows_iff)
  from far_signal_error_frame [OF r] have "k_ingress (sy_k sy' 0) = k_ingress (sy_k ?s 0)"
    by (auto simp: sy_upd_def k_upd_w_def)
  with r show ?thesis by blast
qed

end
