(* ===== verification/AsmText.thy ===== *)
theory AsmText
  imports Float32
begin

text \<open>
  The text functions of the assembler, \<open>src/epa_asm_compiler.c\<close>: comments, trimming,
  tokens, and numbers, with the parts of the C library they rest on (\<open>isspace\<close>,
  \<open>tolower\<close>, \<open>strtoul\<close>, \<open>strtol\<close>, \<open>strtof\<close> in the C locale, on a
  64-bit \<open>long\<close>). A C string is a list of characters without a NUL.
\<close>

section \<open>Characters\<close>

definition c_isspace :: "char \<Rightarrow> bool" where
  "c_isspace c \<longleftrightarrow> (let n = of_char c :: nat in n = 32 \<or> 9 \<le> n \<and> n \<le> 13)"

definition c_tolower :: "char \<Rightarrow> char" where
  "c_tolower c = (let n = of_char c :: nat in if 65 \<le> n \<and> n \<le> 90 then char_of (n + 32) else c)"

definition c_isdigit :: "char \<Rightarrow> bool" where
  "c_isdigit c \<longleftrightarrow> (let n = of_char c :: nat in 48 \<le> n \<and> n \<le> 57)"

text \<open>The value of a digit or letter, as in the bases up to 36.\<close>

definition digit_val :: "char \<Rightarrow> nat option" where
  "digit_val c =
     (let n = of_char c :: nat in
      if 48 \<le> n \<and> n \<le> 57 then Some (n - 48)
      else if 65 \<le> n \<and> n \<le> 90 then Some (n - 55)
      else if 97 \<le> n \<and> n \<le> 122 then Some (n - 87)
      else None)"

text \<open>\<open>strcasecmp\<close> as the assembler writes it.\<close>

fun ieq :: "string \<Rightarrow> string \<Rightarrow> bool" where
  "ieq (a # as) (b # bs) = (if c_tolower a \<noteq> c_tolower b then False else ieq as bs)"
| "ieq as bs = (as = [] \<and> bs = [])"

text \<open>The part of a buffer a C string function sees.\<close>

definition c_string :: "string \<Rightarrow> string" where
  "c_string s = takeWhile (\<lambda>c. of_char c \<noteq> (0 :: nat)) s"

section \<open>Comments, blanks and tokens\<close>

text \<open>The text before the first \<open>//\<close>.\<close>

fun cut_slashes :: "string \<Rightarrow> string" where
  "cut_slashes [] = []"
| "cut_slashes (c # cs) =
     (if c = CHR ''/'' \<and> cs \<noteq> [] \<and> hd cs = CHR ''/'' then [] else c # cut_slashes cs)"

definition strip_comment :: "string \<Rightarrow> string" where
  "strip_comment line = takeWhile (\<lambda>c. c \<noteq> CHR '';'') (cut_slashes line)"

definition trim_comment :: "string \<Rightarrow> string" where
  "trim_comment s = takeWhile (\<lambda>c. c \<noteq> CHR ''#'') (cut_slashes s)"

definition ltrim :: "string \<Rightarrow> string" where
  "ltrim s = dropWhile c_isspace s"

definition rtrim :: "string \<Rightarrow> string" where
  "rtrim s = rev (dropWhile c_isspace (rev s))"

text \<open>At most \<open>n\<close> tokens; the rest of the line is not looked at.\<close>

fun tokens :: "nat \<Rightarrow> string \<Rightarrow> string list" where
  "tokens 0 s = []"
| "tokens (Suc n) s =
     (let s' = ltrim s in
      if s' = [] then []
      else takeWhile (\<lambda>c. \<not> c_isspace c) s' # tokens n (dropWhile (\<lambda>c. \<not> c_isspace c) s'))"

section \<open>Integers\<close>

fun scan_digits :: "nat \<Rightarrow> int \<Rightarrow> string \<Rightarrow> int \<times> string" where
  "scan_digits b v [] = (v, [])"
| "scan_digits b v (c # cs) =
     (case digit_val c of
        Some d \<Rightarrow> if d < b then scan_digits b (v * int b + int d) cs else (v, c # cs)
      | None \<Rightarrow> (v, c # cs))"

definition starts_digit :: "nat \<Rightarrow> string \<Rightarrow> bool" where
  "starts_digit b s = (case s of [] \<Rightarrow> False | c # cs \<Rightarrow> (case digit_val c of None \<Rightarrow> False | Some d \<Rightarrow> d < b))"

text \<open>Base 0 takes the base from the prefix; a \<open>0x\<close> without a digit after it is the
  number 0.\<close>

definition scan_unsigned :: "nat \<Rightarrow> string \<Rightarrow> (int \<times> string) option" where
  "scan_unsigned base s =
     (if base = 0 \<and> length s > 2 \<and> hd s = CHR ''0'' \<and> c_tolower (s ! 1) = CHR ''x'' \<and> starts_digit 16 (drop 2 s)
      then Some (scan_digits 16 0 (drop 2 s))
      else
        let b = (if base \<noteq> 0 then base else if s \<noteq> [] \<and> hd s = CHR ''0'' then 8 else 10) in
        if starts_digit b s then Some (scan_digits b 0 s) else None)"

text \<open>Sign, magnitude and rest; \<open>None\<close>: no conversion.\<close>

definition scan_integer :: "nat \<Rightarrow> string \<Rightarrow> (bool \<times> int \<times> string) option" where
  "scan_integer base s =
     (let s1 = ltrim s;
          neg = (s1 \<noteq> [] \<and> hd s1 = CHR ''-'');
          s2 = (if s1 \<noteq> [] \<and> (hd s1 = CHR ''-'' \<or> hd s1 = CHR ''+'') then tl s1 else s1)
      in map_option (\<lambda>(v, rest). (neg, v, rest)) (scan_unsigned base s2))"

definition c_strtoul :: "nat \<Rightarrow> string \<Rightarrow> u64 \<times> string" where
  "c_strtoul base s =
     (case scan_integer base s of
        None \<Rightarrow> (0, s)
      | Some (neg, v, rest) \<Rightarrow>
          (if v \<ge> 2 ^ 64 then - 1 else if neg then - word_of_int v else word_of_int v, rest))"

definition c_strtol :: "nat \<Rightarrow> string \<Rightarrow> int \<times> string" where
  "c_strtol base s =
     (case scan_integer base s of
        None \<Rightarrow> (0, s)
      | Some (neg, v, rest) \<Rightarrow>
          (if neg then max (- v) (- (2 ^ 63)) else min v (2 ^ 63 - 1), rest))"

definition parse_u32 :: "string \<Rightarrow> u32 option" where
  "parse_u32 t =
     (if t = [] then None
      else let (v, rest) = c_strtoul 0 t in if rest \<noteq> [] then None else Some (ucast v))"

definition parse_i32 :: "string \<Rightarrow> u32 option" where
  "parse_i32 t =
     (if t = [] then None
      else let (v, rest) = c_strtol 0 t in if rest \<noteq> [] then None else Some (word_of_int v))"

text \<open>A register is \<open>R\<close> and a decimal number up to 255.\<close>

definition parse_reg_tok :: "string \<Rightarrow> u32 option" where
  "parse_reg_tok t =
     (if t = [] then None
      else if \<not> (hd t = CHR ''R'' \<or> hd t = CHR ''r'') then None
      else if tl t = [] then None
      else let (v, rest) = c_strtol 10 (tl t) in
        if rest \<noteq> [] then None
        else if v < 0 \<or> v > 255 then None
        else Some (word_of_int v))"

definition parse_u8_tok :: "string \<Rightarrow> u8 option" where
  "parse_u8_tok t = (case parse_u32 t of None \<Rightarrow> None | Some v \<Rightarrow> if v > 255 then None else Some (ucast v))"

definition parse_u16_tok :: "string \<Rightarrow> u16 option" where
  "parse_u16_tok t = (case parse_u32 t of None \<Rightarrow> None | Some v \<Rightarrow> if v > 65535 then None else Some (ucast v))"

definition parse_reg_u8_tok :: "string \<Rightarrow> u8 option" where
  "parse_reg_u8_tok t = (case parse_reg_tok t of None \<Rightarrow> None | Some v \<Rightarrow> if v > 255 then None else Some (ucast v))"

definition parse_reg_or_u8_tok :: "string \<Rightarrow> u8 option" where
  "parse_reg_or_u8_tok t =
     (case parse_reg_tok t of
        Some v \<Rightarrow> if v > 255 then None else Some (ucast v)
      | None \<Rightarrow> parse_u8_tok t)"

definition parse_reg4_or_u8_tok :: "string \<Rightarrow> u8 option" where
  "parse_reg4_or_u8_tok t = (case parse_reg_or_u8_tok t of None \<Rightarrow> None | Some v \<Rightarrow> if v \<ge> 4 then None else Some v)"

definition parse_mode_tok :: "string \<Rightarrow> u8 option" where
  "parse_mode_tok t =
     (if ieq t ''cuda'' \<or> ieq t ''gpu'' then Some 1
      else case parse_u32 t of None \<Rightarrow> None | Some v \<Rightarrow> if v = 0 \<or> v = 1 then Some (ucast v) else None)"

section \<open>Floats\<close>

text \<open>The float nearest to \<open>n / d\<close>: the quotient keeps at least 64 bits and a sticky
  bit.\<close>

definition f32_of_ratio :: "bool \<Rightarrow> nat \<Rightarrow> nat \<Rightarrow> u32" where
  "f32_of_ratio s n d =
     (let k = bit_len d + 64; m = n * 2 ^ k in
      f32_round s (2 * (m div d) + (if m mod d = 0 then 0 else 1)) (- int k - 1))"

text \<open>Digits with at most one point: mantissa, number of digits after the point, number of
  digits, rest.\<close>

definition scan_mantissa :: "nat \<Rightarrow> string \<Rightarrow> int \<times> nat \<times> nat \<times> string" where
  "scan_mantissa b s =
     (let (v, r) = scan_digits b 0 s in
      if r \<noteq> [] \<and> hd r = CHR ''.'' then
        (let (v', r') = scan_digits b v (tl r) in
         (v', length (tl r) - length r', (length s - length r) + (length (tl r) - length r'), r'))
      else (v, 0, length s - length r, r))"

text \<open>An exponent is taken only with a digit in it.\<close>

definition scan_exponent :: "char \<Rightarrow> string \<Rightarrow> int \<times> string" where
  "scan_exponent c s =
     (if s \<noteq> [] \<and> c_tolower (hd s) = c then
        (let s1 = tl s;
             neg = (s1 \<noteq> [] \<and> hd s1 = CHR ''-'');
             s2 = (if s1 \<noteq> [] \<and> (hd s1 = CHR ''-'' \<or> hd s1 = CHR ''+'') then tl s1 else s1)
         in if starts_digit 10 s2 then (let (v, r) = scan_digits 10 0 s2 in (if neg then - v else v, r))
            else (0, s))
      else (0, s))"

definition f32_scaled :: "bool \<Rightarrow> nat \<Rightarrow> nat \<Rightarrow> int \<Rightarrow> u32" where
  "f32_scaled s m b e = (if e \<ge> 0 then f32_of_ratio s (m * b ^ nat e) 1 else f32_of_ratio s m (b ^ nat (- e)))"

text \<open>The pattern of a NaN is left to the implementation: \<open>fnan\<close> of the sign and of the
  characters in parentheses.\<close>

definition nan_tail :: "string \<Rightarrow> string \<times> string" where
  "nan_tail s =
     (if s \<noteq> [] \<and> hd s = CHR ''('' then
        (let r = dropWhile (\<lambda>c. digit_val c \<noteq> None \<or> c = CHR ''_'') (tl s) in
         if r \<noteq> [] \<and> hd r = CHR '')'' then (take (length (tl s) - length r) (tl s), tl r) else ([], s))
      else ([], s))"

definition c_strtof :: "(bool \<Rightarrow> string \<Rightarrow> u32) \<Rightarrow> string \<Rightarrow> u32 \<times> string" where
  "c_strtof fnan s =
     (let s1 = ltrim s;
          neg = (s1 \<noteq> [] \<and> hd s1 = CHR ''-'');
          s2 = (if s1 \<noteq> [] \<and> (hd s1 = CHR ''-'' \<or> hd s1 = CHR ''+'') then tl s1 else s1)
      in if ieq (take 8 s2) ''infinity'' then (f32_inf neg, drop 8 s2)
         else if ieq (take 3 s2) ''inf'' then (f32_inf neg, drop 3 s2)
         else if ieq (take 3 s2) ''nan'' then
           (let (seq, r) = nan_tail (drop 3 s2) in (fnan neg seq, r))
         else
           let hex = (length s2 > 2 \<and> hd s2 = CHR ''0'' \<and> c_tolower (s2 ! 1) = CHR ''x'');
               (hm, hf, hn, hr) = scan_mantissa 16 (drop 2 s2);
               (m, f, n, r) = scan_mantissa 10 s2
           in if hex \<and> hn > 0 then
                (let (e, r') = scan_exponent (CHR ''p'') hr in (f32_scaled neg (nat hm) 2 (e - 4 * int hf), r'))
              else if n > 0 then
                (let (e, r') = scan_exponent (CHR ''e'') r in (f32_scaled neg (nat m) 10 (e - int f), r'))
              else (0, s))"

definition parse_f32 :: "(bool \<Rightarrow> string \<Rightarrow> u32) \<Rightarrow> string \<Rightarrow> u32 option" where
  "parse_f32 fnan t =
     (if t = [] then None
      else let (v, rest) = c_strtof fnan t in if rest \<noteq> [] then None else Some v)"

end
