(* ===== verification/AsmEmit.thy ===== *)
theory AsmEmit
  imports AsmText Opcodes
begin

text \<open>
  The assembler's core, \<open>src/epa_asm_compiler.c\<close>: the growing output buffer, labels and
  fixups, the table of instructions, and the two passes that turn a text into a program image.
  \<open>ok n\<close> is the answer of \<open>malloc\<close> or \<open>realloc\<close> for \<open>n\<close> bytes, and
  \<open>fnan\<close> the implementation's choice of NaN. A result \<open>Inl e\<close> is the return value 0
  with the format of the message left in \<open>err\<close>, empty where the code leaves none.
\<close>

section \<open>The output buffer\<close>

record asm_out =
  o_buf :: "u8 list"
  o_cap :: nat

definition out_zero :: asm_out where
  "out_zero = \<lparr>o_buf = [], o_cap = 0\<rparr>"

function grow_cap :: "nat \<Rightarrow> nat \<Rightarrow> nat" where
  "grow_cap n need = (if n = 0 \<or> need \<le> n then n else grow_cap (n * 2) need)"
  by pat_completeness auto
termination by (relation "measure (\<lambda>(n, need). need - n)") auto

declare grow_cap.simps [simp del]

definition out_reserve :: "(nat \<Rightarrow> bool) \<Rightarrow> asm_out \<Rightarrow> nat \<Rightarrow> asm_out option" where
  "out_reserve ok ob add =
     (if length (o_buf ob) + add \<le> o_cap ob then Some ob
      else let ncap = grow_cap (if o_cap ob = 0 then 256 else o_cap ob) (length (o_buf ob) + add) in
        if ok ncap then Some (ob\<lparr>o_cap := ncap\<rparr>) else None)"

definition out_bytes :: "(nat \<Rightarrow> bool) \<Rightarrow> asm_out \<Rightarrow> u8 list \<Rightarrow> asm_out option" where
  "out_bytes ok ob bs = map_option (\<lambda>ob2. ob2\<lparr>o_buf := o_buf ob2 @ bs\<rparr>) (out_reserve ok ob (length bs))"

definition out_u8 :: "(nat \<Rightarrow> bool) \<Rightarrow> asm_out \<Rightarrow> u8 \<Rightarrow> asm_out option" where
  "out_u8 ok ob v = out_bytes ok ob [v]"

definition out_u16_le :: "(nat \<Rightarrow> bool) \<Rightarrow> asm_out \<Rightarrow> u16 \<Rightarrow> asm_out option" where
  "out_u16_le ok ob v = out_bytes ok ob [ucast (v AND 0xFF), ucast (drop_bit 8 v AND 0xFF)]"

definition out_u32_le :: "(nat \<Rightarrow> bool) \<Rightarrow> asm_out \<Rightarrow> u32 \<Rightarrow> asm_out option" where
  "out_u32_le ok ob v = out_bytes ok ob [ucast (v AND 0xFF), ucast (drop_bit 8 v AND 0xFF),
     ucast (drop_bit 16 v AND 0xFF), ucast (drop_bit 24 v AND 0xFF)]"

definition out_opcode :: "(nat \<Rightarrow> bool) \<Rightarrow> asm_out \<Rightarrow> u16 \<Rightarrow> asm_out option" where
  "out_opcode ok ob opc = (if opc AND 0x80 \<noteq> 0 then out_u16_le ok ob opc else out_u8 ok ob (ucast opc))"

text \<open>\<open>float\<close> values are bit patterns.\<close>

definition out_f32_le :: "(nat \<Rightarrow> bool) \<Rightarrow> asm_out \<Rightarrow> u32 \<Rightarrow> asm_out option" where
  "out_f32_le ok ob f = out_u32_le ok ob f"

section \<open>Labels and fixups\<close>

record asm_fixup =
  fx_name :: string
  fx_imm :: nat
  fx_next :: nat

record asm_ctx =
  ac_labels :: "(string \<times> nat) list"
  ac_cap_labels :: nat
  ac_fixups :: "asm_fixup list"
  ac_cap_fix :: nat

definition ctx_zero :: asm_ctx where
  "ctx_zero = \<lparr>ac_labels = [], ac_cap_labels = 0, ac_fixups = [], ac_cap_fix = 0\<rparr>"

text \<open>Names are compared whole and stored cut to 63 characters.\<close>

definition ctx_add_label :: "(nat \<Rightarrow> bool) \<Rightarrow> asm_ctx \<Rightarrow> string \<Rightarrow> nat \<Rightarrow> string + asm_ctx" where
  "ctx_add_label ok ctx name pc =
     (if name = [] then Inl ''line %d: empty label''
      else if list_ex (\<lambda>(n, p). n = name) (ac_labels ctx) then Inl ''line %d: duplicate label %s''
      else
        let ncap = (if ac_cap_labels ctx \<noteq> 0 then ac_cap_labels ctx * 2 else 32);
            grow = (length (ac_labels ctx) + 1 > ac_cap_labels ctx)
        in if grow \<and> \<not> ok (ncap * 72) then Inl ''line %d: OOM adding label''
           else Inr (ctx\<lparr>ac_labels := ac_labels ctx @ [(take 63 name, pc)],
                         ac_cap_labels := (if grow then ncap else ac_cap_labels ctx)\<rparr>))"

definition ctx_add_fixup :: "(nat \<Rightarrow> bool) \<Rightarrow> asm_ctx \<Rightarrow> string \<Rightarrow> nat \<Rightarrow> nat \<Rightarrow> string + asm_ctx" where
  "ctx_add_fixup ok ctx name imm_off next_pc =
     (if name = [] then Inl ''line %d: empty jump target''
      else
        let ncap = (if ac_cap_fix ctx \<noteq> 0 then ac_cap_fix ctx * 2 else 32);
            grow = (length (ac_fixups ctx) + 1 > ac_cap_fix ctx)
        in if grow \<and> \<not> ok (ncap * 88) then Inl ''line %d: OOM adding fixup''
           else Inr (ctx\<lparr>ac_fixups := ac_fixups ctx @ [\<lparr>fx_name = take 63 name, fx_imm = imm_off, fx_next = next_pc\<rparr>],
                         ac_cap_fix := (if grow then ncap else ac_cap_fix ctx)\<rparr>))"

fun find_label_in :: "string \<Rightarrow> (string \<times> nat) list \<Rightarrow> nat option" where
  "find_label_in name [] = None"
| "find_label_in name ((n, pc) # ls) = (if n = name then Some pc else find_label_in name ls)"

definition ctx_find_label :: "asm_ctx \<Rightarrow> string \<Rightarrow> nat option" where
  "ctx_find_label ctx name = find_label_in name (ac_labels ctx)"

section \<open>The table of instructions\<close>

datatype arg_kind = AK_NONE | AK_U8 | AK_U16 | AK_U32 | AK_I32 | AK_F32 | AK_MODE | AK_REGU8 | AK_REGU8_OR_U8
  | AK_REG4_OR_U8

datatype emit_helper = HGeneric | HJump | HYield | HPush

record insn_desc =
  in_mnemonic :: string
  in_opcode :: u16
  in_min :: nat
  in_max :: nat
  in_kinds :: "arg_kind list"
  in_helper :: emit_helper

definition insn_table :: "(string \<times> nat \<times> nat \<times> nat \<times> arg_kind list \<times> emit_helper) list" where
  "insn_table =
   [(''NOOP'', 0, 0, 0, [], HGeneric),
    (''END'', 2, 0, 0, [], HGeneric),
    (''SET_MODE'', 1, 3, 3, [AK_U8, AK_U8, AK_U32], HGeneric),
    (''YIELD'', 9, 0, 1, [], HYield),
    (''JMP'', 4, 1, 1, [], HJump),
    (''JZ'', 5, 1, 1, [], HJump),
    (''JNZ'', 6, 1, 1, [], HJump),
    (''JLZ'', 7, 1, 1, [], HJump),
    (''JGZ'', 8, 1, 1, [], HJump),
    (''PUSH'', 0, 1, 1, [], HPush),
    (''POP'', 32, 1, 1, [AK_REG4_OR_U8], HGeneric),
    (''STORE_L'', 43, 1, 1, [AK_U8], HGeneric),
    (''LOAD_L'', 44, 1, 1, [AK_U8], HGeneric),
    (''STORE_LW'', 45, 1, 1, [AK_U32], HGeneric),
    (''LOAD_LW'', 46, 1, 1, [AK_U32], HGeneric),
    (''ADD_I32'', 33, 0, 0, [], HGeneric),
    (''SUB_I32'', 34, 0, 0, [], HGeneric),
    (''MUL_I32'', 35, 0, 0, [], HGeneric),
    (''EQ_I32'', 37, 0, 0, [], HGeneric),
    (''LT_I32'', 36, 0, 0, [], HGeneric),
    (''NE_I32'', 38, 0, 0, [], HGeneric),
    (''LE_I32'', 39, 0, 0, [], HGeneric),
    (''GT_I32'', 40, 0, 0, [], HGeneric),
    (''GE_I32'', 41, 0, 0, [], HGeneric),
    (''DIV_I32'', 42, 0, 0, [], HGeneric),
    (''AND_I32'', 22, 0, 0, [], HGeneric),
    (''OR_I32'', 23, 0, 0, [], HGeneric),
    (''XOR_I32'', 25, 0, 0, [], HGeneric),
    (''NOT_I32'', 102, 0, 0, [], HGeneric),
    (''ROL_BYTE'', 108, 0, 0, [], HGeneric),
    (''ROR_BYTE'', 109, 0, 0, [], HGeneric),
    (''PUSH_F32'', 111, 1, 1, [AK_F32], HGeneric),
    (''ADD_F32'', 112, 0, 0, [], HGeneric),
    (''SUB_F32'', 113, 0, 0, [], HGeneric),
    (''MUL_F32'', 114, 0, 0, [], HGeneric),
    (''DIV_F32'', 115, 0, 0, [], HGeneric),
    (''NEG_F32'', 116, 0, 0, [], HGeneric),
    (''SQRT_F32'', 117, 0, 0, [], HGeneric),
    (''LT_F32'', 118, 0, 0, [], HGeneric),
    (''LE_F32'', 119, 0, 0, [], HGeneric),
    (''GT_F32'', 120, 0, 0, [], HGeneric),
    (''GE_F32'', 121, 0, 0, [], HGeneric),
    (''EQ_F32'', 122, 0, 0, [], HGeneric),
    (''NE_F32'', 123, 0, 0, [], HGeneric),
    (''I32_TO_F32'', 124, 0, 0, [], HGeneric),
    (''F32_TO_I32'', 125, 0, 0, [], HGeneric),
    (''U32_TO_F32'', 126, 0, 0, [], HGeneric),
    (''F32_TO_U32'', 127, 0, 0, [], HGeneric),
    (''CMP'', 47, 0, 0, [], HGeneric),
    (''CMPZ'', 48, 0, 0, [], HGeneric),
    (''MV'', 49, 2, 2, [AK_REG4_OR_U8, AK_REG4_OR_U8], HGeneric),
    (''SET_R'', 50, 2, 2, [AK_REG4_OR_U8, AK_I32], HGeneric),
    (''INC'', 51, 1, 1, [AK_REG4_OR_U8], HGeneric),
    (''DEC'', 52, 1, 1, [AK_REG4_OR_U8], HGeneric),
    (''RLB_MOV1'', 53, 2, 2, [AK_REG4_OR_U8, AK_REG4_OR_U8], HGeneric),
    (''LBR_MOV1'', 54, 2, 2, [AK_REG4_OR_U8, AK_REG4_OR_U8], HGeneric),
    (''RLB_MOV4'', 55, 2, 2, [AK_REG4_OR_U8, AK_REG4_OR_U8], HGeneric),
    (''LBR_MOV4'', 56, 2, 2, [AK_REG4_OR_U8, AK_REG4_OR_U8], HGeneric),
    (''FUNC_START'', 59, 2, 2, [AK_U32, AK_U16], HGeneric),
    (''FUNC_END'', 60, 0, 0, [], HGeneric),
    (''CALL'', 61, 1, 1, [AK_U32], HGeneric),
    (''RET'', 62, 0, 0, [], HGeneric),
    (''AT_ENTRY_START'', 63, 2, 2, [AK_U32, AK_U16], HGeneric),
    (''AT_ENTRY_END'', 64, 0, 0, [], HGeneric),
    (''ENTRY_START'', 10, 4, 4, [AK_U32, AK_U16, AK_U16, AK_U32], HGeneric),
    (''ENTRY_END'', 11, 0, 0, [], HGeneric),
    (''ENTRY_EXEC'', 12, 1, 1, [AK_U8], HGeneric),
    (''ENTRY_HALT'', 13, 1, 1, [AK_U8], HGeneric),
    (''ENTRY_RETIRE'', 17, 1, 1, [AK_U8], HGeneric),
    (''KERNEL_RETIRE'', 18, 0, 0, [], HGeneric),
    (''PRIVILEGE_LOCK'', 20, 0, 0, [], HGeneric),
    (''ACL'', 21, 2, 2, [AK_U8, AK_U8], HGeneric),
    (''PID'', 24, 1, 1, [AK_U8], HGeneric),
    (''VM_STATE'', 110, 1, 1, [AK_U8], HGeneric),
    (''DYNAMIC_POOL'', 14, 5, 5, [AK_U32, AK_U32, AK_U32, AK_U32, AK_U32], HGeneric),
    (''KERNEL_ID'', 15, 2, 2, [AK_U32, AK_U32], HGeneric),
    (''ACL_ALLOW'', 16, 3, 3, [AK_U32, AK_U32, AK_U32], HGeneric),
    (''SYNC'', 26, 0, 0, [], HGeneric),
    (''WAIT_ON_SYNC'', 27, 0, 0, [], HGeneric),
    (''WAIT_FOR_DATA'', 28, 0, 0, [], HGeneric),
    (''DATA_READY'', 29, 1, 1, [AK_U8], HGeneric),
    (''WORKER_TRX'', 71, 3, 3, [AK_U32, AK_U32, AK_U16], HGeneric),
    (''KERNEL_TRX_IN_L'', 65, 3, 3, [AK_U8, AK_U32, AK_U16], HGeneric),
    (''KERNEL_TRX_OUT_L'', 66, 3, 3, [AK_U8, AK_U32, AK_U16], HGeneric),
    (''WORKER_TRX_IN_L'', 67, 2, 2, [AK_U32, AK_U16], HGeneric),
    (''WORKER_TRX_OUT_L'', 68, 2, 2, [AK_U32, AK_U16], HGeneric),
    (''WORKER_TRX_IN_R'', 69, 1, 1, [AK_U8], HGeneric),
    (''WORKER_TRX_OUT_R'', 70, 1, 1, [AK_U8], HGeneric),
    (''KERNEL_GHS_IN_R'', 72, 1, 1, [AK_U32], HGeneric),
    (''G_ALLOC'', 73, 0, 0, [], HGeneric),
    (''G_FREE'', 74, 0, 0, [], HGeneric),
    (''G_XFER'', 75, 0, 0, [], HGeneric),
    (''G_XFERX'', 76, 1, 1, [AK_U32], HGeneric),
    (''G_RESIZE'', 77, 0, 0, [], HGeneric),
    (''G_PTR'', 78, 0, 0, [], HGeneric),
    (''G_META'', 79, 0, 0, [], HGeneric),
    (''G_TAG'', 80, 0, 0, [], HGeneric),
    (''GR_MOV4'', 81, 1, 1, [AK_U8], HGeneric),
    (''GW_MOV4'', 82, 1, 1, [AK_U8], HGeneric),
    (''G_ALLOC_L'', 83, 0, 0, [], HGeneric),
    (''RGM_PUBLISH_L'', 84, 0, 0, [], HGeneric),
    (''RGM_GET'', 85, 0, 0, [], HGeneric),
    (''RGM_META'', 86, 0, 0, [], HGeneric),
    (''RGM_READ4'', 87, 1, 1, [AK_U8], HGeneric),
    (''DYN_ALLOC'', 88, 1, 1, [AK_U32], HGeneric),
    (''DYN_FREE'', 89, 1, 1, [AK_U32], HGeneric),
    (''DYN_LOAD'', 90, 1, 1, [AK_U32], HGeneric),
    (''DYN_STORE'', 91, 1, 1, [AK_U32], HGeneric),
    (''DYN_SWAP'', 92, 1, 1, [AK_U32], HGeneric),
    (''DYN_ITER_HEAD'', 93, 1, 1, [AK_U32], HGeneric),
    (''DYN_ITER_NEXT'', 94, 1, 1, [AK_U32], HGeneric),
    (''BREAK'', 95, 1, 1, [AK_U32], HGeneric),
    (''TRAP'', 96, 1, 1, [AK_U32], HGeneric),
    (''EXCEPT'', 97, 1, 1, [AK_U32], HGeneric),
    (''SIGNAL'', 98, 0, 0, [], HGeneric),
    (''FAR_SIGNAL'', 99, 0, 0, [], HGeneric),
    (''HOST_SIGNAL'', 100, 0, 0, [], HGeneric),
    (''REQUEST'', 101, 1, 1, [AK_U8], HGeneric),
    (''LOAD_CONST'', 58, 1, 1, [AK_U32], HGeneric),
    (''L_ALLOC'', 103, 0, 0, [], HGeneric),
    (''L_RESET'', 104, 0, 0, [], HGeneric),
    (''L_SCOPE_ENTER'', 105, 0, 0, [], HGeneric),
    (''L_SCOPE_LEAVE'', 106, 0, 0, [], HGeneric),
    (''L_SCOPE_ALLOC'', 107, 0, 0, [], HGeneric),
    (''SM_PUT'', 57, 0, 0, [], HGeneric),
    (''BOOT_STAGE_IMAGE'', 128, 0, 0, [], HGeneric),
    (''BOOT_RESET_TO_STAGED'', 129, 0, 0, [], HGeneric),
    (''DYNLIB_IMPORT'', 130, 0, 0, [], HGeneric),
    (''PROCESS_SPAWN'', 131, 0, 0, [], HGeneric)]"

fun find_desc_in :: "string \<Rightarrow> (string \<times> nat \<times> nat \<times> nat \<times> arg_kind list \<times> emit_helper) list \<Rightarrow> insn_desc option" where
  "find_desc_in mn [] = None"
| "find_desc_in mn ((m, opc, mi, ma, kinds, h) # ds) =
     (if ieq m mn
      then Some \<lparr>in_mnemonic = m, in_opcode = of_nat opc, in_min = mi, in_max = ma, in_kinds = kinds, in_helper = h\<rparr>
      else find_desc_in mn ds)"

definition find_desc :: "string \<Rightarrow> insn_desc option" where
  "find_desc mn = find_desc_in mn insn_table"

section \<open>Emitters\<close>

definition or_fail :: "string \<Rightarrow> 'a option \<Rightarrow> string + 'a" where
  "or_fail e x = (case x of None \<Rightarrow> Inl e | Some y \<Rightarrow> Inr y)"

definition bind_e :: "string + 'a \<Rightarrow> ('a \<Rightarrow> string + 'b) \<Rightarrow> string + 'b" where
  "bind_e x f = (case x of Inl e \<Rightarrow> Inl e | Inr y \<Rightarrow> f y)"

definition emit_arg ::
  "(nat \<Rightarrow> bool) \<Rightarrow> (bool \<Rightarrow> string \<Rightarrow> u32) \<Rightarrow> arg_kind \<Rightarrow> string \<Rightarrow> asm_out \<Rightarrow> string + asm_out" where
  "emit_arg ok fnan kind arg ob =
     (case kind of
        AK_NONE \<Rightarrow> Inr ob
      | AK_U8 \<Rightarrow> bind_e (or_fail ''line %d: invalid u8 %s'' (parse_u8_tok arg)) (\<lambda>v. or_fail [] (out_u8 ok ob v))
      | AK_U16 \<Rightarrow> bind_e (or_fail ''line %d: invalid u16 %s'' (parse_u16_tok arg)) (\<lambda>v. or_fail [] (out_u16_le ok ob v))
      | AK_U32 \<Rightarrow> bind_e (or_fail ''line %d: invalid u32 %s'' (parse_u32 arg)) (\<lambda>v. or_fail [] (out_u32_le ok ob v))
      | AK_I32 \<Rightarrow> bind_e (or_fail ''line %d: invalid i32 %s'' (parse_i32 arg)) (\<lambda>v. or_fail [] (out_u32_le ok ob v))
      | AK_F32 \<Rightarrow> bind_e (or_fail ''line %d: invalid f32 %s'' (parse_f32 fnan arg)) (\<lambda>v. or_fail [] (out_f32_le ok ob v))
      | AK_MODE \<Rightarrow> bind_e (or_fail ''line %d: invalid mode %s'' (parse_mode_tok arg)) (\<lambda>v. or_fail [] (out_u8 ok ob v))
      | AK_REGU8 \<Rightarrow> bind_e (or_fail ''line %d: invalid register %s'' (parse_reg_u8_tok arg)) (\<lambda>v. or_fail [] (out_u8 ok ob v))
      | AK_REGU8_OR_U8 \<Rightarrow>
          bind_e (or_fail ''line %d: invalid register/u8 %s'' (parse_reg_or_u8_tok arg)) (\<lambda>v. or_fail [] (out_u8 ok ob v))
      | AK_REG4_OR_U8 \<Rightarrow>
          bind_e (or_fail ''line %d: invalid reg (0..3) %s'' (parse_reg4_or_u8_tok arg)) (\<lambda>v. or_fail [] (out_u8 ok ob v)))"

fun emit_args ::
  "(nat \<Rightarrow> bool) \<Rightarrow> (bool \<Rightarrow> string \<Rightarrow> u32) \<Rightarrow> arg_kind list \<Rightarrow> string list \<Rightarrow> asm_out \<Rightarrow> string + asm_out" where
  "emit_args ok fnan [] args ob = Inr ob"
| "emit_args ok fnan (k # ks) args ob =
     bind_e (emit_arg ok fnan k (case args of [] \<Rightarrow> [] | a # _ \<Rightarrow> a) ob) (emit_args ok fnan ks (tl args))"

text \<open>\<open>toks\<close> are the tokens with the mnemonic in front.\<close>

type_synonym emitter = "string list \<Rightarrow> insn_desc \<Rightarrow> asm_ctx \<Rightarrow> asm_out \<Rightarrow> string + (asm_ctx \<times> asm_out)"

definition emit_generic :: "(nat \<Rightarrow> bool) \<Rightarrow> (bool \<Rightarrow> string \<Rightarrow> u32) \<Rightarrow> emitter" where
  "emit_generic ok fnan toks d ctx ob =
     (let nargs = length toks - 1 in
      if nargs < in_min d \<or> nargs > in_max d then Inl ''line %d: %s''
      else bind_e (or_fail [] (out_opcode ok ob (in_opcode d)))
        (\<lambda>o1. bind_e (emit_args ok fnan (in_kinds d) (tl toks) o1) (\<lambda>o2. Inr (ctx, o2))))"

definition put_u32_le :: "nat \<Rightarrow> u32 \<Rightarrow> u8 list \<Rightarrow> u8 list" where
  "put_u32_le off v bs = bs[off := ucast (v AND 0xFF), off + 1 := ucast (drop_bit 8 v AND 0xFF),
     off + 2 := ucast (drop_bit 16 v AND 0xFF), off + 3 := ucast (drop_bit 24 v AND 0xFF)]"

definition helper_emit_jump_rel32 :: "(nat \<Rightarrow> bool) \<Rightarrow> emitter" where
  "helper_emit_jump_rel32 ok toks d ctx ob =
     (if length toks \<noteq> 2 then Inl ''line %d: %s''
      else bind_e (or_fail ''line %d: OOM'' (out_opcode ok ob (in_opcode d))) (\<lambda>o1.
        let imm_off = length (o_buf o1) in
        bind_e (or_fail ''line %d: OOM'' (out_u32_le ok o1 0)) (\<lambda>o2.
          let next_pc = length (o_buf o2); t = toks ! 1 in
          if t \<noteq> [] \<and> (hd t = CHR ''+'' \<or> hd t = CHR ''-'' \<or> c_isdigit (hd t)) then
            (let (rel, rest) = c_strtol 0 t in
             if rest \<noteq> [] then Inl ''line %d: invalid rel32 %s''
             else Inr (ctx, o2\<lparr>o_buf := put_u32_le imm_off (word_of_int rel) (o_buf o2)\<rparr>))
          else bind_e (ctx_add_fixup ok ctx t imm_off next_pc) (\<lambda>ctx'. Inr (ctx', o2)))))"

definition helper_emit_yield :: "(nat \<Rightarrow> bool) \<Rightarrow> emitter" where
  "helper_emit_yield ok toks d ctx ob =
     (if length toks \<noteq> 1 \<and> length toks \<noteq> 2 then Inl ''line %d: YIELD takes 0 or 1 param (soft|hard|0|1)''
      else
        bind_e (if length toks = 2 then
                  (if ieq (toks ! 1) ''soft'' then Inr 0
                   else if ieq (toks ! 1) ''hard'' then Inr 1
                   else case parse_u32 (toks ! 1) of
                     None \<Rightarrow> Inl ''line %d: invalid YIELD policy %s''
                   | Some v \<Rightarrow> if v \<noteq> 0 \<and> v \<noteq> 1 then Inl ''line %d: invalid YIELD policy %s'' else Inr (ucast v))
                else Inr (0 :: u8))
          (\<lambda>pol. bind_e (or_fail [] (out_opcode ok ob 9)) (\<lambda>o1. bind_e (or_fail [] (out_u8 ok o1 pol)) (\<lambda>o2. Inr (ctx, o2)))))"

definition helper_emit_push :: "(nat \<Rightarrow> bool) \<Rightarrow> emitter" where
  "helper_emit_push ok toks d ctx ob =
     (if length toks \<noteq> 2 then Inl ''line %d: PUSH requires 1 param (Rn or i32)''
      else case parse_reg_tok (toks ! 1) of
        Some ridx \<Rightarrow>
          if ridx \<ge> 4 then Inl ''line %d: PUSH reg out of range %s''
          else bind_e (or_fail [] (out_opcode ok ob 31)) (\<lambda>o1. bind_e (or_fail [] (out_u8 ok o1 (ucast ridx))) (\<lambda>o2. Inr (ctx, o2)))
      | None \<Rightarrow>
          bind_e (or_fail ''line %d: invalid i32 %s'' (parse_i32 (toks ! 1))) (\<lambda>v.
            bind_e (or_fail [] (out_opcode ok ob 30)) (\<lambda>o1. bind_e (or_fail [] (out_u32_le ok o1 v)) (\<lambda>o2. Inr (ctx, o2)))))"

text \<open>The length of an instruction before it is emitted, as the compiler of the E language asks
  for it; \<open>-1\<close>: not known.\<close>

fun arg_size :: "arg_kind \<Rightarrow> int option" where
  "arg_size AK_NONE = None"
| "arg_size AK_U16 = Some 2"
| "arg_size AK_U32 = Some 4"
| "arg_size AK_I32 = Some 4"
| "arg_size AK_F32 = Some 4"
| "arg_size k = Some 1"

fun args_size :: "arg_kind list \<Rightarrow> int option" where
  "args_size [] = Some 0"
| "args_size (k # ks) =
     (case arg_size k of None \<Rightarrow> None | Some n \<Rightarrow> map_option (\<lambda>m. n + m) (args_size ks))"

definition epa_asm_instr_total_bytes :: "string \<Rightarrow> string option \<Rightarrow> int" where
  "epa_asm_instr_total_bytes mnemonic first_arg =
     (if ieq mnemonic ''PUSH'' then
        (case first_arg of
           Some (r # c # cs) \<Rightarrow>
             if (r = CHR ''R'' \<or> r = CHR ''r'') \<and> c_isdigit c then int (epa_opcode_width 31) + 1
             else int (epa_opcode_width 30) + 4
         | _ \<Rightarrow> int (epa_opcode_width 30) + 4)
      else case find_desc mnemonic of
        None \<Rightarrow> - 1
      | Some d \<Rightarrow>
          (case in_helper d of
             HJump \<Rightarrow> int (epa_opcode_width (in_opcode d)) + 4
           | HYield \<Rightarrow> int (epa_opcode_width (in_opcode d)) + 1
           | HPush \<Rightarrow> - 1
           | HGeneric \<Rightarrow>
               (case args_size (in_kinds d) of None \<Rightarrow> - 1 | Some n \<Rightarrow> int (epa_opcode_width (in_opcode d)) + n)))"

section \<open>Lines\<close>

definition emit_insn :: "(nat \<Rightarrow> bool) \<Rightarrow> (bool \<Rightarrow> string \<Rightarrow> u32) \<Rightarrow> string list \<Rightarrow> asm_ctx \<Rightarrow> asm_out \<Rightarrow> string + (asm_ctx \<times> asm_out)" where
  "emit_insn ok fnan toks ctx ob =
     (case find_desc (hd toks) of
        None \<Rightarrow> Inl ''line %d: unknown instruction %s''
      | Some d \<Rightarrow>
          (case in_helper d of
             HGeneric \<Rightarrow> emit_generic ok fnan toks d ctx ob
           | HJump \<Rightarrow> helper_emit_jump_rel32 ok toks d ctx ob
           | HYield \<Rightarrow> helper_emit_yield ok toks d ctx ob
           | HPush \<Rightarrow> helper_emit_push ok toks d ctx ob))"

definition emit_line :: "(nat \<Rightarrow> bool) \<Rightarrow> (bool \<Rightarrow> string \<Rightarrow> u32) \<Rightarrow> string \<Rightarrow> asm_ctx \<Rightarrow> asm_out \<Rightarrow> string + (asm_ctx \<times> asm_out)" where
  "emit_line ok fnan line ctx ob =
     (let toks = tokens 16 (rtrim (ltrim (trim_comment line))) in
      if toks = [] then Inr (ctx, ob)
      else let t0 = hd toks in
        if length t0 > 1 \<and> last t0 = CHR '':'' then
          bind_e (ctx_add_label ok ctx (butlast t0) (length (o_buf ob))) (\<lambda>ctx'.
            if length toks = 1 then Inr (ctx', ob) else emit_insn ok fnan (tl toks) ctx' ob)
        else emit_insn ok fnan toks ctx ob)"

end
