(* ===== verification/AsmCompile.thy ===== *)
theory AsmCompile
  imports AsmEmit
begin

text \<open>
  The two passes of the assembler, \<open>src/epa_asm_compiler.c\<close>: the first collects the string
  constants, the second emits the constant block and the instructions and patches the jumps. The
  model of the file is its text; \<open>fgets\<close> gives it in pieces of at most 1023 characters.
\<close>

section \<open>String constants\<close>

text \<open>\<open>is_sstr_directive\<close> and \<open>is_const_str_directive\<close>, by their word.\<close>

definition directive_word :: "string \<Rightarrow> string" where
  "directive_word s = (let s1 = ltrim s in if s1 \<noteq> [] \<and> hd s1 = CHR ''.'' then tl s1 else s1)"

definition is_sstr_directive :: "string \<Rightarrow> bool" where
  "is_sstr_directive s \<longleftrightarrow>
     (let w = directive_word s in
      ieq (take 4 w) ''sstr'' \<and> (drop 4 w = [] \<or> c_isspace (hd (drop 4 w))))"

definition is_const_str_directive :: "string \<Rightarrow> bool" where
  "is_const_str_directive s \<longleftrightarrow>
     (let w = directive_word s in
      ieq (take 9 w) ''const_str'' \<and> (drop 9 w = [] \<or> c_isspace (hd (drop 9 w))))"

definition has_prefix :: "string \<Rightarrow> string \<Rightarrow> bool" where
  "has_prefix p s \<longleftrightarrow> take (length p) s = p"

definition is_const_directive :: "string \<Rightarrow> bool" where
  "is_const_directive s \<longleftrightarrow>
     (let s1 = dropWhile (\<lambda>c. c = CHR '' '' \<or> c = CHR 9) s in
      if s1 = [] \<or> hd s1 \<noteq> CHR ''.'' then False
      else has_prefix ''.SSTR'' s1 \<or> has_prefix ''.CONST_'' s1)"

text \<open>The body of a literal after its opening quote. \<open>cap\<close> is the size of the buffer.\<close>

definition lit_put :: "(nat \<Rightarrow> bool) \<Rightarrow> nat \<Rightarrow> u8 list \<Rightarrow> char \<Rightarrow> string + (nat \<times> u8 list)" where
  "lit_put ok cap buf c =
     (let grow = (length buf + 1 > cap); cap1 = (if grow then cap * 2 else cap) in
      if grow \<and> \<not> ok cap1 then Inl ''line %d: OOM parsing string''
      else if int (length buf) + 1 > 65535 then Inl ''line %d: .SSTR too long (>65535)''
      else Inr (cap1, buf @ [of_char c]))"

definition escaped :: "char \<Rightarrow> char option" where
  "escaped e =
     (if e = CHR ''n'' then Some (CHR 10) else if e = CHR ''r'' then Some (CHR 13)
      else if e = CHR ''t'' then Some (CHR 9) else if e = CHR 92 then Some (CHR 92)
      else if e = CHR 34 then Some (CHR 34) else None)"

fun lit_body :: "(nat \<Rightarrow> bool) \<Rightarrow> string \<Rightarrow> nat \<Rightarrow> u8 list \<Rightarrow> string + u8 list" where
  "lit_body ok [] cap buf = Inl ''line %d: unterminated string literal''"
| "lit_body ok (c # cs) cap buf =
     (if c = CHR 34 then Inr buf
      else if c = CHR 92 then
        (case cs of
           [] \<Rightarrow> Inl ''line %d: unterminated escape''
         | e # cs' \<Rightarrow>
             (case escaped e of
                None \<Rightarrow> Inl ''line %d: unsupported escape''
              | Some x \<Rightarrow> (case lit_put ok cap buf x of Inl m \<Rightarrow> Inl m | Inr (cap1, buf1) \<Rightarrow> lit_body ok cs' cap1 buf1)))
      else (case lit_put ok cap buf c of Inl m \<Rightarrow> Inl m | Inr (cap1, buf1) \<Rightarrow> lit_body ok cs cap1 buf1))"

definition parse_string_lit :: "(nat \<Rightarrow> bool) \<Rightarrow> string \<Rightarrow> string + u8 list" where
  "parse_string_lit ok p =
     (if p = [] \<or> hd p \<noteq> CHR 34 then Inl ''line %d: expected string literal''
      else if \<not> ok 64 then Inl ''line %d: OOM parsing string''
      else lit_body ok (tl p) 64 [])"

text \<open>\<open>Inr None\<close>: not a line with a string constant.\<close>

definition parse_sstr_directive_line :: "(nat \<Rightarrow> bool) \<Rightarrow> string \<Rightarrow> string + (u32 \<times> u8 list) option" where
  "parse_sstr_directive_line ok line =
     (let s = rtrim (ltrim line); is_sstr = is_sstr_directive s; is_cstr = is_const_str_directive s in
      if \<not> is_sstr \<and> \<not> is_cstr then Inr None
      else
        let s1 = (if s \<noteq> [] \<and> hd s = CHR ''.'' then tl s else s);
            s2 = ltrim (drop (if is_sstr then 4 else 9) s1);
            idtok = take 63 (takeWhile (\<lambda>c. \<not> c_isspace c) s2);
            s3 = ltrim (drop (length idtok) s2)
        in if idtok = [] then Inl ''line %d: %s missing id''
           else case parse_u32 idtok of
             None \<Rightarrow> Inl ''line %d: invalid %s id %s''
           | Some i \<Rightarrow>
               if s3 = [] \<or> hd s3 \<noteq> CHR 34 then Inl ''line %d: %s expected string literal''
               else map_sum id (\<lambda>bs. Some (i, bs)) (parse_string_lit ok s3))"

record sstr_vec =
  sv_items :: "(u32 \<times> u8 list) list"
  sv_cap :: nat

definition sstrvec_add :: "(nat \<Rightarrow> bool) \<Rightarrow> sstr_vec \<Rightarrow> u32 \<Rightarrow> u8 list \<Rightarrow> string + sstr_vec" where
  "sstrvec_add ok sv i bs =
     (if list_ex (\<lambda>(j, b). j = i) (sv_items sv)
      then Inl ''line %d: duplicate .SSTR id %u (previous at line %d)''
      else
        let ncap = (if sv_cap sv \<noteq> 0 then sv_cap sv * 2 else 16); grow = (length (sv_items sv) + 1 > sv_cap sv) in
        if grow \<and> \<not> ok (ncap * 24) then Inl ''line %d: OOM adding .SSTR''
        else Inr \<lparr>sv_items = sv_items sv @ [(i, bs)], sv_cap = (if grow then ncap else sv_cap sv)\<rparr>)"

section \<open>Reading lines\<close>

fun fgets_take :: "nat \<Rightarrow> string \<Rightarrow> string" where
  "fgets_take 0 s = []"
| "fgets_take (Suc n) [] = []"
| "fgets_take (Suc n) (c # cs) = (if c = CHR 10 then [c] else c # fgets_take n cs)"

lemma fgets_take_nonempty: "s \<noteq> [] \<Longrightarrow> 0 < n \<Longrightarrow> fgets_take n s \<noteq> []"
  by (cases n; cases s) auto

function file_lines :: "string \<Rightarrow> string list" where
  "file_lines s =
     (if s = [] then [] else let l = fgets_take 1023 s in c_string l # file_lines (drop (length l) s))"
  by pat_completeness auto

termination
  by (relation "measure length") (auto simp: fgets_take_nonempty)

declare file_lines.simps [simp del]

text \<open>Lines starting with \<open>// error:\<close> are diagnostics the E compiler left in its
  output.\<close>

definition is_error_line :: "string \<Rightarrow> bool" where
  "is_error_line line = has_prefix ''// error:'' (ltrim line)"

section \<open>The passes\<close>

fun pass1 :: "(nat \<Rightarrow> bool) \<Rightarrow> string list \<Rightarrow> sstr_vec \<Rightarrow> string + sstr_vec" where
  "pass1 ok [] sv = Inr sv"
| "pass1 ok (l # ls) sv =
     (if is_error_line l then Inl ''line %d: %s''
      else case parse_sstr_directive_line ok (strip_comment l) of
        Inl e \<Rightarrow> Inl e
      | Inr None \<Rightarrow> pass1 ok ls sv
      | Inr (Some (i, bs)) \<Rightarrow> bind_e (sstrvec_add ok sv i bs) (pass1 ok ls))"

fun str_payload :: "(nat \<Rightarrow> bool) \<Rightarrow> (u32 \<times> u8 list) list \<Rightarrow> asm_out \<Rightarrow> asm_out option" where
  "str_payload ok [] ob = Some ob"
| "str_payload ok ((i, bs) # items) ob =
     (case out_u32_le ok ob i of None \<Rightarrow> None | Some o1 \<Rightarrow>
      case out_u16_le ok o1 (of_nat (length bs)) of None \<Rightarrow> None | Some o2 \<Rightarrow>
      case out_bytes ok o2 bs of None \<Rightarrow> None | Some o3 \<Rightarrow> str_payload ok items o3)"

text \<open>The padding takes at most three rounds.\<close>

fun pad_out :: "nat \<Rightarrow> (nat \<Rightarrow> bool) \<Rightarrow> asm_out \<Rightarrow> asm_out option" where
  "pad_out 0 ok ob = Some ob"
| "pad_out (Suc n) ok ob =
     (if length (o_buf ob) mod 4 = 0 then Some ob
      else case out_u8 ok ob 0 of None \<Rightarrow> None | Some o1 \<Rightarrow> pad_out n ok o1)"

definition emit_strings :: "(nat \<Rightarrow> bool) \<Rightarrow> (u32 \<times> u8 list) list \<Rightarrow> string + asm_out" where
  "emit_strings ok items =
     (if items = [] then Inr out_zero
      else if int (length items) > 65535 then Inl ''too many .SSTR/.CONST_STR entries''
      else or_fail ''OOM''
        (case out_u16_le ok out_zero (of_nat (length items)) of None \<Rightarrow> None | Some p1 \<Rightarrow>
         case str_payload ok items p1 of None \<Rightarrow> None | Some p \<Rightarrow>
         case out_opcode ok out_zero 3 of None \<Rightarrow> None | Some o1 \<Rightarrow>
         case out_u16_le ok o1 1 of None \<Rightarrow> None | Some o2 \<Rightarrow>
         case out_u16_le ok o2 1 of None \<Rightarrow> None | Some o3 \<Rightarrow>
         case out_u16_le ok o3 0 of None \<Rightarrow> None | Some o4 \<Rightarrow>
         case out_u32_le ok o4 (of_nat (length (o_buf p))) of None \<Rightarrow> None | Some o5 \<Rightarrow>
         case out_bytes ok o5 (o_buf p) of None \<Rightarrow> None | Some o6 \<Rightarrow> pad_out 3 ok o6))"

fun pass2 :: "(nat \<Rightarrow> bool) \<Rightarrow> (bool \<Rightarrow> string \<Rightarrow> u32) \<Rightarrow> string list \<Rightarrow> asm_ctx \<Rightarrow> asm_out \<Rightarrow> string + (asm_ctx \<times> asm_out)" where
  "pass2 ok fnan [] ctx ob = Inr (ctx, ob)"
| "pass2 ok fnan (l # ls) ctx ob =
     (if is_error_line l then Inl ''line %d: %s''
      else let line = strip_comment l; s = rtrim (ltrim line) in
        if is_sstr_directive s \<or> is_const_directive s then pass2 ok fnan ls ctx ob
        else bind_e (emit_line ok fnan line ctx ob) (\<lambda>(ctx1, o1). pass2 ok fnan ls ctx1 o1))"

fun patch_fixups :: "asm_ctx \<Rightarrow> asm_fixup list \<Rightarrow> u8 list \<Rightarrow> string + u8 list" where
  "patch_fixups ctx [] buf = Inr buf"
| "patch_fixups ctx (f # fs) buf =
     (case ctx_find_label ctx (fx_name f) of
        None \<Rightarrow> Inl ''line %d: unknown label %s''
      | Some pc \<Rightarrow>
          let rel = int pc - int (fx_next f) in
          if rel < - (2 ^ 31) \<or> rel > 2 ^ 31 - 1 then Inl ''line %d: jump to %s out of rel32 range''
          else patch_fixups ctx fs (put_u32_le (fx_imm f) (word_of_int rel) buf))"

definition compile_from_fp :: "(nat \<Rightarrow> bool) \<Rightarrow> (bool \<Rightarrow> string \<Rightarrow> u32) \<Rightarrow> string \<Rightarrow> string + u8 list" where
  "compile_from_fp ok fnan text =
     bind_e (pass1 ok (file_lines text) \<lparr>sv_items = [], sv_cap = 0\<rparr>) (\<lambda>sv.
     bind_e (emit_strings ok (sv_items sv)) (\<lambda>ob.
     bind_e (pass2 ok fnan (file_lines text) ctx_zero ob) (\<lambda>(ctx, o1).
       patch_fixups ctx (ac_fixups ctx) (o_buf o1))))"

text \<open>\<open>opened\<close> is the answer of \<open>fmemopen\<close> or \<open>fopen\<close>.\<close>

definition epa_asm_compile_src :: "(nat \<Rightarrow> bool) \<Rightarrow> (bool \<Rightarrow> string \<Rightarrow> u32) \<Rightarrow> bool \<Rightarrow> string \<Rightarrow> string + u8 list" where
  "epa_asm_compile_src ok fnan opened src =
     (if \<not> ok (length src + 1) then Inl ''compile_src: OOM''
      else if \<not> opened then Inl ''compile_src: fmemopen failed''
      else compile_from_fp ok fnan src)"

definition epa_asm_compile_file :: "(nat \<Rightarrow> bool) \<Rightarrow> (bool \<Rightarrow> string \<Rightarrow> u32) \<Rightarrow> string option \<Rightarrow> string + u8 list" where
  "epa_asm_compile_file ok fnan file =
     (case file of None \<Rightarrow> Inl ''cannot open %s'' | Some text \<Rightarrow> compile_from_fp ok fnan text)"

end
