(* ===== verification/AsmProps.thy ===== *)
theory AsmProps
  imports AsmCompile ProgramLoader
begin

text \<open>
  What the assembler guarantees: each line becomes one instruction of exactly the length the decoder
  gives it, the image is a sequence of such instructions with every label on a boundary and every
  label jump landing on its label, and the loader reads back the string constants.
\<close>

section \<open>The two tables agree\<close>

fun row_agrees ::
  "(nat \<times> string \<times> nat) list \<Rightarrow> string \<times> nat \<times> nat \<times> nat \<times> arg_kind list \<times> emit_helper \<Rightarrow> bool" where
  "row_agrees T (mn, v, mi, ma, ks, h) =
     (v < 132 \<and> v \<noteq> 3 \<and> mi \<le> ma \<and>
      (case h of
         HPush \<Rightarrow> ks = [] \<and> mn = ''PUSH''
       | HJump \<Rightarrow> find_op v T = Some (mn, 4)
       | HYield \<Rightarrow> v = 9 \<and> mn = ''YIELD''
       | HGeneric \<Rightarrow> length ks = mi \<and> length ks = ma \<and> list_all (\<lambda>k. arg_size k \<noteq> None) ks
           \<and> find_op v T = Some (mn, sum_list (map (\<lambda>k. nat (the (arg_size k))) ks))))"

lemma op_rows: "T = epa_opcode_table \<Longrightarrow> list_all (\<lambda>(v, nm, plen). find_op v T = Some (nm, plen)) epa_opcode_table"
  using find_op_map_of [OF ascending_distinct [OF opcode_table_ascending]] by (force simp: list_all_iff)

lemma insn_table_agrees: "list_all (row_agrees epa_opcode_table) insn_table"
proof -
  have "list_all (row_agrees T) insn_table" if "T = epa_opcode_table" for T
    using op_rows [OF that, unfolded epa_opcode_table_def list.pred_inject prod.case]
    by (simp add: insn_table_def)
  then show ?thesis by blast
qed

section \<open>Emission\<close>

lemma bind_e_Inr: "bind_e x f = Inr y \<longleftrightarrow> (\<exists>z. x = Inr z \<and> f z = Inr y)"
  by (cases x) (simp_all add: bind_e_def)

lemma or_fail_Inr: "or_fail e x = Inr y \<longleftrightarrow> x = Some y"
  by (cases x) (simp_all add: or_fail_def)

lemmas emit_Inr = bind_e_Inr or_fail_Inr

lemma out_bytes_buf: "out_bytes ok ob bs = Some ob' \<Longrightarrow> o_buf ob' = o_buf ob @ bs"
  by (auto simp: out_bytes_def out_reserve_def Let_def split: if_splits)

lemma low_byte: "(ucast (v AND 0xFF) :: u8) = ucast (v :: 'a::len word)"
proof -
  have m: "v AND 0xFF = take_bit 8 v" by (simp add: take_bit_eq_mask mask_eq_exp_minus_1)
  show ?thesis unfolding m by (rule bit_word_eqI) (auto simp: bit_simps dest: bit_imp_le_length)
qed

lemma out_opcode_buf: "out_opcode ok ob opc = Some ob' \<Longrightarrow> o_buf ob' = o_buf ob @ opcode_bytes opc"
  by (auto simp: out_opcode_def out_u16_le_def out_u8_def opcode_bytes_def low_byte dest!: out_bytes_buf split: if_splits)

lemma out_u32_buf: "out_u32_le ok ob v = Some ob' \<Longrightarrow> o_buf ob' = o_buf ob @ u32_le_bytes v"
  by (auto simp: out_u32_le_def u32_le_bytes_def low_byte dest!: out_bytes_buf)

lemma emit_arg_buf:
  "emit_arg ok fnan k a ob = Inr ob' \<Longrightarrow> arg_size k = Some n \<Longrightarrow> \<exists>bs. o_buf ob' = o_buf ob @ bs \<and> int (length bs) = n"
  by (cases k) (auto simp: emit_arg_def emit_Inr out_u8_def out_u16_le_def out_u32_le_def out_f32_le_def dest!: out_bytes_buf)

lemma emit_args_buf:
  "emit_args ok fnan ks as ob = Inr ob' \<Longrightarrow> list_all (\<lambda>k. arg_size k \<noteq> None) ks \<Longrightarrow>
    \<exists>bs. o_buf ob' = o_buf ob @ bs \<and> length bs = sum_list (map (\<lambda>k. nat (the (arg_size k))) ks)"
proof (induction ks arbitrary: "as" ob)
  case (Cons k ks)
  from Cons.prems obtain n where n: "arg_size k = Some n" by auto
  from Cons.prems(1) obtain o1 where o1: "emit_arg ok fnan k (case as of [] \<Rightarrow> [] | a # _ \<Rightarrow> a) ob = Inr o1"
    "emit_args ok fnan ks (tl as) o1 = Inr ob'" by (auto simp: emit_Inr)
  from emit_arg_buf [OF o1(1) n] obtain b1 where b1: "o_buf o1 = o_buf ob @ b1" "int (length b1) = n" by blast
  from Cons.IH [OF o1(2)] Cons.prems(2) obtain b2 where b2: "o_buf ob' = o_buf o1 @ b2"
    "length b2 = sum_list (map (\<lambda>k. nat (the (arg_size k))) ks)" by auto
  with b1 n show ?case by (intro exI [of _ "b1 @ b2"]) auto
qed simp

text \<open>The bytes of one instruction, by its name in the opcode table.\<close>

definition insn_bytes :: "string \<Rightarrow> u8 list \<Rightarrow> bool" where
  "insn_bytes nm c \<longleftrightarrow> (\<exists>v plen args. v < 132 \<and> v \<noteq> 3 \<and> find_op v epa_opcode_table = Some (nm, plen)
     \<and> c = opcode_bytes (of_nat v) @ args \<and> length args = plen)"

lemma find_op_in: "find_op v T = Some (nm, plen) \<Longrightarrow> (v, nm, plen) \<in> set T"
  by (induction T) (auto split: if_splits)

lemma table_plen: "list_all (\<lambda>(v, nm, plen). plen < 256) epa_opcode_table"
  by (simp add: epa_opcode_table_def)

lemma length_opcode_bytes: "length (opcode_bytes opc) = epa_opcode_width opc"
  by (simp add: opcode_bytes_def epa_opcode_width_def)

lemma insn_bytes_decode:
  assumes "insn_bytes nm c"
  shows "\<exists>opc d. epa_decode_opcode_at (pre @ c @ post) (length pre) = Some (opc, epa_opcode_width opc)
    \<and> epa_find_opcode opc = Some d \<and> od_name d = nm \<and> unat opc \<noteq> 3
    \<and> length c = epa_opcode_width opc + unat (od_plen d)"
proof -
  from assms obtain v plen args where v: "v < 132" "v \<noteq> 3" "find_op v epa_opcode_table = Some (nm, plen)"
    "c = opcode_bytes (of_nat v) @ args" "length args = plen" by (auto simp: insn_bytes_def)
  have "(v, nm, plen) \<in> set epa_opcode_table" using v(3) by (rule find_op_in)
  then have p: "plen < 256" and b: "bit (of_nat v :: u16) 7 \<or> v < 128"
    using table_plen table_bit7 by (auto simp: list_all_iff)
  have u: "unat (of_nat v :: u16) = v" using v(1) by (simp add: unat_of_nat)
  have "epa_decode_opcode_at (pre @ opcode_bytes (of_nat v) @ args @ post) (length pre)
      = Some (of_nat v, epa_opcode_width (of_nat v))"
    using b u by (intro decode_encode) simp
  moreover have "epa_find_opcode (of_nat v) = Some \<lparr>od_opcode = of_nat v, od_name = nm, od_plen = of_nat plen\<rparr>"
    using v(3) u by (simp add: epa_find_opcode_def)
  ultimately show ?thesis
    using v u p by (intro exI [of _ "of_nat v"] exI conjI) (auto simp: length_opcode_bytes unat_of_nat)
qed

text \<open>The head of a jump, which takes four bytes.\<close>

definition jump_head :: "string \<Rightarrow> u8 list \<Rightarrow> bool" where
  "jump_head nm h \<longleftrightarrow> (\<exists>v. v < 132 \<and> v \<noteq> 3 \<and> find_op v epa_opcode_table = Some (nm, 4) \<and> h = opcode_bytes (of_nat v))"

lemma jump_head_insn: "jump_head nm h \<Longrightarrow> length bs = 4 \<Longrightarrow> insn_bytes nm (h @ bs)"
  unfolding jump_head_def insn_bytes_def by blast

lemma find_desc_row:
  "find_desc_in mn ds = Some d \<Longrightarrow> \<exists>m v mi ma ks h. (m, v, mi, ma, ks, h) \<in> set ds \<and> ieq m mn
     \<and> d = \<lparr>in_mnemonic = m, in_opcode = of_nat v, in_min = mi, in_max = ma, in_kinds = ks, in_helper = h\<rparr>"
  by (induction mn ds rule: find_desc_in.induct) (auto split: if_splits)

text \<open>One instruction of the text: \<open>c\<close> is appended, and a fixup for a label operand.\<close>

definition emitted :: "string \<Rightarrow> u8 list \<Rightarrow> string \<Rightarrow> asm_ctx \<Rightarrow> asm_out \<Rightarrow> asm_ctx \<Rightarrow> asm_out \<Rightarrow> bool" where
  "emitted nm c t ctx ob ctx' ob' \<longleftrightarrow>
     insn_bytes nm c \<and> o_buf ob' = o_buf ob @ c \<and> ac_labels ctx' = ac_labels ctx
     \<and> (ac_fixups ctx' = ac_fixups ctx
        \<or> (\<exists>h bs. jump_head nm h \<and> c = h @ bs \<and> length bs = 4 \<and> ac_fixups ctx' = ac_fixups ctx @
             [\<lparr>fx_name = take 63 t, fx_imm = length (o_buf ob @ h), fx_next = length (o_buf ob @ c)\<rparr>]))"

lemma emit_generic_shape:
  assumes "emit_generic ok fnan toks \<lparr>in_mnemonic = m, in_opcode = of_nat v, in_min = mi, in_max = ma, in_kinds = ks, in_helper = HGeneric\<rparr> ctx ob
      = Inr (ctx', ob')" and "row_agrees epa_opcode_table (m, v, mi, ma, ks, HGeneric)"
  shows "\<exists>c. emitted m c t ctx ob ctx' ob'"
proof -
  from assms(1) obtain o1 where o1: "out_opcode ok ob (of_nat v) = Some o1" "emit_args ok fnan ks (tl toks) o1 = Inr ob'" "ctx' = ctx"
    by (auto simp: emit_generic_def Let_def emit_Inr split: if_splits)
  from emit_args_buf [OF o1(2)] assms(2) obtain bs where bs: "o_buf ob' = o_buf o1 @ bs"
    "find_op v epa_opcode_table = Some (m, length bs)" by auto
  then show ?thesis
    using assms(2) o1(3) out_opcode_buf [OF o1(1)]
    by (intro exI [of _ "opcode_bytes (of_nat v) @ bs"])
      (auto simp: emitted_def insn_bytes_def)
qed

lemma length_put_u32 [simp]: "length (put_u32_le off v bs) = length bs"
  by (simp add: put_u32_le_def)

lemma put_u32_append: "length xs = off \<Longrightarrow> length ys = 4 \<Longrightarrow> put_u32_le off v (xs @ ys @ zs) = xs @ u32_le_bytes v @ zs"
proof -
  assume "length xs = off" "length ys = 4"
  then obtain a b c d where "ys = [a, b, c, d]" "off = length xs"
    by (auto simp: numeral_eq_Suc length_Suc_conv)
  then show ?thesis by (simp add: put_u32_le_def u32_le_bytes_def low_byte list_update_append numeral_eq_Suc)
qed

lemma emit_jump_shape:
  assumes "helper_emit_jump_rel32 ok toks \<lparr>in_mnemonic = m, in_opcode = of_nat v, in_min = mi, in_max = ma, in_kinds = ks, in_helper = HJump\<rparr> ctx ob
      = Inr (ctx', ob')" and "row_agrees epa_opcode_table (m, v, mi, ma, ks, HJump)"
  shows "\<exists>c. emitted m c (toks ! 1) ctx ob ctx' ob'"
proof -
  from assms(1) obtain o1 o2 where o1: "out_opcode ok ob (of_nat v) = Some o1" and o2: "out_u32_le ok o1 0 = Some o2"
    and r: "(ctx' = ctx \<and> (\<exists>w. ob' = o2\<lparr>o_buf := put_u32_le (length (o_buf o1)) w (o_buf o2)\<rparr>))
      \<or> (ob' = o2 \<and> ctx_add_fixup ok ctx (toks ! 1) (length (o_buf o1)) (length (o_buf o2)) = Inr ctx')"
    by (auto simp: helper_emit_jump_rel32_def Let_def emit_Inr split: if_splits prod.splits)
  define h where "h = opcode_bytes (of_nat v)"
  have h: "jump_head m h" using assms(2) by (auto simp: jump_head_def h_def)
  have b: "o_buf o1 = o_buf ob @ h" "o_buf o2 = o_buf ob @ h @ u32_le_bytes 0"
    using out_opcode_buf [OF o1] out_u32_buf [OF o2] by (simp_all add: h_def)
  from r show ?thesis
  proof (elim disjE conjE exE)
    fix w assume "ctx' = ctx" "ob' = o2\<lparr>o_buf := put_u32_le (length (o_buf o1)) w (o_buf o2)\<rparr>"
    then show ?thesis
      using b h put_u32_append [of "o_buf ob @ h" "length (o_buf o1)" "u32_le_bytes 0" w "[]"]
      by (intro exI [of _ "h @ u32_le_bytes w"]) (simp add: emitted_def jump_head_insn)
  next
    assume "ob' = o2" and f: "ctx_add_fixup ok ctx (toks ! 1) (length (o_buf o1)) (length (o_buf o2)) = Inr ctx'"
    then show ?thesis using b h
      by (intro exI [of _ "h @ u32_le_bytes 0"])
        (auto simp: emitted_def jump_head_insn ctx_add_fixup_def Let_def split: if_splits)
  qed
qed

lemma op_find_facts:
  "find_op 9 epa_opcode_table = Some (''YIELD'', 1)" "find_op 30 epa_opcode_table = Some (''PUSH_I32'', 4)"
  "find_op 31 epa_opcode_table = Some (''PUSH_R'', 1)"
  by (simp_all add: epa_opcode_table_def)

lemma insn_bytesI:
  "v < 132 \<Longrightarrow> v \<noteq> 3 \<Longrightarrow> find_op v epa_opcode_table = Some (nm, length args) \<Longrightarrow> insn_bytes nm (opcode_bytes (of_nat v) @ args)"
  unfolding insn_bytes_def by blast

lemma fixed_insns:
  "insn_bytes ''YIELD'' (opcode_bytes 9 @ [p])" "insn_bytes ''PUSH_I32'' (opcode_bytes 30 @ u32_le_bytes v)"
  "insn_bytes ''PUSH_R'' (opcode_bytes 31 @ [p])"
  using insn_bytesI [of 9 "''YIELD''" "[p]"] insn_bytesI [of 30 "''PUSH_I32''" "u32_le_bytes v"]
    insn_bytesI [of 31 "''PUSH_R''" "[p]"] op_find_facts by simp_all

lemma emit_yield_shape:
  assumes "helper_emit_yield ok toks d ctx ob = Inr (ctx', ob')"
  shows "\<exists>c. emitted ''YIELD'' c t ctx ob ctx' ob'"
proof -
  from assms obtain o1 p where o1: "out_opcode ok ob 9 = Some o1" "out_u8 ok o1 p = Some ob'" "ctx' = ctx"
    by (auto simp: helper_emit_yield_def Let_def emit_Inr split: if_splits)
  then have "o_buf ob' = o_buf ob @ opcode_bytes 9 @ [p]"
    using out_opcode_buf [OF o1(1)] by (auto simp: out_u8_def dest!: out_bytes_buf)
  then show ?thesis using o1(3) fixed_insns(1) unfolding emitted_def by blast
qed

lemma emit_push_shape:
  assumes "helper_emit_push ok toks d ctx ob = Inr (ctx', ob')"
  shows "\<exists>c. emitted (if parse_reg_tok (toks ! 1) = None then ''PUSH_I32'' else ''PUSH_R'') c t ctx ob ctx' ob'"
proof (cases "parse_reg_tok (toks ! 1)")
  case None
  with assms obtain o1 v where o1: "out_opcode ok ob 30 = Some o1" "out_u32_le ok o1 v = Some ob'" "ctx' = ctx"
    by (auto simp: helper_emit_push_def Let_def emit_Inr split: if_splits)
  then have "o_buf ob' = o_buf ob @ opcode_bytes 30 @ u32_le_bytes v"
    using out_opcode_buf [OF o1(1)] out_u32_buf [OF o1(2)] by simp
  then show ?thesis using o1(3) fixed_insns(2) None unfolding emitted_def by auto
next
  case (Some r)
  with assms obtain o1 where o1: "out_opcode ok ob 31 = Some o1" "out_u8 ok o1 (ucast r) = Some ob'" "ctx' = ctx"
    by (auto simp: helper_emit_push_def Let_def emit_Inr split: if_splits)
  then have "o_buf ob' = o_buf ob @ opcode_bytes 31 @ [ucast r]"
    using out_opcode_buf [OF o1(1)] by (auto simp: out_u8_def dest!: out_bytes_buf)
  then show ?thesis using o1(3) fixed_insns(3) Some unfolding emitted_def by auto
qed

lemma emit_insn_shape:
  assumes "emit_insn ok fnan toks ctx ob = Inr (ctx', ob')"
  shows "\<exists>nm c. emitted nm c (toks ! 1) ctx ob ctx' ob'
    \<and> (ieq nm (hd toks) \<or> ieq ''PUSH'' (hd toks) \<and> nm = (if parse_reg_tok (toks ! 1) = None then ''PUSH_I32'' else ''PUSH_R''))"
proof -
  from assms obtain d where d: "find_desc (hd toks) = Some d" by (auto simp: emit_insn_def split: option.splits)
  then obtain m v mi ma ks h where r: "(m, v, mi, ma, ks, h) \<in> set insn_table" "ieq m (hd toks)"
    and dd: "d = \<lparr>in_mnemonic = m, in_opcode = of_nat v, in_min = mi, in_max = ma, in_kinds = ks, in_helper = h\<rparr>"
    unfolding find_desc_def by (blast dest: find_desc_row)
  have row: "row_agrees epa_opcode_table (m, v, mi, ma, ks, h)" using r(1) insn_table_agrees unfolding list_all_iff by blast
  show ?thesis
  proof (cases h)
    case HGeneric
    with assms d dd row emit_generic_shape [of ok fnan toks m v mi ma ks ctx ob ctx' ob' "toks ! 1"] r(2) show ?thesis
      by (auto simp: emit_insn_def)
  next
    case HJump
    with assms d dd row emit_jump_shape [of ok toks m v mi ma ks ctx ob ctx' ob'] r(2) show ?thesis
      by (auto simp: emit_insn_def)
  next
    case HYield
    with assms d dd row emit_yield_shape [of ok toks d ctx ob ctx' ob' "toks ! 1"] r(2) show ?thesis
      by (auto simp: emit_insn_def)
  next
    case HPush
    with assms d dd row emit_push_shape [of ok toks d ctx ob ctx' ob' "toks ! 1"] r(2) show ?thesis
      by (auto simp: emit_insn_def)
  qed
qed

section \<open>One line\<close>

lemma ieq_map: "ieq a b \<longleftrightarrow> map c_tolower a = map c_tolower b"
  by (induction a b rule: ieq.induct) auto

lemma only_push: "list_all (\<lambda>(m, v, mi, ma, ks, h). ieq m ''PUSH'' \<longrightarrow> h = HPush) insn_table"
  by (simp add: insn_table_def c_tolower_def)

lemma args_size_sum:
  "list_all (\<lambda>k. arg_size k \<noteq> None) ks \<Longrightarrow> args_size ks = Some (int (sum_list (map (\<lambda>k. nat (the (arg_size k))) ks)))"
proof (induction ks)
  case (Cons k ks)
  then show ?case by (cases k) auto
qed simp

text \<open>The announced length of an instruction that is not a push is that of the opcode table.\<close>

lemma total_bytes_row:
  assumes "find_desc mn = Some \<lparr>in_mnemonic = m, in_opcode = of_nat v, in_min = mi, in_max = ma, in_kinds = ks, in_helper = h\<rparr>"
    and "row_agrees epa_opcode_table (m, v, mi, ma, ks, h)" and "\<not> ieq mn ''PUSH''" and "h \<noteq> HPush"
    and "find_op v epa_opcode_table = Some (nm, plen)"
  shows "epa_asm_instr_total_bytes mn a = int (epa_opcode_width (of_nat v)) + int plen"
  using assms args_size_sum [of ks] op_find_facts(1)
  by (cases h) (auto simp: epa_asm_instr_total_bytes_def)

lemma emit_insn_length:
  assumes "emit_insn ok fnan toks ctx ob = Inr (ctx', ob')" and "\<not> ieq (hd toks) ''PUSH''"
  shows "int (length (o_buf ob')) = int (length (o_buf ob)) + epa_asm_instr_total_bytes (hd toks) a"
proof -
  from assms obtain d where d: "find_desc (hd toks) = Some d" by (auto simp: emit_insn_def split: option.splits)
  then obtain m v mi ma ks h where r: "(m, v, mi, ma, ks, h) \<in> set insn_table" "ieq m (hd toks)"
    and dd: "d = \<lparr>in_mnemonic = m, in_opcode = of_nat v, in_min = mi, in_max = ma, in_kinds = ks, in_helper = h\<rparr>"
    unfolding find_desc_def by (blast dest: find_desc_row)
  have row: "row_agrees epa_opcode_table (m, v, mi, ma, ks, h)" using r(1) insn_table_agrees unfolding list_all_iff by blast
  have hp: "h \<noteq> HPush" using row r(2) assms(2) by (auto simp: ieq_map)
  have w: "length (opcode_bytes (of_nat v)) = epa_opcode_width (of_nat v)" by (rule length_opcode_bytes)
  show ?thesis
  proof (cases h)
    case HGeneric
    then obtain o1 where o1: "out_opcode ok ob (of_nat v) = Some o1" "emit_args ok fnan ks (tl toks) o1 = Inr ob'"
      using assms(1) d dd by (auto simp: emit_insn_def emit_generic_def Let_def emit_Inr split: if_splits)
    with emit_args_buf [OF o1(2)] row HGeneric total_bytes_row [OF d [unfolded dd] row assms(2) hp] show ?thesis
      by (auto simp: length_opcode_bytes dest!: out_opcode_buf)
  next
    case HJump
    then obtain o1 o2 where o1: "out_opcode ok ob (of_nat v) = Some o1" "out_u32_le ok o1 0 = Some o2"
      "length (o_buf ob') = length (o_buf o2)"
      using assms(1) d dd by (auto simp: emit_insn_def helper_emit_jump_rel32_def Let_def emit_Inr split: if_splits prod.splits)
    with row HJump total_bytes_row [OF d [unfolded dd] row assms(2) hp] show ?thesis
      by (auto simp: length_opcode_bytes dest!: out_opcode_buf out_u32_buf)
  next
    case HYield
    then obtain o1 p where o1: "out_opcode ok ob 9 = Some o1" "out_u8 ok o1 p = Some ob'"
      using assms(1) d dd by (auto simp: emit_insn_def helper_emit_yield_def Let_def emit_Inr split: if_splits)
    with row HYield op_find_facts(1) total_bytes_row [OF d [unfolded dd] row assms(2) hp] show ?thesis
      by (auto simp: length_opcode_bytes out_u8_def dest!: out_opcode_buf out_bytes_buf)
  qed (use hp in simp)
qed

text \<open>C33: one line, one instruction. Whatever instruction the assembler accepts, what it appends
  is a single instruction of the machine: where it was written, in front of any following code, the
  decoder finds an opcode whose table entry carries the mnemonic of the line (\<open>PUSH\<close> becomes
  one of its two forms), with exactly the operand bytes the table announces; what was written before is
  untouched. Pushes apart, the length is also the one \<open>epa_asm_instr_total_bytes\<close> announces to
  the compiler of the E language.\<close>

theorem asm_line_decodes:
  assumes "emit_insn ok fnan toks ctx ob = Inr (ctx', ob')"
  shows "\<exists>c opc d. o_buf ob' = o_buf ob @ c
     \<and> epa_decode_opcode_at (o_buf ob @ c @ post) (length (o_buf ob)) = Some (opc, epa_opcode_width opc)
     \<and> epa_find_opcode opc = Some d \<and> length c = epa_opcode_width opc + unat (od_plen d)
     \<and> (if ieq ''PUSH'' (hd toks) then od_name d \<in> {''PUSH_R'', ''PUSH_I32''} else ieq (od_name d) (hd toks))
     \<and> (\<not> ieq ''PUSH'' (hd toks) \<longrightarrow> int (length c) = epa_asm_instr_total_bytes (hd toks) first_arg)"
proof -
  from emit_insn_shape [OF assms] obtain nm c where e: "emitted nm c (toks ! 1) ctx ob ctx' ob'"
    and nm: "ieq nm (hd toks) \<or> ieq ''PUSH'' (hd toks) \<and> nm = (if parse_reg_tok (toks ! 1) = None then ''PUSH_I32'' else ''PUSH_R'')"
    by blast
  from e have c: "insn_bytes nm c" "o_buf ob' = o_buf ob @ c" by (auto simp: emitted_def)
  from insn_bytes_decode [OF c(1)] obtain opc d where d:
    "epa_decode_opcode_at (o_buf ob @ c @ post) (length (o_buf ob)) = Some (opc, epa_opcode_width opc)"
    "epa_find_opcode opc = Some d" "od_name d = nm" "length c = epa_opcode_width opc + unat (od_plen d)" by blast
  have "int (length c) = epa_asm_instr_total_bytes (hd toks) first_arg" if "\<not> ieq ''PUSH'' (hd toks)"
    using emit_insn_length [OF assms, of first_arg] that c(2) by (simp add: ieq_map)
  moreover have "nm \<in> {''PUSH_R'', ''PUSH_I32''}" if p: "ieq ''PUSH'' (hd toks)"
  proof (rule ccontr)
    assume "nm \<notin> {''PUSH_R'', ''PUSH_I32''}"
    with nm have "ieq nm ''PUSH''" using p by (auto simp: ieq_map split: if_splits)
    moreover obtain v plen where "find_op v epa_opcode_table = Some (nm, plen)" using c(1) by (auto simp: insn_bytes_def)
    then have "nm \<in> (\<lambda>r. fst (snd r)) ` set epa_opcode_table" by (force dest: find_op_in)
    moreover have "list_all (\<lambda>r. \<not> ieq (fst (snd r)) ''PUSH'') epa_opcode_table"
      by (simp add: epa_opcode_table_def c_tolower_def)
    ultimately show False by (auto simp: list_all_iff)
  qed
  ultimately show ?thesis using c(2) d nm by (intro exI [of _ c] exI [of _ opc] exI [of _ d]) auto
qed

theorem asm_line_decodes_witness:
  "\<exists>ob'. emit_insn (\<lambda>_. True) (\<lambda>_ _. 0) [''mv'', ''R1'', ''2''] ctx_zero out_zero = Inr (ctx_zero, ob')
     \<and> int (length (o_buf ob')) = epa_asm_instr_total_bytes ''mv'' None"
proof -
  have e: "emit_insn (\<lambda>_. True) (\<lambda>_ _. 0) [''mv'', ''R1'', ''2''] ctx_zero out_zero
      = Inr (ctx_zero, \<lparr>o_buf = [49, 1, 2], o_cap = 256\<rparr>)" by code_simp
  have "\<not> ieq ''PUSH'' ''mv''" by code_simp
  with asm_line_decodes [OF e, of "[]" None] e show ?thesis by (auto simp: out_zero_def)
qed

section \<open>The whole image\<close>

text \<open>The walk of the loader over instructions, to the end of the image.\<close>

inductive scans :: "u8 list \<Rightarrow> nat \<Rightarrow> bool" for blob where
  scan_end: "scans blob (length blob)"
| scan_insn: "epa_decode_opcode_at blob pc = Some (opc, w) \<Longrightarrow> epa_find_opcode opc = Some d \<Longrightarrow> unat opc \<noteq> 3 \<Longrightarrow>
    pc + w + unat (od_plen d) \<le> length blob \<Longrightarrow> scans blob (pc + w + unat (od_plen d)) \<Longrightarrow> scans blob pc"

definition insns_ok :: "u8 list list \<Rightarrow> bool" where
  "insns_ok cs \<longleftrightarrow> (\<forall>c \<in> set cs. \<exists>nm. insn_bytes nm c)"

definition pos :: "u8 list \<Rightarrow> u8 list list \<Rightarrow> nat \<Rightarrow> nat" where
  "pos pre cs k = length pre + length (concat (take k cs))"

lemma scans_boundary:
  assumes "insns_ok cs" and "k \<le> length cs"
  shows "scans (pre @ concat cs) (pos pre cs k)"
  using assms(2)
proof (induction k rule: inc_induct)
  case base
  then show ?case using scan_end [of "pre @ concat cs"] by (simp add: pos_def)
next
  case (step k)
  let ?p = "pre @ concat (take k cs)" and ?r = "concat (drop (Suc k) cs)"
  have e: "pre @ concat cs = ?p @ cs ! k @ ?r"
    using step.hyps by (metis append.assoc concat.simps(2) concat_append id_take_nth_drop)
  obtain nm where "insn_bytes nm (cs ! k)" using assms(1) nth_mem [OF step.hyps(2)] unfolding insns_ok_def by blast
  from insn_bytes_decode [OF this, of ?p ?r] obtain opc d where d:
    "epa_decode_opcode_at (pre @ concat cs) (pos pre cs k) = Some (opc, epa_opcode_width opc)"
    "epa_find_opcode opc = Some d" "unat opc \<noteq> 3" "length (cs ! k) = epa_opcode_width opc + unat (od_plen d)"
    unfolding e by (auto simp: pos_def)
  have n: "pos pre cs k + epa_opcode_width opc + unat (od_plen d) = pos pre cs (Suc k)"
    using step.hyps d(4) by (simp add: pos_def take_Suc_conv_app_nth)
  have "pos pre cs (Suc k) \<le> length (pre @ concat cs)"
    by (metis append_take_drop_id concat_append length_append le_add1 add_le_cancel_left pos_def)
  with scan_insn [OF d(1) d(2) d(3)] n step.IH show ?case by simp
qed

text \<open>The state of the second pass: \<open>cs\<close> are the instructions so far.\<close>

definition fix_ok :: "u8 list \<Rightarrow> u8 list list \<Rightarrow> asm_fixup \<Rightarrow> bool" where
  "fix_ok pre cs f \<longleftrightarrow> (\<exists>k nm h bs. k < length cs \<and> jump_head nm h \<and> cs ! k = h @ bs \<and> length bs = 4
     \<and> fx_imm f = pos pre cs k + length h \<and> fx_next f = fx_imm f + 4)"

definition pass_inv :: "u8 list \<Rightarrow> u8 list list \<Rightarrow> asm_ctx \<Rightarrow> asm_out \<Rightarrow> bool" where
  "pass_inv pre cs ctx ob \<longleftrightarrow> o_buf ob = pre @ concat cs \<and> insns_ok cs
     \<and> (\<forall>(n, pc) \<in> set (ac_labels ctx). \<exists>k \<le> length cs. pc = pos pre cs k)
     \<and> (\<forall>f \<in> set (ac_fixups ctx). fix_ok pre cs f \<and> fx_next f \<le> length (o_buf ob))
     \<and> sorted_wrt (\<lambda>f g. fx_next f \<le> fx_imm g) (ac_fixups ctx)"

lemma pos_snoc: "k \<le> length cs \<Longrightarrow> pos pre (cs @ [c]) k = pos pre cs k"
  by (simp add: pos_def)

lemma fix_ok_snoc: "fix_ok pre cs f \<Longrightarrow> fix_ok pre (cs @ [c]) f"
  unfolding fix_ok_def by (elim exE) (rule_tac x = k in exI, auto simp: pos_snoc nth_append)

lemma pass_inv_insn:
  assumes "pass_inv pre cs ctx ob" and "emitted nm c t ctx ob ctx' ob'"
  shows "pass_inv pre (cs @ [c]) ctx' ob'"
proof -
  from assms(2) have c: "insn_bytes nm c" "o_buf ob' = o_buf ob @ c" "ac_labels ctx' = ac_labels ctx"
    by (auto simp: emitted_def)
  have len: "length (o_buf ob) = pos pre cs (length cs)" using assms(1) by (simp add: pass_inv_def pos_def)
  have lab: "\<exists>k \<le> length (cs @ [c]). pc = pos pre (cs @ [c]) k" if "(n, pc) \<in> set (ac_labels ctx)" for n pc
  proof -
    from assms(1) that obtain k where "k \<le> length cs" "pc = pos pre cs k" by (auto simp: pass_inv_def)
    then show ?thesis by (intro exI [of _ k]) (simp add: pos_snoc)
  qed
  have old: "fix_ok pre (cs @ [c]) f \<and> fx_next f \<le> length (o_buf ob')" if "f \<in> set (ac_fixups ctx)" for f
    using assms(1) that c(2) unfolding pass_inv_def by (auto intro: fix_ok_snoc)
  from assms(2) consider "ac_fixups ctx' = ac_fixups ctx"
    | h bs where "jump_head nm h" "c = h @ bs" "length bs = 4" "ac_fixups ctx' = ac_fixups ctx @
        [\<lparr>fx_name = take 63 t, fx_imm = length (o_buf ob @ h), fx_next = length (o_buf ob @ c)\<rparr>]"
    unfolding emitted_def by blast
  then have "(\<forall>f \<in> set (ac_fixups ctx'). fix_ok pre (cs @ [c]) f \<and> fx_next f \<le> length (o_buf ob'))
      \<and> sorted_wrt (\<lambda>f g. fx_next f \<le> fx_imm g) (ac_fixups ctx')"
  proof cases
    case 1
    then show ?thesis using old assms(1) by (simp add: pass_inv_def)
  next
    case 2
    define f where "f = \<lparr>fx_name = take 63 t, fx_imm = length (o_buf ob @ h), fx_next = length (o_buf ob @ c)\<rparr>"
    have f: "ac_fixups ctx' = ac_fixups ctx @ [f]" "fx_next f = length (o_buf ob')" "length (o_buf ob) \<le> fx_imm f"
      using 2(4) c(2) by (simp_all add: f_def)
    have "fix_ok pre (cs @ [c]) f" unfolding fix_ok_def
      by (rule exI [of _ "length cs"], rule exI [of _ nm], rule exI [of _ h], rule exI [of _ bs])
        (use 2 len in \<open>simp add: pos_snoc f_def\<close>)
    moreover have "\<forall>g \<in> set (ac_fixups ctx). fx_next g \<le> fx_imm f"
      using assms(1) f(3) by (auto simp: pass_inv_def)
    ultimately show ?thesis using old assms(1) unfolding f(1) by (auto simp: sorted_wrt_append pass_inv_def f(2))
  qed
  then show ?thesis using c lab assms(1) by (auto simp: pass_inv_def insns_ok_def)
qed

lemma pass_inv_label:
  assumes "pass_inv pre cs ctx ob" and "ctx_add_label ok ctx name (length (o_buf ob)) = Inr ctx'"
  shows "pass_inv pre cs ctx' ob"
proof -
  from assms(2) obtain n where "ac_labels ctx' = ac_labels ctx @ [(n, length (o_buf ob))]" "ac_fixups ctx' = ac_fixups ctx"
    by (auto simp: ctx_add_label_def Let_def split: if_splits)
  moreover have "length (o_buf ob) = pos pre cs (length cs)" using assms(1) by (simp add: pass_inv_def pos_def)
  ultimately show ?thesis using assms(1) by (auto simp: pass_inv_def)
qed

lemma pass_inv_line:
  assumes "pass_inv pre cs ctx ob" and "emit_line ok fnan line ctx ob = Inr (ctx', ob')"
  shows "\<exists>cs'. pass_inv pre cs' ctx' ob'"
proof -
  define toks where "toks = tokens 16 (rtrim (ltrim (trim_comment line)))"
  have insn: "\<exists>cs'. pass_inv pre cs' ctx' ob'" if "emit_insn ok fnan ts ctx1 ob = Inr (ctx', ob')" "pass_inv pre cs ctx1 ob" for ts ctx1
    using emit_insn_shape [OF that(1)] pass_inv_insn [OF that(2)] by blast
  note line = assms(2) [unfolded emit_line_def Let_def, folded toks_def]
  show ?thesis
  proof (cases "toks = []")
    case True
    with line assms(1) show ?thesis by auto
  next
    case ne: False
    show ?thesis
    proof (cases "length (hd toks) > 1 \<and> last (hd toks) = CHR '':''")
      case True
      with line ne obtain ctx1 where c: "ctx_add_label ok ctx (butlast (hd toks)) (length (o_buf ob)) = Inr ctx1"
        "(if length toks = 1 then Inr (ctx1, ob) else emit_insn ok fnan (tl toks) ctx1 ob) = Inr (ctx', ob')"
        by (auto simp: bind_e_Inr)
      show ?thesis
      proof (cases "length toks = 1")
        case True
        with c(2) have "ctx' = ctx1" "ob' = ob" by simp_all
        with pass_inv_label [OF assms(1) c(1)] show ?thesis by blast
      next
        case False
        with c(2) insn [OF _ pass_inv_label [OF assms(1) c(1)]] show ?thesis by simp
      qed
    next
      case False
      with line ne have "emit_insn ok fnan toks ctx ob = Inr (ctx', ob')" by (simp only: if_False)
      from insn [OF this assms(1)] show ?thesis .
    qed
  qed
qed

lemma pass_inv_pass2:
  "pass2 ok fnan ls ctx ob = Inr (ctx', ob') \<Longrightarrow> pass_inv pre cs ctx ob \<Longrightarrow> \<exists>cs'. pass_inv pre cs' ctx' ob'"
proof (induction ls arbitrary: ctx ob cs)
  case (Cons l ls)
  from Cons.prems(1) consider "pass2 ok fnan ls ctx ob = Inr (ctx', ob')"
    | ctx1 o1 where "emit_line ok fnan (strip_comment l) ctx ob = Inr (ctx1, o1)" "pass2 ok fnan ls ctx1 o1 = Inr (ctx', ob')"
    by (auto simp: Let_def emit_Inr split: if_splits)
  then show ?case
  proof cases
    case 2
    from pass_inv_line [OF Cons.prems(2) 2(1)] obtain cs1 where "pass_inv pre cs1 ctx1 o1" ..
    with Cons.IH [OF 2(2)] show ?thesis by blast
  qed (use Cons in blast)
qed auto

text \<open>Patching one jump changes its four operand bytes only.\<close>

lemma read_put_same:
  "off + 4 \<le> length bs \<Longrightarrow> read_u32_le (put_u32_le off v bs) off = v"
proof -
  assume a: "off + 4 \<le> length bs"
  have "bs = take off bs @ take 4 (drop off bs) @ drop (off + 4) bs"
    by (metis add.commute append_take_drop_id drop_drop)
  then have "put_u32_le off v bs = take off bs @ u32_le_bytes v @ drop (off + 4) bs"
    using put_u32_append [of "take off bs" off "take 4 (drop off bs)" v "drop (off + 4) bs"] a by simp
  with read_u32_le_bytes [of "take off bs" v "drop (off + 4) bs"] a show ?thesis by simp
qed

lemma read_put_before: "off + 4 \<le> at \<Longrightarrow> read_u32_le (put_u32_le at v bs) off = read_u32_le bs off"
  by (simp add: read_u32_le_def put_u32_le_def)

lemma take_put_before: "n \<le> at \<Longrightarrow> take n (put_u32_le at v bs) = take n bs"
  by (simp add: put_u32_le_def take_update_swap list_update_beyond)

lemma pos_same: "map length cs' = map length cs \<Longrightarrow> pos pre cs' k = pos pre cs k"
  by (simp add: pos_def length_concat take_map [symmetric])

lemma fix_patch:
  assumes "fix_ok pre cs f" and "insns_ok cs"
  shows "\<exists>cs'. put_u32_le (fx_imm f) v (pre @ concat cs) = pre @ concat cs' \<and> map length cs' = map length cs
     \<and> insns_ok cs' \<and> (\<forall>g. fix_ok pre cs g \<longrightarrow> fix_ok pre cs' g)"
proof -
  from assms(1) obtain k nm h bs where f: "k < length cs" "jump_head nm h" "cs ! k = h @ bs" "length bs = 4"
    "fx_imm f = pos pre cs k + length h" unfolding fix_ok_def by blast
  let ?cs = "cs[k := h @ u32_le_bytes v]"
  have e: "concat cs = concat (take k cs) @ h @ bs @ concat (drop (Suc k) cs)"
    using f by (metis append.assoc concat.simps(2) concat_append id_take_nth_drop)
  have e': "concat ?cs = concat (take k cs) @ h @ u32_le_bytes v @ concat (drop (Suc k) cs)"
    using f(1) by (simp add: upd_conv_take_nth_drop)
  have "put_u32_le (fx_imm f) v (pre @ concat cs) = pre @ concat ?cs"
    using put_u32_append [of "pre @ concat (take k cs) @ h" "fx_imm f" bs v "concat (drop (Suc k) cs)"] f(4,5)
    by (simp add: e e' pos_def)
  moreover have len: "map length ?cs = map length cs"
    by (rule nth_equalityI) (use f in \<open>auto simp: nth_list_update\<close>)
  moreover have "insns_ok ?cs"
    using assms(2) jump_head_insn [OF f(2) length_u32_le_bytes] set_update_subset_insert [of cs k "h @ u32_le_bytes v"]
    unfolding insns_ok_def by blast
  moreover have "fix_ok pre ?cs g" if g: "fix_ok pre cs g" for g
  proof -
    from g obtain k' nm' h' bs' where g': "k' < length cs" "jump_head nm' h'" "cs ! k' = h' @ bs'" "length bs' = 4"
      "fx_imm g = pos pre cs k' + length h'" "fx_next g = fx_imm g + 4" unfolding fix_ok_def by blast
    have "\<exists>bs''. ?cs ! k' = h' @ bs'' \<and> length bs'' = 4"
      using f g' by (cases "k' = k") auto
    then obtain bs'' where "?cs ! k' = h' @ bs''" "length bs'' = 4" by blast
    then show ?thesis using g' pos_same [OF len, of pre k'] unfolding fix_ok_def
      by (intro exI [of _ k'] exI [of _ nm'] exI [of _ h'] exI [of _ bs'']) simp
  qed
  ultimately show ?thesis by blast
qed

lemma rel_word: "- (2 ^ 31) \<le> r \<Longrightarrow> r \<le> 2 ^ 31 - 1 \<Longrightarrow> sint (word_of_int r :: u32) = r"
  by (simp add: sint_sbintrunc' signed_take_bit_int_eq_self)

lemma patch_image:
  "patch_fixups ctx fs (pre @ concat cs) = Inr blob \<Longrightarrow> insns_ok cs \<Longrightarrow> (\<forall>f \<in> set fs. fix_ok pre cs f) \<Longrightarrow>
   sorted_wrt (\<lambda>f g. fx_next f \<le> fx_imm g) fs \<Longrightarrow>
   \<exists>cs'. blob = pre @ concat cs' \<and> map length cs' = map length cs \<and> insns_ok cs'
     \<and> (\<forall>f \<in> set fs. \<exists>pc. ctx_find_label ctx (fx_name f) = Some pc
          \<and> int (fx_next f) + sint (read_u32_le blob (fx_imm f)) = int pc)
     \<and> (\<forall>off. (\<forall>f \<in> set fs. off + 4 \<le> fx_imm f) \<longrightarrow> read_u32_le blob off = read_u32_le (pre @ concat cs) off)"
proof (induction fs arbitrary: cs)
  case (Cons f fs)
  from Cons.prems(1) obtain pc where pc: "ctx_find_label ctx (fx_name f) = Some pc"
    by (auto split: option.splits)
  define r where "r = int pc - int (fx_next f)"
  from Cons.prems(1) pc have r: "- (2 ^ 31) \<le> r" "r \<le> 2 ^ 31 - 1"
    and p: "patch_fixups ctx fs (put_u32_le (fx_imm f) (word_of_int r) (pre @ concat cs)) = Inr blob"
    by (auto simp: Let_def r_def not_less split: if_splits)
  have fo: "fix_ok pre cs f" using Cons.prems(3) by simp
  from fix_patch [OF fo Cons.prems(2), of "word_of_int r"] obtain cs1 where
    cs1: "put_u32_le (fx_imm f) (word_of_int r) (pre @ concat cs) = pre @ concat cs1" "map length cs1 = map length cs"
      "insns_ok cs1" "\<forall>g. fix_ok pre cs g \<longrightarrow> fix_ok pre cs1 g" by blast
  from Cons.IH [OF p [unfolded cs1(1)] cs1(3)] Cons.prems(3,4) cs1(4) obtain cs2 where
    cs2: "blob = pre @ concat cs2" "map length cs2 = map length cs1" "insns_ok cs2"
      "\<forall>g \<in> set fs. \<exists>pc. ctx_find_label ctx (fx_name g) = Some pc \<and> int (fx_next g) + sint (read_u32_le blob (fx_imm g)) = int pc"
      "\<forall>off. (\<forall>g \<in> set fs. off + 4 \<le> fx_imm g) \<longrightarrow> read_u32_le blob off = read_u32_le (pre @ concat cs1) off"
    by auto
  from fo obtain k nm h bs where k: "k < length cs" "cs ! k = h @ bs" "length bs = 4" "fx_imm f = pos pre cs k + length h"
    "fx_next f = fx_imm f + 4" unfolding fix_ok_def by blast
  have "pos pre cs (Suc k) \<le> length (pre @ concat cs)"
    by (metis append_take_drop_id concat_append length_append le_add1 add_le_cancel_left pos_def)
  then have "fx_imm f + 4 \<le> length (pre @ concat cs)" using k by (simp add: pos_def take_Suc_conv_app_nth)
  then have "read_u32_le (pre @ concat cs1) (fx_imm f) = word_of_int r"
    using read_put_same [of "fx_imm f" "pre @ concat cs" "word_of_int r"] cs1(1) by simp
  moreover have "\<forall>g \<in> set fs. fx_imm f + 4 \<le> fx_imm g" using Cons.prems(4) k(5) by simp
  ultimately have "read_u32_le blob (fx_imm f) = word_of_int r" using cs2(5) by simp
  then have "int (fx_next f) + sint (read_u32_le blob (fx_imm f)) = int pc" using rel_word [OF r] by (simp add: r_def)
  moreover have "read_u32_le blob off = read_u32_le (pre @ concat cs) off" if "\<forall>g \<in> set (f # fs). off + 4 \<le> fx_imm g" for off
    using that cs2(5) read_put_before [of off "fx_imm f" "word_of_int r" "pre @ concat cs"] cs1(1) by simp
  ultimately show ?case using cs2 cs1(2) pc by (intro exI [of _ cs2]) simp
next
  case Nil
  then show ?case by (intro exI [of _ cs]) simp
qed

lemma compile_parts:
  assumes "compile_from_fp ok fnan text = Inr blob"
  obtains sv ob ctx o1 where "pass1 ok (file_lines text) \<lparr>sv_items = [], sv_cap = 0\<rparr> = Inr sv"
    "emit_strings ok (sv_items sv) = Inr ob" "pass2 ok fnan (file_lines text) ctx_zero ob = Inr (ctx, o1)"
    "patch_fixups ctx (ac_fixups ctx) (o_buf o1) = Inr blob"
  using assms by (auto simp: compile_from_fp_def emit_Inr)

text \<open>What the passes leave, put together.\<close>

lemma compile_image:
  assumes "pass2 ok fnan ls ctx_zero ob = Inr (ctx, o1)" and "patch_fixups ctx (ac_fixups ctx) (o_buf o1) = Inr blob"
  shows "\<exists>cs. blob = o_buf ob @ concat cs \<and> insns_ok cs
     \<and> (\<forall>(n, pc) \<in> set (ac_labels ctx). \<exists>k \<le> length cs. pc = pos (o_buf ob) cs k)
     \<and> (\<forall>f \<in> set (ac_fixups ctx). \<exists>pc. ctx_find_label ctx (fx_name f) = Some pc
          \<and> int (fx_next f) + sint (read_u32_le blob (fx_imm f)) = int pc)"
proof -
  have "pass_inv (o_buf ob) [] ctx_zero ob" by (simp add: pass_inv_def insns_ok_def ctx_zero_def)
  from pass_inv_pass2 [OF assms(1) this] obtain cs where cs: "pass_inv (o_buf ob) cs ctx o1" ..
  have b: "o_buf o1 = o_buf ob @ concat cs" using cs by (simp add: pass_inv_def)
  from patch_image [OF assms(2) [unfolded b]] cs obtain cs' where cs':
    "blob = o_buf ob @ concat cs'" "map length cs' = map length cs" "insns_ok cs'"
    "\<forall>f \<in> set (ac_fixups ctx). \<exists>pc. ctx_find_label ctx (fx_name f) = Some pc
        \<and> int (fx_next f) + sint (read_u32_le blob (fx_imm f)) = int pc"
    by (auto simp: pass_inv_def)
  have "length cs' = length cs" using cs'(2) by (rule map_eq_imp_length_eq)
  then show ?thesis using cs cs' pos_same [OF cs'(2)] unfolding pass_inv_def by (intro exI [of _ cs']) auto
qed

lemma find_label_in_set: "find_label_in n ls = Some pc \<Longrightarrow> (n, pc) \<in> set ls"
  by (induction n ls rule: find_label_in.induct) (auto split: if_splits)

text \<open>C20: the image of an accepted text is well formed. From the end of the constant block the
  decoder walks over it instruction by instruction, every opcode known and no operand cut off, to
  exactly its end; it can start the same walk at every label, so a label never points into an
  instruction; and every jump to a label, as the machine computes its target from the patched operand,
  lands on that label.\<close>

theorem assembled_image_sound:
  assumes "compile_from_fp ok fnan text = Inr blob"
  shows "\<exists>sv ob ctx o1. pass1 ok (file_lines text) \<lparr>sv_items = [], sv_cap = 0\<rparr> = Inr sv
     \<and> emit_strings ok (sv_items sv) = Inr ob \<and> pass2 ok fnan (file_lines text) ctx_zero ob = Inr (ctx, o1)
     \<and> scans blob (length (o_buf ob)) \<and> (\<forall>(n, pc) \<in> set (ac_labels ctx). scans blob pc)
     \<and> (\<forall>f \<in> set (ac_fixups ctx). \<exists>pc. ctx_find_label ctx (fx_name f) = Some pc \<and> scans blob pc
          \<and> int (fx_next f) + sint (read_u32_le blob (fx_imm f)) = int pc)"
proof -
  from assms obtain sv ob ctx o1 where p: "pass1 ok (file_lines text) \<lparr>sv_items = [], sv_cap = 0\<rparr> = Inr sv"
    "emit_strings ok (sv_items sv) = Inr ob" "pass2 ok fnan (file_lines text) ctx_zero ob = Inr (ctx, o1)"
    "patch_fixups ctx (ac_fixups ctx) (o_buf o1) = Inr blob" by (rule compile_parts)
  from compile_image [OF p(3,4)] obtain cs where cs: "blob = o_buf ob @ concat cs" "insns_ok cs"
    "\<forall>(n, pc) \<in> set (ac_labels ctx). \<exists>k \<le> length cs. pc = pos (o_buf ob) cs k"
    "\<forall>f \<in> set (ac_fixups ctx). \<exists>pc. ctx_find_label ctx (fx_name f) = Some pc
        \<and> int (fx_next f) + sint (read_u32_le blob (fx_imm f)) = int pc" by blast
  have at: "scans blob (pos (o_buf ob) cs k)" if "k \<le> length cs" for k
    using scans_boundary [OF cs(2) that] cs(1) by simp
  have "scans blob (length (o_buf ob))" using at [of 0] by (simp add: pos_def)
  moreover have lab: "scans blob pc" if "(n, pc) \<in> set (ac_labels ctx)" for n pc
    using cs(3) that at by auto
  moreover have "\<exists>pc. ctx_find_label ctx (fx_name f) = Some pc \<and> scans blob pc
          \<and> int (fx_next f) + sint (read_u32_le blob (fx_imm f)) = int pc" if f: "f \<in> set (ac_fixups ctx)" for f
    using bspec [OF cs(4) f] lab unfolding ctx_find_label_def by (auto dest: find_label_in_set)
  ultimately show ?thesis using p(1-3)
    by (intro exI [of _ sv] exI [of _ ob] exI [of _ ctx] exI [of _ o1]) auto
qed

text \<open>Two lines with a jump back.\<close>

definition demo_text :: string where
  "demo_text = ''loop: noop'' @ [CHR 10] @ ''jmp loop''"

lemma demo_compiles: "compile_from_fp (\<lambda>_. True) (\<lambda>_ _. 0) demo_text = Inr [0, 4, 250, 255, 255, 255]"
  by code_simp

theorem assembled_image_sound_witness:
  "compile_from_fp (\<lambda>_. True) (\<lambda>_ _. 0) demo_text = Inr [0, 4, 250, 255, 255, 255] \<and> scans [0, 4, 250, 255, 255, 255] 0"
proof -
  from assembled_image_sound [OF demo_compiles] obtain sv ob where
    "pass1 (\<lambda>_. True) (file_lines demo_text) \<lparr>sv_items = [], sv_cap = 0\<rparr> = Inr sv"
    "emit_strings (\<lambda>_. True) (sv_items sv) = Inr ob" "scans [0, 4, 250, 255, 255, 255] (length (o_buf ob))" by blast
  moreover have "pass1 (\<lambda>_. True) (file_lines demo_text) \<lparr>sv_items = [], sv_cap = 0\<rparr> = Inr \<lparr>sv_items = [], sv_cap = 0\<rparr>"
    by code_simp
  ultimately have "sv = \<lparr>sv_items = [], sv_cap = 0\<rparr>" "ob = out_zero" "scans [0, 4, 250, 255, 255, 255] (length (o_buf ob))"
    by (auto simp: emit_strings_def)
  then show ?thesis using demo_compiles by (simp add: out_zero_def)
qed

section \<open>String constants come back\<close>

definition u16_bytes :: "u16 \<Rightarrow> u8 list" where
  "u16_bytes v = [ucast v, ucast (drop_bit 8 v)]"

lemma length_u16_bytes [simp]: "length (u16_bytes v) = 2"
  by (simp add: u16_bytes_def)

lemma read_u16_bytes: "read_u16_le (xs @ u16_bytes v @ ys) (length xs) = v"
  by (simp add: read_u16_le_def u16_bytes_def nth_append u16_le_join)

lemma out_u16_buf: "out_u16_le ok ob v = Some ob' \<Longrightarrow> o_buf ob' = o_buf ob @ u16_bytes v"
  by (auto simp: out_u16_le_def u16_bytes_def low_byte dest!: out_bytes_buf)

definition item_bytes :: "u32 \<times> u8 list \<Rightarrow> u8 list" where
  "item_bytes x = u32_le_bytes (fst x) @ u16_bytes (of_nat (length (snd x))) @ snd x"

lemma str_payload_buf: "str_payload ok items ob = Some ob' \<Longrightarrow> o_buf ob' = o_buf ob @ concat (map item_bytes items)"
  by (induction ok items ob rule: str_payload.induct)
    (auto simp: item_bytes_def split: option.splits dest!: out_u32_buf out_u16_buf out_bytes_buf)

lemma pad_out_buf: "pad_out n ok ob = Some ob' \<Longrightarrow> \<exists>zs. o_buf ob' = o_buf ob @ zs \<and> length zs \<le> n
    \<and> (length (o_buf ob) mod 4 = 0 \<or> 4 - length (o_buf ob) mod 4 \<le> n \<longrightarrow> length (o_buf ob') = align4 (length (o_buf ob)))"
proof (induction n ok ob rule: pad_out.induct)
  case (2 n ok ob)
  show ?case
  proof (cases "length (o_buf ob) mod 4 = 0")
    case True
    with 2 have "ob' = ob" by simp
    with True show ?thesis by (auto simp: align4_def mod_eq_0_iff_dvd elim!: dvdE)
  next
    case False
    with 2(2) obtain o1 where o1: "out_u8 ok ob 0 = Some o1" "pad_out n ok o1 = Some ob'" by (auto split: option.splits)
    have b: "o_buf o1 = o_buf ob @ [0]" using o1(1) by (auto simp: out_u8_def dest!: out_bytes_buf)
    from 2(1) [OF False o1] obtain zs where z: "o_buf ob' = o_buf o1 @ zs" "length zs \<le> n"
      "length (o_buf o1) mod 4 = 0 \<or> 4 - length (o_buf o1) mod 4 \<le> n \<longrightarrow> length (o_buf ob') = align4 (length (o_buf o1))" by blast
    have "align4 (length (o_buf o1)) = align4 (length (o_buf ob))"
      using False b by (simp add: align4_def) presburger
    moreover have "4 - length (o_buf ob) mod 4 \<le> Suc n \<Longrightarrow> length (o_buf o1) mod 4 = 0 \<or> 4 - length (o_buf o1) mod 4 \<le> n"
      using False b by (simp) presburger
    ultimately show ?thesis using z b False by auto
  qed
qed (auto simp: align4_def mod_eq_0_iff_dvd elim!: dvdE)

lemma emit_strings_buf:
  assumes "emit_strings ok items = Inr ob" and "items \<noteq> []"
  shows "length items \<le> 65535 \<and> (\<exists>payload zs. payload = u16_bytes (of_nat (length items)) @ concat (map item_bytes items)
     \<and> o_buf ob = [3] @ u16_bytes 1 @ u16_bytes 1 @ u16_bytes 0 @ u32_le_bytes (of_nat (length payload)) @ payload @ zs
     \<and> length (o_buf ob) = align4 (11 + length payload))"
proof -
  from assms obtain p1 p o1 o2 o3 o4 o5 o6 where s: "length items \<le> 65535"
    "out_u16_le ok out_zero (of_nat (length items)) = Some p1" "str_payload ok items p1 = Some p"
    "out_opcode ok out_zero 3 = Some o1" "out_u16_le ok o1 1 = Some o2" "out_u16_le ok o2 1 = Some o3"
    "out_u16_le ok o3 0 = Some o4" "out_u32_le ok o4 (of_nat (length (o_buf p))) = Some o5"
    "out_bytes ok o5 (o_buf p) = Some o6" "pad_out 3 ok o6 = Some ob"
    by (auto simp: emit_strings_def or_fail_Inr split: if_splits option.splits)
  have p: "o_buf p = u16_bytes (of_nat (length items)) @ concat (map item_bytes items)"
    using out_u16_buf [OF s(2)] str_payload_buf [OF s(3)] by (simp add: out_zero_def)
  have o6: "o_buf o6 = [3] @ u16_bytes 1 @ u16_bytes 1 @ u16_bytes 0 @ u32_le_bytes (of_nat (length (o_buf p))) @ o_buf p"
    using out_opcode_buf [OF s(4)] out_u16_buf [OF s(5)] out_u16_buf [OF s(6)] out_u16_buf [OF s(7)]
      out_u32_buf [OF s(8)] out_bytes_buf [OF s(9)] by (simp add: out_zero_def opcode_bytes_def)
  have "4 - length (o_buf o6) mod 4 \<le> 3 \<or> length (o_buf o6) mod 4 = 0" by presburger
  with pad_out_buf [OF s(10)] obtain zs where "o_buf ob = o_buf o6 @ zs" "length (o_buf ob) = align4 (length (o_buf o6))"
    by blast
  with s(1) p o6 show ?thesis
    by (intro conjI exI [of _ "o_buf p"] exI [of _ zs]) simp_all
qed

text \<open>What the loader's constant names in the image.\<close>

definition const_bytes :: "u8 list \<Rightarrow> epa_const \<Rightarrow> u32 \<times> u8 list" where
  "const_bytes blob c = (ec_id c, take (unat (ec_b c)) (drop (unat (ec_a c)) blob))"

lemma db_str_items:
  "blob = pre @ concat (map item_bytes items) @ post \<Longrightarrow> length pre = pc + ppc \<Longrightarrow>
   plen = ppc + length (concat (map item_bytes items)) \<Longrightarrow> (\<forall>x \<in> set items. length (snd x) \<le> 65535) \<Longrightarrow>
   length blob < 2 ^ 32 \<Longrightarrow> \<exists>cs. db_str blob pc plen (length items) ppc = Inr cs \<and> map (const_bytes blob) cs = items"
proof (induction items arbitrary: pre ppc)
  case (Cons x items)
  obtain i bs where x: "x = (i, bs)" by (cases x)
  let ?pre = "pre @ item_bytes x"
  have len: "unat (of_nat (length bs) :: u16) = length bs" using Cons.prems(4) x by (simp add: unat_of_nat)
  have ib: "item_bytes x = u32_le_bytes i @ u16_bytes (of_nat (length bs)) @ bs" by (simp add: item_bytes_def x)
  have lx: "length (item_bytes x) = 6 + length bs" by (simp add: ib)
  from Cons.IH [of ?pre "ppc + 6 + length bs"] Cons.prems lx obtain cs where
    cs: "db_str blob pc plen (length items) (ppc + 6 + length bs) = Inr cs" "map (const_bytes blob) cs = items" by auto
  have b: "blob = pre @ u32_le_bytes i @ (u16_bytes (of_nat (length bs)) @ bs @ concat (map item_bytes items) @ post)"
    using Cons.prems(1) ib by simp
  have id: "read_u32_le blob (pc + ppc) = i"
    using read_u32_le_bytes [of pre i] Cons.prems(2) unfolding b by simp
  have b': "blob = (pre @ u32_le_bytes i) @ u16_bytes (of_nat (length bs)) @ (bs @ concat (map item_bytes items) @ post)"
    using b by simp
  have l: "read_u16_le blob (pc + ppc + 4) = of_nat (length bs)"
    using read_u16_bytes [of "pre @ u32_le_bytes i" "of_nat (length bs)"] Cons.prems(2) unfolding b' by simp
  have a: "unat (of_nat (pc + (ppc + 6)) :: u32) = pc + (ppc + 6)"
    using Cons.prems(2,5) by (simp add: b unat_of_nat del: of_nat_add)
  have "unat (ucast (of_nat (length bs) :: u16) :: u32) = length bs" using len Cons.prems(4) x by (simp add: unsigned_ucast_eq take_bit_nat_eq_self)
  then have c: "const_bytes blob \<lparr>ec_id = i, ec_kind = 1, ec_flags = 0, ec_aux = 0,
      ec_a = of_nat (pc + (ppc + 6)), ec_b = ucast (of_nat (length bs) :: u16)\<rparr> = x"
    using a Cons.prems(2) by (simp add: const_bytes_def x b del: of_nat_add)
  have pl: "\<not> ppc + 4 + 2 > plen" "\<not> ppc + 6 + length bs > plen" using Cons.prems(3) lx by simp_all
  show ?case using cs pl c by (simp add: Let_def id l len del: of_nat_add)
qed simp

lemma data_block_back:
  assumes "emit_strings ok items = Inr ob" and "items \<noteq> []" and "blob = o_buf ob @ rest" and "length blob < 2 ^ 32"
    and "\<forall>x \<in> set items. length (snd x) \<le> 65535"
  shows "\<exists>cs. parse_data_block (\<lambda>_. True) p blob 0 = Inr (length (o_buf ob), p\<lparr>p_consts := cs\<rparr>)
     \<and> map (const_bytes blob) cs = items"
proof -
  from emit_strings_buf [OF assms(1,2)] obtain payload zs where n: "length items \<le> 65535"
    and pl: "payload = u16_bytes (of_nat (length items)) @ concat (map item_bytes items)"
    and ob: "o_buf ob = [3] @ u16_bytes 1 @ u16_bytes 1 @ u16_bytes 0 @ u32_le_bytes (of_nat (length payload)) @ payload @ zs"
    and len: "length (o_buf ob) = align4 (11 + length payload)" by blast
  define h where "h = [3] @ u16_bytes 1 @ u16_bytes 1 @ u16_bytes 0 @ u32_le_bytes (of_nat (length payload))"
  have lh: "length h = 11" by (simp add: h_def)
  have b1: "blob = [3] @ u16_bytes 1 @ (u16_bytes 1 @ u16_bytes 0 @ u32_le_bytes (of_nat (length payload)) @ payload @ zs @ rest)"
    and b2: "blob = ([3] @ u16_bytes 1) @ u16_bytes 1 @ (u16_bytes 0 @ u32_le_bytes (of_nat (length payload)) @ payload @ zs @ rest)"
    and b3: "blob = ([3] @ u16_bytes 1 @ u16_bytes 1 @ u16_bytes 0) @ u32_le_bytes (of_nat (length payload)) @ (payload @ zs @ rest)"
    and b4: "blob = h @ u16_bytes (of_nat (length items)) @ (concat (map item_bytes items) @ zs @ rest)"
    and b5: "blob = (h @ u16_bytes (of_nat (length items))) @ concat (map item_bytes items) @ (zs @ rest)"
    using assms(3) ob pl by (simp_all add: h_def)
  have r1: "read_u16_le blob 1 = 1" using read_u16_bytes [of "[3]" 1] unfolding b1 by simp
  have r2: "read_u16_le blob 3 = 1" using read_u16_bytes [of "[3] @ u16_bytes 1" 1] unfolding b2 by simp
  have lb: "length blob = 11 + length payload + length zs + length rest"
    using assms(3) ob by (simp add: u16_bytes_def)
  have r3: "unat (read_u32_le blob 7) = length payload"
    using read_u32_le_bytes [of "[3] @ u16_bytes 1 @ u16_bytes 1 @ u16_bytes 0" "of_nat (length payload)"] lb assms(4)
    unfolding b3 by (simp add: unat_of_nat)
  have r4: "unat (read_u16_le blob 11) = length items"
    using read_u16_bytes [of h "of_nat (length items)"] lh n unfolding b4 by (simp add: unat_of_nat)
  have "length (h @ u16_bytes (of_nat (length items))) = 11 + 2" using lh by simp
  moreover have "length payload = 2 + length (concat (map item_bytes items))" by (simp add: pl)
  ultimately obtain cs where cs: "db_str blob 11 (length payload) (length items) 2 = Inr cs" "map (const_bytes blob) cs = items"
    using db_str_items [OF b5, of 11 2 "length payload"] assms(4,5) by blast
  have "db_chunks (\<lambda>_. True) blob 1 3 [] = Inr (align4 (11 + length payload), cs)"
    using cs(1) lb pl by (simp add: Let_def r2 r3 r4)
  then have "parse_data_block (\<lambda>_. True) p blob 0 = Inr (length (o_buf ob), p\<lparr>p_consts := cs\<rparr>)"
    using lb by (simp add: parse_data_block_def r1 len One_nat_def [symmetric] del: One_nat_def db_chunks.simps)
  with cs(2) show ?thesis by blast
qed

text \<open>String literals fit the 16-bit length field.\<close>

lemma lit_put_bound: "lit_put ok cap buf c = Inr (cap1, buf1) \<Longrightarrow> length buf1 \<le> 65535"
  by (auto simp: lit_put_def Let_def split: if_splits)

lemma lit_body_bound: "lit_body ok cs cap buf = Inr bs \<Longrightarrow> length buf \<le> 65535 \<Longrightarrow> length bs \<le> 65535"
proof (induction cs arbitrary: cap buf rule: length_induct)
  case (1 cs)
  have step: "length bs \<le> 65535" if "length cs' < length cs"
      "(case lit_put ok cap buf x of Inl m \<Rightarrow> Inl m | Inr (cap1, buf1) \<Rightarrow> lit_body ok cs' cap1 buf1) = Inr bs" for cs' x
    using 1(1) that by (auto split: sum.splits dest: lit_put_bound)
  show ?case
  proof (cases cs)
    case (Cons c r)
    consider "c = CHR 34" | "c \<noteq> CHR 34" "c = CHR 92" | "c \<noteq> CHR 34" "c \<noteq> CHR 92" by blast
    then show ?thesis
    proof cases
      case 2
      with 1(2) Cons obtain e r' x where "r = e # r'" "escaped e = Some x"
        "(case lit_put ok cap buf x of Inl m \<Rightarrow> Inl m | Inr (cap1, buf1) \<Rightarrow> lit_body ok r' cap1 buf1) = Inr bs"
        by (auto split: list.splits option.splits)
      with step [of r' x] Cons show ?thesis by simp
    next
      case 3
      with 1(2) Cons step [of r c] show ?thesis by simp
    qed (use 1 Cons in simp)
  qed (use 1 in simp)
qed

lemma map_sum_Inr: "map_sum id f x = Inr y \<longleftrightarrow> (\<exists>z. x = Inr z \<and> f z = y)"
  by (cases x) auto

lemma directive_bound:
  assumes "parse_sstr_directive_line ok line = Inr (Some (i, bs))"
  shows "length bs \<le> 65535"
proof -
  from assms have "\<exists>q. parse_string_lit ok q = Inr bs"
    by (auto simp: parse_sstr_directive_line_def Let_def map_sum_Inr split: if_splits option.splits)
  then show ?thesis using lit_body_bound [of ok _ 64 "[]" bs] by (auto simp: parse_string_lit_def split: if_splits)
qed

definition items_ok :: "sstr_vec \<Rightarrow> bool" where
  "items_ok sv \<longleftrightarrow> distinct (map fst (sv_items sv)) \<and> (\<forall>x \<in> set (sv_items sv). length (snd x) \<le> 65535)"

lemma pass1_items: "pass1 ok ls sv = Inr sv' \<Longrightarrow> items_ok sv \<Longrightarrow> items_ok sv'"
proof (induction ls arbitrary: sv)
  case (Cons l ls)
  show ?case
  proof (cases "parse_sstr_directive_line ok (strip_comment l)")
    case (Inr r)
    show ?thesis
    proof (cases r)
      case (Some x)
      obtain i bs where x: "x = (i, bs)" by (cases x)
      from Cons.prems(1) Inr Some x obtain sv1 where sv1: "sstrvec_add ok sv i bs = Inr sv1" "pass1 ok ls sv1 = Inr sv'"
        by (auto simp: emit_Inr split: if_splits)
      have "length bs \<le> 65535" using Inr Some x directive_bound by blast
      moreover have "i \<notin> set (map fst (sv_items sv))" "sv_items sv1 = sv_items sv @ [(i, bs)]"
        using sv1(1) by (force simp: sstrvec_add_def Let_def list_ex_iff split: if_splits)+
      ultimately have "items_ok sv1" using Cons.prems(2) by (simp add: items_ok_def)
      with Cons.IH [OF sv1(2)] show ?thesis .
    qed (use Cons Inr in \<open>auto split: if_splits\<close>)
  qed (use Cons.prems in \<open>auto split: if_splits\<close>)
qed simp

lemma find_const_map:
  "map (const_bytes blob) cs = items \<Longrightarrow> distinct (map fst items) \<Longrightarrow> (i, bs) \<in> set items \<Longrightarrow>
    \<exists>c. find_const_in i cs = Some c \<and> const_bytes blob c = (i, bs)"
  by (induction cs arbitrary: items) (auto simp: const_bytes_def)

text \<open>C21: string constants survive the trip through assembler and loader. When the text declares
  any, the image starts with a constant block which the loader accepts and which ends exactly where the
  code begins, and looking up the number of a declared string in the loaded table, as
  \<open>LOAD_CONST\<close> does, finds a constant that points at exactly its bytes in the image. (The image
  is below 4 GiB, which its 32-bit offsets need.)\<close>

theorem string_constants_load:
  assumes "compile_from_fp ok fnan text = Inr blob" and "length blob < 2 ^ 32"
    and "pass1 ok (file_lines text) \<lparr>sv_items = [], sv_cap = 0\<rparr> = Inr sv" and "(i, bs) \<in> set (sv_items sv)"
  shows "\<exists>e q. parse_step (\<lambda>_. True) blob 0 p = Inr (e, q) \<and> scans blob e
     \<and> (\<exists>c. prog_find_const q i = Some c \<and> take (unat (ec_b c)) (drop (unat (ec_a c)) blob) = bs)"
proof -
  from assms(1,3) obtain ob ctx o1 where s: "emit_strings ok (sv_items sv) = Inr ob"
    "pass2 ok fnan (file_lines text) ctx_zero ob = Inr (ctx, o1)" "patch_fixups ctx (ac_fixups ctx) (o_buf o1) = Inr blob"
    by (auto elim: compile_parts)
  have ne: "sv_items sv \<noteq> []" using assms(4) by auto
  have it: "items_ok sv" using pass1_items [OF assms(3)] by (simp add: items_ok_def)
  from compile_image [OF s(2,3)] obtain cs where cs: "blob = o_buf ob @ concat cs" "insns_ok cs" by blast
  from data_block_back [OF s(1) ne cs(1) assms(2), of p] it obtain ks where
    ks: "parse_data_block (\<lambda>_. True) p blob 0 = Inr (length (o_buf ob), p\<lparr>p_consts := ks\<rparr>)"
      "map (const_bytes blob) ks = sv_items sv" by (auto simp: items_ok_def)
  have "scans blob (length (o_buf ob))" using scans_boundary [OF cs(2), of 0 "o_buf ob"] cs(1) by (simp add: pos_def)
  moreover have "epa_decode_opcode_at blob 0 = Some (3, 1)"
    using emit_strings_buf [OF s(1) ne] cs(1) by (auto simp: epa_decode_opcode_at_def)
  then have "parse_step (\<lambda>_. True) blob 0 p = Inr (length (o_buf ob), p\<lparr>p_consts := ks\<rparr>)"
    using ks(1) by (simp add: parse_step_def)
  moreover have "distinct (map fst (sv_items sv))" using it by (simp add: items_ok_def)
  from find_const_map [OF ks(2) this assms(4)] obtain c where
    "find_const_in i ks = Some c" "const_bytes blob c = (i, bs)" by blast
  then have "prog_find_const (p\<lparr>p_consts := ks\<rparr>) i = Some c \<and> take (unat (ec_b c)) (drop (unat (ec_a c)) blob) = bs"
    by (simp add: prog_find_const_def const_bytes_def)
  ultimately show ?thesis by blast
qed

definition demo_strings :: string where
  "demo_strings = ''.SSTR 7 '' @ [CHR 34] @ ''hi'' @ [CHR 34, CHR 10] @ ''noop''"

definition demo_image :: "u8 list" where
  "demo_image = [3, 1, 0, 1, 0, 0, 0, 10, 0, 0, 0, 1, 0, 7, 0, 0, 0, 2, 0, 104, 105, 0, 0, 0, 0]"

lemma demo_strings_compile:
  "compile_from_fp (\<lambda>_. True) (\<lambda>_ _. 0) demo_strings = Inr demo_image"
  "pass1 (\<lambda>_. True) (file_lines demo_strings) \<lparr>sv_items = [], sv_cap = 0\<rparr> = Inr \<lparr>sv_items = [(7, [104, 105])], sv_cap = 16\<rparr>"
  by code_simp+

theorem string_constants_load_witness:
  "\<exists>e q c. parse_step (\<lambda>_. True) demo_image 0 program_zero = Inr (e, q) \<and> prog_find_const q 7 = Some c
     \<and> take (unat (ec_b c)) (drop (unat (ec_a c)) demo_image) = [104, 105]"
proof -
  have "length demo_image < 2 ^ 32" by (simp add: demo_image_def)
  from string_constants_load [OF demo_strings_compile(1) this demo_strings_compile(2), of 7 "[104, 105]" program_zero]
  show ?thesis by (metis list.set_intros(1) sstr_vec.select_convs(1))
qed

end
