(* ===== verification/IngressProps.thy ===== *)
theory IngressProps
  imports KernelRunInv
begin

text \<open>
  What the delivery of ingress messages does: every queued message becomes a fresh block of the
  heap, owned by its worker, and one notice of four words on the input ring, in the order of the
  queue.
\<close>

section \<open>One message\<close>

text \<open>A readable block with its bytes, owner and tag; a table that has only grown.\<close>

definition ghs_holds :: "epa_ghs \<Rightarrow> u64 \<Rightarrow> u8 list \<Rightarrow> u32 \<Rightarrow> u32 \<Rightarrow> bool" where
  "ghs_holds g h bs owner tag \<longleftrightarrow> epa_ghs_valid g h \<and> ghs_payload g h = bs
     \<and> ge_owner (g_entries g ! ghs_idx h) = owner \<and> ge_tag (g_entries g ! ghs_idx h) = tag"

definition ghs_extends :: "epa_ghs \<Rightarrow> epa_ghs \<Rightarrow> bool" where
  "ghs_extends g g' \<longleftrightarrow> (\<forall>h. epa_ghs_valid g h \<longrightarrow>
     epa_ghs_valid g' h \<and> g_entries g' ! ghs_idx h = g_entries g ! ghs_idx h)"

definition inq_words :: "epa_kernel \<Rightarrow> nat \<Rightarrow> u32 list" where
  "inq_words k i = ring_contents (w_inq (k_workers k i))"

definition notice :: "u64 \<Rightarrow> u32 \<Rightarrow> u32 list" where
  "notice h len = [1, epa_ghs_handle_index h, epa_ghs_handle_gen h, len]"

lemma ghs_extends_refl [simp]: "ghs_extends g g"
  by (simp add: ghs_extends_def)

lemma ghs_extends_trans: "ghs_extends g1 g2 \<Longrightarrow> ghs_extends g2 g3 \<Longrightarrow> ghs_extends g1 g3"
  by (simp add: ghs_extends_def)

lemma ghs_extends_holds: "ghs_extends g g' \<Longrightarrow> ghs_holds g h bs ow tag \<Longrightarrow> ghs_holds g' h bs ow tag"
  by (auto simp: ghs_extends_def ghs_holds_def ghs_payload_def)

lemma ring_push_all_contents:
  "ring_inv q \<Longrightarrow> ring_push_all ws q = (Ok (), q') \<Longrightarrow> ring_contents q' = ring_contents q @ ws"
proof (induction ws arbitrary: q)
  case (Cons x xs)
  then obtain r where r: "epa_ring_push q x False = Inr r" and rs: "ring_push_all xs r = (Ok (), q')"
    by (auto split: sum.splits)
  have "r_count q < r_cap q"
  proof (rule ccontr)
    assume "\<not> r_count q < r_cap q"
    then have "ring_enq x q = None"
      using ring.enq_full [OF Cons.prems(1)] ring.within_capacity [OF Cons.prems(1)] ring_count_room [OF Cons.prems(1)]
      by force
    with r show False by (simp add: ring_enq_def)
  qed
  with ring_pushed [OF Cons.prems(1), of x False] r
  have "ring_inv r" "ring_contents r = ring_contents q @ [x]" by auto
  with Cons.IH [OF _ rs] show ?case by simp
qed simp

lemma k_round_enter_frame:
  assumes "k_round_enter al i k = (r, k')"
  shows "k_ghs k' = k_ghs k \<and> k_ingress k' = k_ingress k \<and> inq_words k' j = inq_words k j
    \<and> w_src_kernel (k_workers k' j) = w_src_kernel (k_workers k j)
    \<and> w_src_worker (k_workers k' j) = w_src_worker (k_workers k j)
    \<and> (j \<noteq> i \<longrightarrow> k_workers k' j = k_workers k j)"
  using assms by (auto simp: k_round_enter_def epa_worker_round_enter_def inq_words_def k_upd_w_def
      split: option.splits if_splits worker_pools.splits prod.splits)

lemma deliver_words_Ok:
  assumes "deliver_words al dst need ws fm msg sk sw k = (Ok (), k')"
    and inv: "ring_inv (w_inq (k_workers k (unat dst)))"
  shows "k_ghs k' = k_ghs k \<and> k_ingress k' = k_ingress k \<and> inq_words k' (unat dst) = inq_words k (unat dst) @ ws
    \<and> \<not> w_blocked (k_workers k' (unat dst)) \<and> \<not> w_waiting (k_workers k' (unat dst))
    \<and> w_src_kernel (k_workers k' (unat dst)) = sk \<and> w_src_worker (k_workers k' (unat dst)) = sw
    \<and> (\<forall>j. j \<noteq> unat dst \<longrightarrow> k_workers k' j = k_workers k j)"
proof -
  let ?i = "unat dst" and ?k1 = "k_upd_w (unat dst) (\<lambda>w. w\<lparr>w_src_kernel := sk, w_src_worker := sw\<rparr>) k"
  obtain r q where rq: "ring_push_all ws (w_inq (k_workers ?k1 ?i)) = (r, q)" by force
  let ?k2 = "k_upd_w ?i (\<lambda>w. w\<lparr>w_inq := q\<rparr>) ?k1"
  obtain r3 k3 where r3: "(if w_waiting (k_workers ?k2 ?i) then k_round_enter al ?i ?k2 else (Ok (), ?k2)) = (r3, k3)"
    by force
  note d = assms(1) [unfolded deliver_words_def Let_def rq prod.case r3]
  have ok: "r = Ok ()" and k': "k' = k_upd_w ?i (\<lambda>w. w\<lparr>w_waiting := False, w_blocked := False\<rparr>) k3"
    using d by (auto split: if_splits res.splits)
  have q: "ring_contents q = ring_contents (w_inq (k_workers k ?i)) @ ws"
    using ring_push_all_contents [of _ ws q] inv rq ok by (simp add: k_upd_w_def)
  have f: "k_ghs k3 = k_ghs ?k2 \<and> k_ingress k3 = k_ingress ?k2 \<and> inq_words k3 ?i = inq_words ?k2 ?i
      \<and> w_src_kernel (k_workers k3 ?i) = w_src_kernel (k_workers ?k2 ?i)
      \<and> w_src_worker (k_workers k3 ?i) = w_src_worker (k_workers ?k2 ?i)
      \<and> (\<forall>j. j \<noteq> ?i \<longrightarrow> k_workers k3 j = k_workers ?k2 j)"
    using r3 k_round_enter_frame [of al ?i ?k2 r3 k3] by (auto split: if_splits)
  show ?thesis using f q unfolding k' by (simp add: k_upd_w_def inq_words_def)
qed

text \<open>The heap after the allocation, the copy and the transfer.\<close>

lemma ghs_delivery:
  assumes wf: "ghs_wf g" and al: "alloc_ok al"
    and a: "epa_ghs_alloc_tagged al g ty ow len tag = Ok (h, g1)"
    and p: "epa_ghs_get_ptr g1 h = Ok (Some p)" and len: "unat len \<le> length bytes"
    and t: "epa_ghs_transfer (ghs_set (ghs_idx h) ((g_entries g1 ! ghs_idx h)
              \<lparr>ge_ptr := Some (mem_write p 0 (take (unat len) bytes))\<rparr>) g1) h dst = Ok g3"
  shows "\<not> epa_ghs_valid g h \<and> ghs_extends g g3 \<and> ghs_holds g3 h (take (unat len) bytes) dst tag"
proof -
  obtain g0 where g0: "epa_ghs_alloc al g ty ow len = Ok (h, g0)" and g1: "epa_ghs_set_tag g0 h tag = Ok g1"
    using a by (auto simp: epa_ghs_alloc_tagged_def split: res.splits)
  obtain i q where i: "i < length (g_entries g)" "\<not> ge_in_use (g_entries g ! i)" "length q = unat len"
      "ghs_idx h = i" "epa_ghs_handle_gen h = ge_generation (g_entries g ! i)"
    and e: "g0 = (ghs_set i ((g_entries g ! i)\<lparr>ge_flags := EPA_GHS_F_IN_USE, ge_type := ty,
        ge_owner := ow, ge_size := len, ge_capacity := len, ge_ptr := Some q\<rparr>) g)\<lparr>g_live := g_live g + 1\<rparr>"
    using ghs_alloc_Ok [OF wf al g0] by blast
  have g1': "g1 = ghs_set i ((g_entries g0 ! i)\<lparr>ge_tag := tag\<rparr>) g0"
    using g1 i by (auto simp: epa_ghs_set_tag_def split: if_splits)
  have pq: "p = q" using p i by (auto simp: epa_ghs_get_ptr_def ghs_entry_op_valid g1' e split: if_splits)
  have w: "mem_write q 0 (take (unat len) bytes) = take (unat len) bytes"
    using i(3) len by (simp add: mem_write_def)
  have fresh: "\<not> epa_ghs_valid g h" using i by (simp add: epa_ghs_valid_def)
  have g3: "g3 = ghs_set i ((g_entries g1 ! i)\<lparr>ge_ptr := Some (take (unat len) bytes), ge_owner := dst\<rparr>) g1"
    using t i by (auto simp: epa_ghs_transfer_def ghs_entry_op_valid pq w g1' e ghs_set_def split: if_splits)
  have "ghs_extends g g3"
    unfolding ghs_extends_def
  proof (intro allI impI)
    fix h' assume v: "epa_ghs_valid g h'"
    then have "ghs_idx h' \<noteq> i" using i by (auto simp: epa_ghs_valid_def)
    with v show "epa_ghs_valid g3 h' \<and> g_entries g3 ! ghs_idx h' = g_entries g ! ghs_idx h'"
      by (simp add: epa_ghs_valid_def g3 g1' e)
  qed
  moreover have "ghs_holds g3 h (take (unat len) bytes) dst tag"
    using i by (simp add: ghs_holds_def epa_ghs_valid_def ghs_payload_def g3 g1' e ge_in_use_def ghs_flag_defs)
  ultimately show ?thesis using fresh by blast
qed

text \<open>What is left when a message has been delivered.\<close>

definition msg_delivered :: "nat \<Rightarrow> u8 list \<Rightarrow> u32 \<Rightarrow> u32 \<Rightarrow> u64 \<Rightarrow> epa_kernel \<Rightarrow> epa_kernel \<Rightarrow> bool" where
  "msg_delivered i bs tag len h k k' \<longleftrightarrow> \<not> epa_ghs_valid (k_ghs k) h \<and> ghs_extends (k_ghs k) (k_ghs k')
     \<and> ghs_holds (k_ghs k') h bs (of_nat i) tag \<and> inq_words k' i = inq_words k i @ notice h len
     \<and> k_ingress k' = k_ingress k \<and> (\<forall>j. j \<noteq> i \<longrightarrow> k_workers k' j = k_workers k j)"

lemma deliver_ingress_Ok:
  assumes k: "kernel_wf C k" and al: "alloc_ok al"
    and d: "epa_kernel_deliver_ingress_msg al dst bytes tag len sk sw k = (Ok (), k')"
  shows "\<exists>h. msg_delivered (unat dst) (take (unat len) bytes) tag len h k k'"
    and "\<not> w_blocked (k_workers k' (unat dst)) \<and> \<not> w_waiting (k_workers k' (unat dst))
      \<and> w_src_kernel (k_workers k' (unat dst)) = sk \<and> w_src_worker (k_workers k' (unat dst)) = sw"
proof -
  obtain h g1 p g3 where a: "epa_ghs_alloc_tagged al (k_ghs k) EPA_GHS_T_BYTES 0 len tag = Ok (h, g1)"
    and p: "epa_ghs_get_ptr g1 h = Ok (Some p)" and len: "unat len \<le> length bytes"
    and t: "epa_ghs_transfer (ghs_set (ghs_idx h) ((g_entries g1 ! ghs_idx h)
              \<lparr>ge_ptr := Some (mem_write p 0 (take (unat len) bytes))\<rparr>) g1) h dst = Ok g3"
    and w: "deliver_words al dst 4 [1, epa_ghs_handle_index h, epa_ghs_handle_gen h, len]
              ''INGRESS FAULT: ring buffer full for wid=%u (need 4 words)''
              ''ingress: wid=%u inq full (need 4 words)'' sk sw (k\<lparr>k_ghs := g3\<rparr>) = (Ok (), k')"
    using d by (auto simp: epa_kernel_deliver_ingress_msg_def Let_def split: if_splits res.splits option.splits)
  have "ring_inv (w_inq (k_workers (k\<lparr>k_ghs := g3\<rparr>) (unat dst)))"
    using worker_wf_parts(2) [OF kernel_wf_worker [OF k]] by simp
  note dw = deliver_words_Ok [OF w this]
  note gd = ghs_delivery [OF kernel_wf_parts(2) [OF k] al a p len t]
  show "\<exists>h. msg_delivered (unat dst) (take (unat len) bytes) tag len h k k'"
    using dw gd by (auto simp: msg_delivered_def notice_def inq_words_def intro!: exI [of _ h])
  show "\<not> w_blocked (k_workers k' (unat dst)) \<and> \<not> w_waiting (k_workers k' (unat dst))
      \<and> w_src_kernel (k_workers k' (unat dst)) = sk \<and> w_src_worker (k_workers k' (unat dst)) = sw"
    using dw by simp
qed

section \<open>A queue\<close>

definition im_full :: "ingress_msg \<Rightarrow> bool" where
  "im_full m \<longleftrightarrow> im_buf m \<noteq> None \<and> im_len m \<noteq> 0"

definition msg_bytes :: "ingress_msg \<Rightarrow> u8 list" where
  "msg_bytes m = take (unat (im_len m)) (the (im_buf m))"

text \<open>The messages \<open>ms\<close> of worker \<open>i\<close> have become the blocks \<open>hs\<close>.\<close>

definition all_delivered :: "nat \<Rightarrow> ingress_msg list \<Rightarrow> u64 list \<Rightarrow> epa_kernel \<Rightarrow> epa_kernel \<Rightarrow> bool" where
  "all_delivered i ms hs k k' \<longleftrightarrow>
     list_all2 (\<lambda>h m. \<not> epa_ghs_valid (k_ghs k) h
        \<and> ghs_holds (k_ghs k') h (msg_bytes m) (of_nat i) (im_tag m)) hs ms
     \<and> distinct hs
     \<and> inq_words k' i = inq_words k i @ concat (map2 (\<lambda>h m. notice h (im_len m)) hs ms)"

definition queue_kept :: "nat \<Rightarrow> epa_kernel \<Rightarrow> epa_kernel \<Rightarrow> bool" where
  "queue_kept i k k' \<longleftrightarrow> ghs_extends (k_ghs k) (k_ghs k')
     \<and> (\<forall>j. j \<noteq> i \<longrightarrow> k_workers k' j = k_workers k j \<and> k_ingress k' j = k_ingress k j)"

lemma ingress_consume_frame [simp]:
  "k_ghs (ingress_consume i k) = k_ghs k" "k_workers (ingress_consume i k) = k_workers k"
  "j \<noteq> i \<Longrightarrow> k_ingress (ingress_consume i k) j = k_ingress k j"
  "inq_words (ingress_consume i k) j = inq_words k j"
  by (auto simp: ingress_consume_def inq_words_def split: option.split)

lemma ingress_consume_list:
  assumes "cq_inv (k_ingress k i)" and "cq_list (k_ingress k i) = m # ms"
  shows "cq_list (k_ingress (ingress_consume i k) i) = ms"
  using cq_popped [OF assms, of ingress_free_msg] by (auto simp: ingress_consume_def)

lemma cq_head_list:
  assumes "cq_inv q" and "cq_list q = m # ms"
  shows "cq_slots q ! unat (cq_head q) = m" and "cq_count q \<noteq> 0"
proof -
  show "cq_slots q ! unat (cq_head q) = m"
    using cq_popped [OF assms, of "\<lambda>x. x"] by (auto simp: cq_pop_def split: if_splits)
  show "cq_count q \<noteq> 0" using length_cq_list [of q] assms(2) by auto
qed

lemma all_delivered_Cons:
  assumes m: "msg_delivered i (msg_bytes m) (im_tag m) (im_len m) h k k1"
    and ms: "all_delivered i ms hs k2 k'" and ext: "ghs_extends (k_ghs k2) (k_ghs k')"
    and k2: "k_ghs k2 = k_ghs k1" "inq_words k2 i = inq_words k1 i"
  shows "all_delivered i (m # ms) (h # hs) k k'"
proof -
  have h: "ghs_holds (k_ghs k') h (msg_bytes m) (of_nat i) (im_tag m)" "\<not> epa_ghs_valid (k_ghs k) h"
    using m ext k2 ghs_extends_holds by (auto simp: msg_delivered_def)
  have v1: "epa_ghs_valid (k_ghs k2) h" using m k2 by (simp add: msg_delivered_def ghs_holds_def)
  have old: "epa_ghs_valid (k_ghs k2) x" if "epa_ghs_valid (k_ghs k) x" for x
    using m k2 that by (simp add: msg_delivered_def ghs_extends_def)
  have l: "list_all2 (\<lambda>h m. \<not> epa_ghs_valid (k_ghs k2) h
      \<and> ghs_holds (k_ghs k') h (msg_bytes m) (of_nat i) (im_tag m)) hs ms"
    using ms by (simp add: all_delivered_def)
  then have new: "\<not> epa_ghs_valid (k_ghs k2) x" if "x \<in> set hs" for x
    using that by (fastforce simp: list_all2_conv_all_nth in_set_conv_nth)
  have "list_all2 (\<lambda>h m. \<not> epa_ghs_valid (k_ghs k) h
      \<and> ghs_holds (k_ghs k') h (msg_bytes m) (of_nat i) (im_tag m)) hs ms"
    using l old by (auto elim!: list_all2_mono)
  then show ?thesis
    using h ms m k2 v1 new by (auto simp: all_delivered_def msg_delivered_def)
qed

lemma queue_kept_trans: "queue_kept i k1 k2 \<Longrightarrow> queue_kept i k2 k3 \<Longrightarrow> queue_kept i k1 k3"
  unfolding queue_kept_def by (metis ghs_extends_trans)

lemma drain_queue_Ok:
  assumes "kernel_wf C k" and "alloc_ok al" and "i < 256" and "length (cq_list (k_ingress k i)) \<le> n"
    and "drain_queue al i n k = (Ok (), k')"
  shows "\<exists>hs. all_delivered i (filter im_full (cq_list (k_ingress k i))) hs k k'
    \<and> queue_kept i k k' \<and> cq_list (k_ingress k' i) = []"
  using assms
proof (induction n arbitrary: k)
  case 0
  then show ?case by (auto simp: all_delivered_def queue_kept_def cq_list_def)
next
  case (Suc n)
  have inv: "cq_inv (k_ingress k i)" using kernel_wf_parts [OF Suc.prems(1)] by blast
  show ?case
  proof (cases "cq_list (k_ingress k i)")
    case Nil
    then have "cq_count (k_ingress k i) = 0" using length_cq_list [of "k_ingress k i"] by (simp add: unat_eq_0)
    with Suc.prems(5) Nil show ?thesis by (auto simp: all_delivered_def queue_kept_def)
  next
    case (Cons m ms)
    note hd = cq_head_list [OF inv Cons]
    have cons: "cq_list (k_ingress (ingress_consume i k) i) = ms" using ingress_consume_list [OF inv Cons] .
    have lms: "length ms \<le> n" using Suc.prems(4) Cons by (metis Suc_le_mono length_Cons)
    show ?thesis
    proof (cases "im_full m")
      case False
      then have d: "drain_queue al i n (ingress_consume i k) = (Ok (), k')"
        using Suc.prems(5) hd by (auto simp: Let_def im_full_def)
      from Suc.IH [OF ingress_consume_wf [OF Suc.prems(1)] Suc.prems(2,3) _ d] cons lms False
      show ?thesis by (simp add: Cons all_delivered_def queue_kept_def)
    next
      case True
      obtain k1 where d1: "epa_kernel_deliver_ingress_msg al (of_nat i) (the (im_buf m)) (im_tag m) (im_len m)
          (im_src_kernel m) (im_src_worker m) k = (Ok (), k1)"
        and d2: "drain_queue al i n ((ingress_consume i k1)
            \<lparr>k_deliveries := k_deliveries (ingress_consume i k1) + 1\<rparr>) = (Ok (), k')"
        using Suc.prems(5) hd True by (auto simp: Let_def im_full_def split: prod.splits res.splits)
      let ?k2 = "(ingress_consume i k1)\<lparr>k_deliveries := k_deliveries (ingress_consume i k1) + 1\<rparr>"
      have u: "unat (of_nat i :: u32) = i" using Suc.prems(3) by (simp add: unat_of_nat)
      obtain h where h: "msg_delivered i (msg_bytes m) (im_tag m) (im_len m) h k k1"
        using deliver_ingress_Ok(1) [OF Suc.prems(1,2) d1] u by (auto simp: msg_bytes_def)
      have k1: "kernel_wf C k1" using keepsD [OF deliver_ingress_keeps [OF Suc.prems(2)] Suc.prems(1) d1] .
      have k2: "kernel_wf C ?k2" using ingress_consume_wf [OF k1] by simp
      have ing: "k_ingress k1 = k_ingress k" using h by (simp add: msg_delivered_def)
      have c2: "cq_list (k_ingress ?k2 i) = ms" using ingress_consume_list [of k1 i m ms] inv Cons ing by simp
      obtain hs where hs: "all_delivered i (filter im_full ms) hs ?k2 k'" "queue_kept i ?k2 k'"
          "cq_list (k_ingress k' i) = []"
        using Suc.IH [OF k2 Suc.prems(2,3) _ d2] c2 lms by auto
      have "all_delivered i (m # filter im_full ms) (h # hs) k k'"
        by (rule all_delivered_Cons [OF h hs(1)]) (use hs(2) in \<open>simp_all add: queue_kept_def inq_words_def\<close>)
      moreover have "queue_kept i k k1" "queue_kept i k1 ?k2"
        using h by (simp_all add: queue_kept_def msg_delivered_def)
      then have "queue_kept i k k'" using hs(2) queue_kept_trans by blast
      ultimately show ?thesis using True Cons hs(3) by auto
    qed
  qed
qed

section \<open>All queues\<close>

lemma all_delivered_from:
  assumes "all_delivered j ms hs k1 k'" and "ghs_extends (k_ghs k) (k_ghs k1)" and "inq_words k1 j = inq_words k j"
  shows "all_delivered j ms hs k k'"
  using assms unfolding all_delivered_def
  by (auto simp: ghs_extends_def elim!: list_all2_mono)

lemma all_delivered_to:
  assumes "all_delivered j ms hs k k1" and "ghs_extends (k_ghs k1) (k_ghs k')" and "inq_words k' j = inq_words k1 j"
  shows "all_delivered j ms hs k k'"
  using assms unfolding all_delivered_def
  by (auto dest: ghs_extends_holds elim!: list_all2_mono)

lemma drain_workers_Ok:
  assumes "kernel_wf C k" and "alloc_ok al" and "distinct is" and "\<forall>i \<in> set is. i < 256"
    and "drain_workers al is k = (Ok (), k')"
  shows "ghs_extends (k_ghs k) (k_ghs k')
    \<and> (\<forall>j. j \<notin> set is \<longrightarrow> k_workers k' j = k_workers k j \<and> k_ingress k' j = k_ingress k j)
    \<and> (\<forall>i \<in> set is. cq_list (k_ingress k' i) = []
        \<and> (\<exists>hs. all_delivered i (filter im_full (cq_list (k_ingress k i))) hs k k'))"
  using assms
proof (induction "is" arbitrary: k)
  case (Cons i "is")
  obtain k1 where d1: "drain_queue al i (unat (cq_count (k_ingress k i))) k = (Ok (), k1)"
    and d2: "drain_workers al is k1 = (Ok (), k')"
    using Cons.prems(5) by (auto split: prod.splits res.splits)
  have k1: "kernel_wf C k1" using drain_queue_wf [OF Cons.prems(2,1)] d1 by (metis snd_conv)
  obtain hs where hs: "all_delivered i (filter im_full (cq_list (k_ingress k i))) hs k k1"
      "queue_kept i k k1" "cq_list (k_ingress k1 i) = []"
    using drain_queue_Ok [OF Cons.prems(1,2) _ _ d1] Cons.prems(4) by auto
  note ih = Cons.IH [OF k1 Cons.prems(2) _ _ d2]
  have ih': "ghs_extends (k_ghs k1) (k_ghs k')"
      "j \<notin> set is \<Longrightarrow> k_workers k' j = k_workers k1 j \<and> k_ingress k' j = k_ingress k1 j"
      "j \<in> set is \<Longrightarrow> cq_list (k_ingress k' j) = []
        \<and> (\<exists>hs. all_delivered j (filter im_full (cq_list (k_ingress k1 j))) hs k1 k')" for j
    using ih Cons.prems(3,4) by auto
  have ni: "i \<notin> set is" using Cons.prems(3) by simp
  have i': "cq_list (k_ingress k' i) = [] \<and> all_delivered i (filter im_full (cq_list (k_ingress k i))) hs k k'"
    using all_delivered_to [OF hs(1) ih'(1)] ih'(2) [OF ni] hs(3) by (simp add: inq_words_def)
  have j': "cq_list (k_ingress k' j) = [] \<and> (\<exists>hs. all_delivered j (filter im_full (cq_list (k_ingress k j))) hs k k')"
    if j: "j \<in> set is" for j
  proof -
    have "j \<noteq> i" using j ni by blast
    then have "k_workers k1 j = k_workers k j" "k_ingress k1 j = k_ingress k j" "ghs_extends (k_ghs k) (k_ghs k1)"
      using hs(2) by (simp_all add: queue_kept_def)
    with ih'(3) [OF j] all_delivered_from [of j _ _ k1 k' k] show ?thesis by (auto simp: inq_words_def)
  qed
  have "ghs_extends (k_ghs k) (k_ghs k')" using hs(2) ih'(1) ghs_extends_trans by (auto simp: queue_kept_def)
  then show ?case using i' j' ih'(2) hs(2) by (auto simp: queue_kept_def)
qed (simp)

text \<open>C5: Draining the ingress queues: when the drain succeeds, every queue is empty, and for each
  worker the messages that carried bytes have become, in their order, fresh heap blocks with exactly
  their bytes, owned by the worker and tagged as sent, each announced by one notice of four words at
  the end of the worker's input ring, and nothing else has been put there. Blocks that were valid
  before are unchanged.\<close>

theorem drain_delivers_all:
  assumes "kernel_ok k" and "alloc_ok al" and "i < 256"
    and "epa_kernel_drain_ingress al k = (Ok (), k')"
  shows "cq_list (k_ingress k' i) = []
    \<and> (\<forall>h. epa_ghs_valid (k_ghs k) h \<longrightarrow> epa_ghs_valid (k_ghs k') h
          \<and> g_entries (k_ghs k') ! ghs_idx h = g_entries (k_ghs k) ! ghs_idx h)
    \<and> (\<exists>hs. let ms = filter (\<lambda>m. im_buf m \<noteq> None \<and> im_len m \<noteq> 0) (cq_list (k_ingress k i)) in
          distinct hs \<and> list_all2 (\<lambda>h m. \<not> epa_ghs_valid (k_ghs k) h
            \<and> ghs_holds (k_ghs k') h (take (unat (im_len m)) (the (im_buf m))) (of_nat i) (im_tag m)) hs ms
          \<and> ring_contents (w_inq (k_workers k' i)) = ring_contents (w_inq (k_workers k i))
              @ concat (map2 (\<lambda>h m. [1, epa_ghs_handle_index h, epa_ghs_handle_gen h, im_len m]) hs ms))"
proof -
  have d: "drain_workers al [0..<256] k = (Ok (), k')" using assms(4) by (simp add: epa_kernel_drain_ingress_def)
  have i: "i \<in> set [0..<256]" using assms(3) by simp
  have lt: "\<forall>j \<in> set [0..<256 :: nat]. j < 256" by simp
  note dw = drain_workers_Ok [OF kernel_ok_wf [OF assms(1)] assms(2) distinct_upt lt d]
  obtain hs where "all_delivered i (filter im_full (cq_list (k_ingress k i))) hs k k'"
      "cq_list (k_ingress k' i) = []" "ghs_extends (k_ghs k) (k_ghs k')"
    using dw [THEN conjunct1] dw [THEN conjunct2, THEN conjunct2, THEN bspec, OF i] by blast
  then show ?thesis
    by (auto simp: all_delivered_def ghs_extends_def Let_def inq_words_def notice_def msg_bytes_def im_full_def [abs_def]
        intro!: exI [of _ hs])
qed

lemma drain_workers_skip:
  "\<forall>i \<in> set is. cq_count (k_ingress k i) = 0 \<Longrightarrow> drain_workers al is k = (Ok (), k)"
  by (induction "is") auto

lemma drain_workers_one:
  assumes "i < 256" and "\<forall>j. j \<noteq> i \<longrightarrow> cq_count (k_ingress k j) = 0"
    and "drain_queue al i (unat (cq_count (k_ingress k i))) k = (Ok (), k')"
    and "\<forall>j. j \<noteq> i \<longrightarrow> k_ingress k' j = k_ingress k j"
  shows "epa_kernel_drain_ingress al k = (Ok (), k')"
proof -
  have app: "drain_workers al (is @ js) k = (case drain_workers al is k of
      (Ok _, k1) \<Rightarrow> drain_workers al js k1 | (Err e, k1) \<Rightarrow> (Err e, k1) | (Ub, k1) \<Rightarrow> (Ub, k1))" for "is" js
    by (induction "is" arbitrary: k) (auto split: prod.split res.split)
  have sp: "[0..<256] = [0..<i] @ i # [Suc i..<256]"
    using assms(1) upt_add_eq_append [of 0 i "256 - i"] by (simp add: upt_conv_Cons)
  have r: "drain_workers al [Suc i..<256] k' = (Ok (), k')" using assms by (intro drain_workers_skip) auto
  have l: "drain_workers al [0..<i] k = (Ok (), k)" using assms by (intro drain_workers_skip) auto
  show ?thesis unfolding epa_kernel_drain_ingress_def sp app l by (simp add: assms(3) r)
qed

definition ingress_demo :: epa_kernel where
  "ingress_demo = kernel_zero\<lparr>k_workers := (k_workers kernel_zero)(2 := worker_zero
       \<lparr>w_inq := snd (epa_ring_init True ring_zero 8)\<rparr>),
     k_ghs := \<lparr>g_live = 0, g_entries = replicate 2 ghs_fresh_entry\<rparr>, k_rgm := \<lparr>rg_live = 0, rg_entries = []\<rparr>,
     k_ingress := (\<lambda>i. if i = 2 then \<lparr>cq_slots = (replicate 16 ingress_zero)[0 := \<lparr>im_buf = Some [7, 8, 0, 0],
         im_len = 4, im_tag = 9, im_src_kernel = 5, im_src_worker = 1\<rparr>], cq_head = 0, cq_tail = 1, cq_count = 1\<rparr>
       else cq_zero 16 ingress_zero)\<rparr>"

lemma ingress_demo_ok: "kernel_ok ingress_demo"
proof -
  have "ring_inv (snd (epa_ring_init True ring_zero 8))" by (simp add: epa_ring_init_def ring_inv_def ring_zero_def)
  moreover have "ghs_wf \<lparr>g_live = 0, g_entries = replicate 2 ghs_fresh_entry\<rparr>"
    by (simp add: ghs_wf_def ghs_used_def ghs_fresh_entry_def ghs_entry_wf_def ge_in_use_def numeral_2_eq_2)
  moreover have "rgm_wf \<lparr>rg_live = 0, rg_entries = []\<rparr>" by (simp add: rgm_wf_def rgm_names_def)
  moreover have "cq_inv \<lparr>cq_slots = (replicate 16 ingress_zero)[0 := m], cq_head = 0, cq_tail = 1, cq_count = 1\<rparr>" for m
    by (simp add: cq_inv_def cq_qmax_def)
  ultimately show ?thesis
    using worker_zero_wf by (simp add: kernel_ok_def ingress_demo_def kernel_zero_def cq_zero_inv worker_wf_def ring_inv_zero)
qed

lemma ring_push_all_room:
  "ring_inv q \<Longrightarrow> length (ring_contents q) + length ws \<le> unat (r_cap q) \<Longrightarrow> \<exists>q'. ring_push_all ws q = (Ok (), q')"
proof (induction ws arbitrary: q)
  case (Cons x xs)
  then have "r_count q < r_cap q" using ring_count_room [OF Cons.prems(1)] by simp
  with ring_pushed [OF Cons.prems(1), of x False] obtain q' where q': "epa_ring_push q x False = Inr q'"
      "ring_inv q'" "r_cap q' = r_cap q" "ring_contents q' = ring_contents q @ [x]" by blast
  with Cons.IH [of q'] Cons.prems(2) show ?case by simp
qed simp

lemma deliver_words_room:
  assumes "ring_inv (w_inq (k_workers k (unat dst)))" and "\<not> w_waiting (k_workers k (unat dst))"
    and "length (inq_words k (unat dst)) + length ws \<le> unat (r_cap (w_inq (k_workers k (unat dst))))"
    and "unat need = length ws"
  shows "\<exists>k'. deliver_words al dst need ws fm msg sk sw k = (Ok (), k')"
proof -
  have "\<not> epa_ring_space (w_inq (k_workers k (unat dst))) < need"
    using assms ring_space_room [OF assms(1)] by (simp add: word_less_nat_alt inq_words_def)
  with ring_push_all_room [OF assms(1), of ws] assms(2,3) show ?thesis
    by (auto simp: deliver_words_def k_upd_w_def Let_def inq_words_def)
qed

lemma ingress_demo_delivers:
  "\<exists>k'. epa_kernel_deliver_ingress_msg zero_alloc 2 [7, 8, 0, 0] 9 4 5 1 ingress_demo = (Ok (), k')"
proof -
  let ?g = "\<lparr>g_live = 0, g_entries = replicate 2 ghs_fresh_entry\<rparr>" and ?h = "0x100000000 :: u64"
  let ?e = "ghs_fresh_entry\<lparr>ge_flags := 1, ge_type := 1, ge_owner := 0, ge_size := 4, ge_capacity := 4, ge_tag := 9,
     ge_ptr := Some [0, 0, 0, 0]\<rparr>"
  let ?e2 = "ghs_fresh_entry\<lparr>ge_flags := 1, ge_type := 1, ge_owner := 0, ge_size := 4, ge_capacity := 4, ge_tag := 9,
     ge_ptr := Some [7, 8, 0, 0]\<rparr>"
  let ?g1 = "\<lparr>g_live = 1, g_entries = [?e, ghs_fresh_entry]\<rparr>"
  have a: "epa_ghs_alloc_tagged zero_alloc ?g EPA_GHS_T_BYTES 0 4 9 = Ok (?h, ?g1)" by code_simp
  have p: "epa_ghs_get_ptr ?g1 ?h = Ok (Some [0, 0, 0, 0])" by code_simp
  have i: "ghs_idx ?h = 0" by code_simp
  have t: "\<exists>g3. epa_ghs_transfer (ghs_set 0 ?e2 ?g1) ?h 2 = Ok g3"
    by (simp add: epa_ghs_transfer_def ghs_entry_op_valid epa_ghs_valid_def i ge_in_use_def ghs_flag_defs
        ghs_fresh_entry_def epa_ghs_handle_gen_def)
  then obtain g3 where t: "epa_ghs_transfer (ghs_set 0 ?e2 ?g1) ?h 2 = Ok g3" by blast
  have r: "ring_inv (snd (epa_ring_init True ring_zero 8))" "ring_contents (snd (epa_ring_init True ring_zero 8)) = []"
      "r_cap (snd (epa_ring_init True ring_zero 8)) = 8"
    by (simp_all add: epa_ring_init_def ring_inv_def ring_zero_def ring_contents_def)
  have "\<exists>k'. deliver_words zero_alloc 2 4 [1, epa_ghs_handle_index ?h, epa_ghs_handle_gen ?h, 4] fm msg 5 1
      (ingress_demo\<lparr>k_ghs := g3\<rparr>) = (Ok (), k')" for fm msg
    using r by (intro deliver_words_room) (simp_all add: ingress_demo_def worker_zero_def inq_words_def)
  moreover have "k_ghs ingress_demo = ?g" by (simp add: ingress_demo_def)
  moreover have "mem_write [0, 0, 0, 0] 0 [7, 8, 0, 0] = [7, 8, 0, 0 :: u8]" by code_simp
  ultimately show ?thesis by (simp add: epa_kernel_deliver_ingress_msg_def Let_def a p i t)
qed

theorem drain_delivers_all_witness:
  "\<exists>k' h. epa_kernel_drain_ingress zero_alloc ingress_demo = (Ok (), k')
     \<and> ghs_holds (k_ghs k') h [7, 8, 0, 0] 2 9
     \<and> ring_contents (w_inq (k_workers k' 2)) = [1, epa_ghs_handle_index h, epa_ghs_handle_gen h, 4]"
proof -
  obtain k1 where k1: "epa_kernel_deliver_ingress_msg zero_alloc 2 [7, 8, 0, 0] 9 4 5 1 ingress_demo = (Ok (), k1)"
    using ingress_demo_delivers by blast
  have ing: "k_ingress k1 = k_ingress ingress_demo"
    using deliver_ingress_Ok(1) [OF kernel_ok_wf [OF ingress_demo_ok] alloc_ok_zero k1] by (auto simp: msg_delivered_def)
  let ?m = "\<lparr>im_buf = Some [7, 8, 0, 0], im_len = 4, im_tag = 9, im_src_kernel = 5, im_src_worker = 1\<rparr>"
  have q: "cq_list (k_ingress ingress_demo 2) = [?m]" "j \<noteq> 2 \<Longrightarrow> k_ingress ingress_demo j = cq_zero 16 ingress_zero" for j
    by (simp_all add: ingress_demo_def cq_list_def)
  have d: "cq_count (k_ingress ingress_demo 2) = 1" "cq_slots (k_ingress ingress_demo 2) ! 0 = ?m"
      "cq_head (k_ingress ingress_demo 2) = 0"
    by (simp_all add: ingress_demo_def)
  obtain k' where k': "epa_kernel_drain_ingress zero_alloc ingress_demo = (Ok (), k')"
  proof -
    let ?k = "(ingress_consume 2 k1)\<lparr>k_deliveries := k_deliveries (ingress_consume 2 k1) + 1\<rparr>"
    have "epa_kernel_drain_ingress zero_alloc ingress_demo = (Ok (), ?k)"
      using q d k1 ing by (intro drain_workers_one [of 2]) (auto simp: cq_zero_def Let_def)
    then show thesis by (rule that)
  qed
  have "ring_contents (w_inq (k_workers ingress_demo 2)) = []"
    by (simp add: ingress_demo_def epa_ring_init_def ring_zero_def ring_contents_def)
  with drain_delivers_all [OF ingress_demo_ok alloc_ok_zero _ k', of 2] q
  show ?thesis using k' by (auto simp: list_all2_Cons2)
qed

end
