(* ===== verification/ELexer.thy ===== *)
theory ELexer
  imports AsmText
begin

text \<open>
  The lexer of the E language, \<open>e/e_lexer.c\<close>. A source text is a list of characters without a
  NUL. The allocations of the token vector end the compiler when they fail, and are left out. A failing
  run returns the message and the position it names.
\<close>

datatype etoken_kind = E_TOK_EOF | E_TOK_IDENT | E_TOK_INT_LIT | E_TOK_STRING_LIT
  | E_TOK_KW_RETURN | E_TOK_KW_STRUCT | E_TOK_KW_TYPE | E_TOK_KW_KERNEL | E_TOK_KW_WORKER
  | E_TOK_KW_FUNCTION | E_TOK_KW_AT_ENTRY | E_TOK_KW_IF | E_TOK_KW_ELSE | E_TOK_KW_WHILE | E_TOK_KW_FOR
  | E_TOK_KW_SWITCH | E_TOK_KW_CASE | E_TOK_KW_DEFAULT | E_TOK_KW_BREAK | E_TOK_KW_CONTINUE
  | E_TOK_KW_DECLARE | E_TOK_KW_DYNAMIC | E_TOK_KW_ACL | E_TOK_KW_KERNAL_ID | E_TOK_KW_NEXT
  | E_TOK_KW_REG | E_TOK_KW_LOCAL | E_TOK_KW_STATIC | E_TOK_RAW_EPA
  | E_TOK_LPAREN | E_TOK_RPAREN | E_TOK_LBRACE | E_TOK_RBRACE | E_TOK_LBRACKET | E_TOK_RBRACKET
  | E_TOK_COMMA | E_TOK_SEMI | E_TOK_COLON | E_TOK_DOT | E_TOK_ASSIGN | E_TOK_EQEQ | E_TOK_NEQ
  | E_TOK_LT | E_TOK_LTE | E_TOK_GT | E_TOK_GTE | E_TOK_PLUS | E_TOK_MINUS | E_TOK_STAR | E_TOK_SLASH
  | E_TOK_PERCENT | E_TOK_PIPE | E_TOK_TILDE | E_TOK_AT

record etoken =
  tk_kind :: etoken_kind
  tk_text :: string
  tk_line :: nat
  tk_col :: nat

definition kw_table :: "(string \<times> etoken_kind) list" where
  "kw_table =
    [(''return'', E_TOK_KW_RETURN), (''struct'', E_TOK_KW_STRUCT), (''type'', E_TOK_KW_TYPE),
     (''kernel'', E_TOK_KW_KERNEL), (''worker'', E_TOK_KW_WORKER), (''function'', E_TOK_KW_FUNCTION),
     (''at_entry'', E_TOK_KW_AT_ENTRY), (''if'', E_TOK_KW_IF), (''else'', E_TOK_KW_ELSE),
     (''while'', E_TOK_KW_WHILE), (''for'', E_TOK_KW_FOR), (''switch'', E_TOK_KW_SWITCH),
     (''case'', E_TOK_KW_CASE), (''default'', E_TOK_KW_DEFAULT), (''break'', E_TOK_KW_BREAK),
     (''continue'', E_TOK_KW_CONTINUE), (''declare'', E_TOK_KW_DECLARE), (''dynamic'', E_TOK_KW_DYNAMIC),
     (''acl'', E_TOK_KW_ACL), (''kernalId'', E_TOK_KW_KERNAL_ID), (''next'', E_TOK_KW_NEXT),
     (''reg'', E_TOK_KW_REG), (''local'', E_TOK_KW_LOCAL), (''static'', E_TOK_KW_STATIC)]"

definition kw_kind :: "string \<Rightarrow> etoken_kind" where
  "kw_kind text = (case map_of kw_table text of Some k \<Rightarrow> k | None \<Rightarrow> E_TOK_IDENT)"

section \<open>Characters\<close>

abbreviation (input) newline :: char where "newline \<equiv> CHR 0x0A"
abbreviation (input) quote :: char where "quote \<equiv> CHR 0x22"
abbreviation (input) backslash :: char where "backslash \<equiv> CHR 0x5C"

definition is_blank :: "char \<Rightarrow> bool" where
  "is_blank c \<longleftrightarrow> c = CHR '' '' \<or> c = CHR 0x09 \<or> c = CHR 0x0D"

definition c_isalpha :: "char \<Rightarrow> bool" where
  "c_isalpha c \<longleftrightarrow> (let n = of_char c :: nat in 65 \<le> n \<and> n \<le> 90 \<or> 97 \<le> n \<and> n \<le> 122)"

definition ident_start :: "char \<Rightarrow> bool" where
  "ident_start c \<longleftrightarrow> c_isalpha c \<or> c = CHR ''_''"

definition ident_char :: "char \<Rightarrow> bool" where
  "ident_char c \<longleftrightarrow> c_isalpha c \<or> c_isdigit c \<or> c = CHR ''_''"

text \<open>Whether the text starts with two slashes, and the text after such a comment.\<close>

definition at_comment :: "string \<Rightarrow> bool" where
  "at_comment s \<longleftrightarrow> take 2 s = ''//''"

definition comment_len :: "string \<Rightarrow> nat" where
  "comment_len s = length (takeWhile (\<lambda>c. c \<noteq> newline) s)"

lemma comment_len_pos: "at_comment s \<Longrightarrow> 0 < comment_len s \<and> s \<noteq> []"
  by (cases s) (auto simp: at_comment_def comment_len_def)

lemma comment_shorter [termination_simp]: "at_comment s \<Longrightarrow> length s - comment_len s < length s"
  using comment_len_pos [of s] by (simp add: diff_less)

section \<open>Raw blocks\<close>

text \<open>The look-ahead from behind \<open>EPA\<close> over blanks, newlines and comments. The walk
  \<open>advance_char\<close> makes over the same text afterwards counts the same positions.\<close>

function epa_gap :: "nat \<Rightarrow> nat \<Rightarrow> string \<Rightarrow> nat \<times> nat \<times> string" where
  "epa_gap line col s =
     (if s \<noteq> [] \<and> is_blank (hd s) then epa_gap line (col + 1) (tl s)
      else if s \<noteq> [] \<and> hd s = newline then epa_gap (line + 1) 1 (tl s)
      else if at_comment s then epa_gap line (col + comment_len s) (drop (comment_len s) s)
      else (line, col, s))"
  by pat_completeness auto
termination
  by (relation "measure (\<lambda>(_, _, s). length s)") (auto simp: comment_shorter)

declare epa_gap.simps [simp del]

text \<open>The text up to the brace that closes the block, which is the first character of the
  rest; \<open>None\<close>: there is none.\<close>

fun raw_body :: "nat \<Rightarrow> nat \<Rightarrow> nat \<Rightarrow> string \<Rightarrow> (string \<times> nat \<times> nat \<times> string) option" where
  "raw_body depth line col [] = None"
| "raw_body depth line col (c # cs) =
     (if c = CHR ''}'' \<and> depth = 1 then Some ([], line, col, c # cs)
      else map_option (\<lambda>(t, r). (c # t, r))
        (raw_body (if c = CHR ''{'' then depth + 1 else if c = CHR ''}'' then depth - 1 else depth)
          (if c = newline then line + 1 else line) (if c = newline then 1 else col + 1) cs))"

section \<open>Strings\<close>

text \<open>From behind the opening quote: the text up to and with the closing one, and its length; a
  backslash takes the next character with it, a newline included.\<close>

fun string_body :: "string \<Rightarrow> (string \<times> string) option" where
  "string_body [] = None"
| "string_body (c # cs) =
     (if c = quote then Some ([c], cs)
      else if c = backslash \<and> cs \<noteq> []
           then map_option (\<lambda>(t, r). (c # hd cs # t, r)) (string_body (tl cs))
      else if c = newline then None
      else map_option (\<lambda>(t, r). (c # t, r)) (string_body cs))"

section \<open>Tokens\<close>

definition op2_kind :: "string \<Rightarrow> etoken_kind option" where
  "op2_kind s =
     (let t = take 2 s in
      if t = ''=='' then Some E_TOK_EQEQ else if t = ''!='' then Some E_TOK_NEQ
      else if t = ''<='' then Some E_TOK_LTE else if t = ''>='' then Some E_TOK_GTE else None)"

definition punct_table :: "(char \<times> etoken_kind) list" where
  "punct_table =
    [(CHR ''('', E_TOK_LPAREN), (CHR '')'', E_TOK_RPAREN), (CHR ''{'', E_TOK_LBRACE), (CHR ''}'', E_TOK_RBRACE),
     (CHR ''['', E_TOK_LBRACKET), (CHR '']'', E_TOK_RBRACKET), (CHR '','', E_TOK_COMMA), (CHR '';'', E_TOK_SEMI),
     (CHR '':'', E_TOK_COLON), (CHR ''.'', E_TOK_DOT), (CHR ''='', E_TOK_ASSIGN), (CHR ''<'', E_TOK_LT),
     (CHR ''>'', E_TOK_GT), (CHR ''+'', E_TOK_PLUS), (CHR ''-'', E_TOK_MINUS), (CHR ''*'', E_TOK_STAR),
     (CHR ''/'', E_TOK_SLASH), (CHR ''%'', E_TOK_PERCENT), (CHR ''|'', E_TOK_PIPE), (CHR ''~'', E_TOK_TILDE),
     (CHR ''@'', E_TOK_AT)]"

definition punct_kind :: "char \<Rightarrow> etoken_kind option" where
  "punct_kind c = map_of punct_table c"

datatype lex_res =
    LexSkip nat nat string
  | LexTok etoken nat nat string
  | LexErr string nat nat

definition mk_tok :: "etoken_kind \<Rightarrow> string \<Rightarrow> nat \<Rightarrow> nat \<Rightarrow> etoken" where
  "mk_tok k t l c = \<lparr>tk_kind = k, tk_text = t, tk_line = l, tk_col = c\<rparr>"

text \<open>A raw block, if one begins here.\<close>

definition lex_raw :: "nat \<Rightarrow> nat \<Rightarrow> string \<Rightarrow> lex_res option" where
  "lex_raw line col s =
     (if take 3 s = ''EPA'' \<and> \<not> (drop 3 s \<noteq> [] \<and> ident_char (s ! 3))
      then let (ql, qc, q) = epa_gap line (col + 3) (drop 3 s) in
        if q \<noteq> [] \<and> hd q = CHR ''{''
        then (case raw_body 1 ql (qc + 1) (tl q) of
                None \<Rightarrow> Some (LexErr ''unterminated EPA block at %d:%d'' ql qc)
              | Some (t, l, c, r) \<Rightarrow> Some (LexTok (mk_tok E_TOK_RAW_EPA t ql qc) l (c + 1) (tl r)))
        else None
      else None)"

text \<open>One turn of the main loop on a text that has not ended.\<close>

definition lex_step :: "nat \<Rightarrow> nat \<Rightarrow> string \<Rightarrow> lex_res" where
  "lex_step line col s =
     (let c = hd s in
      if is_blank c then LexSkip line (col + 1) (tl s)
      else if c = newline then LexSkip (line + 1) 1 (tl s)
      else if at_comment s then LexSkip line (col + comment_len s) (drop (comment_len s) s)
      else (case lex_raw line col s of
        Some r \<Rightarrow> r
      | None \<Rightarrow>
          if ident_start c then
            let t = takeWhile ident_char s
            in LexTok (mk_tok (kw_kind t) t line col) line (col + length t) (dropWhile ident_char s)
          else if c_isdigit c then
            let t = takeWhile c_isdigit s
            in LexTok (mk_tok E_TOK_INT_LIT t line col) line (col + length t) (dropWhile c_isdigit s)
          else if c = quote then
            (case string_body (tl s) of
               None \<Rightarrow> LexErr ''unterminated string at %d:%d'' line col
             | Some (t, r) \<Rightarrow> LexTok (mk_tok E_TOK_STRING_LIT (c # t) line col) line (col + 1 + length t) r)
          else (case op2_kind s of
            Some k \<Rightarrow> LexTok (mk_tok k (take 2 s) line col) line (col + 2) (drop 2 s)
          | None \<Rightarrow>
              (case punct_kind c of
                 Some k \<Rightarrow> LexTok (mk_tok k [c] line col) line (col + 1) (tl s)
               | None \<Rightarrow> LexErr ''unexpected character %c at %d:%d'' line col))))"

text \<open>Every turn makes the text shorter.\<close>

lemma epa_gap_suffix: "epa_gap line col s = (l, c, r) \<Longrightarrow> length r \<le> length s"
proof (induction line col s rule: epa_gap.induct)
  case (1 line col s)
  from "1.prems" show ?case
    by (subst (asm) epa_gap.simps) (use "1.IH" comment_shorter [of s] in \<open>force split: if_splits\<close>)
qed

lemma raw_body_split: "raw_body d line col s = Some (t, l, c, r) \<Longrightarrow> s = t @ r \<and> r \<noteq> []"
proof (induction d line col s arbitrary: t rule: raw_body.induct)
  case (2 depth line col c cs)
  then show ?case by (cases "c = CHR ''}'' \<and> depth = 1") auto
qed simp

lemma string_body_split: "string_body s = Some (t, r) \<Longrightarrow> s = t @ r \<and> t \<noteq> []"
proof (induction s arbitrary: t rule: string_body.induct)
  case (2 c cs)
  consider "c = quote" | "c \<noteq> quote" "c = backslash" "cs \<noteq> []" | "c \<noteq> quote" "\<not> (c = backslash \<and> cs \<noteq> [])" by blast
  then show ?case
  proof cases
    case 1
    with "2.prems" show ?thesis by auto
  next
    case 2
    with "2.prems" obtain u where "string_body (tl cs) = Some (u, r)" "t = c # hd cs # u" by auto
    with "2.IH"(1) 2 show ?thesis by (cases cs) auto
  next
    case 3
    with "2.prems" obtain u where "c \<noteq> newline" "string_body cs = Some (u, r)" "t = c # u"
      by (auto split: if_splits)
    with "2.IH"(2) 3 show ?thesis by auto
  qed
qed simp

lemma lex_raw_shorter:
  "lex_raw line col s = Some (LexTok tok l c r) \<Longrightarrow> length r < length s"
  "lex_raw line col s \<noteq> Some (LexSkip l c r)"
proof -
  obtain ql qc q where g: "epa_gap line (col + 3) (drop 3 s) = (ql, qc, q)" by (cases "epa_gap line (col + 3) (drop 3 s)")
  show "lex_raw line col s \<noteq> Some (LexSkip l c r)"
    unfolding lex_raw_def g Let_def prod.case by (auto split: option.split)
  assume "lex_raw line col s = Some (LexTok tok l c r)"
  then obtain t l' c' r' where q: "q \<noteq> []" and b: "raw_body 1 ql (qc + 1) (tl q) = Some (t, l', c', r')" and r: "r = tl r'"
    unfolding lex_raw_def g Let_def prod.case by (auto split: if_splits option.splits)
  have "length r' \<le> length (tl q)" "r' \<noteq> []" using raw_body_split [OF b] by auto
  then show "length r < length s" using epa_gap_suffix [OF g] q r by (cases r'; cases q) auto
qed

lemma length_dropWhile_hd: "P (hd s) \<Longrightarrow> s \<noteq> [] \<Longrightarrow> length (dropWhile P s) < length s"
  by (cases s) (simp_all add: length_dropWhile_le less_Suc_eq_le)

lemma lex_step_shorter:
  assumes "s \<noteq> []"
  shows "lex_step line col s = LexTok tok l c r \<Longrightarrow> length r < length s"
    and "lex_step line col s = LexSkip l c r \<Longrightarrow> length r < length s"
proof -
  have id: "length (dropWhile ident_char s) < length s" if "ident_start (hd s)"
    using that assms by (intro length_dropWhile_hd) (auto simp: ident_start_def ident_char_def)
  have dg: "length (dropWhile c_isdigit s) < length s" if "c_isdigit (hd s)"
    using that assms by (rule length_dropWhile_hd)
  have st: "length r < length s" if "string_body (tl s) = Some (t, r)" for t r
    using string_body_split [OF that] assms by (cases s) auto
  have le: "length (drop 2 s) < length s" "length (tl s) < length s" using assms by auto
  show "lex_step line col s = LexTok tok l c r \<Longrightarrow> length r < length s"
    using id dg st le lex_raw_shorter(1) [of line col s tok l c r] unfolding lex_step_def Let_def
    by (auto split: if_splits option.splits prod.splits)
  show "lex_step line col s = LexSkip l c r \<Longrightarrow> length r < length s"
    using le comment_shorter [of s] lex_raw_shorter(2) [of line col s] unfolding lex_step_def Let_def
    by (auto split: if_splits option.splits prod.splits)
qed

section \<open>The lexer\<close>

definition eof_tok :: "nat \<Rightarrow> nat \<Rightarrow> etoken" where
  "eof_tok line col = mk_tok E_TOK_EOF [] line col"

function e_lex :: "nat \<Rightarrow> nat \<Rightarrow> string \<Rightarrow> (string \<times> nat \<times> nat) + etoken list" where
  "e_lex line col s =
     (if s = [] then Inr [eof_tok line col]
      else case lex_step line col s of
        LexErr msg l c \<Rightarrow> Inl (msg, l, c)
      | LexSkip l c r \<Rightarrow> e_lex l c r
      | LexTok tok l c r \<Rightarrow> (case e_lex l c r of Inl e \<Rightarrow> Inl e | Inr ts \<Rightarrow> Inr (tok # ts)))"
  by pat_completeness auto
termination
  by (relation "measure (\<lambda>(_, _, s). length s)") (auto intro: lex_step_shorter)

declare e_lex.simps [simp del]

definition e_lex_source :: "string \<Rightarrow> (string \<times> nat \<times> nat) + etoken list" where
  "e_lex_source src = e_lex 1 1 src"

end
