(* ===== verification/EAst.thy ===== *)
theory EAst
  imports ELexer
begin

text \<open>
  The syntax trees of the E language and their dump, \<open>e/e_ast.h\<close> and \<open>e/e_ast.c\<close>. A pointer
  that may be null is an option; a flag with the value it guards is an option of the value. Freeing a tree
  has no counterpart. The line of a statement is 0 where the parser does not set it.
\<close>

record type_ref =
  ty_name :: string
  ty_len :: u32
  ty_unsized :: bool
  ty_union :: "string list"

record eparam =
  pm_type :: type_ref
  pm_name :: string

record entry_attrs =
  ea_in :: "u32 option"
  ea_out :: "u32 option"
  ea_mailbox :: "u32 option"

datatype ebinop = E_BIN_ADD | E_BIN_SUB | E_BIN_MUL | E_BIN_DIV | E_BIN_MOD | E_BIN_EQ | E_BIN_NE
  | E_BIN_LT | E_BIN_LE | E_BIN_GT | E_BIN_GE

datatype eunop = E_UN_PLUS | E_UN_MINUS | E_UN_BITNOT

datatype eexpr =
    EIdent string
  | EInt int
  | EString string
  | EBinary ebinop eexpr eexpr
  | EUnary eunop eexpr
  | ESlice eexpr "eexpr option" "eexpr option"
  | EAssign eexpr eexpr
  | ECall string "eexpr list"
  | EField eexpr string
  | EIndex eexpr eexpr

datatype decl_class = DeclPlain | DeclReg | DeclLocal | DeclStatic

record edecl =
  dl_type :: type_ref
  dl_name :: string
  dl_class :: decl_class
  dl_init :: "eexpr option"

record dynamic_decl =
  dd_name :: string
  dd_type :: type_ref
  dd_min_free :: u32
  dd_max_free :: u32
  dd_grow_by :: u32

datatype estmt =
    SDecl nat edecl
  | SReturn nat "eexpr option"
  | SExpr nat eexpr
  | SBlock nat "estmt list"
  | SIf nat eexpr estmt "estmt option"
  | SWhile nat eexpr estmt
  | SFor nat "estmt option" "eexpr option" "eexpr option" estmt
  | SSwitch nat eexpr "ecase list"
  | SBreak nat
  | SContinue nat
  | SNext nat string
  | SRawEpa nat string
  | SForeach nat edecl string estmt
  | SDynamic nat dynamic_decl
  | SStaticBlock nat "estmt list"
  | SKernalId nat string
and ecase = ECase bool int "estmt list"

record efunction =
  fn_return :: type_ref
  fn_name :: string
  fn_params :: "eparam list"
  fn_variadic :: bool
  fn_body :: estmt

record eworker =
  wk_name :: string
  wk_params :: "eparam list"
  wk_body :: estmt
  wk_attrs :: entry_attrs

record ekernel =
  kn_params :: "eparam list"
  kn_body :: estmt
  kn_attrs :: entry_attrs
  kn_acl :: "(string \<times> string) list"

record etype_decl =
  td_name :: string
  td_params :: "eparam list"
  td_body :: estmt

datatype edeclare_kind = E_DECLARE_DEFAULT_IN_WORDS | E_DECLARE_DEFAULT_OUT_WORDS
  | E_DECLARE_DEFAULT_SIGNAL_MAIL_BOX_SIZE

datatype etop =
    TopStruct string
  | TopKernel ekernel
  | TopWorker eworker
  | TopFunction efunction
  | TopType etype_decl
  | TopDeclare edeclare_kind u32
  | TopDynamic dynamic_decl
  | TopAtEntry efunction

type_synonym eprogram = "etop list"

section \<open>Numbers in decimal\<close>

fun dec_nat :: "nat \<Rightarrow> string" where
  "dec_nat n = (if n < 10 then [char_of (48 + n)] else dec_nat (n div 10) @ [char_of (48 + n mod 10)])"

declare dec_nat.simps [simp del]

definition dec_int :: "int \<Rightarrow> string" where
  "dec_int i = (if i < 0 then CHR ''-'' # dec_nat (nat (- i)) else dec_nat (nat i))"

definition dec_u32 :: "u32 \<Rightarrow> string" where
  "dec_u32 u = dec_nat (unat u)"

section \<open>The dump\<close>

definition dump_line :: "nat \<Rightarrow> string \<Rightarrow> string" where
  "dump_line depth s = concat (replicate depth ''  '') @ s @ [newline]"

definition dump_type_ref :: "type_ref \<Rightarrow> string" where
  "dump_type_ref t = ty_name t @ concat (map (\<lambda>n. CHR ''|'' # n) (ty_union t))
     @ (if ty_len t \<noteq> 0 then ''['' @ dec_u32 (ty_len t) @ '']'' else if ty_unsized t then ''[]'' else [])"

fun bin_name :: "ebinop \<Rightarrow> string" where
  "bin_name E_BIN_ADD = ''+''" | "bin_name E_BIN_SUB = ''-''" | "bin_name E_BIN_MUL = ''*''"
| "bin_name E_BIN_DIV = ''/''" | "bin_name E_BIN_MOD = ''%''" | "bin_name E_BIN_EQ = ''==''"
| "bin_name E_BIN_NE = ''!=''" | "bin_name E_BIN_LT = ''<''" | "bin_name E_BIN_LE = ''<=''"
| "bin_name E_BIN_GT = ''>''" | "bin_name E_BIN_GE = ''>=''"

fun un_name :: "eunop \<Rightarrow> string" where
  "un_name E_UN_PLUS = ''+''" | "un_name E_UN_MINUS = ''-''" | "un_name E_UN_BITNOT = ''~''"

fun dump_expr :: "nat \<Rightarrow> eexpr \<Rightarrow> string" where
  "dump_expr d (EIdent n) = dump_line d (''ident '' @ n)"
| "dump_expr d (EInt i) = dump_line d (''int '' @ dec_int i)"
| "dump_expr d (EString s) = dump_line d (''string '' @ s)"
| "dump_expr d (EBinary b l r) = dump_line d (''binary '' @ bin_name b) @ dump_expr (d + 1) l @ dump_expr (d + 1) r"
| "dump_expr d (EUnary u e) = dump_line d (''unary '' @ un_name u) @ dump_expr (d + 1) e"
| "dump_expr d (ESlice b s e) = dump_line d ''slice'' @ dump_line (d + 1) ''base'' @ dump_expr (d + 2) b
     @ (case s of None \<Rightarrow> [] | Some x \<Rightarrow> dump_line (d + 1) ''start'' @ dump_expr (d + 2) x)
     @ (case e of None \<Rightarrow> [] | Some x \<Rightarrow> dump_line (d + 1) ''end'' @ dump_expr (d + 2) x)"
| "dump_expr d (EAssign l r) = dump_line d ''assign'' @ dump_expr (d + 1) l @ dump_expr (d + 1) r"
| "dump_expr d (ECall f args) = dump_line d (''call '' @ f @ '' argc='' @ dec_nat (length args))
     @ concat (map (dump_expr (d + 1)) args)"
| "dump_expr d (EField b f) = dump_line d (''field '' @ f) @ dump_expr (d + 1) b"
| "dump_expr d (EIndex b i) = dump_line d ''index'' @ dump_expr (d + 1) b @ dump_expr (d + 1) i"

text \<open>The lines of a raw block; a last line without a newline gets one.\<close>

fun raw_lines :: "string \<Rightarrow> string \<Rightarrow> string list" where
  "raw_lines acc [] = (if acc = [] then [] else [acc])"
| "raw_lines acc (c # cs) = (if c = newline then acc # raw_lines [] cs else raw_lines (acc @ [c]) cs)"

definition dump_dynamic :: "string \<Rightarrow> dynamic_decl \<Rightarrow> string" where
  "dump_dynamic ty dd = ''dynamic '' @ dd_name dd @ ''('' @ ty @ '', '' @ dec_u32 (dd_min_free dd) @ '', ''
     @ dec_u32 (dd_max_free dd) @ '', '' @ dec_u32 (dd_grow_by dd) @ '');''"

fun dump_stmt :: "nat \<Rightarrow> estmt \<Rightarrow> string" and dump_case :: "nat \<Rightarrow> ecase \<Rightarrow> string" where
  "dump_stmt d (SDecl ln dl) = dump_line d (''decl '' @ (if dl_class dl = DeclReg then ''reg '' else [])
     @ (if dl_class dl = DeclLocal then ''local '' else []) @ dump_type_ref (dl_type dl) @ '' '' @ dl_name dl)
     @ (case dl_init dl of None \<Rightarrow> [] | Some e \<Rightarrow> dump_expr (d + 1) e)"
| "dump_stmt d (SReturn ln v) = dump_line d ''return'' @ (case v of None \<Rightarrow> [] | Some e \<Rightarrow> dump_expr (d + 1) e)"
| "dump_stmt d (SExpr ln e) = dump_line d ''expr'' @ dump_expr (d + 1) e"
| "dump_stmt d (SBlock ln ss) = dump_line d ''block'' @ concat (map (dump_stmt (d + 1)) ss)"
| "dump_stmt d (SIf ln c t e) = dump_line d ''if'' @ dump_line (d + 1) ''cond'' @ dump_expr (d + 2) c
     @ dump_line (d + 1) ''then'' @ dump_stmt (d + 2) t
     @ (case e of None \<Rightarrow> [] | Some s \<Rightarrow> dump_line (d + 1) ''else'' @ dump_stmt (d + 2) s)"
| "dump_stmt d (SWhile ln c b) = dump_line d ''while'' @ dump_line (d + 1) ''cond'' @ dump_expr (d + 2) c
     @ dump_line (d + 1) ''body'' @ dump_stmt (d + 2) b"
| "dump_stmt d (SFor ln i c s b) = dump_line d ''for''
     @ (case i of None \<Rightarrow> [] | Some x \<Rightarrow> dump_line (d + 1) ''init'' @ dump_stmt (d + 2) x)
     @ (case c of None \<Rightarrow> [] | Some x \<Rightarrow> dump_line (d + 1) ''cond'' @ dump_expr (d + 2) x)
     @ (case s of None \<Rightarrow> [] | Some x \<Rightarrow> dump_line (d + 1) ''step'' @ dump_expr (d + 2) x)
     @ dump_line (d + 1) ''body'' @ dump_stmt (d + 2) b"
| "dump_stmt d (SSwitch ln t cs) = dump_line d ''switch'' @ dump_line (d + 1) ''target'' @ dump_expr (d + 2) t
     @ concat (map (dump_case (d + 1)) cs)"
| "dump_stmt d (SBreak ln) = dump_line d ''break''"
| "dump_stmt d (SContinue ln) = dump_line d ''continue''"
| "dump_stmt d (SNext ln w) = dump_line d (''next '' @ w)"
| "dump_stmt d (SRawEpa ln t) = dump_line d ''EPA {'' @ concat (map (dump_line (d + 1)) (raw_lines [] t)) @ dump_line d ''}''"
| "dump_stmt d (SKernalId ln n) = dump_line d (''kernalId('' @ [quote] @ n @ [quote] @ '');'')"
| "dump_stmt d (SForeach ln v it b) = dump_line d (''foreach('' @ dl_name v @ '' = dynamic_next('' @ it @ ''))'')
     @ dump_stmt (d + 1) b"
| "dump_stmt d (SDynamic ln dd) = dump_line d (dump_dynamic (ty_name (dd_type dd)) dd)"
| "dump_stmt d (SStaticBlock ln ss) = dump_line d ''static {'' @ concat (map (dump_stmt (d + 1)) ss) @ dump_line d ''}''"
| "dump_case d (ECase dflt v ss) = dump_line d (if dflt then ''default'' else ''case '' @ dec_int v)
     @ concat (map (dump_stmt (d + 1)) ss)"

fun dump_params :: "eparam list \<Rightarrow> string" where
  "dump_params [] = []"
| "dump_params [p] = dump_type_ref (pm_type p) @ '' '' @ pm_name p"
| "dump_params (p # ps) = dump_type_ref (pm_type p) @ '' '' @ pm_name p @ '', '' @ dump_params ps"

definition dump_entry_attrs :: "entry_attrs \<Rightarrow> string" where
  "dump_entry_attrs a =
     (if ea_in a = None \<and> ea_out a = None \<and> ea_mailbox a = None then []
      else ''@attributes''
        @ (case ea_in a of None \<Rightarrow> [] | Some v \<Rightarrow> '' in_words:'' @ dec_u32 v)
        @ (case ea_out a of None \<Rightarrow> [] | Some v \<Rightarrow> '' out_words:'' @ dec_u32 v)
        @ (case ea_mailbox a of None \<Rightarrow> [] | Some v \<Rightarrow> '' signal_mail_box_size:'' @ dec_u32 v) @ [newline])"

fun dump_top :: "etop \<Rightarrow> string" where
  "dump_top (TopStruct n) = dump_line 0 (''struct '' @ n @ '';'')"
| "dump_top (TopKernel k) = dump_entry_attrs (kn_attrs k) @ dump_line 0 (''kernel('' @ dump_params (kn_params k) @ '')'')
     @ (if kn_acl k = [] then []
        else dump_line 0 ''acl {'' @ concat (map (\<lambda>(r, w). dump_line 1 (r @ '' -> '' @ w @ '';'')) (kn_acl k)) @ dump_line 0 ''}'')
     @ dump_stmt 1 (kn_body k)"
| "dump_top (TopWorker w) = dump_entry_attrs (wk_attrs w)
     @ dump_line 0 (''worker '' @ wk_name w @ ''('' @ dump_params (wk_params w) @ '')'') @ dump_stmt 1 (wk_body w)"
| "dump_top (TopFunction f) = dump_line 0 (''function '' @ dump_type_ref (fn_return f) @ '' '' @ fn_name f @ ''(''
     @ dump_params (fn_params f) @ (if fn_variadic f then (if fn_params f = [] then ''...'' else '', ...'') else []) @ '')'')
     @ dump_stmt 1 (fn_body f)"
| "dump_top (TopAtEntry f) = dump_line 0 (''at_entry '' @ fn_name f @ ''('' @ dump_params (fn_params f) @ '')'')
     @ dump_stmt 1 (fn_body f)"
| "dump_top (TopType t) = dump_line 0 (''type '' @ td_name t @ ''('' @ dump_params (td_params t) @ '')'') @ dump_stmt 1 (td_body t)"
| "dump_top (TopDeclare k v) = dump_line 0 (''declare '' @ (case k of E_DECLARE_DEFAULT_IN_WORDS \<Rightarrow> ''default_in_words ''
       | E_DECLARE_DEFAULT_OUT_WORDS \<Rightarrow> ''default_out_words ''
       | E_DECLARE_DEFAULT_SIGNAL_MAIL_BOX_SIZE \<Rightarrow> ''default_signal_mail_box_size '') @ dec_u32 v)"
| "dump_top (TopDynamic dd) = dump_line 0 (dump_dynamic (dump_type_ref (dd_type dd)) dd)"

definition e_program_dump :: "eprogram \<Rightarrow> string" where
  "e_program_dump p = concat (map dump_top p)"

end
