(* ===== verification/EParser.thy ===== *)
theory EParser
  imports EAst
begin

text \<open>
  The parser of the E language, \<open>e/e_parser.c\<close>. The parser's position is the list of tokens from it
  on, which ends with the end-of-file token. A result is a tree with the tokens behind it, or the message
  and the token it names with the position at which the parser stopped. Allocation failures end the
  compiler and are left out. Expressions and statements nest without a bound, so their parsers take
  fuel; \<open>PFuel\<close> is its end, which is never reached from the entry points. Quotation marks inside
  messages are left out.
\<close>

datatype 'a pres = POk 'a "etoken list" | PErr string etoken "etoken list" | PFuel

fun pbind :: "'a pres \<Rightarrow> ('a \<Rightarrow> etoken list \<Rightarrow> 'b pres) \<Rightarrow> 'b pres" where
  "pbind (POk x r) f = f x r"
| "pbind (PErr m t r) f = PErr m t r"
| "pbind PFuel f = PFuel"

fun pmap :: "('a \<Rightarrow> 'b) \<Rightarrow> 'a pres \<Rightarrow> 'b pres" where
  "pmap f (POk x r) = POk (f x) r"
| "pmap f (PErr m t r) = PErr m t r"
| "pmap f PFuel = PFuel"

section \<open>Tokens\<close>

definition peek :: "etoken list \<Rightarrow> etoken" where
  "peek ts = (if ts = [] then eof_tok 0 0 else hd ts)"

definition peek_n :: "nat \<Rightarrow> etoken list \<Rightarrow> etoken" where
  "peek_n n ts = (if n < length ts then ts ! n else if ts = [] then eof_tok 0 0 else last ts)"

abbreviation kind_at :: "etoken list \<Rightarrow> etoken_kind" where
  "kind_at ts \<equiv> tk_kind (peek ts)"

definition perr :: "string \<Rightarrow> etoken list \<Rightarrow> 'a pres" where
  "perr msg ts = PErr msg (peek ts) ts"

text \<open>The result is the text of the token.\<close>

definition expect :: "etoken_kind \<Rightarrow> string \<Rightarrow> etoken list \<Rightarrow> string pres" where
  "expect k msg ts = (if kind_at ts = k then POk (tk_text (peek ts)) (tl ts) else perr msg ts)"

text \<open>Loops: \<open>body\<close> answers with the new state and whether to go on. Each turn that goes on takes
  a token.\<close>

fun loop :: "nat \<Rightarrow> ('s \<Rightarrow> etoken list \<Rightarrow> ('s \<times> bool) pres) \<Rightarrow> 's \<Rightarrow> etoken list \<Rightarrow> 's pres" where
  "loop 0 body s ts = PFuel"
| "loop (Suc n) body s ts = pbind (body s ts) (\<lambda>(s', again) r. if again then loop n body s' r else POk s' r)"

definition ploop :: "('s \<Rightarrow> etoken list \<Rightarrow> ('s \<times> bool) pres) \<Rightarrow> 's \<Rightarrow> etoken list \<Rightarrow> 's pres" where
  "ploop body s ts = loop (Suc (length ts)) body s ts"

text \<open>\<open>(unsigned int)strtoul(text, NULL, 10)\<close> and \<open>strtoll(text, NULL, 10)\<close>\<close>

definition tok_u32 :: "string \<Rightarrow> u32" where
  "tok_u32 text = ucast (fst (c_strtoul 10 text))"

definition tok_int :: "string \<Rightarrow> int" where
  "tok_int text = fst (c_strtol 10 text)"

text \<open>A string literal without its quotes.\<close>

definition xstrdup_string_token_local :: "string \<Rightarrow> string" where
  "xstrdup_string_token_local s =
     (if length s \<ge> 2 \<and> hd s = quote \<and> last s = quote then butlast (tl s) else s)"

section \<open>Types and declarations\<close>

definition union_body :: "string list \<Rightarrow> etoken list \<Rightarrow> (string list \<times> bool) pres" where
  "union_body ns ts =
     (if kind_at ts = E_TOK_PIPE
      then pmap (\<lambda>n. (ns @ [n], True)) (expect E_TOK_IDENT ''expected type name after |'' (tl ts))
      else POk (ns, False) ts)"

definition parse_type :: "etoken list \<Rightarrow> type_ref pres" where
  "parse_type ts =
     pbind (expect E_TOK_IDENT ''expected type name'' ts) (\<lambda>n ts.
     pbind (ploop union_body [] ts) (\<lambda>us ts.
       let t = \<lparr>ty_name = n, ty_len = 0, ty_unsized = False, ty_union = us\<rparr> in
       if kind_at ts = E_TOK_LBRACKET then
         if kind_at (tl ts) = E_TOK_RBRACKET then POk (t\<lparr>ty_unsized := True\<rparr>) (tl (tl ts))
         else pbind (expect E_TOK_INT_LIT ''expected integer array length'' (tl ts)) (\<lambda>len ts.
              pbind (expect E_TOK_RBRACKET ''expected ] after array length'' ts) (\<lambda>_ ts.
                POk (t\<lparr>ty_len := tok_u32 len\<rparr>) ts))
       else POk t ts))"

definition is_decl_start :: "etoken list \<Rightarrow> bool" where
  "is_decl_start ts =
     (let ts = (if kind_at ts \<in> {E_TOK_KW_REG, E_TOK_KW_LOCAL, E_TOK_KW_STATIC} then tl ts else ts) in
      if kind_at ts \<noteq> E_TOK_IDENT then False
      else let ts = tl ts in
        if kind_at ts = E_TOK_LBRACKET then
          let ts = tl ts in
          if kind_at ts = E_TOK_RBRACKET then kind_at (tl ts) = E_TOK_IDENT
          else if kind_at ts \<noteq> E_TOK_INT_LIT then False
          else if kind_at (tl ts) \<noteq> E_TOK_RBRACKET then False
          else kind_at (tl (tl ts)) = E_TOK_IDENT
        else kind_at ts = E_TOK_IDENT)"

section \<open>Entry attributes\<close>

definition apply_entry_attribute :: "entry_attrs \<Rightarrow> etoken \<Rightarrow> u32 \<Rightarrow> string + entry_attrs" where
  "apply_entry_attribute a tok v =
     (if tk_text tok = ''in_words'' then
        (if ea_in a \<noteq> None then Inl ''duplicate in_words attribute'' else Inr (a\<lparr>ea_in := Some v\<rparr>))
      else if tk_text tok = ''out_words'' then
        (if ea_out a \<noteq> None then Inl ''duplicate out_words attribute'' else Inr (a\<lparr>ea_out := Some v\<rparr>))
      else if tk_text tok = ''signal_mail_box_size'' then
        (if ea_mailbox a \<noteq> None then Inl ''duplicate signal_mail_box_size attribute'' else Inr (a\<lparr>ea_mailbox := Some v\<rparr>))
      else Inl ''unknown entry attribute'')"

definition attr_body :: "entry_attrs \<Rightarrow> etoken list \<Rightarrow> (entry_attrs \<times> bool) pres" where
  "attr_body a ts =
     (if kind_at ts \<noteq> E_TOK_IDENT then POk (a, False) ts
      else pbind (expect E_TOK_COLON ''expected : after attribute name'' (tl ts)) (\<lambda>_ r.
           pbind (expect E_TOK_INT_LIT ''expected integer after :'' r) (\<lambda>v r.
             case apply_entry_attribute a (peek ts) (tok_u32 v) of
               Inl msg \<Rightarrow> PErr msg (peek ts) r
             | Inr a' \<Rightarrow> POk (a', True) r)))"

definition parse_entry_attributes :: "entry_attrs \<Rightarrow> etoken list \<Rightarrow> entry_attrs pres" where
  "parse_entry_attributes a ts =
     pbind (expect E_TOK_IDENT ''expected attributes after @'' ts) (\<lambda>n r.
       if n \<noteq> ''attributes'' then PErr ''expected attributes after @'' (peek ts) r
       else ploop attr_body a r)"

section \<open>Expressions\<close>

text \<open>\<open>pe\<close> is the parser of expressions, with less fuel.\<close>

type_synonym 'a parser = "etoken list \<Rightarrow> 'a pres"

definition arg_body :: "eexpr parser \<Rightarrow> eexpr list \<Rightarrow> etoken list \<Rightarrow> (eexpr list \<times> bool) pres" where
  "arg_body pe args ts =
     (if kind_at ts = E_TOK_RPAREN then POk (args, False) (tl ts)
      else pbind (pe ts) (\<lambda>a ts.
        if kind_at ts = E_TOK_RPAREN then POk (args @ [a], False) (tl ts)
        else pbind (expect E_TOK_COMMA ''expected , or )'' ts) (\<lambda>_ ts. POk (args @ [a], True) ts)))"

text \<open>The optional upper bound and the closing bracket of a slice.\<close>

definition slice_end :: "eexpr parser \<Rightarrow> eexpr option parser" where
  "slice_end pe ts =
     pbind (if kind_at ts \<noteq> E_TOK_RBRACKET then pmap Some (pe ts) else POk None ts) (\<lambda>e ts.
     pbind (expect E_TOK_RBRACKET ''expected ] after slice expression'' ts) (\<lambda>_ ts. POk e ts))"

definition postfix_body :: "eexpr parser \<Rightarrow> eexpr \<Rightarrow> etoken list \<Rightarrow> (eexpr \<times> bool) pres" where
  "postfix_body pe e ts =
     (if kind_at ts = E_TOK_DOT
      then pmap (\<lambda>f. (EField e f, True)) (expect E_TOK_IDENT ''expected field name after .'' (tl ts))
      else if kind_at ts = E_TOK_LBRACKET then
        let ts = tl ts in
        if kind_at ts = E_TOK_COLON
        then pmap (\<lambda>x. (ESlice e None x, True)) (slice_end pe (tl ts))
        else pbind (pe ts) (\<lambda>i ts.
          if kind_at ts = E_TOK_RBRACKET then POk (EIndex e i, True) (tl ts)
          else if kind_at ts = E_TOK_COLON
          then pmap (\<lambda>x. (ESlice e (Some i) x, True)) (slice_end pe (tl ts))
          else perr ''expected ] or : after index expression'' ts)
      else POk (e, False) ts)"

definition parse_primary :: "eexpr parser \<Rightarrow> eexpr parser" where
  "parse_primary pe ts =
     (let tok = peek ts in
      if tk_kind tok = E_TOK_IDENT then
        pbind (if kind_at (tl ts) = E_TOK_LPAREN
               then pmap (ECall (tk_text tok)) (ploop (arg_body pe) [] (tl (tl ts)))
               else POk (EIdent (tk_text tok)) (tl ts)) (\<lambda>e ts. ploop (postfix_body pe) e ts)
      else if tk_kind tok = E_TOK_INT_LIT then POk (EInt (tok_int (tk_text tok))) (tl ts)
      else if tk_kind tok = E_TOK_STRING_LIT then POk (EString (tk_text tok)) (tl ts)
      else if tk_kind tok = E_TOK_LPAREN then
        pbind (pe (tl ts)) (\<lambda>e ts. pbind (expect E_TOK_RPAREN ''expected )'' ts) (\<lambda>_ ts. POk e ts))
      else perr ''expected expression'' ts)"

definition un_op :: "etoken_kind \<Rightarrow> eunop option" where
  "un_op k = (if k = E_TOK_PLUS then Some E_UN_PLUS else if k = E_TOK_MINUS then Some E_UN_MINUS
     else if k = E_TOK_TILDE then Some E_UN_BITNOT else None)"

fun parse_unary :: "eexpr parser \<Rightarrow> eexpr parser" where
  "parse_unary pe [] = parse_primary pe []"
| "parse_unary pe (t # ts) =
     (case un_op (tk_kind t) of
        Some u \<Rightarrow> pmap (EUnary u) (parse_unary pe ts)
      | None \<Rightarrow> parse_primary pe (t # ts))"

text \<open>The four levels of binary operators have one shape.\<close>

definition mul_op :: "etoken_kind \<Rightarrow> ebinop option" where
  "mul_op k = (if k = E_TOK_STAR then Some E_BIN_MUL else if k = E_TOK_SLASH then Some E_BIN_DIV
     else if k = E_TOK_PERCENT then Some E_BIN_MOD else None)"

definition add_op :: "etoken_kind \<Rightarrow> ebinop option" where
  "add_op k = (if k = E_TOK_PLUS then Some E_BIN_ADD else if k = E_TOK_MINUS then Some E_BIN_SUB else None)"

definition rel_op :: "etoken_kind \<Rightarrow> ebinop option" where
  "rel_op k = (if k = E_TOK_LT then Some E_BIN_LT else if k = E_TOK_LTE then Some E_BIN_LE
     else if k = E_TOK_GT then Some E_BIN_GT else if k = E_TOK_GTE then Some E_BIN_GE else None)"

definition eq_op :: "etoken_kind \<Rightarrow> ebinop option" where
  "eq_op k = (if k = E_TOK_EQEQ then Some E_BIN_EQ else if k = E_TOK_NEQ then Some E_BIN_NE else None)"

definition bin_body ::
  "(etoken_kind \<Rightarrow> ebinop option) \<Rightarrow> eexpr parser \<Rightarrow> eexpr \<Rightarrow> etoken list \<Rightarrow> (eexpr \<times> bool) pres" where
  "bin_body sel sub lhs ts =
     (case sel (kind_at ts) of
        None \<Rightarrow> POk (lhs, False) ts
      | Some b \<Rightarrow> pmap (\<lambda>rhs. (EBinary b lhs rhs, True)) (sub (tl ts)))"

definition bin_level :: "(etoken_kind \<Rightarrow> ebinop option) \<Rightarrow> eexpr parser \<Rightarrow> eexpr parser" where
  "bin_level sel sub ts = pbind (sub ts) (\<lambda>lhs ts. ploop (bin_body sel sub) lhs ts)"

definition parse_mul :: "eexpr parser \<Rightarrow> eexpr parser" where
  "parse_mul pe = bin_level mul_op (parse_unary pe)"

definition parse_add :: "eexpr parser \<Rightarrow> eexpr parser" where
  "parse_add pe = bin_level add_op (parse_mul pe)"

definition parse_rel :: "eexpr parser \<Rightarrow> eexpr parser" where
  "parse_rel pe = bin_level rel_op (parse_add pe)"

definition parse_eq :: "eexpr parser \<Rightarrow> eexpr parser" where
  "parse_eq pe = bin_level eq_op (parse_rel pe)"

text \<open>The right-hand side of an assignment is an assignment, that is an expression, again.\<close>

definition parse_assign :: "eexpr parser \<Rightarrow> eexpr parser" where
  "parse_assign pe ts =
     pbind (parse_eq pe ts) (\<lambda>lhs ts.
       if kind_at ts = E_TOK_ASSIGN then pmap (EAssign lhs) (pe (tl ts)) else POk lhs ts)"

fun parse_expr_n :: "nat \<Rightarrow> eexpr parser" where
  "parse_expr_n 0 ts = PFuel"
| "parse_expr_n (Suc n) ts = parse_assign (parse_expr_n n) ts"

definition parse_expr :: "eexpr parser" where
  "parse_expr ts = parse_expr_n (Suc (length ts)) ts"

section \<open>Statements\<close>

fun set_line :: "nat \<Rightarrow> estmt \<Rightarrow> estmt" where
  "set_line n (SDecl _ d) = SDecl n d"
| "set_line n (SReturn _ v) = SReturn n v"
| "set_line n (SExpr _ e) = SExpr n e"
| "set_line n (SBlock _ ss) = SBlock n ss"
| "set_line n (SIf _ c t e) = SIf n c t e"
| "set_line n (SWhile _ c b) = SWhile n c b"
| "set_line n (SFor _ i c s b) = SFor n i c s b"
| "set_line n (SSwitch _ t cs) = SSwitch n t cs"
| "set_line n (SBreak _) = SBreak n"
| "set_line n (SContinue _) = SContinue n"
| "set_line n (SNext _ w) = SNext n w"
| "set_line n (SRawEpa _ t) = SRawEpa n t"
| "set_line n (SForeach _ v it b) = SForeach n v it b"
| "set_line n (SDynamic _ d) = SDynamic n d"
| "set_line n (SStaticBlock _ ss) = SStaticBlock n ss"
| "set_line n (SKernalId _ s) = SKernalId n s"

text \<open>Statements up to one of the kinds that end a list.\<close>

definition stmts_body :: "etoken_kind set \<Rightarrow> estmt parser \<Rightarrow> estmt list \<Rightarrow> etoken list \<Rightarrow> (estmt list \<times> bool) pres" where
  "stmts_body stop ps ss ts =
     (if kind_at ts \<in> stop then POk (ss, False) ts else pmap (\<lambda>s. (ss @ [s], True)) (ps ts))"

definition block_stmts :: "estmt parser \<Rightarrow> estmt list parser" where
  "block_stmts ps ts =
     pbind (expect E_TOK_LBRACE ''expected {'' ts) (\<lambda>_ ts.
     pbind (ploop (stmts_body {E_TOK_RBRACE, E_TOK_EOF} ps) [] ts) (\<lambda>ss ts.
     pbind (expect E_TOK_RBRACE ''expected }'' ts) (\<lambda>_ ts. POk ss ts)))"

definition parse_block :: "estmt parser \<Rightarrow> estmt parser" where
  "parse_block ps ts = pmap (SBlock 0) (block_stmts ps ts)"

definition parse_decl_stmt :: "estmt parser" where
  "parse_decl_stmt ts =
     (let (cls, ts) = (if kind_at ts = E_TOK_KW_REG then (DeclReg, tl ts)
                       else if kind_at ts = E_TOK_KW_LOCAL then (DeclLocal, tl ts)
                       else if kind_at ts = E_TOK_KW_STATIC then (DeclStatic, tl ts) else (DeclPlain, ts))
      in pbind (parse_type ts) (\<lambda>t ts.
         pbind (expect E_TOK_IDENT ''expected local name'' ts) (\<lambda>n ts.
         pbind (if kind_at ts = E_TOK_ASSIGN then pmap Some (parse_expr (tl ts)) else POk None ts) (\<lambda>i ts.
         pbind (expect E_TOK_SEMI ''expected ;'' ts) (\<lambda>_ ts.
           POk (SDecl 0 \<lparr>dl_type = t, dl_name = n, dl_class = cls, dl_init = i\<rparr>) ts)))))"

definition expr_semi :: "string \<Rightarrow> eexpr parser" where
  "expr_semi msg ts = pbind (parse_expr ts) (\<lambda>e ts. pbind (expect E_TOK_SEMI msg ts) (\<lambda>_ ts. POk e ts))"

text \<open>The caller takes every null result for an empty clause, so an error in the first clause of a
  loop is dropped and parsing goes on where it happened.\<close>

definition parse_for_init_stmt :: "estmt option parser" where
  "parse_for_init_stmt ts =
     (if kind_at ts = E_TOK_SEMI then POk None (tl ts)
      else case (if is_decl_start ts then parse_decl_stmt ts
                 else pmap (SExpr 0) (expr_semi ''expected ; after for init'' ts)) of
        POk s r \<Rightarrow> POk (Some s) r | PErr m t r \<Rightarrow> POk None r | PFuel \<Rightarrow> PFuel)"

definition parse_if_stmt :: "estmt parser \<Rightarrow> estmt parser" where
  "parse_if_stmt ps ts =
     pbind (expect E_TOK_LPAREN ''expected ( after if'' ts) (\<lambda>_ ts.
     pbind (parse_expr ts) (\<lambda>c ts.
     pbind (expect E_TOK_RPAREN ''expected ) after if condition'' ts) (\<lambda>_ ts.
     pbind (ps ts) (\<lambda>t ts.
       if kind_at ts = E_TOK_KW_ELSE then pmap (\<lambda>e. SIf 0 c t (Some e)) (ps (tl ts))
       else POk (SIf 0 c t None) ts))))"

text \<open>Whether the condition has the shape of a loop over a pool.\<close>

definition foreach_head :: "etoken list \<Rightarrow> bool" where
  "foreach_head ts \<longleftrightarrow>
     map (\<lambda>n. tk_kind (peek_n n ts)) [0..<8] =
       [E_TOK_IDENT, E_TOK_IDENT, E_TOK_ASSIGN, E_TOK_IDENT, E_TOK_LPAREN, E_TOK_IDENT, E_TOK_RPAREN, E_TOK_RPAREN]
     \<and> tk_text (peek_n 3 ts) = ''dynamic_next''"

definition foreach_decl :: "string \<Rightarrow> string \<Rightarrow> edecl" where
  "foreach_decl ty n = \<lparr>dl_type = \<lparr>ty_name = ty, ty_len = 0, ty_unsized = False, ty_union = []\<rparr>,
     dl_name = n, dl_class = DeclPlain, dl_init = None\<rparr>"

definition parse_while_stmt :: "estmt parser \<Rightarrow> estmt parser" where
  "parse_while_stmt ps ts =
     pbind (expect E_TOK_LPAREN ''expected ( after while'' ts) (\<lambda>_ ts.
       if foreach_head ts
       then pmap (SForeach 0 (foreach_decl (tk_text (peek_n 0 ts)) (tk_text (peek_n 1 ts))) (tk_text (peek_n 5 ts)))
              (ps (drop 8 ts))
       else pbind (parse_expr ts) (\<lambda>c ts.
            pbind (expect E_TOK_RPAREN ''expected ) after while condition'' ts) (\<lambda>_ ts.
              pmap (SWhile 0 c) (ps ts))))"

definition opt_expr :: "etoken_kind \<Rightarrow> eexpr option parser" where
  "opt_expr k ts = (if kind_at ts \<noteq> k then pmap Some (parse_expr ts) else POk None ts)"

definition parse_for_stmt :: "estmt parser \<Rightarrow> estmt parser" where
  "parse_for_stmt ps ts =
     pbind (expect E_TOK_LPAREN ''expected ( after for'' ts) (\<lambda>_ ts.
     pbind (parse_for_init_stmt ts) (\<lambda>i ts.
     pbind (opt_expr E_TOK_SEMI ts) (\<lambda>c ts.
     pbind (expect E_TOK_SEMI ''expected ; after for condition'' ts) (\<lambda>_ ts.
     pbind (opt_expr E_TOK_RPAREN ts) (\<lambda>s ts.
     pbind (expect E_TOK_RPAREN ''expected ) after for clauses'' ts) (\<lambda>_ ts.
       pmap (SFor 0 i c s) (ps ts)))))))"

definition case_head :: "(bool \<times> int) parser" where
  "case_head ts =
     (if kind_at ts = E_TOK_KW_CASE then
        pbind (expect E_TOK_INT_LIT ''expected integer literal after case'' (tl ts)) (\<lambda>v ts.
        pbind (expect E_TOK_COLON ''expected : after case value'' ts) (\<lambda>_ ts. POk (False, tok_int v) ts))
      else if kind_at ts = E_TOK_KW_DEFAULT then
        pbind (expect E_TOK_COLON ''expected : after default'' (tl ts)) (\<lambda>_ ts. POk (True, 0) ts)
      else perr ''expected case/default in switch'' ts)"

definition cases_body :: "estmt parser \<Rightarrow> ecase list \<Rightarrow> etoken list \<Rightarrow> (ecase list \<times> bool) pres" where
  "cases_body ps cs ts =
     (if kind_at ts \<in> {E_TOK_RBRACE, E_TOK_EOF} then POk (cs, False) ts
      else pbind (case_head ts) (\<lambda>(d, v) ts.
           pbind (ploop (stmts_body {E_TOK_KW_CASE, E_TOK_KW_DEFAULT, E_TOK_RBRACE, E_TOK_EOF} ps) [] ts) (\<lambda>ss ts.
             POk (cs @ [ECase d v ss], True) ts)))"

definition parse_switch_stmt :: "estmt parser \<Rightarrow> estmt parser" where
  "parse_switch_stmt ps ts =
     pbind (expect E_TOK_LPAREN ''expected ( after switch'' ts) (\<lambda>_ ts.
     pbind (parse_expr ts) (\<lambda>t ts.
     pbind (expect E_TOK_RPAREN ''expected ) after switch target'' ts) (\<lambda>_ ts.
     pbind (expect E_TOK_LBRACE ''expected { after switch'' ts) (\<lambda>_ ts.
     pbind (ploop (cases_body ps) [] ts) (\<lambda>cs ts.
     pbind (expect E_TOK_RBRACE ''expected } after switch'' ts) (\<lambda>_ ts. POk (SSwitch 0 t cs) ts))))))"

text \<open>The declaration of a pool, behind its keyword; the same in a body and at the top level.\<close>

definition parse_dynamic :: "dynamic_decl parser" where
  "parse_dynamic ts =
     pbind (expect E_TOK_IDENT ''expected dynamic pool name'' ts) (\<lambda>n ts.
     pbind (expect E_TOK_LPAREN ''expected ( after dynamic pool name'' ts) (\<lambda>_ ts.
     pbind (parse_type ts) (\<lambda>t ts.
     pbind (expect E_TOK_COMMA ''expected , after dynamic element type'' ts) (\<lambda>_ ts.
     pbind (expect E_TOK_INT_LIT ''expected min_free integer'' ts) (\<lambda>a ts.
     pbind (expect E_TOK_COMMA ''expected , after dynamic min_free'' ts) (\<lambda>_ ts.
     pbind (expect E_TOK_INT_LIT ''expected max_free integer'' ts) (\<lambda>b ts.
     pbind (expect E_TOK_COMMA ''expected , after dynamic max_free'' ts) (\<lambda>_ ts.
     pbind (expect E_TOK_INT_LIT ''expected grow_by integer'' ts) (\<lambda>c ts.
     pbind (expect E_TOK_RPAREN ''expected ) after dynamic declaration'' ts) (\<lambda>_ ts.
     pbind (expect E_TOK_SEMI ''expected ; after dynamic declaration'' ts) (\<lambda>_ ts.
       POk \<lparr>dd_name = n, dd_type = t, dd_min_free = tok_u32 a, dd_max_free = tok_u32 b, dd_grow_by = tok_u32 c\<rparr> ts)))))))))))"

definition semi_stmt :: "estmt \<Rightarrow> estmt parser" where
  "semi_stmt s ts = pbind (expect E_TOK_SEMI ''expected ;'' ts) (\<lambda>_ ts. POk s ts)"

definition parse_return :: "estmt parser" where
  "parse_return ts =
     (if kind_at ts = E_TOK_SEMI then POk (SReturn 0 None) (tl ts)
      else pmap (\<lambda>e. SReturn 0 (Some e)) (expr_semi ''expected ;'' ts))"

definition parse_next :: "estmt parser" where
  "parse_next ts =
     pbind (expect E_TOK_IDENT ''expected worker name after next'' ts) (\<lambda>w ts. semi_stmt (SNext 0 w) ts)"

definition parse_kernal_id :: "estmt parser" where
  "parse_kernal_id ts =
     pbind (expect E_TOK_LPAREN ''expected ( after kernalId'' ts) (\<lambda>_ ts.
     pbind (expect E_TOK_STRING_LIT ''expected string literal in kernalId'' ts) (\<lambda>s ts.
     pbind (expect E_TOK_RPAREN ''expected ) after kernalId string'' ts) (\<lambda>_ ts.
       semi_stmt (SKernalId 0 (xstrdup_string_token_local s)) ts)))"

definition stmt_by_kind :: "estmt parser \<Rightarrow> estmt parser" where
  "stmt_by_kind ps ts =
     (let k = kind_at ts; r = tl ts in
      if k = E_TOK_LBRACE then parse_block ps ts
      else if k = E_TOK_RAW_EPA then POk (SRawEpa 0 (tk_text (peek ts))) r
      else if k = E_TOK_KW_IF then parse_if_stmt ps r
      else if k = E_TOK_KW_WHILE then parse_while_stmt ps r
      else if k = E_TOK_KW_FOR then parse_for_stmt ps r
      else if k = E_TOK_KW_SWITCH then parse_switch_stmt ps r
      else if k = E_TOK_KW_RETURN then parse_return r
      else if k = E_TOK_KW_BREAK then semi_stmt (SBreak 0) r
      else if k = E_TOK_KW_CONTINUE then semi_stmt (SContinue 0) r
      else if k = E_TOK_KW_NEXT then parse_next r
      else if k = E_TOK_KW_KERNAL_ID then parse_kernal_id r
      else if k = E_TOK_KW_STATIC \<and> tk_kind (peek_n 1 ts) = E_TOK_LBRACE then pmap (SStaticBlock 0) (block_stmts ps r)
      else if k = E_TOK_KW_DYNAMIC then pmap (SDynamic 0) (parse_dynamic r)
      else if is_decl_start ts then parse_decl_stmt ts
      else pmap (SExpr 0) (expr_semi ''expected ;'' ts))"

fun parse_stmt_n :: "nat \<Rightarrow> estmt parser" where
  "parse_stmt_n 0 ts = PFuel"
| "parse_stmt_n (Suc n) ts = pmap (set_line (tk_line (peek ts))) (stmt_by_kind (parse_stmt_n n) ts)"

definition parse_stmt :: "estmt parser" where
  "parse_stmt ts = parse_stmt_n (Suc (length ts)) ts"

end
