(* ===== verification/EProgram.thy ===== *)
theory EProgram
  imports EParser
begin

text \<open>
  The top level of the parser of the E language, \<open>e_parse_program\<close> of \<open>e/e_parser.c\<close>:
  declarations, parameters, attributes and the access blocks of kernels.
\<close>

section \<open>Parameters\<close>

definition match_ellipsis :: "etoken list \<Rightarrow> bool" where
  "match_ellipsis ts \<longleftrightarrow> 2 < length ts \<and> tk_kind (ts ! 0) = E_TOK_DOT \<and> tk_kind (ts ! 1) = E_TOK_DOT
     \<and> tk_kind (ts ! 2) = E_TOK_DOT"

definition param_body :: "bool \<Rightarrow> eparam list \<times> bool \<Rightarrow> etoken list \<Rightarrow> ((eparam list \<times> bool) \<times> bool) pres" where
  "param_body allow st ts =
     (if allow \<and> match_ellipsis ts
      then pbind (expect E_TOK_RPAREN ''expected ) after variadic marker'' (drop 3 ts)) (\<lambda>_ ts. POk ((fst st, True), False) ts)
      else pbind (parse_type ts) (\<lambda>t ts.
           pbind (expect E_TOK_IDENT ''expected parameter name'' ts) (\<lambda>n ts.
             let st' = (fst st @ [\<lparr>pm_type = t, pm_name = n\<rparr>], snd st) in
             if kind_at ts = E_TOK_RPAREN then POk (st', False) (tl ts)
             else pbind (expect E_TOK_COMMA ''expected , or )'' ts) (\<lambda>_ ts. POk (st', True) ts))))"

definition parse_param_list_ex :: "bool \<Rightarrow> (eparam list \<times> bool) parser" where
  "parse_param_list_ex allow ts =
     (if kind_at ts = E_TOK_RPAREN then POk ([], False) (tl ts) else ploop (param_body allow) ([], False) ts)"

definition parse_param_list :: "eparam list parser" where
  "parse_param_list ts = pmap fst (parse_param_list_ex False ts)"

text \<open>Parameters behind the opening parenthesis and the body, the common end of most declarations.\<close>

definition params_and_body :: "(eparam list \<times> estmt) parser" where
  "params_and_body ts =
     pbind (expect E_TOK_LPAREN ''expected ('' ts) (\<lambda>_ ts.
     pbind (parse_param_list ts) (\<lambda>ps ts. pmap (Pair ps) (parse_block parse_stmt ts)))"

section \<open>Access blocks\<close>

text \<open>Each entry is pushed as it is read. \<open>stale\<close>: the kernel the pointer names has been
  moved by a later declaration, so that the push is undefined, which ends the block.\<close>

definition acl_body :: "bool \<Rightarrow> bool \<times> (string \<times> string) list \<Rightarrow> etoken list \<Rightarrow> ((bool \<times> (string \<times> string) list) \<times> bool) pres" where
  "acl_body stale st ts =
     (if kind_at ts \<in> {E_TOK_RBRACE, E_TOK_EOF} then POk (st, False) ts
      else if kind_at ts \<in> {E_TOK_IDENT, E_TOK_STRING_LIT} then
        let remote = (if kind_at ts = E_TOK_STRING_LIT then xstrdup_string_token_local (tk_text (peek ts)) else tk_text (peek ts)) in
        pbind (expect E_TOK_MINUS ''expected -> in acl block'' (tl ts)) (\<lambda>_ ts.
        pbind (expect E_TOK_GT ''expected -> in acl block'' ts) (\<lambda>_ ts.
        pbind (expect E_TOK_IDENT ''expected local worker name in acl block'' ts) (\<lambda>w ts.
          let st' = (fst st, snd st @ [(remote, w)]) in
          if stale then POk ((True, snd st), False) ts
          else if kind_at ts = E_TOK_SEMI \<or> kind_at ts = E_TOK_COMMA then POk (st', True) (tl ts)
          else if kind_at ts \<noteq> E_TOK_RBRACE then perr ''expected ; or } after acl entry'' ts
          else POk (st', True) ts)))
      else perr ''expected remote kernel name in acl block'' ts)"

definition parse_kernel_acl_block :: "bool \<Rightarrow> (bool \<times> (string \<times> string) list) parser" where
  "parse_kernel_acl_block stale ts =
     pbind (expect E_TOK_LBRACE ''expected { after acl'' ts) (\<lambda>_ ts.
     pbind (ploop (acl_body stale) (False, []) ts) (\<lambda>(ub, es) ts.
       if ub then POk (ub, es) ts
       else pbind (expect E_TOK_RBRACE ''expected } after acl block'' ts) (\<lambda>_ ts. POk (ub, es) ts)))"

section \<open>Declarations\<close>

definition no_attrs :: entry_attrs where
  "no_attrs = \<lparr>ea_in = None, ea_out = None, ea_mailbox = None\<rparr>"

definition attrs_body :: "entry_attrs \<Rightarrow> etoken list \<Rightarrow> (entry_attrs \<times> bool) pres" where
  "attrs_body a ts =
     (if kind_at ts = E_TOK_AT then pmap (\<lambda>a. (a, True)) (parse_entry_attributes a (tl ts)) else POk (a, False) ts)"

definition plain_type :: "string \<Rightarrow> type_ref" where
  "plain_type n = \<lparr>ty_name = n, ty_len = 0, ty_unsized = False, ty_union = []\<rparr>"

definition declare_kind :: "string \<Rightarrow> edeclare_kind option" where
  "declare_kind n =
     (if n = ''default_in_words'' then Some E_DECLARE_DEFAULT_IN_WORDS
      else if n = ''default_out_words'' then Some E_DECLARE_DEFAULT_OUT_WORDS
      else if n = ''default_signal_mail_box_size'' then Some E_DECLARE_DEFAULT_SIGNAL_MAIL_BOX_SIZE else None)"

definition parse_declare :: "etop parser" where
  "parse_declare ts =
     pbind (expect E_TOK_IDENT ''expected declaration name'' ts) (\<lambda>n r.
     pbind (expect E_TOK_INT_LIT ''expected integer after declaration name'' r) (\<lambda>v r.
       let r = (if kind_at r = E_TOK_SEMI then tl r else r) in
       case declare_kind n of
         None \<Rightarrow> PErr ''unknown declaration name'' (peek ts) r
       | Some k \<Rightarrow> POk (TopDeclare k (tok_u32 v)) r))"

definition parse_struct :: "etop parser" where
  "parse_struct ts =
     pbind (expect E_TOK_IDENT ''expected struct name'' ts) (\<lambda>n ts.
     pbind (expect E_TOK_SEMI ''expected ;'' ts) (\<lambda>_ ts. POk (TopStruct n) ts))"

definition parse_type_decl :: "etop parser" where
  "parse_type_decl ts =
     pbind (expect E_TOK_IDENT ''expected type name'' ts) (\<lambda>n ts.
       pmap (\<lambda>(ps, b). TopType \<lparr>td_name = n, td_params = ps, td_body = b\<rparr>) (params_and_body ts))"

definition parse_kernel :: "entry_attrs \<Rightarrow> etop parser" where
  "parse_kernel a ts =
     pmap (\<lambda>(ps, b). TopKernel \<lparr>kn_params = ps, kn_body = b, kn_attrs = a, kn_acl = []\<rparr>) (params_and_body ts)"

definition parse_worker :: "entry_attrs \<Rightarrow> etop parser" where
  "parse_worker a ts =
     pbind (expect E_TOK_IDENT ''expected worker name'' ts) (\<lambda>n ts.
       pmap (\<lambda>(ps, b). TopWorker \<lparr>wk_name = n, wk_params = ps, wk_body = b, wk_attrs = a\<rparr>) (params_and_body ts))"

definition parse_function :: "etop parser" where
  "parse_function ts =
     pbind (parse_type ts) (\<lambda>t ts.
     pbind (expect E_TOK_IDENT ''expected function name'' ts) (\<lambda>n ts.
     pbind (expect E_TOK_LPAREN ''expected ('' ts) (\<lambda>_ ts.
     pbind (parse_param_list_ex True ts) (\<lambda>(ps, v) ts.
       pmap (\<lambda>b. TopFunction \<lparr>fn_return = t, fn_name = n, fn_params = ps, fn_variadic = v, fn_body = b\<rparr>)
         (parse_block parse_stmt ts)))))"

definition parse_at_entry :: "etop parser" where
  "parse_at_entry ts =
     pbind (expect E_TOK_IDENT ''expected AT entry name'' ts) (\<lambda>n ts.
       pmap (\<lambda>(ps, b). TopAtEntry \<lparr>fn_return = plain_type ''void'', fn_name = n, fn_params = ps, fn_variadic = False, fn_body = b\<rparr>)
         (params_and_body ts))"

section \<open>Programs\<close>

text \<open>\<open>current_kernel\<close> points into the array of declarations: \<open>pg_cur\<close> is the index it was
  taken at. Every push moves the array, so the pointer is good only while its kernel is the last
  declaration.\<close>

record prog_state =
  pg_items :: eprogram
  pg_cur :: "nat option"
  pg_ub :: bool

definition add_acl :: "(string \<times> string) list \<Rightarrow> etop \<Rightarrow> etop" where
  "add_acl es t = (case t of TopKernel k \<Rightarrow> TopKernel (k\<lparr>kn_acl := kn_acl k @ es\<rparr>) | _ \<Rightarrow> t)"

definition push_top :: "prog_state \<Rightarrow> etop \<Rightarrow> prog_state" where
  "push_top st t = st\<lparr>pg_items := pg_items st @ [t]\<rparr>"

definition parse_acl :: "prog_state \<Rightarrow> etoken list \<Rightarrow> (prog_state \<times> bool) pres" where
  "parse_acl st ts =
     (case pg_cur st of
        None \<Rightarrow> perr ''acl block must follow a kernel declaration'' ts
      | Some i \<Rightarrow>
          pbind (parse_kernel_acl_block (Suc i \<noteq> length (pg_items st)) ts) (\<lambda>(ub, es) ts.
            if ub then POk (st\<lparr>pg_ub := True\<rparr>, False) ts
            else POk (st\<lparr>pg_items := (if es = [] then pg_items st else (pg_items st)[i := add_acl es (pg_items st ! i)])\<rparr>, True) ts))"

text \<open>One turn of the main loop: the declaration behind its attributes \<open>a\<close>.\<close>

definition top_decl :: "prog_state \<Rightarrow> entry_attrs \<Rightarrow> etoken list \<Rightarrow> (prog_state \<times> bool) pres" where
  "top_decl st a ts =
     (let k = kind_at ts; r = tl ts;
          push = pmap (\<lambda>t. (push_top st t, True));
          plain = (\<lambda>p. if a \<noteq> no_attrs then perr ''attributes must be attached to kernel or worker'' r else p r)
      in if k = E_TOK_KW_DECLARE then plain (\<lambda>r. push (parse_declare r))
         else if k = E_TOK_KW_DYNAMIC then plain (\<lambda>r. push (pmap TopDynamic (parse_dynamic r)))
         else if k = E_TOK_KW_ACL then plain (parse_acl st)
         else if k = E_TOK_KW_STRUCT then plain (\<lambda>r. push (parse_struct r))
         else if k = E_TOK_KW_TYPE then plain (\<lambda>r. push (parse_type_decl r))
         else if k = E_TOK_KW_KERNEL
         then pmap (\<lambda>t. (push_top (st\<lparr>pg_cur := Some (length (pg_items st))\<rparr>) t, True)) (parse_kernel a r)
         else if k = E_TOK_KW_WORKER then push (parse_worker a r)
         else if k = E_TOK_KW_FUNCTION then plain (\<lambda>r. push (parse_function r))
         else if k = E_TOK_KW_AT_ENTRY then plain (\<lambda>r. push (parse_at_entry r))
         else perr ''expected top-level declaration'' ts)"

definition top_body :: "prog_state \<Rightarrow> etoken list \<Rightarrow> (prog_state \<times> bool) pres" where
  "top_body st ts =
     (if kind_at ts = E_TOK_EOF then POk (st, False) ts
      else pbind (ploop attrs_body no_attrs ts) (top_decl st))"

datatype prog_res = PrOk eprogram | PrErr string etoken | PrUb | PrFuel

definition e_parse_program :: "etoken list \<Rightarrow> prog_res" where
  "e_parse_program ts =
     (case ploop top_body \<lparr>pg_items = [], pg_cur = None, pg_ub = False\<rparr> ts of
        POk st r \<Rightarrow> if pg_ub st then PrUb else PrOk (pg_items st)
      | PErr m t r \<Rightarrow> PrErr m t
      | PFuel \<Rightarrow> PrFuel)"

end
