(* ===== verification/EParseTotal.thy ===== *)
theory EParseTotal
  imports EProgram
begin

text \<open>
  The parser of the E language always ends: every part of it takes tokens, so the fuel of the entry
  points is enough, and the loops satisfy their fuel-free equations.
\<close>

section \<open>Results within a bound\<close>

text \<open>A success leaves less than \<open>n\<close> tokens, an error at most \<open>e\<close>, and the fuel was
  enough.\<close>

definition within :: "nat \<Rightarrow> nat \<Rightarrow> 'a pres \<Rightarrow> bool" where
  "within n e res = (case res of POk x r \<Rightarrow> length r < n | PErr m t r \<Rightarrow> length r \<le> e | PFuel \<Rightarrow> False)"

definition turn_ok :: "nat \<Rightarrow> ('s \<times> bool) pres \<Rightarrow> bool" where
  "turn_ok n res = (case res of
     POk (s, again) r \<Rightarrow> length r < (if again then n else Suc n) | PErr m t r \<Rightarrow> length r \<le> n | PFuel \<Rightarrow> False)"

lemma within_simps [simp]:
  "within n e (POk x r) = (length r < n)" "within n e (PErr m t r) = (length r \<le> e)" "\<not> within n e PFuel"
  "within n e (perr m ts) = (length ts \<le> e)"
  by (simp_all add: within_def perr_def)

lemma within_pmap [simp]: "within n e (pmap f res) = within n e res"
  by (cases res) auto

lemma turn_ok_simps [simp]:
  "turn_ok n (POk (s, b) r) = (length r < (if b then n else Suc n))" "turn_ok n (PErr m t r) = (length r \<le> n)"
  "\<not> turn_ok n PFuel" "turn_ok n (perr m ts) = (length ts \<le> n)"
  by (simp_all add: turn_ok_def perr_def)

lemma turn_ok_pmap_True [simp]: "turn_ok n (pmap (\<lambda>x. (f x, True)) res) = within n n res"
  by (cases res) auto

lemma within_bind:
  assumes "within n1 e res" and "\<And>x r. length r < n1 \<Longrightarrow> res = POk x r \<Longrightarrow> within n e (f x r)"
  shows "within n e (pbind res f)"
  using assms by (cases res) auto

lemma turn_ok_bind:
  assumes "within n1 n res" and "\<And>x r. length r < n1 \<Longrightarrow> res = POk x r \<Longrightarrow> turn_ok n (f x r)"
  shows "turn_ok n (pbind res f)"
  using assms by (cases res) auto

lemma within_mono: "within n e res \<Longrightarrow> n \<le> n' \<Longrightarrow> e \<le> e' \<Longrightarrow> within n' e' res"
  by (cases res) auto

lemma kind_nonempty: "kind_at ts = k \<Longrightarrow> k \<noteq> E_TOK_EOF \<Longrightarrow> 0 < length ts"
  by (auto simp: peek_def eof_tok_def mk_tok_def split: if_splits)

lemma within_expect: "k \<noteq> E_TOK_EOF \<Longrightarrow> length ts \<le> e \<Longrightarrow> within (length ts) e (expect k m ts)"
  using kind_nonempty [of ts k] by (auto simp: expect_def)

section \<open>Loops\<close>

lemma loop_fine:
  assumes "\<And>s ts'. length ts' \<le> length ts \<Longrightarrow> turn_ok (length ts') (body s ts')" and "length ts < n"
  shows "within (Suc (length ts)) (length ts) (loop n body s ts) \<and> (length ts < m \<longrightarrow> loop m body s ts = loop n body s ts)"
  using assms
proof (induction "length ts" arbitrary: n m s ts rule: less_induct)
  case less
  obtain n' where n: "n = Suc n'" using less.prems(2) by (cases n) auto
  have b: "turn_ok (length ts) (body s ts)" using less.prems(1) by simp
  show ?case
  proof (cases "body s ts")
    case (POk p r)
    obtain s' again where p: "p = (s', again)" by (cases p)
    show ?thesis
    proof (cases again)
      case True
      then have r: "length r < length ts" using b POk p by simp
      have ih: "within (Suc (length r)) (length r) (loop n' body s' r)
          \<and> (length r < m' \<longrightarrow> loop m' body s' r = loop n' body s' r)" for m'
        using less.hyps [OF r, of n' s' m'] less.prems r n by auto
      from ih [of "m - 1"] r n show ?thesis
        by (cases m) (auto simp: POk p True elim: within_mono)
    qed (use b POk p n in \<open>cases m; auto\<close>)
  qed (use b n in \<open>cases m; auto\<close>)+
qed

lemma within_ploop:
  assumes "\<And>s ts'. length ts' \<le> length ts \<Longrightarrow> turn_ok (length ts') (body s ts')" and "length ts \<le> e" and "length ts < n"
  shows "within n e (ploop body s ts)"
  using loop_fine [of ts body "Suc (length ts)" s 0] assms unfolding ploop_def by (auto elim: within_mono)

lemma ploop_unfold:
  assumes "\<And>s ts'. length ts' \<le> length ts \<Longrightarrow> turn_ok (length ts') (body s ts')"
  shows "ploop body s ts = pbind (body s ts) (\<lambda>(s', again) r. if again then ploop body s' r else POk s' r)"
proof (cases "body s ts")
  case (POk p r)
  obtain s' again where p: "p = (s', again)" by (cases p)
  have "length r < length ts" if again using assms [of ts s] POk p that by simp
  then have "again \<Longrightarrow> loop (length ts) body s' r = loop (Suc (length r)) body s' r"
    using loop_fine [of r body "Suc (length r)" s' "length ts"] assms by fastforce
  then show ?thesis by (simp add: ploop_def POk p)
qed (simp_all add: ploop_def)

section \<open>Types and attributes\<close>

lemma union_turn: "turn_ok (length ts) (union_body ns ts)"
  using kind_nonempty [of ts E_TOK_PIPE] by (auto simp: union_body_def intro!: within_mono [OF within_expect])

lemma parse_type_within:
  assumes "length ts \<le> e" shows "within (length ts) e (parse_type ts)"
  unfolding parse_type_def Let_def
  by (intro within_bind [OF within_expect] within_bind [OF within_ploop [OF union_turn]])
    (use assms kind_nonempty in \<open>auto intro!: within_bind [OF within_expect]\<close>)

lemma attr_turn: "turn_ok (length ts) (attr_body a ts)"
  unfolding attr_body_def
  by (auto split: sum.split intro!: turn_ok_bind [OF within_expect] dest: kind_nonempty)

lemma parse_entry_attributes_within:
  "length ts \<le> e \<Longrightarrow> within (length ts) e (parse_entry_attributes a ts)"
  unfolding parse_entry_attributes_def
  by (intro within_bind [OF within_expect]) (auto intro!: within_ploop attr_turn)

section \<open>Expressions\<close>

text \<open>What a parser called on a text not longer than \<open>n\<close> does.\<close>

definition good_upto :: "nat \<Rightarrow> 'a parser \<Rightarrow> bool" where
  "good_upto n p \<longleftrightarrow> (\<forall>ts. length ts \<le> n \<longrightarrow> within (length ts) (length ts) (p ts))"

lemma good_uptoD: "good_upto n p \<Longrightarrow> length ts \<le> n \<Longrightarrow> length ts \<le> m \<Longrightarrow> length ts \<le> e \<Longrightarrow> within m e (p ts)"
  unfolding good_upto_def using within_mono by blast

lemma good_upto_le: "good_upto n p \<Longrightarrow> m \<le> n \<Longrightarrow> good_upto m p"
  by (auto simp: good_upto_def)

lemma good_bind:
  assumes "good_upto n p" and "length ts \<le> n"
    and "\<And>x r. length r < length ts \<Longrightarrow> p ts = POk x r \<Longrightarrow> within m e (f x r)" and "length ts \<le> e"
  shows "within m e (pbind (p ts) f)"
  using within_bind [OF good_uptoD [OF assms(1,2) order_refl assms(4)]] assms(3) by blast

lemma good_turn:
  assumes "good_upto n p" and "length ts \<le> n"
    and "\<And>x r. length r < length ts \<Longrightarrow> p ts = POk x r \<Longrightarrow> turn_ok m (f x r)" and "length ts \<le> m"
  shows "turn_ok m (pbind (p ts) f)"
  using turn_ok_bind [OF good_uptoD [OF assms(1,2) order_refl assms(4)]] assms(3) by blast

lemma slice_end_within:
  assumes "good_upto n pe" and "length ts \<le> n" and "length ts \<le> e"
  shows "within (length ts) e (slice_end pe ts)"
  unfolding slice_end_def
  by (rule within_bind [where ?n1.0 = "Suc (length ts)"])
    (use assms good_uptoD [OF assms(1)] in \<open>auto intro!: within_bind [OF within_expect]\<close>)

lemma arg_turn:
  assumes "good_upto n pe" and "length ts \<le> n"
  shows "turn_ok (length ts) (arg_body pe args ts)"
  unfolding arg_body_def using assms(2)
  by (auto dest: kind_nonempty intro!: good_turn [OF assms(1)] turn_ok_bind [OF within_expect])

lemma postfix_turn:
  assumes "good_upto n pe" and "length ts \<le> n"
  shows "turn_ok (length ts) (postfix_body pe e ts)"
proof -
  have tl: "length (tl ts) \<le> n" using assms(2) by simp
  show ?thesis
    unfolding postfix_body_def Let_def using assms(2) tl
    by (auto dest: kind_nonempty intro!: good_turn [OF assms(1)]
        within_mono [OF within_expect] within_mono [OF slice_end_within [OF assms(1)]])
qed

lemma parse_primary_within:
  assumes "good_upto n pe" and "length ts \<le> Suc n"
  shows "within (length ts) (length ts) (parse_primary pe ts)"
proof -
  have a: "within (length (tl ts)) (length ts) (ploop (arg_body pe) [] (tl (tl ts)))" if "kind_at (tl ts) = E_TOK_LPAREN"
    using that kind_nonempty [of "tl ts"] assms(2) by (intro within_ploop arg_turn [OF assms(1)]) auto
  have p: "within (length ts) (length ts) (ploop (postfix_body pe) e r)" if "length r < length ts" for e r
    using that assms(2) by (intro within_ploop postfix_turn [OF assms(1)]) auto
  show ?thesis
    unfolding parse_primary_def Let_def
    using assms(2) kind_nonempty [of ts]
    by (auto intro!: within_bind [where ?n1.0 = "length ts"] p within_mono [OF a] good_uptoD [OF assms(1)]
        within_mono [OF within_expect])
qed

lemma primary_good: "good_upto n pe \<Longrightarrow> good_upto (Suc n) (parse_primary pe)"
  by (simp add: good_upto_def [of "Suc n"] parse_primary_within)

lemma parse_unary_within:
  "good_upto n pe \<Longrightarrow> length ts \<le> Suc n \<Longrightarrow> within (length ts) (length ts) (parse_unary pe ts)"
proof (induction ts)
  case (Cons t ts)
  with parse_primary_within [OF Cons.prems] show ?case
    by (auto split: option.split elim: within_mono)
qed (use parse_primary_within in fastforce)

lemma unary_good: "good_upto n pe \<Longrightarrow> good_upto (Suc n) (parse_unary pe)"
  by (simp add: good_upto_def [of "Suc n"] parse_unary_within)

lemma bin_turn:
  assumes "good_upto n sub" and "length ts \<le> n" and "sel E_TOK_EOF = None"
  shows "turn_ok (length ts) (bin_body sel sub lhs ts)"
proof -
  have "within (length ts) (length ts) (sub (tl ts))"
    using assms(2) by (intro good_uptoD [OF assms(1)]) auto
  then show ?thesis by (auto simp: bin_body_def split: option.split)
qed

lemma level_good:
  assumes "good_upto n sub" and "sel E_TOK_EOF = None"
  shows "good_upto n (bin_level sel sub)"
  unfolding good_upto_def bin_level_def
  by (auto intro!: good_bind [OF assms(1)] within_ploop bin_turn [where n = n] assms)

lemma op_eof [simp]: "mul_op E_TOK_EOF = None" "add_op E_TOK_EOF = None" "rel_op E_TOK_EOF = None" "eq_op E_TOK_EOF = None"
  by (simp_all add: mul_op_def add_op_def rel_op_def eq_op_def)

lemma mul_good: "good_upto n pe \<Longrightarrow> good_upto (Suc n) (parse_mul pe)"
  unfolding parse_mul_def by (intro level_good unary_good) simp_all

lemma add_good: "good_upto n pe \<Longrightarrow> good_upto (Suc n) (parse_add pe)"
  unfolding parse_add_def by (intro level_good mul_good) simp_all

lemma rel_good: "good_upto n pe \<Longrightarrow> good_upto (Suc n) (parse_rel pe)"
  unfolding parse_rel_def by (intro level_good add_good) simp_all

lemma eq_good: "good_upto n pe \<Longrightarrow> good_upto (Suc n) (parse_eq pe)"
  unfolding parse_eq_def by (intro level_good rel_good) simp_all

lemma assign_good:
  assumes "good_upto n pe"
  shows "good_upto (Suc n) (parse_assign pe)"
  unfolding good_upto_def [of "Suc n"] parse_assign_def
  by (auto intro!: good_bind [OF eq_good [OF assms]] good_uptoD [OF assms] dest: kind_nonempty)

lemma expr_n_good: "good_upto n (parse_expr_n (Suc n))"
proof (induction n)
  case 0
  have "within 0 0 (parse_expr_n (Suc 0) [])"
    by (simp add: parse_assign_def parse_eq_def parse_rel_def parse_add_def parse_mul_def bin_level_def
        parse_primary_def peek_def eof_tok_def mk_tok_def perr_def)
  then show ?case by (simp add: good_upto_def del: parse_expr_n.simps)
next
  case (Suc n)
  have "parse_expr_n (Suc (Suc n)) = parse_assign (parse_expr_n (Suc n))" by (rule ext) simp
  then show ?case using assign_good [OF Suc] by (simp del: parse_expr_n.simps)
qed

lemma parse_expr_within: "length ts \<le> n \<Longrightarrow> length ts \<le> e \<Longrightarrow> within n e (parse_expr ts)"
  using expr_n_good [of "length ts"] by (auto simp: parse_expr_def good_upto_def elim: within_mono)

lemma expr_good: "good_upto n parse_expr"
  by (simp add: good_upto_def parse_expr_within)

section \<open>Statements\<close>

lemma stmts_turn:
  assumes "good_upto n ps" and "length ts \<le> n"
  shows "turn_ok (length ts) (stmts_body stop ps ss ts)"
  using assms by (auto simp: stmts_body_def intro: good_uptoD)

lemma block_stmts_within:
  assumes "good_upto n ps" and "length ts \<le> Suc n"
  shows "within (length ts) (length ts) (block_stmts ps ts)"
  unfolding block_stmts_def
proof (rule within_bind [OF within_expect], simp, simp)
  fix x and r :: "etoken list" assume r: "length r < length ts"
  show "within (length ts) (length ts) (pbind (ploop (stmts_body {E_TOK_RBRACE, E_TOK_EOF} ps) [] r)
      (\<lambda>ss ts. pbind (expect E_TOK_RBRACE ''expected }'' ts) (\<lambda>_ ts. POk ss ts)))"
    by (rule within_bind [OF within_ploop [where n = "Suc (length r)"]])
      (use r assms in \<open>auto intro!: stmts_turn [OF assms(1)] within_bind [OF within_expect]\<close>)
qed

lemma parse_type_good: "good_upto n parse_type"
  by (simp add: good_upto_def parse_type_within)

lemma expr_semi_within: "length ts \<le> n \<Longrightarrow> length ts \<le> e \<Longrightarrow> within n e (expr_semi m ts)"
  unfolding expr_semi_def
  by (intro good_bind [OF expr_good order_refl]) (auto intro!: within_bind [OF within_expect])

lemma opt_expr_within: "length ts \<le> e \<Longrightarrow> within (Suc (length ts)) e (opt_expr k ts)"
  by (auto simp: opt_expr_def intro: parse_expr_within)

lemma parse_decl_stmt_within: "within (length ts) (length ts) (parse_decl_stmt ts)"
proof -
  have rest: "within n e (pbind (parse_type r) (\<lambda>t ts.
         pbind (expect E_TOK_IDENT ''expected local name'' ts) (\<lambda>nm ts.
         pbind (if kind_at ts = E_TOK_ASSIGN then pmap Some (parse_expr (tl ts)) else POk None ts) (\<lambda>i ts.
         pbind (expect E_TOK_SEMI ''expected ;'' ts) (\<lambda>_ ts.
           POk (SDecl 0 \<lparr>dl_type = t, dl_name = nm, dl_class = cls, dl_init = i\<rparr>) ts)))))"
    if "length r \<le> n" "length r \<le> e" for r n e cls
    by (intro good_bind [OF parse_type_good order_refl] within_bind [OF within_expect]
        within_bind [where ?n1.0 = "Suc (length (_ :: etoken list))"])
      (use that in \<open>auto intro!: parse_expr_within dest: kind_nonempty\<close>)
  show ?thesis
    unfolding parse_decl_stmt_def Let_def by (auto intro!: rest)
qed

lemma for_init_within: "within (Suc (length ts)) (length ts) (parse_for_init_stmt ts)"
proof -
  have "within (length ts) (length ts) (if is_decl_start ts then parse_decl_stmt ts
      else pmap (SExpr 0) (expr_semi ''expected ; after for init'' ts))"
    by (simp add: parse_decl_stmt_within expr_semi_within)
  then show ?thesis
    by (cases "if is_decl_start ts then parse_decl_stmt ts else pmap (SExpr 0) (expr_semi ''expected ; after for init'' ts)")
      (auto simp: parse_for_init_stmt_def)
qed

lemma parse_if_within:
  assumes "good_upto n ps" and "length ts \<le> n"
  shows "within (length ts) (length ts) (parse_if_stmt ps ts)"
  unfolding parse_if_stmt_def using assms(2)
  by (intro within_bind [OF within_expect] good_bind [OF expr_good order_refl] good_bind [OF assms(1)])
    (auto intro!: good_uptoD [OF assms(1)] dest: kind_nonempty)

lemma parse_while_within:
  assumes "good_upto n ps" and "length ts \<le> n"
  shows "within (length ts) (length ts) (parse_while_stmt ps ts)"
  unfolding parse_while_stmt_def using assms(2)
  by (intro within_bind [OF within_expect])
    (auto intro!: good_uptoD [OF assms(1)] good_bind [OF expr_good order_refl] within_bind [OF within_expect])

lemma parse_for_within:
  assumes "good_upto n ps" and "length ts \<le> n"
  shows "within (length ts) (length ts) (parse_for_stmt ps ts)"
  unfolding parse_for_stmt_def using assms(2)
  by (intro within_bind [OF within_expect] within_bind [OF for_init_within [THEN within_mono]]
      within_bind [OF opt_expr_within])
    (auto intro!: good_uptoD [OF assms(1)])

lemma case_head_within: "length ts \<le> e \<Longrightarrow> within (length ts) e (case_head ts)"
  unfolding case_head_def
  by (auto intro!: within_bind [OF within_expect] dest: kind_nonempty)

lemma cases_turn:
  assumes "good_upto n ps" and "length ts \<le> n"
  shows "turn_ok (length ts) (cases_body ps cs ts)"
proof -
  have l: "within (length ts) (length ts) (ploop (stmts_body stop ps) [] r)" if "length r < length ts" for r stop
    using that assms(2) by (intro within_ploop stmts_turn [OF assms(1)]) auto
  show ?thesis
    unfolding cases_body_def
    by (auto intro!: turn_ok_bind [OF case_head_within] turn_ok_bind [OF l] split: prod.split)
qed

lemma parse_switch_within:
  assumes "good_upto n ps" and "length ts \<le> n"
  shows "within (length ts) (length ts) (parse_switch_stmt ps ts)"
proof -
  have l: "within (length ts) (length ts) (ploop (cases_body ps) [] r)" if "length r < length ts" for r
    using that assms(2) by (intro within_ploop cases_turn [OF assms(1)]) auto
  show ?thesis
    unfolding parse_switch_stmt_def using assms(2)
    by (intro within_bind [OF within_expect] good_bind [OF expr_good order_refl] within_bind [OF l]) auto
qed

lemma parse_dynamic_within: "length ts \<le> e \<Longrightarrow> within (length ts) e (parse_dynamic ts)"
  unfolding parse_dynamic_def
  by (intro within_bind [OF within_expect] good_bind [OF parse_type_good order_refl]) auto

lemma semi_within: "length ts \<le> e \<Longrightarrow> within (length ts) e (semi_stmt s ts)"
  unfolding semi_stmt_def by (intro within_bind [OF within_expect]) auto

lemma small_stmts_within:
  "length ts \<le> e \<Longrightarrow> within (length ts) e (parse_return ts)"
  "length ts \<le> e \<Longrightarrow> within (length ts) e (parse_next ts)"
  "length ts \<le> e \<Longrightarrow> within (length ts) e (parse_kernal_id ts)"
  unfolding parse_return_def parse_next_def parse_kernal_id_def
  by (auto intro!: expr_semi_within within_bind [OF within_expect] within_mono [OF semi_within] dest: kind_nonempty)

lemma stmt_by_kind_good:
  assumes "good_upto n ps"
  shows "good_upto (Suc n) (stmt_by_kind ps)"
  unfolding good_upto_def
proof (intro allI impI)
  fix ts :: "etoken list" assume l: "length ts \<le> Suc n"
  have tl: "length (tl ts) \<le> n" using l by simp
  have s: "length (tl ts) \<le> length ts" by simp
  note up = within_mono [OF _ s s]
  note parts = up [OF parse_if_within [OF assms tl]] up [OF parse_while_within [OF assms tl]]
    up [OF parse_for_within [OF assms tl]] up [OF parse_switch_within [OF assms tl]]
    within_mono [OF small_stmts_within(1) s order_refl, OF s] within_mono [OF small_stmts_within(2) s order_refl, OF s]
    within_mono [OF small_stmts_within(3) s order_refl, OF s] within_mono [OF semi_within s order_refl, OF s]
    within_mono [OF parse_dynamic_within s order_refl, OF s] parse_decl_stmt_within
    up [OF block_stmts_within [OF assms le_SucI [OF tl]]] block_stmts_within [OF assms l]
    expr_semi_within [OF order_refl order_refl]
  show "within (length ts) (length ts) (stmt_by_kind ps ts)"
    unfolding stmt_by_kind_def Let_def parse_block_def
    using parts kind_nonempty [of ts E_TOK_RAW_EPA] by simp
qed

lemma set_line_good: "good_upto n p \<Longrightarrow> good_upto n (\<lambda>ts. pmap (f ts) (p ts))"
  by (simp add: good_upto_def)

lemma stmt_n_good: "good_upto n (parse_stmt_n (Suc n))"
proof (induction n)
  case 0
  have "within 0 0 (stmt_by_kind (parse_stmt_n 0) [])"
    using parse_decl_stmt_within [of "[]"] expr_semi_within [of "[]" 0 0]
    by (simp add: stmt_by_kind_def peek_def eof_tok_def mk_tok_def)
  then show ?case by (simp add: good_upto_def del: parse_stmt_n.simps(1))
next
  case (Suc n)
  have "parse_stmt_n (Suc (Suc n)) = (\<lambda>ts. pmap (set_line (tk_line (peek ts))) (stmt_by_kind (parse_stmt_n (Suc n)) ts))"
    by (rule ext) simp
  then show ?case using set_line_good [OF stmt_by_kind_good [OF Suc]] by (simp del: parse_stmt_n.simps)
qed

lemma stmt_good: "good_upto n parse_stmt"
  using stmt_n_good by (auto simp: good_upto_def parse_stmt_def simp del: parse_stmt_n.simps)

section \<open>Programs\<close>

lemma parse_block_within: "length ts \<le> n \<Longrightarrow> length ts \<le> e \<Longrightarrow> within n e (parse_block parse_stmt ts)"
  using block_stmts_within [OF stmt_good, of ts "length ts"] by (auto simp: parse_block_def elim: within_mono)

lemma param_turn: "turn_ok (length ts) (param_body allow st ts)"
  unfolding param_body_def Let_def
  by (auto simp: match_ellipsis_def intro!: good_turn [OF parse_type_good order_refl] turn_ok_bind [OF within_expect]
      turn_ok_bind [OF within_expect [THEN within_mono]])

lemma params_within: "length ts \<le> e \<Longrightarrow> within (Suc (length ts)) e (parse_param_list_ex allow ts)"
  unfolding parse_param_list_ex_def by (auto intro!: within_ploop param_turn)

lemma params_and_body_within: "length ts \<le> e \<Longrightarrow> within (length ts) e (params_and_body ts)"
  unfolding params_and_body_def parse_param_list_def
  by (intro within_bind [OF within_expect] within_bind [where ?n1.0 = "Suc (length (_ :: etoken list))"])
    (auto intro!: params_within parse_block_within)

lemma acl_turn: "turn_ok (length ts) (acl_body stale st ts)"
  unfolding acl_body_def Let_def
  by (auto intro!: turn_ok_bind [OF within_expect] dest: kind_nonempty)

lemma acl_block_within: "length ts \<le> e \<Longrightarrow> within (length ts) e (parse_kernel_acl_block stale ts)"
  unfolding parse_kernel_acl_block_def
  by (intro within_bind [OF within_expect] within_bind [OF within_ploop [OF acl_turn]])
    (auto intro!: within_bind [OF within_expect])

lemma attrs_turn: "turn_ok (length ts) (attrs_body a ts)"
  using parse_entry_attributes_within [of "tl ts" "length ts" a]
  by (auto simp: attrs_body_def elim: within_mono)

lemma decls_within:
  assumes "length ts \<le> e"
  shows "within (length ts) e (parse_declare ts)" and "within (length ts) e (parse_struct ts)"
    and "within (length ts) e (parse_type_decl ts)" and "within (length ts) e (parse_kernel a ts)"
    and "within (length ts) e (parse_worker a ts)" and "within (length ts) e (parse_function ts)"
    and "within (length ts) e (parse_at_entry ts)"
proof -
  note e = within_bind [OF within_expect]
  note pb = within_mono [OF params_and_body_within]
  show "within (length ts) e (parse_declare ts)" "within (length ts) e (parse_struct ts)"
    using assms unfolding parse_declare_def parse_struct_def Let_def
    by (auto intro!: e split: option.split)
  show "within (length ts) e (parse_type_decl ts)" "within (length ts) e (parse_kernel a ts)"
    "within (length ts) e (parse_worker a ts)" "within (length ts) e (parse_at_entry ts)"
    using assms unfolding parse_type_decl_def parse_kernel_def parse_worker_def parse_at_entry_def
    by (auto intro!: e pb)
  show "within (length ts) e (parse_function ts)"
    using assms unfolding parse_function_def
    by (intro good_bind [OF parse_type_good order_refl] e within_bind [OF params_within])
      (auto intro!: parse_block_within)
qed

lemma parse_acl_turn: "length ts < n \<Longrightarrow> turn_ok n (parse_acl st ts)"
  unfolding parse_acl_def
  by (auto intro!: turn_ok_bind [OF acl_block_within] split: option.split)

lemma top_decl_turn:
  assumes r: "length r < Suc n"
  shows "turn_ok n (top_decl st a r)"
proof -
  have w: "within n n res" if "within (length (tl r)) n res" for res :: "'a pres"
    using that r by (auto elim: within_mono)
  have l: "length (tl r) \<le> n" using r by simp
  have acl: "turn_ok n (parse_acl st (tl r))" if "kind_at r = E_TOK_KW_ACL"
    using kind_nonempty [OF that] r by (intro parse_acl_turn) (cases r; auto)
  show ?thesis
    using l r acl w [OF parse_dynamic_within [OF l]] decls_within [OF l, THEN w]
    by (simp add: top_decl_def Let_def)
qed

lemma top_turn: "turn_ok (length ts) (top_body st ts)"
  by (auto simp: top_body_def intro!: turn_ok_bind [OF within_ploop [OF attrs_turn]] top_decl_turn)

text \<open>C34: The parser of the E language returns on every list of tokens, with a program, a message or
  the undefined use of a stale kernel: its loops and its unbounded nesting never use up a fuel of one
  turn for each token.\<close>

theorem e_parse_program_total: "e_parse_program ts \<noteq> PrFuel"
proof -
  have "within (Suc (length ts)) (length ts) (ploop top_body \<lparr>pg_items = [], pg_cur = None, pg_ub = False\<rparr> ts)"
    by (rule within_ploop) (simp_all add: top_turn)
  then show ?thesis by (auto simp: e_parse_program_def split: pres.split)
qed

end
