(* ===== verification/ELexProps.thy ===== *)
theory ELexProps
  imports ELexer
begin

text \<open>
  Texts that lex to given tokens: a word is the kind and the text of a token, and a list of words spelled
  with a blank behind each is lexed back to the same words.
\<close>

type_synonym eword = "etoken_kind \<times> string"

definition word_of :: "etoken \<Rightarrow> eword" where
  "word_of t = (tk_kind t, tk_text t)"

section \<open>Words that can be spelled\<close>

definition ok_name :: "string \<Rightarrow> bool" where
  "ok_name t \<longleftrightarrow> t \<noteq> [] \<and> ident_start (hd t) \<and> list_all ident_char t \<and> t \<noteq> ''EPA''"

definition ok_ident :: "string \<Rightarrow> bool" where
  "ok_ident t \<longleftrightarrow> ok_name t \<and> kw_kind t = E_TOK_IDENT"

text \<open>The braces of a raw block are balanced.\<close>

fun balanced :: "nat \<Rightarrow> string \<Rightarrow> bool" where
  "balanced d [] \<longleftrightarrow> d = 1"
| "balanced d (c # cs) \<longleftrightarrow>
     (if c = CHR ''{'' then balanced (d + 1) cs
      else if c = CHR ''}'' then 1 < d \<and> balanced (d - 1) cs else balanced d cs)"

definition ok_string :: "string \<Rightarrow> bool" where
  "ok_string s \<longleftrightarrow> s \<noteq> [] \<and> hd s = quote \<and> string_body (tl s) = Some (tl s, [])"

definition op_words :: "eword list" where
  "op_words = [(E_TOK_EQEQ, ''==''), (E_TOK_NEQ, ''!=''), (E_TOK_LTE, ''<=''), (E_TOK_GTE, ''>='')]
     @ map (\<lambda>(c, k). (k, [c])) punct_table"

fun ok_word :: "eword \<Rightarrow> bool" where
  "ok_word (k, t) \<longleftrightarrow>
     (k = E_TOK_IDENT \<and> ok_ident t) \<or> (t, k) \<in> set kw_table
     \<or> (k = E_TOK_INT_LIT \<and> t \<noteq> [] \<and> list_all c_isdigit t)
     \<or> (k = E_TOK_STRING_LIT \<and> ok_string t) \<or> (k = E_TOK_RAW_EPA \<and> balanced 1 t) \<or> (k, t) \<in> set op_words"

fun spell :: "eword \<Rightarrow> string" where
  "spell (k, t) = (if k = E_TOK_RAW_EPA then ''EPA{'' @ t @ ''}'' else t)"

definition source_of :: "eword list \<Rightarrow> string" where
  "source_of ws = concat (map (\<lambda>w. spell w @ '' '') ws)"

section \<open>Single words\<close>

lemma char_classes:
  "ident_start c \<Longrightarrow> \<not> is_blank c \<and> c \<noteq> newline \<and> c \<noteq> CHR ''/'' \<and> \<not> c_isdigit c \<and> c \<noteq> quote"
  "c_isdigit c \<Longrightarrow> \<not> is_blank c \<and> c \<noteq> newline \<and> c \<noteq> CHR ''/'' \<and> \<not> ident_start c \<and> c \<noteq> CHR ''E''"
  "ident_start c \<Longrightarrow> ident_char c"
  by (auto simp: ident_start_def ident_char_def c_isalpha_def c_isdigit_def is_blank_def Let_def)

lemma blank_char [simp]: "\<not> ident_char (CHR '' '')" "\<not> c_isdigit (CHR '' '')" "\<not> ident_start (CHR '' '')"
  by (auto simp: ident_start_def ident_char_def c_isalpha_def c_isdigit_def Let_def)

lemma takeWhile_word: "list_all P t \<Longrightarrow> \<not> P c \<Longrightarrow> takeWhile P (t @ c # r) = t \<and> dropWhile P (t @ c # r) = c # r"
  by (induction t) auto

lemma lex_raw_other: "hd s \<noteq> CHR ''E'' \<Longrightarrow> lex_raw line col s = None"
  by (cases s) (auto simp: lex_raw_def)

lemma lex_raw_name:
  assumes "ok_name t"
  shows "lex_raw line col (t @ CHR '' '' # r) = None"
proof (rule ccontr)
  let ?s = "t @ CHR '' '' # r"
  assume "\<not> ?thesis"
  then have "take 3 ?s = ''EPA'' \<and> \<not> (drop 3 ?s \<noteq> [] \<and> ident_char (?s ! 3))"
    unfolding lex_raw_def by (metis (no_types, lifting))
  then have e: "take 3 ?s = ''EPA''" and n: "3 < length ?s \<Longrightarrow> \<not> ident_char (?s ! 3)" by auto
  have c: "?s ! i = ''EPA'' ! i" if "i < 3" for i
    using that e by (metis nth_take)
  have len: "3 \<le> length t"
  proof (rule ccontr)
    assume "\<not> 3 \<le> length t"
    then have lt: "length t < 3" by simp
    from c [OF this] have "''EPA'' ! length t = CHR '' ''" by simp
    moreover have "length t = 0 \<or> length t = 1 \<or> length t = 2" using lt by arith
    ultimately show False by auto
  qed
  have "3 < length t"
  proof (rule ccontr)
    assume "\<not> 3 < length t"
    with len have "length t = 3" by simp
    then have "t = ''EPA''" using e by simp
    with assms show False by (simp add: ok_name_def)
  qed
  then have "?s ! 3 = t ! 3" "t ! 3 \<in> set t" "3 < length ?s" by (simp_all add: nth_append)
  with n [OF this(3)] assms show False by (auto simp: ok_name_def list_all_iff)
qed

lemma lex_name:
  assumes "ok_name t"
  shows "lex_step line col (t @ CHR '' '' # r)
    = LexTok (mk_tok (kw_kind t) t line col) line (col + length t) (CHR '' '' # r)"
proof -
  have h: "hd (t @ CHR '' '' # r) = hd t" "t \<noteq> []" "ident_start (hd t)" using assms by (auto simp: ok_name_def)
  have "\<not> at_comment (t @ CHR '' '' # r)" using h char_classes(1) [OF h(3)] by (cases t) (auto simp: at_comment_def)
  with h char_classes(1) [OF h(3)] lex_raw_name [OF assms] takeWhile_word [of ident_char t] assms
  show ?thesis by (simp add: lex_step_def Let_def ok_name_def)
qed

lemma lex_digits:
  assumes "t \<noteq> []" and "list_all c_isdigit t"
  shows "lex_step line col (t @ CHR '' '' # r)
    = LexTok (mk_tok E_TOK_INT_LIT t line col) line (col + length t) (CHR '' '' # r)"
proof -
  have h: "hd (t @ CHR '' '' # r) = hd t" "c_isdigit (hd t)" using assms by (cases t; auto)+
  have "\<not> at_comment (t @ CHR '' '' # r)" using assms char_classes(2) [OF h(2)] by (cases t) (auto simp: at_comment_def)
  moreover have "lex_raw line col (t @ CHR '' '' # r) = None" using h char_classes(2) [OF h(2)] by (intro lex_raw_other) simp
  ultimately show ?thesis
    using h char_classes(2) [OF h(2)] takeWhile_word [of c_isdigit t] assms by (simp add: lex_step_def Let_def)
qed

lemma string_body_append: "string_body s = Some (t, r) \<Longrightarrow> string_body (s @ x) = Some (t, r @ x)"
proof (induction s arbitrary: t rule: string_body.induct)
  case (2 c cs)
  consider "c = quote" | "c \<noteq> quote" "c = backslash" "cs \<noteq> []" | "c \<noteq> quote" "\<not> (c = backslash \<and> cs \<noteq> [])" by blast
  then show ?case
  proof cases
    case 1
    with "2.prems" show ?thesis by auto
  next
    case 2
    with "2.prems" obtain u where "string_body (tl cs) = Some (u, r)" "t = c # hd cs # u" by auto
    with "2.IH"(1) 2 show ?thesis by auto
  next
    case 3
    with "2.prems" obtain u where u: "c \<noteq> newline" "string_body cs = Some (u, r)" "t = c # u"
      by (auto split: if_splits)
    then have "cs \<noteq> []" by auto
    with "2.IH"(2) 3 u show ?thesis by auto
  qed
qed simp

lemma lex_string:
  assumes "ok_string t"
  shows "lex_step line col (t @ CHR '' '' # r)
    = LexTok (mk_tok E_TOK_STRING_LIT t line col) line (col + length t) (CHR '' '' # r)"
proof -
  obtain b where t: "t = quote # b" "string_body b = Some (b, [])"
    using assms by (cases t) (auto simp: ok_string_def)
  have q: "\<not> is_blank quote" "\<not> ident_start quote" "\<not> c_isdigit quote"
    by (simp_all add: is_blank_def ident_start_def c_isalpha_def c_isdigit_def Let_def)
  have "lex_raw line col (quote # b @ CHR '' '' # r) = None" by (rule lex_raw_other) simp
  with q t(1) string_body_append [OF t(2), of "CHR '' '' # r"] show ?thesis
    by (simp add: lex_step_def Let_def at_comment_def)
qed

lemma balanced_raw_body:
  "balanced d t \<Longrightarrow> 0 < d \<Longrightarrow> \<exists>l c. raw_body d line col (t @ CHR ''}'' # r) = Some (t, l, c, CHR ''}'' # r)"
  by (induction d t arbitrary: line col rule: balanced.induct) (auto split: if_splits)

lemma lex_raw_block:
  assumes "balanced 1 t"
  shows "\<exists>tok l c. lex_step line col (''EPA{'' @ t @ ''}'' @ CHR '' '' # r) = LexTok tok l c (CHR '' '' # r)
    \<and> word_of tok = (E_TOK_RAW_EPA, t)"
proof -
  have g: "epa_gap l c (CHR ''{'' # x) = (l, c, CHR ''{'' # x)" for l c x
    by (simp add: epa_gap.simps is_blank_def at_comment_def)
  obtain l c where b: "raw_body 1 line (col + 4) (t @ CHR ''}'' # CHR '' '' # r) = Some (t, l, c, CHR ''}'' # CHR '' '' # r)"
    using balanced_raw_body [OF assms, of line "col + 4" "CHR '' '' # r"] by auto
  have n: "\<not> ident_char (CHR ''{'')" by (simp add: ident_char_def c_isalpha_def c_isdigit_def Let_def)
  have "lex_raw line col (''EPA{'' @ t @ ''}'' @ CHR '' '' # r)
      = Some (LexTok (mk_tok E_TOK_RAW_EPA t line (col + 3)) l (c + 1) (CHR '' '' # r))"
    using n b by (simp add: lex_raw_def g numeral_3_eq_3 numeral_eq_Suc)
  then show ?thesis by (simp add: lex_step_def Let_def is_blank_def at_comment_def word_of_def mk_tok_def)
qed

section \<open>Operators and punctuation\<close>

text \<open>A one-character word is followed by a blank, which no longer operator contains.\<close>

lemma lex_op:
  assumes "(k, t) \<in> set op_words"
  shows "\<exists>tok l c. lex_step line col (t @ CHR '' '' # r) = LexTok tok l c (CHR '' '' # r) \<and> word_of tok = (k, t)"
proof -
  have "list_all (\<lambda>(k, t). \<exists>tok l c. lex_step line col (t @ CHR '' '' # r) = LexTok tok l c (CHR '' '' # r)
      \<and> word_of tok = (k, t)) op_words"
    by (simp add: op_words_def punct_table_def lex_step_def is_blank_def at_comment_def lex_raw_def ident_start_def
        c_isalpha_def c_isdigit_def op2_kind_def punct_kind_def word_of_def mk_tok_def Let_def numeral_2_eq_2)
  with assms show ?thesis by (auto simp: list_all_iff)
qed

lemma kw_table_names: "(t, k) \<in> set kw_table \<Longrightarrow> ok_name t \<and> kw_kind t = k"
proof -
  have "list_all (\<lambda>(t, k). ok_name t \<and> kw_kind t = k) kw_table" by code_simp
  then show "(t, k) \<in> set kw_table \<Longrightarrow> ok_name t \<and> kw_kind t = k" by (auto simp: list_all_iff)
qed

lemma lex_word:
  assumes "ok_word w"
  shows "\<exists>tok l c. lex_step line col (spell w @ CHR '' '' # r) = LexTok tok l c (CHR '' '' # r) \<and> word_of tok = w"
proof -
  obtain k t where w: "w = (k, t)" by (cases w)
  have raw: "(k, t) \<in> set op_words \<Longrightarrow> k \<noteq> E_TOK_RAW_EPA" "(t, k) \<in> set kw_table \<Longrightarrow> k \<noteq> E_TOK_RAW_EPA"
    by (auto simp: op_words_def punct_table_def kw_table_def)
  from assms w consider "k = E_TOK_IDENT" "ok_ident t" | "(t, k) \<in> set kw_table"
    | "k = E_TOK_INT_LIT" "t \<noteq> []" "list_all c_isdigit t" | "k = E_TOK_STRING_LIT" "ok_string t"
    | "k = E_TOK_RAW_EPA" "balanced 1 t" | "(k, t) \<in> set op_words" by auto
  then show ?thesis
  proof cases
    case 1
    then show ?thesis using lex_name [of t] w by (auto simp: ok_ident_def word_of_def mk_tok_def)
  next
    case 2
    then show ?thesis using lex_name kw_table_names [OF 2] raw(2) w by (auto simp: word_of_def mk_tok_def)
  next
    case 3
    then show ?thesis using lex_digits [of t] w by (auto simp: word_of_def mk_tok_def)
  next
    case 4
    then show ?thesis using lex_string [of t] w by (auto simp: word_of_def mk_tok_def)
  next
    case 5
    then show ?thesis using lex_raw_block [of t line col r] w by auto
  next
    case 6
    then show ?thesis using lex_op [OF 6] raw(1) w by auto
  qed
qed

section \<open>Texts\<close>

lemma spell_nonempty: "ok_word w \<Longrightarrow> spell w @ r \<noteq> []"
  using lex_word [of w 0 0 "[]"] 
  by (cases w) (auto simp: ok_name_def ok_ident_def ok_string_def op_words_def punct_table_def kw_table_def)

lemma e_lex_blank: "e_lex line col (CHR '' '' # s) = e_lex line (col + 1) s"
  by (subst e_lex.simps) (simp add: lex_step_def is_blank_def)

lemma e_lex_source_of:
  "list_all ok_word ws \<Longrightarrow> \<exists>ts l c. e_lex line col (source_of ws) = Inr (ts @ [eof_tok l c]) \<and> map word_of ts = ws"
proof (induction ws arbitrary: line col)
  case Nil
  then show ?case by (subst e_lex.simps) (auto simp: source_of_def)
next
  case (Cons w ws)
  obtain tok l c where t: "lex_step line col (spell w @ CHR '' '' # source_of ws) = LexTok tok l c (CHR '' '' # source_of ws)"
      "word_of tok = w"
    using lex_word [of w line col "source_of ws"] Cons.prems by auto
  obtain ts l' c' where ts: "e_lex l (c + 1) (source_of ws) = Inr (ts @ [eof_tok l' c'])" "map word_of ts = ws"
    using Cons.IH [of l "c + 1"] Cons.prems by auto
  have s: "source_of (w # ws) = spell w @ CHR '' '' # source_of ws" by (simp add: source_of_def)
  have "e_lex line col (source_of (w # ws)) = Inr (tok # ts @ [eof_tok l' c'])"
    unfolding s using t ts spell_nonempty [of w] Cons.prems
    by (subst e_lex.simps) (simp add: e_lex_blank)
  with t ts show ?case by (intro exI [of _ "tok # ts"]) auto
qed

end
