(* ===== verification/EPrint.thy ===== *)
theory EPrint
  imports EParseTotal ELexProps
begin

text \<open>
  Printing of syntax trees, as words, with parentheses only where the grammar needs them, and the
  proof that the parser reads the words of an expression back.
\<close>

section \<open>Printing expressions\<close>

fun bin_word :: "ebinop \<Rightarrow> eword" where
  "bin_word E_BIN_ADD = (E_TOK_PLUS, ''+'')" | "bin_word E_BIN_SUB = (E_TOK_MINUS, ''-'')"
| "bin_word E_BIN_MUL = (E_TOK_STAR, ''*'')" | "bin_word E_BIN_DIV = (E_TOK_SLASH, ''/'')"
| "bin_word E_BIN_MOD = (E_TOK_PERCENT, ''%'')" | "bin_word E_BIN_EQ = (E_TOK_EQEQ, ''=='')"
| "bin_word E_BIN_NE = (E_TOK_NEQ, ''!='')" | "bin_word E_BIN_LT = (E_TOK_LT, ''<'')"
| "bin_word E_BIN_LE = (E_TOK_LTE, ''<='')" | "bin_word E_BIN_GT = (E_TOK_GT, ''>'')"
| "bin_word E_BIN_GE = (E_TOK_GTE, ''>='')"

fun un_word :: "eunop \<Rightarrow> eword" where
  "un_word E_UN_PLUS = (E_TOK_PLUS, ''+'')" | "un_word E_UN_MINUS = (E_TOK_MINUS, ''-'')"
| "un_word E_UN_BITNOT = (E_TOK_TILDE, ''~'')"

text \<open>How tightly an operator binds, from assignment (1) to primary expressions (7).\<close>

fun bin_lev :: "ebinop \<Rightarrow> nat" where
  "bin_lev E_BIN_EQ = 2" | "bin_lev E_BIN_NE = 2"
| "bin_lev E_BIN_LT = 3" | "bin_lev E_BIN_LE = 3" | "bin_lev E_BIN_GT = 3" | "bin_lev E_BIN_GE = 3"
| "bin_lev E_BIN_ADD = 4" | "bin_lev E_BIN_SUB = 4"
| "bin_lev E_BIN_MUL = 5" | "bin_lev E_BIN_DIV = 5" | "bin_lev E_BIN_MOD = 5"

fun elev :: "eexpr \<Rightarrow> nat" where
  "elev (EAssign l r) = 1" | "elev (EBinary b l r) = bin_lev b" | "elev (EUnary u e) = 6" | "elev e = 7"

definition paren :: "nat \<Rightarrow> eexpr \<Rightarrow> eword list \<Rightarrow> eword list" where
  "paren l e ws = (if elev e < l then (E_TOK_LPAREN, ''('') # ws @ [(E_TOK_RPAREN, '')'')] else ws)"

fun commas :: "eword list list \<Rightarrow> eword list" where
  "commas [] = []"
| "commas [ws] = ws"
| "commas (ws # wss) = ws @ (E_TOK_COMMA, '','') # commas wss"

fun pr_expr :: "eexpr \<Rightarrow> eword list" where
  "pr_expr (EIdent n) = [(E_TOK_IDENT, n)]"
| "pr_expr (EInt i) = [(E_TOK_INT_LIT, dec_int i)]"
| "pr_expr (EString s) = [(E_TOK_STRING_LIT, s)]"
| "pr_expr (EBinary b l r) = paren (bin_lev b) l (pr_expr l) @ bin_word b # paren (bin_lev b + 1) r (pr_expr r)"
| "pr_expr (EUnary u e) = un_word u # paren 6 e (pr_expr e)"
| "pr_expr (EAssign l r) = paren 2 l (pr_expr l) @ (E_TOK_ASSIGN, ''='') # pr_expr r"
| "pr_expr (ECall f args) = (E_TOK_IDENT, f) # (E_TOK_LPAREN, ''('') # commas (map pr_expr args) @ [(E_TOK_RPAREN, '')'')]"
| "pr_expr (EField b f) = pr_expr b @ [(E_TOK_DOT, ''.''), (E_TOK_IDENT, f)]"
| "pr_expr (EIndex b i) = pr_expr b @ (E_TOK_LBRACKET, ''['') # pr_expr i @ [(E_TOK_RBRACKET, '']'')]"
| "pr_expr (ESlice b s e) = pr_expr b @ (E_TOK_LBRACKET, ''['')
     # (case s of None \<Rightarrow> [] | Some x \<Rightarrow> pr_expr x) @ (E_TOK_COLON, '':'')
     # (case e of None \<Rightarrow> [] | Some x \<Rightarrow> pr_expr x) @ [(E_TOK_RBRACKET, '']'')]"

text \<open>The trees the grammar has a text for: fields, indices and slices are taken of names and calls
  and what is built from them, and integers are literals.\<close>

fun postfix_base :: "eexpr \<Rightarrow> bool" where
  "postfix_base (EIdent n) \<longleftrightarrow> True" | "postfix_base (ECall f args) \<longleftrightarrow> True" | "postfix_base (EField b f) \<longleftrightarrow> True"
| "postfix_base (EIndex b i) \<longleftrightarrow> True" | "postfix_base (ESlice b s e) \<longleftrightarrow> True" | "postfix_base e \<longleftrightarrow> False"

fun ok_expr :: "eexpr \<Rightarrow> bool" where
  "ok_expr (EIdent n) \<longleftrightarrow> ok_ident n"
| "ok_expr (EInt i) \<longleftrightarrow> 0 \<le> i \<and> i < 2 ^ 63"
| "ok_expr (EString s) \<longleftrightarrow> ok_string s"
| "ok_expr (EBinary b l r) \<longleftrightarrow> ok_expr l \<and> ok_expr r"
| "ok_expr (EUnary u e) \<longleftrightarrow> ok_expr e"
| "ok_expr (EAssign l r) \<longleftrightarrow> ok_expr l \<and> ok_expr r"
| "ok_expr (ECall f args) \<longleftrightarrow> ok_ident f \<and> list_all ok_expr args"
| "ok_expr (EField b f) \<longleftrightarrow> postfix_base b \<and> ok_expr b \<and> ok_ident f"
| "ok_expr (EIndex b i) \<longleftrightarrow> postfix_base b \<and> ok_expr b \<and> ok_expr i"
| "ok_expr (ESlice b s e) \<longleftrightarrow> postfix_base b \<and> ok_expr b
     \<and> (case s of None \<Rightarrow> True | Some x \<Rightarrow> ok_expr x) \<and> (case e of None \<Rightarrow> True | Some x \<Rightarrow> ok_expr x)"

section \<open>Decimal literals\<close>

lemma digit_val_char: "d < 10 \<Longrightarrow> digit_val (char_of (48 + d)) = Some d \<and> c_isdigit (char_of (48 + d))"
  by (simp add: digit_val_def c_isdigit_def Let_def of_char_of)

lemma dec_nat_digits: "dec_nat n \<noteq> [] \<and> list_all c_isdigit (dec_nat n)"
proof (induction n rule: dec_nat.induct)
  case (1 n)
  then show ?case by (subst (1 2) dec_nat.simps) (auto simp: digit_val_char)
qed

lemma scan_dec_nat: "scan_digits 10 v (dec_nat n @ s) = scan_digits 10 (v * 10 ^ length (dec_nat n) + int n) s"
proof (induction n arbitrary: v s rule: dec_nat.induct)
  case (1 n)
  show ?case
  proof (cases "n < 10")
    case True
    then show ?thesis by (simp add: dec_nat.simps digit_val_char)
  next
    case False
    have d: "dec_nat n = dec_nat (n div 10) @ [char_of (48 + n mod 10)]" using False by (subst dec_nat.simps) simp
    have i: "int n = int (n div 10) * 10 + int (n mod 10)" by (metis div_mult_mod_eq of_nat_add of_nat_mult of_nat_numeral)
    have "scan_digits 10 v (dec_nat n @ s)
        = scan_digits 10 ((v * 10 ^ length (dec_nat (n div 10)) + int (n div 10)) * 10 + int (n mod 10)) s"
      using "1" False by (simp add: d digit_val_char)
    also have "(v * 10 ^ length (dec_nat (n div 10)) + int (n div 10)) * 10 + int (n mod 10)
        = v * 10 ^ length (dec_nat n) + int n"
      unfolding d using i by (simp add: algebra_simps)
    finally show ?thesis .
  qed
qed

lemma scan_integer_dec: "scan_integer 10 (dec_nat n) = Some (False, int n, [])"
proof -
  obtain c cs where d: "dec_nat n = c # cs" "c_isdigit c" using dec_nat_digits [of n] by (cases "dec_nat n") auto
  have c: "\<not> c_isspace c" "c \<noteq> CHR ''-''" "c \<noteq> CHR ''+''" "starts_digit 10 (c # cs)"
    using d(2) by (auto simp: c_isdigit_def c_isspace_def starts_digit_def digit_val_def Let_def)
  have l: "ltrim (c # cs) = c # cs" using c(1) by (simp add: ltrim_def)
  have s: "scan_digits 10 0 (dec_nat n) = (int n, [])" using scan_dec_nat [of 0 n "[]"] by simp
  show ?thesis
    unfolding scan_integer_def Let_def d(1) l
    using c s by (simp add: scan_unsigned_def Let_def d(1))
qed

lemma tok_u32_dec: "tok_u32 (dec_u32 u) = u"
proof -
  have "uint u < 2 ^ 64" using uint_lt2p [of u] by simp
  moreover have "ucast (ucast u :: 64 word) = u" by (rule bit_word_eqI) (simp add: bit_simps)
  ultimately show ?thesis by (simp add: tok_u32_def dec_u32_def c_strtoul_def scan_integer_dec)
qed

lemma tok_int_dec: "0 \<le> i \<Longrightarrow> i < 2 ^ 63 \<Longrightarrow> tok_int (dec_int i) = i"
  by (simp add: tok_int_def dec_int_def c_strtol_def scan_integer_dec)

section \<open>Levels of the grammar\<close>

definition lev_op :: "nat \<Rightarrow> etoken_kind \<Rightarrow> ebinop option" where
  "lev_op l = (if l = 2 then eq_op else if l = 3 then rel_op else if l = 4 then add_op else mul_op)"

definition parse_lev :: "eexpr parser \<Rightarrow> nat \<Rightarrow> eexpr parser" where
  "parse_lev p l = (if l = 1 then parse_assign p else if l = 2 then parse_eq p else if l = 3 then parse_rel p
     else if l = 4 then parse_add p else if l = 5 then parse_mul p else if l = 6 then parse_unary p else parse_primary p)"

lemma parse_lev_bin: "2 \<le> l \<Longrightarrow> l \<le> 5 \<Longrightarrow> parse_lev p l = bin_level (lev_op l) (parse_lev p (Suc l))"
  by (auto simp: parse_lev_def lev_op_def parse_eq_def parse_rel_def parse_add_def parse_mul_def)

text \<open>The level at which a token goes on with an expression.\<close>

definition cont_lev :: "etoken_kind \<Rightarrow> nat" where
  "cont_lev k = (if k = E_TOK_ASSIGN then 1 else if eq_op k \<noteq> None then 2 else if rel_op k \<noteq> None then 3
     else if add_op k \<noteq> None then 4 else if mul_op k \<noteq> None then 5
     else if k \<in> {E_TOK_DOT, E_TOK_LBRACKET, E_TOK_LPAREN} then 7 else 0)"

lemma lev_op_cont: "2 \<le> l \<Longrightarrow> l \<le> 5 \<Longrightarrow> lev_op l k = Some b \<Longrightarrow> cont_lev k = l"
  by (auto simp: lev_op_def cont_lev_def eq_op_def rel_op_def add_op_def mul_op_def split: if_splits)

lemma lev_op_none: "2 \<le> l \<Longrightarrow> l \<le> 5 \<Longrightarrow> cont_lev k < l \<Longrightarrow> lev_op l k = None"
  using lev_op_cont [of l k] by fastforce

lemma bin_word_op: "lev_op (bin_lev b) (fst (bin_word b)) = Some b" "2 \<le> bin_lev b" "bin_lev b \<le> 5"
  by (cases b; simp add: lev_op_def eq_op_def rel_op_def add_op_def mul_op_def)+

lemma parse_expr_n_good: "0 < n \<Longrightarrow> good_upto (n - 1) (parse_expr_n n)"
  using expr_n_good [of "n - 1"] by simp

lemma parse_lev_good: "2 \<le> l \<Longrightarrow> good_upto n p \<Longrightarrow> good_upto (Suc n) (parse_lev p l)"
  by (simp add: parse_lev_def eq_good rel_good add_good mul_good unary_good primary_good)

section \<open>Reading back\<close>

text \<open>The tokens \<open>us\<close> read as \<open>e\<close> at level \<open>l\<close>, whatever does not go on with them follows;
  and, up to the loop of their own level, even if it does. The fuel is that of any call the parser makes.\<close>

definition expr_start :: "etoken_kind set" where
  "expr_start = {E_TOK_IDENT, E_TOK_INT_LIT, E_TOK_STRING_LIT, E_TOK_LPAREN, E_TOK_PLUS, E_TOK_MINUS, E_TOK_TILDE}"

definition opens :: "etoken list \<Rightarrow> bool" where
  "opens us \<longleftrightarrow> us \<noteq> [] \<and> kind_at us \<in> expr_start"

lemma opens_append: "opens us \<Longrightarrow> opens (us @ vs)"
  by (cases us) (simp_all add: opens_def peek_def)

definition reads :: "nat \<Rightarrow> etoken list \<Rightarrow> eexpr \<Rightarrow> bool" where
  "reads l us e \<longleftrightarrow> opens us \<and> (\<forall>n rest. length (us @ rest) \<le> n \<longrightarrow> cont_lev (kind_at rest) < l \<longrightarrow>
     parse_lev (parse_expr_n n) l (us @ rest) = POk e rest)"

definition enters :: "nat \<Rightarrow> etoken list \<Rightarrow> eexpr \<Rightarrow> bool" where
  "enters l us e \<longleftrightarrow> opens us \<and> (\<forall>n rest. length (us @ rest) \<le> n \<longrightarrow> cont_lev (kind_at rest) \<le> l \<longrightarrow>
     parse_lev (parse_expr_n n) l (us @ rest)
       = ploop (bin_body (lev_op l) (parse_lev (parse_expr_n n) (Suc l))) e rest)"

lemma reads_enters:
  assumes "reads (Suc l) us e" and "2 \<le> l" and "l \<le> 5"
  shows "enters l us e"
  unfolding enters_def
proof (intro conjI allI impI)
  show o: "opens us" using assms by (simp add: reads_def)
  then have "us \<noteq> []" by (simp add: opens_def)
  fix n rest assume "length (us @ rest) \<le> n" "cont_lev (kind_at rest) \<le> l"
  then have "parse_lev (parse_expr_n n) (Suc l) (us @ rest) = POk e rest"
    using assms(1) by (simp add: reads_def)
  then show "parse_lev (parse_expr_n n) l (us @ rest)
      = ploop (bin_body (lev_op l) (parse_lev (parse_expr_n n) (Suc l))) e rest"
    by (simp add: parse_lev_bin [OF assms(2,3)] bin_level_def)
qed

text \<open>The loop of a level, unfolded once.\<close>

lemma bin_loop:
  assumes "2 \<le> l" and "l \<le> 5" and "length ts < n"
  shows "ploop (bin_body (lev_op l) (parse_lev (parse_expr_n n) (Suc l))) e ts
    = (case lev_op l (kind_at ts) of None \<Rightarrow> POk e ts
       | Some b \<Rightarrow> pbind (parse_lev (parse_expr_n n) (Suc l) (tl ts))
           (\<lambda>r. ploop (bin_body (lev_op l) (parse_lev (parse_expr_n n) (Suc l))) (EBinary b e r)))"
proof -
  have g: "good_upto (length ts) (parse_lev (parse_expr_n n) (Suc l))"
    using parse_lev_good [of "Suc l" "n - 1" "parse_expr_n n"] parse_expr_n_good [of n] assms
    by (auto elim: good_upto_le)
  have "lev_op l E_TOK_EOF = None" by (simp add: lev_op_def)
  then have t: "turn_ok (length ts') (bin_body (lev_op l) (parse_lev (parse_expr_n n) (Suc l)) s ts')"
    if "length ts' \<le> length ts" for s ts'
    using bin_turn [OF g that] by blast
  have m: "pbind (pmap f res) (\<lambda>(s', again) r. if again then h s' r else POk s' r) = pbind res (\<lambda>x r. h (g x) r)"
    if "f = (\<lambda>x. (g x, True))" for f :: "eexpr \<Rightarrow> eexpr \<times> bool" and g :: "eexpr \<Rightarrow> eexpr" and h and res
    using that by (cases res) auto
  show ?thesis
    by (subst ploop_unfold [OF t]) (simp_all add: bin_body_def m [OF refl] split: option.split)
qed

lemma enters_reads:
  assumes "enters l us e" and "2 \<le> l" and "l \<le> 5"
  shows "reads l us e"
  unfolding reads_def
proof (intro conjI allI impI)
  show o: "opens us" using assms by (simp add: enters_def)
  then have "us \<noteq> []" by (simp add: opens_def)
  fix n rest assume a: "length (us @ rest) \<le> n" "cont_lev (kind_at rest) < l"
  have "length rest < n" using a \<open>us \<noteq> []\<close> by (cases us) auto
  with a assms lev_op_none [OF assms(2,3) a(2)] show "parse_lev (parse_expr_n n) l (us @ rest) = POk e rest"
    by (simp add: enters_def bin_loop)
qed

lemma enters_bin:
  assumes x: "enters l us x" and y: "reads (Suc l) vs y" and l: "2 \<le> l" "l \<le> 5" and b: "lev_op l (tk_kind t) = Some b"
  shows "enters l (us @ t # vs) (EBinary b x y)"
  unfolding enters_def
proof (intro conjI allI impI)
  fix n rest assume a: "length ((us @ t # vs) @ rest) \<le> n" "cont_lev (kind_at rest) \<le> l"
  have ne: "us \<noteq> []" using x by (simp add: enters_def opens_def)
  have "parse_lev (parse_expr_n n) l ((us @ t # vs) @ rest)
      = ploop (bin_body (lev_op l) (parse_lev (parse_expr_n n) (Suc l))) x (t # vs @ rest)"
    using x a lev_op_cont [OF l b] by (simp add: enters_def peek_def)
  also have "\<dots> = ploop (bin_body (lev_op l) (parse_lev (parse_expr_n n) (Suc l))) (EBinary b x y) rest"
    using a ne y b by (subst bin_loop [OF l]) (cases us; simp add: peek_def reads_def)+
  finally show "parse_lev (parse_expr_n n) l ((us @ t # vs) @ rest)
      = ploop (bin_body (lev_op l) (parse_lev (parse_expr_n n) (Suc l))) (EBinary b x y) rest" .
qed (use x in \<open>simp add: enters_def opens_append\<close>)

lemma cont_zero: "cont_lev k < 1 \<longleftrightarrow> cont_lev k = 0"
  by simp

lemma reads_assign_up:
  assumes "reads 2 us e"
  shows "reads 1 us e"
  unfolding reads_def
proof (intro conjI allI impI)
  show o: "opens us" using assms by (simp add: reads_def)
  then have "us \<noteq> []" by (simp add: opens_def)
  fix n rest assume a: "length (us @ rest) \<le> n" "cont_lev (kind_at rest) < 1"
  then have "parse_eq (parse_expr_n n) (us @ rest) = POk e rest"
    using assms by (simp add: reads_def parse_lev_def)
  moreover have "kind_at rest \<noteq> E_TOK_ASSIGN" using a(2) by (auto simp: cont_lev_def split: if_splits)
  ultimately show "parse_lev (parse_expr_n n) 1 (us @ rest) = POk e rest"
    by (simp add: parse_lev_def parse_assign_def)
qed

text \<open>A word that is no prefix operator stands at the front of a primary expression.\<close>

lemma reads_unary_up:
  assumes "reads 7 us e" and "un_op (kind_at us) = None"
  shows "reads 6 us e"
  unfolding reads_def
proof (intro conjI allI impI)
  show o: "opens us" using assms by (simp add: reads_def)
  then have "us \<noteq> []" by (simp add: opens_def)
  then obtain t vs where us: "us = t # vs" by (cases us) auto
  fix n rest assume "length (us @ rest) \<le> n" "cont_lev (kind_at rest) < 6"
  then show "parse_lev (parse_expr_n n) 6 (us @ rest) = POk e rest"
    using assms us by (simp add: reads_def parse_lev_def peek_def)
qed

lemma reads_down:
  assumes "reads l us e" and "m \<le> l" and "1 \<le> m" and "l \<le> 6"
  shows "reads m us e"
  using assms(2)
proof (induction rule: inc_induct)
  case base
  then show ?case by (rule assms(1))
next
  case (step k)
  show ?case
  proof (cases "k = 1")
    case True
    with step.IH reads_assign_up [of us e] show ?thesis by (simp add: numeral_2_eq_2)
  next
    case False
    with step.hyps assms have "2 \<le> k" "k \<le> 5" by auto
    with step.IH show ?thesis using reads_enters enters_reads by blast
  qed
qed

lemma reads_unary:
  assumes "reads 6 us e" and "un_op (tk_kind t) = Some u"
  shows "reads 6 (t # us) (EUnary u e)"
  unfolding reads_def
proof (intro conjI allI impI)
  fix n rest assume "length ((t # us) @ rest) \<le> n" "cont_lev (kind_at rest) < 6"
  then show "parse_lev (parse_expr_n n) 6 ((t # us) @ rest) = POk (EUnary u e) rest"
    using assms by (simp add: reads_def parse_lev_def)
qed (use assms(2) in \<open>auto simp: opens_def peek_def expr_start_def un_op_def split: if_splits\<close>)

text \<open>Where the parser calls itself for an expression.\<close>

lemma reads_expr:
  assumes "reads 1 us e" and "length (us @ rest) < n" and "cont_lev (kind_at rest) = 0"
  shows "parse_expr_n n (us @ rest) = POk e rest"
proof -
  obtain m where n: "n = Suc m" using assms(2) by (cases n) auto
  with assms show ?thesis by (simp add: reads_def parse_lev_def)
qed

lemma reads_assign:
  assumes x: "reads 2 us x" and y: "reads 1 vs y" and t: "tk_kind t = E_TOK_ASSIGN"
  shows "reads 1 (us @ t # vs) (EAssign x y)"
  unfolding reads_def
proof (intro conjI allI impI)
  fix n rest assume a: "length ((us @ t # vs) @ rest) \<le> n" "cont_lev (kind_at rest) < 1"
  have ne: "us \<noteq> []" using x by (simp add: reads_def opens_def)
  have "parse_eq (parse_expr_n n) (us @ t # vs @ rest) = POk x (t # vs @ rest)"
    using x a t by (simp add: reads_def parse_lev_def peek_def cont_lev_def)
  moreover have "parse_expr_n n (vs @ rest) = POk y rest"
    using a ne by (intro reads_expr [OF y]) (cases us; simp)+
  ultimately show "parse_lev (parse_expr_n n) 1 ((us @ t # vs) @ rest) = POk (EAssign x y) rest"
    using t by (simp add: parse_lev_def parse_assign_def peek_def)
qed (use x in \<open>simp add: reads_def opens_append\<close>)

section \<open>Primary expressions\<close>

lemma reads_literal:
  "tk_kind t = E_TOK_INT_LIT \<Longrightarrow> reads 7 [t] (EInt (tok_int (tk_text t)))"
  "tk_kind t = E_TOK_STRING_LIT \<Longrightarrow> reads 7 [t] (EString (tk_text t))"
  by (simp_all add: reads_def parse_lev_def parse_primary_def peek_def opens_def expr_start_def)

lemma reads_parens:
  assumes "reads 1 us e" and "tk_kind t = E_TOK_LPAREN" and "tk_kind u = E_TOK_RPAREN"
  shows "reads 7 (t # us @ [u]) e"
  unfolding reads_def
proof (intro conjI allI impI)
  fix n rest assume a: "length ((t # us @ [u]) @ rest) \<le> n"
  have "parse_expr_n n (us @ u # rest) = POk e (u # rest)"
    using a assms(3) by (intro reads_expr [OF assms(1)]) (simp_all add: peek_def cont_lev_def eq_op_def rel_op_def add_op_def mul_op_def)
  then show "parse_lev (parse_expr_n n) 7 ((t # us @ [u]) @ rest) = POk e rest"
    using assms(2,3) by (simp add: parse_lev_def parse_primary_def peek_def expect_def)
qed (use assms(2) in \<open>simp add: opens_def peek_def expr_start_def\<close>)

text \<open>The tokens of a name or call and its suffixes, up to the loop that reads more of them.\<close>

definition chains :: "etoken list \<Rightarrow> eexpr \<Rightarrow> bool" where
  "chains us e \<longleftrightarrow> opens us \<and> un_op (kind_at us) = None \<and> (\<forall>n rest. length (us @ rest) \<le> n \<longrightarrow> kind_at rest \<noteq> E_TOK_LPAREN \<longrightarrow>
     parse_primary (parse_expr_n n) (us @ rest) = ploop (postfix_body (parse_expr_n n)) e rest)"

lemma postfix_loop:
  assumes "length ts < n"
  shows "ploop (postfix_body (parse_expr_n n)) e ts = pbind (postfix_body (parse_expr_n n) e ts)
    (\<lambda>(s', again) r. if again then ploop (postfix_body (parse_expr_n n)) s' r else POk s' r)"
proof (rule ploop_unfold)
  fix s and ts' :: "etoken list" assume "length ts' \<le> length ts"
  with assms show "turn_ok (length ts') (postfix_body (parse_expr_n n) s ts')"
    by (intro postfix_turn [OF parse_expr_n_good]) auto
qed

lemma chains_reads:
  assumes "chains us e"
  shows "reads 7 us e"
  unfolding reads_def
proof (intro conjI allI impI)
  show o: "opens us" using assms by (simp add: chains_def)
  then have "us \<noteq> []" by (simp add: opens_def)
  fix n rest assume a: "length (us @ rest) \<le> n" "cont_lev (kind_at rest) < 7"
  then have k: "kind_at rest \<noteq> E_TOK_LPAREN" "kind_at rest \<noteq> E_TOK_DOT" "kind_at rest \<noteq> E_TOK_LBRACKET"
    by (auto simp: cont_lev_def eq_op_def rel_op_def add_op_def mul_op_def)
  have "length rest < n" using a \<open>us \<noteq> []\<close> by (cases us) auto
  with assms k a(1) show "parse_lev (parse_expr_n n) 7 (us @ rest) = POk e rest"
    by (simp add: chains_def parse_lev_def postfix_loop) (simp add: postfix_body_def)
qed

lemma chains_ident: "tk_kind t = E_TOK_IDENT \<Longrightarrow> chains [t] (EIdent (tk_text t))"
  by (simp add: chains_def parse_primary_def peek_def un_op_def opens_def expr_start_def)

text \<open>A suffix: one turn of the loop.\<close>

lemma chains_suffix:
  assumes c: "chains us b" and k: "tk_kind t = E_TOK_DOT \<or> tk_kind t = E_TOK_LBRACKET"
    and s: "\<And>n rest. length (t # vs @ rest) < n \<Longrightarrow> postfix_body (parse_expr_n n) b (t # vs @ rest) = POk (e, True) rest"
  shows "chains (us @ t # vs) e"
  unfolding chains_def
proof (intro conjI allI impI)
  have ne: "us \<noteq> []" using c by (simp add: chains_def opens_def)
  then show "un_op (kind_at (us @ t # vs)) = None" using c by (simp add: chains_def peek_def)
  fix n rest assume a: "length ((us @ t # vs) @ rest) \<le> n"
  have l: "length (t # vs @ rest) < n" using a ne by (cases us) auto
  have "parse_primary (parse_expr_n n) (us @ t # vs @ rest) = ploop (postfix_body (parse_expr_n n)) b (t # vs @ rest)"
    using c a k by (auto simp: chains_def peek_def)
  with s [OF l] l show "parse_primary (parse_expr_n n) ((us @ t # vs) @ rest) = ploop (postfix_body (parse_expr_n n)) e rest"
    by (simp add: postfix_loop)
qed (use c in \<open>simp add: chains_def opens_append\<close>)

lemma cont_kinds [simp]:
  "cont_lev E_TOK_RPAREN = 0" "cont_lev E_TOK_RBRACKET = 0" "cont_lev E_TOK_COMMA = 0" "cont_lev E_TOK_COLON = 0"
  "cont_lev E_TOK_SEMI = 0" "cont_lev E_TOK_EOF = 0"
  by (simp_all add: cont_lev_def eq_op_def rel_op_def add_op_def mul_op_def)

lemma peek_Cons [simp]: "peek (t # ts) = t"
  by (simp add: peek_def)

lemma opens_kind: "opens us \<Longrightarrow> kind_at (us @ r) \<in> expr_start"
  by (cases us) (simp_all add: opens_def)

lemma reads_opens: "reads l us e \<Longrightarrow> kind_at (us @ r) \<in> expr_start"
  by (rule opens_kind) (simp add: reads_def)

lemma chains_field:
  assumes "chains us b" and "tk_kind t = E_TOK_DOT" and "tk_kind f = E_TOK_IDENT"
  shows "chains (us @ [t, f]) (EField b (tk_text f))"
  using assms(2,3) by (intro chains_suffix [OF assms(1), where vs = "[f]"]) (simp_all add: postfix_body_def expect_def)

lemma chains_index:
  assumes c: "chains us b" and i: "reads 1 vs i" and t: "tk_kind t = E_TOK_LBRACKET" and u: "tk_kind u = E_TOK_RBRACKET"
  shows "chains (us @ t # vs @ [u]) (EIndex b i)"
proof (rule chains_suffix [OF c])
  fix n rest assume l: "length (t # (vs @ [u]) @ rest) < n"
  have "parse_expr_n n (vs @ u # rest) = POk i (u # rest)" using l u by (intro reads_expr [OF i]) simp_all
  with reads_opens [OF i, of "u # rest"] t u show "postfix_body (parse_expr_n n) b (t # (vs @ [u]) @ rest) = POk (EIndex b i, True) rest"
    by (auto simp: postfix_body_def expr_start_def)
qed (use t in simp)

text \<open>An optional expression.\<close>

definition reads_opt :: "etoken list \<Rightarrow> eexpr option \<Rightarrow> bool" where
  "reads_opt us e \<longleftrightarrow> (case e of None \<Rightarrow> us = [] | Some x \<Rightarrow> reads 1 us x)"

lemma slice_end_reads:
  assumes e: "reads_opt ws e" and u: "tk_kind u = E_TOK_RBRACKET" and l: "length (ws @ u # rest) < n"
  shows "slice_end (parse_expr_n n) (ws @ u # rest) = POk e rest"
proof (cases e)
  case None
  with e u show ?thesis by (simp add: reads_opt_def slice_end_def expect_def)
next
  case (Some x)
  then have x: "reads 1 ws x" using e by (simp add: reads_opt_def)
  have "parse_expr_n n (ws @ u # rest) = POk x (u # rest)" using l u by (intro reads_expr [OF x]) simp_all
  with reads_opens [OF x, of "u # rest"] u Some show ?thesis by (auto simp: slice_end_def expect_def expr_start_def)
qed

lemma chains_slice:
  assumes c: "chains us b" and s: "reads_opt vs s" and e: "reads_opt ws e"
    and t: "tk_kind t = E_TOK_LBRACKET" and m: "tk_kind m = E_TOK_COLON" and u: "tk_kind u = E_TOK_RBRACKET"
  shows "chains (us @ t # vs @ m # ws @ [u]) (ESlice b s e)"
proof (rule chains_suffix [OF c])
  fix n rest assume l: "length (t # (vs @ m # ws @ [u]) @ rest) < n"
  have e': "slice_end (parse_expr_n n) (ws @ u # rest) = POk e rest" using l by (intro slice_end_reads [OF e u]) simp
  show "postfix_body (parse_expr_n n) b (t # (vs @ m # ws @ [u]) @ rest) = POk (ESlice b s e, True) rest"
  proof (cases s)
    case None
    with s e' t m show ?thesis by (simp add: reads_opt_def postfix_body_def)
  next
    case (Some x)
    then have x: "reads 1 vs x" using s by (simp add: reads_opt_def)
    have "parse_expr_n n (vs @ m # ws @ u # rest) = POk x (m # ws @ u # rest)"
      using l m by (intro reads_expr [OF x]) simp_all
    with reads_opens [OF x, of "m # ws @ u # rest"] t m e' Some show ?thesis
      by (auto simp: postfix_body_def expr_start_def)
  qed
qed (use t in simp)

section \<open>Calls\<close>

text \<open>Arguments, each with its tokens; a comma between two.\<close>

inductive reads_args :: "etoken list \<Rightarrow> eexpr list \<Rightarrow> bool" where
  none: "reads_args [] []"
| one: "reads 1 us e \<Longrightarrow> reads_args us [e]"
| more: "reads 1 us e \<Longrightarrow> tk_kind t = E_TOK_COMMA \<Longrightarrow> reads_args vs es \<Longrightarrow> es \<noteq> [] \<Longrightarrow> reads_args (us @ t # vs) (e # es)"

lemma arg_loop:
  assumes "length ts < n"
  shows "ploop (arg_body (parse_expr_n n)) acc ts = pbind (arg_body (parse_expr_n n) acc ts)
    (\<lambda>(s', again) r. if again then ploop (arg_body (parse_expr_n n)) s' r else POk s' r)"
proof (rule ploop_unfold)
  fix s and ts' :: "etoken list" assume "length ts' \<le> length ts"
  with assms show "turn_ok (length ts') (arg_body (parse_expr_n n) s ts')"
    by (intro arg_turn [OF parse_expr_n_good]) auto
qed

lemma args_loop_reads:
  assumes "reads_args us es" and "tk_kind u = E_TOK_RPAREN" and "length (us @ u # rest) < n"
  shows "ploop (arg_body (parse_expr_n n)) acc (us @ u # rest) = POk (acc @ es) rest"
  using assms
proof (induction us es arbitrary: acc rule: reads_args.induct)
  case none
  then show ?case by (subst arg_loop) (simp_all add: arg_body_def)
next
  case (one us e)
  have "parse_expr_n n (us @ u # rest) = POk e (u # rest)" using one by (intro reads_expr [OF one(1)]) simp_all
  with reads_opens [OF one(1), of "u # rest"] one show ?case
    by (subst arg_loop) (auto simp: arg_body_def expr_start_def)
next
  case (more us e t vs es)
  have "parse_expr_n n (us @ t # vs @ u # rest) = POk e (t # vs @ u # rest)"
    using more by (intro reads_expr [OF more(1)]) simp_all
  with reads_opens [OF more(1), of "t # vs @ u # rest"] more(2)
  have b: "arg_body (parse_expr_n n) acc (us @ t # vs @ u # rest) = POk (acc @ [e], True) (vs @ u # rest)"
    by (auto simp: arg_body_def expr_start_def expect_def)
  have "ploop (arg_body (parse_expr_n n)) (acc @ [e]) (vs @ u # rest) = POk ((acc @ [e]) @ es) rest"
    using more by (intro more.IH) simp_all
  with more b show ?case by (simp add: arg_loop)
qed

lemma chains_call:
  assumes "tk_kind f = E_TOK_IDENT" and "tk_kind t = E_TOK_LPAREN" and "tk_kind u = E_TOK_RPAREN" and "reads_args us es"
  shows "chains (f # t # us @ [u]) (ECall (tk_text f) es)"
  unfolding chains_def
proof (intro conjI allI impI)
  show "opens (f # t # us @ [u])" "un_op (kind_at (f # t # us @ [u])) = None"
    using assms(1) by (simp_all add: opens_def expr_start_def un_op_def)
  fix n rest assume "length ((f # t # us @ [u]) @ rest) \<le> n"
  then have "ploop (arg_body (parse_expr_n n)) [] (us @ u # rest) = POk es rest"
    using args_loop_reads [OF assms(4,3), of rest n "[]"] by simp
  with assms show "parse_primary (parse_expr_n n) ((f # t # us @ [u]) @ rest)
      = ploop (postfix_body (parse_expr_n n)) (ECall (tk_text f) es) rest"
    by (simp add: parse_primary_def)
qed

section \<open>Every printed expression\<close>

definition reads_well :: "eexpr \<Rightarrow> etoken list \<Rightarrow> bool" where
  "reads_well e us \<longleftrightarrow> (if elev e = 1 then reads 1 us e else if elev e = 6 then reads 6 us e
     else if elev e = 7 then reads 7 us e \<and> un_op (kind_at us) = None else enters (elev e) us e)
     \<and> (postfix_base e \<longrightarrow> chains us e)"

lemma elev_range: "elev e \<in> {1, 2, 3, 4, 5, 6, 7}"
proof (cases e)
  case (EBinary b l r)
  then show ?thesis by (cases b) auto
qed auto

lemma reads_well_reads: "reads_well e us \<Longrightarrow> 1 \<le> l \<Longrightarrow> l \<le> elev e \<Longrightarrow> l \<le> 6 \<Longrightarrow> reads l us e"
proof -
  assume w: "reads_well e us" and l: "1 \<le> l" "l \<le> elev e" "l \<le> 6"
  consider "elev e = 1" | "2 \<le> elev e" "elev e \<le> 5" | "elev e = 6" | "elev e = 7" using elev_range [of e] by force
  then show "reads l us e"
  proof cases
    case 1
    then show ?thesis using w l by (simp add: reads_well_def)
  next
    case 2
    then have "enters (elev e) us e" using w by (simp add: reads_well_def split: if_splits)
    with 2 have "reads (elev e) us e" by (rule_tac enters_reads)
    with 2 l show ?thesis by (intro reads_down [of "elev e" us e l]) auto
  next
    case 3
    then show ?thesis using w l by (intro reads_down [of 6 us e l]) (auto simp: reads_well_def)
  next
    case 4
    then have "reads 6 us e" using w by (intro reads_unary_up) (auto simp: reads_well_def)
    with l show ?thesis by (intro reads_down [of 6 us e l]) auto
  qed
qed

lemma paren_reads:
  assumes "\<And>us. map word_of us = pr_expr e \<Longrightarrow> reads_well e us" and "map word_of us = paren l e (pr_expr e)"
    and "1 \<le> l" and "l \<le> 6"
  shows "reads l us e"
proof (cases "elev e < l")
  case True
  then obtain t vs u where us: "us = t # vs @ [u]" "word_of t = (E_TOK_LPAREN, ''('')" "map word_of vs = pr_expr e"
      "word_of u = (E_TOK_RPAREN, '')'')"
    using assms(2) by (auto simp: paren_def map_eq_Cons_conv map_eq_append_conv)
  have "reads 1 vs e" using reads_well_reads [OF assms(1) [OF us(3)], of 1] elev_range [of e] by auto
  then have "reads 7 us e" using us by (simp add: reads_parens word_of_def)
  moreover have "un_op (kind_at us) = None" using us by (simp add: word_of_def un_op_def)
  ultimately have "reads 6 us e" by (rule reads_unary_up)
  with assms(3,4) show ?thesis by (intro reads_down [of 6 us e l]) auto
next
  case False
  with assms show ?thesis by (intro reads_well_reads) (auto simp: paren_def)
qed

lemma paren_enters:
  assumes "\<And>us. map word_of us = pr_expr e \<Longrightarrow> reads_well e us" and "map word_of us = paren l e (pr_expr e)"
    and "2 \<le> l" and "l \<le> 5"
  shows "enters l us e"
proof (cases "elev e = l")
  case True
  with assms show ?thesis by (auto simp: paren_def reads_well_def split: if_splits)
next
  case False
  then have "paren l e (pr_expr e) = paren (Suc l) e (pr_expr e)" by (auto simp: paren_def)
  with assms paren_reads [OF assms(1), of us "Suc l"] show ?thesis by (intro reads_enters) auto
qed

lemma reads_argsI:
  assumes "\<And>e us. e \<in> set es \<Longrightarrow> map word_of us = pr_expr e \<Longrightarrow> reads_well e us"
    and "map word_of us = commas (map pr_expr es)"
  shows "reads_args us es"
  using assms
proof (induction es arbitrary: us)
  case Nil
  then show ?case by (simp add: reads_args.none)
next
  case (Cons e es)
  show ?case
  proof (cases es)
    case Nil
    with Cons.prems reads_well_reads [of e us 1] elev_range [of e] show ?thesis by (auto intro: reads_args.one)
  next
    case (Cons e' es')
    then obtain vs t ws where us: "us = vs @ t # ws" "map word_of vs = pr_expr e" "word_of t = (E_TOK_COMMA, '','')"
        "map word_of ws = commas (map pr_expr es)"
      using Cons.prems(2) by (auto simp: map_eq_append_conv map_eq_Cons_conv)
    have "reads 1 vs e" using reads_well_reads [OF Cons.prems(1) [OF _ us(2)], of 1] elev_range [of e] by auto
    moreover have "reads_args ws es" using Cons.prems(1) us(4) by (intro Cons.IH) auto
    ultimately show ?thesis using us Cons by (auto simp: word_of_def intro: reads_args.more)
  qed
qed

lemma expr_reads_well: "ok_expr e \<Longrightarrow> map word_of us = pr_expr e \<Longrightarrow> reads_well e us"
proof (induction e arbitrary: us)
  case (EIdent x)
  then show ?case using chains_ident chains_reads by (fastforce simp: reads_well_def word_of_def un_op_def)
next
  case (EInt x)
  then obtain t where "us = [t]" "tk_kind t = E_TOK_INT_LIT" "tk_text t = dec_int x" by (auto simp: word_of_def)
  with EInt reads_literal(1) [of t] show ?case by (simp add: reads_well_def tok_int_dec un_op_def)
next
  case (EString x)
  then obtain t where "us = [t]" "tk_kind t = E_TOK_STRING_LIT" "tk_text t = x" by (auto simp: word_of_def)
  with reads_literal(2) [of t] show ?case by (simp add: reads_well_def un_op_def)
next
  case (EBinary b x y)
  then obtain vs t ws where us: "us = vs @ t # ws" "map word_of vs = paren (bin_lev b) x (pr_expr x)" "word_of t = bin_word b"
      "map word_of ws = paren (bin_lev b + 1) y (pr_expr y)"
    by (auto simp: map_eq_append_conv map_eq_Cons_conv)
  note b = bin_word_op [of b]
  have "enters (bin_lev b) vs x" using EBinary us(2) b by (intro paren_enters) auto
  moreover have "reads (Suc (bin_lev b)) ws y" using EBinary us(4) b by (intro paren_reads) auto
  moreover have "lev_op (bin_lev b) (tk_kind t) = Some b" using us(3) b(1) by (cases "bin_word b") (auto simp: word_of_def)
  ultimately have "enters (bin_lev b) us (EBinary b x y)" unfolding us(1) using b by (intro enters_bin)
  with b show ?case by (simp add: reads_well_def)
next
  case (EUnary u e)
  then obtain t vs where us: "us = t # vs" "word_of t = un_word u" "map word_of vs = paren 6 e (pr_expr e)" by auto
  have "un_op (tk_kind t) = Some u" using us(2) by (cases u) (simp_all add: word_of_def un_op_def)
  moreover have "reads 6 vs e" using EUnary us(3) by (intro paren_reads) auto
  ultimately show ?case using us by (simp add: reads_well_def reads_unary)
next
  case (ESlice b s e)
  then obtain vs t ws m xs u where us: "us = vs @ t # ws @ m # xs @ [u]" "map word_of vs = pr_expr b"
      "word_of t = (E_TOK_LBRACKET, ''['')" "word_of m = (E_TOK_COLON, '':'')" "word_of u = (E_TOK_RBRACKET, '']'')"
      "map word_of ws = (case s of None \<Rightarrow> [] | Some x \<Rightarrow> pr_expr x)" "map word_of xs = (case e of None \<Rightarrow> [] | Some x \<Rightarrow> pr_expr x)"
    by (auto simp: map_eq_append_conv map_eq_Cons_conv append_eq_map_conv Cons_eq_map_conv)
  have one: "1 \<le> elev x" for x using elev_range [of x] by auto
  have "reads_opt ws s" using ESlice us(6) one by (cases s) (auto simp: reads_opt_def intro!: reads_well_reads)
  moreover have "reads_opt xs e" using ESlice us(7) one by (cases e) (auto simp: reads_opt_def intro!: reads_well_reads)
  moreover have "chains vs b" using ESlice us(2) by (auto simp: reads_well_def)
  ultimately have "chains us (ESlice b s e)" unfolding us(1) using us by (intro chains_slice) (simp_all add: word_of_def)
  then show ?case using chains_reads by (simp add: reads_well_def chains_def)
next
  case (EAssign x y)
  then obtain vs t ws where us: "us = vs @ t # ws" "map word_of vs = paren 2 x (pr_expr x)" "word_of t = (E_TOK_ASSIGN, ''='')"
      "map word_of ws = pr_expr y"
    by (auto simp: map_eq_append_conv map_eq_Cons_conv)
  have "reads 2 vs x" using EAssign us(2) by (intro paren_reads) auto
  moreover have "reads 1 ws y" using EAssign us(4) elev_range [of y] by (intro reads_well_reads) auto
  ultimately have "reads 1 us (EAssign x y)" unfolding us(1) using us(3) by (intro reads_assign) (simp_all add: word_of_def)
  then show ?case by (simp add: reads_well_def)
next
  case (ECall f args)
  then obtain g t vs u where us: "us = g # t # vs @ [u]" "word_of g = (E_TOK_IDENT, f)" "word_of t = (E_TOK_LPAREN, ''('')"
      "map word_of vs = commas (map pr_expr args)" "word_of u = (E_TOK_RPAREN, '')'')"
    by (auto simp: map_eq_append_conv map_eq_Cons_conv)
  have "reads_args vs args" using ECall us(4) by (intro reads_argsI) (auto simp: list_all_iff)
  then have "chains us (ECall f args)" using chains_call [of g t u vs args] us by (simp add: word_of_def)
  then show ?case using chains_reads by (simp add: reads_well_def chains_def)
next
  case (EField b f)
  then obtain vs t u where us: "us = vs @ [t, u]" "map word_of vs = pr_expr b" "word_of t = (E_TOK_DOT, ''.'')" "word_of u = (E_TOK_IDENT, f)"
    by (auto simp: map_eq_append_conv map_eq_Cons_conv)
  have "chains vs b" using EField us(2) by (auto simp: reads_well_def)
  then have "chains us (EField b f)" using us chains_field [of vs b t u] by (simp add: word_of_def)
  then show ?case using chains_reads by (simp add: reads_well_def chains_def)
next
  case (EIndex b i)
  then obtain vs t ws u where us: "us = vs @ t # ws @ [u]" "map word_of vs = pr_expr b" "word_of t = (E_TOK_LBRACKET, ''['')"
      "map word_of ws = pr_expr i" "word_of u = (E_TOK_RBRACKET, '']'')"
    by (auto simp: map_eq_append_conv map_eq_Cons_conv append_eq_map_conv Cons_eq_map_conv)
  have "chains vs b" using EIndex us(2) by (auto simp: reads_well_def)
  moreover have "reads 1 ws i" using EIndex us(4) elev_range [of i] by (intro reads_well_reads) auto
  ultimately have "chains us (EIndex b i)" using us chains_index [of vs b ws i t u] by (simp add: word_of_def)
  then show ?case using chains_reads by (simp add: reads_well_def chains_def)
qed

lemma parse_expr_reads:
  assumes "ok_expr e" and "map word_of us = pr_expr e" and "cont_lev (kind_at rest) = 0"
  shows "parse_expr (us @ rest) = POk e rest"
proof -
  have "reads 1 us e" using reads_well_reads [OF expr_reads_well [OF assms(1,2)], of 1] elev_range [of e] by auto
  then show ?thesis unfolding parse_expr_def using assms(3) by (intro reads_expr) simp_all
qed

end
