(* ===== verification/EPrintStmt.thy ===== *)
theory EPrintStmt
  imports EPrint
begin

text \<open>
  Printing of types, declarations and statements, and the proof that the parser reads them back. A
  statement comes back up to the line numbers, which are those of its tokens.
\<close>

section \<open>Words\<close>

abbreviation (input) w_lparen :: eword where "w_lparen \<equiv> (E_TOK_LPAREN, ''('')"
abbreviation (input) w_rparen :: eword where "w_rparen \<equiv> (E_TOK_RPAREN, '')'')"
abbreviation (input) w_lbrace :: eword where "w_lbrace \<equiv> (E_TOK_LBRACE, ''{'')"
abbreviation (input) w_rbrace :: eword where "w_rbrace \<equiv> (E_TOK_RBRACE, ''}'')"
abbreviation (input) w_lbracket :: eword where "w_lbracket \<equiv> (E_TOK_LBRACKET, ''['')"
abbreviation (input) w_rbracket :: eword where "w_rbracket \<equiv> (E_TOK_RBRACKET, '']'')"
abbreviation (input) w_semi :: eword where "w_semi \<equiv> (E_TOK_SEMI, '';'')"
abbreviation (input) w_comma :: eword where "w_comma \<equiv> (E_TOK_COMMA, '','')"
abbreviation (input) w_colon :: eword where "w_colon \<equiv> (E_TOK_COLON, '':'')"
abbreviation (input) w_assign :: eword where "w_assign \<equiv> (E_TOK_ASSIGN, ''='')"
abbreviation (input) w_id :: "string \<Rightarrow> eword" where "w_id n \<equiv> (E_TOK_IDENT, n)"
abbreviation (input) w_u32 :: "u32 \<Rightarrow> eword" where "w_u32 u \<equiv> (E_TOK_INT_LIT, dec_u32 u)"

definition quoted :: "string \<Rightarrow> string" where
  "quoted s = quote # s @ [quote]"

section \<open>Printing\<close>

definition pr_type :: "type_ref \<Rightarrow> eword list" where
  "pr_type t = w_id (ty_name t) # concat (map (\<lambda>n. [(E_TOK_PIPE, ''|''), w_id n]) (ty_union t))
     @ (if ty_len t \<noteq> 0 then [w_lbracket, w_u32 (ty_len t), w_rbracket]
        else if ty_unsized t then [w_lbracket, w_rbracket] else [])"

definition ok_type :: "type_ref \<Rightarrow> bool" where
  "ok_type t \<longleftrightarrow> ok_ident (ty_name t) \<and> list_all ok_ident (ty_union t) \<and> (ty_unsized t \<longrightarrow> ty_len t = 0)"

definition pr_class :: "decl_class \<Rightarrow> eword list" where
  "pr_class c = (case c of DeclPlain \<Rightarrow> [] | DeclReg \<Rightarrow> [(E_TOK_KW_REG, ''reg'')]
     | DeclLocal \<Rightarrow> [(E_TOK_KW_LOCAL, ''local'')] | DeclStatic \<Rightarrow> [(E_TOK_KW_STATIC, ''static'')])"

definition pr_decl :: "edecl \<Rightarrow> eword list" where
  "pr_decl d = pr_class (dl_class d) @ pr_type (dl_type d) @ w_id (dl_name d)
     # (case dl_init d of None \<Rightarrow> [] | Some e \<Rightarrow> w_assign # pr_expr e) @ [w_semi]"

text \<open>A declaration in a body is recognised by its first tokens, which a union type does not have.\<close>

definition ok_decl :: "edecl \<Rightarrow> bool" where
  "ok_decl d \<longleftrightarrow> ok_type (dl_type d) \<and> ty_union (dl_type d) = [] \<and> ok_ident (dl_name d)
     \<and> (case dl_init d of None \<Rightarrow> True | Some e \<Rightarrow> ok_expr e)"

definition pr_dynamic :: "dynamic_decl \<Rightarrow> eword list" where
  "pr_dynamic dd = w_id (dd_name dd) # w_lparen # pr_type (dd_type dd)
     @ [w_comma, w_u32 (dd_min_free dd), w_comma, w_u32 (dd_max_free dd), w_comma, w_u32 (dd_grow_by dd), w_rparen, w_semi]"

definition ok_dynamic :: "dynamic_decl \<Rightarrow> bool" where
  "ok_dynamic dd \<longleftrightarrow> ok_ident (dd_name dd) \<and> ok_type (dd_type dd)"

definition pr_opt :: "eexpr option \<Rightarrow> eword list" where
  "pr_opt e = (case e of None \<Rightarrow> [] | Some x \<Rightarrow> pr_expr x)"

definition ok_opt :: "eexpr option \<Rightarrow> bool" where
  "ok_opt e = (case e of None \<Rightarrow> True | Some x \<Rightarrow> ok_expr x)"

fun pr_stmt :: "estmt \<Rightarrow> eword list" and pr_case :: "ecase \<Rightarrow> eword list" where
  "pr_stmt (SDecl _ d) = pr_decl d"
| "pr_stmt (SReturn _ v) = (E_TOK_KW_RETURN, ''return'') # pr_opt v @ [w_semi]"
| "pr_stmt (SExpr _ e) = pr_expr e @ [w_semi]"
| "pr_stmt (SBlock _ ss) = w_lbrace # concat (map pr_stmt ss) @ [w_rbrace]"
| "pr_stmt (SIf _ c t e) = (E_TOK_KW_IF, ''if'') # w_lparen # pr_expr c @ w_rparen # pr_stmt t
     @ (case e of None \<Rightarrow> [] | Some s \<Rightarrow> (E_TOK_KW_ELSE, ''else'') # pr_stmt s)"
| "pr_stmt (SWhile _ c b) = (E_TOK_KW_WHILE, ''while'') # w_lparen # pr_expr c @ w_rparen # pr_stmt b"
| "pr_stmt (SFor _ i c s b) = (E_TOK_KW_FOR, ''for'') # w_lparen
     # (case i of None \<Rightarrow> [w_semi] | Some x \<Rightarrow> pr_stmt x) @ pr_opt c @ w_semi # pr_opt s @ w_rparen # pr_stmt b"
| "pr_stmt (SSwitch _ t cs) = (E_TOK_KW_SWITCH, ''switch'') # w_lparen # pr_expr t @ w_rparen # w_lbrace
     # concat (map pr_case cs) @ [w_rbrace]"
| "pr_stmt (SBreak _) = [(E_TOK_KW_BREAK, ''break''), w_semi]"
| "pr_stmt (SContinue _) = [(E_TOK_KW_CONTINUE, ''continue''), w_semi]"
| "pr_stmt (SNext _ w) = [(E_TOK_KW_NEXT, ''next''), w_id w, w_semi]"
| "pr_stmt (SRawEpa _ t) = [(E_TOK_RAW_EPA, t)]"
| "pr_stmt (SForeach _ v it b) = (E_TOK_KW_WHILE, ''while'') # w_lparen # w_id (ty_name (dl_type v)) # w_id (dl_name v)
     # w_assign # w_id ''dynamic_next'' # w_lparen # w_id it # w_rparen # w_rparen # pr_stmt b"
| "pr_stmt (SDynamic _ dd) = (E_TOK_KW_DYNAMIC, ''dynamic'') # pr_dynamic dd"
| "pr_stmt (SStaticBlock _ ss) = (E_TOK_KW_STATIC, ''static'') # w_lbrace # concat (map pr_stmt ss) @ [w_rbrace]"
| "pr_stmt (SKernalId _ n) = [(E_TOK_KW_KERNAL_ID, ''kernalId''), w_lparen, (E_TOK_STRING_LIT, quoted n), w_rparen, w_semi]"
| "pr_case (ECase dflt v ss) = (if dflt then [(E_TOK_KW_DEFAULT, ''default'')] else [(E_TOK_KW_CASE, ''case''), (E_TOK_INT_LIT, dec_int v)])
     @ w_colon # concat (map pr_stmt ss)"

text \<open>A statement whose last branch an \<open>else\<close> would join.\<close>

fun open_if :: "estmt \<Rightarrow> bool" where
  "open_if (SIf _ c t None) \<longleftrightarrow> True"
| "open_if (SIf _ c t (Some e)) \<longleftrightarrow> open_if e"
| "open_if (SWhile _ c b) \<longleftrightarrow> open_if b"
| "open_if (SFor _ i c s b) \<longleftrightarrow> open_if b"
| "open_if (SForeach _ v it b) \<longleftrightarrow> open_if b"
| "open_if s \<longleftrightarrow> False"

fun for_init :: "estmt \<Rightarrow> bool" where
  "for_init (SDecl _ d) \<longleftrightarrow> ok_decl d" | "for_init (SExpr _ e) \<longleftrightarrow> ok_expr e" | "for_init s \<longleftrightarrow> False"

fun ok_stmt :: "estmt \<Rightarrow> bool" and ok_case :: "ecase \<Rightarrow> bool" where
  "ok_stmt (SDecl _ d) \<longleftrightarrow> ok_decl d"
| "ok_stmt (SReturn _ v) \<longleftrightarrow> ok_opt v"
| "ok_stmt (SExpr _ e) \<longleftrightarrow> ok_expr e"
| "ok_stmt (SBlock _ ss) \<longleftrightarrow> list_all ok_stmt ss"
| "ok_stmt (SIf _ c t e) \<longleftrightarrow> ok_expr c \<and> ok_stmt t \<and> (case e of None \<Rightarrow> True | Some s \<Rightarrow> \<not> open_if t \<and> ok_stmt s)"
| "ok_stmt (SWhile _ c b) \<longleftrightarrow> ok_expr c \<and> ok_stmt b"
| "ok_stmt (SFor _ i c s b) \<longleftrightarrow> (case i of None \<Rightarrow> True | Some x \<Rightarrow> for_init x) \<and> ok_opt c \<and> ok_opt s \<and> ok_stmt b"
| "ok_stmt (SSwitch _ t cs) \<longleftrightarrow> ok_expr t \<and> list_all ok_case cs"
| "ok_stmt (SBreak _) \<longleftrightarrow> True"
| "ok_stmt (SContinue _) \<longleftrightarrow> True"
| "ok_stmt (SNext _ w) \<longleftrightarrow> ok_ident w"
| "ok_stmt (SRawEpa _ t) \<longleftrightarrow> balanced 1 t"
| "ok_stmt (SForeach _ v it b) \<longleftrightarrow> v = foreach_decl (ty_name (dl_type v)) (dl_name v) \<and> ok_ident (ty_name (dl_type v))
     \<and> ok_ident (dl_name v) \<and> ok_ident it \<and> ok_stmt b"
| "ok_stmt (SDynamic _ dd) \<longleftrightarrow> ok_dynamic dd"
| "ok_stmt (SStaticBlock _ ss) \<longleftrightarrow> list_all ok_stmt ss"
| "ok_stmt (SKernalId _ n) \<longleftrightarrow> ok_string (quoted n)"
| "ok_case (ECase dflt v ss) \<longleftrightarrow> (if dflt then v = 0 else 0 \<le> v \<and> v < 2 ^ 63) \<and> list_all ok_stmt ss"

text \<open>Line numbers removed.\<close>

fun unline :: "estmt \<Rightarrow> estmt" and unline_case :: "ecase \<Rightarrow> ecase" where
  "unline (SDecl _ d) = SDecl 0 d"
| "unline (SReturn _ v) = SReturn 0 v"
| "unline (SExpr _ e) = SExpr 0 e"
| "unline (SBlock _ ss) = SBlock 0 (map unline ss)"
| "unline (SIf _ c t e) = SIf 0 c (unline t) (map_option unline e)"
| "unline (SWhile _ c b) = SWhile 0 c (unline b)"
| "unline (SFor _ i c s b) = SFor 0 (map_option unline i) c s (unline b)"
| "unline (SSwitch _ t cs) = SSwitch 0 t (map unline_case cs)"
| "unline (SBreak _) = SBreak 0"
| "unline (SContinue _) = SContinue 0"
| "unline (SNext _ w) = SNext 0 w"
| "unline (SRawEpa _ t) = SRawEpa 0 t"
| "unline (SForeach _ v it b) = SForeach 0 v it (unline b)"
| "unline (SDynamic _ dd) = SDynamic 0 dd"
| "unline (SStaticBlock _ ss) = SStaticBlock 0 (map unline ss)"
| "unline (SKernalId _ n) = SKernalId 0 n"
| "unline_case (ECase dflt v ss) = ECase dflt v (map unline ss)"

lemma unline_set_line [simp]: "unline (set_line n s) = unline s"
  by (cases s) simp_all

section \<open>Shape of printed expressions\<close>

text \<open>What never stands side by side in a printed expression.\<close>

definition beside :: "etoken_kind \<Rightarrow> etoken_kind \<Rightarrow> bool" where
  "beside a b \<longleftrightarrow> (b = E_TOK_IDENT \<longrightarrow> a \<notin> {E_TOK_IDENT, E_TOK_RBRACKET}) \<and> (b = E_TOK_RBRACKET \<longrightarrow> a \<noteq> E_TOK_LBRACKET)"

definition calm :: "etoken_kind list \<Rightarrow> bool" where
  "calm = successively beside"

definition expr_end :: "etoken_kind set" where
  "expr_end = {E_TOK_IDENT, E_TOK_INT_LIT, E_TOK_STRING_LIT, E_TOK_RPAREN, E_TOK_RBRACKET}"

definition shaped :: "eword list \<Rightarrow> bool" where
  "shaped ws \<longleftrightarrow> ws \<noteq> [] \<and> fst (hd ws) \<in> expr_start \<and> fst (last ws) \<in> expr_end \<and> calm (map fst ws)"

lemma calm_simps [simp]: "calm []" "calm [k]" "calm (a # b # ks) \<longleftrightarrow> beside a b \<and> calm (b # ks)"
  by (simp_all add: calm_def)

lemma calm_append: "calm (xs @ ys) \<longleftrightarrow> calm xs \<and> calm ys \<and> (xs = [] \<or> ys = [] \<or> beside (last xs) (hd ys))"
  by (simp add: calm_def successively_append_iff)

lemma calm_Cons: "calm (x # ys) \<longleftrightarrow> calm ys \<and> (ys = [] \<or> beside x (hd ys))"
  by (cases ys) auto

lemma beside_mid: "w \<notin> {E_TOK_IDENT, E_TOK_RBRACKET, E_TOK_LBRACKET} \<Longrightarrow> beside a w \<and> beside w b"
  by (auto simp: beside_def)

lemma beside_start: "b \<in> expr_start \<Longrightarrow> a \<notin> {E_TOK_IDENT, E_TOK_RBRACKET} \<Longrightarrow> beside a b"
  by (auto simp: beside_def expr_start_def)

lemma beside_close: "b \<in> {E_TOK_RPAREN, E_TOK_RBRACKET, E_TOK_SEMI} \<Longrightarrow> a \<noteq> E_TOK_LBRACKET \<Longrightarrow> beside a b"
  by (auto simp: beside_def)

lemma expr_endD: "k \<in> expr_end \<Longrightarrow> k \<noteq> E_TOK_LBRACKET"
  by (auto simp: expr_end_def)

lemma calm_join: "calm xs \<Longrightarrow> calm ys \<Longrightarrow> w \<notin> {E_TOK_IDENT, E_TOK_RBRACKET, E_TOK_LBRACKET} \<Longrightarrow> calm (xs @ w # ys)"
  using beside_mid [of w] by (auto simp: calm_append calm_Cons)

lemma shapedD:
  assumes "shaped ws"
  shows "ws \<noteq> []" and "map fst ws \<noteq> []" and "calm (map fst ws)" and "hd (map fst ws) \<in> expr_start" and "last (map fst ws) \<in> expr_end"
  using assms by (auto simp: shaped_def hd_map last_map)

lemma shapedI:
  "ws \<noteq> [] \<Longrightarrow> calm (map fst ws) \<Longrightarrow> hd (map fst ws) \<in> expr_start \<Longrightarrow> last (map fst ws) \<in> expr_end \<Longrightarrow> shaped ws"
  by (simp add: shaped_def hd_map last_map)

lemma shaped_join:
  assumes "shaped xs" and "shaped ys" and "fst w \<notin> {E_TOK_IDENT, E_TOK_RBRACKET, E_TOK_LBRACKET}"
  shows "shaped (xs @ w # ys)"
  using shapedD [OF assms(1)] shapedD [OF assms(2)] assms(3) by (intro shapedI) (simp_all add: calm_join)

lemma shaped_prefix: "shaped ws \<Longrightarrow> fst w \<in> expr_start \<Longrightarrow> fst w \<noteq> E_TOK_IDENT \<Longrightarrow> shaped (w # ws)"
  using shapedD [of ws] by (intro shapedI) (auto simp: calm_Cons expr_start_def intro!: beside_start)

lemma shaped_suffix:
  assumes "shaped ws" and "fst w \<in> {E_TOK_RPAREN, E_TOK_RBRACKET}"
  shows "shaped (ws @ [w])"
  using shapedD [OF assms(1)] assms(2) expr_endD by (intro shapedI) (auto simp: calm_append expr_end_def intro!: beside_close)

lemma shaped_paren: "shaped ws \<Longrightarrow> shaped (paren l e ws)"
  using shaped_suffix [OF shaped_prefix [of ws w_lparen], of w_rparen] by (simp add: paren_def expr_start_def)

lemma shaped_commas: "(\<And>ws. ws \<in> set wss \<Longrightarrow> shaped ws) \<Longrightarrow> wss \<noteq> [] \<Longrightarrow> shaped (commas wss)"
proof (induction wss rule: commas.induct)
  case (3 ws v va)
  have "shaped (commas (v # va))" using "3.prems"(1) by (intro "3.IH") auto
  moreover have "shaped ws" using "3.prems"(1) by simp
  ultimately show ?case unfolding commas.simps by (intro shaped_join) simp_all
qed auto

lemma bin_word_kind: "fst (bin_word b) \<notin> {E_TOK_IDENT, E_TOK_RBRACKET, E_TOK_LBRACKET}"
  by (cases b) simp_all

text \<open>A bracket behind the base of an index or a slice.\<close>

lemma shaped_bracket:
  assumes "shaped xs" and "calm (map fst ys)" and "ys \<noteq> []" and "fst (hd ys) \<noteq> E_TOK_RBRACKET" and "fst (last ys) \<noteq> E_TOK_LBRACKET"
  shows "shaped (xs @ w_lbracket # ys @ [w_rbracket])"
proof -
  have "hd (map fst ys) \<noteq> E_TOK_RBRACKET" "last (map fst ys) \<noteq> E_TOK_LBRACKET" "map fst ys \<noteq> []"
    using assms by (simp_all add: hd_map last_map)
  with shapedD [OF assms(1)] assms(2) show ?thesis
    by (intro shapedI) (auto simp: calm_append calm_Cons beside_def expr_end_def hd_append)
qed

lemma pr_expr_shaped: "shaped (pr_expr e)"
proof (induction e)
  case (EBinary b x y)
  then show ?case by (simp, intro shaped_join shaped_paren bin_word_kind)
next
  case (EUnary u e)
  then have "shaped (paren 6 e (pr_expr e))" by (rule shaped_paren)
  then show ?case by (cases u) (auto intro!: shaped_prefix simp: expr_start_def)
next
  case (EAssign x y)
  then show ?case by (simp, intro shaped_join shaped_paren) simp_all
next
  case (ECall f args)
  have f: "shaped [w_id f]" by (simp add: shaped_def expr_start_def expr_end_def)
  show ?case
  proof (cases "args = []")
    case True
    then show ?thesis by (simp add: shaped_def expr_start_def expr_end_def beside_def)
  next
    case False
    then have "shaped (commas (map pr_expr args))" using ECall by (intro shaped_commas) auto
    then have "shaped (commas (map pr_expr args) @ [w_rparen])" by (rule shaped_suffix) simp
    from shaped_join [OF f this, of w_lparen] show ?thesis by simp
  qed
next
  case (ESlice b s e)
  have o: "calm (map fst (pr_opt x)) \<and> (pr_opt x \<noteq> [] \<longrightarrow> fst (hd (pr_opt x)) \<noteq> E_TOK_RBRACKET \<and> fst (last (pr_opt x)) \<noteq> E_TOK_LBRACKET)"
    if "\<And>y. x = Some y \<Longrightarrow> shaped (pr_expr y)" for x
    using that by (cases x) (auto simp: shaped_def pr_opt_def expr_start_def expr_end_def)
  have "calm (map fst (pr_opt s @ w_colon # pr_opt e))" using o [of s] o [of e] ESlice by (auto intro!: calm_join)
  moreover have "fst (hd (pr_opt s @ w_colon # pr_opt e)) \<noteq> E_TOK_RBRACKET" "fst (last (pr_opt s @ w_colon # pr_opt e)) \<noteq> E_TOK_LBRACKET"
    using o [of s] o [of e] ESlice by (auto simp: hd_append)
  ultimately have "shaped (pr_expr b @ w_lbracket # (pr_opt s @ w_colon # pr_opt e) @ [w_rbracket])"
    using ESlice by (intro shaped_bracket) auto
  then show ?case by (simp add: pr_opt_def)
next
  case (EField b f)
  from shaped_join [OF EField, of "[w_id f]" "(E_TOK_DOT, ''.'')"] have "calm (map fst (pr_expr b @ [(E_TOK_DOT, ''.''), w_id f]))"
    using shapedD [OF EField] expr_endD by (auto simp: calm_append beside_def)
  then show ?case using shapedD [OF EField] by (intro shapedI) (auto simp: expr_end_def)
next
  case (EIndex b i)
  then have "shaped (pr_expr b @ w_lbracket # pr_expr i @ [w_rbracket])"
    using shapedD [OF EIndex.IH(2)] expr_endD
    by (intro shaped_bracket) (auto simp: hd_map last_map expr_start_def)
  then show ?case by simp
qed (simp_all add: shaped_def expr_start_def expr_end_def)

lemma calm_tokens:
  assumes "map word_of us = pr_expr e" and "tk_kind t \<in> {E_TOK_SEMI, E_TOK_RPAREN}"
  shows "calm (map tk_kind (us @ [t]))" and "us \<noteq> []" and "tk_kind (hd us) \<in> expr_start"
proof -
  have k: "map tk_kind us = map fst (pr_expr e)" unfolding assms(1) [symmetric] by (simp add: word_of_def comp_def)
  show ne: "us \<noteq> []" using pr_expr_shaped [of e] assms(1) by (auto simp: shaped_def)
  have "tk_kind (hd us) = fst (hd (pr_expr e))" using ne k by (metis hd_map list.map_disc_iff)
  then show "tk_kind (hd us) \<in> expr_start" using pr_expr_shaped [of e] by (simp add: shaped_def)
  have "calm (map tk_kind us)" unfolding k using pr_expr_shaped [of e] by (simp add: shaped_def)
  then show "calm (map tk_kind (us @ [t]))" using assms(2) shapedD(5) [OF pr_expr_shaped, of e] ne
    by (auto simp: calm_append beside_def)
qed

lemma expr_not_decl:
  assumes "map word_of us = pr_expr e" and "tk_kind t \<in> {E_TOK_SEMI, E_TOK_RPAREN}"
  shows "\<not> is_decl_start (us @ t # rest)" and "\<not> foreach_head (us @ t # rest)"
proof -
  note c = calm_tokens [OF assms]
  obtain u us1 where u: "us = u # us1" using c(2) by (cases us) auto
  have h: "tk_kind u \<notin> {E_TOK_KW_REG, E_TOK_KW_LOCAL, E_TOK_KW_STATIC}" using c(3) by (auto simp: u expr_start_def)
  show "\<not> foreach_head (us @ t # rest)"
    using c(1) assms(2) by (cases us1) (auto simp: u foreach_head_def peek_n_def upt_rec beside_def)
  show "\<not> is_decl_start (us @ t # rest)"
  proof (cases "us1 = [] \<or> tk_kind (hd us1) \<noteq> E_TOK_LBRACKET")
    case True
    then show ?thesis using c(1) assms(2) h by (cases us1) (auto simp: u is_decl_start_def beside_def)
  next
    case False
    then obtain v us2 where v: "us1 = v # us2" "tk_kind v = E_TOK_LBRACKET" by (cases us1) auto
    then show ?thesis
      using c(1) assms(2) h
      by (cases us2; cases "tl us2"; cases "tl (tl us2)") (auto simp: u is_decl_start_def beside_def)
  qed
qed

section \<open>Reading types and declarations\<close>

text \<open>The tokens \<open>us\<close> have the words \<open>ws\<close>.\<close>

definition toks :: "eword list \<Rightarrow> etoken list \<Rightarrow> bool" where
  "toks ws us \<longleftrightarrow> map word_of us = ws"

lemma toks_split:
  "toks [] us \<longleftrightarrow> us = []"
  "toks ((k, s) # ws) us \<longleftrightarrow> (\<exists>t vs. us = t # vs \<and> tk_kind t = k \<and> tk_text t = s \<and> toks ws vs)"
  "toks (xs @ ws) us \<longleftrightarrow> (\<exists>vs vs'. us = vs @ vs' \<and> toks xs vs \<and> toks ws vs')"
  by (auto simp: toks_def map_eq_Cons_conv map_eq_append_conv word_of_def)

lemma toks_expr: "toks (pr_expr e) us \<Longrightarrow> ok_expr e \<Longrightarrow> cont_lev (kind_at rest) = 0 \<Longrightarrow> parse_expr (us @ rest) = POk e rest"
  by (simp add: toks_def parse_expr_reads)

lemma union_read:
  "toks (concat (map (\<lambda>n. [(E_TOK_PIPE, ''|''), w_id n]) ns)) us \<Longrightarrow> kind_at rest \<noteq> E_TOK_PIPE
    \<Longrightarrow> ploop union_body ms (us @ rest) = POk (ms @ ns) rest"
proof (induction ns arbitrary: us ms)
  case Nil
  then show ?case by (subst ploop_unfold [OF union_turn]) (simp add: union_body_def toks_split)
next
  case (Cons n ns)
  then obtain t u vs where us: "us = t # u # vs" "tk_kind t = E_TOK_PIPE" "tk_kind u = E_TOK_IDENT" "tk_text u = n"
      "toks (concat (map (\<lambda>n. [(E_TOK_PIPE, ''|''), w_id n]) ns)) vs"
    by (auto simp: toks_split)
  have "ploop union_body ms (us @ rest) = ploop union_body (ms @ [n]) (vs @ rest)"
    by (subst ploop_unfold [OF union_turn]) (simp add: us union_body_def expect_def)
  then show ?case using Cons us(5) by simp
qed

lemma type_read:
  assumes "toks (pr_type t) us" and "ok_type t" and "kind_at rest \<notin> {E_TOK_PIPE, E_TOK_LBRACKET}"
  shows "parse_type (us @ rest) = POk t rest"
  using assms unfolding pr_type_def
  by (cases "ty_len t = 0"; cases "ty_unsized t")
    (auto simp: parse_type_def expect_def union_read Let_def toks_split tok_u32_dec ok_type_def)

lemma type_start:
  assumes "toks (pr_type t) us" and "ty_union t = []" and "tk_kind u = E_TOK_IDENT"
  shows "is_decl_start (us @ u # rest) \<and> kind_at (us @ r) = E_TOK_IDENT"
  using assms unfolding pr_type_def
  by (auto simp: toks_split is_decl_start_def split: if_splits)

lemma class_start:
  "tk_kind c = k \<Longrightarrow> k \<in> {E_TOK_KW_REG, E_TOK_KW_LOCAL, E_TOK_KW_STATIC} \<Longrightarrow> is_decl_start ts \<Longrightarrow> kind_at ts = E_TOK_IDENT
    \<Longrightarrow> is_decl_start (c # ts)"
  by (auto simp: is_decl_start_def)

lemma decl_read:
  assumes "toks (pr_decl d) us" and "ok_decl d"
  shows "parse_decl_stmt (us @ rest) = POk (SDecl 0 d) rest" and "is_decl_start (us @ rest)"
    and "us \<noteq> [] \<and> kind_at us \<in> {E_TOK_KW_REG, E_TOK_KW_LOCAL, E_TOK_KW_STATIC, E_TOK_IDENT}"
    and "kind_at us = E_TOK_KW_STATIC \<Longrightarrow> tk_kind (peek_n 1 (us @ rest)) \<noteq> E_TOK_LBRACE"
proof -
  obtain cs vs n ws u where us: "us = cs @ vs @ n # ws @ [u]" "toks (pr_class (dl_class d)) cs" "toks (pr_type (dl_type d)) vs"
      "toks (case dl_init d of None \<Rightarrow> [] | Some e \<Rightarrow> w_assign # pr_expr e) ws"
    and n: "tk_kind n = E_TOK_IDENT" "tk_text n = dl_name d" and u: "tk_kind u = E_TOK_SEMI"
    using assms(1) unfolding pr_decl_def by (auto simp: toks_split)
  have t: "parse_type (vs @ n # r) = POk (dl_type d) (n # r)" for r
    using type_read [OF us(3), of "n # r"] assms(2) n by (simp add: ok_decl_def)
  have i: "(if kind_at (ws @ u # rest) = E_TOK_ASSIGN then pmap Some (parse_expr (tl (ws @ u # rest))) else POk None (ws @ u # rest))
      = POk (dl_init d) (u # rest)"
    using us(4) assms(2) u by (cases "dl_init d") (auto simp: ok_decl_def toks_split toks_expr)
  have s: "is_decl_start (vs @ n # ws @ u # r) \<and> kind_at (vs @ x) = E_TOK_IDENT" for r x
    using type_start [OF us(3) _ n(1)] assms(2) by (simp add: ok_decl_def)
  have v: "vs \<noteq> []" using us(3) by (auto simp: pr_type_def toks_split)
  show "us \<noteq> [] \<and> kind_at us \<in> {E_TOK_KW_REG, E_TOK_KW_LOCAL, E_TOK_KW_STATIC, E_TOK_IDENT}"
    using us(2) s by (cases "dl_class d") (auto simp: us(1) pr_class_def toks_split)
  show "is_decl_start (us @ rest)"
    using us(2) s by (cases "dl_class d") (auto simp: us(1) pr_class_def toks_split intro!: class_start)
  show "parse_decl_stmt (us @ rest) = POk (SDecl 0 d) rest"
    using us(2) s t i n u
    by (cases "dl_class d") (auto simp: us(1) pr_class_def toks_split parse_decl_stmt_def expect_def)
  show "tk_kind (peek_n 1 (us @ rest)) \<noteq> E_TOK_LBRACE" if "kind_at us = E_TOK_KW_STATIC"
    using that us(2) s [of "[]" "n # ws @ [u]"] v
    by (cases "dl_class d"; cases vs) (auto simp: us(1) pr_class_def toks_split peek_n_def)
qed

lemma dynamic_read:
  assumes "toks (pr_dynamic dd) us" and "ok_dynamic dd"
  shows "parse_dynamic (us @ rest) = POk dd rest"
  using assms unfolding pr_dynamic_def ok_dynamic_def
  by (auto simp: toks_split parse_dynamic_def expect_def type_read tok_u32_dec)

section \<open>Reading statements\<close>

lemma expr_first: "toks (pr_expr e) us \<Longrightarrow> us \<noteq> [] \<and> kind_at (us @ r) \<in> expr_start"
proof -
  assume "toks (pr_expr e) us"
  then have "pr_expr e = map word_of us" by (simp add: toks_def)
  with pr_expr_shaped [of e] show ?thesis by (cases us) (auto simp: shaped_def word_of_def)
qed

lemma expr_start_kinds:
  "k \<in> expr_start \<Longrightarrow> k \<notin> {E_TOK_EOF, E_TOK_SEMI, E_TOK_RPAREN, E_TOK_LBRACE, E_TOK_RBRACE, E_TOK_RAW_EPA, E_TOK_KW_IF, E_TOK_KW_ELSE,
     E_TOK_KW_WHILE, E_TOK_KW_FOR, E_TOK_KW_SWITCH, E_TOK_KW_CASE, E_TOK_KW_DEFAULT, E_TOK_KW_RETURN, E_TOK_KW_BREAK, E_TOK_KW_CONTINUE,
     E_TOK_KW_NEXT, E_TOK_KW_KERNAL_ID, E_TOK_KW_STATIC, E_TOK_KW_DYNAMIC}"
  by (auto simp: expr_start_def)

lemma expr_plain:
  assumes "toks (pr_expr e) us" and "tk_kind t \<in> {E_TOK_SEMI, E_TOK_RPAREN}"
  shows "\<not> is_decl_start (us @ t # rest)" and "\<not> foreach_head (us @ t # rest)"
  using expr_not_decl assms unfolding toks_def by blast+

lemma expr_semi_read:
  "toks (pr_expr e) us \<Longrightarrow> ok_expr e \<Longrightarrow> tk_kind t = E_TOK_SEMI \<Longrightarrow> expr_semi m (us @ t # rest) = POk e rest"
  by (simp add: expr_semi_def toks_expr expect_def)

lemma opt_read:
  assumes "toks (pr_opt e) us" and "ok_opt e" and "kind_at rest = k" and "k \<in> {E_TOK_SEMI, E_TOK_RPAREN}"
  shows "opt_expr k (us @ rest) = POk e rest"
  using assms expr_first [of _ us rest]
  by (cases e) (auto simp: pr_opt_def ok_opt_def toks_split opt_expr_def toks_expr expr_start_def)

lemma for_init_read:
  assumes "toks (case i of None \<Rightarrow> [w_semi] | Some x \<Rightarrow> pr_stmt x) us" and "case i of None \<Rightarrow> True | Some x \<Rightarrow> for_init x"
  shows "\<exists>i'. parse_for_init_stmt (us @ rest) = POk i' rest \<and> map_option unline i' = map_option unline i"
proof (cases i)
  case None
  with assms show ?thesis by (auto simp: toks_split parse_for_init_stmt_def)
next
  case (Some x)
  with assms consider l d where "x = SDecl l d" "ok_decl d" "toks (pr_decl d) us"
    | l e where "x = SExpr l e" "ok_expr e" "toks (pr_expr e @ [w_semi]) us"
    by (cases x) auto
  then show ?thesis
  proof cases
    case 1
    then have "kind_at (us @ rest) \<noteq> E_TOK_SEMI" using decl_read(3) [of d us] by (cases us) auto
    with 1 show ?thesis using decl_read [of d us] by (auto simp: parse_for_init_stmt_def Some)
  next
    case 2
    then obtain vs t where v: "us = vs @ [t]" "toks (pr_expr e) vs" "tk_kind t = E_TOK_SEMI" by (auto simp: toks_split)
    with expr_first [OF v(2), of "t # rest"] expr_start_kinds show ?thesis
      by (auto simp: parse_for_init_stmt_def Some 2 expr_plain(1) expr_semi_read)
  qed
qed

text \<open>A statement is read in front of any tokens, but for an \<open>else\<close> it would take.\<close>

definition gives :: "estmt pres \<Rightarrow> estmt \<Rightarrow> etoken list \<Rightarrow> bool" where
  "gives res s rest \<longleftrightarrow> (\<exists>s'. res = POk s' rest \<and> unline s' = unline s)"

definition starts :: "etoken list \<Rightarrow> bool" where
  "starts us \<longleftrightarrow> us \<noteq> [] \<and> kind_at us \<notin> {E_TOK_KW_ELSE, E_TOK_RBRACE, E_TOK_EOF, E_TOK_KW_CASE, E_TOK_KW_DEFAULT}"

definition sreads :: "etoken list \<Rightarrow> estmt \<Rightarrow> bool" where
  "sreads us s \<longleftrightarrow> starts us \<and> (\<forall>n rest. length (us @ rest) < n \<longrightarrow> (open_if s \<longrightarrow> kind_at rest \<noteq> E_TOK_KW_ELSE)
     \<longrightarrow> gives (parse_stmt_n n (us @ rest)) s rest)"

lemma sreadsI:
  assumes "starts us"
    and "\<And>n rest. length (us @ rest) \<le> n \<Longrightarrow> (open_if s \<longrightarrow> kind_at rest \<noteq> E_TOK_KW_ELSE)
      \<Longrightarrow> gives (stmt_by_kind (parse_stmt_n n) (us @ rest)) s rest"
  shows "sreads us s"
  unfolding sreads_def
proof (intro conjI allI impI)
  fix n rest assume n: "length (us @ rest) < n" and o: "open_if s \<longrightarrow> kind_at rest \<noteq> E_TOK_KW_ELSE"
  then obtain m where m: "n = Suc m" "length (us @ rest) \<le> m" by (cases n) auto
  with assms(2) [OF m(2) o] show "gives (parse_stmt_n n (us @ rest)) s rest" by (auto simp: gives_def)
qed (rule assms(1))

text \<open>The parsers of statements inside a construct, with the fuel left, and at the top level.\<close>

definition reader :: "nat \<Rightarrow> estmt parser \<Rightarrow> bool" where
  "reader n ps \<longleftrightarrow> good_upto (n - 1) ps \<and> (\<forall>us s rest. sreads us s \<longrightarrow> length (us @ rest) < n
     \<longrightarrow> (open_if s \<longrightarrow> kind_at rest \<noteq> E_TOK_KW_ELSE) \<longrightarrow> gives (ps (us @ rest)) s rest)"

lemma reader_n: "0 < n \<Longrightarrow> reader n (parse_stmt_n n)"
  using stmt_n_good [of "n - 1"] by (simp add: reader_def sreads_def del: parse_stmt_n.simps)

lemma reader_top: "reader n parse_stmt"
  using stmt_good [of "n - 1"] by (auto simp: reader_def sreads_def parse_stmt_def simp del: parse_stmt_n.simps)

lemma readerD:
  assumes "reader n ps" and "sreads us s" and "length (us @ rest) < n" and "open_if s \<longrightarrow> kind_at rest \<noteq> E_TOK_KW_ELSE"
  obtains s' where "ps (us @ rest) = POk s' rest" and "unline s' = unline s"
  using assms unfolding reader_def gives_def by blast

lemma starts_append: "starts us \<Longrightarrow> kind_at (us @ r) = kind_at us"
  by (cases us) (auto simp: starts_def)

lemma stmts_follow:
  assumes "\<And>s us. s \<in> set ss \<Longrightarrow> toks (pr_stmt s) us \<Longrightarrow> sreads us s"
    and "toks (concat (map pr_stmt ss)) us" and "kind_at rest \<noteq> E_TOK_KW_ELSE"
  shows "kind_at (us @ rest) \<noteq> E_TOK_KW_ELSE"
proof (cases ss)
  case Nil
  with assms(2,3) show ?thesis by (simp add: toks_split)
next
  case (Cons s ss')
  with assms(2) obtain vs ws where us: "us = vs @ ws" "toks (pr_stmt s) vs" by (auto simp: toks_split)
  have "starts vs" using assms(1) [OF _ us(2)] Cons by (simp add: sreads_def)
  then show ?thesis using starts_append [of vs "ws @ rest"] by (simp add: us starts_def)
qed

lemma stmts_read:
  assumes "\<And>s us. s \<in> set ss \<Longrightarrow> toks (pr_stmt s) us \<Longrightarrow> sreads us s"
    and "toks (concat (map pr_stmt ss)) us" and "length (us @ rest) < n" and "kind_at rest \<in> stop"
    and ps: "reader n ps"
    and stop: "stop \<subseteq> {E_TOK_RBRACE, E_TOK_EOF, E_TOK_KW_CASE, E_TOK_KW_DEFAULT}"
  shows "\<exists>ss'. ploop (stmts_body stop ps) acc (us @ rest) = POk (acc @ ss') rest \<and> map unline ss' = map unline ss"
  using assms(1-4)
proof (induction ss arbitrary: us acc)
  case (Nil us acc)
  have "ploop (stmts_body stop ps) acc rest = POk acc rest"
    using Nil.prems(3,4) ps
    by (subst ploop_unfold [OF stmts_turn [where n = "n - 1"]]) (auto simp: stmts_body_def reader_def)
  with Nil.prems(2) show ?case by (auto simp: toks_split)
next
  case (Cons s ss us acc)
  obtain vs ws where us: "us = vs @ ws" "toks (pr_stmt s) vs" "toks (concat (map pr_stmt ss)) ws"
    using Cons.prems(2) by (auto simp: toks_split)
  have s: "sreads vs s" using Cons.prems(1) us(2) by simp
  have else: "kind_at rest \<noteq> E_TOK_KW_ELSE" using Cons.prems(4) stop by auto
  then have f: "kind_at (ws @ rest) \<noteq> E_TOK_KW_ELSE"
    using Cons.prems(1) us(3) by (intro stmts_follow [of ss]) auto
  obtain s' where p: "ps (vs @ ws @ rest) = POk s' (ws @ rest)" "unline s' = unline s"
    using ps s by (rule readerD [of n ps vs s "ws @ rest"]) (use Cons.prems(3) us(1) f in auto)
  obtain ss' where q: "ploop (stmts_body stop ps) (acc @ [s']) (ws @ rest) = POk ((acc @ [s']) @ ss') rest"
      "map unline ss' = map unline ss"
    using Cons.IH [of ws "acc @ [s']"] Cons.prems(1,3,4) us by auto
  have "kind_at (vs @ ws @ rest) \<notin> stop"
    using s stop starts_append [of vs "ws @ rest"] by (auto simp: sreads_def starts_def)
  then have "ploop (stmts_body stop ps) acc (us @ rest) = ploop (stmts_body stop ps) (acc @ [s']) (ws @ rest)"
    using Cons.prems(3) ps p us(1)
    by (subst ploop_unfold [OF stmts_turn [where n = "n - 1"]]) (auto simp: stmts_body_def reader_def)
  with p(2) q show ?case by (auto intro!: exI [of _ "s' # ss'"])
qed

lemma block_read:
  assumes "\<And>s us. s \<in> set ss \<Longrightarrow> toks (pr_stmt s) us \<Longrightarrow> sreads us s" and ps: "reader n ps"
    and "toks (w_lbrace # concat (map pr_stmt ss) @ [w_rbrace]) us" and "length (us @ rest) \<le> n"
  shows "\<exists>ss'. block_stmts ps (us @ rest) = POk ss' rest \<and> map unline ss' = map unline ss"
proof -
  obtain l vs r where us: "us = l # vs @ [r]" "tk_kind l = E_TOK_LBRACE" "tk_kind r = E_TOK_RBRACE" "toks (concat (map pr_stmt ss)) vs"
    using assms(3) by (auto simp: toks_split)
  obtain ss' where "ploop (stmts_body {E_TOK_RBRACE, E_TOK_EOF} ps) [] (vs @ r # rest) = POk ([] @ ss') (r # rest)" "map unline ss' = map unline ss"
    using stmts_read [OF assms(1) us(4), of "r # rest" n "{E_TOK_RBRACE, E_TOK_EOF}" ps "[]"] assms(4) us ps by auto
  then show ?thesis by (auto simp: block_stmts_def expect_def us)
qed

section \<open>One construct after the other\<close>

lemma simple_reads:
  "toks (pr_stmt (SBreak l)) us \<Longrightarrow> sreads us (SBreak l)"
  "toks (pr_stmt (SContinue l)) us \<Longrightarrow> sreads us (SContinue l)"
  "toks (pr_stmt (SNext l w)) us \<Longrightarrow> sreads us (SNext l w)"
  "toks (pr_stmt (SRawEpa l t)) us \<Longrightarrow> sreads us (SRawEpa l t)"
  "toks (pr_stmt (SKernalId l n)) us \<Longrightarrow> sreads us (SKernalId l n)"
  by (auto intro!: sreadsI simp: toks_split starts_def stmt_by_kind_def gives_def semi_stmt_def parse_next_def parse_kernal_id_def
      expect_def xstrdup_string_token_local_def quoted_def Let_def)

lemma dynamic_reads:
  assumes "toks (pr_stmt (SDynamic l dd)) us" and "ok_dynamic dd"
  shows "sreads us (SDynamic l dd)"
proof -
  obtain t vs where us: "us = t # vs" "tk_kind t = E_TOK_KW_DYNAMIC" "toks (pr_dynamic dd) vs" using assms by (auto simp: toks_split)
  show ?thesis using us(2) dynamic_read [OF us(3) assms(2)]
    by (auto intro!: sreadsI simp: us(1) starts_def stmt_by_kind_def gives_def Let_def)
qed

lemma decl_reads:
  assumes "toks (pr_stmt (SDecl l d)) us" and "ok_decl d"
  shows "sreads us (SDecl l d)"
proof (rule sreadsI)
  have t: "toks (pr_decl d) us" using assms by simp
  note r = decl_read [OF t assms(2)]
  show "starts us" using r(3) by (auto simp: starts_def)
  fix n and rest :: "etoken list"
  have "kind_at (us @ rest) = kind_at us" using r(3) by (cases us) auto
  with r show "gives (stmt_by_kind (parse_stmt_n n) (us @ rest)) (SDecl l d) rest"
    by (auto simp: stmt_by_kind_def Let_def gives_def)
qed

lemma expr_reads:
  assumes "toks (pr_stmt (SExpr l e)) us" and "ok_expr e"
  shows "sreads us (SExpr l e)"
proof -
  obtain vs t where us: "us = vs @ [t]" "toks (pr_expr e) vs" "tk_kind t = E_TOK_SEMI" using assms by (auto simp: toks_split)
  note k = expr_first [OF us(2), THEN conjunct2, THEN expr_start_kinds]
  show ?thesis
  proof (rule sreadsI)
    show "starts us" using expr_first [OF us(2)] k [of "[t]"] by (auto simp: us(1) starts_def)
    fix n and rest :: "etoken list"
    show "gives (stmt_by_kind (parse_stmt_n n) (us @ rest)) (SExpr l e) rest"
      using k [of "t # rest"] us expr_plain(1) [OF us(2), of t rest] assms(2)
      by (simp add: stmt_by_kind_def Let_def gives_def expr_semi_read)
  qed
qed

lemma return_reads:
  assumes "toks (pr_stmt (SReturn l v)) us" and "ok_opt v"
  shows "sreads us (SReturn l v)"
proof -
  obtain k vs t where us: "us = k # vs @ [t]" "tk_kind k = E_TOK_KW_RETURN" "toks (pr_opt v) vs" "tk_kind t = E_TOK_SEMI"
    using assms by (auto simp: toks_split)
  have "parse_return (vs @ t # rest) = POk (SReturn 0 v) rest" for rest
    using us(3,4) assms(2) expr_first [of _ vs "t # rest"] expr_start_kinds
    by (cases v) (auto simp: pr_opt_def ok_opt_def toks_split parse_return_def expr_semi_read)
  then show ?thesis using us(2) by (auto intro!: sreadsI simp: us(1) starts_def stmt_by_kind_def gives_def Let_def)
qed

lemma block_reads:
  assumes "\<And>s us. s \<in> set ss \<Longrightarrow> toks (pr_stmt s) us \<Longrightarrow> sreads us s" and "toks (pr_stmt (SBlock l ss)) us"
  shows "sreads us (SBlock l ss)"
proof (rule sreadsI)
  have t: "toks (w_lbrace # concat (map pr_stmt ss) @ [w_rbrace]) us" using assms(2) by simp
  obtain k vs where us: "us = k # vs" "tk_kind k = E_TOK_LBRACE" using t by (auto simp: toks_split)
  show "starts us" by (simp add: us starts_def)
  fix n and rest :: "etoken list" assume n: "length (us @ rest) \<le> n"
  then have "0 < n" using us by auto
  then obtain ss' where "block_stmts (parse_stmt_n n) (us @ rest) = POk ss' rest" "map unline ss' = map unline ss"
    using block_read [OF assms(1) reader_n t n] by blast
  moreover have "stmt_by_kind (parse_stmt_n n) (us @ rest) = parse_block (parse_stmt_n n) (us @ rest)"
    using us by (simp add: stmt_by_kind_def)
  ultimately show "gives (stmt_by_kind (parse_stmt_n n) (us @ rest)) (SBlock l ss) rest"
    by (simp add: gives_def parse_block_def)
qed

lemma static_reads:
  assumes "\<And>s us. s \<in> set ss \<Longrightarrow> toks (pr_stmt s) us \<Longrightarrow> sreads us s" and "toks (pr_stmt (SStaticBlock l ss)) us"
  shows "sreads us (SStaticBlock l ss)"
proof (rule sreadsI)
  obtain k vs where us: "us = k # vs" "tk_kind k = E_TOK_KW_STATIC" and t: "toks (w_lbrace # concat (map pr_stmt ss) @ [w_rbrace]) vs"
    using assms(2) unfolding pr_stmt.simps toks_split(2) [of E_TOK_KW_STATIC] by blast
  obtain b ws where vs: "vs = b # ws" "tk_kind b = E_TOK_LBRACE" using t by (auto simp: toks_split)
  show "starts us" by (simp add: us starts_def)
  fix n and rest :: "etoken list" assume n: "length (us @ rest) \<le> n"
  then have "length (vs @ rest) \<le> n" "0 < n" using us by auto
  then obtain ss' where "block_stmts (parse_stmt_n n) (vs @ rest) = POk ss' rest" "map unline ss' = map unline ss"
    using block_read [OF assms(1) reader_n t] by blast
  moreover have "stmt_by_kind (parse_stmt_n n) (us @ rest) = pmap (SStaticBlock 0) (block_stmts (parse_stmt_n n) (vs @ rest))"
    using us vs by (simp add: stmt_by_kind_def peek_n_def)
  ultimately show "gives (stmt_by_kind (parse_stmt_n n) (us @ rest)) (SStaticBlock l ss) rest"
    by (simp add: gives_def)
qed

lemma gives_sub:
  assumes "sreads us s" and "length (us @ rest) < n" and "open_if s \<longrightarrow> kind_at rest \<noteq> E_TOK_KW_ELSE"
  obtains s' where "parse_stmt_n n (us @ rest) = POk s' rest" and "unline s' = unline s"
proof -
  have "reader n (parse_stmt_n n)" using assms(2) by (intro reader_n) simp
  from readerD [OF this assms] that show thesis by blast
qed

lemma if_reads:
  assumes t: "\<And>us. toks (pr_stmt t) us \<Longrightarrow> sreads us t" and e: "\<And>s us. e = Some s \<Longrightarrow> toks (pr_stmt s) us \<Longrightarrow> sreads us s"
    and "toks (pr_stmt (SIf l c t e)) us" and "ok_expr c" and o: "\<And>s. e = Some s \<Longrightarrow> \<not> open_if t"
  shows "sreads us (SIf l c t e)"
proof -
  obtain k p cs q vs ws where us: "us = k # p # cs @ q # vs @ ws" and k: "tk_kind k = E_TOK_KW_IF" "tk_kind p = E_TOK_LPAREN" "tk_kind q = E_TOK_RPAREN"
    and cs: "toks (pr_expr c) cs" and vs: "toks (pr_stmt t) vs"
    and ws: "toks (case e of None \<Rightarrow> [] | Some s \<Rightarrow> (E_TOK_KW_ELSE, ''else'') # pr_stmt s) ws"
    using assms(3) by (auto simp: toks_split)
  show ?thesis
  proof (rule sreadsI)
    show "starts us" by (simp add: us starts_def k)
    fix n and rest :: "etoken list"
    assume n: "length (us @ rest) \<le> n" and r: "open_if (SIf l c t e) \<longrightarrow> kind_at rest \<noteq> E_TOK_KW_ELSE"
    have "open_if t \<longrightarrow> kind_at (ws @ rest) \<noteq> E_TOK_KW_ELSE" using ws r o by (cases e) (auto simp: toks_split)
    then obtain t' where t': "parse_stmt_n n (vs @ ws @ rest) = POk t' (ws @ rest)" "unline t' = unline t"
      using gives_sub [OF t [OF vs], of "ws @ rest" n] n by (auto simp: us)
    have p: "parse_if_stmt (parse_stmt_n n) (p # cs @ q # vs @ ws @ rest) =
        (if kind_at (ws @ rest) = E_TOK_KW_ELSE then pmap (\<lambda>e. SIf 0 c t' (Some e)) (parse_stmt_n n (tl (ws @ rest)))
         else POk (SIf 0 c t' None) (ws @ rest))"
      using k cs assms(4) t'(1) by (simp add: parse_if_stmt_def expect_def toks_expr)
    have "gives (parse_if_stmt (parse_stmt_n n) (p # cs @ q # vs @ ws @ rest)) (SIf l c t e) rest"
    proof (cases e)
      case None
      with p ws r t'(2) show ?thesis by (simp add: toks_split gives_def)
    next
      case (Some s)
      then obtain h xs where x: "ws = h # xs" "tk_kind h = E_TOK_KW_ELSE" "toks (pr_stmt s) xs" using ws by (auto simp: toks_split)
      obtain s' where "parse_stmt_n n (xs @ rest) = POk s' rest" "unline s' = unline s"
        using gives_sub [OF e [OF Some x(3)], of rest n] n r Some by (auto simp: us x)
      with p x t'(2) Some show ?thesis by (simp add: gives_def)
    qed
    then show "gives (stmt_by_kind (parse_stmt_n n) (us @ rest)) (SIf l c t e) rest"
      using k by (simp add: us stmt_by_kind_def)
  qed
qed

lemma while_reads:
  assumes b: "\<And>us. toks (pr_stmt b) us \<Longrightarrow> sreads us b" and "toks (pr_stmt (SWhile l c b)) us" and "ok_expr c"
  shows "sreads us (SWhile l c b)"
proof -
  obtain k p cs q vs where us: "us = k # p # cs @ q # vs" and k: "tk_kind k = E_TOK_KW_WHILE" "tk_kind p = E_TOK_LPAREN" "tk_kind q = E_TOK_RPAREN"
    and cs: "toks (pr_expr c) cs" and vs: "toks (pr_stmt b) vs"
    using assms(2) by (auto simp: toks_split)
  show ?thesis
  proof (rule sreadsI)
    show "starts us" by (simp add: us starts_def k)
    fix n and rest :: "etoken list"
    assume n: "length (us @ rest) \<le> n" and r: "open_if (SWhile l c b) \<longrightarrow> kind_at rest \<noteq> E_TOK_KW_ELSE"
    then obtain b' where b': "parse_stmt_n n (vs @ rest) = POk b' rest" "unline b' = unline b"
      using gives_sub [OF b [OF vs], of rest n] by (auto simp: us)
    have "parse_while_stmt (parse_stmt_n n) (p # cs @ q # vs @ rest) = POk (SWhile 0 c b') rest"
      using k cs assms(3) b'(1) expr_plain(2) [OF cs, of q "vs @ rest"] by (simp add: parse_while_stmt_def expect_def toks_expr)
    with b'(2) k show "gives (stmt_by_kind (parse_stmt_n n) (us @ rest)) (SWhile l c b) rest"
      by (simp add: us stmt_by_kind_def gives_def)
  qed
qed

lemma foreach_reads:
  assumes b: "\<And>us. toks (pr_stmt b) us \<Longrightarrow> sreads us b" and "toks (pr_stmt (SForeach l v it b)) us"
    and v: "v = foreach_decl (ty_name (dl_type v)) (dl_name v)"
  shows "sreads us (SForeach l v it b)"
proof -
  define hw where "hw = [w_id (ty_name (dl_type v)), w_id (dl_name v), w_assign, w_id ''dynamic_next'', w_lparen, w_id it, w_rparen, w_rparen]"
  have "toks ((E_TOK_KW_WHILE, ''while'') # w_lparen # hw @ pr_stmt b) us" using assms(2) by (simp add: hw_def)
  then obtain k p hs vs where us: "us = k # p # hs @ vs" and k: "tk_kind k = E_TOK_KW_WHILE" "tk_kind p = E_TOK_LPAREN"
    and hs: "toks hw hs" and vs: "toks (pr_stmt b) vs"
    by (auto simp: toks_split)
  show ?thesis
  proof (rule sreadsI)
    show "starts us" by (simp add: us starts_def k)
    fix n and rest :: "etoken list"
    assume n: "length (us @ rest) \<le> n" and r: "open_if (SForeach l v it b) \<longrightarrow> kind_at rest \<noteq> E_TOK_KW_ELSE"
    then obtain b' where b': "parse_stmt_n n (vs @ rest) = POk b' rest" "unline b' = unline b"
      using gives_sub [OF b [OF vs], of rest n] by (auto simp: us)
    obtain a0 a1 a2 a3 a4 a5 a6 a7 where h: "hs = [a0, a1, a2, a3, a4, a5, a6, a7]"
      and a: "tk_kind a0 = E_TOK_IDENT" "tk_text a0 = ty_name (dl_type v)" "tk_kind a1 = E_TOK_IDENT" "tk_text a1 = dl_name v"
        "tk_kind a2 = E_TOK_ASSIGN" "tk_kind a3 = E_TOK_IDENT" "tk_text a3 = ''dynamic_next''" "tk_kind a4 = E_TOK_LPAREN"
        "tk_kind a5 = E_TOK_IDENT" "tk_text a5 = it" "tk_kind a6 = E_TOK_RPAREN" "tk_kind a7 = E_TOK_RPAREN"
      using hs unfolding hw_def toks_split by blast
    have f: "foreach_head (hs @ vs @ rest)" and d: "drop 8 (hs @ vs @ rest) = vs @ rest"
      and i: "tk_text (peek_n 0 (hs @ vs @ rest)) = ty_name (dl_type v)" "tk_text (peek_n 1 (hs @ vs @ rest)) = dl_name v"
        "tk_text (peek_n 5 (hs @ vs @ rest)) = it"
      by (simp_all add: h a foreach_head_def peek_n_def upt_rec)
    have "parse_while_stmt (parse_stmt_n n) (p # hs @ vs @ rest) = POk (SForeach 0 v it b') rest"
      using k f d i b'(1) by (simp add: parse_while_stmt_def expect_def flip: v)
    with b'(2) k show "gives (stmt_by_kind (parse_stmt_n n) (us @ rest)) (SForeach l v it b) rest"
      by (simp add: us stmt_by_kind_def gives_def)
  qed
qed

lemma for_reads:
  assumes b: "\<And>us. toks (pr_stmt b) us \<Longrightarrow> sreads us b" and "toks (pr_stmt (SFor l i c s b)) us"
    and ok: "case i of None \<Rightarrow> True | Some x \<Rightarrow> for_init x" "ok_opt c" "ok_opt s"
  shows "sreads us (SFor l i c s b)"
proof -
  obtain k p fs cs q ss r vs where us: "us = k # p # fs @ cs @ q # ss @ r # vs"
    and k: "tk_kind k = E_TOK_KW_FOR" "tk_kind p = E_TOK_LPAREN" "tk_kind q = E_TOK_SEMI" "tk_kind r = E_TOK_RPAREN"
    and i: "toks (case i of None \<Rightarrow> [w_semi] | Some x \<Rightarrow> pr_stmt x) fs"
    and cs: "toks (pr_opt c) cs" and ss: "toks (pr_opt s) ss" and vs: "toks (pr_stmt b) vs"
    using assms(2) by (auto simp: toks_split)
  show ?thesis
  proof (rule sreadsI)
    show "starts us" by (simp add: us starts_def k)
    fix n and rest :: "etoken list"
    assume n: "length (us @ rest) \<le> n" and o: "open_if (SFor l i c s b) \<longrightarrow> kind_at rest \<noteq> E_TOK_KW_ELSE"
    then obtain b' where b': "parse_stmt_n n (vs @ rest) = POk b' rest" "unline b' = unline b"
      using gives_sub [OF b [OF vs], of rest n] by (auto simp: us)
    obtain i' where i': "parse_for_init_stmt (fs @ cs @ q # ss @ r # vs @ rest) = POk i' (cs @ q # ss @ r # vs @ rest)"
        "map_option unline i' = map_option unline i"
      using for_init_read [OF i ok(1)] by blast
    have "parse_for_stmt (parse_stmt_n n) (p # fs @ cs @ q # ss @ r # vs @ rest) = POk (SFor 0 i' c s b') rest"
      using k i'(1) b'(1) opt_read [OF cs ok(2), of "q # ss @ r # vs @ rest"] opt_read [OF ss ok(3), of "r # vs @ rest"]
      by (simp add: parse_for_stmt_def expect_def)
    with b'(2) i'(2) k show "gives (stmt_by_kind (parse_stmt_n n) (us @ rest)) (SFor l i c s b) rest"
      by (simp add: us stmt_by_kind_def gives_def)
  qed
qed

text \<open>The cases of a switch.\<close>

definition creads :: "etoken list \<Rightarrow> ecase \<Rightarrow> bool" where
  "creads us c \<longleftrightarrow> us \<noteq> [] \<and> kind_at us \<in> {E_TOK_KW_CASE, E_TOK_KW_DEFAULT}
     \<and> (\<forall>n rest cs. length (us @ rest) \<le> n \<longrightarrow> kind_at rest \<in> {E_TOK_KW_CASE, E_TOK_KW_DEFAULT, E_TOK_RBRACE}
          \<longrightarrow> (\<exists>c'. cases_body (parse_stmt_n n) cs (us @ rest) = POk (cs @ [c'], True) rest \<and> unline_case c' = unline_case c))"

lemma case_reads:
  assumes ss: "\<And>s us. s \<in> set ss \<Longrightarrow> toks (pr_stmt s) us \<Longrightarrow> sreads us s"
    and "toks (pr_case (ECase d v ss)) us" and "if d then v = 0 else 0 \<le> v \<and> v < 2 ^ 63"
  shows "creads us (ECase d v ss)"
proof -
  obtain hs t vs where us: "us = hs @ t # vs" and t: "tk_kind t = E_TOK_COLON" and vs: "toks (concat (map pr_stmt ss)) vs"
    and hs: "toks (if d then [(E_TOK_KW_DEFAULT, ''default'')] else [(E_TOK_KW_CASE, ''case''), (E_TOK_INT_LIT, dec_int v)]) hs"
    using assms(2) by (auto simp: toks_split)
  have h: "case_head (hs @ t # r) = POk (d, v) r" for r
    using hs t assms(3) by (cases d) (auto simp: toks_split case_head_def expect_def tok_int_dec)
  have k: "hs \<noteq> [] \<and> kind_at (hs @ r) \<in> {E_TOK_KW_CASE, E_TOK_KW_DEFAULT}" for r
    using hs by (auto simp: toks_split split: if_splits)
  show ?thesis
    unfolding creads_def
  proof (intro conjI allI impI)
    show "us \<noteq> []" by (simp add: us)
    show "kind_at us \<in> {E_TOK_KW_CASE, E_TOK_KW_DEFAULT}" using k [of "t # vs"] by (simp add: us)
    fix n and rest :: "etoken list" and cs
    let ?stop = "{E_TOK_KW_CASE, E_TOK_KW_DEFAULT, E_TOK_RBRACE, E_TOK_EOF}"
    assume n: "length (us @ rest) \<le> n" and r: "kind_at rest \<in> {E_TOK_KW_CASE, E_TOK_KW_DEFAULT, E_TOK_RBRACE}"
    have n': "length (vs @ rest) < n" "0 < n" "kind_at rest \<in> ?stop" using n r by (auto simp: us)
    obtain ss' where "ploop (stmts_body ?stop (parse_stmt_n n)) [] (vs @ rest) = POk ([] @ ss') rest" "map unline ss' = map unline ss"
      using stmts_read [OF ss vs n'(1,3) reader_n [OF n'(2)], of "[]"] by auto
    moreover have "kind_at (us @ rest) \<notin> {E_TOK_RBRACE, E_TOK_EOF}" using k [of "t # vs @ rest"] by (auto simp: us)
    ultimately show "\<exists>c'. cases_body (parse_stmt_n n) cs (us @ rest) = POk (cs @ [c'], True) rest \<and> unline_case c' = unline_case (ECase d v ss)"
      using h by (simp add: cases_body_def us del: parse_stmt_n.simps)
  qed
qed

lemma cases_read:
  assumes "\<And>c us. c \<in> set cs \<Longrightarrow> toks (pr_case c) us \<Longrightarrow> creads us c"
    and "toks (concat (map pr_case cs)) us" and "length (us @ rest) < n" and "kind_at rest = E_TOK_RBRACE"
  shows "\<exists>cs'. ploop (cases_body (parse_stmt_n n)) acc (us @ rest) = POk (acc @ cs') rest \<and> map unline_case cs' = map unline_case cs"
  using assms
proof (induction cs arbitrary: us acc)
  case (Nil us acc)
  have g: "good_upto (n - 1) (parse_stmt_n n)" "length rest \<le> n - 1"
    using Nil.prems(3) stmt_n_good [of "n - 1"] by auto
  have "ploop (cases_body (parse_stmt_n n)) acc rest = POk acc rest"
    using g Nil.prems(4)
    by (subst ploop_unfold [OF cases_turn [where n = "n - 1"]]) (auto simp: cases_body_def simp del: parse_stmt_n.simps)
  with Nil.prems(2) show ?case by (simp add: toks_split)
next
  case (Cons c cs us acc)
  obtain vs ws where us: "us = vs @ ws" "toks (pr_case c) vs" "toks (concat (map pr_case cs)) ws"
    using Cons.prems(2) by (auto simp: toks_split)
  have c: "creads vs c" using Cons.prems(1) us(2) by simp
  have g: "good_upto (n - 1) (parse_stmt_n n)" "length (us @ rest) \<le> n - 1"
    using Cons.prems(3) stmt_n_good [of "n - 1"] by auto
  have f: "kind_at (ws @ rest) \<in> {E_TOK_KW_CASE, E_TOK_KW_DEFAULT, E_TOK_RBRACE}"
  proof (cases cs)
    case Nil
    with us(3) Cons.prems(4) show ?thesis by (simp add: toks_split)
  next
    case (Cons d ds)
    with us(3) obtain xs ys where x: "ws = xs @ ys" "toks (pr_case d) xs" by (auto simp: toks_split)
    have "creads xs d" using Cons.prems(1) [of d xs] Cons x(2) by simp
    then show ?thesis by (cases xs) (auto simp: creads_def x)
  qed
  have l: "length (vs @ ws @ rest) \<le> n" using Cons.prems(3) us by simp
  obtain c' where p: "cases_body (parse_stmt_n n) acc (vs @ ws @ rest) = POk (acc @ [c'], True) (ws @ rest)" "unline_case c' = unline_case c"
    using c l f unfolding creads_def by blast
  obtain cs' where q: "ploop (cases_body (parse_stmt_n n)) (acc @ [c']) (ws @ rest) = POk ((acc @ [c']) @ cs') rest"
      "map unline_case cs' = map unline_case cs"
    using Cons.IH [of ws "acc @ [c']"] Cons.prems(1,3,4) us by auto
  have "ploop (cases_body (parse_stmt_n n)) acc (us @ rest) = ploop (cases_body (parse_stmt_n n)) (acc @ [c']) (ws @ rest)"
    using g p(1) us(1)
    by (subst ploop_unfold [OF cases_turn [where n = "n - 1"]]) (auto simp del: parse_stmt_n.simps)
  with p(2) q show ?case by (auto intro!: exI [of _ "c' # cs'"])
qed

lemma switch_reads:
  assumes "\<And>c us. c \<in> set cs \<Longrightarrow> toks (pr_case c) us \<Longrightarrow> creads us c"
    and "toks (pr_stmt (SSwitch l t cs)) us" and "ok_expr t"
  shows "sreads us (SSwitch l t cs)"
proof -
  obtain k p es q m vs r where us: "us = k # p # es @ q # m # vs @ [r]"
    and k: "tk_kind k = E_TOK_KW_SWITCH" "tk_kind p = E_TOK_LPAREN" "tk_kind q = E_TOK_RPAREN" "tk_kind m = E_TOK_LBRACE" "tk_kind r = E_TOK_RBRACE"
    and es: "toks (pr_expr t) es" and vs: "toks (concat (map pr_case cs)) vs"
    using assms(2) by (auto simp: toks_split)
  show ?thesis
  proof (rule sreadsI)
    show "starts us" by (simp add: us starts_def k)
    fix n and rest :: "etoken list" assume n: "length (us @ rest) \<le> n"
    then have "length (vs @ r # rest) < n" by (simp add: us)
    then obtain cs' where "ploop (cases_body (parse_stmt_n n)) [] (vs @ r # rest) = POk ([] @ cs') (r # rest)"
        "map unline_case cs' = map unline_case cs"
      using cases_read [OF assms(1) vs, of "r # rest" n "[]"] k(5) by auto
    with k es assms(3) show "gives (stmt_by_kind (parse_stmt_n n) (us @ rest)) (SSwitch l t cs) rest"
      by (simp add: us stmt_by_kind_def gives_def parse_switch_stmt_def expect_def toks_expr)
  qed
qed

section \<open>All statements\<close>

lemma stmt_reads_all:
  "ok_stmt s \<Longrightarrow> toks (pr_stmt s) us \<Longrightarrow> sreads us s"
  "ok_case c \<Longrightarrow> toks (pr_case c) us \<Longrightarrow> creads us c"
proof (induction s and c arbitrary: us and us rule: pr_stmt_pr_case.induct)
  case (1 l d)
  then show ?case by (intro decl_reads) simp_all
next
  case (2 l v)
  then show ?case by (intro return_reads) simp_all
next
  case (3 l e)
  then show ?case by (intro expr_reads) simp_all
next
  case (4 l ss)
  then show ?case by (intro block_reads) (auto simp: list_all_iff)
next
  case (5 l c t e)
  then show ?case by (intro if_reads) auto
next
  case (6 l c b)
  then show ?case by (intro while_reads) simp_all
next
  case (7 l i c s b)
  then show ?case by (intro for_reads) simp_all
next
  case (8 l t cs)
  then show ?case by (intro switch_reads) (auto simp: list_all_iff)
next
  case (9 l)
  then show ?case by (intro simple_reads)
next
  case (10 l)
  then show ?case by (intro simple_reads)
next
  case (11 l w)
  then show ?case by (intro simple_reads)
next
  case (12 l t)
  then show ?case by (intro simple_reads)
next
  case (13 l v it b)
  then show ?case by (intro foreach_reads) simp_all
next
  case (14 l dd)
  then show ?case by (intro dynamic_reads) simp_all
next
  case (15 l ss)
  then show ?case by (intro static_reads) (auto simp: list_all_iff)
next
  case (16 l n)
  then show ?case by (intro simple_reads)
next
  case (17 d v ss)
  then show ?case by (intro case_reads) (auto simp: list_all_iff)
qed

section \<open>Printed words can be spelled\<close>

definition fixed_words :: "eword list" where
  "fixed_words = [w_lparen, w_rparen, w_lbrace, w_rbrace, w_lbracket, w_rbracket, w_semi, w_comma, w_colon, w_assign, (E_TOK_DOT, ''.''),
     (E_TOK_PIPE, ''|''), (E_TOK_AT, ''@''), (E_TOK_MINUS, ''-''), (E_TOK_GT, ''>''), w_id ''dynamic_next'', w_id ''attributes'',
     w_id ''in_words'', w_id ''out_words'', w_id ''signal_mail_box_size'',
     w_id ''default_in_words'', w_id ''default_out_words'', w_id ''default_signal_mail_box_size'']
     @ map bin_word [E_BIN_ADD, E_BIN_SUB, E_BIN_MUL, E_BIN_DIV, E_BIN_MOD, E_BIN_EQ, E_BIN_NE, E_BIN_LT, E_BIN_LE, E_BIN_GT, E_BIN_GE]
     @ map un_word [E_UN_PLUS, E_UN_MINUS, E_UN_BITNOT] @ map (\<lambda>(t, k). (k, t)) kw_table"

lemma fixed_words_ok: "list_all ok_word fixed_words"
  by code_simp

declare ok_word.simps [simp del]

lemmas fixed_ok [simp] =
  fixed_words_ok [unfolded fixed_words_def kw_table_def, simplified list.pred_inject list.map append.simps prod.case bin_word.simps un_word.simps]

lemma dec_digits: "list_all c_isdigit (dec_nat n)" "dec_nat n \<noteq> []"
  using dec_nat_digits by blast+

lemma ok_words [simp]:
  "ok_ident n \<Longrightarrow> ok_word (w_id n)" "ok_word (w_u32 u)" "0 \<le> i \<Longrightarrow> ok_word (E_TOK_INT_LIT, dec_int i)"
  "ok_string s \<Longrightarrow> ok_word (E_TOK_STRING_LIT, s)" "balanced 1 t \<Longrightarrow> ok_word (E_TOK_RAW_EPA, t)"
  by (simp_all add: ok_word.simps dec_u32_def dec_int_def dec_digits)

lemma bin_word_ok: "ok_word (bin_word b)" and un_word_ok: "ok_word (un_word u)"
  by (cases b; simp) (cases u; simp)

lemma commas_ok: "(\<And>ws. ws \<in> set wss \<Longrightarrow> list_all P ws) \<Longrightarrow> P w_comma \<Longrightarrow> list_all P (commas wss)"
  by (induction wss rule: commas.induct) auto

lemma paren_ok: "list_all ok_word ws \<Longrightarrow> list_all ok_word (paren l e ws)"
  by (simp add: paren_def)

lemma expr_words_ok: "ok_expr e \<Longrightarrow> list_all ok_word (pr_expr e)"
proof (induction e)
  case (ECall f args)
  then have "list_all ok_word (commas (map pr_expr args))" by (intro commas_ok) (auto simp: list_all_iff)
  with ECall show ?case by simp
next
  case (ESlice b s e)
  then show ?case by (cases s; cases e) auto
qed (auto simp: bin_word_ok un_word_ok intro!: paren_ok)

lemma type_words_ok: "ok_type t \<Longrightarrow> list_all ok_word (pr_type t)"
  by (auto simp: ok_type_def pr_type_def list_all_iff)

lemma decl_words_ok: "ok_decl d \<Longrightarrow> list_all ok_word (pr_decl d)"
  by (auto simp: ok_decl_def pr_decl_def pr_class_def type_words_ok expr_words_ok split: decl_class.split option.splits)

lemma dynamic_words_ok: "ok_dynamic dd \<Longrightarrow> list_all ok_word (pr_dynamic dd)"
  by (simp add: ok_dynamic_def pr_dynamic_def type_words_ok)

lemma opt_words_ok: "ok_opt e \<Longrightarrow> list_all ok_word (pr_opt e)"
  by (simp add: ok_opt_def pr_opt_def expr_words_ok split: option.splits)

lemma list_all_concat_map: "(\<And>x. x \<in> set xs \<Longrightarrow> list_all P (f x)) \<Longrightarrow> list_all P (concat (map f xs))"
  by (auto simp: list_all_iff)

lemma stmt_words_ok:
  "ok_stmt s \<Longrightarrow> list_all ok_word (pr_stmt s)"
  "ok_case c \<Longrightarrow> list_all ok_word (pr_case c)"
proof (induction s and c rule: pr_stmt_pr_case.induct)
  case (5 l c t e)
  then show ?case by (cases e) (auto simp: expr_words_ok)
next
  case (7 l i c s b)
  then show ?case by (cases i; cases "the i") (auto simp: opt_words_ok decl_words_ok expr_words_ok)
next
  case (4 l ss)
  then have "list_all ok_word (concat (map pr_stmt ss))" by (intro list_all_concat_map) (simp add: list_all_iff)
  then show ?case by simp
next
  case (8 l t cs)
  then have "list_all ok_word (concat (map pr_case cs))" by (intro list_all_concat_map) (simp add: list_all_iff)
  with 8 show ?case by (simp add: expr_words_ok)
next
  case (15 l ss)
  then have "list_all ok_word (concat (map pr_stmt ss))" by (intro list_all_concat_map) (simp add: list_all_iff)
  then show ?case by simp
next
  case (17 d v ss)
  then have "list_all ok_word (concat (map pr_stmt ss))" by (intro list_all_concat_map) (simp add: list_all_iff)
  with 17 show ?case by (simp split: if_splits)
qed (simp_all add: opt_words_ok decl_words_ok expr_words_ok dynamic_words_ok)

end
