(* ===== verification/EPrintProg.thy ===== *)
theory EPrintProg
  imports EPrintStmt
begin

text \<open>
  Printing of declarations and programs, and the round trip through the lexer and the parser.
\<close>

section \<open>Printing\<close>

definition pr_param :: "eparam \<Rightarrow> eword list" where
  "pr_param p = pr_type (pm_type p) @ [w_id (pm_name p)]"

fun pr_params :: "eparam list \<Rightarrow> bool \<Rightarrow> eword list" where
  "pr_params [] v = (if v then replicate 3 (E_TOK_DOT, ''.'') else []) @ [w_rparen]"
| "pr_params (p # ps) v = pr_param p @ (if ps = [] \<and> \<not> v then [w_rparen] else w_comma # pr_params ps v)"

definition ok_param :: "eparam \<Rightarrow> bool" where
  "ok_param p \<longleftrightarrow> ok_type (pm_type p) \<and> ok_ident (pm_name p)"

fun ok_body :: "estmt \<Rightarrow> bool" where
  "ok_body (SBlock l ss) \<longleftrightarrow> list_all ok_stmt ss" | "ok_body s \<longleftrightarrow> False"

definition pr_attr :: "string \<Rightarrow> u32 option \<Rightarrow> eword list" where
  "pr_attr n v = (case v of None \<Rightarrow> [] | Some u \<Rightarrow> [w_id n, w_colon, w_u32 u])"

definition pr_attrs :: "entry_attrs \<Rightarrow> eword list" where
  "pr_attrs a = (if a = no_attrs then [] else (E_TOK_AT, ''@'') # w_id ''attributes''
     # pr_attr ''in_words'' (ea_in a) @ pr_attr ''out_words'' (ea_out a) @ pr_attr ''signal_mail_box_size'' (ea_mailbox a))"

text \<open>The name of a remote kernel is a string literal where it is not an identifier.\<close>

fun pr_acl :: "string \<times> string \<Rightarrow> eword list" where
  "pr_acl (r, w) = [if ok_ident r then w_id r else (E_TOK_STRING_LIT, quoted r), (E_TOK_MINUS, ''-''), (E_TOK_GT, ''>''), w_id w, w_semi]"

fun ok_acl :: "string \<times> string \<Rightarrow> bool" where
  "ok_acl (r, w) \<longleftrightarrow> (ok_ident r \<or> ok_string (quoted r)) \<and> ok_ident w"

definition declare_name :: "edeclare_kind \<Rightarrow> string" where
  "declare_name k = (case k of E_DECLARE_DEFAULT_IN_WORDS \<Rightarrow> ''default_in_words''
     | E_DECLARE_DEFAULT_OUT_WORDS \<Rightarrow> ''default_out_words''
     | E_DECLARE_DEFAULT_SIGNAL_MAIL_BOX_SIZE \<Rightarrow> ''default_signal_mail_box_size'')"

fun pr_top :: "etop \<Rightarrow> eword list" where
  "pr_top (TopStruct n) = [(E_TOK_KW_STRUCT, ''struct''), w_id n, w_semi]"
| "pr_top (TopKernel k) = pr_attrs (kn_attrs k) @ (E_TOK_KW_KERNEL, ''kernel'') # w_lparen # pr_params (kn_params k) False @ pr_stmt (kn_body k)
     @ (if kn_acl k = [] then [] else (E_TOK_KW_ACL, ''acl'') # w_lbrace # concat (map pr_acl (kn_acl k)) @ [w_rbrace])"
| "pr_top (TopWorker w) = pr_attrs (wk_attrs w) @ (E_TOK_KW_WORKER, ''worker'') # w_id (wk_name w) # w_lparen
     # pr_params (wk_params w) False @ pr_stmt (wk_body w)"
| "pr_top (TopFunction f) = (E_TOK_KW_FUNCTION, ''function'') # pr_type (fn_return f) @ w_id (fn_name f) # w_lparen
     # pr_params (fn_params f) (fn_variadic f) @ pr_stmt (fn_body f)"
| "pr_top (TopType t) = (E_TOK_KW_TYPE, ''type'') # w_id (td_name t) # w_lparen # pr_params (td_params t) False @ pr_stmt (td_body t)"
| "pr_top (TopDeclare k v) = [(E_TOK_KW_DECLARE, ''declare''), w_id (declare_name k), w_u32 v, w_semi]"
| "pr_top (TopDynamic dd) = (E_TOK_KW_DYNAMIC, ''dynamic'') # pr_dynamic dd"
| "pr_top (TopAtEntry f) = (E_TOK_KW_AT_ENTRY, ''at_entry'') # w_id (fn_name f) # w_lparen # pr_params (fn_params f) False @ pr_stmt (fn_body f)"

fun ok_top :: "etop \<Rightarrow> bool" where
  "ok_top (TopStruct n) \<longleftrightarrow> ok_ident n"
| "ok_top (TopKernel k) \<longleftrightarrow> list_all ok_param (kn_params k) \<and> ok_body (kn_body k) \<and> list_all ok_acl (kn_acl k)"
| "ok_top (TopWorker w) \<longleftrightarrow> ok_ident (wk_name w) \<and> list_all ok_param (wk_params w) \<and> ok_body (wk_body w)"
| "ok_top (TopFunction f) \<longleftrightarrow> ok_type (fn_return f) \<and> ok_ident (fn_name f) \<and> list_all ok_param (fn_params f) \<and> ok_body (fn_body f)"
| "ok_top (TopType t) \<longleftrightarrow> ok_ident (td_name t) \<and> list_all ok_param (td_params t) \<and> ok_body (td_body t)"
| "ok_top (TopDeclare k v) \<longleftrightarrow> True"
| "ok_top (TopDynamic dd) \<longleftrightarrow> ok_dynamic dd"
| "ok_top (TopAtEntry f) \<longleftrightarrow> ok_ident (fn_name f) \<and> list_all ok_param (fn_params f) \<and> ok_body (fn_body f)
     \<and> fn_return f = plain_type ''void'' \<and> \<not> fn_variadic f"

fun unline_top :: "etop \<Rightarrow> etop" where
  "unline_top (TopKernel k) = TopKernel (k\<lparr>kn_body := unline (kn_body k)\<rparr>)"
| "unline_top (TopWorker w) = TopWorker (w\<lparr>wk_body := unline (wk_body w)\<rparr>)"
| "unline_top (TopFunction f) = TopFunction (f\<lparr>fn_body := unline (fn_body f)\<rparr>)"
| "unline_top (TopType t) = TopType (t\<lparr>td_body := unline (td_body t)\<rparr>)"
| "unline_top (TopAtEntry f) = TopAtEntry (f\<lparr>fn_body := unline (fn_body f)\<rparr>)"
| "unline_top t = t"

definition pr_program :: "eprogram \<Rightarrow> eword list" where
  "pr_program p = concat (map pr_top p)"

section \<open>Reading the parts of a declaration\<close>

lemma body_read:
  assumes "toks (pr_stmt b) us" and "ok_body b"
  shows "\<exists>b'. parse_block parse_stmt (us @ rest) = POk b' rest \<and> unline b' = unline b"
proof -
  obtain l ss where b: "b = SBlock l ss" "list_all ok_stmt ss" using assms(2) by (cases b) auto
  have "\<exists>ss'. block_stmts parse_stmt (us @ rest) = POk ss' rest \<and> map unline ss' = map unline ss"
    using assms(1) b by (intro block_read [OF stmt_reads_all(1) reader_top _ order_refl]) (auto simp: list_all_iff)
  then show ?thesis by (auto simp: parse_block_def b)
qed

lemma type_ident: "toks (pr_type t) us \<Longrightarrow> us \<noteq> [] \<and> kind_at (us @ r) = E_TOK_IDENT"
  by (auto simp: pr_type_def toks_split)

lemma param_read:
  assumes "toks (pr_param p) us" and "ok_param p"
  shows "param_body allow (acc, v) (us @ rest) =
     (let st' = (acc @ [p], v) in
      if kind_at rest = E_TOK_RPAREN then POk (st', False) (tl rest)
      else pbind (expect E_TOK_COMMA ''expected , or )'' rest) (\<lambda>_ ts. POk (st', True) ts))"
proof -
  obtain vs t where us: "us = vs @ [t]" "toks (pr_type (pm_type p)) vs" "tk_kind t = E_TOK_IDENT" "tk_text t = pm_name p"
    using assms(1) by (auto simp: pr_param_def toks_split)
  obtain u vs' where v: "vs = u # vs'" "tk_kind u = E_TOK_IDENT" using type_ident [OF us(2), of "[]"] by (cases vs) auto
  have "\<not> match_ellipsis (us @ rest)" by (simp add: match_ellipsis_def us v)
  moreover have "parse_type (us @ rest) = POk (pm_type p) (t # rest)"
    using type_read [OF us(2), of "t # rest"] assms(2) us by (simp add: ok_param_def)
  moreover have e: "\<lparr>pm_type = pm_type p, pm_name = pm_name p\<rparr> = p" by simp
  ultimately show ?thesis using us(3,4) by (simp add: param_body_def expect_def Let_def e)
qed

lemma params_loop:
  "toks (pr_params ps v) us \<Longrightarrow> list_all ok_param ps \<Longrightarrow> (v \<longrightarrow> allow) \<Longrightarrow> ps \<noteq> [] \<or> v
    \<Longrightarrow> ploop (param_body allow) (acc, False) (us @ rest) = POk (acc @ ps, v) rest"
proof (induction ps v arbitrary: us acc rule: pr_params.induct)
  case (1 v)
  then obtain a b c d where "us = [a, b, c, d]" "tk_kind a = E_TOK_DOT" "tk_kind b = E_TOK_DOT" "tk_kind c = E_TOK_DOT" "tk_kind d = E_TOK_RPAREN"
    by (auto simp: toks_split numeral_3_eq_3)
  with 1 show ?case
    by (subst ploop_unfold [OF param_turn]) (simp add: param_body_def match_ellipsis_def expect_def numeral_3_eq_3 numeral_2_eq_2)
next
  case (2 p ps v)
  obtain vs t ws where us: "us = vs @ t # ws" "toks (pr_param p) vs"
    and k: "if ps = [] \<and> \<not> v then tk_kind t = E_TOK_RPAREN \<and> ws = [] else tk_kind t = E_TOK_COMMA \<and> toks (pr_params ps v) ws"
    using "2.prems"(1) by (auto simp: toks_split split: if_splits)
  have p: "param_body allow (acc, False) (us @ rest) = (if tk_kind t = E_TOK_RPAREN then POk ((acc @ [p], False), False) (ws @ rest)
      else pbind (expect E_TOK_COMMA ''expected , or )'' (t # ws @ rest)) (\<lambda>_ ts. POk ((acc @ [p], False), True) ts))"
    using param_read [OF us(2), of allow acc False "t # ws @ rest"] "2.prems"(2) by (simp add: us Let_def)
  show ?case
  proof (cases "ps = [] \<and> \<not> v")
    case True
    with k p show ?thesis by (subst ploop_unfold [OF param_turn]) simp
  next
    case False
    with k "2.IH" [of ws "acc @ [p]"] "2.prems" p show ?thesis
      by (subst ploop_unfold [OF param_turn]) (auto simp: expect_def)
  qed
qed

lemma params_start:
  assumes "toks (pr_params ps v) us"
  shows "kind_at (us @ rest) = E_TOK_RPAREN \<longleftrightarrow> ps = [] \<and> \<not> v"
  using assms type_ident by (cases ps) (auto simp: toks_split pr_param_def numeral_3_eq_3 split: if_splits)

lemma params_read:
  assumes "toks (pr_params ps v) us" and "list_all ok_param ps" and "v \<longrightarrow> allow"
  shows "parse_param_list_ex allow (us @ rest) = POk (ps, v) rest"
proof (cases "ps = [] \<and> \<not> v")
  case True
  with assms(1) show ?thesis by (auto simp: toks_split parse_param_list_ex_def)
next
  case False
  with params_start [OF assms(1), of rest] params_loop [OF assms, of "[]" rest] show ?thesis by (auto simp: parse_param_list_ex_def)
qed

lemma params_and_body_read:
  assumes "toks (w_lparen # pr_params ps False @ pr_stmt b) us" and "list_all ok_param ps" and "ok_body b"
  shows "\<exists>b'. params_and_body (us @ rest) = POk (ps, b') rest \<and> unline b' = unline b"
proof -
  obtain l vs ws where us: "us = l # vs @ ws" "tk_kind l = E_TOK_LPAREN" "toks (pr_params ps False) vs" "toks (pr_stmt b) ws"
    using assms(1) by (auto simp: toks_split)
  obtain b' where "parse_block parse_stmt (ws @ rest) = POk b' rest" "unline b' = unline b" using body_read [OF us(4) assms(3)] by blast
  with us(2) params_read [OF us(3) assms(2), of False "ws @ rest"] show ?thesis
    by (simp add: us(1) params_and_body_def parse_param_list_def expect_def)
qed

lemma attr_end: "kind_at r \<noteq> E_TOK_IDENT \<Longrightarrow> ploop attr_body a r = POk a r"
  by (subst ploop_unfold [OF attr_turn]) (simp add: attr_body_def)

lemma attr_step:
  assumes "tk_kind n = E_TOK_IDENT" and "tk_kind c = E_TOK_COLON" and "tk_kind v = E_TOK_INT_LIT"
    and "apply_entry_attribute a n (tok_u32 (tk_text v)) = Inr a'"
  shows "ploop attr_body a (n # c # v # r) = ploop attr_body a' r"
  using assms by (subst ploop_unfold [OF attr_turn]) (simp add: attr_body_def expect_def)

lemma attrs_end: "kind_at r \<noteq> E_TOK_AT \<Longrightarrow> ploop attrs_body a r = POk a r"
  by (subst ploop_unfold [OF attrs_turn]) (simp add: attrs_body_def)

lemma attr_read:
  assumes "toks (pr_attr n v) us" and "\<And>t u. tk_text t = n \<Longrightarrow> v = Some u \<Longrightarrow> apply_entry_attribute a t u = Inr b" and "v = None \<Longrightarrow> b = a"
  shows "ploop attr_body a (us @ rest) = ploop attr_body b rest"
  using assms by (cases v) (auto simp: pr_attr_def toks_split tok_u32_dec intro!: attr_step)

lemma attrs_read:
  assumes "toks (pr_attrs a) us" and k: "kind_at rest \<notin> {E_TOK_AT, E_TOK_IDENT}"
  shows "ploop attrs_body no_attrs (us @ rest) = POk a rest"
proof (cases "a = no_attrs")
  case True
  with assms show ?thesis by (simp add: pr_attrs_def toks_split attrs_end)
next
  case False
  then obtain t n xs ys zs where us: "us = t # n # xs @ ys @ zs" "tk_kind t = E_TOK_AT" "tk_kind n = E_TOK_IDENT" "tk_text n = ''attributes''"
    and x: "toks (pr_attr ''in_words'' (ea_in a)) xs" "toks (pr_attr ''out_words'' (ea_out a)) ys"
      "toks (pr_attr ''signal_mail_box_size'' (ea_mailbox a)) zs"
    using assms(1) by (auto simp: pr_attrs_def toks_split)
  let ?a = "\<lparr>ea_in = ea_in a, ea_out = None, ea_mailbox = None\<rparr>"
  let ?b = "\<lparr>ea_in = ea_in a, ea_out = ea_out a, ea_mailbox = None\<rparr>"
  have "ploop attr_body no_attrs (xs @ ys @ zs @ rest) = ploop attr_body ?a (ys @ zs @ rest)"
    using x(1) by (rule attr_read) (auto simp: apply_entry_attribute_def no_attrs_def)
  also have "\<dots> = ploop attr_body ?b (zs @ rest)"
    using x(2) by (rule attr_read) (auto simp: apply_entry_attribute_def)
  also have "\<dots> = ploop attr_body a rest"
    using x(3) by (rule attr_read) (auto simp: apply_entry_attribute_def)
  also have "\<dots> = POk a rest" using k by (simp add: attr_end)
  finally have "parse_entry_attributes no_attrs (n # xs @ ys @ zs @ rest) = POk a rest"
    using us by (simp add: parse_entry_attributes_def expect_def)
  then show ?thesis
    using us k by (subst ploop_unfold [OF attrs_turn]) (simp add: attrs_body_def attrs_end)
qed

lemma acl_read:
  "toks (concat (map pr_acl es)) us \<Longrightarrow> kind_at rest = E_TOK_RBRACE
    \<Longrightarrow> ploop (acl_body False) (False, acc) (us @ rest) = POk (False, acc @ es) rest"
proof (induction es arbitrary: us acc)
  case Nil
  then show ?case by (subst ploop_unfold [OF acl_turn]) (simp add: acl_body_def toks_split)
next
  case (Cons e es)
  obtain r w where e: "e = (r, w)" by (cases e)
  obtain a b c d s vs where us: "us = a # b # c # d # s # vs"
    and a: "if ok_ident r then tk_kind a = E_TOK_IDENT \<and> tk_text a = r else tk_kind a = E_TOK_STRING_LIT \<and> tk_text a = quoted r"
    and k: "tk_kind b = E_TOK_MINUS" "tk_kind c = E_TOK_GT" "tk_kind d = E_TOK_IDENT" "tk_text d = w" "tk_kind s = E_TOK_SEMI"
    and vs: "toks (concat (map pr_acl es)) vs"
    using Cons.prems(1) by (cases "ok_ident r") (auto simp: toks_split e)
  have "acl_body False (False, acc) (us @ rest) = POk ((False, acc @ [(r, w)]), True) (vs @ rest)"
    using a k by (simp add: acl_body_def us expect_def Let_def xstrdup_string_token_local_def quoted_def split: if_splits)
  with Cons.IH [OF vs Cons.prems(2), of "acc @ [(r, w)]"] show ?case
    by (subst ploop_unfold [OF acl_turn]) (simp add: e)
qed

section \<open>Reading declarations\<close>

text \<open>One declaration, read in one or two turns of the main loop, which goes on behind it. The pointer to the
  current kernel is the index of the last kernel.\<close>

definition is_kernel :: "etop \<Rightarrow> bool" where
  "is_kernel t \<longleftrightarrow> (case t of TopKernel k \<Rightarrow> True | _ \<Rightarrow> False)"

lemma is_kernel_simps [simp]:
  "is_kernel (TopKernel k)" "\<not> is_kernel (TopStruct n)" "\<not> is_kernel (TopWorker w)" "\<not> is_kernel (TopFunction f)"
  "\<not> is_kernel (TopType d)" "\<not> is_kernel (TopDeclare e v)" "\<not> is_kernel (TopDynamic dd)" "\<not> is_kernel (TopAtEntry f)"
  by (simp_all add: is_kernel_def)

definition push_read :: "prog_state \<Rightarrow> etop \<Rightarrow> etop \<Rightarrow> prog_state" where
  "push_read st t t' = st\<lparr>pg_items := pg_items st @ [t'], pg_cur := (if is_kernel t then Some (length (pg_items st)) else pg_cur st)\<rparr>"

definition takes :: "etoken list \<Rightarrow> etop \<Rightarrow> bool" where
  "takes us t \<longleftrightarrow> (\<forall>st rest. \<exists>t'. unline_top t' = unline_top t
     \<and> ploop top_body st (us @ rest) = ploop top_body (push_read st t t') rest)"

lemma turn_plain:
  assumes "kind_at ts \<notin> {E_TOK_EOF, E_TOK_AT}" and "top_decl st no_attrs ts = POk (st', True) r"
  shows "ploop top_body st ts = ploop top_body st' r"
  using assms by (subst ploop_unfold [OF top_turn]) (simp add: top_body_def attrs_end)

lemma turn_attrs:
  assumes "toks (pr_attrs a) us" and "kind_at ts \<notin> {E_TOK_EOF, E_TOK_AT, E_TOK_IDENT}" and "top_decl st a ts = POk (st', True) r"
  shows "ploop top_body st (us @ ts) = ploop top_body st' r"
proof -
  have "kind_at (us @ ts) \<noteq> E_TOK_EOF" using assms(1,2) by (auto simp: pr_attrs_def toks_split split: if_splits)
  with attrs_read [OF assms(1), of ts] assms(2,3) show ?thesis
    by (subst ploop_unfold [OF top_turn]) (simp add: top_body_def)
qed

lemma takesI:
  assumes "us \<noteq> []" and "kind_at us \<notin> {E_TOK_EOF, E_TOK_AT}" and "\<not> is_kernel t"
    and "\<And>st rest. \<exists>t'. unline_top t' = unline_top t \<and> top_decl st no_attrs (us @ rest) = POk (push_top st t', True) rest"
  shows "takes us t"
  unfolding takes_def
proof (intro allI)
  fix st rest
  obtain t' where t: "unline_top t' = unline_top t" "top_decl st no_attrs (us @ rest) = POk (push_top st t', True) rest"
    using assms(4) by blast
  have "kind_at (us @ rest) = kind_at us" using assms(1) by (cases us) auto
  with turn_plain [of "us @ rest", OF _ t(2)] assms(2,3) t(1)
  show "\<exists>t'. unline_top t' = unline_top t \<and> ploop top_body st (us @ rest) = ploop top_body (push_read st t t') rest"
    by (intro exI [of _ t']) (simp add: push_top_def push_read_def)
qed

lemma declare_kind_name: "declare_kind (declare_name k) = Some k"
  by (cases k) (simp_all add: declare_kind_def declare_name_def)

lemma small_tops_take:
  "toks (pr_top (TopStruct n)) us \<Longrightarrow> takes us (TopStruct n)"
  "toks (pr_top (TopDeclare k v)) us \<Longrightarrow> takes us (TopDeclare k v)"
  "toks (pr_top (TopDynamic dd)) us \<Longrightarrow> ok_dynamic dd \<Longrightarrow> takes us (TopDynamic dd)"
  by (auto intro!: takesI simp: toks_split top_decl_def Let_def parse_struct_def parse_declare_def expect_def declare_kind_name tok_u32_dec dynamic_read)

lemma type_takes:
  assumes "toks (pr_top (TopType t)) us" and "ok_top (TopType t)"
  shows "takes us (TopType t)"
proof -
  obtain k n vs where us: "us = k # n # vs" "tk_kind k = E_TOK_KW_TYPE" "tk_kind n = E_TOK_IDENT" "tk_text n = td_name t"
    and vs: "toks (w_lparen # pr_params (td_params t) False @ pr_stmt (td_body t)) vs"
    using assms(1) unfolding pr_top.simps toks_split(2) [of E_TOK_KW_TYPE] toks_split(2) [of E_TOK_IDENT] by blast
  show ?thesis
  proof (rule takesI)
    fix st and rest :: "etoken list"
    obtain b' where "params_and_body (vs @ rest) = POk (td_params t, b') rest" "unline b' = unline (td_body t)"
      using params_and_body_read [OF vs] assms(2) by auto
    with us show "\<exists>t'. unline_top t' = unline_top (TopType t) \<and> top_decl st no_attrs (us @ rest) = POk (push_top st t', True) rest"
      by (intro exI [of _ "TopType (t\<lparr>td_body := b'\<rparr>)"]) (simp add: top_decl_def Let_def parse_type_decl_def expect_def push_top_def)
  qed (simp_all add: us)
qed

lemma at_entry_takes:
  assumes "toks (pr_top (TopAtEntry f)) us" and "ok_top (TopAtEntry f)"
  shows "takes us (TopAtEntry f)"
proof -
  obtain k n vs where us: "us = k # n # vs" "tk_kind k = E_TOK_KW_AT_ENTRY" "tk_kind n = E_TOK_IDENT" "tk_text n = fn_name f"
    and vs: "toks (w_lparen # pr_params (fn_params f) False @ pr_stmt (fn_body f)) vs"
    using assms(1) unfolding pr_top.simps toks_split(2) [of E_TOK_KW_AT_ENTRY] toks_split(2) [of E_TOK_IDENT] by blast
  show ?thesis
  proof (rule takesI)
    fix st and rest :: "etoken list"
    obtain b' where "params_and_body (vs @ rest) = POk (fn_params f, b') rest" "unline b' = unline (fn_body f)"
      using params_and_body_read [OF vs] assms(2) by auto
    with us assms(2) show "\<exists>t'. unline_top t' = unline_top (TopAtEntry f) \<and> top_decl st no_attrs (us @ rest) = POk (push_top st t', True) rest"
      by (intro exI [of _ "TopAtEntry (f\<lparr>fn_body := b'\<rparr>)"]) (simp add: top_decl_def Let_def parse_at_entry_def expect_def push_top_def)
  qed (simp_all add: us)
qed

lemma function_takes:
  assumes "toks (pr_top (TopFunction f)) us" and "ok_top (TopFunction f)"
  shows "takes us (TopFunction f)"
proof -
  obtain k ts n l vs ws where us: "us = k # ts @ n # l # vs @ ws" "tk_kind k = E_TOK_KW_FUNCTION" "tk_kind n = E_TOK_IDENT" "tk_text n = fn_name f"
      "tk_kind l = E_TOK_LPAREN"
    and ts: "toks (pr_type (fn_return f)) ts" and vs: "toks (pr_params (fn_params f) (fn_variadic f)) vs" and ws: "toks (pr_stmt (fn_body f)) ws"
    using assms(1) by (auto simp: toks_split)
  show ?thesis
  proof (rule takesI)
    fix st and rest :: "etoken list"
    obtain b' where b: "parse_block parse_stmt (ws @ rest) = POk b' rest" "unline b' = unline (fn_body f)"
      using body_read [OF ws] assms(2) by auto
    have t: "parse_type (ts @ n # r) = POk (fn_return f) (n # r)" for r
      using type_read [OF ts, of "n # r"] assms(2) us(3) by simp
    show "\<exists>t'. unline_top t' = unline_top (TopFunction f) \<and> top_decl st no_attrs (us @ rest) = POk (push_top st t', True) rest"
      using us b t params_read [OF vs, of True "ws @ rest"] assms(2)
      by (intro exI [of _ "TopFunction (f\<lparr>fn_body := b'\<rparr>)"]) (simp add: top_decl_def Let_def parse_function_def expect_def push_top_def)
  qed (simp_all add: us)
qed

lemma worker_takes:
  assumes "toks (pr_top (TopWorker w)) us" and "ok_top (TopWorker w)"
  shows "takes us (TopWorker w)"
  unfolding takes_def
proof (intro allI)
  fix st :: prog_state and rest :: "etoken list"
  obtain as k n vs where us: "us = as @ k # n # vs" "tk_kind k = E_TOK_KW_WORKER" "tk_kind n = E_TOK_IDENT" "tk_text n = wk_name w"
    and as: "toks (pr_attrs (wk_attrs w)) as" and vs: "toks (w_lparen # pr_params (wk_params w) False @ pr_stmt (wk_body w)) vs"
    using assms(1) unfolding pr_top.simps toks_split(3) [of "pr_attrs _"] toks_split(2) [of E_TOK_KW_WORKER] toks_split(2) [of E_TOK_IDENT] by blast
  obtain b' where b: "params_and_body (vs @ rest) = POk (wk_params w, b') rest" "unline b' = unline (wk_body w)"
    using params_and_body_read [OF vs] assms(2) by auto
  have "top_decl st (wk_attrs w) (k # n # vs @ rest) = POk (push_top st (TopWorker (w\<lparr>wk_body := b'\<rparr>)), True) rest"
    using us b by (simp add: top_decl_def Let_def parse_worker_def expect_def push_top_def)
  from turn_attrs [OF as _ this] us b
  show "\<exists>t'. unline_top t' = unline_top (TopWorker w)
     \<and> ploop top_body st (us @ rest) = ploop top_body (push_read st (TopWorker w) t') rest"
    by (intro exI [of _ "TopWorker (w\<lparr>wk_body := b'\<rparr>)"]) (simp add: push_top_def push_read_def)
qed

lemma acl_block_read:
  assumes "toks (w_lbrace # concat (map pr_acl es) @ [w_rbrace]) us"
  shows "parse_kernel_acl_block False (us @ rest) = POk (False, es) rest"
proof -
  obtain l vs r where us: "us = l # vs @ [r]" "tk_kind l = E_TOK_LBRACE" "tk_kind r = E_TOK_RBRACE" "toks (concat (map pr_acl es)) vs"
    using assms by (auto simp: toks_split)
  then show ?thesis using acl_read [OF us(4), of "r # rest" "[]"] by (simp add: parse_kernel_acl_block_def expect_def)
qed

lemma kernel_takes:
  assumes "toks (pr_top (TopKernel k)) us" and "ok_top (TopKernel k)"
  shows "takes us (TopKernel k)"
  unfolding takes_def
proof (intro allI)
  fix st :: prog_state and rest :: "etoken list"
  let ?acl = "if kn_acl k = [] then [] else (E_TOK_KW_ACL, ''acl'') # w_lbrace # concat (map pr_acl (kn_acl k)) @ [w_rbrace]"
  have "toks (pr_attrs (kn_attrs k) @ (E_TOK_KW_KERNEL, ''kernel'') # (w_lparen # pr_params (kn_params k) False @ pr_stmt (kn_body k)) @ ?acl) us"
    using assms(1) by simp
  then obtain as t vs ws where us: "us = as @ t # vs @ ws" "tk_kind t = E_TOK_KW_KERNEL"
    and as: "toks (pr_attrs (kn_attrs k)) as" and vs: "toks (w_lparen # pr_params (kn_params k) False @ pr_stmt (kn_body k)) vs" and ws: "toks ?acl ws"
    unfolding toks_split(3) [of "pr_attrs _"] toks_split(2) [of E_TOK_KW_KERNEL] toks_split(3) [of "w_lparen # _"] by blast
  obtain b' where b: "params_and_body (vs @ ws @ rest) = POk (kn_params k, b') (ws @ rest)" "unline b' = unline (kn_body k)"
    using params_and_body_read [OF vs] assms(2) by auto
  let ?k = "k\<lparr>kn_body := b', kn_acl := []\<rparr>"
  let ?st = "st\<lparr>pg_items := pg_items st @ [TopKernel ?k], pg_cur := Some (length (pg_items st))\<rparr>"
  have "top_decl st (kn_attrs k) (t # vs @ ws @ rest) = POk (?st, True) (ws @ rest)"
    using us b by (simp add: top_decl_def Let_def parse_kernel_def push_top_def)
  from turn_attrs [OF as _ this] us have 1: "ploop top_body st (us @ rest) = ploop top_body ?st (ws @ rest)" by simp
  show "\<exists>t'. unline_top t' = unline_top (TopKernel k)
     \<and> ploop top_body st (us @ rest) = ploop top_body (push_read st (TopKernel k) t') rest"
  proof (cases "kn_acl k = []")
    case True
    with 1 ws b(2) show ?thesis
      by (intro exI [of _ "TopKernel ?k"]) (simp add: toks_split push_read_def)
  next
    case False
    then have "toks ((E_TOK_KW_ACL, ''acl'') # w_lbrace # concat (map pr_acl (kn_acl k)) @ [w_rbrace]) ws" using ws by simp
    then obtain c xs where x: "ws = c # xs" "tk_kind c = E_TOK_KW_ACL" "toks (w_lbrace # concat (map pr_acl (kn_acl k)) @ [w_rbrace]) xs"
      unfolding toks_split(2) [of E_TOK_KW_ACL] by blast
    have "top_decl ?st no_attrs (c # xs @ rest) = POk (st\<lparr>pg_items := pg_items st @ [TopKernel (k\<lparr>kn_body := b'\<rparr>)],
        pg_cur := Some (length (pg_items st))\<rparr>, True) rest"
      using x(2) acl_block_read [OF x(3), of rest] False
      by (simp add: top_decl_def Let_def parse_acl_def add_acl_def)
    from turn_plain [OF _ this] 1 x(1,2) b(2) show ?thesis
      by (intro exI [of _ "TopKernel (k\<lparr>kn_body := b'\<rparr>)"]) (simp add: push_read_def)
  qed
qed

lemma top_takes: "toks (pr_top t) us \<Longrightarrow> ok_top t \<Longrightarrow> takes us t"
proof (cases t)
  case (TopDynamic dd)
  moreover assume "toks (pr_top t) us" and "ok_top t"
  ultimately show ?thesis using small_tops_take(3) [of dd us] by simp
qed (use small_tops_take(1,2) type_takes at_entry_takes function_takes worker_takes kernel_takes in \<open>blast+\<close>)

section \<open>The round trip\<close>

fun last_kernel :: "nat \<Rightarrow> nat option \<Rightarrow> eprogram \<Rightarrow> nat option" where
  "last_kernel n c [] = c"
| "last_kernel n c (t # p) = last_kernel (n + 1) (if is_kernel t then Some n else c) p"

lemma last_kernel_append: "last_kernel n c (p @ q) = last_kernel (n + length p) (last_kernel n c p) q"
  by (induction p arbitrary: n c) auto

lemma last_kernel_none: "list_all (Not \<circ> is_kernel) q \<Longrightarrow> last_kernel n c q = c"
  by (induction q arbitrary: n) auto

lemma program_read:
  assumes "toks (pr_program p) us" and "list_all ok_top p"
  shows "\<exists>p'. map unline_top p' = map unline_top p
    \<and> ploop top_body st (us @ rest)
      = ploop top_body (st\<lparr>pg_items := pg_items st @ p', pg_cur := last_kernel (length (pg_items st)) (pg_cur st) p\<rparr>) rest"
  using assms
proof (induction p arbitrary: us st)
  case Nil
  then show ?case by (intro exI [of _ "[]"]) (simp add: pr_program_def toks_split)
next
  case (Cons t p)
  obtain vs ws where us: "us = vs @ ws" "toks (pr_top t) vs" "toks (pr_program p) ws"
    using Cons.prems(1) by (auto simp: pr_program_def toks_split)
  obtain t' where t: "unline_top t' = unline_top t" "ploop top_body st (us @ rest) = ploop top_body (push_read st t t') (ws @ rest)"
    using top_takes [OF us(2)] Cons.prems(2) unfolding takes_def us(1) by fastforce
  let ?st = "push_read st t t'"
  obtain p' where p: "map unline_top p' = map unline_top p"
      "ploop top_body ?st (ws @ rest)
        = ploop top_body (?st\<lparr>pg_items := pg_items ?st @ p', pg_cur := last_kernel (length (pg_items ?st)) (pg_cur ?st) p\<rparr>) rest"
    using Cons.IH [OF us(3), of ?st] Cons.prems(2) by auto
  show ?case unfolding t(2) p(2) using t(1) p(1) by (intro exI [of _ "t' # p'"]) (simp add: push_read_def)
qed

lemma params_words_ok: "list_all ok_param ps \<Longrightarrow> list_all ok_word (pr_params ps v)"
  by (induction ps v rule: pr_params.induct) (auto simp: ok_param_def pr_param_def type_words_ok numeral_3_eq_3)

lemma attrs_words_ok: "list_all ok_word (pr_attrs a)"
  by (auto simp: pr_attrs_def pr_attr_def split: option.splits)

lemma acl_words_ok: "list_all ok_acl es \<Longrightarrow> list_all ok_word (concat (map pr_acl es))"
  by (induction es) auto

lemma body_words_ok: "ok_body b \<Longrightarrow> list_all ok_word (pr_stmt b)"
  by (rule stmt_words_ok(1)) (cases b; simp)

lemma top_words_ok: "ok_top t \<Longrightarrow> list_all ok_word (pr_top t)"
  by (cases t) (auto simp: params_words_ok attrs_words_ok acl_words_ok body_words_ok type_words_ok dynamic_words_ok declare_name_def
      split: edeclare_kind.split)

lemma program_words_ok: "list_all ok_top p \<Longrightarrow> list_all ok_word (pr_program p)"
  unfolding pr_program_def by (intro list_all_concat_map top_words_ok) (simp add: list_all_iff)

text \<open>C22: Every program the grammar has a text for comes back from its text: printed with parentheses only where
  precedence needs them, scanned by the lexer and read by the parser, it is the same program up to the line numbers
  of its statements. This fixes precedence and associativity, the branch an \<open>else\<close> belongs to, the recognition of declarations
  and of pool loops by look-ahead, attributes, variadic parameters and access blocks.\<close>

theorem print_parse_program:
  assumes "list_all ok_top p"
  shows "\<exists>ts p'. e_lex_source (source_of (pr_program p)) = Inr ts \<and> e_parse_program ts = PrOk p'
    \<and> map unline_top p' = map unline_top p"
proof -
  obtain us l c where u: "e_lex 1 1 (source_of (pr_program p)) = Inr (us @ [eof_tok l c])" "map word_of us = pr_program p"
    using e_lex_source_of [OF program_words_ok [OF assms]] by blast
  let ?st = "\<lparr>pg_items = [], pg_cur = None, pg_ub = False\<rparr>"
  obtain p' where p: "map unline_top p' = map unline_top p"
      "ploop top_body ?st (us @ [eof_tok l c]) = ploop top_body (?st\<lparr>pg_items := [] @ p', pg_cur := last_kernel 0 None p\<rparr>) [eof_tok l c]"
    using program_read [of p us ?st "[eof_tok l c]"] u(2) assms by (auto simp: toks_def)
  have "ploop top_body st [eof_tok l c] = POk st [eof_tok l c]" for st
    by (subst ploop_unfold [OF top_turn]) (simp add: top_body_def eof_tok_def mk_tok_def)
  with p have "e_parse_program (us @ [eof_tok l c]) = PrOk p'" by (simp add: e_parse_program_def)
  with u(1) p(1) show ?thesis by (simp add: e_lex_source_def)
qed

definition sample_program :: eprogram where
  "sample_program =
    [TopDeclare E_DECLARE_DEFAULT_IN_WORDS 8,
     TopKernel \<lparr>kn_params = [], kn_body = SBlock 1 [SKernalId 1 ''main''],
       kn_attrs = \<lparr>ea_in = Some 4, ea_out = None, ea_mailbox = Some 16\<rparr>, kn_acl = [(''peer'', ''w''), (''a b'', ''w'')]\<rparr>,
     TopWorker \<lparr>wk_name = ''w'', wk_params = [\<lparr>pm_type = \<lparr>ty_name = ''int'', ty_len = 0, ty_unsized = False, ty_union = [''byte'']\<rparr>, pm_name = ''a''\<rparr>],
       wk_body = SBlock 2 [
         SDecl 3 \<lparr>dl_type = \<lparr>ty_name = ''int'', ty_len = 4, ty_unsized = False, ty_union = []\<rparr>, dl_name = ''x'', dl_class = DeclReg, dl_init = None\<rparr>,
         SIf 4 (EBinary E_BIN_LT (EIdent ''a'') (EInt 1))
           (SIf 4 (EIdent ''b'') (SExpr 4 (EAssign (EIndex (EIdent ''x'') (EInt 0)) (EInt 1))) (Some (SBreak 5)))
           (Some (SExpr 6 (EAssign (EIdent ''y'') (EBinary E_BIN_MUL (EUnary E_UN_MINUS (EInt 2)) (EBinary E_BIN_ADD (EInt 3) (EInt 4)))))),
         SForeach 7 (foreach_decl ''T'' ''e'') ''pool'' (SNext 7 ''w'')],
       wk_attrs = no_attrs\<rparr>]"

theorem print_parse_program_witness:
  "\<exists>ts p'. e_lex_source (source_of (pr_program sample_program)) = Inr ts \<and> e_parse_program ts = PrOk p'
    \<and> map unline_top p' = map unline_top sample_program"
proof -
  have "list_all ok_top sample_program" by code_simp
  then show ?thesis by (rule print_parse_program)
qed

text \<open>C32: An access block belongs to the kernel declared just before it. Behind any later declaration the parser
  writes its first entry through a pointer into the array of declarations that the later declaration has moved: the
  program text is accepted by the grammar up to there and the parser is undefined.\<close>

theorem stale_acl_undefined:
  assumes "list_all ok_top (p @ TopKernel k # q)" and "q \<noteq> []" and "list_all (Not \<circ> is_kernel) q" and "ok_acl a"
  shows "\<exists>ts. e_lex_source (source_of (pr_program (p @ TopKernel k # q)
      @ (E_TOK_KW_ACL, ''acl'') # w_lbrace # pr_acl a @ [w_rbrace])) = Inr ts \<and> e_parse_program ts = PrUb"
proof -
  let ?acl = "(E_TOK_KW_ACL, ''acl'') # w_lbrace # pr_acl a @ [w_rbrace]"
  have "list_all ok_word (pr_program (p @ TopKernel k # q) @ ?acl)"
    using program_words_ok [OF assms(1)] acl_words_ok [of "[a]"] assms(4) by simp
  from e_lex_source_of [OF this, of 1 1] obtain us l c where
    u: "e_lex 1 1 (source_of (pr_program (p @ TopKernel k # q) @ ?acl)) = Inr (us @ [eof_tok l c])"
      "toks (pr_program (p @ TopKernel k # q) @ ?acl) us"
    unfolding toks_def by blast
  then obtain vs ws where us: "us = vs @ ws" "toks (pr_program (p @ TopKernel k # q)) vs" "toks ?acl ws"
    unfolding toks_split(3) by blast
  let ?st = "\<lparr>pg_items = [], pg_cur = None, pg_ub = False\<rparr>"
  obtain p' where p: "map unline_top p' = map unline_top (p @ TopKernel k # q)"
      "ploop top_body ?st (us @ [eof_tok l c])
        = ploop top_body (?st\<lparr>pg_items := [] @ p', pg_cur := last_kernel 0 None (p @ TopKernel k # q)\<rparr>) (ws @ [eof_tok l c])"
    using program_read [OF us(2) assms(1), of ?st "ws @ [eof_tok l c]"] us(1) by auto
  have len: "length p' = length p + Suc (length q)" using arg_cong [OF p(1), of length] by simp
  have cur: "last_kernel 0 None (p @ TopKernel k # q) = Some (length p)"
    using assms(3) by (simp add: last_kernel_append last_kernel_none)
  obtain t b r m g w s e where ws: "ws = [t, b, r, m, g, w, s, e]" "tk_kind t = E_TOK_KW_ACL" "tk_kind b = E_TOK_LBRACE"
      "tk_kind r \<in> {E_TOK_IDENT, E_TOK_STRING_LIT}" "tk_kind m = E_TOK_MINUS" "tk_kind g = E_TOK_GT" "tk_kind w = E_TOK_IDENT"
    using us(3) by (cases a; cases "ok_ident (fst a)") (auto simp: toks_split)
  have "acl_body True (False, []) (r # m # g # w # x) = POk ((True, []), False) x" for x
    using ws by (auto simp: acl_body_def expect_def Let_def)
  then have acl: "parse_kernel_acl_block True (b # r # m # g # w # x) = POk (True, []) x" for x
    unfolding parse_kernel_acl_block_def using ws by (simp add: expect_def, subst ploop_unfold [OF acl_turn]) simp
  let ?st' = "?st\<lparr>pg_items := [] @ p', pg_cur := Some (length p)\<rparr>"
  have "ploop top_body ?st' (ws @ [eof_tok l c]) = POk (?st'\<lparr>pg_ub := True\<rparr>) [s, e, eof_tok l c]"
    using ws len assms(2)
    by (subst ploop_unfold [OF top_turn]) (simp add: top_body_def attrs_end top_decl_def Let_def parse_acl_def acl)
  then have "e_parse_program (us @ [eof_tok l c]) = PrUb" unfolding e_parse_program_def p(2) cur by simp
  with u(1) show ?thesis by (simp add: e_lex_source_def)
qed

theorem stale_acl_undefined_witness:
  "\<exists>ts. e_lex_source (source_of (pr_program
      ([] @ TopKernel \<lparr>kn_params = [], kn_body = SBlock 1 [], kn_attrs = no_attrs, kn_acl = []\<rparr>
        # [TopWorker \<lparr>wk_name = ''w'', wk_params = [], wk_body = SBlock 1 [], wk_attrs = no_attrs\<rparr>])
      @ (E_TOK_KW_ACL, ''acl'') # w_lbrace # pr_acl (''a'', ''w'') @ [w_rbrace])) = Inr ts \<and> e_parse_program ts = PrUb"
  by (rule stale_acl_undefined) (simp_all, code_simp+)

end
