(* ===== verification/ESem.thy ===== *)
theory ESem
  imports EAst
begin

text \<open>
  The semantic model of an E program, \<open>e/e_semantic.h\<close>, and the part of \<open>e/e_semantic.c\<close> that
  builds it: type layouts, dynamic pools, roles, and the frames with the places of parameters and local declarations.

  \<open>size_t\<close> is a 64-bit and \<open>unsigned int\<close> a 32-bit word. The compiler ends when an allocation fails, and
  what it prints as a warning is left out. The C code names a declaration statement by its
  address; here it is named by the index of its top-level declaration and its number among the local declarations of
  the body, in the order of the tree walks, all of which agree. The error text is a buffer that a routine writes before it
  fails and sometimes when it does not: it is passed along, and a failing run returns what is in it.
\<close>

section \<open>The model\<close>

datatype param_validation = E_PARAM_PRIMITIVE | E_PARAM_CUSTOM_VALIDATED | E_PARAM_CUSTOM_UNVALIDATED

datatype param_abi = E_PARAM_ABI_VALUE | E_PARAM_ABI_TYPE_REF

record evalidator =
  vb_name :: string
  vb_id :: u32
  vb_decl :: etype_decl
  vb_span :: u64

record eparam_check =
  ck_fn :: efunction
  ck_param :: nat
  ck_kind :: param_validation
  ck_abi :: param_abi
  ck_validator :: u32
  ck_off :: u64
  ck_size :: u64
  ck_referent :: u64
  ck_slot :: u32
  ck_words :: u32

record eghs_field =
  gf_name :: string
  gf_type :: string
  gf_off :: u64
  gf_size :: u64
  gf_flexible :: bool

record etype_layout =
  tl_name :: string
  tl_size :: u64
  tl_flexible :: "u64 option"
  tl_fields :: "eghs_field list"

datatype local_storage = E_LOCAL_STACK | E_LOCAL_REG | E_LOCAL_ARENA_SCOPED | E_LOCAL_STACK_STATIC

record elocal =
  lo_decl :: "nat \<times> nat"
  lo_name :: string
  lo_type :: string
  lo_len :: u32
  lo_size :: u64
  lo_storage :: local_storage
  lo_off :: u64
  lo_reg :: u32
  lo_reg_words :: u32
  lo_slot :: u32
  lo_words :: u32

record eframe =
  fr_owner :: string
  fr_fn :: "efunction option"
  fr_param :: u64
  fr_stack :: u64
  fr_regs :: u32
  fr_slots :: u32
  fr_varargs :: "(u32 \<times> u32) option"
  fr_locals :: "elocal list"

definition fr_total :: "eframe \<Rightarrow> u64" where
  "fr_total f = fr_param f + fr_stack f"

text \<open>The words of a pool's header have fixed places: five words, the counts in words 0 and 1, the lists
  in words 2 to 4.\<close>

record epool =
  ep_name :: string
  ep_type :: string
  ep_len :: u32
  ep_size :: u64
  ep_min_free :: u32
  ep_max_free :: u32
  ep_grow_by :: u32

record esem =
  sm_kernel :: "ekernel option"
  sm_in :: u32
  sm_out :: u32
  sm_mailbox :: u32
  sm_workers :: "eworker list"
  sm_functions :: "efunction list"
  sm_at_entries :: "efunction list"
  sm_validators :: "evalidator list"
  sm_layouts :: "etype_layout list"
  sm_checks :: "eparam_check list"
  sm_frames :: "eframe list"
  sm_pools :: "epool list"
  sm_id :: string
  sm_uid :: u64
  sm_cross :: "(string \<times> string \<times> u32) list"

definition esem_init :: esem where
  "esem_init = \<lparr>sm_kernel = None, sm_in = 256, sm_out = 256, sm_mailbox = 128, sm_workers = [], sm_functions = [],
     sm_at_entries = [], sm_validators = [], sm_layouts = [], sm_checks = [], sm_frames = [], sm_pools = [], sm_id = [],
     sm_uid = 0, sm_cross = []\<rparr>"

section \<open>Results\<close>

text \<open>Failure with a text, or the text left in the buffer and the new state.\<close>

type_synonym 'a sem = "string + (string \<times> 'a)"

fun sem_fold :: "('b \<Rightarrow> string \<times> 'a \<Rightarrow> 'a sem) \<Rightarrow> 'b list \<Rightarrow> string \<times> 'a \<Rightarrow> 'a sem" where
  "sem_fold f [] s = Inr s"
| "sem_fold f (x # xs) s = (case f x s of Inl e \<Rightarrow> Inl e | Inr s' \<Rightarrow> sem_fold f xs s')"

lemma sem_fold_cong [fundef_cong]:
  "xs = ys \<Longrightarrow> s = t \<Longrightarrow> (\<And>x s. x \<in> set ys \<Longrightarrow> f x s = g x s) \<Longrightarrow> sem_fold f xs s = sem_fold g ys t"
  by (induction xs arbitrary: ys s t) (auto split: sum.splits)

definition sem_then :: "'a sem \<Rightarrow> (string \<times> 'a \<Rightarrow> 'a sem) \<Rightarrow> 'a sem" where
  "sem_then r f = (case r of Inl e \<Rightarrow> Inl e | Inr s \<Rightarrow> f s)"

lemma sem_then_cong [fundef_cong]: "r = r' \<Longrightarrow> (\<And>s. r' = Inr s \<Longrightarrow> f s = g s) \<Longrightarrow> sem_then r f = sem_then r' g"
  by (auto simp: sem_then_def split: sum.splits)

definition sem_opt :: "('b \<Rightarrow> string \<times> 'a \<Rightarrow> 'a sem) \<Rightarrow> 'b option \<Rightarrow> string \<times> 'a \<Rightarrow> 'a sem" where
  "sem_opt f x s = (case x of None \<Rightarrow> Inr s | Some y \<Rightarrow> f y s)"

lemma sem_opt_cong [fundef_cong]:
  "x = y \<Longrightarrow> s = t \<Longrightarrow> (\<And>z s. y = Some z \<Longrightarrow> f z s = g z s) \<Longrightarrow> sem_opt f x s = sem_opt g y t"
  by (auto simp: sem_opt_def split: option.splits)

section \<open>Types\<close>

definition type_ref_is_union :: "type_ref \<Rightarrow> bool" where
  "type_ref_is_union t \<longleftrightarrow> ty_union t \<noteq> []"

definition primitive_types :: "(string \<times> u64) list" where
  "primitive_types =
    [(''i8'', 1), (''u8'', 1), (''byte'', 1), (''char'', 1), (''i16'', 2), (''u16'', 2), (''short'', 2), (''i32'', 4), (''u32'', 4),
     (''int'', 4), (''float'', 4), (''i64'', 8), (''u64'', 8), (''long'', 8), (''double'', 8), (''z'', 8), (''void'', 0), (''Iterator'', 4)]"

definition is_primitive_type :: "string \<Rightarrow> bool" where
  "is_primitive_type n \<longleftrightarrow> n \<in> set (map fst primitive_types)"

definition primitive_size :: "string \<Rightarrow> u64" where
  "primitive_size n = (case map_of primitive_types n of Some s \<Rightarrow> s | None \<Rightarrow> 0)"

definition normalized_string_token :: "string \<Rightarrow> nat \<Rightarrow> string" where
  "normalized_string_token s buf_sz =
     (if length s \<ge> 2 \<and> hd s = quote \<and> last s = quote then take (min (length s - 2) (buf_sz - 1)) (tl s) else s)"

fun fnv1a64_text :: "string \<Rightarrow> u64 \<Rightarrow> u64" where
  "fnv1a64_text [] h = h"
| "fnv1a64_text (c # cs) h = fnv1a64_text cs ((h XOR of_char c) * 1099511628211)"

fun fnv1a32_text :: "string \<Rightarrow> u32 \<Rightarrow> u32" where
  "fnv1a32_text [] h = h"
| "fnv1a32_text (c # cs) h = fnv1a32_text cs ((h XOR of_char c) * 16777619)"

definition stable_validator_id :: "string \<Rightarrow> u32" where
  "stable_validator_id n = (let h = fnv1a32_text n 2166136261 in if h = 0 then 1 else h)"

definition find_validator :: "esem \<Rightarrow> string \<Rightarrow> evalidator option" where
  "find_validator m n = find (\<lambda>v. vb_name v = n) (sm_validators m)"

definition find_type_layout :: "esem \<Rightarrow> string \<Rightarrow> etype_layout option" where
  "find_type_layout m n = find (\<lambda>l. tl_name l = n) (sm_layouts m)"

definition is_custom_type_with_layout :: "esem \<Rightarrow> string \<Rightarrow> bool" where
  "is_custom_type_with_layout m n \<longleftrightarrow> \<not> is_primitive_type n \<and> find_type_layout m n \<noteq> None"

definition find_frame :: "esem \<Rightarrow> string \<Rightarrow> eframe option" where
  "find_frame m n = find (\<lambda>f. fr_owner f = n) (sm_frames m)"

definition find_local_binding_by_name :: "eframe option \<Rightarrow> string \<Rightarrow> elocal option" where
  "find_local_binding_by_name f n = (case f of None \<Rightarrow> None | Some g \<Rightarrow> find (\<lambda>l. lo_name l = n) (fr_locals g))"

definition find_local_binding_by_stmt :: "eframe option \<Rightarrow> nat \<times> nat \<Rightarrow> elocal option" where
  "find_local_binding_by_stmt f d = (case f of None \<Rightarrow> None | Some g \<Rightarrow> find (\<lambda>l. lo_decl l = d) (fr_locals g))"

definition find_dynamic_pool :: "esem \<Rightarrow> string \<Rightarrow> epool option" where
  "find_dynamic_pool m n = find (\<lambda>p. ep_name p = n) (sm_pools m)"

text \<open>The size of a value; 0 with a text for a type that has none, and the caller decides.\<close>

definition type_ref_size :: "esem \<Rightarrow> type_ref \<Rightarrow> string \<Rightarrow> u64 \<times> string" where
  "type_ref_size m t err =
     (if ty_unsized t then
        (if type_ref_is_union t then (0, ''unsized array type %s[] cannot be a union'')
         else if ty_name t \<noteq> ''byte'' then (0, ''only byte[] may be unsized'') else (0, err))
      else let count = (if ty_len t = 0 then 1 else ucast (ty_len t)) in
        if type_ref_is_union t then (0, ''union type %s|... does not have a fixed inline size'')
        else if is_primitive_type (ty_name t) then (primitive_size (ty_name t) * count, err)
        else (case find_type_layout m (ty_name t) of
            None \<Rightarrow> (0, ''missing GHS layout for type %s'')
          | Some l \<Rightarrow> (tl_size l * count, err)))"

text \<open>The test the callers make of a size 0.\<close>

definition size_unknown :: "esem \<Rightarrow> type_ref \<Rightarrow> u64 \<Rightarrow> bool" where
  "size_unknown m t sz \<longleftrightarrow> sz = 0 \<and> ty_len t = 0 \<and> primitive_size (ty_name t) = 0 \<and> find_type_layout m (ty_name t) = None"

section \<open>Declarations at the top\<close>

fun collect_validators :: "etop list \<Rightarrow> string \<times> esem \<Rightarrow> esem sem" where
  "collect_validators [] s = Inr s"
| "collect_validators (TopType td # ts) (err, m) =
     (if find_validator m (td_name td) \<noteq> None then Inl ''duplicate validator type %s''
      else collect_validators ts (err, m\<lparr>sm_validators := sm_validators m
        @ [\<lparr>vb_name = td_name td, vb_id = stable_validator_id (td_name td), vb_decl = td, vb_span = 0\<rparr>]\<rparr>))"
| "collect_validators (t # ts) s = collect_validators ts s"

fun collect_declares :: "edeclare_kind list \<Rightarrow> etop list \<Rightarrow> string \<times> esem \<Rightarrow> esem sem" where
  "collect_declares seen [] s = Inr s"
| "collect_declares seen (TopDeclare k v # ts) (err, m) =
     (if k \<in> set seen then Inl (case k of E_DECLARE_DEFAULT_IN_WORDS \<Rightarrow> ''duplicate declare default_in_words''
          | E_DECLARE_DEFAULT_OUT_WORDS \<Rightarrow> ''duplicate declare default_out_words''
          | E_DECLARE_DEFAULT_SIGNAL_MAIL_BOX_SIZE \<Rightarrow> ''duplicate declare default_signal_mail_box_size'')
      else collect_declares (k # seen) ts (err, case k of E_DECLARE_DEFAULT_IN_WORDS \<Rightarrow> m\<lparr>sm_in := v\<rparr>
          | E_DECLARE_DEFAULT_OUT_WORDS \<Rightarrow> m\<lparr>sm_out := v\<rparr> | E_DECLARE_DEFAULT_SIGNAL_MAIL_BOX_SIZE \<Rightarrow> m\<lparr>sm_mailbox := v\<rparr>))"
| "collect_declares seen (t # ts) s = collect_declares seen ts s"

section \<open>Layouts\<close>

text \<open>The first pass over the fields of a type: their sum, and whether there is a flexible tail.\<close>

fun layout_size :: "esem \<Rightarrow> eparam list \<Rightarrow> u64 \<times> bool \<Rightarrow> string \<Rightarrow> string + (string \<times> u64 \<times> bool)" where
  "layout_size m [] (off, flex) err = Inr (err, off, flex)"
| "layout_size m (p # ps) (off, flex) err =
     (if ty_unsized (pm_type p) then
        (if ty_name (pm_type p) \<noteq> ''byte'' then Inl ''type %s field %s unsized array must be byte[]''
         else if ps \<noteq> [] then Inl ''type %s field %s byte[] must be the final field''
         else layout_size m ps (off, True) err)
      else let (sz, err1) = type_ref_size m (pm_type p) err in
        if size_unknown m (pm_type p) sz then Inl err1
        else layout_size m ps (off + sz, flex) err1)"

text \<open>The second pass: the fields.\<close>

fun layout_fields :: "esem \<Rightarrow> eparam list \<Rightarrow> u64 \<Rightarrow> string \<Rightarrow> string \<times> eghs_field list" where
  "layout_fields m [] off err = (err, [])"
| "layout_fields m (p # ps) off err =
     (let (sz, err1) = (if ty_unsized (pm_type p) then (0, err) else type_ref_size m (pm_type p) err);
          (err2, fs) = layout_fields m ps (off + sz) err1
      in (err2, \<lparr>gf_name = pm_name p, gf_type = ty_name (pm_type p), gf_off = off, gf_size = sz,
                 gf_flexible = ty_unsized (pm_type p)\<rparr> # fs))"

text \<open>The layout is in the model, without fields, while the second pass looks types up.\<close>

definition layout_type :: "etype_decl \<Rightarrow> string \<times> esem \<Rightarrow> esem sem" where
  "layout_type td s = (case s of (err, m) \<Rightarrow>
     case layout_size m (td_params td) (0, False) err of
       Inl e \<Rightarrow> Inl e
     | Inr (err1, tot, flex) \<Rightarrow>
         let l = \<lparr>tl_name = td_name td, tl_size = tot, tl_flexible = (if flex then Some tot else None), tl_fields = []\<rparr>;
             (err2, fs) = layout_fields (m\<lparr>sm_layouts := sm_layouts m @ [l]\<rparr>) (td_params td) 0 err1;
             spn = (\<lambda>v. if vb_name v = td_name td then v\<lparr>vb_span := tot\<rparr> else v)
         in Inr (err2, m\<lparr>sm_layouts := sm_layouts m @ [l\<lparr>tl_fields := fs\<rparr>], sm_validators := map spn (sm_validators m)\<rparr>))"

fun collect_type_layouts :: "etop list \<Rightarrow> string \<times> esem \<Rightarrow> esem sem" where
  "collect_type_layouts [] s = Inr s"
| "collect_type_layouts (TopType td # ts) s =
     (case layout_type td s of Inl e \<Rightarrow> Inl e | Inr s' \<Rightarrow> collect_type_layouts ts s')"
| "collect_type_layouts (t # ts) s = collect_type_layouts ts s"

section \<open>Dynamic pools\<close>

definition register_dynamic_pool_decl :: "dynamic_decl \<Rightarrow> string \<times> esem \<Rightarrow> esem sem" where
  "register_dynamic_pool_decl d s = (case s of (err, m) \<Rightarrow>
     if find_dynamic_pool m (dd_name d) \<noteq> None then Inl ''duplicate dynamic pool %s''
     else if find_validator m (dd_name d) \<noteq> None \<or> find_type_layout m (dd_name d) \<noteq> None
     then Inl ''dynamic pool %s collides with an existing type name''
     else if ty_union (dd_type d) \<noteq> [] then Inl ''dynamic pool %s element type cannot be a union''
     else if dd_min_free d > dd_max_free d then Inl ''dynamic pool %s min_free cannot exceed max_free''
     else if dd_grow_by d = 0 then Inl ''dynamic pool %s grow_by must be greater than zero''
     else let (sz, err1) = type_ref_size m (dd_type d) err in
       if size_unknown m (dd_type d) sz then Inl err1
       else if sz = 0 then Inl ''dynamic pool %s element type must have non-zero inline size''
       else Inr (err1, m\<lparr>sm_pools := sm_pools m @ [\<lparr>ep_name = dd_name d, ep_type = ty_name (dd_type d), ep_len = ty_len (dd_type d),
              ep_size = sz, ep_min_free = dd_min_free d, ep_max_free = dd_max_free d, ep_grow_by = dd_grow_by d\<rparr>]\<rparr>))"

fun collect_inline_dynamic_pools_in_stmt :: "estmt \<Rightarrow> string \<times> esem \<Rightarrow> esem sem"
  and inline_pools_case :: "ecase \<Rightarrow> string \<times> esem \<Rightarrow> esem sem" where
  "collect_inline_dynamic_pools_in_stmt (SDynamic ln d) s = register_dynamic_pool_decl d s"
| "collect_inline_dynamic_pools_in_stmt (SBlock ln ss) s = sem_fold collect_inline_dynamic_pools_in_stmt ss s"
| "collect_inline_dynamic_pools_in_stmt (SIf ln c t e) s =
     sem_then (collect_inline_dynamic_pools_in_stmt t s) (sem_opt collect_inline_dynamic_pools_in_stmt e)"
| "collect_inline_dynamic_pools_in_stmt (SWhile ln c b) s = collect_inline_dynamic_pools_in_stmt b s"
| "collect_inline_dynamic_pools_in_stmt (SFor ln i c st b) s =
     sem_then (sem_opt collect_inline_dynamic_pools_in_stmt i s) (collect_inline_dynamic_pools_in_stmt b)"
| "collect_inline_dynamic_pools_in_stmt (SForeach ln v it b) s = collect_inline_dynamic_pools_in_stmt b s"
| "collect_inline_dynamic_pools_in_stmt (SSwitch ln t cs) s = sem_fold inline_pools_case cs s"
| "collect_inline_dynamic_pools_in_stmt (SStaticBlock ln ss) s = sem_fold collect_inline_dynamic_pools_in_stmt ss s"
| "collect_inline_dynamic_pools_in_stmt st s = Inr s"
| "inline_pools_case (ECase d v ss) s = sem_fold collect_inline_dynamic_pools_in_stmt ss s"

fun collect_dynamic_pools :: "etop list \<Rightarrow> string \<times> esem \<Rightarrow> esem sem" where
  "collect_dynamic_pools [] s = Inr s"
| "collect_dynamic_pools (t # ts) s =
     (case (case t of TopDynamic d \<Rightarrow> register_dynamic_pool_decl d s
              | TopWorker w \<Rightarrow> collect_inline_dynamic_pools_in_stmt (wk_body w) s | _ \<Rightarrow> Inr s) of
        Inl e \<Rightarrow> Inl e | Inr s' \<Rightarrow> collect_dynamic_pools ts s')"

section \<open>Roles\<close>

definition role_kernel :: "ekernel \<Rightarrow> esem \<Rightarrow> string + esem" where
  "role_kernel k m =
     (if sm_kernel m \<noteq> None then Inl ''multiple kernel declarations are not allowed''
      else case kn_params k of
        [] \<Rightarrow> Inl ''kernel must declare at least one parameter''
      | p # ps \<Rightarrow> if ty_name (pm_type p) \<noteq> ''VM'' then Inl ''kernel first parameter must be VM''
                  else Inr (m\<lparr>sm_kernel := Some k\<rparr>))"

definition role_worker :: "eworker \<Rightarrow> esem \<Rightarrow> string + esem" where
  "role_worker w m =
     (case wk_params w of
        [p] \<Rightarrow>
          if type_ref_is_union (pm_type p) then
            (if ty_len (pm_type p) \<noteq> 0 then Inl ''worker %s union ingress parameter cannot be an array''
             else if \<not> is_custom_type_with_layout m (ty_name (pm_type p)) \<or> (\<exists>n \<in> set (ty_union (pm_type p)). \<not> is_custom_type_with_layout m n)
             then Inl ''worker %s ingress option %s must be a custom type with a GHS layout''
             else Inr (m\<lparr>sm_workers := sm_workers m @ [w]\<rparr>))
          else if \<not> is_custom_type_with_layout m (ty_name (pm_type p))
          then Inl ''worker %s parameter must be a custom type with a GHS layout''
          else Inr (m\<lparr>sm_workers := sm_workers m @ [w]\<rparr>)
      | _ \<Rightarrow> Inl ''worker %s must take exactly one parameter'')"

definition role_at_entry :: "efunction \<Rightarrow> esem \<Rightarrow> string + esem" where
  "role_at_entry f m =
     (case fn_params f of
        [p, q] \<Rightarrow>
          if ty_name (pm_type p) \<noteq> ''u32'' \<or> ty_len (pm_type p) \<noteq> 0 then Inl ''at_entry %s first parameter must be u32 thread_index''
          else if type_ref_is_union (pm_type q) \<or> \<not> is_custom_type_with_layout m (ty_name (pm_type q))
          then Inl ''at_entry %s second parameter must be a custom GHS layout type''
          else Inr (m\<lparr>sm_at_entries := sm_at_entries m @ [f]\<rparr>)
      | _ \<Rightarrow> Inl ''at_entry %s must take exactly two parameters: u32 thread_index, <GHS type> body'')"

fun top_role :: "etop \<Rightarrow> esem \<Rightarrow> string + esem" where
  "top_role (TopKernel k) m = role_kernel k m"
| "top_role (TopWorker w) m = role_worker w m"
| "top_role (TopFunction f) m = Inr (m\<lparr>sm_functions := sm_functions m @ [f]\<rparr>)"
| "top_role (TopAtEntry f) m = role_at_entry f m"
| "top_role t m = Inr m"

fun top_roles :: "etop list \<Rightarrow> esem \<Rightarrow> string + esem" where
  "top_roles [] m = Inr m"
| "top_roles (t # ts) m = (case top_role t m of Inl e \<Rightarrow> Inl e | Inr m' \<Rightarrow> top_roles ts m')"

definition collect_top_level_roles :: "etop list \<Rightarrow> string \<times> esem \<Rightarrow> esem sem" where
  "collect_top_level_roles ts s =
     (case top_roles ts (snd s) of
        Inl e \<Rightarrow> Inl e
      | Inr m \<Rightarrow> if sm_kernel m = None then Inl ''program must declare exactly one kernel''
                 else if sm_workers m = [] then Inl ''program must declare at least one worker''
                 else Inr (fst s, m))"

section \<open>The kernel's name\<close>

text \<open>\<open>found\<close>: the name seen so far.\<close>

fun collect_kernal_id_in_stmt :: "bool \<Rightarrow> estmt \<Rightarrow> string \<times> string option \<Rightarrow> string option sem"
  and kernal_id_case :: "bool \<Rightarrow> ecase \<Rightarrow> string \<times> string option \<Rightarrow> string option sem" where
  "collect_kernal_id_in_stmt allow (SKernalId ln n) s =
     (if \<not> allow then Inl ''kernalId is only valid inside the kernel block (found in %s)''
      else if snd s \<noteq> None then Inl ''kernel block may only declare kernalId once'' else Inr (fst s, Some n))"
| "collect_kernal_id_in_stmt allow (SBlock ln ss) s = sem_fold (collect_kernal_id_in_stmt allow) ss s"
| "collect_kernal_id_in_stmt allow (SIf ln c t e) s =
     sem_then (collect_kernal_id_in_stmt allow t s) (sem_opt (collect_kernal_id_in_stmt allow) e)"
| "collect_kernal_id_in_stmt allow (SWhile ln c b) s = collect_kernal_id_in_stmt allow b s"
| "collect_kernal_id_in_stmt allow (SFor ln i c st b) s =
     sem_then (sem_opt (collect_kernal_id_in_stmt allow) i s) (collect_kernal_id_in_stmt allow b)"
| "collect_kernal_id_in_stmt allow (SForeach ln v it b) s = collect_kernal_id_in_stmt allow b s"
| "collect_kernal_id_in_stmt allow (SSwitch ln t cs) s = sem_fold (kernal_id_case allow) cs s"
| "collect_kernal_id_in_stmt allow (SStaticBlock ln ss) s = sem_fold (collect_kernal_id_in_stmt allow) ss s"
| "collect_kernal_id_in_stmt allow st s = Inr s"
| "kernal_id_case allow (ECase d v ss) s = sem_fold (collect_kernal_id_in_stmt allow) ss s"

text \<open>The body of a top-level declaration, but for the kernel's.\<close>

fun other_body :: "etop \<Rightarrow> estmt option" where
  "other_body (TopWorker w) = Some (wk_body w)" | "other_body (TopFunction f) = Some (fn_body f)"
| "other_body (TopAtEntry f) = Some (fn_body f)" | "other_body (TopType t) = Some (td_body t)" | "other_body t = None"

definition collect_kernel_identity :: "etop list \<Rightarrow> string \<times> esem \<Rightarrow> esem sem" where
  "collect_kernel_identity ts s = (case s of (err, m) \<Rightarrow>
     case sm_kernel m of None \<Rightarrow> Inr s
     | Some k \<Rightarrow>
       (case collect_kernal_id_in_stmt True (kn_body k) (err, None) of
          Inl e \<Rightarrow> Inl e
        | Inr (err1, found) \<Rightarrow>
            (case found of None \<Rightarrow> Inl ''kernel block must declare kernalId(...);''
             | Some n \<Rightarrow> if n = [] then Inl ''kernel block must declare kernalId(...);''
                else (case sem_fold (\<lambda>t s. sem_opt (collect_kernal_id_in_stmt False) (other_body t) (fst s, None)) ts (err1, None) of
                   Inl e \<Rightarrow> Inl e
                 | Inr (err2, _) \<Rightarrow> Inr (err2, m\<lparr>sm_id := n, sm_uid := fnv1a64_text n 14695981039346656037\<rparr>)))))"

end
