(* ===== verification/ESemFrame.thy ===== *)
theory ESemFrame
  imports ESem
begin

text \<open>
  The frames of an E program, \<open>e/e_semantic.c\<close>: for each body, where its parameters and local
  declarations live (registers, the locals of the virtual machine, the stack).
  A declaration has one storage class in the tree, so the texts for combinations of classes have no counterpart.
\<close>

section \<open>Local declarations\<close>

definition frame_init :: eframe where
  "frame_init = \<lparr>fr_owner = [], fr_fn = None, fr_param = 0, fr_stack = 0, fr_regs = 0, fr_slots = 0, fr_varargs = None, fr_locals = []\<rparr>"

definition new_local :: "nat \<Rightarrow> edecl \<Rightarrow> u64 \<Rightarrow> eframe \<Rightarrow> elocal" where
  "new_local i d sz fr = \<lparr>lo_decl = (i, length (fr_locals fr)), lo_name = dl_name d, lo_type = ty_name (dl_type d),
     lo_len = ty_len (dl_type d), lo_size = sz, lo_storage = E_LOCAL_STACK, lo_off = 0, lo_reg = 0, lo_reg_words = 0,
     lo_slot = 0, lo_words = 0\<rparr>"

text \<open>\<open>push_local_binding\<close>\<close>

definition add_local :: "elocal \<Rightarrow> eframe \<Rightarrow> eframe" where
  "add_local l fr = fr\<lparr>fr_locals := fr_locals fr @ [l]\<rparr>"

text \<open>The binding gets the next \<open>n\<close> locals of the virtual machine.\<close>

definition add_slots :: "u32 \<Rightarrow> elocal \<Rightarrow> eframe \<Rightarrow> eframe" where
  "add_slots n l fr = (add_local (l\<lparr>lo_slot := fr_slots fr, lo_words := n\<rparr>) fr)\<lparr>fr_slots := fr_slots fr + n\<rparr>"

definition reg_decl :: "elocal \<Rightarrow> eframe \<Rightarrow> string + eframe" where
  "reg_decl l fr =
     (if lo_len l \<noteq> 0 then Inl ''reg local %s cannot be an array''
      else if lo_type l \<noteq> ''int'' \<and> lo_type l \<noteq> ''long'' then Inl ''reg local %s must be int or long''
      else let words = (if lo_type l = ''int'' then 1 else 2) in
        if fr_regs fr + words > 4 then Inl ''reg local %s exceeds 4 available register words''
        else Inr ((add_local (l\<lparr>lo_storage := E_LOCAL_REG, lo_reg := fr_regs fr, lo_reg_words := words\<rparr>) fr)
                  \<lparr>fr_regs := fr_regs fr + words\<rparr>))"

definition static_decl :: "bool \<Rightarrow> bool \<Rightarrow> etype_layout option \<Rightarrow> elocal \<Rightarrow> eframe \<Rightarrow> string + eframe" where
  "static_decl in_worker init lay l fr =
     (if \<not> in_worker then Inl ''static decl %s is only allowed inside a worker''
      else if lo_len l \<noteq> 0 then Inl ''static decl %s cannot be an array''
      else if init then Inl ''static decl %s cannot have an initializer; statics are zero-initialized''
      else let l1 = l\<lparr>lo_storage := E_LOCAL_STACK_STATIC\<rparr> in
        if is_primitive_type (lo_type l) then
          (if lo_size l = 0 \<or> lo_size l > 4 then Inl ''static decl %s primitive type must fit in one word''
           else Inr (add_slots 1 l1 fr))
        else case lay of
            None \<Rightarrow> Inl ''static decl %s must be a primitive or a declared type with a layout''
          | Some t \<Rightarrow> if tl_flexible t \<noteq> None then Inl ''static decl %s cannot use flexible-tail type %s''
                      else Inr (add_slots 2 l1 fr))"

definition scoped_decl :: "etype_layout option \<Rightarrow> elocal \<Rightarrow> eframe \<Rightarrow> string + eframe" where
  "scoped_decl lay l fr =
     (if lo_type l = ''byte'' \<and> lo_len l = 0 then Inl ''local decl %s using byte must be byte[N]''
      else if lo_type l \<noteq> ''byte'' \<and> lay = None then Inl ''local decl %s must be byte[N] or a declared type''
      else Inr (add_slots 2 (l\<lparr>lo_storage := E_LOCAL_ARENA_SCOPED\<rparr>) fr))"

definition stack_decl :: "etype_layout option \<Rightarrow> elocal \<Rightarrow> eframe \<Rightarrow> string + eframe" where
  "stack_decl lay l fr =
     (if (case lay of None \<Rightarrow> False | Some t \<Rightarrow> tl_flexible t \<noteq> None)
      then Inl ''decl %s using flexible-tail type %s must be local''
      else let l1 = l\<lparr>lo_off := fr_stack fr\<rparr>;
               fr1 = (if lo_len l = 0 \<and> \<not> is_primitive_type (lo_type l) then add_slots 2 l1 fr
                      else if lo_len l = 0 \<and> lo_size l > 0 \<and> lo_size l \<le> 4 then add_slots 1 l1 fr
                      else add_local l1 fr)
           in Inr (fr1\<lparr>fr_stack := fr_stack fr1 + lo_size l\<rparr>))"

definition collect_local_decl :: "esem \<Rightarrow> nat \<Rightarrow> bool \<Rightarrow> edecl \<Rightarrow> string \<times> eframe \<Rightarrow> eframe sem" where
  "collect_local_decl m i in_worker d s = (case s of (err, fr) \<Rightarrow>
     if type_ref_is_union (dl_type d) then Inl ''decl %s cannot use union type %s|... outside a worker ingress parameter''
     else let (sz, err1) = type_ref_size m (dl_type d) err; lay = find_type_layout m (ty_name (dl_type d)) in
       if ty_unsized (dl_type d) then Inl ''decl %s cannot use unsized array type directly''
       else if size_unknown m (dl_type d) sz then Inl err1
       else let l = new_local i d sz fr in
         case (case dl_class d of
                 DeclReg \<Rightarrow> reg_decl l fr
               | DeclStatic \<Rightarrow> static_decl in_worker (dl_init d \<noteq> None) lay l fr
               | DeclLocal \<Rightarrow> scoped_decl lay l fr
               | DeclPlain \<Rightarrow> stack_decl lay l fr) of
           Inl e \<Rightarrow> Inl e | Inr fr1 \<Rightarrow> Inr (err1, fr1))"

fun collect_local_decls_in_stmt :: "esem \<Rightarrow> nat \<Rightarrow> bool \<Rightarrow> estmt \<Rightarrow> string \<times> eframe \<Rightarrow> eframe sem"
  and local_decls_case :: "esem \<Rightarrow> nat \<Rightarrow> bool \<Rightarrow> ecase \<Rightarrow> string \<times> eframe \<Rightarrow> eframe sem" where
  "collect_local_decls_in_stmt m i w (SBlock ln ss) s = sem_fold (collect_local_decls_in_stmt m i w) ss s"
| "collect_local_decls_in_stmt m i w (SIf ln c t e) s =
     sem_then (collect_local_decls_in_stmt m i w t s) (sem_opt (collect_local_decls_in_stmt m i w) e)"
| "collect_local_decls_in_stmt m i w (SWhile ln c b) s = collect_local_decls_in_stmt m i w b s"
| "collect_local_decls_in_stmt m i w (SFor ln n c st b) s =
     sem_then (sem_opt (collect_local_decls_in_stmt m i w) n s) (collect_local_decls_in_stmt m i w b)"
| "collect_local_decls_in_stmt m i w (SForeach ln v it b) s =
     sem_then (collect_local_decl m i w v s) (collect_local_decls_in_stmt m i w b)"
| "collect_local_decls_in_stmt m i w (SSwitch ln t cs) s = sem_fold (local_decls_case m i w) cs s"
| "collect_local_decls_in_stmt m i w (SDecl ln d) s = collect_local_decl m i w d s"
| "collect_local_decls_in_stmt m i w (SStaticBlock ln ss) s = sem_fold (collect_local_decls_in_stmt m i w) ss s"
| "collect_local_decls_in_stmt m i w st s = Inr s"
| "local_decls_case m i w (ECase d v ss) s = sem_fold (collect_local_decls_in_stmt m i w) ss s"

section \<open>Parameters\<close>

text \<open>One parameter: its check, and the offset and the local after it.\<close>

definition param_check :: "esem \<Rightarrow> efunction \<Rightarrow> nat \<Rightarrow> eparam \<Rightarrow> u64 \<Rightarrow> u64 \<Rightarrow> u32 \<Rightarrow> eparam_check \<times> u64 \<times> u32" where
  "param_check m f j p sz off slot =
     (let n = ty_name (pm_type p);
          c = \<lparr>ck_fn = f, ck_param = j, ck_kind = E_PARAM_PRIMITIVE, ck_abi = E_PARAM_ABI_VALUE, ck_validator = 0, ck_off = off,
               ck_size = sz, ck_referent = sz, ck_slot = 0, ck_words = 0\<rparr>;
          k = (case find_validator m n of None \<Rightarrow> (E_PARAM_CUSTOM_UNVALIDATED, 0) | Some v \<Rightarrow> (E_PARAM_CUSTOM_VALIDATED, vb_id v))
      in if is_primitive_type n \<and> ty_len (pm_type p) = 0 then
           (if sz > 0 \<and> sz \<le> 4 then (c\<lparr>ck_slot := slot, ck_words := 1\<rparr>, off + sz, slot + 1) else (c, off + sz, slot))
         else if is_primitive_type n then (c\<lparr>ck_kind := fst k, ck_validator := snd k\<rparr>, off + sz, slot)
         else (c\<lparr>ck_kind := fst k, ck_validator := snd k, ck_abi := E_PARAM_ABI_TYPE_REF, ck_size := 8, ck_slot := slot, ck_words := 2\<rparr>,
               off + 8, slot + 2))"

fun callable_params ::
  "esem \<Rightarrow> efunction \<Rightarrow> nat \<Rightarrow> eparam list \<Rightarrow> string \<times> eparam_check list \<times> u64 \<times> u32 \<Rightarrow> (eparam_check list \<times> u64 \<times> u32) sem" where
  "callable_params m f j [] s = Inr s"
| "callable_params m f j (p # ps) (err, cs, off, slot) =
     (if type_ref_is_union (pm_type p) then Inl ''%s %s parameter %s cannot use a union ingress type''
      else let (sz, err1) = type_ref_size m (pm_type p) err in
        if size_unknown m (pm_type p) sz then Inl err1
        else let (c, off1, slot1) = param_check m f j p sz off slot
             in callable_params m f (j + 1) ps (err1, cs @ [c], off1, slot1))"

definition collect_callable_checks :: "nat \<Rightarrow> efunction \<Rightarrow> string \<times> esem \<Rightarrow> esem sem" where
  "collect_callable_checks i f s = (case s of (err, m) \<Rightarrow>
     case callable_params m f 0 (fn_params f) (err, [], 0, 0) of
       Inl e \<Rightarrow> Inl e
     | Inr (err1, cs, off, slot) \<Rightarrow>
         let fr = frame_init\<lparr>fr_owner := fn_name f, fr_fn := Some f, fr_param := off,
               fr_varargs := (if fn_variadic f then Some (slot, slot + 1) else None),
               fr_slots := (if fn_variadic f then slot + 2 else slot)\<rparr>
         in case collect_local_decls_in_stmt m i False (fn_body f) (err1, fr) of
              Inl e \<Rightarrow> Inl e
            | Inr (err2, fr1) \<Rightarrow> Inr (err2, m\<lparr>sm_checks := sm_checks m @ cs, sm_frames := sm_frames m @ [fr1]\<rparr>))"

fun function_checks :: "nat \<times> etop \<Rightarrow> string \<times> esem \<Rightarrow> esem sem" where
  "function_checks (i, TopFunction f) s = collect_callable_checks i f s"
| "function_checks (i, TopAtEntry f) s = collect_callable_checks i f s"
| "function_checks (i, t) s = Inr s"

definition collect_function_checks :: "etop list \<Rightarrow> string \<times> esem \<Rightarrow> esem sem" where
  "collect_function_checks ts s = sem_fold function_checks (zip [0..<length ts] ts) s"

section \<open>Other bodies\<close>

definition body_frame :: "nat \<Rightarrow> string \<Rightarrow> bool \<Rightarrow> estmt \<Rightarrow> string \<times> esem \<Rightarrow> esem sem" where
  "body_frame i owner in_worker body s = (case s of (err, m) \<Rightarrow>
     case collect_local_decls_in_stmt m i in_worker body (err, frame_init\<lparr>fr_owner := owner\<rparr>) of
       Inl e \<Rightarrow> Inl e
     | Inr (err1, fr) \<Rightarrow> Inr (err1, m\<lparr>sm_frames := sm_frames m @ [fr]\<rparr>))"

fun type_frame :: "nat \<times> etop \<Rightarrow> string \<times> esem \<Rightarrow> esem sem" where
  "type_frame (i, TopType t) s = body_frame i (td_name t) False (td_body t) s" | "type_frame (i, t) s = Inr s"

fun non_function_frame :: "nat \<times> etop \<Rightarrow> string \<times> esem \<Rightarrow> esem sem" where
  "non_function_frame (i, TopKernel k) s = body_frame i ''kernel'' False (kn_body k) s"
| "non_function_frame (i, TopWorker w) s = body_frame i (wk_name w) True (wk_body w) s"
| "non_function_frame (i, TopType t) s = body_frame i (td_name t) False (td_body t) s"
| "non_function_frame (i, t) s = Inr s"

definition collect_type_frames :: "etop list \<Rightarrow> string \<times> esem \<Rightarrow> esem sem" where
  "collect_type_frames ts s = sem_fold type_frame (zip [0..<length ts] ts) s"

definition validate_non_function_local_decls :: "etop list \<Rightarrow> string \<times> esem \<Rightarrow> esem sem" where
  "validate_non_function_local_decls ts s = sem_fold non_function_frame (zip [0..<length ts] ts) s"

end
