(* ===== verification/ESemCheck.thy ===== *)
theory ESemCheck
  imports ESemFrame
begin

text \<open>
  The checks of an E program that leave the model as it is, \<open>e/e_semantic.c\<close>: one definition per tree walk.
  A check answers the text of the first error, or nothing.
\<close>

section \<open>Combining checks\<close>

definition also_ok :: "string option \<Rightarrow> string option \<Rightarrow> string option" where
  "also_ok a b = (case a of Some e \<Rightarrow> Some e | None \<Rightarrow> b)"

lemma also_ok_cong [fundef_cong]: "a = a' \<Longrightarrow> (a' = None \<Longrightarrow> b = b') \<Longrightarrow> also_ok a b = also_ok a' b'"
  by (auto simp: also_ok_def split: option.splits)

lemma also_ok_None [simp]: "also_ok a b = None \<longleftrightarrow> a = None \<and> b = None"
  by (simp add: also_ok_def split: option.splits)

fun first_err :: "('a \<Rightarrow> string option) \<Rightarrow> 'a list \<Rightarrow> string option" where
  "first_err f [] = None" | "first_err f (x # xs) = also_ok (f x) (first_err f xs)"

lemma first_err_cong [fundef_cong]: "xs = ys \<Longrightarrow> (\<And>x. x \<in> set ys \<Longrightarrow> f x = g x) \<Longrightarrow> first_err f xs = first_err g ys"
  by (induction xs arbitrary: ys) auto

lemma first_err_None: "first_err f xs = None \<longleftrightarrow> (\<forall>x \<in> set xs. f x = None)"
  by (induction xs) auto

definition opt_err :: "('a \<Rightarrow> string option) \<Rightarrow> 'a option \<Rightarrow> string option" where
  "opt_err f x = (case x of None \<Rightarrow> None | Some y \<Rightarrow> f y)"

lemma opt_err_cong [fundef_cong]: "x = y \<Longrightarrow> (\<And>z. y = Some z \<Longrightarrow> f z = g z) \<Longrightarrow> opt_err f x = opt_err g y"
  by (auto simp: opt_err_def split: option.splits)

text \<open>The body of a top-level declaration, with the name of its frame.\<close>

fun top_body :: "etop \<Rightarrow> (estmt \<times> string) option" where
  "top_body (TopKernel k) = Some (kn_body k, ''kernel'')" | "top_body (TopWorker w) = Some (wk_body w, wk_name w)"
| "top_body (TopFunction f) = Some (fn_body f, fn_name f)" | "top_body (TopAtEntry f) = Some (fn_body f, fn_name f)"
| "top_body (TopType t) = Some (td_body t, td_name t)" | "top_body t = None"

fun top_worker :: "etop \<Rightarrow> eworker option" where
  "top_worker (TopWorker w) = Some w" | "top_worker t = None"

fun top_function :: "etop \<Rightarrow> efunction option" where
  "top_function (TopFunction f) = Some f" | "top_function (TopAtEntry f) = Some f" | "top_function t = None"

fun is_top_kernel :: "etop \<Rightarrow> bool" where
  "is_top_kernel (TopKernel k) = True" | "is_top_kernel t = False"

section \<open>Loop control\<close>

fun validate_loop_control_in_stmt :: "nat \<Rightarrow> nat \<Rightarrow> estmt \<Rightarrow> string option"
  and loop_control_case :: "nat \<Rightarrow> nat \<Rightarrow> ecase \<Rightarrow> string option" where
  "validate_loop_control_in_stmt l s (SBlock ln ss) = first_err (validate_loop_control_in_stmt l s) ss"
| "validate_loop_control_in_stmt l s (SIf ln c t e) =
     also_ok (validate_loop_control_in_stmt l s t) (opt_err (validate_loop_control_in_stmt l s) e)"
| "validate_loop_control_in_stmt l s (SWhile ln c b) = validate_loop_control_in_stmt (l + 1) s b"
| "validate_loop_control_in_stmt l s (SFor ln i c st b) =
     also_ok (opt_err (validate_loop_control_in_stmt l s) i) (validate_loop_control_in_stmt (l + 1) s b)"
| "validate_loop_control_in_stmt l s (SForeach ln v it b) = validate_loop_control_in_stmt (l + 1) s b"
| "validate_loop_control_in_stmt l s (SSwitch ln t cs) = first_err (loop_control_case l (s + 1)) cs"
| "validate_loop_control_in_stmt l s (SBreak ln) = (if l = 0 \<and> s = 0 then Some ''break used outside loop or switch'' else None)"
| "validate_loop_control_in_stmt l s (SContinue ln) = (if l = 0 then Some ''continue used outside loop'' else None)"
| "validate_loop_control_in_stmt l s (SStaticBlock ln ss) = first_err (validate_loop_control_in_stmt l s) ss"
| "validate_loop_control_in_stmt l s st = None"
| "loop_control_case l s (ECase d v ss) = first_err (validate_loop_control_in_stmt l s) ss"

definition validate_loop_control_usage :: "etop list \<Rightarrow> string option" where
  "validate_loop_control_usage = first_err (\<lambda>t. opt_err (\<lambda>(b, n). validate_loop_control_in_stmt 0 0 b) (top_body t))"

section \<open>Targets of next and of the access list\<close>

definition worker_exists :: "esem \<Rightarrow> string \<Rightarrow> bool" where
  "worker_exists m n \<longleftrightarrow> (\<exists>w \<in> set (sm_workers m). wk_name w = n)"

fun validate_next_stmt_in_stmt :: "esem \<Rightarrow> estmt \<Rightarrow> string option" and next_stmt_case :: "esem \<Rightarrow> ecase \<Rightarrow> string option" where
  "validate_next_stmt_in_stmt m (SBlock ln ss) = first_err (validate_next_stmt_in_stmt m) ss"
| "validate_next_stmt_in_stmt m (SIf ln c t e) = also_ok (validate_next_stmt_in_stmt m t) (opt_err (validate_next_stmt_in_stmt m) e)"
| "validate_next_stmt_in_stmt m (SWhile ln c b) = validate_next_stmt_in_stmt m b"
| "validate_next_stmt_in_stmt m (SFor ln i c st b) = also_ok (opt_err (validate_next_stmt_in_stmt m) i) (validate_next_stmt_in_stmt m b)"
| "validate_next_stmt_in_stmt m (SForeach ln v it b) = validate_next_stmt_in_stmt m b"
| "validate_next_stmt_in_stmt m (SSwitch ln t cs) = first_err (next_stmt_case m) cs"
| "validate_next_stmt_in_stmt m (SNext ln n) = (if \<not> worker_exists m n then Some ''worker %s routes to unknown worker %s'' else None)"
| "validate_next_stmt_in_stmt m (SStaticBlock ln ss) = first_err (validate_next_stmt_in_stmt m) ss"
| "validate_next_stmt_in_stmt m st = None"
| "next_stmt_case m (ECase d v ss) = first_err (validate_next_stmt_in_stmt m) ss"

definition validate_worker_next_targets :: "esem \<Rightarrow> string option" where
  "validate_worker_next_targets m = first_err (\<lambda>w. validate_next_stmt_in_stmt m (wk_body w)) (sm_workers m)"

definition validate_kernel_acl_targets :: "esem \<Rightarrow> string option" where
  "validate_kernel_acl_targets m = (case sm_kernel m of None \<Rightarrow> None
     | Some k \<Rightarrow> first_err (\<lambda>(remote, w). if \<not> worker_exists m w then Some ''acl target worker %s is not declared'' else None) (kn_acl k))"

section \<open>typeof and typeid\<close>

fun validate_typeof_typeid_expr :: "esem \<Rightarrow> eexpr \<Rightarrow> string option" where
  "validate_typeof_typeid_expr m (EField b f) = validate_typeof_typeid_expr m b"
| "validate_typeof_typeid_expr m (EIndex b i) = also_ok (validate_typeof_typeid_expr m b) (validate_typeof_typeid_expr m i)"
| "validate_typeof_typeid_expr m (ESlice b s e) = also_ok (validate_typeof_typeid_expr m b)
     (also_ok (opt_err (validate_typeof_typeid_expr m) s) (opt_err (validate_typeof_typeid_expr m) e))"
| "validate_typeof_typeid_expr m (EAssign l r) = also_ok (validate_typeof_typeid_expr m l) (validate_typeof_typeid_expr m r)"
| "validate_typeof_typeid_expr m (EBinary op l r) = also_ok (validate_typeof_typeid_expr m l) (validate_typeof_typeid_expr m r)"
| "validate_typeof_typeid_expr m (EUnary op e) = validate_typeof_typeid_expr m e"
| "validate_typeof_typeid_expr m (ECall f args) = also_ok
     (if f = ''typeid'' then
        (case args of [EIdent n] \<Rightarrow> if find_validator m n = None then Some ''typeid target %s is not a declared E type'' else None
         | _ \<Rightarrow> Some ''typeid expects exactly 1 declared type name'')
      else if f = ''typeof'' then (if length args \<noteq> 1 then Some ''typeof expects exactly 1 argument'' else None)
      else None)
     (first_err (validate_typeof_typeid_expr m) args)"
| "validate_typeof_typeid_expr m e = None"

fun validate_typeof_typeid_usage_in_stmt :: "esem \<Rightarrow> estmt \<Rightarrow> string option" and typeof_case :: "esem \<Rightarrow> ecase \<Rightarrow> string option" where
  "validate_typeof_typeid_usage_in_stmt m (SDecl ln d) = opt_err (validate_typeof_typeid_expr m) (dl_init d)"
| "validate_typeof_typeid_usage_in_stmt m (SReturn ln v) = opt_err (validate_typeof_typeid_expr m) v"
| "validate_typeof_typeid_usage_in_stmt m (SExpr ln e) = validate_typeof_typeid_expr m e"
| "validate_typeof_typeid_usage_in_stmt m (SBlock ln ss) = first_err (validate_typeof_typeid_usage_in_stmt m) ss"
| "validate_typeof_typeid_usage_in_stmt m (SIf ln c t e) = also_ok (validate_typeof_typeid_expr m c)
     (also_ok (validate_typeof_typeid_usage_in_stmt m t) (opt_err (validate_typeof_typeid_usage_in_stmt m) e))"
| "validate_typeof_typeid_usage_in_stmt m (SWhile ln c b) =
     also_ok (validate_typeof_typeid_expr m c) (validate_typeof_typeid_usage_in_stmt m b)"
| "validate_typeof_typeid_usage_in_stmt m (SFor ln i c st b) = also_ok (opt_err (validate_typeof_typeid_usage_in_stmt m) i)
     (also_ok (opt_err (validate_typeof_typeid_expr m) c) (also_ok (opt_err (validate_typeof_typeid_expr m) st)
       (validate_typeof_typeid_usage_in_stmt m b)))"
| "validate_typeof_typeid_usage_in_stmt m (SForeach ln v it b) = validate_typeof_typeid_usage_in_stmt m b"
| "validate_typeof_typeid_usage_in_stmt m (SSwitch ln t cs) = also_ok (validate_typeof_typeid_expr m t) (first_err (typeof_case m) cs)"
| "validate_typeof_typeid_usage_in_stmt m (SStaticBlock ln ss) = first_err (validate_typeof_typeid_usage_in_stmt m) ss"
| "validate_typeof_typeid_usage_in_stmt m st = None"
| "typeof_case m (ECase d v ss) = first_err (validate_typeof_typeid_usage_in_stmt m) ss"

definition validate_typeof_typeid_usage :: "etop list \<Rightarrow> esem \<Rightarrow> string option" where
  "validate_typeof_typeid_usage ts m = first_err (\<lambda>t. opt_err (\<lambda>(b, n). validate_typeof_typeid_usage_in_stmt m b) (top_body t)) ts"

section \<open>Signals to other kernels\<close>

definition e_cross_kernel_lookup :: "(string \<times> string \<times> u32) list \<Rightarrow> string \<Rightarrow> string \<Rightarrow> u32" where
  "e_cross_kernel_lookup ix k w = (case find (\<lambda>(k', w', n). k' = k \<and> w' = w) ix of None \<Rightarrow> 0 | Some (_, _, n) \<Rightarrow> n)"

text \<open>The arguments of one call.\<close>

definition far_signal_call :: "eframe option \<Rightarrow> eworker option \<Rightarrow> esem \<Rightarrow> eexpr list \<Rightarrow> string option" where
  "far_signal_call fr w m args =
     (if w = None then Some ''far_signal is only valid inside worker blocks''
      else case args of
        [a0, a1, a2] \<Rightarrow>
          (case a0 of EString k \<Rightarrow> also_ok
              (case a1 of
                 EIdent n \<Rightarrow> if worker_exists m n \<or> sm_cross m = [] then None
                   else if e_cross_kernel_lookup (sm_cross m) (normalized_string_token k 512) n = 0
                   then Some ''far_signal worker %s not found in this compilation unit or cross-kernel index'' else None
               | EInt i \<Rightarrow> None
               | _ \<Rightarrow> Some ''far_signal worker must be a worker name or integer index'')
              (case a2 of
                 EIdent n \<Rightarrow> (case find_local_binding_by_name fr n of
                     None \<Rightarrow> Some ''far_signal payload %s must be a local declared custom type''
                   | Some l \<Rightarrow> if is_primitive_type (lo_type l) then Some ''far_signal payload %s must be a local declared custom type''
                               else None)
               | _ \<Rightarrow> Some ''far_signal payload must be a local declared value'')
           | _ \<Rightarrow> Some ''far_signal target kernel must be a string literal'')
      | _ \<Rightarrow> Some ''far_signal expects exactly 3 arguments: (kernel_id, worker_name, payload)'')"

fun validate_far_signal_expr :: "eframe option \<Rightarrow> eworker option \<Rightarrow> esem \<Rightarrow> eexpr \<Rightarrow> string option" where
  "validate_far_signal_expr fr w m (EField b f) = validate_far_signal_expr fr w m b"
| "validate_far_signal_expr fr w m (EIndex b i) = also_ok (validate_far_signal_expr fr w m b) (validate_far_signal_expr fr w m i)"
| "validate_far_signal_expr fr w m (ESlice b s e) = also_ok (validate_far_signal_expr fr w m b)
     (also_ok (opt_err (validate_far_signal_expr fr w m) s) (opt_err (validate_far_signal_expr fr w m) e))"
| "validate_far_signal_expr fr w m (EAssign l r) = also_ok (validate_far_signal_expr fr w m l) (validate_far_signal_expr fr w m r)"
| "validate_far_signal_expr fr w m (EBinary op l r) = also_ok (validate_far_signal_expr fr w m l) (validate_far_signal_expr fr w m r)"
| "validate_far_signal_expr fr w m (EUnary op e) = validate_far_signal_expr fr w m e"
| "validate_far_signal_expr fr w m (ECall f args) = also_ok (if f = ''far_signal'' then far_signal_call fr w m args else None)
     (first_err (validate_far_signal_expr fr w m) args)"
| "validate_far_signal_expr fr w m e = None"

fun validate_far_signal_usage_in_stmt :: "eframe option \<Rightarrow> eworker option \<Rightarrow> esem \<Rightarrow> estmt \<Rightarrow> string option"
  and far_signal_case :: "eframe option \<Rightarrow> eworker option \<Rightarrow> esem \<Rightarrow> ecase \<Rightarrow> string option" where
  "validate_far_signal_usage_in_stmt fr w m (SDecl ln d) = opt_err (validate_far_signal_expr fr w m) (dl_init d)"
| "validate_far_signal_usage_in_stmt fr w m (SReturn ln v) = opt_err (validate_far_signal_expr fr w m) v"
| "validate_far_signal_usage_in_stmt fr w m (SExpr ln e) = validate_far_signal_expr fr w m e"
| "validate_far_signal_usage_in_stmt fr w m (SBlock ln ss) = first_err (validate_far_signal_usage_in_stmt fr w m) ss"
| "validate_far_signal_usage_in_stmt fr w m (SIf ln c t e) = also_ok (validate_far_signal_expr fr w m c)
     (also_ok (validate_far_signal_usage_in_stmt fr w m t) (opt_err (validate_far_signal_usage_in_stmt fr w m) e))"
| "validate_far_signal_usage_in_stmt fr w m (SWhile ln c b) =
     also_ok (validate_far_signal_expr fr w m c) (validate_far_signal_usage_in_stmt fr w m b)"
| "validate_far_signal_usage_in_stmt fr w m (SFor ln i c st b) = also_ok (opt_err (validate_far_signal_usage_in_stmt fr w m) i)
     (also_ok (opt_err (validate_far_signal_expr fr w m) c) (also_ok (opt_err (validate_far_signal_expr fr w m) st)
       (validate_far_signal_usage_in_stmt fr w m b)))"
| "validate_far_signal_usage_in_stmt fr w m (SForeach ln v it b) = validate_far_signal_usage_in_stmt fr w m b"
| "validate_far_signal_usage_in_stmt fr w m (SSwitch ln t cs) = also_ok (validate_far_signal_expr fr w m t) (first_err (far_signal_case fr w m) cs)"
| "validate_far_signal_usage_in_stmt fr w m (SStaticBlock ln ss) = first_err (validate_far_signal_usage_in_stmt fr w m) ss"
| "validate_far_signal_usage_in_stmt fr w m st = None"
| "far_signal_case fr w m (ECase d v ss) = first_err (validate_far_signal_usage_in_stmt fr w m) ss"

definition validate_far_signal_usage :: "etop list \<Rightarrow> esem \<Rightarrow> string option" where
  "validate_far_signal_usage ts m =
     first_err (\<lambda>t. opt_err (\<lambda>(b, n). validate_far_signal_usage_in_stmt (find_frame m n) (top_worker t) m b) (top_body t)) ts"

end
