(* ===== verification/ESemUse.thy ===== *)
theory ESemUse
  imports ESemCheck
begin

text \<open>
  The checks of how values of declared types, published memory and worker modes are used,
  \<open>e/e_semantic.c\<close>.
\<close>

section \<open>Types of expressions\<close>

definition find_custom_param_type_by_name :: "efunction option \<Rightarrow> string \<Rightarrow> string option" where
  "find_custom_param_type_by_name f n = (case f of None \<Rightarrow> None | Some g \<Rightarrow>
     (case find (\<lambda>p. pm_name p = n) (fn_params g) of None \<Rightarrow> None
      | Some p \<Rightarrow> if is_primitive_type (ty_name (pm_type p)) then None else Some (ty_name (pm_type p))))"

definition custom_local_type :: "eframe option \<Rightarrow> string \<Rightarrow> string option" where
  "custom_local_type fr n = (case find_local_binding_by_name fr n of None \<Rightarrow> None
     | Some l \<Rightarrow> if is_primitive_type (lo_type l) then None else Some (lo_type l))"

text \<open>The type of \<open>e[...]\<close> where \<open>e\<close> names a pool of values that have a reference.\<close>

fun pool_element_type :: "esem \<Rightarrow> eexpr \<Rightarrow> string option" where
  "pool_element_type m (EIdent n) = (case find_dynamic_pool m n of None \<Rightarrow> None
     | Some p \<Rightarrow> if ep_len p \<noteq> 0 \<or> \<not> is_primitive_type (ep_type p) then Some (ep_type p) else None)"
| "pool_element_type m e = None"

fun find_expected_custom_lvalue_type :: "esem \<Rightarrow> eframe option \<Rightarrow> efunction option \<Rightarrow> eexpr \<Rightarrow> string option" where
  "find_expected_custom_lvalue_type m fr f (EIdent n) =
     (case custom_local_type fr n of Some t \<Rightarrow> Some t | None \<Rightarrow> find_custom_param_type_by_name f n)"
| "find_expected_custom_lvalue_type m fr f (EIndex b i) = pool_element_type m b"
| "find_expected_custom_lvalue_type m fr f e = None"

text \<open>The type of the ingress parameter of the worker with entry \<open>wid\<close>; of all workers, when they agree.\<close>

definition worker_payload_type :: "eworker \<Rightarrow> string" where
  "worker_payload_type w = ty_name (pm_type (hd (wk_params w)))"

definition worker_payload_type_by_entry_id :: "esem \<Rightarrow> u32 \<Rightarrow> string option" where
  "worker_payload_type_by_entry_id m wid =
     (if wid = 0 \<or> unat wid > length (sm_workers m) then None else Some (worker_payload_type (sm_workers m ! (unat wid - 1))))"

definition shared_worker_payload_type :: "esem \<Rightarrow> string option" where
  "shared_worker_payload_type m = (case sm_workers m of [] \<Rightarrow> None
     | w # ws \<Rightarrow> if \<forall>v \<in> set ws. worker_payload_type v = worker_payload_type w then Some (worker_payload_type w) else None)"

fun is_kernel_get_ghs_call :: "eexpr \<Rightarrow> bool" where
  "is_kernel_get_ghs_call (ECall f args) \<longleftrightarrow> f = ''kernal_get_ghs'' \<or> f = ''kernel_get_ghs''" | "is_kernel_get_ghs_call e \<longleftrightarrow> False"

text \<open>The declared type an expression yields, if any.\<close>

definition ghs_alloc_type :: "esem \<Rightarrow> nat \<Rightarrow> eexpr list \<Rightarrow> string + string option" where
  "ghs_alloc_type m n args =
     (if length args \<noteq> n then Inl ''%s expects a declared type identifier first''
      else case hd args of
        EIdent t \<Rightarrow> if find_type_layout m t = None then Inl ''%s unknown type %s'' else Inr (Some t)
      | _ \<Rightarrow> Inl ''%s expects a declared type identifier first'')"

definition kernel_ghs_type :: "esem \<Rightarrow> bool \<Rightarrow> eexpr list \<Rightarrow> string + string option" where
  "kernel_ghs_type m in_kernel args =
     (if \<not> in_kernel then Inl ''%s only valid in kernel''
      else case args of
        [EInt i] \<Rightarrow> (case worker_payload_type_by_entry_id m (word_of_int i) of
            None \<Rightarrow> Inl ''%s wid literal %lld does not map to a worker entry id'' | Some t \<Rightarrow> Inr (Some t))
      | [_] \<Rightarrow> (case shared_worker_payload_type m of
            None \<Rightarrow> Inl ''%s with non-constant wid requires all workers to share the same declared payload type'' | Some t \<Rightarrow> Inr (Some t))
      | _ \<Rightarrow> Inl ''%s expects exactly 1 arg'')"

fun infer_custom_expr_type ::
  "esem \<Rightarrow> eframe option \<Rightarrow> efunction option \<Rightarrow> eworker option \<Rightarrow> bool \<Rightarrow> eexpr \<Rightarrow> string + string option" where
  "infer_custom_expr_type m fr f w k (EIdent n) = Inr (case custom_local_type fr n of Some t \<Rightarrow> Some t
     | None \<Rightarrow> (case w of
          Some v \<Rightarrow> (case wk_params v of
              [p] \<Rightarrow> if pm_name p = n then Some (ty_name (pm_type p)) else find_custom_param_type_by_name f n
            | _ \<Rightarrow> find_custom_param_type_by_name f n)
        | None \<Rightarrow> find_custom_param_type_by_name f n))"
| "infer_custom_expr_type m fr f w k (EIndex b i) = Inr (pool_element_type m b)"
| "infer_custom_expr_type m fr f w k (ECall c args) =
     (if c = ''ghs_alloc'' then ghs_alloc_type m 1 args
      else if c = ''ghs_alloc_from_local'' then ghs_alloc_type m 2 args
      else if is_kernel_get_ghs_call (ECall c args) then kernel_ghs_type m k args
      else Inr None)"
| "infer_custom_expr_type m fr f w k e = Inr None"

text \<open>The value must have the declared type, when it has one.\<close>

definition value_matches :: "string \<Rightarrow> string \<Rightarrow> string \<Rightarrow> string + string option \<Rightarrow> string option" where
  "value_matches prim other t r = (case r of Inl e \<Rightarrow> Some e | Inr None \<Rightarrow> None
     | Inr (Some u) \<Rightarrow> if is_primitive_type t then Some prim else if u \<noteq> t then Some other else None)"

fun ghs_expr_stmt :: "esem \<Rightarrow> eframe option \<Rightarrow> efunction option \<Rightarrow> eworker option \<Rightarrow> bool \<Rightarrow> eexpr \<Rightarrow> string option" where
  "ghs_expr_stmt m fr f w k (EAssign l r) =
     (case infer_custom_expr_type m fr f w k r of Inl e \<Rightarrow> Some e | Inr None \<Rightarrow> None
      | Inr (Some u) \<Rightarrow> (case find_expected_custom_lvalue_type m fr f l of
            None \<Rightarrow> Some ''%s result must be assigned to a declared custom type''
          | Some t \<Rightarrow> if t \<noteq> u then Some ''assignment target type %s does not match %s payload type %s'' else None))"
| "ghs_expr_stmt m fr f w k e =
     (if is_kernel_get_ghs_call e then Some ''%s result must be assigned to a declared custom type'' else None)"

fun validate_kernel_get_ghs_usage_in_stmt ::
  "esem \<Rightarrow> eframe option \<Rightarrow> efunction option \<Rightarrow> eworker option \<Rightarrow> bool \<Rightarrow> estmt \<Rightarrow> string option"
  and get_ghs_case :: "esem \<Rightarrow> eframe option \<Rightarrow> efunction option \<Rightarrow> eworker option \<Rightarrow> bool \<Rightarrow> ecase \<Rightarrow> string option" where
  "validate_kernel_get_ghs_usage_in_stmt m fr f w k (SBlock ln ss) = first_err (validate_kernel_get_ghs_usage_in_stmt m fr f w k) ss"
| "validate_kernel_get_ghs_usage_in_stmt m fr f w k (SIf ln c t e) =
     also_ok (validate_kernel_get_ghs_usage_in_stmt m fr f w k t) (opt_err (validate_kernel_get_ghs_usage_in_stmt m fr f w k) e)"
| "validate_kernel_get_ghs_usage_in_stmt m fr f w k (SWhile ln c b) = validate_kernel_get_ghs_usage_in_stmt m fr f w k b"
| "validate_kernel_get_ghs_usage_in_stmt m fr f w k (SFor ln i c st b) =
     also_ok (opt_err (validate_kernel_get_ghs_usage_in_stmt m fr f w k) i) (validate_kernel_get_ghs_usage_in_stmt m fr f w k b)"
| "validate_kernel_get_ghs_usage_in_stmt m fr f w k (SForeach ln v it b) = validate_kernel_get_ghs_usage_in_stmt m fr f w k b"
| "validate_kernel_get_ghs_usage_in_stmt m fr f w k (SSwitch ln t cs) = first_err (get_ghs_case m fr f w k) cs"
| "validate_kernel_get_ghs_usage_in_stmt m fr f w k (SDecl ln d) =
     opt_err (\<lambda>e. value_matches ''decl %s cannot initialize primitive type %s from %s''
       ''decl %s type %s does not match %s payload type %s'' (ty_name (dl_type d)) (infer_custom_expr_type m fr f w k e)) (dl_init d)"
| "validate_kernel_get_ghs_usage_in_stmt m fr f w k (SExpr ln e) = ghs_expr_stmt m fr f w k e"
| "validate_kernel_get_ghs_usage_in_stmt m fr f w k (SReturn ln v) = (case f of None \<Rightarrow> None | Some g \<Rightarrow>
     opt_err (\<lambda>e. value_matches ''function %s cannot return primitive type %s from %s''
       ''function %s return type %s does not match %s payload type %s'' (ty_name (fn_return g)) (infer_custom_expr_type m fr f w k e)) v)"
| "validate_kernel_get_ghs_usage_in_stmt m fr f w k (SStaticBlock ln ss) = first_err (validate_kernel_get_ghs_usage_in_stmt m fr f w k) ss"
| "validate_kernel_get_ghs_usage_in_stmt m fr f w k st = None"
| "get_ghs_case m fr f w k (ECase d v ss) = first_err (validate_kernel_get_ghs_usage_in_stmt m fr f w k) ss"

definition validate_kernel_get_ghs_usage :: "etop list \<Rightarrow> esem \<Rightarrow> string option" where
  "validate_kernel_get_ghs_usage ts m = first_err (\<lambda>t. opt_err (\<lambda>(b, n).
     validate_kernel_get_ghs_usage_in_stmt m (find_frame m n) (top_function t) (top_worker t) (is_top_kernel t) b) (top_body t)) ts"

section \<open>Published memory\<close>

fun rgm_name_arg_is_valid :: "eexpr \<Rightarrow> bool" where
  "rgm_name_arg_is_valid (EString s) \<longleftrightarrow> True" | "rgm_name_arg_is_valid (EIdent n) \<longleftrightarrow> True"
| "rgm_name_arg_is_valid (EInt i) \<longleftrightarrow> i > 0" | "rgm_name_arg_is_valid e \<longleftrightarrow> False"

definition rgm_publish_ok :: "eframe option \<Rightarrow> bool \<Rightarrow> bool \<Rightarrow> eexpr list \<Rightarrow> string option" where
  "rgm_publish_ok fr in_static as_stmt args =
     (if \<not> as_stmt then Some ''rgm_publish is a registration statement and cannot be used as a value''
      else if \<not> in_static then Some ''rgm_publish is only valid inside a worker static block''
      else case args of
        [a0, a1] \<Rightarrow>
          if \<not> rgm_name_arg_is_valid a0 then Some ''rgm_publish name must be a string, identifier, or positive integer uid''
          else (case a1 of
              EIdent n \<Rightarrow> (case find_local_binding_by_name fr n of
                  None \<Rightarrow> Some ''rgm_publish payload %s must be a declared-type static binding''
                | Some l \<Rightarrow> if lo_storage l \<noteq> E_LOCAL_STACK_STATIC \<or> lo_words l \<noteq> 2 \<or> is_primitive_type (lo_type l)
                            then Some ''rgm_publish payload %s must be a declared-type static binding'' else None)
            | _ \<Rightarrow> Some ''rgm_publish payload must be a declared-type static identifier'')
      | _ \<Rightarrow> Some ''rgm_publish expects exactly 2 args: (name, static_payload)'')"

fun is_rgm_publish_call :: "eexpr \<Rightarrow> bool" where
  "is_rgm_publish_call (ECall f args) \<longleftrightarrow> f = ''rgm_publish''" | "is_rgm_publish_call e \<longleftrightarrow> False"

fun validate_rgm_usage_in_expr :: "eframe option \<Rightarrow> bool \<Rightarrow> bool \<Rightarrow> eexpr \<Rightarrow> string option" where
  "validate_rgm_usage_in_expr fr b s (ECall f args) =
     (if f = ''rgm_publish'' then rgm_publish_ok fr b s args else first_err (validate_rgm_usage_in_expr fr b False) args)"
| "validate_rgm_usage_in_expr fr b s (EBinary op l r) =
     also_ok (validate_rgm_usage_in_expr fr b False l) (validate_rgm_usage_in_expr fr b False r)"
| "validate_rgm_usage_in_expr fr b s (EUnary op e) = validate_rgm_usage_in_expr fr b False e"
| "validate_rgm_usage_in_expr fr b s (EAssign l r) =
     also_ok (validate_rgm_usage_in_expr fr b False l) (validate_rgm_usage_in_expr fr b False r)"
| "validate_rgm_usage_in_expr fr b s (EField e f) = validate_rgm_usage_in_expr fr b False e"
| "validate_rgm_usage_in_expr fr b s (EIndex e i) =
     also_ok (validate_rgm_usage_in_expr fr b False e) (validate_rgm_usage_in_expr fr b False i)"
| "validate_rgm_usage_in_expr fr b s (ESlice e st en) = also_ok (validate_rgm_usage_in_expr fr b False e)
     (also_ok (opt_err (validate_rgm_usage_in_expr fr b False) st) (opt_err (validate_rgm_usage_in_expr fr b False) en))"
| "validate_rgm_usage_in_expr fr b s e = None"

fun validate_rgm_usage_in_stmt :: "eframe option \<Rightarrow> bool \<Rightarrow> bool \<Rightarrow> estmt \<Rightarrow> string option"
  and rgm_usage_case :: "eframe option \<Rightarrow> bool \<Rightarrow> bool \<Rightarrow> ecase \<Rightarrow> string option" where
  "validate_rgm_usage_in_stmt fr w b (SBlock ln ss) = first_err (validate_rgm_usage_in_stmt fr w b) ss"
| "validate_rgm_usage_in_stmt fr w b (SIf ln c t e) = also_ok (validate_rgm_usage_in_expr fr b False c)
     (also_ok (validate_rgm_usage_in_stmt fr w b t) (opt_err (validate_rgm_usage_in_stmt fr w b) e))"
| "validate_rgm_usage_in_stmt fr w b (SWhile ln c bd) =
     also_ok (validate_rgm_usage_in_expr fr b False c) (validate_rgm_usage_in_stmt fr w b bd)"
| "validate_rgm_usage_in_stmt fr w b (SFor ln i c st bd) = also_ok (opt_err (validate_rgm_usage_in_stmt fr w b) i)
     (also_ok (opt_err (validate_rgm_usage_in_expr fr b False) c) (also_ok (opt_err (validate_rgm_usage_in_expr fr b False) st)
       (validate_rgm_usage_in_stmt fr w b bd)))"
| "validate_rgm_usage_in_stmt fr w b (SForeach ln v it bd) =
     also_ok (opt_err (validate_rgm_usage_in_expr fr b False) (dl_init v)) (validate_rgm_usage_in_stmt fr w b bd)"
| "validate_rgm_usage_in_stmt fr w b (SSwitch ln t cs) = also_ok (validate_rgm_usage_in_expr fr b False t) (first_err (rgm_usage_case fr w b) cs)"
| "validate_rgm_usage_in_stmt fr w b (SDecl ln d) = opt_err (validate_rgm_usage_in_expr fr b False) (dl_init d)"
| "validate_rgm_usage_in_stmt fr w b (SReturn ln v) = opt_err (validate_rgm_usage_in_expr fr b False) v"
| "validate_rgm_usage_in_stmt fr w b (SExpr ln e) = validate_rgm_usage_in_expr fr b (is_rgm_publish_call e) e"
| "validate_rgm_usage_in_stmt fr w b (SStaticBlock ln ss) = first_err (validate_rgm_usage_in_stmt fr w w) ss"
| "validate_rgm_usage_in_stmt fr w b st = None"
| "rgm_usage_case fr w b (ECase d v ss) = first_err (validate_rgm_usage_in_stmt fr w b) ss"

definition validate_rgm_usage :: "etop list \<Rightarrow> esem \<Rightarrow> string option" where
  "validate_rgm_usage ts m = first_err (\<lambda>t. opt_err (\<lambda>(b, n).
     validate_rgm_usage_in_stmt (find_frame m n) (top_worker t \<noteq> None) False b) (top_body t)) ts"

section \<open>Worker modes\<close>

definition mode_calls :: "string list" where
  "mode_calls = [''set_worker_privilege'', ''worker_privilege'', ''set_worker_ignore_max_ticks'', ''worker_ignore_max_ticks'']"

fun is_worker_mode_decl_call :: "eexpr \<Rightarrow> bool" where
  "is_worker_mode_decl_call (ECall f args) \<longleftrightarrow> f \<in> set mode_calls" | "is_worker_mode_decl_call e \<longleftrightarrow> False"

definition mode_decl_ok :: "bool \<Rightarrow> bool \<Rightarrow> eexpr list \<Rightarrow> string option" where
  "mode_decl_ok in_static as_stmt args =
     (if \<not> as_stmt then Some ''%s is a worker mode declaration statement and cannot be used as a value''
      else if \<not> in_static then Some ''%s is only valid inside kernel static block''
      else case args of
        [a0, a1] \<Rightarrow> (case a1 of EInt i \<Rightarrow> if i < 0 then Some ''%s value must be a non-negative integer literal'' else None
           | _ \<Rightarrow> Some ''%s value must be a non-negative integer literal'')
      | _ \<Rightarrow> Some ''%s expects exactly 2 args: (worker, value)'')"

fun validate_privilege_usage_in_expr :: "bool \<Rightarrow> bool \<Rightarrow> eexpr \<Rightarrow> string option" where
  "validate_privilege_usage_in_expr b s (ECall f args) =
     (if f \<in> set mode_calls then mode_decl_ok b s args else first_err (validate_privilege_usage_in_expr b False) args)"
| "validate_privilege_usage_in_expr b s (EBinary op l r) =
     also_ok (validate_privilege_usage_in_expr b False l) (validate_privilege_usage_in_expr b False r)"
| "validate_privilege_usage_in_expr b s (EUnary op e) = validate_privilege_usage_in_expr b False e"
| "validate_privilege_usage_in_expr b s (EAssign l r) =
     also_ok (validate_privilege_usage_in_expr b False l) (validate_privilege_usage_in_expr b False r)"
| "validate_privilege_usage_in_expr b s (EField e f) = validate_privilege_usage_in_expr b False e"
| "validate_privilege_usage_in_expr b s (EIndex e i) =
     also_ok (validate_privilege_usage_in_expr b False e) (validate_privilege_usage_in_expr b False i)"
| "validate_privilege_usage_in_expr b s (ESlice e st en) = also_ok (validate_privilege_usage_in_expr b False e)
     (also_ok (opt_err (validate_privilege_usage_in_expr b False) st) (opt_err (validate_privilege_usage_in_expr b False) en))"
| "validate_privilege_usage_in_expr b s e = None"

fun validate_privilege_usage_in_stmt :: "bool \<Rightarrow> bool \<Rightarrow> estmt \<Rightarrow> string option" and privilege_case :: "bool \<Rightarrow> bool \<Rightarrow> ecase \<Rightarrow> string option" where
  "validate_privilege_usage_in_stmt k b (SBlock ln ss) = first_err (validate_privilege_usage_in_stmt k b) ss"
| "validate_privilege_usage_in_stmt k b (SIf ln c t e) = also_ok (validate_privilege_usage_in_expr b False c)
     (also_ok (validate_privilege_usage_in_stmt k b t) (opt_err (validate_privilege_usage_in_stmt k b) e))"
| "validate_privilege_usage_in_stmt k b (SWhile ln c bd) =
     also_ok (validate_privilege_usage_in_expr b False c) (validate_privilege_usage_in_stmt k b bd)"
| "validate_privilege_usage_in_stmt k b (SFor ln i c st bd) = also_ok (opt_err (validate_privilege_usage_in_stmt k b) i)
     (also_ok (opt_err (validate_privilege_usage_in_expr b False) c) (also_ok (opt_err (validate_privilege_usage_in_expr b False) st)
       (validate_privilege_usage_in_stmt k b bd)))"
| "validate_privilege_usage_in_stmt k b (SForeach ln v it bd) =
     also_ok (opt_err (validate_privilege_usage_in_expr b False) (dl_init v)) (validate_privilege_usage_in_stmt k b bd)"
| "validate_privilege_usage_in_stmt k b (SSwitch ln t cs) = also_ok (validate_privilege_usage_in_expr b False t) (first_err (privilege_case k b) cs)"
| "validate_privilege_usage_in_stmt k b (SDecl ln d) = opt_err (validate_privilege_usage_in_expr b False) (dl_init d)"
| "validate_privilege_usage_in_stmt k b (SReturn ln v) = opt_err (validate_privilege_usage_in_expr b False) v"
| "validate_privilege_usage_in_stmt k b (SExpr ln e) = validate_privilege_usage_in_expr b (is_worker_mode_decl_call e) e"
| "validate_privilege_usage_in_stmt k b (SStaticBlock ln ss) = first_err (validate_privilege_usage_in_stmt k k) ss"
| "validate_privilege_usage_in_stmt k b st = None"
| "privilege_case k b (ECase d v ss) = first_err (validate_privilege_usage_in_stmt k b) ss"

definition validate_privilege_usage :: "etop list \<Rightarrow> string option" where
  "validate_privilege_usage = first_err (\<lambda>t. opt_err (\<lambda>(b, n). validate_privilege_usage_in_stmt (is_top_kernel t) False b) (top_body t))"

end
