(* ===== verification/ESemModel.thy ===== *)
theory ESemModel
  imports ESemUse
begin

text \<open>
  Dynamic slices, and the construction of the whole semantic model, \<open>e/e_semantic.c\<close>
  (\<open>e_build_semantic_model\<close>); the index of workers of several kernels and its use.
\<close>

section \<open>Dynamic slices\<close>

fun expr_is_dynamic_slice :: "esem \<Rightarrow> eexpr \<Rightarrow> bool" where
  "expr_is_dynamic_slice m (ESlice (EIdent n) s e) \<longleftrightarrow> find_dynamic_pool m n \<noteq> None"
| "expr_is_dynamic_slice m e \<longleftrightarrow> False"

fun is_slice :: "eexpr \<Rightarrow> bool" where
  "is_slice (ESlice b s e) \<longleftrightarrow> True" | "is_slice e \<longleftrightarrow> False"

definition validate_dynamic_slice_target_binding :: "elocal option \<Rightarrow> string option" where
  "validate_dynamic_slice_target_binding b =
     (if (case b of None \<Rightarrow> True | Some l \<Rightarrow> lo_storage l \<noteq> E_LOCAL_ARENA_SCOPED \<or> lo_words l \<noteq> 2)
      then Some ''dynamic slice target must be a local frame-backed binding'' else None)"

fun validate_dynamic_slice_expr :: "esem \<Rightarrow> eframe option \<Rightarrow> bool \<Rightarrow> eexpr \<Rightarrow> string option" where
  "validate_dynamic_slice_expr m fr a (EField b f) = validate_dynamic_slice_expr m fr False b"
| "validate_dynamic_slice_expr m fr a (EIndex b i) =
     also_ok (validate_dynamic_slice_expr m fr False b) (validate_dynamic_slice_expr m fr False i)"
| "validate_dynamic_slice_expr m fr a (ESlice b s e) =
     (if \<not> a then Some ''dynamic slice may only initialize or assign to local frame-backed storage''
      else if \<not> expr_is_dynamic_slice m (ESlice b s e) then Some ''slice base must be a dynamic pool identifier''
      else if e = None then Some ''dynamic slice requires an explicit end bound''
      else also_ok (opt_err (validate_dynamic_slice_expr m fr False) s) (opt_err (validate_dynamic_slice_expr m fr False) e))"
| "validate_dynamic_slice_expr m fr a (EAssign l r) =
     (if is_slice r then
        (case l of EIdent n \<Rightarrow> also_ok (validate_dynamic_slice_target_binding (find_local_binding_by_name fr n))
             (validate_dynamic_slice_expr m fr True r)
         | _ \<Rightarrow> Some ''dynamic slice assignment target must be a local identifier'')
      else also_ok (validate_dynamic_slice_expr m fr False l) (validate_dynamic_slice_expr m fr False r))"
| "validate_dynamic_slice_expr m fr a (EBinary op l r) =
     also_ok (validate_dynamic_slice_expr m fr False l) (validate_dynamic_slice_expr m fr False r)"
| "validate_dynamic_slice_expr m fr a (EUnary op e) = validate_dynamic_slice_expr m fr False e"
| "validate_dynamic_slice_expr m fr a (ECall f args) = first_err (validate_dynamic_slice_expr m fr False) args"
| "validate_dynamic_slice_expr m fr a e = None"

text \<open>The statement walk carries the number of the next declaration, which stands for its address.\<close>

definition sem_check :: "string option \<Rightarrow> string \<times> 'a \<Rightarrow> 'a sem" where
  "sem_check r s = (case r of Some e \<Rightarrow> Inl e | None \<Rightarrow> Inr s)"

definition slice_decl :: "esem \<Rightarrow> eframe option \<Rightarrow> nat \<Rightarrow> edecl \<Rightarrow> string \<times> nat \<Rightarrow> nat sem" where
  "slice_decl m fr i d s = (case s of (err, n) \<Rightarrow>
     (case dl_init d of None \<Rightarrow> Inr (err, n + 1)
      | Some e \<Rightarrow> sem_check
          (if is_slice e then also_ok (validate_dynamic_slice_target_binding (find_local_binding_by_stmt fr (i, n)))
                                      (validate_dynamic_slice_expr m fr True e)
           else validate_dynamic_slice_expr m fr False e) (err, n + 1)))"

fun validate_dynamic_slice_usage_in_stmt :: "esem \<Rightarrow> eframe option \<Rightarrow> nat \<Rightarrow> estmt \<Rightarrow> string \<times> nat \<Rightarrow> nat sem"
  and slice_usage_case :: "esem \<Rightarrow> eframe option \<Rightarrow> nat \<Rightarrow> ecase \<Rightarrow> string \<times> nat \<Rightarrow> nat sem" where
  "validate_dynamic_slice_usage_in_stmt m fr i (SBlock ln ss) s = sem_fold (validate_dynamic_slice_usage_in_stmt m fr i) ss s"
| "validate_dynamic_slice_usage_in_stmt m fr i (SIf ln c t e) s =
     sem_then (sem_check (validate_dynamic_slice_expr m fr False c) s)
       (\<lambda>s1. sem_then (validate_dynamic_slice_usage_in_stmt m fr i t s1) (sem_opt (validate_dynamic_slice_usage_in_stmt m fr i) e))"
| "validate_dynamic_slice_usage_in_stmt m fr i (SWhile ln c b) s =
     sem_then (sem_check (validate_dynamic_slice_expr m fr False c) s) (validate_dynamic_slice_usage_in_stmt m fr i b)"
| "validate_dynamic_slice_usage_in_stmt m fr i (SFor ln n c st b) s =
     sem_then (sem_opt (validate_dynamic_slice_usage_in_stmt m fr i) n s)
       (\<lambda>s1. sem_then (sem_check (also_ok (opt_err (validate_dynamic_slice_expr m fr False) c)
                                           (opt_err (validate_dynamic_slice_expr m fr False) st)) s1)
               (validate_dynamic_slice_usage_in_stmt m fr i b))"
| "validate_dynamic_slice_usage_in_stmt m fr i (SForeach ln v it b) s =
     sem_then (slice_decl m fr i v s) (validate_dynamic_slice_usage_in_stmt m fr i b)"
| "validate_dynamic_slice_usage_in_stmt m fr i (SSwitch ln t cs) s =
     sem_then (sem_check (validate_dynamic_slice_expr m fr False t) s) (sem_fold (slice_usage_case m fr i) cs)"
| "validate_dynamic_slice_usage_in_stmt m fr i (SDecl ln d) s = slice_decl m fr i d s"
| "validate_dynamic_slice_usage_in_stmt m fr i (SReturn ln v) s = sem_check (opt_err (validate_dynamic_slice_expr m fr False) v) s"
| "validate_dynamic_slice_usage_in_stmt m fr i (SExpr ln e) s = sem_check (validate_dynamic_slice_expr m fr False e) s"
| "validate_dynamic_slice_usage_in_stmt m fr i (SStaticBlock ln ss) s = sem_fold (validate_dynamic_slice_usage_in_stmt m fr i) ss s"
| "validate_dynamic_slice_usage_in_stmt m fr i st s = Inr s"
| "slice_usage_case m fr i (ECase d v ss) s = sem_fold (validate_dynamic_slice_usage_in_stmt m fr i) ss s"

definition validate_dynamic_slice_usage :: "etop list \<Rightarrow> esem \<Rightarrow> string option" where
  "validate_dynamic_slice_usage ts m = first_err (\<lambda>(i, t). opt_err (\<lambda>(b, n).
     case validate_dynamic_slice_usage_in_stmt m (find_frame m n) i b ([], 0) of Inl e \<Rightarrow> Some e | Inr r \<Rightarrow> None) (top_body t))
     (enumerate 0 ts)"

section \<open>The whole model\<close>

text \<open>The checks that leave the model as it is, in their order.\<close>

definition semantic_checks :: "etop list \<Rightarrow> esem \<Rightarrow> string option" where
  "semantic_checks ts m =
     also_ok (validate_worker_next_targets m) (also_ok (validate_kernel_acl_targets m)
      (also_ok (validate_far_signal_usage ts m) (also_ok (validate_kernel_get_ghs_usage ts m)
       (also_ok (validate_rgm_usage ts m) (also_ok (validate_dynamic_slice_usage ts m)
        (also_ok (validate_privilege_usage ts) (also_ok (validate_typeof_typeid_usage ts m)
          (validate_loop_control_usage ts))))))))"

definition semantic_tables :: "etop list \<Rightarrow> esem sem" where
  "semantic_tables ts =
     sem_then (collect_declares [] ts ([], esem_init)) (\<lambda>s.
     sem_then (collect_validators ts s) (\<lambda>s.
     sem_then (collect_type_layouts ts s) (\<lambda>s.
     sem_then (collect_dynamic_pools ts s) (\<lambda>s.
     sem_then (collect_top_level_roles ts s) (\<lambda>s.
     sem_then (collect_kernel_identity ts s) (\<lambda>s.
     sem_then (collect_function_checks ts s) (\<lambda>s.
     sem_then (collect_type_frames ts s)
       (validate_non_function_local_decls ts))))))))"

definition e_build_semantic_model :: "etop list \<Rightarrow> string + esem" where
  "e_build_semantic_model ts = (case semantic_tables ts of Inl e \<Rightarrow> Inl e
     | Inr (err, m) \<Rightarrow> (case semantic_checks ts m of Some e \<Rightarrow> Inl e | None \<Rightarrow> Inr m))"

section \<open>Workers of several kernels\<close>

text \<open>A model without a name has no entries.\<close>

definition e_build_cross_kernel_index :: "esem list \<Rightarrow> (string \<times> string \<times> u32) list" where
  "e_build_cross_kernel_index ms = concat (map (\<lambda>m. if sm_id m = [] then []
     else map (\<lambda>(i, w). (sm_id m, wk_name w, of_nat (i + 1))) (enumerate 0 (sm_workers m))) ms)"

definition e_validate_cross_kernel_references :: "etop list \<Rightarrow> esem \<Rightarrow> string option" where
  "e_validate_cross_kernel_references ts m = validate_far_signal_usage ts m"

end
