(* ===== verification/ESemPlace.thy ===== *)
theory ESemPlace
  imports ESemModel "HOL-Library.Sublist"
begin

text \<open>
  Where an accepted E program keeps its values: the parameters and declarations of a body get ranges that
  lie behind each other without gaps, and so do the fields of a type. Lengths and offsets are machine
  integers; the theorems hold where the sums do not wrap.
\<close>

section \<open>Ranges without gaps\<close>

text \<open>The ranges, start and length, fill the space from \<open>a\<close> to \<open>z\<close> in their order.\<close>

fun packed :: "'a::plus \<Rightarrow> ('a \<times> 'a) list \<Rightarrow> 'a \<Rightarrow> bool" where
  "packed a [] z \<longleftrightarrow> z = a"
| "packed a ((s, n) # rs) z \<longleftrightarrow> s = a \<and> packed (a + n) rs z"

lemma packed_append: "packed a (rs @ qs) z \<longleftrightarrow> (\<exists>y. packed a rs y \<and> packed y qs z)"
  by (induction a rs z rule: packed.induct) auto

lemma packed_snoc [simp]: "packed a (rs @ [(s, n)]) z \<longleftrightarrow> packed a rs s \<and> z = s + n"
  by (auto simp: packed_append)

lemma packed_end: "packed (a :: 'a::monoid_add) rs z \<Longrightarrow> z = a + sum_list (map snd rs)"
  by (induction a rs z rule: packed.induct) (auto simp: add.assoc)

text \<open>So they are disjoint.\<close>

lemma packed_disjoint:
  assumes "packed (a :: nat) rs z" "j < k" "k < length rs"
  shows "fst (rs ! j) + snd (rs ! j) \<le> fst (rs ! k) \<and> a \<le> fst (rs ! j) \<and> fst (rs ! k) + snd (rs ! k) \<le> z"
proof -
  have start: "fst (rs ! i) = a + sum_list (map snd (take i rs))" if "i < length rs" for i
    using that assms(1) by (induction a rs z arbitrary: i rule: packed.induct) (auto simp: nth_Cons' take_Cons')
  have step: "sum_list (map snd (take i rs)) + snd (rs ! i) \<le> sum_list (map snd (take l rs))" if "i < l" "l \<le> length rs" for i l
  proof -
    have "take l rs = take (Suc i) rs @ take (l - Suc i) (drop (Suc i) rs)"
      using that by (metis Suc_leI le_add_diff_inverse take_add)
    then show ?thesis using that by (simp add: take_Suc_conv_app_nth)
  qed
  have "sum_list (map snd (take k rs)) + snd (rs ! k) \<le> sum_list (map snd rs)"
    using step [of k "length rs"] assms(3) by simp
  then show ?thesis using start [of j] start [of k] step [of j k] assms packed_end [OF assms(1)] by simp
qed

abbreviation nat_ranges :: "('a::len word \<times> 'a word) list \<Rightarrow> (nat \<times> nat) list" where
  "nat_ranges \<equiv> map (map_prod unat unat)"

abbreviation lengths :: "('a::len word \<times> 'a word) list \<Rightarrow> nat" where
  "lengths rs \<equiv> sum_list (map (\<lambda>r. unat (snd r)) rs)"

lemma packed_unat:
  "packed (a :: 'a::len word) rs z \<Longrightarrow> unat a + lengths rs < 2 ^ LENGTH('a) \<Longrightarrow> packed (unat a) (nat_ranges rs) (unat z)"
proof (induction a rs z rule: packed.induct)
  case (2 a s n rs z)
  have "unat (a + n) = unat a + unat n"
    using 2(3) by (intro unat_add_lem [THEN iffD1]) simp
  then show ?case using 2 by simp
qed simp

section \<open>Walks\<close>

lemma sem_fold_keeps:
  assumes "\<And>x s s'. x \<in> set xs \<Longrightarrow> f x s = Inr s' \<Longrightarrow> P s \<Longrightarrow> P s'" "sem_fold f xs s = Inr s'" "P s"
  shows "P s'"
  using assms by (induction xs arbitrary: s) (auto split: sum.splits, blast)

lemma sem_then_Inr: "sem_then r f = Inr s' \<longleftrightarrow> (\<exists>s. r = Inr s \<and> f s = Inr s')"
  by (simp add: sem_then_def split: sum.splits)

lemma sem_opt_Inr: "sem_opt f x s = Inr s' \<longleftrightarrow> (case x of None \<Rightarrow> s' = s | Some y \<Rightarrow> f y s = Inr s')"
  by (auto simp: sem_opt_def split: option.splits)

text \<open>What every declaration keeps, a body keeps.\<close>

lemma local_decls_keep:
  "\<lbrakk>\<And>d s s'. collect_local_decl m i w d s = Inr s' \<Longrightarrow> P s \<Longrightarrow> P s'; collect_local_decls_in_stmt m i w st s = Inr s'; P s\<rbrakk> \<Longrightarrow> P s'"
  "\<lbrakk>\<And>d s s'. collect_local_decl m i w d s = Inr s' \<Longrightarrow> P s \<Longrightarrow> P s'; local_decls_case m i w c s = Inr s'; P s\<rbrakk> \<Longrightarrow> P s'"
proof (induction m i w st s and m i w c s arbitrary: s' and s' rule: collect_local_decls_in_stmt_local_decls_case.induct)
  case (1 m i w ln ss s) then show ?case by (simp, blast intro: sem_fold_keeps [of ss _ P])
next
  case (2 m i w ln c t e s) then show ?case by (cases e) (simp_all add: sem_then_Inr sem_opt_Inr, blast+)
next
  case (4 m i w ln n c st b s) then show ?case by (cases n) (simp_all add: sem_then_Inr sem_opt_Inr, blast+)
next
  case (5 m i w ln v it b s) then show ?case by (simp add: sem_then_Inr del: split_paired_Ex) blast
next
  case (6 m i w ln t cs s) then show ?case by (simp, blast intro: sem_fold_keeps [of cs _ P])
next
  case (8 m i w ln ss s) then show ?case by (simp, blast intro: sem_fold_keeps [of ss _ P])
next
  case (10 m i w d v ss s) then show ?case by (simp, blast intro: sem_fold_keeps [of ss _ P])
qed simp_all

section \<open>The declarations of a body\<close>

text \<open>The declarations of a body in the order of its text, and what a local has from its declaration: name,
  type, length and storage class.\<close>

fun body_decls :: "estmt \<Rightarrow> edecl list" and case_decls :: "ecase \<Rightarrow> edecl list" where
  "body_decls (SDecl ln d) = [d]"
| "body_decls (SBlock ln ss) = concat (map body_decls ss)"
| "body_decls (SIf ln c t e) = body_decls t @ (case e of None \<Rightarrow> [] | Some s \<Rightarrow> body_decls s)"
| "body_decls (SWhile ln c b) = body_decls b"
| "body_decls (SFor ln n c st b) = (case n of None \<Rightarrow> [] | Some s \<Rightarrow> body_decls s) @ body_decls b"
| "body_decls (SForeach ln v it b) = v # body_decls b"
| "body_decls (SSwitch ln t cs) = concat (map case_decls cs)"
| "body_decls (SStaticBlock ln ss) = concat (map body_decls ss)"
| "body_decls st = []"
| "case_decls (ECase d v ss) = concat (map body_decls ss)"

definition class_storage :: "decl_class \<Rightarrow> local_storage" where
  "class_storage c = (case c of DeclPlain \<Rightarrow> E_LOCAL_STACK | DeclReg \<Rightarrow> E_LOCAL_REG | DeclLocal \<Rightarrow> E_LOCAL_ARENA_SCOPED
     | DeclStatic \<Rightarrow> E_LOCAL_STACK_STATIC)"

definition decl_key :: "edecl \<Rightarrow> string \<times> string \<times> u32 \<times> local_storage" where
  "decl_key d = (dl_name d, ty_name (dl_type d), ty_len (dl_type d), class_storage (dl_class d))"

definition local_key :: "elocal \<Rightarrow> string \<times> string \<times> u32 \<times> local_storage" where
  "local_key l = (lo_name l, lo_type l, lo_len l, lo_storage l)"

definition frame_keys :: "string \<times> eframe \<Rightarrow> (string \<times> string \<times> u32 \<times> local_storage) list" where
  "frame_keys s = map local_key (fr_locals (snd s))"

lemma collect_local_decl_key:
  assumes "collect_local_decl m i w d s = Inr s'"
  shows "frame_keys s' = frame_keys s @ [decl_key d]"
  using assms
  by (auto simp: collect_local_decl_def Let_def case_prod_beta new_local_def frame_keys_def local_key_def decl_key_def class_storage_def
      reg_decl_def static_decl_def scoped_decl_def stack_decl_def add_slots_def add_local_def
      split: if_splits sum.splits decl_class.splits option.splits)

lemma sem_fold_lists:
  assumes "\<And>x s s'. x \<in> set xs \<Longrightarrow> f x s = Inr s' \<Longrightarrow> g s' = g s @ h x" "sem_fold f xs s = Inr s'"
  shows "g s' = g s @ concat (map h xs)"
  using assms
proof (induction xs arbitrary: s)
  case (Cons x xs)
  from Cons.prems(2) obtain s1 where "f x s = Inr s1" "sem_fold f xs s1 = Inr s'" by (auto split: sum.splits)
  with Cons.IH [of s1] Cons.prems(1) show ?case by simp
qed simp

lemma local_decls_listed:
  "collect_local_decls_in_stmt m i w st s = Inr s' \<Longrightarrow> frame_keys s' = frame_keys s @ map decl_key (body_decls st)"
  "local_decls_case m i w c s = Inr s' \<Longrightarrow> frame_keys s' = frame_keys s @ map decl_key (case_decls c)"
proof (induction m i w st s and m i w c s arbitrary: s' and s' rule: collect_local_decls_in_stmt_local_decls_case.induct)
  case (1 m i w ln ss s)
  have "frame_keys s' = frame_keys s @ concat (map (\<lambda>x. map decl_key (body_decls x)) ss)"
    by (rule sem_fold_lists [OF 1(1) 1(2) [unfolded collect_local_decls_in_stmt.simps]])
  then show ?case by (simp add: map_concat comp_def)
next
  case (2 m i w ln c t e s)
  then obtain s1 where "collect_local_decls_in_stmt m i w t s = Inr s1" "sem_opt (collect_local_decls_in_stmt m i w) e s1 = Inr s'"
    by (simp add: sem_then_Inr del: split_paired_Ex) blast
  then show ?case using 2(1) 2(2) by (cases e) (simp_all add: sem_opt_Inr del: split_paired_All)
next
  case (4 m i w ln n c st b s)
  then obtain s1 where "sem_opt (collect_local_decls_in_stmt m i w) n s = Inr s1" "collect_local_decls_in_stmt m i w b s1 = Inr s'"
    by (simp add: sem_then_Inr del: split_paired_Ex) blast
  then show ?case using 4(1,2) by (cases n) (simp_all add: sem_opt_Inr del: split_paired_All)
next
  case (5 m i w ln v it b s)
  then obtain s1 where "collect_local_decl m i w v s = Inr s1" "collect_local_decls_in_stmt m i w b s1 = Inr s'"
    by (simp add: sem_then_Inr del: split_paired_Ex) blast
  then show ?case using collect_local_decl_key [of m i w v s s1] 5(1) [of s1] by simp
next
  case (6 m i w ln t cs s)
  have "frame_keys s' = frame_keys s @ concat (map (\<lambda>x. map decl_key (case_decls x)) cs)"
    by (rule sem_fold_lists [OF 6(1) 6(2) [unfolded collect_local_decls_in_stmt.simps]])
  then show ?case by (simp add: map_concat comp_def)
next
  case (8 m i w ln ss s)
  have "frame_keys s' = frame_keys s @ concat (map (\<lambda>x. map decl_key (body_decls x)) ss)"
    by (rule sem_fold_lists [OF 8(1) 8(2) [unfolded collect_local_decls_in_stmt.simps]])
  then show ?case by (simp add: map_concat comp_def)
next
  case (10 m i w d v ss s)
  have "frame_keys s' = frame_keys s @ concat (map (\<lambda>x. map decl_key (body_decls x)) ss)"
    by (rule sem_fold_lists [OF 10(1) 10(2) [unfolded local_decls_case.simps]])
  then show ?case by (simp add: map_concat comp_def)
qed (auto dest: collect_local_decl_key)

section \<open>Frames\<close>

definition slot_ranges :: "elocal list \<Rightarrow> (u32 \<times> u32) list" where
  "slot_ranges ls = map (\<lambda>l. (lo_slot l, lo_words l)) (filter (\<lambda>l. lo_words l \<noteq> 0) ls)"

definition reg_ranges :: "elocal list \<Rightarrow> (u32 \<times> u32) list" where
  "reg_ranges ls = map (\<lambda>l. (lo_reg l, lo_reg_words l)) (filter (\<lambda>l. lo_storage l = E_LOCAL_REG) ls)"

definition stack_ranges :: "elocal list \<Rightarrow> (u64 \<times> u64) list" where
  "stack_ranges ls = map (\<lambda>l. (lo_off l, lo_size l)) (filter (\<lambda>l. lo_storage l = E_LOCAL_STACK) ls)"

text \<open>The places of the locals of a frame, behind the first \<open>b\<close> locals of the virtual machine.\<close>

definition places :: "u32 \<Rightarrow> eframe \<Rightarrow> bool" where
  "places b fr \<longleftrightarrow> packed b (slot_ranges (fr_locals fr)) (fr_slots fr) \<and> packed 0 (reg_ranges (fr_locals fr)) (fr_regs fr)
     \<and> fr_regs fr \<le> 4 \<and> packed 0 (stack_ranges (fr_locals fr)) (fr_stack fr)
     \<and> (\<forall>l \<in> set (fr_locals fr). lo_words l \<le> 2 \<and> lo_reg_words l \<le> 2)"

definition numbered :: "nat \<Rightarrow> eframe \<Rightarrow> bool" where
  "numbered i fr \<longleftrightarrow> map lo_decl (fr_locals fr) = map (Pair i) [0..<length (fr_locals fr)]"

text \<open>What a declaration leaves: all of the frame but its locals and their extents.\<close>

definition frame_id :: "eframe \<Rightarrow> string \<times> efunction option \<times> u64 \<times> (u32 \<times> u32) option" where
  "frame_id fr = (fr_owner fr, fr_fn fr, fr_param fr, fr_varargs fr)"

lemmas range_defs = slot_ranges_def reg_ranges_def stack_ranges_def

lemma add_slots_simps [simp]:
  "fr_locals (add_slots n l fr) = fr_locals fr @ [l\<lparr>lo_slot := fr_slots fr, lo_words := n\<rparr>]"
  "fr_slots (add_slots n l fr) = fr_slots fr + n" "fr_regs (add_slots n l fr) = fr_regs fr"
  "fr_stack (add_slots n l fr) = fr_stack fr" "frame_id (add_slots n l fr) = frame_id fr"
  by (simp_all add: add_slots_def add_local_def frame_id_def)

lemma add_local_simps [simp]:
  "fr_locals (add_local l fr) = fr_locals fr @ [l]" "fr_slots (add_local l fr) = fr_slots fr"
  "fr_regs (add_local l fr) = fr_regs fr" "fr_stack (add_local l fr) = fr_stack fr" "frame_id (add_local l fr) = frame_id fr"
  by (simp_all add: add_local_def frame_id_def)

lemma frame_id_upd [simp]:
  "frame_id (fr\<lparr>fr_stack := s\<rparr>) = frame_id fr" "frame_id (fr\<lparr>fr_regs := r\<rparr>) = frame_id fr"
  by (simp_all add: frame_id_def)

text \<open>One declaration adds one local, in the place of its storage class.\<close>

definition placed :: "elocal \<Rightarrow> eframe \<Rightarrow> eframe \<Rightarrow> bool" where
  "placed l fr fr' \<longleftrightarrow> frame_id fr' = frame_id fr \<and> (\<exists>l'. fr_locals fr' = fr_locals fr @ [l'] \<and> lo_decl l' = lo_decl l
     \<and> lo_name l' = lo_name l \<and> lo_size l' = lo_size l \<and> lo_words l' \<le> 2 \<and> lo_reg_words l' \<le> 2
     \<and> fr_slots fr' = fr_slots fr + lo_words l' \<and> (lo_words l' \<noteq> 0 \<longrightarrow> lo_slot l' = fr_slots fr)
     \<and> (if lo_storage l' = E_LOCAL_REG then lo_reg l' = fr_regs fr \<and> fr_regs fr' = fr_regs fr + lo_reg_words l' \<and> fr_regs fr' \<le> 4
        else fr_regs fr' = fr_regs fr)
     \<and> (if lo_storage l' = E_LOCAL_STACK then lo_off l' = fr_stack fr \<and> fr_stack fr' = fr_stack fr + lo_size l'
        else fr_stack fr' = fr_stack fr))"

lemma reg_decl_placed: "reg_decl l fr = Inr fr' \<Longrightarrow> lo_words l = 0 \<Longrightarrow> placed l fr fr'"
  by (auto simp: reg_decl_def placed_def Let_def not_less split: if_splits)

lemma static_decl_placed: "static_decl w i lay l fr = Inr fr' \<Longrightarrow> lo_reg_words l = 0 \<Longrightarrow> placed l fr fr'"
  by (auto simp: static_decl_def placed_def Let_def split: if_splits option.splits)

lemma scoped_decl_placed: "scoped_decl lay l fr = Inr fr' \<Longrightarrow> lo_reg_words l = 0 \<Longrightarrow> placed l fr fr'"
  by (auto simp: scoped_decl_def placed_def split: if_splits)

lemma stack_decl_placed:
  "stack_decl lay l fr = Inr fr' \<Longrightarrow> lo_reg_words l = 0 \<Longrightarrow> lo_words l = 0 \<Longrightarrow> lo_storage l = E_LOCAL_STACK \<Longrightarrow> placed l fr fr'"
  by (auto simp: stack_decl_def placed_def Let_def split: if_splits option.splits)

lemma collect_local_decl_placed:
  assumes "collect_local_decl m i w d (err, fr) = Inr (err', fr')"
  shows "\<exists>l. lo_decl l = (i, length (fr_locals fr)) \<and> placed l fr fr'"
proof -
  let ?l = "new_local i d (fst (type_ref_size m (dl_type d) err)) fr"
  have "placed ?l fr fr'"
    using assms
    by (auto simp: collect_local_decl_def Let_def case_prod_beta new_local_def split: if_splits sum.splits decl_class.splits
        dest!: reg_decl_placed static_decl_placed scoped_decl_placed stack_decl_placed)
  then show ?thesis by (intro exI [of _ ?l]) (simp add: new_local_def)
qed

lemma placed_places: "placed l fr fr' \<Longrightarrow> places b fr \<Longrightarrow> places b fr'"
  by (auto simp: placed_def places_def range_defs split: if_splits)

lemma placed_id: "placed l fr fr' \<Longrightarrow> frame_id fr' = frame_id fr"
  by (simp add: placed_def)

lemma placed_numbered: "placed l fr fr' \<Longrightarrow> lo_decl l = (i, length (fr_locals fr)) \<Longrightarrow> numbered i fr \<Longrightarrow> numbered i fr'"
  by (auto simp: placed_def numbered_def)

text \<open>A body's declarations.\<close>

lemma local_decls_places:
  assumes "collect_local_decls_in_stmt m i w st (err, fr) = Inr (err', fr')" "places b fr" "numbered i fr"
  shows "places b fr' \<and> numbered i fr' \<and> frame_id fr' = frame_id fr"
proof -
  let ?P = "\<lambda>s. places b (snd s) \<and> numbered i (snd s) \<and> frame_id (snd s) = frame_id fr"
  have "?P s'" if "collect_local_decl m i w d s = Inr s'" "?P s" for d s s'
    using collect_local_decl_placed [of m i w d "fst s" "snd s" "fst s'" "snd s'"] that
    by (metis placed_id placed_numbered placed_places prod.collapse)
  from local_decls_keep(1) [of m i w ?P, OF this assms(1)] show ?thesis using assms(2,3) by simp
qed

section \<open>Parameters\<close>

definition check_ranges :: "eparam_check list \<Rightarrow> (u32 \<times> u32) list" where
  "check_ranges cs = map (\<lambda>c. (ck_slot c, ck_words c)) (filter (\<lambda>c. ck_words c \<noteq> 0) cs)"

definition check_offs :: "eparam_check list \<Rightarrow> (u64 \<times> u64) list" where
  "check_offs cs = map (\<lambda>c. (ck_off c, ck_size c)) cs"

definition vararg_ranges :: "eframe \<Rightarrow> (u32 \<times> u32) list" where
  "vararg_ranges fr = (case fr_varargs fr of None \<Rightarrow> [] | Some (off, n) \<Rightarrow> [(off, 1), (n, 1)])"

definition frame_params :: "eframe \<Rightarrow> (efunction \<times> nat) list" where
  "frame_params fr = (case fr_fn fr of None \<Rightarrow> [] | Some f \<Rightarrow> map (Pair f) [0..<length (fn_params f)])"

lemma param_check_simps:
  assumes "param_check m f j p sz off slot = (c, off', slot')"
  shows "ck_fn c = f" "ck_param c = j" "ck_off c = off" "off' = off + ck_size c" "slot' = slot + ck_words c" "ck_words c \<le> 2"
    "ck_words c \<noteq> 0 \<Longrightarrow> ck_slot c = slot"
  using assms by (auto simp: param_check_def Let_def split: if_splits)

lemma callable_params_ranges:
  "callable_params m f j ps (err, cs, off, slot) = Inr (err', cs', off', slot') \<Longrightarrow>
     \<exists>ds. cs' = cs @ ds \<and> map (\<lambda>c. (ck_fn c, ck_param c)) ds = map (Pair f) [j..<j + length ps]
       \<and> packed slot (check_ranges ds) slot' \<and> packed off (check_offs ds) off' \<and> (\<forall>c \<in> set ds. ck_words c \<le> 2)"
proof (induction m f j ps "(err, cs, off, slot)" arbitrary: err cs off slot rule: callable_params.induct)
  case (2 m f j p ps err cs off slot)
  let ?sz = "type_ref_size m (pm_type p) err"
  obtain c off1 slot1 where c: "param_check m f j p (fst ?sz) off slot = (c, off1, slot1)" by (cases "param_check m f j p (fst ?sz) off slot")
  have "callable_params m f (j + 1) ps (snd ?sz, cs @ [c], off1, slot1) = Inr (err', cs', off', slot')"
    using 2(2) c by (auto simp: case_prod_beta split: if_splits)
  moreover have "\<not> type_ref_is_union (pm_type p)" "\<not> size_unknown m (pm_type p) (fst ?sz)"
    using 2(2) by (auto simp: case_prod_beta split: if_splits)
  ultimately obtain ds where ds: "cs' = (cs @ [c]) @ ds" "map (\<lambda>c. (ck_fn c, ck_param c)) ds = map (Pair f) [j + 1..<j + 1 + length ps]"
    "packed slot1 (check_ranges ds) slot'" "packed off1 (check_offs ds) off'" "\<forall>c \<in> set ds. ck_words c \<le> 2"
    using 2(1) [of ?sz "fst ?sz" "snd ?sz" "(c, off1, slot1)" c "(off1, slot1)" off1 slot1] c by auto
  show ?case
  proof (intro exI [of _ "c # ds"] conjI)
    show "map (\<lambda>c. (ck_fn c, ck_param c)) (c # ds) = map (Pair f) [j..<j + length (p # ps)]"
      using ds(2) param_check_simps(1,2) [OF c] by (simp add: upt_conv_Cons del: upt_Suc)
    show "packed slot (check_ranges (c # ds)) slot'"
      using ds(3) param_check_simps(5,7) [OF c] by (auto simp: check_ranges_def)
    show "packed off (check_offs (c # ds)) off'" using ds(4) param_check_simps(3,4) [OF c] by (simp add: check_offs_def)
  qed (use ds(1,5) param_check_simps(6) [OF c] in auto)
qed (simp add: check_ranges_def check_offs_def)

section \<open>The frames of a model\<close>

text \<open>A frame of the model: it belongs to a body of the program and lists the declarations of this body, with the
  checks of its parameters.\<close>

definition framed :: "etop list \<Rightarrow> esem \<Rightarrow> eframe \<Rightarrow> bool" where
  "framed ts m fr \<longleftrightarrow> (\<exists>i bd b cs. i < length ts \<and> top_body (ts ! i) = Some (bd, fr_owner fr)
     \<and> map local_key (fr_locals fr) = map decl_key (body_decls bd) \<and> sublist cs (sm_checks m) \<and> map (\<lambda>c. (ck_fn c, ck_param c)) cs = frame_params fr
     \<and> (\<forall>c \<in> set cs. ck_words c \<le> 2) \<and> numbered i fr \<and> places b fr
     \<and> packed 0 (check_ranges cs @ vararg_ranges fr) b \<and> packed 0 (check_offs cs) (fr_param fr))"

abbreviation all_framed :: "etop list \<Rightarrow> esem \<Rightarrow> bool" where
  "all_framed ts m \<equiv> \<forall>fr \<in> set (sm_frames m). framed ts m fr"

lemma sublist_more: "sublist cs xs \<Longrightarrow> sublist cs (xs @ ys)"
  by (metis append.assoc sublist_def)

lemma framed_mono: "framed ts m fr \<Longrightarrow> sm_checks m' = sm_checks m @ xs \<Longrightarrow> framed ts m' fr"
  unfolding framed_def by (elim exE conjE) (intro exI conjI; (assumption | simp add: sublist_more)?)

lemma fresh_places: "fr_locals fr = [] \<Longrightarrow> fr_regs fr = 0 \<Longrightarrow> fr_stack fr = 0 \<Longrightarrow> fr_slots fr = b \<Longrightarrow> places b fr \<and> numbered i fr"
  by (simp add: places_def numbered_def range_defs)

lemma body_frame_framed:
  assumes "body_frame i n w b (err, m) = Inr (err', m')" "all_framed ts m" "i < length ts" "top_body (ts ! i) = Some (b, n)"
  shows "all_framed ts m'"
proof -
  obtain e1 fr where fr: "collect_local_decls_in_stmt m i w b (err, frame_init\<lparr>fr_owner := n\<rparr>) = Inr (e1, fr)"
    and m': "m' = m\<lparr>sm_frames := sm_frames m @ [fr]\<rparr>"
    using assms(1) by (auto simp: body_frame_def split: sum.splits)
  have f: "places 0 fr \<and> numbered i fr \<and> frame_id fr = frame_id (frame_init\<lparr>fr_owner := n\<rparr>)"
    by (rule local_decls_places [OF fr]) (simp_all add: fresh_places frame_init_def places_def numbered_def range_defs)
  moreover have "map local_key (fr_locals fr) = map decl_key (body_decls b)"
    using local_decls_listed(1) [OF fr] by (simp add: frame_keys_def frame_init_def)
  ultimately have "framed ts m' fr" using assms(3,4)
    by (auto simp: framed_def frame_id_def frame_init_def frame_params_def vararg_ranges_def check_ranges_def check_offs_def m'
        intro!: exI [of _ i] exI [of _ b] exI [of _ "0 :: u32"] exI [of _ "[]"])
  then show ?thesis using assms(2) framed_mono [of ts m _ m' "[]"] by (auto simp: m')
qed

lemma collect_callable_checks_framed:
  assumes "collect_callable_checks i f (err, m) = Inr (err', m')" "all_framed ts m" "i < length ts"
    "top_body (ts ! i) = Some (fn_body f, fn_name f)"
  shows "all_framed ts m'"
proof -
  obtain e1 cs off slot where c: "callable_params m f 0 (fn_params f) (err, [], 0, 0) = Inr (e1, cs, off, slot)"
    using assms(1) by (auto simp: collect_callable_checks_def split: sum.splits)
  define fr0 where "fr0 = frame_init\<lparr>fr_owner := fn_name f, fr_fn := Some f, fr_param := off,
     fr_varargs := (if fn_variadic f then Some (slot, slot + 1) else None),
     fr_slots := (if fn_variadic f then slot + 2 else slot)\<rparr>"
  obtain e2 fr where fr: "collect_local_decls_in_stmt m i False (fn_body f) (e1, fr0) = Inr (e2, fr)"
    and m': "m' = m\<lparr>sm_checks := sm_checks m @ cs, sm_frames := sm_frames m @ [fr]\<rparr>"
    using assms(1) c by (auto simp: collect_callable_checks_def fr0_def Let_def split: sum.splits)
  have f: "places (fr_slots fr0) fr \<and> numbered i fr \<and> frame_id fr = frame_id fr0"
    by (rule local_decls_places [OF fr]) (simp_all add: fr0_def frame_init_def places_def numbered_def range_defs)
  have cs: "map (\<lambda>c. (ck_fn c, ck_param c)) cs = map (Pair f) [0..<length (fn_params f)]" "packed 0 (check_ranges cs) slot"
    "packed 0 (check_offs cs) off" "\<forall>c \<in> set cs. ck_words c \<le> 2"
    using callable_params_ranges [OF c] by auto
  have "map local_key (fr_locals fr) = map decl_key (body_decls (fn_body f))"
    using local_decls_listed(1) [OF fr] by (simp add: frame_keys_def fr0_def frame_init_def)
  then have "framed ts m' fr" unfolding framed_def
    using f cs assms(3,4) by (intro exI [of _ i] exI [of _ "fn_body f"] exI [of _ "fr_slots fr0"] exI [of _ cs])
      (auto simp: frame_id_def fr0_def frame_init_def frame_params_def vararg_ranges_def m' packed_append)
  then show ?thesis using assms(2) framed_mono [of ts m _ m' cs] by (auto simp: m')
qed

end
