(* ===== verification/ESemDump.thy ===== *)
theory ESemDump
  imports ESemModel
begin

text \<open>
  The printed semantic model, \<open>e_semantic_model_dump\<close> in \<open>e/e_semantic.c\<close>.
\<close>

text \<open>\<open>%0nX\<close> and \<open>%0nx\<close> for a value below 16 to the power n.\<close>

definition sem_hex_digit :: "bool \<Rightarrow> nat \<Rightarrow> char" where
  "sem_hex_digit upper d = char_of (if d < 10 then 48 + d else (if upper then 55 else 87) + d)"

fun hex_fixed :: "bool \<Rightarrow> nat \<Rightarrow> nat \<Rightarrow> string" where
  "hex_fixed upper 0 v = []"
| "hex_fixed upper (Suc n) v = hex_fixed upper n (v div 16) @ [sem_hex_digit upper (v mod 16)]"

definition dec_u64 :: "u64 \<Rightarrow> string" where
  "dec_u64 u = dec_nat (unat u)"

definition dump_each :: "('a \<Rightarrow> string) \<Rightarrow> 'a list \<Rightarrow> string" where
  "dump_each f xs = concat (map f xs)"

definition none_line :: "'a list \<Rightarrow> string" where
  "none_line xs = (if xs = [] then dump_line 1 ''none'' else [])"

definition first_param :: "eparam list \<Rightarrow> string" where
  "first_param ps = ty_name (pm_type (hd ps)) @ '' '' @ pm_name (hd ps)"

section \<open>The parts\<close>

definition dump_shape :: "esem \<Rightarrow> string" where
  "dump_shape m = dump_line 0 (''entry-defaults in_words='' @ dec_u32 (sm_in m) @ '' out_words='' @ dec_u32 (sm_out m)
       @ '' signal_mail_box_size='' @ dec_u32 (sm_mailbox m))
     @ dump_line 0 ''program-shape'' @ dump_line 1 (''kernel count='' @ (if sm_kernel m = None then ''0'' else ''1''))
     @ (case sm_kernel m of None \<Rightarrow> []
        | Some k \<Rightarrow> dump_line 2 (''first_param='' @ first_param (kn_params k))
            @ (if sm_id m = [] then [] else dump_line 2 (''kernalId='' @ sm_id m @ '' uid=0x'' @ hex_fixed False 16 (unat (sm_uid m)))))
     @ dump_line 1 (''workers count='' @ dec_nat (length (sm_workers m)))
     @ dump_each (\<lambda>w. dump_line 2 (''worker '' @ wk_name w @ '' param='' @ first_param (wk_params w))
         @ dump_line 3 ''note worker param type maps to underlying operation GHS layout'') (sm_workers m)
     @ dump_line 1 (''functions count='' @ dec_nat (length (sm_functions m)))
     @ dump_each (\<lambda>f. dump_line 2 (''function '' @ fn_name f)) (sm_functions m)"

definition dump_pool :: "epool \<Rightarrow> string" where
  "dump_pool p = dump_line 2 (''dynamic '' @ ep_name p @ '' element='' @ ep_type p
       @ (if ep_len p \<noteq> 0 then ''['' @ dec_u32 (ep_len p) @ '']'' else []) @ '' element_size='' @ dec_u64 (ep_size p)
       @ '' min_free='' @ dec_u32 (ep_min_free p) @ '' max_free='' @ dec_u32 (ep_max_free p) @ '' grow_by='' @ dec_u32 (ep_grow_by p)
       @ '' maintenance=round-start replenish_to_min_free use_scope=entire-round'')
     @ dump_line 3 ''header words=5 active_count@0 free_count@1 live_head@2 live_tail@3 free_head@4''
     @ dump_line 3 ''note new capacity is prepended at free_head, so grow never traverses the free list tail''
     @ dump_line 3 ''note live_tail is maintained in the main header for O(1) append to the active list''"

definition dump_pools :: "esem \<Rightarrow> string" where
  "dump_pools m = dump_line 1 (''dynamics count='' @ dec_nat (length (sm_pools m))) @ dump_each dump_pool (sm_pools m)"

definition dump_validator :: "evalidator \<Rightarrow> string" where
  "dump_validator v = dump_line 1 (''type '' @ vb_name v @ '' validator_id=0x'' @ hex_fixed True 8 (unat (vb_id v)) @ '' route=validator_worker'')
     @ dump_line 2 (''ghs_span='' @ dec_u64 (vb_span v))
     @ dump_line 2 ''note compile target: EPA validator entry for type body''
     @ dump_line 2 ''note runtime route: validator worker dispatches by validator_id''
     @ dump_line 2 ''note pending: emit EPA function/template and worker manifest blob''"

definition dump_validators :: "esem \<Rightarrow> string" where
  "dump_validators m = dump_line 0 ''validator-manifest'' @ none_line (sm_validators m) @ dump_each dump_validator (sm_validators m)"

definition dump_layout :: "etype_layout \<Rightarrow> string" where
  "dump_layout l = dump_line 1 (''type '' @ tl_name l @ '' total_size='' @ dec_u64 (tl_size l) @ '' backing=single-ghs'')
     @ dump_each (\<lambda>f. dump_line 2 (''field '' @ gf_name f @ '':'' @ gf_type f @ '' offset='' @ dec_u64 (gf_off f)
         @ '' size='' @ dec_u64 (gf_size f))) (tl_fields l)"

definition dump_layouts :: "esem \<Rightarrow> string" where
  "dump_layouts m = dump_line 0 ''type-ghs-layouts'' @ none_line (sm_layouts m) @ dump_each dump_layout (sm_layouts m)"

definition dump_local :: "elocal \<Rightarrow> string" where
  "dump_local l = dump_line 2 (''local '' @ lo_type l @ '' '' @ lo_name l
     @ (if lo_len l \<noteq> 0 then ''['' @ dec_u32 (lo_len l) @ '']'' else []) @ '' size='' @ dec_u64 (lo_size l)
     @ (case lo_storage l of
          E_LOCAL_STACK \<Rightarrow> '' storage=stack offset='' @ dec_u64 (lo_off l)
            @ (if lo_words l \<noteq> 0 then '' vm_local='' @ dec_u32 (lo_slot l) else [])
        | E_LOCAL_STACK_STATIC \<Rightarrow> '' storage=static vm_local='' @ dec_u32 (lo_slot l)
        | E_LOCAL_ARENA_SCOPED \<Rightarrow> '' storage=local-scope-arena''
        | E_LOCAL_REG \<Rightarrow> '' storage=reg r'' @ dec_u32 (lo_reg l)
            @ (if lo_reg_words l = 2 then '':r'' @ dec_u32 (lo_reg l + 1) else [])))"

definition dump_frame :: "eframe \<Rightarrow> string" where
  "dump_frame f = dump_line 1 (''func '' @ fr_owner f @ '' total_size='' @ dec_u64 (fr_total f) @ '' params='' @ dec_u64 (fr_param f)
       @ '' stack_locals='' @ dec_u64 (fr_stack f) @ '' reserved_reg_words='' @ dec_u32 (fr_regs f))
     @ dump_line 2 (''vm_locals='' @ dec_u32 (fr_slots f)) @ dump_each dump_local (fr_locals f)"

definition dump_frames :: "esem \<Rightarrow> string" where
  "dump_frames m = dump_line 0 ''function-ghs-frames'' @ none_line (sm_frames m) @ dump_each dump_frame (sm_frames m)"

fun check_kind_name :: "param_validation \<Rightarrow> string" where
  "check_kind_name E_PARAM_PRIMITIVE = ''primitive-bypass''"
| "check_kind_name E_PARAM_CUSTOM_VALIDATED = ''validator-worker-dispatch''"
| "check_kind_name E_PARAM_CUSTOM_UNVALIDATED = ''warning-no-validator''"

fun param_abi_kind_name :: "param_abi \<Rightarrow> string" where
  "param_abi_kind_name E_PARAM_ABI_VALUE = ''value''" | "param_abi_kind_name E_PARAM_ABI_TYPE_REF = ''type-ref''"

definition dump_check :: "eparam_check \<Rightarrow> string" where
  "dump_check c = (let p = fn_params (ck_fn c) ! ck_param c in
     dump_line 1 (''func '' @ fn_name (ck_fn c) @ '' param '' @ pm_name p @ '':'' @ ty_name (pm_type p)
       @ '' action='' @ check_kind_name (ck_kind c)
       @ (if ck_validator c \<noteq> 0 then '' validator_id=0x'' @ hex_fixed True 8 (unat (ck_validator c)) else [])
       @ '' abi='' @ param_abi_kind_name (ck_abi c) @ '' frame_offset='' @ dec_u64 (ck_off c) @ '' abi_size='' @ dec_u64 (ck_size c)
       @ '' referent_size='' @ dec_u64 (ck_referent c)
       @ (if ck_words c \<noteq> 0 then '' vm_local='' @ dec_u32 (ck_slot c) else []))
     @ (case ck_kind c of
          E_PARAM_CUSTOM_VALIDATED \<Rightarrow> dump_line 2 ''note compile step: inject pre-entry validator dispatch stub''
            @ dump_line 2 ''note runtime step: validator worker roots into emitted EPA body''
        | E_PARAM_CUSTOM_UNVALIDATED \<Rightarrow> dump_line 2 ''note warning: custom type currently falls through with validation disabled''
        | E_PARAM_PRIMITIVE \<Rightarrow> [])
     @ (if ck_abi c = E_PARAM_ABI_TYPE_REF
        then dump_line 2 ''note ABI: declared type parameter is passed by reference descriptor, not copied bytes''
          @ dump_line 2 ''note descriptor contract: identifies stack/frame-backed or local-arena-backed storage'' else []))"

definition dump_checks :: "esem \<Rightarrow> string" where
  "dump_checks m = dump_line 0 ''function-validation-plan'' @ none_line (sm_checks m) @ dump_each dump_check (sm_checks m)"

definition e_semantic_model_dump :: "esem \<Rightarrow> string" where
  "e_semantic_model_dump m =
     dump_shape m @ dump_pools m @ dump_validators m @ dump_layouts m @ dump_frames m @ dump_checks m"

end
