(* ===== verification/ESemBuild.thy ===== *)
theory ESemBuild
  imports ESemPlace ESemDump
begin

text \<open>
  What each stage of the construction of the semantic model leaves as it is, and the theorems about accepted
  programs: the places of frames and the layouts of types, loop control and the targets of routes, and
  the index of workers over several kernels.
\<close>

section \<open>Stages\<close>

text \<open>The tables the early stages leave alone.\<close>

definition late_tables :: "esem \<Rightarrow> eframe list \<times> eparam_check list" where
  "late_tables m = (sm_frames m, sm_checks m)"

lemma late_tables_upd [simp]:
  "late_tables (m\<lparr>sm_in := a\<rparr>) = late_tables m" "late_tables (m\<lparr>sm_out := a\<rparr>) = late_tables m"
  "late_tables (m\<lparr>sm_mailbox := a\<rparr>) = late_tables m" "late_tables (m\<lparr>sm_validators := v\<rparr>) = late_tables m"
  "late_tables (m\<lparr>sm_layouts := l\<rparr>) = late_tables m" "late_tables (m\<lparr>sm_pools := p\<rparr>) = late_tables m"
  "late_tables (m\<lparr>sm_kernel := k\<rparr>) = late_tables m" "late_tables (m\<lparr>sm_workers := w\<rparr>) = late_tables m"
  "late_tables (m\<lparr>sm_functions := f\<rparr>) = late_tables m" "late_tables (m\<lparr>sm_at_entries := f\<rparr>) = late_tables m"
  "late_tables (m\<lparr>sm_id := n\<rparr>) = late_tables m" "late_tables (m\<lparr>sm_uid := u\<rparr>) = late_tables m"
  by (simp_all add: late_tables_def)

lemma collect_declares_keeps:
  "collect_declares seen ts s = Inr s' \<Longrightarrow> late_tables (snd s') = late_tables (snd s) \<and> sm_layouts (snd s') = sm_layouts (snd s)
     \<and> sm_validators (snd s') = sm_validators (snd s) \<and> sm_workers (snd s') = sm_workers (snd s)"
  by (induction seen ts s rule: collect_declares.induct) (auto split: if_splits edeclare_kind.splits)

lemma collect_validators_keeps:
  "collect_validators ts s = Inr s' \<Longrightarrow> late_tables (snd s') = late_tables (snd s) \<and> sm_layouts (snd s') = sm_layouts (snd s)
     \<and> sm_workers (snd s') = sm_workers (snd s)"
  by (induction ts s rule: collect_validators.induct) (auto split: if_splits)

lemma layout_type_keeps:
  "layout_type td s = Inr s' \<Longrightarrow> late_tables (snd s') = late_tables (snd s) \<and> sm_workers (snd s') = sm_workers (snd s)"
  by (auto simp: layout_type_def Let_def case_prod_beta split: sum.splits)

lemma collect_type_layouts_keeps:
  "collect_type_layouts ts s = Inr s' \<Longrightarrow> late_tables (snd s') = late_tables (snd s) \<and> sm_workers (snd s') = sm_workers (snd s)"
  by (induction ts s rule: collect_type_layouts.induct) (auto split: sum.splits dest: layout_type_keeps)

definition pool_rest :: "esem \<Rightarrow> (eframe list \<times> eparam_check list) \<times> etype_layout list \<times> evalidator list" where
  "pool_rest m = (late_tables m, sm_layouts m, sm_validators m)"

lemma register_pool_keeps:
  "register_dynamic_pool_decl d s = Inr s' \<Longrightarrow> pool_rest (snd s') = pool_rest (snd s) \<and> sm_workers (snd s') = sm_workers (snd s)"
  by (auto simp: register_dynamic_pool_decl_def pool_rest_def Let_def case_prod_beta split: if_splits)

text \<open>What every pool keeps, the walk keeps.\<close>

lemma inline_pools_keep:
  "\<lbrakk>\<And>d s s'. register_dynamic_pool_decl d s = Inr s' \<Longrightarrow> P s \<Longrightarrow> P s'; collect_inline_dynamic_pools_in_stmt st s = Inr s'; P s\<rbrakk> \<Longrightarrow> P s'"
  "\<lbrakk>\<And>d s s'. register_dynamic_pool_decl d s = Inr s' \<Longrightarrow> P s \<Longrightarrow> P s'; inline_pools_case c s = Inr s'; P s\<rbrakk> \<Longrightarrow> P s'"
proof (induction st s and c s arbitrary: s' and s' rule: collect_inline_dynamic_pools_in_stmt_inline_pools_case.induct)
  case (2 ln ss s) then show ?case by (simp, blast intro: sem_fold_keeps [of ss _ P])
next
  case (3 ln c t e s) then show ?case by (cases e) (simp_all add: sem_then_Inr sem_opt_Inr, blast+)
next
  case (5 ln n c st b s) then show ?case by (cases n) (simp_all add: sem_then_Inr sem_opt_Inr, blast+)
next
  case (7 ln t cs s) then show ?case by (simp, blast intro: sem_fold_keeps [of cs _ P])
next
  case (8 ln ss s) then show ?case by (simp, blast intro: sem_fold_keeps [of ss _ P])
next
  case (10 d v ss s) then show ?case by (simp, blast intro: sem_fold_keeps [of ss _ P])
qed simp_all

lemma dynamic_pools_keep:
  assumes P: "\<And>d s s'. register_dynamic_pool_decl d s = Inr s' \<Longrightarrow> P s \<Longrightarrow> P s'"
  shows "collect_dynamic_pools ts s = Inr s' \<Longrightarrow> P s \<Longrightarrow> P s'"
proof (induction ts s rule: collect_dynamic_pools.induct)
  case (2 t ts s)
  obtain s1 where s1: "(case t of TopDynamic d \<Rightarrow> register_dynamic_pool_decl d s
      | TopWorker w \<Rightarrow> collect_inline_dynamic_pools_in_stmt (wk_body w) s | _ \<Rightarrow> Inr s) = Inr s1" "collect_dynamic_pools ts s1 = Inr s'"
    using 2(2) by (auto split: sum.splits)
  have "P s1" using s1(1) 2(3) P inline_pools_keep(1) [of P, OF P] by (cases t) auto
  then show ?case using 2(1) s1 by blast
qed simp

lemma collect_dynamic_pools_keeps:
  assumes "collect_dynamic_pools ts s = Inr s'"
  shows "pool_rest (snd s') = pool_rest (snd s)" "sm_workers (snd s') = sm_workers (snd s)"
proof -
  have "pool_rest (snd s') = pool_rest (snd s) \<and> sm_workers (snd s') = sm_workers (snd s)"
    by (rule dynamic_pools_keep [OF _ assms, where P = "\<lambda>t. pool_rest (snd t) = pool_rest (snd s) \<and> sm_workers (snd t) = sm_workers (snd s)"])
       (auto dest: register_pool_keeps)
  then show "pool_rest (snd s') = pool_rest (snd s)" "sm_workers (snd s') = sm_workers (snd s)" by simp_all
qed

lemma top_roles_keeps: "top_roles ts m = Inr m' \<Longrightarrow> pool_rest m' = pool_rest m"
proof (induction ts m rule: top_roles.induct)
  case (2 t ts m)
  have "pool_rest m1 = pool_rest m" if "top_role t m = Inr m1" for m1
    using that by (cases t) (auto simp: role_kernel_def role_worker_def role_at_entry_def pool_rest_def split: if_splits list.splits)
  then show ?case using 2 by (auto split: sum.splits)
qed simp

definition program_workers :: "etop list \<Rightarrow> eworker list" where
  "program_workers ts = List.map_filter top_worker ts"

lemma program_workers_simps [simp]:
  "program_workers [] = []" "program_workers (t # ts) = (case top_worker t of None \<Rightarrow> [] | Some w \<Rightarrow> [w]) @ program_workers ts"
  by (simp_all add: program_workers_def List.map_filter_def split: option.splits)

lemma top_roles_workers: "top_roles ts m = Inr m' \<Longrightarrow> sm_workers m' = sm_workers m @ program_workers ts"
proof (induction ts m rule: top_roles.induct)
  case (2 t ts m)
  have "sm_workers m1 = sm_workers m @ (case top_worker t of None \<Rightarrow> [] | Some w \<Rightarrow> [w])" if "top_role t m = Inr m1" for m1
    using that by (cases t) (auto simp: role_kernel_def role_worker_def role_at_entry_def split: if_splits list.splits)
  moreover obtain m1 where "top_role t m = Inr m1" "top_roles ts m1 = Inr m'" using 2(2) by (auto split: sum.splits)
  ultimately show ?case using 2(1) by (cases "top_worker t") simp_all
qed simp

lemma collect_top_level_roles_workers:
  "collect_top_level_roles ts s = Inr s' \<Longrightarrow> sm_workers (snd s') = sm_workers (snd s) @ program_workers ts"
  by (auto simp: collect_top_level_roles_def split: sum.splits if_splits dest: top_roles_workers)

lemma collect_top_level_roles_keeps: "collect_top_level_roles ts s = Inr s' \<Longrightarrow> pool_rest (snd s') = pool_rest (snd s)"
  by (auto simp: collect_top_level_roles_def split: sum.splits if_splits dest: top_roles_keeps)

lemma collect_kernel_identity_keeps:
  "collect_kernel_identity ts s = Inr s' \<Longrightarrow> pool_rest (snd s') = pool_rest (snd s) \<and> sm_workers (snd s') = sm_workers (snd s)"
  by (auto simp: collect_kernel_identity_def pool_rest_def split: sum.splits if_splits option.splits prod.splits)

text \<open>The frame stages add frames and checks only.\<close>

definition frame_rest :: "esem \<Rightarrow> esem" where
  "frame_rest m = m\<lparr>sm_frames := [], sm_checks := []\<rparr>"

lemma frame_rest_upd [simp]: "frame_rest (m\<lparr>sm_frames := f\<rparr>) = frame_rest m" "frame_rest (m\<lparr>sm_checks := c\<rparr>) = frame_rest m"
  by (simp_all add: frame_rest_def)

lemma collect_callable_checks_keeps: "collect_callable_checks i f s = Inr s' \<Longrightarrow> frame_rest (snd s') = frame_rest (snd s)"
  by (auto simp: collect_callable_checks_def Let_def frame_rest_def split: sum.splits prod.splits)

lemma body_frame_keeps: "body_frame i n w b s = Inr s' \<Longrightarrow> frame_rest (snd s') = frame_rest (snd s)"
  by (auto simp: body_frame_def split: sum.splits prod.splits)

definition grows :: "etop list \<Rightarrow> string \<times> esem \<Rightarrow> string \<times> esem \<Rightarrow> bool" where
  "grows ts s s' \<longleftrightarrow> frame_rest (snd s') = frame_rest (snd s) \<and> (all_framed ts (snd s) \<longrightarrow> all_framed ts (snd s'))"

lemma grows_refl: "grows ts s s" and grows_trans: "grows ts s t \<Longrightarrow> grows ts t u \<Longrightarrow> grows ts s u"
  by (auto simp: grows_def)

lemma callable_grows:
  "collect_callable_checks i f s = Inr s' \<Longrightarrow> i < length ts \<Longrightarrow> top_body (ts ! i) = Some (fn_body f, fn_name f) \<Longrightarrow> grows ts s s'"
  using collect_callable_checks_framed [of i f "fst s" "snd s" "fst s'" "snd s'" ts]
  by (simp add: grows_def collect_callable_checks_keeps)

lemma body_frame_grows: "body_frame i n w b s = Inr s' \<Longrightarrow> i < length ts \<Longrightarrow> top_body (ts ! i) = Some (b, n) \<Longrightarrow> grows ts s s'"
  using body_frame_framed [of i n w b "fst s" "snd s" "fst s'" "snd s'" ts] by (simp add: grows_def body_frame_keeps)

lemma stages_grow:
  assumes "x \<in> set (zip [0..<length ts] ts)"
  shows "function_checks x s = Inr s' \<Longrightarrow> grows ts s s'" "type_frame x s = Inr s' \<Longrightarrow> grows ts s s'"
    "non_function_frame x s = Inr s' \<Longrightarrow> grows ts s s'"
proof -
  obtain i t where x: "x = (i, t)" by (cases x)
  then have i: "i < length ts" "ts ! i = t" using assms by (auto simp: set_zip)
  show "function_checks x s = Inr s' \<Longrightarrow> grows ts s s'" by (cases t) (auto simp: x grows_refl i intro: callable_grows)
  show "type_frame x s = Inr s' \<Longrightarrow> grows ts s s'" by (cases t) (auto simp: x grows_refl i intro: body_frame_grows)
  show "non_function_frame x s = Inr s' \<Longrightarrow> grows ts s s'" by (cases t) (auto simp: x grows_refl i intro: body_frame_grows)
qed

lemma fold_grows:
  assumes "\<And>x s s'. x \<in> set xs \<Longrightarrow> f x s = Inr s' \<Longrightarrow> grows ts s s'" "sem_fold f xs s = Inr s'"
  shows "grows ts s s'"
  by (rule sem_fold_keeps [of xs f "grows ts s"]) (use assms grows_refl grows_trans in blast)+

text \<open>The frames of an accepted program.\<close>

lemma semantic_tables_stages:
  assumes "semantic_tables ts = Inr s"
  obtains s1 s2 s3 where "collect_validators ts s1 = Inr s2" "collect_type_layouts ts s2 = Inr s3" "sm_layouts (snd s2) = []"
    "sm_validators (snd s1) = []" "late_tables (snd s3) = ([], [])" "sm_layouts (snd s) = sm_layouts (snd s3)" "all_framed ts (snd s)"
    "sm_workers (snd s) = program_workers ts"
proof -
  obtain s1 where 1: "collect_declares [] ts ([], esem_init) = Inr s1" using assms by (auto simp: semantic_tables_def sem_then_Inr)
  obtain s2 where 2: "collect_validators ts s1 = Inr s2" using assms 1 by (auto simp: semantic_tables_def sem_then_Inr)
  obtain s3 where 3: "collect_type_layouts ts s2 = Inr s3" using assms 1 2 by (auto simp: semantic_tables_def sem_then_Inr)
  obtain s4 where 4: "collect_dynamic_pools ts s3 = Inr s4" using assms 1 2 3 by (auto simp: semantic_tables_def sem_then_Inr)
  obtain s5 where 5: "collect_top_level_roles ts s4 = Inr s5" using assms 1 2 3 4 by (auto simp: semantic_tables_def sem_then_Inr)
  obtain s6 where 6: "collect_kernel_identity ts s5 = Inr s6" using assms 1 2 3 4 5 by (auto simp: semantic_tables_def sem_then_Inr)
  obtain s7 where 7: "collect_function_checks ts s6 = Inr s7" using assms 1 2 3 4 5 6 by (auto simp: semantic_tables_def sem_then_Inr)
  obtain s8 where 8: "collect_type_frames ts s7 = Inr s8" "validate_non_function_local_decls ts s8 = Inr s"
    using assms 1 2 3 4 5 6 7 by (auto simp: semantic_tables_def sem_then_Inr)
  have "grows ts s6 s7" by (rule fold_grows [OF stages_grow(1) 7 [unfolded collect_function_checks_def]])
  moreover have "grows ts s7 s8" by (rule fold_grows [OF stages_grow(2) 8(1) [unfolded collect_type_frames_def]])
  moreover have "grows ts s8 s" by (rule fold_grows [OF stages_grow(3) 8(2) [unfolded validate_non_function_local_decls_def]])
  ultimately have "grows ts s6 s" by (metis grows_trans)
  moreover have "late_tables (snd s3) = ([], [])"
    using collect_declares_keeps [OF 1] collect_validators_keeps [OF 2] collect_type_layouts_keeps [OF 3]
    by (simp add: late_tables_def esem_init_def)
  moreover have "pool_rest (snd s6) = pool_rest (snd s3)"
    using collect_dynamic_pools_keeps [OF 4] collect_top_level_roles_keeps [OF 5] collect_kernel_identity_keeps [OF 6] by simp
  moreover have "sm_layouts (snd s2) = []"
    using collect_declares_keeps [OF 1] collect_validators_keeps [OF 2] by (simp add: esem_init_def)
  moreover have "sm_workers (snd s6) = program_workers ts"
    using collect_declares_keeps [OF 1] collect_validators_keeps [OF 2] collect_type_layouts_keeps [OF 3]
      collect_dynamic_pools_keeps [OF 4] collect_top_level_roles_workers [OF 5] collect_kernel_identity_keeps [OF 6]
    by (simp add: esem_init_def)
  moreover have "sm_workers (snd s) = sm_workers (snd s6)" if "frame_rest (snd s) = frame_rest (snd s6)"
    using arg_cong [OF that, of sm_workers] by (simp add: frame_rest_def)
  moreover have "sm_layouts (snd s) = sm_layouts (snd s6)" if "frame_rest (snd s) = frame_rest (snd s6)"
    using arg_cong [OF that, of sm_layouts] by (simp add: frame_rest_def)
  moreover have "sm_validators (snd s1) = []" using collect_declares_keeps [OF 1] by (simp add: esem_init_def)
  ultimately show thesis using that [OF 2 3] by (simp add: grows_def pool_rest_def late_tables_def)
qed

end
