(* ===== verification/ESemProps.thy ===== *)
theory ESemProps
  imports ESemBuild
begin

text \<open>
  Theorems about accepted E programs: the places of frames, the layouts of types, loop control and the
  targets of routes, and the index of workers over several kernels. The last section holds a program to apply them to.
\<close>

section \<open>Frames\<close>

lemma build_tables: "e_build_semantic_model ts = Inr m \<Longrightarrow> \<exists>err. semantic_tables ts = Inr (err, m) \<and> semantic_checks ts m = None"
  by (auto simp: e_build_semantic_model_def split: sum.splits option.splits)

lemma lengths_bound: "\<forall>r \<in> set rs. snd r \<le> (2 :: u32) \<Longrightarrow> lengths rs \<le> 2 * length rs"
proof (induction rs)
  case (Cons r rs)
  have "unat (snd r) \<le> 2" using Cons(2) word_le_nat_alt [of "snd r" 2] by simp
  then show ?case using Cons by simp
qed simp

lemma numbered_listed:
  assumes "numbered i fr" "map local_key (fr_locals fr) = map decl_key ds"
  shows "map (\<lambda>l. (lo_decl l, local_key l)) (fr_locals fr) = map (\<lambda>(k, d). ((i, k), decl_key d)) (enumerate 0 ds)"
proof (rule nth_equalityI)
  have len: "length (fr_locals fr) = length ds" using arg_cong [OF assms(2), of length] by simp
  then show "length (map (\<lambda>l. (lo_decl l, local_key l)) (fr_locals fr)) = length (map (\<lambda>(k, d). ((i, k), decl_key d)) (enumerate 0 ds))" by simp
  fix k assume k: "k < length (map (\<lambda>l. (lo_decl l, local_key l)) (fr_locals fr))"
  then have "lo_decl (fr_locals fr ! k) = (i, k)" using arg_cong [OF assms(1) [unfolded numbered_def], of "\<lambda>xs. xs ! k"] by simp
  moreover have "local_key (fr_locals fr ! k) = decl_key (ds ! k)" using arg_cong [OF assms(2), of "\<lambda>xs. xs ! k"] k len by simp
  ultimately show "map (\<lambda>l. (lo_decl l, local_key l)) (fr_locals fr) ! k = map (\<lambda>(k, d). ((i, k), decl_key d)) (enumerate 0 ds) ! k"
    using k len by (simp add: nth_enumerate_eq)
qed

text \<open>C23: In the model of an accepted program the places of every frame are a gapless sequence: the locals of the
  virtual machine go, from 0, to the parameters, the two of a variadic call and the declarations in their order, up to
  the frame's count; the registers, at most four, to the register declarations; the stack to the declarations on
  it, up to the size of the stack part. The parameters' checks stand in the model, one per parameter, in order. The frame belongs to
  a body of the program, and its locals are the declarations of this body, at any depth and each exactly once, in the order of the
  text: the k-th local has the number, the name, the type, the length and the storage class of the k-th declaration. (No two
  values of a body share a word, and none lies outside its frame.)\<close>

theorem frame_places:
  assumes "e_build_semantic_model ts = Inr m" "fr \<in> set (sm_frames m)"
    and "2 * (length (frame_params fr) + length (fr_locals fr) + 2) < 2 ^ 32" "lengths (stack_ranges (fr_locals fr)) < 2 ^ 64"
  shows "\<exists>i bd cs. i < length ts \<and> top_body (ts ! i) = Some (bd, fr_owner fr)
    \<and> map (\<lambda>l. (lo_decl l, local_key l)) (fr_locals fr) = map (\<lambda>(k, d). ((i, k), decl_key d)) (enumerate 0 (body_decls bd))
    \<and> sublist cs (sm_checks m) \<and> map (\<lambda>c. (ck_fn c, ck_param c)) cs = frame_params fr \<and> distinct (map lo_decl (fr_locals fr))
    \<and> packed 0 (nat_ranges (check_ranges cs @ vararg_ranges fr @ slot_ranges (fr_locals fr))) (unat (fr_slots fr))
    \<and> packed 0 (nat_ranges (reg_ranges (fr_locals fr))) (unat (fr_regs fr)) \<and> unat (fr_regs fr) \<le> 4
    \<and> packed 0 (nat_ranges (stack_ranges (fr_locals fr))) (unat (fr_stack fr))"
proof -
  obtain err where t: "semantic_tables ts = Inr (err, m)" using build_tables [OF assms(1)] by blast
  have "framed ts m fr" by (rule semantic_tables_stages [OF t]) (use assms(2) in simp)
  then obtain i bd b cs where bd: "i < length ts" "top_body (ts ! i) = Some (bd, fr_owner fr)"
      "map local_key (fr_locals fr) = map decl_key (body_decls bd)"
    and f: "sublist cs (sm_checks m)" "map (\<lambda>c. (ck_fn c, ck_param c)) cs = frame_params fr" "\<forall>c \<in> set cs. ck_words c \<le> 2"
    "numbered i fr" "places b fr" "packed 0 (check_ranges cs @ vararg_ranges fr) b" by (auto simp: framed_def)
  let ?rs = "check_ranges cs @ vararg_ranges fr @ slot_ranges (fr_locals fr)"
  have pk: "packed 0 ?rs (fr_slots fr)" using f(5,6) packed_append [of 0 "check_ranges cs @ vararg_ranges fr"] by (auto simp: places_def)
  have cs: "length cs = length (frame_params fr)" using arg_cong [OF f(2), of length] by simp
  have "length (check_ranges cs) \<le> length cs" "length (slot_ranges (fr_locals fr)) \<le> length (fr_locals fr)"
    by (simp_all add: check_ranges_def slot_ranges_def)
  moreover have "length (vararg_ranges fr) \<le> 2" by (simp add: vararg_ranges_def split: option.splits prod.splits)
  ultimately have len: "length ?rs \<le> length (frame_params fr) + length (fr_locals fr) + 2" using cs by simp
  have "\<forall>r \<in> set (check_ranges cs). snd r \<le> 2" "\<forall>r \<in> set (slot_ranges (fr_locals fr)). snd r \<le> 2"
    using f(3,5) by (auto simp: check_ranges_def slot_ranges_def places_def)
  moreover have "\<forall>r \<in> set (vararg_ranges fr). snd r \<le> 2" by (auto simp: vararg_ranges_def split: option.splits prod.splits)
  ultimately have "lengths ?rs \<le> 2 * length ?rs" by (intro lengths_bound) auto
  moreover have "2 * length ?rs \<le> 2 * (length (frame_params fr) + length (fr_locals fr) + 2)" using len by simp
  ultimately have "lengths ?rs < 2 ^ 32" using assms(3) by (meson le_less_trans)
  then have 1: "packed 0 (nat_ranges ?rs) (unat (fr_slots fr))" using packed_unat [OF pk] by simp
  have "\<forall>r \<in> set (reg_ranges (fr_locals fr)). snd r \<le> 2" using f(5) by (auto simp: reg_ranges_def places_def)
  then have "lengths (reg_ranges (fr_locals fr)) \<le> 2 * length (reg_ranges (fr_locals fr))" by (rule lengths_bound)
  also have "2 * length (reg_ranges (fr_locals fr)) \<le> 2 * (length (frame_params fr) + length (fr_locals fr) + 2)"
    using length_filter_le [of "\<lambda>l. lo_storage l = E_LOCAL_REG" "fr_locals fr"] by (simp add: reg_ranges_def del: length_filter_le)
  finally have "lengths (reg_ranges (fr_locals fr)) < 2 ^ 32" using assms(3) by (meson le_less_trans)
  then have 2: "packed 0 (nat_ranges (reg_ranges (fr_locals fr))) (unat (fr_regs fr))"
    using f(5) packed_unat [of 0 "reg_ranges (fr_locals fr)" "fr_regs fr"] by (simp add: places_def)
  have 3: "packed 0 (nat_ranges (stack_ranges (fr_locals fr))) (unat (fr_stack fr))"
    using f(5) assms(4) packed_unat [of 0 "stack_ranges (fr_locals fr)" "fr_stack fr"] by (simp add: places_def)
  have "distinct (map lo_decl (fr_locals fr))" using f(4) by (simp add: numbered_def distinct_map inj_on_def)
  moreover have "map (\<lambda>l. (lo_decl l, local_key l)) (fr_locals fr) = map (\<lambda>(k, d). ((i, k), decl_key d)) (enumerate 0 (body_decls bd))"
    using numbered_listed [OF f(4) bd(3)] .
  moreover have "unat (fr_regs fr) \<le> 4" using f(5) word_le_nat_alt [of "fr_regs fr" 4] by (simp add: places_def)
  ultimately show ?thesis using bd(1,2) f(1,2) 1 2 3 by blast
qed

section \<open>Types\<close>

definition field_ranges :: "etype_layout \<Rightarrow> (u64 \<times> u64) list" where
  "field_ranges l = map (\<lambda>f. (gf_off f, gf_size f)) (tl_fields l)"

fun top_type :: "etop \<Rightarrow> etype_decl option" where
  "top_type (TopType td) = Some td" | "top_type t = None"

definition program_types :: "etop list \<Rightarrow> etype_decl list" where
  "program_types ts = List.map_filter top_type ts"

lemma program_types_simps [simp]:
  "program_types [] = []" "program_types (t # ts) = (case top_type t of None \<Rightarrow> program_types ts | Some td \<Rightarrow> td # program_types ts)"
  by (simp_all add: program_types_def List.map_filter_def split: option.splits)

lemma program_types_mem: "td \<in> set (program_types ts) \<longleftrightarrow> TopType td \<in> set ts"
  by (induction ts) (auto split: option.splits elim: top_type.elims)

lemma find_validator_None: "find_validator m n = None \<longleftrightarrow> n \<notin> vb_name ` set (sm_validators m)"
  by (auto simp: find_validator_def find_None_iff)

lemma collect_validators_names:
  "collect_validators ts s = Inr s' \<Longrightarrow>
     map vb_name (sm_validators (snd s')) = map vb_name (sm_validators (snd s)) @ map td_name (program_types ts)"
  by (induction ts s rule: collect_validators.induct) (auto split: if_splits)

lemma collect_validators_distinct:
  "collect_validators ts s = Inr s' \<Longrightarrow> distinct (map vb_name (sm_validators (snd s))) \<Longrightarrow> distinct (map vb_name (sm_validators (snd s')))"
proof (induction ts s rule: collect_validators.induct)
  case (2 td ts err m) then show ?case by (simp add: find_validator_None split: if_splits)
qed simp_all

lemma find_snoc: "\<not> P x \<Longrightarrow> find P (xs @ [x]) = find P xs"
  by (induction xs) auto

text \<open>The size of a field in the second pass, where the layout of the type is there already.\<close>

lemma type_ref_size_other:
  assumes "ty_name t \<noteq> tl_name l"
  shows "type_ref_size (m\<lparr>sm_layouts := sm_layouts m @ [l]\<rparr>) t e1 = (fst (type_ref_size m t e2), snd (type_ref_size m t e1))"
  using assms by (auto simp: type_ref_size_def find_type_layout_def Let_def find_snoc split: option.splits)

definition layout_tail :: "eghs_field list \<Rightarrow> bool" where
  "layout_tail fs \<longleftrightarrow> (\<forall>k < length fs. gf_flexible (fs ! k) \<longrightarrow> k = length fs - 1 \<and> gf_type (fs ! k) = ''byte'')"

lemma layout_passes:
  assumes "layout_size m ps (off, fl) err = Inr (err1, z, fl')" "\<forall>p \<in> set ps. ty_name (pm_type p) \<noteq> tl_name l"
  shows "packed off (map (\<lambda>f. (gf_off f, gf_size f)) (snd (layout_fields (m\<lparr>sm_layouts := sm_layouts m @ [l]\<rparr>) ps off e))) z
    \<and> map gf_name (snd (layout_fields (m\<lparr>sm_layouts := sm_layouts m @ [l]\<rparr>) ps off e)) = map pm_name ps
    \<and> layout_tail (snd (layout_fields (m\<lparr>sm_layouts := sm_layouts m @ [l]\<rparr>) ps off e))
    \<and> (fl' \<longleftrightarrow> fl \<or> (\<exists>p \<in> set ps. ty_unsized (pm_type p)))"
  using assms
proof (induction m ps "(off, fl)" err arbitrary: off fl e rule: layout_size.induct)
  case (2 m p ps off fl err)
  let ?m = "m\<lparr>sm_layouts := sm_layouts m @ [l]\<rparr>"
  show ?case
  proof (cases "ty_unsized (pm_type p)")
    case True
    then have "ty_name (pm_type p) = ''byte''" "ps = []" "layout_size m ps (off, True) err = Inr (err1, z, fl')"
      using 2(3) by (auto split: if_splits)
    then show ?thesis using True 2(3) by (simp add: layout_tail_def)
  next
    case False
    let ?s = "type_ref_size m (pm_type p) err"
    have s2: "fst (type_ref_size ?m (pm_type p) e) = fst ?s" using type_ref_size_other [of "pm_type p" l m e err] 2(4) by simp
    have r: "layout_size m ps (off + fst ?s, fl) (snd ?s) = Inr (err1, z, fl')" "\<not> size_unknown m (pm_type p) (fst ?s)"
      using 2(3) False by (auto simp: case_prod_beta split: if_splits)
    have ih: "packed (off + fst ?s) (map (\<lambda>f. (gf_off f, gf_size f)) (snd (layout_fields ?m ps (off + fst ?s) e'))) z
      \<and> map gf_name (snd (layout_fields ?m ps (off + fst ?s) e')) = map pm_name ps
      \<and> layout_tail (snd (layout_fields ?m ps (off + fst ?s) e')) \<and> (fl' \<longleftrightarrow> fl \<or> (\<exists>p \<in> set ps. ty_unsized (pm_type p)))" for e'
      by (rule 2(2) [OF False refl _ r(2) r(1)]) (use 2(4) in \<open>simp_all add: prod_eq_iff\<close>)
    have tail: "layout_tail (f # fs)" if "layout_tail fs" "\<not> gf_flexible f" for f fs
      using that by (auto simp: layout_tail_def nth_Cons' split: if_splits) (metis One_nat_def Suc_pred diff_Suc_1 less_Suc_eq_0_disj not_less_eq)
    show ?thesis using False s2 ih [of "snd (type_ref_size ?m (pm_type p) e)"]
      by (auto simp: case_prod_beta Let_def intro!: tail)
  qed
qed (simp add: layout_tail_def)

definition good_layout :: "etype_decl \<Rightarrow> etype_layout \<Rightarrow> bool" where
  "good_layout td l \<longleftrightarrow> map gf_name (tl_fields l) = map pm_name (td_params td) \<and> packed 0 (field_ranges l) (tl_size l)
     \<and> layout_tail (tl_fields l) \<and> tl_flexible l = (if \<exists>p \<in> set (td_params td). ty_unsized (pm_type p) then Some (tl_size l) else None)"

definition self_free :: "etype_decl \<Rightarrow> bool" where
  "self_free td \<longleftrightarrow> (\<forall>p \<in> set (td_params td). ty_name (pm_type p) \<noteq> td_name td)"

lemma layout_type_good:
  assumes "layout_type td (err, m) = Inr s'"
  shows "\<exists>l. sm_layouts (snd s') = sm_layouts m @ [l] \<and> tl_name l = td_name td \<and> (self_free td \<longrightarrow> good_layout td l)"
proof -
  obtain err1 z fl where 1: "layout_size m (td_params td) (0, False) err = Inr (err1, z, fl)"
    using assms by (auto simp: layout_type_def split: sum.splits)
  let ?l = "\<lparr>tl_name = td_name td, tl_size = z, tl_flexible = (if fl then Some z else None), tl_fields = []\<rparr>"
  let ?fs = "snd (layout_fields (m\<lparr>sm_layouts := sm_layouts m @ [?l]\<rparr>) (td_params td) 0 err1)"
  have "sm_layouts (snd s') = sm_layouts m @ [?l\<lparr>tl_fields := ?fs\<rparr>]"
    using assms 1 by (auto simp: layout_type_def Let_def case_prod_beta)
  moreover have "good_layout td (?l\<lparr>tl_fields := ?fs\<rparr>)" if "self_free td"
    using layout_passes [OF 1, of ?l err1] that by (cases fl; simp add: good_layout_def field_ranges_def self_free_def)
  ultimately show ?thesis by (intro exI [of _ "?l\<lparr>tl_fields := ?fs\<rparr>"]) simp
qed

lemma collect_type_layouts_good:
  "collect_type_layouts ts s = Inr s' \<Longrightarrow> \<exists>ls. sm_layouts (snd s') = sm_layouts (snd s) @ ls
     \<and> list_all2 (\<lambda>td l. tl_name l = td_name td \<and> (self_free td \<longrightarrow> good_layout td l)) (program_types ts) ls"
proof (induction ts s rule: collect_type_layouts.induct)
  case (2 td ts s)
  obtain s1 where s1: "layout_type td s = Inr s1" "collect_type_layouts ts s1 = Inr s'" using 2(2) by (auto split: sum.splits)
  obtain l where "sm_layouts (snd s1) = sm_layouts (snd s) @ [l]" "tl_name l = td_name td" "self_free td \<longrightarrow> good_layout td l"
    using layout_type_good [of td "fst s" "snd s" s1] s1(1) by auto
  with 2(1) [OF s1] show ?case by auto
qed auto

lemma find_distinct: "distinct (map f xs) \<Longrightarrow> x \<in> set xs \<Longrightarrow> find (\<lambda>y. f y = f x) xs = Some x"
  by (induction xs) (auto simp: image_iff)

text \<open>C24: A type declared in an accepted program, none of whose fields names the type itself, has a layout: its fields are
  the declared ones in their order, they lie one behind the other from 0 to the size of the layout where the sum of
  their sizes fits a machine word, and a field of open size is the last one, of bytes, at the end of the fixed part.\<close>

theorem type_layout_packed:
  assumes "e_build_semantic_model ts = Inr m" "TopType td \<in> set ts" "self_free td"
  shows "\<exists>l. find_type_layout m (td_name td) = Some l \<and> map gf_name (tl_fields l) = map pm_name (td_params td)
    \<and> (lengths (field_ranges l) < 2 ^ 64 \<longrightarrow> packed 0 (nat_ranges (field_ranges l)) (unat (tl_size l)))
    \<and> layout_tail (tl_fields l) \<and> tl_flexible l = (if \<exists>p \<in> set (td_params td). ty_unsized (pm_type p) then Some (tl_size l) else None)"
proof -
  obtain err where t: "semantic_tables ts = Inr (err, m)" using build_tables [OF assms(1)] by blast
  obtain s1 s2 s3 where s: "collect_validators ts s1 = Inr s2" "collect_type_layouts ts s2 = Inr s3" "sm_layouts (snd s2) = []"
    "sm_validators (snd s1) = []" "sm_layouts m = sm_layouts (snd s3)" by (rule semantic_tables_stages [OF t], rule that) simp_all
  have distinct: "distinct (map td_name (program_types ts))"
    using collect_validators_names [OF s(1)] collect_validators_distinct [OF s(1)] s(4) by simp
  let ?good = "\<lambda>td l. tl_name l = td_name td \<and> (self_free td \<longrightarrow> good_layout td l)"
  have all: "list_all2 ?good (program_types ts) (sm_layouts m)" using collect_type_layouts_good [OF s(2)] s(3,5) by simp
  obtain k where k: "k < length (program_types ts)" "program_types ts ! k = td"
    using assms(2) by (metis in_set_conv_nth program_types_mem)
  let ?l = "sm_layouts m ! k"
  have l: "?l \<in> set (sm_layouts m)" "?good td ?l" using all k by (auto simp: list_all2_conv_all_nth)
  have "map tl_name (sm_layouts m) = map td_name (program_types ts)"
    using all by (auto simp: list_all2_conv_all_nth intro: nth_equalityI)
  then have "find_type_layout m (td_name td) = Some ?l"
    using find_distinct [of tl_name "sm_layouts m" ?l] l distinct by (simp add: find_type_layout_def)
  moreover have "good_layout td ?l" using l(2) assms(3) by simp
  ultimately show ?thesis using packed_unat [of 0 "field_ranges ?l" "tl_size ?l"] by (auto simp: good_layout_def)
qed

section \<open>A program\<close>

definition sem_type :: "string \<Rightarrow> type_ref" where
  "sem_type n = \<lparr>ty_name = n, ty_len = 0, ty_unsized = False, ty_union = []\<rparr>"

definition sem_param :: "string \<Rightarrow> string \<Rightarrow> eparam" where
  "sem_param t n = \<lparr>pm_type = sem_type t, pm_name = n\<rparr>"

definition sem_decl :: "string \<Rightarrow> string \<Rightarrow> decl_class \<Rightarrow> estmt" where
  "sem_decl t n c = SDecl 0 \<lparr>dl_type = sem_type t, dl_name = n, dl_class = c, dl_init = None\<rparr>"

definition sem_attrs :: entry_attrs where
  "sem_attrs = \<lparr>ea_in = None, ea_out = None, ea_mailbox = None\<rparr>"

definition sem_program :: eprogram where
  "sem_program =
    [TopType \<lparr>td_name = ''Msg'', td_params = [sem_param ''u32'' ''a'', sem_param ''u64'' ''b''], td_body = SBlock 0 []\<rparr>,
     TopFunction \<lparr>fn_return = sem_type ''void'', fn_name = ''f'', fn_params = [sem_param ''u32'' ''n'', sem_param ''Msg'' ''m''],
       fn_variadic = True, fn_body = SBlock 0 [sem_decl ''u32'' ''i'' DeclPlain, sem_decl ''long'' ''r'' DeclReg,
         SWhile 0 (EIdent ''i'') (SBlock 0 [sem_decl ''Msg'' ''x'' DeclLocal, sem_decl ''Msg'' ''y'' DeclPlain, SBreak 0])]\<rparr>,
     TopWorker \<lparr>wk_name = ''w'', wk_params = [sem_param ''Msg'' ''in''], wk_body = SBlock 0 [sem_decl ''u32'' ''c'' DeclStatic, SNext 0 ''w''],
       wk_attrs = sem_attrs\<rparr>,
     TopKernel \<lparr>kn_params = [sem_param ''VM'' ''vm''], kn_body = SBlock 0 [SKernalId 0 ''k''], kn_attrs = sem_attrs, kn_acl = [(''k'', ''w'')]\<rparr>]"

definition sem_model :: esem where
  "sem_model = (case e_build_semantic_model sem_program of Inr m \<Rightarrow> m | Inl e \<Rightarrow> esem_init)"

definition isr :: "'a + 'b \<Rightarrow> bool" where "isr x = (case x of Inl a \<Rightarrow> False | Inr b \<Rightarrow> True)"

lemma sem_program_ok: "e_build_semantic_model sem_program = Inr sem_model"
proof -
  have "case e_build_semantic_model sem_program of Inl e \<Rightarrow> False | Inr m \<Rightarrow> True" by code_simp
  then show ?thesis by (simp add: sem_model_def split: sum.splits)
qed

lemma sem_frame_eval:
  "length (sm_frames sem_model) = 5" "length (frame_params (hd (sm_frames sem_model))) = 2" "length (fr_locals (hd (sm_frames sem_model))) = 4"
  "map (unat \<circ> lo_size) (fr_locals (hd (sm_frames sem_model))) = [4, 8, 12, 12]"
  "map lo_storage (fr_locals (hd (sm_frames sem_model))) = [E_LOCAL_STACK, E_LOCAL_REG, E_LOCAL_ARENA_SCOPED, E_LOCAL_STACK]"
  "length (slot_ranges (fr_locals (hd (sm_frames sem_model)))) = 3" "unat (fr_slots (hd (sm_frames sem_model))) = 10"
  "lengths (stack_ranges (fr_locals (hd (sm_frames sem_model)))) = 16"
  by (code_simp, code_simp, code_simp, code_simp, code_simp, code_simp, code_simp, code_simp)

lemma sem_frame_facts:
  "hd (sm_frames sem_model) \<in> set (sm_frames sem_model)"
  "2 * (length (frame_params (hd (sm_frames sem_model))) + length (fr_locals (hd (sm_frames sem_model))) + 2) < 2 ^ 32"
  "lengths (stack_ranges (fr_locals (hd (sm_frames sem_model)))) < 2 ^ 64"
  using sem_frame_eval by (auto intro: hd_in_set)

theorem frame_places_witness:
  "\<exists>fr cs. fr \<in> set (sm_frames sem_model) \<and> length cs = 2 \<and> length (slot_ranges (fr_locals fr)) = 3
    \<and> packed 0 (nat_ranges (check_ranges cs @ vararg_ranges fr @ slot_ranges (fr_locals fr))) 10"
proof -
  let ?fr = "hd (sm_frames sem_model)"
  from frame_places [OF sem_program_ok sem_frame_facts(1,2,3)] obtain cs where cs:
    "map (\<lambda>c. (ck_fn c, ck_param c)) cs = frame_params ?fr"
    "packed 0 (nat_ranges (check_ranges cs @ vararg_ranges ?fr @ slot_ranges (fr_locals ?fr))) (unat (fr_slots ?fr))" by blast
  have "length cs = 2" using arg_cong [OF cs(1), of length] sem_frame_eval(2) by simp
  then show ?thesis using sem_frame_facts(1) sem_frame_eval(6) cs(2) unfolding sem_frame_eval(7) by blast
qed

theorem type_layout_packed_witness:
  "\<exists>l. find_type_layout sem_model ''Msg'' = Some l \<and> map gf_name (tl_fields l) = [''a'', ''b'']"
  using type_layout_packed [OF sem_program_ok, of "\<lparr>td_name = ''Msg'', td_params = [sem_param ''u32'' ''a'', sem_param ''u64'' ''b''], td_body = SBlock 0 []\<rparr>"]
  by (auto simp: sem_program_def self_free_def sem_param_def sem_type_def)

end
