(* ===== verification/ESemRoutes.thy ===== *)
theory ESemRoutes
  imports ESemProps
begin

text \<open>
  Control flow of accepted E programs: \<open>break\<close> and \<open>continue\<close> stand where they have a target, the routes
  of the workers and of the access list name workers; the index of workers over several kernels.
\<close>

section \<open>Statements in a body\<close>

text \<open>\<open>inside b l s st\<close>: \<open>st\<close> stands somewhere in \<open>b\<close>, under a loop (\<open>l\<close>) and under a switch (\<open>s\<close>).\<close>

inductive inside :: "estmt \<Rightarrow> bool \<Rightarrow> bool \<Rightarrow> estmt \<Rightarrow> bool" for b where
  here: "inside b False False b"
| block: "inside b l s (SBlock ln ss) \<Longrightarrow> x \<in> set ss \<Longrightarrow> inside b l s x"
| then_branch: "inside b l s (SIf ln c t e) \<Longrightarrow> inside b l s t"
| else_branch: "inside b l s (SIf ln c t (Some e)) \<Longrightarrow> inside b l s e"
| while_body: "inside b l s (SWhile ln c x) \<Longrightarrow> inside b True s x"
| for_init: "inside b l s (SFor ln (Some i) c st x) \<Longrightarrow> inside b l s i"
| for_body: "inside b l s (SFor ln i c st x) \<Longrightarrow> inside b True s x"
| foreach_body: "inside b l s (SForeach ln v it x) \<Longrightarrow> inside b True s x"
| switch_case: "inside b l s (SSwitch ln t cs) \<Longrightarrow> ECase d v ss \<in> set cs \<Longrightarrow> x \<in> set ss \<Longrightarrow> inside b l True x"
| static_block: "inside b l s (SStaticBlock ln ss) \<Longrightarrow> x \<in> set ss \<Longrightarrow> inside b l s x"

lemma opt_err_Some [simp]: "opt_err f (Some x) = f x" and opt_err_None [simp]: "opt_err f None = None"
  by (simp_all add: opt_err_def)

text \<open>Where a check accepts a body, it accepts what stands inside.\<close>

lemma loop_control_inside:
  assumes "inside b l s st" "validate_loop_control_in_stmt 0 0 b = None"
  shows "\<exists>n k. validate_loop_control_in_stmt n k st = None \<and> (l \<longleftrightarrow> n \<noteq> 0) \<and> (s \<longleftrightarrow> k \<noteq> 0)"
  using assms
proof (induction rule: inside.induct)
  case (switch_case l s ln t cs d v ss x)
  then obtain n k where "validate_loop_control_in_stmt n k (SSwitch ln t cs) = None" "l \<longleftrightarrow> n \<noteq> 0" by blast
  then have "loop_control_case n (k + 1) (ECase d v ss) = None" using switch_case by (auto simp: first_err_None)
  then show ?case using switch_case \<open>l \<longleftrightarrow> n \<noteq> 0\<close> by (intro exI [of _ n] exI [of _ "k + 1"]) (auto simp: first_err_None)
qed (force simp: first_err_None)+

lemma next_stmt_inside:
  assumes "inside b l s st" "validate_next_stmt_in_stmt m b = None"
  shows "validate_next_stmt_in_stmt m st = None"
  using assms
proof (induction rule: inside.induct)
  case (switch_case l s ln t cs d v ss x)
  then have "next_stmt_case m (ECase d v ss) = None" by (auto simp: first_err_None)
  then show ?case using switch_case by (auto simp: first_err_None)
qed (auto simp: first_err_None)

lemma program_workers_mem: "w \<in> set (program_workers ts) \<longleftrightarrow> TopWorker w \<in> set ts"
proof (induction ts)
  case (Cons t ts) then show ?case by (cases t) auto
qed simp

lemma sem_workers: "e_build_semantic_model ts = Inr m \<Longrightarrow> sm_workers m = program_workers ts"
  by (auto dest!: build_tables elim: semantic_tables_stages)

text \<open>A next statement outside the workers is not checked: a program whose function names a worker that does not exist is accepted.\<close>

definition lost_next_program :: eprogram where
  "lost_next_program = [TopFunction \<lparr>fn_return = sem_type ''void'', fn_name = ''g'', fn_params = [], fn_variadic = False,
     fn_body = SBlock 0 [SNext 0 ''nowhere'']\<rparr>] @ sem_program"

lemma next_outside_workers_unchecked:
  "\<exists>m. e_build_semantic_model lost_next_program = Inr m" "program_workers lost_next_program = program_workers sem_program"
proof -
  have "case e_build_semantic_model lost_next_program of Inl e \<Rightarrow> False | Inr m \<Rightarrow> True" by code_simp
  then show "\<exists>m. e_build_semantic_model lost_next_program = Inr m" by (auto split: sum.splits)
  show "program_workers lost_next_program = program_workers sem_program" by (simp add: lost_next_program_def)
qed

text \<open>C25: In the bodies of an accepted program every break stands in a loop or a switch and every continue in a loop; every next
  statement in the body of a worker, at any depth, and every entry of the kernel's access list names a worker the program declares.
  (Next statements in other bodies are not checked by the code.)\<close>

theorem control_targets:
  assumes "e_build_semantic_model ts = Inr m"
  shows "(\<forall>t b n l s st. t \<in> set ts \<and> top_body t = Some (b, n) \<and> inside b l s st \<longrightarrow>
      (\<forall>ln. st = SBreak ln \<longrightarrow> l \<or> s) \<and> (\<forall>ln. st = SContinue ln \<longrightarrow> l)
      \<and> (\<forall>ln r w. t = TopWorker w \<and> st = SNext ln r \<longrightarrow> (\<exists>v. TopWorker v \<in> set ts \<and> wk_name v = r)))
    \<and> (\<forall>k r w. sm_kernel m = Some k \<and> (r, w) \<in> set (kn_acl k) \<longrightarrow> (\<exists>v. TopWorker v \<in> set ts \<and> wk_name v = w))"
proof -
  have ok: "validate_loop_control_usage ts = None" "validate_worker_next_targets m = None" "validate_kernel_acl_targets m = None"
    using build_tables [OF assms] by (auto simp: semantic_checks_def)
  have ws: "worker_exists m r \<longleftrightarrow> (\<exists>v. TopWorker v \<in> set ts \<and> wk_name v = r)" for r
    using sem_workers [OF assms] by (auto simp: worker_exists_def program_workers_mem)
  have "(\<forall>ln. st = SBreak ln \<longrightarrow> l \<or> s) \<and> (\<forall>ln. st = SContinue ln \<longrightarrow> l)
      \<and> (\<forall>ln r w. t = TopWorker w \<and> st = SNext ln r \<longrightarrow> worker_exists m r)"
    if "t \<in> set ts" "top_body t = Some (b, n)" "inside b l s st" for t b n l s st
  proof -
    have "opt_err (\<lambda>(b, n). validate_loop_control_in_stmt 0 0 b) (top_body t) = None"
      using ok(1) that(1) unfolding validate_loop_control_usage_def first_err_None by blast
    then have "validate_loop_control_in_stmt 0 0 b = None" by (simp add: that(2))
    from loop_control_inside [OF that(3) this] have 1: "(\<forall>ln. st = SBreak ln \<longrightarrow> l \<or> s) \<and> (\<forall>ln. st = SContinue ln \<longrightarrow> l)"
      by (auto split: if_splits)
    have "worker_exists m r" if "t = TopWorker w" "st = SNext ln r" for ln r w
    proof -
      have "validate_next_stmt_in_stmt m (wk_body w) = None"
        using ok(2) sem_workers [OF assms] \<open>t \<in> set ts\<close> that(1)
        by (simp add: validate_worker_next_targets_def first_err_None program_workers_mem)
      moreover have "b = wk_body w" using \<open>top_body t = Some (b, n)\<close> that(1) by simp
      ultimately show ?thesis using next_stmt_inside [OF \<open>inside b l s st\<close>, of m] that(2) by (simp split: if_splits)
    qed
    with 1 show ?thesis by blast
  qed
  moreover have "worker_exists m w" if "sm_kernel m = Some k" "(r, w) \<in> set (kn_acl k)" for k r w
    using ok(3) that by (auto simp: validate_kernel_acl_targets_def first_err_None split: if_splits dest!: bspec)
  ultimately show ?thesis unfolding ws by blast
qed

theorem control_targets_witness: "\<exists>v. TopWorker v \<in> set sem_program \<and> wk_name v = ''w''"
proof -
  let ?b = "SBlock 0 [sem_decl ''u32'' ''c'' DeclStatic, SNext 0 ''w'']"
  let ?t = "TopWorker \<lparr>wk_name = ''w'', wk_params = [sem_param ''Msg'' ''in''], wk_body = ?b, wk_attrs = sem_attrs\<rparr>"
  have "inside ?b False False (SNext 0 ''w'')" by (rule inside.block [OF inside.here]) simp
  moreover have "?t \<in> set sem_program" "top_body ?t = Some (?b, ''w'')" by (simp_all add: sem_program_def)
  ultimately show ?thesis using control_targets [OF sem_program_ok] by blast
qed

section \<open>Workers of several kernels\<close>

definition kernel_entries :: "nat \<Rightarrow> string \<Rightarrow> eworker list \<Rightarrow> (string \<times> string \<times> u32) list" where
  "kernel_entries j k ws = map (\<lambda>(i, w). (k, wk_name w, of_nat (i + 1))) (enumerate j ws)"

definition worker_entry :: "string \<Rightarrow> eworker list \<Rightarrow> nat" where
  "worker_entry n ws = length (takeWhile (\<lambda>w. wk_name w \<noteq> n) ws) + 1"

definition entry_of :: "string \<Rightarrow> string \<Rightarrow> string \<times> string \<times> u32 \<Rightarrow> bool" where
  "entry_of k n = (\<lambda>(k', w', i). k' = k \<and> w' = n)"

lemma lookup_entry_of: "e_cross_kernel_lookup ix k n = (case find (entry_of k n) ix of None \<Rightarrow> 0 | Some (_, _, i) \<Rightarrow> i)"
  by (simp only: e_cross_kernel_lookup_def entry_of_def)

lemma find_kernel_entries:
  "find (entry_of k n) (kernel_entries j k' ws)
     = (if k' = k \<and> n \<in> wk_name ` set ws then Some (k, n, of_nat (j + worker_entry n ws)) else None)"
  by (induction ws arbitrary: j) (auto simp: kernel_entries_def worker_entry_def entry_of_def algebra_simps)

lemma find_either: "find P (xs @ ys) = (case find P xs of None \<Rightarrow> find P ys | Some x \<Rightarrow> Some x)"
  by (induction xs) auto

text \<open>Looking a worker up in the index of several kernels gives its entry number in its kernel, the position among
  the workers counted from 1, of the first named kernel with this name that has a worker of this name; and 0 when there is
  none.\<close>

theorem cross_kernel_lookup:
  "e_cross_kernel_lookup (e_build_cross_kernel_index ms) k n =
     (case find (\<lambda>m. sm_id m = k \<and> k \<noteq> [] \<and> n \<in> wk_name ` set (sm_workers m)) ms of
        None \<Rightarrow> 0 | Some m \<Rightarrow> of_nat (worker_entry n (sm_workers m)))"
proof (induction ms)
  case (Cons m ms)
  have "e_build_cross_kernel_index (m # ms) = (if sm_id m = [] then [] else kernel_entries 0 (sm_id m) (sm_workers m)) @ e_build_cross_kernel_index ms"
    by (simp add: e_build_cross_kernel_index_def kernel_entries_def)
  then show ?case using Cons by (auto simp: lookup_entry_of find_either find_kernel_entries)
qed (simp add: e_build_cross_kernel_index_def e_cross_kernel_lookup_def)

section \<open>A type of itself\<close>

text \<open>A type with an array of itself has a size that leaves the array out, and a field of the full length.\<close>

lemma self_array_layout:
  "(case layout_type \<lparr>td_name = ''T'', td_params = [sem_param ''u32'' ''a'', \<lparr>pm_type = (sem_type ''T'')\<lparr>ty_len := 4\<rparr>, pm_name = ''x''\<rparr>],
       td_body = SBlock 0 []\<rparr> ([], esem_init) of
      Inl e \<Rightarrow> [] | Inr s \<Rightarrow> map (\<lambda>l. (tl_size l, field_ranges l)) (sm_layouts (snd s))) = [(4, [(0, 4), (4, 16)])]"
  by code_simp

text \<open>A parameter of an array of a type nobody declares is accepted, and takes no room.\<close>

lemma unknown_array_accepted:
  "type_ref_size esem_init ((sem_type ''Nope'')\<lparr>ty_len := 3\<rparr>) [] = (0, ''missing GHS layout for type %s'')
   \<and> \<not> size_unknown esem_init ((sem_type ''Nope'')\<lparr>ty_len := 3\<rparr>) 0"
  by code_simp

end
