(* ===== verification/ThreadPool.thy ===== *)
theory ThreadPool
  imports EpaKernel
begin

text \<open>
  The pool of operating-system threads for atomic tasks, \<open>src/threads/epa_thread_pool.c\<close>, and the
  batches it works on, \<open>src/atomic_tasks/epa_atomic_tasks.c\<close>. A batch is cut into blocks; a thread pops
  a batch from the queue, claims a block of it, runs the handler of the batch on the block, records the end, and
  puts the batch back while blocks are left.

  The threads interleave. A step of a thread is one atomic operation on the shared batch, one critical section of the
  pool's mutex (a section does not block inside, but for the wait at its end, which gives the mutex up), or the call of the
  handler; operations on the thread's own data go with the step before or after them. In the two checks that read both
  counters of a batch the counters are read together: each only grows towards a sum that is never passed, so that a result
  of two separate reads is also the result of one at the later or the earlier moment. Batches are named by their index
  in the order of creation. The handler's answer and what it leaves in the machine of the thread are
  chosen by the environment.
\<close>

section \<open>Batches\<close>

datatype at_block = EPA_AT_BLOCK_TODO | EPA_AT_BLOCK_INFLIGHT | EPA_AT_BLOCK_DONE | EPA_AT_BLOCK_FAULT

record at_batch =
  ab_count :: u32
  ab_done :: u32
  ab_fault :: u32
  ab_cursor :: u32
  ab_state :: "at_block list"
  ab_owner :: "int list"
  ab_on_finish :: bool

text \<open>\<open>ok\<close>: the allocations succeed; \<open>None\<close>: an error code.\<close>

definition epa_at_batch_create :: "bool \<Rightarrow> u32 \<Rightarrow> bool \<Rightarrow> at_batch option" where
  "epa_at_batch_create ok n fin =
     (if n = 0 \<or> \<not> ok then None
      else Some \<lparr>ab_count = n, ab_done = 0, ab_fault = 0, ab_cursor = 0,
                 ab_state = replicate (unat n) EPA_AT_BLOCK_TODO, ab_owner = replicate (unat n) (- 1), ab_on_finish = fin\<rparr>)"

definition epa_at_batch_all_finished :: "at_batch \<Rightarrow> bool" where
  "epa_at_batch_all_finished b \<longleftrightarrow> ab_done b + ab_fault b = ab_count b"

section \<open>The pool\<close>

text \<open>Where a thread is: before its next step, with the batch and the block it works on.\<close>

datatype tp_pc =
    P_Start | P_Top | P_Waiting | P_Woken
  | P_Popped nat | P_Claim nat | P_Cursor nat | P_Probe nat u32 u32
  | P_Own nat nat | P_Exec nat nat
  | P_Complete nat nat bool | P_Store nat nat bool | P_Count nat nat bool | P_Release nat nat
  | P_Done nat | P_Requeue nat | P_Again nat | P_Push nat
  | P_Exit | P_Dead

text \<open>What the host sees: accepted submissions, calls of handlers (with the block, the thread and its machine) and of
  \<open>on_finish\<close>.\<close>

datatype tp_event = EvSubmit nat | EvExec nat nat nat epa_vm | EvFinish nat

record tp_pool =
  tp_queue :: "nat cqueue"
  tp_stop :: bool
  tp_waiting :: u32
  tp_vtid :: "int list"
  tp_vms :: "epa_vm list"
  tp_pcs :: "tp_pc list"
  tp_batches :: "at_batch list"
  tp_log :: "tp_event list"

text \<open>What the environment answers in a step: allocations, the handler's result and its effect on the machine.\<close>

record tp_answers =
  an_alloc :: allocator
  an_stack :: bool
  an_ok :: bool
  an_vm :: epa_vm

abbreviation (input) tp_batch :: "tp_pool \<Rightarrow> nat \<Rightarrow> at_batch" where
  "tp_batch p b \<equiv> tp_batches p ! b"

definition tp_goto :: "nat \<Rightarrow> tp_pc \<Rightarrow> tp_pool \<Rightarrow> tp_pool" where
  "tp_goto t c p = p\<lparr>tp_pcs := (tp_pcs p)[t := c]\<rparr>"

definition tp_upd :: "nat \<Rightarrow> (at_batch \<Rightarrow> at_batch) \<Rightarrow> tp_pool \<Rightarrow> tp_pool" where
  "tp_upd b f p = p\<lparr>tp_batches := (tp_batches p)[b := f (tp_batches p ! b)]\<rparr>"

definition tp_emit :: "tp_event \<Rightarrow> tp_pool \<Rightarrow> tp_pool" where
  "tp_emit e p = p\<lparr>tp_log := tp_log p @ [e]\<rparr>"

definition tp_broadcast :: "tp_pool \<Rightarrow> tp_pool" where
  "tp_broadcast p = p\<lparr>tp_pcs := map (\<lambda>c. if c = P_Waiting then P_Woken else c) (tp_pcs p)\<rparr>"

text \<open>The ring of 256 batches has the shape of the kernel's array queues; its slots are not cleared.\<close>

definition tp_ring_push :: "nat \<Rightarrow> tp_pool \<Rightarrow> bool \<times> tp_pool" where
  "tp_ring_push b p = (case cq_push b (tp_queue p) of None \<Rightarrow> (False, p) | Some q \<Rightarrow> (True, p\<lparr>tp_queue := q\<rparr>))"

text \<open>The section at the top of the loop: wait, leave or pop.\<close>

definition tp_take :: "nat \<Rightarrow> tp_pool \<Rightarrow> tp_pool" where
  "tp_take t p =
     (if tp_stop p then tp_goto t P_Exit p
      else case cq_pop id (tp_queue p) of
        None \<Rightarrow> tp_goto t P_Waiting (p\<lparr>tp_waiting := tp_waiting p + 1\<rparr>)
      | Some (b, q) \<Rightarrow> tp_goto t (P_Popped b) (p\<lparr>tp_queue := q\<rparr>))"

section \<open>The threads\<close>

text \<open>\<open>epa_at_batch_claim\<close>, one atomic operation after the other: the load of \<open>done_count\<close>, the
  cursor, the probes, and the store of the owner.\<close>

definition claim_load :: "nat \<Rightarrow> nat \<Rightarrow> tp_pool \<Rightarrow> tp_pool" where
  "claim_load t b p =
     (let x = tp_batch p b in
      if ab_count x = 0 \<or> ab_done x \<ge> ab_count x then tp_goto t (P_Again b) p else tp_goto t (P_Cursor b) p)"

definition claim_cursor :: "nat \<Rightarrow> nat \<Rightarrow> tp_pool \<Rightarrow> tp_pool" where
  "claim_cursor t b p =
     (let x = tp_batch p b in
      tp_goto t (P_Probe b (ab_cursor x mod ab_count x) 0) (tp_upd b (\<lambda>x. x\<lparr>ab_cursor := ab_cursor x + 1\<rparr>) p))"

definition claim_probe :: "nat \<Rightarrow> nat \<Rightarrow> u32 \<Rightarrow> u32 \<Rightarrow> tp_pool \<Rightarrow> tp_pool" where
  "claim_probe t b start probe p =
     (let x = tp_batch p b; i = unat ((start + probe) mod ab_count x) in
      if probe \<ge> ab_count x then tp_goto t (P_Again b) p
      else if ab_state x ! i = EPA_AT_BLOCK_TODO
      then tp_goto t (P_Own b i) (tp_upd b (\<lambda>x. x\<lparr>ab_state := (ab_state x)[i := EPA_AT_BLOCK_INFLIGHT]\<rparr>) p)
      else tp_goto t (P_Probe b start (probe + 1)) p)"

text \<open>The owner is stored, the thread takes the block's number and a fresh machine.\<close>

definition claim_own :: "tp_answers \<Rightarrow> nat \<Rightarrow> nat \<Rightarrow> nat \<Rightarrow> tp_pool \<Rightarrow> tp_pool" where
  "claim_own a t b i p =
     (let p1 = tp_upd b (\<lambda>x. x\<lparr>ab_owner := (ab_owner x)[i := int t]\<rparr>) p in
      tp_goto t (P_Exec b i) (p1\<lparr>tp_vtid := (tp_vtid p1)[t := int i],
        tp_vms := (tp_vms p1)[t := epa_vm_reset (an_stack a) (tp_vms p1 ! t)]\<rparr>))"

definition exec_block :: "tp_answers \<Rightarrow> nat \<Rightarrow> nat \<Rightarrow> nat \<Rightarrow> tp_pool \<Rightarrow> tp_pool" where
  "exec_block a t b i p =
     tp_goto t (P_Complete b i (an_ok a)) (tp_emit (EvExec b i t (tp_vms p ! t)) (p\<lparr>tp_vms := (tp_vms p)[t := an_vm a]\<rparr>))"

text \<open>\<open>epa_at_batch_complete\<close>: the checks, which read what only the owner writes while the block is in
  flight, the state, the counter, and the owner.\<close>

definition complete_check :: "nat \<Rightarrow> nat \<Rightarrow> nat \<Rightarrow> bool \<Rightarrow> tp_pool \<Rightarrow> tp_pool" where
  "complete_check t b i ok p =
     (let x = tp_batch p b in
      if i \<ge> unat (ab_count x) \<or> ab_owner x ! i \<noteq> int t \<or> ab_state x ! i \<noteq> EPA_AT_BLOCK_INFLIGHT
      then tp_goto t (P_Done b) p else tp_goto t (P_Store b i ok) p)"

definition complete_store :: "nat \<Rightarrow> nat \<Rightarrow> nat \<Rightarrow> bool \<Rightarrow> tp_pool \<Rightarrow> tp_pool" where
  "complete_store t b i ok p =
     tp_goto t (P_Count b i ok)
       (tp_upd b (\<lambda>x. x\<lparr>ab_state := (ab_state x)[i := if ok then EPA_AT_BLOCK_DONE else EPA_AT_BLOCK_FAULT]\<rparr>) p)"

definition complete_count :: "nat \<Rightarrow> nat \<Rightarrow> nat \<Rightarrow> bool \<Rightarrow> tp_pool \<Rightarrow> tp_pool" where
  "complete_count t b i ok p =
     tp_goto t (P_Release b i)
       (tp_upd b (\<lambda>x. if ok then x\<lparr>ab_done := ab_done x + 1\<rparr> else x\<lparr>ab_fault := ab_fault x + 1\<rparr>) p)"

definition complete_release :: "nat \<Rightarrow> nat \<Rightarrow> nat \<Rightarrow> tp_pool \<Rightarrow> tp_pool" where
  "complete_release t b i p = tp_goto t (P_Done b) (tp_upd b (\<lambda>x. x\<lparr>ab_owner := (ab_owner x)[i := - 1]\<rparr>) p)"

definition block_done :: "nat \<Rightarrow> nat \<Rightarrow> tp_pool \<Rightarrow> tp_pool" where
  "block_done t b p =
     (let p1 = p\<lparr>tp_vtid := (tp_vtid p)[t := - 1]\<rparr>; x = tp_batch p b in
      tp_goto t (P_Requeue b)
        (if epa_at_batch_all_finished x \<and> ab_on_finish x then tp_emit (EvFinish b) p1 else p1))"

text \<open>A push that finds the ring full is ignored.\<close>

definition requeue :: "nat \<Rightarrow> nat \<Rightarrow> tp_pool \<Rightarrow> tp_pool" where
  "requeue t b p =
     (let p1 = (if epa_at_batch_all_finished (tp_batch p b) then p else snd (tp_ring_push b p))
      in tp_goto t P_Top (tp_broadcast p1))"

definition thread_start :: "tp_answers \<Rightarrow> nat \<Rightarrow> tp_pool \<Rightarrow> tp_pool" where
  "thread_start a t p =
     (let (ok, vm) = epa_vm_init_with_lbytes (an_stack a) (an_alloc a) (8 * 1024) in
      tp_goto t (if ok then P_Top else P_Dead) (p\<lparr>tp_vtid := (tp_vtid p)[t := - 1], tp_vms := (tp_vms p)[t := vm]\<rparr>))"

definition thread_exit :: "nat \<Rightarrow> tp_pool \<Rightarrow> tp_pool" where
  "thread_exit t p =
     tp_goto t P_Dead (p\<lparr>tp_vtid := (tp_vtid p)[t := - 1], tp_vms := (tp_vms p)[t := epa_vm_free (tp_vms p ! t)]\<rparr>)"

text \<open>One step of thread \<open>t\<close> in \<open>tp_thread_main\<close>; \<open>None\<close>: it waits for a signal or has ended.\<close>

definition tp_thread_step :: "tp_answers \<Rightarrow> nat \<Rightarrow> tp_pool \<Rightarrow> tp_pool option" where
  "tp_thread_step a t p =
     (case tp_pcs p ! t of
        P_Start \<Rightarrow> Some (thread_start a t p)
      | P_Top \<Rightarrow> Some (tp_take t p)
      | P_Waiting \<Rightarrow> None
      | P_Woken \<Rightarrow> Some (tp_take t (p\<lparr>tp_waiting := tp_waiting p - 1\<rparr>))
      | P_Popped b \<Rightarrow> Some (tp_goto t (if epa_at_batch_all_finished (tp_batch p b) then P_Top else P_Claim b) p)
      | P_Claim b \<Rightarrow> Some (claim_load t b p)
      | P_Cursor b \<Rightarrow> Some (claim_cursor t b p)
      | P_Probe b s i \<Rightarrow> Some (claim_probe t b s i p)
      | P_Own b i \<Rightarrow> Some (claim_own a t b i p)
      | P_Exec b i \<Rightarrow> Some (exec_block a t b i p)
      | P_Complete b i ok \<Rightarrow> Some (complete_check t b i ok p)
      | P_Store b i ok \<Rightarrow> Some (complete_store t b i ok p)
      | P_Count b i ok \<Rightarrow> Some (complete_count t b i ok p)
      | P_Release b i \<Rightarrow> Some (complete_release t b i p)
      | P_Done b \<Rightarrow> Some (block_done t b p)
      | P_Requeue b \<Rightarrow> Some (requeue t b p)
      | P_Again b \<Rightarrow> Some (tp_goto t (if epa_at_batch_all_finished (tp_batch p b) then P_Top else P_Push b) p)
      | P_Push b \<Rightarrow> Some (tp_goto t P_Top (snd (tp_ring_push b p)))
      | P_Exit \<Rightarrow> Some (thread_exit t p)
      | P_Dead \<Rightarrow> None)"

section \<open>The host\<close>

text \<open>\<open>None\<close>: the routine answers 0. \<open>ok\<close>: all allocations and thread creations succeed; otherwise what was
  started is stopped and joined.\<close>

definition epa_thread_pool_init :: "bool \<Rightarrow> nat \<Rightarrow> tp_pool option" where
  "epa_thread_pool_init ok n =
     (if n = 0 \<or> \<not> ok then None
      else Some \<lparr>tp_queue = cq_zero 256 0, tp_stop = False, tp_waiting = 0, tp_vtid = replicate n (- 1),
                 tp_vms = replicate n vm_zero, tp_pcs = replicate n P_Start, tp_batches = [], tp_log = []\<rparr>)"

definition epa_thread_pool_submit_batch :: "nat \<Rightarrow> tp_pool \<Rightarrow> bool \<times> tp_pool" where
  "epa_thread_pool_submit_batch b p =
     (let (ok, p1) = tp_ring_push b p in (ok, if ok then tp_broadcast (tp_emit (EvSubmit b) p1) else p1))"

definition epa_thread_pool_wake :: "tp_pool \<Rightarrow> tp_pool" where
  "epa_thread_pool_wake p = tp_broadcast p"

text \<open>The request to stop; the join waits for the threads to end.\<close>

definition epa_thread_pool_shutdown :: "tp_pool \<Rightarrow> tp_pool" where
  "epa_thread_pool_shutdown p = tp_broadcast (p\<lparr>tp_stop := True\<rparr>)"

definition epa_thread_pool_waiting_count :: "tp_pool \<Rightarrow> u32" where
  "epa_thread_pool_waiting_count p = tp_waiting p"

definition epa_thread_pool_get_vtid :: "tp_pool \<Rightarrow> nat \<Rightarrow> int" where
  "epa_thread_pool_get_vtid p t = (if t \<ge> length (tp_pcs p) then - 1 else tp_vtid p ! t)"

text \<open>Any step of a thread or of the host; a waiting thread may also wake up on its own.\<close>

inductive tp_step :: "tp_pool \<Rightarrow> tp_pool \<Rightarrow> bool" where
  tp_thread: "t < length (tp_pcs p) \<Longrightarrow> tp_thread_step a t p = Some p' \<Longrightarrow> tp_step p p'"
| tp_spurious: "t < length (tp_pcs p) \<Longrightarrow> tp_pcs p ! t = P_Waiting \<Longrightarrow> tp_step p (tp_goto t P_Woken p)"
| tp_create: "epa_at_batch_create ok n fin = Some b \<Longrightarrow> tp_step p (p\<lparr>tp_batches := tp_batches p @ [b]\<rparr>)"
| tp_submit: "b < length (tp_batches p) \<Longrightarrow> tp_step p (snd (epa_thread_pool_submit_batch b p))"
| tp_wake: "tp_step p (epa_thread_pool_wake p)"
| tp_shutdown: "tp_step p (epa_thread_pool_shutdown p)"

inductive tp_reach :: "tp_pool \<Rightarrow> bool" where
  tp_init: "epa_thread_pool_init ok n = Some p \<Longrightarrow> tp_reach p"
| tp_next: "tp_reach p \<Longrightarrow> tp_step p p' \<Longrightarrow> tp_reach p'"

end
