(* ===== verification/ThreadPoolInv.thy ===== *)
theory ThreadPoolInv
  imports ThreadPool
begin

text \<open>
  What holds in every state of the thread pool, whatever the host submits and however the threads interleave:
  who works on a block, what its counters count, and how often its handler has been called.
\<close>

section \<open>Counting threads\<close>

definition cnt :: "('a \<Rightarrow> bool) \<Rightarrow> 'a list \<Rightarrow> nat" where
  "cnt P xs = length (filter P xs)"

lemma cnt_upd: "t < length xs \<Longrightarrow> cnt P (xs[t := c]) + of_bool (P (xs ! t)) = cnt P xs + of_bool (P c)"
proof (induction xs arbitrary: t)
  case (Cons x xs)
  then show ?case by (cases t) (auto simp: cnt_def)
qed (simp add: cnt_def)

lemma cnt_upd_same: "t < length xs \<Longrightarrow> P (xs ! t) = P c \<Longrightarrow> cnt P (xs[t := c]) = cnt P xs"
  using cnt_upd [of t xs P c] by (cases "P c") auto

lemma cnt_upd_gain: "t < length xs \<Longrightarrow> \<not> P (xs ! t) \<Longrightarrow> P c \<Longrightarrow> cnt P (xs[t := c]) = cnt P xs + 1"
  using cnt_upd [of t xs P c] by auto

lemma cnt_upd_lose: "t < length xs \<Longrightarrow> P (xs ! t) \<Longrightarrow> \<not> P c \<Longrightarrow> cnt P (xs[t := c]) + 1 = cnt P xs"
  using cnt_upd [of t xs P c] by auto

lemma cnt_map_same: "(\<And>x. P (f x) = P x) \<Longrightarrow> cnt P (map f xs) = cnt P xs"
  by (simp add: cnt_def filter_map comp_def)

lemma cnt_pos: "t < length xs \<Longrightarrow> P (xs ! t) \<Longrightarrow> 0 < cnt P xs"
  by (auto simp: cnt_def filter_empty_conv)

lemma cnt_zero: "cnt P xs = 0 \<longleftrightarrow> (\<forall>t < length xs. \<not> P (xs ! t))"
  by (auto simp: cnt_def filter_empty_conv set_conv_nth)

lemma cnt_one:
  assumes "cnt P xs = 1" and "t < length xs" and "P (xs ! t)" and "u < length xs" and "P (xs ! u)"
  shows "t = u"
proof (rule ccontr)
  assume ne: "t \<noteq> u"
  have "distinct [t, u]" using ne by simp
  have "{t, u} \<subseteq> {i. i < length xs \<and> P (xs ! i)}" using assms by auto
  then have "card {t, u} \<le> card {i. i < length xs \<and> P (xs ! i)}" by (intro card_mono) auto
  then show False using assms(1) ne by (simp add: cnt_def length_filter_conv_card)
qed

lemma cnt_mono: "(\<And>x. P x \<Longrightarrow> Q x) \<Longrightarrow> cnt P xs \<le> cnt Q xs"
  unfolding cnt_def by (induction xs) auto

section \<open>The invariant\<close>

text \<open>What a thread is doing for a block: it has it in flight, it has not run it yet, it has yet to count it.\<close>

fun holding :: "nat \<Rightarrow> nat \<Rightarrow> tp_pc \<Rightarrow> bool" where
  "holding b i (P_Own c j) \<longleftrightarrow> c = b \<and> j = i"
| "holding b i (P_Exec c j) \<longleftrightarrow> c = b \<and> j = i"
| "holding b i (P_Complete c j ok) \<longleftrightarrow> c = b \<and> j = i"
| "holding b i (P_Store c j ok) \<longleftrightarrow> c = b \<and> j = i"
| "holding b i pc \<longleftrightarrow> False"

fun unrun :: "nat \<Rightarrow> nat \<Rightarrow> tp_pc \<Rightarrow> bool" where
  "unrun b i (P_Own c j) \<longleftrightarrow> c = b \<and> j = i"
| "unrun b i (P_Exec c j) \<longleftrightarrow> c = b \<and> j = i"
| "unrun b i pc \<longleftrightarrow> False"

fun counting :: "bool \<Rightarrow> nat \<Rightarrow> tp_pc \<Rightarrow> bool" where
  "counting ok b (P_Count c j ok') \<longleftrightarrow> c = b \<and> ok' = ok" | "counting ok b pc \<longleftrightarrow> False"

fun is_exec :: "nat \<Rightarrow> nat \<Rightarrow> tp_event \<Rightarrow> bool" where
  "is_exec b i (EvExec c j t vm) \<longleftrightarrow> c = b \<and> j = i" | "is_exec b i e \<longleftrightarrow> False"

definition blk :: "at_batch list \<Rightarrow> nat \<Rightarrow> nat \<Rightarrow> at_block" where
  "blk bs b i = (if b < length bs \<and> i < length (ab_state (bs ! b)) then ab_state (bs ! b) ! i else EPA_AT_BLOCK_TODO)"

definition blocks_ok :: "tp_pc list \<Rightarrow> at_batch list \<Rightarrow> tp_event list \<Rightarrow> bool" where
  "blocks_ok pcs bs lg \<longleftrightarrow> (\<forall>b i. cnt (holding b i) pcs = of_bool (blk bs b i = EPA_AT_BLOCK_INFLIGHT)
     \<and> cnt (is_exec b i) lg + cnt (unrun b i) pcs = of_bool (blk bs b i \<noteq> EPA_AT_BLOCK_TODO))"

definition batch_ok :: "tp_pc list \<Rightarrow> nat \<Rightarrow> at_batch \<Rightarrow> bool" where
  "batch_ok pcs b x \<longleftrightarrow> 0 < unat (ab_count x) \<and> length (ab_state x) = unat (ab_count x) \<and> length (ab_owner x) = unat (ab_count x)
     \<and> unat (ab_done x) + cnt (counting True b) pcs = cnt ((=) EPA_AT_BLOCK_DONE) (ab_state x)
     \<and> unat (ab_fault x) + cnt (counting False b) pcs = cnt ((=) EPA_AT_BLOCK_FAULT) (ab_state x)"

fun thread_ok :: "at_batch list \<Rightarrow> nat \<Rightarrow> tp_pc \<Rightarrow> bool" where
  "thread_ok bs t (P_Popped b) \<longleftrightarrow> b < length bs"
| "thread_ok bs t (P_Claim b) \<longleftrightarrow> b < length bs"
| "thread_ok bs t (P_Cursor b) \<longleftrightarrow> b < length bs"
| "thread_ok bs t (P_Probe b s i) \<longleftrightarrow> b < length bs"
| "thread_ok bs t (P_Own b i) \<longleftrightarrow> b < length bs \<and> i < length (ab_state (bs ! b))"
| "thread_ok bs t (P_Exec b i) \<longleftrightarrow> b < length bs \<and> i < length (ab_state (bs ! b)) \<and> ab_owner (bs ! b) ! i = int t"
| "thread_ok bs t (P_Complete b i ok) \<longleftrightarrow> b < length bs \<and> i < length (ab_state (bs ! b)) \<and> ab_owner (bs ! b) ! i = int t"
| "thread_ok bs t (P_Store b i ok) \<longleftrightarrow> b < length bs \<and> i < length (ab_state (bs ! b)) \<and> ab_owner (bs ! b) ! i = int t"
| "thread_ok bs t (P_Count b i ok) \<longleftrightarrow> b < length bs \<and> i < length (ab_state (bs ! b))
     \<and> blk bs b i \<in> {EPA_AT_BLOCK_DONE, EPA_AT_BLOCK_FAULT}"
| "thread_ok bs t (P_Release b i) \<longleftrightarrow> b < length bs \<and> i < length (ab_state (bs ! b))
     \<and> blk bs b i \<in> {EPA_AT_BLOCK_DONE, EPA_AT_BLOCK_FAULT}"
| "thread_ok bs t (P_Done b) \<longleftrightarrow> b < length bs"
| "thread_ok bs t (P_Requeue b) \<longleftrightarrow> b < length bs"
| "thread_ok bs t (P_Again b) \<longleftrightarrow> b < length bs"
| "thread_ok bs t (P_Push b) \<longleftrightarrow> b < length bs"
| "thread_ok bs t pc \<longleftrightarrow> True"

definition pool_ok :: "tp_pool \<Rightarrow> bool" where
  "pool_ok p \<longleftrightarrow> cq_inv (tp_queue p) \<and> length (cq_slots (tp_queue p)) = 256
     \<and> set (cq_list (tp_queue p)) \<subseteq> {..<length (tp_batches p)}
     \<and> blocks_ok (tp_pcs p) (tp_batches p) (tp_log p)
     \<and> (\<forall>b < length (tp_batches p). batch_ok (tp_pcs p) b (tp_batches p ! b))
     \<and> (\<forall>t < length (tp_pcs p). thread_ok (tp_batches p) t (tp_pcs p ! t))"

lemma pool_okD:
  assumes "pool_ok p"
  shows "cq_inv (tp_queue p)" and "length (cq_slots (tp_queue p)) = 256" and "set (cq_list (tp_queue p)) \<subseteq> {..<length (tp_batches p)}"
    and "blocks_ok (tp_pcs p) (tp_batches p) (tp_log p)"
    and "\<And>b. b < length (tp_batches p) \<Longrightarrow> batch_ok (tp_pcs p) b (tp_batches p ! b)"
    and "\<And>t. t < length (tp_pcs p) \<Longrightarrow> thread_ok (tp_batches p) t (tp_pcs p ! t)"
  using assms by (auto simp: pool_ok_def)

text \<open>Fields the invariant does not look at.\<close>

lemma pool_ok_other [simp]:
  "pool_ok (p\<lparr>tp_waiting := w\<rparr>) = pool_ok p" "pool_ok (p\<lparr>tp_vtid := v\<rparr>) = pool_ok p" "pool_ok (p\<lparr>tp_vms := m\<rparr>) = pool_ok p"
  "pool_ok (p\<lparr>tp_stop := s\<rparr>) = pool_ok p"
  by (simp_all add: pool_ok_def)

lemma pool_ok_emit: "pool_ok p \<Longrightarrow> (\<And>b i. \<not> is_exec b i e) \<Longrightarrow> pool_ok (tp_emit e p)"
  by (simp add: pool_ok_def tp_emit_def blocks_ok_def cnt_def)

section \<open>Steps that change no batch\<close>

definition same_role :: "tp_pc \<Rightarrow> tp_pc \<Rightarrow> bool" where
  "same_role c d \<longleftrightarrow> (\<forall>b i. holding b i c = holding b i d \<and> unrun b i c = unrun b i d) \<and> (\<forall>ok b. counting ok b c = counting ok b d)"

lemma goto_ok:
  assumes "pool_ok p" and t: "t < length (tp_pcs p)" and "same_role (tp_pcs p ! t) c" and "thread_ok (tp_batches p) t c"
  shows "pool_ok (tp_goto t c p)"
proof -
  have "cnt (holding b i) ((tp_pcs p)[t := c]) = cnt (holding b i) (tp_pcs p)"
    "cnt (unrun b i) ((tp_pcs p)[t := c]) = cnt (unrun b i) (tp_pcs p)"
    "cnt (counting ok b) ((tp_pcs p)[t := c]) = cnt (counting ok b) (tp_pcs p)" for b i ok
    using assms(3) t by (simp_all add: cnt_upd_same same_role_def)
  with assms show ?thesis
    by (auto simp: pool_ok_def tp_goto_def blocks_ok_def batch_ok_def nth_list_update)
qed

lemma broadcast_ok: "pool_ok p \<Longrightarrow> pool_ok (tp_broadcast p)"
proof -
  assume p: "pool_ok p"
  let ?f = "\<lambda>c. if c = P_Waiting then P_Woken else c"
  have c: "cnt (holding b i) (map ?f (tp_pcs p)) = cnt (holding b i) (tp_pcs p)"
    "cnt (unrun b i) (map ?f (tp_pcs p)) = cnt (unrun b i) (tp_pcs p)"
    "cnt (counting ok b) (map ?f (tp_pcs p)) = cnt (counting ok b) (tp_pcs p)" for b i ok
    by (rule cnt_map_same; simp)+
  with p show ?thesis by (auto simp: pool_ok_def tp_broadcast_def blocks_ok_def batch_ok_def)
qed

lemma ring_push_ok: "pool_ok p \<Longrightarrow> b < length (tp_batches p) \<Longrightarrow> pool_ok (snd (tp_ring_push b p))"
proof -
  assume p: "pool_ok p" and b: "b < length (tp_batches p)"
  note q = pool_okD(1,2) [OF p]
  show ?thesis
  proof (cases "length (cq_list (tp_queue p)) < 256")
    case True
    then obtain q' where "cq_push b (tp_queue p) = Some q'" "cq_inv q'" "length (cq_slots q') = 256" "cq_list q' = cq_list (tp_queue p) @ [b]"
      using cq.enq_room [OF q(1), of b] q(2) by auto
    with p b show ?thesis by (simp add: tp_ring_push_def pool_ok_def)
  next
    case False
    then have "cq_push b (tp_queue p) = None" using cq.enq_full [OF q(1), of b] cq.within_capacity [OF q(1)] q(2) by simp
    with p show ?thesis by (simp add: tp_ring_push_def)
  qed
qed

lemma take_ok:
  assumes p: "pool_ok p" and t: "t < length (tp_pcs p)" and c: "same_role (tp_pcs p ! t) P_Top"
  shows "pool_ok (tp_take t p)"
proof (cases "tp_stop p")
  case True
  with assms show ?thesis by (simp add: tp_take_def goto_ok same_role_def)
next
  case False
  note q = pool_okD(1-3) [OF p]
  show ?thesis
  proof (cases "cq_list (tp_queue p)")
    case Nil
    then have "cq_pop id (tp_queue p) = None" by (rule cq.deq_empty [OF q(1)])
    with assms False show ?thesis by (auto simp: tp_take_def same_role_def intro!: goto_ok)
  next
    case (Cons b bs)
    then obtain q' where r: "cq_pop id (tp_queue p) = Some (b, q')" "cq_inv q'" "length (cq_slots q') = 256" "cq_list q' = bs"
      using cq.deq_front [OF q(1), of b bs id] q(2) by auto
    have "pool_ok (p\<lparr>tp_queue := q'\<rparr>)" using p r Cons by (simp add: pool_ok_def)
    then have "pool_ok (tp_goto t (P_Popped b) (p\<lparr>tp_queue := q'\<rparr>))"
      using t c q(3) Cons by (intro goto_ok) (auto simp: same_role_def)
    with r False show ?thesis by (simp add: tp_take_def)
  qed
qed

section \<open>Steps on a batch\<close>

lemma blk_upd:
  assumes "b < length bs" and "length (ab_state x) = length (ab_state (bs ! b))"
  shows "blk (bs[b := x]) c i = (if c = b \<and> i < length (ab_state x) then ab_state x ! i else blk bs c i)"
  using assms by (cases "c = b") (auto simp: blk_def)

lemma thread_ok_frame:
  assumes "thread_ok bs u d" and b: "b < length bs" and l: "length (ab_state x) = length (ab_state (bs ! b))"
    and o: "\<And>i. i < length (ab_state x) \<Longrightarrow> holding b i d \<Longrightarrow> ab_owner x ! i = ab_owner (bs ! b) ! i"
    and s: "\<And>i. i < length (ab_state x) \<Longrightarrow> blk bs b i \<in> {EPA_AT_BLOCK_DONE, EPA_AT_BLOCK_FAULT} \<Longrightarrow> ab_state x ! i = ab_state (bs ! b) ! i"
  shows "thread_ok (bs[b := x]) u d"
proof -
  have k: "blk (bs[b := x]) c i \<in> {EPA_AT_BLOCK_DONE, EPA_AT_BLOCK_FAULT}" if "blk bs c i \<in> {EPA_AT_BLOCK_DONE, EPA_AT_BLOCK_FAULT}" for c i
  proof (cases "c = b \<and> i < length (ab_state x)")
    case True
    with that s [of i] l b show ?thesis by (auto simp: blk_upd blk_def)
  next
    case False
    with that l b show ?thesis by (auto simp: blk_upd)
  qed
  have n: "length (ab_state (bs[b := x] ! c)) = length (ab_state (bs ! c))" for c
    using l b by (cases "c = b") auto
  show ?thesis
  proof (cases d)
    case (P_Exec c i)
    with assms(1) b l o [of i] n show ?thesis by (cases "c = b") auto
  next
    case (P_Complete c i ok)
    with assms(1) b l o [of i] n show ?thesis by (cases "c = b") auto
  next
    case (P_Store c i ok)
    with assms(1) b l o [of i] n show ?thesis by (cases "c = b") auto
  qed (use assms(1) k n in \<open>simp_all\<close>)
qed

lemma thread_ok_frame_at:
  assumes th: "thread_ok bs u d" and b: "b < length bs" and k: "blk bs b i \<notin> {EPA_AT_BLOCK_DONE, EPA_AT_BLOCK_FAULT}"
  shows "thread_ok (bs[b := (bs ! b)\<lparr>ab_state := (ab_state (bs ! b))[i := s]\<rparr>]) u d"
proof (rule thread_ok_frame [OF th b])
  fix j assume "blk bs b j \<in> {EPA_AT_BLOCK_DONE, EPA_AT_BLOCK_FAULT}"
  with k have "j \<noteq> i" by auto
  then show "ab_state ((bs ! b)\<lparr>ab_state := (ab_state (bs ! b))[i := s]\<rparr>) ! j = ab_state (bs ! b) ! j" by simp
qed simp_all

text \<open>Every block in flight is in the hands of one thread.\<close>

lemma one_holder:
  assumes "blocks_ok pcs bs lg" and "t < length pcs" and "holding b i (pcs ! t)" and "u < length pcs" and "holding b i (pcs ! u)"
  shows "t = u"
proof -
  have "cnt (holding b i) pcs = of_bool (blk bs b i = EPA_AT_BLOCK_INFLIGHT)" using assms(1) by (simp add: blocks_ok_def)
  moreover have "0 < cnt (holding b i) pcs" using assms(2,3) by (rule cnt_pos)
  ultimately have "cnt (holding b i) pcs = 1" by (simp split: if_splits)
  from cnt_one [OF this assms(2-5)] show ?thesis .
qed

lemma holding_inflight: "blocks_ok pcs bs lg \<Longrightarrow> t < length pcs \<Longrightarrow> holding b i (pcs ! t) \<Longrightarrow> blk bs b i = EPA_AT_BLOCK_INFLIGHT"
  using cnt_pos [of t pcs "holding b i"] by (auto simp: blocks_ok_def)

text \<open>A step of thread \<open>t\<close> to \<open>c\<close> that leaves the states and counters of its batch.\<close>

lemma quiet_upd_ok:
  assumes p: "pool_ok p" and t: "t < length (tp_pcs p)" and b: "b < length (tp_batches p)"
    and r: "same_role (tp_pcs p ! t) c" and tc: "thread_ok ((tp_batches p)[b := f (tp_batches p ! b)]) t c"
    and f: "ab_count (f (tp_batches p ! b)) = ab_count (tp_batches p ! b)" "ab_state (f (tp_batches p ! b)) = ab_state (tp_batches p ! b)"
      "ab_done (f (tp_batches p ! b)) = ab_done (tp_batches p ! b)" "ab_fault (f (tp_batches p ! b)) = ab_fault (tp_batches p ! b)"
      "length (ab_owner (f (tp_batches p ! b))) = length (ab_owner (tp_batches p ! b))"
    and o: "\<And>u i. u < length (tp_pcs p) \<Longrightarrow> u \<noteq> t \<Longrightarrow> holding b i (tp_pcs p ! u)
      \<Longrightarrow> ab_owner (f (tp_batches p ! b)) ! i = ab_owner (tp_batches p ! b) ! i"
  shows "pool_ok (tp_goto t c (tp_upd b f p))"
proof -
  let ?bs = "(tp_batches p)[b := f (tp_batches p ! b)]"
  have k: "blk ?bs = blk (tp_batches p)" using b f by (intro ext) (auto simp: blk_def nth_list_update)
  have n: "cnt (holding d i) ((tp_pcs p)[t := c]) = cnt (holding d i) (tp_pcs p)"
    "cnt (unrun d i) ((tp_pcs p)[t := c]) = cnt (unrun d i) (tp_pcs p)"
    "cnt (counting ok d) ((tp_pcs p)[t := c]) = cnt (counting ok d) (tp_pcs p)" for d i ok
    using r t by (simp_all add: cnt_upd_same same_role_def)
  have th: "thread_ok ?bs u (tp_pcs p ! u)" if "u < length (tp_pcs p)" "u \<noteq> t" for u
    using that pool_okD(6) [OF p that(1)] o [OF that] f by (intro thread_ok_frame b) auto
  have "batch_ok ((tp_pcs p)[t := c]) d (?bs ! d)" if "d < length (tp_batches p)" for d
    using that pool_okD(5) [OF p that] f n b by (cases "d = b") (auto simp: batch_ok_def)
  moreover have "thread_ok ?bs u ((tp_pcs p)[t := c] ! u)" if "u < length (tp_pcs p)" for u
    using th [of u] tc that by (cases "u = t") auto
  ultimately show ?thesis
    using p n k by (auto simp: pool_ok_def tp_goto_def tp_upd_def blocks_ok_def)
qed

lemma claim_cursor_ok:
  assumes p: "pool_ok p" and t: "t < length (tp_pcs p)" "tp_pcs p ! t = P_Cursor b"
  shows "pool_ok (claim_cursor t b p)"
  using pool_okD(6) [OF p t(1)] assms unfolding claim_cursor_def Let_def
  by (intro quiet_upd_ok) (auto simp: same_role_def)

lemma claim_own_ok:
  assumes p: "pool_ok p" and t: "t < length (tp_pcs p)" "tp_pcs p ! t = P_Own b i"
  shows "pool_ok (claim_own a t b i p)"
proof -
  let ?f = "\<lambda>x. x\<lparr>ab_owner := (ab_owner x)[i := int t]\<rparr>"
  have b: "b < length (tp_batches p)" "i < length (ab_state (tp_batches p ! b))" using pool_okD(6) [OF p t(1)] t(2) by simp_all
  have l: "length (ab_owner (tp_batches p ! b)) = length (ab_state (tp_batches p ! b))" using pool_okD(5) [OF p b(1)] by (simp add: batch_ok_def)
  have "pool_ok (tp_goto t (P_Exec b i) (tp_upd b ?f p))"
  proof (rule quiet_upd_ok [OF p t(1) b(1)])
    fix u j assume u: "u < length (tp_pcs p)" "u \<noteq> t" "holding b j (tp_pcs p ! u)"
    have "j \<noteq> i" using one_holder [OF pool_okD(4) [OF p] t(1) _ u(1,3)] u(2) t(2) by auto
    then show "ab_owner (?f (tp_batches p ! b)) ! j = ab_owner (tp_batches p ! b) ! j" by simp
  qed (use b l t(2) in \<open>auto simp: same_role_def\<close>)
  then show ?thesis by (simp add: claim_own_def tp_goto_def Let_def pool_ok_def tp_upd_def)
qed

lemma complete_release_ok:
  assumes p: "pool_ok p" and t: "t < length (tp_pcs p)" "tp_pcs p ! t = P_Release b i"
  shows "pool_ok (complete_release t b i p)"
proof -
  let ?f = "\<lambda>x. x\<lparr>ab_owner := (ab_owner x)[i := - 1]\<rparr>"
  have th: "b < length (tp_batches p)" "blk (tp_batches p) b i \<in> {EPA_AT_BLOCK_DONE, EPA_AT_BLOCK_FAULT}"
    using pool_okD(6) [OF p t(1)] t(2) by simp_all
  show ?thesis
    unfolding complete_release_def
  proof (rule quiet_upd_ok [OF p t(1) th(1)])
    fix u j assume u: "u < length (tp_pcs p)" "u \<noteq> t" "holding b j (tp_pcs p ! u)"
    have "j \<noteq> i" using holding_inflight [OF pool_okD(4) [OF p] u(1,3)] th(2) by auto
    then show "ab_owner (?f (tp_batches p ! b)) ! j = ab_owner (tp_batches p ! b) ! j" by simp
  qed (use t(2) th(1) in \<open>auto simp: same_role_def\<close>)
qed

text \<open>A step of thread \<open>t\<close> that moves the state of one block.\<close>

lemma blocks_step:
  assumes B: "blocks_ok pcs bs lg" and t: "t < length pcs" and b: "b < length bs" and i: "i < length (ab_state (bs ! b))"
    and x: "ab_state x = (ab_state (bs ! b))[i := s]"
    and other: "\<And>d j. (d, j) \<noteq> (b, i) \<Longrightarrow> holding d j (pcs ! t) = holding d j c \<and> unrun d j (pcs ! t) = unrun d j c
      \<and> cnt (is_exec d j) lg' = cnt (is_exec d j) lg"
    and h: "holding b i (pcs ! t) = (blk bs b i = EPA_AT_BLOCK_INFLIGHT)" "holding b i c = (s = EPA_AT_BLOCK_INFLIGHT)"
    and e: "cnt (is_exec b i) lg' + of_bool (unrun b i c) + of_bool (blk bs b i \<noteq> EPA_AT_BLOCK_TODO)
      = cnt (is_exec b i) lg + of_bool (unrun b i (pcs ! t)) + of_bool (s \<noteq> EPA_AT_BLOCK_TODO)"
  shows "blocks_ok (pcs[t := c]) (bs[b := x]) lg'"
  unfolding blocks_ok_def
proof (intro allI)
  fix d j
  note old = B [unfolded blocks_ok_def, rule_format, of d j]
  have k: "blk (bs[b := x]) d j = (if d = b \<and> j = i then s else blk bs d j)"
    using b i x by (cases "d = b") (auto simp: blk_def nth_list_update)
  note u = cnt_upd [OF t, of "holding d j" c] cnt_upd [OF t, of "unrun d j" c]
  show "cnt (holding d j) (pcs[t := c]) = of_bool (blk (bs[b := x]) d j = EPA_AT_BLOCK_INFLIGHT)
     \<and> cnt (is_exec d j) lg' + cnt (unrun d j) (pcs[t := c]) = of_bool (blk (bs[b := x]) d j \<noteq> EPA_AT_BLOCK_TODO)"
  proof (cases "d = b \<and> j = i")
    case True
    with old u h e k show ?thesis by simp
  next
    case False
    with old u k other [of d j] show ?thesis by simp
  qed
qed

lemma counting_upd: "t < length pcs \<Longrightarrow> counting ok b (pcs ! t) = counting ok b c \<Longrightarrow> cnt (counting ok b) (pcs[t := c]) = cnt (counting ok b) pcs"
  by (rule cnt_upd_same)

lemma step_ok:
  assumes p: "pool_ok p" and t: "t < length (tp_pcs p)" and b: "b < length (tp_batches p)"
    and B: "blocks_ok ((tp_pcs p)[t := c]) ((tp_batches p)[b := f (tp_batches p ! b)]) lg"
    and x: "batch_ok ((tp_pcs p)[t := c]) b (f (tp_batches p ! b))"
    and cc: "\<And>ok d. d \<noteq> b \<Longrightarrow> counting ok d (tp_pcs p ! t) = counting ok d c"
    and tc: "thread_ok ((tp_batches p)[b := f (tp_batches p ! b)]) t c"
    and fr: "\<And>u. u < length (tp_pcs p) \<Longrightarrow> u \<noteq> t \<Longrightarrow> thread_ok (tp_batches p) u (tp_pcs p ! u)
      \<Longrightarrow> thread_ok ((tp_batches p)[b := f (tp_batches p ! b)]) u (tp_pcs p ! u)"
  shows "pool_ok (tp_goto t c (tp_upd b f (p\<lparr>tp_log := lg\<rparr>)))"
proof -
  have "batch_ok ((tp_pcs p)[t := c]) d ((tp_batches p)[b := f (tp_batches p ! b)] ! d)" if "d < length (tp_batches p)" for d
    using that pool_okD(5) [OF p that] x b counting_upd [OF t cc] by (cases "d = b") (auto simp: batch_ok_def)
  moreover have "thread_ok ((tp_batches p)[b := f (tp_batches p ! b)]) u ((tp_pcs p)[t := c] ! u)" if "u < length (tp_pcs p)" for u
    using fr [of u] tc that pool_okD(6) [OF p] by (cases "u = t") auto
  ultimately show ?thesis
    using p B by (auto simp: pool_ok_def tp_goto_def tp_upd_def)
qed

text \<open>Claiming a block.\<close>

lemma probe_step_ok:
  assumes p: "pool_ok p" and t: "t < length (tp_pcs p)" "tp_pcs p ! t = P_Probe b s k" and i: "i < length (ab_state (tp_batches p ! b))"
    and todo: "ab_state (tp_batches p ! b) ! i = EPA_AT_BLOCK_TODO"
  shows "pool_ok (tp_goto t (P_Own b i) (tp_upd b (\<lambda>x. x\<lparr>ab_state := (ab_state x)[i := EPA_AT_BLOCK_INFLIGHT]\<rparr>) p))"
proof -
  let ?f = "\<lambda>x. x\<lparr>ab_state := (ab_state x)[i := EPA_AT_BLOCK_INFLIGHT]\<rparr>"
  have b: "b < length (tp_batches p)" using pool_okD(6) [OF p t(1)] t(2) by simp
  have k: "blk (tp_batches p) b i = EPA_AT_BLOCK_TODO" using b i todo by (simp add: blk_def)
  note bo = pool_okD(5) [OF p b]
  have "pool_ok (tp_goto t (P_Own b i) (tp_upd b ?f (p\<lparr>tp_log := tp_log p\<rparr>)))"
  proof (rule step_ok [OF p t(1) b])
    show "blocks_ok ((tp_pcs p)[t := P_Own b i]) ((tp_batches p)[b := ?f (tp_batches p ! b)]) (tp_log p)"
      using b i t k by (intro blocks_step [OF pool_okD(4) [OF p], where i = i and s = EPA_AT_BLOCK_INFLIGHT]) auto
    show "batch_ok ((tp_pcs p)[t := P_Own b i]) b (?f (tp_batches p ! b))"
      using bo t i todo counting_upd [OF t(1), of _ b "P_Own b i"] by (simp add: batch_ok_def cnt_upd_same)
    fix u assume "u < length (tp_pcs p)" "u \<noteq> t" "thread_ok (tp_batches p) u (tp_pcs p ! u)"
    then show "thread_ok ((tp_batches p)[b := ?f (tp_batches p ! b)]) u (tp_pcs p ! u)"
      using thread_ok_frame_at [OF _ b] k by simp
  qed (use t b i in auto)
  then show ?thesis by simp
qed

lemma claim_probe_ok:
  assumes p: "pool_ok p" and t: "t < length (tp_pcs p)" "tp_pcs p ! t = P_Probe b s k"
  shows "pool_ok (claim_probe t b s k p)"
proof -
  have b: "b < length (tp_batches p)" using pool_okD(6) [OF p t(1)] t(2) by simp
  note bo = pool_okD(5) [OF p b]
  have "unat ((s + k) mod ab_count (tp_batches p ! b)) < length (ab_state (tp_batches p ! b))"
    using bo by (simp add: batch_ok_def unat_mod_distrib)
  with probe_step_ok [OF p t] p t b show ?thesis
    by (auto simp: claim_probe_def Let_def same_role_def intro: goto_ok)
qed

lemma exec_ok:
  assumes p: "pool_ok p" and t: "t < length (tp_pcs p)" "tp_pcs p ! t = P_Exec b i"
  shows "pool_ok (exec_block a t b i p)"
proof -
  let ?e = "EvExec b i t (tp_vms p ! t)"
  have b: "b < length (tp_batches p)" and i: "i < length (ab_state (tp_batches p ! b))" and o: "ab_owner (tp_batches p ! b) ! i = int t"
    using pool_okD(6) [OF p t(1)] t(2) by simp_all
  have k: "blk (tp_batches p) b i = EPA_AT_BLOCK_INFLIGHT"
    using holding_inflight [OF pool_okD(4) [OF p] t(1)] t(2) by simp
  have x: "ab_state (tp_batches p ! b) = (ab_state (tp_batches p ! b))[i := EPA_AT_BLOCK_INFLIGHT]"
    using k b i by (simp add: blk_def) (metis list_update_id)
  have "pool_ok (tp_goto t (P_Complete b i (an_ok a)) (tp_upd b (\<lambda>x. x) (p\<lparr>tp_log := tp_log p @ [?e]\<rparr>)))"
  proof (rule step_ok [OF p t(1) b])
    show "blocks_ok ((tp_pcs p)[t := P_Complete b i (an_ok a)]) ((tp_batches p)[b := tp_batches p ! b]) (tp_log p @ [?e])"
      using b i t k x by (intro blocks_step [OF pool_okD(4) [OF p], where i = i and s = EPA_AT_BLOCK_INFLIGHT]) (auto simp: cnt_def)
    show "batch_ok ((tp_pcs p)[t := P_Complete b i (an_ok a)]) b (tp_batches p ! b)"
      using pool_okD(5) [OF p b] t counting_upd [OF t(1), of _ b "P_Complete b i (an_ok a)"] by (simp add: batch_ok_def)
  qed (use t b i o in auto)
  then show ?thesis by (simp add: exec_block_def tp_goto_def tp_emit_def tp_upd_def pool_ok_def)
qed

text \<open>Completing it: the checks always pass.\<close>

lemma complete_check_eq:
  assumes p: "pool_ok p" and t: "t < length (tp_pcs p)" "tp_pcs p ! t = P_Complete b i ok"
  shows "complete_check t b i ok p = tp_goto t (P_Store b i ok) p"
proof -
  have b: "b < length (tp_batches p)" "i < length (ab_state (tp_batches p ! b))" "ab_owner (tp_batches p ! b) ! i = int t"
    using pool_okD(6) [OF p t(1)] t(2) by simp_all
  have "blk (tp_batches p) b i = EPA_AT_BLOCK_INFLIGHT" using holding_inflight [OF pool_okD(4) [OF p] t(1)] t(2) by simp
  with b pool_okD(5) [OF p b(1)] show ?thesis by (simp add: complete_check_def Let_def blk_def batch_ok_def)
qed

lemma complete_check_ok:
  assumes p: "pool_ok p" and t: "t < length (tp_pcs p)" "tp_pcs p ! t = P_Complete b i ok"
  shows "pool_ok (complete_check t b i ok p)"
  using complete_check_eq [OF assms] p t pool_okD(6) [OF p t(1)] by (auto simp: same_role_def intro!: goto_ok)

lemma complete_store_ok:
  assumes p: "pool_ok p" and t: "t < length (tp_pcs p)" "tp_pcs p ! t = P_Store b i ok"
  shows "pool_ok (complete_store t b i ok p)"
proof -
  let ?s = "if ok then EPA_AT_BLOCK_DONE else EPA_AT_BLOCK_FAULT"
  let ?f = "\<lambda>x. x\<lparr>ab_state := (ab_state x)[i := ?s]\<rparr>"
  have b: "b < length (tp_batches p)" and i: "i < length (ab_state (tp_batches p ! b))" using pool_okD(6) [OF p t(1)] t(2) by simp_all
  have k: "blk (tp_batches p) b i = EPA_AT_BLOCK_INFLIGHT"
    using holding_inflight [OF pool_okD(4) [OF p] t(1)] t(2) by simp
  have st: "ab_state (tp_batches p ! b) ! i = EPA_AT_BLOCK_INFLIGHT" using k b i by (simp add: blk_def)
  have "pool_ok (tp_goto t (P_Count b i ok) (tp_upd b ?f (p\<lparr>tp_log := tp_log p\<rparr>)))"
  proof (rule step_ok [OF p t(1) b])
    show "blocks_ok ((tp_pcs p)[t := P_Count b i ok]) ((tp_batches p)[b := ?f (tp_batches p ! b)]) (tp_log p)"
      using b i t k by (intro blocks_step [OF pool_okD(4) [OF p], where i = i and s = "?s"]) auto
    note u = cnt_upd [OF i, of "(=) EPA_AT_BLOCK_DONE" ?s] cnt_upd [OF i, of "(=) EPA_AT_BLOCK_FAULT" ?s]
      cnt_upd [OF t(1), of "counting True b" "P_Count b i ok"] cnt_upd [OF t(1), of "counting False b" "P_Count b i ok"]
    then show "batch_ok ((tp_pcs p)[t := P_Count b i ok]) b (?f (tp_batches p ! b))"
      using pool_okD(5) [OF p b] t st by (cases ok) (auto simp: batch_ok_def)
    fix u assume "u < length (tp_pcs p)" "u \<noteq> t" "thread_ok (tp_batches p) u (tp_pcs p ! u)"
    then show "thread_ok ((tp_batches p)[b := ?f (tp_batches p ! b)]) u (tp_pcs p ! u)"
      using thread_ok_frame_at [OF _ b] k by simp
  qed (use t b i in \<open>auto simp: blk_upd\<close>)
  then show ?thesis by (simp add: complete_store_def)
qed

lemma cnt_le: "cnt P xs \<le> length xs"
  by (simp add: cnt_def)

lemma unat_add_1: "unat (x :: u32) < n \<Longrightarrow> n \<le> unat (y :: u32) \<Longrightarrow> unat (x + 1) = unat x + 1"
  using unsigned_less [where 'a = nat, of y] by (simp add: unat_word_ariths)

lemma complete_count_ok:
  assumes p: "pool_ok p" and t: "t < length (tp_pcs p)" "tp_pcs p ! t = P_Count b i ok"
  shows "pool_ok (complete_count t b i ok p)"
proof -
  let ?f = "\<lambda>x. if ok then x\<lparr>ab_done := ab_done x + 1\<rparr> else x\<lparr>ab_fault := ab_fault x + 1\<rparr>"
  let ?x = "tp_batches p ! b"
  have b: "b < length (tp_batches p)" and i: "i < length (ab_state ?x)" and k: "blk (tp_batches p) b i \<in> {EPA_AT_BLOCK_DONE, EPA_AT_BLOCK_FAULT}"
    using pool_okD(6) [OF p t(1)] t(2) by simp_all
  have fs: "ab_state (?f ?x) = ab_state ?x" "ab_owner (?f ?x) = ab_owner ?x" "ab_count (?f ?x) = ab_count ?x" by simp_all
  note bo = pool_okD(5) [OF p b, unfolded batch_ok_def]
  have "pool_ok (tp_goto t (P_Release b i) (tp_upd b ?f (p\<lparr>tp_log := tp_log p\<rparr>)))"
  proof (rule step_ok [OF p t(1) b])
    show "blocks_ok ((tp_pcs p)[t := P_Release b i]) ((tp_batches p)[b := ?f ?x]) (tp_log p)"
      using b i t k fs by (intro blocks_step [OF pool_okD(4) [OF p], where i = i and s = "ab_state ?x ! i"]) (auto simp: blk_def)
    note u = cnt_upd [OF t(1), of "counting True b" "P_Release b i"] cnt_upd [OF t(1), of "counting False b" "P_Release b i"]
    have "unat (ab_done ?x) < length (ab_state ?x)" if ok
      using u(1) that t bo cnt_le [of "(=) EPA_AT_BLOCK_DONE" "ab_state ?x"] by simp
    moreover have "unat (ab_fault ?x) < length (ab_state ?x)" if "\<not> ok"
      using u(2) that t bo cnt_le [of "(=) EPA_AT_BLOCK_FAULT" "ab_state ?x"] by simp
    ultimately show "batch_ok ((tp_pcs p)[t := P_Release b i]) b (?f ?x)"
      using bo u t unat_add_1 [of "ab_done ?x" _ "ab_count ?x"] unat_add_1 [of "ab_fault ?x" _ "ab_count ?x"]
      by (cases ok) (auto simp: batch_ok_def)
    show "thread_ok ((tp_batches p)[b := ?f ?x]) t (P_Release b i)" using b i k fs by (simp add: blk_upd blk_def)
    fix u assume "u < length (tp_pcs p)" "u \<noteq> t" "thread_ok (tp_batches p) u (tp_pcs p ! u)"
    then show "thread_ok ((tp_batches p)[b := ?f ?x]) u (tp_pcs p ! u)"
      using b fs by (intro thread_ok_frame) auto
  qed (use t b i in auto)
  then show ?thesis by (simp add: complete_count_def)
qed

section \<open>Every step keeps the invariant\<close>

lemma pool_ok_goto_fields:
  "pool_ok (tp_goto t c (p\<lparr>tp_vtid := v\<rparr>)) = pool_ok (tp_goto t c p)"
  "pool_ok (tp_goto t c (p\<lparr>tp_vtid := v, tp_vms := m\<rparr>)) = pool_ok (tp_goto t c p)"
  "pool_ok (tp_goto t c (p\<lparr>tp_waiting := w\<rparr>)) = pool_ok (tp_goto t c p)"
  by (simp_all add: pool_ok_def tp_goto_def)

lemma thread_step_ok:
  assumes p: "pool_ok p" and t: "t < length (tp_pcs p)" and s: "tp_thread_step a t p = Some p'"
  shows "pool_ok p'"
proof -
  note th = pool_okD(6) [OF p t]
  show ?thesis
  proof (cases "tp_pcs p ! t")
    case P_Start
    with s p t show ?thesis
      by (auto simp: tp_thread_step_def thread_start_def same_role_def pool_ok_goto_fields split: prod.splits intro!: goto_ok)
  next
    case P_Woken
    with s p t show ?thesis by (auto simp: tp_thread_step_def same_role_def intro!: take_ok)
  next
    case (P_Claim b)
    with s p t th show ?thesis by (auto simp: tp_thread_step_def claim_load_def Let_def same_role_def intro!: goto_ok)
  next
    case (P_Done b)
    with s th have b: "b < length (tp_batches p)" and e: "p' = block_done t b p" by (simp_all add: tp_thread_step_def)
    have "pool_ok (tp_goto t (P_Requeue b) (tp_emit (EvFinish b) p))"
      using pool_ok_emit [OF p, of "EvFinish b"] t b P_Done by (intro goto_ok) (auto simp: same_role_def tp_emit_def)
    moreover have "pool_ok (tp_goto t (P_Requeue b) p)" using p t b P_Done by (intro goto_ok) (auto simp: same_role_def)
    ultimately show ?thesis
      by (auto simp: e block_done_def Let_def pool_ok_def tp_goto_def tp_emit_def)
  next
    case (P_Requeue b)
    with s th have b: "b < length (tp_batches p)" and e: "p' = requeue t b p" by (simp_all add: tp_thread_step_def)
    have l: "length (tp_pcs (snd (tp_ring_push b p))) = length (tp_pcs p)" "tp_pcs (snd (tp_ring_push b p)) = tp_pcs p"
      by (simp_all add: tp_ring_push_def split: option.splits)
    have "pool_ok (tp_goto t P_Top (tp_broadcast q))" if "pool_ok q" "tp_pcs q = tp_pcs p" for q
      using broadcast_ok [OF that(1)] that(2) t P_Requeue by (intro goto_ok) (auto simp: same_role_def tp_broadcast_def)
    with p b l ring_push_ok [OF p b] show ?thesis by (auto simp: e requeue_def Let_def)
  next
    case (P_Push b)
    with s th have b: "b < length (tp_batches p)" and e: "p' = tp_goto t P_Top (snd (tp_ring_push b p))" by (simp_all add: tp_thread_step_def)
    have l: "tp_pcs (snd (tp_ring_push b p)) = tp_pcs p" by (simp add: tp_ring_push_def split: option.splits)
    with ring_push_ok [OF p b] t P_Push show ?thesis unfolding e by (intro goto_ok) (auto simp: same_role_def)
  next
    case P_Exit
    with s p t show ?thesis
      by (auto simp: tp_thread_step_def thread_exit_def same_role_def pool_ok_goto_fields intro!: goto_ok)
  qed (use s p t th in \<open>auto simp: tp_thread_step_def same_role_def intro!: goto_ok take_ok claim_cursor_ok claim_probe_ok claim_own_ok exec_ok
        complete_check_ok complete_store_ok complete_count_ok complete_release_ok\<close>)
qed

lemma init_ok: "epa_thread_pool_init ok n = Some p \<Longrightarrow> pool_ok p"
  using cq_zero_inv [of 256 "0 :: nat"]
  by (auto simp: epa_thread_pool_init_def pool_ok_def blocks_ok_def blk_def cnt_def cq_zero_def split: if_splits)

lemma batch_create_ok:
  assumes p: "pool_ok p" and c: "epa_at_batch_create ok n fin = Some x"
  shows "pool_ok (p\<lparr>tp_batches := tp_batches p @ [x]\<rparr>)"
proof -
  let ?m = "length (tp_batches p)"
  have x: "n \<noteq> 0" "ab_count x = n" "ab_done x = 0" "ab_fault x = 0" "ab_state x = replicate (unat n) EPA_AT_BLOCK_TODO"
    "length (ab_owner x) = unat n"
    using c by (auto simp: epa_at_batch_create_def split: if_splits)
  have k: "blk (tp_batches p @ [x]) = blk (tp_batches p)"
    by (intro ext) (auto simp: blk_def nth_append x)
  have th: "thread_ok (tp_batches p @ [x]) t d" if "thread_ok (tp_batches p) t d" for t d
    using that by (cases d) (auto simp: nth_append k)
  have nc: "\<not> counting ok ?m d" if "thread_ok (tp_batches p) t d" for ok t d
    using that by (cases d) auto
  have "cnt (counting ok ?m) (tp_pcs p) = 0" for ok
    using pool_okD(6) [OF p] nc by (auto simp: cnt_zero)
  then have "batch_ok (tp_pcs p) ?m x"
    using x by (auto simp: batch_ok_def cnt_def unat_gt_0)
  then show ?thesis
    using p th by (auto simp: pool_ok_def blocks_ok_def k nth_append less_Suc_eq)
qed

lemma submit_ok:
  assumes p: "pool_ok p" and b: "b < length (tp_batches p)"
  shows "pool_ok (snd (epa_thread_pool_submit_batch b p))"
proof -
  have "pool_ok (tp_broadcast (tp_emit (EvSubmit b) (snd (tp_ring_push b p))))"
    using ring_push_ok [OF p b] by (intro broadcast_ok pool_ok_emit) simp_all
  with ring_push_ok [OF p b] show ?thesis by (auto simp: epa_thread_pool_submit_batch_def split: prod.splits)
qed

lemma tp_step_ok: "tp_step p p' \<Longrightarrow> pool_ok p \<Longrightarrow> pool_ok p'"
proof (induction rule: tp_step.induct)
  case (tp_spurious t p)
  then show ?case by (intro goto_ok) (auto simp: same_role_def)
next
  case (tp_wake p)
  then show ?case by (simp add: epa_thread_pool_wake_def broadcast_ok)
next
  case (tp_shutdown p)
  then show ?case by (simp add: epa_thread_pool_shutdown_def broadcast_ok)
qed (auto intro: thread_step_ok batch_create_ok submit_ok)

lemma tp_reach_ok: "tp_reach p \<Longrightarrow> pool_ok p"
  by (induction rule: tp_reach.induct) (auto intro: init_ok tp_step_ok)

section \<open>Every block runs once\<close>

lemma counters_le:
  assumes "batch_ok pcs b x"
  shows "unat (ab_done x) + unat (ab_fault x) \<le> unat (ab_count x)"
proof -
  have "cnt ((=) EPA_AT_BLOCK_DONE) xs + cnt ((=) EPA_AT_BLOCK_FAULT) xs \<le> length xs" for xs
    by (induction xs) (auto simp: cnt_def)
  from this [of "ab_state x"] assms show ?thesis by (auto simp: batch_ok_def)
qed

lemma finished_iff:
  assumes "batch_ok pcs b x"
  shows "epa_at_batch_all_finished x \<longleftrightarrow> unat (ab_done x) + unat (ab_fault x) = unat (ab_count x)"
proof -
  have "unat (ab_done x + ab_fault x) = unat (ab_done x) + unat (ab_fault x)"
    using counters_le [OF assms] unsigned_less [where 'a = nat, of "ab_count x"] by (simp add: unat_word_ariths)
  then show ?thesis by (metis epa_at_batch_all_finished_def word_unat_eq_iff)
qed

lemma finished_blocks:
  assumes B: "batch_ok pcs b x" and f: "epa_at_batch_all_finished x" and i: "i < length (ab_state x)"
  shows "ab_state x ! i \<in> {EPA_AT_BLOCK_DONE, EPA_AT_BLOCK_FAULT}" and "cnt (counting ok b) pcs = 0"
proof -
  let ?n = "\<lambda>s. cnt ((=) s) (ab_state x)"
  have split: "cnt ((=) EPA_AT_BLOCK_DONE) xs + cnt ((=) EPA_AT_BLOCK_FAULT) xs + cnt (\<lambda>s. s \<notin> {EPA_AT_BLOCK_DONE, EPA_AT_BLOCK_FAULT}) xs = length xs" for xs
    by (induction xs) (auto simp: cnt_def)
  note s = split [of "ab_state x"] B [unfolded batch_ok_def] f [unfolded finished_iff [OF B]]
  then have "cnt (\<lambda>s. s \<notin> {EPA_AT_BLOCK_DONE, EPA_AT_BLOCK_FAULT}) (ab_state x) = 0" by linarith
  with i show "ab_state x ! i \<in> {EPA_AT_BLOCK_DONE, EPA_AT_BLOCK_FAULT}" by (auto simp: cnt_zero)
  have "cnt (counting True b) pcs = 0" "cnt (counting False b) pcs = 0" using s by linarith+
  then show "cnt (counting ok b) pcs = 0" by (cases ok) simp_all
qed

text \<open>How often the handler of a batch has been called for a block.\<close>

definition block_runs :: "tp_pool \<Rightarrow> nat \<Rightarrow> nat \<Rightarrow> nat" where
  "block_runs p b i = cnt (is_exec b i) (tp_log p)"

lemma runs_le:
  assumes p: "pool_ok p" and b: "b < length (tp_batches p)"
  shows "block_runs p b i \<le> of_bool (i < unat (ab_count (tp_batches p ! b)))"
proof -
  have "length (ab_state (tp_batches p ! b)) = unat (ab_count (tp_batches p ! b))" using pool_okD(5) [OF p b] by (simp add: batch_ok_def)
  moreover have "cnt (is_exec b i) (tp_log p) + cnt (unrun b i) (tp_pcs p) = of_bool (blk (tp_batches p) b i \<noteq> EPA_AT_BLOCK_TODO)"
    using pool_okD(4) [OF p] by (simp add: blocks_ok_def)
  ultimately show ?thesis
    by (cases "i < unat (ab_count (tp_batches p ! b))") (auto simp: block_runs_def blk_def of_bool_def split: if_splits)
qed

lemma finished_runs:
  assumes p: "pool_ok p" and b: "b < length (tp_batches p)" and f: "epa_at_batch_all_finished (tp_batches p ! b)"
    and i: "i < unat (ab_count (tp_batches p ! b))"
  shows "block_runs p b i = 1 \<and> ab_state (tp_batches p ! b) ! i \<in> {EPA_AT_BLOCK_DONE, EPA_AT_BLOCK_FAULT}"
proof -
  note B = pool_okD(5) [OF p b]
  have l: "length (ab_state (tp_batches p ! b)) = unat (ab_count (tp_batches p ! b))" using B by (simp add: batch_ok_def)
  have st: "ab_state (tp_batches p ! b) ! i \<in> {EPA_AT_BLOCK_DONE, EPA_AT_BLOCK_FAULT}" using finished_blocks(1) [OF B f] l i by simp
  then have "blk (tp_batches p) b i \<in> {EPA_AT_BLOCK_DONE, EPA_AT_BLOCK_FAULT}" using l i b by (simp add: blk_def)
  moreover have "cnt (unrun b i) (tp_pcs p) \<le> cnt (holding b i) (tp_pcs p)"
    by (rule cnt_mono) (erule unrun.elims; simp)
  moreover have "cnt (holding b i) (tp_pcs p) = of_bool (blk (tp_batches p) b i = EPA_AT_BLOCK_INFLIGHT)"
    "cnt (is_exec b i) (tp_log p) + cnt (unrun b i) (tp_pcs p) = of_bool (blk (tp_batches p) b i \<noteq> EPA_AT_BLOCK_TODO)"
    using pool_okD(4) [OF p] by (simp_all add: blocks_ok_def)
  ultimately show ?thesis using st by (auto simp: block_runs_def)
qed

lemma finished_counts:
  assumes p: "pool_ok p" and b: "b < length (tp_batches p)" and f: "epa_at_batch_all_finished (tp_batches p ! b)"
  shows "unat (ab_done (tp_batches p ! b)) = count_list (ab_state (tp_batches p ! b)) EPA_AT_BLOCK_DONE"
    and "unat (ab_fault (tp_batches p ! b)) = count_list (ab_state (tp_batches p ! b)) EPA_AT_BLOCK_FAULT"
proof -
  note B = pool_okD(5) [OF p b]
  have "cnt ((=) s) xs = count_list xs s" for s :: at_block and xs by (induction xs) (auto simp: cnt_def)
  then show "unat (ab_done (tp_batches p ! b)) = count_list (ab_state (tp_batches p ! b)) EPA_AT_BLOCK_DONE"
    and "unat (ab_fault (tp_batches p ! b)) = count_list (ab_state (tp_batches p ! b)) EPA_AT_BLOCK_FAULT"
    using B finished_blocks(2) [OF B f, of 0] by (auto simp: batch_ok_def)
qed

text \<open>C26: whatever the host does, however the threads interleave, and whatever the handler answers, no block of a batch
  is ever handed to the handler twice, nor one that the batch does not have; and once a batch is finished each of its blocks has
  been handed to the handler exactly once and is done or faulted, with both counters exact.\<close>

theorem blocks_run_once:
  assumes "tp_reach p" and "b < length (tp_batches p)"
  shows "(\<forall>i. block_runs p b i \<le> of_bool (i < unat (ab_count (tp_batches p ! b)))) \<and>
    (epa_at_batch_all_finished (tp_batches p ! b) \<longrightarrow>
      (\<forall>i < unat (ab_count (tp_batches p ! b)). block_runs p b i = 1 \<and> ab_state (tp_batches p ! b) ! i \<in> {EPA_AT_BLOCK_DONE, EPA_AT_BLOCK_FAULT}) \<and>
      unat (ab_done (tp_batches p ! b)) = count_list (ab_state (tp_batches p ! b)) EPA_AT_BLOCK_DONE \<and>
      unat (ab_fault (tp_batches p ! b)) = count_list (ab_state (tp_batches p ! b)) EPA_AT_BLOCK_FAULT)"
proof (intro conjI impI allI)
  note ok = tp_reach_ok [OF assms(1)]
  show "block_runs p b i \<le> of_bool (i < unat (ab_count (tp_batches p ! b)))" for i by (rule runs_le [OF ok assms(2)])
  assume f: "epa_at_batch_all_finished (tp_batches p ! b)"
  show "block_runs p b i = 1" "ab_state (tp_batches p ! b) ! i \<in> {EPA_AT_BLOCK_DONE, EPA_AT_BLOCK_FAULT}"
    if "i < unat (ab_count (tp_batches p ! b))" for i
    using finished_runs [OF ok assms(2) f that] by simp_all
qed (use finished_counts [OF tp_reach_ok [OF assms(1)] assms(2)] in simp_all)

section \<open>A run\<close>

text \<open>The threads of a schedule take one step each, with the same answers.\<close>

fun tp_sched :: "tp_answers \<Rightarrow> nat list \<Rightarrow> tp_pool \<Rightarrow> tp_pool option" where
  "tp_sched a [] p = Some p"
| "tp_sched a (t # ts) p =
     (if t < length (tp_pcs p) then case tp_thread_step a t p of None \<Rightarrow> None | Some p' \<Rightarrow> tp_sched a ts p' else None)"

lemma tp_sched_reach: "tp_sched a ts p = Some p' \<Longrightarrow> tp_reach p \<Longrightarrow> tp_reach p'"
  by (induction a ts p rule: tp_sched.induct) (auto split: if_splits option.splits intro: tp_next tp_thread)

definition one_answer :: "bool \<Rightarrow> tp_answers" where
  "one_answer ok = \<lparr>an_alloc = (\<lambda>n. Some (replicate n 0)), an_stack = True, an_ok = ok, an_vm = vm_zero\<rparr>"

definition two_blocks :: "tp_pool option" where
  "two_blocks = (case (epa_thread_pool_init True 2, epa_at_batch_create True 2 False) of
     (Some p, Some x) \<Rightarrow> Some (snd (epa_thread_pool_submit_batch 0 (p\<lparr>tp_batches := tp_batches p @ [x]\<rparr>)))
   | _ \<Rightarrow> None)"

lemma two_blocks_reach: "two_blocks = Some p \<Longrightarrow> tp_reach p"
  by (auto simp: two_blocks_def split: option.splits
      intro!: tp_next [OF tp_next [OF tp_init tp_create] tp_submit])

definition two_blocks_run :: "tp_pool option" where
  "two_blocks_run = Option.bind (Option.bind two_blocks (tp_sched (one_answer True) [0,0,0,0,0,0,0,0,0,0,0,0,0,0]))
     (tp_sched (one_answer False) [1,1,1,1,1,1,1,1,1,1,1,1,1,1])"

lemma two_blocks_run_reach: "two_blocks_run = Some p \<Longrightarrow> tp_reach p"
  unfolding two_blocks_run_def bind_eq_Some_conv by (blast dest: two_blocks_reach intro: tp_sched_reach)

definition fresh_vm :: epa_vm where
  "fresh_vm = snd (epa_vm_init_with_lbytes True (an_alloc (one_answer True)) (8 * 1024))"

lemma fresh_vm: "epa_vm_init_with_lbytes (an_stack (one_answer ok)) (an_alloc (one_answer ok)) 8192 = (True, fresh_vm)"
  by (simp add: fresh_vm_def epa_vm_init_with_lbytes_def one_answer_def Let_def)

lemma one_answer_simps: "an_ok (one_answer ok) = ok" "an_vm (one_answer ok) = vm_zero"
  by (simp_all add: one_answer_def)

lemmas pool_defs = one_answer_simps thread_start_def fresh_vm tp_take_def claim_load_def claim_cursor_def claim_probe_def claim_own_def exec_block_def
  complete_check_def complete_store_def complete_count_def complete_release_def block_done_def requeue_def thread_exit_def Let_def
  tp_goto_def tp_upd_def tp_emit_def tp_broadcast_def tp_ring_push_def epa_at_batch_all_finished_def

lemma replicate_2: "replicate 2 x = [x, x]"
  by (simp add: numeral_2_eq_2)

lemma not_2_le_1: "\<not> (2 :: u32) \<le> 1"
  by (simp add: word_le_nat_alt)

lemma two_blocks_runs:
  "map_option (\<lambda>p. (tp_pcs p, map epa_at_batch_all_finished (tp_batches p), length (tp_batches p), ab_count (tp_batches p ! 0),
     map (block_runs p 0) [0, 1], map ab_state (tp_batches p))) two_blocks_run
   = Some ([P_Top, P_Top], [True], 1, 2, [1, 1], [[EPA_AT_BLOCK_DONE, EPA_AT_BLOCK_FAULT]])"
  apply (simp add: two_blocks_run_def two_blocks_def epa_thread_pool_init_def epa_at_batch_create_def epa_thread_pool_submit_batch_def
     tp_ring_push_def cq_push_def cq_zero_def cq_qmax_def tp_broadcast_def tp_emit_def replicate_2)
  by (simp add: tp_thread_step_def pool_defs cq_pop_def cq_push_def cq_qmax_def block_runs_def cnt_def not_2_le_1)

lemma blocks_run_once_witness:
  "\<exists>p. two_blocks_run = Some p \<and> epa_at_batch_all_finished (tp_batches p ! 0) \<and> block_runs p 0 0 = 1 \<and> block_runs p 0 1 = 1"
proof -
  obtain p where p: "two_blocks_run = Some p" "epa_at_batch_all_finished (tp_batches p ! 0)" "length (tp_batches p) = 1"
      "ab_count (tp_batches p ! 0) = 2"
    using two_blocks_runs by (auto simp: map_option_case length_Suc_conv split: option.splits)
  have b: "0 < length (tp_batches p)" using p(3) by simp
  show ?thesis using blocks_run_once [OF two_blocks_run_reach [OF p(1)] b] p by auto
qed

end
