(* ===== verification/ThreadPoolLive.thy ===== *)
theory ThreadPoolLive
  imports ThreadPoolInv
begin

text \<open>
  Progress of the thread pool: how many threads can be busy with a batch, and that the threads, left to
  themselves, come to rest with every submitted batch finished.
\<close>

section \<open>Entries of a batch\<close>

fun carries :: "nat \<Rightarrow> tp_pc \<Rightarrow> bool" where
  "carries b (P_Popped c) \<longleftrightarrow> c = b" | "carries b (P_Claim c) \<longleftrightarrow> c = b" | "carries b (P_Cursor c) \<longleftrightarrow> c = b"
| "carries b (P_Probe c s k) \<longleftrightarrow> c = b" | "carries b (P_Own c i) \<longleftrightarrow> c = b" | "carries b (P_Exec c i) \<longleftrightarrow> c = b"
| "carries b (P_Complete c i ok) \<longleftrightarrow> c = b" | "carries b (P_Store c i ok) \<longleftrightarrow> c = b" | "carries b (P_Count c i ok) \<longleftrightarrow> c = b"
| "carries b (P_Release c i) \<longleftrightarrow> c = b" | "carries b (P_Done c) \<longleftrightarrow> c = b" | "carries b (P_Requeue c) \<longleftrightarrow> c = b"
| "carries b (P_Again c) \<longleftrightarrow> c = b" | "carries b (P_Push c) \<longleftrightarrow> c = b" | "carries b pc \<longleftrightarrow> False"

fun is_submit :: "nat \<Rightarrow> tp_event \<Rightarrow> bool" where
  "is_submit b (EvSubmit c) \<longleftrightarrow> c = b" | "is_submit b e \<longleftrightarrow> False"

text \<open>The places a batch is in: the queue and the hands of threads.\<close>

definition entries :: "tp_pool \<Rightarrow> nat \<Rightarrow> nat" where
  "entries p b = count_list (cq_list (tp_queue p)) b + cnt (carries b) (tp_pcs p)"

definition submissions :: "tp_pool \<Rightarrow> nat \<Rightarrow> nat" where
  "submissions p b = cnt (is_submit b) (tp_log p)"

lemma entries_fields [simp]:
  "entries (p\<lparr>tp_waiting := w\<rparr>) b = entries p b" "entries (p\<lparr>tp_vtid := v\<rparr>) b = entries p b" "entries (p\<lparr>tp_vms := m\<rparr>) b = entries p b"
  "entries (p\<lparr>tp_stop := s\<rparr>) b = entries p b" "entries (tp_emit e p) b = entries p b" "entries (tp_upd d f p) b = entries p b"
  "entries (p\<lparr>tp_batches := bs\<rparr>) b = entries p b" "entries (p\<lparr>tp_log := l\<rparr>) b = entries p b"
  by (simp_all add: entries_def tp_emit_def tp_upd_def)

lemma entries_goto: "t < length (tp_pcs p) \<Longrightarrow> entries (tp_goto t c p) b + of_bool (carries b (tp_pcs p ! t)) = entries p b + of_bool (carries b c)"
  using cnt_upd [of t "tp_pcs p" "carries b" c] by (simp add: entries_def tp_goto_def)

lemma entries_broadcast [simp]: "entries (tp_broadcast p) b = entries p b"
proof -
  have "cnt (carries b) (map (\<lambda>c. if c = P_Waiting then P_Woken else c) (tp_pcs p)) = cnt (carries b) (tp_pcs p)"
    by (rule cnt_map_same) simp
  then show ?thesis by (simp add: entries_def tp_broadcast_def)
qed

lemma entries_goto_broadcast:
  assumes "t < length (tp_pcs p)"
  shows "entries (tp_goto t c (tp_broadcast p)) b + of_bool (carries b (tp_pcs p ! t)) = entries p b + of_bool (carries b c)"
proof -
  have "carries b (tp_pcs (tp_broadcast p) ! t) = carries b (tp_pcs p ! t)" "t < length (tp_pcs (tp_broadcast p))"
    using assms by (auto simp: tp_broadcast_def)
  with entries_goto [of t "tp_broadcast p" c b] show ?thesis by simp
qed

lemma push_cases:
  assumes "pool_ok p"
  obtains q where "length (cq_list (tp_queue p)) < 256" "tp_ring_push b p = (True, p\<lparr>tp_queue := q\<rparr>)" "cq_list q = cq_list (tp_queue p) @ [b]"
  | "256 \<le> length (cq_list (tp_queue p))" "tp_ring_push b p = (False, p)"
proof (cases "length (cq_list (tp_queue p)) < 256")
  case True
  then obtain q' where "cq_push b (tp_queue p) = Some q'" "cq_list q' = cq_list (tp_queue p) @ [b]"
    using cq.enq_room [OF pool_okD(1) [OF assms], of b] pool_okD(2) [OF assms] by auto
  with that(1) [of q'] True show ?thesis by (simp add: tp_ring_push_def)
next
  case False
  then have "cq_push b (tp_queue p) = None"
    using cq.enq_full [OF pool_okD(1) [OF assms], of b] cq.within_capacity [OF pool_okD(1) [OF assms]] pool_okD(2) [OF assms] by simp
  with that(2) False show ?thesis by (simp add: tp_ring_push_def)
qed

lemma take_cases:
  assumes "pool_ok p"
  obtains "tp_stop p" "tp_take t p = tp_goto t P_Exit p"
  | "\<not> tp_stop p" "cq_list (tp_queue p) = []" "tp_take t p = tp_goto t P_Waiting (p\<lparr>tp_waiting := tp_waiting p + 1\<rparr>)"
  | b q where "\<not> tp_stop p" "cq_list (tp_queue p) = b # cq_list q" "tp_take t p = tp_goto t (P_Popped b) (p\<lparr>tp_queue := q\<rparr>)"
proof (cases "cq_list (tp_queue p)")
  case Nil
  then have "cq_pop id (tp_queue p) = None" by (rule cq.deq_empty [OF pool_okD(1) [OF assms]])
  with that(1,2) Nil show ?thesis by (cases "tp_stop p") (auto simp: tp_take_def)
next
  case (Cons b bs)
  then obtain q' where "cq_pop id (tp_queue p) = Some (b, q')" "cq_list q' = bs"
    using cq.deq_front [OF pool_okD(1) [OF assms], of b bs id] by auto
  with that(1,3) Cons show ?thesis by (cases "tp_stop p") (auto simp: tp_take_def)
qed

lemma entries_push: "pool_ok p \<Longrightarrow> entries (snd (tp_ring_push d p)) b \<le> entries p b + of_bool (b = d)"
  by (erule push_cases [where b = d]) (auto simp: entries_def)

lemma entries_take:
  assumes "pool_ok p" and t: "t < length (tp_pcs p)" and "\<not> carries b (tp_pcs p ! t)"
  shows "entries (tp_take t p) b = entries p b"
  using assms(1)
proof (cases rule: take_cases [where t = t])
  case 1
  with entries_goto [OF t, of P_Exit b] assms(3) show ?thesis by simp
next
  case 2
  with entries_goto [of t "p\<lparr>tp_waiting := tp_waiting p + 1\<rparr>" P_Waiting b] t assms(3) show ?thesis by simp
next
  case (3 c q)
  have "entries p b = entries (p\<lparr>tp_queue := q\<rparr>) b + of_bool (b = c)" using 3(2) by (simp add: entries_def)
  with 3 entries_goto [of t "p\<lparr>tp_queue := q\<rparr>" "P_Popped c" b] t assms(3) show ?thesis by auto
qed

lemma entries_move: "t < length (tp_pcs p) \<Longrightarrow> carries b c \<longrightarrow> carries b (tp_pcs p ! t) \<Longrightarrow> entries (tp_goto t c p) b \<le> entries p b"
  using entries_goto [of t p c b] by (auto simp: of_bool_def split: if_splits)

lemma pcs_fields [simp]: "tp_pcs (tp_upd d f p) = tp_pcs p" "tp_pcs (tp_emit e p) = tp_pcs p" "tp_pcs (snd (tp_ring_push d p)) = tp_pcs p"
  by (simp_all add: tp_upd_def tp_emit_def tp_ring_push_def split: option.splits)

lemma carries_if: "carries b (if c then x else y) \<longleftrightarrow> c \<and> carries b x \<or> \<not> c \<and> carries b y"
  by simp

lemma thread_step_entries:
  assumes p: "pool_ok p" and t: "t < length (tp_pcs p)" and s: "tp_thread_step a t p = Some p'"
  shows "entries p' b \<le> entries p b"
proof (cases "tp_pcs p ! t")
  case (P_Requeue d)
  have e: "entries (tp_goto t P_Top (tp_broadcast q)) b + of_bool (d = b) = entries q b" if "tp_pcs q = tp_pcs p" for q
    using entries_goto_broadcast [of t q P_Top b] t P_Requeue that by simp
  show ?thesis
    using s P_Requeue e [of p] e [of "snd (tp_ring_push d p)"] entries_push [OF p, of d b]
    by (cases "b = d") (auto simp: tp_thread_step_def requeue_def Let_def)
next
  case (P_Push d)
  then show ?thesis
    using s entries_push [OF p, of d b] entries_goto [of t "snd (tp_ring_push d p)" P_Top b] t
    by (cases "b = d") (auto simp: tp_thread_step_def)
next
  case P_Woken
  have "pool_ok (p\<lparr>tp_waiting := tp_waiting p - 1\<rparr>)" using p by simp
  from entries_take [OF this, of t b] P_Woken t s show ?thesis by (simp add: tp_thread_step_def)
qed (use s p t in \<open>auto simp: tp_thread_step_def thread_start_def claim_load_def claim_cursor_def claim_probe_def claim_own_def exec_block_def
    complete_check_def complete_store_def complete_count_def complete_release_def block_done_def thread_exit_def entries_take Let_def
    carries_if split: prod.splits intro!: order_trans [OF entries_move]\<close>)

lemma submit_cases:
  assumes "pool_ok p"
  obtains q where "length (cq_list (tp_queue p)) < 256" "cq_list q = cq_list (tp_queue p) @ [b]"
    "epa_thread_pool_submit_batch b p = (True, tp_broadcast (tp_emit (EvSubmit b) (p\<lparr>tp_queue := q\<rparr>)))"
  | "256 \<le> length (cq_list (tp_queue p))" "epa_thread_pool_submit_batch b p = (False, p)"
  using assms
proof (cases rule: push_cases [where b = b])
  case (1 q)
  with that(1) [of q] show ?thesis by (simp add: epa_thread_pool_submit_batch_def)
next
  case 2
  with that(2) show ?thesis by (simp add: epa_thread_pool_submit_batch_def)
qed

lemma log_fields [simp]:
  "tp_log (tp_goto t c p) = tp_log p" "tp_log (tp_upd d f p) = tp_log p" "tp_log (tp_broadcast p) = tp_log p"
  "tp_log (snd (tp_ring_push d p)) = tp_log p" "tp_log (tp_take t p) = tp_log p" "tp_log (tp_emit e p) = tp_log p @ [e]"
      apply (simp_all add: tp_goto_def tp_upd_def tp_broadcast_def tp_emit_def)
   apply (simp add: tp_ring_push_def split: option.split)
  apply (simp add: tp_take_def tp_goto_def split: option.split prod.split)
  done

lemma log_ops [simp]:
  "tp_log (thread_start a t p) = tp_log p" "tp_log (claim_load t b p) = tp_log p" "tp_log (claim_cursor t b p) = tp_log p"
  "tp_log (claim_probe t b s k p) = tp_log p" "tp_log (claim_own a t b i p) = tp_log p"
  "tp_log (complete_check t b i ok p) = tp_log p" "tp_log (complete_store t b i ok p) = tp_log p"
  "tp_log (complete_count t b i ok p) = tp_log p" "tp_log (complete_release t b i p) = tp_log p"
  "tp_log (requeue t b p) = tp_log p" "tp_log (thread_exit t p) = tp_log p"
  "tp_log (exec_block a t b i p) = tp_log p @ [EvExec b i t (tp_vms p ! t)]"
  "tp_log (block_done t b p) =
     (if epa_at_batch_all_finished (tp_batches p ! b) \<and> ab_on_finish (tp_batches p ! b) then tp_log p @ [EvFinish b] else tp_log p)"
  by (simp_all add: thread_start_def claim_load_def claim_cursor_def claim_probe_def claim_own_def exec_block_def complete_check_def
      complete_store_def complete_count_def complete_release_def block_done_def requeue_def thread_exit_def Let_def split: prod.split)

lemma thread_step_log:
  assumes "tp_thread_step a t p = Some p'"
  shows "tp_log p' = tp_log p \<or> (\<exists>b. tp_log p' = tp_log p @ [EvFinish b]) \<or> (\<exists>b i v. tp_log p' = tp_log p @ [EvExec b i t v])"
  using assms by (cases "tp_pcs p ! t") (auto simp: tp_thread_step_def split: if_splits)

lemma is_submit_iff: "is_submit b e \<longleftrightarrow> e = EvSubmit b"
  by (cases e) auto

lemma submissions_step:
  assumes s: "tp_thread_step a t p = Some p'"
  shows "EvSubmit b \<in> set (tp_log p') \<longleftrightarrow> EvSubmit b \<in> set (tp_log p)" and "submissions p' b = submissions p b"
  using thread_step_log [OF s] by (auto simp: submissions_def cnt_def is_submit_iff)

text \<open>C31: whatever the host does and however the threads interleave, the threads at work on a batch and the entries of
  the batch in the queue together are never more than its accepted submissions: a batch that was submitted once is worked on by one thread
  at a time.\<close>

theorem batch_workers_bound: "tp_reach p \<Longrightarrow> entries p b \<le> submissions p b"
proof (induction rule: tp_reach.induct)
  case (tp_init ok n p)
  then show ?case using cq_zero_inv [of 256 "0 :: nat"]
    by (auto simp: epa_thread_pool_init_def entries_def submissions_def cnt_def split: if_splits)
next
  case (tp_next p p')
  note ok = tp_reach_ok [OF tp_next(1)]
  from tp_next(2,3) ok show ?case
  proof (induction rule: tp_step.induct)
    case (tp_thread t p a p')
    then show ?case using thread_step_entries [of p t a p' b] submissions_step(2) [of a t p p' b] by simp
  next
    case (tp_spurious t p)
    then show ?case using entries_goto [of t p P_Woken b] by (simp add: submissions_def tp_goto_def)
  next
    case (tp_create ok n fin x p)
    then show ?case by (simp add: submissions_def)
  next
    case (tp_submit c p)
    from tp_submit(3) show ?case
    proof (cases rule: submit_cases [where b = c])
      case (1 q)
      have "entries (p\<lparr>tp_queue := q\<rparr>) b = entries p b + of_bool (c = b)" using 1(2) by (auto simp: entries_def)
      with 1(3) tp_submit show ?thesis by (auto simp: submissions_def cnt_def)
    qed (use tp_submit in simp)
  next
    case (tp_wake p)
    then show ?case by (simp add: epa_thread_pool_wake_def submissions_def)
  next
    case (tp_shutdown p)
    then show ?case by (simp add: epa_thread_pool_shutdown_def submissions_def)
  qed
qed

lemma batch_workers_bound_witness:
  "\<exists>p. two_blocks_run = Some p \<and> submissions p 0 = 1 \<and> entries p 0 \<le> 1"
proof -
  obtain p where p: "two_blocks_run = Some p" using two_blocks_runs by (cases two_blocks_run) auto
  have "map_option (\<lambda>p. submissions p 0) two_blocks_run = Some 1"
    by (simp add: two_blocks_run_def two_blocks_def epa_thread_pool_init_def epa_at_batch_create_def epa_thread_pool_submit_batch_def
      tp_ring_push_def cq_push_def cq_zero_def cq_qmax_def tp_broadcast_def tp_emit_def replicate_2)
     (simp add: tp_thread_step_def pool_defs cq_pop_def cq_push_def cq_qmax_def submissions_def cnt_def not_2_le_1)
  then have "submissions p 0 = 1" using p by (metis map_option_eq_Some option.inject)
  with p batch_workers_bound [OF two_blocks_run_reach [OF p], of 0] show ?thesis by auto
qed

section \<open>A calm host\<close>

text \<open>Submitted batches that are not finished.\<close>

definition pending :: "tp_pool \<Rightarrow> nat set" where
  "pending p = {b. b < length (tp_batches p) \<and> \<not> epa_at_batch_all_finished (tp_batches p ! b) \<and> EvSubmit b \<in> set (tp_log p)}"

text \<open>A host that submits each batch once, has at most 256 of them unfinished at a time, keeps to batches of at
  most \<open>2 ^ 31\<close> blocks, and does not stop the pool; the threads and the system do what they like.\<close>

inductive tp_calm :: "tp_pool \<Rightarrow> bool" where
  calm_init: "epa_thread_pool_init ok n = Some p \<Longrightarrow> tp_calm p"
| calm_thread: "tp_calm p \<Longrightarrow> t < length (tp_pcs p) \<Longrightarrow> tp_thread_step a t p = Some p' \<Longrightarrow> tp_calm p'"
| calm_spurious: "tp_calm p \<Longrightarrow> t < length (tp_pcs p) \<Longrightarrow> tp_pcs p ! t = P_Waiting \<Longrightarrow> tp_calm (tp_goto t P_Woken p)"
| calm_create: "tp_calm p \<Longrightarrow> epa_at_batch_create ok n fin = Some b \<Longrightarrow> n \<le> 2 ^ 31 \<Longrightarrow> tp_calm (p\<lparr>tp_batches := tp_batches p @ [b]\<rparr>)"
| calm_submit: "tp_calm p \<Longrightarrow> b < length (tp_batches p) \<Longrightarrow> EvSubmit b \<notin> set (tp_log p) \<Longrightarrow> card (pending p) < 256
    \<Longrightarrow> tp_calm (snd (epa_thread_pool_submit_batch b p))"
| calm_wake: "tp_calm p \<Longrightarrow> tp_calm (epa_thread_pool_wake p)"

lemma calm_reach: "tp_calm p \<Longrightarrow> tp_reach p"
  by (induction rule: tp_calm.induct) (auto intro: tp_init tp_next tp_step.intros)

definition probed :: "at_batch \<Rightarrow> u32 \<Rightarrow> u32 \<Rightarrow> bool" where
  "probed x s k \<longleftrightarrow> s < ab_count x \<and> k \<le> ab_count x
     \<and> (\<forall>j < unat k. ab_state x ! ((unat s + j) mod unat (ab_count x)) \<noteq> EPA_AT_BLOCK_TODO)"

fun calm_pc :: "at_batch list \<Rightarrow> tp_pc \<Rightarrow> bool" where
  "calm_pc bs (P_Popped b) \<longleftrightarrow> \<not> epa_at_batch_all_finished (bs ! b)"
| "calm_pc bs (P_Claim b) \<longleftrightarrow> \<not> epa_at_batch_all_finished (bs ! b)"
| "calm_pc bs (P_Cursor b) \<longleftrightarrow> \<not> epa_at_batch_all_finished (bs ! b)"
| "calm_pc bs (P_Probe b s k) \<longleftrightarrow> \<not> epa_at_batch_all_finished (bs ! b) \<and> probed (bs ! b) s k"
| "calm_pc bs (P_Again b) \<longleftrightarrow> False" | "calm_pc bs (P_Push b) \<longleftrightarrow> False" | "calm_pc bs P_Exit \<longleftrightarrow> False"
| "calm_pc bs pc \<longleftrightarrow> True"

definition calm_ok :: "tp_pool \<Rightarrow> bool" where
  "calm_ok p \<longleftrightarrow> pool_ok p \<and> \<not> tp_stop p
     \<and> (\<forall>b. entries p b \<le> of_bool (EvSubmit b \<in> set (tp_log p)))
     \<and> (\<forall>b. EvSubmit b \<in> set (tp_log p) \<longrightarrow> b < length (tp_batches p))
     \<and> (\<forall>b \<in> pending p. entries p b = 1)
     \<and> set (cq_list (tp_queue p)) \<subseteq> pending p \<and> card (pending p) \<le> 256
     \<and> (\<forall>b < length (tp_batches p). epa_at_batch_all_finished (tp_batches p ! b) \<longrightarrow> EvSubmit b \<in> set (tp_log p))
     \<and> (\<forall>b < length (tp_batches p). unat (ab_count (tp_batches p ! b)) \<le> 2 ^ 31)
     \<and> (cq_list (tp_queue p) = [] \<or> P_Waiting \<notin> set (tp_pcs p))
     \<and> (\<forall>t < length (tp_pcs p). calm_pc (tp_batches p) (tp_pcs p ! t))"

lemma calm_okD:
  assumes "calm_ok p"
  shows "pool_ok p" and "\<not> tp_stop p" and "entries p b \<le> of_bool (EvSubmit b \<in> set (tp_log p))"
    and "EvSubmit b \<in> set (tp_log p) \<Longrightarrow> b < length (tp_batches p)"
    and "b \<in> pending p \<Longrightarrow> entries p b = 1" and "set (cq_list (tp_queue p)) \<subseteq> pending p" and "card (pending p) \<le> 256"
    and "b < length (tp_batches p) \<Longrightarrow> epa_at_batch_all_finished (tp_batches p ! b) \<Longrightarrow> EvSubmit b \<in> set (tp_log p)"
    and "b < length (tp_batches p) \<Longrightarrow> unat (ab_count (tp_batches p ! b)) \<le> 2 ^ 31"
    and "cq_list (tp_queue p) = [] \<or> P_Waiting \<notin> set (tp_pcs p)"
    and "t < length (tp_pcs p) \<Longrightarrow> calm_pc (tp_batches p) (tp_pcs p ! t)"
  using assms by (auto simp: calm_ok_def)

lemma pending_finite [simp]: "finite (pending p)"
  by (simp add: pending_def)

text \<open>A batch is in one place.\<close>

lemma one_carrier:
  assumes C: "calm_ok p" and "t < length (tp_pcs p)" "carries b (tp_pcs p ! t)" "u < length (tp_pcs p)" "carries b (tp_pcs p ! u)"
  shows "u = t"
proof -
  have "cnt (carries b) (tp_pcs p) \<le> 1" using calm_okD(3) [OF C, of b] by (auto simp: entries_def of_bool_def split: if_splits)
  moreover have "0 < cnt (carries b) (tp_pcs p)" using assms(2,3) by (rule cnt_pos)
  ultimately show ?thesis using cnt_one [of "carries b" "tp_pcs p" u t] assms by simp
qed

lemma carried_not_queued:
  assumes C: "calm_ok p" and "t < length (tp_pcs p)" "carries b (tp_pcs p ! t)"
  shows "b \<notin> set (cq_list (tp_queue p))"
proof -
  have "0 < cnt (carries b) (tp_pcs p)" using assms(2,3) by (rule cnt_pos)
  then have "count_list (cq_list (tp_queue p)) b = 0"
    using calm_okD(3) [OF C, of b] by (auto simp: entries_def of_bool_def split: if_splits)
  then show ?thesis by (simp add: count_list_0_iff)
qed

lemma carried_submitted:
  assumes C: "calm_ok p" and "t < length (tp_pcs p)" "carries b (tp_pcs p ! t)"
  shows "EvSubmit b \<in> set (tp_log p)"
  using cnt_pos [of t "tp_pcs p" "carries b"] assms calm_okD(3) [OF C, of b] by (auto simp: entries_def of_bool_def split: if_splits)

lemma count_le_1_distinct: "(\<And>d. count_list xs d \<le> 1) \<Longrightarrow> distinct xs"
proof (induction xs)
  case (Cons x xs)
  have "count_list xs d \<le> 1" for d using Cons(2) [of d] by (cases "x = d") auto
  moreover have "count_list xs x = 0" using Cons(2) [of x] by simp
  ultimately show ?case using Cons(1) by (auto simp: count_list_0_iff)
qed simp

lemma queue_room:
  assumes C: "calm_ok p" and b: "b \<notin> set (cq_list (tp_queue p))" and le: "card (insert b (pending p)) \<le> 256"
  shows "length (cq_list (tp_queue p)) < 256"
proof -
  have c1: "count_list (cq_list (tp_queue p)) d \<le> 1" for d
    using calm_okD(3) [OF C, of d] by (auto simp: entries_def of_bool_def split: if_splits)
  have "distinct (cq_list (tp_queue p))"
    using c1 by (rule count_le_1_distinct)
  then have "length (cq_list (tp_queue p)) = card (set (cq_list (tp_queue p)))" by (simp add: distinct_card)
  also have "\<dots> < card (insert b (set (cq_list (tp_queue p))))" using b by simp
  also have "\<dots> \<le> card (insert b (pending p))" using calm_okD(6) [OF C] by (intro card_mono) auto
  finally show ?thesis using le by simp
qed

lemma calm_pc_frame: "calm_pc bs d \<Longrightarrow> \<not> carries b d \<Longrightarrow> calm_pc (bs[b := x]) d"
  by (cases d) auto

text \<open>A step of thread \<open>t\<close> on the batch it carries.\<close>

lemma calm_step:
  assumes C: "calm_ok p" and p': "pool_ok p'" and t: "t < length (tp_pcs p)" and b: "b < length (tp_batches p)"
    and q: "tp_queue p' = tp_queue p" "tp_stop p' = tp_stop p" "tp_pcs p' = (tp_pcs p)[t := c]" "tp_batches p' = (tp_batches p)[b := x]"
    and l: "\<And>d. EvSubmit d \<in> set (tp_log p') \<longleftrightarrow> EvSubmit d \<in> set (tp_log p)"
    and x: "ab_count x = ab_count (tp_batches p ! b)" "epa_at_batch_all_finished (tp_batches p ! b) \<Longrightarrow> epa_at_batch_all_finished x"
    and r: "carries b (tp_pcs p ! t)" "\<And>d. carries d (tp_pcs p ! t) = carries d c" and w: "c \<noteq> P_Waiting" and cc: "calm_pc (tp_batches p') c"
  shows "calm_ok p'"
proof -
  have e: "entries p' d = entries p d" for d using r(2) t q by (simp add: entries_def cnt_upd_same)
  have fin: "epa_at_batch_all_finished (tp_batches p' ! d) \<longleftrightarrow> epa_at_batch_all_finished (tp_batches p ! d)" if "d \<noteq> b" for d
    using that q by simp
  have pend: "pending p' \<subseteq> pending p" using x(2) b by (auto simp: pending_def q l nth_list_update split: if_splits)
  have qu: "d \<in> pending p'" if "d \<in> set (cq_list (tp_queue p))" for d
    using that calm_okD(6) [OF C] carried_not_queued [OF C t r(1)] by (cases "d = b") (auto simp: pending_def q l)
  have th: "calm_pc (tp_batches p') (tp_pcs p' ! u)" if "u < length (tp_pcs p)" for u
  proof (cases "u = t")
    case True
    with cc q t show ?thesis by simp
  next
    case False
    then have "\<not> carries b (tp_pcs p ! u)" using one_carrier [OF C t r(1) that] by blast
    with False calm_okD(11) [OF C that] q show ?thesis by (simp add: calm_pc_frame)
  qed
  have "card (pending p') \<le> 256" using card_mono [OF pending_finite pend] calm_okD(7) [OF C] by simp
  moreover have "cq_list (tp_queue p') = [] \<or> P_Waiting \<notin> set (tp_pcs p')"
    using calm_okD(10) [OF C] w set_update_subset_insert [of "tp_pcs p" t c] by (auto simp: q)
  moreover have "EvSubmit d \<in> set (tp_log p)" if "d < length (tp_batches p)" "epa_at_batch_all_finished (tp_batches p' ! d)" for d
    using that fin [of d] carried_submitted [OF C t r(1)] calm_okD(8) [OF C that(1)] by (cases "d = b") auto
  moreover have "unat (ab_count (tp_batches p' ! d)) \<le> 2 ^ 31" if "d < length (tp_batches p)" for d
    using that calm_okD(9) [OF C that] x(1) b by (cases "d = b") (auto simp: q)
  ultimately show ?thesis
    using calm_okD(2-5) [OF C] p' e qu pend th by (auto simp: calm_ok_def q l)
qed

text \<open>A step of a thread that carries nothing, before and after.\<close>

lemma calm_idle:
  assumes C: "calm_ok p" and p': "pool_ok p'" and t: "t < length (tp_pcs p)"
    and q: "tp_queue p' = tp_queue p" "tp_stop p' = tp_stop p" "tp_pcs p' = (tp_pcs p)[t := c]" "tp_batches p' = tp_batches p" "tp_log p' = tp_log p"
    and r: "\<And>d. \<not> carries d (tp_pcs p ! t)" "\<And>d. \<not> carries d c"
    and w: "c = P_Waiting \<Longrightarrow> cq_list (tp_queue p) = []" and cc: "c \<noteq> P_Exit"
  shows "calm_ok p'"
proof -
  have e: "entries p' d = entries p d" for d using r t q by (simp add: entries_def cnt_upd_same)
  have "pending p' = pending p" by (simp add: pending_def q)
  moreover have "cq_list (tp_queue p') = [] \<or> P_Waiting \<notin> set (tp_pcs p')"
    using calm_okD(10) [OF C] w set_update_subset_insert [of "tp_pcs p" t c] by (auto simp: q)
  moreover have "calm_pc (tp_batches p') c" using r(2) cc by (cases c) auto
  then have "calm_pc (tp_batches p') (tp_pcs p' ! u)" if "u < length (tp_pcs p)" for u
    using calm_okD(11) [OF C that] that by (cases "u = t") (auto simp: q)
  ultimately show ?thesis using C p' e by (auto simp: calm_ok_def q)
qed

text \<open>Popping a batch, and the wait.\<close>

lemma calm_take:
  assumes C: "calm_ok p" and t: "t < length (tp_pcs p)" "tp_pcs p ! t = P_Top \<or> tp_pcs p ! t = P_Woken"
  shows "calm_ok (tp_take t p)"
proof -
  have ok: "pool_ok (tp_take t p)" using t calm_okD(1) [OF C] by (auto intro!: take_ok simp: same_role_def)
  have nc: "\<not> carries d (tp_pcs p ! t)" for d using t(2) by auto
  from calm_okD(1) [OF C] show ?thesis
  proof (cases rule: take_cases [where t = t])
    case 1
    with calm_okD(2) [OF C] show ?thesis by simp
  next
    case 2
    show ?thesis by (rule calm_idle [OF C ok t(1)]) (use 2 nc in \<open>auto simp: tp_goto_def\<close>)
  next
    case (3 b q)
    have e: "entries (tp_take t p) d = entries p d" for d by (rule entries_take [OF calm_okD(1) [OF C] t(1) nc])
    have f: "tp_batches (tp_take t p) = tp_batches p" "tp_stop (tp_take t p) = tp_stop p" "tp_queue (tp_take t p) = q"
      "tp_pcs (tp_take t p) = (tp_pcs p)[t := P_Popped b]"
      by (simp_all add: 3(3) tp_goto_def)
    have pend: "pending (tp_take t p) = pending p" by (simp add: pending_def f)
    have "b \<in> pending p" using calm_okD(6) [OF C] 3(2) by simp
    then have "calm_pc (tp_batches p) (P_Popped b)" by (simp add: pending_def)
    then have "calm_pc (tp_batches p) (tp_pcs (tp_take t p) ! u)" if "u < length (tp_pcs p)" for u
      using calm_okD(11) [OF C that] that by (cases "u = t") (auto simp: f)
    moreover have "P_Waiting \<notin> set (tp_pcs (tp_take t p))"
      using calm_okD(10) [OF C] 3(2) set_update_subset_insert [of "tp_pcs p" t "P_Popped b"] by (auto simp: f)
    ultimately show ?thesis
      using C ok e 3(2) by (auto simp: calm_ok_def f pend)
  qed
qed

section \<open>The scan finds a block\<close>

text \<open>A batch that one thread carries, with no block in its hands and none left to do, is finished.\<close>

lemma all_ended_finished:
  assumes B: "batch_ok pcs b x" and e: "\<And>i. i < length (ab_state x) \<Longrightarrow> ab_state x ! i \<in> {EPA_AT_BLOCK_DONE, EPA_AT_BLOCK_FAULT}"
    and c: "\<And>ok. cnt (counting ok b) pcs = 0"
  shows "epa_at_batch_all_finished x"
proof -
  have "cnt ((=) EPA_AT_BLOCK_DONE) xs + cnt ((=) EPA_AT_BLOCK_FAULT) xs = length xs"
    if "set xs \<subseteq> {EPA_AT_BLOCK_DONE, EPA_AT_BLOCK_FAULT}" for xs
    using that by (induction xs) (auto simp: cnt_def)
  moreover have "set (ab_state x) \<subseteq> {EPA_AT_BLOCK_DONE, EPA_AT_BLOCK_FAULT}" using e by (metis in_set_conv_nth subsetI)
  ultimately show ?thesis using B c by (auto simp: finished_iff [OF B] batch_ok_def)
qed

lemma holding_carries: "holding b i d \<Longrightarrow> carries b d" and counting_carries: "counting ok b d \<Longrightarrow> carries b d"
  by (cases d; simp)+

lemma scan_not_exhausted:
  assumes C: "calm_ok p" and t: "t < length (tp_pcs p)" "tp_pcs p ! t = P_Probe b s k"
  shows "k < ab_count (tp_batches p ! b)"
proof (rule ccontr)
  let ?x = "tp_batches p ! b"
  assume "\<not> k < ab_count ?x"
  moreover have pr: "probed ?x s k" and nf: "\<not> epa_at_batch_all_finished ?x" using calm_okD(11) [OF C t(1)] t(2) by simp_all
  ultimately have k: "k = ab_count ?x" by (simp add: probed_def)
  have b: "b < length (tp_batches p)" using pool_okD(6) [OF calm_okD(1) [OF C] t(1)] t(2) by simp
  note B = pool_okD(5) [OF calm_okD(1) [OF C] b]
  let ?n = "unat (ab_count ?x)"
  have n: "0 < ?n" "length (ab_state ?x) = ?n" using B by (simp_all add: batch_ok_def)
  have only: "\<not> carries b (tp_pcs p ! u)" if "u < length (tp_pcs p)" "u \<noteq> t" for u
    using one_carrier [OF C t(1) _ that(1)] that(2) t(2) by auto
  have none: "cnt P (tp_pcs p) = 0" if "\<And>d. P d \<Longrightarrow> carries b d" "\<not> P (P_Probe b s k)" for P
    using that only t(2) unfolding cnt_zero by metis
  have "ab_state ?x ! i \<in> {EPA_AT_BLOCK_DONE, EPA_AT_BLOCK_FAULT}" if i: "i < length (ab_state ?x)" for i
  proof -
    have s: "unat s < ?n" using pr by (simp add: probed_def word_less_nat_alt)
    define j where "j = (i + ?n - unat s) mod ?n"
    have "(unat s + j) mod ?n = (unat s + (i + ?n - unat s)) mod ?n" by (simp add: j_def mod_add_right_eq)
    also have "\<dots> = i" using s i n by simp
    finally have "(unat s + j) mod ?n = i" .
    moreover have "j < ?n" using n by (simp add: j_def)
    ultimately have "ab_state ?x ! i \<noteq> EPA_AT_BLOCK_TODO" using pr k by (auto simp: probed_def)
    moreover have "blk (tp_batches p) b i \<noteq> EPA_AT_BLOCK_INFLIGHT"
      using pool_okD(4) [OF calm_okD(1) [OF C]] none [of "holding b i"] by (auto simp: blocks_ok_def dest: holding_carries)
    ultimately show ?thesis using i b by (cases "ab_state ?x ! i") (auto simp: blk_def)
  qed
  moreover have "cnt (counting ok b) (tp_pcs p) = 0" for ok by (rule none) (auto dest: counting_carries)
  ultimately show False using all_ended_finished [OF B] nf by blast
qed

lemma probed_next:
  assumes "probed x s k" and "k < ab_count x" and "unat (ab_count x) \<le> 2 ^ 31"
    and "ab_state x ! unat ((s + k) mod ab_count x) \<noteq> EPA_AT_BLOCK_TODO"
  shows "probed x s (k + 1)"
proof -
  have lt: "unat s < unat (ab_count x)" "unat k < unat (ab_count x)" using assms by (simp_all add: probed_def word_less_nat_alt)
  then have u: "unat (s + k) = unat s + unat k" "unat (k + 1) = unat k + 1"
    using assms(3) by (simp_all add: unat_word_ariths)
  have "unat ((s + k) mod ab_count x) = (unat s + unat k) mod unat (ab_count x)" by (simp add: unat_mod_distrib u)
  then show ?thesis using assms lt by (auto simp: probed_def u less_Suc_eq word_le_nat_alt)
qed

section \<open>Every step of a calm run keeps the invariant\<close>

lemmas pool_ops = claim_cursor_def claim_own_def exec_block_def complete_store_def complete_count_def complete_release_def Let_def
  tp_goto_def tp_upd_def tp_emit_def

lemma count_keeps_finished:
  assumes p: "pool_ok p" and t: "t < length (tp_pcs p)" "tp_pcs p ! t = P_Count b i ok"
  shows "\<not> epa_at_batch_all_finished (tp_batches p ! b)"
proof
  assume f: "epa_at_batch_all_finished (tp_batches p ! b)"
  have b: "b < length (tp_batches p)" using pool_okD(6) [OF p t(1)] t(2) by simp
  have B: "batch_ok (tp_pcs p) b (tp_batches p ! b)" using pool_okD(5) [OF p b] .
  have "0 < length (ab_state (tp_batches p ! b))" using B by (simp add: batch_ok_def)
  then have "cnt (counting ok b) (tp_pcs p) = 0" by (rule finished_blocks(2) [OF B f])
  then show False using cnt_pos [of t "tp_pcs p" "counting ok b"] t by simp
qed

lemma calm_requeue:
  assumes C: "calm_ok p" and ok: "pool_ok (requeue t b p)" and t: "t < length (tp_pcs p)" "tp_pcs p ! t = P_Requeue b"
  shows "calm_ok (requeue t b p)"
proof -
  let ?f = "\<lambda>c. if c = P_Waiting then P_Woken else c"
  let ?pcs = "(map ?f (tp_pcs p))[t := P_Top]"
  note p = calm_okD(1) [OF C]
  have b: "b < length (tp_batches p)" using pool_okD(6) [OF p t(1)] t(2) by simp
  have cb: "carries b (tp_pcs p ! t)" using t by simp
  have nq: "b \<notin> set (cq_list (tp_queue p))" by (rule carried_not_queued [OF C t(1) cb])
  have sb: "EvSubmit b \<in> set (tp_log p)" by (rule carried_submitted [OF C t(1) cb])
  have pcs: "tp_pcs (requeue t b p) = ?pcs" "tp_batches (requeue t b p) = tp_batches p" "tp_stop (requeue t b p) = tp_stop p"
    by (simp_all add: requeue_def tp_goto_def tp_broadcast_def tp_ring_push_def Let_def split: option.split)
  have pend: "pending (requeue t b p) = pending p" by (simp add: pending_def pcs)
  have cn: "cnt (carries d) ?pcs + of_bool (d = b) = cnt (carries d) (tp_pcs p)" for d
    using entries_goto_broadcast [OF t(1), of P_Top d] t by (auto simp: entries_def tp_goto_def tp_broadcast_def)
  have q: "cq_list (tp_queue (requeue t b p)) = cq_list (tp_queue p) @ (if epa_at_batch_all_finished (tp_batches p ! b) then [] else [b])"
  proof (cases "epa_at_batch_all_finished (tp_batches p ! b)")
    case True
    then show ?thesis by (simp add: requeue_def tp_goto_def tp_broadcast_def)
  next
    case False
    then have "insert b (pending p) = pending p" using b sb by (auto simp: pending_def)
    then have room: "length (cq_list (tp_queue p)) < 256" using queue_room [OF C nq] calm_okD(7) [OF C] by simp
    from p show ?thesis
    proof (cases rule: push_cases [where b = b])
      case (1 q)
      with False show ?thesis by (simp add: requeue_def Let_def tp_goto_def tp_broadcast_def)
    qed (use room in simp)
  qed
  have e: "entries (requeue t b p) d = (if d = b \<and> epa_at_batch_all_finished (tp_batches p ! b) then 0 else entries p d)" for d
    using cn [of d] nq calm_okD(3) [OF C, of b] by (auto simp: entries_def q pcs of_bool_def count_list_0_iff split: if_splits)
  have th: "calm_pc (tp_batches p) (?pcs ! u)" if "u < length (tp_pcs p)" for u
    using calm_okD(11) [OF C that] that t(1) by (cases "u = t") auto
  have "set ?pcs \<subseteq> insert P_Top (set (map ?f (tp_pcs p)))" by (rule set_update_subset_insert)
  then have nw: "P_Waiting \<notin> set ?pcs" by (auto split: if_splits)
  have "set (cq_list (tp_queue (requeue t b p))) \<subseteq> pending p"
    using calm_okD(6) [OF C] b sb by (auto simp: q pending_def)
  then show ?thesis
    unfolding calm_ok_def pend pcs
    using ok calm_okD(2-5,7-9) [OF C] th nw by (auto simp: e) (auto simp: pending_def)
qed

lemma calm_waiting [simp]: "calm_ok (p\<lparr>tp_waiting := w\<rparr>) = calm_ok p"
  by (simp add: calm_ok_def pending_def)

lemma not_finished_less:
  assumes B: "batch_ok pcs b x" and "\<not> epa_at_batch_all_finished x"
  shows "ab_done x < ab_count x" and "ab_count x \<noteq> 0"
  using counters_le [OF B] assms(2) B unfolding finished_iff [OF B] by (auto simp: word_less_nat_alt batch_ok_def unat_gt_0)

text \<open>What a thread does in a calm pool.\<close>

lemma calm_claim_load:
  assumes C: "calm_ok p" and t: "t < length (tp_pcs p)" "tp_pcs p ! t = P_Claim b"
  shows "claim_load t b p = tp_goto t (P_Cursor b) p"
proof -
  have b: "b < length (tp_batches p)" using pool_okD(6) [OF calm_okD(1) [OF C] t(1)] t(2) by simp
  have "\<not> epa_at_batch_all_finished (tp_batches p ! b)" using calm_okD(11) [OF C t(1)] t(2) by simp
  from not_finished_less [OF pool_okD(5) [OF calm_okD(1) [OF C] b] this] show ?thesis by (simp add: claim_load_def Let_def)
qed

lemma calm_probe:
  assumes C: "calm_ok p" and t: "t < length (tp_pcs p)" "tp_pcs p ! t = P_Probe b s k"
  shows "calm_ok (claim_probe t b s k p)"
proof -
  note p = calm_okD(1) [OF C]
  let ?x = "tp_batches p ! b"
  let ?i = "unat ((s + k) mod ab_count ?x)"
  have b: "b < length (tp_batches p)" using pool_okD(6) [OF p t(1)] t(2) by simp
  have k: "\<not> k \<ge> ab_count ?x" "k < ab_count ?x" using scan_not_exhausted [OF C t] by simp_all
  have ok: "pool_ok (claim_probe t b s k p)" by (rule claim_probe_ok [OF p t])
  have pr: "probed ?x s k" "\<not> epa_at_batch_all_finished ?x" using calm_okD(11) [OF C t(1)] t(2) by simp_all
  show ?thesis
  proof (cases "ab_state ?x ! ?i = EPA_AT_BLOCK_TODO")
    case True
    then have e: "claim_probe t b s k p = tp_goto t (P_Own b ?i) (tp_upd b (\<lambda>x. x\<lparr>ab_state := (ab_state x)[?i := EPA_AT_BLOCK_INFLIGHT]\<rparr>) p)"
      using k by (simp add: claim_probe_def Let_def)
    show ?thesis
      by (rule calm_step [OF C ok t(1) b, where c = "P_Own b ?i" and x = "?x\<lparr>ab_state := (ab_state ?x)[?i := EPA_AT_BLOCK_INFLIGHT]\<rparr>"])
        (use t in \<open>simp_all add: e tp_goto_def tp_upd_def epa_at_batch_all_finished_def\<close>)
  next
    case False
    then have e: "claim_probe t b s k p = tp_goto t (P_Probe b s (k + 1)) p"
      using k by (simp add: claim_probe_def Let_def)
    show ?thesis
      by (rule calm_step [OF C ok t(1) b, where c = "P_Probe b s (k + 1)" and x = ?x])
        (use t pr probed_next [OF pr(1) k(2) calm_okD(9) [OF C b] False] in \<open>simp_all add: e tp_goto_def\<close>)
  qed
qed

lemma calm_batch_goto:
  assumes C: "calm_ok p" and ok: "pool_ok (tp_goto t c p)" and t: "t < length (tp_pcs p)" and b: "b < length (tp_batches p)"
    and r: "carries b (tp_pcs p ! t)" "\<And>d. carries d (tp_pcs p ! t) = carries d c" and w: "c \<noteq> P_Waiting" and cc: "calm_pc (tp_batches p) c"
  shows "calm_ok (tp_goto t c p)"
  by (rule calm_step [OF C ok t b, where c = c and x = "tp_batches p ! b"]) (use r w cc in \<open>simp_all add: tp_goto_def\<close>)

lemma calm_thread_step:
  assumes C: "calm_ok p" and t: "t < length (tp_pcs p)" and s: "tp_thread_step a t p = Some p'"
  shows "calm_ok p'"
proof -
  note p = calm_okD(1) [OF C]
  have ok: "pool_ok p'" by (rule thread_step_ok [OF p t s])
  note th = pool_okD(6) [OF p t] and cp = calm_okD(11) [OF C t] and sub = submissions_step(1) [OF s]
  show ?thesis
  proof (cases "tp_pcs p ! t")
    case P_Start
    obtain r vm where i: "epa_vm_init_with_lbytes (an_stack a) (an_alloc a) (8 * 1024) = (r, vm)" by fastforce
    show ?thesis
      by (rule calm_idle [OF C ok t, where c = "if r then P_Top else P_Dead"])
        (use s P_Start i in \<open>auto simp: tp_thread_step_def thread_start_def tp_goto_def split: if_splits\<close>)
  next
    case P_Top
    with s calm_take [OF C t] show ?thesis by (simp add: tp_thread_step_def)
  next
    case P_Woken
    with s calm_take [of "p\<lparr>tp_waiting := tp_waiting p - 1\<rparr>" t] C t show ?thesis by (simp add: tp_thread_step_def)
  next
    case (P_Popped b)
    with s cp have "p' = tp_goto t (P_Claim b) p" by (simp add: tp_thread_step_def)
    with calm_batch_goto [OF C _ t, of "P_Claim b" b] ok P_Popped cp th show ?thesis by simp
  next
    case (P_Claim b)
    with s calm_claim_load [OF C t P_Claim] have "p' = tp_goto t (P_Cursor b) p" by (simp add: tp_thread_step_def)
    with calm_batch_goto [OF C _ t, of "P_Cursor b" b] ok P_Claim cp th show ?thesis by simp
  next
    case (P_Cursor b)
    let ?x = "tp_batches p ! b"
    have b: "b < length (tp_batches p)" using th P_Cursor by simp
    have n: "ab_count ?x \<noteq> 0" using not_finished_less(2) [OF pool_okD(5) [OF p b]] cp P_Cursor by simp
    have m: "ab_cursor ?x mod ab_count ?x < ab_count ?x" using n by (simp add: word_mod_less_divisor word_gt_0)
    have e: "p' = claim_cursor t b p" using s P_Cursor by (simp add: tp_thread_step_def)
    show ?thesis
      by (rule calm_step [OF C ok t b, where c = "P_Probe b (ab_cursor ?x mod ab_count ?x) 0" and x = "?x\<lparr>ab_cursor := ab_cursor ?x + 1\<rparr>"])
        (use P_Cursor b cp m in \<open>simp_all add: e pool_ops epa_at_batch_all_finished_def probed_def\<close>)
  next
    case (P_Probe b x k)
    with s calm_probe [OF C t P_Probe] show ?thesis by (simp add: tp_thread_step_def)
  next
    case (P_Own b i)
    let ?x = "tp_batches p ! b"
    have e: "p' = claim_own a t b i p" using s P_Own by (simp add: tp_thread_step_def)
    show ?thesis
      by (rule calm_step [OF C ok t, where b = b and c = "P_Exec b i" and x = "?x\<lparr>ab_owner := (ab_owner ?x)[i := int t]\<rparr>"])
        (use P_Own th in \<open>simp_all add: e pool_ops epa_at_batch_all_finished_def\<close>)
  next
    case (P_Exec b i)
    have e: "p' = exec_block a t b i p" using s P_Exec by (simp add: tp_thread_step_def)
    show ?thesis
      by (rule calm_step [OF C ok t, where b = b and c = "P_Complete b i (an_ok a)" and x = "tp_batches p ! b"])
        (use P_Exec th sub in \<open>simp_all add: e pool_ops\<close>)
  next
    case (P_Complete b i r)
    with s complete_check_eq [OF p t P_Complete] have "p' = tp_goto t (P_Store b i r) p" by (simp add: tp_thread_step_def)
    with calm_batch_goto [OF C _ t, of "P_Store b i r" b] ok P_Complete th show ?thesis by simp
  next
    case (P_Store b i r)
    let ?x = "tp_batches p ! b"
    have e: "p' = complete_store t b i r p" using s P_Store by (simp add: tp_thread_step_def)
    show ?thesis
      by (rule calm_step [OF C ok t, where b = b and c = "P_Count b i r"
            and x = "?x\<lparr>ab_state := (ab_state ?x)[i := if r then EPA_AT_BLOCK_DONE else EPA_AT_BLOCK_FAULT]\<rparr>"])
        (use P_Store th in \<open>simp_all add: e pool_ops epa_at_batch_all_finished_def\<close>)
  next
    case (P_Count b i r)
    let ?x = "tp_batches p ! b"
    have e: "p' = complete_count t b i r p" using s P_Count by (simp add: tp_thread_step_def)
    show ?thesis
      by (rule calm_step [OF C ok t, where b = b and c = "P_Release b i"
            and x = "if r then ?x\<lparr>ab_done := ab_done ?x + 1\<rparr> else ?x\<lparr>ab_fault := ab_fault ?x + 1\<rparr>"])
        (use P_Count th count_keeps_finished [OF p t P_Count] in \<open>simp_all add: e pool_ops\<close>)
  next
    case (P_Release b i)
    let ?x = "tp_batches p ! b"
    have e: "p' = complete_release t b i p" using s P_Release by (simp add: tp_thread_step_def)
    show ?thesis
      by (rule calm_step [OF C ok t, where b = b and c = "P_Done b" and x = "?x\<lparr>ab_owner := (ab_owner ?x)[i := - 1]\<rparr>"])
        (use P_Release th in \<open>simp_all add: e pool_ops epa_at_batch_all_finished_def\<close>)
  next
    case (P_Done b)
    have e: "p' = block_done t b p" using s P_Done by (simp add: tp_thread_step_def)
    show ?thesis
      by (rule calm_step [OF C ok t, where b = b and c = "P_Requeue b" and x = "tp_batches p ! b"])
        (use P_Done th sub in \<open>simp_all add: e block_done_def pool_ops\<close>)
  next
    case (P_Requeue b)
    with s ok calm_requeue [OF C _ t P_Requeue] show ?thesis by (simp add: tp_thread_step_def)
  qed (use s cp in \<open>simp_all add: tp_thread_step_def\<close>)
qed

text \<open>The host's steps.\<close>

lemma broadcast_simps [simp]: "tp_queue (tp_broadcast p) = tp_queue p" "tp_batches (tp_broadcast p) = tp_batches p"
  "tp_stop (tp_broadcast p) = tp_stop p" "length (tp_pcs (tp_broadcast p)) = length (tp_pcs p)"
  by (simp_all add: tp_broadcast_def)

lemma emit_simps [simp]: "tp_queue (tp_emit e p) = tp_queue p" "tp_batches (tp_emit e p) = tp_batches p" "tp_stop (tp_emit e p) = tp_stop p"
  by (simp_all add: tp_emit_def)

lemma broadcast_no_wait: "P_Waiting \<notin> set (tp_pcs (tp_broadcast p))"
  by (auto simp: tp_broadcast_def split: if_splits)

lemma calm_pc_broadcast: "t < length (tp_pcs p) \<Longrightarrow> calm_pc bs (tp_pcs p ! t) \<Longrightarrow> calm_pc bs (tp_pcs (tp_broadcast p) ! t)"
  by (auto simp: tp_broadcast_def)

lemma calm_broadcast: "calm_ok p \<Longrightarrow> calm_ok (tp_broadcast p)"
  using broadcast_no_wait [of p] by (simp add: calm_ok_def broadcast_ok pending_def calm_pc_broadcast)

lemma calm_submit_ok:
  assumes C: "calm_ok p" and b: "b < length (tp_batches p)" "EvSubmit b \<notin> set (tp_log p)" and le: "card (pending p) < 256"
  shows "calm_ok (snd (epa_thread_pool_submit_batch b p))"
proof -
  note p = calm_okD(1) [OF C]
  have z: "entries p b = 0" using calm_okD(3) [OF C, of b] b(2) by simp
  have nf: "\<not> epa_at_batch_all_finished (tp_batches p ! b)" using calm_okD(8) [OF C b(1)] b(2) by blast
  have nq: "b \<notin> set (cq_list (tp_queue p))" using z by (simp add: entries_def count_list_0_iff)
  have "card (insert b (pending p)) \<le> 256" using le by (simp add: card_insert_if)
  then have room: "length (cq_list (tp_queue p)) < 256" by (rule queue_room [OF C nq])
  have ok: "pool_ok (snd (epa_thread_pool_submit_batch b p))" by (rule submit_ok [OF p b(1)])
  from p show ?thesis
  proof (cases rule: submit_cases [where b = b])
    case (1 q)
    let ?p = "tp_broadcast (tp_emit (EvSubmit b) (p\<lparr>tp_queue := q\<rparr>))"
    have e0: "entries (p\<lparr>tp_queue := q\<rparr>) d = entries p d + of_bool (d = b)" for d using 1(2) by (auto simp: entries_def)
    have f: "tp_queue ?p = q" "tp_batches ?p = tp_batches p" "tp_stop ?p = tp_stop p" "tp_log ?p = tp_log p @ [EvSubmit b]"
      "length (tp_pcs ?p) = length (tp_pcs p)"
      by (simp_all add: tp_emit_def)
    have pend: "pending ?p = insert b (pending p)" using b nf by (auto simp: pending_def f)
    have "b \<notin> pending p" using b(2) by (simp add: pending_def)
    then have cp: "card (pending ?p) \<le> 256" using le by (simp add: pend)
    have th: "calm_pc (tp_batches p) (tp_pcs ?p ! t)" if "t < length (tp_pcs p)" for t
      using calm_okD(11) [OF C that] that by (auto simp: tp_emit_def tp_broadcast_def)
    have "entries p d \<le> of_bool (EvSubmit d \<in> set (tp_log p))" for d by (rule calm_okD(3) [OF C])
    then have le1: "entries ?p d \<le> of_bool (EvSubmit d \<in> set (tp_log ?p))" for d
      using z by (cases "d = b") (auto simp: e0)
    have "calm_ok ?p"
      unfolding calm_ok_def f pend
      using ok[unfolded 1(3)] calm_okD(2,4-6,8,9) [OF C] b le1 cp th broadcast_no_wait [of "tp_emit (EvSubmit b) (p\<lparr>tp_queue := q\<rparr>)"] z 1(2)
      by (auto simp: e0 f pend)
    then show ?thesis by (simp add: 1(3))
  qed (use room in simp)
qed

lemma calm_create_ok:
  assumes C: "calm_ok p" and c: "epa_at_batch_create ok n fin = Some x" and n: "n \<le> 2 ^ 31"
  shows "calm_ok (p\<lparr>tp_batches := tp_batches p @ [x]\<rparr>)"
proof -
  let ?p = "p\<lparr>tp_batches := tp_batches p @ [x]\<rparr>"
  note p = calm_okD(1) [OF C]
  have x: "\<not> epa_at_batch_all_finished x" "ab_count x = n"
    using c by (auto simp: epa_at_batch_create_def epa_at_batch_all_finished_def split: if_splits)
  have un: "unat n \<le> 2 ^ 31" using n by (simp add: word_le_nat_alt)
  have ns: "EvSubmit (length (tp_batches p)) \<notin> set (tp_log p)" using calm_okD(4) [OF C, of "length (tp_batches p)"] by auto
  have pend: "pending ?p = pending p" using ns by (auto simp: pending_def nth_append less_Suc_eq)
  have th: "calm_pc (tp_batches p @ [x]) (tp_pcs p ! t)" if "t < length (tp_pcs p)" for t
    using calm_okD(11) [OF C that] pool_okD(6) [OF p that] by (cases "tp_pcs p ! t") (auto simp: nth_append)
  show ?thesis
    unfolding calm_ok_def pend
    using batch_create_ok [OF p c] calm_okD(2-10) [OF C] x un th by (auto simp: nth_append less_Suc_eq)
qed

lemma tp_calm_ok: "tp_calm p \<Longrightarrow> calm_ok p"
proof (induction rule: tp_calm.induct)
  case (calm_init ok n p)
  have "cq_list (tp_queue p) = []" "tp_pcs p = replicate n P_Start" "tp_batches p = []" "tp_log p = []" "\<not> tp_stop p"
    using calm_init cq_zero_inv [of 256 "0 :: nat"] by (auto simp: epa_thread_pool_init_def split: if_splits)
  then show ?case using init_ok [OF calm_init] by (simp add: calm_ok_def pending_def entries_def cnt_def)
next
  case (calm_spurious p t)
  have "pool_ok (tp_goto t P_Woken p)" using calm_spurious calm_okD(1) by (intro goto_ok) (auto simp: same_role_def)
  from calm_idle [OF _ this calm_spurious(2), of P_Woken] calm_spurious show ?case by (simp add: tp_goto_def)
qed (auto intro: calm_thread_step calm_create_ok calm_submit_ok simp: epa_thread_pool_wake_def calm_broadcast)

section \<open>Progress\<close>

text \<open>What a thread, an entry of the queue and a block left to do can still cost; \<open>m\<close> bounds the number of blocks
  of a batch, \<open>n\<close> is the number of threads.\<close>

fun pc_weight :: "nat \<Rightarrow> nat \<Rightarrow> tp_pc \<Rightarrow> nat" where
  "pc_weight m n P_Start = 2" | "pc_weight m n P_Top = 1" | "pc_weight m n P_Woken = 1"
| "pc_weight m n (P_Popped b) = m + 5" | "pc_weight m n (P_Claim b) = m + 4" | "pc_weight m n (P_Cursor b) = m + 3"
| "pc_weight m n (P_Probe b s k) = m + 2 - unat k"
| "pc_weight m n (P_Own b i) = m + n + 14" | "pc_weight m n (P_Exec b i) = m + n + 13" | "pc_weight m n (P_Complete b i r) = m + n + 12"
| "pc_weight m n (P_Store b i r) = m + n + 11" | "pc_weight m n (P_Count b i r) = m + n + 10" | "pc_weight m n (P_Release b i) = m + n + 9"
| "pc_weight m n (P_Done b) = m + n + 8" | "pc_weight m n (P_Requeue b) = m + n + 7"
| "pc_weight m n pc = 0"

definition todo_blocks :: "tp_pool \<Rightarrow> nat" where
  "todo_blocks p = sum_list (map (\<lambda>x. cnt ((=) EPA_AT_BLOCK_TODO) (ab_state x)) (tp_batches p))"

definition max_blocks :: "tp_pool \<Rightarrow> nat" where
  "max_blocks p = sum_list (map (\<lambda>x. unat (ab_count x)) (tp_batches p))"

definition weigh :: "nat \<Rightarrow> nat \<Rightarrow> tp_pool \<Rightarrow> nat" where
  "weigh m n p = sum_list (map (pc_weight m n) (tp_pcs p)) + (m + 5) * length (cq_list (tp_queue p)) + (m + n + 14) * todo_blocks p"

definition pool_weight :: "tp_pool \<Rightarrow> nat" where
  "pool_weight p = weigh (max_blocks p) (length (tp_pcs p)) p"

lemma sum_list_map_upd: "t < length xs \<Longrightarrow> sum_list (map f (xs[t := c])) + f (xs ! t) = sum_list (map f xs) + (f c :: nat)"
proof (induction xs arbitrary: t)
  case (Cons x xs)
  then show ?case by (cases t) auto
qed simp

lemma weigh_fields [simp]: "weigh m n (p\<lparr>tp_waiting := w\<rparr>) = weigh m n p" "weigh m n (p\<lparr>tp_vtid := v\<rparr>) = weigh m n p"
  "weigh m n (p\<lparr>tp_vms := vs\<rparr>) = weigh m n p" "weigh m n (p\<lparr>tp_log := l\<rparr>) = weigh m n p" "weigh m n (tp_emit e p) = weigh m n p"
  by (simp_all add: weigh_def todo_blocks_def tp_emit_def)

lemma weigh_goto: "t < length (tp_pcs p) \<Longrightarrow> weigh m n (tp_goto t c p) + pc_weight m n (tp_pcs p ! t) = weigh m n p + pc_weight m n c"
  using sum_list_map_upd [of t "tp_pcs p" "pc_weight m n" c] by (simp add: weigh_def tp_goto_def todo_blocks_def)

lemma weigh_less: "t < length (tp_pcs p) \<Longrightarrow> pc_weight m n c < pc_weight m n (tp_pcs p ! t) \<Longrightarrow> weigh m n (tp_goto t c p) < weigh m n p"
  using weigh_goto [of t p m n c] by simp

lemma todo_upd:
  assumes "b < length (tp_batches p)"
  shows "todo_blocks (tp_upd b f p) + cnt ((=) EPA_AT_BLOCK_TODO) (ab_state (tp_batches p ! b))
    = todo_blocks p + cnt ((=) EPA_AT_BLOCK_TODO) (ab_state (f (tp_batches p ! b)))"
  using sum_list_map_upd [OF assms, of "\<lambda>x. cnt ((=) EPA_AT_BLOCK_TODO) (ab_state x)" "f (tp_batches p ! b)"]
  by (simp add: todo_blocks_def tp_upd_def)

lemma weigh_upd:
  assumes "b < length (tp_batches p)"
    and "cnt ((=) EPA_AT_BLOCK_TODO) (ab_state (f (tp_batches p ! b))) = cnt ((=) EPA_AT_BLOCK_TODO) (ab_state (tp_batches p ! b))"
  shows "weigh m n (tp_upd b f p) = weigh m n p"
  using todo_upd [OF assms(1), of f] assms(2) by (simp add: weigh_def) (simp add: tp_upd_def)

lemma weigh_broadcast: "weigh m n (tp_broadcast p) \<le> weigh m n p + length (tp_pcs p)"
proof -
  have "sum_list (map (pc_weight m n \<circ> (\<lambda>c. if c = P_Waiting then P_Woken else c)) cs) \<le> sum_list (map (pc_weight m n) cs) + length cs" for cs
    by (induction cs) auto
  from this [of "tp_pcs p"] show ?thesis by (simp add: weigh_def tp_broadcast_def todo_blocks_def)
qed

lemma weigh_take:
  assumes p: "pool_ok p" and t: "t < length (tp_pcs p)" "tp_pcs p ! t = P_Top \<or> tp_pcs p ! t = P_Woken" and s: "\<not> tp_stop p"
  shows "weigh m n (tp_take t p) < weigh m n p"
  using p
proof (cases rule: take_cases [where t = t])
  case 2
  have "weigh m n (tp_goto t P_Waiting (p\<lparr>tp_waiting := tp_waiting p + 1\<rparr>)) < weigh m n (p\<lparr>tp_waiting := tp_waiting p + 1\<rparr>)"
    using t by (intro weigh_less) auto
  with 2 show ?thesis by simp
next
  case (3 b q)
  have "weigh m n p = weigh m n (p\<lparr>tp_queue := q\<rparr>) + (m + 5)" using 3(2) by (simp add: weigh_def todo_blocks_def)
  moreover have "weigh m n (tp_goto t (P_Popped b) (p\<lparr>tp_queue := q\<rparr>)) + 1 = weigh m n (p\<lparr>tp_queue := q\<rparr>) + (m + 5)"
    using weigh_goto [of t "p\<lparr>tp_queue := q\<rparr>" m n "P_Popped b"] t by auto
  ultimately show ?thesis using 3 by simp
qed (use s in simp)

lemma weigh_requeue:
  assumes p: "pool_ok p" and t: "t < length (tp_pcs p)" "tp_pcs p ! t = P_Requeue b" and n: "length (tp_pcs p) = n"
  shows "weigh m n (requeue t b p) < weigh m n p"
proof -
  let ?q = "if epa_at_batch_all_finished (tp_batches p ! b) then p else snd (tp_ring_push b p)"
  have pcs: "tp_pcs ?q = tp_pcs p" by simp
  have "weigh m n (snd (tp_ring_push b p)) \<le> weigh m n p + (m + 5)"
    using p
  proof (cases rule: push_cases [where b = b])
    case (1 q)
    then show ?thesis by (simp add: weigh_def todo_blocks_def)
  qed simp
  then have "weigh m n ?q \<le> weigh m n p + (m + 5)" by simp
  moreover have "weigh m n (tp_broadcast ?q) \<le> weigh m n ?q + n" using weigh_broadcast [of m n ?q] pcs n by simp
  moreover have "tp_pcs (tp_broadcast ?q) ! t = P_Requeue b" "t < length (tp_pcs (tp_broadcast ?q))"
    unfolding tp_broadcast_def using pcs t by simp_all
  then have "weigh m n (tp_goto t P_Top (tp_broadcast ?q)) + (m + n + 7) = weigh m n (tp_broadcast ?q) + 1"
    using weigh_goto [of t "tp_broadcast ?q" m n P_Top] by simp
  ultimately show ?thesis by (simp add: requeue_def Let_def)
qed

lemma weigh_claim:
  assumes C: "calm_ok p" and t: "t < length (tp_pcs p)" "tp_pcs p ! t = P_Probe b s k"
    and m: "unat (ab_count (tp_batches p ! b)) \<le> m"
  shows "weigh m n (claim_probe t b s k p) < weigh m n p"
proof -
  note p = calm_okD(1) [OF C]
  let ?x = "tp_batches p ! b"
  let ?i = "unat ((s + k) mod ab_count ?x)"
  let ?f = "\<lambda>x. x\<lparr>ab_state := (ab_state x)[?i := EPA_AT_BLOCK_INFLIGHT]\<rparr>"
  have b: "b < length (tp_batches p)" using pool_okD(6) [OF p t(1)] t(2) by simp
  note B = pool_okD(5) [OF p b]
  have k: "k < ab_count ?x" by (rule scan_not_exhausted [OF C t])
  then have km: "unat k < unat (ab_count ?x)" "unat (k + 1) = unat k + 1"
    using unat_add_1 [of k "unat (ab_count ?x)" "ab_count ?x"] by (simp_all add: word_less_nat_alt)
  have i: "?i < length (ab_state ?x)" using B by (simp add: batch_ok_def unat_mod_distrib)
  show ?thesis
  proof (cases "ab_state ?x ! ?i = EPA_AT_BLOCK_TODO")
    case True
    have td: "todo_blocks p = todo_blocks (tp_upd b ?f p) + 1"
      using todo_upd [OF b, of ?f] cnt_upd_lose [OF i, of "(=) EPA_AT_BLOCK_TODO" EPA_AT_BLOCK_INFLIGHT] True by simp
    then have "weigh m n (tp_upd b ?f p) + (m + n + 14) = weigh m n p"
      by (simp add: weigh_def td) (simp add: tp_upd_def)
    moreover have "weigh m n (tp_goto t (P_Own b ?i) (tp_upd b ?f p)) + (m + 2 - unat k) = weigh m n (tp_upd b ?f p) + (m + n + 14)"
      using weigh_goto [of t "tp_upd b ?f p" m n "P_Own b ?i"] t by simp
    moreover have "0 < m + 2 - unat k" using km m by simp
    ultimately have "weigh m n (tp_goto t (P_Own b ?i) (tp_upd b ?f p)) < weigh m n p" by linarith
    moreover have "\<not> ab_count ?x \<le> k" using k by simp
    ultimately show ?thesis using True by (simp add: claim_probe_def Let_def)
  next
    case False
    have "weigh m n (tp_goto t (P_Probe b s (k + 1)) p) < weigh m n p"
      using t km m by (intro weigh_less) auto
    moreover have "\<not> ab_count ?x \<le> k" using k by simp
    ultimately show ?thesis using False by (simp add: claim_probe_def Let_def)
  qed
qed

lemma calm_step_weigh:
  assumes C: "calm_ok p" and t: "t < length (tp_pcs p)" and s: "tp_thread_step a t p = Some p'"
    and m: "\<And>b. b < length (tp_batches p) \<Longrightarrow> unat (ab_count (tp_batches p ! b)) \<le> m" and n: "length (tp_pcs p) = n"
  shows "weigh m n p' < weigh m n p"
proof -
  note p = calm_okD(1) [OF C]
  note th = pool_okD(6) [OF p t] and cp = calm_okD(11) [OF C t]
  have go: "weigh m n (tp_goto t c q) < weigh m n p"
    if "weigh m n q = weigh m n p" "tp_pcs q = tp_pcs p" "pc_weight m n c < pc_weight m n (tp_pcs p ! t)" for q c
    using weigh_less [of t q m n c] that t by simp
  show ?thesis
  proof (cases "tp_pcs p ! t")
    case P_Start
    with s show ?thesis
      by (auto simp: tp_thread_step_def thread_start_def split: prod.splits intro!: go)
  next
    case P_Top
    with s weigh_take [OF p t] calm_okD(2) [OF C] show ?thesis by (simp add: tp_thread_step_def)
  next
    case P_Woken
    have "pool_ok (p\<lparr>tp_waiting := tp_waiting p - 1\<rparr>)" using p by simp
    from weigh_take [OF this, of t m n] s P_Woken t calm_okD(2) [OF C] show ?thesis by (simp add: tp_thread_step_def)
  next
    case (P_Popped b)
    with s cp show ?thesis by (auto simp: tp_thread_step_def intro!: go)
  next
    case (P_Claim b)
    with s calm_claim_load [OF C t P_Claim] show ?thesis by (auto simp: tp_thread_step_def intro!: go)
  next
    case (P_Cursor b)
    with s th show ?thesis by (auto simp: tp_thread_step_def claim_cursor_def Let_def intro!: go weigh_upd)
  next
    case (P_Probe b x k)
    with s th weigh_claim [OF C t P_Probe m] show ?thesis by (simp add: tp_thread_step_def)
  next
    case (P_Own b i)
    with s th show ?thesis by (auto simp: tp_thread_step_def claim_own_def Let_def intro!: go weigh_upd)
  next
    case (P_Exec b i)
    with s th show ?thesis by (auto simp: tp_thread_step_def exec_block_def intro!: go)
  next
    case (P_Complete b i r)
    with s complete_check_eq [OF p t P_Complete] show ?thesis by (auto simp: tp_thread_step_def intro!: go)
  next
    case (P_Store b i r)
    have k: "blk (tp_batches p) b i = EPA_AT_BLOCK_INFLIGHT" using holding_inflight [OF pool_okD(4) [OF p] t] P_Store by simp
    have bi: "b < length (tp_batches p)" "i < length (ab_state (tp_batches p ! b))" using th P_Store by simp_all
    have "weigh m n (tp_upd b (\<lambda>x. x\<lparr>ab_state := (ab_state x)[i := if r then EPA_AT_BLOCK_DONE else EPA_AT_BLOCK_FAULT]\<rparr>) p) = weigh m n p"
      using k bi by (intro weigh_upd) (auto simp: blk_def cnt_upd_same)
    with s P_Store show ?thesis by (auto simp: tp_thread_step_def complete_store_def intro!: go)
  next
    case (P_Count b i r)
    with s th show ?thesis by (auto simp: tp_thread_step_def complete_count_def intro!: go weigh_upd)
  next
    case (P_Release b i)
    with s th show ?thesis by (auto simp: tp_thread_step_def complete_release_def intro!: go weigh_upd)
  next
    case (P_Done b)
    with s show ?thesis by (auto simp: tp_thread_step_def block_done_def Let_def intro!: go)
  next
    case (P_Requeue b)
    with s weigh_requeue [OF p t P_Requeue n] show ?thesis by (simp add: tp_thread_step_def)
  qed (use s cp in \<open>simp_all add: tp_thread_step_def\<close>)
qed

text \<open>The batches and their sizes stay.\<close>

definition sizes :: "tp_pool \<Rightarrow> u32 list" where
  "sizes p = map ab_count (tp_batches p)"

lemma sizes_upd: "(\<And>x. ab_count (f x) = ab_count x) \<Longrightarrow> sizes (tp_upd b f p) = sizes p"
  unfolding sizes_def tp_upd_def by (cases "b < length (tp_batches p)") (simp_all add: map_update list_update_same_conv list_update_beyond)

lemma sizes_fields [simp]: "sizes (tp_goto t c p) = sizes p" "sizes (tp_emit e p) = sizes p" "sizes (tp_broadcast p) = sizes p"
  "sizes (p\<lparr>tp_queue := q\<rparr>) = sizes p" "sizes (p\<lparr>tp_waiting := w\<rparr>) = sizes p" "sizes (p\<lparr>tp_vtid := v\<rparr>) = sizes p"
  "sizes (p\<lparr>tp_vms := vs\<rparr>) = sizes p" "sizes (snd (tp_ring_push d p)) = sizes p" "sizes (tp_take t p) = sizes p"
          apply (simp_all add: sizes_def tp_goto_def tp_emit_def)
   apply (simp add: tp_ring_push_def split: option.split)
  apply (simp add: tp_take_def tp_goto_def split: option.split prod.split)
  done

lemma threads_fields [simp]: "length (tp_pcs (tp_goto t c p)) = length (tp_pcs p)" "length (tp_pcs (tp_take t p)) = length (tp_pcs p)"
   apply (simp add: tp_goto_def)
  apply (simp add: tp_take_def tp_goto_def split: option.split prod.split)
  done

lemma thread_step_frame:
  assumes "tp_thread_step a t p = Some p'"
  shows "sizes p' = sizes p" and "length (tp_pcs p') = length (tp_pcs p)"
  using assms by (cases "tp_pcs p ! t"; auto simp: tp_thread_step_def thread_start_def claim_load_def claim_cursor_def claim_probe_def claim_own_def
    exec_block_def complete_check_def complete_store_def complete_count_def complete_release_def block_done_def requeue_def thread_exit_def Let_def
    sizes_upd split: prod.splits)+

lemma pool_weight_less:
  assumes C: "calm_ok p" and t: "t < length (tp_pcs p)" and s: "tp_thread_step a t p = Some p'"
  shows "pool_weight p' < pool_weight p"
proof -
  have e: "max_blocks q = sum_list (map unat (sizes q))" for q by (simp add: max_blocks_def sizes_def comp_def)
  have "unat (ab_count (tp_batches p ! b)) \<le> max_blocks p" if "b < length (tp_batches p)" for b
    using that by (auto simp: max_blocks_def intro!: member_le_sum_list)
  from calm_step_weigh [OF C t s this refl] show ?thesis
    by (simp add: pool_weight_def e thread_step_frame [OF s])
qed

section \<open>All work gets done\<close>

text \<open>The threads run, without the host.\<close>

definition tp_go :: "tp_pool \<Rightarrow> tp_pool \<Rightarrow> bool" where
  "tp_go p p' \<longleftrightarrow> (\<exists>a t. t < length (tp_pcs p) \<and> tp_thread_step a t p = Some p')"

lemma calm_go: "tp_calm p \<Longrightarrow> tp_go p p' \<Longrightarrow> tp_calm p'"
  by (auto simp: tp_go_def intro: calm_thread)

lemma go_bounded: "(tp_go ^^ k) p p' \<Longrightarrow> tp_calm p \<Longrightarrow> tp_calm p' \<and> pool_weight p' + k \<le> pool_weight p"
proof (induction k arbitrary: p')
  case (Suc k)
  from Suc.prems(1) obtain q where q: "(tp_go ^^ k) p q" "tp_go q p'" by auto
  with Suc have c: "tp_calm q" "pool_weight q + k \<le> pool_weight p" by auto
  from q(2) have "pool_weight p' < pool_weight q"
    by (auto simp: tp_go_def intro: pool_weight_less [OF tp_calm_ok [OF c(1)]])
  with c calm_go [OF c(1) q(2)] show ?case by simp
qed simp

lemma thread_can_step: "tp_pcs p ! t \<notin> {P_Waiting, P_Dead} \<Longrightarrow> \<exists>p'. tp_thread_step a t p = Some p'"
  by (cases "tp_pcs p ! t") (simp_all add: tp_thread_step_def)

lemma at_rest:
  assumes C: "calm_ok p" and r: "\<And>p'. \<not> tp_go p p'" and alive: "set (tp_pcs p) \<noteq> {P_Dead}" "tp_pcs p \<noteq> []"
  shows "pending p = {}"
proof -
  have pc: "tp_pcs p ! t \<in> {P_Waiting, P_Dead}" if "t < length (tp_pcs p)" for t
    using r that thread_can_step [of p t] by (auto simp: tp_go_def)
  then have sub: "set (tp_pcs p) \<subseteq> {P_Waiting, P_Dead}" by (metis in_set_conv_nth subsetI)
  with alive have "P_Waiting \<in> set (tp_pcs p)" by (cases "tp_pcs p") auto
  then have q: "cq_list (tp_queue p) = []" using calm_okD(10) [OF C] by blast
  have "cnt (carries b) (tp_pcs p) = 0" for b using pc by (fastforce simp: cnt_zero)
  then have "entries p b = 0" for b by (simp add: entries_def q)
  then show ?thesis using calm_okD(5) [OF C] by fastforce
qed

text \<open>C27: after any history of a calm host, and for every answer of handlers and allocators, every way
  the threads go on without the host ends after a bounded number of steps; and where no thread can take a step, unless all
  have died for want of memory, every submitted batch is finished, each of its blocks run once. No fairness is needed.\<close>

theorem submitted_work_finishes:
  assumes "tp_calm p" and "0 < length (tp_pcs p)"
  shows "\<exists>N. \<forall>k p'. (tp_go ^^ k) p p' \<longrightarrow> k \<le> N \<and>
    ((\<forall>p''. \<not> tp_go p' p'') \<longrightarrow> set (tp_pcs p') \<noteq> {P_Dead} \<longrightarrow>
      (\<forall>b. EvSubmit b \<in> set (tp_log p') \<longrightarrow> epa_at_batch_all_finished (tp_batches p' ! b) \<and>
         (\<forall>i < unat (ab_count (tp_batches p' ! b)). block_runs p' b i = 1)))"
proof (intro exI allI impI conjI)
  fix k p' assume g: "(tp_go ^^ k) p p'"
  note c = go_bounded [OF g assms(1)]
  then show "k \<le> pool_weight p" by simp
  assume rest: "\<forall>p''. \<not> tp_go p' p''" "set (tp_pcs p') \<noteq> {P_Dead}"
  fix b assume s: "EvSubmit b \<in> set (tp_log p')"
  have C: "calm_ok p'" using c tp_calm_ok by blast
  have "length (tp_pcs p') = length (tp_pcs p)"
    using g by (induction k arbitrary: p') (auto simp: tp_go_def thread_step_frame)
  then have "tp_pcs p' \<noteq> []" using assms(2) by auto
  then have "pending p' = {}" using at_rest [OF C] rest by blast
  moreover have b: "b < length (tp_batches p')" by (rule calm_okD(4) [OF C s])
  ultimately show f: "epa_at_batch_all_finished (tp_batches p' ! b)" using s by (auto simp: pending_def)
  fix i assume "i < unat (ab_count (tp_batches p' ! b))"
  with finished_runs [OF calm_okD(1) [OF C] b f] show "block_runs p' b i = 1" by blast
qed

lemma submitted_work_finishes_witness:
  "\<exists>p. two_blocks = Some p \<and> EvSubmit 0 \<in> set (tp_log p) \<and> (\<exists>N. \<forall>k p'. (tp_go ^^ k) p p' \<longrightarrow> k \<le> N)"
proof -
  obtain p0 x where i: "epa_thread_pool_init True 2 = Some p0" and c: "epa_at_batch_create True 2 False = Some x"
    by (simp add: epa_thread_pool_init_def epa_at_batch_create_def)
  let ?p = "p0\<lparr>tp_batches := tp_batches p0 @ [x]\<rparr>"
  let ?q = "snd (epa_thread_pool_submit_batch 0 ?p)"
  have p: "tp_calm ?p" by (rule calm_create [OF calm_init [OF i] c]) simp
  have l: "tp_log p0 = []" "tp_batches p0 = []" "length (tp_pcs p0) = 2" "tp_queue p0 = cq_zero 256 0"
    using i by (auto simp: epa_thread_pool_init_def)
  have calm: "tp_calm ?q" by (rule calm_submit [OF p]) (simp_all add: l pending_def)
  have b: "two_blocks = Some ?q" by (simp add: two_blocks_def i c)
  have "fst (tp_ring_push 0 ?p)" by (simp add: tp_ring_push_def l cq_push_def cq_zero_def cq_qmax_def)
  then have "EvSubmit 0 \<in> set (tp_log ?q)"
    by (auto simp: epa_thread_pool_submit_batch_def tp_ring_push_def split: option.splits)
  moreover have "length (tp_pcs ?q) = 2"
    using l by (simp add: epa_thread_pool_submit_batch_def tp_ring_push_def tp_broadcast_def tp_emit_def split: option.splits)
  ultimately have "EvSubmit 0 \<in> set (tp_log ?q)" "0 < length (tp_pcs ?q)" by simp_all
  with b submitted_work_finishes [OF calm] show ?thesis by blast
qed

end
