(* ===== verification/SchedCpu.thy ===== *)
theory SchedCpu
  imports KernelLife
begin

text \<open>
  The scheduler on operating-system threads (\<open>src/epa_sched_cpu_thread.c\<close>): a pool of threads, each bound to at
  most one worker, which it runs instruction after instruction until the worker waits, halts or faults;
  the run call binds runnable workers to free threads and otherwise sleeps.

  The threads, the run call and the host interleave. A step is one critical section of the scheduler's mutex, or one
  access to what is read or written without it: the flags, the current worker, the ingress drain, one
  instruction. The code takes no lock around an instruction or a drain: two of them can overlap, which C leaves undefined where they
  touch the same data. The model takes each as one step, so what it shows of the kernel is what holds
  as far as single instructions do not overlap. A table entry \<open>-1\<close> is \<open>None\<close>. A wait may end without a
  broadcast, as POSIX allows.
\<close>

section \<open>State\<close>

text \<open>Where a pool thread is, with the worker it runs, and where the run call is. A thread is listed with the number it
  was created for, in the order of creation.\<close>

datatype cpu_pc = CTop | CWaiting | CIntr nat | CRun nat | CSet nat | CTick nat | CUnbind nat | CStop | CExit

datatype cpu_run_pc = RIdle | RFirst | RTop | RDrain | RLock | RSleep | RPark | RParked | RDone nat string

record cpu_sched =
  cs_n :: u32
  cs_t2w :: "nat option list"
  cs_w2t :: "nat option list"
  cs_stop :: bool
  cs_intr :: bool
  cs_threads :: "(nat \<times> cpu_pc) list"
  cs_add :: "(u32 \<times> u32) option"
  cs_run :: cpu_run_pc
  cs_max :: u32
  cs_debug :: bool
  cs_ticks :: u32
  cs_seen :: u64
  cs_k :: epa_kernel

text \<open>\<open>cpu_init\<close>, when all allocations and the creation of the first thread succeed; otherwise there is no
  scheduler.\<close>

definition cpu_init :: "epa_kernel \<Rightarrow> cpu_sched" where
  "cpu_init k = \<lparr>cs_n = 1, cs_t2w = replicate 256 None, cs_w2t = replicate 256 None, cs_stop = False, cs_intr = False,
     cs_threads = [(0, CTop)], cs_add = None, cs_run = RIdle, cs_max = 0, cs_debug = False, cs_ticks = 0, cs_seen = 0, cs_k = k\<rparr>"

definition cpu_goto :: "nat \<Rightarrow> cpu_pc \<Rightarrow> cpu_sched \<Rightarrow> cpu_sched" where
  "cpu_goto i c s = s\<lparr>cs_threads := (cs_threads s)[i := (fst (cs_threads s ! i), c)]\<rparr>"

definition cpu_wake :: "cpu_sched \<Rightarrow> cpu_sched" where
  "cpu_wake s = s\<lparr>cs_threads := map (\<lambda>(t, c). (t, if c = CWaiting then CTop else c)) (cs_threads s),
     cs_run := (case cs_run s of RSleep \<Rightarrow> RTop | RPark \<Rightarrow> RParked | r \<Rightarrow> r)\<rparr>"

definition unbind_locked :: "nat \<Rightarrow> cpu_sched \<Rightarrow> cpu_sched" where
  "unbind_locked t s = s\<lparr>cs_w2t := (case cs_t2w s ! t of None \<Rightarrow> cs_w2t s | Some w \<Rightarrow> (cs_w2t s)[w := None]),
     cs_t2w := (cs_t2w s)[t := None]\<rparr>"

section \<open>One instruction\<close>

datatype tick_res = TickRc nat epa_kernel | TickUb

text \<open>\<open>exec_one_tick\<close> after it has set the current worker. The backend for other instructions is the null
  backend, which declines. The instruction is one step here; in the code nothing keeps the instruction of another thread, or a
  drain, from running at the same time, and then the two race on the heap, the pools and the queues of the kernel. The
  model says nothing of such executions.\<close>

definition exec_one_tick :: "run_cfg \<Rightarrow> (epa_kernel \<Rightarrow> unit kres) \<Rightarrow> nat \<Rightarrow> epa_kernel \<Rightarrow> tick_res" where
  "exec_one_tick cfg dispatch wid k =
     (let reset = (\<lambda>k1 c. if k_reset_pending k1 then
                     (case epa_kernel_commit_pending_boot_reset cfg k1 of
                        (Ok _, k2) \<Rightarrow> TickRc 2 k2 | (Err e, k2) \<Rightarrow> TickRc 0 k2 | (Ub, k2) \<Rightarrow> TickUb)
                   else c)
      in case epa_flow_step (kernel_env cfg dispatch k) (InSlot wid) \<lparr>m_k = k, m_at = worker_zero\<rparr> of
           FlowUndef \<Rightarrow> TickUb
         | FlowErr e m \<Rightarrow> reset (m_k m)
             (let k1 = k_upd_w wid (\<lambda>w. w\<lparr>w_faulted := True, w_fault_message := (if e = [] then w_fault_message w else take 255 e)\<rparr>) (m_k m)
              in TickRc 0 (kdbg_emit KDBG_EXCEPT (of_nat wid) 0xFFFF0002 (Some (vm_eip (w_vm (k_workers k1 wid)))) e k1))
         | FlowOk m \<Rightarrow> reset (m_k m) (TickRc 1 (k_upd_w wid (\<lambda>w. w\<lparr>w_halted := True\<rparr>) (m_k m)))
         | FlowNotFlow m \<Rightarrow> reset (m_k m) (TickRc 1 (m_k m))
         | FlowYielded m \<Rightarrow> reset (m_k m) (TickRc 1 (m_k m)))"

section \<open>A pool thread\<close>

text \<open>The thread at place \<open>i\<close> of the list, number \<open>t\<close>.\<close>

text \<open>The section at the top of the loop, in which it waits, leaves, parks or takes its worker.\<close>

definition thread_top :: "nat \<Rightarrow> nat \<Rightarrow> cpu_sched \<Rightarrow> cpu_sched" where
  "thread_top i t s =
     (if cs_stop s then cpu_goto i CExit s
      else if cs_intr s then (if cs_t2w s ! t \<noteq> None then cpu_wake (unbind_locked t s) else s)
      else case cs_t2w s ! t of None \<Rightarrow> cpu_goto i CWaiting s | Some w \<Rightarrow> cpu_goto i (CIntr w) s)"

definition thread_unbind :: "nat \<Rightarrow> nat \<Rightarrow> nat \<Rightarrow> cpu_sched \<Rightarrow> cpu_sched" where
  "thread_unbind i t w s = (let s1 = cpu_goto i CTop s in
     if cs_t2w s ! t = Some w then cpu_wake (unbind_locked t s1) else s1)"

text \<open>\<open>None\<close>: undefined.\<close>

definition thread_tick :: "run_cfg \<Rightarrow> (epa_kernel \<Rightarrow> unit kres) \<Rightarrow> nat \<Rightarrow> nat \<Rightarrow> cpu_sched \<Rightarrow> cpu_sched option" where
  "thread_tick cfg dispatch i w s = (case exec_one_tick cfg dispatch w (cs_k s) of
       TickUb \<Rightarrow> None
     | TickRc rc k \<Rightarrow> Some (cpu_goto i (if rc = 0 then CUnbind w else if rc = 2 then CStop else CIntr w) (s\<lparr>cs_k := k\<rparr>)))"

fun cpu_thread_step :: "run_cfg \<Rightarrow> (epa_kernel \<Rightarrow> unit kres) \<Rightarrow> nat \<Rightarrow> nat \<Rightarrow> cpu_pc \<Rightarrow> cpu_sched \<Rightarrow> cpu_sched option" where
  "cpu_thread_step cfg dispatch i t CTop s = Some (thread_top i t s)"
| "cpu_thread_step cfg dispatch i t CWaiting s = Some (cpu_goto i CTop s)"
| "cpu_thread_step cfg dispatch i t (CIntr w) s =
     Some (cpu_goto i (if cs_intr s \<or> k_interrupt (cs_k s) then CUnbind w else CRun w) s)"
| "cpu_thread_step cfg dispatch i t (CRun w) s =
     Some (cpu_goto i (if worker_runnable (k_workers (cs_k s) w) then CSet w else CUnbind w) s)"
| "cpu_thread_step cfg dispatch i t (CSet w) s = Some (cpu_goto i (CTick w) (s\<lparr>cs_k := (cs_k s)\<lparr>k_cur := of_nat w\<rparr>\<rparr>))"
| "cpu_thread_step cfg dispatch i t (CTick w) s = thread_tick cfg dispatch i w s"
| "cpu_thread_step cfg dispatch i t (CUnbind w) s = Some (thread_unbind i t w s)"
| "cpu_thread_step cfg dispatch i t CStop s = Some (cpu_wake (cpu_goto i CTop (s\<lparr>cs_stop := True\<rparr>)))"
| "cpu_thread_step cfg dispatch i t CExit s = Some s"

section \<open>The run call\<close>

definition free_thread :: "cpu_sched \<Rightarrow> nat option" where
  "free_thread s = find (\<lambda>t. cs_t2w s ! t = None) [0..<unat (cs_n s)]"

fun bind_workers :: "nat list \<Rightarrow> cpu_sched \<Rightarrow> cpu_sched" where
  "bind_workers [] s = cpu_wake s"
| "bind_workers (w # ws) s =
     (if \<not> worker_runnable (k_workers (cs_k s) w) \<or> cs_w2t s ! w \<noteq> None then bind_workers ws s
      else case free_thread s of None \<Rightarrow> s
        | Some t \<Rightarrow> bind_workers ws (cpu_wake (s\<lparr>cs_t2w := (cs_t2w s)[t := Some w], cs_w2t := (cs_w2t s)[w := Some t]\<rparr>)))"

definition cpu_bind_runnable :: "cpu_sched \<Rightarrow> cpu_sched" where
  "cpu_bind_runnable s = (if cs_intr s \<or> k_interrupt (cs_k s) then s else bind_workers [0..<256] s)"

definition all_threads_idle_locked :: "cpu_sched \<Rightarrow> bool" where
  "all_threads_idle_locked s \<longleftrightarrow> (\<forall>t < unat (cs_n s). cs_t2w s ! t = None)"

definition any_runnable_unbound :: "cpu_sched \<Rightarrow> bool" where
  "any_runnable_unbound s \<longleftrightarrow> (\<exists>w < 256. worker_runnable (k_workers (cs_k s) w) \<and> cs_w2t s ! w = None)"

definition run_goto :: "cpu_run_pc \<Rightarrow> cpu_sched \<Rightarrow> cpu_sched" where
  "run_goto r s = s\<lparr>cs_run := r\<rparr>"

text \<open>Waiting for the threads to park, and the answer 2.\<close>

definition run_park :: "cpu_sched \<Rightarrow> cpu_sched" where
  "run_park s =
     (if \<not> cs_stop s \<and> \<not> all_threads_idle_locked s then run_goto RPark s
      else run_goto (RDone 2 []) (s\<lparr>cs_k := (cs_k s)\<lparr>k_interrupt := False\<rparr>, cs_intr := False\<rparr>))"

definition run_locked :: "cpu_sched \<Rightarrow> cpu_sched" where
  "run_locked s =
     (let s1 = cpu_bind_runnable s in
      if k_interrupt (cs_k s1) then run_park (cpu_wake (s1\<lparr>cs_intr := True\<rparr>))
      else if \<not> any_runnable_unbound s1 \<and> cs_max s1 \<noteq> 0 \<and> all_threads_idle_locked s1 then run_goto (RDone 1 []) s1
      else run_goto RSleep s1)"

text \<open>The drain, one step as the instruction is. The run call drains without the mutex, while threads execute instructions: the
  model covers the schedules in which none of them overlaps the drain.\<close>

definition cpu_drain :: "run_cfg \<Rightarrow> cpu_sched \<Rightarrow> (cpu_sched \<Rightarrow> cpu_sched) \<Rightarrow> cpu_sched option" where
  "cpu_drain cfg s f = (case epa_kernel_drain_ingress (pf_al (rc_pf cfg)) (cs_k s) of
       (Ub, k) \<Rightarrow> None
     | (Err e, k) \<Rightarrow> Some (run_goto (RDone 0 e) (s\<lparr>cs_k := k\<rparr>))
     | (Ok _, k) \<Rightarrow> Some (f (s\<lparr>cs_k := k\<rparr>)))"

definition run_drained :: "cpu_sched \<Rightarrow> cpu_sched" where
  "run_drained s =
     (let s1 = (if cs_seen s \<noteq> k_deliveries (cs_k s) then s\<lparr>cs_seen := k_deliveries (cs_k s), cs_ticks := 0\<rparr> else s)
      in run_goto RLock (if any_ignore_max_ticks_runnable (cs_k s1) then s1 else s1\<lparr>cs_ticks := cs_ticks s1 + 1\<rparr>))"

definition run_top :: "cpu_sched \<Rightarrow> cpu_sched" where
  "run_top s =
     (if cs_max s \<noteq> 0 \<and> cs_ticks s \<ge> cs_max s \<and> \<not> any_ignore_max_ticks_runnable (cs_k s)
      then run_goto (RDone 0 (if cs_debug s then ''run: step complete returning to host after %u ticks''
                              else ''run: cpu_thread budget exhausted after %u ticks'')) s
      else if w_faulted (k_workers (cs_k s) 0) then run_goto (RDone 0 ''run: worker[0] faulted'') s
      else run_goto RDrain s)"

fun cpu_run_step :: "run_cfg \<Rightarrow> cpu_run_pc \<Rightarrow> cpu_sched \<Rightarrow> cpu_sched option" where
  "cpu_run_step cfg RFirst s = cpu_drain cfg s (\<lambda>s. run_goto RTop (s\<lparr>cs_seen := k_deliveries (cs_k s), cs_ticks := 0\<rparr>))"
| "cpu_run_step cfg RTop s = Some (run_top s)"
| "cpu_run_step cfg RDrain s = cpu_drain cfg s run_drained"
| "cpu_run_step cfg RLock s = Some (run_locked s)"
| "cpu_run_step cfg RSleep s = Some (run_goto RTop s)"
| "cpu_run_step cfg RPark s = Some (run_goto RParked s)"
| "cpu_run_step cfg RParked s = Some (run_park s)"
| "cpu_run_step cfg r s = Some s"

text \<open>The host calls run, and reads the answer.\<close>

definition cpu_run :: "u32 \<Rightarrow> bool \<Rightarrow> cpu_sched \<Rightarrow> cpu_sched" where
  "cpu_run max_ticks debug s =
     (if \<not> k_loaded (cs_k s) then run_goto (RDone 0 ''run: program not loaded'') s
      else run_goto RFirst (s\<lparr>cs_intr := False, cs_k := (cs_k s)\<lparr>k_interrupt := False\<rparr>, cs_max := max_ticks, cs_debug := debug\<rparr>))"

section \<open>The host\<close>

text \<open>An interrupt request sets two flags, one after the other, and wakes all.\<close>

definition request_flag :: "cpu_sched \<Rightarrow> cpu_sched" where
  "request_flag s = s\<lparr>cs_k := (cs_k s)\<lparr>k_interrupt := True\<rparr>\<rparr>"

definition request_store :: "cpu_sched \<Rightarrow> cpu_sched" where
  "request_store s = s\<lparr>cs_intr := True\<rparr>"

definition cpu_request_interrupt :: "cpu_sched \<Rightarrow> cpu_sched" where
  "cpu_request_interrupt s = cpu_wake (request_store (request_flag s))"

text \<open>Adding threads: the section that raises the count, then one creation after the other. The test of the sum wraps.\<close>

definition add_threads_begin :: "u32 \<Rightarrow> cpu_sched \<Rightarrow> string + cpu_sched" where
  "add_threads_begin c s =
     (if c = 0 then Inr s
      else if cs_n s + c > 256 then Inl ''cpu_thread: thread budget exceeds max %u''
      else Inr (s\<lparr>cs_n := cs_n s + c, cs_add := Some (cs_n s, cs_n s + c)\<rparr>))"

definition add_threads_next :: "bool \<Rightarrow> cpu_sched \<Rightarrow> cpu_sched" where
  "add_threads_next ok s = (case cs_add s of
       None \<Rightarrow> s
     | Some (t, e) \<Rightarrow>
         if t \<ge> e then cpu_wake (s\<lparr>cs_add := None\<rparr>)
         else if ok then s\<lparr>cs_threads := cs_threads s @ [(unat t, CTop)], cs_add := Some (t + 1, e)\<rparr>
         else s\<lparr>cs_n := t, cs_add := None\<rparr>)"

text \<open>The first half of \<open>cpu_destroy\<close>; the second half waits for the threads to exit.\<close>

definition cpu_stop :: "cpu_sched \<Rightarrow> cpu_sched" where
  "cpu_stop s = cpu_wake (s\<lparr>cs_stop := True\<rparr>)"

definition host_push :: "allocator \<Rightarrow> u32 \<Rightarrow> u32 \<Rightarrow> u8 list \<Rightarrow> u64 \<Rightarrow> u32 \<Rightarrow> cpu_sched \<Rightarrow> cpu_sched" where
  "host_push al wid tag data sk sw s = s\<lparr>cs_k := snd (epa_kernel_ingress_push_framed al wid tag data sk sw (cs_k s))\<rparr>"

section \<open>The whole\<close>

text \<open>The host asks for at most \<open>lim\<close> threads at a time.\<close>

inductive cpu_step :: "run_cfg \<Rightarrow> (epa_kernel \<Rightarrow> unit kres) \<Rightarrow> u32 \<Rightarrow> cpu_sched \<Rightarrow> cpu_sched \<Rightarrow> bool" for cfg dispatch lim where
  thread: "i < length (cs_threads s) \<Longrightarrow> cs_threads s ! i = (t, pc) \<Longrightarrow> cpu_thread_step cfg dispatch i t pc s = Some s' \<Longrightarrow>
    cpu_step cfg dispatch lim s s'"
| run: "cpu_run_step cfg (cs_run s) s = Some s' \<Longrightarrow> cpu_step cfg dispatch lim s s'"
| call: "cs_run s = RIdle \<Longrightarrow> cpu_step cfg dispatch lim s (cpu_run m d s)"
| answered: "cs_run s = RDone rc e \<Longrightarrow> cpu_step cfg dispatch lim s (run_goto RIdle s)"
| flag: "cpu_step cfg dispatch lim s (request_flag s)"
| store: "cpu_step cfg dispatch lim s (request_store s)"
| wake: "cpu_step cfg dispatch lim s (cpu_wake s)"
| add: "cs_add s = None \<Longrightarrow> c \<le> lim \<Longrightarrow> add_threads_begin c s = Inr s' \<Longrightarrow> cpu_step cfg dispatch lim s s'"
| spawn: "cpu_step cfg dispatch lim s (add_threads_next ok s)"
| stop: "cpu_step cfg dispatch lim s (cpu_stop s)"
| push: "fst (epa_kernel_ingress_push_framed (pf_al (rc_pf cfg)) wid tag data sk sw (cs_k s)) \<noteq> CUndef \<Longrightarrow>
    cpu_step cfg dispatch lim s (host_push (pf_al (rc_pf cfg)) wid tag data sk sw s)"

inductive cpu_reach :: "run_cfg \<Rightarrow> (epa_kernel \<Rightarrow> unit kres) \<Rightarrow> u32 \<Rightarrow> epa_kernel \<Rightarrow> cpu_sched \<Rightarrow> bool" for cfg dispatch lim k where
  init: "cpu_reach cfg dispatch lim k (cpu_init k)"
| step: "cpu_reach cfg dispatch lim k s \<Longrightarrow> cpu_step cfg dispatch lim s s' \<Longrightarrow> cpu_reach cfg dispatch lim k s'"

end
