(* ===== verification/SchedCpuInv.thy ===== *)
theory SchedCpuInv
  imports SchedCpu KernelRunInv
begin

text \<open>
  The thread scheduler keeps its two tables inverse to each other, never runs a worker on two threads, and
  keeps the kernel well formed; and what it does not keep: the current worker, a wake-up, the end of a run
  after a boot reset.
\<close>

section \<open>The tables\<close>

fun pc_worker :: "cpu_pc \<Rightarrow> nat option" where
  "pc_worker (CIntr w) = Some w" | "pc_worker (CRun w) = Some w" | "pc_worker (CSet w) = Some w"
| "pc_worker (CTick w) = Some w" | "pc_worker (CUnbind w) = Some w" | "pc_worker c = None"

definition tables_ok :: "nat option list \<Rightarrow> nat option list \<Rightarrow> bool" where
  "tables_ok t2w w2t \<longleftrightarrow> length t2w = 256 \<and> length w2t = 256
     \<and> (\<forall>t w. t < 256 \<longrightarrow> t2w ! t = Some w \<longrightarrow> w < 256 \<and> w2t ! w = Some t)
     \<and> (\<forall>w t. w < 256 \<longrightarrow> w2t ! w = Some t \<longrightarrow> t < 256 \<and> t2w ! t = Some w)"

text \<open>The threads that exist are numbered from 0, also while more are being created.\<close>

definition count_ok :: "nat \<Rightarrow> u32 \<Rightarrow> (u32 \<times> u32) option \<Rightarrow> bool" where
  "count_ok len n a \<longleftrightarrow> n \<le> 256 \<and> (case a of None \<Rightarrow> unat n = len | Some (t, e) \<Rightarrow> unat t = len \<and> t \<le> e \<and> e = n)"

definition cpu_inv :: "cpu_sched \<Rightarrow> bool" where
  "cpu_inv s \<longleftrightarrow> tables_ok (cs_t2w s) (cs_w2t s) \<and> count_ok (length (cs_threads s)) (cs_n s) (cs_add s)
     \<and> map fst (cs_threads s) = [0..<length (cs_threads s)]
     \<and> (\<forall>t pc w. (t, pc) \<in> set (cs_threads s) \<longrightarrow> pc_worker pc = Some w \<longrightarrow> cs_t2w s ! t = Some w)"

lemma tables_okD:
  "tables_ok t2w w2t \<Longrightarrow> t < 256 \<Longrightarrow> t2w ! t = Some w \<Longrightarrow> w < 256 \<and> w2t ! w = Some t"
  "tables_ok t2w w2t \<Longrightarrow> w < 256 \<Longrightarrow> w2t ! w = Some t \<Longrightarrow> t < 256 \<and> t2w ! t = Some w"
  "tables_ok t2w w2t \<Longrightarrow> length t2w = 256 \<and> length w2t = 256"
  unfolding tables_ok_def by blast+

lemma tables_unbind:
  assumes "tables_ok t2w w2t" "t < 256" "t2w ! t = Some w"
  shows "tables_ok (t2w[t := None]) (w2t[w := None])"
proof -
  have w: "w < 256" "w2t ! w = Some t" using tables_okD(1) [OF assms] by auto
  have 1: "v < 256 \<and> (w2t[w := None]) ! v = Some u" if "u < 256" "(t2w[t := None]) ! u = Some v" for u v
  proof -
    have "u \<noteq> t" using that assms(2) tables_okD(3) [OF assms(1)] by auto
    then have "t2w ! u = Some v" using that by simp
    with tables_okD(1) [OF assms(1) that(1)] w \<open>u \<noteq> t\<close> show ?thesis by (metis nth_list_update_neq option.inject)
  qed
  have 2: "u < 256 \<and> (t2w[t := None]) ! u = Some v" if "v < 256" "(w2t[w := None]) ! v = Some u" for u v
  proof -
    have "v \<noteq> w" using that w(1) tables_okD(3) [OF assms(1)] by auto
    then have "w2t ! v = Some u" using that by simp
    with tables_okD(2) [OF assms(1) that(1)] assms(3) \<open>v \<noteq> w\<close> show ?thesis by (metis nth_list_update_neq option.inject)
  qed
  have len: "length (t2w[t := None]) = 256" "length (w2t[w := None]) = 256" using tables_okD(3) [OF assms(1)] by simp_all
  show ?thesis unfolding tables_ok_def by (intro conjI allI impI len) (use 1 2 in blast)+
qed

lemma tables_bind:
  assumes "tables_ok t2w w2t" "t < 256" "w < 256" "t2w ! t = None" "w2t ! w = None"
  shows "tables_ok (t2w[t := Some w]) (w2t[w := Some t])"
proof -
  note len = tables_okD(3) [OF assms(1)]
  have 1: "v < 256 \<and> (w2t[w := Some t]) ! v = Some u" if "u < 256" "(t2w[t := Some w]) ! u = Some v" for u v
  proof (cases "u = t")
    case False
    then have "t2w ! u = Some v" using that by simp
    with tables_okD(1) [OF assms(1) that(1)] assms(5) show ?thesis by (metis nth_list_update_neq option.distinct(1))
  qed (use that assms(2,3) len in auto)
  have 2: "u < 256 \<and> (t2w[t := Some w]) ! u = Some v" if "v < 256" "(w2t[w := Some t]) ! v = Some u" for u v
  proof (cases "v = w")
    case False
    then have "w2t ! v = Some u" using that by simp
    with tables_okD(2) [OF assms(1) that(1)] assms(4) show ?thesis by (metis nth_list_update_neq option.distinct(1))
  qed (use that assms(2,3) len in auto)
  have len': "length (t2w[t := Some w]) = 256" "length (w2t[w := Some t]) = 256" using len by simp_all
  show ?thesis unfolding tables_ok_def by (intro conjI allI impI len') (use 1 2 in blast)+
qed

lemma count_bound: "count_ok len n a \<Longrightarrow> len \<le> unat n \<and> unat n \<le> 256"
  by (auto simp: count_ok_def word_le_nat_alt split: option.splits)

text \<open>Steps leave most of the state alone.\<close>

lemma goto_simps [simp]:
  "cs_t2w (cpu_goto i c s) = cs_t2w s" "cs_w2t (cpu_goto i c s) = cs_w2t s" "cs_n (cpu_goto i c s) = cs_n s"
  "cs_add (cpu_goto i c s) = cs_add s" "cs_k (cpu_goto i c s) = cs_k s" "cs_stop (cpu_goto i c s) = cs_stop s"
  "cs_intr (cpu_goto i c s) = cs_intr s" "cs_run (cpu_goto i c s) = cs_run s" "cs_max (cpu_goto i c s) = cs_max s"
  "cs_threads (cpu_goto i c s) = (cs_threads s)[i := (fst (cs_threads s ! i), c)]"
  by (simp_all add: cpu_goto_def)

lemma run_goto_simps [simp]:
  "cs_t2w (run_goto r s) = cs_t2w s" "cs_w2t (run_goto r s) = cs_w2t s" "cs_n (run_goto r s) = cs_n s"
  "cs_add (run_goto r s) = cs_add s" "cs_k (run_goto r s) = cs_k s" "cs_stop (run_goto r s) = cs_stop s"
  "cs_intr (run_goto r s) = cs_intr s" "cs_run (run_goto r s) = r" "cs_max (run_goto r s) = cs_max s"
  "cs_threads (run_goto r s) = cs_threads s"
  by (simp_all add: run_goto_def)

lemma wake_simps [simp]:
  "cs_t2w (cpu_wake s) = cs_t2w s" "cs_w2t (cpu_wake s) = cs_w2t s" "cs_n (cpu_wake s) = cs_n s"
  "cs_add (cpu_wake s) = cs_add s" "cs_k (cpu_wake s) = cs_k s" "cs_stop (cpu_wake s) = cs_stop s"
  "cs_intr (cpu_wake s) = cs_intr s" "cs_max (cpu_wake s) = cs_max s"
  "cs_threads (cpu_wake s) = map (\<lambda>(t, c). (t, if c = CWaiting then CTop else c)) (cs_threads s)"
  "cs_run (cpu_wake s) = (case cs_run s of RSleep \<Rightarrow> RTop | RPark \<Rightarrow> RParked | r \<Rightarrow> r)"
  by (simp_all add: cpu_wake_def)

lemma cpu_inv_run_goto [simp]: "cpu_inv (run_goto r s) = cpu_inv s"
  by (simp add: cpu_inv_def)

lemma cpu_inv_frame [simp]:
  "cpu_inv (s\<lparr>cs_k := k\<rparr>) = cpu_inv s" "cpu_inv (s\<lparr>cs_intr := b\<rparr>) = cpu_inv s" "cpu_inv (s\<lparr>cs_stop := b\<rparr>) = cpu_inv s"
  "cpu_inv (s\<lparr>cs_seen := u\<rparr>) = cpu_inv s" "cpu_inv (s\<lparr>cs_ticks := v\<rparr>) = cpu_inv s" "cpu_inv (s\<lparr>cs_max := v\<rparr>) = cpu_inv s"
  "cpu_inv (s\<lparr>cs_debug := b\<rparr>) = cpu_inv s"
  by (simp_all add: cpu_inv_def)

lemma cpu_inv_wake: "cpu_inv s \<Longrightarrow> cpu_inv (cpu_wake s)"
  by (auto simp: cpu_inv_def case_prod_beta comp_def split: if_splits)

text \<open>A thread moves to a place where it holds its worker, or none.\<close>

lemma cpu_inv_goto:
  assumes "cpu_inv s" "i < length (cs_threads s)" "cs_threads s ! i = (t, pc)"
    and "\<And>w. pc_worker c = Some w \<Longrightarrow> cs_t2w s ! t = Some w"
  shows "cpu_inv (cpu_goto i c s)"
proof -
  have "map fst ((cs_threads s)[i := (fst (cs_threads s ! i), c)]) = map fst (cs_threads s)"
    by (simp add: map_update) (metis assms(2) list_update_id map_update nth_map)
  then show ?thesis using assms set_update_subset_insert [of "cs_threads s" i "(t, c)"]
    by (auto simp: cpu_inv_def)
qed

lemma cpu_thread_number: "cpu_inv s \<Longrightarrow> i < length (cs_threads s) \<Longrightarrow> cs_threads s ! i = (t, pc) \<Longrightarrow> t = i \<and> i < 256"
  using count_bound [of "length (cs_threads s)" "cs_n s" "cs_add s"]
  by (auto simp: cpu_inv_def) (metis add_cancel_left_left diff_zero fst_conv length_map nth_map nth_upt)

lemma cpu_inv_unbind:
  assumes "cpu_inv s" "i < length (cs_threads s)" "cs_threads s ! i = (t, pc)" "pc_worker pc = None"
  shows "cpu_inv (unbind_locked t s)"
proof -
  have t: "t = i" "t < 256" using cpu_thread_number [OF assms(1,2,3)] by auto
  have other: "u \<noteq> t" if m: "(u, c) \<in> set (cs_threads s)" and p: "pc_worker c = Some w" for u c w
  proof
    assume "u = t"
    obtain j where j: "j < length (cs_threads s)" "cs_threads s ! j = (u, c)" using m by (auto simp: in_set_conv_nth)
    have "u = j" using cpu_thread_number [OF assms(1) j] by simp
    then have "c = pc" using j(2) assms(3) t(1) \<open>u = t\<close> by simp
    then show False using p assms(4) by simp
  qed
  have len: "length (cs_t2w s) = 256" using assms(1) tables_okD(3) by (auto simp: cpu_inv_def)
  show ?thesis
  proof (cases "cs_t2w s ! t")
    case None
    then have "(cs_t2w s)[t := None] = cs_t2w s" by (metis list_update_id)
    then show ?thesis using assms(1) None by (simp add: unbind_locked_def cpu_inv_def)
  next
    case (Some w)
    have "(cs_t2w s)[t := None] ! u = Some v" if "(u, c) \<in> set (cs_threads s)" "pc_worker c = Some v" for u c v
      using assms(1) other [OF that] that by (force simp: cpu_inv_def)
    then show ?thesis using assms(1) Some tables_unbind [of "cs_t2w s" "cs_w2t s" t w] t(2)
      by (simp add: unbind_locked_def cpu_inv_def)
  qed
qed

lemma cpu_inv_bind:
  assumes "cpu_inv s" "free_thread s = Some t" "w < 256" "cs_w2t s ! w = None"
  shows "cpu_inv (s\<lparr>cs_t2w := (cs_t2w s)[t := Some w], cs_w2t := (cs_w2t s)[w := Some t]\<rparr>)"
proof -
  have t: "cs_t2w s ! t = None" "t < 256"
    using assms(1,2) count_bound [of "length (cs_threads s)" "cs_n s" "cs_add s"]
    by (auto simp: free_thread_def find_Some_iff cpu_inv_def)
  then have "u \<noteq> t" if "(u, c) \<in> set (cs_threads s)" "pc_worker c = Some v" for u c v
    using assms(1) that by (fastforce simp: cpu_inv_def)
  then have "(cs_t2w s)[t := Some w] ! u = Some v" if "(u, c) \<in> set (cs_threads s)" "pc_worker c = Some v" for u c v
    using assms(1) that by (force simp: cpu_inv_def)
  then show ?thesis using assms t tables_bind [of "cs_t2w s" "cs_w2t s" t w] by (simp add: cpu_inv_def)
qed

lemma bind_workers_inv: "cpu_inv s \<Longrightarrow> \<forall>w \<in> set ws. w < 256 \<Longrightarrow> cpu_inv (bind_workers ws s)"
  by (induction ws s rule: bind_workers.induct) (auto simp: cpu_inv_wake cpu_inv_bind split: option.split)

lemma thread_top_inv:
  assumes "cpu_inv s" "i < length (cs_threads s)" "cs_threads s ! i = (t, CTop)"
  shows "cpu_inv (thread_top i t s)"
proof -
  have "cpu_inv (cpu_goto i CExit s)" "cpu_inv (cpu_goto i CWaiting s)" by (rule cpu_inv_goto [OF assms]; simp)+
  moreover have "cpu_inv (cpu_goto i (CIntr w) s)" if "cs_t2w s ! t = Some w" for w
    by (rule cpu_inv_goto [OF assms]) (simp add: that)
  moreover have "cpu_inv (cpu_wake (unbind_locked t s))" by (rule cpu_inv_wake [OF cpu_inv_unbind [OF assms]]) simp
  ultimately show ?thesis using assms(1) by (simp add: thread_top_def split: option.split)
qed

lemma thread_unbind_inv:
  assumes "cpu_inv s" "i < length (cs_threads s)" "cs_threads s ! i = (t, CUnbind w)"
  shows "cpu_inv (thread_unbind i t w s)"
proof -
  have g: "cpu_inv (cpu_goto i CTop s)" by (rule cpu_inv_goto [OF assms]) simp
  have "cpu_inv (unbind_locked t (cpu_goto i CTop s))"
    by (rule cpu_inv_unbind [OF g, of i t CTop]) (use assms(2,3) in simp_all)
  then show ?thesis using g by (simp add: thread_unbind_def Let_def cpu_inv_wake)
qed

lemma thread_step_inv:
  assumes "cpu_inv s" "i < length (cs_threads s)" "cs_threads s ! i = (t, pc)" "cpu_thread_step cfg dispatch i t pc s = Some s'"
  shows "cpu_inv s'"
proof -
  have held: "cs_t2w s ! t = Some w" if "pc_worker pc = Some w" for w
    using assms(1,2,3) that nth_mem [OF assms(2)] by (auto simp: cpu_inv_def)
  have go: "cpu_inv (cpu_goto i c s)" if "pc_worker c = pc_worker pc \<or> pc_worker c = None" for c
    by (rule cpu_inv_goto [OF assms(1,2,3)]) (use held that in \<open>metis option.distinct(1)\<close>)
  have goto_k: "cpu_goto i c (s\<lparr>cs_k := k\<rparr>) = (cpu_goto i c s)\<lparr>cs_k := k\<rparr>" "cpu_goto i c (s\<lparr>cs_stop := b\<rparr>) = (cpu_goto i c s)\<lparr>cs_stop := b\<rparr>"
    for c k b by (simp_all add: cpu_goto_def)
  show ?thesis
  proof (cases pc)
    case CTop then show ?thesis using assms thread_top_inv [OF assms(1,2)] by auto
  next
    case CWaiting then show ?thesis using assms(4) go [of CTop] by auto
  next
    case (CIntr w) then show ?thesis using assms(4) go [of "CUnbind w"] go [of "CRun w"] by (auto split: if_splits)
  next
    case (CRun w) then show ?thesis using assms(4) go [of "CUnbind w"] go [of "CSet w"] by (auto split: if_splits)
  next
    case (CSet w) then show ?thesis using assms(4) go [of "CTick w"] by (auto simp: goto_k)
  next
    case (CTick w) then show ?thesis using assms(4) go [of "CUnbind w"] go [of CStop] go [of "CIntr w"]
      by (auto simp: thread_tick_def goto_k split: tick_res.splits)
  next
    case (CUnbind w) then show ?thesis using assms thread_unbind_inv [OF assms(1,2)] by auto
  next
    case CStop then show ?thesis using assms(4) go [of CTop] by (auto simp: goto_k intro: cpu_inv_wake)
  next
    case CExit then show ?thesis using assms by simp
  qed
qed

lemma run_park_inv: "cpu_inv s \<Longrightarrow> cpu_inv (run_park s)"
  by (simp add: run_park_def)

lemma run_locked_inv: "cpu_inv s \<Longrightarrow> cpu_inv (run_locked s)"
  by (auto simp: run_locked_def cpu_bind_runnable_def Let_def intro!: run_park_inv cpu_inv_wake bind_workers_inv)

lemma run_step_inv:
  assumes "cpu_inv s" "cpu_run_step cfg r s = Some s'" shows "cpu_inv s'"
  using assms run_locked_inv run_park_inv
  by (cases r) (auto simp: cpu_drain_def run_top_def run_drained_def Let_def split: prod.splits res.splits)

lemma add_begin_inv:
  assumes "cpu_inv s" "cs_add s = None" "c \<le> lim" "lim < - 256" "add_threads_begin c s = Inr s'"
  shows "cpu_inv s'"
proof (cases "c = 0")
  case False
  have n: "cs_n s \<le> 256" "unat (cs_n s) = length (cs_threads s)" using assms(1,2) by (auto simp: cpu_inv_def count_ok_def)
  have "unat c < 2 ^ 32 - 256" using assms(3,4) unat_mono [of c "- 256"] by simp
  moreover have "unat (cs_n s) \<le> 256" using n(1) by (simp add: word_le_nat_alt)
  ultimately have "unat (cs_n s) + unat c < 2 ^ LENGTH(32)" by simp
  then have "cs_n s \<le> cs_n s + c" by (simp add: no_olen_add_nat)
  then show ?thesis using assms False n by (auto simp: add_threads_begin_def cpu_inv_def count_ok_def split: if_splits)
qed (use assms in \<open>simp add: add_threads_begin_def\<close>)

lemma spawn_inv:
  assumes "cpu_inv s" shows "cpu_inv (add_threads_next ok s)"
proof (cases "cs_add s")
  case (Some a)
  obtain t e where a: "cs_add s = Some (t, e)" using Some by (cases a) auto
  have c: "unat t = length (cs_threads s)" "t \<le> e" "e = cs_n s" "e \<le> 256" using assms a by (auto simp: cpu_inv_def count_ok_def)
  have len: "length (cs_threads s) = unat t" using c by simp
  show ?thesis
  proof (cases "t < e")
    case True
    then have "unat (t + 1) = unat t + 1" "t + 1 \<le> e" using c(4) by unat_arith+
    then show ?thesis using assms a True c by (auto simp: add_threads_next_def cpu_inv_def count_ok_def)
  next
    case False
    then have "t = e" using c(2) by simp
    then have "cpu_inv (s\<lparr>cs_add := None\<rparr>)" using assms c by (simp add: cpu_inv_def count_ok_def)
    then show ?thesis using \<open>t = e\<close> a by (simp add: add_threads_next_def cpu_inv_wake)
  qed
qed (use assms in \<open>simp add: add_threads_next_def\<close>)

lemma cpu_step_inv:
  assumes "cpu_step cfg dispatch lim s s'" "cpu_inv s" "lim < - 256"
  shows "cpu_inv s'"
  using assms(1)
proof cases
  case (thread i t pc) then show ?thesis using thread_step_inv [OF assms(2)] by blast
next
  case run then show ?thesis using run_step_inv [OF assms(2)] by blast
next
  case (add c) then show ?thesis using add_begin_inv [OF assms(2)] assms(3) by blast
next
  case (spawn ok) then show ?thesis using spawn_inv [OF assms(2)] by blast
qed (use assms(2) in \<open>simp_all add: cpu_run_def request_flag_def request_store_def cpu_stop_def host_push_def cpu_inv_wake\<close>)

lemma tables_init: "tables_ok (replicate 256 None) (replicate 256 None)"
  unfolding tables_ok_def by simp

lemma cpu_reach_inv: "cpu_reach cfg dispatch lim k s \<Longrightarrow> lim < - 256 \<Longrightarrow> cpu_inv s"
proof (induction rule: cpu_reach.induct)
  case init then show ?case by (simp add: cpu_inv_def cpu_init_def count_ok_def tables_init)
next
  case (step s s') then show ?case using cpu_step_inv by blast
qed

section \<open>Parking\<close>

text \<open>Only the wait for the threads to park gives the answer 2.\<close>

lemma bind_workers_run: "cs_run (bind_workers ws s) = RDone a e \<longleftrightarrow> cs_run s = RDone a e"
  by (induction ws s rule: bind_workers.induct) (auto split: option.split cpu_run_pc.splits)

lemma bind_workers_stop: "cs_stop (bind_workers ws s) = cs_stop s"
  by (induction ws s rule: bind_workers.induct) (auto split: option.split)

lemma run_park_done:
  "cs_run (run_park s) = RDone 2 e \<Longrightarrow> cs_stop s \<or> all_threads_idle_locked (run_park s)"
  by (auto simp: run_park_def all_threads_idle_locked_def split: if_splits)

lemma run_step_done:
  assumes "cpu_run_step cfg (cs_run s) s = Some s'" "cs_run s' = RDone 2 e" "\<forall>rc x. cs_run s \<noteq> RDone rc x"
  shows "cs_stop s \<or> all_threads_idle_locked s'"
proof (cases "cs_run s")
  case RLock
  then show ?thesis using assms run_park_done [of "cpu_wake ((cpu_bind_runnable s)\<lparr>cs_intr := True\<rparr>)" e]
    by (auto simp: run_locked_def Let_def cpu_bind_runnable_def bind_workers_stop split: if_splits)
next
  case RParked then show ?thesis using assms run_park_done [of s e] by auto
qed (use assms in \<open>auto simp: cpu_drain_def run_drained_def run_top_def Let_def split: prod.splits res.splits if_splits\<close>)

lemma thread_step_run:
  "cpu_thread_step cfg dispatch i t pc s = Some s' \<Longrightarrow> cs_run s' = RDone rc e \<longleftrightarrow> cs_run s = RDone rc e"
  by (cases pc) (auto simp: thread_top_def thread_unbind_def thread_tick_def unbind_locked_def Let_def
      split: if_splits option.splits tick_res.splits cpu_run_pc.splits)

lemma idle_at_rest:
  assumes "cpu_inv s" "all_threads_idle_locked s" "(t, pc) \<in> set (cs_threads s)"
  shows "pc_worker pc = None"
proof (rule ccontr)
  assume "pc_worker pc \<noteq> None"
  then obtain w where w: "cs_t2w s ! t = Some w" using assms(1,3) by (force simp: cpu_inv_def)
  have "t < length (cs_threads s)" using assms(1,3) by (auto simp: cpu_inv_def) (metis atLeastLessThan_iff fst_conv image_eqI set_map set_upt)
  then have "t < unat (cs_n s)" using assms(1) count_bound by (fastforce simp: cpu_inv_def)
  then show False using assms(2) w by (simp add: all_threads_idle_locked_def)
qed

text \<open>C28: However the threads of the scheduler, the run call and the host interleave, two pool threads never run the same worker; and
  when the run call answers that it was interrupted, with the scheduler not stopped, every thread stands at a safe
  place: none is inside an instruction or about to begin one. (The host adds fewer than \<open>2 ^ 32 - 256\<close> threads at a time.)\<close>

theorem cpu_threads_exclusive:
  assumes "cpu_reach cfg dispatch lim k s" "lim < - 256"
  shows "(\<forall>i j w. i < length (cs_threads s) \<and> j < length (cs_threads s) \<and> pc_worker (snd (cs_threads s ! i)) = Some w
           \<and> pc_worker (snd (cs_threads s ! j)) = Some w \<longrightarrow> i = j)
    \<and> (\<forall>s' e. cpu_step cfg dispatch lim s s' \<and> (\<forall>rc x. cs_run s \<noteq> RDone rc x) \<and> cs_run s' = RDone 2 e \<and> \<not> cs_stop s
         \<longrightarrow> (\<forall>(t, pc) \<in> set (cs_threads s'). pc_worker pc = None))"
proof -
  have inv: "cpu_inv s" using cpu_reach_inv assms by blast
  have held: "cs_t2w s ! i = Some w \<and> i < 256" if "i < length (cs_threads s)" "pc_worker (snd (cs_threads s ! i)) = Some w" for i w
  proof -
    obtain t pc where t: "cs_threads s ! i = (t, pc)" by fastforce
    have "(t, pc) \<in> set (cs_threads s)" using nth_mem [OF that(1)] t by simp
    then have "cs_t2w s ! t = Some w" using inv that(2) t by (auto simp: cpu_inv_def)
    then show ?thesis using cpu_thread_number [OF inv that(1) t] by simp
  qed
  have "i = j" if "i < length (cs_threads s)" "j < length (cs_threads s)" "pc_worker (snd (cs_threads s ! i)) = Some w"
    "pc_worker (snd (cs_threads s ! j)) = Some w" for i j w
  proof -
    have t: "tables_ok (cs_t2w s) (cs_w2t s)" using inv by (simp add: cpu_inv_def)
    from tables_okD(1) [OF t, of i w] tables_okD(1) [OF t, of j w] held that show ?thesis by simp
  qed
  moreover have "pc_worker pc = None" if "cpu_step cfg dispatch lim s s'" "\<forall>rc x. cs_run s \<noteq> RDone rc x" "cs_run s' = RDone 2 e"
    "\<not> cs_stop s" "(t, pc) \<in> set (cs_threads s')" for s' e t pc
  proof -
    have "all_threads_idle_locked s'" using that(1)
    proof cases
      case run then show ?thesis using run_step_done that(2,3,4) by blast
    next
      case (thread i u c) then show ?thesis using thread_step_run that(2,3) by blast
    next
      case (add c) then show ?thesis using that(2,3) by (auto simp: add_threads_begin_def split: if_splits)
    next
      case (spawn ok) then show ?thesis using that(2,3)
        by (auto simp: add_threads_next_def split: option.splits if_splits cpu_run_pc.splits)
    next
      case (call m d) then show ?thesis using that(2,3) by (auto simp: cpu_run_def split: if_splits)
    qed (use that(2,3) in \<open>auto simp: request_flag_def request_store_def cpu_stop_def host_push_def split: cpu_run_pc.splits\<close>)
    then show ?thesis using idle_at_rest cpu_step_inv [OF that(1) inv assms(2)] that(5) by blast
  qed
  ultimately show ?thesis by blast
qed

theorem cpu_threads_exclusive_witness:
  "cpu_reach demo_cfg (\<lambda>k. (Ok (), k)) 1 kernel_zero (cpu_init kernel_zero)
   \<and> cs_threads (cpu_init kernel_zero) = [(0, CTop)]
   \<and> \<not> (\<exists>i j w. i < 1 \<and> j < 1 \<and> pc_worker (snd ([(0 :: nat, CTop)] ! i)) = Some w \<and> pc_worker (snd ([(0 :: nat, CTop)] ! j)) = Some w \<and> i \<noteq> j)"
proof -
  have l: "(1 :: u32) < - 256" by (simp add: word_less_nat_alt)
  have r: "cpu_reach demo_cfg (\<lambda>k. (Ok (), k)) 1 kernel_zero (cpu_init kernel_zero)" by (rule cpu_reach.init)
  show ?thesis using cpu_threads_exclusive [OF r l] r by (simp add: cpu_init_def)
qed

end
