(* ===== verification/SchedCpuProps.thy ===== *)
theory SchedCpuProps
  imports SchedCpuInv
begin

text \<open>
  The thread scheduler and the kernel it runs: the kernel stays well formed; the current worker is a race; a scheduler
  that has committed a boot reset never answers again; a message can arrive just before the run call falls
  asleep.
\<close>

section \<open>The kernel\<close>

lemma kernel_ok_flags [simp]: "kernel_ok (k\<lparr>k_cur := c\<rparr>) = kernel_ok k" "kernel_ok (k\<lparr>k_interrupt := b\<rparr>) = kernel_ok k"
  by (simp_all add: kernel_ok_def)

fun tick_kernel :: "tick_res \<Rightarrow> epa_kernel option" where
  "tick_kernel (TickRc rc k) = Some k" | "tick_kernel TickUb = None"

definition tick_reset :: "run_cfg \<Rightarrow> epa_kernel \<Rightarrow> tick_res \<Rightarrow> tick_res" where
  "tick_reset cfg k1 c = (if k_reset_pending k1 then
      (case epa_kernel_commit_pending_boot_reset cfg k1 of
         (Ok _, k2) \<Rightarrow> TickRc 2 k2 | (Err e, k2) \<Rightarrow> TickRc 0 k2 | (Ub, k2) \<Rightarrow> TickUb) else c)"

lemma tick_reset_ok:
  "cfg_ok cfg \<Longrightarrow> kernel_ok k1 \<Longrightarrow> pred_option kernel_ok (tick_kernel c) \<Longrightarrow> pred_option kernel_ok (tick_kernel (tick_reset cfg k1 c))"
  using commit_ok [of cfg k1] unfolding tick_reset_def by (auto split: prod.split res.split)

lemma fault_worker_ok: "kernel_ok k \<Longrightarrow> kernel_ok (k_upd_w j (\<lambda>w. w\<lparr>w_faulted := True, w_fault_message := f w\<rparr>) k)"
  by (simp add: kernel_ok_def k_upd_w_def worker_wf_def)

lemma exec_one_tick_ok:
  assumes cfg: "cfg_ok cfg" and d: "keeps dispatch" and k: "kernel_ok k"
  shows "pred_option kernel_ok (tick_kernel (exec_one_tick cfg dispatch w k))"
proof -
  let ?res = "epa_flow_step (kernel_env cfg dispatch k) (InSlot w) \<lparr>m_k = k, m_at = worker_zero\<rparr>"
  have m: "pred_option (\<lambda>m. kernel_ok (m_k m)) (flow_mach ?res)" by (rule run_step_ok [OF cfg d k])
  have eq: "exec_one_tick cfg dispatch w k =
    (case ?res of
       FlowUndef \<Rightarrow> TickUb
     | FlowErr e m \<Rightarrow> tick_reset cfg (m_k m)
         (let k1 = k_upd_w w (\<lambda>w. w\<lparr>w_faulted := True, w_fault_message := (if e = [] then w_fault_message w else take 255 e)\<rparr>) (m_k m)
          in TickRc 0 (kdbg_emit KDBG_EXCEPT (of_nat w) 0xFFFF0002 (Some (vm_eip (w_vm (k_workers k1 w)))) e k1))
     | FlowOk m \<Rightarrow> tick_reset cfg (m_k m) (TickRc 1 (k_upd_w w (\<lambda>w. w\<lparr>w_halted := True\<rparr>) (m_k m)))
     | FlowNotFlow m \<Rightarrow> tick_reset cfg (m_k m) (TickRc 1 (m_k m))
     | FlowYielded m \<Rightarrow> tick_reset cfg (m_k m) (TickRc 1 (m_k m)))"
    unfolding exec_one_tick_def Let_def tick_reset_def ..
  show ?thesis
    unfolding eq using m by (cases ?res) (auto simp: Let_def intro!: tick_reset_ok [OF cfg] stop_worker_ok fault_worker_ok)
qed

lemma bind_workers_k [simp]: "cs_k (bind_workers ws s) = cs_k s"
  by (induction ws s rule: bind_workers.induct) (auto split: option.split)

lemma unbind_k [simp]: "cs_k (unbind_locked t s) = cs_k s"
  by (simp add: unbind_locked_def)

lemma cpu_step_kernel_ok:
  assumes "cpu_step cfg dispatch lim s s'" "cfg_ok cfg" "keeps dispatch" "kernel_ok (cs_k s)"
  shows "kernel_ok (cs_k s')"
  using assms(1)
proof cases
  case (thread i t pc)
  have tick: "kernel_ok k1" if "exec_one_tick cfg dispatch w (cs_k s) = TickRc rc k1" for w rc k1
    using exec_one_tick_ok [OF assms(2,3,4), of w] that by simp
  show ?thesis using thread assms(4) tick
    by (cases pc) (auto simp: thread_top_def thread_unbind_def thread_tick_def Let_def split: if_splits option.splits tick_res.splits)
next
  case run
  have d: "kernel_ok (snd (epa_kernel_drain_ingress (pf_al (rc_pf cfg)) (cs_k s)))" by (rule drain_ok [OF assms(2,4)])
  show ?thesis
  proof (cases "cs_run s")
    case RFirst then show ?thesis using run d assms(4) by (auto simp: cpu_drain_def split: prod.splits res.splits)
  next
    case RDrain then show ?thesis using run d assms(4)
      by (auto simp: cpu_drain_def run_drained_def Let_def split: prod.splits res.splits if_splits)
  qed (use run assms(4) in \<open>auto simp: run_top_def run_locked_def run_park_def cpu_bind_runnable_def Let_def split: if_splits\<close>)
next
  case (push wid tag data sk sw) then show ?thesis using assms(4) by (simp add: host_push_def ingress_push_ok)
qed (use assms(4) in \<open>auto simp: cpu_run_def request_flag_def request_store_def cpu_stop_def add_threads_begin_def
      add_threads_next_def split: option.splits if_splits\<close>)

text \<open>A kernel run by the thread scheduler stays well formed, in every state that the threads, the run call and the host's
  messages, interrupts, added threads and stops bring about, for the schedules in which no instruction and no drain overlaps another
  one. The code does not enforce this: it holds no lock around \<open>epa_flow_step\<close> or the drain.\<close>

lemma cpu_kernel_ok:
  assumes "cfg_ok cfg" "keeps dispatch" "kernel_ok k" "cpu_reach cfg dispatch lim k s"
  shows "kernel_ok (cs_k s)"
  using assms(4)
proof (induction rule: cpu_reach.induct)
  case init then show ?case using assms(3) by (simp add: cpu_init_def)
next
  case (step s s') then show ?case using cpu_step_kernel_ok assms(1,2) by blast
qed

section \<open>Where nothing is queued\<close>

definition no_messages :: "epa_kernel \<Rightarrow> bool" where
  "no_messages k \<longleftrightarrow> (\<forall>i < 256. cq_count (k_ingress k i) = 0)"

lemma drain_nothing: "no_messages k \<Longrightarrow> epa_kernel_drain_ingress al k = (Ok (), k)"
proof -
  assume n: "no_messages k"
  have "drain_workers al xs k = (Ok (), k)" if "\<forall>i \<in> set xs. i < 256" for xs
    using that n by (induction xs) (auto simp: no_messages_def)
  then show ?thesis by (simp add: epa_kernel_drain_ingress_def)
qed

lemma bind_none:
  "\<forall>w \<in> set ws. \<not> worker_runnable (k_workers (cs_k s) w) \<Longrightarrow> bind_workers ws s = cpu_wake s"
  by (induction ws s rule: bind_workers.induct) auto

lemma reach_thread:
  "cpu_reach cfg d lim k s \<Longrightarrow> i < length (cs_threads s) \<Longrightarrow> cs_threads s ! i = (t, pc) \<Longrightarrow>
     cpu_thread_step cfg d i t pc s = Some s' \<Longrightarrow> cpu_reach cfg d lim k s'"
  by (rule cpu_reach.step, assumption, rule cpu_step.thread)

lemma reach_run: "cpu_reach cfg d lim k s \<Longrightarrow> cs_run s = r \<Longrightarrow> cpu_run_step cfg r s = Some s' \<Longrightarrow> cpu_reach cfg d lim k s'"
  by (rule cpu_reach.step, assumption, rule cpu_step.run, simp)

section \<open>The current worker\<close>

text \<open>A scheduler with two threads in a run without a budget.\<close>

definition two_threads :: "cpu_pc \<Rightarrow> cpu_pc \<Rightarrow> nat option list \<Rightarrow> cpu_run_pc \<Rightarrow> u32 \<Rightarrow> epa_kernel \<Rightarrow> cpu_sched" where
  "two_threads a b ts r ticks k = \<lparr>cs_n = 2, cs_t2w = ts @ replicate (256 - length ts) None, cs_w2t = ts @ replicate (256 - length ts) None,
     cs_stop = False, cs_intr = False, cs_threads = [(0, a), (1, b)], cs_add = Some (2, 2), cs_run = r, cs_max = 0, cs_debug = False,
     cs_ticks = ticks, cs_seen = k_deliveries k, cs_k = k\<rparr>"

lemma two_threads_simps [simp]:
  "cs_threads (two_threads a b ts r n k) = [(0, a), (1, b)]" "cs_run (two_threads a b ts r n k) = r" "cs_k (two_threads a b ts r n k) = k"
  "cs_stop (two_threads a b ts r n k) = False" "cs_intr (two_threads a b ts r n k) = False" "cs_max (two_threads a b ts r n k) = 0"
  "cs_n (two_threads a b ts r n k) = 2" "cs_t2w (two_threads a b ts r n k) = ts @ replicate (256 - length ts) None"
  "cs_w2t (two_threads a b ts r n k) = ts @ replicate (256 - length ts) None" "cs_ticks (two_threads a b ts r n k) = n"
  "cs_seen (two_threads a b ts r n k) = k_deliveries k"
  "run_goto q (two_threads a b ts r n k) = two_threads a b ts q n k"
  "cpu_goto 0 c (two_threads a b ts r n k) = two_threads c b ts r n k"
  "cpu_goto (Suc 0) c (two_threads a b ts r n k) = two_threads a c ts r n k"
  "(two_threads a b ts r n k)\<lparr>cs_ticks := n'\<rparr> = two_threads a b ts r n' k"
  "(two_threads a b ts r n k)\<lparr>cs_k := k\<rparr> = two_threads a b ts r n k"
  "(two_threads a b ts r n k)\<lparr>cs_k := k, cs_ticks := n'\<rparr> = two_threads a b ts r n' k"
  by (simp_all add: two_threads_def run_goto_def cpu_goto_def)

lemma two_threads_called:
  assumes "k_loaded k" "no_messages k"
  shows "cpu_reach cfg d 1 k (two_threads CTop CTop [] RTop 0 (k\<lparr>k_interrupt := False\<rparr>))"
proof -
  let ?k = "k\<lparr>k_interrupt := False\<rparr>" and ?R = "cpu_reach cfg d 1 k" and ?s = "cpu_init k"
  have dr: "epa_kernel_drain_ingress al ?k = (Ok (), ?k)" for al
    by (rule drain_nothing) (use assms(2) in \<open>simp add: no_messages_def\<close>)
  have "?R (?s\<lparr>cs_n := 2, cs_add := Some (1, 2)\<rparr>)"
    by (rule cpu_reach.step [OF cpu_reach.init cpu_step.add [where c = 1]]) (simp_all add: cpu_init_def add_threads_begin_def)
  from cpu_reach.step [OF this cpu_step.spawn [where ok = True]]
  have "?R (?s\<lparr>cs_n := 2, cs_add := Some (2, 2), cs_threads := [(0, CTop), (1, CTop)]\<rparr>)"
    by (simp add: add_threads_next_def cpu_init_def word_le_nat_alt)
  from cpu_reach.step [OF this cpu_step.call [where m = 0 and d = False]]
  have "?R (run_goto RFirst (?s\<lparr>cs_n := 2, cs_add := Some (2, 2), cs_threads := [(0, CTop), (1, CTop)], cs_k := ?k\<rparr>))"
    using assms(1) by (simp add: cpu_run_def cpu_init_def)
  from reach_run [OF this refl] show ?thesis
    by (simp add: cpu_drain_def dr cpu_init_def two_threads_def run_goto_def)
qed

lemma two_threads_bind:
  assumes "length ts < 256"
  shows "cpu_wake ((two_threads CTop CTop ts RLock n k)
      \<lparr>cs_t2w := (ts @ replicate (256 - length ts) None)[length ts := Some (length ts)],
       cs_w2t := (ts @ replicate (256 - length ts) None)[length ts := Some (length ts)]\<rparr>)
    = two_threads CTop CTop (ts @ [Some (length ts)]) RLock n k"
proof -
  have "(ts @ replicate (256 - length ts) None)[length ts := Some (length ts)] = (ts @ [Some (length ts)]) @ replicate (256 - Suc (length ts)) None"
    using assms by (simp add: list_update_append Suc_diff_Suc [symmetric])
  then show ?thesis by (simp add: two_threads_def cpu_wake_def)
qed

lemma two_workers_bound:
  assumes "k_loaded k" "no_messages k" "\<not> w_faulted (k_workers k 0)" "\<forall>w < 256. worker_runnable (k_workers k w) \<longleftrightarrow> w < 2"
  shows "\<exists>n. cpu_reach cfg d 1 k (two_threads (CSet 0) (CSet 1) [Some 0, Some 1] RSleep n (k\<lparr>k_interrupt := False\<rparr>))"
proof -
  let ?k = "k\<lparr>k_interrupt := False\<rparr>" and ?R = "cpu_reach cfg d 1 k"
  have dr: "epa_kernel_drain_ingress al ?k = (Ok (), ?k)" for al
    by (rule drain_nothing) (use assms(2) in \<open>simp add: no_messages_def\<close>)
  from reach_run [OF two_threads_called [OF assms(1,2)] refl] have "?R (two_threads CTop CTop [] RDrain 0 ?k)"
    by (simp add: run_top_def assms(3))
  from reach_run [OF this refl] obtain n where lock: "?R (two_threads CTop CTop [] RLock n ?k)"
    by (simp add: cpu_drain_def dr run_drained_def Let_def split: if_splits)
  have free: "free_thread (two_threads CTop CTop [] r n ?k) = Some 0" "free_thread (two_threads CTop CTop [Some 0] r n ?k) = Some 1" for r
    by (simp_all add: free_thread_def upt_rec)
  have rest: "bind_workers [2..<256] (two_threads CTop CTop [Some 0, Some 1] RLock n ?k) = two_threads CTop CTop [Some 0, Some 1] RLock n ?k"
    using assms(4) by (subst bind_none) (auto simp: two_threads_def cpu_wake_def)
  have "[0::nat..<256] = 0 # 1 # [2..<256]" by (simp add: upt_conv_Cons)
  then have "bind_workers [0..<256] (two_threads CTop CTop [] RLock n ?k) = two_threads CTop CTop [Some 0, Some 1] RLock n ?k"
    using two_threads_bind [of "[]" n ?k] two_threads_bind [of "[Some 0]" n ?k] free rest assms(4) by simp
  from reach_run [OF lock refl] this have "?R (two_threads CTop CTop [Some 0, Some 1] RSleep n ?k)"
    by (simp add: run_locked_def cpu_bind_runnable_def Let_def)
  from reach_thread [OF this, of 0] have "?R (two_threads (CIntr 0) CTop [Some 0, Some 1] RSleep n ?k)"
    by (simp add: thread_top_def)
  from reach_thread [OF this, of 0] have "?R (two_threads (CRun 0) CTop [Some 0, Some 1] RSleep n ?k)" by simp
  from reach_thread [OF this, of 0] have "?R (two_threads (CSet 0) CTop [Some 0, Some 1] RSleep n ?k)" using assms(4) by simp
  from reach_thread [OF this, of 1] have "?R (two_threads (CSet 0) (CIntr 1) [Some 0, Some 1] RSleep n ?k)" by (simp add: thread_top_def)
  from reach_thread [OF this, of 1] have "?R (two_threads (CSet 0) (CRun 1) [Some 0, Some 1] RSleep n ?k)" by simp
  from reach_thread [OF this, of 1] have "?R (two_threads (CSet 0) (CSet 1) [Some 0, Some 1] RSleep n ?k)" using assms(4) by simp
  then show ?thesis by blast
qed

text \<open>C29: The current worker of the kernel is shared by all threads: where a kernel has just the workers 0 and 1 to run and the host adds one thread,
  the scheduler reaches a state in which the thread of worker 0 is about to execute its instruction while the kernel says
  that worker 1 runs; if that instruction is a SYNC of a kernel with room in its ring, it blocks worker 1, and the ring records
  worker 1.\<close>

theorem current_worker_race:
  assumes "k_loaded k" "no_messages k" "\<not> w_faulted (k_workers k 0)" "\<forall>w < 256. worker_runnable (k_workers k w) \<longleftrightarrow> w < 2"
  shows "\<exists>s. cpu_reach cfg d 1 k s \<and> cs_threads s = [(0, CTick 0), (1, CTick 1)] \<and> k_cur (cs_k s) = 1
    \<and> k_workers (cs_k s) = k_workers k
    \<and> (\<forall>q. epa_ring_push (k_syncq k) 1 True = Inr q \<and> w_id (k_workers k 1) \<noteq> 0 \<longrightarrow>
         (\<exists>k'. hook_sync (cs_k s) = (Ok (), k') \<and> k_syncq k' = q \<and> w_blocked (k_workers k' 1)))"
proof -
  obtain n where "cpu_reach cfg d 1 k (two_threads (CSet 0) (CSet 1) [Some 0, Some 1] RSleep n (k\<lparr>k_interrupt := False\<rparr>))"
    using two_workers_bound [OF assms] by blast
  from reach_thread [OF this, of 0]
  have "cpu_reach cfg d 1 k (two_threads (CTick 0) (CSet 1) [Some 0, Some 1] RSleep n (k\<lparr>k_interrupt := False, k_cur := 0\<rparr>))"
    by (simp add: two_threads_def cpu_goto_def)
  from reach_thread [OF this, of 1]
  have r: "cpu_reach cfg d 1 k (two_threads (CTick 0) (CTick 1) [Some 0, Some 1] RSleep n (k\<lparr>k_interrupt := False, k_cur := 1\<rparr>))"
    by (simp add: two_threads_def cpu_goto_def)
  have "w_inited (k_workers k 1)" using assms(4) by (auto simp: worker_runnable_def dest: spec [of _ 1])
  then have "\<exists>k'. hook_sync (k\<lparr>k_interrupt := False, k_cur := 1\<rparr>) = (Ok (), k') \<and> k_syncq k' = q \<and> w_blocked (k_workers k' 1)"
    if "epa_ring_push (k_syncq k) 1 True = Inr q" "w_id (k_workers k 1) \<noteq> 0" for q
    using that by (auto simp: hook_sync_def Let_def k_upd_w_def)
  with r show ?thesis by (intro exI [of _ "two_threads (CTick 0) (CTick 1) [Some 0, Some 1] RSleep n (k\<lparr>k_interrupt := False, k_cur := 1\<rparr>)"]) auto
qed

definition race_kernel :: epa_kernel where
  "race_kernel = sync_demo\<lparr>k_loaded := True,
     k_workers := (\<lambda>i. if i < 2 then worker_zero\<lparr>w_inited := True, w_id := of_nat i\<rparr> else worker_zero)\<rparr>"

lemma race_kernel_simps:
  "k_loaded race_kernel" "no_messages race_kernel" "\<not> w_faulted (k_workers race_kernel 0)"
  "worker_runnable (k_workers race_kernel w) \<longleftrightarrow> w < 2" "w_id (k_workers race_kernel 1) = 1" "w_id (k_workers race_kernel (Suc 0)) = 1"
  by (simp_all add: race_kernel_def sync_demo_def kernel_zero_def no_messages_def cq_zero_def worker_runnable_def worker_zero_def)

lemma race_kernel_ok: "kernel_ok race_kernel"
  using kernel_wf_ok [of "\<lambda>_. 0" sync_demo] sync_demo_wf worker_zero_wf
  by (auto simp: race_kernel_def kernel_ok_def mach_wf_def worker_wf_def)

theorem current_worker_race_witness:
  "\<exists>s k'. cpu_reach demo_cfg (\<lambda>k. (Ok (), k)) 1 race_kernel s \<and> cs_threads s = [(0, CTick 0), (1, CTick 1)]
     \<and> hook_sync (cs_k s) = (Ok (), k') \<and> w_blocked (k_workers k' 1) \<and> \<not> w_blocked (k_workers (cs_k s) 1)"
proof -
  obtain q where q: "epa_ring_push (k_syncq race_kernel) 1 True = Inr q"
    by (simp add: race_kernel_def sync_demo_def epa_ring_push_def ring_push_def epa_ring_init_def ring_zero_def Let_def)
  have b: "\<not> w_blocked (k_workers race_kernel 1)" by (simp add: race_kernel_def worker_zero_def)
  obtain s where s: "cpu_reach demo_cfg (\<lambda>k. (Ok (), k)) 1 race_kernel s" "cs_threads s = [(0, CTick 0), (1, CTick 1)]"
    "k_workers (cs_k s) = k_workers race_kernel"
    "\<forall>q. epa_ring_push (k_syncq race_kernel) 1 True = Inr q \<and> w_id (k_workers race_kernel 1) \<noteq> 0 \<longrightarrow>
       (\<exists>k'. hook_sync (cs_k s) = (Ok (), k') \<and> k_syncq k' = q \<and> w_blocked (k_workers k' 1))"
    using current_worker_race [of race_kernel demo_cfg "\<lambda>k. (Ok (), k)"] race_kernel_simps by auto
  have "w_id (k_workers race_kernel 1) \<noteq> 0" by (simp add: race_kernel_simps)
  with s(4) q obtain k' where "hook_sync (cs_k s) = (Ok (), k')" "w_blocked (k_workers k' 1)" by blast
  then show ?thesis using s b by (intro exI [of _ s] exI [of _ k']) simp
qed

lemma race_kernel_stays_ok:
  "\<exists>n. cpu_reach demo_cfg (\<lambda>k. (Ok (), k)) 1 race_kernel
         (two_threads (CSet 0) (CSet 1) [Some 0, Some 1] RSleep n (race_kernel\<lparr>k_interrupt := False\<rparr>))
       \<and> kernel_ok (race_kernel\<lparr>k_interrupt := False\<rparr>)"
proof -
  have d: "keeps (\<lambda>k. (Ok (), k))" by (simp add: keeps_def)
  obtain n where r: "cpu_reach demo_cfg (\<lambda>k. (Ok (), k)) 1 race_kernel
      (two_threads (CSet 0) (CSet 1) [Some 0, Some 1] RSleep n (race_kernel\<lparr>k_interrupt := False\<rparr>))"
    using two_workers_bound [of race_kernel demo_cfg "\<lambda>k. (Ok (), k)"] race_kernel_simps by blast
  with cpu_kernel_ok [OF demo_cfg_ok d race_kernel_ok r] show ?thesis by auto
qed

section \<open>A stopped scheduler\<close>

text \<open>A boot reset committed by a thread stops the scheduler for good.\<close>

lemma reset_stops:
  assumes "exec_one_tick cfg dispatch w (cs_k s) = TickRc 2 k'" "i < length (cs_threads s)" "cs_threads s ! i = (t, CTick w)"
  shows "\<exists>s1 s2. cpu_thread_step cfg dispatch i t (CTick w) s = Some s1 \<and> cpu_thread_step cfg dispatch i t CStop s1 = Some s2
    \<and> cs_threads s1 ! i = (t, CStop) \<and> cs_stop s2 \<and> cs_k s2 = k'"
  using assms by (simp add: thread_tick_def cpu_goto_def cpu_wake_def)

lemma stop_for_ever:
  assumes "cpu_step cfg dispatch lim s s'" "cs_stop s"
  shows "cs_stop s'"
  using assms(1)
proof cases
  case (thread i t pc)
  then show ?thesis using assms(2)
    by (cases pc) (auto simp: thread_top_def thread_unbind_def thread_tick_def Let_def cpu_goto_def cpu_wake_def
        unbind_locked_def split: if_splits option.splits tick_res.splits)
next
  case run then show ?thesis using assms(2)
    by (cases "cs_run s") (auto simp: cpu_drain_def run_drained_def run_top_def run_locked_def run_park_def
        cpu_bind_runnable_def bind_workers_stop Let_def run_goto_def cpu_wake_def split: prod.splits res.splits if_splits)
qed (use assms(2) in \<open>auto simp: cpu_run_def run_goto_def request_flag_def request_store_def cpu_stop_def cpu_wake_def
      add_threads_begin_def add_threads_next_def host_push_def split: option.splits if_splits\<close>)

text \<open>The steps that are left when the host makes no request but to wake the scheduler.\<close>

inductive quiet_step :: "run_cfg \<Rightarrow> (epa_kernel \<Rightarrow> unit kres) \<Rightarrow> cpu_sched \<Rightarrow> cpu_sched \<Rightarrow> bool" for cfg dispatch where
  thread: "i < length (cs_threads s) \<Longrightarrow> cs_threads s ! i = (t, pc) \<Longrightarrow> cpu_thread_step cfg dispatch i t pc s = Some s' \<Longrightarrow>
    quiet_step cfg dispatch s s'"
| run: "cpu_run_step cfg (cs_run s) s = Some s' \<Longrightarrow> quiet_step cfg dispatch s s'"
| wake: "quiet_step cfg dispatch s (cpu_wake s)"

lemma quiet_cpu_step: "quiet_step cfg dispatch s s' \<Longrightarrow> cpu_step cfg dispatch lim s s'"
  by (induction rule: quiet_step.induct) (blast intro: cpu_step.intros)+

definition out_of_tick :: "cpu_pc \<Rightarrow> bool" where
  "out_of_tick pc \<longleftrightarrow> (case pc of CTop \<Rightarrow> True | CWaiting \<Rightarrow> True | CUnbind w \<Rightarrow> True | CStop \<Rightarrow> True | CExit \<Rightarrow> True | _ \<Rightarrow> False)"

definition hung :: "epa_kernel \<Rightarrow> cpu_sched \<Rightarrow> bool" where
  "hung k s \<longleftrightarrow> cs_stop s \<and> cs_max s = 0 \<and> cs_run s \<in> {RTop, RDrain, RLock, RSleep} \<and> cs_k s = k
     \<and> (\<forall>x \<in> set (cs_threads s). out_of_tick (snd x))"

lemma hung_wake: "hung k s \<Longrightarrow> hung k (cpu_wake s)"
  by (auto simp: hung_def cpu_wake_def out_of_tick_def split: if_splits)

lemma hung_goto: "hung k s \<Longrightarrow> out_of_tick pc \<Longrightarrow> hung k (cpu_goto i pc s)"
  unfolding hung_def cpu_goto_def by (auto dest!: set_update_subset_insert [THEN subsetD])

lemma hung_tables: "hung k s \<Longrightarrow> hung k (s\<lparr>cs_t2w := a, cs_w2t := b\<rparr>)"
  by (simp add: hung_def)

lemma hung_bind: "hung k s \<Longrightarrow> hung k (bind_workers ws s)"
proof (induction ws s rule: bind_workers.induct)
  case (2 w ws s) then show ?case by (auto split: option.split intro: hung_wake hung_tables)
qed (simp add: hung_wake)

lemma hung_thread:
  assumes "hung k s" "i < length (cs_threads s)" "cs_threads s ! i = (t, pc)" "cpu_thread_step cfg dispatch i t pc s = Some s'"
  shows "hung k s'"
proof -
  have pc: "out_of_tick pc" using assms(1-3) nth_mem [OF assms(2)] by (auto simp: hung_def)
  have stop: "cs_stop s" using assms(1) by (simp add: hung_def)
  have u: "hung k (unbind_locked j x)" if "hung k x" for j x using hung_tables [OF that] by (simp add: unbind_locked_def hung_def)
  have g: "hung k (cpu_goto i c s)" if "c = CTop \<or> c = CExit" for c
    using hung_goto [OF assms(1)] that by (auto simp: out_of_tick_def)
  have st: "s\<lparr>cs_stop := True\<rparr> = s" using stop by simp
  have top: "hung k (cpu_goto i CTop s)" "hung k (cpu_goto i CExit s)" using g by blast+
  show ?thesis using assms(4) pc top hung_wake [OF u [OF top(1)]] hung_wake [OF top(1)] assms(1)
    by (cases pc) (auto simp: thread_top_def stop st thread_unbind_def Let_def out_of_tick_def)
qed

lemma hung_run:
  assumes "hung k s" "no_messages k" "\<not> k_interrupt k" "\<not> w_faulted (k_workers k 0)" "cpu_run_step cfg (cs_run s) s = Some s'"
  shows "hung k s'"
proof -
  have g: "hung k (run_goto r x)" if "hung k x" "r \<in> {RTop, RDrain, RLock, RSleep}" for r x
    using that by (auto simp: hung_def run_goto_def)
  have k: "cs_k s = k" "cs_max s = 0" using assms(1) by (auto simp: hung_def)
  have b: "hung k (cpu_bind_runnable s)" using assms(1) hung_bind by (simp add: cpu_bind_runnable_def)
  then have bk: "cs_k (cpu_bind_runnable s) = k" "cs_max (cpu_bind_runnable s) = 0" by (auto simp: hung_def)
  have t: "hung k (s\<lparr>cs_ticks := n\<rparr>)" "hung k (s\<lparr>cs_seen := d, cs_ticks := n\<rparr>)" for n d
    using assms(1) by (auto simp: hung_def)
  have kk: "s\<lparr>cs_k := k\<rparr> = s" using k by simp
  have d: "hung k (run_drained (s\<lparr>cs_k := k\<rparr>))"
    unfolding kk run_drained_def Let_def by (intro g) (use assms(1) t in \<open>auto simp del: One_nat_def\<close>)
  consider "cs_run s = RTop" | "cs_run s = RDrain" | "cs_run s = RLock" | "cs_run s = RSleep" using assms(1) by (auto simp: hung_def)
  then show ?thesis
  proof cases
    case 1 then have "s' = run_goto RDrain s" using assms(4,5) k by (simp add: run_top_def)
    then show ?thesis using g [OF assms(1)] by simp
  next
    case 2 then show ?thesis using assms(5) d k drain_nothing [OF assms(2)] by (simp add: cpu_drain_def)
  next
    case 3 then show ?thesis using assms(3,5) bk g [OF b, of RSleep] by (simp add: run_locked_def Let_def)
  next
    case 4 then show ?thesis using assms(5) g [OF assms(1), of RTop] by simp
  qed
qed

text \<open>C30: A scheduler that has been stopped, as a thread does when an instruction commits a boot reset, never answers a run call without a
  budget: with no thread inside its loop of instructions, no message, no interrupt and worker 0 sound, whatever the threads and the call do
  and however often the host wakes them, no instruction is executed any more and the call does not return.\<close>

theorem stopped_never_answers:
  assumes "cs_stop s" "cs_max s = 0" "cs_run s \<in> {RTop, RDrain, RLock, RSleep}" "\<forall>x \<in> set (cs_threads s). out_of_tick (snd x)"
    and "no_messages (cs_k s)" "\<not> k_interrupt (cs_k s)" "\<not> w_faulted (k_workers (cs_k s) 0)"
    and "(quiet_step cfg dispatch)\<^sup>*\<^sup>* s s'"
  shows "cs_k s' = cs_k s \<and> cs_run s' \<in> {RTop, RDrain, RLock, RSleep} \<and> (\<forall>x \<in> set (cs_threads s'). out_of_tick (snd x))"
proof -
  have "hung (cs_k s) s'" using assms(8)
  proof (induction rule: rtranclp_induct)
    case base then show ?case using assms(1-4) by (simp add: hung_def)
  next
    case (step y z)
    from step(2) show ?case
    proof cases
      case (thread i t pc) then show ?thesis using hung_thread [OF step.IH] by blast
    next
      case run then show ?thesis by (rule hung_run [OF step.IH assms(5-7)])
    next
      case wake then show ?thesis using hung_wake [OF step.IH] by simp
    qed
  qed
  then show ?thesis by (simp add: hung_def)
qed

text \<open>The witness: the host stops a fresh scheduler, then calls run.\<close>

definition stopped_run :: cpu_sched where
  "stopped_run = run_goto RTop (cpu_run 0 False (cpu_stop (cpu_init race_kernel)))"

theorem stopped_never_answers_witness:
  "cs_threads (run_goto RDrain (cpu_goto 0 CExit stopped_run)) = [(0, CExit)]
   \<and> cs_run (run_goto RDrain (cpu_goto 0 CExit stopped_run)) = RDrain
   \<and> cs_k (run_goto RDrain (cpu_goto 0 CExit stopped_run)) = race_kernel\<lparr>k_interrupt := False\<rparr>"
proof -
  let ?s = "stopped_run" and ?q = "quiet_step demo_cfg (\<lambda>k. (Ok (), k))"
  have s: "cs_stop ?s" "cs_max ?s = 0" "cs_run ?s = RTop" "cs_threads ?s = [(0, CTop)]" "cs_k ?s = race_kernel\<lparr>k_interrupt := False\<rparr>"
    by (simp_all add: stopped_run_def cpu_run_def cpu_stop_def cpu_wake_def cpu_init_def run_goto_def race_kernel_simps)
  have k: "no_messages (cs_k ?s)" "\<not> k_interrupt (cs_k ?s)" "\<not> w_faulted (k_workers (cs_k ?s) 0)"
    using race_kernel_simps by (simp_all add: s no_messages_def)
  have "?q ?s (cpu_goto 0 CExit ?s)"
    by (rule quiet_step.thread [where i = 0 and t = 0 and pc = CTop]) (simp_all add: s thread_top_def)
  moreover have "?q (cpu_goto 0 CExit ?s) (run_goto RDrain (cpu_goto 0 CExit ?s))"
    by (rule quiet_step.run) (use k s in \<open>simp add: run_top_def cpu_goto_def\<close>)
  ultimately have q: "?q\<^sup>*\<^sup>* ?s (run_goto RDrain (cpu_goto 0 CExit ?s))" by simp
  have "out_of_tick CTop" by (simp add: out_of_tick_def)
  then show ?thesis
    using stopped_never_answers [OF s(1,2) _ _ k q] s by (simp add: cpu_goto_def run_goto_def)
qed

section \<open>Requests that come to nothing\<close>

text \<open>A message that arrives, with its wake, between the drain and the lock leaves the call asleep over it.\<close>

lemma lost_wakeup:
  assumes "cs_run s = RDrain" "no_messages (cs_k s)" "\<not> k_interrupt (cs_k s)" "cs_max s = 0"
    and "epa_kernel_ingress_push_framed (pf_al (rc_pf cfg)) wid tag data sk sw (cs_k s) = (COk (), k1)"
    and "\<not> no_messages k1" "\<not> k_interrupt k1" "\<forall>w < 256. \<not> worker_runnable (k_workers k1 w)"
  shows "\<exists>s1 s2. cpu_run_step cfg RDrain s = Some s1
    \<and> cpu_run_step cfg (cs_run (cpu_wake (host_push (pf_al (rc_pf cfg)) wid tag data sk sw s1)))
        (cpu_wake (host_push (pf_al (rc_pf cfg)) wid tag data sk sw s1)) = Some s2
    \<and> cs_run s2 = RSleep \<and> \<not> no_messages (cs_k s2)"
proof -
  let ?p = "\<lambda>s. cpu_wake (host_push (pf_al (rc_pf cfg)) wid tag data sk sw s)"
  obtain s1 where s1: "cpu_run_step cfg RDrain s = Some s1" "cs_run s1 = RLock" "cs_k s1 = cs_k s" "cs_max s1 = 0"
    using drain_nothing [OF assms(2)] assms(4) by (simp add: cpu_drain_def run_drained_def Let_def run_goto_def)
  have p: "cs_run (?p s1) = RLock" "cs_k (?p s1) = k1" "cs_max (?p s1) = 0"
    using s1 assms(5) by (simp_all add: cpu_wake_def host_push_def)
  have b: "cs_k (cpu_bind_runnable (?p s1)) = k1" "cs_max (cpu_bind_runnable (?p s1)) = 0"
    using p assms(8) by (simp_all add: cpu_bind_runnable_def bind_none cpu_wake_def)
  have "cs_run (run_locked (?p s1)) = RSleep \<and> cs_k (run_locked (?p s1)) = k1"
    using b assms(7) by (simp add: run_locked_def Let_def run_goto_def)
  with s1 p(1) assms(6) show ?thesis by auto
qed

text \<open>The sum of the thread counts wraps.\<close>

lemma add_threads_wraps: "\<exists>s. add_threads_begin (- 1) (cpu_init k) = Inr s \<and> cs_n s = 0"
  by (simp add: add_threads_begin_def cpu_init_def)

end
